(* ===== verification/Prelude.thy ===== *)
theory Prelude
  imports Main "HOL-Library.AList" "HOL-Library.Sublist"
begin

text \<open>
  Shared ground of the development: the Go integers, times, strings and maps that the
  components use, the interface \<open>go_map\<close> of a Go map with its laws, and the generic lemmas
  on association lists, folds and runs that the component theories share.
\<close>

named_theorems go_arith \<open>facts on the wrap-around of Go's 64-bit integers\<close>
named_theorems go_time \<open>unfolding of the comparisons of time.Time\<close>

section \<open>Integers\<close>

text \<open>
  Go's \<open>int\<close> and \<open>int64\<close> are 64-bit two's complement on the platforms the program is built
  for. A value is an \<open>int\<close>; every arithmetic result that can leave the range is wrapped by
  \<open>i64\<close>. Counters that only ever count events of one connection are left unwrapped.
\<close>

definition i64 :: "int \<Rightarrow> int" where
  "i64 k = signed_take_bit 63 k"

definition int64_range :: "int \<Rightarrow> bool" where
  "int64_range k \<longleftrightarrow> - (2 ^ 63) \<le> k \<and> k < 2 ^ 63"

section \<open>Times and durations\<close>

text \<open>
  A \<open>time.Time\<close> is the number of nanoseconds since the zero time of Go (January 1, year 1),
  so that \<open>IsZero\<close> is equality with 0. A \<open>time.Duration\<close> is a 64-bit number of
  nanoseconds; \<open>Sub\<close> saturates, as the library's does.
\<close>

type_synonym time = int
type_synonym duration = int

definition time_is_zero :: "time \<Rightarrow> bool" where
  "time_is_zero t \<longleftrightarrow> t = 0"

definition time_before :: "time \<Rightarrow> time \<Rightarrow> bool" where
  "time_before t u \<longleftrightarrow> t < u"

definition time_after :: "time \<Rightarrow> time \<Rightarrow> bool" where
  "time_after t u \<longleftrightarrow> u < t"

definition time_add :: "time \<Rightarrow> duration \<Rightarrow> time" where
  "time_add t d = t + d"

definition time_sub :: "time \<Rightarrow> time \<Rightarrow> duration" where
  "time_sub t u = max (- (2 ^ 63)) (min (2 ^ 63 - 1) (t - u))"

definition second :: duration where
  "second = 1000000000"

definition minute :: duration where
  "minute = 60 * second"

definition hour :: duration where
  "hour = 60 * minute"

text \<open>
  \<open>UnixNano\<close> and \<open>time.Unix(0, n)\<close>: nanoseconds since 1970 (exact in the years 1678 to 2262).
\<close>

definition unix_nano :: "time \<Rightarrow> int" where
  "unix_nano t = t - 62135596800 * second"

definition time_unix_nano :: "int \<Rightarrow> time" where
  "time_unix_nano n = n + 62135596800 * second"

text \<open>\<open>time.Duration(n) * time.Second\<close> wraps.\<close>

definition seconds :: "int \<Rightarrow> duration" where
  "seconds n = i64 (n * second)"

section \<open>Strings\<close>

text \<open>
  A Go string is a sequence of bytes, here a char list. \<open>strings.TrimSpace\<close> removes the
  runes of \<open>unicode.IsSpace\<close> from both ends; their UTF-8 encodings are listed in
  \<open>space_runes\<close>. Each encoding begins with a byte that starts a rune, so a prefix (suffix)
  of the bytes is one of them exactly when the first (last) decoded rune is white space.
\<close>

definition space_runes :: "string list" where
  "space_runes =
     [[CHR 0x20], [CHR 0x09], [CHR 0x0A], [CHR 0x0B], [CHR 0x0C], [CHR 0x0D],
      [CHR 0xC2, CHR 0x85], [CHR 0xC2, CHR 0xA0],
      [CHR 0xE1, CHR 0x9A, CHR 0x80],
      [CHR 0xE2, CHR 0x80, CHR 0x80], [CHR 0xE2, CHR 0x80, CHR 0x81],
      [CHR 0xE2, CHR 0x80, CHR 0x82], [CHR 0xE2, CHR 0x80, CHR 0x83],
      [CHR 0xE2, CHR 0x80, CHR 0x84], [CHR 0xE2, CHR 0x80, CHR 0x85],
      [CHR 0xE2, CHR 0x80, CHR 0x86], [CHR 0xE2, CHR 0x80, CHR 0x87],
      [CHR 0xE2, CHR 0x80, CHR 0x88], [CHR 0xE2, CHR 0x80, CHR 0x89],
      [CHR 0xE2, CHR 0x80, CHR 0x8A], [CHR 0xE2, CHR 0x80, CHR 0xA8],
      [CHR 0xE2, CHR 0x80, CHR 0xA9], [CHR 0xE2, CHR 0x80, CHR 0xAF],
      [CHR 0xE2, CHR 0x81, CHR 0x9F], [CHR 0xE3, CHR 0x80, CHR 0x80]]"

definition starts_with :: "string \<Rightarrow> string \<Rightarrow> bool" where
  "starts_with s p \<longleftrightarrow> take (length p) s = p"

definition cut_prefix :: "string \<Rightarrow> string \<Rightarrow> string option" where
  "cut_prefix s p = (if starts_with s p then Some (drop (length p) s) else None)"

function strip :: "string list \<Rightarrow> string \<Rightarrow> string" where
  "strip ws s =
     (case find (\<lambda>w. w \<noteq> [] \<and> starts_with s w) ws of
        None \<Rightarrow> s
      | Some w \<Rightarrow> strip ws (drop (length w) s))"
  by pat_completeness auto
termination
proof (relation "measure (\<lambda>(ws, s). length s)")
  fix ws :: "string list" and s w :: string
  assume "find (\<lambda>w. w \<noteq> [] \<and> starts_with s w) ws = Some w"
  then have "w \<noteq> []" and "starts_with s w"
    by (auto simp: find_Some_iff)
  then show "((ws, drop (length w) s), ws, s) \<in> measure (\<lambda>(ws, s). length s)"
    by (cases s) (auto simp: starts_with_def)
qed simp

declare strip.simps [simp del]

definition trim_space :: "string \<Rightarrow> string" where
  "trim_space s = rev (strip (map rev space_runes) (rev (strip space_runes s)))"

section \<open>Go maps\<close>

text \<open>
  A Go map is an association list with distinct keys. Reading a missing key is \<open>None\<close> (the
  code tests \<open>ok\<close> or gets the zero value), storing replaces or adds, \<open>delete\<close> of a
  missing key does nothing and \<open>len\<close> counts the keys. Go does not fix the order of
  iteration: an operation that iterates takes the order of that run as an argument.
\<close>

type_synonym ('k, 'v) gomap = "('k \<times> 'v) list"

definition gget :: "('k, 'v) gomap \<Rightarrow> 'k \<Rightarrow> 'v option" where
  "gget m k = map_of m k"

definition gput :: "('k, 'v) gomap \<Rightarrow> 'k \<Rightarrow> 'v \<Rightarrow> ('k, 'v) gomap" where
  "gput m k v = AList.update k v m"

definition gdel :: "('k, 'v) gomap \<Rightarrow> 'k \<Rightarrow> ('k, 'v) gomap" where
  "gdel m k = AList.delete k m"

definition glen :: "('k, 'v) gomap \<Rightarrow> nat" where
  "glen m = length m"

definition gkeys :: "('k, 'v) gomap \<Rightarrow> 'k set" where
  "gkeys m = fst ` set m"

definition gmap_ok :: "('k, 'v) gomap \<Rightarrow> bool" where
  "gmap_ok m \<longleftrightarrow> distinct (map fst m)"

text \<open>
  \<open>for k, v := range m { if p(k, v) { delete(m, k) } }\<close>, visiting the keys in the order of
  \<open>ks\<close>; a key that is not in the map when its turn comes is skipped.
\<close>

fun gsweep :: "('k \<Rightarrow> 'v \<Rightarrow> bool) \<Rightarrow> 'k list \<Rightarrow> ('k, 'v) gomap \<Rightarrow> ('k, 'v) gomap" where
  "gsweep p [] m = m"
| "gsweep p (k # ks) m =
     (case gget m k of
        None \<Rightarrow> gsweep p ks m
      | Some v \<Rightarrow> gsweep p ks (if p k v then gdel m k else m))"

section \<open>Lemmas on integers, times and strings\<close>

lemma i64_id [go_arith]: "int64_range k \<Longrightarrow> i64 k = k"
  by (simp add: i64_def int64_range_def signed_take_bit_int_eq_self)

lemma i64_range: "int64_range (i64 k)"
  unfolding i64_def int64_range_def
  using signed_take_bit_int_greater_eq_minus_exp [of 63 k] signed_take_bit_int_less_exp [of 63 k]
  by simp

lemmas time_defs [go_time] =
  time_is_zero_def time_before_def time_after_def time_add_def

lemma time_sub_nonneg: "u \<le> t \<Longrightarrow> 0 \<le> time_sub t u"
  by (simp add: time_sub_def)

lemma time_sub_le: "t \<le> u + d \<Longrightarrow> 0 \<le> d \<Longrightarrow> time_sub t u \<le> d"
  by (simp add: time_sub_def)

lemma time_sub_exact: "int64_range (t - u) \<Longrightarrow> time_sub t u = t - u"
  by (auto simp: time_sub_def int64_range_def)

lemma starts_with_nil [simp]: "starts_with s []"
  by (simp add: starts_with_def)

lemma starts_with_append [simp]: "starts_with (p @ s) p"
  by (simp add: starts_with_def)

lemma starts_with_iff: "starts_with s p \<longleftrightarrow> (\<exists>r. s = p @ r)"
  by (metis append_eq_conv_conj append_take_drop_id starts_with_def)

lemma cut_prefix_Some: "cut_prefix s p = Some r \<longleftrightarrow> s = p @ r"
  by (auto simp: cut_prefix_def starts_with_iff)

lemma strip_done:
  "find (\<lambda>w. w \<noteq> [] \<and> starts_with (strip ws s) w) ws = None"
proof (induction ws s rule: strip.induct)
  case (1 ws s)
  then show ?case
    by (cases "find (\<lambda>w. w \<noteq> [] \<and> starts_with s w) ws")
      (simp_all add: strip.simps [of ws s])
qed

lemma strip_stable: "find (\<lambda>w. w \<noteq> [] \<and> starts_with s w) ws = None \<Longrightarrow> strip ws s = s"
  by (subst strip.simps) simp

lemma strip_idem [simp]: "strip ws (strip ws s) = strip ws s"
  by (rule strip_stable [OF strip_done])

lemma strip_suffix: "suffix (strip ws s) s"
proof (induction ws s rule: strip.induct)
  case (1 ws s)
  show ?case
  proof (cases "find (\<lambda>w. w \<noteq> [] \<and> starts_with s w) ws")
    case None
    then show ?thesis by (simp add: strip_stable)
  next
    case (Some w)
    with 1 have "suffix (strip ws (drop (length w) s)) (drop (length w) s)"
      by blast
    then have "suffix (strip ws (drop (length w) s)) s"
      using suffix_drop suffix_order.trans by blast
    with Some show ?thesis by (simp add: strip.simps [of ws s])
  qed
qed

lemma strip_prefix_stable:
  assumes "strip ws s = s" and "prefix u s"
  shows "strip ws u = u"
proof (rule strip_stable)
  have "find (\<lambda>w. w \<noteq> [] \<and> starts_with s w) ws = None"
    using strip_done [of ws s] assms(1) by simp
  moreover have "starts_with u w \<Longrightarrow> starts_with s w" for w
    using assms(2) by (auto simp: starts_with_iff prefix_def)
  ultimately show "find (\<lambda>w. w \<noteq> [] \<and> starts_with u w) ws = None"
    by (auto simp: find_None_iff)
qed

lemma trim_space_idem [simp]: "trim_space (trim_space s) = trim_space s"
proof -
  let ?l = "strip space_runes s"
  let ?r = "strip (map rev space_runes) (rev ?l)"
  have "prefix (rev ?r) ?l"
    using strip_suffix [of "map rev space_runes" "rev ?l"] by (simp add: suffix_to_prefix)
  then have "strip space_runes (rev ?r) = rev ?r"
    by (rule strip_prefix_stable [rotated]) simp
  then show ?thesis by (simp add: trim_space_def)
qed

lemma trim_space_nil [simp]: "trim_space [] = []"
  by (simp add: trim_space_def strip_stable find_None_iff starts_with_def)

section \<open>The interface of a Go map\<close>

locale go_map =
  fixes empty :: "'m"
    and get :: "'m \<Rightarrow> 'k \<Rightarrow> 'v option"
    and put :: "'m \<Rightarrow> 'k \<Rightarrow> 'v \<Rightarrow> 'm"
    and del :: "'m \<Rightarrow> 'k \<Rightarrow> 'm"
    and len :: "'m \<Rightarrow> nat"
    and ok :: "'m \<Rightarrow> bool"
  assumes ok_empty: "ok empty"
    and ok_put: "ok m \<Longrightarrow> ok (put m k v)"
    and ok_del: "ok m \<Longrightarrow> ok (del m k)"
    and get_empty: "get empty k = None"
    and get_put: "ok m \<Longrightarrow> get (put m k v) k' = (if k' = k then Some v else get m k')"
    and get_del: "ok m \<Longrightarrow> get (del m k) k' = (if k' = k then None else get m k')"
    and len_empty: "len empty = 0"
    and len_put: "ok m \<Longrightarrow> len (put m k v) = (if get m k = None then Suc (len m) else len m)"
    and len_del: "ok m \<Longrightarrow> len (del m k) = (if get m k = None then len m else len m - 1)"
    and len_pos: "ok m \<Longrightarrow> get m k \<noteq> None \<Longrightarrow> 0 < len m"
begin

lemmas specs = ok_empty ok_put ok_del get_empty get_put get_del len_empty len_put len_del

lemma get_put_same: "ok m \<Longrightarrow> get (put m k v) k = Some v"
  by (simp add: get_put)

lemma len_del_le: "ok m \<Longrightarrow> len (del m k) \<le> len m"
  by (simp add: len_del)

lemma len_put_present: "ok m \<Longrightarrow> get m k \<noteq> None \<Longrightarrow> len (put m k v) = len m"
  by (simp add: len_put)

text \<open>Make room by dropping a present key at the bound, then store: the bound holds.\<close>

lemma evict_put_bound:
  assumes "ok m" and "len m \<le> cap" and "0 < cap"
    and "cap \<le> len m \<Longrightarrow> get m k = None \<Longrightarrow> get m victim \<noteq> None"
  shows "len (put (if len m < cap \<or> get m k \<noteq> None then m else del m victim) k v) \<le> cap"
proof (cases "len m < cap \<or> get m k \<noteq> None")
  case True
  with assms show ?thesis by (auto simp: len_put)
next
  case False
  with assms have "get m victim \<noteq> None" by simp
  with assms(1) have "len (del m victim) = len m - 1" and "0 < len m"
    by (auto simp: len_del intro: len_pos)
  moreover have "len (put (del m victim) k v) \<le> Suc (len (del m victim))"
    using assms(1) by (simp add: len_put ok_del)
  ultimately show ?thesis using False assms(2) by simp
qed

end

lemma gmap_len_update:
  "length (AList.update k v m) = (if map_of m k = None then Suc (length m) else length m)"
  by (induction m) auto

lemma gmap_len_delete:
  "distinct (map fst m) \<Longrightarrow>
     length (AList.delete k m) = (if map_of m k = None then length m else length m - 1)"
proof (induction m)
  case Nil
  then show ?case by simp
next
  case (Cons p m)
  obtain k' v where [simp]: "p = (k', v)" by (cases p)
  show ?case
  proof (cases "k' = k")
    case True
    with Cons.prems have "map_of m k = None"
      by (auto simp: map_of_eq_None_iff)
    with True Cons.IH Cons.prems show ?thesis by simp
  next
    case False
    have "map_of m k \<noteq> None \<Longrightarrow> 0 < length m" by (cases m) auto
    with False Cons show ?thesis by auto
  qed
qed

lemma gget_gput: "gget (gput m k v) k' = (if k' = k then Some v else gget m k')"
  by (simp add: gget_def gput_def update_conv)

lemma gget_in_keys: "gget m k = None \<longleftrightarrow> k \<notin> gkeys m"
  by (simp add: gget_def gkeys_def map_of_eq_None_iff)

interpretation gm: go_map "[]" gget gput gdel glen gmap_ok
proof unfold_locales
  fix m :: "('k, 'v) gomap" and k k' :: 'k and v :: 'v
  show "gmap_ok ([] :: ('k, 'v) gomap)" by (simp add: gmap_ok_def)
  show "gmap_ok m \<Longrightarrow> gmap_ok (gput m k v)"
    by (simp add: gmap_ok_def gput_def distinct_update)
  show "gmap_ok m \<Longrightarrow> gmap_ok (gdel m k)"
    by (simp add: gmap_ok_def gdel_def distinct_delete)
  show "gget [] k = (None :: 'v option)" by (simp add: gget_def)
  show "gget (gput m k v) k' = (if k' = k then Some v else gget m k')"
    by (rule gget_gput)
  show "gmap_ok m \<Longrightarrow> gget (gdel m k) k' = (if k' = k then None else gget m k')"
    by (simp add: gget_def gdel_def delete_conv)
  show "glen ([] :: ('k, 'v) gomap) = 0" by (simp add: glen_def)
  show "gmap_ok m \<Longrightarrow> glen (gput m k v) = (if gget m k = None then Suc (glen m) else glen m)"
    by (simp add: glen_def gput_def gget_def gmap_len_update)
  show "gmap_ok m \<Longrightarrow> glen (gdel m k) = (if gget m k = None then glen m else glen m - 1)"
    by (simp only: glen_def gdel_def gget_def gmap_ok_def gmap_len_delete)
  show "gmap_ok m \<Longrightarrow> gget m k \<noteq> None \<Longrightarrow> 0 < glen m"
    by (cases m) (auto simp: gget_def glen_def)
qed

lemma gsweep_ok: "gmap_ok m \<Longrightarrow> gmap_ok (gsweep p ks m)"
  by (induction ks arbitrary: m) (auto split: option.split simp: gm.ok_del)

lemma gsweep_get:
  "gmap_ok m \<Longrightarrow> gget (gsweep p ks m) k =
     (case gget m k of None \<Rightarrow> None | Some v \<Rightarrow> if k \<in> set ks \<and> p k v then None else Some v)"
proof (induction ks arbitrary: m)
  case Nil
  then show ?case by (simp split: option.split)
next
  case (Cons k' ks)
  show ?case
  proof (cases "gget m k'")
    case None
    with Cons show ?thesis by (auto split: option.split)
  next
    case (Some v)
    with Cons show ?thesis by (auto simp: gm.get_del gm.ok_del split: option.split)
  qed
qed

lemma gsweep_len_le: "gmap_ok m \<Longrightarrow> glen (gsweep p ks m) \<le> glen m"
proof (induction ks arbitrary: m)
  case Nil
  then show ?case by simp
next
  case (Cons k ks)
  then show ?case
    by (auto split: option.split intro: order.trans [OF Cons.IH] simp: gm.ok_del gm.len_del_le)
qed

section \<open>The keys of a map\<close>

lemma gkeys_iff: "k \<in> gkeys m \<longleftrightarrow> gget m k \<noteq> None"
  by (simp add: gget_in_keys)

lemma gget_key: "gget m k = Some v \<Longrightarrow> k \<in> gkeys m"
  by (simp add: gkeys_iff)

lemma gkeys_nil [simp]: "gkeys [] = {}"
  by (simp add: gkeys_def)

lemma glen_nil [simp]: "glen [] = 0"
  by (rule gm.len_empty)

lemma gkeys_gput [simp]: "gkeys (gput m k v) = insert k (gkeys m)"
  by (auto simp: gkeys_iff gget_gput split: if_splits)

lemma gkeys_gdel: "gmap_ok m \<Longrightarrow> gkeys (gdel m k) = gkeys m - {k}"
  by (auto simp: gkeys_iff gm.get_del split: if_splits)

lemma gkeys_gsweep: "gmap_ok m \<Longrightarrow> gkeys (gsweep p ks m) \<subseteq> gkeys m"
  by (auto simp: gkeys_iff gsweep_get split: option.splits)

lemma glen_keys: "gmap_ok m \<Longrightarrow> glen m = card (gkeys m)"
  unfolding glen_def gkeys_def gmap_ok_def
  by (metis distinct_card length_map set_map)

lemma glen_zero: "glen m = 0 \<longleftrightarrow> m = []"
  by (simp add: glen_def)

end
