(* ===== verification/Compat_Types.thy ===== *)
theory Compat_Types
  imports Prelude
begin

text \<open>
  The wire types of backend/internal/pkg/apicompat/types.go that the protocol converters read
  and write. A Go struct is a record with one field per field of the struct, prefixed by the
  initials of the struct; a pointer is an option; \<open>json.RawMessage\<close> is its bytes, the nil
  message being the empty string. \<open>encoding/json\<close> is the argument \<open>json_lib\<close> of the
  converters, about which nothing is assumed.
\<close>

type_synonym raw_message = string

section \<open>Anthropic Messages\<close>

record AnthropicCacheControl =
  acc_Type :: string
  acc_TTL :: string

record AnthropicImageSource =
  ais_Type :: string
  ais_MediaType :: string
  ais_Data :: string

record AnthropicContentBlock =
  acb_Type :: string
  acb_CacheControl :: "AnthropicCacheControl option"
  acb_Text :: string
  acb_Thinking :: string
  acb_Signature :: string
  acb_Source :: "AnthropicImageSource option"
  acb_ID :: string
  acb_Name :: string
  acb_Input :: raw_message
  acb_ToolUseID :: string
  acb_Content :: raw_message
  acb_IsError :: bool

definition zero_acb :: AnthropicContentBlock where
  "zero_acb = \<lparr>acb_Type = '''', acb_CacheControl = None, acb_Text = '''', acb_Thinking = '''',
     acb_Signature = '''', acb_Source = None, acb_ID = '''', acb_Name = '''', acb_Input = '''',
     acb_ToolUseID = '''', acb_Content = '''', acb_IsError = False\<rparr>"

record AnthropicUsage =
  au_InputTokens :: int
  au_OutputTokens :: int
  au_CacheCreationInputTokens :: int
  au_CacheReadInputTokens :: int

definition zero_au :: AnthropicUsage where
  "zero_au = \<lparr>au_InputTokens = 0, au_OutputTokens = 0,
     au_CacheCreationInputTokens = 0, au_CacheReadInputTokens = 0\<rparr>"

record AnthropicResponse =
  ar_ID :: string
  ar_Type :: string
  ar_Role :: string
  ar_Content :: "AnthropicContentBlock list"
  ar_Model :: string
  ar_StopReason :: "string option"
  ar_StopSequence :: "string option"
  ar_Usage :: AnthropicUsage

definition AnthropicStopReasonPtr :: "string \<Rightarrow> string option" where
  "AnthropicStopReasonPtr s = Some s"

definition AnthropicStopReasonString :: "string option \<Rightarrow> string" where
  "AnthropicStopReasonString p = (case p of None \<Rightarrow> '''' | Some s \<Rightarrow> s)"

record AnthropicDelta =
  ad_Type :: string
  ad_Text :: string
  ad_PartialJSON :: string
  ad_Thinking :: string
  ad_Signature :: string
  ad_StopReason :: string
  ad_StopSequence :: "string option"

definition zero_ad :: AnthropicDelta where
  "zero_ad = \<lparr>ad_Type = '''', ad_Text = '''', ad_PartialJSON = '''', ad_Thinking = '''',
     ad_Signature = '''', ad_StopReason = '''', ad_StopSequence = None\<rparr>"

record AnthropicStreamEvent =
  ae_Type :: string
  ae_Message :: "AnthropicResponse option"
  ae_Index :: "int option"
  ae_ContentBlock :: "AnthropicContentBlock option"
  ae_Delta :: "AnthropicDelta option"
  ae_Usage :: "AnthropicUsage option"

definition zero_ae :: AnthropicStreamEvent where
  "zero_ae = \<lparr>ae_Type = '''', ae_Message = None, ae_Index = None, ae_ContentBlock = None,
     ae_Delta = None, ae_Usage = None\<rparr>"

section \<open>OpenAI Responses\<close>

record ResponsesContentPart =
  rcp_Type :: string
  rcp_Text :: string
  rcp_ImageURL :: string

record ResponsesSummary =
  rs_Type :: string
  rs_Text :: string

record WebSearchAction =
  wsa_Type :: string
  wsa_Query :: string

record ResponsesOutput =
  ro_Type :: string
  ro_ID :: string
  ro_Role :: string
  ro_Content :: "ResponsesContentPart list"
  ro_Status :: string
  ro_EncryptedContent :: string
  ro_Summary :: "ResponsesSummary list"
  ro_CallID :: string
  ro_Name :: string
  ro_Arguments :: string
  ro_Namespace :: string
  ro_Input :: string
  ro_Action :: "WebSearchAction option"

definition zero_ro :: ResponsesOutput where
  "zero_ro = \<lparr>ro_Type = '''', ro_ID = '''', ro_Role = '''', ro_Content = [], ro_Status = '''',
     ro_EncryptedContent = '''', ro_Summary = [], ro_CallID = '''', ro_Name = '''',
     ro_Arguments = '''', ro_Namespace = '''', ro_Input = '''', ro_Action = None\<rparr>"

record ResponsesInputTokensDetails =
  ritd_CachedTokens :: int
  ritd_AudioTokens :: int
  ritd_CacheCreationTokens :: int
  ritd_CacheWriteTokens :: int

record ResponsesOutputTokensDetails =
  rotd_ReasoningTokens :: int
  rotd_AudioTokens :: int
  rotd_AcceptedPredictionTokens :: int
  rotd_RejectedPredictionTokens :: int

record ResponsesUsage =
  ru_InputTokens :: int
  ru_OutputTokens :: int
  ru_TotalTokens :: int
  ru_CacheCreationInputTokens :: int
  ru_InputTokensDetails :: "ResponsesInputTokensDetails option"
  ru_OutputTokensDetails :: "ResponsesOutputTokensDetails option"

record ResponsesIncompleteDetails =
  rid_Reason :: string

record ResponsesError =
  rerr_Code :: string
  rerr_Message :: string

record ResponsesResponse =
  rr_ID :: string
  rr_Object :: string
  rr_Model :: string
  rr_Status :: string
  rr_Output :: "ResponsesOutput list"
  rr_Usage :: "ResponsesUsage option"
  rr_IncompleteDetails :: "ResponsesIncompleteDetails option"
  rr_Error :: "ResponsesError option"

record ResponsesStreamEvent =
  re_Type :: string
  re_Response :: "ResponsesResponse option"
  re_Usage :: "ResponsesUsage option"
  re_Item :: "ResponsesOutput option"
  re_OutputIndex :: int
  re_ContentIndex :: int
  re_Delta :: string
  re_Text :: string
  re_ItemID :: string
  re_CallID :: string
  re_Name :: string
  re_Arguments :: string
  re_Input :: string
  re_SummaryIndex :: int
  re_Part :: "ResponsesContentPart option"
  re_Code :: string
  re_Param :: string
  re_SequenceNumber :: int

definition zero_re :: ResponsesStreamEvent where
  "zero_re = \<lparr>re_Type = '''', re_Response = None, re_Usage = None, re_Item = None,
     re_OutputIndex = 0, re_ContentIndex = 0, re_Delta = '''', re_Text = '''', re_ItemID = '''',
     re_CallID = '''', re_Name = '''', re_Arguments = '''', re_Input = '''', re_SummaryIndex = 0,
     re_Part = None, re_Code = '''', re_Param = '''', re_SequenceNumber = 0\<rparr>"

section \<open>Chat Completions\<close>

record ChatFunctionCall =
  cfc_Name :: string
  cfc_Arguments :: string

record ChatToolCall =
  ctc_Index :: "int option"
  ctc_ID :: string
  ctc_Type :: string
  ctc_Function :: ChatFunctionCall

definition zero_ctc :: ChatToolCall where
  "zero_ctc = \<lparr>ctc_Index = None, ctc_ID = '''', ctc_Type = '''',
     ctc_Function = \<lparr>cfc_Name = '''', cfc_Arguments = ''''\<rparr>\<rparr>"

record ChatMessage =
  cm_Role :: string
  cm_Content :: raw_message
  cm_ReasoningContent :: string
  cm_Reasoning :: string
  cm_Name :: string
  cm_ToolCalls :: "ChatToolCall list"
  cm_ToolCallID :: string
  cm_FunctionCall :: "ChatFunctionCall option"

definition zero_cm :: ChatMessage where
  "zero_cm = \<lparr>cm_Role = '''', cm_Content = '''', cm_ReasoningContent = '''', cm_Reasoning = '''',
     cm_Name = '''', cm_ToolCalls = [], cm_ToolCallID = '''', cm_FunctionCall = None\<rparr>"

record ChatTokenDetails =
  ctd_CachedTokens :: int
  ctd_AudioTokens :: int
  ctd_CacheCreationTokens :: int
  ctd_CacheWriteTokens :: int
  ctd_ReasoningTokens :: int
  ctd_AcceptedPredictionTokens :: int
  ctd_RejectedPredictionTokens :: int

definition zero_ctd :: ChatTokenDetails where
  "zero_ctd = \<lparr>ctd_CachedTokens = 0, ctd_AudioTokens = 0, ctd_CacheCreationTokens = 0,
     ctd_CacheWriteTokens = 0, ctd_ReasoningTokens = 0, ctd_AcceptedPredictionTokens = 0,
     ctd_RejectedPredictionTokens = 0\<rparr>"

record ChatUsage =
  cu_PromptTokens :: int
  cu_CompletionTokens :: int
  cu_TotalTokens :: int
  cu_PromptTokensDetails :: "ChatTokenDetails option"
  cu_CompletionTokensDetails :: "ChatTokenDetails option"

record ChatChoice =
  cc_Index :: int
  cc_Message :: ChatMessage
  cc_FinishReason :: string

record ChatCompletionsResponse =
  ccr_ID :: string
  ccr_Object :: string
  ccr_Created :: int
  ccr_Model :: string
  ccr_Choices :: "ChatChoice list"
  ccr_Usage :: "ChatUsage option"
  ccr_SystemFingerprint :: string
  ccr_ServiceTier :: string

record ChatDelta =
  cd_Role :: string
  cd_Content :: "string option"
  cd_ReasoningContent :: "string option"
  cd_Reasoning :: "string option"
  cd_ToolCalls :: "ChatToolCall list"

definition zero_cd :: ChatDelta where
  "zero_cd = \<lparr>cd_Role = '''', cd_Content = None, cd_ReasoningContent = None,
     cd_Reasoning = None, cd_ToolCalls = []\<rparr>"

record ChatChunkChoice =
  ccc_Index :: int
  ccc_Delta :: ChatDelta
  ccc_FinishReason :: "string option"

record ChatCompletionsChunk =
  cck_ID :: string
  cck_Object :: string
  cck_Created :: int
  cck_Model :: string
  cck_Choices :: "ChatChunkChoice list"
  cck_Usage :: "ChatUsage option"
  cck_SystemFingerprint :: string
  cck_ServiceTier :: string

section \<open>The JSON library\<close>

text \<open>
  What the converters use of \<open>encoding/json\<close>: \<open>json.Valid\<close>; decoding into
  \<open>map[string]json.RawMessage\<close> (the pairs of the object, the last of equal keys, or failure);
  encoding such a map; encoding the one-field map \<open>{"query": q}\<close>, an empty list and a
  string.
\<close>

record json_lib =
  js_valid :: "string \<Rightarrow> bool"
  js_decode_object :: "string \<Rightarrow> (string, raw_message) gomap option"
  js_encode_object :: "(string, raw_message) gomap \<Rightarrow> raw_message option"
  js_encode_query :: "string \<Rightarrow> raw_message"
  js_encode_empty_list :: raw_message
  js_encode_string :: "string \<Rightarrow> raw_message"

text \<open>A small instance, for evaluation.\<close>

definition sample_json :: json_lib where
  "sample_json = \<lparr>js_valid = (\<lambda>s. starts_with s [CHR 0x7B] \<and> starts_with (rev s) [CHR 0x7D]),
     js_decode_object = (\<lambda>s. if s = ''{}'' then Some [] else None),
     js_encode_object = (\<lambda>m. if m = [] then Some ''{}'' else None),
     js_encode_query = (\<lambda>q. q), js_encode_empty_list = ''[]'', js_encode_string = (\<lambda>s. s)\<rparr>"

section \<open>Lemmas\<close>

lemmas zero_defs =
  zero_acb_def zero_au_def zero_ad_def zero_ae_def zero_ro_def zero_re_def
  zero_ctc_def zero_cm_def zero_ctd_def zero_cd_def

end
