(* ===== verification/Sse_Stream.thy ===== *)
theory Sse_Stream
  imports Prelude
begin

text \<open>
  Stateful stream converters in general: a converter consumes one upstream event, updates its
  state and emits zero or more downstream events. Two interfaces say what a converter must
  satisfy event by event, and the facts about whole streams are proved here once: every output
  stream is accepted by the protocol automaton of the client (\<open>stream_protocol\<close>), and what the
  client reads off the output is what the upstream put into the input (\<open>stream_content\<close>).
\<close>

section \<open>Runs and automata\<close>

fun run_stream :: "('s \<Rightarrow> 'e \<Rightarrow> 's \<times> 'o list) \<Rightarrow> 's \<Rightarrow> 'e list \<Rightarrow> 's \<times> 'o list" where
  "run_stream f s [] = (s, [])"
| "run_stream f s (e # es) =
     (let (s1, o1) = f s e; (s2, o2) = run_stream f s1 es in (s2, o1 @ o2))"

fun accept :: "('a \<Rightarrow> 'o \<Rightarrow> 'a option) \<Rightarrow> 'a \<Rightarrow> 'o list \<Rightarrow> 'a option" where
  "accept d a [] = Some a"
| "accept d a (x # xs) = (case d a x of None \<Rightarrow> None | Some a' \<Rightarrow> accept d a' xs)"

lemma accept_append:
  "accept d a (xs @ ys) = (case accept d a xs of None \<Rightarrow> None | Some a' \<Rightarrow> accept d a' ys)"
  by (induction xs arbitrary: a) (auto split: option.split)

lemma accept_append_Some:
  "accept d a xs = Some a' \<Longrightarrow> accept d a (xs @ ys) = accept d a' ys"
  by (simp add: accept_append)

lemma run_stream_append:
  "run_stream f s (xs @ ys) =
     (let (s1, o1) = run_stream f s xs; (s2, o2) = run_stream f s1 ys in (s2, o1 @ o2))"
  by (induction xs arbitrary: s) (auto split: prod.split)

lemma run_stream_Cons_fst: "fst (run_stream f s (e # es)) = fst (run_stream f (fst (f s e)) es)"
  by (simp split: prod.split)

lemma run_stream_Cons_snd:
  "snd (run_stream f s (e # es)) = snd (f s e) @ snd (run_stream f (fst (f s e)) es)"
  by (simp split: prod.split)

lemmas run_stream_Cons = run_stream_Cons_fst run_stream_Cons_snd

text \<open>A property of the state that every step keeps holds after a run.\<close>

lemma run_stream_invariant:
  assumes "\<And>s e. P s \<Longrightarrow> P (fst (f s e))" and "P s"
  shows "P (fst (run_stream f s es))"
  using assms(2)
proof (induction es arbitrary: s)
  case Nil
  then show ?case by simp
next
  case (Cons e es)
  then show ?case by (simp only: run_stream_Cons) (blast intro: assms(1))
qed

section \<open>The protocol interface\<close>

locale stream_protocol =
  fixes step :: "'s \<Rightarrow> 'e \<Rightarrow> 's \<times> 'o list"
    and upstream :: "'m \<Rightarrow> 'e \<Rightarrow> 'm option"
    and downstream :: "'a \<Rightarrow> 'o \<Rightarrow> 'a option"
    and phase :: "'m \<Rightarrow> 's \<Rightarrow> 'a"
    and inv :: "'m \<Rightarrow> 's \<Rightarrow> bool"
  assumes step_inv: "inv m s \<Longrightarrow> upstream m e = Some m' \<Longrightarrow> inv m' (fst (step s e))"
    and step_accept: "inv m s \<Longrightarrow> upstream m e = Some m' \<Longrightarrow>
      accept downstream (phase m s) (snd (step s e)) = Some (phase m' (fst (step s e)))"
begin

lemma run_inv:
  "inv m s \<Longrightarrow> accept upstream m es = Some m' \<Longrightarrow> inv m' (fst (run_stream step s es))"
proof (induction es arbitrary: m s)
  case Nil
  then show ?case by simp
next
  case (Cons e es)
  then obtain m1 where "upstream m e = Some m1" and "accept upstream m1 es = Some m'"
    by (auto split: option.splits)
  with Cons show ?case
    by (simp only: run_stream_Cons) (blast intro: step_inv)
qed

lemma run_accept:
  "inv m s \<Longrightarrow> accept upstream m es = Some m' \<Longrightarrow>
     accept downstream (phase m s) (snd (run_stream step s es)) =
       Some (phase m' (fst (run_stream step s es)))"
proof (induction es arbitrary: m s)
  case Nil
  then show ?case by simp
next
  case (Cons e es)
  then obtain m1 where m1: "upstream m e = Some m1" and es: "accept upstream m1 es = Some m'"
    by (auto split: option.splits)
  from Cons.prems(1) m1 have "inv m1 (fst (step s e))" by (rule step_inv)
  from Cons.IH [OF this es] step_accept [OF Cons.prems(1) m1] show ?case
    by (simp only: run_stream_Cons accept_append_Some)
qed

end

section \<open>The content interface\<close>

locale stream_content =
  fixes step :: "'s \<Rightarrow> 'e \<Rightarrow> 's \<times> 'o list"
    and content_in :: "'e \<Rightarrow> 'x list"
    and content_out :: "'o \<Rightarrow> 'x list"
  assumes step_content: "concat (map content_out (snd (step s e))) = content_in e"
begin

lemma run_content:
  "concat (map content_out (snd (run_stream step s es))) = concat (map content_in es)"
  by (induction es arbitrary: s) (simp_all only: run_stream_Cons run_stream.simps(1) snd_conv
      map_append concat_append step_content list.map concat.simps)

end

end
