(* ===== verification/Responses_To_Anthropic.thy ===== *)
theory Responses_To_Anthropic
  imports Compat_Types Sse_Stream
begin

text \<open>
  backend/internal/pkg/apicompat/responses_to_anthropic.go: the conversion of an OpenAI
  Responses answer into an Anthropic Messages answer, whole (\<open>ResponsesToAnthropic\<close>) and event
  by event (\<open>ResponsesEventToAnthropicEvents\<close> over the state
  \<open>ResponsesEventToAnthropicState\<close>).
\<close>

section \<open>Whole responses\<close>

definition fromResponsesCallID :: "string \<Rightarrow> string" where
  "fromResponsesCallID cid =
     (case cut_prefix cid ''fc_'' of
        None \<Rightarrow> cid
      | Some after \<Rightarrow>
          if starts_with after ''toolu_'' \<or> starts_with after ''call_'' then after else cid)"

definition anthropicUsageFromResponsesUsage :: "ResponsesUsage option \<Rightarrow> AnthropicUsage" where
  "anthropicUsageFromResponsesUsage usage =
     (case usage of
        None \<Rightarrow> zero_au
      | Some u \<Rightarrow>
          let cachedTokens =
                (case ru_InputTokensDetails u of None \<Rightarrow> 0 | Some d \<Rightarrow> ritd_CachedTokens d);
              inputTokens = i64 (i64 (ru_InputTokens u - cachedTokens) - ru_CacheCreationInputTokens u);
              inputTokens = (if inputTokens < 0 then 0 else inputTokens)
          in \<lparr>au_InputTokens = inputTokens, au_OutputTokens = ru_OutputTokens u,
              au_CacheCreationInputTokens = ru_CacheCreationInputTokens u,
              au_CacheReadInputTokens = cachedTokens\<rparr>)"

definition containsAnthropicToolUseBlock :: "AnthropicContentBlock list \<Rightarrow> bool" where
  "containsAnthropicToolUseBlock blocks = list_ex (\<lambda>b. acb_Type b = ''tool_use'') blocks"

definition responsesStatusToAnthropicStopReason ::
  "string \<Rightarrow> ResponsesIncompleteDetails option \<Rightarrow> AnthropicContentBlock list \<Rightarrow> string" where
  "responsesStatusToAnthropicStopReason status details blocks =
     (if status = ''incomplete'' then
        (case details of
           None \<Rightarrow> ''end_turn''
         | Some d \<Rightarrow> if rid_Reason d = ''max_output_tokens'' then ''max_tokens'' else ''end_turn'')
      else if status = ''completed'' then
        (if containsAnthropicToolUseBlock blocks then ''tool_use'' else ''end_turn'')
      else ''end_turn'')"

definition sanitizeAnthropicToolUseInput :: "json_lib \<Rightarrow> string \<Rightarrow> string \<Rightarrow> raw_message" where
  "sanitizeAnthropicToolUseInput J name raw =
     (if name \<noteq> ''Read'' \<or> raw = '''' then raw
      else case js_decode_object J raw of
        None \<Rightarrow> raw
      | Some input \<Rightarrow>
          (case gget input ''pages'' of
             None \<Rightarrow> raw
           | Some pages \<Rightarrow>
               if pages \<noteq> [CHR 0x22, CHR 0x22] then raw
               else (case js_encode_object J (gdel input ''pages'') of
                       None \<Rightarrow> raw
                     | Some sanitized \<Rightarrow> sanitized)))"

definition r2a_summaryText :: "ResponsesSummary list \<Rightarrow> string" where
  "r2a_summaryText ss =
     concat (map (\<lambda>s. if rs_Type s = ''summary_text'' \<and> rs_Text s \<noteq> '''' then rs_Text s else '''') ss)"

definition r2a_itemBlocks :: "json_lib \<Rightarrow> ResponsesOutput \<Rightarrow> AnthropicContentBlock list" where
  "r2a_itemBlocks J item =
     (if ro_Type item = ''reasoning'' then
        (let summaryText = r2a_summaryText (ro_Summary item) in
         if summaryText \<noteq> '''' \<or> trim_space (ro_EncryptedContent item) \<noteq> '''' then
           [zero_acb\<lparr>acb_Type := ''thinking'', acb_Thinking := summaryText,
              acb_Signature := ro_EncryptedContent item\<rparr>]
         else [])
      else if ro_Type item = ''message'' then
        concat (map (\<lambda>part. if rcp_Type part = ''output_text'' \<and> rcp_Text part \<noteq> ''''
                            then [zero_acb\<lparr>acb_Type := ''text'', acb_Text := rcp_Text part\<rparr>]
                            else []) (ro_Content item))
      else if ro_Type item = ''function_call'' then
        [zero_acb\<lparr>acb_Type := ''tool_use'', acb_ID := fromResponsesCallID (ro_CallID item),
           acb_Name := ro_Name item,
           acb_Input := sanitizeAnthropicToolUseInput J (ro_Name item) (ro_Arguments item)\<rparr>]
      else if ro_Type item = ''web_search_call'' then
        (let toolUseID = ''srvtoolu_'' @ ro_ID item;
             query = (case ro_Action item of None \<Rightarrow> '''' | Some a \<Rightarrow> wsa_Query a) in
         [zero_acb\<lparr>acb_Type := ''server_tool_use'', acb_ID := toolUseID,
            acb_Name := ''web_search'', acb_Input := js_encode_query J query\<rparr>,
          zero_acb\<lparr>acb_Type := ''web_search_tool_result'', acb_ToolUseID := toolUseID,
            acb_Content := js_encode_empty_list J\<rparr>])
      else [])"

definition ResponsesToAnthropic ::
  "json_lib \<Rightarrow> ResponsesResponse \<Rightarrow> string \<Rightarrow> AnthropicResponse" where
  "ResponsesToAnthropic J resp model =
     (let blocks = concat (map (r2a_itemBlocks J) (rr_Output resp));
          blocks = (if blocks = [] then [zero_acb\<lparr>acb_Type := ''text''\<rparr>] else blocks)
      in \<lparr>ar_ID = rr_ID resp, ar_Type = ''message'', ar_Role = ''assistant'',
          ar_Content = blocks, ar_Model = model,
          ar_StopReason = AnthropicStopReasonPtr
            (responsesStatusToAnthropicStopReason (rr_Status resp) (rr_IncompleteDetails resp) blocks),
          ar_StopSequence = None,
          ar_Usage = (case rr_Usage resp of
                        None \<Rightarrow> zero_au
                      | Some u \<Rightarrow> anthropicUsageFromResponsesUsage (Some u))\<rparr>)"

section \<open>The stream state\<close>

record ResponsesEventToAnthropicState =
  r2a_MessageStartSent :: bool
  r2a_MessageStopSent :: bool
  r2a_ContentBlockIndex :: int
  r2a_ContentBlockOpen :: bool
  r2a_CurrentBlockType :: string
  r2a_CurrentToolName :: string
  r2a_CurrentToolArgs :: string
  r2a_CurrentToolHadDelta :: bool
  r2a_PendingThinkingSignature :: string
  r2a_HasToolCall :: bool
  r2a_OutputIndexToBlockIdx :: "(int, int) gomap"
  r2a_InputTokens :: int
  r2a_OutputTokens :: int
  r2a_CacheReadInputTokens :: int
  r2a_CacheCreationInputTokens :: int
  r2a_ResponseID :: string
  r2a_Model :: string
  r2a_Created :: int

type_synonym r2a_result = "ResponsesEventToAnthropicState \<times> AnthropicStreamEvent list"

definition NewResponsesEventToAnthropicState :: "int \<Rightarrow> ResponsesEventToAnthropicState" where
  "NewResponsesEventToAnthropicState now =
     \<lparr>r2a_MessageStartSent = False, r2a_MessageStopSent = False, r2a_ContentBlockIndex = 0,
      r2a_ContentBlockOpen = False, r2a_CurrentBlockType = '''', r2a_CurrentToolName = '''',
      r2a_CurrentToolArgs = '''', r2a_CurrentToolHadDelta = False,
      r2a_PendingThinkingSignature = '''', r2a_HasToolCall = False,
      r2a_OutputIndexToBlockIdx = [], r2a_InputTokens = 0, r2a_OutputTokens = 0,
      r2a_CacheReadInputTokens = 0, r2a_CacheCreationInputTokens = 0, r2a_ResponseID = '''',
      r2a_Model = '''', r2a_Created = now\<rparr>"

definition ev_block_start :: "int \<Rightarrow> AnthropicContentBlock \<Rightarrow> AnthropicStreamEvent" where
  "ev_block_start idx b =
     zero_ae\<lparr>ae_Type := ''content_block_start'', ae_Index := Some idx, ae_ContentBlock := Some b\<rparr>"

definition ev_block_delta :: "int \<Rightarrow> AnthropicDelta \<Rightarrow> AnthropicStreamEvent" where
  "ev_block_delta idx d =
     zero_ae\<lparr>ae_Type := ''content_block_delta'', ae_Index := Some idx, ae_Delta := Some d\<rparr>"

definition ev_block_stop :: "int \<Rightarrow> AnthropicStreamEvent" where
  "ev_block_stop idx = zero_ae\<lparr>ae_Type := ''content_block_stop'', ae_Index := Some idx\<rparr>"

definition closeCurrentBlock :: "ResponsesEventToAnthropicState \<Rightarrow> r2a_result" where
  "closeCurrentBlock st =
     (if \<not> r2a_ContentBlockOpen st then (st, [])
      else
        let idx = r2a_ContentBlockIndex st;
            thinking = (r2a_CurrentBlockType st = ''thinking'');
            sig = trim_space (r2a_PendingThinkingSignature st);
            events = (if thinking \<and> sig \<noteq> ''''
                      then [ev_block_delta idx (zero_ad\<lparr>ad_Type := ''signature_delta'', ad_Signature := sig\<rparr>)]
                      else []);
            st = (if thinking then st\<lparr>r2a_PendingThinkingSignature := ''''\<rparr> else st);
            st = st\<lparr>r2a_ContentBlockOpen := False,
                   r2a_ContentBlockIndex := r2a_ContentBlockIndex st + 1,
                   r2a_CurrentToolName := '''', r2a_CurrentToolArgs := '''',
                   r2a_CurrentToolHadDelta := False\<rparr>
        in (st, events @ [ev_block_stop idx]))"

section \<open>The handlers\<close>

definition resToAnthHandleCreated ::
  "ResponsesStreamEvent \<Rightarrow> ResponsesEventToAnthropicState \<Rightarrow> r2a_result" where
  "resToAnthHandleCreated evt st =
     (let st = (case re_Response evt of
                  None \<Rightarrow> st
                | Some r \<Rightarrow>
                    let st = st\<lparr>r2a_ResponseID := rr_ID r\<rparr>
                    in if r2a_Model st = '''' then st\<lparr>r2a_Model := rr_Model r\<rparr> else st)
      in if r2a_MessageStartSent st then (st, [])
         else
           (st\<lparr>r2a_MessageStartSent := True\<rparr>,
            [zero_ae\<lparr>ae_Type := ''message_start'',
               ae_Message := Some
                 \<lparr>ar_ID = r2a_ResponseID st, ar_Type = ''message'', ar_Role = ''assistant'',
                  ar_Content = [], ar_Model = r2a_Model st, ar_StopReason = None,
                  ar_StopSequence = None, ar_Usage = zero_au\<rparr>\<rparr>]))"

definition resToAnthHandleOutputItemAdded ::
  "ResponsesStreamEvent \<Rightarrow> ResponsesEventToAnthropicState \<Rightarrow> r2a_result" where
  "resToAnthHandleOutputItemAdded evt st =
     (case re_Item evt of
        None \<Rightarrow> (st, [])
      | Some item \<Rightarrow>
          if ro_Type item = ''function_call'' \<or> ro_Type item = ''custom_tool_call'' then
            (let (st, events) = closeCurrentBlock st;
                 idx = r2a_ContentBlockIndex st;
                 st = st\<lparr>r2a_OutputIndexToBlockIdx :=
                            gput (r2a_OutputIndexToBlockIdx st) (re_OutputIndex evt) idx,
                         r2a_ContentBlockOpen := True, r2a_CurrentBlockType := ''tool_use'',
                         r2a_CurrentToolName := ro_Name item, r2a_CurrentToolArgs := '''',
                         r2a_CurrentToolHadDelta := False, r2a_HasToolCall := True\<rparr>
             in (st, events @ [ev_block_start idx
                   (zero_acb\<lparr>acb_Type := ''tool_use'', acb_ID := fromResponsesCallID (ro_CallID item),
                      acb_Name := ro_Name item, acb_Input := ''{}''\<rparr>)]))
          else if ro_Type item = ''reasoning'' then
            (let (st, events) = closeCurrentBlock st;
                 idx = r2a_ContentBlockIndex st;
                 st = st\<lparr>r2a_OutputIndexToBlockIdx :=
                            gput (r2a_OutputIndexToBlockIdx st) (re_OutputIndex evt) idx,
                         r2a_ContentBlockOpen := True, r2a_CurrentBlockType := ''thinking'',
                         r2a_PendingThinkingSignature := trim_space (ro_EncryptedContent item)\<rparr>
             in (st, events @ [ev_block_start idx (zero_acb\<lparr>acb_Type := ''thinking''\<rparr>)]))
          else (st, []))"

definition resToAnthHandleTextDelta ::
  "ResponsesStreamEvent \<Rightarrow> ResponsesEventToAnthropicState \<Rightarrow> r2a_result" where
  "resToAnthHandleTextDelta evt st =
     (if re_Delta evt = '''' then (st, [])
      else
        let (st, events) =
              (if \<not> r2a_ContentBlockOpen st \<or> r2a_CurrentBlockType st \<noteq> ''text'' then
                 let (st, events) = closeCurrentBlock st;
                     idx = r2a_ContentBlockIndex st;
                     st = st\<lparr>r2a_ContentBlockOpen := True, r2a_CurrentBlockType := ''text''\<rparr>
                 in (st, events @ [ev_block_start idx (zero_acb\<lparr>acb_Type := ''text''\<rparr>)])
               else (st, []))
        in (st, events @ [ev_block_delta (r2a_ContentBlockIndex st)
              (zero_ad\<lparr>ad_Type := ''text_delta'', ad_Text := re_Delta evt\<rparr>)]))"

definition resToAnthHandleFuncArgsDelta ::
  "json_lib \<Rightarrow> ResponsesStreamEvent \<Rightarrow> ResponsesEventToAnthropicState \<Rightarrow> r2a_result" where
  "resToAnthHandleFuncArgsDelta J evt st =
     (if re_Delta evt = '''' then (st, [])
      else if r2a_CurrentBlockType st = ''tool_use'' \<and> r2a_CurrentToolName st = ''Read'' then
        (let st = st\<lparr>r2a_CurrentToolArgs := r2a_CurrentToolArgs st @ re_Delta evt\<rparr>
         in if r2a_CurrentToolHadDelta st \<or> \<not> js_valid J (r2a_CurrentToolArgs st) then (st, [])
            else (case gget (r2a_OutputIndexToBlockIdx st) (re_OutputIndex evt) of
                    None \<Rightarrow> (st, [])
                  | Some blockIdx \<Rightarrow>
                      (st\<lparr>r2a_CurrentToolHadDelta := True\<rparr>,
                       [ev_block_delta blockIdx
                          (zero_ad\<lparr>ad_Type := ''input_json_delta'',
                             ad_PartialJSON := sanitizeAnthropicToolUseInput J
                               (r2a_CurrentToolName st) (r2a_CurrentToolArgs st)\<rparr>)])))
      else
        (let st = (if r2a_CurrentBlockType st = ''tool_use''
                   then st\<lparr>r2a_CurrentToolHadDelta := True\<rparr> else st)
         in (case gget (r2a_OutputIndexToBlockIdx st) (re_OutputIndex evt) of
               None \<Rightarrow> (st, [])
             | Some blockIdx \<Rightarrow>
                 (st, [ev_block_delta blockIdx
                         (zero_ad\<lparr>ad_Type := ''input_json_delta'', ad_PartialJSON := re_Delta evt\<rparr>)]))))"

definition resToAnthHandleBlockDone :: "ResponsesEventToAnthropicState \<Rightarrow> r2a_result" where
  "resToAnthHandleBlockDone st =
     (if \<not> r2a_ContentBlockOpen st then (st, []) else closeCurrentBlock st)"

definition resToAnthHandleFuncArgsDone ::
  "json_lib \<Rightarrow> ResponsesStreamEvent \<Rightarrow> ResponsesEventToAnthropicState \<Rightarrow> r2a_result" where
  "resToAnthHandleFuncArgsDone J evt st =
     (if \<not> r2a_ContentBlockOpen st then (st, [])
      else if r2a_CurrentBlockType st \<noteq> ''tool_use'' then resToAnthHandleBlockDone st
      else
        let raw = (if re_Arguments evt = '''' then r2a_CurrentToolArgs st else re_Arguments evt)
        in if raw = '''' \<or> r2a_CurrentToolHadDelta st then closeCurrentBlock st
           else
             let isRead = (r2a_CurrentToolName st = ''Read'');
                 sanitized = sanitizeAnthropicToolUseInput J (r2a_CurrentToolName st) raw
             in if isRead \<and> sanitized = '''' then closeCurrentBlock st
                else
                  let raw = (if isRead then sanitized else raw);
                      blockIdx = (case gget (r2a_OutputIndexToBlockIdx st) (re_OutputIndex evt) of
                                    None \<Rightarrow> r2a_ContentBlockIndex st
                                  | Some i \<Rightarrow> i)
                  in if \<not> r2a_ContentBlockOpen st \<or> blockIdx \<noteq> r2a_ContentBlockIndex st
                     then (st, [])
                     else
                       let events = [ev_block_delta blockIdx
                             (zero_ad\<lparr>ad_Type := ''input_json_delta'', ad_PartialJSON := raw\<rparr>)];
                           (st, closing) = closeCurrentBlock st
                       in (st, events @ closing))"

definition resToAnthHandleReasoningDelta ::
  "ResponsesStreamEvent \<Rightarrow> ResponsesEventToAnthropicState \<Rightarrow> r2a_result" where
  "resToAnthHandleReasoningDelta evt st =
     (if re_Delta evt = '''' then (st, [])
      else case gget (r2a_OutputIndexToBlockIdx st) (re_OutputIndex evt) of
             None \<Rightarrow> (st, [])
           | Some blockIdx \<Rightarrow>
               (st, [ev_block_delta blockIdx
                       (zero_ad\<lparr>ad_Type := ''thinking_delta'', ad_Thinking := re_Delta evt\<rparr>)]))"

definition resToAnthHandleWebSearchDone ::
  "json_lib \<Rightarrow> ResponsesOutput \<Rightarrow> ResponsesEventToAnthropicState \<Rightarrow> r2a_result" where
  "resToAnthHandleWebSearchDone J item st =
     (let (st, events) = closeCurrentBlock st;
          toolUseID = ''srvtoolu_'' @ ro_ID item;
          query = (case ro_Action item of None \<Rightarrow> '''' | Some a \<Rightarrow> wsa_Query a);
          idx1 = r2a_ContentBlockIndex st;
          events = events @
            [ev_block_start idx1 (zero_acb\<lparr>acb_Type := ''server_tool_use'', acb_ID := toolUseID,
               acb_Name := ''web_search'', acb_Input := js_encode_query J query\<rparr>),
             ev_block_stop idx1];
          st = st\<lparr>r2a_ContentBlockIndex := r2a_ContentBlockIndex st + 1\<rparr>;
          idx2 = r2a_ContentBlockIndex st;
          events = events @
            [ev_block_start idx2 (zero_acb\<lparr>acb_Type := ''web_search_tool_result'',
               acb_ToolUseID := toolUseID, acb_Content := js_encode_empty_list J\<rparr>),
             ev_block_stop idx2]
      in (st\<lparr>r2a_ContentBlockIndex := r2a_ContentBlockIndex st + 1\<rparr>, events))"

definition resToAnthHandleOutputItemDone ::
  "json_lib \<Rightarrow> ResponsesStreamEvent \<Rightarrow> ResponsesEventToAnthropicState \<Rightarrow> r2a_result" where
  "resToAnthHandleOutputItemDone J evt st =
     (case re_Item evt of
        None \<Rightarrow> (st, [])
      | Some item \<Rightarrow>
          if ro_Type item = ''web_search_call'' \<and> ro_Status item = ''completed'' then
            resToAnthHandleWebSearchDone J item st
          else
            let sig = trim_space (ro_EncryptedContent item);
                st = (if ro_Type item = ''reasoning'' \<and> sig \<noteq> ''''
                      then st\<lparr>r2a_PendingThinkingSignature := sig\<rparr> else st)
            in if r2a_ContentBlockOpen st then closeCurrentBlock st else (st, []))"

definition r2a_storeUsage ::
  "ResponsesUsage \<Rightarrow> ResponsesEventToAnthropicState \<Rightarrow> ResponsesEventToAnthropicState" where
  "r2a_storeUsage u st =
     (let usage = anthropicUsageFromResponsesUsage (Some u)
      in st\<lparr>r2a_InputTokens := au_InputTokens usage, r2a_OutputTokens := au_OutputTokens usage,
            r2a_CacheReadInputTokens := au_CacheReadInputTokens usage,
            r2a_CacheCreationInputTokens := au_CacheCreationInputTokens usage\<rparr>)"

definition r2a_terminalEvents ::
  "string \<Rightarrow> ResponsesEventToAnthropicState \<Rightarrow> AnthropicStreamEvent list" where
  "r2a_terminalEvents stopReason st =
     [zero_ae\<lparr>ae_Type := ''message_delta'',
        ae_Delta := Some (zero_ad\<lparr>ad_StopReason := stopReason\<rparr>),
        ae_Usage := Some \<lparr>au_InputTokens = r2a_InputTokens st, au_OutputTokens = r2a_OutputTokens st,
          au_CacheCreationInputTokens = r2a_CacheCreationInputTokens st,
          au_CacheReadInputTokens = r2a_CacheReadInputTokens st\<rparr>\<rparr>,
      zero_ae\<lparr>ae_Type := ''message_stop''\<rparr>]"

definition resToAnthHandleCompleted ::
  "ResponsesStreamEvent \<Rightarrow> ResponsesEventToAnthropicState \<Rightarrow> r2a_result" where
  "resToAnthHandleCompleted evt st =
     (if r2a_MessageStopSent st then (st, [])
      else
        let (st, events) = closeCurrentBlock st;
            st = (case re_Usage evt of None \<Rightarrow> st | Some u \<Rightarrow> r2a_storeUsage u st);
            st = (case re_Response evt of
                    None \<Rightarrow> st
                  | Some r \<Rightarrow> (case rr_Usage r of None \<Rightarrow> st | Some u \<Rightarrow> r2a_storeUsage u st));
            stopReason =
              (case re_Response evt of
                 None \<Rightarrow> ''end_turn''
               | Some r \<Rightarrow>
                   if rr_Status r = ''incomplete'' then
                     (case rr_IncompleteDetails r of
                        None \<Rightarrow> ''end_turn''
                      | Some d \<Rightarrow> if rid_Reason d = ''max_output_tokens'' then ''max_tokens'' else ''end_turn'')
                   else if rr_Status r = ''completed'' \<and> r2a_HasToolCall st then ''tool_use''
                   else ''end_turn'')
        in (st\<lparr>r2a_MessageStopSent := True\<rparr>, events @ r2a_terminalEvents stopReason st))"

definition ResponsesEventToAnthropicEvents ::
  "json_lib \<Rightarrow> ResponsesEventToAnthropicState \<Rightarrow> ResponsesStreamEvent \<Rightarrow> r2a_result" where
  "ResponsesEventToAnthropicEvents J st evt =
     (let t = re_Type evt in
      if t = ''response.created'' then resToAnthHandleCreated evt st
      else if t = ''response.output_item.added'' then resToAnthHandleOutputItemAdded evt st
      else if t = ''response.output_text.delta'' then resToAnthHandleTextDelta evt st
      else if t = ''response.output_text.done'' then resToAnthHandleBlockDone st
      else if t = ''response.function_call_arguments.delta''
              \<or> t = ''response.custom_tool_call_input.delta''
        then resToAnthHandleFuncArgsDelta J evt st
      else if t = ''response.function_call_arguments.done'' then resToAnthHandleFuncArgsDone J evt st
      else if t = ''response.output_item.done'' then resToAnthHandleOutputItemDone J evt st
      else if t = ''response.reasoning_summary_text.delta'' \<or> t = ''response.reasoning_text.delta''
        then resToAnthHandleReasoningDelta evt st
      else if t = ''response.reasoning_summary_text.done'' then (st, [])
      else if t = ''response.completed'' \<or> t = ''response.done'' \<or> t = ''response.incomplete''
              \<or> t = ''response.failed''
        then resToAnthHandleCompleted evt st
      else (st, []))"

definition FinalizeResponsesAnthropicStream :: "ResponsesEventToAnthropicState \<Rightarrow> r2a_result" where
  "FinalizeResponsesAnthropicStream st =
     (if \<not> r2a_MessageStartSent st \<or> r2a_MessageStopSent st then (st, [])
      else
        let (st, events) = closeCurrentBlock st;
            stopReason = (if r2a_HasToolCall st then ''tool_use'' else ''end_turn'')
        in (st\<lparr>r2a_MessageStopSent := True\<rparr>, events @ r2a_terminalEvents stopReason st))"

section \<open>The protocols on both sides\<close>

text \<open>
  The Anthropic streaming protocol: one \<open>message_start\<close>, then content blocks numbered from 0,
  each opened, filled by deltas and closed before the next one opens, then \<open>message_delta\<close> and
  \<open>message_stop\<close>. With \<open>strict\<close> a delta must name the open block; otherwise it may also name
  an earlier block that is already closed.
\<close>

datatype anth_phase = Before | Body int bool | Closing | Finished

fun anth_protocol :: "bool \<Rightarrow> anth_phase \<Rightarrow> AnthropicStreamEvent \<Rightarrow> anth_phase option" where
  "anth_protocol strict Before e =
     (if ae_Type e = ''message_start'' then Some (Body 0 False) else None)"
| "anth_protocol strict (Body n opn) e =
     (if ae_Type e = ''content_block_start'' \<and> \<not> opn \<and> ae_Index e = Some n \<and> ae_ContentBlock e \<noteq> None
        then Some (Body n True)
      else if ae_Type e = ''content_block_delta'' \<and> ae_Delta e \<noteq> None then
        (case ae_Index e of
           None \<Rightarrow> None
         | Some i \<Rightarrow> if opn \<and> i = n \<or> \<not> strict \<and> 0 \<le> i \<and> i < n then Some (Body n opn) else None)
      else if ae_Type e = ''content_block_stop'' \<and> opn \<and> ae_Index e = Some n
        then Some (Body (n + 1) False)
      else if ae_Type e = ''message_delta'' \<and> \<not> opn then Some Closing
      else None)"
| "anth_protocol strict Closing e =
     (if ae_Type e = ''message_stop'' then Some Finished else None)"
| "anth_protocol strict Finished e = None"

definition r2a_phase :: "ResponsesEventToAnthropicState \<Rightarrow> anth_phase" where
  "r2a_phase st =
     (if r2a_MessageStopSent st then Finished
      else if r2a_MessageStartSent st then Body (r2a_ContentBlockIndex st) (r2a_ContentBlockOpen st)
      else Before)"

text \<open>
  The upstream: \<open>response.created\<close> comes first, nothing but repeated terminal events comes
  after a terminal event. A \<open>sequential\<close> upstream moreover sends the argument and reasoning
  deltas of an item before anything else starts or ends: \<open>UpActive (Some i)\<close> remembers the
  output index whose deltas may come. Events the converter has no handler for may come at any
  time.
\<close>

datatype up_phase = UpIdle | UpActive "int option" | UpDone

definition is_item_delta :: "string \<Rightarrow> bool" where
  "is_item_delta t \<longleftrightarrow>
     t \<in> {''response.function_call_arguments.delta'', ''response.custom_tool_call_input.delta'',
          ''response.reasoning_summary_text.delta'', ''response.reasoning_text.delta''}"

definition is_terminal :: "string \<Rightarrow> bool" where
  "is_terminal t \<longleftrightarrow>
     t \<in> {''response.completed'', ''response.done'', ''response.incomplete'', ''response.failed''}"

definition is_done_event :: "string \<Rightarrow> bool" where
  "is_done_event t \<longleftrightarrow>
     t \<in> {''response.output_text.done'', ''response.function_call_arguments.done'',
          ''response.output_item.done''}"

definition opens_item :: "ResponsesStreamEvent \<Rightarrow> bool" where
  "opens_item e \<longleftrightarrow>
     (case re_Item e of
        None \<Rightarrow> False
      | Some item \<Rightarrow> ro_Type item \<in> {''function_call'', ''custom_tool_call'', ''reasoning''})"

fun r2a_upstream :: "bool \<Rightarrow> up_phase \<Rightarrow> ResponsesStreamEvent \<Rightarrow> up_phase option" where
  "r2a_upstream sequential UpIdle e =
     (if re_Type e = ''response.created'' then Some (UpActive None)
      else if is_terminal (re_Type e) \<or> is_done_event (re_Type e) \<or> is_item_delta (re_Type e)
              \<or> re_Type e = ''response.output_item.added'' \<or> re_Type e = ''response.output_text.delta''
        then None
      else Some UpIdle)"
| "r2a_upstream sequential (UpActive cur) e =
     (if is_terminal (re_Type e) then Some UpDone
      else if re_Type e = ''response.output_item.added'' then
        Some (UpActive (if opens_item e then Some (re_OutputIndex e) else cur))
      else if re_Type e = ''response.output_text.delta'' then
        Some (UpActive (if re_Delta e = '''' then cur else None))
      else if is_done_event (re_Type e) then Some (UpActive None)
      else if is_item_delta (re_Type e) then
        (if sequential \<and> re_Delta e \<noteq> '''' \<and> cur \<noteq> Some (re_OutputIndex e)
         then None else Some (UpActive cur))
      else Some (UpActive cur))"
| "r2a_upstream sequential UpDone e =
     (if is_done_event (re_Type e) \<or> is_item_delta (re_Type e) \<or> re_Type e = ''response.created''
         \<or> re_Type e = ''response.output_item.added'' \<or> re_Type e = ''response.output_text.delta''
        then None
      else Some UpDone)"

text \<open>
  Every block index stored for an output item is the index of a block that has been opened.
\<close>

definition idx_ok :: "int \<Rightarrow> bool \<Rightarrow> (int, int) gomap \<Rightarrow> bool" where
  "idx_ok n opn m \<longleftrightarrow> 0 \<le> n \<and>
     (\<forall>k i. gget m k = Some i \<longrightarrow> 0 \<le> i \<and> (i < n \<or> opn \<and> i = n))"

definition index_bound :: "ResponsesEventToAnthropicState \<Rightarrow> bool" where
  "index_bound st \<longleftrightarrow>
     idx_ok (r2a_ContentBlockIndex st) (r2a_ContentBlockOpen st) (r2a_OutputIndexToBlockIdx st)"

definition r2a_inv :: "bool \<Rightarrow> up_phase \<Rightarrow> ResponsesEventToAnthropicState \<Rightarrow> bool" where
  "r2a_inv sequential m st \<longleftrightarrow> index_bound st \<and>
     (case m of
        UpIdle \<Rightarrow> \<not> r2a_MessageStartSent st \<and> \<not> r2a_MessageStopSent st
                  \<and> r2a_ContentBlockIndex st = 0 \<and> \<not> r2a_ContentBlockOpen st
      | UpActive cur \<Rightarrow> r2a_MessageStartSent st \<and> \<not> r2a_MessageStopSent st \<and>
          (sequential \<longrightarrow> (case cur of
             None \<Rightarrow> True
           | Some oi \<Rightarrow> r2a_ContentBlockOpen st \<and>
               gget (r2a_OutputIndexToBlockIdx st) oi = Some (r2a_ContentBlockIndex st)))
      | UpDone \<Rightarrow> r2a_MessageStopSent st)"

section \<open>Lemmas on the handlers\<close>

lemmas r2a_event_defs = ev_block_start_def ev_block_delta_def ev_block_stop_def zero_ae_def

lemma close_fields [simp]:
  "r2a_ContentBlockOpen (fst (closeCurrentBlock st)) = False"
  "r2a_ContentBlockIndex (fst (closeCurrentBlock st)) =
     r2a_ContentBlockIndex st + (if r2a_ContentBlockOpen st then 1 else 0)"
  "r2a_MessageStartSent (fst (closeCurrentBlock st)) = r2a_MessageStartSent st"
  "r2a_MessageStopSent (fst (closeCurrentBlock st)) = r2a_MessageStopSent st"
  "r2a_OutputIndexToBlockIdx (fst (closeCurrentBlock st)) = r2a_OutputIndexToBlockIdx st"
  "r2a_HasToolCall (fst (closeCurrentBlock st)) = r2a_HasToolCall st"
  by (simp_all add: closeCurrentBlock_def Let_def)

lemma close_closed: "\<not> r2a_ContentBlockOpen st \<Longrightarrow> closeCurrentBlock st = (st, [])"
  by (simp add: closeCurrentBlock_def)

lemma close_accept [simp]:
  "accept (anth_protocol strict) (Body (r2a_ContentBlockIndex st) (r2a_ContentBlockOpen st))
     (snd (closeCurrentBlock st)) =
   Some (Body (r2a_ContentBlockIndex (fst (closeCurrentBlock st))) False)"
  by (simp add: closeCurrentBlock_def Let_def r2a_event_defs)

lemma close_accept_open [simp]:
  "r2a_ContentBlockOpen st \<Longrightarrow>
   accept (anth_protocol strict) (Body (r2a_ContentBlockIndex st) True) (snd (closeCurrentBlock st)) =
   Some (Body (r2a_ContentBlockIndex st + 1) False)"
  using close_accept [of strict st] by simp

lemma start_accept [simp]:
  "anth_protocol strict (Body n False) (ev_block_start n b) = Some (Body n True)"
  by (simp add: r2a_event_defs)

lemma delta_accept [simp]:
  "anth_protocol strict (Body n opn) (ev_block_delta i d) =
     (if opn \<and> i = n \<or> \<not> strict \<and> 0 \<le> i \<and> i < n then Some (Body n opn) else None)"
  by (simp add: r2a_event_defs)

lemma stop_accept [simp]:
  "anth_protocol strict (Body n True) (ev_block_stop n) = Some (Body (n + 1) False)"
  by (simp add: r2a_event_defs)

lemma terminal_accept [simp]:
  "accept (anth_protocol strict) (Body n False) (r2a_terminalEvents r st) = Some Finished"
  by (simp add: r2a_terminalEvents_def zero_ae_def)

declare anth_protocol.simps [simp del]

lemma idx_ok_put [simp]: "idx_ok n False m \<Longrightarrow> idx_ok n True (gput m k n)"
  by (auto simp: idx_ok_def gget_gput)

lemma idx_ok_open [simp]: "idx_ok n False m \<Longrightarrow> idx_ok n True m"
  by (auto simp: idx_ok_def)

lemma idx_ok_next [simp]: "idx_ok n b m \<Longrightarrow> idx_ok (n + 1) False m"
  by (fastforce simp: idx_ok_def)

lemma idx_ok_mono: "idx_ok n False m \<Longrightarrow> n \<le> n' \<Longrightarrow> idx_ok n' False m"
  by (fastforce simp: idx_ok_def)

lemma idx_ok_get:
  "idx_ok n b m \<Longrightarrow> gget m k = Some i \<Longrightarrow> b \<and> i = n \<or> 0 \<le> i \<and> i < n"
  by (auto simp: idx_ok_def)

lemma index_bound_close: "index_bound st \<Longrightarrow> index_bound (fst (closeCurrentBlock st))"
  by (cases "r2a_ContentBlockOpen st") (auto simp: index_bound_def)

text \<open>
  A handler applied in the middle of a stream: the message stays open, the block indexes stay
  bounded and the client's automaton follows the emitted events.
\<close>

definition r2a_live :: "ResponsesEventToAnthropicState \<Rightarrow> bool" where
  "r2a_live st \<longleftrightarrow> r2a_MessageStartSent st \<and> \<not> r2a_MessageStopSent st \<and> index_bound st"

definition r2a_good :: "bool \<Rightarrow> ResponsesEventToAnthropicState \<Rightarrow> r2a_result \<Rightarrow> bool" where
  "r2a_good strict st r \<longleftrightarrow> r2a_live (fst r) \<and>
     accept (anth_protocol strict) (r2a_phase st) (snd r) = Some (r2a_phase (fst r))"

lemma live_phase: "r2a_live st \<Longrightarrow>
    r2a_phase st = Body (r2a_ContentBlockIndex st) (r2a_ContentBlockOpen st)"
  by (simp add: r2a_live_def r2a_phase_def)

lemma live_close: "r2a_live st \<Longrightarrow> r2a_live (fst (closeCurrentBlock st))"
  by (simp add: r2a_live_def index_bound_close)

lemma good_none: "r2a_live st \<Longrightarrow> r2a_good strict st (st, [])"
  by (simp add: r2a_good_def)

lemma good_close: "r2a_live st \<Longrightarrow> r2a_good strict st (closeCurrentBlock st)"
  by (simp add: r2a_good_def live_phase live_close)

lemma good_added:
  assumes "r2a_live st"
  shows "r2a_good strict st (resToAnthHandleOutputItemAdded evt st)"
proof (cases "re_Item evt")
  case None
  with assms show ?thesis by (simp add: resToAnthHandleOutputItemAdded_def good_none)
next
  case (Some item)
  have "r2a_live (fst (closeCurrentBlock st))" by (rule live_close [OF assms])
  with assms Some show ?thesis
    by (simp add: resToAnthHandleOutputItemAdded_def r2a_good_def live_phase Let_def
        case_prod_beta accept_append r2a_live_def r2a_phase_def index_bound_def)
qed

lemma text_delta_empty: "re_Delta evt = '''' \<Longrightarrow> resToAnthHandleTextDelta evt st = (st, [])"
  by (simp add: resToAnthHandleTextDelta_def)

lemma good_text:
  assumes "r2a_live st"
  shows "r2a_good strict st (resToAnthHandleTextDelta evt st)"
proof -
  have "r2a_live (fst (closeCurrentBlock st))" by (rule live_close [OF assms])
  with assms show ?thesis
    by (cases "r2a_ContentBlockOpen st") (simp_all add: close_closed resToAnthHandleTextDelta_def r2a_good_def live_phase Let_def
        case_prod_beta accept_append r2a_live_def r2a_phase_def index_bound_def)
qed

text \<open>
  A delta for the item at \<open>k\<close>: laxly always fine, strictly fine when \<open>k\<close> is the open item.
\<close>

definition delta_ok :: "bool \<Rightarrow> ResponsesEventToAnthropicState \<Rightarrow> int \<Rightarrow> bool" where
  "delta_ok strict st k \<longleftrightarrow> (strict \<longrightarrow>
     r2a_ContentBlockOpen st \<and> gget (r2a_OutputIndexToBlockIdx st) k = Some (r2a_ContentBlockIndex st))"

lemma good_delta:
  assumes "r2a_live st" and "delta_ok strict st k"
    and "gget (r2a_OutputIndexToBlockIdx st) k = Some i"
  shows "r2a_good strict st (st, [ev_block_delta i d])"
  using assms idx_ok_get [of "r2a_ContentBlockIndex st" _ _ k i]
  by (auto simp: r2a_good_def live_phase delta_ok_def r2a_live_def index_bound_def)

text \<open>Fields that the protocol does not depend on.\<close>

definition r2a_same :: "ResponsesEventToAnthropicState \<Rightarrow> ResponsesEventToAnthropicState \<Rightarrow> bool" where
  "r2a_same s t \<longleftrightarrow>
     r2a_MessageStartSent s = r2a_MessageStartSent t \<and> r2a_MessageStopSent s = r2a_MessageStopSent t \<and>
     r2a_ContentBlockIndex s = r2a_ContentBlockIndex t \<and>
     r2a_ContentBlockOpen s = r2a_ContentBlockOpen t \<and>
     r2a_OutputIndexToBlockIdx s = r2a_OutputIndexToBlockIdx t"

lemma good_same:
  assumes "r2a_good strict st (st, out)" and "r2a_same st' st"
  shows "r2a_good strict st (st', out)"
proof -
  from assms(2) have "r2a_phase st' = r2a_phase st" and "r2a_live st' = r2a_live st"
    by (auto simp: r2a_same_def r2a_phase_def r2a_live_def index_bound_def)
  with assms(1) show ?thesis by (simp add: r2a_good_def)
qed

lemma good_args_delta:
  assumes "r2a_live st" and "re_Delta evt \<noteq> '''' \<Longrightarrow> delta_ok strict st (re_OutputIndex evt)"
  shows "r2a_good strict st (resToAnthHandleFuncArgsDelta J evt st)"
proof (cases "re_Delta evt = ''''")
  case True
  with assms show ?thesis by (simp add: resToAnthHandleFuncArgsDelta_def good_none)
next
  case False
  with assms(2) have d: "delta_ok strict st (re_OutputIndex evt)" by simp
  show ?thesis
  proof (cases "gget (r2a_OutputIndexToBlockIdx st) (re_OutputIndex evt)")
    case None
    with False show ?thesis
      by (simp add: resToAnthHandleFuncArgsDelta_def Let_def good_none [OF assms(1)]
          good_same [OF good_none [OF assms(1)]] r2a_same_def)
  next
    case (Some i)
    note g = good_delta [OF assms(1) d Some]
    from False Some show ?thesis
      by (simp add: resToAnthHandleFuncArgsDelta_def Let_def g
          good_same [OF g] good_same [OF good_none [OF assms(1)]] r2a_same_def)
  qed
qed

lemma good_reasoning_delta:
  assumes "r2a_live st" and "re_Delta evt \<noteq> '''' \<Longrightarrow> delta_ok strict st (re_OutputIndex evt)"
  shows "r2a_good strict st (resToAnthHandleReasoningDelta evt st)"
proof (cases "re_Delta evt = ''''")
  case True
  with assms show ?thesis by (simp add: resToAnthHandleReasoningDelta_def good_none)
next
  case False
  with assms(2) have d: "delta_ok strict st (re_OutputIndex evt)" by simp
  show ?thesis
    by (cases "gget (r2a_OutputIndexToBlockIdx st) (re_OutputIndex evt)")
      (simp_all add: resToAnthHandleReasoningDelta_def good_none [OF assms(1)]
        good_delta [OF assms(1) d])
qed

lemma good_block_done: "r2a_live st \<Longrightarrow> r2a_good strict st (resToAnthHandleBlockDone st)"
  by (simp add: resToAnthHandleBlockDone_def good_none good_close)

lemma good_delta_close:
  assumes "r2a_live st" and "r2a_ContentBlockOpen st"
  shows "r2a_good strict st (fst (closeCurrentBlock st),
           ev_block_delta (r2a_ContentBlockIndex st) d # snd (closeCurrentBlock st))"
  using assms live_close [OF assms(1)] live_phase [OF live_close [OF assms(1)]]
  by (simp add: r2a_good_def live_phase)

lemma good_args_done: "r2a_live st \<Longrightarrow> r2a_good strict st (resToAnthHandleFuncArgsDone J evt st)"
  by (auto simp: resToAnthHandleFuncArgsDone_def Let_def case_prod_beta
      good_none good_close good_block_done good_delta_close split: option.split)

lemma good_web_search:
  assumes "r2a_live st"
  shows "r2a_good strict st (resToAnthHandleWebSearchDone J item st)"
proof -
  let ?c = "fst (closeCurrentBlock st)"
  have c: "r2a_live ?c" by (rule live_close [OF assms])
  then have "idx_ok (2 + r2a_ContentBlockIndex st) False (r2a_OutputIndexToBlockIdx ?c)"
    if "\<not> r2a_ContentBlockOpen st"
    using that by (auto simp: r2a_live_def index_bound_def elim: idx_ok_mono)
  moreover from c have "idx_ok (3 + r2a_ContentBlockIndex st) False (r2a_OutputIndexToBlockIdx ?c)"
    if "r2a_ContentBlockOpen st"
    using that by (auto simp: r2a_live_def index_bound_def elim: idx_ok_mono)
  ultimately show ?thesis
    using assms c by (cases "r2a_ContentBlockOpen st") (simp_all add: close_closed resToAnthHandleWebSearchDone_def r2a_good_def live_phase Let_def
        case_prod_beta accept_append r2a_live_def r2a_phase_def index_bound_def)
qed

lemma live_signature: "r2a_live st \<Longrightarrow> r2a_live (st\<lparr>r2a_PendingThinkingSignature := s\<rparr>)"
  by (simp add: r2a_live_def index_bound_def)

lemma good_signature:
  "r2a_good strict (st\<lparr>r2a_PendingThinkingSignature := s\<rparr>) r = r2a_good strict st r"
  by (simp add: r2a_good_def r2a_phase_def)

lemma good_item_done:
  assumes "r2a_live st"
  shows "r2a_good strict st (resToAnthHandleOutputItemDone J evt st)"
proof -
  have sig: "r2a_good strict st (closeCurrentBlock (st\<lparr>r2a_PendingThinkingSignature := s\<rparr>))"
    and sig0: "r2a_good strict st (st\<lparr>r2a_PendingThinkingSignature := s\<rparr>, [])" for s
    using good_close [OF live_signature [OF assms]] good_none [OF live_signature [OF assms]]
    by (auto simp: good_signature)
  show ?thesis
    using assms
    by (simp add: resToAnthHandleOutputItemDone_def Let_def good_none good_close good_web_search
        sig sig0 split: option.split)
qed

lemma created_fields [simp]:
  "r2a_MessageStartSent (fst (resToAnthHandleCreated evt st))"
  "r2a_MessageStopSent (fst (resToAnthHandleCreated evt st)) = r2a_MessageStopSent st"
  "r2a_ContentBlockIndex (fst (resToAnthHandleCreated evt st)) = r2a_ContentBlockIndex st"
  "r2a_ContentBlockOpen (fst (resToAnthHandleCreated evt st)) = r2a_ContentBlockOpen st"
  "r2a_OutputIndexToBlockIdx (fst (resToAnthHandleCreated evt st)) = r2a_OutputIndexToBlockIdx st"
  by (auto simp: resToAnthHandleCreated_def Let_def split: option.split)

lemma good_created: "r2a_live st \<Longrightarrow> r2a_good strict st (resToAnthHandleCreated evt st)"
  unfolding r2a_good_def live_phase r2a_live_def r2a_phase_def index_bound_def
  by (auto simp: resToAnthHandleCreated_def Let_def split: option.split)

lemma completed_stopped:
  "r2a_MessageStopSent st \<Longrightarrow> resToAnthHandleCompleted evt st = (st, [])"
  by (simp add: resToAnthHandleCompleted_def)

lemma usage_fields [simp]:
  "r2a_MessageStartSent (r2a_storeUsage u st) = r2a_MessageStartSent st"
  "r2a_MessageStopSent (r2a_storeUsage u st) = r2a_MessageStopSent st"
  "r2a_ContentBlockIndex (r2a_storeUsage u st) = r2a_ContentBlockIndex st"
  "r2a_ContentBlockOpen (r2a_storeUsage u st) = r2a_ContentBlockOpen st"
  "r2a_OutputIndexToBlockIdx (r2a_storeUsage u st) = r2a_OutputIndexToBlockIdx st"
  "r2a_HasToolCall (r2a_storeUsage u st) = r2a_HasToolCall st"
  by (simp_all add: r2a_storeUsage_def Let_def)

lemma completed_live:
  assumes "r2a_live st"
  shows "r2a_MessageStopSent (fst (resToAnthHandleCompleted evt st))"
    and "index_bound (fst (resToAnthHandleCompleted evt st))"
    and "accept (anth_protocol strict) (r2a_phase st) (snd (resToAnthHandleCompleted evt st)) =
           Some Finished"
proof -
  have "r2a_live (fst (closeCurrentBlock st))" by (rule live_close [OF assms])
  with assms show "index_bound (fst (resToAnthHandleCompleted evt st))"
    by (simp add: resToAnthHandleCompleted_def Let_def case_prod_beta r2a_live_def index_bound_def
        split: option.split)
  from assms show "r2a_MessageStopSent (fst (resToAnthHandleCompleted evt st))"
    by (simp add: resToAnthHandleCompleted_def Let_def case_prod_beta)
  from assms show "accept (anth_protocol strict) (r2a_phase st)
      (snd (resToAnthHandleCompleted evt st)) = Some Finished"
    by (simp add: resToAnthHandleCompleted_def Let_def case_prod_beta accept_append live_phase
        r2a_live_def)
qed

lemma finalize_live:
  assumes "r2a_live st"
  shows "r2a_MessageStopSent (fst (FinalizeResponsesAnthropicStream st))"
    and "accept (anth_protocol strict) (r2a_phase st) (snd (FinalizeResponsesAnthropicStream st)) =
           Some Finished"
  using assms
  by (simp_all add: FinalizeResponsesAnthropicStream_def Let_def case_prod_beta accept_append
      live_phase r2a_live_def)

text \<open>The output index whose deltas may come stays the open item.\<close>

definition item_open :: "ResponsesEventToAnthropicState \<Rightarrow> int \<Rightarrow> bool" where
  "item_open st k \<longleftrightarrow>
     r2a_ContentBlockOpen st \<and> gget (r2a_OutputIndexToBlockIdx st) k = Some (r2a_ContentBlockIndex st)"

lemma added_item_open:
  "opens_item evt \<Longrightarrow> item_open (fst (resToAnthHandleOutputItemAdded evt st)) (re_OutputIndex evt)"
  by (auto simp: opens_item_def resToAnthHandleOutputItemAdded_def item_open_def Let_def
      case_prod_beta gget_gput split: option.splits)

lemma added_other: "\<not> opens_item evt \<Longrightarrow> resToAnthHandleOutputItemAdded evt st = (st, [])"
  by (auto simp: opens_item_def resToAnthHandleOutputItemAdded_def split: option.splits)

lemma args_delta_same: "r2a_same (fst (resToAnthHandleFuncArgsDelta J evt st)) st"
  by (simp add: resToAnthHandleFuncArgsDelta_def Let_def r2a_same_def split: option.split)

lemma reasoning_delta_same: "r2a_same (fst (resToAnthHandleReasoningDelta evt st)) st"
  by (simp add: resToAnthHandleReasoningDelta_def r2a_same_def split: option.split)

lemma created_same_items: "item_open (fst (resToAnthHandleCreated evt st)) k = item_open st k"
  by (simp add: item_open_def)

lemma same_item_open: "r2a_same s t \<Longrightarrow> item_open s k = item_open t k"
  by (simp add: r2a_same_def item_open_def)

lemma r2a_inv_active:
  "r2a_inv strict (UpActive cur) st \<longleftrightarrow>
     r2a_live st \<and> (strict \<longrightarrow> (case cur of None \<Rightarrow> True | Some k \<Rightarrow> item_open st k))"
  by (auto simp: r2a_inv_def r2a_live_def item_open_def split: option.splits)

section \<open>Dispatch by class of event\<close>

lemma step_created:
  "re_Type e = ''response.created'' \<Longrightarrow>
     ResponsesEventToAnthropicEvents J st e = resToAnthHandleCreated e st"
  by (simp add: ResponsesEventToAnthropicEvents_def)

lemma step_added:
  "re_Type e = ''response.output_item.added'' \<Longrightarrow>
     ResponsesEventToAnthropicEvents J st e = resToAnthHandleOutputItemAdded e st"
  by (simp add: ResponsesEventToAnthropicEvents_def)

lemma step_text:
  "re_Type e = ''response.output_text.delta'' \<Longrightarrow>
     ResponsesEventToAnthropicEvents J st e = resToAnthHandleTextDelta e st"
  by (simp add: ResponsesEventToAnthropicEvents_def)

lemma step_item_delta:
  "is_item_delta (re_Type e) \<Longrightarrow>
     ResponsesEventToAnthropicEvents J st e \<in>
       {resToAnthHandleFuncArgsDelta J e st, resToAnthHandleReasoningDelta e st}"
  by (auto simp: ResponsesEventToAnthropicEvents_def is_item_delta_def)

lemma step_done:
  "is_done_event (re_Type e) \<Longrightarrow>
     ResponsesEventToAnthropicEvents J st e \<in>
       {resToAnthHandleBlockDone st, resToAnthHandleFuncArgsDone J e st,
        resToAnthHandleOutputItemDone J e st}"
  by (auto simp: ResponsesEventToAnthropicEvents_def is_done_event_def)

lemma step_terminal:
  "is_terminal (re_Type e) \<Longrightarrow>
     ResponsesEventToAnthropicEvents J st e = resToAnthHandleCompleted e st"
  by (auto simp: ResponsesEventToAnthropicEvents_def is_terminal_def)

lemma step_other:
  "re_Type e \<noteq> ''response.created'' \<Longrightarrow> re_Type e \<noteq> ''response.output_item.added'' \<Longrightarrow>
   re_Type e \<noteq> ''response.output_text.delta'' \<Longrightarrow> \<not> is_item_delta (re_Type e) \<Longrightarrow>
   \<not> is_done_event (re_Type e) \<Longrightarrow> \<not> is_terminal (re_Type e) \<Longrightarrow>
     ResponsesEventToAnthropicEvents J st e = (st, [])"
  by (simp add: ResponsesEventToAnthropicEvents_def is_item_delta_def is_done_event_def
      is_terminal_def Let_def)

text \<open>The classes exclude each other.\<close>

lemma event_classes:
  "is_terminal t \<Longrightarrow> t \<noteq> ''response.created'' \<and> t \<noteq> ''response.output_item.added'' \<and>
     t \<noteq> ''response.output_text.delta'' \<and> \<not> is_item_delta t \<and> \<not> is_done_event t"
  "is_done_event t \<Longrightarrow> t \<noteq> ''response.created'' \<and> t \<noteq> ''response.output_item.added'' \<and>
     t \<noteq> ''response.output_text.delta'' \<and> \<not> is_item_delta t"
  "is_item_delta t \<Longrightarrow> t \<noteq> ''response.created'' \<and> t \<noteq> ''response.output_item.added'' \<and>
     t \<noteq> ''response.output_text.delta''"
  by (auto simp: is_terminal_def is_done_event_def is_item_delta_def)

text \<open>What one event does in the middle of a stream, and what the upstream may send next.\<close>

lemma step_live:
  assumes live: "r2a_live st" and cur: "strict \<longrightarrow> (case cur of None \<Rightarrow> True | Some k \<Rightarrow> item_open st k)"
    and up: "r2a_upstream strict (UpActive cur) e = Some (UpActive cur')"
  shows "r2a_good strict st (ResponsesEventToAnthropicEvents J st e)"
    and "strict \<longrightarrow> (case cur' of None \<Rightarrow> True
           | Some k \<Rightarrow> item_open (fst (ResponsesEventToAnthropicEvents J st e)) k)"
proof -
  let ?r = "ResponsesEventToAnthropicEvents J st e"
  from up have nt: "\<not> is_terminal (re_Type e)" by (auto split: if_splits)
  consider (created) "re_Type e = ''response.created''"
    | (added) "re_Type e = ''response.output_item.added''"
    | (content) "re_Type e = ''response.output_text.delta''"
    | (delta) "is_item_delta (re_Type e)"
    | (finish) "is_done_event (re_Type e)"
    | (other) "re_Type e \<noteq> ''response.created''" and "re_Type e \<noteq> ''response.output_item.added''"
        and "re_Type e \<noteq> ''response.output_text.delta''" and "\<not> is_item_delta (re_Type e)"
        and "\<not> is_done_event (re_Type e)"
    by blast
  then have "r2a_good strict st ?r \<and>
    (strict \<longrightarrow> (case cur' of None \<Rightarrow> True | Some k \<Rightarrow> item_open (fst ?r) k))"
  proof cases
    case created
    with up nt have "cur' = cur"
      by (auto simp: is_done_event_def is_item_delta_def)
    with created cur live show ?thesis
      by (auto simp: step_created good_created created_same_items split: option.splits)
  next
    case added
    with up nt have "cur' = (if opens_item e then Some (re_OutputIndex e) else cur)" by simp
    with added cur live show ?thesis
      by (auto simp: step_added good_added added_item_open added_other good_none split: option.splits)
  next
    case content
    with up nt have "cur' = (if re_Delta e = '''' then cur else None)" by simp
    with content cur live show ?thesis
      by (cases "re_Delta e = ''''")
        (auto simp: step_text good_text text_delta_empty good_none split: option.splits)
  next
    case delta
    note c = event_classes(3) [OF delta]
    have nd: "\<not> is_done_event (re_Type e)" using event_classes(2) delta by blast
    from up nt c nd delta have "cur' = cur"
      and d: "re_Delta e \<noteq> '''' \<Longrightarrow> strict \<Longrightarrow> cur = Some (re_OutputIndex e)"
      by (auto split: if_splits)
    with cur have "re_Delta e \<noteq> '''' \<Longrightarrow> delta_ok strict st (re_OutputIndex e)"
      by (auto simp: delta_ok_def item_open_def)
    note good_args_delta [OF live this] good_reasoning_delta [OF live this]
    with step_item_delta [OF delta, of J st] have "r2a_good strict st ?r" by auto
    moreover from step_item_delta [OF delta, of J st] have "r2a_same (fst ?r) st"
      by (auto simp: args_delta_same reasoning_delta_same)
    ultimately show ?thesis
      using cur \<open>cur' = cur\<close> by (auto simp: same_item_open split: option.splits)
  next
    case finish
    from up nt finish event_classes(2) [OF finish] have "cur' = None" by simp
    with step_done [OF finish, of J st] live show ?thesis
      by (auto intro: good_block_done good_args_done good_item_done)
  next
    case other
    with up nt have "cur' = cur" by simp
    with cur live show ?thesis
      by (cases cur) (simp_all add: step_other [OF other nt] good_none)
  qed
  then show "r2a_good strict st ?r" and
    "strict \<longrightarrow> (case cur' of None \<Rightarrow> True | Some k \<Rightarrow> item_open (fst ?r) k)" by blast+
qed

lemma step_inv_idle:
  assumes inv: "r2a_inv strict UpIdle st" and up: "r2a_upstream strict UpIdle e = Some m'"
  shows "r2a_inv strict m' (fst (ResponsesEventToAnthropicEvents J st e))"
    and "accept (anth_protocol strict) (r2a_phase st) (snd (ResponsesEventToAnthropicEvents J st e)) =
           Some (r2a_phase (fst (ResponsesEventToAnthropicEvents J st e)))"
proof -
  let ?r = "ResponsesEventToAnthropicEvents J st e"
  have "r2a_inv strict m' (fst ?r) \<and>
    accept (anth_protocol strict) (r2a_phase st) (snd ?r) = Some (r2a_phase (fst ?r))"
  proof (cases "re_Type e = ''response.created''")
    case True
    with up have "m' = UpActive None" by simp
    moreover from inv have "accept (anth_protocol strict) Before (snd (resToAnthHandleCreated e st)) =
        Some (Body 0 False)"
      by (simp add: r2a_inv_def resToAnthHandleCreated_def Let_def anth_protocol.simps zero_ae_def
          split: option.split)
    ultimately show ?thesis
      using inv by (auto simp: step_created [OF True] r2a_inv_def r2a_phase_def index_bound_def)
  next
    case False
    with up have "m' = UpIdle" and "?r = (st, [])"
      by (auto intro: step_other split: if_splits)
    with inv show ?thesis by simp
  qed
  then show "r2a_inv strict m' (fst ?r)" and
    "accept (anth_protocol strict) (r2a_phase st) (snd ?r) = Some (r2a_phase (fst ?r))" by blast+
qed

lemma step_inv_done:
  assumes inv: "r2a_inv strict UpDone st" and up: "r2a_upstream strict UpDone e = Some m'"
  shows "ResponsesEventToAnthropicEvents J st e = (st, []) \<and> m' = UpDone"
proof (cases "is_terminal (re_Type e)")
  case True
  with inv up show ?thesis
    by (auto simp: step_terminal completed_stopped r2a_inv_def split: if_splits)
next
  case False
  with up show ?thesis by (auto intro: step_other split: if_splits)
qed

lemma step_inv_terminal:
  assumes inv: "r2a_inv strict (UpActive cur) st" and "is_terminal (re_Type e)"
  shows "r2a_inv strict UpDone (fst (ResponsesEventToAnthropicEvents J st e))"
    and "accept (anth_protocol strict) (r2a_phase st) (snd (ResponsesEventToAnthropicEvents J st e)) =
           Some (r2a_phase (fst (ResponsesEventToAnthropicEvents J st e)))"
proof -
  from inv have live: "r2a_live st" by (simp add: r2a_inv_active)
  note c = completed_live [OF live, where evt = e]
  from c(1) have "r2a_phase (fst (resToAnthHandleCompleted e st)) = Finished"
    by (simp add: r2a_phase_def)
  with c show "r2a_inv strict UpDone (fst (ResponsesEventToAnthropicEvents J st e))"
    and "accept (anth_protocol strict) (r2a_phase st) (snd (ResponsesEventToAnthropicEvents J st e)) =
           Some (r2a_phase (fst (ResponsesEventToAnthropicEvents J st e)))"
    by (simp_all add: step_terminal [OF assms(2)] r2a_inv_def)
qed

interpretation r2a: stream_protocol
  "ResponsesEventToAnthropicEvents J" "r2a_upstream strict" "anth_protocol strict" "\<lambda>m. r2a_phase"
  "r2a_inv strict" for J strict
proof unfold_locales
  fix m st e m'
  assume inv: "r2a_inv strict m st" and up: "r2a_upstream strict m e = Some m'"
  let ?r = "ResponsesEventToAnthropicEvents J st e"
  have "r2a_inv strict m' (fst ?r) \<and>
    accept (anth_protocol strict) (r2a_phase st) (snd ?r) = Some (r2a_phase (fst ?r))"
  proof (cases m)
    case UpIdle
    with inv up step_inv_idle show ?thesis by blast
  next
    case UpDone
    with inv up step_inv_done [of strict st e m' J] show ?thesis by auto
  next
    case (UpActive cur)
    show ?thesis
    proof (cases "is_terminal (re_Type e)")
      case True
      with up UpActive have "m' = UpDone" by simp
      with True inv UpActive step_inv_terminal show ?thesis by blast
    next
      case False
      with up UpActive obtain cur' where m': "m' = UpActive cur'"
        by (auto split: if_splits)
      from inv UpActive have live: "r2a_live st"
        and cur: "strict \<longrightarrow> (case cur of None \<Rightarrow> True | Some k \<Rightarrow> item_open st k)"
        by (simp_all add: r2a_inv_active)
      note s = step_live [OF live cur, of e cur' J]
      from up UpActive m' s show ?thesis by (simp add: r2a_inv_active r2a_good_def)
    qed
  qed
  then show "r2a_inv strict m' (fst ?r)" and
    "accept (anth_protocol strict) (r2a_phase st) (snd ?r) = Some (r2a_phase (fst ?r))" by blast+
qed

end
