(* ===== verification/Responses_To_Anthropic_Content.thy ===== *)
theory Responses_To_Anthropic_Content
  imports Responses_To_Anthropic
begin

text \<open>
  What a Responses stream carries through \<open>ResponsesEventToAnthropicEvents\<close>: the text of the
  answer, the terminal events and the token counts.
\<close>

section \<open>Text and terminal events\<close>

definition text_in :: "ResponsesStreamEvent \<Rightarrow> string" where
  "text_in e = (if re_Type e = ''response.output_text.delta'' then re_Delta e else '''')"

definition text_out :: "AnthropicStreamEvent \<Rightarrow> string" where
  "text_out e =
     (if ae_Type e = ''content_block_delta'' then
        (case ae_Delta e of
           None \<Rightarrow> ''''
         | Some d \<Rightarrow> if ad_Type d = ''text_delta'' then ad_Text d else '''')
      else '''')"

definition texts :: "AnthropicStreamEvent list \<Rightarrow> string" where
  "texts es = concat (map text_out es)"

definition stops :: "AnthropicStreamEvent list \<Rightarrow> nat" where
  "stops es = length (filter (\<lambda>e. ae_Type e = ''message_stop'') es)"

lemma text_out_events [simp]:
  "text_out (ev_block_start i b) = ''''"
  "text_out (ev_block_stop i) = ''''"
  "text_out (ev_block_delta i d) = (if ad_Type d = ''text_delta'' then ad_Text d else '''')"
  by (simp_all add: text_out_def r2a_event_defs)

lemma texts_simps [simp]:
  "texts [] = ''''"
  "texts (e # es) = text_out e @ texts es"
  "texts (xs @ ys) = texts xs @ texts ys"
  by (simp_all add: texts_def)

lemma stops_simps [simp]:
  "stops [] = 0"
  "stops (ev_block_start i b # es) = stops es"
  "stops (ev_block_stop i # es) = stops es"
  "stops (ev_block_delta i d # es) = stops es"
  "stops (xs @ ys) = stops xs + stops ys"
  by (simp_all add: stops_def r2a_event_defs)

lemma close_text_out [simp]: "texts (snd (closeCurrentBlock st)) = ''''"
  by (simp add: closeCurrentBlock_def Let_def zero_ad_def)

lemma close_stops [simp]: "stops (snd (closeCurrentBlock st)) = 0"
  by (simp add: closeCurrentBlock_def Let_def)

lemma terminal_text_out [simp]: "texts (r2a_terminalEvents r st) = ''''"
  by (simp add: r2a_terminalEvents_def text_out_def zero_ae_def)

lemma terminal_stops [simp]: "stops (r2a_terminalEvents r st) = 1"
  by (simp add: r2a_terminalEvents_def stops_def zero_ae_def)

lemma handler_text_out:
  "texts (snd (resToAnthHandleCreated evt st)) = ''''"
  "texts (snd (resToAnthHandleOutputItemAdded evt st)) = ''''"
  "texts (snd (resToAnthHandleTextDelta evt st)) = re_Delta evt"
  "texts (snd (resToAnthHandleFuncArgsDelta J evt st)) = ''''"
  "texts (snd (resToAnthHandleReasoningDelta evt st)) = ''''"
  "texts (snd (resToAnthHandleBlockDone st)) = ''''"
  "texts (snd (resToAnthHandleFuncArgsDone J evt st)) = ''''"
  "texts (snd (resToAnthHandleWebSearchDone J item st)) = ''''"
  "texts (snd (resToAnthHandleCompleted evt st)) = ''''"
          apply (simp add: resToAnthHandleCreated_def Let_def text_out_def zero_ae_def
      split: option.split)
         apply (simp add: resToAnthHandleOutputItemAdded_def Let_def case_prod_beta split: option.split)
        apply (simp add: resToAnthHandleTextDelta_def Let_def case_prod_beta)
       apply (simp add: resToAnthHandleFuncArgsDelta_def Let_def zero_ad_def split: option.split)
      apply (simp add: resToAnthHandleReasoningDelta_def zero_ad_def split: option.split)
     apply (simp add: resToAnthHandleBlockDone_def)
    apply (simp add: resToAnthHandleFuncArgsDone_def resToAnthHandleBlockDone_def Let_def
      case_prod_beta zero_ad_def)
   apply (simp add: resToAnthHandleWebSearchDone_def Let_def case_prod_beta)
  apply (simp add: resToAnthHandleCompleted_def Let_def case_prod_beta)
  done

lemma item_done_text_out: "texts (snd (resToAnthHandleOutputItemDone J evt st)) = ''''"
  by (simp add: resToAnthHandleOutputItemDone_def handler_text_out Let_def split: option.split)

lemma step_text_out: "texts (snd (ResponsesEventToAnthropicEvents J st e)) = text_in e"
  by (simp add: ResponsesEventToAnthropicEvents_def Let_def handler_text_out item_done_text_out
      text_in_def)

interpretation r2a_text: stream_content "ResponsesEventToAnthropicEvents J" text_in text_out for J
  by unfold_locales (rule step_text_out [unfolded texts_def])

text \<open>A step emits \<open>message_stop\<close> exactly when it sets \<open>MessageStopSent\<close>.\<close>

definition stop_step :: "ResponsesEventToAnthropicState \<Rightarrow> r2a_result \<Rightarrow> bool" where
  "stop_step st r \<longleftrightarrow>
     stops (snd r) + (if r2a_MessageStopSent st then 1 else 0) =
       (if r2a_MessageStopSent (fst r) then 1 else 0)"

lemma stop_step_quiet:
  "stops (snd r) = 0 \<Longrightarrow> r2a_MessageStopSent (fst r) = r2a_MessageStopSent st \<Longrightarrow> stop_step st r"
  by (simp add: stop_step_def)

lemma handler_stop_step:
  "stop_step st (resToAnthHandleCreated evt st)"
  "stop_step st (resToAnthHandleOutputItemAdded evt st)"
  "stop_step st (resToAnthHandleTextDelta evt st)"
  "stop_step st (resToAnthHandleFuncArgsDelta J evt st)"
  "stop_step st (resToAnthHandleReasoningDelta evt st)"
  "stop_step st (resToAnthHandleBlockDone st)"
  "stop_step st (resToAnthHandleFuncArgsDone J evt st)"
  "stop_step st (resToAnthHandleWebSearchDone J item st)"
  "stop_step st (resToAnthHandleCompleted evt st)"
  "stop_step st (FinalizeResponsesAnthropicStream st)"
           apply (rule stop_step_quiet; simp add: resToAnthHandleCreated_def Let_def stops_def
      zero_ae_def split: option.split)
          apply (rule stop_step_quiet; simp add: resToAnthHandleOutputItemAdded_def Let_def
      case_prod_beta split: option.split)
         apply (rule stop_step_quiet; simp add: resToAnthHandleTextDelta_def Let_def case_prod_beta)
        apply (rule stop_step_quiet; simp add: resToAnthHandleFuncArgsDelta_def Let_def
      split: option.split)
       apply (rule stop_step_quiet; simp add: resToAnthHandleReasoningDelta_def split: option.split)
      apply (rule stop_step_quiet; simp add: resToAnthHandleBlockDone_def)
     apply (rule stop_step_quiet; simp add: resToAnthHandleFuncArgsDone_def
      resToAnthHandleBlockDone_def Let_def case_prod_beta)
    apply (rule stop_step_quiet; simp add: resToAnthHandleWebSearchDone_def Let_def case_prod_beta)
   apply (simp add: stop_step_def resToAnthHandleCompleted_def Let_def case_prod_beta)
  apply (simp add: stop_step_def FinalizeResponsesAnthropicStream_def Let_def case_prod_beta)
  done

lemma item_done_stop_step: "stop_step st (resToAnthHandleOutputItemDone J evt st)"
proof -
  have "stop_step st (closeCurrentBlock (st\<lparr>r2a_PendingThinkingSignature := s\<rparr>))"
    and "stop_step st (closeCurrentBlock st)" for s
    by (rule stop_step_quiet; simp)+
  then show ?thesis
    by (simp add: resToAnthHandleOutputItemDone_def Let_def handler_stop_step stop_step_quiet
        split: option.split)
qed

lemma step_stop_step: "stop_step st (ResponsesEventToAnthropicEvents J st e)"
  by (simp add: ResponsesEventToAnthropicEvents_def Let_def handler_stop_step item_done_stop_step
      stop_step_quiet)

lemma run_stop_step: "stop_step st (run_stream (ResponsesEventToAnthropicEvents J) st es)"
proof (induction es arbitrary: st)
  case Nil
  then show ?case by (simp add: stop_step_def)
next
  case (Cons e es)
  from Cons.IH [of "fst (ResponsesEventToAnthropicEvents J st e)"] step_stop_step [of st J e]
  show ?case by (simp only: stop_step_def run_stream_Cons stops_simps)
qed

section \<open>Properties of the stream conversion\<close>

lemma new_state_inv: "r2a_inv strict UpIdle (NewResponsesEventToAnthropicState now)"
  by (simp add: r2a_inv_def NewResponsesEventToAnthropicState_def index_bound_def idx_ok_def
      gm.get_empty)

lemma new_state_phase: "r2a_phase (NewResponsesEventToAnthropicState now) = Before"
  by (simp add: r2a_phase_def NewResponsesEventToAnthropicState_def)

lemma run_new_inv:
  "accept (r2a_upstream strict) UpIdle es = Some m \<Longrightarrow>
     r2a_inv strict m (fst (run_stream (ResponsesEventToAnthropicEvents J)
       (NewResponsesEventToAnthropicState now) es))"
  by (rule r2a.run_inv [OF new_state_inv])

lemma run_new_accept:
  "accept (r2a_upstream strict) UpIdle es = Some m \<Longrightarrow>
     accept (anth_protocol strict) Before (snd (run_stream (ResponsesEventToAnthropicEvents J)
       (NewResponsesEventToAnthropicState now) es)) =
     Some (r2a_phase (fst (run_stream (ResponsesEventToAnthropicEvents J)
       (NewResponsesEventToAnthropicState now) es)))"
  using r2a.run_accept [OF new_state_inv, of strict es m now J] by (simp add: new_state_phase)

lemma inv_done_phase: "r2a_inv strict UpDone st \<Longrightarrow> r2a_phase st = Finished"
  by (simp add: r2a_inv_def r2a_phase_def)

text \<open>
  C11. Every complete upstream stream is converted into a complete Anthropic stream:
  \<open>message_start\<close>, blocks opened, filled and closed one after the other under consecutive
  indexes, \<open>message_delta\<close>, \<open>message_stop\<close>, and nothing after it. For an upstream that does
  not interleave the deltas of its items, each delta also names the block that is open.
\<close>

theorem r2a_stream_protocol:
  assumes "accept (r2a_upstream sequential) UpIdle es = Some UpDone"
  shows "accept (anth_protocol sequential) Before
           (snd (run_stream (ResponsesEventToAnthropicEvents J)
                   (NewResponsesEventToAnthropicState now) es)) = Some Finished"
  using run_new_accept [OF assms] inv_done_phase [OF run_new_inv [OF assms]] by simp

text \<open>
  C37. A stream that breaks off at any point after \<open>response.created\<close>, or that is already
  complete, is completed by \<open>FinalizeResponsesAnthropicStream\<close>: the client sees one finished
  Anthropic message.
\<close>

theorem r2a_finalize_completes:
  assumes "accept (r2a_upstream sequential) UpIdle es = Some m" and "m \<noteq> UpIdle"
  shows "accept (anth_protocol sequential) Before
           (let (st, out) = run_stream (ResponsesEventToAnthropicEvents J)
                              (NewResponsesEventToAnthropicState now) es
            in out @ snd (FinalizeResponsesAnthropicStream st)) = Some Finished"
proof -
  let ?r = "run_stream (ResponsesEventToAnthropicEvents J) (NewResponsesEventToAnthropicState now) es"
  have "accept (anth_protocol sequential) (r2a_phase (fst ?r))
      (snd (FinalizeResponsesAnthropicStream (fst ?r))) = Some Finished"
  proof (cases m)
    case UpDone
    with run_new_inv [OF assms(1), of J now] show ?thesis
      by (simp add: r2a_inv_def r2a_phase_def FinalizeResponsesAnthropicStream_def)
  next
    case (UpActive cur)
    with run_new_inv [OF assms(1), of J now] show ?thesis
      by (simp add: r2a_inv_active finalize_live)
  qed (use assms in simp)
  with run_new_accept [OF assms(1), of J now] show ?thesis
    by (simp add: case_prod_beta accept_append_Some)
qed

text \<open>
  No text is lost, added or reordered: over any sequence of upstream events, well formed or
  not, the concatenated \<open>text_delta\<close>s the client receives are the concatenated
  \<open>response.output_text.delta\<close>s.
\<close>

theorem r2a_text_preserved:
  "texts (snd (run_stream (ResponsesEventToAnthropicEvents J) st es)) = concat (map text_in es)"
  unfolding texts_def by (rule r2a_text.run_content)

text \<open>
  Over any sequence of upstream events, however many terminal events it holds, the stream
  with its finalisation has exactly one \<open>message_stop\<close> when a message was started or a
  terminal event arrived, and none otherwise; finalising again emits nothing.
\<close>

theorem r2a_one_message_stop:
  "let (st, out) = run_stream (ResponsesEventToAnthropicEvents J)
                     (NewResponsesEventToAnthropicState now) es;
       (st', out') = FinalizeResponsesAnthropicStream st
   in stops (out @ out') =
        (if r2a_MessageStartSent st \<or> r2a_MessageStopSent st then 1 else 0) \<and>
      FinalizeResponsesAnthropicStream st' = (st', [])"
proof -
  let ?r = "run_stream (ResponsesEventToAnthropicEvents J) (NewResponsesEventToAnthropicState now) es"
  have "stops (snd ?r) = (if r2a_MessageStopSent (fst ?r) then 1 else 0)"
    using run_stop_step [of "NewResponsesEventToAnthropicState now" J es]
    by (simp add: stop_step_def NewResponsesEventToAnthropicState_def)
  then show ?thesis
    by (simp add: case_prod_beta Let_def FinalizeResponsesAnthropicStream_def)
qed

text \<open>
  C38. The token counts of the two protocols agree: the uncached input, the cache reads and the
  cache writes that the Anthropic usage reports add up to the input tokens of the Responses
  usage, and the uncached input is not negative. When an upstream reports more cached tokens than input
  tokens, the uncached input is zero and the cached tokens are all that is counted. The upstream's
  details are present, its input, cached and cache creation counts are not negative, and the input count
  as well as the sum of the other two is below 2^63. The output count is the upstream's own, whatever it
  is.
\<close>

theorem r2a_usage_accounting:
  assumes "0 \<le> ritd_CachedTokens d" and "0 \<le> ru_CacheCreationInputTokens u" and "0 \<le> ru_InputTokens u"
    and "ru_InputTokensDetails u = Some d"
    and "ritd_CachedTokens d + ru_CacheCreationInputTokens u < 2 ^ 63"
    and "ru_InputTokens u < 2 ^ 63"
  shows "let a = anthropicUsageFromResponsesUsage (Some u)
         in au_InputTokens a + au_CacheReadInputTokens a + au_CacheCreationInputTokens a =
              max (ru_InputTokens u) (ritd_CachedTokens d + ru_CacheCreationInputTokens u) \<and>
            0 \<le> au_InputTokens a \<and> au_OutputTokens a = ru_OutputTokens u"
proof -
  from assms have "int64_range (ru_InputTokens u - ritd_CachedTokens d)"
    and "int64_range (ru_InputTokens u - ritd_CachedTokens d - ru_CacheCreationInputTokens u)"
    by (simp_all add: int64_range_def)
  with assms show ?thesis
    by (simp add: anthropicUsageFromResponsesUsage_def Let_def go_arith max_def)
qed

section \<open>Instances\<close>

definition sample_call :: ResponsesOutput where
  "sample_call = zero_ro\<lparr>ro_Type := ''function_call'', ro_CallID := ''fc_call_7'', ro_Name := ''Read''\<rparr>"

text \<open>A text answer, then a tool call with its arguments in two deltas.\<close>

definition sample_open :: "ResponsesStreamEvent list" where
  "sample_open =
     [zero_re\<lparr>re_Type := ''response.created''\<rparr>,
      zero_re\<lparr>re_Type := ''response.in_progress''\<rparr>,
      zero_re\<lparr>re_Type := ''response.output_text.delta'', re_Delta := ''ok''\<rparr>,
      zero_re\<lparr>re_Type := ''response.output_text.done''\<rparr>,
      zero_re\<lparr>re_Type := ''response.output_item.added'', re_OutputIndex := 1, re_Item := Some sample_call\<rparr>,
      zero_re\<lparr>re_Type := ''response.function_call_arguments.delta'', re_OutputIndex := 1, re_Delta := ''{''\<rparr>,
      zero_re\<lparr>re_Type := ''response.function_call_arguments.delta'', re_OutputIndex := 1, re_Delta := ''}''\<rparr>]"

definition sample_close :: "ResponsesStreamEvent list" where
  "sample_close =
     [zero_re\<lparr>re_Type := ''response.output_item.done'', re_OutputIndex := 1, re_Item := Some sample_call\<rparr>,
      zero_re\<lparr>re_Type := ''response.completed''\<rparr>, zero_re\<lparr>re_Type := ''response.done''\<rparr>]"

lemmas sample_defs = sample_json_def sample_call_def sample_open_def sample_close_def

lemma sample_upstream:
  "accept (r2a_upstream True) UpIdle sample_open = Some (UpActive (Some 1))"
  "accept (r2a_upstream True) UpIdle (sample_open @ sample_close) = Some UpDone"
  by (simp_all add: sample_defs zero_re_def zero_ro_def is_terminal_def is_done_event_def
      is_item_delta_def opens_item_def)

theorem r2a_stream_protocol_witness:
  "accept (r2a_upstream True) UpIdle (sample_open @ sample_close) = Some UpDone \<and>
   accept (anth_protocol True) Before
     (snd (run_stream (ResponsesEventToAnthropicEvents sample_json)
             (NewResponsesEventToAnthropicState 0) (sample_open @ sample_close))) = Some Finished"
  using r2a_stream_protocol [OF sample_upstream(2)] sample_upstream(2) by blast

theorem r2a_finalize_completes_witness:
  "accept (r2a_upstream True) UpIdle sample_open = Some (UpActive (Some 1)) \<and>
   accept (anth_protocol True) Before
     (let (st, out) = run_stream (ResponsesEventToAnthropicEvents sample_json)
                        (NewResponsesEventToAnthropicState 0) sample_open
      in out @ snd (FinalizeResponsesAnthropicStream st)) = Some Finished"
proof
  show "accept (r2a_upstream True) UpIdle sample_open = Some (UpActive (Some 1))"
    by (rule sample_upstream)
  show "accept (anth_protocol True) Before
     (let (st, out) = run_stream (ResponsesEventToAnthropicEvents sample_json)
                        (NewResponsesEventToAnthropicState 0) sample_open
      in out @ snd (FinalizeResponsesAnthropicStream st)) = Some Finished"
    by (rule r2a_finalize_completes [OF sample_upstream(1)]) simp
qed

definition sample_usage :: ResponsesUsage where
  "sample_usage = \<lparr>ru_InputTokens = 100, ru_OutputTokens = 7, ru_TotalTokens = 107,
     ru_CacheCreationInputTokens = 30,
     ru_InputTokensDetails = Some \<lparr>ritd_CachedTokens = 50, ritd_AudioTokens = 0,
       ritd_CacheCreationTokens = 0, ritd_CacheWriteTokens = 0\<rparr>,
     ru_OutputTokensDetails = None\<rparr>"

theorem r2a_usage_accounting_witness:
  "let a = anthropicUsageFromResponsesUsage (Some sample_usage)
   in au_InputTokens a + au_CacheReadInputTokens a + au_CacheCreationInputTokens a = 100 \<and>
      0 \<le> au_InputTokens a \<and> au_OutputTokens a = 7"
  using r2a_usage_accounting [where u = sample_usage] by (simp add: sample_usage_def Let_def)

end
