(* ===== verification/Anthropic_To_Responses.thy ===== *)
theory Anthropic_To_Responses
  imports Compat_Types Sse_Stream
begin

text \<open>
  backend/internal/pkg/apicompat/anthropic_to_responses_response.go: the conversion of an
  Anthropic Messages answer into an OpenAI Responses answer, whole
  (\<open>AnthropicToResponsesResponse\<close>) and event by event (\<open>AnthropicEventToResponsesEvents\<close> over
  the state \<open>AnthropicEventToResponsesState\<close>). The hexadecimal strings the two ID generators
  draw from \<open>crypto/rand\<close> are the argument \<open>rnd\<close>: the n-th draw is \<open>rnd n\<close>.
\<close>

section \<open>Whole responses\<close>

definition generateResponsesID :: "(nat \<Rightarrow> string) \<Rightarrow> nat \<Rightarrow> string" where
  "generateResponsesID rnd n = ''resp_'' @ rnd n"

definition generateItemID :: "(nat \<Rightarrow> string) \<Rightarrow> nat \<Rightarrow> string" where
  "generateItemID rnd n = ''item_'' @ rnd n"

definition toResponsesCallID :: "string \<Rightarrow> string" where
  "toResponsesCallID cid = cid"

definition anthropicStopReasonToResponsesStatus :: "string \<Rightarrow> AnthropicContentBlock list \<Rightarrow> string" where
  "anthropicStopReasonToResponsesStatus stopReason blocks =
     (if stopReason = ''max_tokens'' then ''incomplete''
      else if stopReason \<in> {''end_turn'', ''tool_use'', ''stop_sequence''} then ''completed''
      else ''completed'')"

definition a2r_usage :: "AnthropicUsage \<Rightarrow> ResponsesUsage" where
  "a2r_usage u =
     (let totalInputTokens =
            i64 (i64 (au_InputTokens u + au_CacheReadInputTokens u) + au_CacheCreationInputTokens u)
      in \<lparr>ru_InputTokens = totalInputTokens, ru_OutputTokens = au_OutputTokens u,
          ru_TotalTokens = i64 (totalInputTokens + au_OutputTokens u),
          ru_CacheCreationInputTokens = au_CacheCreationInputTokens u,
          ru_InputTokensDetails =
            (if 0 < au_CacheReadInputTokens u then
               Some \<lparr>ritd_CachedTokens = au_CacheReadInputTokens u, ritd_AudioTokens = 0,
                 ritd_CacheCreationTokens = 0, ritd_CacheWriteTokens = 0\<rparr>
             else None),
          ru_OutputTokensDetails = None\<rparr>)"

text \<open>
  The loop over the blocks, with the number of IDs drawn, the output items and the parts of the
  message item, which is appended after the loop.
\<close>

fun a2r_blocks ::
  "(nat \<Rightarrow> string) \<Rightarrow> AnthropicContentBlock list \<Rightarrow>
   nat \<times> ResponsesOutput list \<times> ResponsesContentPart list \<Rightarrow>
   nat \<times> ResponsesOutput list \<times> ResponsesContentPart list" where
  "a2r_blocks rnd [] (n, outputs, msgParts) = (n, outputs, msgParts)"
| "a2r_blocks rnd (block # blocks) (n, outputs, msgParts) =
     (if acb_Type block = ''thinking'' then
        (if acb_Thinking block \<noteq> '''' then
           a2r_blocks rnd blocks
             (n + 1, outputs @ [zero_ro\<lparr>ro_Type := ''reasoning'', ro_ID := generateItemID rnd n,
                ro_Summary := [\<lparr>rs_Type = ''summary_text'', rs_Text = acb_Thinking block\<rparr>]\<rparr>], msgParts)
         else a2r_blocks rnd blocks (n, outputs, msgParts))
      else if acb_Type block = ''text'' then
        (if acb_Text block \<noteq> '''' then
           a2r_blocks rnd blocks
             (n, outputs, msgParts @ [\<lparr>rcp_Type = ''output_text'', rcp_Text = acb_Text block,
                rcp_ImageURL = ''''\<rparr>])
         else a2r_blocks rnd blocks (n, outputs, msgParts))
      else if acb_Type block = ''tool_use'' then
        (let args = (if acb_Input block \<noteq> '''' then acb_Input block else ''{}'')
         in a2r_blocks rnd blocks
              (n + 1, outputs @ [zero_ro\<lparr>ro_Type := ''function_call'', ro_ID := generateItemID rnd n,
                 ro_CallID := toResponsesCallID (acb_ID block), ro_Name := acb_Name block,
                 ro_Arguments := args, ro_Status := ''completed''\<rparr>], msgParts))
      else a2r_blocks rnd blocks (n, outputs, msgParts))"

definition a2r_message :: "(nat \<Rightarrow> string) \<Rightarrow> nat \<Rightarrow> ResponsesContentPart list \<Rightarrow> ResponsesOutput" where
  "a2r_message rnd n parts =
     zero_ro\<lparr>ro_Type := ''message'', ro_ID := generateItemID rnd n, ro_Role := ''assistant'',
       ro_Content := parts, ro_Status := ''completed''\<rparr>"

definition AnthropicToResponsesResponse ::
  "(nat \<Rightarrow> string) \<Rightarrow> nat \<Rightarrow> AnthropicResponse \<Rightarrow> ResponsesResponse" where
  "AnthropicToResponsesResponse rnd n resp =
     (let rid = (if ar_ID resp = '''' then generateResponsesID rnd n else ar_ID resp);
          n = (if ar_ID resp = '''' then n + 1 else n);
          (n, outputs, msgParts) = a2r_blocks rnd (ar_Content resp) (n, [], []);
          (n, outputs) = (if msgParts \<noteq> [] then (n + 1, outputs @ [a2r_message rnd n msgParts])
                          else (n, outputs));
          outputs = (if outputs = []
                     then [a2r_message rnd n [\<lparr>rcp_Type = ''output_text'', rcp_Text = '''', rcp_ImageURL = ''''\<rparr>]]
                     else outputs);
          status = anthropicStopReasonToResponsesStatus
                     (AnthropicStopReasonString (ar_StopReason resp)) (ar_Content resp)
      in \<lparr>rr_ID = rid, rr_Object = ''response'', rr_Model = ar_Model resp, rr_Status = status,
          rr_Output = outputs, rr_Usage = Some (a2r_usage (ar_Usage resp)),
          rr_IncompleteDetails = (if status = ''incomplete''
            then Some \<lparr>rid_Reason = ''max_output_tokens''\<rparr> else None),
          rr_Error = None\<rparr>)"

section \<open>The stream state\<close>

text \<open>\<open>a2r_Drawn\<close> counts the IDs drawn for the stream; the other fields are the code's.\<close>

record AnthropicEventToResponsesState =
  a2r_ResponseID :: string
  a2r_Model :: string
  a2r_Created :: int
  a2r_SequenceNumber :: int
  a2r_CreatedSent :: bool
  a2r_CompletedSent :: bool
  a2r_OutputIndex :: int
  a2r_CurrentItemID :: string
  a2r_CurrentItemType :: string
  a2r_ContentIndex :: int
  a2r_TextAccum :: string
  a2r_CurrentCallID :: string
  a2r_CurrentName :: string
  a2r_CurrentContent :: "ResponsesContentPart list"
  a2r_CurrentArgs :: string
  a2r_CurrentSummary :: string
  a2r_Outputs :: "ResponsesOutput list"
  a2r_InputTokens :: int
  a2r_OutputTokens :: int
  a2r_CacheReadInputTokens :: int
  a2r_CacheCreationInputTokens :: int
  a2r_StopReason :: string
  a2r_Drawn :: nat

type_synonym a2r_result = "AnthropicEventToResponsesState \<times> ResponsesStreamEvent list"

definition NewAnthropicEventToResponsesState :: "int \<Rightarrow> AnthropicEventToResponsesState" where
  "NewAnthropicEventToResponsesState now =
     \<lparr>a2r_ResponseID = '''', a2r_Model = '''', a2r_Created = now, a2r_SequenceNumber = 0,
      a2r_CreatedSent = False, a2r_CompletedSent = False, a2r_OutputIndex = 0,
      a2r_CurrentItemID = '''', a2r_CurrentItemType = '''', a2r_ContentIndex = 0,
      a2r_TextAccum = '''', a2r_CurrentCallID = '''', a2r_CurrentName = '''',
      a2r_CurrentContent = [], a2r_CurrentArgs = '''', a2r_CurrentSummary = '''', a2r_Outputs = [],
      a2r_InputTokens = 0, a2r_OutputTokens = 0, a2r_CacheReadInputTokens = 0,
      a2r_CacheCreationInputTokens = 0, a2r_StopReason = '''', a2r_Drawn = 0\<rparr>"

definition makeResponsesEvent ::
  "AnthropicEventToResponsesState \<Rightarrow> string \<Rightarrow> ResponsesStreamEvent \<Rightarrow>
   AnthropicEventToResponsesState \<times> ResponsesStreamEvent" where
  "makeResponsesEvent st eventType template =
     (let sq = a2r_SequenceNumber st
      in (st\<lparr>a2r_SequenceNumber := sq + 1\<rparr>,
          template\<lparr>re_Type := eventType, re_SequenceNumber := sq\<rparr>))"

definition makeResponsesCreatedEvent ::
  "AnthropicEventToResponsesState \<Rightarrow> AnthropicEventToResponsesState \<times> ResponsesStreamEvent" where
  "makeResponsesCreatedEvent st =
     (let sq = a2r_SequenceNumber st
      in (st\<lparr>a2r_SequenceNumber := sq + 1\<rparr>,
          zero_re\<lparr>re_Type := ''response.created'', re_SequenceNumber := sq,
            re_Response := Some
              \<lparr>rr_ID = a2r_ResponseID st, rr_Object = ''response'', rr_Model = a2r_Model st,
               rr_Status = ''in_progress'', rr_Output = [], rr_Usage = None,
               rr_IncompleteDetails = None, rr_Error = None\<rparr>\<rparr>))"

definition makeResponsesCompletedEvent ::
  "AnthropicEventToResponsesState \<Rightarrow> string \<Rightarrow> ResponsesIncompleteDetails option \<Rightarrow>
   AnthropicEventToResponsesState \<times> ResponsesStreamEvent" where
  "makeResponsesCompletedEvent st status incompleteDetails =
     (let sq = a2r_SequenceNumber st;
          usage = a2r_usage \<lparr>au_InputTokens = a2r_InputTokens st, au_OutputTokens = a2r_OutputTokens st,
            au_CacheCreationInputTokens = a2r_CacheCreationInputTokens st,
            au_CacheReadInputTokens = a2r_CacheReadInputTokens st\<rparr>;
          eventType = (if status = ''incomplete'' then ''response.incomplete'' else ''response.completed'')
      in (st\<lparr>a2r_SequenceNumber := sq + 1\<rparr>,
          zero_re\<lparr>re_Type := eventType, re_SequenceNumber := sq,
            re_Response := Some
              \<lparr>rr_ID = a2r_ResponseID st, rr_Object = ''response'', rr_Model = a2r_Model st,
               rr_Status = status, rr_Output = a2r_Outputs st, rr_Usage = Some usage,
               rr_IncompleteDetails = incompleteDetails, rr_Error = None\<rparr>\<rparr>))"

definition anthropicResponsesStreamTerminalState ::
  "string \<Rightarrow> string \<times> ResponsesIncompleteDetails option" where
  "anthropicResponsesStreamTerminalState stopReason =
     (if stopReason = ''max_tokens'' then (''incomplete'', Some \<lparr>rid_Reason = ''max_output_tokens''\<rparr>)
      else (''completed'', None))"

definition a2r_currentItem :: "AnthropicEventToResponsesState \<Rightarrow> ResponsesOutput" where
  "a2r_currentItem st =
     (let item = zero_ro\<lparr>ro_Type := a2r_CurrentItemType st, ro_ID := a2r_CurrentItemID st,
                   ro_Status := ''completed''\<rparr>
      in if a2r_CurrentItemType st = ''message'' then
           item\<lparr>ro_Role := ''assistant'', ro_Content := a2r_CurrentContent st\<rparr>
         else if a2r_CurrentItemType st = ''function_call'' then
           item\<lparr>ro_CallID := a2r_CurrentCallID st, ro_Name := a2r_CurrentName st,
             ro_Arguments := (if a2r_CurrentArgs st = '''' then ''{}'' else a2r_CurrentArgs st)\<rparr>
         else if a2r_CurrentItemType st = ''reasoning'' then
           (if a2r_CurrentSummary st \<noteq> ''''
            then item\<lparr>ro_Summary := [\<lparr>rs_Type = ''summary_text'', rs_Text = a2r_CurrentSummary st\<rparr>]\<rparr>
            else item)
         else item)"

definition closeCurrentResponsesItem :: "AnthropicEventToResponsesState \<Rightarrow> a2r_result" where
  "closeCurrentResponsesItem st =
     (if a2r_CurrentItemType st = '''' then (st, [])
      else
        let item = a2r_currentItem st;
            st = st\<lparr>a2r_Outputs := a2r_Outputs st @ [item], a2r_CurrentItemType := '''',
              a2r_CurrentItemID := '''', a2r_CurrentCallID := '''', a2r_CurrentName := '''',
              a2r_CurrentContent := [], a2r_CurrentArgs := '''', a2r_CurrentSummary := '''',
              a2r_TextAccum := '''', a2r_OutputIndex := a2r_OutputIndex st + 1, a2r_ContentIndex := 0\<rparr>;
            (st, evt) = makeResponsesEvent st ''response.output_item.done''
              (zero_re\<lparr>re_OutputIndex := a2r_OutputIndex st - 1, re_Item := Some item\<rparr>)
        in (st, [evt]))"

section \<open>The handlers\<close>

definition anthToResHandleMessageStart ::
  "AnthropicStreamEvent \<Rightarrow> AnthropicEventToResponsesState \<Rightarrow> a2r_result" where
  "anthToResHandleMessageStart evt st =
     (let st = (case ae_Message evt of
                  None \<Rightarrow> st
                | Some m \<Rightarrow>
                    let u = ar_Usage m;
                        st = st\<lparr>a2r_ResponseID := ar_ID m\<rparr>;
                        st = (if a2r_Model st = '''' then st\<lparr>a2r_Model := ar_Model m\<rparr> else st);
                        st = (if 0 < au_InputTokens u then st\<lparr>a2r_InputTokens := au_InputTokens u\<rparr> else st);
                        st = (if 0 < au_CacheReadInputTokens u
                              then st\<lparr>a2r_CacheReadInputTokens := au_CacheReadInputTokens u\<rparr> else st)
                    in if 0 < au_CacheCreationInputTokens u
                       then st\<lparr>a2r_CacheCreationInputTokens := au_CacheCreationInputTokens u\<rparr> else st)
      in if a2r_CreatedSent st then (st, [])
         else
           let (st, evt) = makeResponsesCreatedEvent (st\<lparr>a2r_CreatedSent := True\<rparr>)
           in (st, [evt]))"

definition a2r_openMessage ::
  "(nat \<Rightarrow> string) \<Rightarrow> AnthropicEventToResponsesState \<Rightarrow> a2r_result" where
  "a2r_openMessage rnd st =
     (if a2r_CurrentItemType st \<noteq> ''message'' then
        let st = st\<lparr>a2r_CurrentItemID := generateItemID rnd (a2r_Drawn st),
              a2r_Drawn := a2r_Drawn st + 1, a2r_CurrentItemType := ''message'', a2r_ContentIndex := 0\<rparr>;
            (st, evt) = makeResponsesEvent st ''response.output_item.added''
              (zero_re\<lparr>re_OutputIndex := a2r_OutputIndex st,
                 re_Item := Some (zero_ro\<lparr>ro_Type := ''message'', ro_ID := a2r_CurrentItemID st,
                   ro_Role := ''assistant'', ro_Status := ''in_progress''\<rparr>)\<rparr>)
        in (st, [evt])
      else (st, []))"

definition anthToResHandleContentBlockStart ::
  "(nat \<Rightarrow> string) \<Rightarrow> AnthropicStreamEvent \<Rightarrow> AnthropicEventToResponsesState \<Rightarrow> a2r_result" where
  "anthToResHandleContentBlockStart rnd evt st =
     (case ae_ContentBlock evt of
        None \<Rightarrow> (st, [])
      | Some b \<Rightarrow>
          if acb_Type b = ''thinking'' then
            (let st = st\<lparr>a2r_CurrentItemID := generateItemID rnd (a2r_Drawn st),
                   a2r_Drawn := a2r_Drawn st + 1, a2r_CurrentItemType := ''reasoning'',
                   a2r_ContentIndex := 0\<rparr>;
                 (st, e) = makeResponsesEvent st ''response.output_item.added''
                   (zero_re\<lparr>re_OutputIndex := a2r_OutputIndex st,
                      re_Item := Some (zero_ro\<lparr>ro_Type := ''reasoning'', ro_ID := a2r_CurrentItemID st\<rparr>)\<rparr>)
             in (st, [e]))
          else if acb_Type b = ''text'' then
            (let (st, events) = a2r_openMessage rnd st;
                 (st, e) = makeResponsesEvent st ''response.content_part.added''
                   (zero_re\<lparr>re_OutputIndex := a2r_OutputIndex st, re_ContentIndex := a2r_ContentIndex st,
                      re_ItemID := a2r_CurrentItemID st,
                      re_Part := Some \<lparr>rcp_Type = ''output_text'', rcp_Text = '''', rcp_ImageURL = ''''\<rparr>\<rparr>)
             in (st\<lparr>a2r_TextAccum := ''''\<rparr>, events @ [e]))
          else if acb_Type b = ''tool_use'' then
            (let (st, events) = closeCurrentResponsesItem st;
                 st = st\<lparr>a2r_CurrentItemID := generateItemID rnd (a2r_Drawn st),
                   a2r_Drawn := a2r_Drawn st + 1, a2r_CurrentItemType := ''function_call'',
                   a2r_CurrentCallID := toResponsesCallID (acb_ID b), a2r_CurrentName := acb_Name b\<rparr>;
                 (st, e) = makeResponsesEvent st ''response.output_item.added''
                   (zero_re\<lparr>re_OutputIndex := a2r_OutputIndex st,
                      re_Item := Some (zero_ro\<lparr>ro_Type := ''function_call'', ro_ID := a2r_CurrentItemID st,
                        ro_CallID := a2r_CurrentCallID st, ro_Name := a2r_CurrentName st,
                        ro_Status := ''in_progress''\<rparr>)\<rparr>)
             in (st, events @ [e]))
          else (st, []))"

definition anthToResHandleContentBlockDelta ::
  "AnthropicStreamEvent \<Rightarrow> AnthropicEventToResponsesState \<Rightarrow> a2r_result" where
  "anthToResHandleContentBlockDelta evt st =
     (case ae_Delta evt of
        None \<Rightarrow> (st, [])
      | Some d \<Rightarrow>
          if ad_Type d = ''text_delta'' then
            (if ad_Text d = '''' then (st, [])
             else
               let st = st\<lparr>a2r_TextAccum := a2r_TextAccum st @ ad_Text d\<rparr>;
                   (st, e) = makeResponsesEvent st ''response.output_text.delta''
                     (zero_re\<lparr>re_OutputIndex := a2r_OutputIndex st, re_ContentIndex := a2r_ContentIndex st,
                        re_Delta := ad_Text d, re_ItemID := a2r_CurrentItemID st\<rparr>)
               in (st, [e]))
          else if ad_Type d = ''thinking_delta'' then
            (if ad_Thinking d = '''' then (st, [])
             else
               let st = st\<lparr>a2r_CurrentSummary := a2r_CurrentSummary st @ ad_Thinking d\<rparr>;
                   (st, e) = makeResponsesEvent st ''response.reasoning_summary_text.delta''
                     (zero_re\<lparr>re_OutputIndex := a2r_OutputIndex st, re_SummaryIndex := 0,
                        re_Delta := ad_Thinking d, re_ItemID := a2r_CurrentItemID st\<rparr>)
               in (st, [e]))
          else if ad_Type d = ''input_json_delta'' then
            (if ad_PartialJSON d = '''' then (st, [])
             else
               let st = st\<lparr>a2r_CurrentArgs := a2r_CurrentArgs st @ ad_PartialJSON d\<rparr>;
                   (st, e) = makeResponsesEvent st ''response.function_call_arguments.delta''
                     (zero_re\<lparr>re_OutputIndex := a2r_OutputIndex st, re_Delta := ad_PartialJSON d,
                        re_ItemID := a2r_CurrentItemID st, re_CallID := a2r_CurrentCallID st,
                        re_Name := a2r_CurrentName st\<rparr>)
               in (st, [e]))
          else if ad_Type d = ''signature_delta'' then (st, [])
          else (st, []))"

definition anthToResHandleContentBlockStop :: "AnthropicEventToResponsesState \<Rightarrow> a2r_result" where
  "anthToResHandleContentBlockStop st =
     (if a2r_CurrentItemType st = ''reasoning'' then
        (let (st, e) = makeResponsesEvent st ''response.reasoning_summary_text.done''
               (zero_re\<lparr>re_OutputIndex := a2r_OutputIndex st, re_SummaryIndex := 0,
                  re_ItemID := a2r_CurrentItemID st\<rparr>);
             (st, events) = closeCurrentResponsesItem st
         in (st, e # events))
      else if a2r_CurrentItemType st = ''function_call'' then
        (let (st, e) = makeResponsesEvent st ''response.function_call_arguments.done''
               (zero_re\<lparr>re_OutputIndex := a2r_OutputIndex st, re_ItemID := a2r_CurrentItemID st,
                  re_CallID := a2r_CurrentCallID st, re_Name := a2r_CurrentName st\<rparr>);
             (st, events) = closeCurrentResponsesItem st
         in (st, e # events))
      else if a2r_CurrentItemType st = ''message'' then
        (let text = a2r_TextAccum st;
             part = \<lparr>rcp_Type = ''output_text'', rcp_Text = text, rcp_ImageURL = ''''\<rparr>;
             st = st\<lparr>a2r_TextAccum := '''', a2r_CurrentContent := a2r_CurrentContent st @ [part]\<rparr>;
             (st, e1) = makeResponsesEvent st ''response.output_text.done''
               (zero_re\<lparr>re_OutputIndex := a2r_OutputIndex st, re_ContentIndex := a2r_ContentIndex st,
                  re_ItemID := a2r_CurrentItemID st, re_Text := text\<rparr>);
             (st, e2) = makeResponsesEvent st ''response.content_part.done''
               (zero_re\<lparr>re_OutputIndex := a2r_OutputIndex st, re_ContentIndex := a2r_ContentIndex st,
                  re_ItemID := a2r_CurrentItemID st, re_Part := Some part\<rparr>)
         in (st, [e1, e2]))
      else (st, []))"

definition anthToResHandleMessageDelta ::
  "AnthropicStreamEvent \<Rightarrow> AnthropicEventToResponsesState \<Rightarrow> a2r_result" where
  "anthToResHandleMessageDelta evt st =
     (let st = (case ae_Usage evt of
                  None \<Rightarrow> st
                | Some u \<Rightarrow>
                    let st = st\<lparr>a2r_OutputTokens := au_OutputTokens u\<rparr>;
                        st = (if 0 < au_InputTokens u then st\<lparr>a2r_InputTokens := au_InputTokens u\<rparr> else st);
                        st = (if 0 < au_CacheReadInputTokens u
                              then st\<lparr>a2r_CacheReadInputTokens := au_CacheReadInputTokens u\<rparr> else st)
                    in if 0 < au_CacheCreationInputTokens u
                       then st\<lparr>a2r_CacheCreationInputTokens := au_CacheCreationInputTokens u\<rparr> else st);
          st = (case ae_Delta evt of
                  None \<Rightarrow> st
                | Some d \<Rightarrow> if ad_StopReason d \<noteq> '''' then st\<lparr>a2r_StopReason := ad_StopReason d\<rparr> else st)
      in (st, []))"

definition a2r_complete :: "AnthropicEventToResponsesState \<Rightarrow> a2r_result" where
  "a2r_complete st =
     (let (st, events) = closeCurrentResponsesItem st;
          (status, incompleteDetails) = anthropicResponsesStreamTerminalState (a2r_StopReason st);
          (st, e) = makeResponsesCompletedEvent st status incompleteDetails
      in (st\<lparr>a2r_CompletedSent := True\<rparr>, events @ [e]))"

definition anthToResHandleMessageStop :: "AnthropicEventToResponsesState \<Rightarrow> a2r_result" where
  "anthToResHandleMessageStop st =
     (if a2r_CompletedSent st then (st, []) else a2r_complete st)"

definition AnthropicEventToResponsesEvents ::
  "(nat \<Rightarrow> string) \<Rightarrow> AnthropicEventToResponsesState \<Rightarrow> AnthropicStreamEvent \<Rightarrow> a2r_result" where
  "AnthropicEventToResponsesEvents rnd st evt =
     (let t = ae_Type evt in
      if t = ''message_start'' then anthToResHandleMessageStart evt st
      else if t = ''content_block_start'' then anthToResHandleContentBlockStart rnd evt st
      else if t = ''content_block_delta'' then anthToResHandleContentBlockDelta evt st
      else if t = ''content_block_stop'' then anthToResHandleContentBlockStop st
      else if t = ''message_delta'' then anthToResHandleMessageDelta evt st
      else if t = ''message_stop'' then anthToResHandleMessageStop st
      else (st, []))"

definition FinalizeAnthropicResponsesStream :: "AnthropicEventToResponsesState \<Rightarrow> a2r_result" where
  "FinalizeAnthropicResponsesStream st =
     (if \<not> a2r_CreatedSent st \<or> a2r_CompletedSent st then (st, []) else a2r_complete st)"

section \<open>The books of the stream\<close>

text \<open>
  An auditor of the emitted events knows the next sequence number and the items that are done.
  Sequence numbers are consecutive, the i-th \<open>output_item.done\<close> carries output index i, and a
  terminal event lists exactly the items that are done.
\<close>

definition is_a2r_terminal :: "string \<Rightarrow> bool" where
  "is_a2r_terminal t \<longleftrightarrow> t = ''response.completed'' \<or> t = ''response.incomplete''"

fun audit :: "int \<times> ResponsesOutput list \<Rightarrow> ResponsesStreamEvent \<Rightarrow> (int \<times> ResponsesOutput list) option" where
  "audit (n, items) e =
     (if re_SequenceNumber e \<noteq> n then None
      else if re_Type e = ''response.output_item.done'' then
        (case re_Item e of
           None \<Rightarrow> None
         | Some item \<Rightarrow>
             if re_OutputIndex e = int (length items) then Some (n + 1, items @ [item]) else None)
      else if is_a2r_terminal (re_Type e) then
        (case re_Response e of
           None \<Rightarrow> None
         | Some r \<Rightarrow> if rr_Output r = items then Some (n + 1, items) else None)
      else Some (n + 1, items))"

definition a2r_books :: "AnthropicEventToResponsesState \<Rightarrow> int \<times> ResponsesOutput list" where
  "a2r_books st = (a2r_SequenceNumber st, a2r_Outputs st)"

definition a2r_indexed :: "AnthropicEventToResponsesState \<Rightarrow> bool" where
  "a2r_indexed st \<longleftrightarrow> a2r_OutputIndex st = int (length (a2r_Outputs st))"

definition a2r_booked :: "AnthropicEventToResponsesState \<Rightarrow> a2r_result \<Rightarrow> bool" where
  "a2r_booked st r \<longleftrightarrow> a2r_indexed (fst r) \<and> accept audit (a2r_books st) (snd r) = Some (a2r_books (fst r))"

lemma make_fst [simp]:
  "fst (makeResponsesEvent st t tmpl) = st\<lparr>a2r_SequenceNumber := a2r_SequenceNumber st + 1\<rparr>"
  by (simp add: makeResponsesEvent_def Let_def)

lemma make_snd:
  "snd (makeResponsesEvent st t tmpl) = tmpl\<lparr>re_Type := t, re_SequenceNumber := a2r_SequenceNumber st\<rparr>"
  by (simp add: makeResponsesEvent_def Let_def)

lemma close_none_item [simp]: "a2r_CurrentItemType st = '''' \<Longrightarrow> closeCurrentResponsesItem st = (st, [])"
  by (simp add: closeCurrentResponsesItem_def)

lemma close_booked: "a2r_indexed st \<Longrightarrow> a2r_booked st (closeCurrentResponsesItem st)"
  by (simp add: closeCurrentResponsesItem_def Let_def case_prod_beta make_snd a2r_booked_def
      a2r_indexed_def a2r_books_def)

text \<open>Steps that do not touch the books, and steps in sequence.\<close>

lemma booked_quiet:
  "a2r_indexed st \<Longrightarrow> a2r_SequenceNumber st' = a2r_SequenceNumber st \<Longrightarrow>
   a2r_Outputs st' = a2r_Outputs st \<Longrightarrow> a2r_OutputIndex st' = a2r_OutputIndex st \<Longrightarrow>
     a2r_booked st (st', [])"
  by (simp add: a2r_booked_def a2r_indexed_def a2r_books_def)

lemma booked_seq:
  assumes "a2r_booked st r1" and "a2r_booked (fst r1) r2"
  shows "a2r_booked st (fst r2, snd r1 @ snd r2)"
  using assms by (simp add: a2r_booked_def accept_append_Some)

lemma booked_emit:
  assumes "a2r_indexed st" and "t \<noteq> ''response.output_item.done''" and "\<not> is_a2r_terminal t"
  shows "a2r_booked st (fst (makeResponsesEvent st t tmpl), [snd (makeResponsesEvent st t tmpl)])"
  using assms by (simp add: a2r_booked_def make_snd a2r_books_def a2r_indexed_def)

lemma booked_indexed: "a2r_booked st r \<Longrightarrow> a2r_indexed (fst r)"
  by (simp add: a2r_booked_def)

definition same_books :: "AnthropicEventToResponsesState \<Rightarrow> AnthropicEventToResponsesState \<Rightarrow> bool" where
  "same_books s t \<longleftrightarrow> a2r_books s = a2r_books t \<and> a2r_OutputIndex s = a2r_OutputIndex t"

lemma same_booksI:
  "a2r_SequenceNumber s = a2r_SequenceNumber t \<Longrightarrow> a2r_Outputs s = a2r_Outputs t \<Longrightarrow>
   a2r_OutputIndex s = a2r_OutputIndex t \<Longrightarrow> same_books s t"
  by (simp add: same_books_def a2r_books_def)

lemma same_books_indexed: "same_books s t \<Longrightarrow> a2r_indexed s = a2r_indexed t"
  by (simp add: same_books_def a2r_indexed_def a2r_books_def)

lemma booked_same: "same_books s t \<Longrightarrow> a2r_booked s r = a2r_booked t r"
  by (simp add: same_books_def a2r_booked_def)

lemma booked_same_after: "same_books s t \<Longrightarrow> a2r_booked st (s, out) = a2r_booked st (t, out)"
  unfolding a2r_booked_def fst_conv snd_conv
  by (metis same_books_indexed same_books_def)

lemma complete_booked:
  assumes "a2r_indexed st"
  shows "a2r_booked st (a2r_complete st)"
proof -
  let ?c = "closeCurrentResponsesItem st"
  have c: "a2r_booked st ?c" by (rule close_booked [OF assms])
  obtain x y where xy: "anthropicResponsesStreamTerminalState (a2r_StopReason (fst ?c)) = (x, y)"
    by (cases "anthropicResponsesStreamTerminalState (a2r_StopReason (fst ?c))")
  let ?m = "makeResponsesCompletedEvent (fst ?c) x y"
  have "a2r_booked (fst ?c) (fst ?m\<lparr>a2r_CompletedSent := True\<rparr>, [snd ?m])"
    using booked_indexed [OF c]
    by (simp add: makeResponsesCompletedEvent_def Let_def a2r_booked_def a2r_books_def
        a2r_indexed_def is_a2r_terminal_def)
  from booked_seq [OF c this] show ?thesis
    by (simp add: a2r_complete_def case_prod_beta Let_def xy)
qed

lemmas a2r_booked_defs =
  a2r_booked_def a2r_indexed_def a2r_books_def make_snd is_a2r_terminal_def Let_def case_prod_beta

lemma start_booked: "a2r_indexed st \<Longrightarrow> a2r_booked st (anthToResHandleMessageStart evt st)"
  by (simp add: anthToResHandleMessageStart_def makeResponsesCreatedEvent_def a2r_booked_defs
      split: option.split)

lemma open_message_booked: "a2r_indexed st \<Longrightarrow> a2r_booked st (a2r_openMessage rnd st)"
  by (simp add: a2r_openMessage_def a2r_booked_defs)

lemma open_message_indexed: "a2r_indexed st \<Longrightarrow> a2r_indexed (fst (a2r_openMessage rnd st))"
  by (rule booked_indexed [OF open_message_booked])

lemma close_item_indexed: "a2r_indexed st \<Longrightarrow> a2r_indexed (fst (closeCurrentResponsesItem st))"
  by (rule booked_indexed [OF close_booked])

text \<open>A handler that first opens or closes an item and then emits one more event.\<close>

lemma booked_then_emit:
  assumes r: "a2r_booked st r" and s: "same_books s (fst r)" and s': "same_books s' (fst (makeResponsesEvent s t tmpl))"
    and "t \<noteq> ''response.output_item.done''" and "\<not> is_a2r_terminal t"
  shows "a2r_booked st (s', snd r @ [snd (makeResponsesEvent s t tmpl)])"
proof -
  have "a2r_indexed s" using booked_indexed [OF r] same_books_indexed [OF s] by simp
  from booked_emit [OF this assms(4,5)]
  have "a2r_booked (fst r) (fst (makeResponsesEvent s t tmpl), [snd (makeResponsesEvent s t tmpl)])"
    by (simp only: booked_same [OF s])
  with s' have "a2r_booked (fst r) (s', [snd (makeResponsesEvent s t tmpl)])"
    by (simp only: booked_same_after [OF s'])
  from booked_seq [OF r this] show ?thesis by simp
qed

lemma block_start_booked:
  assumes "a2r_indexed st"
  shows "a2r_booked st (anthToResHandleContentBlockStart rnd evt st)"
proof (cases "ae_ContentBlock evt")
  case None
  with assms show ?thesis by (simp add: anthToResHandleContentBlockStart_def booked_quiet)
next
  case (Some b)
  consider (thinking) "acb_Type b = ''thinking''" | (content) "acb_Type b = ''text''"
    | (tool) "acb_Type b = ''tool_use''"
    | (other) "acb_Type b \<noteq> ''thinking''" "acb_Type b \<noteq> ''text''" "acb_Type b \<noteq> ''tool_use''"
    by blast
  then show ?thesis
  proof cases
    case thinking
    with Some assms show ?thesis
      by (simp add: anthToResHandleContentBlockStart_def a2r_booked_defs)
  next
    case content
    with Some show ?thesis
      by (auto simp: anthToResHandleContentBlockStart_def Let_def case_prod_beta is_a2r_terminal_def
          intro!: booked_then_emit open_message_booked assms same_booksI)
  next
    case tool
    with Some show ?thesis
      by (auto simp: anthToResHandleContentBlockStart_def Let_def case_prod_beta is_a2r_terminal_def
          intro!: booked_then_emit close_booked assms same_booksI)
  next
    case other
    with Some assms show ?thesis by (simp add: anthToResHandleContentBlockStart_def booked_quiet)
  qed
qed

lemma block_delta_booked: "a2r_indexed st \<Longrightarrow> a2r_booked st (anthToResHandleContentBlockDelta evt st)"
  by (simp add: anthToResHandleContentBlockDelta_def a2r_booked_defs split: option.split)

lemma block_stop_booked: "a2r_indexed st \<Longrightarrow> a2r_booked st (anthToResHandleContentBlockStop st)"
  by (simp add: anthToResHandleContentBlockStop_def closeCurrentResponsesItem_def a2r_booked_defs)

lemma message_delta_booked: "a2r_indexed st \<Longrightarrow> a2r_booked st (anthToResHandleMessageDelta evt st)"
  by (simp add: anthToResHandleMessageDelta_def a2r_booked_defs split: option.split)

lemma step_booked: "a2r_indexed st \<Longrightarrow> a2r_booked st (AnthropicEventToResponsesEvents rnd st e)"
  by (simp add: AnthropicEventToResponsesEvents_def Let_def anthToResHandleMessageStop_def
      start_booked block_start_booked block_delta_booked block_stop_booked message_delta_booked
      complete_booked booked_quiet)

interpretation a2r_audit: stream_protocol "AnthropicEventToResponsesEvents rnd" "\<lambda>u e. Some ()"
  audit "\<lambda>u. a2r_books" "\<lambda>u. a2r_indexed" for rnd
proof unfold_locales
  fix m m' :: unit and s e
  assume "a2r_indexed s"
  from step_booked [OF this, of rnd e]
  show "a2r_indexed (fst (AnthropicEventToResponsesEvents rnd s e))"
    and "accept audit (a2r_books s) (snd (AnthropicEventToResponsesEvents rnd s e)) =
           Some (a2r_books (fst (AnthropicEventToResponsesEvents rnd s e)))"
    by (simp_all add: a2r_booked_def)
qed

lemma accept_trivial [simp]: "accept (\<lambda>u e. Some ()) u es = Some ()"
  by (induction es arbitrary: u) simp_all

section \<open>Content and terminal events\<close>

definition text_delta_of :: "AnthropicStreamEvent \<Rightarrow> string" where
  "text_delta_of e =
     (if ae_Type e = ''content_block_delta'' then
        (case ae_Delta e of
           None \<Rightarrow> ''''
         | Some d \<Rightarrow> if ad_Type d = ''text_delta'' then ad_Text d else '''')
      else '''')"

definition args_delta_of :: "AnthropicStreamEvent \<Rightarrow> string" where
  "args_delta_of e =
     (if ae_Type e = ''content_block_delta'' then
        (case ae_Delta e of
           None \<Rightarrow> ''''
         | Some d \<Rightarrow> if ad_Type d = ''input_json_delta'' then ad_PartialJSON d else '''')
      else '''')"

definition output_text_of :: "ResponsesStreamEvent \<Rightarrow> string" where
  "output_text_of e = (if re_Type e = ''response.output_text.delta'' then re_Delta e else '''')"

definition output_args_of :: "ResponsesStreamEvent \<Rightarrow> string" where
  "output_args_of e =
     (if re_Type e = ''response.function_call_arguments.delta'' then re_Delta e else '''')"

definition terminals :: "ResponsesStreamEvent list \<Rightarrow> nat" where
  "terminals es = length (filter (\<lambda>e. is_a2r_terminal (re_Type e)) es)"

text \<open>
  What each event of a handler contributes: a reading \<open>f\<close> of the emitted events that only
  the \<open>delta\<close> handler feeds.
\<close>

definition a2r_quiet :: "string \<Rightarrow> bool" where
  "a2r_quiet t \<longleftrightarrow> t \<notin> {''response.output_text.delta'', ''response.function_call_arguments.delta'',
     ''response.completed'', ''response.incomplete''}"

definition all_quiet :: "ResponsesStreamEvent list \<Rightarrow> bool" where
  "all_quiet es \<longleftrightarrow> list_all (\<lambda>e. a2r_quiet (re_Type e)) es"

lemma all_quiet_append [simp]: "all_quiet (xs @ ys) \<longleftrightarrow> all_quiet xs \<and> all_quiet ys"
  by (simp add: all_quiet_def)

lemma all_quiet_simps [simp]:
  "all_quiet []" "all_quiet (e # es) \<longleftrightarrow> a2r_quiet (re_Type e) \<and> all_quiet es"
  by (simp_all add: all_quiet_def)

lemma quiet_event:
  assumes "a2r_quiet (re_Type e)"
  shows "output_text_of e = ''''" and "output_args_of e = ''''" and "\<not> is_a2r_terminal (re_Type e)"
  using assms by (auto simp: output_text_of_def output_args_of_def a2r_quiet_def is_a2r_terminal_def)

lemma quiet_contents:
  "all_quiet es \<Longrightarrow> concat (map output_text_of es) = ''''"
  "all_quiet es \<Longrightarrow> concat (map output_args_of es) = ''''"
  "all_quiet es \<Longrightarrow> terminals es = 0"
    apply (induction es; simp add: quiet_event)
   apply (induction es; simp add: quiet_event)
  apply (induction es; simp add: quiet_event terminals_def)
  done

lemma quiet_handlers:
  "all_quiet (snd (closeCurrentResponsesItem st))"
  "all_quiet (snd (anthToResHandleMessageStart evt st))"
  "all_quiet (snd (a2r_openMessage rnd st))"
  "all_quiet (snd (anthToResHandleContentBlockStop st))"
  "all_quiet (snd (anthToResHandleMessageDelta evt st))"
      apply (simp add: closeCurrentResponsesItem_def make_snd a2r_quiet_def Let_def case_prod_beta)
     apply (simp add: anthToResHandleMessageStart_def makeResponsesCreatedEvent_def a2r_quiet_def
      Let_def case_prod_beta)
    apply (simp add: a2r_openMessage_def make_snd a2r_quiet_def Let_def case_prod_beta)
   apply (simp add: anthToResHandleContentBlockStop_def closeCurrentResponsesItem_def make_snd
      a2r_quiet_def Let_def case_prod_beta)
  apply (simp add: anthToResHandleMessageDelta_def Let_def)
  done

lemma quiet_block_start: "all_quiet (snd (anthToResHandleContentBlockStart rnd evt st))"
  by (simp add: anthToResHandleContentBlockStart_def quiet_handlers make_snd a2r_quiet_def Let_def
      case_prod_beta split: option.split)

lemma quiet_delta_other:
  "ae_Type e \<noteq> ''content_block_delta'' \<Longrightarrow> text_delta_of e = '''' \<and> args_delta_of e = ''''"
  by (simp add: text_delta_of_def args_delta_of_def)

lemma delta_contents:
  assumes "ae_Type e = ''content_block_delta''"
  shows "concat (map output_text_of (snd (anthToResHandleContentBlockDelta e st))) = text_delta_of e"
    and "concat (map output_args_of (snd (anthToResHandleContentBlockDelta e st))) = args_delta_of e"
    and "terminals (snd (anthToResHandleContentBlockDelta e st)) = 0"
  using assms
  by (simp_all add: anthToResHandleContentBlockDelta_def text_delta_of_def args_delta_of_def
      output_text_of_def output_args_of_def terminals_def is_a2r_terminal_def make_snd Let_def
      case_prod_beta split: option.split)

lemma complete_contents:
  "concat (map output_text_of (snd (a2r_complete st))) = ''''"
  "concat (map output_args_of (snd (a2r_complete st))) = ''''"
  "terminals (snd (a2r_complete st)) = 1"
proof -
  obtain x y where xy: "anthropicResponsesStreamTerminalState
      (a2r_StopReason (fst (closeCurrentResponsesItem st))) = (x, y)"
    by (cases "anthropicResponsesStreamTerminalState
      (a2r_StopReason (fst (closeCurrentResponsesItem st)))")
  let ?e = "snd (makeResponsesCompletedEvent (fst (closeCurrentResponsesItem st)) x y)"
  have out: "snd (a2r_complete st) = snd (closeCurrentResponsesItem st) @ [?e]"
    by (simp add: a2r_complete_def case_prod_beta Let_def xy)
  have e: "output_text_of ?e = ''''" "output_args_of ?e = ''''" "is_a2r_terminal (re_Type ?e)"
    by (simp_all add: makeResponsesCompletedEvent_def Let_def output_text_of_def output_args_of_def
        is_a2r_terminal_def)
  note q = quiet_contents [OF quiet_handlers(1) [of st]]
  show "concat (map output_text_of (snd (a2r_complete st))) = ''''"
    unfolding out map_append concat_append q(1) by (simp add: e)
  show "concat (map output_args_of (snd (a2r_complete st))) = ''''"
    unfolding out map_append concat_append q(2) by (simp add: e)
  show "terminals (snd (a2r_complete st)) = 1"
    using q(3) e(3) by (simp add: out terminals_def)
qed

lemma message_stop_contents:
  "concat (map output_text_of (snd (anthToResHandleMessageStop st))) = ''''"
  "concat (map output_args_of (snd (anthToResHandleMessageStop st))) = ''''"
  unfolding anthToResHandleMessageStop_def using complete_contents by simp_all

text \<open>The steps that are not the delta handler carry no text and no arguments.\<close>

lemma step_delta:
  "ae_Type e = ''content_block_delta'' \<Longrightarrow>
     AnthropicEventToResponsesEvents rnd st e = anthToResHandleContentBlockDelta e st"
  by (simp add: AnthropicEventToResponsesEvents_def)

lemma step_stop:
  "ae_Type e = ''message_stop'' \<Longrightarrow>
     AnthropicEventToResponsesEvents rnd st e = anthToResHandleMessageStop st"
  by (simp add: AnthropicEventToResponsesEvents_def)

lemma step_quiet:
  "ae_Type e \<noteq> ''content_block_delta'' \<Longrightarrow> ae_Type e \<noteq> ''message_stop'' \<Longrightarrow>
     all_quiet (snd (AnthropicEventToResponsesEvents rnd st e))"
  by (simp add: AnthropicEventToResponsesEvents_def Let_def quiet_handlers quiet_block_start)

lemma a2r_step_contents:
  "concat (map output_text_of (snd (AnthropicEventToResponsesEvents rnd st e))) = text_delta_of e"
  "concat (map output_args_of (snd (AnthropicEventToResponsesEvents rnd st e))) = args_delta_of e"
proof -
  consider "ae_Type e = ''content_block_delta''" | "ae_Type e = ''message_stop''"
    | "ae_Type e \<noteq> ''content_block_delta''" and "ae_Type e \<noteq> ''message_stop''" by blast
  then have "concat (map output_text_of (snd (AnthropicEventToResponsesEvents rnd st e))) = text_delta_of e \<and>
    concat (map output_args_of (snd (AnthropicEventToResponsesEvents rnd st e))) = args_delta_of e"
  proof cases
    case 1
    then show ?thesis by (simp only: step_delta delta_contents)
  next
    case 2
    then show ?thesis
      unfolding step_stop [OF 2] message_stop_contents by (simp add: quiet_delta_other)
  next
    case 3
    note q = quiet_contents [OF step_quiet [OF 3, of rnd st]]
    show ?thesis unfolding q(1,2) using quiet_delta_other [OF 3(1)] by simp
  qed
  then show "concat (map output_text_of (snd (AnthropicEventToResponsesEvents rnd st e))) = text_delta_of e"
    and "concat (map output_args_of (snd (AnthropicEventToResponsesEvents rnd st e))) = args_delta_of e"
    by blast+
qed

interpretation a2r_text: stream_content
  "AnthropicEventToResponsesEvents rnd" text_delta_of output_text_of for rnd
  by unfold_locales (rule a2r_step_contents)

interpretation a2r_args: stream_content
  "AnthropicEventToResponsesEvents rnd" args_delta_of output_args_of for rnd
  by unfold_locales (rule a2r_step_contents)

text \<open>A step emits a terminal event exactly when it sets \<open>CompletedSent\<close>.\<close>

definition terminal_step :: "AnthropicEventToResponsesState \<Rightarrow> a2r_result \<Rightarrow> bool" where
  "terminal_step st r \<longleftrightarrow>
     terminals (snd r) + (if a2r_CompletedSent st then 1 else 0) =
       (if a2r_CompletedSent (fst r) then 1 else 0)"

lemma completed_kept:
  "a2r_CompletedSent (fst (closeCurrentResponsesItem st)) = a2r_CompletedSent st"
  "a2r_CompletedSent (fst (anthToResHandleMessageStart evt st)) = a2r_CompletedSent st"
  "a2r_CompletedSent (fst (anthToResHandleContentBlockDelta evt st)) = a2r_CompletedSent st"
  "a2r_CompletedSent (fst (a2r_openMessage rnd st)) = a2r_CompletedSent st"
  "a2r_CompletedSent (fst (anthToResHandleMessageDelta evt st)) = a2r_CompletedSent st"
     apply (simp add: closeCurrentResponsesItem_def Let_def case_prod_beta)
    apply (simp add: anthToResHandleMessageStart_def makeResponsesCreatedEvent_def Let_def split: option.split)
   apply (simp add: anthToResHandleContentBlockDelta_def Let_def case_prod_beta split: option.split)
  apply (simp add: a2r_openMessage_def Let_def case_prod_beta)
  apply (simp add: anthToResHandleMessageDelta_def Let_def split: option.split)
  done

lemma completed_kept_blocks:
  "a2r_CompletedSent (fst (anthToResHandleContentBlockStop st)) = a2r_CompletedSent st"
  "a2r_CompletedSent (fst (anthToResHandleContentBlockStart rnd evt st)) = a2r_CompletedSent st"
  by (simp_all add: anthToResHandleContentBlockStop_def anthToResHandleContentBlockStart_def
      completed_kept Let_def case_prod_beta split: option.split)

lemma completed_set: "a2r_CompletedSent (fst (a2r_complete st))"
  by (simp add: a2r_complete_def case_prod_beta Let_def)

lemma complete_terminal_step:
  "terminal_step st (anthToResHandleMessageStop st)"
  "terminal_step st (FinalizeAnthropicResponsesStream st)"
  using complete_contents(3) [of st] completed_set [of st]
  by (simp_all add: terminal_step_def anthToResHandleMessageStop_def
      FinalizeAnthropicResponsesStream_def terminals_def)

lemma step_terminal_step: "terminal_step st (AnthropicEventToResponsesEvents rnd st e)"
proof (cases "ae_Type e = ''message_stop''")
  case True
  then show ?thesis by (simp only: step_stop complete_terminal_step)
next
  case False
  have "a2r_CompletedSent (fst (AnthropicEventToResponsesEvents rnd st e)) = a2r_CompletedSent st"
    using False by (simp add: AnthropicEventToResponsesEvents_def Let_def completed_kept completed_kept_blocks)
  moreover have "terminals (snd (AnthropicEventToResponsesEvents rnd st e)) = 0"
  proof (cases "ae_Type e = ''content_block_delta''")
    case True
    then show ?thesis by (simp only: step_delta delta_contents(3))
  next
    case other: False
    show ?thesis by (rule quiet_contents(3) [OF step_quiet [OF other False]])
  qed
  ultimately show ?thesis by (simp add: terminal_step_def)
qed

lemma run_terminal_step: "terminal_step st (run_stream (AnthropicEventToResponsesEvents rnd) st es)"
proof (induction es arbitrary: st)
  case Nil
  then show ?case by (simp add: terminal_step_def terminals_def)
next
  case (Cons e es)
  from Cons.IH [of "fst (AnthropicEventToResponsesEvents rnd st e)"] step_terminal_step [of st rnd e]
  show ?case by (simp add: terminal_step_def run_stream_Cons terminals_def del: run_stream.simps)
qed

end
