(* ===== verification/Anthropic_To_Responses_Client.thy ===== *)
theory Anthropic_To_Responses_Client
  imports Anthropic_To_Responses
begin

text \<open>
  The Responses stream that \<open>AnthropicEventToResponsesEvents\<close> emits, as the accumulating
  client of the OpenAI SDK reads it: the client follows the events, builds the item that is open
  and compares it with the item each \<open>output_item.done\<close> and the terminal event carry.
\<close>

section \<open>The accumulating client\<close>

datatype sdk_open =
    NoItem
  | OpenMessage string "string list"
  | OpenCall string string string string
  | OpenReasoning string string

record sdk_state =
  sdk_created :: bool
  sdk_finished :: bool
  sdk_items :: "ResponsesOutput list"
  sdk_cur :: sdk_open

definition sdk_part :: "string \<Rightarrow> ResponsesContentPart" where
  "sdk_part s = \<lparr>rcp_Type = ''output_text'', rcp_Text = s, rcp_ImageURL = ''''\<rparr>"

fun sdk_item :: "sdk_open \<Rightarrow> ResponsesOutput option" where
  "sdk_item NoItem = None"
| "sdk_item (OpenMessage i ps) =
     Some (zero_ro\<lparr>ro_Type := ''message'', ro_ID := i, ro_Status := ''completed'',
       ro_Role := ''assistant'', ro_Content := map sdk_part ps\<rparr>)"
| "sdk_item (OpenCall i c n a) =
     Some (zero_ro\<lparr>ro_Type := ''function_call'', ro_ID := i, ro_Status := ''completed'',
       ro_CallID := c, ro_Name := n, ro_Arguments := (if a = '''' then ''{}'' else a)\<rparr>)"
| "sdk_item (OpenReasoning i s) =
     Some (zero_ro\<lparr>ro_Type := ''reasoning'', ro_ID := i, ro_Status := ''completed'',
       ro_Summary := (if s = '''' then [] else [\<lparr>rs_Type = ''summary_text'', rs_Text = s\<rparr>])\<rparr>)"

text \<open>The item that \<open>output_item.added\<close> opens.\<close>

definition sdk_open_item :: "ResponsesOutput \<Rightarrow> sdk_open option" where
  "sdk_open_item it =
     (if ro_Type it = ''message'' then Some (OpenMessage (ro_ID it) [])
      else if ro_Type it = ''function_call'' then Some (OpenCall (ro_ID it) (ro_CallID it) (ro_Name it) '''')
      else if ro_Type it = ''reasoning'' then Some (OpenReasoning (ro_ID it) '''')
      else None)"

text \<open>
  The events of an item that is open. A text delta names a content part by its index: a part
  that was never added is the client's \<open>IndexError\<close>.
\<close>

fun sdk_feed :: "sdk_open \<Rightarrow> ResponsesStreamEvent \<Rightarrow> sdk_open option" where
  "sdk_feed NoItem e = None"
| "sdk_feed (OpenMessage i ps) e =
     (if re_ItemID e \<noteq> i then None
      else if re_Type e = ''response.content_part.added'' then
        (if re_ContentIndex e = int (length ps) then Some (OpenMessage i (ps @ [''''])) else None)
      else if re_ContentIndex e < 0 \<or> int (length ps) \<le> re_ContentIndex e then None
      else if re_Type e = ''response.output_text.delta'' then
        Some (OpenMessage i (ps[nat (re_ContentIndex e) := ps ! nat (re_ContentIndex e) @ re_Delta e]))
      else if re_Type e = ''response.output_text.done'' then
        (if ps ! nat (re_ContentIndex e) = re_Text e then Some (OpenMessage i ps) else None)
      else if re_Type e = ''response.content_part.done'' then
        (if re_Part e = Some (sdk_part (ps ! nat (re_ContentIndex e))) then Some (OpenMessage i ps) else None)
      else None)"
| "sdk_feed (OpenCall i c n a) e =
     (if re_ItemID e \<noteq> i \<or> re_CallID e \<noteq> c \<or> re_Name e \<noteq> n then None
      else if re_Type e = ''response.function_call_arguments.delta'' then Some (OpenCall i c n (a @ re_Delta e))
      else if re_Type e = ''response.function_call_arguments.done'' then Some (OpenCall i c n a)
      else None)"
| "sdk_feed (OpenReasoning i s) e =
     (if re_ItemID e \<noteq> i then None
      else if re_Type e = ''response.reasoning_summary_text.delta'' then Some (OpenReasoning i (s @ re_Delta e))
      else if re_Type e = ''response.reasoning_summary_text.done'' then Some (OpenReasoning i s)
      else None)"

definition sdk_client :: "sdk_state \<Rightarrow> ResponsesStreamEvent \<Rightarrow> sdk_state option" where
  "sdk_client c e =
     (if sdk_finished c then None
      else if \<not> sdk_created c then
        (if re_Type e = ''response.created'' then Some (c\<lparr>sdk_created := True\<rparr>) else None)
      else if is_a2r_terminal (re_Type e) then
        (case re_Response e of
           None \<Rightarrow> None
         | Some r \<Rightarrow> if sdk_cur c = NoItem \<and> rr_Output r = sdk_items c
                     then Some (c\<lparr>sdk_finished := True\<rparr>) else None)
      else if re_OutputIndex e \<noteq> int (length (sdk_items c)) then None
      else if re_Type e = ''response.output_item.added'' then
        (case re_Item e of
           None \<Rightarrow> None
         | Some it \<Rightarrow>
             if sdk_cur c = NoItem then
               (case sdk_open_item it of None \<Rightarrow> None | Some x \<Rightarrow> Some (c\<lparr>sdk_cur := x\<rparr>))
             else None)
      else if re_Type e = ''response.output_item.done'' then
        (if re_Item e \<noteq> None \<and> re_Item e = sdk_item (sdk_cur c)
         then Some (c\<lparr>sdk_items := sdk_items c @ [the (re_Item e)], sdk_cur := NoItem\<rparr>) else None)
      else (case sdk_feed (sdk_cur c) e of None \<Rightarrow> None | Some x \<Rightarrow> Some (c\<lparr>sdk_cur := x\<rparr>)))"

definition sdk_start :: sdk_state where
  "sdk_start = \<lparr>sdk_created = False, sdk_finished = False, sdk_items = [], sdk_cur = NoItem\<rparr>"

section \<open>The upstream\<close>

text \<open>
  An Anthropic stream of thinking, text and tool-use blocks in which every text block is the
  last block of its message item: it is followed by a tool use or by the end of the message.
  \<open>InBlocks msg (Some t)\<close> is inside a block of type t, \<open>InBlocks msg None\<close> between blocks;
  \<open>msg\<close> says that the message item is still open.
\<close>

datatype a2r_up = AtStart | InBlocks bool "string option" | AtTail | AtEnd

definition anth_handled :: "string \<Rightarrow> bool" where
  "anth_handled t \<longleftrightarrow> t \<in> {''message_start'', ''content_block_start'', ''content_block_delta'',
     ''content_block_stop'', ''message_delta'', ''message_stop''}"

definition delta_fits :: "string \<Rightarrow> AnthropicStreamEvent \<Rightarrow> bool" where
  "delta_fits t e \<longleftrightarrow>
     (case ae_Delta e of
        None \<Rightarrow> True
      | Some d \<Rightarrow> (t, ad_Type d) \<in> {(''text'', ''text_delta''), (''thinking'', ''thinking_delta''),
          (''thinking'', ''signature_delta''), (''tool_use'', ''input_json_delta'')})"

fun a2r_upstream :: "a2r_up \<Rightarrow> AnthropicStreamEvent \<Rightarrow> a2r_up option" where
  "a2r_upstream AtStart e =
     (if ae_Type e = ''message_start'' then Some (InBlocks False None)
      else if anth_handled (ae_Type e) then None else Some AtStart)"
| "a2r_upstream (InBlocks msg None) e =
     (if ae_Type e = ''content_block_start'' then
        (case ae_ContentBlock e of
           None \<Rightarrow> None
         | Some b \<Rightarrow>
             if acb_Type b = ''tool_use'' then Some (InBlocks False (Some ''tool_use''))
             else if msg then None
             else if acb_Type b = ''text'' then Some (InBlocks True (Some ''text''))
             else if acb_Type b = ''thinking'' then Some (InBlocks False (Some ''thinking''))
             else None)
      else if ae_Type e = ''message_delta'' then Some AtTail
      else if anth_handled (ae_Type e) then None else Some (InBlocks msg None))"
| "a2r_upstream (InBlocks msg (Some t)) e =
     (if ae_Type e = ''content_block_delta'' then
        (if delta_fits t e then Some (InBlocks msg (Some t)) else None)
      else if ae_Type e = ''content_block_stop'' then Some (InBlocks msg None)
      else if anth_handled (ae_Type e) then None else Some (InBlocks msg (Some t)))"
| "a2r_upstream AtTail e =
     (if ae_Type e = ''message_stop'' then Some AtEnd
      else if ae_Type e = ''message_delta'' then Some AtTail
      else if anth_handled (ae_Type e) then None else Some AtTail)"
| "a2r_upstream AtEnd e = (if anth_handled (ae_Type e) then None else Some AtEnd)"

section \<open>The simulation\<close>

definition a2r_open :: "a2r_up \<Rightarrow> AnthropicEventToResponsesState \<Rightarrow> sdk_open" where
  "a2r_open m st =
     (if a2r_CurrentItemType st = '''' then NoItem
      else if a2r_CurrentItemType st = ''message'' then
        OpenMessage (a2r_CurrentItemID st) (map rcp_Text (a2r_CurrentContent st) @
          (if m = InBlocks True (Some ''text'') then [a2r_TextAccum st] else []))
      else if a2r_CurrentItemType st = ''function_call'' then
        OpenCall (a2r_CurrentItemID st) (a2r_CurrentCallID st) (a2r_CurrentName st) (a2r_CurrentArgs st)
      else OpenReasoning (a2r_CurrentItemID st) (a2r_CurrentSummary st))"

definition a2r_sdk :: "a2r_up \<Rightarrow> AnthropicEventToResponsesState \<Rightarrow> sdk_state" where
  "a2r_sdk m st =
     \<lparr>sdk_created = a2r_CreatedSent st, sdk_finished = a2r_CompletedSent st,
      sdk_items = a2r_Outputs st, sdk_cur = a2r_open m st\<rparr>"

definition no_item :: "AnthropicEventToResponsesState \<Rightarrow> bool" where
  "no_item st \<longleftrightarrow> a2r_CurrentItemType st = '''' \<and> a2r_CurrentContent st = [] \<and>
     a2r_CurrentArgs st = '''' \<and> a2r_CurrentSummary st = ''''"

definition message_item :: "AnthropicEventToResponsesState \<Rightarrow> bool" where
  "message_item st \<longleftrightarrow> a2r_CurrentItemType st = ''message'' \<and>
     map (sdk_part \<circ> rcp_Text) (a2r_CurrentContent st) = a2r_CurrentContent st \<and>
     a2r_CurrentArgs st = '''' \<and> a2r_CurrentSummary st = ''''"

definition in_block :: "bool \<Rightarrow> string \<Rightarrow> AnthropicEventToResponsesState \<Rightarrow> bool" where
  "in_block msg t st \<longleftrightarrow>
     (if t = ''text'' then msg \<and> a2r_CurrentItemType st = ''message'' \<and> a2r_CurrentContent st = [] \<and>
        a2r_ContentIndex st = 0 \<and> a2r_CurrentArgs st = '''' \<and> a2r_CurrentSummary st = ''''
      else if t = ''thinking'' then \<not> msg \<and> a2r_CurrentItemType st = ''reasoning'' \<and>
        a2r_CurrentContent st = [] \<and> a2r_CurrentArgs st = ''''
      else t = ''tool_use'' \<and> \<not> msg \<and> a2r_CurrentItemType st = ''function_call'' \<and>
        a2r_CurrentContent st = [] \<and> a2r_CurrentSummary st = '''')"

fun a2r_shape :: "a2r_up \<Rightarrow> AnthropicEventToResponsesState \<Rightarrow> bool" where
  "a2r_shape AtStart st = (\<not> a2r_CreatedSent st \<and> \<not> a2r_CompletedSent st \<and> no_item st)"
| "a2r_shape (InBlocks msg None) st =
     (a2r_CreatedSent st \<and> \<not> a2r_CompletedSent st \<and> (if msg then message_item st else no_item st))"
| "a2r_shape (InBlocks msg (Some t)) st =
     (a2r_CreatedSent st \<and> \<not> a2r_CompletedSent st \<and> in_block msg t st)"
| "a2r_shape AtTail st =
     (a2r_CreatedSent st \<and> \<not> a2r_CompletedSent st \<and> (no_item st \<or> message_item st))"
| "a2r_shape AtEnd st = a2r_CompletedSent st"

definition a2r_sim :: "a2r_up \<Rightarrow> AnthropicEventToResponsesState \<Rightarrow> bool" where
  "a2r_sim m st \<longleftrightarrow> a2r_indexed st \<and> a2r_shape m st"

text \<open>What has to hold of a step into phase \<open>m'\<close> of the upstream.\<close>

definition a2r_follows :: "a2r_up \<Rightarrow> AnthropicEventToResponsesState \<Rightarrow> a2r_up \<Rightarrow> a2r_result \<Rightarrow> bool" where
  "a2r_follows m st m' r \<longleftrightarrow> a2r_sim m' (fst r) \<and>
     accept sdk_client (a2r_sdk m st) (snd r) = Some (a2r_sdk m' (fst r))"

lemma follows_none: "a2r_sim m st \<Longrightarrow> a2r_follows m st m (st, [])"
  by (simp add: a2r_follows_def)

lemma step_unhandled:
  "\<not> anth_handled (ae_Type e) \<Longrightarrow> AnthropicEventToResponsesEvents rnd st e = (st, [])"
  by (simp add: AnthropicEventToResponsesEvents_def anth_handled_def Let_def)

lemmas a2r_sim_defs =
  a2r_follows_def a2r_sim_def a2r_sdk_def a2r_open_def a2r_indexed_def no_item_def message_item_def
  in_block_def make_snd Let_def case_prod_beta sdk_client_def is_a2r_terminal_def

lemma follows_start:
  assumes "a2r_sim AtStart st"
  shows "a2r_follows AtStart st (InBlocks False None) (anthToResHandleMessageStart e st)"
  using assms
  by (simp add: anthToResHandleMessageStart_def makeResponsesCreatedEvent_def a2r_sim_defs
      split: option.split)

lemma follows_text_start:
  assumes "a2r_sim (InBlocks False None) st" and "ae_ContentBlock e = Some b" and "acb_Type b = ''text''"
  shows "a2r_follows (InBlocks False None) st (InBlocks True (Some ''text''))
           (anthToResHandleContentBlockStart rnd e st)"
  using assms
  by (simp add: anthToResHandleContentBlockStart_def a2r_openMessage_def a2r_sim_defs
      sdk_open_item_def zero_ro_def zero_re_def)

lemma follows_thinking_start:
  assumes "a2r_sim (InBlocks False None) st" and "ae_ContentBlock e = Some b" and "acb_Type b = ''thinking''"
  shows "a2r_follows (InBlocks False None) st (InBlocks False (Some ''thinking''))
           (anthToResHandleContentBlockStart rnd e st)"
  using assms
  by (simp add: anthToResHandleContentBlockStart_def a2r_sim_defs
      sdk_open_item_def zero_ro_def zero_re_def)

lemma close_message:
  assumes "a2r_indexed st" and "message_item st" and "a2r_CreatedSent st"
    and "\<not> a2r_CompletedSent st" and "m \<noteq> InBlocks True (Some ''text'')"
  shows "no_item (fst (closeCurrentResponsesItem st))"
    and "accept sdk_client (a2r_sdk m st) (snd (closeCurrentResponsesItem st)) =
      Some (a2r_sdk (InBlocks False None) (fst (closeCurrentResponsesItem st)))"
    and "a2r_CreatedSent (fst (closeCurrentResponsesItem st))"
    and "\<not> a2r_CompletedSent (fst (closeCurrentResponsesItem st))"
  using assms
  by (simp_all add: closeCurrentResponsesItem_def a2r_currentItem_def a2r_sim_defs)

lemma follows_close:
  assumes "a2r_indexed st" and "no_item st \<or> message_item st" and "a2r_CreatedSent st"
    and "\<not> a2r_CompletedSent st" and "m \<noteq> InBlocks True (Some ''text'')"
  shows "no_item (fst (closeCurrentResponsesItem st))"
    and "accept sdk_client (a2r_sdk m st) (snd (closeCurrentResponsesItem st)) =
      Some (a2r_sdk (InBlocks False None) (fst (closeCurrentResponsesItem st)))"
    and "a2r_CreatedSent (fst (closeCurrentResponsesItem st))"
    and "\<not> a2r_CompletedSent (fst (closeCurrentResponsesItem st))"
proof -
  have "no_item (fst (closeCurrentResponsesItem st)) \<and>
    accept sdk_client (a2r_sdk m st) (snd (closeCurrentResponsesItem st)) =
      Some (a2r_sdk (InBlocks False None) (fst (closeCurrentResponsesItem st))) \<and>
    a2r_CreatedSent (fst (closeCurrentResponsesItem st)) \<and>
    \<not> a2r_CompletedSent (fst (closeCurrentResponsesItem st))"
  proof (cases "message_item st")
    case True
    with close_message [OF assms(1) this assms(3-5)] show ?thesis by blast
  next
    case False
    with assms(2) have n: "no_item st" by simp
    then have c: "closeCurrentResponsesItem st = (st, [])" by (simp add: no_item_def)
    from n assms show ?thesis by (simp add: c a2r_sdk_def a2r_open_def no_item_def)
  qed
  then show "no_item (fst (closeCurrentResponsesItem st))"
    and "accept sdk_client (a2r_sdk m st) (snd (closeCurrentResponsesItem st)) =
      Some (a2r_sdk (InBlocks False None) (fst (closeCurrentResponsesItem st)))"
    and "a2r_CreatedSent (fst (closeCurrentResponsesItem st))"
    and "\<not> a2r_CompletedSent (fst (closeCurrentResponsesItem st))" by blast+
qed

lemma follows_tool_start_closed:
  assumes "a2r_sim (InBlocks False None) st" and "ae_ContentBlock e = Some b" and "acb_Type b = ''tool_use''"
  shows "a2r_follows (InBlocks False None) st (InBlocks False (Some ''tool_use''))
           (anthToResHandleContentBlockStart rnd e st)"
  using assms
  by (simp add: anthToResHandleContentBlockStart_def a2r_sim_defs
      sdk_open_item_def zero_ro_def zero_re_def)

lemma follows_tool_start:
  assumes sim: "a2r_sim (InBlocks msg None) st" and b: "ae_ContentBlock e = Some b" "acb_Type b = ''tool_use''"
  shows "a2r_follows (InBlocks msg None) st (InBlocks False (Some ''tool_use''))
           (anthToResHandleContentBlockStart rnd e st)"
proof -
  let ?c = "fst (closeCurrentResponsesItem st)"
  let ?h = "anthToResHandleContentBlockStart rnd e ?c"
  from sim have st: "a2r_indexed st" "no_item st \<or> message_item st" "a2r_CreatedSent st" "\<not> a2r_CompletedSent st"
    by (auto simp: a2r_sim_def split: if_splits)
  note c = follows_close [OF st, of "InBlocks msg None"]
  have "a2r_sim (InBlocks False None) ?c"
    using c close_item_indexed [OF st(1)] by (simp add: a2r_sim_def)
  from follows_tool_start_closed [OF this b, of rnd] have h: "a2r_sim (InBlocks False (Some ''tool_use'')) (fst ?h)"
    "accept sdk_client (a2r_sdk (InBlocks False None) ?c) (snd ?h) =
      Some (a2r_sdk (InBlocks False (Some ''tool_use'')) (fst ?h))"
    by (simp_all add: a2r_follows_def)
  have "anthToResHandleContentBlockStart rnd e st = (fst ?h, snd (closeCurrentResponsesItem st) @ snd ?h)"
    using c(1) b by (simp add: anthToResHandleContentBlockStart_def no_item_def Let_def case_prod_beta)
  with h c(2) show ?thesis by (simp add: a2r_follows_def accept_append_Some)
qed

lemma follows_message_delta:
  assumes "a2r_sim m st" and "m = AtTail \<or> (\<exists>msg. m = InBlocks msg None)"
  shows "a2r_follows m st AtTail (anthToResHandleMessageDelta e st)"
proof -
  let ?st = "fst (anthToResHandleMessageDelta e st)"
  have same: "a2r_CreatedSent ?st = a2r_CreatedSent st" "a2r_CompletedSent ?st = a2r_CompletedSent st"
    "no_item ?st = no_item st" "message_item ?st = message_item st" "a2r_indexed ?st = a2r_indexed st"
    "a2r_sdk AtTail ?st = a2r_sdk AtTail st"
    by (simp_all add: anthToResHandleMessageDelta_def a2r_sim_defs split: option.split)
  moreover have "a2r_sdk AtTail st = a2r_sdk m st"
    using assms(2) by (auto simp: a2r_sdk_def a2r_open_def)
  moreover have "snd (anthToResHandleMessageDelta e st) = []"
    by (simp add: anthToResHandleMessageDelta_def Let_def)
  ultimately show ?thesis
    using assms by (auto simp: a2r_follows_def a2r_sim_def split: if_splits)
qed
lemma follows_delta:
  assumes sim: "a2r_sim (InBlocks msg (Some t)) st" and fits: "delta_fits t e"
  shows "a2r_follows (InBlocks msg (Some t)) st (InBlocks msg (Some t)) (anthToResHandleContentBlockDelta e st)"
proof (cases "ae_Delta e")
  case None
  with sim show ?thesis by (simp add: anthToResHandleContentBlockDelta_def follows_none)
next
  case (Some d)
  from fits Some consider (content) "t = ''text''" "ad_Type d = ''text_delta''"
    | (thinking) "t = ''thinking''" "ad_Type d = ''thinking_delta''"
    | (sig) "ad_Type d = ''signature_delta''"
    | (args) "t = ''tool_use''" "ad_Type d = ''input_json_delta''"
    by (auto simp: delta_fits_def)
  then show ?thesis
  proof cases
    case content
    with sim Some show ?thesis
      by (simp add: anthToResHandleContentBlockDelta_def a2r_sim_defs zero_re_def)
  next
    case thinking
    with sim Some show ?thesis
      by (simp add: anthToResHandleContentBlockDelta_def a2r_sim_defs zero_re_def)
  next
    case sig
    with sim Some show ?thesis
      by (simp add: anthToResHandleContentBlockDelta_def follows_none)
  next
    case args
    with sim Some show ?thesis
      by (simp add: anthToResHandleContentBlockDelta_def a2r_sim_defs zero_re_def)
  qed
qed

lemma in_block_cases:
  "in_block msg t st \<Longrightarrow>
     t = ''text'' \<and> msg \<or> t = ''thinking'' \<and> \<not> msg \<or> t = ''tool_use'' \<and> \<not> msg"
  unfolding in_block_def by presburger

lemma follows_stop:
  assumes sim: "a2r_sim (InBlocks msg (Some t)) st"
  shows "a2r_follows (InBlocks msg (Some t)) st (InBlocks msg None) (anthToResHandleContentBlockStop st)"
proof -
  have "in_block msg t st" using sim by (simp add: a2r_sim_def)
  then consider (content) "t = ''text''" "msg" | (thinking) "t = ''thinking''" "\<not> msg"
    | (args) "t = ''tool_use''" "\<not> msg"
    using in_block_cases by blast
  then show ?thesis
  proof cases
    case content
    with sim show ?thesis
      by (simp add: anthToResHandleContentBlockStop_def a2r_sim_defs zero_re_def sdk_part_def)
  next
    case thinking
    with sim show ?thesis
      by (simp add: anthToResHandleContentBlockStop_def closeCurrentResponsesItem_def
          a2r_currentItem_def a2r_sim_defs zero_re_def zero_ro_def)
  next
    case args
    with sim show ?thesis
      by (simp add: anthToResHandleContentBlockStop_def closeCurrentResponsesItem_def
          a2r_currentItem_def a2r_sim_defs zero_re_def)
  qed
qed

lemma follows_complete:
  assumes "a2r_indexed st" and "no_item st \<or> message_item st" and "a2r_CreatedSent st"
    and "\<not> a2r_CompletedSent st" and "m \<noteq> InBlocks True (Some ''text'')"
  shows "a2r_follows m st AtEnd (a2r_complete st)"
proof -
  let ?c = "closeCurrentResponsesItem st"
  obtain x y where xy: "anthropicResponsesStreamTerminalState (a2r_StopReason (fst ?c)) = (x, y)"
    by (cases "anthropicResponsesStreamTerminalState (a2r_StopReason (fst ?c))")
  let ?m = "makeResponsesCompletedEvent (fst ?c) x y"
  note c = follows_close [OF assms]
  have "sdk_client (a2r_sdk (InBlocks False None) (fst ?c)) (snd ?m) =
      Some (a2r_sdk AtEnd (fst ?m\<lparr>a2r_CompletedSent := True\<rparr>))"
    using c(1,3,4) by (simp add: makeResponsesCompletedEvent_def a2r_sim_defs)
  moreover have "a2r_indexed (fst ?m\<lparr>a2r_CompletedSent := True\<rparr>)"
    using close_item_indexed [OF assms(1)] by (simp add: makeResponsesCompletedEvent_def Let_def a2r_indexed_def)
  moreover have "a2r_complete st = (fst ?m\<lparr>a2r_CompletedSent := True\<rparr>, snd ?c @ [snd ?m])"
    by (simp add: a2r_complete_def case_prod_beta Let_def xy)
  ultimately show ?thesis
    using c(2) by (simp add: a2r_follows_def a2r_sim_def accept_append_Some)
qed

lemma follows_message_stop:
  assumes "a2r_sim AtTail st"
  shows "a2r_follows AtTail st AtEnd (anthToResHandleMessageStop st)"
  using assms by (simp add: a2r_sim_def anthToResHandleMessageStop_def follows_complete)

lemma upstream_unhandled: "\<not> anth_handled (ae_Type e) \<Longrightarrow> a2r_upstream m e = Some m"
  by (induction m e rule: a2r_upstream.induct) (auto simp: anth_handled_def)

lemma follows_step:
  assumes sim: "a2r_sim m st" and up: "a2r_upstream m e = Some m'"
  shows "a2r_follows m st m' (AnthropicEventToResponsesEvents rnd st e)"
proof (cases "anth_handled (ae_Type e)")
  case False
  then have "m' = m" using up by (simp add: upstream_unhandled)
  with False sim show ?thesis by (simp add: step_unhandled follows_none)
next
  case h: True
  have dispatch: "ae_Type e = ''message_start'' \<Longrightarrow>
      AnthropicEventToResponsesEvents rnd st e = anthToResHandleMessageStart e st"
    "ae_Type e = ''content_block_start'' \<Longrightarrow>
      AnthropicEventToResponsesEvents rnd st e = anthToResHandleContentBlockStart rnd e st"
    "ae_Type e = ''content_block_stop'' \<Longrightarrow>
      AnthropicEventToResponsesEvents rnd st e = anthToResHandleContentBlockStop st"
    "ae_Type e = ''message_delta'' \<Longrightarrow>
      AnthropicEventToResponsesEvents rnd st e = anthToResHandleMessageDelta e st"
    by (simp_all add: AnthropicEventToResponsesEvents_def)
  show ?thesis
  proof (cases m)
    case AtStart
    with up h have "ae_Type e = ''message_start''" and "m' = InBlocks False None"
      by (auto split: if_splits)
    with AtStart sim show ?thesis by (simp add: dispatch follows_start)
  next
    case AtEnd
    with up h show ?thesis by simp
  next
    case AtTail
    with up h consider "ae_Type e = ''message_stop''" "m' = AtEnd" | "ae_Type e = ''message_delta''" "m' = AtTail"
      by (auto split: if_splits)
    then show ?thesis
      using AtTail sim
      by cases (simp_all add: dispatch step_stop follows_message_stop follows_message_delta)
  next
    case (InBlocks msg bt)
    show ?thesis
    proof (cases bt)
      case (Some t)
      with InBlocks up h consider "ae_Type e = ''content_block_delta''" "m' = m" "delta_fits t e"
        | "ae_Type e = ''content_block_stop''" "m' = InBlocks msg None"
        by (auto split: if_splits)
      then show ?thesis
        using InBlocks Some sim
        by cases (simp_all add: dispatch step_delta follows_delta follows_stop)
    next
      case None
      with InBlocks up h consider
          (delta) "ae_Type e = ''message_delta''" "m' = AtTail"
        | (start) b where "ae_Type e = ''content_block_start''" "ae_ContentBlock e = Some b"
        by (auto split: if_splits option.splits)
      then show ?thesis
      proof cases
        case delta
        with InBlocks None sim show ?thesis by (simp add: dispatch follows_message_delta)
      next
        case start
        with InBlocks None up consider
            "acb_Type b = ''tool_use''" "m' = InBlocks False (Some ''tool_use'')"
          | "acb_Type b = ''text''" "m' = InBlocks True (Some ''text'')" "\<not> msg"
          | "acb_Type b = ''thinking''" "m' = InBlocks False (Some ''thinking'')" "\<not> msg"
          by (auto split: if_splits)
        then show ?thesis
          using InBlocks None sim start
          by cases (simp_all add: dispatch follows_tool_start follows_text_start follows_thinking_start)
      qed
    qed
  qed
qed

interpretation a2r: stream_protocol "AnthropicEventToResponsesEvents rnd" a2r_upstream sdk_client
  a2r_sdk a2r_sim for rnd
  using follows_step by unfold_locales (auto simp: a2r_follows_def)
section \<open>Properties of the stream\<close>

lemma new_sim: "a2r_sim AtStart (NewAnthropicEventToResponsesState now)"
  by (simp add: NewAnthropicEventToResponsesState_def a2r_sim_defs)

lemma new_sdk: "a2r_sdk AtStart (NewAnthropicEventToResponsesState now) = sdk_start"
  by (simp add: NewAnthropicEventToResponsesState_def a2r_sdk_def a2r_open_def sdk_start_def)

lemma new_books:
  "a2r_books (NewAnthropicEventToResponsesState now) = (0, [])"
  "a2r_indexed (NewAnthropicEventToResponsesState now)"
  by (simp_all add: NewAnthropicEventToResponsesState_def a2r_books_def a2r_indexed_def)

text \<open>
  C12. The accumulating client of the OpenAI SDK reads every complete stream that \<open>a2r_upstream\<close> accepts
  without an error: it never meets a delta of a part it has not seen, what it accumulates for an item is
  what \<open>output_item.done\<close> carries, and the terminal event lists the items it has. Such a stream starts a
  message, has blocks of text, thinking and tool uses one after another, each with deltas of its own kind,
  and ends with a message delta and a stop; after a block of text the next block is a tool use, if there
  is one. On other complete streams the client fails, see \<open>second_text_part_rejected\<close> and
  \<open>thinking_after_text_rejected\<close>.
\<close>

theorem a2r_sdk_accumulates:
  assumes "accept a2r_upstream AtStart es = Some AtEnd"
  shows "\<exists>c. accept sdk_client sdk_start
           (snd (run_stream (AnthropicEventToResponsesEvents rnd)
                   (NewAnthropicEventToResponsesState now) es)) = Some c \<and>
         sdk_finished c \<and>
         sdk_items c = a2r_Outputs (fst (run_stream (AnthropicEventToResponsesEvents rnd)
                   (NewAnthropicEventToResponsesState now) es))"
proof -
  let ?r = "run_stream (AnthropicEventToResponsesEvents rnd) (NewAnthropicEventToResponsesState now) es"
  have "accept sdk_client sdk_start (snd ?r) = Some (a2r_sdk AtEnd (fst ?r))"
    using a2r.run_accept [OF new_sim assms] by (simp add: new_sdk)
  moreover have "sdk_finished (a2r_sdk AtEnd (fst ?r))"
    using a2r.run_inv [OF new_sim assms, of rnd now] by (simp add: a2r_sim_def a2r_sdk_def)
  ultimately show ?thesis by (simp add: a2r_sdk_def)
qed

text \<open>
  Over any sequence of Anthropic events, well formed or not, the emitted events carry the
  sequence numbers 0, 1, 2, ..., the i-th \<open>output_item.done\<close> carries output index i, and every
  terminal event lists exactly the items done before it.
\<close>

theorem a2r_stream_audited:
  "let (st, out) = run_stream (AnthropicEventToResponsesEvents rnd)
                     (NewAnthropicEventToResponsesState now) es
   in accept audit (0, []) out = Some (a2r_SequenceNumber st, a2r_Outputs st)"
  using a2r_audit.run_accept [OF new_books(2) accept_trivial, of now rnd es]
  unfolding new_books(1) by (simp add: case_prod_beta a2r_books_def)

text \<open>
  Over any sequence of Anthropic events the stream and its finalisation have exactly one
  terminal event when \<open>response.created\<close> was sent or a \<open>message_stop\<close> arrived, none
  otherwise, and finalising again emits nothing.
\<close>

theorem a2r_one_terminal:
  "let (st, out) = run_stream (AnthropicEventToResponsesEvents rnd)
                     (NewAnthropicEventToResponsesState now) es;
       (st', out') = FinalizeAnthropicResponsesStream st
   in terminals (out @ out') = (if a2r_CreatedSent st \<or> a2r_CompletedSent st then 1 else 0) \<and>
      FinalizeAnthropicResponsesStream st' = (st', [])"
proof -
  let ?r = "run_stream (AnthropicEventToResponsesEvents rnd) (NewAnthropicEventToResponsesState now) es"
  have "terminals (snd ?r) = (if a2r_CompletedSent (fst ?r) then 1 else 0)"
    using run_terminal_step [of "NewAnthropicEventToResponsesState now" rnd es]
    by (simp add: terminal_step_def NewAnthropicEventToResponsesState_def)
  then show ?thesis
    using complete_contents(3) [of "fst ?r"] completed_set [of "fst ?r"]
    by (simp add: case_prod_beta Let_def FinalizeAnthropicResponsesStream_def terminals_def)
qed

text \<open>
  Text and tool arguments pass unchanged: over any sequence of Anthropic events, the text
  deltas and the argument deltas the client receives concatenate to those received.
\<close>

theorem a2r_content_preserved:
  "let out = snd (run_stream (AnthropicEventToResponsesEvents rnd) st es)
   in concat (map output_text_of out) = concat (map text_delta_of es) \<and>
      concat (map output_args_of out) = concat (map args_delta_of es)"
  unfolding Let_def using a2r_text.run_content [of rnd st es] a2r_args.run_content [of rnd st es] by blast
section \<open>Instances\<close>

definition block_events :: "AnthropicContentBlock \<Rightarrow> AnthropicDelta \<Rightarrow> AnthropicStreamEvent list" where
  "block_events b d =
     [zero_ae\<lparr>ae_Type := ''content_block_start'', ae_ContentBlock := Some b\<rparr>,
      zero_ae\<lparr>ae_Type := ''content_block_delta'', ae_Delta := Some d\<rparr>,
      zero_ae\<lparr>ae_Type := ''content_block_stop''\<rparr>]"

definition text_block_events :: "string \<Rightarrow> AnthropicStreamEvent list" where
  "text_block_events s =
     block_events (zero_acb\<lparr>acb_Type := ''text''\<rparr>) (zero_ad\<lparr>ad_Type := ''text_delta'', ad_Text := s\<rparr>)"

definition message_events :: "AnthropicStreamEvent list \<Rightarrow> AnthropicStreamEvent list" where
  "message_events bs =
     zero_ae\<lparr>ae_Type := ''message_start''\<rparr> # bs @
     [zero_ae\<lparr>ae_Type := ''message_delta''\<rparr>, zero_ae\<lparr>ae_Type := ''message_stop''\<rparr>]"

definition thinking_events :: "AnthropicStreamEvent list" where
  "thinking_events = block_events (zero_acb\<lparr>acb_Type := ''thinking''\<rparr>)
     (zero_ad\<lparr>ad_Type := ''thinking_delta'', ad_Thinking := ''hm''\<rparr>)"

definition tool_events :: "AnthropicStreamEvent list" where
  "tool_events = block_events (zero_acb\<lparr>acb_Type := ''tool_use'', acb_ID := ''call_1'', acb_Name := ''ls''\<rparr>)
     (zero_ad\<lparr>ad_Type := ''input_json_delta'', ad_PartialJSON := ''{}''\<rparr>)"

lemmas event_list_defs =
  block_events_def text_block_events_def message_events_def thinking_events_def tool_events_def
  zero_ae_def zero_acb_def zero_ad_def

lemma sample_a2r_upstream:
  "accept a2r_upstream AtStart (message_events (thinking_events @ text_block_events ''ok'' @ tool_events)) =
     Some AtEnd"
  by (simp add: event_list_defs delta_fits_def)

theorem a2r_sdk_accumulates_witness:
  "\<exists>c. accept sdk_client sdk_start
         (snd (run_stream (AnthropicEventToResponsesEvents (\<lambda>n. ''00''))
            (NewAnthropicEventToResponsesState 0)
            (message_events (thinking_events @ text_block_events ''ok'' @ tool_events)))) = Some c \<and>
       sdk_finished c \<and>
       sdk_items c = a2r_Outputs (fst (run_stream (AnthropicEventToResponsesEvents (\<lambda>n. ''00''))
            (NewAnthropicEventToResponsesState 0)
            (message_events (thinking_events @ text_block_events ''ok'' @ tool_events))))"
  by (rule a2r_sdk_accumulates [OF sample_a2r_upstream])

text \<open>
  The restriction to one text block per message item is needed: \<open>ContentIndex\<close> is never
  advanced, so the second part of a message is announced under index 0 again.
\<close>

lemma second_text_part_rejected:
  "accept sdk_client sdk_start
     (snd (run_stream (AnthropicEventToResponsesEvents (\<lambda>n. ''00'')) (NewAnthropicEventToResponsesState 0)
        (message_events (text_block_events ''a'' @ text_block_events ''b'')))) = None"
  by code_simp

text \<open>
  And a thinking block after a text block opens its item without closing the message item:
  the client is told of a second item under the output index of the first.
\<close>

lemma thinking_after_text_rejected:
  "accept sdk_client sdk_start
     (snd (run_stream (AnthropicEventToResponsesEvents (\<lambda>n. ''00'')) (NewAnthropicEventToResponsesState 0)
        (message_events (text_block_events ''a'' @ thinking_events)))) = None"
  by code_simp

end
