(* ===== verification/Anthropic_Round_Trip.thy ===== *)
theory Anthropic_Round_Trip
  imports Responses_To_Anthropic_Content Anthropic_To_Responses_Client
begin

text \<open>
  The two conversions between Anthropic Messages and OpenAI Responses against each other: token
  counts, whole responses and the text of streams.
\<close>

section \<open>Token counts\<close>

lemma usage_inputs:
  assumes "0 \<le> au_InputTokens u" and "0 \<le> au_CacheReadInputTokens u"
    and "0 \<le> au_CacheCreationInputTokens u"
    and "au_InputTokens u + au_CacheReadInputTokens u + au_CacheCreationInputTokens u < 2 ^ 63"
  shows "ru_InputTokens (a2r_usage u) =
    au_InputTokens u + au_CacheReadInputTokens u + au_CacheCreationInputTokens u"
proof -
  from assms have "int64_range (au_InputTokens u + au_CacheReadInputTokens u)"
    and "int64_range (au_InputTokens u + au_CacheReadInputTokens u + au_CacheCreationInputTokens u)"
    by (simp_all add: int64_range_def)
  then show ?thesis by (simp add: a2r_usage_def Let_def go_arith)
qed

lemma usage_back:
  assumes "0 \<le> au_InputTokens u" and "0 \<le> au_CacheReadInputTokens u"
    and "0 \<le> au_CacheCreationInputTokens u"
    and "au_InputTokens u + au_CacheReadInputTokens u + au_CacheCreationInputTokens u < 2 ^ 63"
  shows "anthropicUsageFromResponsesUsage (Some (a2r_usage u)) = u"
proof -
  let ?t = "au_InputTokens u + au_CacheReadInputTokens u + au_CacheCreationInputTokens u"
  have cached: "(case ru_InputTokensDetails (a2r_usage u) of None \<Rightarrow> 0 | Some d \<Rightarrow> ritd_CachedTokens d) =
      au_CacheReadInputTokens u"
    using assms(2) by (simp add: a2r_usage_def Let_def)
  have first: "i64 (?t - au_CacheReadInputTokens u) = ?t - au_CacheReadInputTokens u"
    by (rule i64_id) (use assms in \<open>simp add: int64_range_def\<close>)
  have second: "i64 (?t - au_CacheReadInputTokens u - au_CacheCreationInputTokens u) = au_InputTokens u"
    by (subst i64_id) (use assms in \<open>simp_all add: int64_range_def\<close>)
  have kept: "ru_OutputTokens (a2r_usage u) = au_OutputTokens u"
    "ru_CacheCreationInputTokens (a2r_usage u) = au_CacheCreationInputTokens u"
    by (simp_all add: a2r_usage_def Let_def)
  show ?thesis
    unfolding anthropicUsageFromResponsesUsage_def option.case Let_def cached kept
      usage_inputs [OF assms] first second
    using assms(1) by simp
qed

text \<open>
  C35. Token counts survive the round trip: an Anthropic usage converted into a Responses
  usage and back is the same, and the total that Responses reports is the sum of all counts.
\<close>

theorem usage_round_trip:
  assumes "0 \<le> au_InputTokens u" and "0 \<le> au_CacheReadInputTokens u"
    and "0 \<le> au_CacheCreationInputTokens u" and "0 \<le> au_OutputTokens u"
    and "au_InputTokens u + au_CacheReadInputTokens u + au_CacheCreationInputTokens u +
           au_OutputTokens u < 2 ^ 63"
  shows "anthropicUsageFromResponsesUsage (Some (a2r_usage u)) = u \<and>
    ru_TotalTokens (a2r_usage u) =
      au_InputTokens u + au_CacheReadInputTokens u + au_CacheCreationInputTokens u + au_OutputTokens u"
proof
  have b: "au_InputTokens u + au_CacheReadInputTokens u + au_CacheCreationInputTokens u < 2 ^ 63"
    using assms by simp
  show "anthropicUsageFromResponsesUsage (Some (a2r_usage u)) = u"
    by (rule usage_back [OF assms(1-3) b])
  have "int64_range (ru_InputTokens (a2r_usage u) + au_OutputTokens u)"
    using assms by (simp add: usage_inputs [OF assms(1-3) b] int64_range_def)
  then have "ru_TotalTokens (a2r_usage u) = ru_InputTokens (a2r_usage u) + au_OutputTokens u"
    by (simp add: a2r_usage_def Let_def go_arith)
  then show "ru_TotalTokens (a2r_usage u) =
      au_InputTokens u + au_CacheReadInputTokens u + au_CacheCreationInputTokens u + au_OutputTokens u"
    by (simp add: usage_inputs [OF assms(1-3) b])
qed

theorem usage_round_trip_witness:
  "let u = \<lparr>au_InputTokens = 20, au_OutputTokens = 5, au_CacheCreationInputTokens = 3,
            au_CacheReadInputTokens = 70\<rparr>
   in anthropicUsageFromResponsesUsage (Some (a2r_usage u)) = u \<and> ru_TotalTokens (a2r_usage u) = 98"
  using usage_round_trip [of "\<lparr>au_InputTokens = 20, au_OutputTokens = 5,
    au_CacheCreationInputTokens = 3, au_CacheReadInputTokens = 70\<rparr>"] by simp

section \<open>Whole responses\<close>

text \<open>
  The blocks that both protocols can express: thinking without a signature, a tool use with
  arguments under an ID that is not of the old prefixed form, and text.
\<close>

datatype plain_block =
    PlainThinking string
  | PlainToolUse string string string
  | PlainText string

fun block_of :: "plain_block \<Rightarrow> AnthropicContentBlock" where
  "block_of (PlainThinking t) = zero_acb\<lparr>acb_Type := ''thinking'', acb_Thinking := t\<rparr>"
| "block_of (PlainToolUse i n a) =
     zero_acb\<lparr>acb_Type := ''tool_use'', acb_ID := i, acb_Name := n, acb_Input := a\<rparr>"
| "block_of (PlainText s) = zero_acb\<lparr>acb_Type := ''text'', acb_Text := s\<rparr>"

fun plain_ok :: "plain_block \<Rightarrow> bool" where
  "plain_ok (PlainThinking t) = (t \<noteq> '''')"
| "plain_ok (PlainToolUse i n a) = (a \<noteq> '''' \<and> n \<noteq> ''Read'' \<and> fromResponsesCallID i = i)"
| "plain_ok (PlainText s) = (s \<noteq> '''')"

fun is_plain_text :: "plain_block \<Rightarrow> bool" where
  "is_plain_text (PlainText s) = True"
| "is_plain_text p = False"

text \<open>The item of a block that is not text, and the part of one that is.\<close>

fun item_of :: "(nat \<Rightarrow> string) \<Rightarrow> nat \<Rightarrow> plain_block \<Rightarrow> ResponsesOutput" where
  "item_of rnd n (PlainThinking t) =
     zero_ro\<lparr>ro_Type := ''reasoning'', ro_ID := generateItemID rnd n,
       ro_Summary := [\<lparr>rs_Type = ''summary_text'', rs_Text = t\<rparr>]\<rparr>"
| "item_of rnd n (PlainToolUse i nm a) =
     zero_ro\<lparr>ro_Type := ''function_call'', ro_ID := generateItemID rnd n, ro_CallID := i,
       ro_Name := nm, ro_Arguments := a, ro_Status := ''completed''\<rparr>"
| "item_of rnd n (PlainText s) = zero_ro"

fun part_of :: "plain_block \<Rightarrow> ResponsesContentPart" where
  "part_of (PlainText s) = sdk_part s"
| "part_of p = sdk_part ''''"

lemma block_forth:
  assumes "plain_ok p" and "\<not> is_plain_text p"
  shows "a2r_blocks rnd (block_of p # bs) (n, outs, parts) =
    a2r_blocks rnd bs (n + 1, outs @ [item_of rnd n p], parts)"
  using assms by (cases p) (simp_all add: zero_acb_def toResponsesCallID_def)

lemma block_back:
  assumes "plain_ok p" and "\<not> is_plain_text p"
  shows "r2a_itemBlocks J (item_of rnd n p) = [block_of p]"
  using assms
  by (cases p) (simp_all add: r2a_itemBlocks_def r2a_summaryText_def zero_ro_def zero_acb_def
      sanitizeAnthropicToolUseInput_def)

fun items_of :: "(nat \<Rightarrow> string) \<Rightarrow> nat \<Rightarrow> plain_block list \<Rightarrow> ResponsesOutput list" where
  "items_of rnd n [] = []"
| "items_of rnd n (p # ps) = item_of rnd n p # items_of rnd (n + 1) ps"

lemma blocks_forth:
  "\<forall>p \<in> set ps. plain_ok p \<and> \<not> is_plain_text p \<Longrightarrow>
     a2r_blocks rnd (map block_of ps @ bs) (n, outs, parts) =
     a2r_blocks rnd bs (n + length ps, outs @ items_of rnd n ps, parts)"
  by (induction ps arbitrary: n outs) (simp_all add: block_forth del: a2r_blocks.simps)

lemma blocks_back:
  "\<forall>p \<in> set ps. plain_ok p \<and> \<not> is_plain_text p \<Longrightarrow>
     concat (map (r2a_itemBlocks J) (items_of rnd n ps)) = map block_of ps"
  by (induction ps arbitrary: n) (simp_all add: block_back)

lemma texts_forth:
  "\<forall>p \<in> set ts. plain_ok p \<and> is_plain_text p \<Longrightarrow>
     a2r_blocks rnd (map block_of ts) (n, outs, parts) = (n, outs, parts @ map part_of ts)"
proof (induction ts arbitrary: parts)
  case (Cons t ts)
  then show ?case by (cases t) (simp_all add: zero_acb_def sdk_part_def)
qed simp

lemma texts_back:
  "\<forall>p \<in> set ts. plain_ok p \<and> is_plain_text p \<Longrightarrow>
     concat (map (\<lambda>part. if rcp_Type part = ''output_text'' \<and> rcp_Text part \<noteq> ''''
            then [zero_acb\<lparr>acb_Type := ''text'', acb_Text := rcp_Text part\<rparr>] else [])
          (map part_of ts)) = map block_of ts"
proof (induction ts)
  case (Cons t ts)
  then show ?case by (cases t) (simp_all add: sdk_part_def)
qed simp

lemma message_back:
  "\<forall>p \<in> set ts. plain_ok p \<and> is_plain_text p \<Longrightarrow>
     r2a_itemBlocks J (a2r_message rnd n (map part_of ts)) = map block_of ts"
  using texts_back [of ts] by (simp add: r2a_itemBlocks_def a2r_message_def zero_ro_def)

lemma items_of_nil [simp]: "items_of rnd n ps = [] \<longleftrightarrow> ps = []"
  by (cases ps) simp_all

text \<open>What the response that leaves \<open>AnthropicToResponsesResponse\<close> holds.\<close>

lemma response_forth:
  assumes ps: "\<forall>p \<in> set ps. plain_ok p \<and> \<not> is_plain_text p"
    and ts: "\<forall>p \<in> set ts. plain_ok p \<and> is_plain_text p" and ne: "ps @ ts \<noteq> []"
    and content: "ar_Content resp = map block_of (ps @ ts)" and "ar_ID resp \<noteq> ''''"
  shows "rr_Output (AnthropicToResponsesResponse rnd n resp) =
           items_of rnd n ps @ (if ts = [] then [] else [a2r_message rnd (n + length ps) (map part_of ts)])"
    and "rr_ID (AnthropicToResponsesResponse rnd n resp) = ar_ID resp"
    and "rr_Usage (AnthropicToResponsesResponse rnd n resp) = Some (a2r_usage (ar_Usage resp))"
    and "rr_Status (AnthropicToResponsesResponse rnd n resp) =
           (if ar_StopReason resp = Some ''max_tokens'' then ''incomplete'' else ''completed'')"
    and "rr_Status (AnthropicToResponsesResponse rnd n resp) = ''incomplete'' \<Longrightarrow>
           rr_IncompleteDetails (AnthropicToResponsesResponse rnd n resp) =
             Some \<lparr>rid_Reason = ''max_output_tokens''\<rparr>"
proof -
  have blocks: "a2r_blocks rnd (ar_Content resp) (n, [], []) =
      (n + length ps, items_of rnd n ps, map part_of ts)"
    using blocks_forth [OF ps, of rnd "map block_of ts" n "[]" "[]"] texts_forth [OF ts, of rnd _ _ "[]"]
    by (simp add: content)
  have status: "anthropicStopReasonToResponsesStatus (AnthropicStopReasonString (ar_StopReason resp))
      (ar_Content resp) = (if ar_StopReason resp = Some ''max_tokens'' then ''incomplete'' else ''completed'')"
    by (simp add: anthropicStopReasonToResponsesStatus_def AnthropicStopReasonString_def split: option.split)
  note d = AnthropicToResponsesResponse_def Let_def blocks case_prod_beta status
  show "rr_Output (AnthropicToResponsesResponse rnd n resp) =
           items_of rnd n ps @ (if ts = [] then [] else [a2r_message rnd (n + length ps) (map part_of ts)])"
    using assms(5) ne by (cases ts) (simp_all add: d)
  show "rr_ID (AnthropicToResponsesResponse rnd n resp) = ar_ID resp"
    "rr_Usage (AnthropicToResponsesResponse rnd n resp) = Some (a2r_usage (ar_Usage resp))"
    "rr_Status (AnthropicToResponsesResponse rnd n resp) =
           (if ar_StopReason resp = Some ''max_tokens'' then ''incomplete'' else ''completed'')"
    "rr_Status (AnthropicToResponsesResponse rnd n resp) = ''incomplete'' \<Longrightarrow>
           rr_IncompleteDetails (AnthropicToResponsesResponse rnd n resp) =
             Some \<lparr>rid_Reason = ''max_output_tokens''\<rparr>"
    using assms(5) by (simp_all add: d)
qed

text \<open>
  C34. Plain responses survive the round trip through the Responses format. A response is plain when
  thinking (not empty, without a signature) and tool uses (of another tool than \<open>Read\<close>, with an id that
  the formats share and arguments that are not empty) come first and texts (not empty) last, at least one
  block in all; it is a message of the assistant with an id and no stop sequence; its stop reason is
  \<open>max_tokens\<close> or the one that its blocks suggest, \<open>tool_use\<close> with a tool use and \<open>end_turn\<close> without;
  and its input, cache read and cache creation counts are not negative and add up to less than 2^63.
\<close>

theorem response_round_trip:
  assumes "ar_Content resp = map block_of (ps @ ts)" and "ps @ ts \<noteq> []"
    and "\<forall>p \<in> set ps. plain_ok p \<and> \<not> is_plain_text p"
    and "\<forall>p \<in> set ts. plain_ok p \<and> is_plain_text p"
    and "ar_ID resp \<noteq> ''''" and "ar_Type resp = ''message''" and "ar_Role resp = ''assistant''"
    and "ar_StopSequence resp = None"
    and "ar_StopReason resp \<in> {Some ''max_tokens'',
           Some (if containsAnthropicToolUseBlock (ar_Content resp) then ''tool_use'' else ''end_turn'')}"
    and "0 \<le> au_InputTokens (ar_Usage resp)" and "0 \<le> au_CacheReadInputTokens (ar_Usage resp)"
    and "0 \<le> au_CacheCreationInputTokens (ar_Usage resp)"
    and "au_InputTokens (ar_Usage resp) + au_CacheReadInputTokens (ar_Usage resp) +
           au_CacheCreationInputTokens (ar_Usage resp) < 2 ^ 63"
  shows "ResponsesToAnthropic J (AnthropicToResponsesResponse rnd n resp) (ar_Model resp) = resp"
proof -
  let ?r = "AnthropicToResponsesResponse rnd n resp"
  note r = response_forth [OF assms(3,4,2,1,5), of rnd n]
  have blocks: "concat (map (r2a_itemBlocks J) (rr_Output ?r)) = ar_Content resp"
    using blocks_back [OF assms(3)] message_back [OF assms(4)] by (simp add: r(1) assms(1))
  have ne: "ar_Content resp \<noteq> []" using assms(1,2) by simp
  have "responsesStatusToAnthropicStopReason (rr_Status ?r) (rr_IncompleteDetails ?r) (ar_Content resp) =
      the (ar_StopReason resp)"
    using assms(9) r(4,5) by (auto simp: responsesStatusToAnthropicStopReason_def)
  then have stop: "AnthropicStopReasonPtr (responsesStatusToAnthropicStopReason (rr_Status ?r)
      (rr_IncompleteDetails ?r) (ar_Content resp)) = ar_StopReason resp"
    using assms(9) by (auto simp: AnthropicStopReasonPtr_def)
  have usage: "anthropicUsageFromResponsesUsage (Some (a2r_usage (ar_Usage resp))) = ar_Usage resp"
    by (rule usage_back [OF assms(10-13)])
  show ?thesis
    unfolding ResponsesToAnthropic_def Let_def blocks r(2,3) option.case usage if_not_P [OF ne] stop
    using assms(6-8) by simp
qed

text \<open>
  Chaining the two stream converters loses no text: what the Anthropic client at the far
  end reads is what the Anthropic upstream sent.
\<close>

theorem streams_chained_text:
  "texts (snd (run_stream (ResponsesEventToAnthropicEvents J) s
       (snd (run_stream (AnthropicEventToResponsesEvents rnd) t es)))) = concat (map text_delta_of es)"
proof -
  have "text_in = output_text_of" by (simp add: fun_eq_iff text_in_def output_text_of_def)
  then show ?thesis
    unfolding texts_def r2a_text.run_content by (simp only: a2r_text.run_content)
qed

definition sample_response :: AnthropicResponse where
  "sample_response =
     \<lparr>ar_ID = ''msg_1'', ar_Type = ''message'', ar_Role = ''assistant'',
      ar_Content = map block_of ([PlainThinking ''hm'', PlainToolUse ''toolu_1'' ''ls'' ''{}''] @ [PlainText ''ok'']),
      ar_Model = ''m'', ar_StopReason = Some ''tool_use'', ar_StopSequence = None,
      ar_Usage = \<lparr>au_InputTokens = 20, au_OutputTokens = 5, au_CacheCreationInputTokens = 3,
        au_CacheReadInputTokens = 70\<rparr>\<rparr>"

theorem response_round_trip_witness:
  "ResponsesToAnthropic sample_json (AnthropicToResponsesResponse (\<lambda>n. ''00'') 0 sample_response) ''m'' =
     sample_response"
  using response_round_trip [of sample_response
      "[PlainThinking ''hm'', PlainToolUse ''toolu_1'' ''ls'' ''{}'']" "[PlainText ''ok'']"
      sample_json "\<lambda>n. ''00''" 0]
  by (simp add: sample_response_def fromResponsesCallID_def cut_prefix_def starts_with_def
      containsAnthropicToolUseBlock_def zero_acb_def)

text \<open>A text block before a tool use does not keep its place.\<close>

lemma text_moves_behind_tool_use:
  "ar_Content (ResponsesToAnthropic sample_json (AnthropicToResponsesResponse (\<lambda>n. ''00'') 0
     (sample_response\<lparr>ar_Content := map block_of [PlainText ''ok'', PlainToolUse ''toolu_1'' ''ls'' ''{}'']\<rparr>)) ''m'') =
   map block_of [PlainToolUse ''toolu_1'' ''ls'' ''{}'', PlainText ''ok'']"
  by code_simp

end
