(* ===== verification/Responses_To_Chat.thy ===== *)
theory Responses_To_Chat
  imports Compat_Types Sse_Stream
begin

text \<open>
  backend/internal/pkg/apicompat/responses_to_chatcompletions.go: the conversion of an OpenAI
  Responses answer into a Chat Completions answer, whole (\<open>ResponsesToChatCompletions\<close>), event
  by event (\<open>ResponsesEventToChatChunks\<close> over \<open>ResponsesEventToChatState\<close>), and buffered
  (\<open>BufferedResponseAccumulator\<close>). A generated ID and the time of the conversion are arguments.
\<close>

section \<open>Token counts\<close>

definition promptDetailsFromResponses :: "ResponsesInputTokensDetails option \<Rightarrow> ChatTokenDetails option" where
  "promptDetailsFromResponses src =
     (case src of
        None \<Rightarrow> None
      | Some d \<Rightarrow>
          if ritd_CachedTokens d = 0 \<and> ritd_AudioTokens d = 0 \<and> ritd_CacheCreationTokens d = 0 \<and>
             ritd_CacheWriteTokens d = 0 then None
          else Some (zero_ctd\<lparr>ctd_CachedTokens := ritd_CachedTokens d,
                 ctd_AudioTokens := ritd_AudioTokens d,
                 ctd_CacheCreationTokens := ritd_CacheCreationTokens d,
                 ctd_CacheWriteTokens := ritd_CacheWriteTokens d\<rparr>))"

definition completionDetailsFromResponses ::
  "ResponsesOutputTokensDetails option \<Rightarrow> ChatTokenDetails option" where
  "completionDetailsFromResponses src =
     (case src of
        None \<Rightarrow> None
      | Some d \<Rightarrow>
          if rotd_ReasoningTokens d = 0 \<and> rotd_AudioTokens d = 0 \<and>
             rotd_AcceptedPredictionTokens d = 0 \<and> rotd_RejectedPredictionTokens d = 0 then None
          else Some (zero_ctd\<lparr>ctd_ReasoningTokens := rotd_ReasoningTokens d,
                 ctd_AudioTokens := rotd_AudioTokens d,
                 ctd_AcceptedPredictionTokens := rotd_AcceptedPredictionTokens d,
                 ctd_RejectedPredictionTokens := rotd_RejectedPredictionTokens d\<rparr>))"

definition chatUsageFromResponsesUsage :: "ResponsesUsage option \<Rightarrow> ChatUsage option" where
  "chatUsageFromResponsesUsage usage =
     (case usage of
        None \<Rightarrow> None
      | Some u \<Rightarrow>
          let details = promptDetailsFromResponses (ru_InputTokensDetails u);
              details =
                (if 0 < ru_CacheCreationInputTokens u then
                   let d = (case details of None \<Rightarrow> zero_ctd | Some d \<Rightarrow> d)
                   in Some (if ctd_CacheWriteTokens d = 0 \<and> ctd_CacheCreationTokens d = 0
                            then d\<lparr>ctd_CacheCreationTokens := ru_CacheCreationInputTokens u\<rparr> else d)
                 else details)
          in Some \<lparr>cu_PromptTokens = ru_InputTokens u, cu_CompletionTokens = ru_OutputTokens u,
               cu_TotalTokens = i64 (ru_InputTokens u + ru_OutputTokens u),
               cu_PromptTokensDetails = details,
               cu_CompletionTokensDetails = completionDetailsFromResponses (ru_OutputTokensDetails u)\<rparr>)"

section \<open>Whole responses\<close>

definition generateChatCmplID :: "string \<Rightarrow> string" where
  "generateChatCmplID drawn = ''chatcmpl-'' @ drawn"

definition responsesStatusToChatFinishReason ::
  "string \<Rightarrow> ResponsesIncompleteDetails option \<Rightarrow> ChatToolCall list \<Rightarrow> string" where
  "responsesStatusToChatFinishReason status details toolCalls =
     (if status = ''incomplete'' then
        (case details of
           None \<Rightarrow> ''stop''
         | Some d \<Rightarrow>
             if rid_Reason d = ''max_output_tokens'' then ''length''
             else if rid_Reason d = ''content_filter'' then ''content_filter''
             else ''stop'')
      else if status = ''completed'' then (if toolCalls \<noteq> [] then ''tool_calls'' else ''stop'')
      else ''stop'')"

text \<open>The loop over the output items: content text, reasoning text and tool calls.\<close>

definition r2c_item ::
  "string \<times> string \<times> ChatToolCall list \<Rightarrow> ResponsesOutput \<Rightarrow> string \<times> string \<times> ChatToolCall list" where
  "r2c_item acc item =
     (case acc of (contentText, reasoningText, toolCalls) \<Rightarrow>
        if ro_Type item = ''message'' then
          (contentText @ concat (map (\<lambda>part. if rcp_Type part = ''output_text'' \<and> rcp_Text part \<noteq> ''''
                                     then rcp_Text part else '''') (ro_Content item)),
           reasoningText, toolCalls)
        else if ro_Type item = ''function_call'' then
          (contentText, reasoningText,
           toolCalls @ [zero_ctc\<lparr>ctc_ID := ro_CallID item, ctc_Type := ''function'',
             ctc_Function := \<lparr>cfc_Name = ro_Name item, cfc_Arguments = ro_Arguments item\<rparr>\<rparr>])
        else if ro_Type item = ''reasoning'' then
          (contentText,
           reasoningText @ concat (map (\<lambda>s. if rs_Type s = ''summary_text'' \<and> rs_Text s \<noteq> ''''
                                       then rs_Text s else '''') (ro_Summary item)), toolCalls)
        else (contentText, reasoningText, toolCalls))"

definition ResponsesToChatCompletions ::
  "json_lib \<Rightarrow> string \<Rightarrow> int \<Rightarrow> ResponsesResponse \<Rightarrow> string \<Rightarrow> ChatCompletionsResponse" where
  "ResponsesToChatCompletions J drawn now resp model =
     (let (contentText, reasoningText, toolCalls) = foldl r2c_item ('''', '''', []) (rr_Output resp);
          msg = zero_cm\<lparr>cm_Role := ''assistant''\<rparr>;
          msg = (if toolCalls \<noteq> [] then msg\<lparr>cm_ToolCalls := toolCalls\<rparr> else msg);
          msg = (if contentText \<noteq> '''' then msg\<lparr>cm_Content := js_encode_string J contentText\<rparr> else msg);
          msg = (if reasoningText \<noteq> '''' then msg\<lparr>cm_ReasoningContent := reasoningText\<rparr> else msg)
      in \<lparr>ccr_ID = (if rr_ID resp = '''' then generateChatCmplID drawn else rr_ID resp),
          ccr_Object = ''chat.completion'', ccr_Created = now, ccr_Model = model,
          ccr_Choices = [\<lparr>cc_Index = 0, cc_Message = msg,
            cc_FinishReason = responsesStatusToChatFinishReason (rr_Status resp)
              (rr_IncompleteDetails resp) toolCalls\<rparr>],
          ccr_Usage = chatUsageFromResponsesUsage (rr_Usage resp),
          ccr_SystemFingerprint = '''', ccr_ServiceTier = ''''\<rparr>)"

section \<open>The stream state and its handlers\<close>

record ResponsesEventToChatState =
  r2c_ID :: string
  r2c_Model :: string
  r2c_Created :: int
  r2c_SentRole :: bool
  r2c_SawToolCall :: bool
  r2c_SawText :: bool
  r2c_Finalized :: bool
  r2c_NextToolCallIndex :: int
  r2c_OutputIndexToToolIndex :: "(int, int) gomap"
  r2c_IncludeUsage :: bool
  r2c_Usage :: "ChatUsage option"

type_synonym r2c_result = "ResponsesEventToChatState \<times> ChatCompletionsChunk list"

definition NewResponsesEventToChatState :: "string \<Rightarrow> int \<Rightarrow> ResponsesEventToChatState" where
  "NewResponsesEventToChatState drawn now =
     \<lparr>r2c_ID = generateChatCmplID drawn, r2c_Model = '''', r2c_Created = now, r2c_SentRole = False,
      r2c_SawToolCall = False, r2c_SawText = False, r2c_Finalized = False,
      r2c_NextToolCallIndex = 0, r2c_OutputIndexToToolIndex = [], r2c_IncludeUsage = False,
      r2c_Usage = None\<rparr>"

definition makeChatDeltaChunk :: "ResponsesEventToChatState \<Rightarrow> ChatDelta \<Rightarrow> ChatCompletionsChunk" where
  "makeChatDeltaChunk st delta =
     \<lparr>cck_ID = r2c_ID st, cck_Object = ''chat.completion.chunk'', cck_Created = r2c_Created st,
      cck_Model = r2c_Model st,
      cck_Choices = [\<lparr>ccc_Index = 0, ccc_Delta = delta, ccc_FinishReason = None\<rparr>],
      cck_Usage = None, cck_SystemFingerprint = '''', cck_ServiceTier = ''''\<rparr>"

definition makeChatFinishChunk :: "ResponsesEventToChatState \<Rightarrow> string \<Rightarrow> ChatCompletionsChunk" where
  "makeChatFinishChunk st finishReason =
     \<lparr>cck_ID = r2c_ID st, cck_Object = ''chat.completion.chunk'', cck_Created = r2c_Created st,
      cck_Model = r2c_Model st,
      cck_Choices = [\<lparr>ccc_Index = 0, ccc_Delta = zero_cd\<lparr>cd_Content := Some ''''\<rparr>,
        ccc_FinishReason = Some finishReason\<rparr>],
      cck_Usage = None, cck_SystemFingerprint = '''', cck_ServiceTier = ''''\<rparr>"

definition r2c_usageChunks :: "ResponsesEventToChatState \<Rightarrow> ChatCompletionsChunk list" where
  "r2c_usageChunks st =
     (if r2c_IncludeUsage st \<and> r2c_Usage st \<noteq> None then
        [\<lparr>cck_ID = r2c_ID st, cck_Object = ''chat.completion.chunk'', cck_Created = r2c_Created st,
          cck_Model = r2c_Model st, cck_Choices = [], cck_Usage = r2c_Usage st,
          cck_SystemFingerprint = '''', cck_ServiceTier = ''''\<rparr>]
      else [])"

definition resToChatHandleCreated ::
  "ResponsesStreamEvent \<Rightarrow> ResponsesEventToChatState \<Rightarrow> r2c_result" where
  "resToChatHandleCreated evt st =
     (let st = (case re_Response evt of
                  None \<Rightarrow> st
                | Some r \<Rightarrow>
                    let st = (if rr_ID r \<noteq> '''' then st\<lparr>r2c_ID := rr_ID r\<rparr> else st)
                    in if r2c_Model st = '''' \<and> rr_Model r \<noteq> '''' then st\<lparr>r2c_Model := rr_Model r\<rparr> else st)
      in if r2c_SentRole st then (st, [])
         else
           let st = st\<lparr>r2c_SentRole := True\<rparr>
           in (st, [makeChatDeltaChunk st (zero_cd\<lparr>cd_Role := ''assistant''\<rparr>)]))"

definition resToChatHandleTextDelta ::
  "ResponsesStreamEvent \<Rightarrow> ResponsesEventToChatState \<Rightarrow> r2c_result" where
  "resToChatHandleTextDelta evt st =
     (if re_Delta evt = '''' then (st, [])
      else
        let st = st\<lparr>r2c_SawText := True\<rparr>
        in (st, [makeChatDeltaChunk st (zero_cd\<lparr>cd_Content := Some (re_Delta evt)\<rparr>)]))"

definition resToChatHandleOutputItemAdded ::
  "ResponsesStreamEvent \<Rightarrow> ResponsesEventToChatState \<Rightarrow> r2c_result" where
  "resToChatHandleOutputItemAdded evt st =
     (case re_Item evt of
        None \<Rightarrow> (st, [])
      | Some item \<Rightarrow>
          if ro_Type item \<noteq> ''function_call'' \<and> ro_Type item \<noteq> ''custom_tool_call'' then (st, [])
          else
            let idx = r2c_NextToolCallIndex st;
                st = st\<lparr>r2c_SawToolCall := True,
                       r2c_OutputIndexToToolIndex :=
                         gput (r2c_OutputIndexToToolIndex st) (re_OutputIndex evt) idx,
                       r2c_NextToolCallIndex := idx + 1\<rparr>
            in (st, [makeChatDeltaChunk st (zero_cd\<lparr>cd_ToolCalls :=
                  [\<lparr>ctc_Index = Some idx, ctc_ID = ro_CallID item, ctc_Type = ''function'',
                    ctc_Function = \<lparr>cfc_Name = ro_Name item, cfc_Arguments = ''''\<rparr>\<rparr>]\<rparr>)]))"

definition resToChatHandleFuncArgsDelta ::
  "ResponsesStreamEvent \<Rightarrow> ResponsesEventToChatState \<Rightarrow> r2c_result" where
  "resToChatHandleFuncArgsDelta evt st =
     (if re_Delta evt = '''' then (st, [])
      else case gget (r2c_OutputIndexToToolIndex st) (re_OutputIndex evt) of
             None \<Rightarrow> (st, [])
           | Some idx \<Rightarrow>
               (st, [makeChatDeltaChunk st (zero_cd\<lparr>cd_ToolCalls :=
                  [\<lparr>ctc_Index = Some idx, ctc_ID = '''', ctc_Type = '''',
                    ctc_Function = \<lparr>cfc_Name = '''', cfc_Arguments = re_Delta evt\<rparr>\<rparr>]\<rparr>)]))"

definition resToChatHandleReasoningDelta ::
  "ResponsesStreamEvent \<Rightarrow> ResponsesEventToChatState \<Rightarrow> r2c_result" where
  "resToChatHandleReasoningDelta evt st =
     (if re_Delta evt = '''' then (st, [])
      else (st, [makeChatDeltaChunk st (zero_cd\<lparr>cd_ReasoningContent := Some (re_Delta evt)\<rparr>)]))"

definition resToChatHandleCompleted ::
  "ResponsesStreamEvent \<Rightarrow> ResponsesEventToChatState \<Rightarrow> r2c_result" where
  "resToChatHandleCompleted evt st =
     (let st = st\<lparr>r2c_Finalized := True\<rparr>;
          st = (case re_Usage evt of
                  None \<Rightarrow> st | Some u \<Rightarrow> st\<lparr>r2c_Usage := chatUsageFromResponsesUsage (Some u)\<rparr>);
          (st, finishReason) =
            (case re_Response evt of
               None \<Rightarrow> (st, if r2c_SawToolCall st then ''tool_calls'' else ''stop'')
             | Some r \<Rightarrow>
                 (case rr_Usage r of
                    None \<Rightarrow> st | Some u \<Rightarrow> st\<lparr>r2c_Usage := chatUsageFromResponsesUsage (Some u)\<rparr>,
                  if rr_Status r = ''incomplete'' then
                    (case rr_IncompleteDetails r of
                       None \<Rightarrow> ''stop''
                     | Some d \<Rightarrow>
                         if rid_Reason d = ''max_output_tokens'' then ''length''
                         else if rid_Reason d = ''content_filter'' then ''content_filter''
                         else ''stop'')
                  else if rr_Status r = ''completed'' \<and> r2c_SawToolCall st then ''tool_calls''
                  else ''stop''))
      in (st, makeChatFinishChunk st finishReason # r2c_usageChunks st))"

definition ResponsesEventToChatChunks ::
  "ResponsesEventToChatState \<Rightarrow> ResponsesStreamEvent \<Rightarrow> r2c_result" where
  "ResponsesEventToChatChunks st evt =
     (let t = re_Type evt in
      if t = ''response.created'' then resToChatHandleCreated evt st
      else if t = ''response.output_text.delta'' then resToChatHandleTextDelta evt st
      else if t = ''response.output_item.added'' then resToChatHandleOutputItemAdded evt st
      else if t = ''response.function_call_arguments.delta''
              \<or> t = ''response.custom_tool_call_input.delta''
        then resToChatHandleFuncArgsDelta evt st
      else if t = ''response.reasoning_summary_text.delta'' \<or> t = ''response.reasoning_text.delta''
        then resToChatHandleReasoningDelta evt st
      else if t = ''response.reasoning_summary_text.done'' then (st, [])
      else if t = ''response.completed'' \<or> t = ''response.done'' \<or> t = ''response.incomplete''
              \<or> t = ''response.failed''
        then resToChatHandleCompleted evt st
      else (st, []))"

definition FinalizeResponsesChatStream :: "ResponsesEventToChatState \<Rightarrow> r2c_result" where
  "FinalizeResponsesChatStream st =
     (if r2c_Finalized st then (st, [])
      else
        let st = st\<lparr>r2c_Finalized := True\<rparr>;
            finishReason = (if r2c_SawToolCall st then ''tool_calls'' else ''stop'')
        in (st, makeChatFinishChunk st finishReason # r2c_usageChunks st))"

section \<open>The buffered accumulator\<close>

record bufferedFuncCall =
  bfc_CallID :: string
  bfc_Name :: string
  bfc_Args :: string

record BufferedResponseAccumulator =
  bra_text :: string
  bra_reasoning :: string
  bra_funcCalls :: "bufferedFuncCall list"
  bra_outputIndexToFuncIdx :: "(int, nat) gomap"

definition NewBufferedResponseAccumulator :: BufferedResponseAccumulator where
  "NewBufferedResponseAccumulator =
     \<lparr>bra_text = '''', bra_reasoning = '''', bra_funcCalls = [], bra_outputIndexToFuncIdx = []\<rparr>"

definition ProcessEvent ::
  "BufferedResponseAccumulator \<Rightarrow> ResponsesStreamEvent \<Rightarrow> BufferedResponseAccumulator" where
  "ProcessEvent a event =
     (let t = re_Type event in
      if t = ''response.output_text.delta'' then
        (if re_Delta event \<noteq> '''' then a\<lparr>bra_text := bra_text a @ re_Delta event\<rparr> else a)
      else if t = ''response.output_item.added'' then
        (case re_Item event of
           None \<Rightarrow> a
         | Some item \<Rightarrow>
             if ro_Type item = ''function_call'' \<or> ro_Type item = ''custom_tool_call'' then
               a\<lparr>bra_outputIndexToFuncIdx := gput (bra_outputIndexToFuncIdx a) (re_OutputIndex event)
                   (length (bra_funcCalls a)),
                 bra_funcCalls := bra_funcCalls a @
                   [\<lparr>bfc_CallID = ro_CallID item, bfc_Name = ro_Name item, bfc_Args = ''''\<rparr>]\<rparr>
             else a)
      else if t = ''response.function_call_arguments.delta''
              \<or> t = ''response.custom_tool_call_input.delta'' then
        (if re_Delta event \<noteq> '''' then
           (case gget (bra_outputIndexToFuncIdx a) (re_OutputIndex event) of
              None \<Rightarrow> a
            | Some idx \<Rightarrow>
                a\<lparr>bra_funcCalls := (bra_funcCalls a)[idx :=
                    (bra_funcCalls a ! idx)\<lparr>bfc_Args := bfc_Args (bra_funcCalls a ! idx) @ re_Delta event\<rparr>]\<rparr>)
         else a)
      else if t = ''response.reasoning_summary_text.delta'' \<or> t = ''response.reasoning_text.delta'' then
        (if re_Delta event \<noteq> '''' then a\<lparr>bra_reasoning := bra_reasoning a @ re_Delta event\<rparr> else a)
      else a)"

definition HasContent :: "BufferedResponseAccumulator \<Rightarrow> bool" where
  "HasContent a \<longleftrightarrow> bra_text a \<noteq> '''' \<or> bra_funcCalls a \<noteq> [] \<or> bra_reasoning a \<noteq> ''''"

definition BuildOutput :: "BufferedResponseAccumulator \<Rightarrow> ResponsesOutput list" where
  "BuildOutput a =
     (if bra_reasoning a \<noteq> '''' then
        [zero_ro\<lparr>ro_Type := ''reasoning'',
           ro_Summary := [\<lparr>rs_Type = ''summary_text'', rs_Text = bra_reasoning a\<rparr>]\<rparr>] else []) @
     (if bra_text a \<noteq> '''' then
        [zero_ro\<lparr>ro_Type := ''message'', ro_Role := ''assistant'',
           ro_Content := [\<lparr>rcp_Type = ''output_text'', rcp_Text = bra_text a, rcp_ImageURL = ''''\<rparr>]\<rparr>] else []) @
     map (\<lambda>c. zero_ro\<lparr>ro_Type := ''function_call'', ro_CallID := bfc_CallID c, ro_Name := bfc_Name c,
               ro_Arguments := bfc_Args c\<rparr>) (bra_funcCalls a)"

definition SupplementResponseOutput ::
  "BufferedResponseAccumulator \<Rightarrow> ResponsesResponse option \<Rightarrow> ResponsesResponse option" where
  "SupplementResponseOutput a resp =
     (case resp of
        None \<Rightarrow> None
      | Some r \<Rightarrow>
          if rr_Output r \<noteq> [] then Some r
          else if \<not> HasContent a then Some r
          else Some (r\<lparr>rr_Output := BuildOutput a\<rparr>))"

end
