(* ===== verification/Responses_To_Chat_Client.thy ===== *)
theory Responses_To_Chat_Client
  imports Responses_To_Chat
begin

text \<open>
  The Chat Completions stream against the buffered path: a client that accumulates the chunks of
  \<open>ResponsesEventToChatChunks\<close> holds at every point what \<open>BufferedResponseAccumulator\<close> has
  collected from the same events, and ends with the message and the finish reason that
  \<open>ResponsesToChatCompletions\<close> builds from it.
\<close>

section \<open>The accumulating client\<close>

record chat_client_state =
  chat_text :: string
  chat_reasoning :: string
  chat_calls :: "bufferedFuncCall list"
  chat_finishes :: "string list"

definition chat_start :: chat_client_state where
  "chat_start = \<lparr>chat_text = '''', chat_reasoning = '''', chat_calls = [], chat_finishes = []\<rparr>"

text \<open>
  A tool-call delta at the next index starts a call, one at an earlier index extends its
  arguments; any other index is an error of the stream.
\<close>

definition chat_tool_delta :: "bufferedFuncCall list \<Rightarrow> ChatToolCall \<Rightarrow> bufferedFuncCall list option" where
  "chat_tool_delta calls d =
     (case ctc_Index d of
        None \<Rightarrow> None
      | Some i \<Rightarrow>
          if i = int (length calls) then
            Some (calls @ [\<lparr>bfc_CallID = ctc_ID d, bfc_Name = cfc_Name (ctc_Function d),
                            bfc_Args = cfc_Arguments (ctc_Function d)\<rparr>])
          else if 0 \<le> i \<and> i < int (length calls) then
            Some (calls[nat i := (calls ! nat i)\<lparr>bfc_Args :=
              bfc_Args (calls ! nat i) @ cfc_Arguments (ctc_Function d)\<rparr>])
          else None)"

definition text_of :: "string option \<Rightarrow> string" where
  "text_of s = (case s of None \<Rightarrow> '''' | Some t \<Rightarrow> t)"

definition chat_choice :: "chat_client_state \<Rightarrow> ChatChunkChoice \<Rightarrow> chat_client_state option" where
  "chat_choice c ch =
     (let d = ccc_Delta ch in
      case accept chat_tool_delta (chat_calls c) (cd_ToolCalls d) of
        None \<Rightarrow> None
      | Some calls \<Rightarrow>
          Some (c\<lparr>chat_text := chat_text c @ text_of (cd_Content d),
             chat_reasoning := chat_reasoning c @ text_of (cd_ReasoningContent d),
             chat_calls := calls,
             chat_finishes := chat_finishes c @
               (case ccc_FinishReason ch of None \<Rightarrow> [] | Some r \<Rightarrow> [r])\<rparr>))"

definition chat_client :: "chat_client_state \<Rightarrow> ChatCompletionsChunk \<Rightarrow> chat_client_state option" where
  "chat_client c chunk = accept chat_choice c (cck_Choices chunk)"

section \<open>The buffered path beside the stream\<close>

text \<open>
  The accumulator and, for every terminal event, the finish reason the buffered conversion
  gives for its response.
\<close>

definition chat_terminal :: "ResponsesStreamEvent \<Rightarrow> bool" where
  "chat_terminal e \<longleftrightarrow> re_Type e \<in> {''response.completed'', ''response.done'', ''response.incomplete'',
     ''response.failed''}"

definition call_of :: "bufferedFuncCall \<Rightarrow> ChatToolCall" where
  "call_of c = \<lparr>ctc_Index = None, ctc_ID = bfc_CallID c, ctc_Type = ''function'',
     ctc_Function = \<lparr>cfc_Name = bfc_Name c, cfc_Arguments = bfc_Args c\<rparr>\<rparr>"

definition buffered_finish :: "BufferedResponseAccumulator \<Rightarrow> ResponsesStreamEvent \<Rightarrow> string" where
  "buffered_finish a e =
     (case re_Response e of
        None \<Rightarrow> if bra_funcCalls a \<noteq> [] then ''tool_calls'' else ''stop''
      | Some r \<Rightarrow> responsesStatusToChatFinishReason (rr_Status r) (rr_IncompleteDetails r)
                   (map call_of (bra_funcCalls a)))"

type_synonym buffered = "BufferedResponseAccumulator \<times> string list"

definition buffered_step :: "buffered \<Rightarrow> ResponsesStreamEvent \<Rightarrow> buffered option" where
  "buffered_step m e =
     Some (ProcessEvent (fst m) e, snd m @ (if chat_terminal e then [buffered_finish (fst m) e] else []))"

definition chat_view :: "buffered \<Rightarrow> ResponsesEventToChatState \<Rightarrow> chat_client_state" where
  "chat_view m st =
     \<lparr>chat_text = bra_text (fst m), chat_reasoning = bra_reasoning (fst m),
      chat_calls = bra_funcCalls (fst m), chat_finishes = snd m\<rparr>"

definition aligned :: "bufferedFuncCall list \<Rightarrow> (int, nat) gomap \<Rightarrow> (int, int) gomap \<Rightarrow> bool" where
  "aligned calls fm tm \<longleftrightarrow>
     (\<forall>k. gget tm k = map_option int (gget fm k)) \<and>
     (\<forall>k i. gget fm k = Some i \<longrightarrow> i < length calls)"

definition chat_sim :: "buffered \<Rightarrow> ResponsesEventToChatState \<Rightarrow> bool" where
  "chat_sim m st \<longleftrightarrow>
     r2c_NextToolCallIndex st = int (length (bra_funcCalls (fst m))) \<and>
     (r2c_SawToolCall st \<longleftrightarrow> bra_funcCalls (fst m) \<noteq> []) \<and>
     (r2c_Finalized st \<longleftrightarrow> snd m \<noteq> []) \<and>
     aligned (bra_funcCalls (fst m)) (bra_outputIndexToFuncIdx (fst m)) (r2c_OutputIndexToToolIndex st)"

lemma aligned_put:
  "aligned calls fm tm \<Longrightarrow>
     aligned (calls @ [c]) (gput fm k (length calls)) (gput tm k (int (length calls)))"
  by (auto simp: aligned_def gget_gput less_SucI)

lemma aligned_update [simp]: "aligned (calls[i := c]) fm tm = aligned calls fm tm"
  by (simp add: aligned_def)

lemma aligned_get:
  "aligned calls fm tm \<Longrightarrow> gget tm k = map_option int (gget fm k)"
  "aligned calls fm tm \<Longrightarrow> gget fm k = Some i \<Longrightarrow> i < length calls"
  by (auto simp: aligned_def)

lemma chat_client_delta [simp]:
  "chat_client c (makeChatDeltaChunk st d) =
     chat_choice c \<lparr>ccc_Index = 0, ccc_Delta = d, ccc_FinishReason = None\<rparr>"
  by (simp add: chat_client_def makeChatDeltaChunk_def split: option.split)

lemma chat_client_finish [simp]:
  "chat_client c (makeChatFinishChunk st r) = Some (c\<lparr>chat_finishes := chat_finishes c @ [r]\<rparr>)"
  by (simp add: chat_client_def makeChatFinishChunk_def chat_choice_def text_of_def zero_cd_def)

lemma chat_client_usage [simp]: "accept chat_client c (r2c_usageChunks st) = Some c"
  by (simp add: r2c_usageChunks_def chat_client_def)

definition chat_follows :: "buffered \<Rightarrow> ResponsesEventToChatState \<Rightarrow> buffered \<Rightarrow> r2c_result \<Rightarrow> bool" where
  "chat_follows m st m' r \<longleftrightarrow> chat_sim m' (fst r) \<and>
     accept chat_client (chat_view m st) (snd r) = Some (chat_view m' (fst r))"

lemmas chat_follows_defs = chat_follows_def chat_sim_def chat_view_def chat_choice_def text_of_def zero_cd_def

lemma created_follows:
  "chat_sim m st \<Longrightarrow> chat_follows m st m (resToChatHandleCreated e st)"
  by (simp add: resToChatHandleCreated_def Let_def chat_follows_defs split: option.split)

lemma text_follows:
  "chat_sim (a, fs) st \<Longrightarrow> re_Type e = ''response.output_text.delta'' \<Longrightarrow>
     chat_follows (a, fs) st (ProcessEvent a e, fs) (resToChatHandleTextDelta e st)"
  by (simp add: resToChatHandleTextDelta_def ProcessEvent_def Let_def chat_follows_defs)

lemma reasoning_follows:
  "chat_sim (a, fs) st \<Longrightarrow>
   re_Type e = ''response.reasoning_summary_text.delta'' \<or> re_Type e = ''response.reasoning_text.delta'' \<Longrightarrow>
     chat_follows (a, fs) st (ProcessEvent a e, fs) (resToChatHandleReasoningDelta e st)"
  by (auto simp: resToChatHandleReasoningDelta_def ProcessEvent_def Let_def chat_follows_defs)

lemma added_follows:
  assumes "chat_sim (a, fs) st" and "re_Type e = ''response.output_item.added''"
  shows "chat_follows (a, fs) st (ProcessEvent a e, fs) (resToChatHandleOutputItemAdded e st)"
proof (cases "\<exists>item. re_Item e = Some item \<and> (ro_Type item = ''function_call'' \<or> ro_Type item = ''custom_tool_call'')")
  case True
  then obtain item where i: "re_Item e = Some item" and
    t: "ro_Type item = ''function_call'' \<or> ro_Type item = ''custom_tool_call''" by blast
  then have nt: "\<not> (ro_Type item \<noteq> ''function_call'' \<and> ro_Type item \<noteq> ''custom_tool_call'')" by blast
  from assms show ?thesis
    by (simp only: resToChatHandleOutputItemAdded_def ProcessEvent_def i option.case t nt if_True if_False Let_def)
      (simp add: chat_follows_defs chat_tool_delta_def aligned_put)
next
  case False
  then have "ProcessEvent a e = a" and "resToChatHandleOutputItemAdded e st = (st, [])"
    using assms(2) by (auto simp: resToChatHandleOutputItemAdded_def ProcessEvent_def split: option.split)
  with assms show ?thesis by (simp add: chat_follows_def chat_view_def)
qed

lemma args_follows:
  assumes sim: "chat_sim (a, fs) st"
    and t: "re_Type e = ''response.function_call_arguments.delta'' \<or> re_Type e = ''response.custom_tool_call_input.delta''"
  shows "chat_follows (a, fs) st (ProcessEvent a e, fs) (resToChatHandleFuncArgsDelta e st)"
proof -
  have al: "aligned (bra_funcCalls a) (bra_outputIndexToFuncIdx a) (r2c_OutputIndexToToolIndex st)"
    using sim by (simp add: chat_sim_def)
  show ?thesis
  proof (cases "re_Delta e = '''' \<or> gget (bra_outputIndexToFuncIdx a) (re_OutputIndex e) = None")
    case True
    then have "ProcessEvent a e = a" and "resToChatHandleFuncArgsDelta e st = (st, [])"
      using t aligned_get(1) [OF al, of "re_OutputIndex e"]
      by (auto simp: ProcessEvent_def resToChatHandleFuncArgsDelta_def)
    with sim show ?thesis by (simp add: chat_follows_def chat_view_def)
  next
    case False
    then obtain i where ne: "re_Delta e \<noteq> ''''" and i: "gget (bra_outputIndexToFuncIdx a) (re_OutputIndex e) = Some i"
      by auto
    have "i < length (bra_funcCalls a)" by (rule aligned_get(2) [OF al i])
    moreover have "gget (r2c_OutputIndexToToolIndex st) (re_OutputIndex e) = Some (int i)"
      using aligned_get(1) [OF al] i by simp
    moreover have "ProcessEvent a e = a\<lparr>bra_funcCalls := (bra_funcCalls a)[i :=
        (bra_funcCalls a ! i)\<lparr>bfc_Args := bfc_Args (bra_funcCalls a ! i) @ re_Delta e\<rparr>]\<rparr>"
      using t ne i by (auto simp: ProcessEvent_def)
    ultimately show ?thesis
      using sim ne by (simp add: resToChatHandleFuncArgsDelta_def chat_follows_defs chat_tool_delta_def)
  qed
qed

lemma completed_follows:
  assumes "chat_sim (a, fs) st"
  shows "chat_follows (a, fs) st (a, fs @ [buffered_finish a e]) (resToChatHandleCompleted e st)"
  using assms
  by (cases "bra_funcCalls a = []") (simp_all add: resToChatHandleCompleted_def Let_def
      chat_follows_defs buffered_finish_def responsesStatusToChatFinishReason_def split: option.split)

lemma buffered_step_pair:
  "buffered_step (a, fs) e =
     Some (ProcessEvent a e, fs @ (if chat_terminal e then [buffered_finish a e] else []))"
  by (simp add: buffered_step_def)

lemma chat_step_follows:
  assumes sim: "chat_sim m st" and up: "buffered_step m e = Some m'"
  shows "chat_follows m st m' (ResponsesEventToChatChunks st e)"
proof -
  obtain a fs where m: "m = (a, fs)" by (cases m)
  with up have m': "m' = (ProcessEvent a e, fs @ (if chat_terminal e then [buffered_finish a e] else []))"
    by (auto simp: buffered_step_pair)
  note sim = sim [unfolded m]
  consider (created) "re_Type e = ''response.created''"
    | (content) "re_Type e = ''response.output_text.delta''"
    | (added) "re_Type e = ''response.output_item.added''"
    | (args) "re_Type e = ''response.function_call_arguments.delta'' \<or> re_Type e = ''response.custom_tool_call_input.delta''"
    | (reasoning) "re_Type e = ''response.reasoning_summary_text.delta'' \<or> re_Type e = ''response.reasoning_text.delta''"
    | (terminal) "chat_terminal e"
    | (other) "re_Type e \<noteq> ''response.created''" "re_Type e \<noteq> ''response.output_text.delta''"
        "re_Type e \<noteq> ''response.output_item.added''"
        "\<not> (re_Type e = ''response.function_call_arguments.delta'' \<or> re_Type e = ''response.custom_tool_call_input.delta'')"
        "\<not> (re_Type e = ''response.reasoning_summary_text.delta'' \<or> re_Type e = ''response.reasoning_text.delta'')"
        "\<not> chat_terminal e"
    by blast
  then show ?thesis
  proof cases
    case created
    then have "ProcessEvent a e = a" and "\<not> chat_terminal e"
      and "ResponsesEventToChatChunks st e = resToChatHandleCreated e st"
      by (simp_all add: ProcessEvent_def chat_terminal_def ResponsesEventToChatChunks_def)
    with sim m m' show ?thesis by (simp add: created_follows)
  next
    case content
    then have "\<not> chat_terminal e" and "ResponsesEventToChatChunks st e = resToChatHandleTextDelta e st"
      by (simp_all add: chat_terminal_def ResponsesEventToChatChunks_def)
    with sim content m m' show ?thesis by (simp add: text_follows)
  next
    case added
    then have "\<not> chat_terminal e" and "ResponsesEventToChatChunks st e = resToChatHandleOutputItemAdded e st"
      by (simp_all add: chat_terminal_def ResponsesEventToChatChunks_def)
    with sim added m m' show ?thesis by (simp add: added_follows)
  next
    case args
    then have "\<not> chat_terminal e" and "ResponsesEventToChatChunks st e = resToChatHandleFuncArgsDelta e st"
      by (auto simp: chat_terminal_def ResponsesEventToChatChunks_def)
    with sim args_follows [OF sim args] m m' show ?thesis by simp
  next
    case reasoning
    then have "\<not> chat_terminal e" and "ResponsesEventToChatChunks st e = resToChatHandleReasoningDelta e st"
      by (auto simp: chat_terminal_def ResponsesEventToChatChunks_def)
    with sim reasoning_follows [OF sim reasoning] m m' show ?thesis by simp
  next
    case terminal
    then have "ProcessEvent a e = a" and "ResponsesEventToChatChunks st e = resToChatHandleCompleted e st"
      by (auto simp: chat_terminal_def ResponsesEventToChatChunks_def ProcessEvent_def)
    with sim terminal m m' show ?thesis by (simp add: completed_follows)
  next
    case other
    then have "ProcessEvent a e = a" and "ResponsesEventToChatChunks st e = (st, [])"
      by (simp_all add: chat_terminal_def ResponsesEventToChatChunks_def ProcessEvent_def Let_def)
    with sim other(6) m m' show ?thesis by (simp add: chat_follows_def chat_view_def)
  qed
qed

interpretation r2c: stream_protocol ResponsesEventToChatChunks buffered_step chat_client chat_view chat_sim
  using chat_step_follows by unfold_locales (auto simp: chat_follows_def)

text \<open>The buffered path over a stream.\<close>

lemma buffered_run:
  "\<exists>fs'. accept buffered_step (a, fs) es = Some (foldl ProcessEvent a es, fs @ fs') \<and>
     length fs' = length (filter chat_terminal es)"
proof (induction es arbitrary: a fs)
  case Nil
  then show ?case by simp
next
  case (Cons e es)
  let ?f = "if chat_terminal e then [buffered_finish a e] else []"
  from Cons.IH [of "ProcessEvent a e" "fs @ ?f"] obtain fs' where
    "accept buffered_step (ProcessEvent a e, fs @ ?f) es =
       Some (foldl ProcessEvent (ProcessEvent a e) es, (fs @ ?f) @ fs')"
    and "length fs' = length (filter chat_terminal es)" by blast
  then show ?case by (intro exI [of _ "?f @ fs'"]) (simp add: buffered_step_pair)
qed

definition chat_message :: "json_lib \<Rightarrow> chat_client_state \<Rightarrow> ChatMessage" where
  "chat_message J c =
     zero_cm\<lparr>cm_Role := ''assistant'', cm_ToolCalls := map call_of (chat_calls c),
       cm_Content := (if chat_text c = '''' then '''' else js_encode_string J (chat_text c)),
       cm_ReasoningContent := chat_reasoning c\<rparr>"

lemma build_output_calls:
  "foldl r2c_item (t, r, cs) (map (\<lambda>c. zero_ro\<lparr>ro_Type := ''function_call'', ro_CallID := bfc_CallID c,
      ro_Name := bfc_Name c, ro_Arguments := bfc_Args c\<rparr>) bs) = (t, r, cs @ map call_of bs)"
  by (induction bs arbitrary: cs) (simp_all add: r2c_item_def call_of_def zero_ctc_def)

lemma r2c_item_reasoning:
  "s \<noteq> '''' \<Longrightarrow> r2c_item (t, r, cs) (zero_ro\<lparr>ro_Type := ''reasoning'',
     ro_Summary := [\<lparr>rs_Type = ''summary_text'', rs_Text = s\<rparr>]\<rparr>) = (t, r @ s, cs)"
  by (simp add: r2c_item_def)

lemma r2c_item_message:
  "s \<noteq> '''' \<Longrightarrow> r2c_item (t, r, cs) (zero_ro\<lparr>ro_Type := ''message'', ro_Role := ''assistant'',
     ro_Content := [\<lparr>rcp_Type = ''output_text'', rcp_Text = s, rcp_ImageURL = ''''\<rparr>]\<rparr>) = (t @ s, r, cs)"
  by (simp add: r2c_item_def)

lemma build_output_items:
  "foldl r2c_item ('''', '''', []) (BuildOutput a) =
     (bra_text a, bra_reasoning a, map call_of (bra_funcCalls a))"
  by (simp add: BuildOutput_def r2c_item_reasoning r2c_item_message build_output_calls)

lemma buffered_message:
  assumes "rr_Output r = BuildOutput a"
  shows "ccr_Choices (ResponsesToChatCompletions J drawn now r model) =
    [\<lparr>cc_Index = 0, cc_Message = chat_message J (chat_view (a, fs) st),
      cc_FinishReason = responsesStatusToChatFinishReason (rr_Status r) (rr_IncompleteDetails r)
        (map call_of (bra_funcCalls a))\<rparr>]"
  by (cases "bra_funcCalls a = []")
    (simp_all add: ResponsesToChatCompletions_def assms build_output_items chat_message_def
      chat_view_def zero_cm_def Let_def)

lemma supplement_output:
  assumes "rr_Output r = []"
  shows "\<exists>r'. SupplementResponseOutput a (Some r) = Some r' \<and> rr_Output r' = BuildOutput a \<and>
    rr_Status r' = rr_Status r \<and> rr_IncompleteDetails r' = rr_IncompleteDetails r \<and> rr_Usage r' = rr_Usage r"
  using assms by (auto simp: SupplementResponseOutput_def HasContent_def BuildOutput_def)

lemma new_chat_sim:
  "chat_sim (NewBufferedResponseAccumulator, []) (NewResponsesEventToChatState drawn now\<lparr>r2c_IncludeUsage := b\<rparr>)"
  "chat_view (NewBufferedResponseAccumulator, []) st = chat_start"
  by (simp_all add: chat_sim_def NewBufferedResponseAccumulator_def NewResponsesEventToChatState_def
      aligned_def gm.get_empty chat_view_def chat_start_def)

section \<open>Properties\<close>

text \<open>
  C13. Streaming and buffering give the same answer for streams with one terminal event, which comes last
  and whose response is present and has no output of its own: the client that accumulates the chunks ends
  with the message and the finish reason that \<open>ResponsesToChatCompletions\<close> builds from the response
  completed by the accumulator. With two terminal events the client gets two finish reasons, see
  \<open>two_terminals_two_finish_chunks\<close>.
\<close>

theorem chat_stream_eq_buffered:
  assumes "\<forall>e \<in> set es. \<not> chat_terminal e" and "chat_terminal t"
    and "re_Response t = Some r" and "rr_Output r = []"
    and "SupplementResponseOutput (foldl ProcessEvent NewBufferedResponseAccumulator (es @ [t])) (Some r) = Some r'"
  shows "\<exists>c reason. accept chat_client chat_start (snd (run_stream ResponsesEventToChatChunks
               (NewResponsesEventToChatState drawn now\<lparr>r2c_IncludeUsage := b\<rparr>) (es @ [t]))) = Some c \<and>
             ccr_Choices (ResponsesToChatCompletions J drawn now r' model) =
               [\<lparr>cc_Index = 0, cc_Message = chat_message J c, cc_FinishReason = reason\<rparr>] \<and>
             chat_finishes c = [reason]"
proof -
  let ?a = "foldl ProcessEvent NewBufferedResponseAccumulator es"
  let ?st = "NewResponsesEventToChatState drawn now\<lparr>r2c_IncludeUsage := b\<rparr>"
  have none: "filter chat_terminal es = []" using assms(1) by (simp add: filter_empty_conv)
  have fin: "ProcessEvent ?a t = ?a"
    using assms(2) by (auto simp: chat_terminal_def ProcessEvent_def)
  from buffered_run [of NewBufferedResponseAccumulator "[]" es] none
  have "accept buffered_step (NewBufferedResponseAccumulator, []) (es @ [t]) =
      Some (?a, [buffered_finish ?a t])"
    using assms(2) fin by (auto simp: accept_append buffered_step_pair)
  from r2c.run_accept [OF new_chat_sim(1) this]
  have run: "accept chat_client chat_start (snd (run_stream ResponsesEventToChatChunks ?st (es @ [t]))) =
      Some (chat_view (?a, [buffered_finish ?a t]) (fst (run_stream ResponsesEventToChatChunks ?st (es @ [t]))))"
    by (simp only: new_chat_sim(2))
  from supplement_output [OF assms(4), of ?a] assms(5) fin
  have r': "rr_Output r' = BuildOutput ?a" "rr_Status r' = rr_Status r"
    "rr_IncompleteDetails r' = rr_IncompleteDetails r" by auto
  show ?thesis
    using run buffered_message [OF r'(1), where J = J and drawn = drawn and now = now and model = model
        and fs = "[buffered_finish ?a t]" and st = "fst (run_stream ResponsesEventToChatChunks ?st (es @ [t]))"]
      assms(3) r'(2,3)
    by (intro exI [of _ "chat_view (?a, [buffered_finish ?a t])
          (fst (run_stream ResponsesEventToChatChunks ?st (es @ [t])))"])
      (auto simp: buffered_finish_def chat_view_def)
qed

text \<open>
  The number of finish chunks: over any sequence of events the client is sent one finish
  chunk for every terminal event, or exactly one from the finalisation when there was none, and
  finalising again emits nothing.
\<close>

theorem chat_finish_chunks:
  "\<exists>c. accept chat_client chat_start
         (let (st, out) = run_stream ResponsesEventToChatChunks
                            (NewResponsesEventToChatState drawn now\<lparr>r2c_IncludeUsage := b\<rparr>) es;
              (st', out') = FinalizeResponsesChatStream st
          in out @ out' @ snd (FinalizeResponsesChatStream st')) = Some c \<and>
       length (chat_finishes c) = max 1 (length (filter chat_terminal es))"
proof -
  let ?st = "NewResponsesEventToChatState drawn now\<lparr>r2c_IncludeUsage := b\<rparr>"
  let ?r = "run_stream ResponsesEventToChatChunks ?st es"
  from buffered_run [of NewBufferedResponseAccumulator "[]" es] obtain a fs where
    up: "accept buffered_step (NewBufferedResponseAccumulator, []) es = Some (a, fs)"
    and len: "length fs = length (filter chat_terminal es)" by auto
  have acc: "accept chat_client chat_start (snd ?r) = Some (chat_view (a, fs) (fst ?r))"
    using r2c.run_accept [OF new_chat_sim(1) up] by (simp only: new_chat_sim(2))
  have fin: "r2c_Finalized (fst ?r) \<longleftrightarrow> fs \<noteq> []"
    using r2c.run_inv [OF new_chat_sim(1) up] by (simp add: chat_sim_def)
  have last: "snd (FinalizeResponsesChatStream (fst (FinalizeResponsesChatStream (fst ?r)))) = []"
    by (simp add: FinalizeResponsesChatStream_def Let_def)
  show ?thesis
  proof (cases "fs = []")
    case True
    with acc fin len last show ?thesis
      by (simp add: case_prod_beta accept_append_Some)
        (simp add: FinalizeResponsesChatStream_def Let_def chat_view_def)
  next
    case False
    then have "1 \<le> length fs" by (cases fs) simp_all
    with False acc fin len last show ?thesis
      by (simp add: case_prod_beta accept_append_Some)
        (simp add: FinalizeResponsesChatStream_def chat_view_def)
  qed
qed

definition detail :: "(ChatTokenDetails \<Rightarrow> int) \<Rightarrow> ChatTokenDetails option \<Rightarrow> int" where
  "detail f d = (case d of None \<Rightarrow> 0 | Some x \<Rightarrow> f x)"

definition source_detail :: "(ResponsesInputTokensDetails \<Rightarrow> int) \<Rightarrow> ResponsesUsage \<Rightarrow> int" where
  "source_detail f u = (case ru_InputTokensDetails u of None \<Rightarrow> 0 | Some x \<Rightarrow> f x)"

text \<open>
  The Chat usage keeps every count of the Responses usage: prompt and completion tokens,
  the total, cached tokens and cache writes; a cache-creation count given only at the top level
  is reported in the prompt details, and never on top of a count that is already there.
\<close>

theorem chat_usage_complete:
  "\<exists>c. chatUsageFromResponsesUsage (Some u) = Some c \<and>
     cu_PromptTokens c = ru_InputTokens u \<and> cu_CompletionTokens c = ru_OutputTokens u \<and>
     cu_TotalTokens c = i64 (ru_InputTokens u + ru_OutputTokens u) \<and>
     detail ctd_CachedTokens (cu_PromptTokensDetails c) = source_detail ritd_CachedTokens u \<and>
     detail ctd_AudioTokens (cu_PromptTokensDetails c) = source_detail ritd_AudioTokens u \<and>
     detail ctd_CacheWriteTokens (cu_PromptTokensDetails c) = source_detail ritd_CacheWriteTokens u \<and>
     detail ctd_CacheCreationTokens (cu_PromptTokensDetails c) =
       (if 0 < ru_CacheCreationInputTokens u \<and> source_detail ritd_CacheWriteTokens u = 0 \<and>
           source_detail ritd_CacheCreationTokens u = 0
        then ru_CacheCreationInputTokens u else source_detail ritd_CacheCreationTokens u)"
  by (cases "ru_InputTokensDetails u")
    (simp_all add: chatUsageFromResponsesUsage_def promptDetailsFromResponses_def detail_def
      source_detail_def zero_ctd_def Let_def)

section \<open>An instance\<close>

definition chat_sample :: "ResponsesStreamEvent list" where
  "chat_sample =
     [zero_re\<lparr>re_Type := ''response.created''\<rparr>,
      zero_re\<lparr>re_Type := ''response.output_text.delta'', re_Delta := ''ok''\<rparr>,
      zero_re\<lparr>re_Type := ''response.output_item.added'', re_OutputIndex := 3,
        re_Item := Some (zero_ro\<lparr>ro_Type := ''function_call'', ro_CallID := ''c1'', ro_Name := ''ls''\<rparr>)\<rparr>,
      zero_re\<lparr>re_Type := ''response.function_call_arguments.delta'', re_OutputIndex := 3, re_Delta := ''{''\<rparr>,
      zero_re\<lparr>re_Type := ''response.function_call_arguments.delta'', re_OutputIndex := 3, re_Delta := ''}''\<rparr>]"

definition chat_sample_response :: ResponsesResponse where
  "chat_sample_response = \<lparr>rr_ID = ''r1'', rr_Object = ''response'', rr_Model = ''m'',
     rr_Status = ''completed'', rr_Output = [], rr_Usage = None, rr_IncompleteDetails = None, rr_Error = None\<rparr>"

definition chat_sample_end :: ResponsesStreamEvent where
  "chat_sample_end = zero_re\<lparr>re_Type := ''response.completed'', re_Response := Some chat_sample_response\<rparr>"

definition chat_sample_output :: "ResponsesOutput list" where
  "chat_sample_output =
     [zero_ro\<lparr>ro_Type := ''message'', ro_Role := ''assistant'',
        ro_Content := [\<lparr>rcp_Type = ''output_text'', rcp_Text = ''ok'', rcp_ImageURL = ''''\<rparr>]\<rparr>,
      zero_ro\<lparr>ro_Type := ''function_call'', ro_CallID := ''c1'', ro_Name := ''ls'', ro_Arguments := ''{}''\<rparr>]"

lemma chat_sample_supplement:
  "SupplementResponseOutput (foldl ProcessEvent NewBufferedResponseAccumulator (chat_sample @ [chat_sample_end]))
     (Some chat_sample_response) = Some (chat_sample_response\<lparr>rr_Output := chat_sample_output\<rparr>)"
  by code_simp

theorem chat_stream_eq_buffered_witness:
  "\<exists>c reason. accept chat_client chat_start (snd (run_stream ResponsesEventToChatChunks
       (NewResponsesEventToChatState ''00'' 0\<lparr>r2c_IncludeUsage := True\<rparr>) (chat_sample @ [chat_sample_end]))) = Some c \<and>
     ccr_Choices (ResponsesToChatCompletions sample_json ''00'' 0 (chat_sample_response\<lparr>rr_Output := chat_sample_output\<rparr>) ''m'') =
       [\<lparr>cc_Index = 0, cc_Message = chat_message sample_json c, cc_FinishReason = reason\<rparr>] \<and>
     chat_finishes c = [reason]"
proof (rule chat_stream_eq_buffered)
  show "\<forall>e \<in> set chat_sample. \<not> chat_terminal e"
    by (simp add: chat_sample_def chat_terminal_def zero_re_def)
  show "chat_terminal chat_sample_end" and "re_Response chat_sample_end = Some chat_sample_response"
    by (simp_all add: chat_sample_end_def chat_terminal_def zero_re_def)
  show "rr_Output chat_sample_response = []" by (simp add: chat_sample_response_def)
qed (rule chat_sample_supplement)

text \<open>
  Two terminal events, \<open>response.completed\<close> and its alias \<open>response.done\<close>, give two finish
  chunks.
\<close>

lemma two_terminals_two_finish_chunks:
  "(case accept chat_client chat_start (snd (run_stream ResponsesEventToChatChunks
      (NewResponsesEventToChatState ''00'' 0)
      [zero_re\<lparr>re_Type := ''response.completed''\<rparr>, zero_re\<lparr>re_Type := ''response.done''\<rparr>])) of
      None \<Rightarrow> [] | Some c \<Rightarrow> chat_finishes c) = [''stop'', ''stop'']"
  by code_simp

end
