(* ===== verification/Idempotency_Store.thy ===== *)
theory Idempotency_Store
  imports Prelude
begin

text \<open>
  backend/internal/repository/idempotency_repo.go: the table idempotency_records and the SQL
  statements on it. A statement is atomic; the failure of one is the business of the caller
  (\<open>Idempotency_Coordinator\<close>). The laws of the repository that the coordinator relies on are
  the locale \<open>claim_store\<close>. The server's NOW() is an argument; times keep their nanoseconds
  (PostgreSQL rounds them to microseconds).
\<close>

section \<open>Records and the table\<close>

record IdempotencyRecord =
  ir_ID :: int
  ir_Scope :: string
  ir_IdempotencyKeyHash :: string
  ir_RequestFingerprint :: string
  ir_Status :: string
  ir_ResponseStatus :: "int option"
  ir_ResponseBody :: "string option"
  ir_ErrorReason :: "string option"
  ir_LockedUntil :: "time option"
  ir_ExpiresAt :: time
  ir_CreatedAt :: time
  ir_UpdatedAt :: time

definition IdempotencyStatusProcessing :: string where
  "IdempotencyStatusProcessing = ''processing''"

definition IdempotencyStatusSucceeded :: string where
  "IdempotencyStatusSucceeded = ''succeeded''"

definition IdempotencyStatusFailedRetryable :: string where
  "IdempotencyStatusFailedRetryable = ''failed_retryable''"

lemmas idem_status_defs = IdempotencyStatusProcessing_def IdempotencyStatusSucceeded_def
  IdempotencyStatusFailedRetryable_def

text \<open>The rows in the order of insertion and the next value of the id sequence.\<close>

record idem_table =
  it_rows :: "IdempotencyRecord list"
  it_next :: int

definition idem_key :: "IdempotencyRecord \<Rightarrow> string \<times> string" where
  "idem_key r = (ir_Scope r, ir_IdempotencyKeyHash r)"

section \<open>The statements\<close>

text \<open>
  INSERT ... ON CONFLICT (scope, idempotency_key_hash) DO NOTHING: the sequence advances in
  either case; the inserted record, or nothing on a conflict.
\<close>

definition CreateProcessing ::
  "time \<Rightarrow> IdempotencyRecord \<Rightarrow> idem_table \<Rightarrow> idem_table \<times> IdempotencyRecord option" where
  "CreateProcessing dbnow r t =
     (let r' = \<lparr>ir_ID = it_next t, ir_Scope = ir_Scope r, ir_IdempotencyKeyHash = ir_IdempotencyKeyHash r,
                ir_RequestFingerprint = ir_RequestFingerprint r, ir_Status = ir_Status r,
                ir_ResponseStatus = None, ir_ResponseBody = None, ir_ErrorReason = None,
                ir_LockedUntil = ir_LockedUntil r, ir_ExpiresAt = ir_ExpiresAt r,
                ir_CreatedAt = dbnow, ir_UpdatedAt = dbnow\<rparr>;
          t' = t\<lparr>it_next := it_next t + 1\<rparr>
      in if list_ex (\<lambda>x. idem_key x = idem_key r) (it_rows t) then (t', None)
         else (t'\<lparr>it_rows := it_rows t @ [r']\<rparr>, Some r'))"

definition GetByScopeAndKeyHash :: "string \<Rightarrow> string \<Rightarrow> idem_table \<Rightarrow> IdempotencyRecord option" where
  "GetByScopeAndKeyHash scope keyHash t = find (\<lambda>x. idem_key x = (scope, keyHash)) (it_rows t)"

text \<open>UPDATE ... WHERE: the matching rows are changed, their number is returned.\<close>

definition sql_update ::
  "(IdempotencyRecord \<Rightarrow> bool) \<Rightarrow> (IdempotencyRecord \<Rightarrow> IdempotencyRecord) \<Rightarrow> idem_table \<Rightarrow>
   idem_table \<times> nat" where
  "sql_update cond upd t =
     (t\<lparr>it_rows := map (\<lambda>x. if cond x then upd x else x) (it_rows t)\<rparr>,
      length (filter cond (it_rows t)))"

definition TryReclaim ::
  "time \<Rightarrow> int \<Rightarrow> string \<Rightarrow> time \<Rightarrow> time \<Rightarrow> time \<Rightarrow> idem_table \<Rightarrow> idem_table \<times> bool" where
  "TryReclaim dbnow rid fromStatus now newLockedUntil newExpiresAt t =
     (let (t', affected) = sql_update
        (\<lambda>x. ir_ID x = rid \<and> ir_Status x = fromStatus \<and>
             (case ir_LockedUntil x of None \<Rightarrow> True | Some l \<Rightarrow> l \<le> now))
        (\<lambda>x. x\<lparr>ir_Status := IdempotencyStatusProcessing, ir_LockedUntil := Some newLockedUntil,
               ir_ErrorReason := None, ir_UpdatedAt := dbnow, ir_ExpiresAt := newExpiresAt\<rparr>) t
      in (t', 0 < affected))"

definition ExtendProcessingLock ::
  "time \<Rightarrow> int \<Rightarrow> string \<Rightarrow> time \<Rightarrow> time \<Rightarrow> idem_table \<Rightarrow> idem_table \<times> bool" where
  "ExtendProcessingLock dbnow rid requestFingerprint newLockedUntil newExpiresAt t =
     (let (t', affected) = sql_update
        (\<lambda>x. ir_ID x = rid \<and> ir_Status x = IdempotencyStatusProcessing \<and>
             ir_RequestFingerprint x = requestFingerprint)
        (\<lambda>x. x\<lparr>ir_LockedUntil := Some newLockedUntil, ir_ExpiresAt := newExpiresAt,
               ir_UpdatedAt := dbnow\<rparr>) t
      in (t', 0 < affected))"

definition MarkSucceeded ::
  "time \<Rightarrow> int \<Rightarrow> int \<Rightarrow> string \<Rightarrow> time \<Rightarrow> idem_table \<Rightarrow> idem_table" where
  "MarkSucceeded dbnow rid responseStatus responseBody expiresAt t =
     fst (sql_update (\<lambda>x. ir_ID x = rid)
       (\<lambda>x. x\<lparr>ir_Status := IdempotencyStatusSucceeded, ir_ResponseStatus := Some responseStatus,
              ir_ResponseBody := Some responseBody, ir_ErrorReason := None, ir_LockedUntil := None,
              ir_ExpiresAt := expiresAt, ir_UpdatedAt := dbnow\<rparr>) t)"

definition MarkFailedRetryable ::
  "time \<Rightarrow> int \<Rightarrow> string \<Rightarrow> time \<Rightarrow> time \<Rightarrow> idem_table \<Rightarrow> idem_table" where
  "MarkFailedRetryable dbnow rid errorReason lockedUntil expiresAt t =
     fst (sql_update (\<lambda>x. ir_ID x = rid)
       (\<lambda>x. x\<lparr>ir_Status := IdempotencyStatusFailedRetryable, ir_ErrorReason := Some errorReason,
              ir_LockedUntil := Some lockedUntil, ir_ExpiresAt := expiresAt, ir_UpdatedAt := dbnow\<rparr>) t)"

text \<open>
  DELETE of at most \<open>limit\<close> expired rows, the earliest first; among equal times the older
  row goes first here (SQL leaves it open).
\<close>

definition DeleteExpired :: "time \<Rightarrow> int \<Rightarrow> idem_table \<Rightarrow> idem_table \<times> nat" where
  "DeleteExpired now limit t =
     (let limit = (if limit \<le> 0 then 500 else limit);
          victims = map ir_ID (take (nat limit) (sort_key ir_ExpiresAt
                      (filter (\<lambda>x. ir_ExpiresAt x \<le> now) (it_rows t))))
      in (t\<lparr>it_rows := filter (\<lambda>x. ir_ID x \<notin> set victims) (it_rows t)\<rparr>,
          length (filter (\<lambda>x. ir_ID x \<in> set victims) (it_rows t))))"

section \<open>Well-formed tables\<close>

text \<open>The primary key, the unique index and the sequence.\<close>

definition table_ok :: "idem_table \<Rightarrow> bool" where
  "table_ok t \<longleftrightarrow> distinct (map ir_ID (it_rows t)) \<and> distinct (map idem_key (it_rows t)) \<and>
     (\<forall>r \<in> set (it_rows t). 0 < ir_ID r \<and> ir_ID r < it_next t) \<and> 0 < it_next t"

definition idem_row :: "idem_table \<Rightarrow> int \<Rightarrow> IdempotencyRecord option" where
  "idem_row t rid = find (\<lambda>x. ir_ID x = rid) (it_rows t)"

definition row_status :: "idem_table \<Rightarrow> int \<Rightarrow> string option" where
  "row_status t rid = map_option ir_Status (idem_row t rid)"

lemma find_distinct:
  "distinct (map f xs) \<Longrightarrow> x \<in> set xs \<Longrightarrow> f x = k \<Longrightarrow> find (\<lambda>y. f y = k) xs = Some x"
  by (induction xs) (auto simp: image_iff)

lemma find_in: "find P xs = Some x \<Longrightarrow> x \<in> set xs \<and> P x"
  by (auto simp: find_Some_iff)

lemma row_in: "idem_row t rid = Some r \<Longrightarrow> r \<in> set (it_rows t) \<and> ir_ID r = rid"
  unfolding idem_row_def by (drule find_in) auto

lemma in_row: "table_ok t \<Longrightarrow> r \<in> set (it_rows t) \<Longrightarrow> idem_row t (ir_ID r) = Some r"
  unfolding idem_row_def table_ok_def by (intro find_distinct) auto

lemma get_in: "GetByScopeAndKeyHash sc k t = Some r \<Longrightarrow> r \<in> set (it_rows t) \<and> idem_key r = (sc, k)"
  unfolding GetByScopeAndKeyHash_def by (drule find_in) auto

lemma in_get: "table_ok t \<Longrightarrow> r \<in> set (it_rows t) \<Longrightarrow>
    GetByScopeAndKeyHash (ir_Scope r) (ir_IdempotencyKeyHash r) t = Some r"
  unfolding GetByScopeAndKeyHash_def table_ok_def
  using find_distinct [of idem_key "it_rows t" r] by (simp add: idem_key_def)

text \<open>Updates that keep the id and the key.\<close>

definition keeps_keys :: "(IdempotencyRecord \<Rightarrow> IdempotencyRecord) \<Rightarrow> bool" where
  "keeps_keys upd \<longleftrightarrow> (\<forall>x. ir_ID (upd x) = ir_ID x \<and> idem_key (upd x) = idem_key x)"

lemma update_maps:
  "keeps_keys upd \<Longrightarrow> map ir_ID (it_rows (fst (sql_update c upd t))) = map ir_ID (it_rows t)"
  "keeps_keys upd \<Longrightarrow> map idem_key (it_rows (fst (sql_update c upd t))) = map idem_key (it_rows t)"
  "it_next (fst (sql_update c upd t)) = it_next t"
  by (simp_all add: sql_update_def keeps_keys_def)

lemma update_ok: "table_ok t \<Longrightarrow> keeps_keys upd \<Longrightarrow> table_ok (fst (sql_update c upd t))"
  unfolding table_ok_def update_maps by (auto simp: sql_update_def keeps_keys_def)

lemma update_row:
  assumes "keeps_keys upd"
  shows "idem_row (fst (sql_update c upd t)) rid =
    map_option (\<lambda>x. if c x then upd x else x) (idem_row t rid)"
proof -
  have "find (\<lambda>x. ir_ID x = rid) (map (\<lambda>x. if c x then upd x else x) xs) =
      map_option (\<lambda>x. if c x then upd x else x) (find (\<lambda>x. ir_ID x = rid) xs)" for xs
    using assms by (induction xs) (auto simp: keeps_keys_def)
  then show ?thesis by (simp add: idem_row_def sql_update_def)
qed

lemma update_count:
  assumes "table_ok t" and "\<And>x. c x \<Longrightarrow> ir_ID x = rid"
  shows "0 < snd (sql_update c upd t) \<longleftrightarrow> (\<exists>r. idem_row t rid = Some r \<and> c r)"
proof
  assume "0 < snd (sql_update c upd t)"
  then obtain r where "r \<in> set (it_rows t)" "c r"
    by (auto simp: sql_update_def length_greater_0_conv filter_empty_conv)
  with assms(2) in_row [OF assms(1)] show "\<exists>r. idem_row t rid = Some r \<and> c r" by fastforce
next
  assume "\<exists>r. idem_row t rid = Some r \<and> c r"
  then obtain r where "r \<in> set (it_rows t)" "c r" using row_in by blast
  then show "0 < snd (sql_update c upd t)"
    by (auto simp: sql_update_def length_greater_0_conv filter_empty_conv)
qed

section \<open>What the statements do\<close>

lemma create_conflict:
  "snd (CreateProcessing n r t) = None \<Longrightarrow> it_rows (fst (CreateProcessing n r t)) = it_rows t \<and>
     (\<exists>x \<in> set (it_rows t). idem_key x = idem_key r)"
  by (auto simp: CreateProcessing_def Let_def list_ex_iff split: if_splits)

lemma create_owner:
  assumes "snd (CreateProcessing n r t) = Some r'"
  shows "it_rows (fst (CreateProcessing n r t)) = it_rows t @ [r']" and "ir_ID r' = it_next t"
    and "idem_key r' = idem_key r" and "ir_Status r' = ir_Status r"
    and "ir_RequestFingerprint r' = ir_RequestFingerprint r" and "ir_ExpiresAt r' = ir_ExpiresAt r"
    and "\<forall>x \<in> set (it_rows t). idem_key x \<noteq> idem_key r"
  using assms by (auto simp: CreateProcessing_def Let_def list_ex_iff idem_key_def split: if_splits)

lemma create_next: "it_next (fst (CreateProcessing n r t)) = it_next t + 1"
  by (simp add: CreateProcessing_def Let_def)

lemma create_ok:
  assumes "table_ok t"
  shows "table_ok (fst (CreateProcessing n r t))"
proof (cases "snd (CreateProcessing n r t)")
  case None
  with create_conflict [OF None] assms show ?thesis
    by (auto simp: table_ok_def create_next)
next
  case (Some r')
  note c = create_owner [OF Some]
  have "ir_ID r' \<notin> set (map ir_ID (it_rows t))"
    using assms c(2) by (auto simp: table_ok_def)
  moreover have "idem_key r' \<notin> set (map idem_key (it_rows t))"
    using c(3,7) by auto
  ultimately show ?thesis
    using assms c(1,2) by (auto simp: table_ok_def create_next)
qed

lemma create_row:
  assumes "table_ok t" and "snd (CreateProcessing n r t) = Some r'"
  shows "idem_row t (ir_ID r') = None"
    and "idem_row (fst (CreateProcessing n r t)) i = (if i = ir_ID r' then Some r' else idem_row t i)"
proof -
  note c = create_owner [OF assms(2)]
  show new: "idem_row t (ir_ID r') = None"
    using assms(1) c(2) by (auto simp: idem_row_def find_None_iff table_ok_def)
  have "find P (xs @ ys) = (case find P xs of None \<Rightarrow> find P ys | Some x \<Rightarrow> Some x)" for P and xs ys :: "IdempotencyRecord list"
    by (induction xs) auto
  then show "idem_row (fst (CreateProcessing n r t)) i = (if i = ir_ID r' then Some r' else idem_row t i)"
    using new by (auto simp: idem_row_def c(1) split: option.split)
qed

lemma create_row_conflict:
  "snd (CreateProcessing n r t) = None \<Longrightarrow> idem_row (fst (CreateProcessing n r t)) = idem_row t"
  using create_conflict [of n r t] by (simp add: idem_row_def fun_eq_iff)

text \<open>The updates of a claim keep the ids and the keys.\<close>

definition reclaim_update :: "time \<Rightarrow> time \<Rightarrow> time \<Rightarrow> IdempotencyRecord \<Rightarrow> IdempotencyRecord" where
  "reclaim_update n l e x =
     x\<lparr>ir_Status := IdempotencyStatusProcessing, ir_LockedUntil := Some l, ir_ErrorReason := None,
       ir_UpdatedAt := n, ir_ExpiresAt := e\<rparr>"

definition reclaimable :: "int \<Rightarrow> string \<Rightarrow> time \<Rightarrow> IdempotencyRecord \<Rightarrow> bool" where
  "reclaimable rid fr now x \<longleftrightarrow> ir_ID x = rid \<and> ir_Status x = fr \<and>
     (case ir_LockedUntil x of None \<Rightarrow> True | Some l \<Rightarrow> l \<le> now)"

definition succeed_update :: "time \<Rightarrow> int \<Rightarrow> string \<Rightarrow> time \<Rightarrow> IdempotencyRecord \<Rightarrow> IdempotencyRecord" where
  "succeed_update n st body e x =
     x\<lparr>ir_Status := IdempotencyStatusSucceeded, ir_ResponseStatus := Some st, ir_ResponseBody := Some body,
       ir_ErrorReason := None, ir_LockedUntil := None, ir_ExpiresAt := e, ir_UpdatedAt := n\<rparr>"

definition fail_update :: "time \<Rightarrow> string \<Rightarrow> time \<Rightarrow> time \<Rightarrow> IdempotencyRecord \<Rightarrow> IdempotencyRecord" where
  "fail_update n reason l e x =
     x\<lparr>ir_Status := IdempotencyStatusFailedRetryable, ir_ErrorReason := Some reason,
       ir_LockedUntil := Some l, ir_ExpiresAt := e, ir_UpdatedAt := n\<rparr>"

lemmas claim_update_defs = reclaim_update_def succeed_update_def fail_update_def

lemma claim_updates_keep:
  "keeps_keys (reclaim_update n l e)" "keeps_keys (succeed_update n st body e)"
  "keeps_keys (fail_update n reason l e)"
  by (simp_all add: keeps_keys_def claim_update_defs idem_key_def)

lemma reclaim_sql:
  "TryReclaim n rid fr now l e t =
     (fst (sql_update (reclaimable rid fr now) (reclaim_update n l e) t),
      0 < snd (sql_update (reclaimable rid fr now) (reclaim_update n l e) t))"
  unfolding TryReclaim_def reclaimable_def [abs_def] reclaim_update_def [abs_def]
  by (simp add: case_prod_beta)

lemma succeed_sql:
  "MarkSucceeded n rid st body e t = fst (sql_update (\<lambda>x. ir_ID x = rid) (succeed_update n st body e) t)"
  by (simp add: MarkSucceeded_def succeed_update_def [abs_def])

lemma fail_sql:
  "MarkFailedRetryable n rid reason l e t = fst (sql_update (\<lambda>x. ir_ID x = rid) (fail_update n reason l e) t)"
  by (simp add: MarkFailedRetryable_def fail_update_def [abs_def])

lemma claim_statements_ok:
  "table_ok t \<Longrightarrow> table_ok (fst (TryReclaim n rid fr now l e t))"
  "table_ok t \<Longrightarrow> table_ok (MarkSucceeded n rid st body e t)"
  "table_ok t \<Longrightarrow> table_ok (MarkFailedRetryable n rid reason l e t)"
  by (simp_all add: reclaim_sql succeed_sql fail_sql update_ok claim_updates_keep)

lemma row_ID: "idem_row t i = Some r \<Longrightarrow> ir_ID r = i"
  using row_in by blast

lemma map_option_row:
  assumes "\<And>r. idem_row t i = Some r \<Longrightarrow> f r = g r"
  shows "map_option f (idem_row t i) = map_option g (idem_row t i)"
  using assms by (cases "idem_row t i") simp_all

lemma reclaim_row:
  "idem_row (fst (TryReclaim n rid fr now l e t)) i =
     map_option (\<lambda>x. if reclaimable rid fr now x then reclaim_update n l e x else x) (idem_row t i)"
  by (simp add: reclaim_sql update_row claim_updates_keep)

lemma reclaim_taken:
  "table_ok t \<Longrightarrow> snd (TryReclaim n rid fr now l e t) \<longleftrightarrow> (\<exists>r. idem_row t rid = Some r \<and> reclaimable rid fr now r)"
  by (simp add: reclaim_sql) (rule update_count, auto simp: reclaimable_def)

lemma reclaim_other: "i \<noteq> rid \<Longrightarrow> idem_row (fst (TryReclaim n rid fr now l e t)) i = idem_row t i"
  unfolding reclaim_row by (cases "idem_row t i") (auto dest: row_ID simp: reclaimable_def)

lemma reclaim_lost:
  assumes "table_ok t" and "\<not> snd (TryReclaim n rid fr now l e t)"
  shows "idem_row (fst (TryReclaim n rid fr now l e t)) i = idem_row t i"
proof (cases "idem_row t i")
  case None
  then show ?thesis by (simp add: reclaim_row)
next
  case (Some r)
  with assms reclaim_taken [OF assms(1)] row_ID [OF Some] have "\<not> reclaimable rid fr now r"
    by (auto simp: reclaimable_def)
  with Some show ?thesis by (simp add: reclaim_row)
qed

lemma succeed_row:
  "idem_row (MarkSucceeded n rid st body e t) i =
     (if i = rid then map_option (succeed_update n st body e) (idem_row t i) else idem_row t i)"
  by (cases "idem_row t i") (auto simp: succeed_sql update_row claim_updates_keep dest: row_ID)

lemma fail_row:
  "idem_row (MarkFailedRetryable n rid reason l e t) i =
     (if i = rid then map_option (fail_update n reason l e) (idem_row t i) else idem_row t i)"
  by (cases "idem_row t i") (auto simp: fail_sql update_row claim_updates_keep dest: row_ID)

section \<open>The interface of a claim store\<close>

text \<open>
  What the coordinator needs of the repository to run a request at most once at a time: a new
  claim is a busy record that did not exist, a reclaim turns a record that is not busy into a
  busy one, and finishing touches only the record it names. \<open>held s O\<close> says that the records
  of \<open>O\<close> are busy.
\<close>

locale claim_store =
  fixes ok :: "'s \<Rightarrow> bool"
    and status :: "'s \<Rightarrow> int \<Rightarrow> string option"
    and busy :: string
    and create :: "'r \<Rightarrow> 's \<Rightarrow> 's \<times> int option"
    and reclaim :: "'c \<Rightarrow> int \<Rightarrow> string \<Rightarrow> 's \<Rightarrow> 's \<times> bool"
    and finish :: "'f \<Rightarrow> int \<Rightarrow> 's \<Rightarrow> 's"
  assumes create_claims: "ok s \<Longrightarrow> snd (create r s) = Some i \<Longrightarrow>
      status s i = None \<and> status (fst (create r s)) = (status s)(i \<mapsto> busy)"
    and create_refuses: "ok s \<Longrightarrow> snd (create r s) = None \<Longrightarrow> status (fst (create r s)) = status s"
    and reclaim_claims: "ok s \<Longrightarrow> snd (reclaim c i fr s) \<Longrightarrow>
      status s i = Some fr \<and> status (fst (reclaim c i fr s)) = (status s)(i \<mapsto> busy)"
    and reclaim_refuses: "ok s \<Longrightarrow> \<not> snd (reclaim c i fr s) \<Longrightarrow>
      status (fst (reclaim c i fr s)) = status s"
    and finish_others: "ok s \<Longrightarrow> j \<noteq> i \<Longrightarrow> status (finish f i s) j = status s j"
begin

definition held :: "'s \<Rightarrow> int set \<Rightarrow> bool" where
  "held s ids \<longleftrightarrow> (\<forall>i \<in> ids. status s i = Some busy)"

lemma create_held:
  assumes "ok s" and "held s ids" and "snd (create r s) = Some i"
  shows "i \<notin> ids \<and> held (fst (create r s)) (insert i ids)"
  using create_claims [OF assms(1,3)] assms(2) by (auto simp: held_def)

lemma refused_held:
  "ok s \<Longrightarrow> held s ids \<Longrightarrow> snd (create r s) = None \<Longrightarrow> held (fst (create r s)) ids"
  by (simp add: held_def create_refuses)

lemma reclaim_held:
  assumes "ok s" and "held s ids" and "snd (reclaim c i fr s)" and "fr \<noteq> busy"
  shows "i \<notin> ids \<and> held (fst (reclaim c i fr s)) (insert i ids)"
  using reclaim_claims [OF assms(1,3)] assms(2,4) by (auto simp: held_def)

lemma reclaim_refused_held:
  "ok s \<Longrightarrow> held s ids \<Longrightarrow> \<not> snd (reclaim c i fr s) \<Longrightarrow> held (fst (reclaim c i fr s)) ids"
  by (simp add: held_def reclaim_refuses)

lemma finish_held: "ok s \<Longrightarrow> held s ids \<Longrightarrow> held (finish f i s) (ids - {i})"
  by (simp add: held_def finish_others)

end

definition create_claim :: "time \<times> IdempotencyRecord \<Rightarrow> idem_table \<Rightarrow> idem_table \<times> int option" where
  "create_claim p t =
     (let c = CreateProcessing (fst p) ((snd p)\<lparr>ir_Status := IdempotencyStatusProcessing\<rparr>) t
      in (fst c, map_option ir_ID (snd c)))"

definition reclaim_claim ::
  "time \<times> time \<times> time \<times> time \<Rightarrow> int \<Rightarrow> string \<Rightarrow> idem_table \<Rightarrow> idem_table \<times> bool" where
  "reclaim_claim c rid fr t = (case c of (n, now, l, e) \<Rightarrow> TryReclaim n rid fr now l e t)"

datatype claim_end =
    Succeeds time int string time
  | Fails time string time time

fun finish_claim :: "claim_end \<Rightarrow> int \<Rightarrow> idem_table \<Rightarrow> idem_table" where
  "finish_claim (Succeeds n st body e) rid t = MarkSucceeded n rid st body e t"
| "finish_claim (Fails n reason l e) rid t = MarkFailedRetryable n rid reason l e t"

interpretation claims: claim_store table_ok row_status IdempotencyStatusProcessing create_claim
  reclaim_claim finish_claim
proof unfold_locales
  fix s j i fr and r :: "time \<times> IdempotencyRecord" and c :: "time \<times> time \<times> time \<times> time" and f :: claim_end
  assume ok: "table_ok s"
  let ?r = "(snd r)\<lparr>ir_Status := IdempotencyStatusProcessing\<rparr>"
  show "row_status s i = None \<and> row_status (fst (create_claim r s)) =
      (row_status s)(i \<mapsto> IdempotencyStatusProcessing)" if "snd (create_claim r s) = Some i"
  proof -
    from that obtain r' where r': "snd (CreateProcessing (fst r) ?r s) = Some r'" "i = ir_ID r'"
      by (auto simp: create_claim_def Let_def)
    note c = create_row [OF ok r'(1)]
    have "ir_Status r' = IdempotencyStatusProcessing"
      using create_owner(4) [OF r'(1)] by simp
    with c r'(2) show ?thesis by (auto simp: row_status_def create_claim_def Let_def fun_eq_iff)
  qed
  show "row_status (fst (create_claim r s)) = row_status s" if "snd (create_claim r s) = None"
    using that create_row_conflict [of "fst r" ?r s]
    by (auto simp: row_status_def create_claim_def Let_def fun_eq_iff)
  obtain n now l e where c: "c = (n, now, l, e)" by (cases c) auto
  show "row_status s i = Some fr \<and> row_status (fst (reclaim_claim c i fr s)) =
      (row_status s)(i \<mapsto> IdempotencyStatusProcessing)" if "snd (reclaim_claim c i fr s)"
  proof -
    from that ok obtain r where r: "idem_row s i = Some r" "reclaimable i fr now r"
      by (auto simp: c reclaim_claim_def reclaim_taken)
    then have "row_status s i = Some fr" by (simp add: row_status_def reclaimable_def)
    moreover have "row_status (fst (reclaim_claim c i fr s)) i = Some IdempotencyStatusProcessing"
      using r by (simp add: c reclaim_claim_def row_status_def reclaim_row reclaim_update_def)
    moreover have "row_status (fst (reclaim_claim c i fr s)) j = row_status s j" if "j \<noteq> i" for j
      using that by (simp add: c reclaim_claim_def row_status_def reclaim_other)
    ultimately show ?thesis by (auto simp: fun_eq_iff)
  qed
  show "row_status (fst (reclaim_claim c i fr s)) = row_status s" if "\<not> snd (reclaim_claim c i fr s)"
    using that ok by (simp add: c reclaim_claim_def row_status_def reclaim_lost fun_eq_iff)
  show "row_status (finish_claim f i s) j = row_status s j" if "j \<noteq> i"
    using that by (cases f) (simp_all add: row_status_def succeed_row fail_row)
qed

section \<open>Expiry\<close>

definition idem_victims :: "time \<Rightarrow> int \<Rightarrow> idem_table \<Rightarrow> IdempotencyRecord list" where
  "idem_victims now limit t = take (nat (if limit \<le> 0 then 500 else limit))
     (sort_key ir_ExpiresAt (filter (\<lambda>x. ir_ExpiresAt x \<le> now) (it_rows t)))"

lemma delete_by_victims:
  "DeleteExpired now limit t =
     (t\<lparr>it_rows := filter (\<lambda>x. ir_ID x \<notin> ir_ID ` set (idem_victims now limit t)) (it_rows t)\<rparr>,
      length (filter (\<lambda>x. ir_ID x \<in> ir_ID ` set (idem_victims now limit t)) (it_rows t)))"
  by (simp only: DeleteExpired_def Let_def idem_victims_def set_map)

lemma victim_expired: "v \<in> set (idem_victims now limit t) \<Longrightarrow> v \<in> set (it_rows t) \<and> ir_ExpiresAt v \<le> now"
  unfolding idem_victims_def by (drule in_set_takeD) simp

lemma all_expired_victims:
  "length (idem_victims now limit t) < nat (if limit \<le> 0 then 500 else limit) \<Longrightarrow>
   r \<in> set (it_rows t) \<Longrightarrow> ir_ExpiresAt r \<le> now \<Longrightarrow> r \<in> set (idem_victims now limit t)"
  unfolding idem_victims_def by simp

lemma same_ID_same_row:
  "table_ok t \<Longrightarrow> x \<in> set (it_rows t) \<Longrightarrow> y \<in> set (it_rows t) \<Longrightarrow> ir_ID x = ir_ID y \<Longrightarrow> x = y"
  by (metis in_row option.inject)

lemma victims_distinct:
  assumes "table_ok t"
  shows "distinct (map ir_ID (idem_victims now limit t))"
proof -
  have "distinct (map ir_ID (filter (\<lambda>x. ir_ExpiresAt x \<le> now) (it_rows t)))"
    using assms by (simp add: table_ok_def distinct_map_filter)
  then have "distinct (map ir_ID (sort_key ir_ExpiresAt (filter (\<lambda>x. ir_ExpiresAt x \<le> now) (it_rows t))))"
    by (simp add: distinct_map)
  then show ?thesis unfolding idem_victims_def take_map [symmetric] by (rule distinct_take)
qed

lemma delete_keeps:
  assumes "table_ok t" and "r \<in> set (it_rows t)" and "now < ir_ExpiresAt r"
  shows "r \<in> set (it_rows (fst (DeleteExpired now limit t)))"
proof -
  have "ir_ID r \<notin> ir_ID ` set (idem_victims now limit t)"
  proof
    assume "ir_ID r \<in> ir_ID ` set (idem_victims now limit t)"
    then obtain v where "v \<in> set (idem_victims now limit t)" "ir_ID v = ir_ID r" by auto
    with victim_expired [of v now limit t] same_ID_same_row [OF assms(1), of v r] assms(2,3)
    show False by auto
  qed
  with assms(2) show ?thesis by (simp add: delete_by_victims)
qed

lemma delete_ok: "table_ok t \<Longrightarrow> table_ok (fst (DeleteExpired now limit t))"
  unfolding delete_by_victims by (simp add: table_ok_def distinct_map_filter)

lemma length_filter_keys:
  assumes "distinct (map f xs)" and "distinct (map f vs)" and "set vs \<subseteq> set xs"
  shows "length (filter (\<lambda>x. f x \<in> f ` set vs) xs) = length vs"
proof -
  let ?h = "filter (\<lambda>x. f x \<in> f ` set vs) xs"
  have "distinct (map f ?h)" using assms(1) by (rule distinct_map_filter)
  then have "length ?h = card (set (map f ?h))"
    using distinct_card by fastforce
  moreover have "set (map f ?h) = set (map f vs)" using assms(3) by auto
  moreover have "card (set (map f vs)) = length vs"
    using distinct_card [OF assms(2)] by simp
  ultimately show ?thesis by simp
qed

lemma delete_count:
  assumes "table_ok t"
  shows "snd (DeleteExpired now limit t) = length (idem_victims now limit t)"
    and "length (it_rows t) =
      length (it_rows (fst (DeleteExpired now limit t))) + length (idem_victims now limit t)"
proof -
  have "set (idem_victims now limit t) \<subseteq> set (it_rows t)" using victim_expired by blast
  with assms victims_distinct [OF assms] have hit:
    "length (filter (\<lambda>x. ir_ID x \<in> ir_ID ` set (idem_victims now limit t)) (it_rows t)) =
       length (idem_victims now limit t)"
    by (intro length_filter_keys) (simp_all add: table_ok_def)
  then show "snd (DeleteExpired now limit t) = length (idem_victims now limit t)"
    by (simp add: delete_by_victims)
  show "length (it_rows t) =
      length (it_rows (fst (DeleteExpired now limit t))) + length (idem_victims now limit t)"
    using hit sum_length_filter_compl [of "\<lambda>x. ir_ID x \<in> ir_ID ` set (idem_victims now limit t)" "it_rows t"]
    by (simp add: delete_by_victims)
qed

lemma delete_leaves:
  assumes "length (idem_victims now limit t) < nat (if limit \<le> 0 then 500 else limit)"
    and "r \<in> set (it_rows (fst (DeleteExpired now limit t)))"
  shows "now < ir_ExpiresAt r"
proof (rule ccontr)
  assume "\<not> now < ir_ExpiresAt r"
  moreover from assms(2) have "r \<in> set (it_rows t)" and "ir_ID r \<notin> ir_ID ` set (idem_victims now limit t)"
    by (simp_all add: delete_by_victims)
  ultimately show False using all_expired_victims [OF assms(1)] by auto
qed

text \<open>
  The clean-up deletes only expired records, keeps every other one, respects its batch
  size (500 when none is given) and, when it deletes fewer, leaves no expired record behind.
\<close>

theorem delete_expired_exact:
  assumes "table_ok t"
  shows "let (t', n) = DeleteExpired now limit t; k = nat (if limit \<le> 0 then 500 else limit)
    in table_ok t' \<and> set (it_rows t') \<subseteq> set (it_rows t) \<and>
       (\<forall>r \<in> set (it_rows t). now < ir_ExpiresAt r \<longrightarrow> r \<in> set (it_rows t')) \<and>
       length (it_rows t) = length (it_rows t') + n \<and> n \<le> k \<and>
       (n < k \<longrightarrow> (\<forall>r \<in> set (it_rows t'). now < ir_ExpiresAt r))"
proof -
  have "set (it_rows (fst (DeleteExpired now limit t))) \<subseteq> set (it_rows t)"
    by (auto simp: delete_by_victims)
  moreover have "length (idem_victims now limit t) \<le> nat (if limit \<le> 0 then 500 else limit)"
    by (simp add: idem_victims_def)
  ultimately show ?thesis
    using delete_ok [OF assms] delete_keeps [OF assms] delete_count [OF assms] delete_leaves
    unfolding case_prod_beta Let_def by metis
qed

definition sample_row :: "int \<Rightarrow> string \<Rightarrow> time \<Rightarrow> IdempotencyRecord" where
  "sample_row i k e = \<lparr>ir_ID = i, ir_Scope = ''s'', ir_IdempotencyKeyHash = k, ir_RequestFingerprint = ''f'',
     ir_Status = ''succeeded'', ir_ResponseStatus = None, ir_ResponseBody = None, ir_ErrorReason = None,
     ir_LockedUntil = None, ir_ExpiresAt = e, ir_CreatedAt = 0, ir_UpdatedAt = 0\<rparr>"

definition sample_table :: idem_table where
  "sample_table = \<lparr>it_rows = [sample_row 1 ''a'' 30, sample_row 2 ''b'' 10, sample_row 3 ''c'' 20], it_next = 4\<rparr>"

theorem delete_expired_exact_witness:
  "let (t', n) = DeleteExpired 25 1 sample_table
   in table_ok t' \<and> length (it_rows sample_table) = length (it_rows t') + n \<and> n \<le> 1"
  using delete_expired_exact [of sample_table 25 1]
  by (simp add: sample_table_def sample_row_def table_ok_def idem_key_def case_prod_beta Let_def)

end
