(* ===== verification/Interleaving.thy ===== *)
theory Interleaving
  imports Prelude
begin

text \<open>
  Several requests over one shared store, interleaved statement by statement: the faults a
  statement can have, the runs of a family of requests under a schedule, and the interface
  \<open>stable_steps\<close> of a step function whose requests only rely on facts that no other request
  can undo.
\<close>

section \<open>Faults\<close>

text \<open>
  A statement works, fails without effect, or takes effect although the caller sees an error
  (the connection broke after the commit).
\<close>

datatype fault = Works | FailsBefore | FailsAfter

definition took_effect :: "fault \<Rightarrow> 's \<Rightarrow> 's \<Rightarrow> 's" where
  "took_effect f t t' = (if f = FailsBefore then t else t')"

lemma took_effect_simps [simp]:
  "took_effect Works t t' = t'" "took_effect FailsBefore t t' = t" "took_effect FailsAfter t t' = t'"
  by (simp_all add: took_effect_def)

lemma took_effect_cases: "P t \<Longrightarrow> P t' \<Longrightarrow> P (took_effect f t t')"
  by (simp add: took_effect_def)

section \<open>Runs\<close>

text \<open>
  A schedule says which request moves next and what happens around its step. A request that
  is never scheduled has crashed or not started.
\<close>

fun interleave ::
  "('i \<Rightarrow> 'p \<Rightarrow> 's \<Rightarrow> 'p \<times> 's) \<Rightarrow> (nat \<times> 'i) list \<Rightarrow> (nat \<Rightarrow> 'p) \<times> 's \<Rightarrow> (nat \<Rightarrow> 'p) \<times> 's" where
  "interleave step [] c = c"
| "interleave step ((w, i) # sched) (ph, s) =
     (let (p', s') = step i (ph w) s in interleave step sched (ph(w := p'), s'))"

lemma interleave_append:
  "interleave step (xs @ ys) c = interleave step ys (interleave step xs c)"
  by (induction step xs c rule: interleave.induct) (simp_all add: case_prod_beta Let_def)

section \<open>Steps with stable facts\<close>

locale stable_steps =
  fixes step :: "'i \<Rightarrow> 'p \<Rightarrow> 's \<Rightarrow> 'p \<times> 's"
    and inv :: "'s \<Rightarrow> bool"
    and evolves :: "'s \<Rightarrow> 's \<Rightarrow> bool"
    and fact :: "'s \<Rightarrow> 'p \<Rightarrow> bool"
  assumes evolves_refl: "evolves s s"
    and evolves_trans: "evolves s t \<Longrightarrow> evolves t u \<Longrightarrow> evolves s u"
    and fact_stable: "fact s p \<Longrightarrow> evolves s t \<Longrightarrow> fact t p"
    and step_inv: "inv s \<Longrightarrow> fact s p \<Longrightarrow> inv (snd (step i p s))"
    and step_evolves: "inv s \<Longrightarrow> fact s p \<Longrightarrow> evolves s (snd (step i p s))"
    and step_fact: "inv s \<Longrightarrow> fact s p \<Longrightarrow> fact (snd (step i p s)) (fst (step i p s))"
begin

lemma runs:
  assumes "inv (snd c)" and "\<And>w. fact (snd c) (fst c w)"
  shows "inv (snd (interleave step sched c))" and "evolves (snd c) (snd (interleave step sched c))"
    and "fact (snd (interleave step sched c)) (fst (interleave step sched c) w)"
proof -
  have "inv (snd (interleave step sched c)) \<and> evolves (snd c) (snd (interleave step sched c)) \<and>
    (\<forall>w. fact (snd (interleave step sched c)) (fst (interleave step sched c) w))"
    using assms
  proof (induction sched arbitrary: c)
    case Nil
    then show ?case by (simp add: evolves_refl)
  next
    case (Cons x sched)
    obtain v i ph s where x: "x = (v, i)" "c = (ph, s)" by (cases x, cases c) auto
    let ?p = "fst (step i (ph v) s)" and ?s = "snd (step i (ph v) s)"
    have now: "inv s" "fact s (ph v)" using Cons.prems by (simp_all add: x)
    note e = step_evolves [OF now, of i]
    have "fact ?s ((ph(v := ?p)) w)" for w
      using step_fact [OF now, of i] fact_stable [OF _ e] Cons.prems(2) by (simp add: x)
    with Cons.IH [of "(ph(v := ?p), ?s)"] step_inv [OF now, of i]
    have "inv (snd (interleave step sched (ph(v := ?p), ?s))) \<and>
      evolves ?s (snd (interleave step sched (ph(v := ?p), ?s))) \<and>
      (\<forall>w. fact (snd (interleave step sched (ph(v := ?p), ?s))) (fst (interleave step sched (ph(v := ?p), ?s)) w))"
      by simp
    with evolves_trans [OF e] show ?case by (simp add: x case_prod_beta Let_def)
  qed
  then show "inv (snd (interleave step sched c))" and "evolves (snd c) (snd (interleave step sched c))"
    and "fact (snd (interleave step sched c)) (fst (interleave step sched c) w)" by blast+
qed

end

section \<open>Steps that count down\<close>

locale ranked_steps =
  fixes step :: "'i \<Rightarrow> 'p \<Rightarrow> 's \<Rightarrow> 'p \<times> 's"
    and bounded :: "'p \<Rightarrow> bool"
    and rank :: "'p \<Rightarrow> nat"
  assumes step_bounded: "bounded p \<Longrightarrow> bounded (fst (step i p s))"
    and step_rank: "bounded p \<Longrightarrow> rank (fst (step i p s)) \<le> rank p - 1"
begin

lemma counts_down:
  "bounded (fst c w) \<Longrightarrow>
     rank (fst (interleave step sched c) w) \<le> rank (fst c w) - length (filter (\<lambda>x. fst x = w) sched)"
proof (induction sched arbitrary: c)
  case Nil
  then show ?case by simp
next
  case (Cons x sched)
  obtain v i ph s where x: "x = (v, i)" "c = (ph, s)" by (cases x, cases c) auto
  let ?c = "(ph(v := fst (step i (ph v) s)), snd (step i (ph v) s))"
  have "bounded (fst ?c w)" using Cons.prems step_bounded by (auto simp: x)
  from Cons.IH [OF this] step_rank [of "ph w" i s] Cons.prems show ?case
    by (simp add: x case_prod_beta Let_def split: if_splits)
qed

lemma stays: "bounded (fst c w) \<Longrightarrow> bounded (fst (interleave step sched c) w)"
proof (induction sched arbitrary: c)
  case Nil
  then show ?case by simp
next
  case (Cons x sched)
  obtain v i ph s where x: "x = (v, i)" "c = (ph, s)" by (cases x, cases c) auto
  have "bounded (fst (ph(v := fst (step i (ph v) s)), snd (step i (ph v) s)) w)"
    using Cons.prems step_bounded by (auto simp: x)
  from Cons.IH [OF this] show ?case by (simp add: x case_prod_beta Let_def)
qed

lemma ends:
  "bounded (fst c w) \<Longrightarrow> rank (fst c w) \<le> length (filter (\<lambda>x. fst x = w) sched) \<Longrightarrow>
     rank (fst (interleave step sched c) w) = 0"
  using counts_down [of c w sched] by simp

end

end
