(* ===== verification/Idempotency_Coordinator.thy ===== *)
theory Idempotency_Coordinator
  imports Idempotency_Store Interleaving
begin

text \<open>
  backend/internal/service/idempotency.go: \<open>IdempotencyCoordinator.Execute\<close>. What it does before
  the first statement is \<open>idem_prepare\<close>; from there on every repository call and the call of
  the request itself is one step of \<open>idem_step\<close>, so that the requests of several processes can
  be interleaved statement by statement (\<open>idem_reach\<close>). A statement may fail before or after it
  took effect. encoding/json, SHA-256, strings.ToUpper and the redaction of logged text are
  the functions of \<open>idem_env\<close>, about which nothing is assumed.
\<close>

section \<open>Configuration, options and results\<close>

record IdempotencyConfig =
  DefaultTTL :: duration
  SystemOperationTTL :: duration
  ProcessingTimeout :: duration
  FailedRetryBackoff :: duration
  MaxStoredResponseLen :: int
  ObserveOnly :: bool

definition DefaultIdempotencyConfig :: IdempotencyConfig where
  "DefaultIdempotencyConfig =
     \<lparr>DefaultTTL = 24 * hour, SystemOperationTTL = hour, ProcessingTimeout = 30 * second,
      FailedRetryBackoff = 5 * second, MaxStoredResponseLen = 64 * 1024, ObserveOnly = True\<rparr>"

record 'd IdempotencyExecuteOptions =
  io_Scope :: string
  io_ActorScope :: string
  io_Method :: string
  io_Route :: string
  io_IdempotencyKey :: string
  io_Payload :: 'd
  io_TTL :: duration
  io_RequireKey :: bool

record 'd IdempotencyExecuteResult =
  ier_Data :: 'd
  ier_Replayed :: bool

text \<open>The errors of the package; the conflicts carry the retry_after seconds, if any.\<close>

datatype idem_error =
    KeyRequired
  | KeyInvalid
  | KeyConflict
  | InProgress "int option"
  | RetryBackoff "int option"
  | StoreUnavail
  | InvalidPayload
  | ExecutorNil
  | ScopeRequired
  | ExecFailed string

datatype idem_metric =
    MetricClaim string
  | MetricReplay
  | MetricConflict string
  | MetricRetryBackoff
  | MetricDuration
  | MetricStoreUnavailable string

record 'd idem_env =
  ie_sha256 :: "string \<Rightarrow> string"
  ie_upper :: "string \<Rightarrow> string"
  ie_marshal :: "'d \<Rightarrow> string option"
  ie_unmarshal :: "string \<Rightarrow> 'd option"
  ie_redact :: "string \<Rightarrow> string"
  ie_empty :: 'd

section \<open>Keys, fingerprints and stored responses\<close>

definition NormalizeIdempotencyKey :: "string \<Rightarrow> idem_error + string" where
  "NormalizeIdempotencyKey raw =
     (let key = trim_space raw in
      if key = '''' then Inr ''''
      else if 128 < length key then Inl KeyInvalid
      else if list_ex (\<lambda>c. (of_char c :: nat) < 33 \<or> 126 < (of_char c :: nat)) key then Inl KeyInvalid
      else Inr key)"

definition HashIdempotencyKey :: "'d idem_env \<Rightarrow> string \<Rightarrow> string" where
  "HashIdempotencyKey env key = ie_sha256 env key"

definition BuildIdempotencyFingerprint ::
  "'d idem_env \<Rightarrow> string \<Rightarrow> string \<Rightarrow> string \<Rightarrow> 'd \<Rightarrow> idem_error + string" where
  "BuildIdempotencyFingerprint env method route actorScope payload =
     (let method = (if method = '''' then ''POST'' else method);
          route = (if route = '''' then ''/'' else route);
          actorScope = (if actorScope = '''' then ''anonymous'' else actorScope);
          nl = [CHR 0x0A]
      in case ie_marshal env payload of
           None \<Rightarrow> Inl InvalidPayload
         | Some raw \<Rightarrow>
             Inr (ie_sha256 env (ie_upper env method @ nl @ route @ nl @ actorScope @ nl @ raw)))"

definition utf8_cont :: "char \<Rightarrow> nat \<Rightarrow> nat \<Rightarrow> bool" where
  "utf8_cont c lo hi \<longleftrightarrow> lo \<le> (of_char c :: nat) \<and> (of_char c :: nat) \<le> hi"

text \<open>\<open>utf8.ValidString\<close>, by the table of accepted ranges of the second byte.\<close>

fun utf8_valid :: "string \<Rightarrow> bool" where
  "utf8_valid [] = True"
| "utf8_valid (a # s) =
     (if utf8_cont a 0 0x7F then utf8_valid s
      else case s of
        [] \<Rightarrow> False
      | b # s1 \<Rightarrow>
          if utf8_cont a 0xC2 0xDF then utf8_cont b 0x80 0xBF \<and> utf8_valid s1
          else case s1 of
            [] \<Rightarrow> False
          | c # s2 \<Rightarrow>
              if utf8_cont a 0xE0 0xEF then
                (if utf8_cont a 0xE0 0xE0 then utf8_cont b 0xA0 0xBF
                 else if utf8_cont a 0xED 0xED then utf8_cont b 0x80 0x9F
                 else utf8_cont b 0x80 0xBF) \<and> utf8_cont c 0x80 0xBF \<and> utf8_valid s2
              else case s2 of
                [] \<Rightarrow> False
              | d # s3 \<Rightarrow>
                  utf8_cont a 0xF0 0xF4 \<and>
                  (if utf8_cont a 0xF0 0xF0 then utf8_cont b 0x90 0xBF
                   else if utf8_cont a 0xF4 0xF4 then utf8_cont b 0x80 0x8F
                   else utf8_cont b 0x80 0xBF) \<and>
                  utf8_cont c 0x80 0xBF \<and> utf8_cont d 0x80 0xBF \<and> utf8_valid s3)"

fun valid_prefix_len :: "string \<Rightarrow> nat \<Rightarrow> nat" where
  "valid_prefix_len s 0 = 0"
| "valid_prefix_len s (Suc n) =
     (if utf8_valid (take (Suc n) s) then Suc n else valid_prefix_len s n)"

definition truncateUTF8 :: "string \<Rightarrow> int \<Rightarrow> string" where
  "truncateUTF8 s maxBytes =
     (if maxBytes \<le> 0 \<or> int (length s) \<le> maxBytes then s
      else take (valid_prefix_len s (nat maxBytes)) s)"

definition marshalStoredResponse :: "'d idem_env \<Rightarrow> IdempotencyConfig \<Rightarrow> 'd \<Rightarrow> string option" where
  "marshalStoredResponse env cfg data =
     (case ie_marshal env data of
        None \<Rightarrow> None
      | Some raw \<Rightarrow>
          let redacted = ie_redact env raw
          in Some (if 0 < MaxStoredResponseLen cfg \<and> MaxStoredResponseLen cfg < int (length redacted)
                   then truncateUTF8 redacted (MaxStoredResponseLen cfg) @ ''...(truncated)''
                   else redacted))"

definition decodeStoredResponse :: "'d idem_env \<Rightarrow> string option \<Rightarrow> 'd option" where
  "decodeStoredResponse env stored =
     (case stored of
        None \<Rightarrow> Some (ie_empty env)
      | Some s \<Rightarrow> if trim_space s = '''' then Some (ie_empty env) else ie_unmarshal env s)"

text \<open>
  \<open>int(d.Seconds())\<close> truncates towards zero; the rounding of the floating-point quotient is not
  modelled (it is exact below 2^22 seconds).
\<close>

definition retryAfter :: "time option \<Rightarrow> time \<Rightarrow> int option" where
  "retryAfter lockedUntil now =
     (case lockedUntil of
        None \<Rightarrow> None
      | Some l \<Rightarrow>
          let d = time_sub l now; sec = (if 0 \<le> d then d div second else - ((- d) div second))
          in Some (if sec \<le> 0 then 1 else sec))"

section \<open>Before the first statement\<close>

record idem_call =
  ic_Scope :: string
  ic_KeyHash :: string
  ic_Fingerprint :: string
  ic_now :: time
  ic_lockedUntil :: time
  ic_expiresAt :: time

datatype idem_start = Refused idem_error | Direct | Keyed idem_call

definition idem_prepare ::
  "'d idem_env \<Rightarrow> IdempotencyConfig \<Rightarrow> bool \<Rightarrow> bool \<Rightarrow> 'd IdempotencyExecuteOptions \<Rightarrow> time \<Rightarrow>
   idem_start \<times> idem_metric list" where
  "idem_prepare env cfg execNil repoNil opts now =
     (if execNil then (Refused ExecutorNil, [])
      else case NormalizeIdempotencyKey (io_IdempotencyKey opts) of
        Inl err \<Rightarrow> (Refused err, [])
      | Inr key \<Rightarrow>
          if key = '''' then
            (if io_RequireKey opts \<and> \<not> ObserveOnly cfg then (Refused KeyRequired, []) else (Direct, []))
          else if repoNil then (Refused StoreUnavail, [MetricStoreUnavailable ''repo_nil''])
          else if io_Scope opts = '''' then (Refused ScopeRequired, [])
          else case BuildIdempotencyFingerprint env (io_Method opts) (io_Route opts)
                      (io_ActorScope opts) (io_Payload opts) of
            Inl err \<Rightarrow> (Refused err, [])
          | Inr fp \<Rightarrow>
              let ttl = (if io_TTL opts \<le> 0 then DefaultTTL cfg else io_TTL opts)
              in (Keyed \<lparr>ic_Scope = io_Scope opts, ic_KeyHash = HashIdempotencyKey env key,
                    ic_Fingerprint = fp, ic_now = now,
                    ic_lockedUntil = time_add now (ProcessingTimeout cfg),
                    ic_expiresAt = time_add now ttl\<rparr>, []))"

section \<open>The statements of one request\<close>

datatype 'd idem_phase =
    AtCreate
  | AtGet
  | AtReclaimExpired IdempotencyRecord
  | AtReget
  | AtReclaimFailed IdempotencyRecord
  | AtExecute int
  | AtMarkFailed int string
  | AtMarkSucceeded int string 'd
  | Returned "idem_error + 'd IdempotencyExecuteResult"

text \<open>
  What happens around a step: the fault of the statement, the clock of the process, NOW() of
  the server and the result of the request (an error by its reason).
\<close>

record 'd idem_input =
  ii_fault :: fault
  ii_clock :: time
  ii_dbnow :: time
  ii_result :: "string + 'd"

type_synonym 'd idem_after = "'d idem_phase \<times> idem_table \<times> idem_metric list"

definition idem_unavail :: "string \<Rightarrow> idem_table \<Rightarrow> 'd idem_after" where
  "idem_unavail strategy t = (Returned (Inl StoreUnavail), t, [MetricStoreUnavailable strategy])"

definition idem_claimed :: "int \<Rightarrow> string \<Rightarrow> idem_table \<Rightarrow> 'd idem_after" where
  "idem_claimed rid mode t =
     (if rid = 0 then (Returned (Inl StoreUnavail), t, [MetricClaim mode, MetricStoreUnavailable ''record_id_missing''])
      else (AtExecute rid, t, [MetricClaim mode]))"

definition idem_switch ::
  "'d idem_env \<Rightarrow> idem_call \<Rightarrow> IdempotencyRecord \<Rightarrow> idem_table \<Rightarrow> 'd idem_after" where
  "idem_switch env call existing t =
     (if ir_Status existing = IdempotencyStatusSucceeded then
        (case decodeStoredResponse env (ir_ResponseBody existing) of
           None \<Rightarrow> idem_unavail ''decode_stored_response_error'' t
         | Some data \<Rightarrow> (Returned (Inr \<lparr>ier_Data = data, ier_Replayed = True\<rparr>), t, [MetricReplay]))
      else if ir_Status existing = IdempotencyStatusProcessing then
        (Returned (Inl (InProgress (retryAfter (ir_LockedUntil existing) (ic_now call)))), t,
         [MetricConflict ''in_progress''])
      else if ir_Status existing = IdempotencyStatusFailedRetryable then
        (if (case ir_LockedUntil existing of None \<Rightarrow> False | Some l \<Rightarrow> time_after l (ic_now call)) then
           (Returned (Inl (RetryBackoff (retryAfter (ir_LockedUntil existing) (ic_now call)))), t,
            [MetricConflict ''retry_backoff'', MetricRetryBackoff])
         else (AtReclaimFailed existing, t, []))
      else (Returned (Inl KeyConflict), t, [MetricConflict ''unexpected_status'']))"

definition idem_record :: "idem_call \<Rightarrow> IdempotencyRecord" where
  "idem_record call =
     \<lparr>ir_ID = 0, ir_Scope = ic_Scope call, ir_IdempotencyKeyHash = ic_KeyHash call,
      ir_RequestFingerprint = ic_Fingerprint call, ir_Status = IdempotencyStatusProcessing,
      ir_ResponseStatus = None, ir_ResponseBody = None, ir_ErrorReason = None,
      ir_LockedUntil = Some (ic_lockedUntil call), ir_ExpiresAt = ic_expiresAt call,
      ir_CreatedAt = 0, ir_UpdatedAt = 0\<rparr>"

fun idem_step ::
  "'d idem_env \<Rightarrow> IdempotencyConfig \<Rightarrow> idem_call \<Rightarrow> 'd idem_input \<Rightarrow> 'd idem_phase \<Rightarrow> idem_table \<Rightarrow>
   'd idem_after" where
  "idem_step env cfg call inp AtCreate t =
     (let (t', created) = CreateProcessing (ii_dbnow inp) (idem_record call) t;
          t' = took_effect (ii_fault inp) t t'
      in if ii_fault inp \<noteq> Works then idem_unavail ''create_processing_error'' t'
         else case created of
           Some r \<Rightarrow> idem_claimed (ir_ID r) ''new_claim'' t'
         | None \<Rightarrow> (AtGet, t', []))"
| "idem_step env cfg call inp AtGet t =
     (if ii_fault inp \<noteq> Works then idem_unavail ''get_existing_error'' t
      else case GetByScopeAndKeyHash (ic_Scope call) (ic_KeyHash call) t of
        None \<Rightarrow> idem_unavail ''missing_existing'' t
      | Some existing \<Rightarrow>
          if ir_RequestFingerprint existing \<noteq> ic_Fingerprint call then
            (Returned (Inl KeyConflict), t, [MetricConflict ''fingerprint_mismatch''])
          else if \<not> time_after (ir_ExpiresAt existing) (ic_now call) then (AtReclaimExpired existing, t, [])
          else idem_switch env call existing t)"
| "idem_step env cfg call inp (AtReclaimExpired existing) t =
     (let (t', taken) = TryReclaim (ii_dbnow inp) (ir_ID existing) (ir_Status existing) (ic_now call)
                          (ic_lockedUntil call) (ic_expiresAt call) t;
          t' = took_effect (ii_fault inp) t t'
      in if ii_fault inp \<noteq> Works then idem_unavail ''try_reclaim_expired_error'' t'
         else if taken then idem_claimed (ir_ID existing) ''expired_reclaim'' t'
         else (AtReget, t', []))"
| "idem_step env cfg call inp AtReget t =
     (if ii_fault inp \<noteq> Works then idem_unavail ''get_existing_after_expired_reclaim_error'' t
      else case GetByScopeAndKeyHash (ic_Scope call) (ic_KeyHash call) t of
        None \<Rightarrow> idem_unavail ''missing_existing_after_expired_reclaim'' t
      | Some latest \<Rightarrow>
          if ir_RequestFingerprint latest \<noteq> ic_Fingerprint call then
            (Returned (Inl KeyConflict), t, [MetricConflict ''fingerprint_mismatch''])
          else idem_switch env call latest t)"
| "idem_step env cfg call inp (AtReclaimFailed existing) t =
     (let (t', taken) = TryReclaim (ii_dbnow inp) (ir_ID existing) IdempotencyStatusFailedRetryable
                          (ic_now call) (ic_lockedUntil call) (ic_expiresAt call) t;
          t' = took_effect (ii_fault inp) t t'
      in if ii_fault inp \<noteq> Works then idem_unavail ''try_reclaim_error'' t'
         else if \<not> taken then
           (Returned (Inl (InProgress (retryAfter (ir_LockedUntil existing) (ic_now call)))), t',
            [MetricConflict ''reclaim_race''])
         else idem_claimed (ir_ID existing) ''reclaim'' t')"
| "idem_step env cfg call inp (AtExecute rid) t =
     (case ii_result inp of
        Inl reason \<Rightarrow> (AtMarkFailed rid reason, t, [MetricRetryBackoff])
      | Inr data \<Rightarrow>
          (case marshalStoredResponse env cfg data of
             None \<Rightarrow> (Returned (Inl StoreUnavail), t, [MetricStoreUnavailable ''marshal_response_error'', MetricDuration])
           | Some body \<Rightarrow> (AtMarkSucceeded rid body data, t, [])))"
| "idem_step env cfg call inp (AtMarkFailed rid reason) t =
     (let t' = MarkFailedRetryable (ii_dbnow inp) rid (if reason = '''' then ''EXECUTION_FAILED'' else reason)
                 (time_add (ii_clock inp) (FailedRetryBackoff cfg)) (ic_expiresAt call) t
      in (Returned (Inl (ExecFailed reason)), took_effect (ii_fault inp) t t',
          (if ii_fault inp \<noteq> Works then [MetricStoreUnavailable ''mark_failed_retryable_error''] else []) @
          [MetricDuration]))"
| "idem_step env cfg call inp (AtMarkSucceeded rid body data) t =
     (let t' = took_effect (ii_fault inp) t
                 (MarkSucceeded (ii_dbnow inp) rid 200 body (ic_expiresAt call) t)
      in if ii_fault inp \<noteq> Works then
           (Returned (Inl StoreUnavail), t', [MetricStoreUnavailable ''mark_succeeded_error'', MetricDuration])
         else (Returned (Inr \<lparr>ier_Data = data, ier_Replayed = False\<rparr>), t', [MetricDuration]))"
| "idem_step env cfg call inp (Returned res) t = (Returned res, t, [])"

text \<open>One request on its own, with the inputs of its steps.\<close>

fun idem_run ::
  "'d idem_env \<Rightarrow> IdempotencyConfig \<Rightarrow> idem_call \<Rightarrow> 'd idem_input list \<Rightarrow> 'd idem_phase \<Rightarrow> idem_table \<Rightarrow>
   'd idem_phase \<times> idem_table" where
  "idem_run env cfg call [] p t = (p, t)"
| "idem_run env cfg call (inp # inps) p t =
     (let (p', t', m) = idem_step env cfg call inp p t in idem_run env cfg call inps p' t')"

text \<open>\<open>Execute\<close>: the request itself runs at once when it carries no key.\<close>

definition Execute ::
  "'d idem_env \<Rightarrow> IdempotencyConfig \<Rightarrow> bool \<Rightarrow> bool \<Rightarrow> 'd IdempotencyExecuteOptions \<Rightarrow> time \<Rightarrow>
   string + 'd \<Rightarrow> 'd idem_input list \<Rightarrow> idem_table \<Rightarrow> 'd idem_phase \<times> idem_table" where
  "Execute env cfg execNil repoNil opts now direct inps t =
     (case fst (idem_prepare env cfg execNil repoNil opts now) of
        Refused err \<Rightarrow> (Returned (Inl err), t)
      | Direct \<Rightarrow>
          (case direct of
             Inl reason \<Rightarrow> (Returned (Inl (ExecFailed reason)), t)
           | Inr data \<Rightarrow> (Returned (Inr \<lparr>ier_Data = data, ier_Replayed = False\<rparr>), t))
      | Keyed call \<Rightarrow> idem_run env cfg call inps AtCreate t)"

end
