(* ===== verification/Idempotency_Exclusive.thy ===== *)
theory Idempotency_Exclusive
  imports Idempotency_Coordinator
begin

text \<open>
  Requests of several processes over one table, interleaved statement by statement: while no
  record expires, a key is run by at most one request at a time and succeeds at most once, and
  every later request with the key gets the stored answer.
\<close>

section \<open>Interleavings\<close>

inductive idem_reach ::
  "'d idem_env \<Rightarrow> IdempotencyConfig \<Rightarrow> (nat \<Rightarrow> idem_call) \<Rightarrow> idem_table \<Rightarrow> (nat \<Rightarrow> 'd idem_phase) \<Rightarrow> bool"
  for env cfg calls where
  start: "idem_reach env cfg calls \<lparr>it_rows = [], it_next = 1\<rparr> (\<lambda>w. AtCreate)"
| work: "idem_reach env cfg calls t ph \<Longrightarrow> idem_step env cfg (calls w) inp (ph w) t = (p', t', m) \<Longrightarrow>
    idem_reach env cfg calls t' (ph(w := p'))"
| cleanup: "idem_reach env cfg calls t ph \<Longrightarrow> (\<forall>w. clock < ic_expiresAt (calls w)) \<Longrightarrow>
    idem_reach env cfg calls (fst (DeleteExpired clock limit t)) ph"

text \<open>No request is so late that a record of another has expired.\<close>

definition in_window :: "(nat \<Rightarrow> idem_call) \<Rightarrow> bool" where
  "in_window calls \<longleftrightarrow> (\<forall>v w. ic_now (calls v) < ic_expiresAt (calls w))"

section \<open>Ownership and knowledge of a phase\<close>

fun owns :: "'d idem_phase \<Rightarrow> int \<Rightarrow> bool" where
  "owns (AtExecute i) j = (i = j)"
| "owns (AtMarkFailed i r) j = (i = j)"
| "owns (AtMarkSucceeded i b d) j = (i = j)"
| "owns p j = False"

definition call_key :: "idem_call \<Rightarrow> string \<times> string" where
  "call_key c = (ic_Scope c, ic_KeyHash c)"

definition knows :: "idem_call \<Rightarrow> idem_table \<Rightarrow> int \<Rightarrow> (IdempotencyRecord \<Rightarrow> bool) \<Rightarrow> bool" where
  "knows c t i P \<longleftrightarrow> (\<exists>r. idem_row t i = Some r \<and> idem_key r = call_key c \<and>
     ir_RequestFingerprint r = ic_Fingerprint c \<and> P r)"

definition stored :: "'d idem_env \<Rightarrow> IdempotencyConfig \<Rightarrow> 'd IdempotencyExecuteResult \<Rightarrow> IdempotencyRecord \<Rightarrow> bool" where
  "stored env cfg res r \<longleftrightarrow> ir_Status r = IdempotencyStatusSucceeded \<and>
     (if ier_Replayed res then decodeStoredResponse env (ir_ResponseBody r) = Some (ier_Data res)
      else ir_ResponseBody r \<noteq> None \<and> marshalStoredResponse env cfg (ier_Data res) = ir_ResponseBody r)"

fun phase_fact ::
  "'d idem_env \<Rightarrow> IdempotencyConfig \<Rightarrow> idem_call \<Rightarrow> idem_table \<Rightarrow> 'd idem_phase \<Rightarrow> bool" where
  "phase_fact env cfg c t (AtReclaimExpired ex) = False"
| "phase_fact env cfg c t AtReget = False"
| "phase_fact env cfg c t (AtReclaimFailed ex) = knows c t (ir_ID ex) (\<lambda>r. True)"
| "phase_fact env cfg c t (AtExecute i) = knows c t i (\<lambda>r. True)"
| "phase_fact env cfg c t (AtMarkFailed i reason) = knows c t i (\<lambda>r. True)"
| "phase_fact env cfg c t (AtMarkSucceeded i b d) =
     (knows c t i (\<lambda>r. True) \<and> marshalStoredResponse env cfg d = Some b)"
| "phase_fact env cfg c t (Returned (Inr res)) = (\<exists>i. knows c t i (stored env cfg res))"
| "phase_fact env cfg c t p = True"

definition fresh :: "'d idem_phase \<Rightarrow> bool" where
  "fresh p \<longleftrightarrow> (\<exists>res. p = Returned (Inr res) \<and> \<not> ier_Replayed res)"

definition owned :: "(nat \<Rightarrow> 'd idem_phase) \<Rightarrow> int set" where
  "owned ph = {i. \<exists>w. owns (ph w) i}"

text \<open>How the table evolves: rows stay, keep key and fingerprint, and a success is final.\<close>

definition row_evolves :: "IdempotencyRecord \<Rightarrow> IdempotencyRecord \<Rightarrow> bool" where
  "row_evolves r r' \<longleftrightarrow> idem_key r' = idem_key r \<and> ir_RequestFingerprint r' = ir_RequestFingerprint r \<and>
     (ir_Status r = IdempotencyStatusSucceeded \<longrightarrow> r' = r)"

definition evolves :: "idem_table \<Rightarrow> idem_table \<Rightarrow> bool" where
  "evolves t t' \<longleftrightarrow> (\<forall>i r. idem_row t i = Some r \<longrightarrow> (\<exists>r'. idem_row t' i = Some r' \<and> row_evolves r r'))"

definition expiries_ok :: "(nat \<Rightarrow> idem_call) \<Rightarrow> idem_table \<Rightarrow> bool" where
  "expiries_ok calls t \<longleftrightarrow> (\<forall>i r. idem_row t i = Some r \<longrightarrow> (\<exists>w. ir_ExpiresAt r = ic_expiresAt (calls w)))"

definition table_inv :: "(nat \<Rightarrow> idem_call) \<Rightarrow> idem_table \<Rightarrow> bool" where
  "table_inv calls t \<longleftrightarrow> table_ok t \<and> expiries_ok calls t"

definition idem_inv ::
  "'d idem_env \<Rightarrow> IdempotencyConfig \<Rightarrow> (nat \<Rightarrow> idem_call) \<Rightarrow> idem_table \<Rightarrow> (nat \<Rightarrow> 'd idem_phase) \<Rightarrow> bool" where
  "idem_inv env cfg calls t ph \<longleftrightarrow> table_inv calls t \<and>
     (\<forall>w. phase_fact env cfg (calls w) t (ph w)) \<and> claims.held t (owned ph) \<and>
     (\<forall>v w i. owns (ph v) i \<longrightarrow> owns (ph w) i \<longrightarrow> v = w) \<and>
     (\<forall>v w. fresh (ph v) \<longrightarrow> fresh (ph w) \<longrightarrow> call_key (calls v) = call_key (calls w) \<longrightarrow> v = w)"

lemma row_evolves_refl [simp]: "row_evolves r r"
  by (simp add: row_evolves_def)

lemma evolves_refl [simp]: "evolves t t"
  by (simp add: evolves_def)

lemma knows_evolves:
  assumes "knows c t i P" and "evolves t t'" and "\<And>r r'. P r \<Longrightarrow> row_evolves r r' \<Longrightarrow> P r'"
  shows "knows c t' i P"
  using assms unfolding knows_def evolves_def row_evolves_def by metis

lemma stored_evolves: "stored env cfg res r \<Longrightarrow> row_evolves r r' \<Longrightarrow> stored env cfg res r'"
  by (auto simp: stored_def row_evolves_def)

lemma phase_fact_evolves:
  "phase_fact env cfg c t p \<Longrightarrow> evolves t t' \<Longrightarrow> phase_fact env cfg c t' p"
proof (induction env cfg c t p rule: phase_fact.induct)
  case (7 env cfg c t res)
  then obtain i where "knows c t i (stored env cfg res)" by auto
  then have "knows c t' i (stored env cfg res)"
    using knows_evolves [OF _ 7(2)] stored_evolves by blast
  then show ?case by auto
qed (auto intro: knows_evolves)

text \<open>Rows with the same key are the same row.\<close>

lemma same_key_same_row:
  assumes "table_ok t" and "idem_row t i = Some r" and "idem_row t j = Some r'" and "idem_key r = idem_key r'"
  shows "i = j"
proof -
  have "distinct (map idem_key (it_rows t))" using assms(1) by (simp add: table_ok_def)
  with row_in [OF assms(2)] row_in [OF assms(3)] assms(4) have "r = r'"
    by (metis find_distinct option.inject)
  with row_in [OF assms(2)] row_in [OF assms(3)] show ?thesis by simp
qed

section \<open>The statements keep the invariant of the table\<close>

lemma create_evolves: "table_ok t \<Longrightarrow> evolves t (fst (CreateProcessing n r t))"
  by (cases "snd (CreateProcessing n r t)")
    (auto simp: evolves_def create_row_conflict create_row(2) dest: create_row(1))

lemma create_table_inv:
  assumes "table_inv calls t"
  shows "table_inv calls (fst (CreateProcessing n (idem_record (calls w)) t))"
proof (cases "snd (CreateProcessing n (idem_record (calls w)) t)")
  case None
  with assms show ?thesis
    by (simp add: table_inv_def create_ok expiries_ok_def create_row_conflict)
next
  case (Some r')
  have ok: "table_ok t" using assms by (simp add: table_inv_def)
  have "ir_ExpiresAt r' = ic_expiresAt (calls w)"
    using create_owner(6) [OF Some] by (simp add: idem_record_def)
  with assms create_row(2) [OF ok Some] create_ok [OF ok] show ?thesis
    by (auto simp: table_inv_def expiries_ok_def)
qed

lemma reclaim_evolves:
  assumes "fr \<noteq> IdempotencyStatusSucceeded"
  shows "evolves t (fst (TryReclaim n rid fr now l e t))"
  using assms by (auto simp: evolves_def reclaim_row row_evolves_def reclaimable_def reclaim_update_def
      idem_key_def)

lemma reclaim_table_inv:
  "table_inv calls t \<Longrightarrow> table_inv calls (fst (TryReclaim n rid fr now l (ic_expiresAt (calls w)) t))"
  by (auto simp: table_inv_def claim_statements_ok expiries_ok_def reclaim_row reclaim_update_def)

lemma finish_evolves:
  assumes "row_status t rid = Some IdempotencyStatusProcessing"
  shows "evolves t (MarkSucceeded n rid st body e t)" and "evolves t (MarkFailedRetryable n rid reason l e t)"
  using assms by (auto simp: evolves_def succeed_row fail_row row_evolves_def succeed_update_def
      fail_update_def idem_key_def row_status_def idem_status_defs)

lemma finish_table_inv:
  "table_inv calls t \<Longrightarrow> table_inv calls (MarkSucceeded n rid st body (ic_expiresAt (calls w)) t)"
  "table_inv calls t \<Longrightarrow> table_inv calls (MarkFailedRetryable n rid reason l (ic_expiresAt (calls w)) t)"
  by (auto simp: table_inv_def claim_statements_ok expiries_ok_def succeed_row fail_row
      succeed_update_def fail_update_def split: if_splits)

lemma delete_nothing:
  assumes "table_inv calls t" and "\<forall>w. clock < ic_expiresAt (calls w)"
  shows "fst (DeleteExpired clock limit t) = t"
proof -
  have "clock < ir_ExpiresAt r" if "r \<in> set (it_rows t)" for r
    using that assms in_row [of t r] unfolding table_inv_def expiries_ok_def by metis
  then have "filter (\<lambda>x. ir_ExpiresAt x \<le> clock) (it_rows t) = []"
    by (force simp: filter_empty_conv)
  then have "idem_victims clock limit t = []" by (simp add: idem_victims_def)
  then show ?thesis by (simp add: delete_by_victims)
qed

section \<open>One step\<close>

lemma held_subset: "claims.held t O1 \<Longrightarrow> O2 \<subseteq> O1 \<Longrightarrow> claims.held t O2"
  by (auto simp: claims.held_def)

lemma owned_update:
  "owned (ph(w := p)) \<subseteq> {i. \<exists>v. v \<noteq> w \<and> owns (ph v) i} \<union> {i. owns p i}"
  by (auto simp: owned_def split: if_splits)

definition others :: "nat \<Rightarrow> (nat \<Rightarrow> 'd idem_phase) \<Rightarrow> int set" where
  "others w ph = {i. \<exists>v. v \<noteq> w \<and> owns (ph v) i}"

lemma others_owned: "others w ph \<subseteq> owned ph"
  by (auto simp: others_def owned_def)

text \<open>What has to be shown of a step of request \<open>w\<close>.\<close>

definition step_good ::
  "'d idem_env \<Rightarrow> IdempotencyConfig \<Rightarrow> (nat \<Rightarrow> idem_call) \<Rightarrow> idem_table \<Rightarrow> (nat \<Rightarrow> 'd idem_phase) \<Rightarrow> nat \<Rightarrow>
   'd idem_phase \<Rightarrow> idem_table \<Rightarrow> bool" where
  "step_good env cfg calls t ph w p' t' \<longleftrightarrow>
     table_inv calls t' \<and> evolves t t' \<and> phase_fact env cfg (calls w) t' p' \<and>
     claims.held t' (others w ph \<union> {i. owns p' i}) \<and> (\<forall>i. owns p' i \<longrightarrow> i \<notin> others w ph) \<and>
     (fresh p' \<longrightarrow> fresh (ph w) \<or>
        (\<forall>v. fresh (ph v) \<longrightarrow> call_key (calls v) \<noteq> call_key (calls w)))"

lemma good_step_inv:
  assumes inv: "idem_inv env cfg calls t ph" and good: "step_good env cfg calls t ph w p' t'"
  shows "idem_inv env cfg calls t' (ph(w := p'))"
proof -
  from good have g: "table_inv calls t'" "evolves t t'" "phase_fact env cfg (calls w) t' p'"
    "claims.held t' (others w ph \<union> {i. owns p' i})" "\<And>i. owns p' i \<Longrightarrow> i \<notin> others w ph"
    "fresh p' \<Longrightarrow> fresh (ph w) \<or> (\<forall>v. fresh (ph v) \<longrightarrow> call_key (calls v) \<noteq> call_key (calls w))"
    by (simp_all add: step_good_def)
  from inv have i: "\<And>v. phase_fact env cfg (calls v) t (ph v)"
    "\<And>u v i. owns (ph u) i \<Longrightarrow> owns (ph v) i \<Longrightarrow> u = v"
    "\<And>u v. fresh (ph u) \<Longrightarrow> fresh (ph v) \<Longrightarrow> call_key (calls u) = call_key (calls v) \<Longrightarrow> u = v"
    by (auto simp: idem_inv_def)
  have facts: "phase_fact env cfg (calls v) t' ((ph(w := p')) v)" for v
    using g(3) phase_fact_evolves [OF i(1) g(2)] by simp
  have held: "claims.held t' (owned (ph(w := p')))"
    using held_subset [OF g(4)] owned_update [of ph w p'] by (simp add: others_def)
  have own: "u = v" if "owns ((ph(w := p')) u) k" "owns ((ph(w := p')) v) k" for u v k
    using that g(5) [of k] i(2) by (auto simp: others_def split: if_splits)
  have fr: "u = v" if "fresh ((ph(w := p')) u)" "fresh ((ph(w := p')) v)"
    "call_key (calls u) = call_key (calls v)" for u v
    using that g(6) i(3) by (auto split: if_splits)
  show ?thesis
    unfolding idem_inv_def using g(1) facts held own fr by blast
qed

lemma inv_parts:
  assumes "idem_inv env cfg calls t ph"
  shows "table_inv calls t" and "table_ok t" and "phase_fact env cfg (calls w) t (ph w)"
    and "claims.held t (owned ph)" and "claims.held t (others w ph)"
    and "owns (ph w) i \<Longrightarrow> i \<notin> others w ph"
    and "owns (ph w) i \<Longrightarrow> row_status t i = Some IdempotencyStatusProcessing"
  using assms held_subset [OF _ others_owned]
  by (auto simp: idem_inv_def table_inv_def others_def claims.held_def owned_def)

text \<open>A step that leaves the table alone and claims nothing new.\<close>

lemma good_same_table:
  assumes inv: "idem_inv env cfg calls t ph" and "\<And>i. owns p' i \<Longrightarrow> owns (ph w) i" and "\<not> fresh p'"
    and "phase_fact env cfg (calls w) t p'"
  shows "step_good env cfg calls t ph w p' t"
proof -
  have "others w ph \<union> {i. owns p' i} \<subseteq> owned ph"
    using assms(2) by (auto simp: others_def owned_def)
  with assms inv_parts(1,4) [OF inv] inv_parts(6) [OF inv] show ?thesis
    by (auto simp: step_good_def intro: held_subset)
qed

text \<open>A statement that changed the table and left no owner behind.\<close>

lemma good_no_owner:
  assumes "table_inv calls t'" and "evolves t t'" and "claims.held t' (others w ph)"
  shows "step_good env cfg calls t ph w (Returned (Inl err)) t'"
  using assms by (simp add: step_good_def fresh_def)

lemma good_get_phase:
  assumes "table_inv calls t'" and "evolves t t'" and "claims.held t' (others w ph)"
  shows "step_good env cfg calls t ph w AtGet t'"
  using assms by (simp add: step_good_def fresh_def)

lemma create_as_claim:
  "fst (CreateProcessing n (idem_record c) t) = fst (create_claim (n, idem_record c) t)"
  "map_option ir_ID (snd (CreateProcessing n (idem_record c) t)) = snd (create_claim (n, idem_record c) t)"
proof -
  have "(idem_record c)\<lparr>ir_Status := IdempotencyStatusProcessing\<rparr> = idem_record c"
    by (simp add: idem_record_def)
  then show "fst (CreateProcessing n (idem_record c) t) = fst (create_claim (n, idem_record c) t)"
    and "map_option ir_ID (snd (CreateProcessing n (idem_record c) t)) = snd (create_claim (n, idem_record c) t)"
    by (simp_all add: create_claim_def Let_def)
qed

lemma create_held_others:
  assumes "table_ok t" and "claims.held t ids"
  shows "claims.held (fst (CreateProcessing n (idem_record c) t)) ids"
    and "snd (CreateProcessing n (idem_record c) t) = Some r \<Longrightarrow>
      ir_ID r \<notin> ids \<and> claims.held (fst (CreateProcessing n (idem_record c) t)) (insert (ir_ID r) ids)"
proof -
  let ?s = "snd (CreateProcessing n (idem_record c) t)"
  have some: "ir_ID r \<notin> ids \<and> claims.held (fst (CreateProcessing n (idem_record c) t)) (insert (ir_ID r) ids)"
    if "?s = Some r" for r
    using claims.create_held [OF assms, of "(n, idem_record c)" "ir_ID r"] that
      create_as_claim(2) [of n c t] by (simp add: create_as_claim(1))
  then show "?s = Some r \<Longrightarrow> ir_ID r \<notin> ids \<and>
      claims.held (fst (CreateProcessing n (idem_record c) t)) (insert (ir_ID r) ids)" .
  show "claims.held (fst (CreateProcessing n (idem_record c) t)) ids"
  proof (cases ?s)
    case None
    with claims.refused_held [OF assms, of "(n, idem_record c)"] create_as_claim(2) [of n c t] show ?thesis
      by (simp add: create_as_claim(1))
  next
    case (Some r)
    from some [OF this] show ?thesis by (auto intro: held_subset)
  qed
qed

lemma step_create:
  assumes inv: "idem_inv env cfg calls t ph" and p: "ph w = AtCreate"
    and step: "idem_step env cfg (calls w) inp AtCreate t = (p', t', m)"
  shows "step_good env cfg calls t ph w p' t'"
proof -
  let ?c = "CreateProcessing (ii_dbnow inp) (idem_record (calls w)) t"
  note parts = inv_parts [OF inv]
  have tab: "table_inv calls (fst ?c)" and evo: "evolves t (fst ?c)"
    using create_table_inv [OF parts(1)] create_evolves [OF parts(2)] by auto
  note held = create_held_others [OF parts(2,5), where n = "ii_dbnow inp" and c = "calls w"]
  consider (before) "ii_fault inp = FailsBefore" | (after) "ii_fault inp = FailsAfter" | (works) "ii_fault inp = Works"
    by (cases "ii_fault inp") auto
  then show ?thesis
  proof cases
    case before
    with step have "p' = Returned (Inl StoreUnavail)" "t' = t"
      by (auto simp: idem_unavail_def took_effect_def case_prod_beta Let_def)
    with good_same_table [OF inv, of "Returned (Inl StoreUnavail)" w] show ?thesis by (simp add: fresh_def)
  next
    case after
    with step have "p' = Returned (Inl StoreUnavail)" "t' = fst ?c"
      by (auto simp: idem_unavail_def took_effect_def case_prod_beta Let_def)
    with tab evo held(1) show ?thesis by (simp add: good_no_owner)
  next
    case works
    show ?thesis
    proof (cases "snd ?c")
      case None
      with works step have "p' = AtGet" "t' = fst ?c"
        by (auto simp: took_effect_def case_prod_beta Let_def)
      with tab evo held(1) show ?thesis by (simp add: good_get_phase)
    next
      case (Some r)
      note c = create_owner [OF Some]
      have "0 < ir_ID r" using c(2) parts(2) by (simp add: table_ok_def)
      with Some works step have pt: "p' = AtExecute (ir_ID r)" "t' = fst ?c"
        by (auto simp: took_effect_def idem_claimed_def case_prod_beta Let_def)
      have "knows (calls w) (fst ?c) (ir_ID r) (\<lambda>r. True)"
        using create_row(2) [OF parts(2) Some] c(3,5)
        by (auto simp: knows_def idem_record_def idem_key_def call_key_def)
      with tab evo held(2) [OF Some] pt show ?thesis
        by (simp add: step_good_def fresh_def)
    qed
  qed
qed
lemma switch_good:
  assumes inv: "idem_inv env cfg calls t ph" and step: "idem_switch env (calls w) ex t = (p', t', m)"
    and ex: "GetByScopeAndKeyHash (ic_Scope (calls w)) (ic_KeyHash (calls w)) t = Some ex"
    and fp: "ir_RequestFingerprint ex = ic_Fingerprint (calls w)"
  shows "step_good env cfg calls t ph w p' t'"
proof -
  note parts = inv_parts [OF inv]
  from get_in [OF ex] have row: "idem_row t (ir_ID ex) = Some ex" and key: "idem_key ex = call_key (calls w)"
    by (simp_all add: in_row [OF parts(2)] call_key_def)
  have t': "t' = t" and p': "(\<exists>err. p' = Returned (Inl err)) \<or> p' = AtReclaimFailed ex \<or>
      (\<exists>d. p' = Returned (Inr \<lparr>ier_Data = d, ier_Replayed = True\<rparr>) \<and>
           ir_Status ex = IdempotencyStatusSucceeded \<and> decodeStoredResponse env (ir_ResponseBody ex) = Some d)"
    using step by (auto simp: idem_switch_def idem_unavail_def split: if_splits option.splits)
  have no: "\<not> owns p' i" "\<not> fresh p'" for i using p' by (auto simp: fresh_def)
  have "phase_fact env cfg (calls w) t p'"
    using p' row key fp by (auto simp: knows_def stored_def intro!: exI [of _ "ir_ID ex"] exI [of _ ex])
  with good_same_table [OF inv, of p' w] no t' show ?thesis by blast
qed

lemma step_get:
  assumes inv: "idem_inv env cfg calls t ph" and win: "in_window calls" and p: "ph w = AtGet"
    and step: "idem_step env cfg (calls w) inp AtGet t = (p', t', m)"
  shows "step_good env cfg calls t ph w p' t'"
proof -
  note parts = inv_parts [OF inv]
  have err: "step_good env cfg calls t ph w (Returned (Inl e)) t" for e
    by (rule good_same_table [OF inv]) (simp_all add: fresh_def)
  show ?thesis
  proof (cases "GetByScopeAndKeyHash (ic_Scope (calls w)) (ic_KeyHash (calls w)) t")
    case None
    with step err show ?thesis by (auto simp: idem_unavail_def split: if_splits)
  next
    case (Some ex)
    from get_in [OF this] have row: "idem_row t (ir_ID ex) = Some ex" by (simp add: in_row [OF parts(2)])
    have "ic_now (calls w) < ir_ExpiresAt ex"
      using parts(1) row win unfolding table_inv_def expiries_ok_def in_window_def by metis
    then have "time_after (ir_ExpiresAt ex) (ic_now (calls w))" by (simp add: go_time)
    with Some step err switch_good [OF inv _ Some] show ?thesis
      by (auto simp: idem_unavail_def split: if_splits)
  qed
qed

lemma reclaim_held_others:
  assumes "table_ok t" and "claims.held t ids"
  shows "claims.held (fst (TryReclaim n i IdempotencyStatusFailedRetryable now l e t)) ids"
    and "snd (TryReclaim n i IdempotencyStatusFailedRetryable now l e t) \<Longrightarrow>
      i \<notin> ids \<and> claims.held (fst (TryReclaim n i IdempotencyStatusFailedRetryable now l e t)) (insert i ids)"
proof -
  let ?r = "reclaim_claim (n, now, l, e) i IdempotencyStatusFailedRetryable t"
  have r: "?r = TryReclaim n i IdempotencyStatusFailedRetryable now l e t"
    by (simp add: reclaim_claim_def)
  have ne: "IdempotencyStatusFailedRetryable \<noteq> IdempotencyStatusProcessing"
    by (simp add: idem_status_defs)
  have taken: "snd ?r \<Longrightarrow> i \<notin> ids \<and> claims.held (fst ?r) (insert i ids)"
    using claims.reclaim_held [OF assms _ ne] by blast
  then show "snd (TryReclaim n i IdempotencyStatusFailedRetryable now l e t) \<Longrightarrow>
      i \<notin> ids \<and> claims.held (fst (TryReclaim n i IdempotencyStatusFailedRetryable now l e t)) (insert i ids)"
    unfolding r by blast
  have "claims.held (fst ?r) ids"
  proof (cases "snd ?r")
    case True
    with taken show ?thesis by (auto intro: held_subset)
  next
    case False
    with claims.reclaim_refused_held [OF assms] show ?thesis by blast
  qed
  then show "claims.held (fst (TryReclaim n i IdempotencyStatusFailedRetryable now l e t)) ids"
    by (simp only: r)
qed

lemma step_reclaim:
  assumes inv: "idem_inv env cfg calls t ph" and p: "ph w = AtReclaimFailed ex"
    and step: "idem_step env cfg (calls w) inp (AtReclaimFailed ex) t = (p', t', m)"
  shows "step_good env cfg calls t ph w p' t'"
proof -
  let ?r = "TryReclaim (ii_dbnow inp) (ir_ID ex) IdempotencyStatusFailedRetryable (ic_now (calls w))
      (ic_lockedUntil (calls w)) (ic_expiresAt (calls w)) t"
  note parts = inv_parts [OF inv]
  have kn: "knows (calls w) t (ir_ID ex) (\<lambda>r. True)" using parts(3) [of w] p by simp
  have "IdempotencyStatusFailedRetryable \<noteq> IdempotencyStatusSucceeded" by (simp add: idem_status_defs)
  then have evo: "evolves t (fst ?r)" by (rule reclaim_evolves)
  have tab: "table_inv calls (fst ?r)" by (rule reclaim_table_inv [OF parts(1)])
  note held = reclaim_held_others [OF parts(2,5), where n = "ii_dbnow inp" and i = "ir_ID ex"
      and now = "ic_now (calls w)" and l = "ic_lockedUntil (calls w)" and e = "ic_expiresAt (calls w)"]
  have err: "step_good env cfg calls t ph w (Returned (Inl e)) t" for e
    by (rule good_same_table [OF inv]) (simp_all add: fresh_def)
  have err': "step_good env cfg calls t ph w (Returned (Inl e)) (fst ?r)" for e
    by (rule good_no_owner [OF tab evo held(1)])
  show ?thesis
  proof (cases "ii_fault inp = Works \<and> snd ?r")
    case True
    obtain r where "idem_row t (ir_ID ex) = Some r" using kn by (auto simp: knows_def)
    then have "ir_ID ex \<noteq> 0" using parts(2) row_in by (fastforce simp: table_ok_def)
    with True step have pt: "p' = AtExecute (ir_ID ex)" "t' = fst ?r"
      by (auto simp: took_effect_def idem_claimed_def case_prod_beta Let_def)
    have "knows (calls w) (fst ?r) (ir_ID ex) (\<lambda>r. True)" by (rule knows_evolves [OF kn evo]) simp
    with tab evo held(2) True pt show ?thesis by (simp add: step_good_def fresh_def)
  next
    case False
    with step have "(\<exists>e. p' = Returned (Inl e)) \<and> (t' = t \<or> t' = fst ?r)"
      by (auto simp: took_effect_def idem_unavail_def case_prod_beta Let_def split: if_splits)
    with err err' show ?thesis by auto
  qed
qed

lemma step_execute:
  assumes inv: "idem_inv env cfg calls t ph" and p: "ph w = AtExecute i"
    and step: "idem_step env cfg (calls w) inp (AtExecute i) t = (p', t', m)"
  shows "step_good env cfg calls t ph w p' t'"
proof -
  have kn: "knows (calls w) t i (\<lambda>r. True)" using inv_parts(3) [OF inv, of w] p by simp
  from step have t': "t' = t" by (auto split: sum.splits option.splits)
  have "(\<forall>j. owns p' j \<longrightarrow> i = j) \<and> \<not> fresh p' \<and> phase_fact env cfg (calls w) t p'"
    using step kn by (auto simp: fresh_def split: sum.splits option.splits)
  with good_same_table [OF inv, of p' w] p t' show ?thesis by auto
qed

lemma finish_held_others:
  assumes "table_ok t" and "claims.held t ids" and "i \<notin> ids"
  shows "claims.held (MarkSucceeded n i st body e t) ids" and "claims.held (MarkFailedRetryable n i reason l e t) ids"
  using claims.finish_held [OF assms(1,2), of "Succeeds n st body e" i]
    claims.finish_held [OF assms(1,2), of "Fails n reason l e" i] assms(3)
  by (simp_all add: Diff_triv)

lemma step_mark_failed:
  assumes inv: "idem_inv env cfg calls t ph" and p: "ph w = AtMarkFailed i reason"
    and step: "idem_step env cfg (calls w) inp (AtMarkFailed i reason) t = (p', t', m)"
  shows "step_good env cfg calls t ph w p' t'"
proof -
  let ?t = "MarkFailedRetryable (ii_dbnow inp) i (if reason = '''' then ''EXECUTION_FAILED'' else reason)
      (time_add (ii_clock inp) (FailedRetryBackoff cfg)) (ic_expiresAt (calls w)) t"
  note parts = inv_parts [OF inv]
  have own: "owns (ph w) i" by (simp add: p)
  from step have pt: "p' = Returned (Inl (ExecFailed reason))" "t' = took_effect (ii_fault inp) t ?t"
    by (simp_all add: Let_def)
  have "step_good env cfg calls t ph w p' ?t"
    unfolding pt
    by (rule good_no_owner [OF finish_table_inv(2) [OF parts(1)] finish_evolves(2) [OF parts(7) [OF own]]
        finish_held_others(2) [OF parts(2,5) parts(6) [OF own]]])
  moreover have "step_good env cfg calls t ph w p' t"
    unfolding pt by (rule good_same_table [OF inv]) (simp_all add: fresh_def)
  ultimately show ?thesis by (simp add: pt took_effect_def)
qed

lemma step_mark_succeeded:
  assumes inv: "idem_inv env cfg calls t ph" and p: "ph w = AtMarkSucceeded i b d"
    and step: "idem_step env cfg (calls w) inp (AtMarkSucceeded i b d) t = (p', t', m)"
  shows "step_good env cfg calls t ph w p' t'"
proof -
  let ?t = "MarkSucceeded (ii_dbnow inp) i 200 b (ic_expiresAt (calls w)) t"
  note parts = inv_parts [OF inv]
  have own: "owns (ph w) i" by (simp add: p)
  have kn: "knows (calls w) t i (\<lambda>r. True)" and b: "marshalStoredResponse env cfg d = Some b"
    using parts(3) [of w] p by simp_all
  note tab = finish_table_inv(1) [OF parts(1), of "ii_dbnow inp" i 200 b w]
  note evo = finish_evolves(1) [OF parts(7) [OF own], of "ii_dbnow inp" 200 b "ic_expiresAt (calls w)"]
  note held = finish_held_others(1) [OF parts(2,5) parts(6) [OF own], of "ii_dbnow inp" 200 b "ic_expiresAt (calls w)"]
  show ?thesis
  proof (cases "ii_fault inp = Works")
    case False
    with step have "p' = Returned (Inl StoreUnavail)" "t' = t \<or> t' = ?t"
      by (auto simp: Let_def took_effect_def split: if_splits)
    moreover have "step_good env cfg calls t ph w (Returned (Inl StoreUnavail)) t"
      by (rule good_same_table [OF inv]) (simp_all add: fresh_def)
    ultimately show ?thesis using good_no_owner [OF tab evo held] by auto
  next
    case True
    let ?res = "\<lparr>ier_Data = d, ier_Replayed = False\<rparr>"
    from True step have pt: "p' = Returned (Inr ?res)" "t' = ?t" by (auto simp: Let_def took_effect_def)
    obtain r where r: "idem_row t i = Some r" "idem_key r = call_key (calls w)"
      "ir_RequestFingerprint r = ic_Fingerprint (calls w)" using kn by (auto simp: knows_def)
    have "knows (calls w) ?t i (stored env cfg ?res)"
      using r b by (simp add: knows_def succeed_row succeed_update_def stored_def idem_key_def)
    then have fact: "phase_fact env cfg (calls w) ?t p'" by (auto simp: pt)
    have busy: "ir_Status r = IdempotencyStatusProcessing"
      using parts(7) [OF own] r(1) by (simp add: row_status_def)
    have "call_key (calls v) \<noteq> call_key (calls w)" if "fresh (ph v)" for v
    proof
      assume same: "call_key (calls v) = call_key (calls w)"
      from that obtain res where "ph v = Returned (Inr res)" by (auto simp: fresh_def)
      with parts(3) [of v] obtain j r' where r': "idem_row t j = Some r'" "idem_key r' = call_key (calls v)"
        "ir_Status r' = IdempotencyStatusSucceeded" by (auto simp: knows_def stored_def)
      have "i = j" by (rule same_key_same_row [OF parts(2) r(1) r'(1)]) (simp add: r(2) r'(2) same)
      with r(1) r' busy show False by (simp add: idem_status_defs)
    qed
    with tab evo held fact show ?thesis by (simp add: step_good_def pt)
  qed
qed

lemma idem_step_good:
  assumes inv: "idem_inv env cfg calls t ph" and win: "in_window calls"
    and step: "idem_step env cfg (calls w) inp (ph w) t = (p', t', m)"
  shows "step_good env cfg calls t ph w p' t'"
proof (cases "ph w")
  case AtCreate
  show ?thesis by (rule step_create [OF inv AtCreate]) (use step AtCreate in \<open>simp_all only:\<close>)
next
  case AtGet
  show ?thesis by (rule step_get [OF inv win AtGet]) (use step AtGet in \<open>simp_all only:\<close>)
next
  case (AtReclaimExpired r)
  with inv_parts(3) [OF inv, of w] show ?thesis by simp
next
  case AtReget
  with inv_parts(3) [OF inv, of w] show ?thesis by simp
next
  case (AtReclaimFailed r)
  show ?thesis by (rule step_reclaim [OF inv AtReclaimFailed]) (use step AtReclaimFailed in \<open>simp_all only:\<close>)
next
  case (AtExecute i)
  show ?thesis by (rule step_execute [OF inv AtExecute]) (use step AtExecute in \<open>simp_all only:\<close>)
next
  case (AtMarkFailed i r)
  show ?thesis by (rule step_mark_failed [OF inv AtMarkFailed]) (use step AtMarkFailed in \<open>simp_all only:\<close>)
next
  case (AtMarkSucceeded i b d)
  show ?thesis by (rule step_mark_succeeded [OF inv AtMarkSucceeded]) (use step AtMarkSucceeded in \<open>simp_all only:\<close>)
next
  case (Returned res)
  with step have pt: "p' = ph w" "t' = t" by simp_all
  have "others w ph \<union> {i. owns (ph w) i} \<subseteq> owned ph" by (auto simp: others_def owned_def)
  with inv_parts [OF inv] show ?thesis unfolding step_good_def pt by (auto intro: held_subset)
qed

lemma idem_reach_inv:
  assumes "idem_reach env cfg calls t ph" and win: "in_window calls"
  shows "idem_inv env cfg calls t ph"
  using assms(1)
proof (induction rule: idem_reach.induct)
  case start
  have "owned (\<lambda>w. AtCreate :: 'a idem_phase) = {}" by (simp add: owned_def)
  then show ?case
    by (simp add: idem_inv_def table_inv_def table_ok_def expiries_ok_def idem_row_def claims.held_def fresh_def)
next
  case (work t ph w inp p' t' m)
  from good_step_inv [OF work.IH idem_step_good [OF work.IH win work.hyps(2)]] show ?case .
next
  case (cleanup t ph clock limit)
  then have "table_inv calls t" by (simp add: idem_inv_def)
  from delete_nothing [OF this cleanup.hyps(2)] cleanup.IH show ?case by simp
qed

section \<open>Properties of the interleavings\<close>

text \<open>
  C8. At most one request at a time runs a key: whatever the interleaving of the statements of
  all requests, however the statements fail, and however often the clean-up runs, two requests
  with the same scope and key are never both between claim and mark, as long as no record has
  expired.
\<close>

theorem idem_runs_exclusively:
  assumes "idem_reach env cfg calls t ph" and "in_window calls"
    and "owns (ph v) i" and "owns (ph w) j" and "call_key (calls v) = call_key (calls w)"
  shows "v = w"
proof -
  note inv = idem_reach_inv [OF assms(1,2)]
  have k: "knows (calls u) t k (\<lambda>r. True)" if "owns (ph u) k" for u k
    using inv_parts(3) [OF inv, of u] that by (cases "ph u") auto
  from k [OF assms(3)] k [OF assms(4)] obtain r r' where
    "idem_row t i = Some r" "idem_row t j = Some r'" "idem_key r = idem_key r'"
    using assms(5) by (auto simp: knows_def)
  then have "i = j" by (rule same_key_same_row [OF inv_parts(2) [OF inv]])
  with assms(3,4) inv show ?thesis unfolding idem_inv_def by blast
qed

text \<open>
  C9. While no record expires, a key succeeds at most once, and then answers: when a request has
  returned its own result, no other request with the key is running or returns a result of its own;
  every one that returns data was given the stored form of that result, and had the same fingerprint.
  No record expires: every request comes before the expiry of the record of every other one. After the
  expiry a key is reclaimed and may succeed again.
\<close>

theorem idem_succeeds_once:
  assumes "idem_reach env cfg calls t ph" and "in_window calls"
    and "ph v = Returned (Inr res)" and "\<not> ier_Replayed res"
    and "call_key (calls v) = call_key (calls w)"
  shows "\<not> owns (ph w) i \<and>
    (\<forall>s. ph w = Returned (Inr s) \<longrightarrow> ic_Fingerprint (calls w) = ic_Fingerprint (calls v) \<and>
       (if ier_Replayed s
        then decodeStoredResponse env (marshalStoredResponse env cfg (ier_Data res)) = Some (ier_Data s)
        else w = v))"
proof -
  note inv = idem_reach_inv [OF assms(1,2)]
  note parts = inv_parts [OF inv]
  from parts(3) [of v] assms(3) obtain k r where r: "idem_row t k = Some r"
    "idem_key r = call_key (calls v)" "ir_RequestFingerprint r = ic_Fingerprint (calls v)" "stored env cfg res r"
    by (auto simp: knows_def)
  have succ: "ir_Status r = IdempotencyStatusSucceeded"
    and body: "marshalStoredResponse env cfg (ier_Data res) = ir_ResponseBody r"
    using r(4) assms(4) by (simp_all add: stored_def)
  have "\<not> owns (ph w) i"
  proof
    assume own: "owns (ph w) i"
    then have "knows (calls w) t i (\<lambda>r. True)" using parts(3) [of w] by (cases "ph w") auto
    then obtain r' where r': "idem_row t i = Some r'" "idem_key r' = call_key (calls w)"
      by (auto simp: knows_def)
    have "i = k" by (rule same_key_same_row [OF parts(2) r'(1) r(1)]) (simp add: r'(2) r(2) assms(5))
    with parts(7) [OF own] r(1) succ show False by (simp add: row_status_def idem_status_defs)
  qed
  moreover have "ic_Fingerprint (calls w) = ic_Fingerprint (calls v) \<and>
       (if ier_Replayed s
        then decodeStoredResponse env (marshalStoredResponse env cfg (ier_Data res)) = Some (ier_Data s)
        else w = v)" if s: "ph w = Returned (Inr s)" for s
  proof -
    from parts(3) [of w] s obtain j r' where r': "idem_row t j = Some r'" "idem_key r' = call_key (calls w)"
      "ir_RequestFingerprint r' = ic_Fingerprint (calls w)" "stored env cfg s r'"
      by (auto simp: knows_def)
    have "j = k" by (rule same_key_same_row [OF parts(2) r'(1) r(1)]) (simp add: r'(2) r(2) assms(5))
    with r(1) r'(1) have "r' = r" by simp
    moreover have "w = v" if "\<not> ier_Replayed s"
      using inv assms(3-5) s that unfolding idem_inv_def fresh_def by metis
    ultimately show ?thesis using r(3) r'(3,4) body by (auto simp: stored_def)
  qed
  ultimately show ?thesis by blast
qed

section \<open>Properties of one request\<close>

fun idem_rank :: "'d idem_phase \<Rightarrow> nat" where
  "idem_rank AtCreate = 7"
| "idem_rank AtGet = 6"
| "idem_rank (AtReclaimExpired r) = 5"
| "idem_rank AtReget = 4"
| "idem_rank (AtReclaimFailed r) = 3"
| "idem_rank (AtExecute i) = 2"
| "idem_rank (AtMarkFailed i r) = 1"
| "idem_rank (AtMarkSucceeded i b d) = 1"
| "idem_rank (Returned res) = 0"

lemma switch_rank: "3 \<le> n \<Longrightarrow> idem_rank (fst (idem_switch env c ex t)) \<le> n"
  by (simp add: idem_switch_def idem_unavail_def split: option.split)

lemma claimed_rank: "2 \<le> n \<Longrightarrow> idem_rank (fst (idem_claimed rid mode t)) \<le> n"
  by (simp add: idem_claimed_def)

lemma step_rank: "idem_rank (fst (idem_step env cfg c inp p t)) \<le> idem_rank p - 1"
  by (cases p) (simp_all add: Let_def case_prod_beta idem_unavail_def claimed_rank switch_rank
      split: option.split sum.split)

text \<open>
  Every request returns: after at most seven steps, whatever the statements, the table and
  the request itself do.
\<close>

lemma idem_returns:
  assumes "7 \<le> length inps"
  shows "\<exists>res. fst (idem_run env cfg call inps AtCreate t) = Returned res"
proof -
  have "idem_rank (fst (idem_run env cfg call inps p t)) \<le> idem_rank p - length inps" for p t
  proof (induction inps arbitrary: p t)
    case Nil
    then show ?case by simp
  next
    case (Cons inp inps)
    let ?s = "idem_step env cfg call inp p t"
    have "idem_rank (fst (idem_run env cfg call inps (fst ?s) (fst (snd ?s)))) \<le>
        idem_rank (fst ?s) - length inps" by (rule Cons.IH)
    with step_rank [of env cfg call inp p t] show ?case by (simp add: case_prod_beta)
  qed
  from this [of AtCreate t] assms have "idem_rank (fst (idem_run env cfg call inps AtCreate t)) = 0"
    by simp
  then show ?thesis by (cases "fst (idem_run env cfg call inps AtCreate t)") auto
qed

lemma valid_prefix:
  "valid_prefix_len s n \<le> n \<and> utf8_valid (take (valid_prefix_len s n) s)"
  by (induction n) (simp_all add: le_SucI)

text \<open>
  C39. What is stored of a result is bounded: at most the configured length and the mark of
  truncation, and it is valid UTF-8 when the redacted text is or was cut.
\<close>

theorem stored_response_bounded:
  assumes "marshalStoredResponse env cfg data = Some body" and "0 < MaxStoredResponseLen cfg"
  shows "\<exists>raw. ie_marshal env data = Some raw \<and>
    (if int (length (ie_redact env raw)) \<le> MaxStoredResponseLen cfg then body = ie_redact env raw
     else \<exists>p. body = p @ ''...(truncated)'' \<and> prefix p (ie_redact env raw) \<and> utf8_valid p \<and>
            int (length p) \<le> MaxStoredResponseLen cfg)"
proof -
  from assms(1) obtain raw where raw: "ie_marshal env data = Some raw"
    by (auto simp: marshalStoredResponse_def split: option.splits)
  let ?s = "ie_redact env raw"
  let ?k = "valid_prefix_len ?s (nat (MaxStoredResponseLen cfg))"
  show ?thesis
  proof (cases "int (length ?s) \<le> MaxStoredResponseLen cfg")
    case True
    with assms raw show ?thesis by (simp add: marshalStoredResponse_def Let_def)
  next
    case False
    with assms raw have "body = take ?k ?s @ ''...(truncated)''"
      by (simp add: marshalStoredResponse_def Let_def truncateUTF8_def)
    moreover have "int (length (take ?k ?s)) \<le> MaxStoredResponseLen cfg"
    proof -
      have "length (take ?k ?s) \<le> nat (MaxStoredResponseLen cfg)"
        using valid_prefix [of ?s "nat (MaxStoredResponseLen cfg)"] by (simp add: min.coboundedI2)
      then show ?thesis using assms(2) by linarith
    qed
    ultimately show ?thesis
      using raw False valid_prefix [of ?s "nat (MaxStoredResponseLen cfg)"]
      by (auto intro!: exI [of _ "take ?k ?s"] simp: take_is_prefix)
  qed
qed

text \<open>
  The lock of a running request is never taken over before its record expires: a later
  request is told that the key is in progress and changes no row, even when the processing lock
  ran out long ago.
\<close>

theorem processing_not_reclaimed:
  assumes "table_ok t" and "r \<in> set (it_rows t)" and "idem_key r = call_key call"
    and "ir_RequestFingerprint r = ic_Fingerprint call" and "ir_Status r = IdempotencyStatusProcessing"
    and "ic_now call < ir_ExpiresAt r" and "ii_fault i1 = Works" and "ii_fault i2 = Works"
  shows "let (p, t') = idem_run env cfg call [i1, i2] AtCreate t
    in p = Returned (Inl (InProgress (retryAfter (ir_LockedUntil r) (ic_now call)))) \<and>
       it_rows t' = it_rows t"
proof -
  have key: "idem_key (idem_record call) = idem_key r"
    using assms(3) by (simp add: idem_record_def idem_key_def call_key_def)
  let ?c = "CreateProcessing (ii_dbnow i1) (idem_record call) t"
  have "snd ?c = None"
  proof (rule ccontr)
    assume "snd ?c \<noteq> None"
    then obtain r' where "snd ?c = Some r'" by auto
    from create_owner(7) [OF this] assms(2) key show False by auto
  qed
  moreover from create_conflict [OF this] have rows: "it_rows (fst ?c) = it_rows t" by blast
  moreover have "GetByScopeAndKeyHash (ic_Scope call) (ic_KeyHash call) (fst ?c) = Some r"
    using in_get [OF create_ok [OF assms(1)], of r] rows assms(2,3)
    by (simp add: idem_key_def call_key_def)
  ultimately show ?thesis
    using assms by (simp add: Let_def case_prod_beta took_effect_def idem_switch_def go_time idem_status_defs)
qed

text \<open>
  A key that is accepted is trimmed, at most 128 bytes long and made of printable ASCII
  only, and normalising it again changes nothing.
\<close>

theorem key_normalised:
  assumes "NormalizeIdempotencyKey raw = Inr key"
  shows "NormalizeIdempotencyKey key = Inr key \<and> key = trim_space raw \<and> length key \<le> 128 \<and>
    list_all (\<lambda>c. 33 \<le> (of_char c :: nat) \<and> (of_char c :: nat) \<le> 126) key"
proof -
  from assms have k: "key = trim_space raw"
    by (auto simp: NormalizeIdempotencyKey_def Let_def split: if_splits)
  then have "trim_space key = key" by simp
  with assms k show ?thesis
    by (auto simp: NormalizeIdempotencyKey_def Let_def list_ex_iff list_all_iff not_less split: if_splits)
qed

section \<open>Instances\<close>

definition sample_env :: "string idem_env" where
  "sample_env = \<lparr>ie_sha256 = (\<lambda>s. s), ie_upper = (\<lambda>s. s), ie_marshal = Some, ie_unmarshal = Some,
     ie_redact = (\<lambda>s. s), ie_empty = ''{}''\<rparr>"

definition sample_claim :: idem_call where
  "sample_claim = \<lparr>ic_Scope = ''orders'', ic_KeyHash = ''k'', ic_Fingerprint = ''f'', ic_now = 100,
     ic_lockedUntil = 130, ic_expiresAt = 200\<rparr>"

definition sample_input :: "string idem_input" where
  "sample_input = \<lparr>ii_fault = Works, ii_clock = 100, ii_dbnow = 100, ii_result = Inr ''done''\<rparr>"

definition claim_row :: IdempotencyRecord where
  "claim_row = \<lparr>ir_ID = 1, ir_Scope = ''orders'', ir_IdempotencyKeyHash = ''k'', ir_RequestFingerprint = ''f'',
     ir_Status = ''processing'', ir_ResponseStatus = None, ir_ResponseBody = None, ir_ErrorReason = None,
     ir_LockedUntil = Some 130, ir_ExpiresAt = 200, ir_CreatedAt = 100, ir_UpdatedAt = 100\<rparr>"

definition done_row :: IdempotencyRecord where
  "done_row = claim_row\<lparr>ir_Status := ''succeeded'', ir_ResponseStatus := Some 200,
     ir_ResponseBody := Some ''done'', ir_LockedUntil := None\<rparr>"

abbreviation sample_reach :: "idem_table \<Rightarrow> (nat \<Rightarrow> string idem_phase) \<Rightarrow> bool" where
  "sample_reach \<equiv> idem_reach sample_env DefaultIdempotencyConfig (\<lambda>w. sample_claim)"

lemma sample_window: "in_window (\<lambda>w. sample_claim)"
  by (simp add: in_window_def sample_claim_def)

definition two_phases :: "'d idem_phase \<Rightarrow> 'd idem_phase \<Rightarrow> nat \<Rightarrow> 'd idem_phase" where
  "two_phases p q = (\<lambda>w. AtCreate)(0 := p, 1 := q)"

lemma sample_step_0:
  assumes "sample_reach t (two_phases p q)"
    and "idem_step sample_env DefaultIdempotencyConfig sample_claim sample_input p t = (p', t', m)"
  shows "sample_reach t' (two_phases p' q)"
proof -
  have "sample_reach t' ((two_phases p q)(0 := p'))"
    by (rule idem_reach.work [OF assms(1), where w = 0]) (use assms(2) in \<open>simp add: two_phases_def\<close>)
  then show ?thesis by (simp add: two_phases_def fun_upd_twist)
qed

lemma sample_step_1:
  assumes "sample_reach t (two_phases p q)"
    and "idem_step sample_env DefaultIdempotencyConfig sample_claim sample_input q t = (q', t', m)"
  shows "sample_reach t' (two_phases p q')"
proof -
  have "sample_reach t' ((two_phases p q)(1 := q'))"
    by (rule idem_reach.work [OF assms(1), where w = 1]) (use assms(2) in \<open>simp add: two_phases_def\<close>)
  then show ?thesis by (simp add: two_phases_def)
qed

lemma sample_started: "sample_reach \<lparr>it_rows = [], it_next = 1\<rparr> (two_phases AtCreate AtCreate)"
proof -
  have "two_phases AtCreate (AtCreate :: string idem_phase) = (\<lambda>w. AtCreate)" by (simp add: fun_eq_iff two_phases_def)
  then show ?thesis by (simp only: idem_reach.start)
qed

lemma sample_claimed: "sample_reach \<lparr>it_rows = [claim_row], it_next = 3\<rparr> (two_phases (AtExecute 1) AtGet)"
proof -
  have "idem_step sample_env DefaultIdempotencyConfig sample_claim sample_input AtCreate
      \<lparr>it_rows = [], it_next = 1\<rparr> = (AtExecute 1, \<lparr>it_rows = [claim_row], it_next = 2\<rparr>, [MetricClaim ''new_claim''])"
    by code_simp
  from sample_step_0 [OF sample_started this]
  have s: "sample_reach \<lparr>it_rows = [claim_row], it_next = 2\<rparr> (two_phases (AtExecute 1) AtCreate)" .
  have "idem_step sample_env DefaultIdempotencyConfig sample_claim sample_input AtCreate
      \<lparr>it_rows = [claim_row], it_next = 2\<rparr> = (AtGet, \<lparr>it_rows = [claim_row], it_next = 3\<rparr>, [])"
    by code_simp
  from sample_step_1 [OF s this] show ?thesis .
qed

lemma sample_finished: "sample_reach \<lparr>it_rows = [done_row], it_next = 3\<rparr>
    (two_phases (Returned (Inr \<lparr>ier_Data = ''done'', ier_Replayed = False\<rparr>))
       (Returned (Inr \<lparr>ier_Data = ''done'', ier_Replayed = True\<rparr>)))"
proof -
  let ?t = "\<lparr>it_rows = [claim_row], it_next = 3\<rparr>"
  let ?u = "\<lparr>it_rows = [done_row], it_next = 3\<rparr>"
  have "idem_step sample_env DefaultIdempotencyConfig sample_claim sample_input (AtExecute 1) ?t =
      (AtMarkSucceeded 1 ''done'' ''done'', ?t, [])" by code_simp
  note s = sample_step_0 [OF sample_claimed this]
  have "idem_step sample_env DefaultIdempotencyConfig sample_claim sample_input
      (AtMarkSucceeded 1 ''done'' ''done'') ?t =
      (Returned (Inr \<lparr>ier_Data = ''done'', ier_Replayed = False\<rparr>), ?u, [MetricDuration])" by code_simp
  note s = sample_step_0 [OF s this]
  have "idem_step sample_env DefaultIdempotencyConfig sample_claim sample_input AtGet ?u =
      (Returned (Inr \<lparr>ier_Data = ''done'', ier_Replayed = True\<rparr>), ?u, [MetricReplay])" by code_simp
  from sample_step_1 [OF s this] show ?thesis .
qed

theorem idem_runs_exclusively_witness:
  "{w. owns (two_phases (AtExecute 1) (AtGet :: string idem_phase) w) 1} = {0}"
proof -
  have own: "owns (two_phases (AtExecute 1) (AtGet :: string idem_phase) 0) 1" by (simp add: two_phases_def)
  with idem_runs_exclusively [OF sample_claimed sample_window own] show ?thesis by blast
qed

theorem idem_succeeds_once_witness:
  "decodeStoredResponse sample_env (marshalStoredResponse sample_env DefaultIdempotencyConfig ''done'') = Some ''done''"
  using idem_succeeds_once [OF sample_finished sample_window, of 0 "\<lparr>ier_Data = ''done'', ier_Replayed = False\<rparr>" 1 0]
  by (simp add: two_phases_def)


theorem stored_response_bounded_witness:
  "\<exists>raw. ie_marshal sample_env ''abcdef'' = Some raw \<and>
    (if int (length (ie_redact sample_env raw)) \<le> 4 then ''abcd...(truncated)'' = ie_redact sample_env raw
     else \<exists>p. ''abcd...(truncated)'' = p @ ''...(truncated)'' \<and> prefix p (ie_redact sample_env raw) \<and>
            utf8_valid p \<and> int (length p) \<le> 4)"
proof -
  have "marshalStoredResponse sample_env (DefaultIdempotencyConfig\<lparr>MaxStoredResponseLen := 4\<rparr>) ''abcdef'' =
      Some ''abcd...(truncated)''"
    by (simp add: marshalStoredResponse_def sample_env_def DefaultIdempotencyConfig_def truncateUTF8_def
        utf8_cont_def eval_nat_numeral Let_def)
  moreover have max: "MaxStoredResponseLen (DefaultIdempotencyConfig\<lparr>MaxStoredResponseLen := 4\<rparr>) = 4"
    by simp
  then have "0 < MaxStoredResponseLen (DefaultIdempotencyConfig\<lparr>MaxStoredResponseLen := 4\<rparr>)" by linarith
  ultimately have "\<exists>raw. ie_marshal sample_env ''abcdef'' = Some raw \<and>
    (if int (length (ie_redact sample_env raw)) \<le> MaxStoredResponseLen (DefaultIdempotencyConfig\<lparr>MaxStoredResponseLen := 4\<rparr>)
     then ''abcd...(truncated)'' = ie_redact sample_env raw
     else \<exists>p. ''abcd...(truncated)'' = p @ ''...(truncated)'' \<and> prefix p (ie_redact sample_env raw) \<and>
            utf8_valid p \<and> int (length p) \<le> MaxStoredResponseLen (DefaultIdempotencyConfig\<lparr>MaxStoredResponseLen := 4\<rparr>))"
    by (rule stored_response_bounded)
  then show ?thesis unfolding max .
qed

theorem processing_not_reclaimed_witness:
  "let (p, t') = idem_run sample_env DefaultIdempotencyConfig (sample_claim\<lparr>ic_now := 150\<rparr>)
                   [sample_input, sample_input] AtCreate \<lparr>it_rows = [claim_row], it_next = 2\<rparr>
   in p = Returned (Inl (InProgress (Some 1))) \<and> it_rows t' = [claim_row]"
proof -
  let ?t = "\<lparr>it_rows = [claim_row], it_next = 2\<rparr>"
  let ?c = "sample_claim\<lparr>ic_now := 150\<rparr>"
  have ok: "table_ok ?t" by (simp add: table_ok_def claim_row_def)
  have mem: "claim_row \<in> set (it_rows ?t)" by simp
  have key: "idem_key claim_row = call_key ?c" "ir_RequestFingerprint claim_row = ic_Fingerprint ?c"
    by (simp_all add: claim_row_def sample_claim_def idem_key_def call_key_def)
  have st: "ir_Status claim_row = IdempotencyStatusProcessing" "ic_now ?c < ir_ExpiresAt claim_row"
    by (simp_all add: claim_row_def idem_status_defs)
  have w: "ii_fault sample_input = Works" by (simp add: sample_input_def)
  have "retryAfter (ir_LockedUntil claim_row) (ic_now ?c) = Some 1" by code_simp
  with processing_not_reclaimed [OF ok mem key st w w, of sample_env DefaultIdempotencyConfig]
  show ?thesis unfolding Let_def case_prod_beta by (simp only: idem_table.select_convs)
qed

theorem key_normalised_witness:
  "NormalizeIdempotencyKey ''order-1'' = Inr ''order-1'' \<and> length ''order-1'' \<le> 128"
proof -
  have "NormalizeIdempotencyKey '' order-1 '' = Inr ''order-1''" by code_simp
  from key_normalised [OF this] show ?thesis by blast
qed

end
