(* ===== verification/Stream_Circuit.thy ===== *)
theory Stream_Circuit
  imports Prelude
begin

text \<open>
  backend/internal/service/openai_proxy_stream_circuit.go: the in-process circuit breaker that
  quarantines an outbound proxy after repeated stream disconnects. Each operation holds the
  circuit's mutex, so operations happen one after the other. The order in which Go ranges over
  the entries is the argument \<open>ord\<close>; of it only \<open>order_ok\<close> is used, that it visits exactly
  the keys of the map.
\<close>

section \<open>Settings and state\<close>

record openAIProxyStreamCircuitSettings =
  pcs_disabled :: bool
  pcs_failureThreshold :: int
  pcs_failureWindow :: duration
  pcs_quarantineTTL :: duration
  pcs_collapseInterval :: duration
  pcs_maxEntries :: int

record openAIProxyStreamCircuitEntry =
  pce_failureCount :: int
  pce_windowStart :: time
  pce_lastFailureAt :: time
  pce_blockedUntil :: time
  pce_lastTouched :: time

type_synonym circuit_entries = "(int, openAIProxyStreamCircuitEntry) gomap"

record openAIProxyStreamCircuit =
  pc_settings :: openAIProxyStreamCircuitSettings
  pc_entries :: circuit_entries

definition zero_pce :: openAIProxyStreamCircuitEntry where
  "zero_pce = \<lparr>pce_failureCount = 0, pce_windowStart = 0, pce_lastFailureAt = 0,
     pce_blockedUntil = 0, pce_lastTouched = 0\<rparr>"

text \<open>The section of the configuration file: disabled, threshold, window and TTL in seconds.\<close>

record circuit_config =
  ccfg_Disabled :: bool
  ccfg_FailureThreshold :: int
  ccfg_WindowSeconds :: int
  ccfg_TTLSeconds :: int

definition defaultSettings :: openAIProxyStreamCircuitSettings where
  "defaultSettings = \<lparr>pcs_disabled = False, pcs_failureThreshold = 2, pcs_failureWindow = minute,
     pcs_quarantineTTL = 10 * minute, pcs_collapseInterval = 3 * second, pcs_maxEntries = 4096\<rparr>"

definition resolveOpenAIProxyStreamCircuitSettings ::
  "circuit_config option \<Rightarrow> openAIProxyStreamCircuitSettings" where
  "resolveOpenAIProxyStreamCircuitSettings cfg =
     (case cfg of
        None \<Rightarrow> defaultSettings
      | Some c \<Rightarrow>
          let s = defaultSettings\<lparr>pcs_disabled := ccfg_Disabled c\<rparr>;
              s = (if 0 < ccfg_FailureThreshold c then s\<lparr>pcs_failureThreshold := ccfg_FailureThreshold c\<rparr> else s);
              s = (if 0 < ccfg_WindowSeconds c then s\<lparr>pcs_failureWindow := seconds (ccfg_WindowSeconds c)\<rparr> else s)
          in if 0 < ccfg_TTLSeconds c then s\<lparr>pcs_quarantineTTL := seconds (ccfg_TTLSeconds c)\<rparr> else s)"

definition newOpenAIProxyStreamCircuit :: "openAIProxyStreamCircuitSettings \<Rightarrow> openAIProxyStreamCircuit" where
  "newOpenAIProxyStreamCircuit s =
     (let s = (if pcs_failureThreshold s \<le> 0 then s\<lparr>pcs_failureThreshold := 2\<rparr> else s);
          s = (if pcs_failureWindow s \<le> 0 then s\<lparr>pcs_failureWindow := minute\<rparr> else s);
          s = (if pcs_quarantineTTL s \<le> 0 then s\<lparr>pcs_quarantineTTL := 10 * minute\<rparr> else s);
          s = (if pcs_maxEntries s \<le> 0 then s\<lparr>pcs_maxEntries := 4096\<rparr> else s);
          s = (if pcs_collapseInterval s < 0 then s\<lparr>pcs_collapseInterval := 0\<rparr> else s)
      in \<lparr>pc_settings = s, pc_entries = []\<rparr>)"

section \<open>Making room\<close>

type_synonym circuit_order = "circuit_entries \<Rightarrow> int list"

definition order_ok :: "circuit_order \<Rightarrow> bool" where
  "order_ok ord \<longleftrightarrow> (\<forall>m. set (ord m) = gkeys m)"

definition removable :: "openAIProxyStreamCircuitSettings \<Rightarrow> time \<Rightarrow> openAIProxyStreamCircuitEntry \<Rightarrow> bool" where
  "removable s now e \<longleftrightarrow>
     (let staleObservation = time_is_zero (pce_blockedUntil e) \<and>
            pcs_failureWindow s < time_sub now (pce_lastTouched e);
          expiredQuarantine = \<not> time_is_zero (pce_blockedUntil e) \<and> \<not> time_before now (pce_blockedUntil e)
      in staleObservation \<or> expiredQuarantine)"

fun oldest_entry :: "circuit_entries \<Rightarrow> int list \<Rightarrow> int \<times> time \<Rightarrow> int \<times> time" where
  "oldest_entry m [] acc = acc"
| "oldest_entry m (k # ks) (oldestProxyID, oldest) =
     (case gget m k of
        None \<Rightarrow> oldest_entry m ks (oldestProxyID, oldest)
      | Some e \<Rightarrow>
          if oldestProxyID = 0 \<or> time_before (pce_lastTouched e) oldest
          then oldest_entry m ks (k, pce_lastTouched e)
          else oldest_entry m ks (oldestProxyID, oldest))"

definition ensureCapacityLocked ::
  "circuit_order \<Rightarrow> openAIProxyStreamCircuit \<Rightarrow> time \<Rightarrow> openAIProxyStreamCircuit" where
  "ensureCapacityLocked ord c now =
     (let s = pc_settings c; m = pc_entries c in
      if int (glen m) < pcs_maxEntries s then c
      else
        let m = gsweep (\<lambda>k e. removable s now e) (ord m) m in
        if int (glen m) < pcs_maxEntries s then c\<lparr>pc_entries := m\<rparr>
        else
          let (oldestProxyID, oldest) = oldest_entry m (ord m) (0, 0)
          in c\<lparr>pc_entries := (if 0 < oldestProxyID then gdel m oldestProxyID else m)\<rparr>)"

section \<open>The operations\<close>

definition recordFailure ::
  "circuit_order \<Rightarrow> openAIProxyStreamCircuit \<Rightarrow> int \<Rightarrow> time \<Rightarrow> openAIProxyStreamCircuit \<times> bool \<times> time" where
  "recordFailure ord c proxyID now =
     (let s = pc_settings c in
      if pcs_disabled s \<or> proxyID \<le> 0 then (c, False, 0)
      else
        let found = gget (pc_entries c) proxyID;
            entry = (case found of None \<Rightarrow> zero_pce | Some e \<Rightarrow> e)
        in if found \<noteq> None \<and> time_before now (pce_blockedUntil entry) then
             let entry = entry\<lparr>pce_lastTouched := now\<rparr>
             in (c\<lparr>pc_entries := gput (pc_entries c) proxyID entry\<rparr>, False, pce_blockedUntil entry)
           else
             let c = (if found = None then ensureCapacityLocked ord c now else c);
                 entry = (if time_is_zero (pce_windowStart entry) \<or> time_before now (pce_windowStart entry)
                             \<or> pcs_failureWindow s < time_sub now (pce_windowStart entry)
                          then entry\<lparr>pce_failureCount := 0, pce_windowStart := now, pce_blockedUntil := 0\<rparr>
                          else entry)
             in if 0 < pcs_collapseInterval s \<and> \<not> time_is_zero (pce_lastFailureAt entry) \<and>
                   0 \<le> time_sub now (pce_lastFailureAt entry) \<and>
                   time_sub now (pce_lastFailureAt entry) < pcs_collapseInterval s
                then
                  let entry = entry\<lparr>pce_lastTouched := now\<rparr>
                  in (c\<lparr>pc_entries := gput (pc_entries c) proxyID entry\<rparr>, False, 0)
                else
                  let entry = entry\<lparr>pce_failureCount := pce_failureCount entry + 1,
                                pce_lastFailureAt := now, pce_lastTouched := now\<rparr>;
                      tripped = (pcs_failureThreshold s \<le> pce_failureCount entry);
                      entry = (if tripped then entry\<lparr>pce_blockedUntil := time_add now (pcs_quarantineTTL s)\<rparr>
                               else entry)
                  in (c\<lparr>pc_entries := gput (pc_entries c) proxyID entry\<rparr>, tripped, pce_blockedUntil entry))"

definition recordSuccess :: "openAIProxyStreamCircuit \<Rightarrow> int \<Rightarrow> openAIProxyStreamCircuit \<times> bool" where
  "recordSuccess c proxyID =
     (if proxyID \<le> 0 then (c, False)
      else if gget (pc_entries c) proxyID = None then (c, False)
      else (c\<lparr>pc_entries := gdel (pc_entries c) proxyID\<rparr>, True))"

definition isBlocked :: "openAIProxyStreamCircuit \<Rightarrow> int \<Rightarrow> time \<Rightarrow> openAIProxyStreamCircuit \<times> bool" where
  "isBlocked c proxyID now =
     (if pcs_disabled (pc_settings c) \<or> proxyID \<le> 0 then (c, False)
      else case gget (pc_entries c) proxyID of
        None \<Rightarrow> (c, False)
      | Some entry \<Rightarrow>
          if time_is_zero (pce_blockedUntil entry) then (c, False)
          else if \<not> time_before now (pce_blockedUntil entry) then
            (c\<lparr>pc_entries := gdel (pc_entries c) proxyID\<rparr>, False)
          else (c, True))"

definition activeBlockCount :: "openAIProxyStreamCircuit \<Rightarrow> time \<Rightarrow> int" where
  "activeBlockCount c now =
     (if pcs_disabled (pc_settings c) then 0
      else int (length (filter (\<lambda>(k, e). \<not> time_is_zero (pce_blockedUntil e) \<and>
             time_before now (pce_blockedUntil e)) (pc_entries c))))"

section \<open>The callers\<close>

text \<open>The fields of an account that the circuit looks at.\<close>

record circuit_account =
  ca_Platform :: string
  ca_ProxyID :: "int option"

definition openAIProxyStreamCircuitProxyID :: "circuit_account option \<Rightarrow> int option" where
  "openAIProxyStreamCircuitProxyID account =
     (case account of
        None \<Rightarrow> None
      | Some a \<Rightarrow>
          if ca_Platform a \<noteq> ''openai'' then None
          else (case ca_ProxyID a of None \<Rightarrow> None | Some i \<Rightarrow> if i \<le> 0 then None else Some i))"

datatype stream_error = NoError | Canceled | DeadlineExceeded | OtherError

definition recordOpenAIProxyStreamDisconnect ::
  "circuit_order \<Rightarrow> openAIProxyStreamCircuit \<Rightarrow> circuit_account option \<Rightarrow> stream_error \<Rightarrow> time \<Rightarrow>
   openAIProxyStreamCircuit" where
  "recordOpenAIProxyStreamDisconnect ord c account streamErr now =
     (case openAIProxyStreamCircuitProxyID account of
        None \<Rightarrow> c
      | Some proxyID \<Rightarrow>
          if streamErr = NoError \<or> streamErr = Canceled \<or> streamErr = DeadlineExceeded then c
          else fst (recordFailure ord c proxyID now))"

definition clearOpenAIProxyStreamDisconnect ::
  "openAIProxyStreamCircuit \<Rightarrow> circuit_account option \<Rightarrow> openAIProxyStreamCircuit" where
  "clearOpenAIProxyStreamDisconnect c account =
     (case openAIProxyStreamCircuitProxyID account of
        None \<Rightarrow> c
      | Some proxyID \<Rightarrow> fst (recordSuccess c proxyID))"

definition isOpenAIProxyStreamQuarantined ::
  "openAIProxyStreamCircuit \<Rightarrow> bool \<Rightarrow> circuit_account option \<Rightarrow> time \<Rightarrow> openAIProxyStreamCircuit \<times> bool" where
  "isOpenAIProxyStreamQuarantined c bypassed account now =
     (case openAIProxyStreamCircuitProxyID account of
        None \<Rightarrow> (c, False)
      | Some proxyID \<Rightarrow> if bypassed then (c, False) else isBlocked c proxyID now)"

section \<open>Invariant: the entries are bounded\<close>

datatype circuit_op =
    OpDisconnect "circuit_account option" stream_error time
  | OpClear "circuit_account option"
  | OpQuery bool "circuit_account option" time

fun circuit_step :: "circuit_order \<Rightarrow> openAIProxyStreamCircuit \<Rightarrow> circuit_op \<Rightarrow> openAIProxyStreamCircuit" where
  "circuit_step ord c (OpDisconnect a e now) = recordOpenAIProxyStreamDisconnect ord c a e now"
| "circuit_step ord c (OpClear a) = clearOpenAIProxyStreamDisconnect c a"
| "circuit_step ord c (OpQuery b a now) = fst (isOpenAIProxyStreamQuarantined c b a now)"

definition circuit_inv :: "openAIProxyStreamCircuit \<Rightarrow> bool" where
  "circuit_inv c \<longleftrightarrow> gmap_ok (pc_entries c) \<and> (\<forall>k \<in> gkeys (pc_entries c). 0 < k) \<and>
     int (glen (pc_entries c)) \<le> pcs_maxEntries (pc_settings c) \<and>
     0 < pcs_maxEntries (pc_settings c) \<and> 0 < pcs_failureWindow (pc_settings c) \<and>
     0 < pcs_quarantineTTL (pc_settings c) \<and> 0 < pcs_failureThreshold (pc_settings c) \<and>
     0 \<le> pcs_collapseInterval (pc_settings c)"

lemma new_circuit_inv: "circuit_inv (newOpenAIProxyStreamCircuit s)"
  by (simp add: circuit_inv_def newOpenAIProxyStreamCircuit_def Let_def gm.ok_empty
      minute_def second_def)

lemma oldest_key:
  assumes "\<forall>k \<in> gkeys m. 0 < k"
  shows "fst acc \<noteq> 0 \<Longrightarrow> fst acc \<in> gkeys m \<Longrightarrow> fst (oldest_entry m ks acc) \<in> gkeys m"
    and "fst acc = 0 \<Longrightarrow> set ks \<inter> gkeys m \<noteq> {} \<Longrightarrow> fst (oldest_entry m ks acc) \<in> gkeys m"
proof -
  have nz: "k \<noteq> 0" if "k \<in> gkeys m" for k using assms that by auto
  have later: "fst (oldest_entry m ks acc) \<in> gkeys m" if "fst acc \<noteq> 0" "fst acc \<in> gkeys m" for ks acc
    using that
  proof (induction ks arbitrary: acc)
    case (Cons k ks)
    obtain i t where acc: "acc = (i, t)" by (cases acc)
    show ?case
    proof (cases "gget m k")
      case None
      with Cons show ?thesis by (simp add: acc)
    next
      case (Some e)
      with Cons.IH [of "(k, pce_lastTouched e)"] Cons.IH [of acc] Cons.prems gget_key [OF Some]
        nz [OF gget_key [OF Some]] show ?thesis by (simp add: acc)
    qed
  qed simp
  then show "fst acc \<noteq> 0 \<Longrightarrow> fst acc \<in> gkeys m \<Longrightarrow> fst (oldest_entry m ks acc) \<in> gkeys m" by blast
  show "fst acc = 0 \<Longrightarrow> set ks \<inter> gkeys m \<noteq> {} \<Longrightarrow> fst (oldest_entry m ks acc) \<in> gkeys m"
  proof (induction ks arbitrary: acc)
    case (Cons k ks)
    obtain t where acc: "acc = (0, t)" using Cons.prems(1) by (cases acc) auto
    show ?case
    proof (cases "gget m k")
      case None
      then have "k \<notin> gkeys m" by (simp add: gget_in_keys)
      with Cons.prems have "set ks \<inter> gkeys m \<noteq> {}" by auto
      with None Cons.IH [of acc] show ?thesis by (simp add: acc)
    next
      case (Some e)
      then have "k \<in> gkeys m" using gget_in_keys [of m k] by auto
      with Some later [of "(k, pce_lastTouched e)" ks] nz show ?thesis by (simp add: acc)
    qed
  qed simp
qed

text \<open>After making room there is room, and no setting has changed.\<close>

lemma sweep_keeps:
  assumes "gmap_ok m" and "\<forall>k \<in> gkeys m. 0 < k"
  shows "gmap_ok (gsweep p ks m)" and "\<forall>k \<in> gkeys (gsweep p ks m). 0 < k"
  using assms gsweep_ok gkeys_gsweep [OF assms(1), of p ks] by blast+

lemma ensure_settings [simp]: "pc_settings (ensureCapacityLocked ord c now) = pc_settings c"
  by (simp add: ensureCapacityLocked_def Let_def case_prod_beta)

lemma ensure_room:
  assumes inv: "circuit_inv c" and ord: "order_ok ord"
  shows "gmap_ok (pc_entries (ensureCapacityLocked ord c now))"
    and "gkeys (pc_entries (ensureCapacityLocked ord c now)) \<subseteq> gkeys (pc_entries c)"
    and "int (glen (pc_entries (ensureCapacityLocked ord c now))) < pcs_maxEntries (pc_settings c)"
proof -
  let ?m = "pc_entries c" and ?max = "pcs_maxEntries (pc_settings c)"
  let ?s = "gsweep (\<lambda>k e. removable (pc_settings c) now e) (ord ?m) ?m"
  let ?v = "fst (oldest_entry ?s (ord ?s) (0, 0))"
  have ok: "gmap_ok ?m" and pos: "\<forall>k \<in> gkeys ?m. 0 < k" and le: "int (glen ?m) \<le> ?max" and max: "0 < ?max"
    using inv by (simp_all add: circuit_inv_def)
  note s = sweep_keeps [OF ok pos, of "\<lambda>k e. removable (pc_settings c) now e" "ord ?m"]
  have sub: "gkeys ?s \<subseteq> gkeys ?m" by (rule gkeys_gsweep [OF ok])
  have len: "int (glen ?s) \<le> ?max" using gsweep_len_le [OF ok] le by (meson of_nat_le_iff order_trans)
  have "gmap_ok (pc_entries (ensureCapacityLocked ord c now)) \<and>
    gkeys (pc_entries (ensureCapacityLocked ord c now)) \<subseteq> gkeys ?m \<and>
    int (glen (pc_entries (ensureCapacityLocked ord c now))) < ?max"
  proof (cases "int (glen ?m) < ?max \<or> int (glen ?s) < ?max")
    case True
    with ok s(1) sub show ?thesis by (auto simp: ensureCapacityLocked_def Let_def)
  next
    case False
    with len max have "glen ?s \<noteq> 0" and full: "int (glen ?s) = ?max" by auto
    then have "gkeys ?s \<noteq> {}" using glen_keys [OF s(1)] by auto
    then have v: "?v \<in> gkeys ?s"
      using oldest_key(2) [OF s(2), of "(0, 0)" "ord ?s"] ord by (simp add: order_ok_def)
    then have "0 < ?v" using s(2) by blast
    with False have e: "pc_entries (ensureCapacityLocked ord c now) = gdel ?s ?v"
      by (simp add: ensureCapacityLocked_def Let_def case_prod_beta)
    have "glen (gdel ?s ?v) = glen ?s - 1"
      using v gm.len_del [OF s(1), of ?v] unfolding gkeys_iff by presburger
    with full max have "int (glen (gdel ?s ?v)) < ?max" by linarith
    with e sub gm.ok_del [OF s(1)] gkeys_gdel [OF s(1)] show ?thesis by auto
  qed
  then show "gmap_ok (pc_entries (ensureCapacityLocked ord c now))"
    and "gkeys (pc_entries (ensureCapacityLocked ord c now)) \<subseteq> gkeys (pc_entries c)"
    and "int (glen (pc_entries (ensureCapacityLocked ord c now))) < pcs_maxEntries (pc_settings c)" by blast+
qed

lemma put_present_inv:
  "circuit_inv c \<Longrightarrow> gget (pc_entries c) k \<noteq> None \<Longrightarrow> circuit_inv (c\<lparr>pc_entries := gput (pc_entries c) k e\<rparr>)"
  by (auto simp: circuit_inv_def gm.ok_put gm.len_put dest: gget_key)

lemma put_new_inv:
  assumes inv: "circuit_inv c" and ord: "order_ok ord" and "0 < k"
  shows "circuit_inv (c\<lparr>pc_entries := gput (pc_entries (ensureCapacityLocked ord c now)) k e\<rparr>)"
proof -
  note r = ensure_room [OF inv ord, of now]
  have "int (glen (gput (pc_entries (ensureCapacityLocked ord c now)) k e)) \<le> pcs_maxEntries (pc_settings c)"
    using r(3) gm.len_put [OF r(1), of k e] by auto
  with r inv assms(3) show ?thesis by (auto simp: circuit_inv_def gm.ok_put)
qed

text \<open>
  What a failure does to the entry of its proxy; \<open>recordFailure\<close> stores the result, after
  making room when the proxy is new.
\<close>

definition fail_entry ::
  "openAIProxyStreamCircuitSettings \<Rightarrow> openAIProxyStreamCircuitEntry option \<Rightarrow> time \<Rightarrow>
   openAIProxyStreamCircuitEntry \<times> bool \<times> time" where
  "fail_entry s found now =
     (let entry = (case found of None \<Rightarrow> zero_pce | Some e \<Rightarrow> e)
      in if found \<noteq> None \<and> now < pce_blockedUntil entry then
           (entry\<lparr>pce_lastTouched := now\<rparr>, False, pce_blockedUntil entry)
         else
           let entry = (if pce_windowStart entry = 0 \<or> now < pce_windowStart entry
                           \<or> pcs_failureWindow s < time_sub now (pce_windowStart entry)
                        then entry\<lparr>pce_failureCount := 0, pce_windowStart := now, pce_blockedUntil := 0\<rparr>
                        else entry)
           in if 0 < pcs_collapseInterval s \<and> pce_lastFailureAt entry \<noteq> 0 \<and>
                 0 \<le> time_sub now (pce_lastFailureAt entry) \<and>
                 time_sub now (pce_lastFailureAt entry) < pcs_collapseInterval s
              then (entry\<lparr>pce_lastTouched := now\<rparr>, False, 0)
              else if pcs_failureThreshold s \<le> pce_failureCount entry + 1
              then (entry\<lparr>pce_failureCount := pce_failureCount entry + 1, pce_lastFailureAt := now,
                       pce_lastTouched := now, pce_blockedUntil := now + pcs_quarantineTTL s\<rparr>,
                    True, now + pcs_quarantineTTL s)
              else (entry\<lparr>pce_failureCount := pce_failureCount entry + 1, pce_lastFailureAt := now,
                       pce_lastTouched := now\<rparr>, False, pce_blockedUntil entry))"

lemma failure_by_entry:
  assumes "\<not> pcs_disabled (pc_settings c)" and "0 < p"
  shows "recordFailure ord c p now =
    (c\<lparr>pc_entries := gput (if gget (pc_entries c) p = None
          then pc_entries (ensureCapacityLocked ord c now) else pc_entries c) p
          (fst (fail_entry (pc_settings c) (gget (pc_entries c) p) now))\<rparr>,
     snd (fail_entry (pc_settings c) (gget (pc_entries c) p) now))"
proof -
  have e: "ensureCapacityLocked ord c now\<lparr>pc_entries := m\<rparr> = c\<lparr>pc_entries := m\<rparr>" for m
    by (simp add: ensureCapacityLocked_def Let_def case_prod_beta)
  show ?thesis
  proof (cases "gget (pc_entries c) p")
    case None
    with assms show ?thesis
      by (simp add: recordFailure_def fail_entry_def go_time Let_def e zero_pce_def)
  next
    case (Some entry)
    with assms show ?thesis by (simp add: recordFailure_def fail_entry_def go_time Let_def)
  qed
qed

lemma failure_inv:
  assumes inv: "circuit_inv c" and ord: "order_ok ord"
  shows "circuit_inv (fst (recordFailure ord c p now))"
proof (cases "pcs_disabled (pc_settings c) \<or> p \<le> 0")
  case True
  with inv show ?thesis by (simp add: recordFailure_def Let_def)
next
  case False
  then show ?thesis
    using put_new_inv [OF inv ord, of p now] put_present_inv [OF inv, of p]
    by (simp add: failure_by_entry)
qed

lemma del_inv: "circuit_inv c \<Longrightarrow> circuit_inv (c\<lparr>pc_entries := gdel (pc_entries c) k\<rparr>)"
  using gm.len_del_le [of "pc_entries c" k]
  by (auto simp: circuit_inv_def gm.ok_del gkeys_gdel)

lemma circuit_step_inv:
  assumes "circuit_inv c" and "order_ok ord"
  shows "circuit_inv (circuit_step ord c x)"
  using assms failure_inv del_inv
  by (cases x) (simp_all add: recordOpenAIProxyStreamDisconnect_def clearOpenAIProxyStreamDisconnect_def
      isOpenAIProxyStreamQuarantined_def recordSuccess_def isBlocked_def split: option.split)

lemma step_settings: "pc_settings (circuit_step ord c x) = pc_settings c"
  by (cases x) (simp_all add: recordOpenAIProxyStreamDisconnect_def clearOpenAIProxyStreamDisconnect_def
      isOpenAIProxyStreamQuarantined_def recordSuccess_def isBlocked_def recordFailure_def Let_def
      split: option.split)

lemma run_circuit_inv:
  assumes "circuit_inv c" and "order_ok ord"
  shows "circuit_inv (foldl (circuit_step ord) c ops) \<and>
    pc_settings (foldl (circuit_step ord) c ops) = pc_settings c"
  using assms(1) by (induction ops arbitrary: c) (simp_all add: circuit_step_inv [OF _ assms(2)] step_settings)

section \<open>Sequences of failures of one proxy\<close>

fun fails :: "circuit_order \<Rightarrow> openAIProxyStreamCircuit \<Rightarrow> int \<Rightarrow> time list \<Rightarrow> openAIProxyStreamCircuit \<times> bool" where
  "fails ord c p [] = (c, False)"
| "fails ord c p (t # ts) =
     (let (c1, tripped, until) = recordFailure ord c p t; (c2, later) = fails ord c1 p ts
      in (c2, tripped \<or> later))"

lemma failure_settings [simp]: "pc_settings (fst (recordFailure ord c p now)) = pc_settings c"
  by (simp add: recordFailure_def Let_def split: option.split)

lemma failure_get:
  assumes "\<not> pcs_disabled (pc_settings c)" and "0 < p"
  shows "gget (pc_entries (fst (recordFailure ord c p now))) p =
      Some (fst (fail_entry (pc_settings c) (gget (pc_entries c) p) now))"
    and "fst (snd (recordFailure ord c p now)) =
      fst (snd (fail_entry (pc_settings c) (gget (pc_entries c) p) now))"
  by (simp_all add: failure_by_entry [OF assms] gget_gput)

lemma blocked_by_entry:
  assumes "\<not> pcs_disabled (pc_settings c)" and "0 < p" and "gget (pc_entries c) p = Some e"
  shows "snd (isBlocked c p now) \<longleftrightarrow> pce_blockedUntil e \<noteq> 0 \<and> now < pce_blockedUntil e"
  using assms by (simp add: isBlocked_def go_time)

text \<open>A burst: every failure falls into the collapse interval of the first.\<close>

definition collapsed :: "openAIProxyStreamCircuit \<Rightarrow> int \<Rightarrow> time \<Rightarrow> bool" where
  "collapsed c p t \<longleftrightarrow> (\<exists>e. gget (pc_entries c) p = Some e \<and> pce_lastFailureAt e = t \<and> pce_blockedUntil e = 0)"

lemma collapsed_failure:
  assumes c: "collapsed c p t" and s: "\<not> pcs_disabled (pc_settings c)" "0 < p" "0 < t"
    and u: "t \<le> u" "u < t + pcs_collapseInterval (pc_settings c)"
  shows "collapsed (fst (recordFailure ord c p u)) p t \<and> \<not> fst (snd (recordFailure ord c p u))"
proof -
  from c obtain e where e: "gget (pc_entries c) p = Some e" "pce_lastFailureAt e = t" "pce_blockedUntil e = 0"
    by (auto simp: collapsed_def)
  have "0 \<le> time_sub u t" "time_sub u t < pcs_collapseInterval (pc_settings c)"
    using u by (auto simp: time_sub_def)
  with e s u have "fail_entry (pc_settings c) (Some e) u = (fst (fail_entry (pc_settings c) (Some e) u), False, 0) \<and>
      pce_lastFailureAt (fst (fail_entry (pc_settings c) (Some e) u)) = t \<and>
      pce_blockedUntil (fst (fail_entry (pc_settings c) (Some e) u)) = 0"
    by (simp add: fail_entry_def Let_def)
  with e(1) failure_get [OF s(1,2), of ord u] show ?thesis
    by (simp add: collapsed_def) (metis fst_conv snd_conv)
qed

lemma collapsed_burst:
  assumes "collapsed c p t" and "\<not> pcs_disabled (pc_settings c)" and "0 < p" and "0 < t"
    and "\<forall>u \<in> set us. t \<le> u \<and> u < t + pcs_collapseInterval (pc_settings c)"
  shows "collapsed (fst (fails ord c p us)) p t \<and> \<not> snd (fails ord c p us) \<and>
    pc_settings (fst (fails ord c p us)) = pc_settings c"
  using assms
proof (induction us arbitrary: c)
  case (Cons u us)
  let ?c = "fst (recordFailure ord c p u)"
  from Cons.prems have u: "t \<le> u" "u < t + pcs_collapseInterval (pc_settings c)" by auto
  note f = collapsed_failure [OF Cons.prems(1-4) u, of ord]
  with Cons.IH [of ?c] Cons.prems show ?case by (simp add: case_prod_beta Let_def)
qed simp

lemma first_failure:
  assumes "gget (pc_entries c) p = None" and "\<not> pcs_disabled (pc_settings c)" and "0 < p" and "0 < t"
    and "1 < pcs_failureThreshold (pc_settings c)"
  shows "\<exists>e. gget (pc_entries (fst (recordFailure ord c p t))) p = Some e \<and> pce_failureCount e = 1 \<and>
      pce_windowStart e = t \<and> pce_lastFailureAt e = t \<and> pce_blockedUntil e = 0"
    and "\<not> fst (snd (recordFailure ord c p t))"
  using assms by (auto simp: failure_get fail_entry_def zero_pce_def Let_def)

text \<open>Failures that are counted one by one.\<close>

fun spaced :: "duration \<Rightarrow> time \<Rightarrow> time list \<Rightarrow> bool" where
  "spaced d t [] = True"
| "spaced d t (u # us) = (t + d \<le> u \<and> t \<le> u \<and> spaced d u us)"

definition counted :: "openAIProxyStreamCircuit \<Rightarrow> int \<Rightarrow> time \<Rightarrow> time \<Rightarrow> int \<Rightarrow> bool" where
  "counted c p start lt n \<longleftrightarrow> (\<exists>e. gget (pc_entries c) p = Some e \<and> pce_failureCount e = n \<and>
     pce_windowStart e = start \<and> pce_lastFailureAt e = lt \<and> pce_blockedUntil e = 0)"

lemma counted_failure:
  assumes c: "counted c p start lt n" and s: "\<not> pcs_disabled (pc_settings c)" "0 < p" "0 < start"
    and u: "start \<le> lt" "lt + pcs_collapseInterval (pc_settings c) \<le> u" "lt \<le> u"
      "u \<le> start + pcs_failureWindow (pc_settings c)"
    and d: "int64_range (pcs_collapseInterval (pc_settings c))" "0 < pcs_failureWindow (pc_settings c)"
      "0 < pcs_quarantineTTL (pc_settings c)"
  shows "if n + 1 < pcs_failureThreshold (pc_settings c)
    then counted (fst (recordFailure ord c p u)) p start u (n + 1) \<and> \<not> fst (snd (recordFailure ord c p u))
    else fst (snd (recordFailure ord c p u)) \<and>
      (\<forall>now. snd (isBlocked (fst (recordFailure ord c p u)) p now) \<longleftrightarrow>
         now < u + pcs_quarantineTTL (pc_settings c))"
proof -
  from c obtain e where e: "gget (pc_entries c) p = Some e" "pce_failureCount e = n" "pce_windowStart e = start"
    "pce_lastFailureAt e = lt" "pce_blockedUntil e = 0" by (auto simp: counted_def)
  have w: "\<not> pcs_failureWindow (pc_settings c) < time_sub u start"
    using u d by (auto simp: time_sub_def)
  have l: "\<not> time_sub u lt < pcs_collapseInterval (pc_settings c)"
    using u d(1) by (auto simp: time_sub_def int64_range_def)
  have f: "fail_entry (pc_settings c) (Some e) u =
    (if pcs_failureThreshold (pc_settings c) \<le> n + 1
     then (e\<lparr>pce_failureCount := n + 1, pce_lastFailureAt := u, pce_lastTouched := u,
             pce_blockedUntil := u + pcs_quarantineTTL (pc_settings c)\<rparr>, True, u + pcs_quarantineTTL (pc_settings c))
     else (e\<lparr>pce_failureCount := n + 1, pce_lastFailureAt := u, pce_lastTouched := u\<rparr>, False, 0))"
    using e u s w l by (simp add: fail_entry_def Let_def)
  note g = failure_get [OF s(1,2), of ord u, unfolded e(1) f]
  show ?thesis
  proof (cases "n + 1 < pcs_failureThreshold (pc_settings c)")
    case True
    with g e show ?thesis by (simp add: counted_def)
  next
    case False
    let ?e = "e\<lparr>pce_failureCount := n + 1, pce_lastFailureAt := u, pce_lastTouched := u,
             pce_blockedUntil := u + pcs_quarantineTTL (pc_settings c)\<rparr>"
    from False g have get: "gget (pc_entries (fst (recordFailure ord c p u))) p = Some ?e" by simp
    have "0 < u + pcs_quarantineTTL (pc_settings c)" using s(3) u d(3) by linarith
    with blocked_by_entry [OF _ s(2) get] s(1) have
      "\<forall>now. snd (isBlocked (fst (recordFailure ord c p u)) p now) \<longleftrightarrow> now < u + pcs_quarantineTTL (pc_settings c)"
      by simp
    with False g show ?thesis by simp
  qed
qed

lemma counted_run:
  assumes "counted c p start lt n" and "\<not> pcs_disabled (pc_settings c)" and "0 < p" and "0 < start"
    and "start \<le> lt" and "spaced (pcs_collapseInterval (pc_settings c)) lt us"
    and "\<forall>u \<in> set us. u \<le> start + pcs_failureWindow (pc_settings c)"
    and "int64_range (pcs_collapseInterval (pc_settings c))" and "0 < pcs_failureWindow (pc_settings c)"
    and "0 < pcs_quarantineTTL (pc_settings c)" and "us \<noteq> []"
    and "n + int (length us) \<le> pcs_failureThreshold (pc_settings c)"
  shows "if n + int (length us) = pcs_failureThreshold (pc_settings c)
    then snd (fails ord c p us) \<and>
      (\<forall>now. snd (isBlocked (fst (fails ord c p us)) p now) \<longleftrightarrow>
         now < last us + pcs_quarantineTTL (pc_settings c))
    else \<not> snd (fails ord c p us)"
  using assms
proof (induction us arbitrary: c lt n)
  case (Cons u us)
  let ?c = "fst (recordFailure ord c p u)"
  have u: "lt + pcs_collapseInterval (pc_settings c) \<le> u" "lt \<le> u"
    "u \<le> start + pcs_failureWindow (pc_settings c)" "spaced (pcs_collapseInterval (pc_settings c)) u us"
    using Cons.prems(6,7) by auto
  note f = counted_failure [OF Cons.prems(1-5) u(1-3) Cons.prems(8-10), of ord]
  show ?case
  proof (cases "us = []")
    case True
    show ?thesis
    proof (cases "n + 1 < pcs_failureThreshold (pc_settings c)")
      case lt_thr: True
      from f show ?thesis unfolding if_P [OF lt_thr] using True lt_thr by (simp add: case_prod_beta Let_def)
    next
      case ge: False
      from f show ?thesis
        unfolding if_not_P [OF ge] using True ge Cons.prems(12) by (simp add: case_prod_beta Let_def)
    qed
  next
    case False
    then have "0 < int (length us)" by simp
    moreover have "n + 1 + int (length us) \<le> pcs_failureThreshold (pc_settings c)"
      using Cons.prems(12) by simp
    ultimately have lt_thr: "n + 1 < pcs_failureThreshold (pc_settings c)" by linarith
    have c: "counted ?c p start u (n + 1)" "\<not> fst (snd (recordFailure ord c p u))"
      using f unfolding if_P [OF lt_thr] by blast+
    have "start \<le> u" using u(2) Cons.prems(5) by simp
    note ih = Cons.IH [OF c(1), unfolded failure_settings, OF Cons.prems(2-4) this u(4) _ Cons.prems(8-10) False]
    have all: "\<forall>x \<in> set us. x \<le> start + pcs_failureWindow (pc_settings c)" using Cons.prems(7) by simp
    have le: "n + 1 + int (length us) \<le> pcs_failureThreshold (pc_settings c)" using Cons.prems(12) by simp
    have "fails ord c p (u # us) = (fst (fails ord ?c p us), snd (fails ord ?c p us))"
      by (simp add: case_prod_beta Let_def c(2))
    moreover have "n + int (length (u # us)) = n + 1 + int (length us)" by simp
    moreover have "last (u # us) = last us" using False by simp
    ultimately show ?thesis using ih [OF all le] by (simp only: fst_conv snd_conv)
  qed
qed simp
section \<open>Properties\<close>

text \<open>
  C24. The circuit is bounded: whatever disconnects, successes and queries arrive, and in
  whatever order the entries are visited, it never holds more entries than its settings allow,
  and the settings stay as they were resolved.
\<close>

theorem circuit_bounded:
  assumes "order_ok ord"
  shows "let c0 = newOpenAIProxyStreamCircuit s; c = foldl (circuit_step ord) c0 ops
    in int (glen (pc_entries c)) \<le> pcs_maxEntries (pc_settings c) \<and> pc_settings c = pc_settings c0 \<and>
       (\<forall>k \<in> gkeys (pc_entries c). 0 < k)"
proof -
  have "circuit_inv (foldl (circuit_step ord) (newOpenAIProxyStreamCircuit s) ops) \<and>
      pc_settings (foldl (circuit_step ord) (newOpenAIProxyStreamCircuit s) ops) =
      pc_settings (newOpenAIProxyStreamCircuit s)"
    by (rule run_circuit_inv [OF new_circuit_inv assms])
  then show ?thesis unfolding Let_def circuit_inv_def by blast
qed

text \<open>
  A burst is one failure: however many streams of a proxy break within the collapse
  interval after a first failure, the proxy is not quarantined (with a threshold above one).
\<close>

theorem burst_does_not_trip:
  assumes "gget (pc_entries c) p = None" and "\<not> pcs_disabled (pc_settings c)" and "0 < p" and "0 < t"
    and "1 < pcs_failureThreshold (pc_settings c)"
    and "\<forall>u \<in> set us. t \<le> u \<and> u < t + pcs_collapseInterval (pc_settings c)"
  shows "\<not> snd (fails ord c p (t # us)) \<and>
    \<not> snd (isBlocked (fst (fails ord c p (t # us))) p now)"
proof -
  let ?c = "fst (recordFailure ord c p t)"
  note f = first_failure [OF assms(1-5), of ord]
  then have "collapsed ?c p t" by (auto simp: collapsed_def)
  from collapsed_burst [OF this, of us ord] assms have b:
    "collapsed (fst (fails ord ?c p us)) p t" "\<not> snd (fails ord ?c p us)"
    "pc_settings (fst (fails ord ?c p us)) = pc_settings c" by simp_all
  then obtain e where e: "gget (pc_entries (fst (fails ord ?c p us))) p = Some e" "pce_blockedUntil e = 0"
    by (auto simp: collapsed_def)
  have "fails ord c p (t # us) = (fst (fails ord ?c p us), snd (fails ord ?c p us))"
    by (simp add: case_prod_beta Let_def f(2))
  with b(2) e blocked_by_entry [OF _ assms(3) e(1)] b(3) assms(2) show ?thesis by simp
qed

text \<open>
  C25. The quarantine starts with the failure that reaches the threshold, not before, and lasts
  exactly the configured time: failures of a proxy without an entry that are at least the
  collapse interval apart and within one window trip the circuit at the threshold-th one, and
  the proxy is blocked until the TTL after it has passed.
\<close>

theorem circuit_trips_at_threshold:
  assumes "circuit_inv c" and "gget (pc_entries c) p = None" and "\<not> pcs_disabled (pc_settings c)"
    and "0 < p" and "0 < t" and "1 < pcs_failureThreshold (pc_settings c)"
    and "spaced (pcs_collapseInterval (pc_settings c)) t us"
    and "\<forall>u \<in> set us. u \<le> t + pcs_failureWindow (pc_settings c)"
    and "int64_range (pcs_collapseInterval (pc_settings c))"
    and "us \<noteq> []" and "1 + int (length us) \<le> pcs_failureThreshold (pc_settings c)"
  shows "if 1 + int (length us) = pcs_failureThreshold (pc_settings c)
    then snd (fails ord c p (t # us)) \<and>
      (\<forall>now. snd (isBlocked (fst (fails ord c p (t # us))) p now) \<longleftrightarrow>
         now < last us + pcs_quarantineTTL (pc_settings c))
    else \<not> snd (fails ord c p (t # us))"
proof -
  let ?c = "fst (recordFailure ord c p t)"
  note f = first_failure [OF assms(2-6), of ord]
  then have c: "counted ?c p t t 1" by (auto simp: counted_def)
  have pos: "0 < pcs_failureWindow (pc_settings c)" "0 < pcs_quarantineTTL (pc_settings c)"
    using assms(1) by (simp_all add: circuit_inv_def)
  note r = counted_run [OF c, unfolded failure_settings, OF assms(3-5) order_refl assms(7-9) pos assms(10,11), of ord]
  have "fails ord c p (t # us) = (fst (fails ord ?c p us), snd (fails ord ?c p us))"
    by (simp add: case_prod_beta Let_def f(2))
  then show ?thesis using r by (simp only: fst_conv snd_conv)
qed

text \<open>
  The count of active blocks, which decides whether a second selection may ignore the
  quarantine, is the number of proxies that a query would find blocked.
\<close>

theorem active_blocks_counted:
  assumes "circuit_inv c"
  shows "activeBlockCount c now = int (card {p. snd (isBlocked c p now)})"
proof (cases "pcs_disabled (pc_settings c)")
  case True
  then show ?thesis by (simp add: activeBlockCount_def isBlocked_def)
next
  case False
  let ?P = "\<lambda>(k, e). \<not> time_is_zero (pce_blockedUntil e) \<and> time_before now (pce_blockedUntil e)"
  let ?l = "filter ?P (pc_entries c)"
  have ok: "distinct (map fst (pc_entries c))" and pos: "\<forall>k \<in> gkeys (pc_entries c). 0 < k"
    using assms by (simp_all add: circuit_inv_def gmap_ok_def)
  have "{p. snd (isBlocked c p now)} = fst ` set ?l"
  proof (rule set_eqI)
    fix p
    have "\<not> p \<le> 0" if "gget (pc_entries c) p = Some e" for e
      using pos gget_key [OF that] by (simp add: not_le)
    then have "snd (isBlocked c p now) \<longleftrightarrow> (\<exists>e. gget (pc_entries c) p = Some e \<and> ?P (p, e))"
      using False by (auto simp: isBlocked_def split: option.splits)
    also have "\<dots> \<longleftrightarrow> p \<in> fst ` set ?l"
      using ok by (auto simp: gget_def image_iff)
    finally show "p \<in> {p. snd (isBlocked c p now)} \<longleftrightarrow> p \<in> fst ` set ?l" by simp
  qed
  moreover have "distinct (map fst ?l)" using ok by (rule distinct_map_filter)
  then have "card (fst ` set ?l) = length ?l"
    using distinct_card [of "map fst ?l"] by simp
  ultimately show ?thesis using False by (simp add: activeBlockCount_def)
qed

section \<open>Instances\<close>

definition entry_order :: circuit_order where
  "entry_order m = map fst m"

lemma entry_order_ok: "order_ok entry_order"
  by (simp add: order_ok_def entry_order_def gkeys_def)

abbreviation default_circuit :: openAIProxyStreamCircuit where
  "default_circuit \<equiv> newOpenAIProxyStreamCircuit (resolveOpenAIProxyStreamCircuitSettings None)"

lemma default_settings: "pc_settings default_circuit = defaultSettings" "pc_entries default_circuit = []"
  by (simp_all add: newOpenAIProxyStreamCircuit_def resolveOpenAIProxyStreamCircuitSettings_def
      defaultSettings_def minute_def second_def)

theorem circuit_bounded_witness:
  "let c = foldl (circuit_step entry_order) (newOpenAIProxyStreamCircuit (defaultSettings\<lparr>pcs_maxEntries := 1\<rparr>))
       [OpDisconnect (Some \<lparr>ca_Platform = ''openai'', ca_ProxyID = Some 4\<rparr>) OtherError 100,
        OpDisconnect (Some \<lparr>ca_Platform = ''openai'', ca_ProxyID = Some 7\<rparr>) OtherError 200]
   in int (glen (pc_entries c)) \<le> pcs_maxEntries (pc_settings c)"
  using circuit_bounded [OF entry_order_ok, where s = "defaultSettings\<lparr>pcs_maxEntries := 1\<rparr>" and
      ops = "[OpDisconnect (Some \<lparr>ca_Platform = ''openai'', ca_ProxyID = Some 4\<rparr>) OtherError 100,
        OpDisconnect (Some \<lparr>ca_Platform = ''openai'', ca_ProxyID = Some 7\<rparr>) OtherError 200]"]
  unfolding Let_def by blast

theorem burst_does_not_trip_witness:
  "\<not> snd (isBlocked (fst (fails entry_order default_circuit 4 [100, 100, 200])) 4 300)"
proof -
  have "gget (pc_entries default_circuit) 4 = None" by (simp add: default_settings gm.get_empty)
  from burst_does_not_trip [OF this, of 100 "[100, 200]" entry_order 300] show ?thesis
    by (simp add: default_settings defaultSettings_def second_def)
qed

theorem circuit_trips_at_threshold_witness:
  "snd (fails entry_order default_circuit 4 [100, 5 * second]) \<and>
   snd (isBlocked (fst (fails entry_order default_circuit 4 [100, 5 * second])) 4 (10 * minute))"
proof -
  have "gget (pc_entries default_circuit) 4 = None" by (simp add: default_settings gm.get_empty)
  from circuit_trips_at_threshold [OF new_circuit_inv this, of 100 "[5 * second]" entry_order] show ?thesis
    by (simp add: default_settings defaultSettings_def second_def minute_def int64_range_def)
qed

theorem active_blocks_counted_witness:
  "activeBlockCount default_circuit 100 = int (card {p. snd (isBlocked default_circuit p 100)})"
  by (rule active_blocks_counted [OF new_circuit_inv])

end
