(* ===== verification/Abuse_Limiter.thy ===== *)
theory Abuse_Limiter
  imports Prelude "HOL-Library.Word"
begin

text \<open>
  backend/internal/service/invalid_auth_abuse_limiter.go: the limiter that blocks clients which
  keep presenting invalid API keys. The sixteen shards, each a Go map behind its own mutex, are
  shown to be one Go map (an interpretation of the interface \<open>go_map\<close>); the operations are
  proved over that map. The order in which a clean-up ranges over a shard is the argument
  \<open>ord\<close>, of which nothing is assumed. A section of the code that runs under a lock,
  with its updates of the atomic counters, is one step.
\<close>

unbundle bit_operations_syntax

section \<open>State\<close>

record invalidAuthAbuseEntry =
  iae_failures :: int
  iae_windowStart :: time
  iae_blockedUntil :: time

type_synonym invalidAuthAbuseShard = "(string, invalidAuthAbuseEntry) gomap"

record invalidAuthOverflow =
  iao_failures :: int
  iao_windowStart :: time
  iao_blockedUntil :: time

record invalidAuthAbuseLimiter =
  ial_threshold :: int
  ial_window :: duration
  ial_block :: duration
  ial_capacity :: int
  ial_shards :: "invalidAuthAbuseShard list"
  ial_overflow :: invalidAuthOverflow
  ial_tracked :: int
  ial_recorded :: "64 word"
  ial_blocked :: "64 word"
  ial_rejected :: "64 word"
  ial_expired :: "64 word"
  ial_overflowed :: "64 word"
  ial_globalBlocked :: "64 word"
  ial_cleanupNext :: int
  ial_cleanupCursor :: "32 word"

record InvalidAuthAbuseHealth =
  iah_Enabled :: bool
  iah_Tracked :: int
  iah_Capacity :: int
  iah_Recorded :: "64 word"
  iah_Blocks :: "64 word"
  iah_Rejected :: "64 word"
  iah_Expired :: "64 word"
  iah_Overflowed :: "64 word"
  iah_GlobalBlocked :: "64 word"

text \<open>The section of the configuration file.\<close>

record abuse_config =
  acfg_Enabled :: bool
  acfg_Threshold :: int
  acfg_WindowSeconds :: int
  acfg_BlockSeconds :: int
  acfg_Capacity :: int

definition invalidAuthAbuseShardCount :: nat where
  "invalidAuthAbuseShardCount = 16"

definition newInvalidAuthAbuseLimiter :: "abuse_config option \<Rightarrow> invalidAuthAbuseLimiter option" where
  "newInvalidAuthAbuseLimiter cfg =
     (case cfg of
        None \<Rightarrow> None
      | Some c \<Rightarrow>
          if \<not> acfg_Enabled c then None
          else if acfg_Threshold c \<le> 0 \<or> acfg_WindowSeconds c \<le> 0 \<or> acfg_BlockSeconds c \<le> 0 \<or>
            acfg_Capacity c \<le> 0 then None
          else Some \<lparr>ial_threshold = acfg_Threshold c, ial_window = seconds (acfg_WindowSeconds c),
            ial_block = seconds (acfg_BlockSeconds c), ial_capacity = acfg_Capacity c,
            ial_shards = replicate invalidAuthAbuseShardCount [],
            ial_overflow = \<lparr>iao_failures = 0, iao_windowStart = 0, iao_blockedUntil = 0\<rparr>,
            ial_tracked = 0, ial_recorded = 0, ial_blocked = 0, ial_rejected = 0, ial_expired = 0,
            ial_overflowed = 0, ial_globalBlocked = 0, ial_cleanupNext = 0, ial_cleanupCursor = 0\<rparr>)"

section \<open>Shards\<close>

text \<open>FNV-1a on 32 bits; the multiplication wraps.\<close>

definition fnv_step :: "32 word \<Rightarrow> char \<Rightarrow> 32 word" where
  "fnv_step hash b = (hash XOR of_char b) * 16777619"

definition shard :: "string \<Rightarrow> nat" where
  "shard clientKey = unat (foldl fnv_step 2166136261 clientKey) mod invalidAuthAbuseShardCount"

definition shard_get :: "invalidAuthAbuseShard list \<Rightarrow> string \<Rightarrow> invalidAuthAbuseEntry option" where
  "shard_get s k = gget (s ! shard k) k"

definition shard_put :: "invalidAuthAbuseShard list \<Rightarrow> string \<Rightarrow> invalidAuthAbuseEntry \<Rightarrow> invalidAuthAbuseShard list" where
  "shard_put s k e = s[shard k := gput (s ! shard k) k e]"

definition shard_del :: "invalidAuthAbuseShard list \<Rightarrow> string \<Rightarrow> invalidAuthAbuseShard list" where
  "shard_del s k = s[shard k := gdel (s ! shard k) k]"

definition shards_len :: "invalidAuthAbuseShard list \<Rightarrow> nat" where
  "shards_len s = sum_list (map glen s)"

definition shards_ok :: "invalidAuthAbuseShard list \<Rightarrow> bool" where
  "shards_ok s \<longleftrightarrow> length s = invalidAuthAbuseShardCount \<and>
     (\<forall>i < invalidAuthAbuseShardCount. gmap_ok (s ! i) \<and> (\<forall>k \<in> gkeys (s ! i). shard k = i))"

section \<open>The operations\<close>

definition entryExpired :: "invalidAuthAbuseLimiter \<Rightarrow> invalidAuthAbuseEntry \<Rightarrow> time \<Rightarrow> bool" where
  "entryExpired l entry now \<longleftrightarrow>
     \<not> time_after (iae_blockedUntil entry) now \<and> \<not> time_after (iae_windowStart entry) now \<and>
     \<not> time_before now (time_add (iae_windowStart entry) (ial_window l))"

text \<open>delete(shard.entries, key), tracked.Add(-1), expired.Add(1).\<close>

definition drop_entry :: "invalidAuthAbuseLimiter \<Rightarrow> nat \<Rightarrow> string \<Rightarrow> invalidAuthAbuseLimiter" where
  "drop_entry l i k = l\<lparr>ial_shards := (ial_shards l)[i := gdel (ial_shards l ! i) k],
     ial_tracked := ial_tracked l - 1, ial_expired := ial_expired l + 1\<rparr>"

fun sweep_shard :: "invalidAuthAbuseLimiter \<Rightarrow> nat \<Rightarrow> time \<Rightarrow> string list \<Rightarrow> invalidAuthAbuseLimiter" where
  "sweep_shard l i now [] = l"
| "sweep_shard l i now (k # ks) =
     (case gget (ial_shards l ! i) k of
        None \<Rightarrow> sweep_shard l i now ks
      | Some entry \<Rightarrow> sweep_shard (if entryExpired l entry now then drop_entry l i k else l) i now ks)"

type_synonym shard_order = "invalidAuthAbuseShard \<Rightarrow> string list"

definition maybeCleanupAtCapacity ::
  "shard_order \<Rightarrow> invalidAuthAbuseLimiter \<Rightarrow> time \<Rightarrow> invalidAuthAbuseLimiter" where
  "maybeCleanupAtCapacity ord l now =
     (if ial_tracked l < ial_capacity l then l
      else if unix_nano now < ial_cleanupNext l then l
      else
        let l = l\<lparr>ial_cleanupNext := unix_nano (time_add now 100000000)\<rparr>;
            index = ial_cleanupCursor l;
            l = l\<lparr>ial_cleanupCursor := ial_cleanupCursor l + 1\<rparr>;
            i = unat index mod invalidAuthAbuseShardCount
        in sweep_shard l i now (ord (ial_shards l ! i)))"

text \<open>The look-up that opens \<open>check\<close> and \<open>record\<close>: an expired entry is dropped.\<close>

definition lookup_live ::
  "invalidAuthAbuseLimiter \<Rightarrow> string \<Rightarrow> time \<Rightarrow> invalidAuthAbuseLimiter \<times> invalidAuthAbuseEntry option" where
  "lookup_live l clientKey now =
     (let i = shard clientKey; entry = gget (ial_shards l ! i) clientKey in
      case entry of
        None \<Rightarrow> (l, None)
      | Some e \<Rightarrow> if entryExpired l e now then (drop_entry l i clientKey, None) else (l, Some e))"

definition checkOverflow :: "invalidAuthAbuseLimiter \<Rightarrow> time \<Rightarrow> duration \<times> bool" where
  "checkOverflow l now =
     (let ov = ial_overflow l in
      if time_after (iao_blockedUntil ov) now then (time_sub (iao_blockedUntil ov) now, True) else (0, False))"

text \<open>
  The section of \<open>check\<close> under the shard's mutex: the time to wait, if the client is blocked,
  and whether there is an entry.
\<close>

definition check_section ::
  "invalidAuthAbuseLimiter \<Rightarrow> string \<Rightarrow> time \<Rightarrow> invalidAuthAbuseLimiter \<times> duration option \<times> bool" where
  "check_section l clientKey now =
     (let (l, entry) = lookup_live l clientKey now in
      case entry of
        Some e \<Rightarrow> (l, if time_after (iae_blockedUntil e) now then Some (time_sub (iae_blockedUntil e) now) else None, True)
      | None \<Rightarrow> (l, None, False))"

definition check ::
  "shard_order \<Rightarrow> invalidAuthAbuseLimiter \<Rightarrow> string \<Rightarrow> time \<Rightarrow> invalidAuthAbuseLimiter \<times> duration \<times> bool" where
  "check ord l clientKey now =
     (if clientKey = [] then (l, 0, False)
      else
        let l = maybeCleanupAtCapacity ord l now;
            (l, retry, known) = check_section l clientKey now
        in case retry of
             Some r \<Rightarrow> (l\<lparr>ial_rejected := ial_rejected l + 1\<rparr>, r, True)
           | None \<Rightarrow>
               if \<not> known \<and> ial_capacity l \<le> ial_tracked l then
                 let (retry, blocked) = checkOverflow l now in
                 if blocked
                 then (l\<lparr>ial_rejected := ial_rejected l + 1, ial_globalBlocked := ial_globalBlocked l + 1\<rparr>, retry, True)
                 else (l, 0, False)
               else (l, 0, False))"

definition reserveEntry :: "invalidAuthAbuseLimiter \<Rightarrow> invalidAuthAbuseLimiter \<times> bool" where
  "reserveEntry l =
     (if ial_capacity l \<le> ial_tracked l then (l, False) else (l\<lparr>ial_tracked := ial_tracked l + 1\<rparr>, True))"

definition recordOverflow :: "invalidAuthAbuseLimiter \<Rightarrow> time \<Rightarrow> invalidAuthAbuseLimiter" where
  "recordOverflow l now =
     (let l = l\<lparr>ial_overflowed := ial_overflowed l + 1\<rparr>; ov = ial_overflow l in
      if time_after (iao_blockedUntil ov) now then l
      else
        let ov = (if time_is_zero (iao_windowStart ov) \<or> \<not> time_before now (time_add (iao_windowStart ov) (ial_window l))
                 then ov\<lparr>iao_windowStart := now, iao_failures := 0\<rparr> else ov);
            ov = ov\<lparr>iao_failures := iao_failures ov + 1\<rparr>
        in if ial_threshold l \<le> iao_failures ov then
             let until = time_add now (ial_block l) in
             l\<lparr>ial_overflow := \<lparr>iao_failures = 0, iao_windowStart = until, iao_blockedUntil = until\<rparr>,
               ial_blocked := ial_blocked l + 1\<rparr>
           else l\<lparr>ial_overflow := ov\<rparr>)"

text \<open>What \<open>record\<close> does with the entry, written through the pointer into the shard's map.\<close>

definition count_failure ::
  "invalidAuthAbuseLimiter \<Rightarrow> string \<Rightarrow> invalidAuthAbuseEntry \<Rightarrow> time \<Rightarrow> invalidAuthAbuseLimiter" where
  "count_failure l clientKey entry now =
     (if time_after (iae_blockedUntil entry) now then l
      else
        let entry = (if time_after (iae_windowStart entry) now \<or>
                        \<not> time_before now (time_add (iae_windowStart entry) (ial_window l))
                     then entry\<lparr>iae_windowStart := now, iae_failures := 0\<rparr> else entry);
            entry = entry\<lparr>iae_failures := iae_failures entry + 1\<rparr>
        in if ial_threshold l \<le> iae_failures entry then
             let until = time_add now (ial_block l) in
             l\<lparr>ial_shards := shard_put (ial_shards l) clientKey
                 \<lparr>iae_failures = 0, iae_windowStart = until, iae_blockedUntil = until\<rparr>,
               ial_blocked := ial_blocked l + 1\<rparr>
           else l\<lparr>ial_shards := shard_put (ial_shards l) clientKey entry\<rparr>)"

text \<open>The section of \<open>record\<close> under the shard's mutex; \<open>False\<close> when there is no room.\<close>

definition record_section ::
  "invalidAuthAbuseLimiter \<Rightarrow> string \<Rightarrow> time \<Rightarrow> invalidAuthAbuseLimiter \<times> bool" where
  "record_section l clientKey now =
     (let (l, entry) = lookup_live l clientKey now in
      case entry of
        Some e \<Rightarrow> (count_failure l clientKey e now, True)
      | None \<Rightarrow>
          let (l, reserved) = reserveEntry l in
          if \<not> reserved then (l, False)
          else
            let e = \<lparr>iae_failures = 0, iae_windowStart = now, iae_blockedUntil = 0\<rparr>;
                l = l\<lparr>ial_shards := shard_put (ial_shards l) clientKey e\<rparr>
            in (count_failure l clientKey e now, True))"

definition record_failure ::
  "shard_order \<Rightarrow> invalidAuthAbuseLimiter \<Rightarrow> string \<Rightarrow> time \<Rightarrow> invalidAuthAbuseLimiter" where
  "record_failure ord l clientKey now =
     (if clientKey = [] then l
      else
        let l = l\<lparr>ial_recorded := ial_recorded l + 1\<rparr>;
            l = maybeCleanupAtCapacity ord l now;
            (l, stored) = record_section l clientKey now
        in if stored then l else recordOverflow l now)"

definition health :: "invalidAuthAbuseLimiter \<Rightarrow> InvalidAuthAbuseHealth" where
  "health l = \<lparr>iah_Enabled = True, iah_Tracked = ial_tracked l, iah_Capacity = ial_capacity l,
     iah_Recorded = ial_recorded l, iah_Blocks = ial_blocked l, iah_Rejected = ial_rejected l,
     iah_Expired = ial_expired l, iah_Overflowed = ial_overflowed l, iah_GlobalBlocked = ial_globalBlocked l\<rparr>"

text \<open>The methods of the service, whose limiter is nil when the feature is off.\<close>

definition CheckInvalidAuthAbuse ::
  "shard_order \<Rightarrow> invalidAuthAbuseLimiter option \<Rightarrow> string \<Rightarrow> time \<Rightarrow>
   invalidAuthAbuseLimiter option \<times> duration \<times> bool" where
  "CheckInvalidAuthAbuse ord s clientKey now =
     (case s of None \<Rightarrow> (None, 0, False) | Some l \<Rightarrow> (let (l, r) = check ord l clientKey now in (Some l, r)))"

definition RecordInvalidAuthFailure ::
  "shard_order \<Rightarrow> invalidAuthAbuseLimiter option \<Rightarrow> string \<Rightarrow> time \<Rightarrow> invalidAuthAbuseLimiter option" where
  "RecordInvalidAuthFailure ord s clientKey now = map_option (\<lambda>l. record_failure ord l clientKey now) s"

definition InvalidAuthAbuseHealth_of :: "invalidAuthAbuseLimiter option \<Rightarrow> InvalidAuthAbuseHealth" where
  "InvalidAuthAbuseHealth_of s =
     (case s of
        None \<Rightarrow> \<lparr>iah_Enabled = False, iah_Tracked = 0, iah_Capacity = 0, iah_Recorded = 0, iah_Blocks = 0,
          iah_Rejected = 0, iah_Expired = 0, iah_Overflowed = 0, iah_GlobalBlocked = 0\<rparr>
      | Some l \<Rightarrow> health l)"

text \<open>
  What concurrent calls do: the sections that run under a lock, in any order. A call of
  \<open>check\<close> or \<open>record\<close> is a sequence of them, so every interleaving of calls is a list of
  sections.
\<close>

datatype abuse_section =
    CleanupSection time
  | CheckSection string time
  | RecordSection string time
  | OverflowSection time

fun abuse_step :: "shard_order \<Rightarrow> invalidAuthAbuseLimiter \<Rightarrow> abuse_section \<Rightarrow> invalidAuthAbuseLimiter" where
  "abuse_step ord l (CleanupSection now) = maybeCleanupAtCapacity ord l now"
| "abuse_step ord l (CheckSection k now) = fst (check_section l k now)"
| "abuse_step ord l (RecordSection k now) = fst (record_section l k now)"
| "abuse_step ord l (OverflowSection now) = recordOverflow l now"

section \<open>The shards are one map\<close>

lemma shard_lt [simp]: "shard k < invalidAuthAbuseShardCount"
  by (simp add: shard_def invalidAuthAbuseShardCount_def)

lemma shards_nth: "shards_ok s \<Longrightarrow> gmap_ok (s ! shard k)" "shards_ok s \<Longrightarrow> shard k < length s"
  by (simp_all add: shards_ok_def)

lemma shards_len_update:
  "i < length s \<Longrightarrow> shards_len (s[i := m]) + glen (s ! i) = shards_len s + glen m"
proof -
  assume i: "i < length s"
  then have "glen (s ! i) \<le> shards_len s"
    by (auto simp: shards_len_def intro!: member_le_sum_list)
  with i show ?thesis
    by (simp add: shards_len_def map_update sum_list_update)
qed

lemma shards_len_put:
  assumes "shards_ok s"
  shows "shards_len (shard_put s k e) = (if shard_get s k = None then Suc (shards_len s) else shards_len s)"
  using shards_len_update [OF shards_nth(2) [OF assms, of k], of "gput (s ! shard k) k e"]
    gm.len_put [OF shards_nth(1) [OF assms, of k], of k e]
  by (auto simp: shard_put_def shard_get_def)

lemma shards_len_del:
  assumes "shards_ok s"
  shows "shards_len (shard_del s k) = (if shard_get s k = None then shards_len s else shards_len s - 1)"
proof (cases "shard_get s k")
  case None
  with shards_len_update [OF shards_nth(2) [OF assms, of k], of "gdel (s ! shard k) k"]
    gm.len_del [OF shards_nth(1) [OF assms, of k], of k] show ?thesis
    by (simp add: shard_del_def shard_get_def)
next
  case (Some e)
  then have "0 < glen (s ! shard k)"
    using gm.len_pos [OF shards_nth(1) [OF assms, of k], of k] by (simp add: shard_get_def)
  with Some shards_len_update [OF shards_nth(2) [OF assms, of k], of "gdel (s ! shard k) k"]
    gm.len_del [OF shards_nth(1) [OF assms, of k], of k] show ?thesis
    by (simp add: shard_del_def shard_get_def)
qed

interpretation sm: go_map "replicate invalidAuthAbuseShardCount []" shard_get shard_put shard_del shards_len shards_ok
proof unfold_locales
  fix s :: "invalidAuthAbuseShard list" and k k' :: string and e :: invalidAuthAbuseEntry
  show "shards_ok (replicate invalidAuthAbuseShardCount [])"
    by (simp add: shards_ok_def gm.ok_empty)
  show "shards_ok s \<Longrightarrow> shards_ok (shard_put s k e)"
    by (auto simp: shards_ok_def shard_put_def nth_list_update gm.ok_put)
  show "shards_ok s \<Longrightarrow> shards_ok (shard_del s k)"
    by (auto simp: shards_ok_def shard_del_def nth_list_update gm.ok_del gkeys_gdel)
  show "shard_get (replicate invalidAuthAbuseShardCount []) k = None"
    by (simp add: shard_get_def gm.get_empty)
  show "shards_ok s \<Longrightarrow> shard_get (shard_put s k e) k' = (if k' = k then Some e else shard_get s k')"
    by (auto simp: shards_ok_def shard_get_def shard_put_def nth_list_update gget_gput)
  show "shards_ok s \<Longrightarrow> shard_get (shard_del s k) k' = (if k' = k then None else shard_get s k')"
    by (auto simp: shards_ok_def shard_get_def shard_del_def nth_list_update gm.get_del)
  show "shards_len (replicate invalidAuthAbuseShardCount []) = 0"
    by (simp add: shards_len_def sum_list_replicate)
  show "shards_ok s \<Longrightarrow> shards_len (shard_put s k e) =
      (if shard_get s k = None then Suc (shards_len s) else shards_len s)" by (rule shards_len_put)
  show "shards_ok s \<Longrightarrow> shards_len (shard_del s k) =
      (if shard_get s k = None then shards_len s else shards_len s - 1)" by (rule shards_len_del)
  show "shards_ok s \<Longrightarrow> shard_get s k \<noteq> None \<Longrightarrow> 0 < shards_len s"
    using gm.len_pos [of "s ! shard k" k] member_le_sum_list [of "glen (s ! shard k)" "map glen s"] shards_nth [of s k]
    by (force simp: shards_len_def shard_get_def)
qed

section \<open>Invariant: the counter counts the entries, within the capacity\<close>

definition limiter_inv :: "invalidAuthAbuseLimiter \<Rightarrow> bool" where
  "limiter_inv l \<longleftrightarrow> shards_ok (ial_shards l) \<and> ial_tracked l = int (shards_len (ial_shards l)) \<and>
     ial_tracked l \<le> ial_capacity l"

definition limits :: "invalidAuthAbuseLimiter \<Rightarrow> int \<times> duration \<times> duration \<times> int" where
  "limits l = (ial_threshold l, ial_window l, ial_block l, ial_capacity l)"

text \<open>The entry of client \<open>k\<close>.\<close>

abbreviation client :: "invalidAuthAbuseLimiter \<Rightarrow> string \<Rightarrow> invalidAuthAbuseEntry option" where
  "client l k \<equiv> shard_get (ial_shards l) k"

lemma limits_update [simp]:
  "limits (l\<lparr>ial_tracked := n\<rparr>) = limits l" "limits (l\<lparr>ial_shards := s\<rparr>) = limits l"
  "limits (l\<lparr>ial_tracked := n, ial_shards := s\<rparr>) = limits l"
  by (simp_all add: limits_def)

lemma new_limiter_inv: "newInvalidAuthAbuseLimiter cfg = Some l \<Longrightarrow> limiter_inv l"
  using sm.ok_empty sm.len_empty
  by (auto simp: newInvalidAuthAbuseLimiter_def limiter_inv_def split: option.splits if_splits)

lemma drop_entry_shards: "ial_shards (drop_entry l (shard k) k) = shard_del (ial_shards l) k"
  by (simp add: drop_entry_def shard_del_def)

lemma drop_entry_limits [simp]: "limits (drop_entry l i k) = limits l"
  by (simp add: limits_def drop_entry_def)

lemma drop_entry_inv:
  assumes "limiter_inv l" and "client l k \<noteq> None"
  shows "limiter_inv (drop_entry l (shard k) k)"
    and "ial_tracked (drop_entry l (shard k) k) < ial_capacity l"
    and "client (drop_entry l (shard k) k) k' = (if k' = k then None else client l k')"
proof -
  have ok: "shards_ok (ial_shards l)" and n: "ial_tracked l = int (shards_len (ial_shards l))"
    and le: "ial_tracked l \<le> ial_capacity l" using assms(1) by (simp_all add: limiter_inv_def)
  have t: "ial_tracked (drop_entry l (shard k) k) = ial_tracked l - 1"
    "ial_capacity (drop_entry l (shard k) k) = ial_capacity l" by (simp_all add: drop_entry_def)
  have "int (shards_len (shard_del (ial_shards l) k)) = int (shards_len (ial_shards l)) - 1"
    using sm.len_pos [OF ok assms(2)] sm.len_del [OF ok, of k] assms(2) by (simp add: of_nat_diff)
  with n le t sm.ok_del [OF ok] show "limiter_inv (drop_entry l (shard k) k)"
    by (simp add: limiter_inv_def drop_entry_shards)
  show "ial_tracked (drop_entry l (shard k) k) < ial_capacity l" using t le by simp
  show "client (drop_entry l (shard k) k) k' = (if k' = k then None else client l k')"
    by (simp add: drop_entry_shards sm.get_del [OF ok])
qed

text \<open>What a clean-up may do to a limiter at time \<open>now\<close>: drop expired entries, nothing else.\<close>

definition thinned :: "time \<Rightarrow> invalidAuthAbuseLimiter \<Rightarrow> invalidAuthAbuseLimiter \<Rightarrow> bool" where
  "thinned now l l' \<longleftrightarrow> limiter_inv l' \<and> limits l' = limits l \<and> ial_overflow l' = ial_overflow l \<and>
     (\<forall>k. client l' k = client l k \<or>
        client l' k = None \<and> ial_tracked l' < ial_capacity l' \<and>
        (\<exists>e. client l k = Some e \<and> entryExpired l e now)) \<and> ial_tracked l' \<le> ial_tracked l"

lemma entryExpired_limits: "limits l' = limits l \<Longrightarrow> entryExpired l' = entryExpired l"
  by (simp add: limits_def entryExpired_def fun_eq_iff)

lemma thinned_refl: "limiter_inv l \<Longrightarrow> thinned now l l"
  by (simp add: thinned_def)

lemma thinned_trans:
  assumes "thinned now l l'" and "thinned now l' l''"
  shows "thinned now l l''"
proof -
  have "ial_capacity l'' = ial_capacity l'" "entryExpired l' = entryExpired l"
    using assms entryExpired_limits [of l' l] by (simp_all add: thinned_def limits_def)
  moreover have "ial_tracked l'' \<le> ial_tracked l'" using assms(2) by (simp add: thinned_def)
  moreover have "client l' k = client l k \<or> client l' k = None \<and> ial_tracked l' < ial_capacity l' \<and>
        (\<exists>e. client l k = Some e \<and> entryExpired l e now)" for k
    using assms(1) by (simp add: thinned_def)
  moreover have "client l'' k = client l' k \<or> client l'' k = None \<and> ial_tracked l'' < ial_capacity l'' \<and>
        (\<exists>e. client l' k = Some e \<and> entryExpired l' e now)" for k
    using assms(2) by (simp add: thinned_def)
  ultimately have "client l'' k = client l k \<or> client l'' k = None \<and> ial_tracked l'' < ial_capacity l'' \<and>
        (\<exists>e. client l k = Some e \<and> entryExpired l e now)" for k
    by (cases "client l'' k = client l' k"; cases "client l' k = client l k") (smt (verit))+
  with assms show ?thesis by (simp add: thinned_def)
qed

lemma thinned_drop:
  assumes "limiter_inv l" and "client l k = Some e" and "entryExpired l e now"
  shows "thinned now l (drop_entry l (shard k) k)"
  using drop_entry_inv [of l k] assms by (auto simp: thinned_def) (auto simp: drop_entry_def)

lemma sweep_thinned:
  "limiter_inv l \<Longrightarrow> i < invalidAuthAbuseShardCount \<Longrightarrow> thinned now l (sweep_shard l i now ks)"
proof (induction ks arbitrary: l)
  case (Cons k ks)
  show ?case
  proof (cases "gget (ial_shards l ! i) k")
    case None
    with Cons show ?thesis by simp
  next
    case (Some e)
    then have i: "shard k = i"
      using Cons.prems gget_key [OF Some] by (auto simp: limiter_inv_def shards_ok_def)
    then have e: "client l k = Some e" using Some by (simp add: shard_get_def)
    show ?thesis
    proof (cases "entryExpired l e now")
      case True
      note t = thinned_drop [OF Cons.prems(1) e True]
      then have "limiter_inv (drop_entry l i k)" by (simp add: thinned_def i)
      from thinned_trans [OF t Cons.IH [OF this Cons.prems(2), folded i]] show ?thesis
        using Some True by (simp add: i)
    next
      case False
      with Cons Some show ?thesis by simp
    qed
  qed
qed (simp add: thinned_refl)

lemma cleanup_thinned: "limiter_inv l \<Longrightarrow> thinned now l (maybeCleanupAtCapacity ord l now)"
proof -
  assume inv: "limiter_inv l"
  have same: "thinned now l' l'' = thinned now l l''"
    if "ial_shards l' = ial_shards l" "limits l' = limits l" "ial_overflow l' = ial_overflow l" "ial_tracked l' = ial_tracked l"
    for l' l'' using that entryExpired_limits [of l' l] by (simp add: thinned_def)
  let ?l = "l\<lparr>ial_cleanupNext := unix_nano (time_add now 100000000), ial_cleanupCursor := ial_cleanupCursor l + 1\<rparr>"
  have "limiter_inv ?l" using inv by (simp add: limiter_inv_def)
  from sweep_thinned [OF this, of _ now] have
    "thinned now l (sweep_shard ?l i now ks)" if "i < invalidAuthAbuseShardCount" for i ks
    using that same [of ?l] by (simp add: limits_def)
  moreover have "n mod invalidAuthAbuseShardCount < invalidAuthAbuseShardCount" for n
    by (simp add: invalidAuthAbuseShardCount_def)
  ultimately show ?thesis
    using thinned_refl [OF inv] by (simp add: maybeCleanupAtCapacity_def Let_def)
qed

lemma lookup_live_cases:
  assumes "limiter_inv l"
  shows "thinned now l (fst (lookup_live l k now))"
    and "snd (lookup_live l k now) = client (fst (lookup_live l k now)) k"
    and "snd (lookup_live l k now) =
      (case client l k of None \<Rightarrow> None | Some e \<Rightarrow> if entryExpired l e now then None else Some e)"
proof -
  have "thinned now l (fst (lookup_live l k now)) \<and>
    snd (lookup_live l k now) = client (fst (lookup_live l k now)) k \<and> snd (lookup_live l k now) =
      (case client l k of None \<Rightarrow> None | Some e \<Rightarrow> if entryExpired l e now then None else Some e)"
  proof (cases "client l k")
    case None
    with assms show ?thesis by (simp add: lookup_live_def thinned_refl shard_get_def)
  next
    case (Some e)
    then have g: "gget (ial_shards l ! shard k) k = Some e" by (simp add: shard_get_def)
    show ?thesis
    proof (cases "entryExpired l e now")
      case True
      with g Some thinned_drop [OF assms Some] drop_entry_inv(3) [OF assms, of k k] show ?thesis
        by (simp add: lookup_live_def)
    next
      case False
      with g Some assms show ?thesis by (simp add: lookup_live_def thinned_refl)
    qed
  qed
  then show "thinned now l (fst (lookup_live l k now))"
    and "snd (lookup_live l k now) = client (fst (lookup_live l k now)) k"
    and "snd (lookup_live l k now) =
      (case client l k of None \<Rightarrow> None | Some e \<Rightarrow> if entryExpired l e now then None else Some e)" by blast+
qed

lemma thinned_inv: "thinned now l l' \<Longrightarrow> limiter_inv l' \<and> limits l' = limits l"
  by (simp add: thinned_def)

lemma shard_put_inv:
  assumes "limiter_inv l" and "client l k \<noteq> None"
  shows "limiter_inv (l\<lparr>ial_shards := shard_put (ial_shards l) k e\<rparr>)"
  using assms sm.ok_put [of "ial_shards l" k e] sm.len_put [of "ial_shards l" k e]
  by (auto simp: limiter_inv_def)

lemma limiter_inv_blocked [simp]: "limiter_inv (l\<lparr>ial_blocked := b\<rparr>) = limiter_inv l"
  by (simp add: limiter_inv_def)

lemma count_failure_inv:
  assumes "limiter_inv l" and "client l k \<noteq> None"
  shows "limiter_inv (count_failure l k e now)"
  using assms shard_put_inv [OF assms]
  by (simp add: count_failure_def Let_def limiter_inv_def)

lemma count_failure_limits [simp]: "limits (count_failure l k e now) = limits l"
  by (simp add: count_failure_def Let_def limits_def)

lemma count_failure_other:
  "limiter_inv l \<Longrightarrow> k' \<noteq> k \<Longrightarrow> client (count_failure l k e now) k' = client l k'"
  using sm.get_put [of "ial_shards l" k _ k'] by (simp add: count_failure_def Let_def limiter_inv_def)

text \<open>The state right after \<open>record\<close> has stored a fresh entry.\<close>

abbreviation (input) fresh :: "invalidAuthAbuseLimiter \<Rightarrow> string \<Rightarrow> time \<Rightarrow> invalidAuthAbuseLimiter" where
  "fresh l k now \<equiv> l\<lparr>ial_tracked := ial_tracked l + 1, ial_shards := shard_put (ial_shards l) k
     \<lparr>iae_failures = 0, iae_windowStart = now, iae_blockedUntil = 0\<rparr>\<rparr>"

lemma fresh_inv:
  assumes "limiter_inv l" and "client l k = None" and "ial_tracked l < ial_capacity l"
  shows "limiter_inv (fresh l k now)" and "client (fresh l k now) k' =
    (if k' = k then Some \<lparr>iae_failures = 0, iae_windowStart = now, iae_blockedUntil = 0\<rparr> else client l k')"
  using assms sm.ok_put [of "ial_shards l" k] sm.len_put [of "ial_shards l" k] sm.get_put [of "ial_shards l" k _ k']
  by (simp_all add: limiter_inv_def)

lemma record_section_cases:
  assumes "limiter_inv l"
  obtains l' e where "thinned now l l'" "client l' k = Some e" "client l k = Some e" "\<not> entryExpired l e now"
      "record_section l k now = (count_failure l' k e now, True)"
  | l' where "thinned now l l'" "client l' k = None" "ial_tracked l' < ial_capacity l'"
      "record_section l k now = (count_failure (fresh l' k now) k
         \<lparr>iae_failures = 0, iae_windowStart = now, iae_blockedUntil = 0\<rparr> now, True)"
  | l' where "thinned now l l'" "client l' k = None" "ial_capacity l' \<le> ial_tracked l'"
      "record_section l k now = (l', False)"
proof -
  obtain l' x where lk: "lookup_live l k now = (l', x)" by (cases "lookup_live l k now")
  note t = lookup_live_cases [OF assms, where now = now and k = k, unfolded lk, simplified]
  show thesis
  proof (cases x)
    case None
    then show thesis
      using t(1,2) that(2,3) [of l'] by (cases "ial_capacity l' \<le> ial_tracked l'")
        (simp_all add: record_section_def lk reserveEntry_def Let_def)
  next
    case (Some e)
    then show thesis using t that(1) [of l' e]
      by (simp add: record_section_def lk split: option.splits if_splits)
  qed
qed

lemma record_section_inv:
  assumes "limiter_inv l"
  shows "limiter_inv (fst (record_section l k now))" and "limits (fst (record_section l k now)) = limits l"
proof -
  have "limiter_inv (fst (record_section l k now)) \<and> limits (fst (record_section l k now)) = limits l"
  proof (cases rule: record_section_cases [OF assms, where k = k and now = now])
    case (1 l' e)
    then show ?thesis using count_failure_inv [of l' k e now] by (simp add: thinned_def)
  next
    case (2 l')
    have "limiter_inv (fresh l' k now)" and "client (fresh l' k now) k \<noteq> None"
      using 2(1) fresh_inv(1) [of l' k now] fresh_inv(2) [of l' k now k] 2(2,3) by (simp_all add: thinned_def)
    from count_failure_inv [OF this] 2 show ?thesis by (simp add: thinned_def)
  next
    case (3 l')
    then show ?thesis by (simp add: thinned_def)
  qed
  then show "limiter_inv (fst (record_section l k now))" and "limits (fst (record_section l k now)) = limits l"
    by blast+
qed

lemma check_section_eq:
  "fst (check_section l k now) = fst (lookup_live l k now)"
  by (simp add: check_section_def case_prod_beta split: option.split)

lemma recordOverflow_keeps [simp]:
  "ial_shards (recordOverflow l now) = ial_shards l" "ial_tracked (recordOverflow l now) = ial_tracked l"
  "limits (recordOverflow l now) = limits l" "limiter_inv (recordOverflow l now) = limiter_inv l"
  by (simp_all add: recordOverflow_def Let_def limits_def limiter_inv_def)

lemma abuse_step_inv:
  "limiter_inv l \<Longrightarrow> limiter_inv (abuse_step ord l x) \<and> limits (abuse_step ord l x) = limits l"
  using thinned_inv [OF cleanup_thinned] thinned_inv [OF lookup_live_cases(1)] record_section_inv
  by (cases x) (simp_all add: check_section_eq)

lemma abuse_run_inv:
  "limiter_inv l \<Longrightarrow> limiter_inv (foldl (abuse_step ord) l xs) \<and> limits (foldl (abuse_step ord) l xs) = limits l"
  by (induction xs arbitrary: l) (simp_all add: abuse_step_inv)

text \<open>
  C19. Whatever calls run and however their sections interleave, the sharded table is one map
  whose size the atomic counter \<open>tracked\<close> holds exactly, the size never exceeds the configured
  capacity, and every entry stands in the shard of its key.
\<close>

theorem limiter_tracks:
  assumes "newInvalidAuthAbuseLimiter (Some c) = Some l0"
  shows "let l = foldl (abuse_step ord) l0 xs in
     ial_tracked l = int (sum_list (map glen (ial_shards l))) \<and> ial_tracked l \<le> acfg_Capacity c \<and>
     length (ial_shards l) = 16 \<and> (\<forall>i < 16. \<forall>k \<in> gkeys (ial_shards l ! i). shard k = i)"
proof -
  have "limits l0 = limits l0 \<and> ial_capacity l0 = acfg_Capacity c"
    using assms by (auto simp: newInvalidAuthAbuseLimiter_def split: if_splits)
  with abuse_run_inv [OF new_limiter_inv [OF assms], of ord xs] show ?thesis
    by (simp add: limiter_inv_def shards_ok_def shards_len_def limits_def Let_def invalidAuthAbuseShardCount_def)
qed

section \<open>What a client experiences\<close>

fun section_time :: "abuse_section \<Rightarrow> time" where
  "section_time (CleanupSection t) = t"
| "section_time (CheckSection k t) = t"
| "section_time (RecordSection k t) = t"
| "section_time (OverflowSection t) = t"

fun records_for :: "string \<Rightarrow> abuse_section \<Rightarrow> bool" where
  "records_for k (RecordSection k' t) = (k' = k)"
| "records_for k _ = False"

text \<open>An entry that has not expired at \<open>now\<close> has not expired before.\<close>

lemma entryExpired_mono: "entryExpired l e t \<Longrightarrow> t \<le> now \<Longrightarrow> entryExpired l e now"
  by (auto simp: entryExpired_def go_time)

lemma thinned_live:
  "thinned t l l' \<Longrightarrow> client l k = Some e \<Longrightarrow> \<not> entryExpired l e t \<Longrightarrow> client l' k = Some e"
  unfolding thinned_def by (metis option.inject)

lemma section_keeps_live:
  assumes "limiter_inv l" and "client l k = Some e" and "\<not> entryExpired l e now"
    and "section_time x \<le> now" and "\<not> records_for k x"
  shows "client (abuse_step ord l x) k = Some e"
proof -
  have ne: "\<not> entryExpired l e (section_time x)" using assms(3,4) entryExpired_mono by blast
  show ?thesis
  proof (cases x)
    case (CleanupSection t)
    with ne thinned_live [OF cleanup_thinned [OF assms(1)] assms(2)] show ?thesis by simp
  next
    case (CheckSection k' t)
    with ne thinned_live [OF lookup_live_cases(1) [OF assms(1)] assms(2)] show ?thesis
      by (simp add: check_section_eq)
  next
    case (RecordSection k' t)
    then have k: "k \<noteq> k'" and t: "\<not> entryExpired l e t" using assms(5) ne by auto
    show ?thesis
    proof (cases rule: record_section_cases [OF assms(1), where k = k' and now = t])
      case (1 l' e')
      then show ?thesis using RecordSection k thinned_live [OF 1(1) assms(2) t] thinned_inv [OF 1(1)]
        by (simp add: count_failure_other)
    next
      case (2 l')
      then have "limiter_inv (fresh l' k' t)" "client (fresh l' k' t) k = client l' k"
        using fresh_inv(1) [of l' k' t] fresh_inv(2) [of l' k' t k] thinned_inv [OF 2(1)] k by auto
      then show ?thesis using 2 RecordSection k thinned_live [OF 2(1) assms(2) t]
        by (simp add: count_failure_other)
    next
      case (3 l')
      then show ?thesis using RecordSection thinned_live [OF 3(1) assms(2) t] by simp
    qed
  next
    case (OverflowSection t)
    with assms(2) show ?thesis by simp
  qed
qed

lemma sections_keep_live:
  assumes "limiter_inv l" and "client l k = Some e" and "\<not> entryExpired l e now"
    and "\<forall>x \<in> set xs. section_time x \<le> now \<and> \<not> records_for k x"
  shows "client (foldl (abuse_step ord) l xs) k = Some e"
  using assms
proof (induction xs arbitrary: l)
  case (Cons x xs)
  note s = abuse_step_inv [OF Cons.prems(1), of ord x]
  have "client (abuse_step ord l x) k = Some e"
    using section_keeps_live [OF Cons.prems(1-3)] Cons.prems(4) by simp
  moreover have "\<not> entryExpired (abuse_step ord l x) e now"
    using Cons.prems(3) entryExpired_limits [of "abuse_step ord l x" l] s by simp
  ultimately show ?case using Cons.IH [of "abuse_step ord l x"] s Cons.prems(4) by simp
qed simp

text \<open>The answer of \<open>check\<close> to a client with a live entry.\<close>

definition verdict :: "time \<Rightarrow> time \<Rightarrow> duration \<times> bool" where
  "verdict until now = (if now < until then (time_sub until now, True) else (0, False))"

lemma check_live:
  assumes "limiter_inv l" and "client l k = Some e" and "\<not> entryExpired l e now" and "k \<noteq> []"
  shows "snd (check ord l k now) = verdict (iae_blockedUntil e) now"
proof -
  let ?l = "maybeCleanupAtCapacity ord l now"
  note t = cleanup_thinned [OF assms(1), of now ord]
  have c: "client ?l k = Some e" "\<not> entryExpired ?l e now"
    using thinned_live [OF t assms(2,3)] entryExpired_limits [of ?l l] thinned_inv [OF t] assms(3) by auto
  have "lookup_live ?l k now = (?l, Some e)" using c by (simp add: lookup_live_def shard_get_def)
  then show ?thesis using assms(4) by (simp add: check_def check_section_def Let_def verdict_def go_time)
qed

text \<open>An expired entry is dropped, and then there is room: the overflow state is not asked.\<close>

lemma check_expired:
  assumes "limiter_inv l" and "client l k = Some e" and "entryExpired l e now" and "k \<noteq> []"
  shows "snd (check ord l k now) = (0, False)"
proof -
  let ?l = "maybeCleanupAtCapacity ord l now"
  note t = cleanup_thinned [OF assms(1), of now ord]
  note inv = thinned_inv [OF t]
  let ?m = "fst (lookup_live ?l k now)"
  note lk = lookup_live_cases [OF conjunct1 [OF inv], where now = now and k = k]
  have "snd (lookup_live ?l k now) = None \<and> ial_tracked ?m < ial_capacity ?m"
  proof (cases "client ?l k")
    case None
    with t assms(2) have room: "ial_tracked ?l < ial_capacity ?l" unfolding thinned_def by (metis option.distinct(1))
    have "lookup_live ?l k now = (?l, None)" using None by (simp add: lookup_live_def shard_get_def)
    with room show ?thesis by simp
  next
    case (Some e')
    then have "e' = e" using t assms(2) unfolding thinned_def by (metis option.distinct(1) option.inject)
    then have x: "snd (lookup_live ?l k now) = None"
      using lk(3) Some assms(3) entryExpired_limits [of ?l l] inv by simp
    have "client ?m k = None" using lk(2) x by simp
    with lk(1) Some show ?thesis using x unfolding thinned_def by (metis option.distinct(1))
  qed
  then show ?thesis using assms(4)
    by (simp add: check_def check_section_def Let_def case_prod_beta)
qed

text \<open>
  C32. A tracked client is judged by its own entry alone: whatever sections other clients run,
  with whatever clean-ups and overflows, the answer it gets is the one its entry gives, and no
  overload of the table blocks it.
\<close>

theorem tracked_client_isolated:
  assumes "limiter_inv l" and "client l k = Some e" and "\<not> entryExpired l e now" and "k \<noteq> []"
    and "\<forall>x \<in> set xs. section_time x \<le> now \<and> \<not> records_for k x"
  shows "snd (check ord (foldl (abuse_step ord) l xs) k now) =
    (if now < iae_blockedUntil e then (time_sub (iae_blockedUntil e) now, True) else (0, False))"
proof -
  let ?l = "foldl (abuse_step ord) l xs"
  have "\<not> entryExpired ?l e now"
    using assms(3) entryExpired_limits [of ?l l] abuse_run_inv [OF assms(1), of ord xs] by simp
  from check_live [OF _ sections_keep_live [OF assms(1-3,5)] this assms(4)] show ?thesis
    using abuse_run_inv [OF assms(1), of ord xs] by (simp add: verdict_def)
qed

text \<open>The entry of a client with \<open>j\<close> failures in the window that began at \<open>t\<close>, and of one blocked.\<close>

abbreviation (input) counting :: "int \<Rightarrow> time \<Rightarrow> invalidAuthAbuseEntry" where
  "counting j t \<equiv> \<lparr>iae_failures = j, iae_windowStart = t, iae_blockedUntil = 0\<rparr>"

abbreviation (input) blocked_entry :: "time \<Rightarrow> invalidAuthAbuseEntry" where
  "blocked_entry until \<equiv> \<lparr>iae_failures = 0, iae_windowStart = until, iae_blockedUntil = until\<rparr>"

lemma count_failure_entry:
  assumes "limiter_inv l" and "0 < t" and "t \<le> u" and "u < t + ial_window l"
  shows "client (count_failure l k (counting j t) u) k =
    Some (if ial_threshold l \<le> j + 1 then blocked_entry (u + ial_block l) else counting (j + 1) t)"
  using assms sm.get_put [of "ial_shards l" k _ k]
  by (simp add: count_failure_def Let_def limiter_inv_def go_time)

lemma record_counting:
  assumes "limiter_inv l" and "client l k = Some (counting j t)" and "0 < t" and "t \<le> u" and "u < t + ial_window l"
  shows "client (fst (record_section l k u)) k =
    Some (if ial_threshold l \<le> j + 1 then blocked_entry (u + ial_block l) else counting (j + 1) t)"
proof -
  have live: "\<not> entryExpired l (counting j t) u" using assms(5) by (simp add: entryExpired_def go_time)
  then have "record_section l k u = (count_failure l k (counting j t) u, True)"
    using assms(2) by (simp add: record_section_def lookup_live_def shard_get_def)
  then show ?thesis using count_failure_entry [OF assms(1,3,4,5)] by simp
qed

lemma record_fresh:
  assumes "limiter_inv l" and "client l k = None" and "ial_tracked l < ial_capacity l" and "0 < t"
    and "0 < ial_window l" and "1 < ial_threshold l"
  shows "client (fst (record_section l k t)) k = Some (counting 1 t)"
proof -
  have "record_section l k t = (count_failure (fresh l k t) k (counting 0 t) t, True)"
    using assms(2,3) by (simp add: record_section_def lookup_live_def shard_get_def reserveEntry_def Let_def)
  then show ?thesis
    using count_failure_entry [OF fresh_inv(1) [OF assms(1-3)] assms(4) order_refl, of t k 0] assms(5,6) by simp
qed

lemma run_counting:
  assumes "limiter_inv l" and "client l k = Some (counting j t)" and "0 < t"
    and "\<forall>x \<in> set xs. t \<le> section_time x \<and> section_time x < t + ial_window l"
    and "j + int (length (filter (records_for k) xs)) < ial_threshold l"
  shows "client (foldl (abuse_step ord) l xs) k = Some (counting (j + int (length (filter (records_for k) xs))) t)"
  using assms
proof (induction xs arbitrary: l j)
  case (Cons x xs)
  let ?l = "abuse_step ord l x"
  note s = abuse_step_inv [OF Cons.prems(1), of ord x]
  then have eq: "ial_threshold ?l = ial_threshold l" "ial_window ?l = ial_window l" by (simp_all add: limits_def)
  show ?case
  proof (cases "records_for k x")
    case True
    then obtain u where x: "x = RecordSection k u" by (cases x) auto
    from record_counting [OF Cons.prems(1-3), of u] Cons.prems(4,5) have "client ?l k = Some (counting (j + 1) t)"
      by (simp add: x)
    from Cons.IH [OF conjunct1 [OF s] this Cons.prems(3)] Cons.prems(4,5) True show ?thesis
      by (simp add: eq algebra_simps)
  next
    case False
    have "\<not> entryExpired l (counting j t) (section_time x)"
      using Cons.prems(4) by (simp add: entryExpired_def go_time)
    from section_keeps_live [OF Cons.prems(1,2) this order_refl False] have "client ?l k = Some (counting j t)" .
    from Cons.IH [OF conjunct1 [OF s] this Cons.prems(3)] Cons.prems(4,5) False show ?thesis by (simp add: eq)
  qed
qed simp

lemma check_entry:
  assumes "limiter_inv l" and "client l k = Some e" and "k \<noteq> []"
  shows "snd (check ord l k now) = verdict (iae_blockedUntil e) now"
proof (cases "entryExpired l e now")
  case True
  then have "\<not> now < iae_blockedUntil e" by (simp add: entryExpired_def go_time)
  with check_expired [OF assms(1,2) True assms(3)] show ?thesis by (simp add: verdict_def)
next
  case False
  from check_live [OF assms(1,2) False assms(3)] show ?thesis .
qed

text \<open>
  C31. A client without an entry, for which there is room, is blocked by exactly the threshold-th
  failure within one window: after fewer it passes, whatever else runs in between, and after
  the last one, at time \<open>u\<close>, it is told to wait until the block has passed since then and no
  longer.
\<close>

theorem limiter_blocks_at_threshold:
  assumes "limiter_inv l" and "client l k = None" and "ial_tracked l < ial_capacity l" and "k \<noteq> []"
    and "0 < t" and "0 < ial_window l" and "\<forall>x \<in> set xs. t \<le> section_time x \<and> section_time x < t + ial_window l"
    and "2 + int (length (filter (records_for k) xs)) \<le> ial_threshold l" and "t \<le> u" and "u < t + ial_window l"
    and "0 \<le> now"
  shows "let l' = foldl (abuse_step ord) l (RecordSection k t # xs) in
    snd (check ord l' k now) = (0, False) \<and>
    snd (check ord (abuse_step ord l' (RecordSection k u)) k now) =
      (if 2 + int (length (filter (records_for k) xs)) = ial_threshold l \<and> now < u + ial_block l
       then (time_sub (u + ial_block l) now, True) else (0, False))"
proof -
  let ?l1 = "abuse_step ord l (RecordSection k t)" and ?n = "int (length (filter (records_for k) xs))"
  let ?l2 = "foldl (abuse_step ord) ?l1 xs"
  note i1 = abuse_step_inv [OF assms(1), of ord "RecordSection k t"]
  note i2 = abuse_run_inv [OF conjunct1 [OF i1], of ord xs]
  have lim: "ial_threshold ?l1 = ial_threshold l" "ial_window ?l1 = ial_window l"
    "ial_threshold ?l2 = ial_threshold l" "ial_window ?l2 = ial_window l" "ial_block ?l2 = ial_block l"
    using i1 i2 by (simp_all add: limits_def)
  have "client ?l1 k = Some (counting 1 t)" using record_fresh [OF assms(1-3,5,6)] assms(8) by simp
  from run_counting [OF conjunct1 [OF i1] this assms(5)] have c: "client ?l2 k = Some (counting (1 + ?n) t)"
    using assms(7,8) by (simp add: lim del: abuse_step.simps)
  note i3 = record_section_inv(1) [OF conjunct1 [OF i2], of k u]
  from record_counting [OF conjunct1 [OF i2] c assms(5,9)] have
    "client (fst (record_section ?l2 k u)) k =
      Some (if ial_threshold l \<le> 2 + ?n then blocked_entry (u + ial_block l) else counting (2 + ?n) t)"
    using assms(10) by (simp add: lim add.commute del: abuse_step.simps)
  from check_entry [OF i3 this assms(4)] check_entry [OF conjunct1 [OF i2] c assms(4)] assms(8,11) show ?thesis
    by (simp add: verdict_def Let_def)
qed

section \<open>Instances\<close>

definition stored_order :: shard_order where
  "stored_order m = map fst m"

definition sample_config :: abuse_config where
  "sample_config = \<lparr>acfg_Enabled = True, acfg_Threshold = 2, acfg_WindowSeconds = 60, acfg_BlockSeconds = 600,
     acfg_Capacity = 100\<rparr>"

definition sample_limiter :: invalidAuthAbuseLimiter where
  "sample_limiter = the (newInvalidAuthAbuseLimiter (Some sample_config))"

lemma sample_new: "newInvalidAuthAbuseLimiter (Some sample_config) = Some sample_limiter"
  by (simp add: sample_limiter_def newInvalidAuthAbuseLimiter_def sample_config_def)

lemma sample_fields: "ial_threshold sample_limiter = 2" "ial_window sample_limiter = minute"
  "ial_block sample_limiter = 10 * minute" "ial_capacity sample_limiter = 100" "ial_tracked sample_limiter = 0"
  "client sample_limiter k = None"
proof -
  have s: "seconds 60 = minute" "seconds 600 = 10 * minute"
    by (simp_all add: seconds_def minute_def second_def i64_id int64_range_def)
  note f = sample_new [symmetric, unfolded newInvalidAuthAbuseLimiter_def sample_config_def, simplified]
  show "ial_threshold sample_limiter = 2" "ial_window sample_limiter = minute"
    "ial_block sample_limiter = 10 * minute" "ial_capacity sample_limiter = 100" "ial_tracked sample_limiter = 0"
    "client sample_limiter k = None"
    using s sm.get_empty [of k] by (simp_all add: f)
qed

theorem limiter_tracks_witness:
  "ial_tracked (foldl (abuse_step stored_order) sample_limiter [RecordSection ''a'' 100, CleanupSection 200]) \<le> 100"
  using limiter_tracks [OF sample_new, of stored_order "[RecordSection ''a'' 100, CleanupSection 200]"]
  unfolding Let_def by (simp add: sample_config_def)

theorem limiter_blocks_at_threshold_witness:
  "snd (check stored_order (foldl (abuse_step stored_order) sample_limiter
     [RecordSection ''a'' 100, RecordSection ''b'' 150, RecordSection ''a'' 200]) ''a'' 300) =
   (10 * minute - 100, True)"
  using limiter_blocks_at_threshold [OF new_limiter_inv [OF sample_new], of "''a''" 100
      "[RecordSection ''b'' 150]" 200 300 stored_order]
  by (simp add: sample_fields minute_def second_def time_sub_def Let_def)

theorem tracked_client_isolated_witness:
  "let l = fst (record_section sample_limiter ''a'' 100) in
   snd (check stored_order (foldl (abuse_step stored_order) l [RecordSection ''b'' 150, CleanupSection 200]) ''a'' 300)
     = (0, False)"
proof -
  let ?l = "fst (record_section sample_limiter ''a'' 100)"
  have c: "client ?l ''a'' = Some (counting 1 100)"
    by (rule record_fresh [OF new_limiter_inv [OF sample_new]]) (simp_all add: sample_fields minute_def second_def)
  have w: "ial_window ?l = minute"
    using record_section_inv(2) [OF new_limiter_inv [OF sample_new], of "''a''" 100]
    by (simp add: limits_def sample_fields)
  have "\<not> entryExpired ?l (counting 1 100) 300"
    by (simp add: entryExpired_def go_time w minute_def second_def)
  from tracked_client_isolated [OF record_section_inv(1) [OF new_limiter_inv [OF sample_new]] c this,
      of "[RecordSection ''b'' 150, CleanupSection 200]" stored_order] show ?thesis
    by (simp add: Let_def)
qed

end
