(* ===== verification/Strconv.thy ===== *)
theory Strconv
  imports Prelude "HOL-Library.Char_ord"
begin

text \<open>
  Letters and numbers in strings, as \<open>strings\<close>, \<open>strconv\<close>, \<open>fmt\<close> (verb d) and \<open>encoding/hex\<close>
  compare, write and read them, shared by the components.
\<close>

section \<open>Letters\<close>

definition ascii_upper :: "char \<Rightarrow> char" where
  "ascii_upper c = (if CHR ''a'' \<le> c \<and> c \<le> CHR ''z'' then char_of (of_char c - (32 :: nat)) else c)"

text \<open>
  \<open>strings.ToUpper\<close> on the bytes: the ASCII letters, and the two other runes whose upper case
  is an ASCII letter (dotless i and long s). Any other rune keeps its bytes here; its upper case
  is not ASCII either, and the uses below only tell ASCII results apart.
\<close>

fun to_upper :: "string \<Rightarrow> string" where
  "to_upper (a # b # s) =
     (if a = CHR 0xC4 \<and> b = CHR 0xB1 then CHR ''I'' # to_upper s
      else if a = CHR 0xC5 \<and> b = CHR 0xBF then CHR ''S'' # to_upper s
      else ascii_upper a # to_upper (b # s))"
| "to_upper s = map ascii_upper s"

text \<open>
  \<open>strings.EqualFold\<close>, exact for ASCII strings and for the Kelvin sign and the long s, which
  fold to k and s; other runes are compared byte for byte.
\<close>

fun fold_bytes :: "string \<Rightarrow> string" where
  "fold_bytes (a # b # c # s) =
     (if a = CHR 0xE2 \<and> b = CHR 0x84 \<and> c = CHR 0xAA then CHR ''K'' # fold_bytes s
      else if a = CHR 0xC5 \<and> b = CHR 0xBF then CHR ''S'' # fold_bytes (c # s)
      else ascii_upper a # fold_bytes (b # c # s))"
| "fold_bytes [a, b] = (if a = CHR 0xC5 \<and> b = CHR 0xBF then ''S'' else [ascii_upper a, ascii_upper b])"
| "fold_bytes s = map ascii_upper s"

definition equal_fold :: "string \<Rightarrow> string \<Rightarrow> bool" where
  "equal_fold s t \<longleftrightarrow> fold_bytes s = fold_bytes t"

section \<open>Numbers\<close>

definition is_digit :: "char \<Rightarrow> bool" where
  "is_digit c \<longleftrightarrow> CHR ''0'' \<le> c \<and> c \<le> CHR ''9''"

definition digits_value :: "string \<Rightarrow> int" where
  "digits_value s = foldl (\<lambda>n c. 10 * n + (of_char c - 48)) 0 s"

text \<open>\<open>strconv.ParseInt(s, 10, 64)\<close>, as \<open>Atoi\<close>: an optional sign and digits, within 64 bits.\<close>

definition parse_int :: "string \<Rightarrow> int option" where
  "parse_int s =
     (let neg = (case s of c # _ \<Rightarrow> c = CHR ''-'' | [] \<Rightarrow> False);
          digits = (case s of c # r \<Rightarrow> if c = CHR ''-'' \<or> c = CHR ''+'' then r else s | [] \<Rightarrow> []);
          v = (if neg then - digits_value digits else digits_value digits)
      in if digits = [] \<or> \<not> list_all is_digit digits \<or> \<not> int64_range v then None else Some v)"

fun show_nat :: "nat \<Rightarrow> string" where
  "show_nat n = (if n < 10 then [char_of (48 + n)] else show_nat (n div 10) @ [char_of (48 + n mod 10)])"

declare show_nat.simps [simp del]

definition show_int :: "int \<Rightarrow> string" where
  "show_int n = (if n < 0 then CHR ''-'' # show_nat (nat (- n)) else show_nat (nat n))"

text \<open>\<open>hex.EncodeToString\<close>.\<close>

definition hex_digit :: "nat \<Rightarrow> char" where
  "hex_digit n = (if n < 10 then char_of (48 + n) else char_of (87 + n))"

definition hex_encode :: "string \<Rightarrow> string" where
  "hex_encode s = concat (map (\<lambda>c. [hex_digit (of_char c div 16), hex_digit (of_char c mod 16)]) s)"

section \<open>What is printed is read back\<close>

lemma of_char_digit: "d < 10 \<Longrightarrow> of_char (char_of (48 + d) :: char) = 48 + d" for d :: nat
  by simp

lemma is_digit_digit: "d < 10 \<Longrightarrow> is_digit (char_of (48 + d))" for d :: nat
  by (simp add: is_digit_def less_eq_char_def of_char_digit)

lemma digits_value_snoc: "digits_value (s @ [c]) = 10 * digits_value s + (of_char c - 48)"
  by (simp add: digits_value_def)

lemma digits_value_digit: "d < 10 \<Longrightarrow> (of_char (char_of (48 + d) :: char) :: int) = int d + 48" for d :: nat
proof -
  assume "d < 10"
  then have "int (of_char (char_of (48 + d) :: char)) = int (48 + d)" by (simp only: of_char_digit)
  then show ?thesis by (simp only: of_nat_of_char)
qed

lemma show_nat_facts:
  "show_nat n \<noteq> [] \<and> list_all is_digit (show_nat n) \<and> digits_value (show_nat n) = int n"
proof (induction n rule: show_nat.induct)
  case (1 n)
  show ?case
  proof (cases "n < 10")
    case True
    then show ?thesis
      using digits_value_snoc [of "[]" "char_of (48 + n)"]
      by (simp add: show_nat.simps [of n] is_digit_digit digits_value_digit digits_value_def)
  next
    case False
    have "n mod 10 < 10" by simp
    with False 1 show ?thesis
      by (simp add: show_nat.simps [of n] is_digit_digit digits_value_snoc digits_value_digit)
        (simp add: zdiv_int zmod_int)
  qed
qed

lemma show_nat_inject: "show_nat m = show_nat n \<Longrightarrow> m = n"
  by (metis show_nat_facts of_nat_eq_iff)

lemma digit_not_sign: "is_digit c \<Longrightarrow> c \<noteq> CHR ''-'' \<and> c \<noteq> CHR ''+'' \<and> c \<noteq> CHR '':''"
  by (auto simp: is_digit_def less_eq_char_def)

lemma show_nat_no_sign: "c \<in> set (show_nat n) \<Longrightarrow> c \<noteq> CHR ''-'' \<and> c \<noteq> CHR ''+'' \<and> c \<noteq> CHR '':''"
  using show_nat_facts [of n] digit_not_sign by (auto simp: list_all_iff)

lemma show_int_inject: "show_int m = show_int n \<Longrightarrow> m = n"
proof -
  have no: "CHR ''-'' # s \<noteq> show_nat k" for s k
    using show_nat_no_sign [of "CHR ''-''" k] by (metis list.set_intros(1))
  assume "show_int m = show_int n"
  then show ?thesis
    using no no [symmetric] by (auto simp: show_int_def split: if_splits dest: show_nat_inject)
qed

lemma show_int_no_colon: "CHR '':'' \<notin> set (show_int n)"
  using show_nat_no_sign [of "CHR '':''"] by (auto simp: show_int_def)

lemma parse_show: "int64_range n \<Longrightarrow> parse_int (show_int n) = Some n"
proof -
  assume r: "int64_range n"
  show ?thesis
  proof (cases "n < 0")
    case True
    with r show_nat_facts [of "nat (- n)"] show ?thesis
      by (simp add: show_int_def parse_int_def)
  next
    case False
    obtain c s where c: "show_nat (nat n) = c # s" using show_nat_facts [of "nat n"] by (cases "show_nat (nat n)") auto
    then have "c \<noteq> CHR ''-''" "c \<noteq> CHR ''+''" using show_nat_no_sign [of c "nat n"] by auto
    with False r c show_nat_facts [of "nat n"] show ?thesis
      by (simp add: show_int_def parse_int_def)
  qed
qed

text \<open>A number, a separator that is no digit and a rest: the number and the rest are determined.\<close>

lemma show_sep_inject:
  assumes "show_nat m @ c # s = show_nat n @ c # t" and "\<not> is_digit c"
  shows "m = n \<and> s = t"
proof -
  have w: "takeWhile is_digit (show_nat k @ c # r) = show_nat k" for k r
    using show_nat_facts [of k] assms(2) by (simp add: takeWhile_append list_all_iff)
  from arg_cong [OF assms(1), of "takeWhile is_digit"] have "show_nat m = show_nat n" by (simp only: w)
  with assms(1) show ?thesis by (auto dest: show_nat_inject)
qed

lemma strip_no_start:
  assumes "\<And>w. w \<in> set ws \<Longrightarrow> w \<noteq> [] \<Longrightarrow> hd w \<noteq> a"
  shows "strip ws (a # s) = a # s"
proof (rule strip_stable)
  have "\<not> starts_with (a # s) w" if "w \<in> set ws" "w \<noteq> []" for w
    using assms [OF that] that(2) by (cases w) (auto simp: starts_with_iff)
  then show "find (\<lambda>w. w \<noteq> [] \<and> starts_with (a # s) w) ws = None"
    by (auto simp: find_None_iff)
qed

text \<open>A trimmed text stays as it is behind a prefix whose first and last characters are no spaces.\<close>

lemma trim_space_behind:
  assumes a: "a \<notin> set (concat space_runes)" and c: "c \<notin> set (concat space_runes)" and t: "trim_space t = t"
  shows "trim_space (a # p @ c # t) = a # p @ c # t"
proof -
  let ?ws = "map rev space_runes"
  have "strip space_runes (a # p @ c # t) = a # p @ c # t"
    using a by (intro strip_no_start) (metis UN_I hd_in_set set_concat)
  moreover have "strip ?ws (rev t @ c # rev p @ [a]) = rev t @ c # rev p @ [a]"
  proof (rule strip_stable)
    have "find (\<lambda>w. w \<noteq> [] \<and> starts_with (rev t) w) ?ws = None"
      using strip_done [of ?ws "rev (strip space_runes t)"] t by (metis rev_rev_ident trim_space_def)
    moreover have "starts_with (rev t @ c # r) w \<Longrightarrow> starts_with (rev t) w" if "w \<in> set ?ws" for r w
    proof -
      assume "starts_with (rev t @ c # r) w"
      then obtain q where q: "rev t @ c # r = w @ q" by (auto simp: starts_with_iff)
      from that c have "c \<notin> set w" by auto
      with q have "\<exists>s. rev t = w @ s" by (auto simp: append_eq_append_conv2 Cons_eq_append_conv)
      then show ?thesis by (simp add: starts_with_iff)
    qed
    ultimately show "find (\<lambda>w. w \<noteq> [] \<and> starts_with (rev t @ c # rev p @ [a]) w) ?ws = None"
      by (auto simp: find_None_iff)
  qed
  ultimately show ?thesis by (simp add: trim_space_def)
qed

end
