(* ===== verification/Payment_Checks.thy ===== *)
theory Payment_Checks
  imports Complex_Main Strconv
begin

text \<open>
  The checks a payment notification has to pass, and the amounts of a currency:
  backend/internal/payment/currency.go, payment_order_provider_snapshot.go, payment_currency.go
  and the pure functions of payment_fulfillment.go (both under backend/internal/service).
  A finite float64 and a decimal are the rational number they stand for; the rounding of a
  float64 subtraction is not modelled.
\<close>

section \<open>Amounts and currencies\<close>

datatype go_float = Finite rat | PosInf | NegInf | NaN

definition isValidProviderAmount :: "go_float \<Rightarrow> bool" where
  "isValidProviderAmount amount = (case amount of Finite q \<Rightarrow> 0 < q | _ \<Rightarrow> False)"

record paymentCurrencyAmountUnit =
  pcu_apiMinorUnit :: nat
  pcu_maxFractionDigits :: nat

abbreviation (input) amount_unit :: "nat \<Rightarrow> nat \<Rightarrow> paymentCurrencyAmountUnit" where
  "amount_unit a m \<equiv> \<lparr>pcu_apiMinorUnit = a, pcu_maxFractionDigits = m\<rparr>"

definition zeroDecimalCurrencies :: "string list" where
  "zeroDecimalCurrencies = [''BIF'', ''CLP'', ''DJF'', ''GNF'', ''JPY'', ''KMF'', ''KRW'', ''MGA'', ''PYG'',
     ''RWF'', ''VND'', ''VUV'', ''XAF'', ''XOF'', ''XPF'']"

definition paymentCurrencyAmountUnits :: "(string, paymentCurrencyAmountUnit) gomap" where
  "paymentCurrencyAmountUnits =
     map (\<lambda>c. (c, amount_unit 0 0)) zeroDecimalCurrencies @
     map (\<lambda>c. (c, amount_unit 2 0)) [''ISK'', ''UGX''] @
     map (\<lambda>c. (c, amount_unit 3 3)) [''BHD'', ''IQD'', ''JOD'', ''KWD'', ''LYD'', ''OMR'', ''TND'']"

definition NormalizePaymentCurrency :: "string \<Rightarrow> string option" where
  "NormalizePaymentCurrency raw =
     (let currency = to_upper (trim_space raw) in
      if currency = [] then Some ''CNY''
      else if length currency \<noteq> 3 then None
      else if list_ex (\<lambda>ch. ch < CHR ''A'' \<or> CHR ''Z'' < ch) currency then None
      else Some currency)"

definition paymentCurrencyAmountUnitFor :: "string \<Rightarrow> paymentCurrencyAmountUnit" where
  "paymentCurrencyAmountUnitFor currency =
     (case NormalizePaymentCurrency currency of
        None \<Rightarrow> amount_unit 2 2
      | Some normalized \<Rightarrow>
          (case gget paymentCurrencyAmountUnits normalized of Some u \<Rightarrow> u | None \<Rightarrow> amount_unit 2 2))"

definition CurrencyMinorUnit :: "string \<Rightarrow> nat" where
  "CurrencyMinorUnit currency = pcu_apiMinorUnit (paymentCurrencyAmountUnitFor currency)"

definition CurrencyMaxFractionDigits :: "string \<Rightarrow> nat" where
  "CurrencyMaxFractionDigits currency = pcu_maxFractionDigits (paymentCurrencyAmountUnitFor currency)"

definition truncate_rat :: "rat \<Rightarrow> int" where
  "truncate_rat q = (if 0 \<le> q then \<lfloor>q\<rfloor> else \<lceil>q\<rceil>)"

datatype amount_error = InvalidAmount | InvalidCurrency | NotWhole string | TooManyDecimals string nat

text \<open>
  \<open>parse\<close> is \<open>decimal.NewFromString\<close> of the imported decimal package. \<open>IntPart\<close> keeps the
  low 64 bits.
\<close>

definition AmountToMinorUnit ::
  "(string \<Rightarrow> rat option) \<Rightarrow> string \<Rightarrow> string \<Rightarrow> amount_error + int" where
  "AmountToMinorUnit parse amountStr currency =
     (case parse (trim_space amountStr) of
        None \<Rightarrow> Inl InvalidAmount
      | Some d \<Rightarrow>
          (case NormalizePaymentCurrency currency of
             None \<Rightarrow> Inl InvalidCurrency
           | Some normalized \<Rightarrow>
               let unit = paymentCurrencyAmountUnitFor normalized;
                   scaled = d * 10 ^ pcu_maxFractionDigits unit
               in if scaled \<noteq> of_int (truncate_rat scaled) then
                    (if pcu_maxFractionDigits unit = 0 then Inl (NotWhole normalized)
                     else Inl (TooManyDecimals normalized (pcu_maxFractionDigits unit)))
                  else Inr (i64 (truncate_rat (d * 10 ^ pcu_apiMinorUnit unit)))))"

definition MinorUnitToAmount :: "int \<Rightarrow> string \<Rightarrow> rat" where
  "MinorUnitToAmount value currency = of_int value / 10 ^ CurrencyMinorUnit currency"

definition paymentAmountToleranceForCurrency :: "string \<Rightarrow> rat" where
  "paymentAmountToleranceForCurrency currency =
     (let minorUnit = CurrencyMinorUnit currency in
      if minorUnit \<le> 2 then 1 / 100 else 1 / 10 ^ minorUnit / 2)"

section \<open>The provider snapshot of an order\<close>

datatype go_any = AnyString string | AnyInt int | AnyFloat rat | AnyOther

record paymentOrderProviderSnapshot =
  pps_SchemaVersion :: int
  pps_ProviderInstanceID :: string
  pps_ProviderKey :: string
  pps_PaymentMode :: string
  pps_MerchantAppID :: string
  pps_MerchantID :: string
  pps_Currency :: string

definition psSnapshotStringValue :: "go_any option \<Rightarrow> string" where
  "psSnapshotStringValue value = (case value of Some (AnyString s) \<Rightarrow> trim_space s | _ \<Rightarrow> [])"

definition psSnapshotIntValue :: "go_any option \<Rightarrow> int" where
  "psSnapshotIntValue value =
     (case value of
        Some (AnyInt n) \<Rightarrow> n
      | Some (AnyFloat q) \<Rightarrow> truncate_rat q
      | Some (AnyString s) \<Rightarrow> (case parse_int (trim_space s) of Some n \<Rightarrow> n | None \<Rightarrow> 0)
      | _ \<Rightarrow> 0)"

definition psOrderProviderSnapshot :: "(string, go_any) gomap \<Rightarrow> paymentOrderProviderSnapshot option" where
  "psOrderProviderSnapshot m =
     (if glen m = 0 then None
      else
        let snapshot =
          \<lparr>pps_SchemaVersion = psSnapshotIntValue (gget m ''schema_version''),
           pps_ProviderInstanceID = psSnapshotStringValue (gget m ''provider_instance_id''),
           pps_ProviderKey = psSnapshotStringValue (gget m ''provider_key''),
           pps_PaymentMode = psSnapshotStringValue (gget m ''payment_mode''),
           pps_MerchantAppID = psSnapshotStringValue (gget m ''merchant_app_id''),
           pps_MerchantID = psSnapshotStringValue (gget m ''merchant_id''),
           pps_Currency = psSnapshotStringValue (gget m ''currency'')\<rparr>
        in if pps_SchemaVersion snapshot = 0 \<and> pps_ProviderInstanceID snapshot = [] \<and>
              pps_ProviderKey snapshot = [] \<and> pps_PaymentMode snapshot = [] \<and>
              pps_MerchantAppID snapshot = [] \<and> pps_MerchantID snapshot = [] \<and> pps_Currency snapshot = []
           then None else Some snapshot)"

definition PaymentOrderCurrency :: "(string, go_any) gomap \<Rightarrow> string" where
  "PaymentOrderCurrency m =
     (case psOrderProviderSnapshot m of
        None \<Rightarrow> ''CNY''
      | Some snapshot \<Rightarrow>
          (case NormalizePaymentCurrency (pps_Currency snapshot) of Some c \<Rightarrow> c | None \<Rightarrow> ''CNY''))"

section \<open>The metadata of a notification\<close>

text \<open>An error names the provider and the field it is about.\<close>

datatype metadata_error = FieldMissing string string | FieldMismatch string string

definition metadata_value :: "(string, string) gomap \<Rightarrow> string \<Rightarrow> string" where
  "metadata_value m k = (case gget m k of Some v \<Rightarrow> trim_space v | None \<Rightarrow> [])"

definition match_field :: "string \<Rightarrow> string \<Rightarrow> string \<Rightarrow> string \<Rightarrow> metadata_error option" where
  "match_field provider field expected actual =
     (if trim_space expected = [] then None
      else if actual = [] then Some (FieldMissing provider field)
      else if \<not> equal_fold (trim_space expected) actual then Some (FieldMismatch provider field)
      else None)"

definition match_state :: "string \<Rightarrow> string \<Rightarrow> string \<Rightarrow> string \<Rightarrow> metadata_error option" where
  "match_state provider field required actual =
     (if actual \<noteq> [] \<and> \<not> equal_fold actual required then Some (FieldMismatch provider field) else None)"

text \<open>The first check that fails decides.\<close>

fun first_error :: "'e option list \<Rightarrow> 'e option" where
  "first_error [] = None"
| "first_error (None # es) = first_error es"
| "first_error (Some e # es) = Some e"

definition validateProviderSnapshotMetadata ::
  "(string, go_any) gomap \<Rightarrow> string \<Rightarrow> (string, string) gomap \<Rightarrow> metadata_error option" where
  "validateProviderSnapshotMetadata order_snapshot providerKey metadata =
     (if glen metadata = 0 then None
      else case psOrderProviderSnapshot order_snapshot of
        None \<Rightarrow> None
      | Some snapshot \<Rightarrow>
          let p = trim_space providerKey in
          if p = ''wxpay'' then first_error
            [match_field p ''appid'' (pps_MerchantAppID snapshot) (metadata_value metadata ''appid''),
             match_field p ''mchid'' (pps_MerchantID snapshot) (metadata_value metadata ''mchid''),
             match_field p ''currency'' (pps_Currency snapshot) (to_upper (metadata_value metadata ''currency'')),
             match_state p ''trade_state'' ''SUCCESS'' (metadata_value metadata ''trade_state'')]
          else if p = ''alipay'' then first_error
            [match_field p ''app_id'' (pps_MerchantAppID snapshot) (metadata_value metadata ''app_id'')]
          else if p = ''easypay'' then first_error
            [match_field p ''pid'' (pps_MerchantID snapshot) (metadata_value metadata ''pid'')]
          else if p = ''stripe'' then first_error
            [match_field p ''currency'' (pps_Currency snapshot) (to_upper (metadata_value metadata ''currency''))]
          else if p = ''airwallex'' then first_error
            [match_field p ''account_id'' (pps_MerchantID snapshot) (metadata_value metadata ''account_id''),
             match_field p ''currency'' (pps_Currency snapshot) (to_upper (metadata_value metadata ''currency'')),
             match_state p ''status'' ''SUCCEEDED'' (metadata_value metadata ''status'')]
          else None)"

text \<open>The registry of providers maps a payment type to a provider key; it is nil in some set-ups.\<close>

definition expectedNotificationProviderKey ::
  "(string \<Rightarrow> string) option \<Rightarrow> string \<Rightarrow> string \<Rightarrow> string \<Rightarrow> string" where
  "expectedNotificationProviderKey registry orderPaymentType orderProviderKey instanceProviderKey =
     (if trim_space instanceProviderKey \<noteq> [] then trim_space instanceProviderKey
      else if trim_space orderProviderKey \<noteq> [] then trim_space orderProviderKey
      else case registry of
        None \<Rightarrow> trim_space orderPaymentType
      | Some reg \<Rightarrow>
          if trim_space (reg orderPaymentType) \<noteq> [] then trim_space (reg orderPaymentType)
          else trim_space orderPaymentType)"

text \<open>The key \<open>sub2_N\<close> of orders that predate the external order id.\<close>

definition parseLegacyPaymentOrderID :: "string \<Rightarrow> bool \<Rightarrow> int option" where
  "parseLegacyPaymentOrderID orderID notFound =
     (if \<not> notFound then None
      else case cut_prefix (trim_space orderID) ''sub2_'' of
        None \<Rightarrow> None
      | Some trimmed \<Rightarrow>
          if trimmed = [] then None
          else case parse_int trimmed of
            None \<Rightarrow> None
          | Some oid \<Rightarrow> if oid \<le> 0 then None else Some oid)"

section \<open>Amounts are exact\<close>

lemma units_precise:
  "pcu_maxFractionDigits (paymentCurrencyAmountUnitFor c) \<le> pcu_apiMinorUnit (paymentCurrencyAmountUnitFor c)"
proof -
  have "pcu_maxFractionDigits u \<le> pcu_apiMinorUnit u" if "gget paymentCurrencyAmountUnits x = Some u" for x u
    using that by (auto simp: gget_def paymentCurrencyAmountUnits_def zeroDecimalCurrencies_def split: if_splits)
  then show ?thesis by (simp add: paymentCurrencyAmountUnitFor_def split: option.split)
qed

lemma truncate_of_int [simp]: "truncate_rat (of_int n) = n"
  by (simp add: truncate_rat_def)

lemma whole_scaled:
  assumes "d * 10 ^ m = of_int n" and "m \<le> k"
  shows "\<exists>j. d * 10 ^ k = (of_int j :: rat)"
proof
  have "d * 10 ^ k = d * 10 ^ m * 10 ^ (k - m)" using assms(2) by (simp add: power_add [symmetric])
  then show "d * 10 ^ k = of_int (n * 10 ^ (k - m))" by (simp add: assms(1))
qed

lemma upper_no_space:
  assumes "CHR ''A'' \<le> c" and "c \<le> CHR ''Z''"
  shows "c \<notin> set (concat space_runes)"
proof
  assume "c \<in> set (concat space_runes)"
  with assms show False by (auto simp: space_runes_def less_eq_char_def)
qed

lemma trim_space_bare:
  assumes "a \<notin> set (concat space_runes)" and "b \<notin> set (concat space_runes)"
  shows "trim_space (a # s @ [b]) = a # s @ [b]"
proof -
  have "strip space_runes (a # s @ [b]) = a # s @ [b]"
    using assms(1) by (intro strip_no_start) (metis UN_I hd_in_set set_concat)
  moreover have "strip (map rev space_runes) (b # rev s @ [a]) = b # rev s @ [a]"
  proof (rule strip_no_start)
    fix w assume "w \<in> set (map rev space_runes)" and "w \<noteq> []"
    then obtain v where "v \<in> set space_runes" "w = rev v" by auto
    with \<open>w \<noteq> []\<close> assms(2) show "hd w \<noteq> b"
      by (metis UN_I hd_in_set set_concat set_rev)
  qed
  ultimately show ?thesis by (simp add: trim_space_def)
qed

lemma ascii_upper_id: "c \<le> CHR ''Z'' \<Longrightarrow> ascii_upper c = c"
  by (auto simp: ascii_upper_def less_eq_char_def)

lemma to_upper_id: "list_all (\<lambda>c. c \<le> CHR ''Z'') s \<Longrightarrow> to_upper s = s"
  by (induction s rule: to_upper.induct) (auto simp: ascii_upper_id less_eq_char_def)

lemma normalize_idem: "NormalizePaymentCurrency raw = Some c \<Longrightarrow> NormalizePaymentCurrency c = Some c"
proof -
  have id: "NormalizePaymentCurrency x = Some x"
    if l: "length x = 3" and u: "\<not> list_ex (\<lambda>ch. ch < CHR ''A'' \<or> CHR ''Z'' < ch) x" for x
  proof -
    obtain a b d where x: "x = [a, b, d]"
      using l by (auto simp: eval_nat_numeral length_Suc_conv)
    have "trim_space x = x"
      using u trim_space_bare [of a d "[b]"] upper_no_space by (simp add: x not_less)
    moreover have "to_upper x = x" using u by (intro to_upper_id) (simp add: x not_less)
    ultimately show ?thesis using l u by (simp add: NormalizePaymentCurrency_def x)
  qed
  assume "NormalizePaymentCurrency raw = Some c"
  then have "c = ''CNY'' \<or> length c = 3 \<and> \<not> list_ex (\<lambda>ch. ch < CHR ''A'' \<or> CHR ''Z'' < ch) c"
    by (auto simp: NormalizePaymentCurrency_def Let_def split: if_splits)
  then show ?thesis using id by (auto simp: less_char_def)
qed

lemma unit_normalized:
  "NormalizePaymentCurrency c = Some x \<Longrightarrow> paymentCurrencyAmountUnitFor x = paymentCurrencyAmountUnitFor c"
  using normalize_idem [of c x] by (simp add: paymentCurrencyAmountUnitFor_def)

text \<open>
  \<open>IntPart\<close> keeps the low 64 bits of a larger amount: of 2^64 minor units none are left, and no error is
  returned.
\<close>

lemma large_amount_wraps:
  assumes "parse (trim_space s) = Some (2 ^ 64 / 100)"
  shows "AmountToMinorUnit parse s '''' = Inr 0"
proof -
  have n: "NormalizePaymentCurrency [] = Some ''CNY''" by (simp add: NormalizePaymentCurrency_def)
  have u: "paymentCurrencyAmountUnitFor [] = amount_unit 2 2"
    by (simp add: paymentCurrencyAmountUnitFor_def n paymentCurrencyAmountUnits_def zeroDecimalCurrencies_def gget_def)
  have t: "truncate_rat (2 ^ 64) = 2 ^ 64" using truncate_of_int [of "2 ^ 64"] by simp
  then show ?thesis using assms
    by (simp add: AmountToMinorUnit_def n unit_normalized [OF n] u i64_def)
qed



end
