(* ===== verification/Payment_Store.thy ===== *)
theory Payment_Store
  imports Payment_Checks
begin

text \<open>
  The rows that payments work on and the statements that read and write them: payment orders,
  redeem codes, user balances and the audit log (ent schemas payment_order, redeem_code,
  payment_audit_log; repository/redeem_code_repo.go; \<open>UpdateBalance\<close> of
  repository/user_repo.go; the statements of payment_fulfillment.go and
  payment_order_lifecycle.go). A statement is atomic. Every update of an order by the ent client
  sets \<open>updated_at\<close> to the clock unless it says otherwise (\<open>UpdateDefault\<close>). Columns that no
  modelled code reads are left out.
\<close>

section \<open>Rows\<close>

record payment_order =
  po_ID :: int
  po_UserID :: int
  po_Amount :: rat
  po_PayAmount :: rat
  po_RechargeCode :: string
  po_OutTradeNo :: string
  po_PaymentType :: string
  po_PaymentTradeNo :: string
  po_OrderType :: string
  po_SubscriptionGroupID :: "int option"
  po_SubscriptionDays :: "int option"
  po_ProviderKey :: string
  po_ProviderSnapshot :: "(string, go_any) gomap"
  po_Status :: string
  po_ExpiresAt :: time
  po_PaidAt :: "time option"
  po_CompletedAt :: "time option"
  po_FailedAt :: "time option"
  po_UpdatedAt :: time

abbreviation "OrderStatusPending \<equiv> ''PENDING''"
abbreviation "OrderStatusPaid \<equiv> ''PAID''"
abbreviation "OrderStatusRecharging \<equiv> ''RECHARGING''"
abbreviation "OrderStatusCompleted \<equiv> ''COMPLETED''"
abbreviation "OrderStatusExpired \<equiv> ''EXPIRED''"
abbreviation "OrderStatusCancelled \<equiv> ''CANCELLED''"
abbreviation "OrderStatusFailed \<equiv> ''FAILED''"
abbreviation "OrderStatusRefunded \<equiv> ''REFUNDED''"

definition psIsRefundStatus :: "string \<Rightarrow> bool" where
  "psIsRefundStatus s \<longleftrightarrow> s \<in> set [''REFUND_REQUESTED'', ''REFUNDING'', ''REFUND_PENDING'',
     ''PARTIALLY_REFUNDED'', ''REFUNDED'', ''REFUND_FAILED'']"

record RedeemCode =
  rdc_ID :: int
  rdc_Code :: string
  rdc_Type :: string
  rdc_Value :: rat
  rdc_Status :: string
  rdc_UsedBy :: "int option"
  rdc_UsedAt :: "time option"
  rdc_ExpiresAt :: "time option"
  rdc_GroupID :: "int option"

definition IsUsed :: "RedeemCode \<Rightarrow> bool" where
  "IsUsed r \<longleftrightarrow> rdc_Status r = ''used''"

definition IsExpiredAt :: "RedeemCode \<Rightarrow> time \<Rightarrow> bool" where
  "IsExpiredAt r now \<longleftrightarrow>
     rdc_Status r = ''expired'' \<or>
     rdc_Status r = ''unused'' \<and> (case rdc_ExpiresAt r of None \<Rightarrow> False | Some t \<Rightarrow> \<not> time_after t now)"

definition CanUse :: "RedeemCode \<Rightarrow> time \<Rightarrow> bool" where
  "CanUse r now \<longleftrightarrow> rdc_Status r = ''unused'' \<and> \<not> IsExpiredAt r now"

text \<open>
  The tables. The audit log has a unique index on order and action; a row holds its operator and,
  of its details, the field recoveredFromNote. \<open>pd_grants\<close>, \<open>pd_rebates\<close> and \<open>pd_redeem_rebates\<close>
  list the committed subscription assignments (order, user, group, days) and affiliate accruals,
  those of orders (order, user, base amount) and those of codes that users redeemed (code, user,
  base amount). \<open>pd_accepted\<close> is a history that no code reads: the orders and amounts of the
  notifications that passed the checks of \<open>confirmPayment\<close>.
\<close>

record pay_db =
  pd_orders :: "(int, payment_order) gomap"
  pd_nextOrder :: int
  pd_codes :: "RedeemCode list"
  pd_nextCode :: int
  pd_balance :: "(int, rat) gomap"
  pd_audit :: "(int \<times> string, string \<times> bool) gomap"
  pd_grants :: "(int \<times> int \<times> int \<times> int) list"
  pd_rebates :: "(int \<times> int \<times> rat) list"
  pd_redeem_rebates :: "(string \<times> int \<times> rat) list"
  pd_accepted :: "(int \<times> rat) list"

section \<open>Orders\<close>

definition get_order :: "pay_db \<Rightarrow> int \<Rightarrow> payment_order option" where
  "get_order db i = gget (pd_orders db) i"

definition orders_by_trade_no :: "pay_db \<Rightarrow> string \<Rightarrow> payment_order list" where
  "orders_by_trade_no db s = filter (\<lambda>r. po_OutTradeNo r = s) (map snd (pd_orders db))"

text \<open>\<open>PaymentOrder.Update().Where(IDEQ(i), cond).Set...Save()\<close>: the number of updated rows.\<close>

definition update_order ::
  "int \<Rightarrow> (payment_order \<Rightarrow> bool) \<Rightarrow> (payment_order \<Rightarrow> payment_order) \<Rightarrow> pay_db \<Rightarrow> pay_db \<times> nat" where
  "update_order i cond f db =
     (case get_order db i of
        Some r \<Rightarrow> if cond r then (db\<lparr>pd_orders := gput (pd_orders db) i (f r)\<rparr>, 1) else (db, 0)
      | None \<Rightarrow> (db, 0))"

definition paymentGrace :: duration where
  "paymentGrace = 5 * minute"

definition mark_paid :: "time \<Rightarrow> int \<Rightarrow> string \<Rightarrow> rat \<Rightarrow> pay_db \<Rightarrow> pay_db \<times> nat" where
  "mark_paid now i tradeNo paid =
     update_order i
       (\<lambda>r. po_Status r = OrderStatusPending \<or> po_Status r = OrderStatusCancelled \<or>
            po_Status r = OrderStatusExpired \<and> \<not> time_before (po_UpdatedAt r) (time_add now (- paymentGrace)))
       (\<lambda>r. r\<lparr>po_Status := OrderStatusPaid, po_PayAmount := paid, po_PaymentTradeNo := tradeNo,
              po_PaidAt := Some now, po_FailedAt := None, po_UpdatedAt := now\<rparr>)"

definition paymentFulfillmentLeaseDuration :: duration where
  "paymentFulfillmentLeaseDuration = 5 * minute"

text \<open>The clock is truncated to microseconds before the lease is taken.\<close>

definition truncate_micro :: "time \<Rightarrow> time" where
  "truncate_micro t = t - t mod 1000"

definition claim_lease :: "time \<Rightarrow> int \<Rightarrow> pay_db \<Rightarrow> pay_db \<times> nat" where
  "claim_lease clock i =
     (let now = truncate_micro clock; staleBefore = time_add now (- paymentFulfillmentLeaseDuration) in
      update_order i
        (\<lambda>r. po_Status r = OrderStatusPaid \<or> po_Status r = OrderStatusFailed \<or>
             po_Status r = OrderStatusRecharging \<and> \<not> time_after (po_UpdatedAt r) staleBefore)
        (\<lambda>r. r\<lparr>po_Status := OrderStatusRecharging, po_UpdatedAt := now, po_FailedAt := None\<rparr>))"

definition complete_order :: "time \<Rightarrow> int \<Rightarrow> time \<Rightarrow> pay_db \<Rightarrow> pay_db \<times> nat" where
  "complete_order now i version =
     update_order i
       (\<lambda>r. po_Status r = OrderStatusRecharging \<and> po_UpdatedAt r = version)
       (\<lambda>r. r\<lparr>po_Status := OrderStatusCompleted, po_CompletedAt := Some now, po_UpdatedAt := now\<rparr>)"

definition fail_order :: "time \<Rightarrow> int \<Rightarrow> time \<Rightarrow> pay_db \<Rightarrow> pay_db \<times> nat" where
  "fail_order now i version =
     update_order i
       (\<lambda>r. po_Status r = OrderStatusRecharging \<and> po_UpdatedAt r = version)
       (\<lambda>r. r\<lparr>po_Status := OrderStatusFailed, po_FailedAt := Some now, po_UpdatedAt := now\<rparr>)"

definition close_order :: "time \<Rightarrow> int \<Rightarrow> string \<Rightarrow> pay_db \<Rightarrow> pay_db \<times> nat" where
  "close_order now i fs =
     update_order i (\<lambda>r. po_Status r = OrderStatusPending) (\<lambda>r. r\<lparr>po_Status := fs, po_UpdatedAt := now\<rparr>)"

definition persist_trade_no :: "time \<Rightarrow> int \<Rightarrow> string \<Rightarrow> pay_db \<Rightarrow> pay_db \<times> nat" where
  "persist_trade_no now i tradeNo =
     update_order i (\<lambda>r. True) (\<lambda>r. r\<lparr>po_PaymentTradeNo := tradeNo, po_UpdatedAt := now\<rparr>)"

text \<open>
  The transaction of \<open>createOrderInTx\<close>: the row gets its id from the sequence, then its
  recharge code. The limits checked before and the allocated external id are the caller's.
\<close>

definition recharge_code :: "int \<Rightarrow> time \<Rightarrow> string" where
  "recharge_code i now = ''PAY-'' @ show_int i @ ''-'' @ show_int (now mod 100000)"

definition insert_order :: "time \<Rightarrow> payment_order \<Rightarrow> pay_db \<Rightarrow> pay_db" where
  "insert_order now r db =
     (let i = pd_nextOrder db;
          row = r\<lparr>po_ID := i, po_RechargeCode := recharge_code i now, po_PaymentTradeNo := [],
                 po_Status := OrderStatusPending, po_PaidAt := None, po_CompletedAt := None,
                 po_FailedAt := None, po_UpdatedAt := now\<rparr>
      in db\<lparr>pd_orders := gput (pd_orders db) i row, pd_nextOrder := i + 1\<rparr>)"

text \<open>
  After the provider answered (\<open>invokeProvider\<close>), the columns it filled are saved; empty ones are
  left as they are. When anything after the insertion failed, \<open>CreateOrder\<close> sets the status to
  FAILED, whatever it is by then.
\<close>

definition save_provider :: "time \<Rightarrow> int \<Rightarrow> string \<Rightarrow> string \<Rightarrow> pay_db \<Rightarrow> pay_db \<times> nat" where
  "save_provider now i tradeNo key =
     update_order i (\<lambda>r. True)
       (\<lambda>r. r\<lparr>po_PaymentTradeNo := (if tradeNo = [] then po_PaymentTradeNo r else tradeNo),
              po_ProviderKey := (if key = [] then po_ProviderKey r else key), po_UpdatedAt := now\<rparr>)"

definition fail_creation :: "time \<Rightarrow> int \<Rightarrow> pay_db \<Rightarrow> pay_db \<times> nat" where
  "fail_creation now i =
     update_order i (\<lambda>r. True) (\<lambda>r. r\<lparr>po_Status := OrderStatusFailed, po_UpdatedAt := now\<rparr>)"

definition accepted :: "pay_db \<Rightarrow> int \<Rightarrow> bool" where
  "accepted db i \<longleftrightarrow> i \<in> set (map fst (pd_accepted db))"

definition accept :: "int \<Rightarrow> rat \<Rightarrow> pay_db \<Rightarrow> pay_db" where
  "accept i paid db = db\<lparr>pd_accepted := pd_accepted db @ [(i, paid)]\<rparr>"

section \<open>The audit log\<close>

definition has_audit :: "pay_db \<Rightarrow> int \<Rightarrow> string \<Rightarrow> bool" where
  "has_audit db i action \<longleftrightarrow> gget (pd_audit db) (i, action) \<noteq> None"

text \<open>An insert that meets the unique index fails and leaves the row as it is.\<close>

definition insert_audit :: "int \<Rightarrow> string \<Rightarrow> string \<times> bool \<Rightarrow> pay_db \<Rightarrow> pay_db" where
  "insert_audit i action row db =
     (if has_audit db i action then db else db\<lparr>pd_audit := gput (pd_audit db) (i, action) row\<rparr>)"

definition write_audit :: "int \<Rightarrow> string \<Rightarrow> string \<Rightarrow> pay_db \<Rightarrow> pay_db" where
  "write_audit i action op = insert_audit i action (op, False)"

section \<open>Redeem codes and balances\<close>

definition code_by_code :: "pay_db \<Rightarrow> string \<Rightarrow> RedeemCode option" where
  "code_by_code db s = find (\<lambda>r. rdc_Code r = s) (pd_codes db)"

definition code_by_id :: "pay_db \<Rightarrow> int \<Rightarrow> RedeemCode option" where
  "code_by_id db i = find (\<lambda>r. rdc_ID r = i) (pd_codes db)"

text \<open>\<open>Create\<close>; the column \<open>code\<close> is unique.\<close>

definition insert_code :: "RedeemCode \<Rightarrow> pay_db \<Rightarrow> pay_db option" where
  "insert_code r db =
     (if code_by_code db (rdc_Code r) \<noteq> None then None
      else Some (db\<lparr>pd_codes := pd_codes db @ [r\<lparr>rdc_ID := pd_nextCode db\<rparr>], pd_nextCode := pd_nextCode db + 1\<rparr>))"

text \<open>\<open>Use\<close>: mark the code used, if it is still unused.\<close>

definition use_code :: "time \<Rightarrow> int \<Rightarrow> int \<Rightarrow> pay_db \<Rightarrow> pay_db option" where
  "use_code now i userID db =
     (if \<exists>r \<in> set (pd_codes db). rdc_ID r = i \<and> rdc_Status r = ''unused''
      then Some (db\<lparr>pd_codes := map (\<lambda>r. if rdc_ID r = i \<and> rdc_Status r = ''unused''
        then r\<lparr>rdc_Status := ''used'', rdc_UsedBy := Some userID, rdc_UsedAt := Some now\<rparr> else r) (pd_codes db)\<rparr>)
      else None)"

definition UpdateBalance :: "int \<Rightarrow> rat \<Rightarrow> pay_db \<Rightarrow> pay_db option" where
  "UpdateBalance u amount db =
     (case gget (pd_balance db) u of
        None \<Rightarrow> None
      | Some b \<Rightarrow> Some (db\<lparr>pd_balance := gput (pd_balance db) u (b + amount)\<rparr>))"

definition ApplyRedeemBalanceAdjustment :: "int \<Rightarrow> rat \<Rightarrow> pay_db \<Rightarrow> pay_db option" where
  "ApplyRedeemBalanceAdjustment u delta db =
     (case gget (pd_balance db) u of
        None \<Rightarrow> None
      | Some b \<Rightarrow> Some (db\<lparr>pd_balance := gput (pd_balance db) u (max (b + delta) 0)\<rparr>))"

section \<open>How the tables evolve\<close>

text \<open>The columns of an order that never change after its creation.\<close>

definition fixed_columns :: "payment_order \<Rightarrow> int \<times> int \<times> rat \<times> string \<times> string \<times> string \<times> int option \<times> int option" where
  "fixed_columns r = (po_ID r, po_UserID r, po_Amount r, po_RechargeCode r, po_OutTradeNo r, po_OrderType r,
     po_SubscriptionGroupID r, po_SubscriptionDays r)"

definition code_fixed :: "RedeemCode \<Rightarrow> int \<times> string \<times> string \<times> rat \<times> time option" where
  "code_fixed c = (rdc_ID c, rdc_Code c, rdc_Type c, rdc_Value c, rdc_ExpiresAt c)"

definition code_evolves :: "RedeemCode \<Rightarrow> RedeemCode \<Rightarrow> bool" where
  "code_evolves c c' \<longleftrightarrow> code_fixed c' = code_fixed c \<and> (rdc_Status c \<noteq> ''unused'' \<longrightarrow> c' = c)"

text \<open>
  What every statement guarantees: orders stay, keep their fixed columns, are paid once and never
  go back to an earlier stage; codes stay and are used once; audit rows, grants, rebates and
  accepted notifications stay.
\<close>

definition open_status :: "string \<Rightarrow> bool" where
  "open_status s \<longleftrightarrow> s \<in> {OrderStatusPending, OrderStatusCancelled, OrderStatusExpired}"

definition stage :: "string \<Rightarrow> nat" where
  "stage s = (if open_status s then 0 else if s = OrderStatusPaid then 1 else 2)"

definition order_evolves :: "payment_order \<Rightarrow> payment_order \<Rightarrow> bool" where
  "order_evolves r r' \<longleftrightarrow> fixed_columns r' = fixed_columns r \<and> (po_PaidAt r \<noteq> None \<longrightarrow> po_PaidAt r' = po_PaidAt r \<and> po_PayAmount r' = po_PayAmount r) \<and>
     stage (po_Status r) \<le> stage (po_Status r')"

definition db_evolves :: "pay_db \<Rightarrow> pay_db \<Rightarrow> bool" where
  "db_evolves db db' \<longleftrightarrow>
     (\<forall>i r. get_order db i = Some r \<longrightarrow> (\<exists>r'. get_order db' i = Some r' \<and> order_evolves r r')) \<and>
     (\<forall>s c. code_by_code db s = Some c \<longrightarrow> (\<exists>c'. code_by_code db' s = Some c' \<and> code_evolves c c')) \<and>
     (\<forall>k v. gget (pd_audit db) k = Some v \<longrightarrow> gget (pd_audit db') k = Some v) \<and>
     prefix (pd_grants db) (pd_grants db') \<and> prefix (pd_rebates db) (pd_rebates db') \<and>
     prefix (pd_redeem_rebates db) (pd_redeem_rebates db') \<and> prefix (pd_accepted db) (pd_accepted db')"

lemma order_evolves_refl [simp]: "order_evolves r r"
  by (simp add: order_evolves_def)

lemma code_evolves_refl [simp]: "code_evolves c c"
  by (simp add: code_evolves_def)

lemma order_evolves_trans: "order_evolves r s \<Longrightarrow> order_evolves s t \<Longrightarrow> order_evolves r t"
  by (simp add: order_evolves_def)

lemma code_evolves_trans: "code_evolves r s \<Longrightarrow> code_evolves s t \<Longrightarrow> code_evolves r t"
  by (auto simp: code_evolves_def)

lemma db_evolves_refl [simp]: "db_evolves db db"
  by (simp add: db_evolves_def)

lemma db_evolves_trans:
  assumes "db_evolves a b" and "db_evolves b c"
  shows "db_evolves a c"
proof -
  have "\<exists>r'. get_order c i = Some r' \<and> order_evolves r r'" if "get_order a i = Some r" for i r
    using assms that unfolding db_evolves_def by (meson order_evolves_trans)
  moreover have "\<exists>d. code_by_code c s = Some d \<and> code_evolves e d" if "code_by_code a s = Some e" for s e
    using assms that unfolding db_evolves_def by (meson code_evolves_trans)
  ultimately show ?thesis using assms unfolding db_evolves_def by (meson prefix_order.trans)
qed

lemma accepted_evolves: "db_evolves db db' \<Longrightarrow> accepted db i \<Longrightarrow> accepted db' i"
  unfolding db_evolves_def accepted_def by (meson map_mono_prefix set_mono_prefix subsetD)

lemma db_evolves_order:
  "db_evolves db db' \<Longrightarrow> get_order db i = Some r \<Longrightarrow> \<exists>r'. get_order db' i = Some r' \<and> order_evolves r r'"
  by (simp add: db_evolves_def)

end
