(* ===== verification/Payment_Fulfillment.thy ===== *)
theory Payment_Fulfillment
  imports Payment_Store Interleaving
begin

text \<open>
  backend/internal/service/payment_fulfillment.go and \<open>Redeem\<close> of redeem_service.go: what
  happens from a provider's notification to the credited balance or the assigned subscription.
  A request is a phase that names its next statement; a step executes that statement, with the
  fault and the outside world of the step in \<open>pay_input\<close>. Log lines, e-mails and cache
  invalidations of the redeem service are left out. Fulfilment redeems under a context that
  suppresses the accrual of the redeem service (\<open>ContextSkipRedeemAffiliate\<close>): the argument
  \<open>skip\<close> of \<open>redeem_step\<close>.
\<close>

section \<open>Errors, inputs and environment\<close>

datatype redeem_error =
    RedeemRateLimited | RedeemCodeLocked | RedeemCodeNotFound | RedeemCodeExpired | RedeemCodeUsed
  | RedeemUnsupportedType | RedeemMissingGroup | RedeemStatementFailed

datatype pay_error =
    OrderNotFound | NotFound | Forbidden | InvalidOutTradeNo
  | InvalidStatus string
  | Conflict string
  | ProviderMismatch string string
  | MetadataMismatch metadata_error
  | InvalidPaidAmount
  | AmountMismatch
  | StatementFailed string
  | InvalidCode
  | CodeExists
  | RedeemFailed redeem_error
  | GroupInactive
  | SubscriptionUnavailable
  | CacheInvalidationFailed

datatype note_lookup = NoteFound | NoteAbsent | NoteError

datatype provider_reply = QueryFailed | Reply string string go_float "(string, string) gomap"

text \<open>
  Around a step: the fault of its statement, the clock, the key of the provider instance the
  order resolves to, the answers of the redeem rate limiter and lock in Redis, whether the group
  is active, whether the note of a subscription names the order, the outcome of the affiliate
  accrual, whether the subscription caches could be invalidated, and what the provider's query
  returns (\<open>None\<close>: the provider could not be resolved). The affiliate service is configured when
  \<open>pe_affiliate\<close> holds; that it is switched off is the outcome 0 of an accrual.
\<close>

record pay_input =
  pi_fault :: fault
  pi_now :: time
  pi_instanceKey :: "string option"
  pi_limited :: bool
  pi_locked :: bool
  pi_groupActive :: bool
  pi_note :: note_lookup
  pi_rebate :: "rat option"
  pi_cacheFails :: bool
  pi_provider :: "(string \<times> provider_reply) option"

record pay_env =
  pe_registry :: "(string \<Rightarrow> string) option"
  pe_affiliate :: bool
  pe_subscriptions :: bool

record PaymentNotification =
  pn_TradeNo :: string
  pn_OrderID :: string
  pn_Amount :: go_float
  pn_Status :: string
  pn_Metadata :: "(string, string) gomap"

section \<open>Redeeming a code\<close>

datatype redeem_phase =
    AtRedeem int string
  | AtRedeemUser int RedeemCode
  | AtRedeemTx int RedeemCode
  | AtRedeemAccrue int RedeemCode
  | AtRedeemReload int
  | Redeemed "redeem_error option"

text \<open>
  The transaction: mark the code used, then apply its value. The effects of concurrency and
  subscription codes on the user are not part of the model; only the mark is.
\<close>

definition redeem_tx :: "time \<Rightarrow> int \<Rightarrow> RedeemCode \<Rightarrow> pay_db \<Rightarrow> redeem_error + pay_db" where
  "redeem_tx now userID c db =
     (case use_code now (rdc_ID c) userID db of
        None \<Rightarrow> Inl RedeemCodeUsed
      | Some db' \<Rightarrow>
          if rdc_Type c = ''balance'' then
            (case (if rdc_Value c < 0 then ApplyRedeemBalanceAdjustment userID (rdc_Value c) db'
                   else UpdateBalance userID (rdc_Value c) db') of
               None \<Rightarrow> Inl RedeemStatementFailed
             | Some db'' \<Rightarrow> Inr db'')
          else Inr db')"

text \<open>
  After the commit, a positive balance code accrues a rebate for the inviter of its user
  (\<open>tryAccrueAffiliateRebateForRedeem\<close>); a failed accrual is only logged.
\<close>

definition redeem_accrues :: "pay_env \<Rightarrow> bool \<Rightarrow> RedeemCode \<Rightarrow> bool" where
  "redeem_accrues env skip c \<longleftrightarrow> rdc_Type c = ''balance'' \<and> 0 < rdc_Value c \<and> \<not> skip \<and> pe_affiliate env"

definition accrue_redeem :: "pay_input \<Rightarrow> int \<Rightarrow> RedeemCode \<Rightarrow> pay_db \<Rightarrow> pay_db" where
  "accrue_redeem inp userID c db =
     (case pi_rebate inp of
        None \<Rightarrow> db
      | Some rebate \<Rightarrow>
          if rebate \<le> 0 then db
          else took_effect (pi_fault inp) db
                 (db\<lparr>pd_redeem_rebates := pd_redeem_rebates db @ [(rdc_Code c, userID, rdc_Value c)]\<rparr>))"

fun redeem_step :: "pay_env \<Rightarrow> bool \<Rightarrow> pay_input \<Rightarrow> redeem_phase \<Rightarrow> pay_db \<Rightarrow> redeem_phase \<times> pay_db" where
  "redeem_step env skip inp (AtRedeem userID code) db =
     (if pi_limited inp then (Redeemed (Some RedeemRateLimited), db)
      else if pi_locked inp then (Redeemed (Some RedeemCodeLocked), db)
      else if pi_fault inp \<noteq> Works then (Redeemed (Some RedeemStatementFailed), db)
      else case code_by_code db code of
        None \<Rightarrow> (Redeemed (Some RedeemCodeNotFound), db)
      | Some c \<Rightarrow>
          if IsExpiredAt c (pi_now inp) then (Redeemed (Some RedeemCodeExpired), db)
          else if \<not> CanUse c (pi_now inp) then (Redeemed (Some RedeemCodeUsed), db)
          else if rdc_Type c \<notin> set [''balance'', ''concurrency'', ''subscription''] then
            (Redeemed (Some RedeemUnsupportedType), db)
          else if rdc_Type c = ''subscription'' \<and> rdc_GroupID c = None then (Redeemed (Some RedeemMissingGroup), db)
          else (AtRedeemUser userID c, db))"
| "redeem_step env skip inp (AtRedeemUser userID c) db =
     (if pi_fault inp \<noteq> Works \<or> gget (pd_balance db) userID = None
      then (Redeemed (Some RedeemStatementFailed), db) else (AtRedeemTx userID c, db))"
| "redeem_step env skip inp (AtRedeemTx userID c) db =
     (if pi_fault inp = FailsBefore then (Redeemed (Some RedeemStatementFailed), db)
      else case redeem_tx (pi_now inp) userID c db of
        Inl e \<Rightarrow> (Redeemed (Some e), db)
      | Inr db' \<Rightarrow>
          if pi_fault inp \<noteq> Works then (Redeemed (Some RedeemStatementFailed), db')
          else (if redeem_accrues env skip c then AtRedeemAccrue userID c else AtRedeemReload (rdc_ID c), db'))"
| "redeem_step env skip inp (AtRedeemAccrue userID c) db = (AtRedeemReload (rdc_ID c), accrue_redeem inp userID c db)"
| "redeem_step env skip inp (AtRedeemReload i) db =
     (Redeemed (if pi_fault inp \<noteq> Works \<or> code_by_id db i = None then Some RedeemStatementFailed else None), db)"
| "redeem_step env skip inp (Redeemed r) db = (Redeemed r, db)"

section \<open>Fulfilment\<close>

datatype redeemAction = redeemActionCreate | redeemActionRedeem | redeemActionSkipCompleted

definition resolveRedeemAction :: "RedeemCode option \<Rightarrow> bool \<Rightarrow> redeemAction" where
  "resolveRedeemAction existing lookupFailed =
     (case existing of
        None \<Rightarrow> redeemActionCreate
      | Some c \<Rightarrow>
          if lookupFailed then redeemActionCreate
          else if IsUsed c then redeemActionSkipCompleted else redeemActionRedeem)"

datatype ful_phase =
    AtLookup PaymentNotification string
  | AtConfirm int PaymentNotification string
  | AtToPaid payment_order string rat string
  | AtAlready int
  | AtExecute int
  | AtBalance int
  | AtSubscription int
  | AtAcquire bool payment_order
  | AtAcquireFailed payment_order
  | AtAcquired bool payment_order
  | AtRedeemLookup payment_order time
  | AtCreateCode payment_order time
  | AtRedeeming payment_order time redeem_phase
  | AtGroup payment_order time
  | AtAssignCheck payment_order time
  | AtAssignCommit payment_order time bool
  | AtAssignConflict payment_order time
  | AtAssigned payment_order time
  | AtRebate payment_order time string
  | AtComplete payment_order time string
  | AtCompleteLost payment_order time
  | AtHasAudit payment_order string
  | AtMarkFailed int time pay_error
  | AtLog int "(string \<times> string) list" ful_phase
  | Done "pay_error option"

definition logging :: "int \<Rightarrow> (string \<times> string) list \<Rightarrow> ful_phase \<Rightarrow> ful_phase" where
  "logging i rows next_phase = (if rows = [] then next_phase else AtLog i rows next_phase)"

text \<open>\<open>confirmPayment\<close> after the order is read: the checks, in the order of the code.\<close>

definition expected_provider_key :: "pay_env \<Rightarrow> payment_order \<Rightarrow> string option \<Rightarrow> string" where
  "expected_provider_key env r instanceKey =
     (let orderProviderKey =
            (case psOrderProviderSnapshot (po_ProviderSnapshot r) of
               Some snapshot \<Rightarrow> if pps_ProviderKey snapshot \<noteq> [] then pps_ProviderKey snapshot else po_ProviderKey r
             | None \<Rightarrow> po_ProviderKey r)
      in expectedNotificationProviderKey (pe_registry env) (po_PaymentType r) orderProviderKey
           (case instanceKey of Some k \<Rightarrow> k | None \<Rightarrow> []))"

definition confirm_checks ::
  "pay_env \<Rightarrow> payment_order \<Rightarrow> string option \<Rightarrow> PaymentNotification \<Rightarrow> string \<Rightarrow> (string \<times> pay_error) + rat" where
  "confirm_checks env r instanceKey n pk =
     (let expected = expected_provider_key env r instanceKey in
      if expected \<noteq> [] \<and> trim_space pk \<noteq> [] \<and> \<not> equal_fold expected (trim_space pk) then
        Inl (''PAYMENT_PROVIDER_MISMATCH'', ProviderMismatch expected pk)
      else case validateProviderSnapshotMetadata (po_ProviderSnapshot r) pk (pn_Metadata n) of
        Some e \<Rightarrow> Inl (''PAYMENT_PROVIDER_METADATA_MISMATCH'', MetadataMismatch e)
      | None \<Rightarrow>
          (case pn_Amount n of
             Finite paid \<Rightarrow>
               if \<not> isValidProviderAmount (pn_Amount n) then Inl (''PAYMENT_INVALID_AMOUNT'', InvalidPaidAmount)
               else if paymentAmountToleranceForCurrency (PaymentOrderCurrency (po_ProviderSnapshot r))
                         < \<bar>paid - po_PayAmount r\<bar>
               then Inl (''PAYMENT_AMOUNT_MISMATCH'', AmountMismatch)
               else Inr paid
           | _ \<Rightarrow> Inl (''PAYMENT_INVALID_AMOUNT'', InvalidPaidAmount)))"

definition fulfilment_guard :: "payment_order \<Rightarrow> pay_error option option" where
  "fulfilment_guard r =
     (if po_Status r = OrderStatusCompleted then Some None
      else if psIsRefundStatus (po_Status r) then Some (Some (InvalidStatus ''refund-related order cannot fulfill''))
      else if po_Status r \<noteq> OrderStatusPaid \<and> po_Status r \<noteq> OrderStatusFailed \<and> po_Status r \<noteq> OrderStatusRecharging
        then Some (Some (InvalidStatus (''order cannot fulfill in status '' @ po_Status r)))
      else None)"

definition affiliateRebateBaseAmount :: "payment_order \<Rightarrow> rat" where
  "affiliateRebateBaseAmount r =
     (if po_OrderType r = ''balance'' \<or> po_OrderType r = ''subscription'' then po_Amount r else 0)"

text \<open>\<open>CreateCode\<close> of the redeem service for the code of an order.\<close>

definition CreateCode :: "RedeemCode \<Rightarrow> time \<Rightarrow> pay_db \<Rightarrow> pay_error + pay_db" where
  "CreateCode rc now db =
     (let rc = rc\<lparr>rdc_Code := trim_space (rdc_Code rc)\<rparr> in
      if rdc_Code rc = [] then Inl InvalidCode
      else
        let rc = (if rdc_Type rc = [] then rc\<lparr>rdc_Type := ''balance''\<rparr> else rc) in
        if rdc_Type rc \<noteq> ''invitation'' \<and> rdc_Value rc = 0 then Inl InvalidCode
        else
          let rc = (if rdc_Status rc = [] then rc\<lparr>rdc_Status := ''unused''\<rparr> else rc) in
          if IsExpiredAt rc now then Inl (RedeemFailed RedeemCodeExpired)
          else (case insert_code rc db of None \<Rightarrow> Inl CodeExists | Some db' \<Rightarrow> Inr db'))"

definition order_code :: "payment_order \<Rightarrow> RedeemCode" where
  "order_code r = \<lparr>rdc_ID = 0, rdc_Code = po_RechargeCode r, rdc_Type = ''balance'', rdc_Value = po_Amount r,
     rdc_Status = ''unused'', rdc_UsedBy = None, rdc_UsedAt = None, rdc_ExpiresAt = None, rdc_GroupID = None\<rparr>"

text \<open>The transaction of the affiliate rebate: claim the audit row, accrue, keep or mark the claim.\<close>

definition rebate_claimed :: "pay_db \<Rightarrow> int \<Rightarrow> bool" where
  "rebate_claimed db i \<longleftrightarrow> has_audit db i ''AFFILIATE_REBATE_APPLIED'' \<or> has_audit db i ''AFFILIATE_REBATE_SKIPPED''"

definition rebate_tx :: "payment_order \<Rightarrow> rat \<Rightarrow> pay_db \<Rightarrow> pay_db" where
  "rebate_tx r rebateAmount db =
     (if rebateAmount \<le> 0 then write_audit (po_ID r) ''AFFILIATE_REBATE_SKIPPED'' ''system'' db
      else
        let db = write_audit (po_ID r) ''AFFILIATE_REBATE_APPLIED'' ''system'' db
        in db\<lparr>pd_rebates := pd_rebates db @ [(po_ID r, po_UserID r, affiliateRebateBaseAmount r)]\<rparr>)"

definition subscription_assigned :: "pay_db \<Rightarrow> int \<Rightarrow> bool" where
  "subscription_assigned db i \<longleftrightarrow> has_audit db i ''SUBSCRIPTION_ASSIGNED'' \<or> has_audit db i ''SUBSCRIPTION_SUCCESS''"

text \<open>
  The commit of the subscription transaction: the audit row and, unless the note already names
  the order, the assignment. The unique index refuses a second audit row.
\<close>

definition assign_tx :: "payment_order \<Rightarrow> bool \<Rightarrow> pay_db \<Rightarrow> pay_db option" where
  "assign_tx r recoveredFromNote db =
     (if has_audit db (po_ID r) ''SUBSCRIPTION_ASSIGNED'' then None
      else
        let db = insert_audit (po_ID r) ''SUBSCRIPTION_ASSIGNED'' (''system'', recoveredFromNote) db
        in Some (if recoveredFromNote then db
                 else db\<lparr>pd_grants := pd_grants db @ [(po_ID r, po_UserID r,
                        the (po_SubscriptionGroupID r), the (po_SubscriptionDays r))]\<rparr>))"

section \<open>The steps\<close>

text \<open>
  The rows a read returns to a request whose statement worked; a failed read of an order is
  treated by every caller like a missing one, except where the step says otherwise.
\<close>

definition read_order :: "pay_input \<Rightarrow> pay_db \<Rightarrow> int \<Rightarrow> payment_order option" where
  "read_order inp db i = (if pi_fault inp = Works then get_order db i else None)"

text \<open>An update statement: the table, and the number of rows or the error.\<close>

definition run_update :: "pay_input \<Rightarrow> (pay_db \<Rightarrow> pay_db \<times> nat) \<Rightarrow> pay_db \<Rightarrow> pay_db \<times> nat option" where
  "run_update inp stmt db =
     (let (db', n) = stmt db in
      (took_effect (pi_fault inp) db db', if pi_fault inp = Works then Some n else None))"

definition fail_with :: "payment_order \<Rightarrow> time \<Rightarrow> pay_error \<Rightarrow> ful_phase" where
  "fail_with r lease e = AtMarkFailed (po_ID r) lease e"

definition HandlePaymentNotification ::
  "pay_input \<Rightarrow> PaymentNotification \<Rightarrow> string \<Rightarrow> pay_db \<Rightarrow> ful_phase \<times> pay_db" where
  "HandlePaymentNotification inp n pk db =
     (if pn_Status n \<noteq> ''success'' then (Done None, db)
      else if pi_fault inp \<noteq> Works then (Done (Some (StatementFailed ''lookup order'')), db)
      else case orders_by_trade_no db (pn_OrderID n) of
        [r] \<Rightarrow> (AtConfirm (po_ID r) n pk, db)
      | [] \<Rightarrow>
          (case parseLegacyPaymentOrderID (pn_OrderID n) True of
             Some i \<Rightarrow> (AtConfirm i n pk, db)
           | None \<Rightarrow> (Done (Some OrderNotFound), db))
      | _ \<Rightarrow> (Done (Some (StatementFailed ''lookup order'')), db))"

definition confirmPayment ::
  "pay_env \<Rightarrow> pay_input \<Rightarrow> int \<Rightarrow> PaymentNotification \<Rightarrow> string \<Rightarrow> pay_db \<Rightarrow> ful_phase \<times> pay_db" where
  "confirmPayment env inp i n pk db =
     (case read_order inp db i of
        None \<Rightarrow> (Done None, db)
      | Some r \<Rightarrow>
          (case confirm_checks env r (pi_instanceKey inp) n pk of
             Inl (action, e) \<Rightarrow> (AtLog i [(action, pk)] (Done (Some e)), db)
           | Inr paid \<Rightarrow> (AtToPaid r (pn_TradeNo n) paid pk, accept (po_ID r) paid db)))"

definition toPaid ::
  "pay_input \<Rightarrow> payment_order \<Rightarrow> string \<Rightarrow> rat \<Rightarrow> string \<Rightarrow> pay_db \<Rightarrow> ful_phase \<times> pay_db" where
  "toPaid inp r tradeNo paid pk db =
     (let (db', c) = run_update inp (mark_paid (pi_now inp) (po_ID r) tradeNo paid) db in
      case c of
        None \<Rightarrow> (Done (Some (StatementFailed ''update to PAID'')), db')
      | Some c \<Rightarrow>
          if c = 0 then (AtAlready (po_ID r), db')
          else (logging (po_ID r)
                  ((if po_Status r = OrderStatusCancelled \<or> po_Status r = OrderStatusExpired
                    then [(''ORDER_RECOVERED'', pk)] else []) @ [(''ORDER_PAID'', pk)])
                  (AtExecute (po_ID r)), db'))"

definition alreadyProcessed ::
  "pay_input \<Rightarrow> int \<Rightarrow> pay_db \<Rightarrow> ful_phase \<times> pay_db" where
  "alreadyProcessed inp i db =
     (case read_order inp db i of
        None \<Rightarrow> (Done None, db)
      | Some cur \<Rightarrow>
          if po_Status cur = OrderStatusFailed \<or> po_Status cur = OrderStatusPaid \<or>
             po_Status cur = OrderStatusRecharging then (AtExecute i, db)
          else if po_Status cur = OrderStatusExpired then (AtLog i [(''PAYMENT_AFTER_EXPIRY'', ''system'')] (Done None), db)
          else (Done None, db))"

definition executeFulfillment ::
  "pay_input \<Rightarrow> int \<Rightarrow> pay_db \<Rightarrow> ful_phase \<times> pay_db" where
  "executeFulfillment inp i db =
     (case read_order inp db i of
        None \<Rightarrow> (Done (Some (StatementFailed ''get order'')), db)
      | Some r \<Rightarrow> (if po_OrderType r = ''subscription'' then AtSubscription i else AtBalance i, db))"

definition ExecuteBalanceFulfillment ::
  "pay_input \<Rightarrow> int \<Rightarrow> pay_db \<Rightarrow> ful_phase \<times> pay_db" where
  "ExecuteBalanceFulfillment inp i db =
     (case read_order inp db i of
        None \<Rightarrow> (Done (Some NotFound), db)
      | Some r \<Rightarrow> (case fulfilment_guard r of Some res \<Rightarrow> (Done res, db) | None \<Rightarrow> (AtAcquire False r, db)))"

definition ExecuteSubscriptionFulfillment ::
  "pay_input \<Rightarrow> int \<Rightarrow> pay_db \<Rightarrow> ful_phase \<times> pay_db" where
  "ExecuteSubscriptionFulfillment inp i db =
     (case read_order inp db i of
        None \<Rightarrow> (Done (Some NotFound), db)
      | Some r \<Rightarrow>
          (case fulfilment_guard r of
             Some res \<Rightarrow> (Done res, db)
           | None \<Rightarrow>
               if po_SubscriptionGroupID r = None \<or> po_SubscriptionDays r = None
               then (Done (Some (InvalidStatus ''missing subscription info'')), db)
               else (AtAcquire True r, db)))"

definition acquire_lease ::
  "pay_input \<Rightarrow> bool \<Rightarrow> payment_order \<Rightarrow> pay_db \<Rightarrow> ful_phase \<times> pay_db" where
  "acquire_lease inp sub r db =
     (let (db', c) = run_update inp (claim_lease (pi_now inp) (po_ID r)) db in
      case c of
        None \<Rightarrow> (Done (Some (StatementFailed ''acquire fulfillment lease'')), db')
      | Some c \<Rightarrow> (if c = 0 then AtAcquireFailed r else AtAcquired sub r, db'))"

definition lease_refused ::
  "pay_input \<Rightarrow> payment_order \<Rightarrow> pay_db \<Rightarrow> ful_phase \<times> pay_db" where
  "lease_refused inp r db =
     (case read_order inp db (po_ID r) of
        None \<Rightarrow> (Done (Some (StatementFailed ''reload fulfillment lease'')), db)
      | Some cur \<Rightarrow>
          if po_Status cur = OrderStatusCompleted then (Done None, db)
          else if po_Status cur = OrderStatusRecharging then (Done (Some (Conflict ''order is being processed'')), db)
          else (Done (Some (Conflict ''order status changed while acquiring fulfillment lease'')), db))"

definition reload_lease ::
  "pay_input \<Rightarrow> bool \<Rightarrow> payment_order \<Rightarrow> pay_db \<Rightarrow> ful_phase \<times> pay_db" where
  "reload_lease inp sub r db =
     (case read_order inp db (po_ID r) of
        None \<Rightarrow> (Done (Some (StatementFailed ''reload acquired fulfillment lease'')), db)
      | Some claimed \<Rightarrow>
          if po_Status claimed \<noteq> OrderStatusRecharging then (Done (Some (Conflict ''fulfillment lease was lost'')), db)
          else (if sub then AtGroup r (po_UpdatedAt claimed) else AtRedeemLookup r (po_UpdatedAt claimed), db))"

definition doBalance_lookup ::
  "pay_input \<Rightarrow> payment_order \<Rightarrow> time \<Rightarrow> pay_db \<Rightarrow> ful_phase \<times> pay_db" where
  "doBalance_lookup inp r lease db =
     (case resolveRedeemAction (code_by_code db (po_RechargeCode r)) (pi_fault inp \<noteq> Works) of
        redeemActionSkipCompleted \<Rightarrow> (AtRebate r lease ''RECHARGE_SUCCESS'', db)
      | redeemActionCreate \<Rightarrow> (AtCreateCode r lease, db)
      | redeemActionRedeem \<Rightarrow> (AtRedeeming r lease (AtRedeem (po_UserID r) (po_RechargeCode r)), db))"

definition doBalance_create ::
  "pay_input \<Rightarrow> payment_order \<Rightarrow> time \<Rightarrow> pay_db \<Rightarrow> ful_phase \<times> pay_db" where
  "doBalance_create inp r lease db =
     (case CreateCode (order_code r) (pi_now inp) db of
        Inl e \<Rightarrow> (fail_with r lease e, db)
      | Inr db' \<Rightarrow>
          if pi_fault inp \<noteq> Works then
            (fail_with r lease (StatementFailed ''create redeem code''), took_effect (pi_fault inp) db db')
          else (AtRedeeming r lease (AtRedeem (po_UserID r) (po_RechargeCode r)), db'))"

definition doBalance_redeem ::
  "pay_env \<Rightarrow> pay_input \<Rightarrow> payment_order \<Rightarrow> time \<Rightarrow> redeem_phase \<Rightarrow> pay_db \<Rightarrow> ful_phase \<times> pay_db" where
  "doBalance_redeem env inp r lease q db =
     (case q of
        Redeemed None \<Rightarrow> (AtRebate r lease ''RECHARGE_SUCCESS'', db)
      | Redeemed (Some e) \<Rightarrow> (fail_with r lease (RedeemFailed e), db)
      | _ \<Rightarrow> (let (q', db') = redeem_step env True inp q db in (AtRedeeming r lease q', db')))"

definition doSub_group ::
  "pay_input \<Rightarrow> payment_order \<Rightarrow> time \<Rightarrow> pay_db \<Rightarrow> ful_phase \<times> pay_db" where
  "doSub_group inp r lease db =
     (if pi_fault inp = Works \<and> pi_groupActive inp then (AtAssignCheck r lease, db)
      else (fail_with r lease GroupInactive, db))"

definition assign_check ::
  "pay_env \<Rightarrow> pay_input \<Rightarrow> payment_order \<Rightarrow> time \<Rightarrow> pay_db \<Rightarrow> ful_phase \<times> pay_db" where
  "assign_check env inp r lease db =
     (if \<not> pe_subscriptions env then (fail_with r lease SubscriptionUnavailable, db)
      else if pi_fault inp \<noteq> Works then (fail_with r lease (StatementFailed ''check subscription assignment audit''), db)
      else if subscription_assigned db (po_ID r) then (AtAssigned r lease, db)
      else case pi_note inp of
        NoteFound \<Rightarrow> (AtAssignCommit r lease True, db)
      | NoteError \<Rightarrow> (fail_with r lease (StatementFailed ''check existing subscription assignment''), db)
      | NoteAbsent \<Rightarrow> (AtAssignCommit r lease False, db))"

definition assign_commit ::
  "pay_input \<Rightarrow> payment_order \<Rightarrow> time \<Rightarrow> bool \<Rightarrow> pay_db \<Rightarrow> ful_phase \<times> pay_db" where
  "assign_commit inp r lease recoveredFromNote db =
     (case assign_tx r recoveredFromNote db of
        None \<Rightarrow> (if pi_fault inp = Works then (AtAssignConflict r lease, db)
                 else (fail_with r lease (StatementFailed ''assign subscription''), db))
      | Some db' \<Rightarrow>
          if pi_fault inp = Works then (AtAssigned r lease, db')
          else (fail_with r lease (StatementFailed ''commit subscription fulfillment tx''), took_effect (pi_fault inp) db db'))"

definition assign_conflict ::
  "pay_input \<Rightarrow> payment_order \<Rightarrow> time \<Rightarrow> pay_db \<Rightarrow> ful_phase \<times> pay_db" where
  "assign_conflict inp r lease db =
     (if pi_fault inp = Works \<and> subscription_assigned db (po_ID r) then (AtAssigned r lease, db)
      else (fail_with r lease (StatementFailed ''record subscription assignment audit''), db))"

definition assign_finished ::
  "pay_input \<Rightarrow> payment_order \<Rightarrow> time \<Rightarrow> pay_db \<Rightarrow> ful_phase \<times> pay_db" where
  "assign_finished inp r lease db =
     (if pi_cacheFails inp then (fail_with r lease CacheInvalidationFailed, db)
      else (AtRebate r lease ''SUBSCRIPTION_SUCCESS'', db))"

definition applyAffiliateRebateForOrder ::
  "pay_env \<Rightarrow> pay_input \<Rightarrow> payment_order \<Rightarrow> time \<Rightarrow> string \<Rightarrow> pay_db \<Rightarrow> ful_phase \<times> pay_db" where
  "applyAffiliateRebateForOrder env inp r lease action db =
     (if affiliateRebateBaseAmount r \<le> 0 \<or> \<not> pe_affiliate env then (AtComplete r lease action, db)
      else
        let failed = AtLog (po_ID r) [(''AFFILIATE_REBATE_FAILED'', ''system'')]
                       (fail_with r lease (StatementFailed ''affiliate rebate''))
        in if pi_fault inp = Works \<and> rebate_claimed db (po_ID r) then (AtComplete r lease action, db)
           else case pi_rebate inp of
             None \<Rightarrow> (failed, db)
           | Some amount \<Rightarrow>
               if rebate_claimed db (po_ID r) then (failed, db)
               else if pi_fault inp = Works then (AtComplete r lease action, rebate_tx r amount db)
               else (failed, took_effect (pi_fault inp) db (rebate_tx r amount db)))"

definition markCompleted ::
  "pay_input \<Rightarrow> payment_order \<Rightarrow> time \<Rightarrow> string \<Rightarrow> pay_db \<Rightarrow> ful_phase \<times> pay_db" where
  "markCompleted inp r lease action db =
     (let (db', c) = run_update inp (complete_order (pi_now inp) (po_ID r) lease) db in
      case c of
        None \<Rightarrow> (fail_with r lease (StatementFailed ''mark completed''), db')
      | Some c \<Rightarrow> (if c = 0 then AtCompleteLost r lease else AtHasAudit r action, db'))"

definition completion_lost ::
  "pay_input \<Rightarrow> payment_order \<Rightarrow> time \<Rightarrow> pay_db \<Rightarrow> ful_phase \<times> pay_db" where
  "completion_lost inp r lease db =
     (case read_order inp db (po_ID r) of
        Some cur \<Rightarrow>
          (if po_Status cur = OrderStatusCompleted then Done None
           else fail_with r lease (Conflict ''fulfillment lease was lost before completion''), db)
      | None \<Rightarrow> (fail_with r lease (Conflict ''fulfillment lease was lost before completion''), db))"

definition completion_audit ::
  "pay_input \<Rightarrow> payment_order \<Rightarrow> string \<Rightarrow> pay_db \<Rightarrow> ful_phase \<times> pay_db" where
  "completion_audit inp r action db =
     (if pi_fault inp = Works \<and> has_audit db (po_ID r) action then (Done None, db)
      else (AtLog (po_ID r) [(action, ''system'')] (Done None), db))"

definition markFailed ::
  "pay_input \<Rightarrow> int \<Rightarrow> time \<Rightarrow> pay_error \<Rightarrow> pay_db \<Rightarrow> ful_phase \<times> pay_db" where
  "markFailed inp i lease e db =
     (let (db', c) = run_update inp (fail_order (pi_now inp) i lease) db in
      (case c of
         Some (Suc _) \<Rightarrow> AtLog i [(''FULFILLMENT_FAILED'', ''system'')] (Done (Some e))
       | _ \<Rightarrow> Done (Some e), db'))"

lemmas ful_step_parts [simp] =
  HandlePaymentNotification_def confirmPayment_def toPaid_def alreadyProcessed_def
  executeFulfillment_def ExecuteBalanceFulfillment_def ExecuteSubscriptionFulfillment_def acquire_lease_def
  lease_refused_def reload_lease_def doBalance_lookup_def doBalance_create_def
  doBalance_redeem_def doSub_group_def assign_check_def assign_commit_def
  assign_conflict_def assign_finished_def applyAffiliateRebateForOrder_def markCompleted_def
  completion_lost_def completion_audit_def markFailed_def

fun ful_step :: "pay_env \<Rightarrow> pay_input \<Rightarrow> ful_phase \<Rightarrow> pay_db \<Rightarrow> ful_phase \<times> pay_db" where
  "ful_step env inp (AtLookup n pk) db = HandlePaymentNotification inp n pk db"
| "ful_step env inp (AtConfirm i n pk) db = confirmPayment env inp i n pk db"
| "ful_step env inp (AtToPaid r tradeNo paid pk) db = toPaid inp r tradeNo paid pk db"
| "ful_step env inp (AtAlready i) db = alreadyProcessed inp i db"
| "ful_step env inp (AtExecute i) db = executeFulfillment inp i db"
| "ful_step env inp (AtBalance i) db = ExecuteBalanceFulfillment inp i db"
| "ful_step env inp (AtSubscription i) db = ExecuteSubscriptionFulfillment inp i db"
| "ful_step env inp (AtAcquire sub r) db = acquire_lease inp sub r db"
| "ful_step env inp (AtAcquireFailed r) db = lease_refused inp r db"
| "ful_step env inp (AtAcquired sub r) db = reload_lease inp sub r db"
| "ful_step env inp (AtRedeemLookup r lease) db = doBalance_lookup inp r lease db"
| "ful_step env inp (AtCreateCode r lease) db = doBalance_create inp r lease db"
| "ful_step env inp (AtRedeeming r lease q) db = doBalance_redeem env inp r lease q db"
| "ful_step env inp (AtGroup r lease) db = doSub_group inp r lease db"
| "ful_step env inp (AtAssignCheck r lease) db = assign_check env inp r lease db"
| "ful_step env inp (AtAssignCommit r lease recoveredFromNote) db = assign_commit inp r lease recoveredFromNote db"
| "ful_step env inp (AtAssignConflict r lease) db = assign_conflict inp r lease db"
| "ful_step env inp (AtAssigned r lease) db = assign_finished inp r lease db"
| "ful_step env inp (AtRebate r lease action) db = applyAffiliateRebateForOrder env inp r lease action db"
| "ful_step env inp (AtComplete r lease action) db = markCompleted inp r lease action db"
| "ful_step env inp (AtCompleteLost r lease) db = completion_lost inp r lease db"
| "ful_step env inp (AtHasAudit r action) db = completion_audit inp r action db"
| "ful_step env inp (AtMarkFailed i lease e) db = markFailed inp i lease e db"
| "ful_step env inp (AtLog i rows next_phase) db =
     (case rows of
        [] \<Rightarrow> (next_phase, db)
      | (action, op) # rest \<Rightarrow>
          (logging i rest next_phase, took_effect (pi_fault inp) db (write_audit i action op db)))"
| "ful_step env inp (Done res) db = (Done res, db)"

text \<open>\<open>RetryFulfillment\<close>: an administrator runs the fulfilment of a paid order again.\<close>

definition RetryFulfillment :: "pay_input \<Rightarrow> int \<Rightarrow> pay_db \<Rightarrow> ful_phase \<times> pay_db" where
  "RetryFulfillment inp i db =
     (case read_order inp db i of
        None \<Rightarrow> (Done (Some NotFound), db)
      | Some r \<Rightarrow>
          if po_PaidAt r = None then (Done (Some (InvalidStatus ''order is not paid'')), db)
          else if psIsRefundStatus (po_Status r) then
            (Done (Some (InvalidStatus ''refund-related order cannot retry'')), db)
          else if po_Status r = OrderStatusCompleted then
            (Done (Some (InvalidStatus ''order already completed'')), db)
          else if po_Status r \<noteq> OrderStatusFailed \<and> po_Status r \<noteq> OrderStatusPaid \<and>
                  po_Status r \<noteq> OrderStatusRecharging then
            (Done (Some (InvalidStatus ''only paid, failed, and recoverable recharging orders can retry'')), db)
          else (AtLog i [(''RECHARGE_RETRY'', ''admin'')] (AtExecute i), db))"

end
