(* ===== verification/Payment_Orders.thy ===== *)
theory Payment_Orders
  imports Payment_Fulfillment
begin

text \<open>
  backend/internal/service/payment_order_lifecycle.go around the fulfilment: cancelling and
  expiring orders, asking the provider whether an order was paid, and the other entry points
  (notifications, administrator retries, the creation of an order, a user redeeming a code of
  his own), as one step function over the tables. The resolution of a provider for an order and
  the provider itself are outside; their answer is in the input of a step.
\<close>

section \<open>References to an order at the provider\<close>

definition GetBasePaymentType :: "string \<Rightarrow> string" where
  "GetBasePaymentType t =
     (if t = ''easypay'' then ''easypay''
      else if t = ''airwallex'' then ''airwallex''
      else if t = ''stripe'' \<or> t = ''card'' \<or> t = ''link'' then ''stripe''
      else if starts_with t ''alipay'' then ''alipay''
      else if starts_with t ''wxpay'' then ''wxpay''
      else t)"

text \<open>The reference to query with, for the key of the resolved provider.\<close>

definition paymentOrderQueryReference :: "payment_order \<Rightarrow> string \<Rightarrow> string" where
  "paymentOrderQueryReference r provider =
     (let k1 = trim_space provider;
          k2 = (if k1 = [] then
                  (case psOrderProviderSnapshot (po_ProviderSnapshot r) of
                     Some snapshot \<Rightarrow> trim_space (pps_ProviderKey snapshot) | None \<Rightarrow> [])
                else k1);
          k3 = (if k2 = [] then trim_space (po_ProviderKey r) else k2);
          providerKey = (if k3 = [] then trim_space (po_PaymentType r) else k3)
      in if GetBasePaymentType providerKey \<in> set [''alipay'', ''easypay'', ''wxpay'']
         then trim_space (po_OutTradeNo r)
         else if trim_space (po_PaymentTradeNo r) \<noteq> [] then trim_space (po_PaymentTradeNo r)
         else trim_space (po_OutTradeNo r))"

definition paymentOrderShouldPersistUpstreamTradeNo :: "string \<Rightarrow> string \<Rightarrow> string \<Rightarrow> bool" where
  "paymentOrderShouldPersistUpstreamTradeNo queryRef upstreamTradeNo currentTradeNo =
     (let upstream = trim_space upstreamTradeNo in
      if upstream = [] then False
      else if equal_fold upstream (trim_space currentTradeNo) then False
      else if equal_fold upstream (trim_space queryRef) then False
      else True)"

definition normalizeOrderLookupOutTradeNo :: "string \<Rightarrow> string option" where
  "normalizeOrderLookupOutTradeNo raw =
     (let outTradeNo = trim_space raw in
      if outTradeNo = [] then None
      else if 64 < length outTradeNo then None
      else if list_ex (\<lambda>ch. \<not> (CHR ''a'' \<le> ch \<and> ch \<le> CHR ''z'' \<or> CHR ''A'' \<le> ch \<and> ch \<le> CHR ''Z'' \<or>
                CHR ''0'' \<le> ch \<and> ch \<le> CHR ''9'' \<or> ch = CHR ''_'' \<or> ch = CHR ''-'')) outTradeNo then None
      else Some outTradeNo)"

section \<open>Requests\<close>

text \<open>
  Why a provider is asked: for a user or administrator who cancels, for the expiry sweep (with
  the orders still to do and the count so far), for a user who verifies, for the WeChat sweep.
\<close>

datatype purpose =
    ForCancel string
  | ForExpiry "payment_order list" nat
  | ForVerify
  | ForWxpay "payment_order list" nat

datatype order_result =
    ResError pay_error
  | ResOutcome string
  | ResCount nat
  | ResOrder payment_order
  | ResDone "pay_error option"
  | ResRedeem "redeem_error option"

datatype order_phase =
    AtNotified ful_phase
  | AtRetry int
  | AtCancel int "int option"
  | AtVerify string int
  | AtExpireQuery
  | AtWxpayQuery
  | AtCreate payment_order
  | AtInvoke int int
  | AtSaveProvider int int string string
  | AtCreatedLog int int
  | AtCreateFailed int pay_error
  | AtRedeemCode redeem_phase
  | AtCheckPaid purpose payment_order
  | AtInvalidLog purpose payment_order string
  | AtRequery purpose payment_order string string
  | AtPersist purpose payment_order string string go_float "(string, string) gomap"
  | AtCheckNotify purpose payment_order ful_phase
  | AtClose purpose payment_order
  | AtCloseLog purpose payment_order
  | AtReload int
  | Finished order_result

text \<open>\<open>cancelCore\<close> begins with a query when the order was ever sent to a provider.\<close>

definition cancelCore :: "purpose \<Rightarrow> payment_order \<Rightarrow> order_phase" where
  "cancelCore why r =
     (if po_PaymentTradeNo r \<noteq> [] \<or> po_PaymentType r \<noteq> [] then AtCheckPaid why r else AtClose why r)"

fun next_expiry :: "payment_order list \<Rightarrow> nat \<Rightarrow> order_phase" where
  "next_expiry [] n = Finished (ResCount n)"
| "next_expiry (r # rest) n = cancelCore (ForExpiry rest n) r"

fun next_wxpay :: "payment_order list \<Rightarrow> nat \<Rightarrow> order_phase" where
  "next_wxpay [] n = Finished (ResCount n)"
| "next_wxpay (r # rest) n = AtCheckPaid (ForWxpay rest n) r"

text \<open>What a caller does with the answer of \<open>cancelCore\<close>, and with that of the query.\<close>

fun after_cancel :: "purpose \<Rightarrow> pay_error + string \<Rightarrow> order_phase" where
  "after_cancel (ForExpiry rest n) res =
     next_expiry rest (case res of Inl e \<Rightarrow> n | Inr s \<Rightarrow> if s = ''already_paid'' then n else n + 1)"
| "after_cancel why res = Finished (case res of Inl e \<Rightarrow> ResError e | Inr s \<Rightarrow> ResOutcome s)"

fun after_check :: "purpose \<Rightarrow> payment_order \<Rightarrow> bool \<Rightarrow> order_phase" where
  "after_check ForVerify r paid = (if paid then AtReload (po_ID r) else Finished (ResOrder r))"
| "after_check (ForWxpay rest n) r paid = next_wxpay rest (if paid then n + 1 else n)"
| "after_check why r paid = (if paid then after_cancel why (Inr ''already_paid'') else AtClose why r)"

definition close_status :: "purpose \<Rightarrow> string" where
  "close_status why = (case why of ForExpiry rest n \<Rightarrow> OrderStatusExpired | _ \<Rightarrow> OrderStatusCancelled)"

definition close_audit :: "purpose \<Rightarrow> string \<times> string" where
  "close_audit why =
     (case why of
        ForExpiry rest n \<Rightarrow> (''ORDER_EXPIRED'', ''system'')
      | ForCancel operator \<Rightarrow> (''ORDER_CANCELLED'', operator)
      | _ \<Rightarrow> (''ORDER_CANCELLED'', []))"

text \<open>A paid answer with a valid amount: keep the provider's trade number, then notify ourselves.\<close>

definition paid_reply ::
  "purpose \<Rightarrow> payment_order \<Rightarrow> string \<Rightarrow> string \<Rightarrow> string \<Rightarrow> go_float \<Rightarrow> (string, string) gomap \<Rightarrow> order_phase" where
  "paid_reply why r key queryRef tradeNo amount meta =
     (if paymentOrderShouldPersistUpstreamTradeNo queryRef (trim_space tradeNo) (po_PaymentTradeNo r)
      then AtPersist why r key (trim_space tradeNo) amount meta
      else AtCheckNotify why r (AtLookup
        \<lparr>pn_TradeNo = po_PaymentTradeNo r, pn_OrderID = po_OutTradeNo r, pn_Amount = amount,
         pn_Status = ''success'', pn_Metadata = meta\<rparr> key))"

text \<open>The orders of the two sweeps; the second takes the twenty oldest.\<close>

definition expired_orders :: "time \<Rightarrow> pay_db \<Rightarrow> payment_order list" where
  "expired_orders now db =
     filter (\<lambda>r. po_Status r = OrderStatusPending \<and> po_ExpiresAt r \<le> now) (map snd (pd_orders db))"

definition wxpay_orders :: "time \<Rightarrow> pay_db \<Rightarrow> payment_order list" where
  "wxpay_orders now db =
     take 20 (filter (\<lambda>r. po_Status r = OrderStatusPending \<and> now < po_ExpiresAt r \<and>
       (po_PaymentType r = ''wxpay'' \<or> starts_with (po_PaymentType r) ''wxpay_'' \<or>
        po_ProviderKey r = ''wxpay'' \<or> starts_with (po_ProviderKey r) ''wxpay_'')) (map snd (pd_orders db)))"

definition CancelOrder ::
  "pay_input \<Rightarrow> int \<Rightarrow> int option \<Rightarrow> pay_db \<Rightarrow> order_phase \<times> pay_db" where
  "CancelOrder inp i user db =
     (case read_order inp db i of
        None \<Rightarrow> (Finished (ResError NotFound), db)
      | Some r \<Rightarrow>
          if (case user of Some u \<Rightarrow> po_UserID r \<noteq> u | None \<Rightarrow> False) then (Finished (ResError Forbidden), db)
          else if po_Status r \<noteq> OrderStatusPending then
            (Finished (ResError (InvalidStatus ''order cannot be cancelled in current status'')), db)
          else (cancelCore (ForCancel (case user of Some u \<Rightarrow> ''user:'' @ show_int u | None \<Rightarrow> ''admin'')) r, db))"

definition VerifyOrderByOutTradeNo ::
  "pay_input \<Rightarrow> string \<Rightarrow> int \<Rightarrow> pay_db \<Rightarrow> order_phase \<times> pay_db" where
  "VerifyOrderByOutTradeNo inp raw user db =
     (case normalizeOrderLookupOutTradeNo raw of
        None \<Rightarrow> (Finished (ResError InvalidOutTradeNo), db)
      | Some outTradeNo \<Rightarrow>
          (case (if pi_fault inp = Works then orders_by_trade_no db outTradeNo else []) of
             [r] \<Rightarrow>
               if po_UserID r \<noteq> user then (Finished (ResError Forbidden), db)
               else if po_Status r = OrderStatusPending \<or> po_Status r = OrderStatusExpired then
                 (AtCheckPaid ForVerify r, db)
               else (Finished (ResOrder r), db)
           | _ \<Rightarrow> (Finished (ResError NotFound), db)))"

definition ExpireTimedOutOrders ::
  "pay_input \<Rightarrow> pay_db \<Rightarrow> order_phase \<times> pay_db" where
  "ExpireTimedOutOrders inp db =
     (if pi_fault inp \<noteq> Works then (Finished (ResError (StatementFailed ''query expired'')), db)
      else (next_expiry (expired_orders (pi_now inp) db) 0, db))"

definition ReconcilePendingWxpayOrders ::
  "pay_input \<Rightarrow> pay_db \<Rightarrow> order_phase \<times> pay_db" where
  "ReconcilePendingWxpayOrders inp db =
     (if pi_fault inp \<noteq> Works then (Finished (ResError (StatementFailed ''query pending wxpay orders'')), db)
      else (next_wxpay (wxpay_orders (pi_now inp) db) 0, db))"

definition checkPaidWithOptions ::
  "pay_input \<Rightarrow> purpose \<Rightarrow> payment_order \<Rightarrow> pay_db \<Rightarrow> order_phase \<times> pay_db" where
  "checkPaidWithOptions inp why r db =
     (case pi_provider inp of
        None \<Rightarrow> (after_check why r False, db)
      | Some (key, reply) \<Rightarrow>
          let queryRef = paymentOrderQueryReference r key in
          if queryRef = [] then (after_check why r False, db)
          else (case reply of
             QueryFailed \<Rightarrow> (after_check why r False, db)
           | Reply status tradeNo amount meta \<Rightarrow>
               if status \<noteq> ''paid'' then (after_check why r False, db)
               else if \<not> isValidProviderAmount amount then (AtInvalidLog why r key, db)
               else (paid_reply why r key queryRef tradeNo amount meta, db)))"

definition requeryPaidOrderOnce ::
  "pay_input \<Rightarrow> purpose \<Rightarrow> payment_order \<Rightarrow> string \<Rightarrow> string \<Rightarrow> pay_db \<Rightarrow> order_phase \<times> pay_db" where
  "requeryPaidOrderOnce inp why r key queryRef db =
     (case pi_provider inp of
        Some (_, Reply status tradeNo amount meta) \<Rightarrow>
          if status \<noteq> ''paid'' \<or> \<not> isValidProviderAmount amount then (after_check why r False, db)
          else (paid_reply why r key queryRef tradeNo amount meta, db)
      | _ \<Rightarrow> (after_check why r False, db))"

definition persist_upstream ::
  "pay_input \<Rightarrow> purpose \<Rightarrow> payment_order \<Rightarrow> string \<Rightarrow> string \<Rightarrow> go_float \<Rightarrow> (string, string) gomap \<Rightarrow> pay_db \<Rightarrow> order_phase \<times> pay_db" where
  "persist_upstream inp why r key upstream amount meta db =
     (AtCheckNotify why r (AtLookup
        \<lparr>pn_TradeNo = upstream, pn_OrderID = po_OutTradeNo r, pn_Amount = amount,
         pn_Status = ''success'', pn_Metadata = meta\<rparr> key),
      fst (run_update inp (persist_trade_no (pi_now inp) (po_ID r) upstream) db))"

definition close_pending ::
  "pay_input \<Rightarrow> purpose \<Rightarrow> payment_order \<Rightarrow> pay_db \<Rightarrow> order_phase \<times> pay_db" where
  "close_pending inp why r db =
     (let (db', c) = run_update inp (close_order (pi_now inp) (po_ID r) (close_status why)) db in
      case c of
        None \<Rightarrow> (after_cancel why (Inl (StatementFailed ''update order status'')), db')
      | Some c \<Rightarrow> (if 0 < c then AtCloseLog why r else after_cancel why (Inr ''cancelled''), db'))"

text \<open>
  \<open>CreateOrder\<close>: the insertion, then \<open>invokeProvider\<close> for the new order and its user. The answer of
  the provider's creation is in the input, with the key of the selected instance (its status,
  amount and metadata play no part); an error here or in the update that saves the answer sets the
  order to FAILED, and a failure of that last update is ignored.
\<close>

definition create_order ::
  "pay_input \<Rightarrow> payment_order \<Rightarrow> pay_db \<Rightarrow> order_phase \<times> pay_db" where
  "create_order inp r db =
     (if pi_fault inp = Works then (AtInvoke (pd_nextOrder db) (po_UserID r), insert_order (pi_now inp) r db)
      else (Finished (ResError (StatementFailed ''create order'')),
            took_effect (pi_fault inp) db (insert_order (pi_now inp) r db)))"

definition removePostgresTextNUL :: "string \<Rightarrow> string" where
  "removePostgresTextNUL s = filter (\<lambda>c. c \<noteq> CHR 0x00) s"

definition invokeProvider :: "pay_input \<Rightarrow> int \<Rightarrow> int \<Rightarrow> order_phase" where
  "invokeProvider inp i user =
     (case pi_provider inp of
        Some (key, Reply status tradeNo amount meta) \<Rightarrow> AtSaveProvider i user (removePostgresTextNUL tradeNo) key
      | _ \<Rightarrow> AtCreateFailed i (StatementFailed ''create payment''))"

definition save_answer ::
  "pay_input \<Rightarrow> int \<Rightarrow> int \<Rightarrow> string \<Rightarrow> string \<Rightarrow> pay_db \<Rightarrow> order_phase \<times> pay_db" where
  "save_answer inp i user tradeNo key db =
     (let (db', c) = run_update inp (save_provider (pi_now inp) i tradeNo key) db in
      (if c = Some 1 then AtCreatedLog i user
       else AtCreateFailed i (StatementFailed ''update order with payment details''), db'))"

definition creation_failed ::
  "pay_input \<Rightarrow> int \<Rightarrow> pay_error \<Rightarrow> pay_db \<Rightarrow> order_phase \<times> pay_db" where
  "creation_failed inp i e db =
     (Finished (ResError e), fst (run_update inp (fail_creation (pi_now inp) i) db))"

lemmas order_step_parts [simp] =
  CancelOrder_def VerifyOrderByOutTradeNo_def ExpireTimedOutOrders_def ReconcilePendingWxpayOrders_def
  checkPaidWithOptions_def requeryPaidOrderOnce_def persist_upstream_def close_pending_def create_order_def save_answer_def creation_failed_def

fun order_step :: "pay_env \<Rightarrow> pay_input \<Rightarrow> order_phase \<Rightarrow> pay_db \<Rightarrow> order_phase \<times> pay_db" where
  "order_step env inp (AtNotified p) db =
     (case p of
        Done res \<Rightarrow> (Finished (ResDone res), db)
      | _ \<Rightarrow> (let (p', db') = ful_step env inp p db in (AtNotified p', db')))"
| "order_step env inp (AtRetry i) db = (let (p', db') = RetryFulfillment inp i db in (AtNotified p', db'))"
| "order_step env inp (AtCancel i user) db = CancelOrder inp i user db"
| "order_step env inp (AtVerify raw user) db = VerifyOrderByOutTradeNo inp raw user db"
| "order_step env inp AtExpireQuery db = ExpireTimedOutOrders inp db"
| "order_step env inp AtWxpayQuery db = ReconcilePendingWxpayOrders inp db"
| "order_step env inp (AtCreate r) db = create_order inp r db"
| "order_step env inp (AtInvoke i user) db = (invokeProvider inp i user, db)"
| "order_step env inp (AtSaveProvider i user tradeNo key) db = save_answer inp i user tradeNo key db"
| "order_step env inp (AtCreatedLog i user) db =
     (Finished (ResDone None), took_effect (pi_fault inp) db
        (write_audit i ''ORDER_CREATED'' (''user:'' @ show_int user) db))"
| "order_step env inp (AtCreateFailed i e) db = creation_failed inp i e db"
| "order_step env inp (AtRedeemCode q) db =
     (case q of
        Redeemed res \<Rightarrow> (Finished (ResRedeem res), db)
      | _ \<Rightarrow> (let (q', db') = redeem_step env False inp q db in (AtRedeemCode q', db')))"
| "order_step env inp (AtCheckPaid why r) db = checkPaidWithOptions inp why r db"
| "order_step env inp (AtInvalidLog why r key) db =
     (AtRequery why r key (paymentOrderQueryReference r key),
      took_effect (pi_fault inp) db (write_audit (po_ID r) ''PAYMENT_INVALID_AMOUNT'' key db))"
| "order_step env inp (AtRequery why r key queryRef) db = requeryPaidOrderOnce inp why r key queryRef db"
| "order_step env inp (AtPersist why r key upstream amount meta) db = persist_upstream inp why r key upstream amount meta db"
| "order_step env inp (AtCheckNotify why r p) db =
     (case p of
        Done res \<Rightarrow> (after_check why r True, db)
      | _ \<Rightarrow> (let (p', db') = ful_step env inp p db in (AtCheckNotify why r p', db')))"
| "order_step env inp (AtClose why r) db = close_pending inp why r db"
| "order_step env inp (AtCloseLog why r) db =
     (after_cancel why (Inr ''cancelled''), took_effect (pi_fault inp) db
        (write_audit (po_ID r) (fst (close_audit why)) (snd (close_audit why)) db))"
| "order_step env inp (AtReload i) db =
     (case read_order inp db i of
        None \<Rightarrow> (Finished (ResError (StatementFailed ''reload order'')), db)
      | Some r \<Rightarrow> (Finished (ResOrder r), db))"
| "order_step env inp (Finished res) db = (Finished res, db)"

end
