(* ===== verification/Payment_Invariant.thy ===== *)
theory Payment_Invariant
  imports Payment_Orders
begin

text \<open>
  The invariant of the payment tables, and that every statement keeps it and only moves the
  tables forward (\<open>good\<close>): completed orders are fulfilled, the code of an order exists only once
  a notification for it was accepted and is worth its amount, a subscription is granted at most
  once per order, and the balances are what they were plus the codes used.
\<close>

section \<open>The invariant of the tables\<close>

text \<open>Where a run starts: the balances less the codes used by then, and the redemptions users ask for.\<close>

record pay_origin =
  og_balance :: "int \<Rightarrow> rat option"
  og_asked :: "(int \<times> string) set"

definition used_code :: "pay_db \<Rightarrow> payment_order \<Rightarrow> bool" where
  "used_code db r \<longleftrightarrow> (\<exists>c. code_by_code db (po_RechargeCode r) = Some c \<and> IsUsed c)"

definition fulfilled :: "pay_db \<Rightarrow> payment_order \<Rightarrow> bool" where
  "fulfilled db r \<longleftrightarrow> (if po_OrderType r = ''subscription'' then has_audit db (po_ID r) ''SUBSCRIPTION_ASSIGNED''
     else used_code db r)"

definition credit :: "int \<Rightarrow> RedeemCode \<Rightarrow> rat" where
  "credit u c = (if IsUsed c \<and> rdc_UsedBy c = Some u \<and> rdc_Type c = ''balance'' then rdc_Value c else 0)"

definition credits :: "pay_db \<Rightarrow> int \<Rightarrow> rat" where
  "credits db u = sum_list (map (credit u) (pd_codes db))"

definition orders_ok :: "pay_db \<Rightarrow> bool" where
  "orders_ok db \<longleftrightarrow> 0 \<le> pd_nextOrder db \<and> (\<forall>i r. get_order db i = Some r \<longrightarrow>
     po_ID r = i \<and> 0 \<le> i \<and> i < pd_nextOrder db \<and> 0 < po_Amount r \<and>
     (\<exists>t. po_RechargeCode r = recharge_code i t) \<and>
     (po_PaidAt r \<noteq> None \<longrightarrow> \<not> open_status (po_Status r) \<and> accepted db i) \<and>
     (po_Status r = OrderStatusCompleted \<longrightarrow> fulfilled db r))"

definition codes_ok :: "pay_db \<Rightarrow> bool" where
  "codes_ok db \<longleftrightarrow> distinct (map rdc_Code (pd_codes db)) \<and> distinct (map rdc_ID (pd_codes db)) \<and>
     (\<forall>c \<in> set (pd_codes db). rdc_ID c < pd_nextCode db \<and>
        (\<forall>i t. 0 \<le> i \<longrightarrow> rdc_Code c = recharge_code i t \<longrightarrow> i < pd_nextOrder db))"

text \<open>
  The code of an order exists only once a notification was accepted and a fulfilment has taken the
  lease (the order has left the stages before), and is worth the amount; it is used by the owner
  of the order or by a user who asked to redeem it.
\<close>

definition linked :: "pay_origin \<Rightarrow> pay_db \<Rightarrow> bool" where
  "linked base db \<longleftrightarrow> (\<forall>i r c. get_order db i = Some r \<longrightarrow> code_by_code db (po_RechargeCode r) = Some c \<longrightarrow>
     rdc_Type c = ''balance'' \<and> rdc_Value c = po_Amount r \<and> accepted db i \<and> stage (po_Status r) = 2 \<and>
     (IsUsed c \<longrightarrow> (\<exists>u. rdc_UsedBy c = Some u \<and> (u = po_UserID r \<or> (u, rdc_Code c) \<in> og_asked base))))"

text \<open>
  A balance is what it was plus the codes used. A code of negative value deducts, but never below
  zero, so a user who has redeemed one may have more.
\<close>

definition no_debit :: "pay_db \<Rightarrow> int \<Rightarrow> bool" where
  "no_debit db u \<longleftrightarrow> (\<forall>c \<in> set (pd_codes db). 0 \<le> credit u c)"

definition balance_ok :: "rat option \<Rightarrow> rat \<Rightarrow> bool \<Rightarrow> rat option \<Rightarrow> bool" where
  "balance_ok old credited exact new \<longleftrightarrow>
     (case old of
        None \<Rightarrow> new = None
      | Some b \<Rightarrow> (\<exists>x. new = Some x \<and> b + credited \<le> x \<and> (exact \<longrightarrow> x = b + credited)))"

definition conserved :: "pay_origin \<Rightarrow> pay_db \<Rightarrow> bool" where
  "conserved base db \<longleftrightarrow>
     (\<forall>u. balance_ok (og_balance base u) (credits db u) (no_debit db u) (gget (pd_balance db) u))"

definition grant_ok :: "pay_db \<Rightarrow> int \<times> int \<times> int \<times> int \<Rightarrow> bool" where
  "grant_ok db x \<longleftrightarrow> (case x of (i, u, g, d) \<Rightarrow> \<exists>r. get_order db i = Some r \<and> po_OrderType r = ''subscription'' \<and>
     accepted db i \<and> po_UserID r = u \<and> po_SubscriptionGroupID r = Some g \<and> po_SubscriptionDays r = Some d)"

definition grants_ok :: "pay_db \<Rightarrow> bool" where
  "grants_ok db \<longleftrightarrow> distinct (map fst (pd_grants db)) \<and>
     (\<forall>i row. gget (pd_audit db) (i, ''SUBSCRIPTION_ASSIGNED'') = Some row \<longrightarrow>
        (\<exists>r. get_order db i = Some r) \<and> snd row \<or>
        (\<exists>r g d. get_order db i = Some r \<and> po_SubscriptionGroupID r = Some g \<and> po_SubscriptionDays r = Some d \<and>
           (i, po_UserID r, g, d) \<in> set (pd_grants db))) \<and>
     (\<forall>x \<in> set (pd_grants db). has_audit db (fst x) ''SUBSCRIPTION_ASSIGNED'' \<and> grant_ok db x) \<and>
     (\<forall>i. has_audit db i ''SUBSCRIPTION_SUCCESS'' \<longrightarrow> has_audit db i ''SUBSCRIPTION_ASSIGNED'') \<and>
     (\<forall>i. has_audit db i ''SUBSCRIPTION_ASSIGNED'' \<longrightarrow> (\<exists>r. get_order db i = Some r \<and> stage (po_Status r) = 2))"

definition rebates_ok :: "pay_db \<Rightarrow> bool" where
  "rebates_ok db \<longleftrightarrow> distinct (map fst (pd_rebates db)) \<and>
     (\<forall>i u b. (i, u, b) \<in> set (pd_rebates db) \<longrightarrow> has_audit db i ''AFFILIATE_REBATE_APPLIED'' \<and>
        (\<exists>r. get_order db i = Some r \<and> u = po_UserID r \<and> b = po_Amount r \<and> fulfilled db r))"

definition redeem_rebates_ok :: "pay_db \<Rightarrow> bool" where
  "redeem_rebates_ok db \<longleftrightarrow> (\<forall>s u v. (s, u, v) \<in> set (pd_redeem_rebates db) \<longrightarrow>
     (\<exists>c. code_by_code db s = Some c \<and> rdc_Status c = ''used'' \<and> rdc_UsedBy c = Some u \<and>
        rdc_Type c = ''balance'' \<and> rdc_Value c = v \<and> 0 < v))"

definition pay_inv :: "pay_origin \<Rightarrow> pay_db \<Rightarrow> bool" where
  "pay_inv base db \<longleftrightarrow> orders_ok db \<and> codes_ok db \<and> linked base db \<and> conserved base db \<and> grants_ok db \<and>
     rebates_ok db \<and> redeem_rebates_ok db"

lemmas pay_inv_parts = pay_inv_def orders_ok_def codes_ok_def linked_def conserved_def grants_ok_def rebates_ok_def
  redeem_rebates_ok_def

text \<open>A statement is good when it keeps the invariant and lets the tables evolve.\<close>

definition good :: "pay_origin \<Rightarrow> pay_db \<Rightarrow> pay_db \<Rightarrow> bool" where
  "good base db db' \<longleftrightarrow> pay_inv base db' \<and> db_evolves db db'"

lemma good_refl: "pay_inv base db \<Longrightarrow> good base db db"
  by (simp add: good_def)

lemma good_took_effect: "pay_inv base db \<Longrightarrow> good base db db' \<Longrightarrow> good base db (took_effect f db db')"
  by (rule took_effect_cases) (auto intro: good_refl)

section \<open>Recharge codes tell orders apart\<close>

lemma recharge_code_inject:
  assumes "recharge_code i s = recharge_code j t" and "0 \<le> i" and "0 \<le> j"
  shows "i = j"
proof -
  have "show_nat (nat i) @ CHR ''-'' # show_int (s mod 100000) = show_nat (nat j) @ CHR ''-'' # show_int (t mod 100000)"
    using assms by (simp add: recharge_code_def show_int_def)
  moreover have "\<not> is_digit (CHR ''-'')" by (simp add: is_digit_def less_eq_char_def)
  ultimately have "nat i = nat j" using show_sep_inject by blast
  with assms show ?thesis by simp
qed

lemma same_recharge_code:
  assumes "orders_ok db" and "get_order db i = Some r" and "get_order db j = Some s"
    and "po_RechargeCode r = po_RechargeCode s"
  shows "i = j"
proof -
  obtain t u where "po_RechargeCode r = recharge_code i t" "po_RechargeCode s = recharge_code j u" "0 \<le> i" "0 \<le> j"
    using assms(1-3) unfolding orders_ok_def by metis
  with assms(4) show ?thesis using recharge_code_inject by metis
qed

section \<open>What evolution keeps\<close>

lemma has_audit_evolves: "db_evolves db db' \<Longrightarrow> has_audit db i a \<Longrightarrow> has_audit db' i a"
  unfolding db_evolves_def has_audit_def by (metis option.exhaust option.distinct(1))

lemma used_code_evolves: "db_evolves db db' \<Longrightarrow> used_code db r \<Longrightarrow> used_code db' r"
proof -
  assume e: "db_evolves db db'" and "used_code db r"
  then obtain c where c: "code_by_code db (po_RechargeCode r) = Some c" "IsUsed c" by (auto simp: used_code_def)
  with e obtain c' where "code_by_code db' (po_RechargeCode r) = Some c'" "code_evolves c c'"
    unfolding db_evolves_def by blast
  with c show ?thesis by (auto simp: used_code_def code_evolves_def IsUsed_def)
qed

lemma fulfilled_evolves: "db_evolves db db' \<Longrightarrow> fulfilled db r \<Longrightarrow> fulfilled db' r"
  by (auto simp: fulfilled_def dest: has_audit_evolves used_code_evolves split: if_splits)

lemma fulfilled_columns: "fixed_columns r' = fixed_columns r \<Longrightarrow> fulfilled db r' = fulfilled db r"
  by (simp add: fulfilled_def used_code_def fixed_columns_def)

lemma stage_bound: "stage s \<le> 2"
  by (simp add: stage_def)

lemma stage_two: "2 \<le> stage s \<Longrightarrow> stage s = 2"
  using stage_bound [of s] by simp

lemma stage_evolves:
  assumes ev: "db_evolves db db'" and "\<exists>r. get_order db i = Some r \<and> stage (po_Status r) = 2"
  shows "\<exists>r. get_order db' i = Some r \<and> stage (po_Status r) = 2"
proof -
  obtain r where r: "get_order db i = Some r" "stage (po_Status r) = 2" using assms(2) by blast
  from db_evolves_order [OF ev r(1)] r(2) show ?thesis by (auto simp: order_evolves_def intro: stage_two)
qed

lemma grant_ok_evolves: "db_evolves db db' \<Longrightarrow> grant_ok db x \<Longrightarrow> grant_ok db' x"
proof -
  assume e: "db_evolves db db'" and "grant_ok db x"
  then obtain i u g d r where x: "x = (i, u, g, d)" "get_order db i = Some r" "po_OrderType r = ''subscription''"
    "accepted db i" "po_UserID r = u" "po_SubscriptionGroupID r = Some g" "po_SubscriptionDays r = Some d"
    by (cases x) (auto simp: grant_ok_def)
  from db_evolves_order [OF e x(2)] accepted_evolves [OF e x(4)] x show ?thesis
    by (auto simp: grant_ok_def order_evolves_def fixed_columns_def)
qed

lemma grants_ok_evolves:
  assumes "grants_ok db" and ev: "db_evolves db db'" and g: "pd_grants db' = pd_grants db"
    and new: "\<And>i. has_audit db' i ''SUBSCRIPTION_ASSIGNED'' \<Longrightarrow> has_audit db i ''SUBSCRIPTION_ASSIGNED''"
    and success: "\<And>i. has_audit db' i ''SUBSCRIPTION_SUCCESS'' \<Longrightarrow> has_audit db' i ''SUBSCRIPTION_ASSIGNED''"
  shows "grants_ok db'"
proof -
  have "(\<exists>r. get_order db' i = Some r) \<and> snd row \<or>
      (\<exists>r g d. get_order db' i = Some r \<and> po_SubscriptionGroupID r = Some g \<and> po_SubscriptionDays r = Some d \<and>
           (i, po_UserID r, g, d) \<in> set (pd_grants db'))"
    if a: "gget (pd_audit db') (i, ''SUBSCRIPTION_ASSIGNED'') = Some row" for i row
  proof -
    have "has_audit db i ''SUBSCRIPTION_ASSIGNED''" using new [of i] a by (simp add: has_audit_def)
    then obtain row' where row': "gget (pd_audit db) (i, ''SUBSCRIPTION_ASSIGNED'') = Some row'" by (auto simp: has_audit_def)
    with ev have "gget (pd_audit db') (i, ''SUBSCRIPTION_ASSIGNED'') = Some row'" unfolding db_evolves_def by blast
    with a have "row' = row" by simp
    with row' have "gget (pd_audit db) (i, ''SUBSCRIPTION_ASSIGNED'') = Some row" by (simp only:)
    then have "(\<exists>r. get_order db i = Some r) \<and> snd row \<or>
      (\<exists>r g d. get_order db i = Some r \<and> po_SubscriptionGroupID r = Some g \<and> po_SubscriptionDays r = Some d \<and>
           (i, po_UserID r, g, d) \<in> set (pd_grants db))"
      using assms(1) unfolding grants_ok_def by blast
    then show ?thesis
    proof (elim disjE exE conjE)
      fix r assume "get_order db i = Some r" and "snd row"
      then show ?thesis using db_evolves_order [OF ev] by blast
    next
      fix r x d assume r: "get_order db i = Some r" "po_SubscriptionGroupID r = Some x" "po_SubscriptionDays r = Some d"
        "(i, po_UserID r, x, d) \<in> set (pd_grants db)"
      from db_evolves_order [OF ev r(1)] obtain r' where "get_order db' i = Some r'" "fixed_columns r' = fixed_columns r"
        by (auto simp: order_evolves_def)
      with r g show ?thesis by (auto simp: fixed_columns_def)
    qed
  qed
  moreover have "\<forall>x \<in> set (pd_grants db'). has_audit db' (fst x) ''SUBSCRIPTION_ASSIGNED'' \<and> grant_ok db' x"
    using assms(1) has_audit_evolves [OF ev] grant_ok_evolves [OF ev] by (simp add: grants_ok_def g)
  moreover have "\<exists>r. get_order db' i = Some r \<and> stage (po_Status r) = 2" if "has_audit db' i ''SUBSCRIPTION_ASSIGNED''" for i
    using assms(1) new [OF that] stage_evolves [OF ev] unfolding grants_ok_def by blast
  ultimately show ?thesis using assms(1) success by (simp add: grants_ok_def g)
qed

lemma rebates_ok_evolves:
  assumes "rebates_ok db" and ev: "db_evolves db db'" and g: "pd_rebates db' = pd_rebates db"
  shows "rebates_ok db'"
proof -
  have "has_audit db' i ''AFFILIATE_REBATE_APPLIED'' \<and>
        (\<exists>r. get_order db' i = Some r \<and> u = po_UserID r \<and> b = po_Amount r \<and> fulfilled db' r)"
    if "(i, u, b) \<in> set (pd_rebates db')" for i u b
  proof -
    from that assms(1) obtain r where a: "has_audit db i ''AFFILIATE_REBATE_APPLIED''" and
      r: "get_order db i = Some r" "u = po_UserID r" "b = po_Amount r" "fulfilled db r"
      unfolding rebates_ok_def g by blast
    from db_evolves_order [OF ev r(1)] obtain r' where r': "get_order db' i = Some r'" "fixed_columns r' = fixed_columns r"
      by (auto simp: order_evolves_def)
    from fulfilled_columns [OF r'(2)] fulfilled_evolves [OF ev r(4)] have "fulfilled db' r'" by simp
    with r r' has_audit_evolves [OF ev a] show ?thesis by (auto simp: fixed_columns_def)
  qed
  with assms(1) show ?thesis by (simp add: rebates_ok_def g)
qed

lemma redeem_rebates_ok_evolves:
  assumes "redeem_rebates_ok db" and ev: "db_evolves db db'" and g: "pd_redeem_rebates db' = pd_redeem_rebates db"
  shows "redeem_rebates_ok db'"
  unfolding redeem_rebates_ok_def g
proof (intro allI impI)
  fix s u v assume "(s, u, v) \<in> set (pd_redeem_rebates db)"
  with assms(1) obtain c where c: "code_by_code db s = Some c" "rdc_Status c = ''used''" "rdc_UsedBy c = Some u"
    "rdc_Type c = ''balance''" "rdc_Value c = v" "0 < v" unfolding redeem_rebates_ok_def by blast
  from ev c(1) obtain c' where "code_by_code db' s = Some c'" "code_evolves c c'" unfolding db_evolves_def by blast
  with c show "\<exists>c. code_by_code db' s = Some c \<and> rdc_Status c = ''used'' \<and> rdc_UsedBy c = Some u \<and>
        rdc_Type c = ''balance'' \<and> rdc_Value c = v \<and> 0 < v" by (auto simp: code_evolves_def)
qed

section \<open>Updates of an order\<close>

lemma get_order_update:
  "get_order (fst (update_order i cond f db)) j =
     (case get_order db j of
        Some r \<Rightarrow> Some (if j = i \<and> cond r then f r else r)
      | None \<Rightarrow> None)"
  by (auto simp: update_order_def get_order_def gget_gput split: option.splits)

lemma update_other_fields [simp]:
  "pd_nextOrder (fst (update_order i cond f db)) = pd_nextOrder db"
  "pd_codes (fst (update_order i cond f db)) = pd_codes db"
  "pd_nextCode (fst (update_order i cond f db)) = pd_nextCode db"
  "pd_balance (fst (update_order i cond f db)) = pd_balance db"
  "pd_audit (fst (update_order i cond f db)) = pd_audit db"
  "pd_grants (fst (update_order i cond f db)) = pd_grants db"
  "pd_rebates (fst (update_order i cond f db)) = pd_rebates db"
  "pd_redeem_rebates (fst (update_order i cond f db)) = pd_redeem_rebates db"
  "pd_accepted (fst (update_order i cond f db)) = pd_accepted db"
  by (simp_all add: update_order_def split: option.split)

lemma tables_cong:
  "pd_codes db' = pd_codes db \<Longrightarrow> code_by_code db' = code_by_code db"
  "pd_codes db' = pd_codes db \<Longrightarrow> credits db' = credits db"
  "pd_audit db' = pd_audit db \<Longrightarrow> has_audit db' = has_audit db"
  "pd_orders db' = pd_orders db \<Longrightarrow> get_order db' = get_order db"
  "pd_accepted db' = pd_accepted db \<Longrightarrow> accepted db' = accepted db"
  "pd_codes db' = pd_codes db \<Longrightarrow> no_debit db' = no_debit db"
  by (simp_all add: code_by_code_def credits_def has_audit_def get_order_def accepted_def no_debit_def fun_eq_iff)

lemma fulfilled_cong:
  "code_by_code db' = code_by_code db \<Longrightarrow> has_audit db' = has_audit db \<Longrightarrow> fixed_columns r' = fixed_columns r \<Longrightarrow>
     fulfilled db' r' = fulfilled db r"
  by (simp add: fulfilled_def used_code_def fixed_columns_def)

text \<open>What an update may do to a row.\<close>

definition row_ok :: "pay_db \<Rightarrow> payment_order \<Rightarrow> payment_order \<Rightarrow> bool" where
  "row_ok db r r' \<longleftrightarrow> order_evolves r r' \<and> (po_PaidAt r' \<noteq> None \<longrightarrow> \<not> open_status (po_Status r') \<and> accepted db (po_ID r)) \<and>
     (po_Status r' = OrderStatusCompleted \<longrightarrow> fulfilled db r)"

lemma update_good:
  fixes base
  assumes inv: "pay_inv base db"
    and row: "\<And>r. get_order db i = Some r \<Longrightarrow> cond r \<Longrightarrow> row_ok db r (f r)"
  shows "good base db (fst (update_order i cond f db))"
proof -
  let ?db = "fst (update_order i cond f db)"
  have c: "code_by_code ?db = code_by_code db" "credits ?db = credits db" "has_audit ?db = has_audit db"
    "accepted ?db = accepted db" "no_debit ?db = no_debit db"
    by (rule tables_cong; simp)+
  have ful: "fulfilled ?db r' = fulfilled db r" if "fixed_columns r' = fixed_columns r" for r r'
    by (rule fulfilled_cong [OF c(1,3) that])
  have old: "\<exists>r. get_order db j = Some r \<and> order_evolves r r' \<and> (r' = r \<or> row_ok db r r')"
    if "get_order ?db j = Some r'" for j r'
    using that row by (auto simp: get_order_update row_ok_def split: option.splits if_splits)
  have new: "\<exists>r'. get_order ?db j = Some r' \<and> order_evolves r r'" if "get_order db j = Some r" for j r
    using that row by (auto simp: get_order_update row_ok_def)
  have cols: "po_ID r' = po_ID r \<and> po_UserID r' = po_UserID r \<and> po_Amount r' = po_Amount r \<and>
      po_RechargeCode r' = po_RechargeCode r \<and> po_SubscriptionGroupID r' = po_SubscriptionGroupID r \<and>
      po_SubscriptionDays r' = po_SubscriptionDays r \<and> fulfilled ?db r' = fulfilled db r"
    if "order_evolves r r'" for r r'
    using that ful [of r' r] by (simp add: order_evolves_def fixed_columns_def)
  have "po_ID r' = j \<and> 0 \<le> j \<and> j < pd_nextOrder db \<and> 0 < po_Amount r' \<and>
      (\<exists>t. po_RechargeCode r' = recharge_code j t) \<and>
      (po_PaidAt r' \<noteq> None \<longrightarrow> \<not> open_status (po_Status r') \<and> accepted ?db j) \<and>
      (po_Status r' = OrderStatusCompleted \<longrightarrow> fulfilled ?db r')" if "get_order ?db j = Some r'" for j r'
  proof -
    from old [OF that] obtain r where r: "get_order db j = Some r" "order_evolves r r'" "r' = r \<or> row_ok db r r'"
      by blast
    have o: "po_ID r = j \<and> 0 \<le> j \<and> j < pd_nextOrder db \<and> 0 < po_Amount r \<and>
        (\<exists>t. po_RechargeCode r = recharge_code j t) \<and>
        (po_PaidAt r \<noteq> None \<longrightarrow> \<not> open_status (po_Status r) \<and> accepted db j) \<and>
        (po_Status r = OrderStatusCompleted \<longrightarrow> fulfilled db r)"
      using inv r(1) by (simp add: pay_inv_def orders_ok_def)
    from r(3) show ?thesis
    proof
      assume "r' = r"
      with o cols [OF r(2)] show ?thesis by (simp add: c)
    next
      assume "row_ok db r r'"
      with o cols [OF r(2)] show ?thesis by (simp add: row_ok_def c)
    qed
  qed
  then have "orders_ok ?db" using inv by (simp add: orders_ok_def pay_inv_def)
  moreover have "linked base ?db"
    unfolding linked_def c
  proof (intro allI impI)
    fix j r' x assume r': "get_order ?db j = Some r'" and x: "code_by_code db (po_RechargeCode r') = Some x"
    from old [OF r'] obtain r where r: "get_order db j = Some r" "order_evolves r r'" by blast
    have "code_by_code db (po_RechargeCode r) = Some x" using x cols [OF r(2)] by simp
    then have "rdc_Type x = ''balance'' \<and> rdc_Value x = po_Amount r \<and> accepted db j \<and> stage (po_Status r) = 2 \<and>
        (IsUsed x \<longrightarrow> (\<exists>u. rdc_UsedBy x = Some u \<and> (u = po_UserID r \<or> (u, rdc_Code x) \<in> og_asked base)))"
      using inv r(1) by (simp add: pay_inv_def linked_def)
    moreover have "stage (po_Status r') = 2" if "stage (po_Status r) = 2"
      using r(2) that by (auto simp: order_evolves_def intro: stage_two)
    ultimately show "rdc_Type x = ''balance'' \<and> rdc_Value x = po_Amount r' \<and> accepted db j \<and> stage (po_Status r') = 2 \<and>
        (IsUsed x \<longrightarrow> (\<exists>u. rdc_UsedBy x = Some u \<and> (u = po_UserID r' \<or> (u, rdc_Code x) \<in> og_asked base)))"
      using cols [OF r(2)] by simp
  qed
  moreover have "codes_ok ?db" "conserved base ?db"
    using inv by (simp_all add: pay_inv_parts c(2,5))
  moreover have ev: "db_evolves db ?db"
    using new by (simp add: db_evolves_def c)
  moreover have "grants_ok ?db"
    by (rule grants_ok_evolves [OF _ ev]) (use inv in \<open>simp_all add: pay_inv_def grants_ok_def c\<close>)
  moreover have "rebates_ok ?db"
    by (rule rebates_ok_evolves [OF _ ev]) (use inv in \<open>simp_all add: pay_inv_def\<close>)
  moreover have "redeem_rebates_ok ?db"
    by (rule redeem_rebates_ok_evolves [OF _ ev]) (use inv in \<open>simp_all add: pay_inv_def\<close>)
  ultimately show ?thesis by (simp add: good_def pay_inv_def)
qed

lemma inv_order:
  assumes "pay_inv base db" and "get_order db i = Some r"
  shows "po_ID r = i" and "0 \<le> i" and "i < pd_nextOrder db" and "0 < po_Amount r" and
    "po_PaidAt r \<noteq> None \<Longrightarrow> \<not> open_status (po_Status r) \<and> accepted db i"
    and "po_Status r = OrderStatusCompleted \<Longrightarrow> fulfilled db r"
    and "\<exists>t. po_RechargeCode r = recharge_code i t"
proof -
  have "po_ID r = i \<and> 0 \<le> i \<and> i < pd_nextOrder db \<and> 0 < po_Amount r \<and> (\<exists>t. po_RechargeCode r = recharge_code i t) \<and>
    (po_PaidAt r \<noteq> None \<longrightarrow> \<not> open_status (po_Status r) \<and> accepted db i) \<and>
    (po_Status r = OrderStatusCompleted \<longrightarrow> fulfilled db r)"
    using assms unfolding pay_inv_def orders_ok_def by blast
  then show "po_ID r = i" and "0 \<le> i" and "i < pd_nextOrder db" and "0 < po_Amount r" and
    "po_PaidAt r \<noteq> None \<Longrightarrow> \<not> open_status (po_Status r) \<and> accepted db i"
    and "po_Status r = OrderStatusCompleted \<Longrightarrow> fulfilled db r"
    and "\<exists>t. po_RechargeCode r = recharge_code i t" by simp_all
qed

lemmas row_defs = row_ok_def order_evolves_def fixed_columns_def stage_def open_status_def

lemma not_paid_yet:
  assumes "pay_inv base db" and "get_order db i = Some r"
    and "po_Status r \<in> {OrderStatusPending, OrderStatusCancelled, OrderStatusExpired}"
  shows "po_PaidAt r = None"
proof -
  have "open_status (po_Status r)" using assms(3) by (simp add: open_status_def)
  with inv_order(5) [OF assms(1,2)] show ?thesis by blast
qed

lemma mark_paid_good:
  assumes "pay_inv base db" and "accepted db i"
  shows "good base db (fst (mark_paid now i tradeNo paid db))"
  unfolding mark_paid_def
  using assms(2) inv_order(1) [OF assms(1)]
  by (intro update_good [OF assms(1)]) (auto simp: row_defs dest: not_paid_yet [OF assms(1)])

text \<open>An update that leaves the payment alone and does not go back to an open status.\<close>

lemma kept_row:
  assumes inv: "pay_inv base db" and r: "get_order db i = Some r"
    and "fixed_columns r' = fixed_columns r" and "po_PaidAt r' = po_PaidAt r" and "po_PayAmount r' = po_PayAmount r"
    and "stage (po_Status r) \<le> stage (po_Status r')"
    and "po_Status r' = OrderStatusCompleted \<Longrightarrow> fulfilled db r"
  shows "row_ok db r r'"
proof -
  have "\<not> open_status (po_Status r')" if "\<not> open_status (po_Status r)"
    using assms(6) that by (auto simp: stage_def split: if_splits)
  with assms inv_order(1,5) [OF inv r] show ?thesis by (simp add: row_ok_def order_evolves_def)
qed

lemma claim_good:
  assumes "pay_inv base db"
  shows "good base db (fst (claim_lease now i db))"
  unfolding claim_lease_def Let_def
  by (intro update_good [OF assms] kept_row [OF assms]) (auto simp: row_defs)

lemma complete_good:
  assumes "pay_inv base db" and "\<And>r. get_order db i = Some r \<Longrightarrow> fulfilled db r"
  shows "good base db (fst (complete_order now i version db))"
  unfolding complete_order_def
  by (intro update_good [OF assms(1)] kept_row [OF assms(1)]) (use assms(2) in \<open>auto simp: row_defs\<close>)

lemma fail_good:
  assumes "pay_inv base db"
  shows "good base db (fst (fail_order now i version db))"
  unfolding fail_order_def
  by (intro update_good [OF assms] kept_row [OF assms]) (auto simp: row_defs)

lemma fail_creation_good:
  assumes "pay_inv base db"
  shows "good base db (fst (fail_creation now i db))"
  unfolding fail_creation_def
  by (intro update_good [OF assms] kept_row [OF assms]) (auto simp: row_defs)

lemma close_good:
  assumes "pay_inv base db" and "fs \<in> {OrderStatusCancelled, OrderStatusExpired}"
  shows "good base db (fst (close_order now i fs db))"
  unfolding close_order_def
  by (intro update_good [OF assms(1)] kept_row [OF assms(1)]) (use assms(2) in \<open>auto simp: row_defs\<close>)

lemma persist_good:
  assumes "pay_inv base db"
  shows "good base db (fst (persist_trade_no now i tradeNo db))"
  unfolding persist_trade_no_def
  by (intro update_good [OF assms] kept_row [OF assms]) (use inv_order(6) [OF assms] in \<open>auto simp: fixed_columns_def\<close>)

lemma save_provider_good:
  assumes "pay_inv base db"
  shows "good base db (fst (save_provider now i tradeNo key db))"
  unfolding save_provider_def
  by (intro update_good [OF assms] kept_row [OF assms]) (use inv_order(6) [OF assms] in \<open>auto simp: fixed_columns_def\<close>)

lemma run_update_good:
  "pay_inv base db \<Longrightarrow> good base db (fst (stmt db)) \<Longrightarrow> good base db (fst (run_update inp stmt db))"
  by (simp add: run_update_def case_prod_beta Let_def good_took_effect)

section \<open>Creating orders and codes\<close>

lemma insert_order_get:
  "get_order (insert_order now r db) j =
     (if j = pd_nextOrder db then Some (r\<lparr>po_ID := pd_nextOrder db, po_RechargeCode := recharge_code (pd_nextOrder db) now,
        po_PaymentTradeNo := [], po_Status := OrderStatusPending, po_PaidAt := None, po_CompletedAt := None,
        po_FailedAt := None, po_UpdatedAt := now\<rparr>) else get_order db j)"
  by (simp add: insert_order_def get_order_def gget_gput Let_def)

lemma insert_order_fields [simp]:
  "pd_nextOrder (insert_order now r db) = pd_nextOrder db + 1"
  "pd_codes (insert_order now r db) = pd_codes db" "pd_nextCode (insert_order now r db) = pd_nextCode db"
  "pd_balance (insert_order now r db) = pd_balance db" "pd_audit (insert_order now r db) = pd_audit db"
  "pd_grants (insert_order now r db) = pd_grants db" "pd_rebates (insert_order now r db) = pd_rebates db"
  "pd_redeem_rebates (insert_order now r db) = pd_redeem_rebates db" "pd_accepted (insert_order now r db) = pd_accepted db"
  by (simp_all add: insert_order_def Let_def)

lemma find_member: "find P xs = Some x \<Longrightarrow> x \<in> set xs \<and> P x"
  by (induction xs) (auto split: if_splits)

lemma code_in: "code_by_code db s = Some c \<Longrightarrow> c \<in> set (pd_codes db) \<and> rdc_Code c = s"
  unfolding code_by_code_def by (drule find_member) simp

lemma insert_order_good:
  assumes inv: "pay_inv base db" and amount: "0 < po_Amount r"
  shows "good base db (insert_order now r db)"
proof -
  let ?db = "insert_order now r db"
  let ?n = "pd_nextOrder db"
  have c: "code_by_code ?db = code_by_code db" "credits ?db = credits db" "has_audit ?db = has_audit db"
    "accepted ?db = accepted db" "no_debit ?db = no_debit db"
    by (rule tables_cong; simp)+
  have n: "0 \<le> ?n" using inv by (simp add: pay_inv_parts)
  have old: "get_order ?db j = get_order db j" if "get_order db j \<noteq> None" for j
    using that inv_order(3) [OF inv] by (auto simp: insert_order_get)
  then have ev: "db_evolves db ?db" by (auto simp: db_evolves_def c)
  have ful: "fulfilled ?db x = fulfilled db x" for x by (simp add: fulfilled_def used_code_def c)
  have none: "code_by_code db (recharge_code ?n now) = None"
  proof (rule ccontr)
    assume "code_by_code db (recharge_code ?n now) \<noteq> None"
    then obtain x where "x \<in> set (pd_codes db)" "rdc_Code x = recharge_code ?n now" by (auto dest: code_in)
    with inv n have "?n < ?n" unfolding pay_inv_def codes_ok_def by blast
    then show False by simp
  qed
  have "orders_ok ?db"
    unfolding orders_ok_def
  proof (intro conjI allI impI)
    fix j x assume x: "get_order ?db j = Some x"
    show "po_ID x = j" "0 \<le> j" "j < pd_nextOrder ?db" "0 < po_Amount x"
      using x amount n inv_order(1-4) [OF inv, of j] by (auto simp: insert_order_get split: if_splits)
    show "\<exists>t. po_RechargeCode x = recharge_code j t"
      using x inv by (auto simp: insert_order_get pay_inv_parts split: if_splits)
    show "\<not> open_status (po_Status x)" "accepted ?db j" if "po_PaidAt x \<noteq> None"
      using x that inv_order(5) [OF inv, of j] by (auto simp: insert_order_get c split: if_splits)
    show "fulfilled ?db x" if "po_Status x = OrderStatusCompleted"
      unfolding ful using x that inv_order(6) [OF inv, of j] by (auto simp: insert_order_get split: if_splits)
  qed (use n in simp)
  moreover have "codes_ok ?db"
    using inv by (fastforce simp: pay_inv_def codes_ok_def)
  moreover have "linked base ?db"
    using inv none by (auto simp: linked_def pay_inv_def c insert_order_get)
  moreover have "conserved base ?db" using inv by (simp add: pay_inv_parts c)
  moreover have "grants_ok ?db"
    by (rule grants_ok_evolves [OF _ ev]) (use inv in \<open>simp_all add: pay_inv_def grants_ok_def c\<close>)
  moreover have "rebates_ok ?db"
    by (rule rebates_ok_evolves [OF _ ev]) (use inv in \<open>simp_all add: pay_inv_def\<close>)
  moreover have "redeem_rebates_ok ?db"
    by (rule redeem_rebates_ok_evolves [OF _ ev]) (use inv in \<open>simp_all add: pay_inv_def\<close>)
  ultimately show ?thesis using ev by (simp add: good_def pay_inv_def)
qed

text \<open>A statement that leaves orders and their number alone keeps \<open>orders_ok\<close>, if it evolves.\<close>

lemma orders_ok_evolves:
  assumes "orders_ok db" and ev: "db_evolves db db'" and "pd_orders db' = pd_orders db"
    and "pd_nextOrder db' = pd_nextOrder db"
  shows "orders_ok db'"
  using assms(1) fulfilled_evolves [OF ev] accepted_evolves [OF ev] tables_cong(4) [OF assms(3)] assms(4)
  unfolding orders_ok_def by simp

lemma has_audit_insert:
  "has_audit (insert_audit i a row db) j b \<longleftrightarrow> has_audit db j b \<or> (j = i \<and> b = a)"
  by (auto simp: insert_audit_def has_audit_def gget_gput)

lemma insert_audit_fields [simp]:
  "pd_orders (insert_audit i a row db) = pd_orders db" "pd_nextOrder (insert_audit i a row db) = pd_nextOrder db"
  "pd_codes (insert_audit i a row db) = pd_codes db" "pd_nextCode (insert_audit i a row db) = pd_nextCode db"
  "pd_balance (insert_audit i a row db) = pd_balance db"
  "pd_grants (insert_audit i a row db) = pd_grants db" "pd_rebates (insert_audit i a row db) = pd_rebates db"
  "pd_redeem_rebates (insert_audit i a row db) = pd_redeem_rebates db"
  "pd_accepted (insert_audit i a row db) = pd_accepted db"
  by (simp_all add: insert_audit_def)

lemma insert_audit_evolves: "db_evolves db (insert_audit i a row db)"
proof -
  have "code_by_code (insert_audit i a row db) = code_by_code db" "get_order (insert_audit i a row db) = get_order db"
    by (rule tables_cong; simp)+
  then show ?thesis by (auto simp: db_evolves_def insert_audit_def has_audit_def gget_gput)
qed

lemma insert_audit_inv:
  assumes inv: "pay_inv base db"
  shows "orders_ok (insert_audit i a row db)" and "codes_ok (insert_audit i a row db)"
    and "linked base (insert_audit i a row db)" and "conserved base (insert_audit i a row db)"
proof -
  let ?db = "insert_audit i a row db"
  have c: "code_by_code ?db = code_by_code db" "credits ?db = credits db" "get_order ?db = get_order db"
    "accepted ?db = accepted db" "no_debit ?db = no_debit db"
    by (rule tables_cong; simp)+
  show "orders_ok ?db"
    by (rule orders_ok_evolves [OF _ insert_audit_evolves]) (use inv in \<open>simp_all add: pay_inv_def\<close>)
  show "codes_ok ?db" "linked base ?db" "conserved base ?db"
    using inv by (simp_all add: pay_inv_parts c)
qed

lemma write_audit_good:
  assumes inv: "pay_inv base db" and "a \<noteq> ''SUBSCRIPTION_ASSIGNED''"
    and "a = ''SUBSCRIPTION_SUCCESS'' \<Longrightarrow> has_audit db i ''SUBSCRIPTION_ASSIGNED''"
  shows "good base db (write_audit i a op db)"
proof -
  let ?db = "insert_audit i a (op, False) db"
  note ev = insert_audit_evolves [of db i a "(op, False)"]
  have "grants_ok ?db"
    by (rule grants_ok_evolves [OF _ ev]) (use inv assms(2,3) in \<open>auto simp: pay_inv_def grants_ok_def has_audit_insert\<close>)
  moreover have "rebates_ok ?db"
    by (rule rebates_ok_evolves [OF _ ev]) (use inv in \<open>simp_all add: pay_inv_def\<close>)
  moreover have "redeem_rebates_ok ?db"
    by (rule redeem_rebates_ok_evolves [OF _ ev]) (use inv in \<open>simp_all add: pay_inv_def\<close>)
  ultimately show ?thesis
    using insert_audit_inv [OF inv] ev by (simp add: good_def pay_inv_def write_audit_def)
qed

section \<open>Codes\<close>

text \<open>
  The order a request carries is a row of the table, at least in its fixed columns; and it is paid
  when a notification of its payment was accepted.
\<close>

definition known :: "pay_db \<Rightarrow> payment_order \<Rightarrow> bool" where
  "known db r \<longleftrightarrow> (\<exists>cur. get_order db (po_ID r) = Some cur \<and> fixed_columns cur = fixed_columns r)"

definition paid :: "pay_db \<Rightarrow> payment_order \<Rightarrow> bool" where
  "paid db r \<longleftrightarrow> known db r \<and> accepted db (po_ID r)"

text \<open>A fulfilment has taken the lease of the order.\<close>

definition leased :: "pay_db \<Rightarrow> payment_order \<Rightarrow> bool" where
  "leased db r \<longleftrightarrow> paid db r \<and> (\<exists>cur. get_order db (po_ID r) = Some cur \<and> stage (po_Status cur) = 2)"

lemma known_evolves: "db_evolves db db' \<Longrightarrow> known db r \<Longrightarrow> known db' r"
proof -
  assume e: "db_evolves db db'" and "known db r"
  then obtain cur where cur: "get_order db (po_ID r) = Some cur" "fixed_columns cur = fixed_columns r"
    by (auto simp: known_def)
  from db_evolves_order [OF e cur(1)] cur(2) show ?thesis by (auto simp: known_def order_evolves_def)
qed

lemma paid_evolves: "db_evolves db db' \<Longrightarrow> paid db r \<Longrightarrow> paid db' r"
  by (simp add: paid_def known_evolves accepted_evolves)

lemma leased_evolves: "db_evolves db db' \<Longrightarrow> leased db r \<Longrightarrow> leased db' r"
  by (simp add: leased_def paid_evolves stage_evolves)

lemma leased_paid: "leased db r \<Longrightarrow> paid db r"
  by (simp add: leased_def)

lemma paid_known: "paid db r \<Longrightarrow> known db r"
  by (simp add: paid_def)

lemma find_append_new: "find P xs = None \<Longrightarrow> find P (xs @ [x]) = (if P x then Some x else None)"
  by (induction xs) (auto split: if_splits)

lemma find_append_old: "find P xs = Some y \<Longrightarrow> find P (xs @ ys) = Some y"
  by (induction xs) (auto split: if_splits)

lemma code_by_code_insert:
  assumes "insert_code c db = Some db'"
  shows "code_by_code db' s =
    (if s = rdc_Code c then Some (c\<lparr>rdc_ID := pd_nextCode db\<rparr>) else code_by_code db s)"
proof -
  have n: "code_by_code db (rdc_Code c) = None" and db': "pd_codes db' = pd_codes db @ [c\<lparr>rdc_ID := pd_nextCode db\<rparr>]"
    using assms by (auto simp: insert_code_def split: if_splits)
  show ?thesis
  proof (cases "code_by_code db s")
    case None
    then show ?thesis by (simp add: code_by_code_def db' find_append_new)
  next
    case (Some x)
    with n show ?thesis by (auto simp: code_by_code_def db' find_append_old)
  qed
qed

lemma known_unique:
  assumes inv: "pay_inv base db" and "known db r" and "get_order db j = Some s" and "po_RechargeCode s = po_RechargeCode r"
  shows "j = po_ID r"
proof -
  obtain cur where "get_order db (po_ID r) = Some cur" "fixed_columns cur = fixed_columns r"
    using assms(2) by (auto simp: known_def)
  with assms(3,4) inv show ?thesis
    using same_recharge_code [of db j s "po_ID r" cur] by (simp add: fixed_columns_def pay_inv_def)
qed

lemma insert_code_good:
  assumes inv: "pay_inv base db" and l: "leased db r" and ins: "insert_code (order_code r) db = Some db'"
  shows "good base db db'"
proof -
  let ?c = "(order_code r)\<lparr>rdc_ID := pd_nextCode db\<rparr>"
  note by_code = code_by_code_insert [OF ins, unfolded order_code_def, simplified]
  note r = leased_paid [OF l]
  have new: "code_by_code db (po_RechargeCode r) = None"
    and db': "db' = db\<lparr>pd_codes := pd_codes db @ [?c], pd_nextCode := pd_nextCode db + 1\<rparr>"
    using ins by (auto simp: insert_code_def order_code_def split: if_splits)
  obtain cur where cur: "get_order db (po_ID r) = Some cur" "fixed_columns cur = fixed_columns r"
    using r by (auto simp: paid_def known_def)
  then have amount: "0 < po_Amount r" and code: "\<exists>t. po_RechargeCode r = recharge_code (po_ID r) t"
    and id: "0 \<le> po_ID r" "po_ID r < pd_nextOrder db"
    using inv_order(2-4,7) [OF inv cur(1)] cur(2) by (simp_all add: fixed_columns_def)
  have same: "get_order db' = get_order db" "pd_audit db' = pd_audit db" "pd_grants db' = pd_grants db"
    "pd_rebates db' = pd_rebates db" "pd_redeem_rebates db' = pd_redeem_rebates db" "accepted db' = accepted db"
    "pd_accepted db' = pd_accepted db"
    by (simp_all add: db' get_order_def accepted_def fun_eq_iff)
  have ev: "db_evolves db db'"
    using new by (auto simp: db_evolves_def by_code same)
  have "orders_ok db'"
    by (rule orders_ok_evolves [OF _ ev]) (use inv in \<open>simp_all add: pay_inv_def db'\<close>)
  moreover have "codes_ok db'"
  proof -
    have old: "codes_ok db" using inv by (simp add: pay_inv_def)
    have "po_RechargeCode r \<notin> rdc_Code ` set (pd_codes db)"
      using new by (auto simp: code_by_code_def find_None_iff)
    moreover have "pd_nextCode db \<notin> rdc_ID ` set (pd_codes db)" using old by (auto simp: codes_ok_def)
    moreover have "i < pd_nextOrder db" if "0 \<le> i" "po_RechargeCode r = recharge_code i t" for i t
      using code id that recharge_code_inject by metis
    ultimately show ?thesis
      using old amount by (auto simp: codes_ok_def db' order_code_def)
  qed
  moreover have "linked base db'"
    unfolding linked_def
  proof (intro allI impI)
    fix j s c assume s: "get_order db' j = Some s"
      and c: "code_by_code db' (po_RechargeCode s) = Some c"
    have s: "get_order db j = Some s" using s by (simp add: same)
    show "rdc_Type c = ''balance'' \<and> rdc_Value c = po_Amount s \<and> accepted db' j \<and> stage (po_Status s) = 2 \<and>
        (IsUsed c \<longrightarrow> (\<exists>u. rdc_UsedBy c = Some u \<and> (u = po_UserID s \<or> (u, rdc_Code c) \<in> og_asked base)))"
    proof (cases "po_RechargeCode s = po_RechargeCode r")
      case True
      then have "j = po_ID r" "s = cur" using known_unique [OF inv paid_known [OF r] s True] s cur(1) by simp_all
      with c True cur r l show ?thesis by (auto simp: by_code fixed_columns_def IsUsed_def paid_def same leased_def)
    next
      case False
      with c have "code_by_code db (po_RechargeCode s) = Some c" by (simp add: by_code)
      with s inv show ?thesis unfolding pay_inv_def linked_def same by blast
    qed
  qed
  moreover have "credits db' = credits db" "no_debit db' = no_debit db"
    by (simp_all add: fun_eq_iff credits_def no_debit_def db' credit_def order_code_def IsUsed_def)
  then have "conserved base db'" using inv by (simp add: pay_inv_parts db')
  moreover have "grants_ok db'"
    by (rule grants_ok_evolves [OF _ ev]) (use inv in \<open>simp_all add: pay_inv_def grants_ok_def db' has_audit_def\<close>)
  moreover have "rebates_ok db'"
    by (rule rebates_ok_evolves [OF _ ev]) (use inv in \<open>simp_all add: pay_inv_def db'\<close>)
  moreover have "redeem_rebates_ok db'"
    by (rule redeem_rebates_ok_evolves [OF _ ev]) (use inv in \<open>simp_all add: pay_inv_def db'\<close>)
  ultimately show ?thesis using ev by (simp add: good_def pay_inv_def)
qed

section \<open>Redeeming a code\<close>

definition mark_used :: "time \<Rightarrow> int \<Rightarrow> int \<Rightarrow> RedeemCode \<Rightarrow> RedeemCode" where
  "mark_used now i u x = (if rdc_ID x = i \<and> rdc_Status x = ''unused''
     then x\<lparr>rdc_Status := ''used'', rdc_UsedBy := Some u, rdc_UsedAt := Some now\<rparr> else x)"

lemma mark_used_fixed [simp]: "code_fixed (mark_used now i u x) = code_fixed x"
  by (simp add: mark_used_def code_fixed_def)

lemma mark_used_evolves: "code_evolves x (mark_used now i u x)"
  by (auto simp: code_evolves_def) (simp add: mark_used_def)

lemma find_map_same: "(\<And>x. P (f x) = P x) \<Longrightarrow> find P (map f xs) = map_option f (find P xs)"
  by (induction xs) auto

lemma sum_one_change:
  fixes g :: "'a \<Rightarrow> rat"
  assumes "distinct (map key xs)" and "x \<in> set xs" and "\<And>y. y \<in> set xs \<Longrightarrow> key y \<noteq> key x \<Longrightarrow> f y = y"
  shows "sum_list (map (\<lambda>y. g (f y)) xs) = sum_list (map g xs) + (g (f x) - g x)"
proof -
  obtain ys zs where xs: "xs = ys @ x # zs" using assms(2) by (meson split_list)
  have "f y = y" if "y \<in> set ys \<union> set zs" for y
  proof (rule assms(3))
    show "y \<in> set xs" using that by (auto simp: xs)
    have "key x \<notin> key ` (set ys \<union> set zs)" using assms(1) by (auto simp: xs)
    then show "key y \<noteq> key x" using that by (metis imageI)
  qed
  then have "map (\<lambda>y. g (f y)) ys = map g ys" "map (\<lambda>y. g (f y)) zs = map g zs" by simp_all
  then show ?thesis by (simp add: xs del: map_eq_conv)
qed

text \<open>The code a request holds is a row of the table, at least in its fixed columns.\<close>

definition known_code :: "pay_db \<Rightarrow> RedeemCode \<Rightarrow> bool" where
  "known_code db c \<longleftrightarrow> (\<exists>x. code_by_code db (rdc_Code c) = Some x \<and> code_fixed x = code_fixed c)"

lemma known_code_evolves: "db_evolves db db' \<Longrightarrow> known_code db c \<Longrightarrow> known_code db' c"
proof -
  assume e: "db_evolves db db'" and "known_code db c"
  then obtain x where x: "code_by_code db (rdc_Code c) = Some x" "code_fixed x = code_fixed c"
    by (auto simp: known_code_def)
  with e obtain x' where "code_by_code db' (rdc_Code c) = Some x'" "code_evolves x x'"
    unfolding db_evolves_def by blast
  with x show ?thesis by (auto simp: known_code_def code_evolves_def)
qed

lemma use_code_effect:
  assumes inv: "pay_inv base db" and c: "code_by_code db (rdc_Code c) = Some x" "code_fixed x = code_fixed c"
    and use: "use_code now (rdc_ID c) u db = Some db'"
  shows "db' = db\<lparr>pd_codes := map (mark_used now (rdc_ID c) u) (pd_codes db)\<rparr>"
    and "rdc_Status x = ''unused''" and "x \<in> set (pd_codes db)"
    and "credits db' v = credits db v + (if v = u \<and> rdc_Type c = ''balance'' then rdc_Value c else 0)"
    and "code_by_code db' s = map_option (mark_used now (rdc_ID c) u) (code_by_code db s)"
proof -
  show db': "db' = db\<lparr>pd_codes := map (mark_used now (rdc_ID c) u) (pd_codes db)\<rparr>"
    using use by (auto simp: use_code_def mark_used_def [abs_def] split: if_splits)
  show x: "x \<in> set (pd_codes db)" using code_in [OF c(1)] by simp
  have ids: "distinct (map rdc_ID (pd_codes db))" using inv by (simp add: pay_inv_parts)
  have id: "rdc_ID x = rdc_ID c" "rdc_Type x = rdc_Type c" "rdc_Value x = rdc_Value c"
    using c(2) by (simp_all add: code_fixed_def)
  obtain y where "y \<in> set (pd_codes db)" "rdc_ID y = rdc_ID c" "rdc_Status y = ''unused''"
    using use by (auto simp: use_code_def split: if_splits)
  moreover from this have "y = x" using ids x id(1) by (metis distinct_map inj_on_def)
  ultimately show un: "rdc_Status x = ''unused''" by simp
  have "credits db' v = credits db v + (credit v (mark_used now (rdc_ID c) u x) - credit v x)"
    unfolding credits_def db' by (simp add: comp_def, rule sum_one_change [OF ids x])
      (simp add: mark_used_def id)
  also have "credit v (mark_used now (rdc_ID c) u x) - credit v x =
      (if v = u \<and> rdc_Type c = ''balance'' then rdc_Value c else 0)"
    using un id by (auto simp: credit_def mark_used_def IsUsed_def)
  finally show "credits db' v = credits db v + (if v = u \<and> rdc_Type c = ''balance'' then rdc_Value c else 0)" .
  show "code_by_code db' s = map_option (mark_used now (rdc_ID c) u) (code_by_code db s)"
    unfolding code_by_code_def db' by (simp add: find_map_same mark_used_def)
qed

text \<open>A code that a redemption has marked for its user; nothing changes it any more.\<close>

definition used_by :: "pay_db \<Rightarrow> int \<Rightarrow> RedeemCode \<Rightarrow> bool" where
  "used_by db u c \<longleftrightarrow> (\<exists>y. code_by_code db (rdc_Code c) = Some y \<and> rdc_Status y = ''used'' \<and> rdc_UsedBy y = Some u \<and>
     code_fixed y = code_fixed c)"

lemma used_by_evolves: "db_evolves db db' \<Longrightarrow> used_by db u c \<Longrightarrow> used_by db' u c"
proof -
  assume e: "db_evolves db db'" and "used_by db u c"
  then obtain y where y: "code_by_code db (rdc_Code c) = Some y" "rdc_Status y = ''used''" "rdc_UsedBy y = Some u"
    "code_fixed y = code_fixed c" by (auto simp: used_by_def)
  with e obtain z where "code_by_code db' (rdc_Code c) = Some z" "code_evolves y z" unfolding db_evolves_def by blast
  with y show ?thesis by (auto simp: used_by_def code_evolves_def)
qed

text \<open>What the transaction does to the tables.\<close>

lemma redeem_tx_effect:
  assumes inv: "pay_inv base db" and x: "code_by_code db (rdc_Code c) = Some x" "code_fixed x = code_fixed c"
    and tx: "redeem_tx now u c db = Inr db'"
  shows "pd_orders db' = pd_orders db" and "pd_nextOrder db' = pd_nextOrder db" and "pd_nextCode db' = pd_nextCode db"
    and "pd_audit db' = pd_audit db" and "pd_grants db' = pd_grants db" and "pd_rebates db' = pd_rebates db"
    and "pd_redeem_rebates db' = pd_redeem_rebates db" and "pd_accepted db' = pd_accepted db"
    and "pd_codes db' = map (mark_used now (rdc_ID c) u) (pd_codes db)"
    and "code_by_code db' s = map_option (mark_used now (rdc_ID c) u) (code_by_code db s)"
    and "credits db' v = credits db v + (if v = u \<and> rdc_Type c = ''balance'' then rdc_Value c else 0)"
    and "rdc_Type c \<noteq> ''balance'' \<and> pd_balance db' = pd_balance db \<or> rdc_Type c = ''balance'' \<and>
      (\<exists>b. gget (pd_balance db) u = Some b \<and> pd_balance db' = gput (pd_balance db) u
         (if rdc_Value c < 0 then max (b + rdc_Value c) 0 else b + rdc_Value c))"
proof -
  obtain db1 where use: "use_code now (rdc_ID c) u db = Some db1"
    using tx by (auto simp: redeem_tx_def split: option.splits)
  note e = use_code_effect [OF inv x use]
  have bal: "db' = db1 \<and> rdc_Type c \<noteq> ''balance'' \<or> rdc_Type c = ''balance'' \<and>
      (\<exists>b. gget (pd_balance db) u = Some b \<and> db' = db1\<lparr>pd_balance := gput (pd_balance db) u
         (if rdc_Value c < 0 then max (b + rdc_Value c) 0 else b + rdc_Value c)\<rparr>)"
    using tx e(1) use
    by (auto simp: redeem_tx_def UpdateBalance_def ApplyRedeemBalanceAdjustment_def split: option.splits if_splits)
  show "pd_orders db' = pd_orders db" "pd_nextOrder db' = pd_nextOrder db" "pd_nextCode db' = pd_nextCode db"
    "pd_audit db' = pd_audit db" "pd_grants db' = pd_grants db" "pd_rebates db' = pd_rebates db"
    "pd_redeem_rebates db' = pd_redeem_rebates db" "pd_accepted db' = pd_accepted db"
    and codes: "pd_codes db' = map (mark_used now (rdc_ID c) u) (pd_codes db)"
    using bal by (auto simp: e(1))
  have codes1: "pd_codes db' = pd_codes db1" by (simp add: codes e(1))
  show "code_by_code db' s = map_option (mark_used now (rdc_ID c) u) (code_by_code db s)"
    using e(5) [of s] tables_cong(1) [OF codes1] by simp
  show "credits db' v = credits db v + (if v = u \<and> rdc_Type c = ''balance'' then rdc_Value c else 0)"
    using e(4) [of v] tables_cong(2) [OF codes1] by simp
  show "rdc_Type c \<noteq> ''balance'' \<and> pd_balance db' = pd_balance db \<or> rdc_Type c = ''balance'' \<and>
      (\<exists>b. gget (pd_balance db) u = Some b \<and> pd_balance db' = gput (pd_balance db) u
         (if rdc_Value c < 0 then max (b + rdc_Value c) 0 else b + rdc_Value c))"
    using bal by (auto simp: e(1))
qed

lemma mark_used_columns [simp]:
  "rdc_Code (mark_used now i u y) = rdc_Code y" "rdc_ID (mark_used now i u y) = rdc_ID y"
  "rdc_Type (mark_used now i u y) = rdc_Type y" "rdc_Value (mark_used now i u y) = rdc_Value y"
  by (simp_all add: mark_used_def)

lemma redeem_tx_conserved:
  assumes inv: "pay_inv base db" and x: "code_by_code db (rdc_Code c) = Some x" "code_fixed x = code_fixed c"
    and un: "rdc_Status x = ''unused''" and tx: "redeem_tx now u c db = Inr db'"
  shows "conserved base db'"
  unfolding conserved_def
proof
  fix v
  note e = redeem_tx_effect [OF inv x tx]
  have old: "balance_ok (og_balance base v) (credits db v) (no_debit db v) (gget (pd_balance db) v)"
    using inv by (simp add: pay_inv_parts)
  have fx: "rdc_ID x = rdc_ID c" "rdc_Type x = rdc_Type c" "rdc_Value x = rdc_Value c"
    using x(2) by (simp_all add: code_fixed_def)
  have "credit w y = 0 \<or> credit w (mark_used now (rdc_ID c) u y) = credit w y" for w y
    by (auto simp: mark_used_def credit_def IsUsed_def)
  then have before: "no_debit db w" if "no_debit db' w" for w
    using that unfolding no_debit_def e(9) by (metis image_eqI list.set_map order_refl)
  have debit: "0 \<le> rdc_Value c" if "no_debit db' u" "rdc_Type c = ''balance''"
  proof -
    have "mark_used now (rdc_ID c) u x \<in> set (pd_codes db')" using code_in [OF x(1)] by (simp add: e(9))
    with that(1) have "0 \<le> credit u (mark_used now (rdc_ID c) u x)" unfolding no_debit_def by blast
    with fx un that(2) show ?thesis by (simp add: credit_def mark_used_def IsUsed_def)
  qed
  from e(12) show "balance_ok (og_balance base v) (credits db' v) (no_debit db' v) (gget (pd_balance db') v)"
  proof (elim disjE conjE exE)
    assume "rdc_Type c \<noteq> ''balance''" and "pd_balance db' = pd_balance db"
    then show ?thesis using old before [of v] e(11) by (auto simp: balance_ok_def split: option.splits)
  next
    fix b assume b: "rdc_Type c = ''balance''" "gget (pd_balance db) u = Some b" "pd_balance db' = gput (pd_balance db) u
         (if rdc_Value c < 0 then max (b + rdc_Value c) 0 else b + rdc_Value c)"
    show ?thesis
    proof (cases "v = u")
      case True
      then show ?thesis using old before [of v] debit b e(11) [of v]
        by (auto simp: balance_ok_def gget_gput split: option.splits)
    next
      case False
      then show ?thesis using old before [of v] b e(11) [of v] by (auto simp: balance_ok_def gget_gput split: option.splits)
    qed
  qed
qed

lemma redeem_tx_good:
  assumes inv: "pay_inv base db" and k: "known_code db c"
    and owner: "\<And>i r. get_order db i = Some r \<Longrightarrow> po_RechargeCode r = rdc_Code c \<Longrightarrow>
      u = po_UserID r \<or> (u, rdc_Code c) \<in> og_asked base"
    and tx: "redeem_tx now u c db = Inr db'"
  shows "good base db db'" and "used_by db' u c"
proof -
  obtain x where x: "code_by_code db (rdc_Code c) = Some x" "code_fixed x = code_fixed c"
    using k by (auto simp: known_code_def)
  obtain db1 where use: "use_code now (rdc_ID c) u db = Some db1"
    using tx by (auto simp: redeem_tx_def split: option.splits)
  note un = use_code_effect(2,3) [OF inv x use]
  note e = redeem_tx_effect [OF inv x tx]
  have fx: "rdc_ID x = rdc_ID c" "rdc_Type x = rdc_Type c" "rdc_Value x = rdc_Value c" "rdc_Code x = rdc_Code c"
    using x(2) by (simp_all add: code_fixed_def)
  note same = tables_cong(4) [OF e(1)] tables_cong(3) [OF e(4)] tables_cong(5) [OF e(8)]
  have ev: "db_evolves db db'"
    using mark_used_evolves by (auto simp: db_evolves_def e(4-8,10) same)
  have "orders_ok db'"
    by (rule orders_ok_evolves [OF _ ev]) (use inv in \<open>simp_all add: pay_inv_def e(1,2)\<close>)
  moreover have "codes_ok db'"
    using inv by (simp add: pay_inv_def codes_ok_def e(2,3,9) comp_def)
  moreover have "linked base db'"
    unfolding linked_def same
  proof (intro allI impI)
    fix i r y assume r: "get_order db i = Some r" and "code_by_code db' (po_RechargeCode r) = Some y"
    then obtain z where z: "code_by_code db (po_RechargeCode r) = Some z" "y = mark_used now (rdc_ID c) u z"
      by (auto simp: e(10))
    have l: "rdc_Type z = ''balance'' \<and> rdc_Value z = po_Amount r \<and> accepted db i \<and> stage (po_Status r) = 2 \<and>
        (IsUsed z \<longrightarrow> (\<exists>u. rdc_UsedBy z = Some u \<and> (u = po_UserID r \<or> (u, rdc_Code z) \<in> og_asked base)))"
      using inv r z(1) unfolding pay_inv_def linked_def by blast
    have "u = po_UserID r \<or> (u, rdc_Code z) \<in> og_asked base" if "rdc_ID z = rdc_ID c"
    proof -
      have "z = x" using inv code_in [OF z(1)] un(2) that fx(1)
        unfolding pay_inv_def codes_ok_def by (metis distinct_map inj_on_def)
      with code_in [OF z(1)] fx(4) show ?thesis using owner [OF r] by simp
    qed
    with l show "rdc_Type y = ''balance'' \<and> rdc_Value y = po_Amount r \<and> accepted db i \<and> stage (po_Status r) = 2 \<and>
        (IsUsed y \<longrightarrow> (\<exists>u. rdc_UsedBy y = Some u \<and> (u = po_UserID r \<or> (u, rdc_Code y) \<in> og_asked base)))"
      by (auto simp: z(2) mark_used_def IsUsed_def)
  qed
  moreover have "conserved base db'" by (rule redeem_tx_conserved [OF inv x un(1) tx])
  moreover have "grants_ok db'"
    by (rule grants_ok_evolves [OF _ ev]) (use inv in \<open>simp_all add: pay_inv_def grants_ok_def e(5) same\<close>)
  moreover have "rebates_ok db'"
    by (rule rebates_ok_evolves [OF _ ev]) (use inv in \<open>simp_all add: pay_inv_def e(6)\<close>)
  moreover have "redeem_rebates_ok db'"
    by (rule redeem_rebates_ok_evolves [OF _ ev]) (use inv in \<open>simp_all add: pay_inv_def e(7)\<close>)
  ultimately show "good base db db'" using ev by (simp add: good_def pay_inv_def)
  show "used_by db' u c"
    using un(1) fx x by (simp add: used_by_def e(10) code_fixed_def mark_used_def)
qed

lemma accrue_redeem_good:
  assumes inv: "pay_inv base db" and u: "used_by db u c" and c: "rdc_Type c = ''balance''" "0 < rdc_Value c"
  shows "good base db (accrue_redeem inp u c db)"
proof -
  let ?db = "db\<lparr>pd_redeem_rebates := pd_redeem_rebates db @ [(rdc_Code c, u, rdc_Value c)]\<rparr>"
  have same: "code_by_code ?db = code_by_code db" "credits ?db = credits db" "has_audit ?db = has_audit db"
    "get_order ?db = get_order db" "accepted ?db = accepted db" "no_debit ?db = no_debit db"
    by (rule tables_cong; simp)+
  have ev: "db_evolves db ?db" by (simp add: db_evolves_def same)
  have "orders_ok ?db" by (rule orders_ok_evolves [OF _ ev]) (use inv in \<open>simp_all add: pay_inv_def\<close>)
  moreover have "codes_ok ?db" "linked base ?db" "conserved base ?db"
    using inv by (simp_all add: pay_inv_parts same)
  moreover have "grants_ok ?db"
    by (rule grants_ok_evolves [OF _ ev]) (use inv in \<open>simp_all add: pay_inv_def grants_ok_def same\<close>)
  moreover have "rebates_ok ?db"
    by (rule rebates_ok_evolves [OF _ ev]) (use inv in \<open>simp_all add: pay_inv_def\<close>)
  moreover have "redeem_rebates_ok ?db"
    using inv u c by (auto simp: pay_inv_def redeem_rebates_ok_def same used_by_def code_fixed_def)
  ultimately have "good base db ?db" using ev by (simp add: good_def pay_inv_def)
  then show ?thesis
    using good_took_effect [OF inv] good_refl [OF inv] by (auto simp: accrue_redeem_def split: option.split)
qed

lemma accept_good:
  assumes inv: "pay_inv base db"
  shows "good base db (accept i amount db)"
proof -
  let ?db = "accept i amount db"
  have f: "pd_codes ?db = pd_codes db" "pd_audit ?db = pd_audit db" "pd_orders ?db = pd_orders db"
    "pd_nextOrder ?db = pd_nextOrder db" "pd_nextCode ?db = pd_nextCode db" "pd_balance ?db = pd_balance db"
    "pd_grants ?db = pd_grants db" "pd_rebates ?db = pd_rebates db" "pd_redeem_rebates ?db = pd_redeem_rebates db"
    "pd_accepted ?db = pd_accepted db @ [(i, amount)]"
    by (simp_all add: accept_def)
  note same = tables_cong(1,2,6) [OF f(1)] tables_cong(3) [OF f(2)] tables_cong(4) [OF f(3)]
  have ev: "db_evolves db ?db" by (simp add: db_evolves_def same f)
  have acc: "accepted db j \<Longrightarrow> accepted ?db j" for j using accepted_evolves [OF ev] .
  have "orders_ok ?db" by (rule orders_ok_evolves [OF _ ev]) (use inv in \<open>simp_all add: pay_inv_def f\<close>)
  moreover have "codes_ok ?db" "conserved base ?db" using inv by (simp_all add: pay_inv_parts same f)
  moreover have "linked base ?db" using inv acc unfolding pay_inv_def linked_def same by blast
  moreover have "grants_ok ?db"
    by (rule grants_ok_evolves [OF _ ev]) (use inv in \<open>simp_all add: pay_inv_def grants_ok_def same f\<close>)
  moreover have "rebates_ok ?db"
    by (rule rebates_ok_evolves [OF _ ev]) (use inv in \<open>simp_all add: pay_inv_def f\<close>)
  moreover have "redeem_rebates_ok ?db"
    by (rule redeem_rebates_ok_evolves [OF _ ev]) (use inv in \<open>simp_all add: pay_inv_def f\<close>)
  ultimately show ?thesis using ev by (simp add: good_def pay_inv_def)
qed

lemma accept_accepted [simp]: "accepted (accept i amount db) j \<longleftrightarrow> accepted db j \<or> j = i"
  by (auto simp: accepted_def accept_def)

section \<open>Assigning a subscription, accruing a rebate\<close>

lemma known_order:
  assumes "pay_inv base db" and "known db r"
  shows "\<exists>cur. get_order db (po_ID r) = Some cur \<and> fixed_columns cur = fixed_columns r"
  using assms(2) by (simp add: known_def)

lemma gget_audit_insert:
  "\<not> has_audit db i a \<Longrightarrow> gget (pd_audit (insert_audit i a row db)) k =
     (if k = (i, a) then Some row else gget (pd_audit db) k)"
  by (simp add: insert_audit_def gget_gput)

lemma assign_tx_good:
  assumes inv: "pay_inv base db" and l: "leased db r" and ty: "po_OrderType r = ''subscription''"
    and g: "po_SubscriptionGroupID r \<noteq> None" "po_SubscriptionDays r \<noteq> None"
    and tx: "assign_tx r rec db = Some db'"
  shows "good base db db'" and "has_audit db' (po_ID r) ''SUBSCRIPTION_ASSIGNED''"
proof -
  let ?a = "''SUBSCRIPTION_ASSIGNED''" and ?g = "(po_ID r, po_UserID r, the (po_SubscriptionGroupID r), the (po_SubscriptionDays r))"
  let ?db = "insert_audit (po_ID r) ?a (''system'', rec) db"
  have none: "\<not> has_audit db (po_ID r) ?a"
    and db': "db' = (if rec then ?db else ?db\<lparr>pd_grants := pd_grants db @ [?g]\<rparr>)"
    using tx by (auto simp: assign_tx_def Let_def split: if_splits)
  obtain cur where cur: "get_order db (po_ID r) = Some cur" "fixed_columns cur = fixed_columns r" and acc: "accepted db (po_ID r)"
    using leased_paid [OF l] by (auto simp: paid_def known_def)
  have fields: "pd_orders db' = pd_orders ?db" "pd_codes db' = pd_codes ?db" "pd_audit db' = pd_audit ?db"
    "pd_nextOrder db' = pd_nextOrder ?db" "pd_nextCode db' = pd_nextCode ?db" "pd_balance db' = pd_balance ?db"
    "pd_rebates db' = pd_rebates ?db" "pd_grants db' = (if rec then pd_grants db else pd_grants db @ [?g])"
    "pd_redeem_rebates db' = pd_redeem_rebates ?db" "pd_accepted db' = pd_accepted ?db"
    by (simp_all add: db')
  have same_acc: "accepted db' = accepted db" "no_debit db' = no_debit db" by (rule tables_cong; simp add: fields)+
  have orders: "get_order db' = get_order db" using tables_cong(4) [of db' db] by (simp add: fields)
  have audit: "has_audit db' = has_audit ?db" by (rule tables_cong(3)) (rule fields)
  have rows: "gget (pd_audit db') x = (if x = (po_ID r, ?a) then Some (''system'', rec) else gget (pd_audit db) x)" for x
    using gget_audit_insert [OF none] by (simp add: fields)
  have codes: "code_by_code db' = code_by_code db" "credits db' = credits db"
    by (rule tables_cong; simp add: fields)+
  have absent: "gget (pd_audit db) (po_ID r, ?a) = None" using none unfolding has_audit_def by (rule notnotD)
  have ev: "db_evolves db db'"
    unfolding db_evolves_def orders codes fields using rows absent by (auto simp: fields(3) [symmetric])
  have "orders_ok db'"
    by (rule orders_ok_evolves [OF _ ev]) (use inv in \<open>simp_all add: pay_inv_def fields\<close>)
  moreover have "codes_ok db'" "linked base db'" "conserved base db'"
    using inv by (simp_all add: pay_inv_parts fields codes orders same_acc)
  moreover have "grants_ok db'"
  proof -
    have old: "grants_ok db" using inv by (simp add: pay_inv_def)
    have "po_ID r \<notin> fst ` set (pd_grants db)"
    proof
      assume "po_ID r \<in> fst ` set (pd_grants db)"
      then obtain x where "x \<in> set (pd_grants db)" "fst x = po_ID r" by auto
      with old have "has_audit db (po_ID r) ?a" unfolding grants_ok_def by metis
      with none show False by simp
    qed
    then have d: "distinct (map fst (pd_grants db'))" using old by (simp add: fields(8) grants_ok_def)
    have ex: "\<exists>s x d. get_order db (po_ID r) = Some s \<and> po_SubscriptionGroupID s = Some x \<and>
        po_SubscriptionDays s = Some d \<and> (po_ID r, po_UserID s, x, d) = ?g"
      using cur g by (auto simp: fixed_columns_def)
    have own: "(\<exists>s. get_order db (po_ID r) = Some s) \<and> rec \<or> (\<exists>s x d. get_order db (po_ID r) = Some s \<and>
        po_SubscriptionGroupID s = Some x \<and> po_SubscriptionDays s = Some d \<and> (po_ID r, po_UserID s, x, d) \<in> set (pd_grants db'))"
    proof (cases rec)
      case True
      with cur(1) show ?thesis by blast
    next
      case False
      then have "?g \<in> set (pd_grants db')" by (simp add: fields(8))
      with ex show ?thesis by metis
    qed
    have "(\<exists>s. get_order db i = Some s) \<and> snd row \<or> (\<exists>s x d. get_order db i = Some s \<and>
        po_SubscriptionGroupID s = Some x \<and> po_SubscriptionDays s = Some d \<and> (i, po_UserID s, x, d) \<in> set (pd_grants db'))"
      if row: "gget (pd_audit db') (i, ?a) = Some row" for i row
    proof (cases "i = po_ID r")
      case True
      then have "row = (''system'', rec)" using row by (simp add: rows)
      with own True show ?thesis by simp
    next
      case False
      then have "gget (pd_audit db) (i, ?a) = Some row" using row by (simp add: rows)
      then have "(\<exists>s. get_order db i = Some s) \<and> snd row \<or> (\<exists>s x d. get_order db i = Some s \<and>
        po_SubscriptionGroupID s = Some x \<and> po_SubscriptionDays s = Some d \<and> (i, po_UserID s, x, d) \<in> set (pd_grants db))"
        using old unfolding grants_ok_def by blast
      moreover have "set (pd_grants db) \<subseteq> set (pd_grants db')" by (auto simp: fields(8))
      ultimately show ?thesis by blast
    qed
    moreover have "grant_ok db' ?g" using cur g ty acc by (auto simp: grant_ok_def orders fixed_columns_def same_acc)
    then have "\<forall>x \<in> set (pd_grants db'). has_audit db' (fst x) ?a \<and> grant_ok db' x"
      using old grant_ok_evolves [OF ev] by (auto simp: fields(8) audit has_audit_insert grants_ok_def)
    moreover have "\<forall>i. has_audit db' i ''SUBSCRIPTION_SUCCESS'' \<longrightarrow> has_audit db' i ?a"
      using old by (auto simp: audit has_audit_insert grants_ok_def)
    moreover have "\<forall>i. has_audit db' i ?a \<longrightarrow> (\<exists>r. get_order db i = Some r \<and> stage (po_Status r) = 2)"
      using old l by (auto simp: audit has_audit_insert grants_ok_def leased_def)
    ultimately show ?thesis using d unfolding grants_ok_def orders by blast
  qed
  moreover have "rebates_ok db'"
    by (rule rebates_ok_evolves [OF _ ev]) (use inv in \<open>simp_all add: pay_inv_def fields\<close>)
  moreover have "redeem_rebates_ok db'"
    by (rule redeem_rebates_ok_evolves [OF _ ev]) (use inv in \<open>simp_all add: pay_inv_def fields\<close>)
  ultimately show "good base db db'" using ev by (simp add: good_def pay_inv_def)
  show "has_audit db' (po_ID r) ?a" by (simp add: audit has_audit_insert)
qed

lemma rebate_tx_good:
  assumes inv: "pay_inv base db" and k: "known db r" and f: "fulfilled db r" and amount: "0 < affiliateRebateBaseAmount r"
    and unclaimed: "\<not> rebate_claimed db (po_ID r)"
  shows "good base db (rebate_tx r amount db)"
proof (cases "amount \<le> 0")
  case True
  have "good base db (write_audit (po_ID r) ''AFFILIATE_REBATE_SKIPPED'' ''system'' db)"
    by (rule write_audit_good [OF inv]) simp_all
  with True show ?thesis by (simp add: rebate_tx_def)
next
  case False
  let ?a = "''AFFILIATE_REBATE_APPLIED''"
  let ?db = "write_audit (po_ID r) ?a ''system'' db" and ?x = "(po_ID r, po_UserID r, affiliateRebateBaseAmount r)"
  let ?db' = "rebate_tx r amount db"
  have db': "?db' = ?db\<lparr>pd_rebates := pd_rebates db @ [?x]\<rparr>"
    using False by (simp add: rebate_tx_def Let_def write_audit_def)
  have g: "good base db ?db" by (rule write_audit_good [OF inv]) simp_all
  have base: "affiliateRebateBaseAmount r = po_Amount r"
    using amount by (auto simp: affiliateRebateBaseAmount_def split: if_splits)
  obtain cur where cur: "get_order db (po_ID r) = Some cur" "fixed_columns cur = fixed_columns r"
    using k by (auto simp: known_def)
  have same: "get_order ?db' = get_order ?db" "code_by_code ?db' = code_by_code ?db" "has_audit ?db' = has_audit ?db"
    "credits ?db' = credits ?db" "accepted ?db' = accepted ?db" "no_debit ?db' = no_debit ?db"
    by (rule tables_cong; simp add: db')+
  have ord: "get_order ?db = get_order db" by (rule tables_cong) (simp add: write_audit_def)
  have rb: "pd_rebates ?db = pd_rebates db" by (simp add: write_audit_def)
  have ev: "db_evolves ?db ?db'" by (simp add: db_evolves_def same) (simp add: db' rb)
  have inv': "pay_inv base ?db" using g by (simp add: good_def)
  have ev0: "db_evolves db ?db'" using g ev db_evolves_trans by (auto simp: good_def)
  have ful: "fulfilled ?db' = fulfilled ?db" by (simp add: fun_eq_iff fulfilled_def used_code_def same)
  have "orders_ok ?db'"
    by (rule orders_ok_evolves [OF _ ev]) (use inv' in \<open>simp_all add: pay_inv_def db'\<close>)
  moreover have "codes_ok ?db'" "linked base ?db'" "conserved base ?db'"
    using inv' by (simp_all add: pay_inv_parts same) (simp_all add: db')
  moreover have "grants_ok ?db'"
    by (rule grants_ok_evolves [OF _ ev]) (use inv' in \<open>simp_all add: pay_inv_def grants_ok_def same\<close>, simp add: db' rb)
  moreover have "rebates_ok ?db'"
  proof -
    have old: "rebates_ok ?db" using inv' by (simp add: pay_inv_def)
    have "po_ID r \<notin> fst ` set (pd_rebates db)"
      using inv unclaimed by (auto simp: pay_inv_def rebates_ok_def rebate_claimed_def)
    moreover have "has_audit ?db' (po_ID r) ?a" by (simp add: same write_audit_def has_audit_insert)
    moreover have "fulfilled ?db' cur" using fulfilled_evolves [OF ev0 f] fulfilled_columns [OF cur(2)] by simp
    ultimately have "(\<forall>i u b. (i, u, b) \<in> set (pd_rebates ?db') \<longrightarrow> has_audit ?db' i ?a \<and>
        (\<exists>s. get_order ?db' i = Some s \<and> u = po_UserID s \<and> b = po_Amount s \<and> fulfilled ?db' s))"
      and "distinct (map fst (pd_rebates ?db'))"
      using old cur base unfolding rebates_ok_def ful same ord
      by (auto simp: db' rb fixed_columns_def)
    then show ?thesis by (simp add: rebates_ok_def)
  qed
  moreover have "redeem_rebates_ok ?db'"
    by (rule redeem_rebates_ok_evolves [OF _ ev]) (use inv' in \<open>simp_all add: pay_inv_def db'\<close>)
  ultimately show ?thesis using ev0 by (simp add: good_def pay_inv_def)
qed

end
