(* ===== verification/Payment_Exactly_Once.thy ===== *)
theory Payment_Exactly_Once
  imports Payment_Invariant
begin

text \<open>
  Payments under every interleaving and every fault: the code of an order, whose payment was
  accepted, is credited at most once, a subscription order extends a subscription at most once,
  an order completes only after that, and the balances of all users are what they were plus the
  codes they have used. What a request
  relies on between its statements (\<open>order_fact\<close>) can only become more true while others move,
  so \<open>order_step\<close> is an instance of \<open>stable_steps\<close>.
\<close>

section \<open>What a request relies on\<close>

definition used :: "pay_db \<Rightarrow> string \<Rightarrow> bool" where
  "used db s \<longleftrightarrow> (\<exists>c. code_by_code db s = Some c \<and> IsUsed c)"

text \<open>Who redeems: the owner of the order of a code, for its fulfilment, and users who ask for a code.\<close>

definition owner_ok :: "pay_origin \<Rightarrow> pay_db \<Rightarrow> int \<Rightarrow> string \<Rightarrow> bool" where
  "owner_ok base db u s \<longleftrightarrow> (u, s) \<in> og_asked base \<or>
     (\<exists>i r. get_order db i = Some r \<and> po_RechargeCode r = s \<and> po_UserID r = u)"

fun redeem_fact :: "pay_db \<Rightarrow> int \<Rightarrow> string \<Rightarrow> redeem_phase \<Rightarrow> bool" where
  "redeem_fact db u s (AtRedeem u' s') = (u' = u \<and> s' = s)"
| "redeem_fact db u s (AtRedeemUser u' c) = (u' = u \<and> rdc_Code c = s \<and> known_code db c)"
| "redeem_fact db u s (AtRedeemTx u' c) = (u' = u \<and> rdc_Code c = s \<and> known_code db c)"
| "redeem_fact db u s (AtRedeemAccrue u' c) = (u' = u \<and> rdc_Code c = s \<and> used_by db u c \<and>
     rdc_Type c = ''balance'' \<and> 0 < rdc_Value c)"
| "redeem_fact db u s (AtRedeemReload i) = used db s"
| "redeem_fact db u s (Redeemed res) = (res = None \<longrightarrow> used db s)"

definition sub_order :: "payment_order \<Rightarrow> bool" where
  "sub_order r \<longleftrightarrow> po_OrderType r = ''subscription'' \<and> po_SubscriptionGroupID r \<noteq> None \<and> po_SubscriptionDays r \<noteq> None"

definition log_ok :: "pay_db \<Rightarrow> int \<Rightarrow> string \<Rightarrow> bool" where
  "log_ok db i a \<longleftrightarrow> a \<noteq> ''SUBSCRIPTION_ASSIGNED'' \<and>
     (a = ''SUBSCRIPTION_SUCCESS'' \<longrightarrow> has_audit db i ''SUBSCRIPTION_ASSIGNED'')"

fun ful_fact :: "pay_db \<Rightarrow> ful_phase \<Rightarrow> bool" where
  "ful_fact db (AtToPaid r tradeNo amount pk) = accepted db (po_ID r)"
| "ful_fact db (AtAlready i) = accepted db i"
| "ful_fact db (AtExecute i) = accepted db i"
| "ful_fact db (AtBalance i) = (accepted db i \<and> (\<exists>r. get_order db i = Some r \<and> po_OrderType r \<noteq> ''subscription''))"
| "ful_fact db (AtSubscription i) = (accepted db i \<and> (\<exists>r. get_order db i = Some r \<and> po_OrderType r = ''subscription''))"
| "ful_fact db (AtAcquire sub r) = (paid db r \<and> (if sub then sub_order r else po_OrderType r \<noteq> ''subscription''))"
| "ful_fact db (AtAcquired sub r) = (leased db r \<and> (if sub then sub_order r else po_OrderType r \<noteq> ''subscription''))"
| "ful_fact db (AtRedeemLookup r lease) = (leased db r \<and> po_OrderType r \<noteq> ''subscription'')"
| "ful_fact db (AtCreateCode r lease) = (leased db r \<and> po_OrderType r \<noteq> ''subscription'')"
| "ful_fact db (AtRedeeming r lease q) = (leased db r \<and> po_OrderType r \<noteq> ''subscription'' \<and>
     redeem_fact db (po_UserID r) (po_RechargeCode r) q)"
| "ful_fact db (AtGroup r lease) = (leased db r \<and> sub_order r)"
| "ful_fact db (AtAssignCheck r lease) = (leased db r \<and> sub_order r)"
| "ful_fact db (AtAssignCommit r lease rec) = (leased db r \<and> sub_order r)"
| "ful_fact db (AtAssignConflict r lease) = (leased db r \<and> sub_order r)"
| "ful_fact db (AtAssigned r lease) = (leased db r \<and> sub_order r \<and> has_audit db (po_ID r) ''SUBSCRIPTION_ASSIGNED'')"
| "ful_fact db (AtRebate r lease action) = (paid db r \<and> fulfilled db r \<and> log_ok db (po_ID r) action)"
| "ful_fact db (AtComplete r lease action) = (paid db r \<and> fulfilled db r \<and> log_ok db (po_ID r) action)"
| "ful_fact db (AtHasAudit r action) = log_ok db (po_ID r) action"
| "ful_fact db (AtLog i rows p) = ((\<forall>x \<in> set rows. log_ok db i (fst x)) \<and> ful_fact db p)"
| "ful_fact db p = True"

fun order_fact :: "pay_origin \<Rightarrow> pay_db \<Rightarrow> order_phase \<Rightarrow> bool" where
  "order_fact base db (AtNotified p) = ful_fact db p"
| "order_fact base db (AtCheckNotify why r p) = ful_fact db p"
| "order_fact base db (AtCreate r) = (0 < po_Amount r)"
| "order_fact base db (AtRedeemCode q) = (\<exists>u s. owner_ok base db u s \<and> redeem_fact db u s q)"
| "order_fact base db p = True"

section \<open>The facts are stable\<close>

lemma used_evolves: "db_evolves db db' \<Longrightarrow> used db s \<Longrightarrow> used db' s"
proof -
  assume e: "db_evolves db db'" and "used db s"
  then obtain c where c: "code_by_code db s = Some c" "IsUsed c" by (auto simp: used_def)
  with e obtain c' where "code_by_code db' s = Some c'" "code_evolves c c'" unfolding db_evolves_def by blast
  with c show ?thesis by (auto simp: used_def code_evolves_def IsUsed_def)
qed

lemma used_by_used: "used_by db u c \<Longrightarrow> used db (rdc_Code c)"
  by (auto simp: used_by_def used_def IsUsed_def)

lemma owner_ok_evolves: "db_evolves db db' \<Longrightarrow> owner_ok base db u s \<Longrightarrow> owner_ok base db' u s"
  unfolding owner_ok_def
proof (elim disjE exE conjE)
  fix i r assume e: "db_evolves db db'" and r: "get_order db i = Some r" "po_RechargeCode r = s" "po_UserID r = u"
  from db_evolves_order [OF e r(1)] r show "(u, s) \<in> og_asked base \<or>
     (\<exists>i r. get_order db' i = Some r \<and> po_RechargeCode r = s \<and> po_UserID r = u)"
    by (auto simp: order_evolves_def fixed_columns_def)
qed blast

lemma redeem_fact_evolves: "db_evolves db db' \<Longrightarrow> redeem_fact db u s q \<Longrightarrow> redeem_fact db' u s q"
  by (cases q) (auto intro: used_evolves used_by_evolves known_code_evolves)

lemma log_ok_evolves: "db_evolves db db' \<Longrightarrow> log_ok db i a \<Longrightarrow> log_ok db' i a"
  by (auto simp: log_ok_def intro: has_audit_evolves)

lemma type_evolves:
  "db_evolves db db' \<Longrightarrow> \<exists>r. get_order db i = Some r \<and> P (po_OrderType r) \<Longrightarrow>
     \<exists>r. get_order db' i = Some r \<and> P (po_OrderType r)"
proof -
  assume e: "db_evolves db db'" and "\<exists>r. get_order db i = Some r \<and> P (po_OrderType r)"
  then obtain r where r: "get_order db i = Some r" "P (po_OrderType r)" by blast
  from db_evolves_order [OF e r(1)] r(2) show ?thesis by (auto simp: order_evolves_def fixed_columns_def)
qed

lemma ful_fact_evolves: "db_evolves db db' \<Longrightarrow> ful_fact db p \<Longrightarrow> ful_fact db' p"
proof (induction p)
  case (AtBalance i)
  then show ?case using type_evolves [where P = "\<lambda>t. t \<noteq> ''subscription''"] by (simp add: accepted_evolves)
next
  case (AtSubscription i)
  then show ?case using type_evolves [where P = "\<lambda>t. t = ''subscription''"] by (simp add: accepted_evolves)
qed (auto intro: accepted_evolves paid_evolves leased_evolves has_audit_evolves fulfilled_evolves log_ok_evolves redeem_fact_evolves split: if_splits)

lemma order_fact_evolves: "db_evolves db db' \<Longrightarrow> order_fact base db p \<Longrightarrow> order_fact base db' p"
  by (cases p) (auto intro: ful_fact_evolves owner_ok_evolves redeem_fact_evolves)

section \<open>A redemption\<close>

lemma owner_of_code:
  assumes "pay_inv base db" and "owner_ok base db u s" and "get_order db i = Some r" and "po_RechargeCode r = s"
  shows "u = po_UserID r \<or> (u, s) \<in> og_asked base"
  using assms(2) unfolding owner_ok_def
proof (elim disjE exE conjE)
  fix j x assume x: "get_order db j = Some x" "po_RechargeCode x = s" "po_UserID x = u"
  then have "j = i" using same_recharge_code [of db j x i r] assms by (simp add: pay_inv_def)
  with x assms(3) show ?thesis by simp
qed simp

lemma redeem_step_good:
  assumes inv: "pay_inv base db" and own: "owner_ok base db u s" and f: "redeem_fact db u s q"
  shows "good base db (snd (redeem_step env skip inp q db)) \<and>
    redeem_fact (snd (redeem_step env skip inp q db)) u s (fst (redeem_step env skip inp q db))"
proof (cases q)
  case (AtRedeem v c)
  then show ?thesis using f good_refl [OF inv] code_in [of db s]
    by (auto simp: known_code_def split: option.split)
next
  case (AtRedeemUser v c)
  then show ?thesis using f good_refl [OF inv] by simp
next
  case (AtRedeemTx v c)
  then have f': "v = u" "rdc_Code c = s" "known_code db c" using f by simp_all
  show ?thesis
  proof (cases "redeem_tx (pi_now inp) v c db")
    case (Inl e)
    then show ?thesis using good_refl [OF inv] by (simp add: AtRedeemTx)
  next
    case (Inr db')
    have o: "u = po_UserID r \<or> (u, rdc_Code c) \<in> og_asked base"
      if "get_order db i = Some r" "po_RechargeCode r = rdc_Code c" for i r
      using owner_of_code [OF inv own that(1)] that(2) f'(2) by simp
    note tx = Inr [unfolded f'(1)]
    have g: "good base db db'" "used_by db' u c"
      using redeem_tx_good [OF inv f'(3) _ tx] o by blast+
    show ?thesis using g used_by_used [OF g(2)] good_refl [OF inv] f'(2)
      by (simp add: AtRedeemTx f'(1) tx redeem_accrues_def)
  qed
next
  case (AtRedeemAccrue v c)
  then have f': "v = u" "rdc_Code c = s" "used_by db u c" "rdc_Type c = ''balance''" "0 < rdc_Value c" using f by simp_all
  note g = accrue_redeem_good [OF inv f'(3-5), of inp]
  then have "used (accrue_redeem inp u c db) s"
    using used_by_used [OF f'(3)] f'(2) by (auto simp: good_def intro: used_evolves)
  with g show ?thesis by (simp add: AtRedeemAccrue f'(1))
next
  case (AtRedeemReload i)
  then show ?thesis using f good_refl [OF inv] by simp
next
  case (Redeemed res)
  then show ?thesis using f good_refl [OF inv] by simp
qed

section \<open>A fulfilment\<close>

definition kept :: "pay_origin \<Rightarrow> pay_db \<Rightarrow> ful_phase \<times> pay_db \<Rightarrow> bool" where
  "kept base db c \<longleftrightarrow> good base db (snd c) \<and> ful_fact (snd c) (fst c)"

lemma kept_same [simp]: "pay_inv base db \<Longrightarrow> kept base db (p, db) = ful_fact db p"
  by (simp add: kept_def good_refl)

lemma kept_move: "good base db db' \<Longrightarrow> ful_fact db' p \<Longrightarrow> kept base db (p, db')"
  by (simp add: kept_def)

lemma fail_fact [simp]: "ful_fact db (fail_with r lease e)"
  by (simp add: fail_with_def)

lemma logging_fact [simp]:
  "ful_fact db (logging i rows p) = ((\<forall>x \<in> set rows. log_ok db i (fst x)) \<and> ful_fact db p)"
  by (simp add: logging_def)

lemma log_ok_other: "a \<noteq> ''SUBSCRIPTION_ASSIGNED'' \<Longrightarrow> a \<noteq> ''SUBSCRIPTION_SUCCESS'' \<Longrightarrow> log_ok db i a"
  by (simp add: log_ok_def)

lemma confirm_actions:
  "case confirm_checks env r k n pk of Inl (a, e) \<Rightarrow> log_ok db i a | Inr _ \<Rightarrow> True"
  unfolding confirm_checks_def Let_def
  by (split if_split option.split go_float.split | intro conjI impI allI | simp add: log_ok_other)+

lemma confirm_action: "confirm_checks env r k n pk = Inl (a, e) \<Longrightarrow> log_ok db i a"
  using confirm_actions [of db i env r k n pk] by simp

lemma row_paid:
  assumes "pay_inv base db" and "get_order db i = Some r" and "accepted db i"
  shows "paid db r"
  using inv_order(1) [OF assms(1,2)] assms(2,3) by (simp add: paid_def known_def)

lemma read_order_some: "read_order inp db i = Some r \<Longrightarrow> get_order db i = Some r"
  by (simp add: read_order_def split: if_splits)

lemma recharge_code_trimmed [simp]: "trim_space (recharge_code i t) = recharge_code i t"
proof -
  obtain s b where s: "show_nat (nat (t mod 100000)) = s @ [b]"
    using show_nat_facts by (metis rev_exhaust)
  have d: "is_digit b" using show_nat_facts [of "nat (t mod 100000)"] by (simp add: s)
  have "b \<notin> set (concat space_runes)" "CHR ''P'' \<notin> set (concat space_runes)"
    using d by (auto simp: space_runes_def is_digit_def less_eq_char_def)
  note bare = trim_space_bare [OF this(2,1)]
  have "\<not> t mod 100000 < 0" using pos_mod_sign [of 100000 t] by linarith
  then have "recharge_code i t = CHR ''P'' # (''AY-'' @ show_int i @ ''-'' @ s) @ [b]"
    by (simp add: recharge_code_def show_int_def [of "t mod 100000"] s)
  then show ?thesis by (simp only: bare)
qed

lemma paid_code:
  assumes "pay_inv base db" and "paid db r"
  shows "\<exists>t. po_RechargeCode r = recharge_code (po_ID r) t" and "0 < po_Amount r"
proof -
  obtain cur where "get_order db (po_ID r) = Some cur" "fixed_columns cur = fixed_columns r" using assms(2) by (auto simp: paid_def known_def)
  with inv_order(4,7) [OF assms(1), of "po_ID r" cur]
  show "\<exists>t. po_RechargeCode r = recharge_code (po_ID r) t" and "0 < po_Amount r" by (simp_all add: fixed_columns_def)
qed

lemma create_code_good:
  assumes inv: "pay_inv base db" and r: "leased db r" and c: "CreateCode (order_code r) now db = Inr db'"
  shows "good base db db'"
proof -
  obtain t where t: "po_RechargeCode r = recharge_code (po_ID r) t" using paid_code [OF inv leased_paid [OF r]] by blast
  have "trim_space (rdc_Code (order_code r)) = rdc_Code (order_code r)" by (simp add: order_code_def t)
  then have "insert_code (order_code r) db = Some db'"
    using c by (auto simp: CreateCode_def Let_def order_code_def split: if_splits option.splits)
  from insert_code_good [OF inv r this] show ?thesis .
qed

lemma run_update_kept:
  assumes "pay_inv base db" and "good base db (fst (stmt db))"
    and "\<And>f n. ful_fact (took_effect f db (fst (stmt db))) (k n)"
  shows "kept base db (case run_update inp stmt db of (db', c) \<Rightarrow> (k c, db'))"
  using good_took_effect [OF assms(1,2), of "pi_fault inp"] assms(3)
  by (simp add: run_update_def case_prod_beta Let_def kept_def)

lemma owner_of_order:
  assumes inv: "pay_inv base db" and r: "paid db r"
  shows "owner_ok base db (po_UserID r) (po_RechargeCode r)"
proof -
  obtain cur where "get_order db (po_ID r) = Some cur" "fixed_columns cur = fixed_columns r" using r by (auto simp: paid_def known_def)
  then show ?thesis unfolding owner_ok_def by (auto simp: fixed_columns_def)
qed

lemma claim_hit:
  assumes "snd (claim_lease now i db) \<noteq> 0"
  shows "\<exists>cur. get_order (fst (claim_lease now i db)) i = Some cur \<and> stage (po_Status cur) = 2"
proof -
  obtain r where r: "get_order db i = Some r"
    and "snd (claim_lease now i db) = 1" "get_order (fst (claim_lease now i db)) i =
      Some (r\<lparr>po_Status := OrderStatusRecharging, po_UpdatedAt := truncate_micro now, po_FailedAt := None\<rparr>)"
    using assms by (auto simp: claim_lease_def update_order_def Let_def get_order_def gget_gput split: option.splits if_splits)
  then show ?thesis by (simp add: stage_def open_status_def)
qed

lemma assigned_audit: "pay_inv base db \<Longrightarrow> subscription_assigned db i \<Longrightarrow> has_audit db i ''SUBSCRIPTION_ASSIGNED''"
  by (auto simp: pay_inv_def grants_ok_def subscription_assigned_def)

lemma used_fulfilled: "po_OrderType r \<noteq> ''subscription'' \<Longrightarrow> used db (po_RechargeCode r) \<Longrightarrow> fulfilled db r"
  by (simp add: fulfilled_def used_code_def used_def)

lemma sub_fulfilled: "sub_order r \<Longrightarrow> has_audit db (po_ID r) ''SUBSCRIPTION_ASSIGNED'' \<Longrightarrow> fulfilled db r"
  by (simp add: fulfilled_def sub_order_def)

text \<open>From the notification to the lease.\<close>

lemma front_kept:
  assumes inv: "pay_inv base db" and f: "ful_fact db p"
    and p: "(\<exists>n k. p = AtLookup n k) \<or> (\<exists>i n k. p = AtConfirm i n k) \<or> (\<exists>r t a k. p = AtToPaid r t a k) \<or>
      (\<exists>i. p = AtAlready i) \<or> (\<exists>i. p = AtExecute i) \<or> (\<exists>i. p = AtBalance i) \<or> (\<exists>i. p = AtSubscription i)"
  shows "kept base db (ful_step env inp p db)"
  using p
proof (elim disjE exE)
  fix n k assume "p = AtLookup n k"
  then show ?thesis using inv by (simp split: list.split option.split)
next
  fix i n k assume "p = AtConfirm i n k"
  then show ?thesis using inv accept_good [OF inv]
    by (auto simp: kept_def good_refl intro: confirm_action split: option.split sum.split)
next
  fix r t a k assume p: "p = AtToPaid r t a k"
  then have a: "accepted db (po_ID r)" using f by simp
  note g = run_update_good [of base db "mark_paid (pi_now inp) (po_ID r) t a" inp, OF inv mark_paid_good [OF inv a]]
  then have "accepted (fst (run_update inp (mark_paid (pi_now inp) (po_ID r) t a) db)) (po_ID r)"
    using a by (auto simp: good_def intro: accepted_evolves)
  with g show ?thesis by (auto simp: p Let_def kept_def case_prod_beta log_ok_other split: option.split)
next
  fix i assume "p = AtAlready i"
  then show ?thesis using inv f by (simp add: log_ok_other split: option.split)
next
  fix i assume "p = AtExecute i"
  then show ?thesis using inv f by (auto split: option.split dest: read_order_some)
next
  fix i assume "p = AtBalance i"
  then show ?thesis using inv f by (auto split: option.split dest!: read_order_some intro: row_paid)
next
  fix i assume "p = AtSubscription i"
  then show ?thesis using inv f
    by (auto simp: sub_order_def split: option.split dest!: read_order_some intro: row_paid)
qed

text \<open>Under the lease.\<close>

lemma lease_kept:
  assumes inv: "pay_inv base db" and f: "ful_fact db p"
    and p: "(\<exists>s r. p = AtAcquire s r) \<or> (\<exists>r. p = AtAcquireFailed r) \<or> (\<exists>s r. p = AtAcquired s r) \<or>
      (\<exists>r l. p = AtRedeemLookup r l) \<or> (\<exists>r l. p = AtCreateCode r l) \<or> (\<exists>r l q. p = AtRedeeming r l q)"
  shows "kept base db (ful_step env inp p db)"
  using p
proof (elim disjE exE)
  fix s r assume p: "p = AtAcquire s r"
  note g = run_update_good [of base db "claim_lease (pi_now inp) (po_ID r)" inp, OF inv claim_good [OF inv]]
  let ?u = "run_update inp (claim_lease (pi_now inp) (po_ID r)) db"
  have "paid (fst ?u) r" using f g by (auto simp: p good_def intro: paid_evolves)
  moreover have "\<exists>cur. get_order (fst ?u) (po_ID r) = Some cur \<and> stage (po_Status cur) = 2" if "snd ?u = Some (Suc n)" for n
    using that claim_hit [of "pi_now inp" "po_ID r" db] by (auto simp: run_update_def case_prod_beta Let_def split: if_splits)
  ultimately have "ful_fact (fst ?u) (AtAcquired s r)" if "snd ?u = Some (Suc n)" for n
    using f that by (auto simp: p leased_def)
  then show ?thesis using g by (auto simp: p kept_def Let_def case_prod_beta split: option.split dest: gr0_implies_Suc)
next
  fix r assume "p = AtAcquireFailed r"
  then show ?thesis using inv by (simp split: option.split)
next
  fix s r assume "p = AtAcquired s r"
  then show ?thesis using inv f by (simp split: option.split)
next
  fix r l assume "p = AtRedeemLookup r l"
  then show ?thesis using inv f
    by (auto simp: resolveRedeemAction_def used_def log_ok_other leased_paid intro!: used_fulfilled split: option.split)
next
  fix r l assume p: "p = AtCreateCode r l"
  show ?thesis
  proof (cases "CreateCode (order_code r) (pi_now inp) db")
    case (Inl e)
    then show ?thesis using inv by (simp add: p)
  next
    case (Inr db')
    have r: "leased db r" "po_OrderType r \<noteq> ''subscription''" using f by (simp_all add: p)
    note g = create_code_good [OF inv r(1) Inr]
    then have "leased db' r" using r(1) by (auto simp: good_def intro: leased_evolves)
    with r g good_took_effect [OF inv, of db'] show ?thesis by (simp add: p Inr kept_def)
  qed
next
  fix r l q assume p: "p = AtRedeeming r l q"
  then have r: "leased db r" "po_OrderType r \<noteq> ''subscription''" "redeem_fact db (po_UserID r) (po_RechargeCode r) q"
    using f by simp_all
  note g = redeem_step_good [OF inv owner_of_order [OF inv leased_paid [OF r(1)]] r(3), of env True inp]
  have "leased (snd (redeem_step env True inp q db)) r" using r(1) g by (auto simp: good_def intro: leased_evolves)
  with r g inv show ?thesis
    by (cases q) (auto simp: p kept_def case_prod_beta Let_def log_ok_other good_refl leased_paid intro: used_fulfilled split: option.split)
qed

text \<open>The subscription, the rebate and the completion.\<close>

lemma assign_kept:
  assumes inv: "pay_inv base db" and f: "ful_fact db p"
    and p: "(\<exists>r l. p = AtGroup r l) \<or> (\<exists>r l. p = AtAssignCheck r l) \<or> (\<exists>r l b. p = AtAssignCommit r l b) \<or>
      (\<exists>r l. p = AtAssignConflict r l) \<or> (\<exists>r l. p = AtAssigned r l)"
  shows "kept base db (ful_step env inp p db)"
  using p
proof (elim disjE exE)
  fix r l assume "p = AtGroup r l"
  then show ?thesis using inv f by simp
next
  fix r l assume "p = AtAssignCheck r l"
  then show ?thesis using inv f by (auto intro: assigned_audit split: note_lookup.split)
next
  fix r l b assume p: "p = AtAssignCommit r l b"
  show ?thesis
  proof (cases "assign_tx r b db")
    case None
    then show ?thesis using inv f by (simp add: p)
  next
    case (Some db')
    have r: "leased db r" "sub_order r" using f by (simp_all add: p)
    then have "po_SubscriptionGroupID r \<noteq> None" "po_SubscriptionDays r \<noteq> None" by (simp_all add: sub_order_def)
    note ids = this
    have "po_OrderType r = ''subscription''" using r(2) by (simp add: sub_order_def)
    note g = assign_tx_good [OF inv r(1) this ids Some]
    then have "leased db' r" using r(1) by (auto simp: good_def intro: leased_evolves)
    with r g good_took_effect [OF inv, of db'] show ?thesis by (simp add: p Some kept_def)
  qed
next
  fix r l assume "p = AtAssignConflict r l"
  then show ?thesis using inv f by (auto intro: assigned_audit)
next
  fix r l assume "p = AtAssigned r l"
  then show ?thesis using inv f by (auto intro: sub_fulfilled leased_paid simp: log_ok_def)
qed

lemma rebate_kept:
  assumes inv: "pay_inv base db" and r: "paid db r" "fulfilled db r" "log_ok db (po_ID r) action"
  shows "kept base db (ful_step env inp (AtRebate r l action) db)"
proof -
  let ?db = "\<lambda>a. rebate_tx r a db"
  have "good base db (?db a)" if "0 < affiliateRebateBaseAmount r" "\<not> rebate_claimed db (po_ID r)" for a
    by (rule rebate_tx_good [OF inv paid_known [OF r(1)] r(2) that])
  moreover have "paid (?db a) r \<and> fulfilled (?db a) r \<and> log_ok (?db a) (po_ID r) action" if "good base db (?db a)" for a
    using that r by (auto simp: good_def intro: paid_evolves fulfilled_evolves log_ok_evolves)
  ultimately show ?thesis using inv r good_took_effect [OF inv]
    by (auto simp: Let_def kept_def log_ok_other good_refl not_le split: option.split)
qed

lemma complete_kept:
  assumes inv: "pay_inv base db" and r: "paid db r" "fulfilled db r" "log_ok db (po_ID r) action"
  shows "kept base db (ful_step env inp (AtComplete r l action) db)"
proof -
  have "fulfilled db cur" if "get_order db (po_ID r) = Some cur" for cur
  proof -
    from that r(1) have "fixed_columns cur = fixed_columns r" by (auto simp: paid_def known_def)
    with r(2) show ?thesis using fulfilled_columns by blast
  qed
  note c = complete_good [OF inv this]
  note g = run_update_good [of base db "complete_order (pi_now inp) (po_ID r) l" inp, OF inv c]
  have "log_ok (fst (run_update inp (complete_order (pi_now inp) (po_ID r) l) db)) (po_ID r) action"
    using r(3) g by (auto simp: good_def intro: log_ok_evolves)
  with g show ?thesis by (auto simp: kept_def Let_def case_prod_beta split: option.split)
qed

lemma last_kept:
  assumes inv: "pay_inv base db" and f: "ful_fact db p"
    and p: "(\<exists>r l. p = AtCompleteLost r l) \<or> (\<exists>r a. p = AtHasAudit r a) \<or> (\<exists>i l e. p = AtMarkFailed i l e) \<or>
      (\<exists>i rows q. p = AtLog i rows q) \<or> (\<exists>res. p = Done res)"
  shows "kept base db (ful_step env inp p db)"
  using p
proof (elim disjE exE)
  fix r l assume "p = AtCompleteLost r l"
  then show ?thesis using inv by (simp split: option.split)
next
  fix r a assume "p = AtHasAudit r a"
  then show ?thesis using inv f by (simp split: option.split)
next
  fix i l e assume "p = AtMarkFailed i l e"
  then show ?thesis using run_update_good [of base db "fail_order (pi_now inp) i l" inp, OF inv fail_good [OF inv]]
    by (auto simp: kept_def Let_def case_prod_beta log_ok_other split: option.split nat.split)
next
  fix i rows q assume p: "p = AtLog i rows q"
  show ?thesis
  proof (cases rows)
    case Nil
    then show ?thesis using inv f by (simp add: p)
  next
    case (Cons x rest)
    obtain a u where x: "x = (a, u)" by (cases x)
    have a: "log_ok db i a" using f by (simp add: p Cons x)
    then have "good base db (write_audit i a u db)" by (intro write_audit_good [OF inv]) (simp_all add: log_ok_def)
    note g = good_took_effect [OF inv this, of "pi_fault inp"]
    then have e: "db_evolves db (took_effect (pi_fault inp) db (write_audit i a u db))" by (simp add: good_def)
    have "ful_fact (took_effect (pi_fault inp) db (write_audit i a u db)) q"
      using f by (auto simp: p intro: ful_fact_evolves [OF e])
    moreover have "\<forall>y \<in> set rest. log_ok (took_effect (pi_fault inp) db (write_audit i a u db)) i (fst y)"
      using f by (auto simp: p Cons intro: log_ok_evolves [OF e])
    ultimately show ?thesis using g by (simp add: p Cons x kept_def)
  qed
next
  fix res assume "p = Done res"
  then show ?thesis using inv by simp
qed

lemma ful_step_kept: "pay_inv base db \<Longrightarrow> ful_fact db p \<Longrightarrow> kept base db (ful_step env inp p db)"
proof (cases p)
  case (AtRebate r l a)
  assume "pay_inv base db" and "ful_fact db p"
  then show ?thesis using rebate_kept [of base db r a] by (simp only: AtRebate ful_fact.simps)
next
  case (AtComplete r l a)
  assume "pay_inv base db" and "ful_fact db p"
  then show ?thesis using complete_kept [of base db r a] by (simp only: AtComplete ful_fact.simps)
qed (blast intro: front_kept lease_kept assign_kept last_kept)+

lemma retry_kept: "pay_inv base db \<Longrightarrow> kept base db (RetryFulfillment inp i db)"
  using inv_order(5) [of base db i] by (auto simp: RetryFulfillment_def log_ok_other dest: read_order_some split: option.split)

section \<open>Every step\<close>

lemma next_expiry_fact [simp]: "order_fact base db (next_expiry rs n)"
  by (cases rs) (simp_all add: cancelCore_def)

lemma next_wxpay_fact [simp]: "order_fact base db (next_wxpay rs n)"
  by (cases rs) simp_all

lemma after_fact [simp]: "order_fact base db (after_cancel why res)" "order_fact base db (after_check why r b)"
  by (cases why; simp)+

lemma paid_reply_fact [simp]: "order_fact base db (paid_reply why r k q t a m)"
  by (simp add: paid_reply_def)

definition sound :: "pay_origin \<Rightarrow> pay_db \<Rightarrow> order_phase \<times> pay_db \<Rightarrow> bool" where
  "sound base db c \<longleftrightarrow> good base db (snd c) \<and> order_fact base (snd c) (fst c)"

lemma sound_same [simp]: "pay_inv base db \<Longrightarrow> sound base db (p, db) = order_fact base db p"
  by (simp add: sound_def good_refl)

lemma order_step_sound:
  assumes inv: "pay_inv base db" and f: "order_fact base db p"
  shows "sound base db (order_step env inp p db)"
proof (cases p)
  case (AtNotified q)
  with f have "kept base db (ful_step env inp q db)" by (intro ful_step_kept [OF inv]) simp
  then show ?thesis using inv by (cases q) (simp_all add: AtNotified sound_def kept_def case_prod_beta Let_def good_refl)
next
  case (AtCheckNotify why r q)
  with f have "kept base db (ful_step env inp q db)" by (intro ful_step_kept [OF inv]) simp
  then show ?thesis using inv by (cases q) (simp_all add: AtCheckNotify sound_def kept_def case_prod_beta Let_def good_refl)
next
  case (AtRetry i)
  then show ?thesis using retry_kept [OF inv, of inp i] by (simp add: sound_def kept_def case_prod_beta Let_def)
next
  case (AtCreate r)
  then show ?thesis
    using f good_took_effect [OF inv insert_order_good [OF inv]] insert_order_good [OF inv] by (simp add: sound_def)
next
  case (AtSaveProvider i user t k)
  then show ?thesis
    using run_update_good [of base db "save_provider (pi_now inp) i t k" inp, OF inv save_provider_good [OF inv]]
    by (simp add: sound_def Let_def case_prod_beta)
next
  case (AtCreatedLog i user)
  then show ?thesis
    using good_took_effect [OF inv write_audit_good [OF inv, of "''ORDER_CREATED''"]] by (simp add: sound_def)
next
  case (AtCreateFailed i e)
  then show ?thesis
    using run_update_good [of base db "fail_creation (pi_now inp) i" inp, OF inv fail_creation_good [OF inv]]
    by (simp add: sound_def)
next
  case (AtInvoke i user)
  then show ?thesis using inv by (auto simp: invokeProvider_def split: option.split prod.split provider_reply.split)
next
  case (AtRedeemCode q)
  with f obtain u s where us: "owner_ok base db u s" "redeem_fact db u s q" by auto
  note g = redeem_step_good [OF inv us, of env False inp]
  then have "owner_ok base (snd (redeem_step env False inp q db)) u s" using us(1) by (auto simp: good_def intro: owner_ok_evolves)
  with g inv show ?thesis
    by (cases q) (auto simp: AtRedeemCode sound_def case_prod_beta Let_def good_refl simp del: redeem_step.simps)
next
  case (AtInvalidLog why r key)
  then show ?thesis
    using good_took_effect [OF inv write_audit_good [OF inv, of "''PAYMENT_INVALID_AMOUNT''"]] by (simp add: sound_def)
next
  case (AtPersist why r key u a m)
  then show ?thesis
    using run_update_good [of base db "persist_trade_no (pi_now inp) (po_ID r) u" inp, OF inv persist_good [OF inv]]
    by (simp add: sound_def)
next
  case (AtClose why r)
  have "close_status why \<in> {OrderStatusCancelled, OrderStatusExpired}" by (cases why) (simp_all add: close_status_def)
  note g = run_update_good [of base db "close_order (pi_now inp) (po_ID r) (close_status why)" inp, OF inv close_good [OF inv this]]
  then show ?thesis by (auto simp: AtClose sound_def Let_def case_prod_beta split: option.split)
next
  case (AtCloseLog why r)
  have "fst (close_audit why) \<noteq> ''SUBSCRIPTION_ASSIGNED'' \<and> fst (close_audit why) \<noteq> ''SUBSCRIPTION_SUCCESS''"
    by (cases why) (simp_all add: close_audit_def)
  then have "good base db (write_audit (po_ID r) (fst (close_audit why)) (snd (close_audit why)) db)"
    by (intro write_audit_good [OF inv]) simp_all
  note g = good_took_effect [OF inv this]
  then show ?thesis by (simp add: AtCloseLog sound_def)
qed (use inv in \<open>auto simp: cancelCore_def Let_def split: option.split provider_reply.split prod.split list.split\<close>)

end
