(* ===== verification/Payment_Runs.thy ===== *)
theory Payment_Runs
  imports Payment_Exactly_Once
begin

text \<open>
  Runs of payment requests: how requests start, that every run keeps the invariant of the tables
  and lets them evolve (the interpretations of \<open>stable_steps\<close> on \<open>order_step\<close>), that a completed
  order whose creation has returned stays completed, and that requests return (\<open>ranked_steps\<close>).
\<close>

section \<open>Runs of requests\<close>

text \<open>The tables before the first order: codes and users may exist, but no code has the form of an order's code.\<close>

definition fresh_db :: "pay_db \<Rightarrow> bool" where
  "fresh_db db \<longleftrightarrow> pd_orders db = [] \<and> 0 \<le> pd_nextOrder db \<and> pd_audit db = [] \<and> pd_grants db = [] \<and> pd_rebates db = [] \<and>
     pd_redeem_rebates db = [] \<and> pd_accepted db = [] \<and>
     distinct (map rdc_Code (pd_codes db)) \<and> distinct (map rdc_ID (pd_codes db)) \<and>
     list_all (\<lambda>c. rdc_ID c < pd_nextCode db \<and> \<not> starts_with (rdc_Code c) ''PAY-'') (pd_codes db)"

text \<open>How requests start. Users redeem any code they know, that of an order too.\<close>

fun entry :: "order_phase \<Rightarrow> bool" where
  "entry (AtNotified (AtLookup n pk)) = True"
| "entry (AtRetry i) = True"
| "entry (AtCancel i u) = True"
| "entry (AtVerify raw u) = True"
| "entry AtExpireQuery = True"
| "entry AtWxpayQuery = True"
| "entry (AtCreate r) = (0 < po_Amount r)"
| "entry (AtRedeemCode (AtRedeem u s)) = True"
| "entry (Finished res) = True"
| "entry p = False"

definition pay_run :: "pay_env \<Rightarrow> (nat \<times> pay_input) list \<Rightarrow> (nat \<Rightarrow> order_phase) \<Rightarrow> pay_db \<Rightarrow> pay_db" where
  "pay_run env sched ph db = snd (interleave (order_step env) sched (ph, db))"

definition pay_phases ::
  "pay_env \<Rightarrow> (nat \<times> pay_input) list \<Rightarrow> (nat \<Rightarrow> order_phase) \<Rightarrow> pay_db \<Rightarrow> nat \<Rightarrow> order_phase" where
  "pay_phases env sched ph db = fst (interleave (order_step env) sched (ph, db))"

definition asks :: "(nat \<Rightarrow> order_phase) \<Rightarrow> int \<Rightarrow> string \<Rightarrow> bool" where
  "asks ph u s \<longleftrightarrow> (\<exists>w. ph w = AtRedeemCode (AtRedeem u s))"

definition start_of :: "(nat \<Rightarrow> order_phase) \<Rightarrow> pay_db \<Rightarrow> pay_origin" where
  "start_of ph db = \<lparr>og_balance = (\<lambda>u. map_option (\<lambda>b. b - credits db u) (gget (pd_balance db) u)),
     og_asked = {(u, s). asks ph u s}\<rparr>"

lemma recharge_code_prefix: "starts_with (recharge_code i t) ''PAY-''"
  by (simp add: starts_with_iff recharge_code_def)

lemma start_inv: "fresh_db db \<Longrightarrow> pay_inv (start_of ph db) db"
proof -
  assume f: "fresh_db db"
  then have none: "get_order db i = None" "has_audit db i a = False" "gget (pd_audit db) k = None" for i a k
    by (simp_all add: fresh_db_def get_order_def has_audit_def gget_def)
  have "codes_ok db" using f recharge_code_prefix by (fastforce simp: codes_ok_def fresh_db_def list_all_iff)
  moreover have "conserved (start_of ph db) db"
    by (simp add: conserved_def start_of_def balance_ok_def split: option.split)
  ultimately show ?thesis using f none
    by (simp add: pay_inv_def orders_ok_def linked_def grants_ok_def rebates_ok_def redeem_rebates_ok_def fresh_db_def)
qed

lemma entry_fact:
  assumes "entry (ph w)"
  shows "order_fact (start_of ph db) db' (ph w)"
proof (cases "ph w")
  case (AtRedeemCode q)
  with assms obtain u s where q: "q = AtRedeem u s" by (cases q) simp_all
  then have "owner_ok (start_of ph db) db' u s" using AtRedeemCode by (auto simp: owner_ok_def start_of_def asks_def)
  with q show ?thesis by (auto simp: AtRedeemCode)
next
  case (AtNotified q)
  with assms show ?thesis by (cases q) (simp_all add: AtNotified)
qed (use assms in simp_all)

interpretation pay: stable_steps "order_step env" "pay_inv base" db_evolves "order_fact base" for env base
proof unfold_locales
  fix s p inp assume "pay_inv base s" and "order_fact base s p"
  from order_step_sound [OF this, of env inp]
  show "pay_inv base (snd (order_step env inp p s))" and "db_evolves s (snd (order_step env inp p s))"
    and "order_fact base (snd (order_step env inp p s)) (fst (order_step env inp p s))"
    by (simp_all add: sound_def good_def)
qed (auto intro: db_evolves_trans order_fact_evolves)

lemma pay_run_facts:
  assumes "fresh_db db" and "\<And>w. entry (ph w)"
  shows "pay_inv (start_of ph db) (pay_run env sched ph db)"
    and "order_fact (start_of ph db) (pay_run env sched ph db) (pay_phases env sched ph db w)"
proof -
  have "pay_inv (start_of ph db) (snd (ph, db))" and "\<And>w. order_fact (start_of ph db) (snd (ph, db)) (fst (ph, db) w)"
    using start_inv [OF assms(1)] entry_fact assms(2) by simp_all
  note start = this
  show "pay_inv (start_of ph db) (pay_run env sched ph db)"
    and "order_fact (start_of ph db) (pay_run env sched ph db) (pay_phases env sched ph db w)"
    using pay.runs(1,3) [OF start, of env sched] by (simp_all add: pay_run_def pay_phases_def)
qed

lemma code_of_member:
  assumes "distinct (map rdc_Code (pd_codes db))" and "c \<in> set (pd_codes db)"
  shows "code_by_code db (rdc_Code c) = Some c"
proof -
  obtain x where x: "code_by_code db (rdc_Code c) = Some x"
    using assms(2) by (cases "code_by_code db (rdc_Code c)") (auto simp: code_by_code_def find_None_iff)
  from code_in [OF x] assms have "x = c" by (metis distinct_map inj_onD)
  with x show ?thesis by simp
qed

lemma balance_ok_shift:
  "balance_ok old x exact new \<Longrightarrow> old = map_option (\<lambda>b. b - y) b0 \<Longrightarrow> balance_ok b0 (x - y) exact new"
  by (cases b0) (auto simp: balance_ok_def algebra_simps)

lemma used_member: "used_code db r \<Longrightarrow> \<exists>c \<in> set (pd_codes db). rdc_Code c = po_RechargeCode r \<and> IsUsed c"
  by (auto simp: used_code_def dest!: code_in)

section \<open>Orders move forward\<close>

text \<open>The order whose creation a request still has to finish, after its insertion.\<close>

fun creating :: "order_phase \<Rightarrow> int option" where
  "creating (AtInvoke i user) = Some i"
| "creating (AtSaveProvider i user tradeNo key) = Some i"
| "creating (AtCreatedLog i user) = Some i"
| "creating (AtCreateFailed i e) = Some i"
| "creating p = None"

definition stays_completed :: "int \<Rightarrow> pay_db \<Rightarrow> pay_db \<Rightarrow> bool" where
  "stays_completed i db db' \<longleftrightarrow> (\<forall>r. get_order db i = Some r \<longrightarrow> po_Status r = OrderStatusCompleted \<longrightarrow>
     (\<exists>s. get_order db' i = Some s \<and> po_Status s = OrderStatusCompleted))"

lemma stays_refl [simp]: "stays_completed i db db"
  by (simp add: stays_completed_def)

lemma stays_trans: "stays_completed i a b \<Longrightarrow> stays_completed i b c \<Longrightarrow> stays_completed i a c"
  by (fastforce simp: stays_completed_def)

lemma stays_took: "stays_completed i db db' \<Longrightarrow> stays_completed i db (took_effect f db db')"
  by (rule took_effect_cases) auto

lemma stays_same: "pd_orders db' = pd_orders db \<Longrightarrow> stays_completed i db db'"
  by (simp add: stays_completed_def get_order_def)

lemma stays_update:
  assumes "\<And>r. i = j \<Longrightarrow> cond r \<Longrightarrow> po_Status r = OrderStatusCompleted \<Longrightarrow> po_Status (f r) = OrderStatusCompleted"
  shows "stays_completed i db (fst (update_order j cond f db))"
  using assms by (auto simp: stays_completed_def get_order_update)

lemma stays_run_update:
  "stays_completed i db (fst (stmt db)) \<Longrightarrow> stays_completed i db (fst (run_update inp stmt db))"
  by (simp add: run_update_def case_prod_beta Let_def stays_took)

lemma stays_statements:
  "stays_completed i db (fst (mark_paid now j t a db))" "stays_completed i db (fst (claim_lease now j db))"
  "stays_completed i db (fst (complete_order now j v db))" "stays_completed i db (fst (fail_order now j v db))"
  "stays_completed i db (fst (close_order now j fs db))" "stays_completed i db (fst (persist_trade_no now j t db))"
  "stays_completed i db (fst (save_provider now j t k db))"
  "i \<noteq> j \<Longrightarrow> stays_completed i db (fst (fail_creation now j db))"
  by (auto simp: mark_paid_def claim_lease_def complete_order_def fail_order_def close_order_def persist_trade_no_def
      save_provider_def fail_creation_def Let_def intro!: stays_update)

lemma stays_stmt:
  "stays_completed i db (fst (run_update inp (mark_paid now j t a) db))"
  "stays_completed i db (fst (run_update inp (claim_lease now j) db))"
  "stays_completed i db (fst (run_update inp (complete_order now j v) db))"
  "stays_completed i db (fst (run_update inp (fail_order now j v) db))"
  "stays_completed i db (fst (run_update inp (close_order now j fs) db))"
  "stays_completed i db (fst (run_update inp (persist_trade_no now j t) db))"
  "stays_completed i db (fst (run_update inp (save_provider now j t k) db))"
  "i \<noteq> j \<Longrightarrow> stays_completed i db (fst (run_update inp (fail_creation now j) db))"
  by (rule stays_run_update, simp add: stays_statements)+

lemma took_same: "pd_orders db' = pd_orders db \<Longrightarrow> pd_orders (took_effect f db db') = pd_orders db"
  by (rule took_effect_cases) auto

lemma redeem_tx_orders: "redeem_tx now u c db = Inr db' \<Longrightarrow> pd_orders db' = pd_orders db"
  by (auto simp: redeem_tx_def use_code_def UpdateBalance_def ApplyRedeemBalanceAdjustment_def split: option.splits if_splits)

lemma redeem_step_orders: "pd_orders (snd (redeem_step env skip inp q db)) = pd_orders db"
proof (cases q)
  case (AtRedeemTx u c)
  then show ?thesis using redeem_tx_orders by (auto split: sum.split)
next
  case (AtRedeemAccrue u c)
  then show ?thesis by (auto simp: accrue_redeem_def took_same split: option.split)
qed (auto split: option.split)

lemma create_code_orders: "CreateCode c now db = Inr db' \<Longrightarrow> pd_orders db' = pd_orders db"
  by (auto simp: CreateCode_def Let_def insert_code_def split: if_splits option.splits)

lemma assign_tx_orders: "assign_tx r b db = Some db' \<Longrightarrow> pd_orders db' = pd_orders db"
  by (auto simp: assign_tx_def Let_def split: if_splits)

lemma other_statements [simp]:
  "pd_orders (write_audit i a op db) = pd_orders db" "pd_orders (rebate_tx r amount db) = pd_orders db"
  "pd_orders (accept i amount db) = pd_orders db"
  by (simp_all add: write_audit_def rebate_tx_def accept_def Let_def)

lemma ful_step_stays: "stays_completed i db (snd (ful_step env inp p db))"
proof (cases p)
  case (AtRedeeming r l q)
  then show ?thesis using redeem_step_orders [of env True inp q db]
    by (cases q) (auto intro!: stays_same simp: case_prod_beta Let_def simp del: redeem_step.simps split: option.split)
next
  case (AtCreateCode r l)
  then show ?thesis using create_code_orders
    by (auto intro!: stays_same stays_took split: sum.split)
next
  case (AtAssignCommit r l b)
  then show ?thesis using assign_tx_orders by (auto intro!: stays_same stays_took split: option.split)
next
  case (AtLog j rows q)
  then show ?thesis by (auto intro!: stays_same stays_took split: list.split)
qed (auto simp: case_prod_beta Let_def stays_stmt took_same intro!: stays_took stays_same
    split: option.split sum.split list.split note_lookup.split redeemAction.split nat.split)

lemma next_creating [simp]: "creating (next_expiry rs n) = None" "creating (next_wxpay rs n) = None"
  by (cases rs; simp add: cancelCore_def)+

lemma after_creating [simp]: "creating (after_cancel why res) = None" "creating (after_check why r b) = None"
  "creating (paid_reply why r k q t a m) = None"
  by (cases why; simp add: paid_reply_def)+

lemma order_step_stays:
  assumes inv: "pay_inv base db" and ex: "get_order db i = Some x" and p: "creating p \<noteq> Some i"
  shows "stays_completed i db (snd (order_step env inp p db)) \<and> creating (fst (order_step env inp p db)) \<noteq> Some i"
proof (cases p)
  case (AtNotified q)
  then show ?thesis using ful_step_stays [of i db env inp q]
    by (cases q) (simp_all add: case_prod_beta Let_def del: ful_step.simps)
next
  case (AtCheckNotify why r q)
  then show ?thesis using ful_step_stays [of i db env inp q]
    by (cases q) (simp_all add: case_prod_beta Let_def del: ful_step.simps)
next
  case (AtRetry j)
  then show ?thesis by (simp add: RetryFulfillment_def case_prod_beta Let_def split: option.split)
next
  case (AtCreate r)
  have "i \<noteq> pd_nextOrder db" using inv_order(3) [OF inv ex] by simp
  then have "stays_completed i db (insert_order (pi_now inp) r db)"
    by (simp add: stays_completed_def insert_order_get)
  with \<open>i \<noteq> pd_nextOrder db\<close> show ?thesis by (auto simp: AtCreate intro: stays_took)
next
  case (AtRedeemCode q)
  then show ?thesis using redeem_step_orders [of env False inp q db]
    by (cases q) (auto intro!: stays_same simp: case_prod_beta Let_def simp del: redeem_step.simps)
next
  case (AtInvoke j user)
  with p show ?thesis by (auto simp: invokeProvider_def split: option.split prod.split provider_reply.split)
next
  case (AtSaveProvider j user t k)
  with p show ?thesis by (auto simp: case_prod_beta Let_def stays_stmt)
next
  case (AtCreateFailed j e)
  with p show ?thesis by (auto simp: stays_stmt)
next
  case (AtCreatedLog j user)
  then show ?thesis by (auto simp: took_same intro!: stays_same)
qed (auto simp: cancelCore_def case_prod_beta Let_def stays_stmt took_same intro!: stays_took stays_same
    split: option.split prod.split provider_reply.split list.split)

interpretation settled: stable_steps "order_step env" "pay_inv base"
  "\<lambda>a b. db_evolves a b \<and> stays_completed i a b"
  "\<lambda>db p. order_fact base db p \<and> (\<exists>x. get_order db i = Some x) \<and> creating p \<noteq> Some i" for env base i
proof unfold_locales
  fix s p inp
  assume inv: "pay_inv base s" and f: "order_fact base s p \<and> (\<exists>x. get_order s i = Some x) \<and> creating p \<noteq> Some i"
  then obtain x where x: "get_order s i = Some x" by blast
  have g: "pay_inv base (snd (order_step env inp p s))" "db_evolves s (snd (order_step env inp p s))"
    "order_fact base (snd (order_step env inp p s)) (fst (order_step env inp p s))"
    using order_step_sound [OF inv, of p env inp] f by (simp_all add: sound_def good_def)
  note st = order_step_stays [OF inv x, of p env inp]
  show "pay_inv base (snd (order_step env inp p s))" by (rule g(1))
  show "db_evolves s (snd (order_step env inp p s)) \<and> stays_completed i s (snd (order_step env inp p s))"
    using g(2) st f by blast
  show "order_fact base (snd (order_step env inp p s)) (fst (order_step env inp p s)) \<and>
      (\<exists>x. get_order (snd (order_step env inp p s)) i = Some x) \<and> creating (fst (order_step env inp p s)) \<noteq> Some i"
    using g(3) st f db_evolves_order [OF g(2) x] by blast
qed (auto intro: db_evolves_trans stays_trans order_fact_evolves dest: db_evolves_order)

section \<open>Requests return\<close>

fun redeem_rank :: "redeem_phase \<Rightarrow> nat" where
  "redeem_rank (AtRedeem u s) = 5"
| "redeem_rank (AtRedeemUser u c) = 4"
| "redeem_rank (AtRedeemTx u c) = 3"
| "redeem_rank (AtRedeemAccrue u c) = 2"
| "redeem_rank (AtRedeemReload i) = 1"
| "redeem_rank (Redeemed res) = 0"

fun ful_rank :: "ful_phase \<Rightarrow> nat" where
  "ful_rank (AtLookup n pk) = 22"
| "ful_rank (AtConfirm i n pk) = 21"
| "ful_rank (AtToPaid r t a pk) = 20"
| "ful_rank (AtAlready i) = 18"
| "ful_rank (AtExecute i) = 17"
| "ful_rank (AtBalance i) = 16"
| "ful_rank (AtSubscription i) = 16"
| "ful_rank (AtAcquire sub r) = 15"
| "ful_rank (AtAcquireFailed r) = 1"
| "ful_rank (AtAcquired sub r) = 14"
| "ful_rank (AtRedeemLookup r l) = 13"
| "ful_rank (AtCreateCode r l) = 12"
| "ful_rank (AtRedeeming r l q) = 6 + redeem_rank q"
| "ful_rank (AtGroup r l) = 10"
| "ful_rank (AtAssignCheck r l) = 9"
| "ful_rank (AtAssignCommit r l b) = 8"
| "ful_rank (AtAssignConflict r l) = 7"
| "ful_rank (AtAssigned r l) = 6"
| "ful_rank (AtRebate r l a) = 5"
| "ful_rank (AtComplete r l a) = 4"
| "ful_rank (AtCompleteLost r l) = 3"
| "ful_rank (AtHasAudit r a) = 2"
| "ful_rank (AtMarkFailed i l e) = 2"
| "ful_rank (AtLog i rows q) = max 1 (length rows) + ful_rank q"
| "ful_rank (Done res) = 0"

text \<open>The orders a sweep still has to do after the present one.\<close>

fun to_do :: "purpose \<Rightarrow> nat" where
  "to_do (ForExpiry rest n) = 29 * length rest"
| "to_do (ForWxpay rest n) = 29 * length rest"
| "to_do why = 0"

text \<open>A bound on the steps until a request returns. The size of the expiry sweep is not known before it starts.\<close>

fun order_rank :: "order_phase \<Rightarrow> nat" where
  "order_rank (AtNotified p) = 1 + ful_rank p"
| "order_rank (AtRetry i) = 20"
| "order_rank (AtCancel i u) = 30"
| "order_rank (AtVerify raw u) = 30"
| "order_rank AtExpireQuery = 0"
| "order_rank AtWxpayQuery = 581"
| "order_rank (AtCreate r) = 4"
| "order_rank (AtInvoke i user) = 3"
| "order_rank (AtSaveProvider i user t k) = 2"
| "order_rank (AtCreatedLog i user) = 1"
| "order_rank (AtCreateFailed i e) = 1"
| "order_rank (AtRedeemCode q) = 1 + redeem_rank q"
| "order_rank (AtCheckPaid why r) = 29 + to_do why"
| "order_rank (AtInvalidLog why r k) = 28 + to_do why"
| "order_rank (AtRequery why r k q) = 27 + to_do why"
| "order_rank (AtPersist why r k t a m) = 26 + to_do why"
| "order_rank (AtCheckNotify why r p) = 3 + ful_rank p + to_do why"
| "order_rank (AtClose why r) = 2 + to_do why"
| "order_rank (AtCloseLog why r) = 1 + to_do why"
| "order_rank (AtReload i) = 1"
| "order_rank (Finished res) = 0"

lemma redeem_step_rank: "redeem_rank (fst (redeem_step env skip inp q db)) \<le> redeem_rank q - 1"
  by (cases q) (auto split: option.split sum.split)

lemma logging_rank [simp]: "ful_rank (logging i rows q) = length rows + ful_rank q"
  by (cases rows) (simp_all add: logging_def)

lemma fail_rank [simp]: "ful_rank (fail_with r l e) = 2"
  by (simp add: fail_with_def)

lemma redeeming_rank:
  "ful_rank (fst (ful_step env inp (AtRedeeming r l q) db)) \<le> ful_rank (AtRedeeming r l q) - 1"
  using redeem_step_rank [of env True inp q db]
  by (cases q) (auto simp: case_prod_beta Let_def simp del: redeem_step.simps split: option.split)

lemma ful_step_rank: "ful_rank (fst (ful_step env inp p db)) \<le> ful_rank p - 1"
proof (cases p)
  case (AtRedeeming r l q)
  then show ?thesis using redeeming_rank by simp
next
  case (AtLog i rows q)
  then show ?thesis by (cases rows) (auto simp: case_prod_beta)
qed (auto simp: Let_def case_prod_beta split: option.split sum.split list.split nat.split note_lookup.split redeemAction.split)

lemma next_ranks [simp]:
  "order_rank (next_expiry rs n) \<le> 29 * length rs" "order_rank (next_wxpay rs n) \<le> 29 * length rs"
  by (cases rs; simp add: cancelCore_def)+

lemma after_cancel_rank: "order_rank (after_cancel why res) \<le> to_do why"
  by (cases why) (simp_all del: next_expiry.simps)

lemma after_check_rank: "order_rank (after_check why r b) \<le> 2 + to_do why"
  using after_cancel_rank [of why "Inr ''already_paid''"]
  by (cases why) (auto simp del: next_expiry.simps next_wxpay.simps after_cancel.simps intro: order_trans [OF next_ranks(2)])

lemma paid_reply_rank: "order_rank (paid_reply why r k q t a m) \<le> 26 + to_do why"
  by (simp add: paid_reply_def)

lemmas after_ranks = after_check_rank [THEN order_trans] after_cancel_rank [THEN order_trans] paid_reply_rank [THEN order_trans]

lemma notified_rank: "order_rank (fst (order_step env inp (AtNotified q) db)) \<le> order_rank (AtNotified q) - 1"
  using ful_step_rank [of env inp q db]
  by (cases q) (auto simp: case_prod_beta Let_def simp del: ful_step.simps)

lemma check_notify_rank:
  "order_rank (fst (order_step env inp (AtCheckNotify why r q) db)) \<le> order_rank (AtCheckNotify why r q) - 1"
  using ful_step_rank [of env inp q db] after_check_rank [of why r True]
  by (cases q) (auto simp: case_prod_beta Let_def simp del: ful_step.simps)

lemma order_step_rank: "p \<noteq> AtExpireQuery \<Longrightarrow> order_rank (fst (order_step env inp p db)) \<le> order_rank p - 1"
proof (cases p)
  case (AtNotified q)
  then show ?thesis using notified_rank by simp
next
  case (AtCheckNotify why r q)
  then show ?thesis using check_notify_rank by simp
next
  case (AtRetry i)
  then show ?thesis by (simp add: RetryFulfillment_def case_prod_beta Let_def split: option.split)
next
  case (AtRedeemCode q)
  then show ?thesis using redeem_step_rank [of env False inp q db]
    by (cases q) (auto simp: case_prod_beta Let_def simp del: redeem_step.simps)
next
  case AtWxpayQuery
  have "length (wxpay_orders (pi_now inp) db) \<le> 20" by (simp add: wxpay_orders_def)
  then have "order_rank (next_wxpay (wxpay_orders (pi_now inp) db) 0) \<le> 580"
    using next_ranks(2) [of "wxpay_orders (pi_now inp) db" 0] by linarith
  then show ?thesis by (simp add: AtWxpayQuery)
next
  case (AtCancel i u)
  then show ?thesis by (simp add: cancelCore_def split: option.split)
next
  case (AtVerify raw u)
  then show ?thesis by (simp split: option.split list.split)
next
  case (AtCheckPaid why r)
  then show ?thesis
    by (auto simp: Let_def split: option.split provider_reply.split intro!: after_ranks)
next
  case (AtRequery why r k q)
  then show ?thesis by (auto split: option.split provider_reply.split intro!: after_ranks)
next
  case (AtClose why r)
  then show ?thesis by (auto simp: Let_def case_prod_beta split: option.split intro!: after_ranks)
next
  case (AtInvoke i user)
  then show ?thesis by (simp add: invokeProvider_def split: option.split prod.split provider_reply.split)
next
  case (AtSaveProvider i user t k)
  then show ?thesis by (simp add: Let_def case_prod_beta)
next
  case (AtCloseLog why r)
  then show ?thesis using after_cancel_rank by simp
qed (simp_all split: option.split)

lemma next_never_query: "next_expiry rs n \<noteq> AtExpireQuery" "next_wxpay rs n \<noteq> AtExpireQuery"
  by (cases rs; simp add: cancelCore_def)+

lemma order_step_bounded: "p \<noteq> AtExpireQuery \<Longrightarrow> fst (order_step env inp p db) \<noteq> AtExpireQuery"
proof -
  note nexts = next_never_query
  have cancels: "after_cancel why res \<noteq> AtExpireQuery" for why res
    using nexts(1) by (cases why) (simp_all del: next_expiry.simps)
  have checks: "after_check why r b \<noteq> AtExpireQuery" for why r b
    using nexts cancels by (cases why) (simp_all del: next_expiry.simps next_wxpay.simps after_cancel.simps)
  have replies: "paid_reply why r k q t a m \<noteq> AtExpireQuery" for why r k q t a m
    by (simp add: paid_reply_def)
  assume "p \<noteq> AtExpireQuery"
  then show ?thesis
  proof (cases p)
    case (AtNotified q)
    then show ?thesis by (cases q) (simp_all add: case_prod_beta Let_def del: ful_step.simps)
  next
    case (AtCheckNotify why r q)
    then show ?thesis using checks by (cases q) (simp_all add: case_prod_beta Let_def del: ful_step.simps)
  next
    case (AtRedeemCode q)
    then show ?thesis by (cases q) (simp_all add: case_prod_beta Let_def del: redeem_step.simps)
  next
    case (AtInvoke i user)
    then show ?thesis by (simp add: invokeProvider_def split: option.split prod.split provider_reply.split)
  qed (use nexts cancels checks replies in \<open>auto simp: cancelCore_def Let_def case_prod_beta
        split: option.split provider_reply.split list.split\<close>)
qed

interpretation pay_ends: ranked_steps "order_step env" "\<lambda>p. p \<noteq> AtExpireQuery" order_rank for env
  by unfold_locales (erule order_step_bounded order_step_rank)+

text \<open>
  Requests return, whatever other requests do in between and whatever fails: a creation after at
  most 4 of its own statements, a notification after 23, a retry after 20, a cancellation or
  verification after 30, the WeChat sweep after 581, a redemption after 6, and an expiry sweep,
  once it has found its orders, after 29 for each of them.
\<close>

lemma pay_requests_return:
  assumes "(\<exists>r. ph w = AtCreate r) \<and> b = 4 \<or> (\<exists>n pk. ph w = AtNotified (AtLookup n pk)) \<and> b = 23 \<or>
      (\<exists>i. ph w = AtRetry i) \<and> b = 20 \<or>
      (\<exists>i u. ph w = AtCancel i u) \<and> b = 30 \<or> (\<exists>raw u. ph w = AtVerify raw u) \<and> b = 30 \<or>
      ph w = AtWxpayQuery \<and> b = 581 \<or> (\<exists>u s. ph w = AtRedeemCode (AtRedeem u s)) \<and> b = 6 \<or>
      (\<exists>rs. ph w = next_expiry rs 0 \<and> b = 29 * length rs)"
    and "b \<le> length (filter (\<lambda>x. fst x = w) sched)"
  shows "\<exists>res. fst (interleave (order_step env) sched (ph, db)) w = Finished res"
proof -
  have "ph w \<noteq> AtExpireQuery \<and> order_rank (ph w) \<le> b"
    using assms(1) next_ranks(1) next_never_query by (elim disjE exE conjE) simp_all
  with assms(2) have "order_rank (fst (interleave (order_step env) sched (ph, db)) w) = 0 \<and>
      fst (interleave (order_step env) sched (ph, db)) w \<noteq> AtExpireQuery"
    by (intro conjI pay_ends.ends pay_ends.stays) simp_all
  then show ?thesis by (cases "fst (interleave (order_step env) sched (ph, db)) w") auto
qed

end
