(* ===== verification/Payment_Arrival.thy ===== *)
theory Payment_Arrival
  imports Payment_Runs
begin

text \<open>
  One payment alone: the statements of an undisturbed notification, from the lookup of the order
  to its completion, for balance and subscription orders, with the affiliate service. Then what
  happens when the creation of an order fails after its provider was paid, and when a user redeems
  the code of an order before its fulfilment does.
\<close>

section \<open>One request alone\<close>

text \<open>One request alone, under the same input all the time.\<close>

fun ful_iter :: "pay_env \<Rightarrow> pay_input \<Rightarrow> nat \<Rightarrow> ful_phase \<times> pay_db \<Rightarrow> ful_phase \<times> pay_db" where
  "ful_iter env inp 0 c = c"
| "ful_iter env inp (Suc n) c = ful_iter env inp n (ful_step env inp (fst c) (snd c))"

lemma ful_iter_add: "ful_iter env inp (m + n) c = ful_iter env inp n (ful_iter env inp m c)"
  by (induction m arbitrary: c) simp_all

lemma ful_iter_done [simp]: "ful_iter env inp n (Done res, db) = (Done res, db)"
  by (induction n) simp_all

lemma solo_run:
  assumes "ph w = AtNotified p" and "ful_iter env inp n (p, db) = (Done res, db')"
  shows "interleave (order_step env) (replicate (Suc n) (w, inp)) (ph, db) = (ph(w := Finished (ResDone res)), db')"
proof -
  have fin: "interleave (order_step env) (replicate m (w, inp)) (ph(w := Finished x), db') = (ph(w := Finished x), db')"
    for m x ph by (induction m arbitrary: ph) simp_all
  show ?thesis using assms
  proof (induction n arbitrary: p ph db)
    case 0
    then show ?case by (auto simp: fun_upd_def)
  next
    case (Suc n)
    show ?case
    proof (cases "\<exists>x. p = Done x")
      case True
      with Suc.prems have p: "p = Done res" "db = db'" by auto
      then have "interleave (order_step env) (replicate (Suc (Suc n)) (w, inp)) (ph, db) =
          interleave (order_step env) (replicate (Suc n) (w, inp)) (ph(w := Finished (ResDone res)), db')"
        using Suc.prems(1) by simp
      then show ?thesis by (simp only: fin)
    next
      case False
      obtain q s where q: "ful_step env inp p db = (q, s)" by fastforce
      with False have "order_step env inp (AtNotified p) db = (AtNotified q, s)"
        by (cases p) (simp_all add: case_prod_beta Let_def del: ful_step.simps)
      then have "interleave (order_step env) (replicate (Suc (Suc n)) (w, inp)) (ph, db) =
          interleave (order_step env) (replicate (Suc n) (w, inp)) (ph(w := AtNotified q), s)"
        using Suc.prems(1) by (simp del: order_step.simps ful_step.simps)
      also have "\<dots> = ((ph(w := AtNotified q))(w := Finished (ResDone res)), db')"
        by (rule Suc.IH) (use Suc.prems(2) q in simp_all)
      finally show ?thesis by (simp only: fun_upd_upd)
    qed
  qed
qed

text \<open>The input of an undisturbed request; the affiliate service, when there is one, answers.\<close>

definition calm :: "pay_input \<Rightarrow> bool" where
  "calm inp \<longleftrightarrow> pi_fault inp = Works \<and> \<not> pi_limited inp \<and> \<not> pi_locked inp \<and> pi_rebate inp \<noteq> None"

lemma run_update_works: "pi_fault inp = Works \<Longrightarrow> run_update inp stmt db = (fst (stmt db), Some (snd (stmt db)))"
  by (simp add: run_update_def case_prod_beta)

lemma update_hit:
  "get_order db i = Some r \<Longrightarrow> cond r \<Longrightarrow> update_order i cond f db = (db\<lparr>pd_orders := gput (pd_orders db) i (f r)\<rparr>, 1)"
  by (simp add: update_order_def)

lemma get_order_put [simp]: "get_order (db\<lparr>pd_orders := gput (pd_orders db) i r\<rparr>) j = (if j = i then Some r else get_order db j)"
  by (simp add: get_order_def gget_gput)

lemma get_order_audit [simp]: "get_order (write_audit i a op db) j = get_order db j"
  by (simp add: write_audit_def get_order_def)

lemma write_audit_tables [simp]:
  "pd_codes (write_audit i a op db) = pd_codes db" "pd_nextCode (write_audit i a op db) = pd_nextCode db"
  "pd_balance (write_audit i a op db) = pd_balance db" "pd_grants (write_audit i a op db) = pd_grants db"
  "pd_rebates (write_audit i a op db) = pd_rebates db"
  by (simp_all add: write_audit_def)

lemma accept_tables [simp]:
  "pd_codes (accept i a db) = pd_codes db" "pd_nextCode (accept i a db) = pd_nextCode db"
  "pd_balance (accept i a db) = pd_balance db" "pd_grants (accept i a db) = pd_grants db"
  "pd_rebates (accept i a db) = pd_rebates db" "pd_audit (accept i a db) = pd_audit db"
  "get_order (accept i a db) j = get_order db j"
  by (simp_all add: accept_def get_order_def)

lemma has_audit_write: "has_audit (write_audit i a op db) j b \<longleftrightarrow> has_audit db j b \<or> (j = i \<and> b = a)"
  by (simp add: write_audit_def has_audit_insert)

lemma has_audit_same [simp]:
  "has_audit (db\<lparr>pd_orders := x\<rparr>) i a = has_audit db i a" "has_audit (accept j amount db) i a = has_audit db i a"
  "has_audit (db\<lparr>pd_codes := cs, pd_nextCode := n\<rparr>) i a = has_audit db i a"
  by (simp_all add: has_audit_def accept_def)

text \<open>From the notification to the lease.\<close>

definition paid_row :: "time \<Rightarrow> string \<Rightarrow> rat \<Rightarrow> payment_order \<Rightarrow> payment_order" where
  "paid_row now tradeNo amount r = r\<lparr>po_Status := OrderStatusPaid, po_PayAmount := amount, po_PaymentTradeNo := tradeNo,
     po_PaidAt := Some now, po_FailedAt := None, po_UpdatedAt := now\<rparr>"

definition leased_row :: "time \<Rightarrow> payment_order \<Rightarrow> payment_order" where
  "leased_row now r = r\<lparr>po_Status := OrderStatusRecharging, po_UpdatedAt := truncate_micro now, po_FailedAt := None\<rparr>"

lemma pay_phase:
  assumes "calm inp" and "orders_by_trade_no db (pn_OrderID n) = [r]" and r: "get_order db (po_ID r) = Some r"
    and "pn_Status n = ''success''" and "po_Status r = OrderStatusPending"
    and ty: "po_OrderType r = ''subscription'' \<Longrightarrow> po_SubscriptionGroupID r \<noteq> None \<and> po_SubscriptionDays r \<noteq> None"
    and "confirm_checks env r (pi_instanceKey inp) n pk = Inr amt"
    and r1: "r1 = paid_row (pi_now inp) (pn_TradeNo n) amt r"
  shows "\<exists>db'. ful_iter env inp 8 (AtLookup n pk, db) =
       (if po_OrderType r = ''subscription'' then AtGroup r1 (truncate_micro (pi_now inp))
        else AtRedeemLookup r1 (truncate_micro (pi_now inp)), db') \<and>
     get_order db' (po_ID r) = Some (leased_row (pi_now inp) r1) \<and>
     pd_codes db' = pd_codes db \<and> pd_nextCode db' = pd_nextCode db \<and> pd_balance db' = pd_balance db \<and>
     pd_grants db' = pd_grants db \<and> pd_rebates db' = pd_rebates db \<and>
     (\<forall>j a. a \<noteq> ''ORDER_PAID'' \<longrightarrow> has_audit db' j a = has_audit db j a)"
proof -
  have id: "po_ID r1 = po_ID r" by (simp add: r1 paid_row_def)
  let ?db0 = "accept (po_ID r) amt db"
  have r0: "get_order ?db0 (po_ID r) = Some r" by (simp add: r)
  let ?db1 = "?db0\<lparr>pd_orders := gput (pd_orders db) (po_ID r) r1\<rparr>"
  have "mark_paid (pi_now inp) (po_ID r) (pn_TradeNo n) amt ?db0 =
      (?db0\<lparr>pd_orders := gput (pd_orders ?db0) (po_ID r) r1\<rparr>, 1)"
    unfolding mark_paid_def r1 paid_row_def by (rule update_hit [OF r0]) (use assms(5) in simp)
  then have mark: "mark_paid (pi_now inp) (po_ID r) (pn_TradeNo n) amt ?db0 = (?db1, 1)" by simp
  let ?db2 = "write_audit (po_ID r) ''ORDER_PAID'' pk ?db1"
  have o2: "get_order ?db2 (po_ID r) = Some r1" by (simp add: get_order_def gget_gput write_audit_def)
  let ?db3 = "?db2\<lparr>pd_orders := gput (gput (pd_orders db) (po_ID r) r1) (po_ID r) (leased_row (pi_now inp) r1)\<rparr>"
  have "claim_lease (pi_now inp) (po_ID r) ?db2 =
      (?db2\<lparr>pd_orders := gput (pd_orders ?db2) (po_ID r) (leased_row (pi_now inp) r1)\<rparr>, 1)"
    unfolding claim_lease_def Let_def leased_row_def by (rule update_hit [OF o2]) (simp add: r1 paid_row_def)
  then have claim: "claim_lease (pi_now inp) (po_ID r) ?db2 = (?db3, 1)" by simp
  have o3: "get_order ?db3 (po_ID r) = Some (leased_row (pi_now inp) r1)" by (simp add: get_order_def gget_gput)
  have l: "po_Status (leased_row (pi_now inp) r1) = OrderStatusRecharging"
    "po_UpdatedAt (leased_row (pi_now inp) r1) = truncate_micro (pi_now inp)" by (simp_all add: leased_row_def)
  have cols: "po_OrderType r1 = po_OrderType r" "po_Status r1 = OrderStatusPaid"
    "po_SubscriptionGroupID r1 = po_SubscriptionGroupID r" "po_SubscriptionDays r1 = po_SubscriptionDays r"
    by (simp_all add: r1 paid_row_def)
  have "ful_iter env inp 8 (AtLookup n pk, db) =
      (if po_OrderType r = ''subscription'' then AtGroup r1 (truncate_micro (pi_now inp))
       else AtRedeemLookup r1 (truncate_micro (pi_now inp)), ?db3)"
  proof (cases "po_OrderType r = ''subscription''")
    case True
    with ty obtain g ds where "po_SubscriptionGroupID r = Some g" "po_SubscriptionDays r = Some ds" by blast
    with True show ?thesis using assms(1-5,7) o2
      by (simp add: eval_nat_numeral calm_def read_order_def run_update_works mark claim id cols logging_def
          fulfilment_guard_def psIsRefundStatus_def Let_def o3 l)
  next
    case False
    then show ?thesis using assms(1-5,7) o2
      by (simp add: eval_nat_numeral calm_def read_order_def run_update_works mark claim id cols logging_def
          fulfilment_guard_def psIsRefundStatus_def Let_def o3 l)
  qed
  with o3 show ?thesis by (intro exI [of _ ?db3]) (simp add: has_audit_write)
qed

text \<open>The end of a fulfilment: the rebate, the completion, its audit row.\<close>

definition order_rebate :: "pay_env \<Rightarrow> pay_input \<Rightarrow> payment_order \<Rightarrow> pay_db \<Rightarrow> (int \<times> int \<times> rat) list" where
  "order_rebate env inp r db =
     (if pe_affiliate env \<and> 0 < affiliateRebateBaseAmount r \<and> \<not> rebate_claimed db (po_ID r) \<and>
         (case pi_rebate inp of None \<Rightarrow> False | Some amount \<Rightarrow> 0 < amount)
      then [(po_ID r, po_UserID r, affiliateRebateBaseAmount r)] else [])"

lemma rebate_step:
  assumes "calm inp"
  shows "\<exists>db'. ful_step env inp (AtRebate r l a) db = (AtComplete r l a, db') \<and> get_order db' = get_order db \<and>
     pd_orders db' = pd_orders db \<and> pd_balance db' = pd_balance db \<and> pd_codes db' = pd_codes db \<and>
     pd_grants db' = pd_grants db \<and> pd_rebates db' = pd_rebates db @ order_rebate env inp r db"
proof -
  obtain amount where "pi_fault inp = Works" "pi_rebate inp = Some amount" using assms by (auto simp: calm_def)
  then show ?thesis
    by (auto simp: order_rebate_def rebate_tx_def Let_def write_audit_def fun_eq_iff get_order_def not_le)
qed

lemma finish_phase:
  assumes "calm inp" and o1: "get_order db (po_ID r) = Some cur" and "po_Status cur = OrderStatusRecharging"
    and "po_UpdatedAt cur = lease"
  shows "\<exists>db'. ful_iter env inp 4 (AtRebate r lease a, db) = (Done None, db') \<and>
     get_order db' (po_ID r) = Some (cur\<lparr>po_Status := OrderStatusCompleted, po_CompletedAt := Some (pi_now inp), po_UpdatedAt := pi_now inp\<rparr>) \<and>
     pd_balance db' = pd_balance db \<and> pd_codes db' = pd_codes db \<and> pd_grants db' = pd_grants db \<and>
     pd_rebates db' = pd_rebates db @ order_rebate env inp r db"
proof -
  obtain db1 where step: "ful_step env inp (AtRebate r lease a) db = (AtComplete r lease a, db1)"
    and f: "get_order db1 = get_order db" "pd_balance db1 = pd_balance db" "pd_codes db1 = pd_codes db"
      "pd_grants db1 = pd_grants db" "pd_rebates db1 = pd_rebates db @ order_rebate env inp r db"
    using rebate_step [OF assms(1)] by blast
  have o: "get_order db1 (po_ID r) = Some cur" by (simp add: f(1) o1)
  have complete: "complete_order (pi_now inp) (po_ID r) lease db1 = (db1\<lparr>pd_orders := gput (pd_orders db1) (po_ID r)
      (cur\<lparr>po_Status := OrderStatusCompleted, po_CompletedAt := Some (pi_now inp), po_UpdatedAt := pi_now inp\<rparr>)\<rparr>, 1)" (is "_ = (?db2, 1)")
    unfolding complete_order_def by (rule update_hit [OF o]) (use assms(3,4) in simp)
  have two: "ful_iter env inp 2 (AtRebate r lease a, db) = (AtHasAudit r a, ?db2)"
    using assms(1) by (simp add: eval_nat_numeral step calm_def run_update_works complete del: ful_step.simps(19))
  have "\<exists>db3. ful_iter env inp 2 (AtHasAudit r a, ?db2) = (Done None, db3) \<and> get_order db3 = get_order ?db2 \<and>
      pd_balance db3 = pd_balance ?db2 \<and> pd_codes db3 = pd_codes ?db2 \<and> pd_grants db3 = pd_grants ?db2 \<and>
      pd_rebates db3 = pd_rebates ?db2"
    using assms(1) by (simp add: eval_nat_numeral calm_def logging_def fun_eq_iff)
  then obtain db3 where db3: "ful_iter env inp 2 (AtHasAudit r a, ?db2) = (Done None, db3)" "get_order db3 = get_order ?db2"
    "pd_balance db3 = pd_balance ?db2" "pd_codes db3 = pd_codes ?db2" "pd_grants db3 = pd_grants ?db2"
    "pd_rebates db3 = pd_rebates ?db2" by blast
  have "ful_iter env inp 4 (AtRebate r lease a, db) = (Done None, db3)"
    using ful_iter_add [of env inp 2 2 "(AtRebate r lease a, db)"] by (simp add: two db3(1))
  with db3(2-) f show ?thesis by (intro exI [of _ db3]) simp
qed

text \<open>Under the lease: create the code, redeem it, complete the order.\<close>

lemma code_tables [simp]:
  "code_by_code (db\<lparr>pd_orders := x\<rparr>) s = code_by_code db s" "code_by_id (db\<lparr>pd_orders := x\<rparr>) j = code_by_id db j"
  "code_by_code (db\<lparr>pd_balance := y\<rparr>) s = code_by_code db s" "code_by_id (db\<lparr>pd_balance := y\<rparr>) j = code_by_id db j"
  "get_order (db\<lparr>pd_balance := y\<rparr>) i = get_order db i" "get_order (db\<lparr>pd_codes := z\<rparr>) i = get_order db i"
  by (simp_all add: code_by_code_def code_by_id_def get_order_def)

lemma fresh_code:
  assumes "list_all (\<lambda>c. rdc_ID c < pd_nextCode db) (pd_codes db)" and "code_by_code db s = None" and "rdc_Code c = s"
    and db': "db' = db\<lparr>pd_codes := pd_codes db @ [c\<lparr>rdc_ID := pd_nextCode db\<rparr>], pd_nextCode := pd_nextCode db + 1\<rparr>"
  shows "insert_code c db = Some db'" and "code_by_code db' s = Some (c\<lparr>rdc_ID := pd_nextCode db\<rparr>)"
    and "code_by_id db' (pd_nextCode db) = Some (c\<lparr>rdc_ID := pd_nextCode db\<rparr>)"
proof -
  show ins: "insert_code c db = Some db'" using assms by (simp add: insert_code_def)
  from code_by_code_insert [OF this, of s] assms(3) show "code_by_code db' s = Some (c\<lparr>rdc_ID := pd_nextCode db\<rparr>)" by simp
  have "find (\<lambda>r. rdc_ID r = pd_nextCode db) (pd_codes db) = None"
    using assms(1) by (auto simp: find_None_iff list_all_iff)
  from find_append_new [OF this] show "code_by_id db' (pd_nextCode db) = Some (c\<lparr>rdc_ID := pd_nextCode db\<rparr>)"
    by (simp add: db' code_by_id_def)
qed

lemma use_fresh:
  assumes "code_by_id db j = Some x" and "rdc_Status x = ''unused''"
  shows "use_code now j u db = Some (db\<lparr>pd_codes := map (mark_used now j u) (pd_codes db)\<rparr>)"
    and "code_by_id (db\<lparr>pd_codes := map (mark_used now j u) (pd_codes db)\<rparr>) j = Some (mark_used now j u x)"
proof -
  have "x \<in> set (pd_codes db) \<and> rdc_ID x = j" using assms(1) by (auto simp: code_by_id_def dest: find_member)
  then show "use_code now j u db = Some (db\<lparr>pd_codes := map (mark_used now j u) (pd_codes db)\<rparr>)"
    using assms(2) by (auto simp: use_code_def mark_used_def fun_eq_iff)
  have "rdc_ID (mark_used now j u y) = rdc_ID y" for y by (simp add: mark_used_def)
  then show "code_by_id (db\<lparr>pd_codes := map (mark_used now j u) (pd_codes db)\<rparr>) j = Some (mark_used now j u x)"
    using assms(1) by (simp add: code_by_id_def find_map_same)
qed

lemma credit_phase:
  assumes "calm inp" and ok: "list_all (\<lambda>c. rdc_ID c < pd_nextCode db) (pd_codes db)"
    and o1: "get_order db (po_ID r) = Some cur" and "po_Status cur = OrderStatusRecharging" and "po_UpdatedAt cur = lease"
    and new: "code_by_code db (po_RechargeCode r) = None" and "trim_space (po_RechargeCode r) = po_RechargeCode r"
    and "po_RechargeCode r \<noteq> []" and "0 < po_Amount r" and bal: "gget (pd_balance db) (po_UserID r) = Some b"
  shows "\<exists>db'. ful_iter env inp 11 (AtRedeemLookup r lease, db) = (Done None, db') \<and>
     get_order db' (po_ID r) = Some (cur\<lparr>po_Status := OrderStatusCompleted, po_CompletedAt := Some (pi_now inp), po_UpdatedAt := pi_now inp\<rparr>) \<and>
     (\<forall>u. gget (pd_balance db') u = (if u = po_UserID r then Some (b + po_Amount r) else gget (pd_balance db) u)) \<and>
     pd_grants db' = pd_grants db \<and> pd_rebates db' = pd_rebates db @ order_rebate env inp r db"
proof -
  let ?now = "pi_now inp" and ?u = "po_UserID r"
  define j where "j = pd_nextCode db"
  define c where "c = (order_code r)\<lparr>rdc_ID := j\<rparr>"
  define db1 where "db1 = db\<lparr>pd_codes := pd_codes db @ [c], pd_nextCode := j + 1\<rparr>"
  have c: "rdc_ID c = j" "rdc_Type c = ''balance''" "rdc_Value c = po_Amount r" "rdc_Status c = ''unused''" "rdc_ExpiresAt c = None"
    by (simp_all add: c_def order_code_def)
  have f: "insert_code (order_code r) db = Some db1" "code_by_code db1 (po_RechargeCode r) = Some c" "code_by_id db1 j = Some c"
    using fresh_code [OF ok new, of "order_code r" db1] by (simp_all add: order_code_def c_def db1_def j_def)
  have fields: "pd_balance db1 = pd_balance db" "get_order db1 i = get_order db i" for i
    by (simp_all add: db1_def get_order_def)
  have create: "CreateCode (order_code r) ?now db = Inr db1"
    using f(1) assms(7-9) by (simp add: CreateCode_def order_code_def IsExpiredAt_def)
  define db2 where "db2 = db1\<lparr>pd_codes := map (mark_used ?now j ?u) (pd_codes db1)\<rparr>"
  note use = use_fresh [OF f(3) c(4), of ?now ?u, folded db2_def]
  define db3 where "db3 = db2\<lparr>pd_balance := gput (pd_balance db) ?u (b + po_Amount r)\<rparr>"
  have tx: "redeem_tx ?now ?u c db1 = Inr db3"
    using assms(9) bal by (simp add: redeem_tx_def use c UpdateBalance_def db3_def db2_def fields)
  have o3: "get_order db3 (po_ID r) = Some cur" using o1 by (simp add: db3_def db2_def fields)
  have id3: "code_by_id db3 j = Some (mark_used ?now j ?u c)" by (simp add: db3_def use)
  have usable: "\<not> IsExpiredAt c ?now" "CanUse c ?now"
    by (simp_all add: IsExpiredAt_def CanUse_def c)
  have redeem: "ful_iter env inp 7 (AtRedeemLookup r lease, db) = (AtRebate r lease ''RECHARGE_SUCCESS'', db3)"
    using assms(1) bal id3
    by (simp add: eval_nat_numeral calm_def resolveRedeemAction_def new create f(2) usable fields tx c(1,2) redeem_accrues_def)
  have same: "pd_grants db3 = pd_grants db" "pd_rebates db3 = pd_rebates db" "has_audit db3 = has_audit db"
    "pd_balance db3 = gput (pd_balance db) ?u (b + po_Amount r)"
    by (simp_all add: db3_def db2_def db1_def has_audit_def fun_eq_iff)
  obtain db4 where db4: "ful_iter env inp 4 (AtRebate r lease ''RECHARGE_SUCCESS'', db3) = (Done None, db4)"
    "get_order db4 (po_ID r) = Some (cur\<lparr>po_Status := OrderStatusCompleted, po_CompletedAt := Some ?now, po_UpdatedAt := ?now\<rparr>)"
    "pd_balance db4 = pd_balance db3" "pd_grants db4 = pd_grants db3"
    "pd_rebates db4 = pd_rebates db3 @ order_rebate env inp r db3"
    using finish_phase [OF assms(1) o3 assms(4,5)] by blast
  have "ful_iter env inp 11 (AtRedeemLookup r lease, db) = (Done None, db4)"
    using ful_iter_add [of env inp 7 4 "(AtRedeemLookup r lease, db)"] by (simp add: redeem db4(1))
  moreover have "order_rebate env inp r db3 = order_rebate env inp r db"
    by (simp add: order_rebate_def rebate_claimed_def same)
  ultimately show ?thesis using db4(2-) by (intro exI [of _ db4]) (simp add: same gget_gput)
qed

lemma assign_phase:
  assumes "calm inp" and "pi_groupActive inp" and "pi_note inp = NoteAbsent" and "\<not> pi_cacheFails inp" and "pe_subscriptions env"
    and o1: "get_order db (po_ID r) = Some cur" and "po_Status cur = OrderStatusRecharging" and "po_UpdatedAt cur = lease"
    and new: "\<not> subscription_assigned db (po_ID r)"
  shows "\<exists>db'. ful_iter env inp 8 (AtGroup r lease, db) = (Done None, db') \<and>
     get_order db' (po_ID r) = Some (cur\<lparr>po_Status := OrderStatusCompleted, po_CompletedAt := Some (pi_now inp), po_UpdatedAt := pi_now inp\<rparr>) \<and>
     pd_balance db' = pd_balance db \<and> pd_codes db' = pd_codes db \<and>
     pd_grants db' = pd_grants db @ [(po_ID r, po_UserID r, the (po_SubscriptionGroupID r), the (po_SubscriptionDays r))] \<and>
     pd_rebates db' = pd_rebates db @ order_rebate env inp r db"
proof -
  let ?a = "''SUBSCRIPTION_ASSIGNED''"
  define db1 where "db1 = (insert_audit (po_ID r) ?a (''system'', False) db)\<lparr>pd_grants := pd_grants db @
    [(po_ID r, po_UserID r, the (po_SubscriptionGroupID r), the (po_SubscriptionDays r))]\<rparr>"
  have tx: "assign_tx r False db = Some db1"
    using new by (simp add: assign_tx_def db1_def subscription_assigned_def)
  have four: "ful_iter env inp 4 (AtGroup r lease, db) = (AtRebate r lease ''SUBSCRIPTION_SUCCESS'', db1)"
    using assms(1-5) new by (simp add: eval_nat_numeral calm_def tx)
  have o: "get_order db1 (po_ID r) = Some cur" using o1 by (simp add: db1_def get_order_def)
  have same: "pd_balance db1 = pd_balance db" "pd_codes db1 = pd_codes db" "pd_rebates db1 = pd_rebates db"
    by (simp_all add: db1_def)
  have "has_audit db1 j b = has_audit db j b" if "b \<noteq> ?a" for j b
    using that has_audit_insert [of "po_ID r" ?a "(''system'', False)" db j b] by (simp add: db1_def has_audit_def)
  then have rb: "order_rebate env inp r db1 = order_rebate env inp r db"
    by (simp add: order_rebate_def rebate_claimed_def)
  obtain db2 where db2: "ful_iter env inp 4 (AtRebate r lease ''SUBSCRIPTION_SUCCESS'', db1) = (Done None, db2)"
    "get_order db2 (po_ID r) = Some (cur\<lparr>po_Status := OrderStatusCompleted, po_CompletedAt := Some (pi_now inp), po_UpdatedAt := pi_now inp\<rparr>)"
    "pd_balance db2 = pd_balance db1" "pd_codes db2 = pd_codes db1" "pd_grants db2 = pd_grants db1"
    "pd_rebates db2 = pd_rebates db1 @ order_rebate env inp r db1"
    using finish_phase [OF assms(1) o assms(7,8)] by blast
  have "ful_iter env inp 8 (AtGroup r lease, db) = (Done None, db2)"
    using ful_iter_add [of env inp 4 4 "(AtGroup r lease, db)"] by (simp add: four db2(1))
  with db2(2-) show ?thesis by (intro exI [of _ db2]) (simp add: same rb, simp add: db1_def)
qed

text \<open>What a fulfilment knows of a pending order, and what the columns of the paid row are.\<close>

lemma paid_row_columns [simp]:
  "po_ID (paid_row now t a r) = po_ID r" "po_UserID (paid_row now t a r) = po_UserID r"
  "po_Amount (paid_row now t a r) = po_Amount r" "po_RechargeCode (paid_row now t a r) = po_RechargeCode r"
  "po_OrderType (paid_row now t a r) = po_OrderType r"
  "po_SubscriptionGroupID (paid_row now t a r) = po_SubscriptionGroupID r"
  "po_SubscriptionDays (paid_row now t a r) = po_SubscriptionDays r"
  "affiliateRebateBaseAmount (paid_row now t a r) = affiliateRebateBaseAmount r"
  by (simp_all add: paid_row_def affiliateRebateBaseAmount_def)

lemma leased_row_facts [simp]:
  "po_Status (leased_row now r) = OrderStatusRecharging" "po_UpdatedAt (leased_row now r) = truncate_micro now"
  by (simp_all add: leased_row_def)

lemma order_rebate_cong:
  assumes "\<And>j a. a \<noteq> ''ORDER_PAID'' \<Longrightarrow> has_audit db' j a = has_audit db j a"
  shows "order_rebate env inp (paid_row now t amt r) db' = order_rebate env inp r db"
  using assms by (simp add: order_rebate_def rebate_claimed_def)

lemma early_order:
  assumes "pay_inv base db" and "get_order db i = Some r" and "open_status (po_Status r)"
  shows "code_by_code db (po_RechargeCode r) = None" and "\<not> subscription_assigned db i"
proof -
  have st: "stage (po_Status r) \<noteq> 2" using assms(3) by (simp add: stage_def)
  with assms(1,2) show "code_by_code db (po_RechargeCode r) = None"
    unfolding pay_inv_def linked_def by (cases "code_by_code db (po_RechargeCode r)") blast+
  have "grants_ok db" using assms(1) by (simp add: pay_inv_def)
  with st assms(2) have "\<not> has_audit db i ''SUBSCRIPTION_ASSIGNED''"
    unfolding grants_ok_def by (metis option.inject)
  with assms(1) show "\<not> subscription_assigned db i" using assigned_audit by blast
qed

lemma code_facts:
  assumes "pay_inv base db" and "get_order db i = Some r"
  shows "trim_space (po_RechargeCode r) = po_RechargeCode r" and "po_RechargeCode r \<noteq> []"
    and "list_all (\<lambda>c. rdc_ID c < pd_nextCode db) (pd_codes db)"
proof -
  obtain t where t: "po_RechargeCode r = recharge_code i t" using inv_order(7) [OF assms] by blast
  then show "trim_space (po_RechargeCode r) = po_RechargeCode r" "po_RechargeCode r \<noteq> []"
    by simp (simp add: t recharge_code_def)
  show "list_all (\<lambda>c. rdc_ID c < pd_nextCode db) (pd_codes db)"
    using assms(1) by (simp add: pay_inv_def codes_ok_def list_all_iff)
qed

lemma payment_arrives:
  assumes inv: "pay_inv base db" and calm: "calm inp"
    and orders: "orders_by_trade_no db (pn_OrderID n) = [r]" "get_order db (po_ID r) = Some r"
    and n: "pn_Status n = ''success''" "po_Status r = OrderStatusPending" and ty: "po_OrderType r = ''balance''"
    and ok: "confirm_checks env r (pi_instanceKey inp) n pk = Inr amt"
    and bal: "gget (pd_balance db) (po_UserID r) = Some b"
  shows "\<exists>db'. ful_iter env inp 19 (AtLookup n pk, db) = (Done None, db') \<and>
     (\<exists>s. get_order db' (po_ID r) = Some s \<and> fixed_columns s = fixed_columns r \<and>
        po_Status s = OrderStatusCompleted \<and> po_PayAmount s = amt \<and>
        po_PaidAt s = Some (pi_now inp) \<and> po_CompletedAt s = Some (pi_now inp) \<and> po_PaymentTradeNo s = pn_TradeNo n) \<and>
     (\<forall>u. gget (pd_balance db') u = (if u = po_UserID r then Some (b + po_Amount r) else gget (pd_balance db) u)) \<and>
     pd_grants db' = pd_grants db \<and> pd_rebates db' = pd_rebates db @ order_rebate env inp r db"
proof -
  let ?r1 = "paid_row (pi_now inp) (pn_TradeNo n) amt r" and ?l = "truncate_micro (pi_now inp)"
  obtain db1 where front: "ful_iter env inp 8 (AtLookup n pk, db) = (AtRedeemLookup ?r1 ?l, db1)"
    "get_order db1 (po_ID r) = Some (leased_row (pi_now inp) ?r1)" "pd_codes db1 = pd_codes db"
    "pd_nextCode db1 = pd_nextCode db" "pd_balance db1 = pd_balance db" "pd_grants db1 = pd_grants db"
    "pd_rebates db1 = pd_rebates db" and au: "\<And>j a. a \<noteq> ''ORDER_PAID'' \<Longrightarrow> has_audit db1 j a = has_audit db j a"
    using pay_phase [OF calm orders n _ ok refl] ty by auto
  have "open_status (po_Status r)" using n(2) by (simp add: open_status_def)
  note early = early_order(1) [OF inv orders(2) this]
  have new: "code_by_code db1 (po_RechargeCode ?r1) = None" using early by (simp add: tables_cong(1) [OF front(3)])
  have ids: "list_all (\<lambda>c. rdc_ID c < pd_nextCode db1) (pd_codes db1)"
    using code_facts(3) [OF inv orders(2)] by (simp add: front(3,4))
  have start: "get_order db1 (po_ID ?r1) = Some (leased_row (pi_now inp) ?r1)" "0 < po_Amount ?r1"
    "gget (pd_balance db1) (po_UserID ?r1) = Some b" "trim_space (po_RechargeCode ?r1) = po_RechargeCode ?r1"
    "po_RechargeCode ?r1 \<noteq> []"
    using front(2,5) inv_order(4) [OF inv orders(2)] bal code_facts(1,2) [OF inv orders(2)] by simp_all
  obtain db2 where rear: "ful_iter env inp 11 (AtRedeemLookup ?r1 ?l, db1) = (Done None, db2)"
    "get_order db2 (po_ID ?r1) = Some ((leased_row (pi_now inp) ?r1)\<lparr>po_Status := OrderStatusCompleted,
       po_CompletedAt := Some (pi_now inp), po_UpdatedAt := pi_now inp\<rparr>)"
    "\<forall>u. gget (pd_balance db2) u = (if u = po_UserID ?r1 then Some (b + po_Amount ?r1) else gget (pd_balance db1) u)"
    "pd_grants db2 = pd_grants db1" "pd_rebates db2 = pd_rebates db1 @ order_rebate env inp ?r1 db1"
    using credit_phase [OF calm ids start(1) leased_row_facts new start(4,5,2,3), of env] by blast
  have "ful_iter env inp 19 (AtLookup n pk, db) = (Done None, db2)"
    using ful_iter_add [of env inp 8 11 "(AtLookup n pk, db)"] by (simp add: front(1) rear(1))
  moreover have "order_rebate env inp ?r1 db1 = order_rebate env inp r db" using order_rebate_cong au by blast
  ultimately show ?thesis using rear(2-) by (intro exI [of _ db2]) (simp add: leased_row_def paid_row_def fixed_columns_def front(5-7))
qed

lemma subscription_arrives:
  assumes inv: "pay_inv base db" and calm: "calm inp"
    and sub: "pi_groupActive inp" "pi_note inp = NoteAbsent" "\<not> pi_cacheFails inp" "pe_subscriptions env"
    and orders: "orders_by_trade_no db (pn_OrderID n) = [r]" "get_order db (po_ID r) = Some r"
    and n: "pn_Status n = ''success''" "po_Status r = OrderStatusPending" and ty: "po_OrderType r = ''subscription''"
    and g: "po_SubscriptionGroupID r = Some g" "po_SubscriptionDays r = Some d"
    and ok: "confirm_checks env r (pi_instanceKey inp) n pk = Inr amt"
  shows "\<exists>db'. ful_iter env inp 16 (AtLookup n pk, db) = (Done None, db') \<and>
     (\<exists>s. get_order db' (po_ID r) = Some s \<and> fixed_columns s = fixed_columns r \<and>
        po_Status s = OrderStatusCompleted \<and> po_PayAmount s = amt \<and>
        po_PaidAt s = Some (pi_now inp) \<and> po_CompletedAt s = Some (pi_now inp) \<and> po_PaymentTradeNo s = pn_TradeNo n) \<and>
     pd_balance db' = pd_balance db \<and> pd_codes db' = pd_codes db \<and>
     pd_grants db' = pd_grants db @ [(po_ID r, po_UserID r, g, d)] \<and>
     pd_rebates db' = pd_rebates db @ order_rebate env inp r db"
proof -
  let ?r1 = "paid_row (pi_now inp) (pn_TradeNo n) amt r" and ?l = "truncate_micro (pi_now inp)"
  obtain db1 where front: "ful_iter env inp 8 (AtLookup n pk, db) = (AtGroup ?r1 ?l, db1)"
    "get_order db1 (po_ID r) = Some (leased_row (pi_now inp) ?r1)" "pd_codes db1 = pd_codes db"
    "pd_balance db1 = pd_balance db" "pd_grants db1 = pd_grants db"
    "pd_rebates db1 = pd_rebates db" and au: "\<And>j a. a \<noteq> ''ORDER_PAID'' \<Longrightarrow> has_audit db1 j a = has_audit db j a"
    using pay_phase [OF calm orders n _ ok refl] ty g by auto
  have "open_status (po_Status r)" using n(2) by (simp add: open_status_def)
  then have new: "\<not> subscription_assigned db1 (po_ID ?r1)"
    using early_order(2) [OF inv orders(2)] by (simp add: subscription_assigned_def au)
  have start: "get_order db1 (po_ID ?r1) = Some (leased_row (pi_now inp) ?r1)" using front(2) by simp
  obtain db2 where rear: "ful_iter env inp 8 (AtGroup ?r1 ?l, db1) = (Done None, db2)"
    "get_order db2 (po_ID ?r1) = Some ((leased_row (pi_now inp) ?r1)\<lparr>po_Status := OrderStatusCompleted,
       po_CompletedAt := Some (pi_now inp), po_UpdatedAt := pi_now inp\<rparr>)"
    "pd_balance db2 = pd_balance db1" "pd_codes db2 = pd_codes db1"
    "pd_grants db2 = pd_grants db1 @ [(po_ID ?r1, po_UserID ?r1, the (po_SubscriptionGroupID ?r1), the (po_SubscriptionDays ?r1))]"
    "pd_rebates db2 = pd_rebates db1 @ order_rebate env inp ?r1 db1"
    using assign_phase [OF calm sub start leased_row_facts new] by blast
  have "ful_iter env inp 16 (AtLookup n pk, db) = (Done None, db2)"
    using ful_iter_add [of env inp 8 8 "(AtLookup n pk, db)"] by (simp add: front(1) rear(1))
  moreover have "order_rebate env inp ?r1 db1 = order_rebate env inp r db" using order_rebate_cong au by blast
  ultimately show ?thesis using rear(2-) g
    by (intro exI [of _ db2]) (simp add: leased_row_def paid_row_def fixed_columns_def front(3-6))
qed

section \<open>When a creation fails late, and when a user redeems the code of an order\<close>

text \<open>
  The update of a failed \<open>CreateOrder\<close> has no guard: the order is FAILED afterwards whatever it
  was, paid and completed orders included; the time and amount of a payment stay.
\<close>

lemma late_creation_failure:
  assumes "get_order db i = Some r" and "pi_fault inp = Works"
  shows "get_order (snd (order_step env inp (AtCreateFailed i e) db)) i =
    Some (r\<lparr>po_Status := OrderStatusFailed, po_UpdatedAt := pi_now inp\<rparr>)"
  using assms by (simp add: run_update_works fail_creation_def get_order_update)

text \<open>
  When the provider has received the payment of an order that its creation marked FAILED, the
  notification is not recorded as a payment (no time, no amount), but the order is fulfilled.
\<close>

lemma failed_order_credited:
  assumes inv: "pay_inv base db" and calm: "calm inp"
    and orders: "orders_by_trade_no db (pn_OrderID n) = [r]" "get_order db (po_ID r) = Some r"
    and n: "pn_Status n = ''success''" "po_Status r = OrderStatusFailed" "po_PaidAt r = None" and ty: "po_OrderType r = ''balance''"
    and ok: "confirm_checks env r (pi_instanceKey inp) n pk = Inr amt"
    and new: "code_by_code db (po_RechargeCode r) = None" and bal: "gget (pd_balance db) (po_UserID r) = Some b"
  shows "\<exists>db'. ful_iter env inp 19 (AtLookup n pk, db) = (Done None, db') \<and>
     (\<exists>s. get_order db' (po_ID r) = Some s \<and> po_Status s = OrderStatusCompleted \<and> po_PaidAt s = None) \<and>
     gget (pd_balance db') (po_UserID r) = Some (b + po_Amount r)"
proof -
  let ?l = "truncate_micro (pi_now inp)"
  let ?db0 = "accept (po_ID r) amt db"
  have r0: "get_order ?db0 (po_ID r) = Some r" by (simp add: orders(2))
  have mark: "mark_paid (pi_now inp) (po_ID r) (pn_TradeNo n) amt ?db0 = (?db0, 0)"
    using n(2) orders(2) by (simp add: mark_paid_def update_order_def)
  let ?db1 = "?db0\<lparr>pd_orders := gput (pd_orders db) (po_ID r) (leased_row (pi_now inp) r)\<rparr>"
  have "claim_lease (pi_now inp) (po_ID r) ?db0 =
      (?db0\<lparr>pd_orders := gput (pd_orders ?db0) (po_ID r) (leased_row (pi_now inp) r)\<rparr>, 1)"
    unfolding claim_lease_def Let_def leased_row_def by (rule update_hit [OF r0]) (simp add: n(2))
  then have claim: "claim_lease (pi_now inp) (po_ID r) ?db0 = (?db1, 1)" by simp
  have o1: "get_order ?db1 (po_ID r) = Some (leased_row (pi_now inp) r)" by (simp add: get_order_def gget_gput)
  have front: "ful_iter env inp 8 (AtLookup n pk, db) = (AtRedeemLookup r ?l, ?db1)"
    using calm orders n ty ok
    by (simp add: eval_nat_numeral calm_def read_order_def run_update_works mark claim logging_def
        fulfilment_guard_def psIsRefundStatus_def Let_def o1)
  have ids: "list_all (\<lambda>c. rdc_ID c < pd_nextCode ?db1) (pd_codes ?db1)"
    using code_facts(3) [OF inv orders(2)] by simp
  have new1: "code_by_code ?db1 (po_RechargeCode r) = None" and bal1: "gget (pd_balance ?db1) (po_UserID r) = Some b"
    using new bal by (simp_all add: code_by_code_def accept_def)
  obtain db2 where rear: "ful_iter env inp 11 (AtRedeemLookup r ?l, ?db1) = (Done None, db2)"
    "get_order db2 (po_ID r) = Some ((leased_row (pi_now inp) r)\<lparr>po_Status := OrderStatusCompleted,
       po_CompletedAt := Some (pi_now inp), po_UpdatedAt := pi_now inp\<rparr>)"
    "\<forall>u. gget (pd_balance db2) u = (if u = po_UserID r then Some (b + po_Amount r) else gget (pd_balance ?db1) u)"
    using credit_phase [OF calm ids o1 leased_row_facts new1 code_facts(1,2) [OF inv orders(2)] inv_order(4) [OF inv orders(2)] bal1, of env]
    by blast
  have "ful_iter env inp 19 (AtLookup n pk, db) = (Done None, db2)"
    using ful_iter_add [of env inp 8 11 "(AtLookup n pk, db)"] by (simp add: front rear(1) del: ful_iter.simps)
  with rear(2,3) n(3) show ?thesis by (intro exI [of _ db2]) (simp add: leased_row_def)
qed

text \<open>A user redeems a balance code through the redeem service: it accrues a rebate of its own.\<close>

fun redeem_iter :: "pay_env \<Rightarrow> bool \<Rightarrow> pay_input \<Rightarrow> nat \<Rightarrow> redeem_phase \<times> pay_db \<Rightarrow> redeem_phase \<times> pay_db" where
  "redeem_iter env skip inp 0 c = c"
| "redeem_iter env skip inp (Suc n) c = redeem_iter env skip inp n (redeem_step env skip inp (fst c) (snd c))"

lemma user_redeems:
  assumes "calm inp" and "pe_affiliate env" and "pi_rebate inp = Some amount" and "0 < amount"
    and c: "code_by_code db s = Some c" "rdc_Code c = s" "code_by_id db (rdc_ID c) = Some c"
      "rdc_Status c = ''unused''" "rdc_ExpiresAt c = None" "rdc_Type c = ''balance''" "0 < rdc_Value c"
    and bal: "gget (pd_balance db) u = Some b"
  shows "\<exists>db'. redeem_iter env False inp 5 (AtRedeem u s, db) = (Redeemed None, db') \<and>
     gget (pd_balance db') u = Some (b + rdc_Value c) \<and> pd_orders db' = pd_orders db \<and>
     code_by_code db' s = Some (mark_used (pi_now inp) (rdc_ID c) u c) \<and> pd_rebates db' = pd_rebates db \<and>
     has_audit db' = has_audit db \<and> pd_redeem_rebates db' = pd_redeem_rebates db @ [(s, u, rdc_Value c)]"
proof -
  let ?now = "pi_now inp"
  define db1 where "db1 = db\<lparr>pd_codes := map (mark_used ?now (rdc_ID c) u) (pd_codes db)\<rparr>"
  note use = use_fresh [OF c(3,4), of ?now u, folded db1_def]
  define db2 where "db2 = db1\<lparr>pd_balance := gput (pd_balance db) u (b + rdc_Value c)\<rparr>"
  define db3 where "db3 = db2\<lparr>pd_redeem_rebates := pd_redeem_rebates db @ [(s, u, rdc_Value c)]\<rparr>"
  have tx: "redeem_tx ?now u c db = Inr db2"
    using c(7) bal by (simp add: redeem_tx_def use c(6) UpdateBalance_def db2_def db1_def)
  have usable: "\<not> IsExpiredAt c ?now" "CanUse c ?now"
    by (simp_all add: IsExpiredAt_def CanUse_def c)
  have acc: "accrue_redeem inp u c db2 = db3" "redeem_accrues env False c"
    using assms(1-4) c by (simp_all add: accrue_redeem_def redeem_accrues_def calm_def took_effect_def db3_def db2_def db1_def)
  have id: "code_by_id db3 (rdc_ID c) \<noteq> None" using use(2) by (simp add: db3_def db2_def code_by_id_def)
  have "redeem_iter env False inp 5 (AtRedeem u s, db) = (Redeemed None, db3)"
    using assms(1) bal id by (simp add: eval_nat_numeral calm_def c(1) usable c(6) tx acc)
  moreover have "code_by_code db3 s = Some (mark_used ?now (rdc_ID c) u c)"
    using c(1) by (simp add: db3_def db2_def db1_def code_by_code_def find_map_same mark_used_def)
  ultimately show ?thesis
    by (intro exI [of _ db3]) (simp add: db3_def db2_def db1_def gget_gput has_audit_def fun_eq_iff)
qed

text \<open>
  Between the creation of an order's code and its redemption by the fulfilment, a user who knows
  the code can redeem it. The fulfilment then takes the order for credited: the order completes,
  its owner gets nothing when the user is another, and two rebates are accrued for one payment.
\<close>

lemma redeemed_order_code_pays_two_rebates:
  assumes calm: "calm inp" and aff: "pe_affiliate env" "pi_rebate inp = Some amount" "0 < amount"
    and c: "code_by_code db (po_RechargeCode r) = Some c" "rdc_Code c = po_RechargeCode r" "code_by_id db (rdc_ID c) = Some c"
      "rdc_Status c = ''unused''" "rdc_ExpiresAt c = None" "rdc_Type c = ''balance''" "rdc_Value c = po_Amount r" "0 < po_Amount r"
    and bal: "gget (pd_balance db) u = Some b"
    and o: "get_order db (po_ID r) = Some cur" "po_Status cur = OrderStatusRecharging" "po_UpdatedAt cur = lease"
    and ty: "po_OrderType r = ''balance''" and un: "\<not> rebate_claimed db (po_ID r)"
  shows "\<exists>db1 db2. redeem_iter env False inp 5 (AtRedeem u (po_RechargeCode r), db) = (Redeemed None, db1) \<and>
     ful_iter env inp 5 (AtRedeemLookup r lease, db1) = (Done None, db2) \<and>
     gget (pd_balance db2) u = Some (b + po_Amount r) \<and>
     pd_redeem_rebates db1 = pd_redeem_rebates db @ [(po_RechargeCode r, u, po_Amount r)] \<and>
     pd_rebates db2 = pd_rebates db @ [(po_ID r, po_UserID r, po_Amount r)]"
proof -
  have v: "0 < rdc_Value c" using c(7,8) by simp
  obtain db1 where one: "redeem_iter env False inp 5 (AtRedeem u (po_RechargeCode r), db) = (Redeemed None, db1)"
    "gget (pd_balance db1) u = Some (b + po_Amount r)" "pd_orders db1 = pd_orders db"
    "code_by_code db1 (po_RechargeCode r) = Some (mark_used (pi_now inp) (rdc_ID c) u c)" "pd_rebates db1 = pd_rebates db"
    "has_audit db1 = has_audit db" "pd_redeem_rebates db1 = pd_redeem_rebates db @ [(po_RechargeCode r, u, po_Amount r)]"
    using user_redeems [OF calm aff c(1-6) v bal] unfolding c(7) by blast
  have o1: "get_order db1 (po_ID r) = Some cur" using o(1) one(3) by (simp add: get_order_def)
  obtain db2 where two: "ful_iter env inp 4 (AtRebate r lease ''RECHARGE_SUCCESS'', db1) = (Done None, db2)"
    "pd_balance db2 = pd_balance db1" "pd_rebates db2 = pd_rebates db1 @ order_rebate env inp r db1"
    using finish_phase [OF calm o1 o(2,3)] by blast
  have "ful_step env inp (AtRedeemLookup r lease) db1 = (AtRebate r lease ''RECHARGE_SUCCESS'', db1)"
    using calm c(4) by (simp add: resolveRedeemAction_def one(4) calm_def mark_used_def IsUsed_def)
  then have "ful_iter env inp 5 (AtRedeemLookup r lease, db1) = (Done None, db2)"
    using ful_iter_add [of env inp 1 4 "(AtRedeemLookup r lease, db1)"] by (simp add: two(1) del: ful_step.simps)
  moreover have "order_rebate env inp r db1 = [(po_ID r, po_UserID r, po_Amount r)]"
    using aff ty c(8) un one(6) by (simp add: order_rebate_def rebate_claimed_def affiliateRebateBaseAmount_def)
  ultimately show ?thesis using one two by (intro exI [of _ db1] exI [of _ db2]) simp
qed

end
