(* ===== verification/Payment_Correct.thy ===== *)
theory Payment_Correct
  imports Payment_Arrival
begin

text \<open>
  What payments guarantee, from tables without orders and with any requests, in any interleaving
  of their statements and with any faults: the balances, the orders, the subscriptions and the
  rebates after a run; what a refused notification does; and what an undisturbed one does.
\<close>

section \<open>What a run guarantees\<close>

text \<open>
  C1. Money is credited exactly once. From tables without orders whose codes do not look like
  order codes, whatever requests interleave (creations, notifications, retries, cancellations,
  sweeps, and users who redeem any code) and whatever statements fail, also when \<open>CreateOrder\<close>
  marks an order FAILED that somebody has paid: every balance is what it was plus the codes its
  user has redeemed since (at least that, for a user who has redeemed a code that deducts); the
  code of an order exists only once a notification of its payment has passed the checks of
  \<open>confirmPayment\<close>, is worth the amount of the order, is no other order's code and is used at
  most once, by the owner of the order or by a user who asked to redeem that very code; and a
  completed balance order has its code used.
\<close>

theorem orders_credit_once:
  assumes "fresh_db db" and "\<And>w. entry (ph w)"
  shows "(\<forall>u. balance_ok (gget (pd_balance db) u) (credits (pay_run env sched ph db) u - credits db u)
        (no_debit (pay_run env sched ph db) u) (gget (pd_balance (pay_run env sched ph db)) u)) \<and>
     distinct (map rdc_Code (pd_codes (pay_run env sched ph db))) \<and>
     (\<forall>i r. get_order (pay_run env sched ph db) i = Some r \<longrightarrow>
        (\<forall>c \<in> set (pd_codes (pay_run env sched ph db)). rdc_Code c = po_RechargeCode r \<longrightarrow>
           rdc_Type c = ''balance'' \<and> rdc_Value c = po_Amount r \<and> accepted (pay_run env sched ph db) i \<and>
           (IsUsed c \<longrightarrow> (\<exists>u. rdc_UsedBy c = Some u \<and> (u = po_UserID r \<or> asks ph u (rdc_Code c))))) \<and>
        (po_Status r = OrderStatusCompleted \<and> po_OrderType r \<noteq> ''subscription'' \<longrightarrow>
           (\<exists>c \<in> set (pd_codes (pay_run env sched ph db)). rdc_Code c = po_RechargeCode r \<and> IsUsed c)) \<and>
        (\<forall>j s. get_order (pay_run env sched ph db) j = Some s \<longrightarrow> po_RechargeCode s = po_RechargeCode r \<longrightarrow> j = i))"
proof -
  let ?db = "pay_run env sched ph db"
  note inv = pay_run_facts(1) [where ph = ph and env = env and sched = sched, OF assms]
  have parts: "conserved (start_of ph db) ?db" "codes_ok ?db" "linked (start_of ph db) ?db" "orders_ok ?db"
    using inv by (simp_all add: pay_inv_def)
  have "balance_ok (og_balance (start_of ph db) u) (credits ?db u) (no_debit ?db u) (gget (pd_balance ?db) u)" for u
    using parts(1) unfolding conserved_def by blast
  then have "balance_ok (gget (pd_balance db) u) (credits ?db u - credits db u) (no_debit ?db u) (gget (pd_balance ?db) u)" for u
    by (rule balance_ok_shift) (simp add: start_of_def)
  moreover have d: "distinct (map rdc_Code (pd_codes ?db))" using parts(2) by (simp add: codes_ok_def)
  moreover have "rdc_Type c = ''balance'' \<and> rdc_Value c = po_Amount r \<and> accepted ?db i \<and>
      (IsUsed c \<longrightarrow> (\<exists>u. rdc_UsedBy c = Some u \<and> (u = po_UserID r \<or> asks ph u (rdc_Code c))))"
    if "get_order ?db i = Some r" "c \<in> set (pd_codes ?db)" "rdc_Code c = po_RechargeCode r" for i r c
  proof -
    have "code_by_code ?db (po_RechargeCode r) = Some c" using code_of_member [OF d that(2)] that(3) by simp
    with parts(3) that(1) show ?thesis
      unfolding linked_def start_of_def pay_origin.simps mem_Collect_eq prod.case by blast
  qed
  moreover have "\<exists>c \<in> set (pd_codes ?db). rdc_Code c = po_RechargeCode r \<and> IsUsed c"
    if "get_order ?db i = Some r" "po_Status r = OrderStatusCompleted" "po_OrderType r \<noteq> ''subscription''" for i r
    using inv_order(6) [OF inv that(1,2)] that(3) by (simp add: fulfilled_def used_member)
  moreover have "j = i" if "get_order ?db i = Some r" "get_order ?db j = Some s" "po_RechargeCode s = po_RechargeCode r" for i j r s
    by (rule same_recharge_code [OF parts(4) that(2,1,3)])
  ultimately show ?thesis by blast
qed

text \<open>
  C16. A subscription is granted at most once per order, in every such run: to the user of a
  subscription order for which a notification passed the checks of \<open>confirmPayment\<close>, with its
  group and days; and a completed subscription order has its audit row, and then its grant unless
  the row says that it was recovered from the subscription's note.
\<close>

theorem orders_grant_once:
  assumes "fresh_db db" and "\<And>w. entry (ph w)"
  shows "distinct (map fst (pd_grants (pay_run env sched ph db))) \<and>
     (\<forall>i u g d. (i, u, g, d) \<in> set (pd_grants (pay_run env sched ph db)) \<longrightarrow> accepted (pay_run env sched ph db) i \<and>
        (\<exists>r. get_order (pay_run env sched ph db) i = Some r \<and> po_OrderType r = ''subscription'' \<and>
           po_UserID r = u \<and> po_SubscriptionGroupID r = Some g \<and> po_SubscriptionDays r = Some d)) \<and>
     (\<forall>i r. get_order (pay_run env sched ph db) i = Some r \<and> po_Status r = OrderStatusCompleted \<and>
          po_OrderType r = ''subscription'' \<longrightarrow>
        (\<exists>row. gget (pd_audit (pay_run env sched ph db)) (i, ''SUBSCRIPTION_ASSIGNED'') = Some row \<and>
           (snd row \<or> (\<exists>g d. po_SubscriptionGroupID r = Some g \<and> po_SubscriptionDays r = Some d \<and>
              (i, po_UserID r, g, d) \<in> set (pd_grants (pay_run env sched ph db))))))"
proof -
  let ?db = "pay_run env sched ph db"
  note inv = pay_run_facts(1) [where ph = ph and env = env and sched = sched, OF assms]
  have g: "grants_ok ?db" using inv by (simp add: pay_inv_def)
  then have "distinct (map fst (pd_grants ?db))" by (simp add: grants_ok_def)
  moreover have "accepted ?db i \<and> (\<exists>r. get_order ?db i = Some r \<and> po_OrderType r = ''subscription'' \<and>
      po_UserID r = u \<and> po_SubscriptionGroupID r = Some x \<and> po_SubscriptionDays r = Some d)"
    if "(i, u, x, d) \<in> set (pd_grants ?db)" for i u x d
  proof -
    have "grant_ok ?db (i, u, x, d)" using g that unfolding grants_ok_def by blast
    then show ?thesis by (auto simp: grant_ok_def)
  qed
  moreover have "\<exists>row. gget (pd_audit ?db) (i, ''SUBSCRIPTION_ASSIGNED'') = Some row \<and>
      (snd row \<or> (\<exists>x d. po_SubscriptionGroupID r = Some x \<and> po_SubscriptionDays r = Some d \<and>
        (i, po_UserID r, x, d) \<in> set (pd_grants ?db)))"
    if r: "get_order ?db i = Some r" "po_Status r = OrderStatusCompleted" "po_OrderType r = ''subscription''" for i r
  proof -
    have "has_audit ?db i ''SUBSCRIPTION_ASSIGNED''"
      using inv_order(1,6) [OF inv r(1)] r(2,3) by (simp add: fulfilled_def)
    then obtain row where row: "gget (pd_audit ?db) (i, ''SUBSCRIPTION_ASSIGNED'') = Some row"
      unfolding has_audit_def by blast
    then have "(\<exists>r. get_order ?db i = Some r) \<and> snd row \<or>
        (\<exists>r g d. get_order ?db i = Some r \<and> po_SubscriptionGroupID r = Some g \<and> po_SubscriptionDays r = Some d \<and>
           (i, po_UserID r, g, d) \<in> set (pd_grants ?db))"
      using g unfolding grants_ok_def by blast
    with row r(1) show ?thesis by (metis option.inject)
  qed
  ultimately show ?thesis by blast
qed

text \<open>
  C28. In every such run, fulfilment accrues at most one affiliate rebate per order, with the
  user and the amount of the order, and only for an order whose code is used or whose
  subscription was assigned. The redeem service accrues on its own, only for a balance code of
  positive value, with its value and for the user who has used it.
\<close>

theorem orders_rebate_once:
  assumes "fresh_db db" and "\<And>w. entry (ph w)"
  shows "distinct (map fst (pd_rebates (pay_run env sched ph db))) \<and>
     (\<forall>i u b. (i, u, b) \<in> set (pd_rebates (pay_run env sched ph db)) \<longrightarrow>
        (\<exists>r. get_order (pay_run env sched ph db) i = Some r \<and> u = po_UserID r \<and> b = po_Amount r \<and>
           (if po_OrderType r = ''subscription'' then has_audit (pay_run env sched ph db) i ''SUBSCRIPTION_ASSIGNED''
            else \<exists>c \<in> set (pd_codes (pay_run env sched ph db)). rdc_Code c = po_RechargeCode r \<and> IsUsed c))) \<and>
     (\<forall>s u b. (s, u, b) \<in> set (pd_redeem_rebates (pay_run env sched ph db)) \<longrightarrow>
        (\<exists>c \<in> set (pd_codes (pay_run env sched ph db)). rdc_Code c = s \<and> IsUsed c \<and> rdc_UsedBy c = Some u \<and>
           rdc_Type c = ''balance'' \<and> rdc_Value c = b \<and> 0 < b))"
proof -
  let ?db = "pay_run env sched ph db"
  note inv = pay_run_facts(1) [where ph = ph and env = env and sched = sched, OF assms]
  then have ok: "rebates_ok ?db" "redeem_rebates_ok ?db" by (simp_all add: pay_inv_def)
  have "\<exists>r. get_order ?db i = Some r \<and> u = po_UserID r \<and> b = po_Amount r \<and>
      (if po_OrderType r = ''subscription'' then has_audit ?db i ''SUBSCRIPTION_ASSIGNED''
       else \<exists>c \<in> set (pd_codes ?db). rdc_Code c = po_RechargeCode r \<and> IsUsed c)"
    if x: "(i, u, b) \<in> set (pd_rebates ?db)" for i u b
  proof -
    obtain r where r: "get_order ?db i = Some r" "u = po_UserID r" "b = po_Amount r" "fulfilled ?db r"
      using ok(1) x unfolding rebates_ok_def by blast
    with inv_order(1) [OF inv r(1)] show ?thesis by (auto simp: fulfilled_def dest: used_member split: if_splits)
  qed
  moreover have "\<exists>c \<in> set (pd_codes ?db). rdc_Code c = s \<and> IsUsed c \<and> rdc_UsedBy c = Some u \<and>
      rdc_Type c = ''balance'' \<and> rdc_Value c = b \<and> 0 < b"
    if x: "(s, u, b) \<in> set (pd_redeem_rebates ?db)" for s u b
  proof -
    obtain c where c: "code_by_code ?db s = Some c" "rdc_Status c = ''used''" "rdc_UsedBy c = Some u"
      "rdc_Type c = ''balance''" "rdc_Value c = b" "0 < b"
      using ok(2) x unfolding redeem_rebates_ok_def by blast
    with code_in [OF c(1)] show ?thesis by (auto simp: IsUsed_def)
  qed
  moreover have "distinct (map fst (pd_rebates ?db))" using ok(1) by (simp add: rebates_ok_def)
  ultimately show ?thesis by blast
qed

text \<open>
  C7. An order is paid once: whatever payment requests do after a moment of a run (refunds are
  not among them), an order keeps its user, its amount, its code and its type; once it has left
  the statuses pending, cancelled and expired it never goes back to them, nor back to PAID from a
  later status; once paid, it keeps the time and the amount of its payment; once completed, it
  stays fulfilled (its code is used, or its subscription assigned), and stays COMPLETED when the
  request that created it has returned. Before that, \<open>CreateOrder\<close> may still mark it FAILED.
\<close>

theorem orders_paid_once:
  assumes "fresh_db db" and "\<And>w. entry (ph w)"
    and "get_order (pay_run env sched ph db) i = Some r"
  shows "\<exists>s. get_order (pay_run env (sched @ later) ph db) i = Some s \<and> fixed_columns s = fixed_columns r \<and>
     (open_status (po_Status s) \<longrightarrow> open_status (po_Status r)) \<and>
     (po_Status s = OrderStatusPaid \<longrightarrow> open_status (po_Status r) \<or> po_Status r = OrderStatusPaid) \<and>
     (po_PaidAt r \<noteq> None \<longrightarrow> po_PaidAt s = po_PaidAt r \<and> po_PayAmount s = po_PayAmount r) \<and>
     (po_Status r = OrderStatusCompleted \<longrightarrow>
        (if po_OrderType s = ''subscription'' then has_audit (pay_run env (sched @ later) ph db) i ''SUBSCRIPTION_ASSIGNED''
         else \<exists>c \<in> set (pd_codes (pay_run env (sched @ later) ph db)). rdc_Code c = po_RechargeCode s \<and> IsUsed c) \<and>
        ((\<forall>w. creating (pay_phases env sched ph db w) \<noteq> Some i) \<longrightarrow> po_Status s = OrderStatusCompleted))"
proof -
  let ?c = "interleave (order_step env) sched (ph, db)"
  let ?db = "pay_run env sched ph db" and ?db' = "pay_run env (sched @ later) ph db"
  note facts = pay_run_facts [where ph = ph and env = env and sched = sched, OF assms(1,2)]
  have inv: "pay_inv (start_of ph db) (snd ?c)" using facts(1) by (simp add: pay_run_def)
  have fact: "order_fact (start_of ph db) (snd ?c) (fst ?c w)" for w
    using facts(2) [of w] by (simp add: pay_run_def pay_phases_def)
  have then_run: "?db' = snd (interleave (order_step env) later ?c)" by (simp add: pay_run_def interleave_append)
  have ev: "db_evolves ?db ?db'" and inv': "pay_inv (start_of ph db) ?db'"
    unfolding then_run pay_run_def [of env sched] using pay.runs(1,2) [OF inv fact] by blast+
  from db_evolves_order [OF ev assms(3)] obtain s where s: "get_order ?db' i = Some s" and e: "order_evolves r s"
    by blast
  have cols: "fixed_columns s = fixed_columns r" using e by (simp add: order_evolves_def)
  have completed: "if po_OrderType s = ''subscription'' then has_audit ?db' i ''SUBSCRIPTION_ASSIGNED''
      else \<exists>c \<in> set (pd_codes ?db'). rdc_Code c = po_RechargeCode s \<and> IsUsed c"
    if "po_Status r = OrderStatusCompleted"
  proof -
    have "fulfilled ?db r" using inv_order(6) [OF facts(1) assms(3) that] .
    then have "fulfilled ?db' s" using fulfilled_evolves [OF ev] fulfilled_columns [OF cols] by blast
    then show ?thesis using inv_order(1) [OF inv' s] by (auto simp: fulfilled_def dest: used_member split: if_splits)
  qed
  have "po_Status s = OrderStatusCompleted"
    if "po_Status r = OrderStatusCompleted" "\<forall>w. creating (pay_phases env sched ph db w) \<noteq> Some i"
  proof -
    have "\<And>w. order_fact (start_of ph db) (snd ?c) (fst ?c w) \<and> (\<exists>x. get_order (snd ?c) i = Some x) \<and> creating (fst ?c w) \<noteq> Some i"
      using fact assms(3) that(2) by (simp add: pay_run_def pay_phases_def)
    from settled.runs(2) [OF inv this, of env later] have "stays_completed i ?db ?db'"
      unfolding then_run pay_run_def [of env sched] by blast
    with assms(3) that(1) s show ?thesis by (auto simp: stays_completed_def)
  qed
  with s e cols completed show ?thesis
    by (intro exI [of _ s]) (auto simp: order_evolves_def stage_def split: if_splits)
qed

section \<open>One notification\<close>

lemma confirm_accepts:
  "confirm_checks env r k n pk = Inr amt \<Longrightarrow> pn_Amount n = Finite amt \<and> 0 < amt \<and>
     \<bar>amt - po_PayAmount r\<bar> \<le> paymentAmountToleranceForCurrency (PaymentOrderCurrency (po_ProviderSnapshot r)) \<and>
     (expected_provider_key env r k = [] \<or> trim_space pk = [] \<or> equal_fold (expected_provider_key env r k) (trim_space pk)) \<and>
     validateProviderSnapshotMetadata (po_ProviderSnapshot r) pk (pn_Metadata n) = None"
  unfolding confirm_checks_def Let_def
  by (cases "pn_Amount n") (auto simp: isValidProviderAmount_def split: option.splits if_splits)


text \<open>
  C17. A payment arrives: for a pending balance order, an undisturbed notification that fits (no
  other request moves in between, every statement works, the rate limiter and the lock of the
  redeem service let it pass, and the affiliate service, when there is one, answers without an
  error) completes the order and credits exactly its amount to its user and nothing to anybody
  else, from any tables that earlier runs have left; it answers without an error. The accrual of
  the inviter is recorded, once, when the service is configured and accrues something.
\<close>

theorem payment_credits_balance:
  assumes "pay_inv base db" and "calm inp" and "ph w = AtNotified (AtLookup n pk)"
    and "orders_by_trade_no db (pn_OrderID n) = [r]" and "get_order db (po_ID r) = Some r"
    and "pn_Status n = ''success''" and "po_Status r = OrderStatusPending" and "po_OrderType r = ''balance''"
    and "confirm_checks env r (pi_instanceKey inp) n pk = Inr amt"
    and "gget (pd_balance db) (po_UserID r) = Some b"
  shows "\<exists>db'. interleave (order_step env) (replicate 20 (w, inp)) (ph, db) = (ph(w := Finished (ResDone None)), db') \<and>
     (\<exists>s. get_order db' (po_ID r) = Some s \<and> fixed_columns s = fixed_columns r \<and>
        po_Status s = OrderStatusCompleted \<and> po_PayAmount s = amt \<and>
        po_PaidAt s = Some (pi_now inp) \<and> po_CompletedAt s = Some (pi_now inp) \<and> po_PaymentTradeNo s = pn_TradeNo n) \<and>
     (\<forall>u. gget (pd_balance db') u = (if u = po_UserID r then Some (b + po_Amount r) else gget (pd_balance db) u)) \<and>
     pd_grants db' = pd_grants db \<and> pd_rebates db' = pd_rebates db @ order_rebate env inp r db"
proof -
  obtain db' where run: "ful_iter env inp 19 (AtLookup n pk, db) = (Done None, db')"
    and rest: "\<exists>s. get_order db' (po_ID r) = Some s \<and> fixed_columns s = fixed_columns r \<and>
        po_Status s = OrderStatusCompleted \<and> po_PayAmount s = amt \<and>
        po_PaidAt s = Some (pi_now inp) \<and> po_CompletedAt s = Some (pi_now inp) \<and> po_PaymentTradeNo s = pn_TradeNo n"
      "\<forall>u. gget (pd_balance db') u = (if u = po_UserID r then Some (b + po_Amount r) else gget (pd_balance db) u)"
      "pd_grants db' = pd_grants db" "pd_rebates db' = pd_rebates db @ order_rebate env inp r db"
    using payment_arrives [OF assms(1,2,4-10)] by blast
  from solo_run [of ph w "AtLookup n pk", OF assms(3) run] rest show ?thesis by simp
qed

text \<open>
  C30. A subscription is bought: for a pending subscription order, an undisturbed notification that
  fits (as for balance orders; moreover the group is active, the subscription service is there,
  no earlier subscription of the user names the order in its note, and the caches can be
  invalidated) completes the order, assigns exactly its group and days to its user, once, and
  leaves every balance alone, from any tables that earlier runs have left; it answers without an
  error.
\<close>

theorem payment_assigns_subscription:
  assumes "pay_inv base db" and "calm inp" and "ph w = AtNotified (AtLookup n pk)"
    and "pi_groupActive inp" and "pi_note inp = NoteAbsent" and "\<not> pi_cacheFails inp" and "pe_subscriptions env"
    and "orders_by_trade_no db (pn_OrderID n) = [r]" and "get_order db (po_ID r) = Some r"
    and "pn_Status n = ''success''" and "po_Status r = OrderStatusPending" and "po_OrderType r = ''subscription''"
    and "po_SubscriptionGroupID r = Some g" and "po_SubscriptionDays r = Some d"
    and "confirm_checks env r (pi_instanceKey inp) n pk = Inr amt"
  shows "\<exists>db'. interleave (order_step env) (replicate 17 (w, inp)) (ph, db) = (ph(w := Finished (ResDone None)), db') \<and>
     (\<exists>s. get_order db' (po_ID r) = Some s \<and> fixed_columns s = fixed_columns r \<and>
        po_Status s = OrderStatusCompleted \<and> po_PayAmount s = amt \<and>
        po_PaidAt s = Some (pi_now inp) \<and> po_CompletedAt s = Some (pi_now inp) \<and> po_PaymentTradeNo s = pn_TradeNo n) \<and>
     pd_balance db' = pd_balance db \<and> pd_codes db' = pd_codes db \<and>
     pd_grants db' = pd_grants db @ [(po_ID r, po_UserID r, g, d)] \<and>
     pd_rebates db' = pd_rebates db @ order_rebate env inp r db"
proof -
  obtain db' where run: "ful_iter env inp 16 (AtLookup n pk, db) = (Done None, db')"
    and rest: "\<exists>s. get_order db' (po_ID r) = Some s \<and> fixed_columns s = fixed_columns r \<and>
        po_Status s = OrderStatusCompleted \<and> po_PayAmount s = amt \<and>
        po_PaidAt s = Some (pi_now inp) \<and> po_CompletedAt s = Some (pi_now inp) \<and> po_PaymentTradeNo s = pn_TradeNo n"
      "pd_balance db' = pd_balance db" "pd_codes db' = pd_codes db"
      "pd_grants db' = pd_grants db @ [(po_ID r, po_UserID r, g, d)]"
      "pd_rebates db' = pd_rebates db @ order_rebate env inp r db"
    using subscription_arrives [OF assms(1,2,4-15)] by blast
  from solo_run [of ph w "AtLookup n pk", OF assms(3) run] rest show ?thesis by simp
qed

section \<open>An example\<close>

text \<open>Two users, a balance order, a subscription order and a notification of the payment of each.\<close>

definition sample_db :: pay_db where
  "sample_db = \<lparr>pd_orders = [], pd_nextOrder = 1, pd_codes = [], pd_nextCode = 1, pd_balance = [(7, 5), (8, 3)],
     pd_audit = [], pd_grants = [], pd_rebates = [], pd_redeem_rebates = [], pd_accepted = []\<rparr>"

definition sample_order :: payment_order where
  "sample_order = \<lparr>po_ID = 0, po_UserID = 7, po_Amount = 10, po_PayAmount = 10, po_RechargeCode = [],
     po_OutTradeNo = ''T1'', po_PaymentType = ''alipay'', po_PaymentTradeNo = [], po_OrderType = ''balance'',
     po_SubscriptionGroupID = None, po_SubscriptionDays = None, po_ProviderKey = ''alipay'', po_ProviderSnapshot = [],
     po_Status = ''PENDING'', po_ExpiresAt = 900, po_PaidAt = None, po_CompletedAt = None, po_FailedAt = None, po_UpdatedAt = 0\<rparr>"

definition sample_plan :: payment_order where
  "sample_plan = sample_order\<lparr>po_UserID := 8, po_OutTradeNo := ''T2'', po_OrderType := ''subscription'',
     po_SubscriptionGroupID := Some 3, po_SubscriptionDays := Some 30\<rparr>"

definition sample_pay_input :: pay_input where
  "sample_pay_input = \<lparr>pi_fault = Works, pi_now = 12345, pi_instanceKey = None, pi_limited = False, pi_locked = False,
     pi_groupActive = True, pi_note = NoteAbsent, pi_rebate = Some 1, pi_cacheFails = False,
     pi_provider = Some (''alipay'', Reply ''created'' ''P1'' NaN [])\<rparr>"

definition sample_pay_env :: pay_env where
  "sample_pay_env = \<lparr>pe_registry = None, pe_affiliate = True, pe_subscriptions = True\<rparr>"

definition sample_notification :: PaymentNotification where
  "sample_notification = \<lparr>pn_TradeNo = ''A9'', pn_OrderID = ''T1'', pn_Amount = Finite 10, pn_Status = ''success'', pn_Metadata = []\<rparr>"

definition sample_requests :: "nat \<Rightarrow> order_phase" where
  "sample_requests w =
     (if w = 0 then AtCreate sample_order
      else if w = 1 then AtNotified (AtLookup sample_notification ''alipay'')
      else if w = 2 then AtCreate sample_plan
      else AtNotified (AtLookup (sample_notification\<lparr>pn_OrderID := ''T2''\<rparr>) ''alipay''))"

lemmas sample_defs = sample_db_def sample_order_def sample_plan_def sample_pay_input_def sample_pay_env_def
  sample_notification_def sample_requests_def

text \<open>The row of an order that is the first of these tables, and the tables with it.\<close>

definition first_row :: "payment_order \<Rightarrow> payment_order" where
  "first_row r = r\<lparr>po_ID := 1, po_RechargeCode := recharge_code 1 12345, po_PaymentTradeNo := ''P1'', po_UpdatedAt := 12345\<rparr>"

definition created_db :: "payment_order \<Rightarrow> pay_db" where
  "created_db r = write_audit 1 ''ORDER_CREATED'' (''user:'' @ show_int (po_UserID r))
     (sample_db\<lparr>pd_orders := [(1, first_row r)], pd_nextOrder := 2\<rparr>)"

abbreviation (input) created_ph :: "nat \<Rightarrow> nat \<Rightarrow> order_phase" where
  "created_ph w \<equiv> sample_requests(w := Finished (ResDone None))"

lemma sample_fresh: "fresh_db sample_db"
  by (simp add: fresh_db_def sample_db_def)

lemma sample_entry: "entry (sample_requests w)"
  by (simp add: sample_requests_def sample_order_def sample_plan_def)

lemma sample_created:
  "interleave (order_step sample_pay_env) (replicate 4 (0, sample_pay_input)) (sample_requests, sample_db) =
     (created_ph 0, created_db sample_order)"
  "interleave (order_step sample_pay_env) (replicate 4 (2, sample_pay_input)) (sample_requests, sample_db) =
     (created_ph 2, created_db sample_plan)"
  by (simp_all add: eval_nat_numeral sample_defs first_row_def insert_order_def Let_def gput_def invokeProvider_def run_update_works
      save_provider_def update_order_def get_order_def gget_def removePostgresTextNUL_def created_db_def fun_eq_iff)

lemma sample_calm: "calm sample_pay_input"
  by (simp add: calm_def sample_defs)

lemma trim_alipay: "trim_space ''alipay'' = ''alipay''"
  using trim_space_bare [of "CHR ''a''" "CHR ''y''" "''lipa''"] by (simp add: space_runes_def)

lemma tolerance_positive: "0 \<le> paymentAmountToleranceForCurrency c"
  by (simp add: paymentAmountToleranceForCurrency_def Let_def)

lemma sample_checks:
  assumes "po_ProviderSnapshot r = []" and "po_PaymentType r = ''alipay''" and "po_ProviderKey r = ''alipay''"
    and "po_PayAmount r = 10" and "pn_Amount n = Finite 10" and "pn_Metadata n = []"
  shows "confirm_checks sample_pay_env r (pi_instanceKey sample_pay_input) n ''alipay'' = Inr 10"
  using assms by (simp add: confirm_checks_def expected_provider_key_def expectedNotificationProviderKey_def
      psOrderProviderSnapshot_def validateProviderSnapshotMetadata_def PaymentOrderCurrency_def isValidProviderAmount_def
      equal_fold_def tolerance_positive not_less Let_def sample_pay_env_def sample_pay_input_def trim_alipay glen_def)

lemma created_inv:
  "pay_inv (start_of sample_requests sample_db) (created_db sample_order)"
  "pay_inv (start_of sample_requests sample_db) (created_db sample_plan)"
  using pay_run_facts(1) [where ph = sample_requests and env = sample_pay_env and sched = "replicate 4 (0, sample_pay_input)", OF sample_fresh sample_entry]
    pay_run_facts(1) [where ph = sample_requests and env = sample_pay_env and sched = "replicate 4 (2, sample_pay_input)", OF sample_fresh sample_entry]
  by (simp_all only: pay_run_def sample_created snd_conv)

lemma created_facts:
  "orders_by_trade_no (created_db r) s = (if po_OutTradeNo r = s then [first_row r] else [])"
  "get_order (created_db r) 1 = Some (first_row r)"
  "gget (pd_balance (created_db r)) 7 = Some 5" "gget (pd_balance (created_db r)) 8 = Some 3"
  "pd_grants (created_db r) = []" "pd_rebates (created_db r) = []" "has_audit (created_db r) 1 ''AFFILIATE_REBATE_APPLIED'' = False"
  "has_audit (created_db r) 1 ''AFFILIATE_REBATE_SKIPPED'' = False"
  by (simp_all add: orders_by_trade_no_def first_row_def created_db_def get_order_def gget_def sample_db_def has_audit_def
      write_audit_def insert_audit_def gput_def)

lemma first_row_facts [simp]:
  "po_ID (first_row r) = 1" "po_UserID (first_row r) = po_UserID r" "po_Amount (first_row r) = po_Amount r"
  "po_Status (first_row r) = po_Status r" "po_OrderType (first_row r) = po_OrderType r"
  "po_SubscriptionGroupID (first_row r) = po_SubscriptionGroupID r" "po_SubscriptionDays (first_row r) = po_SubscriptionDays r"
  "po_ProviderSnapshot (first_row r) = po_ProviderSnapshot r" "po_PaymentType (first_row r) = po_PaymentType r"
  "po_ProviderKey (first_row r) = po_ProviderKey r" "po_PayAmount (first_row r) = po_PayAmount r"
  by (simp_all add: first_row_def)

lemma sample_rebate:
  assumes "po_OrderType r = ''balance'' \<or> po_OrderType r = ''subscription''" and "0 < po_Amount r"
  shows "order_rebate sample_pay_env sample_pay_input (first_row r) (created_db r) = [(1, po_UserID r, po_Amount r)]"
  using assms by (auto simp: order_rebate_def affiliateRebateBaseAmount_def rebate_claimed_def created_facts(7,8)
      sample_pay_env_def sample_pay_input_def)

text \<open>Two schedules: create and pay the balance order; create and pay the subscription.\<close>

definition sample_sched :: "(nat \<times> pay_input) list" where
  "sample_sched = replicate 4 (0, sample_pay_input) @ replicate 20 (1, sample_pay_input)"

definition plan_sched :: "(nat \<times> pay_input) list" where
  "plan_sched = replicate 4 (2, sample_pay_input) @ replicate 17 (3, sample_pay_input)"

lemma order_columns:
  "po_OrderType sample_order = ''balance''" "po_Status sample_order = OrderStatusPending" "po_OutTradeNo sample_order = ''T1''"
  "po_UserID sample_order = 7" "po_Amount sample_order = 10" "po_ProviderSnapshot sample_order = []"
  "po_PaymentType sample_order = ''alipay''" "po_ProviderKey sample_order = ''alipay''" "po_PayAmount sample_order = 10"
  by (simp_all add: sample_order_def)

lemma plan_columns:
  "po_OrderType sample_plan = ''subscription''" "po_Status sample_plan = OrderStatusPending" "po_OutTradeNo sample_plan = ''T2''"
  "po_UserID sample_plan = 8" "po_Amount sample_plan = 10" "po_ProviderSnapshot sample_plan = []"
  "po_PaymentType sample_plan = ''alipay''" "po_ProviderKey sample_plan = ''alipay''" "po_PayAmount sample_plan = 10"
  "po_SubscriptionGroupID sample_plan = Some 3" "po_SubscriptionDays sample_plan = Some 30"
  by (simp_all add: sample_plan_def sample_order_def)

lemma notification_columns:
  "pn_Status sample_notification = ''success''" "pn_OrderID sample_notification = ''T1''"
  "pn_Amount sample_notification = Finite 10" "pn_Metadata sample_notification = []"
  by (simp_all add: sample_notification_def)

lemma sample_paid:
  "(\<exists>s. get_order (pay_run sample_pay_env sample_sched sample_requests sample_db) 1 = Some s \<and>
      fixed_columns s = fixed_columns (first_row sample_order) \<and>
      po_Status s = OrderStatusCompleted \<and> po_PayAmount s = 10 \<and> po_PaidAt s = Some 12345) \<and>
   gget (pd_balance (pay_run sample_pay_env sample_sched sample_requests sample_db)) 7 = Some 15 \<and>
   pd_rebates (pay_run sample_pay_env sample_sched sample_requests sample_db) = [(1, 7, 10)] \<and>
   (\<forall>w. creating (pay_phases sample_pay_env sample_sched sample_requests sample_db w) \<noteq> Some 1)"
proof -
  obtain db' where iter: "ful_iter sample_pay_env sample_pay_input 19
        (AtLookup sample_notification ''alipay'', created_db sample_order) = (Done None, db')"
    and s: "\<exists>s. get_order db' 1 = Some s \<and> fixed_columns s = fixed_columns (first_row sample_order) \<and> po_Status s = OrderStatusCompleted \<and>
      po_PayAmount s = 10 \<and> po_PaidAt s = Some (pi_now sample_pay_input)" and b: "gget (pd_balance db') 7 = Some 15"
      "pd_rebates db' = [(1, 7, 10)]"
    using payment_arrives [where n = sample_notification and r = "first_row sample_order" and pk = "''alipay''" and b = 5,
        OF created_inv(1) sample_calm, of sample_pay_env 10]
      sample_checks [of "first_row sample_order" sample_notification] sample_rebate [of sample_order]
    by (auto simp: created_facts(1-6) order_columns notification_columns)
  have "created_ph 0 1 = AtNotified (AtLookup sample_notification ''alipay'')" by (simp add: sample_requests_def)
  note solo = solo_run [of "created_ph 0" 1, OF this iter]
  have "Suc 19 = (20 :: nat)" by simp
  from solo [unfolded this]
  have run: "interleave (order_step sample_pay_env) (replicate 20 (1, sample_pay_input)) (created_ph 0, created_db sample_order) =
      ((created_ph 0)(1 := Finished (ResDone None)), db')" .
  have "pay_run sample_pay_env sample_sched sample_requests sample_db = db'"
    and "pay_phases sample_pay_env sample_sched sample_requests sample_db = (created_ph 0)(1 := Finished (ResDone None))"
    by (simp_all only: pay_run_def pay_phases_def sample_sched_def interleave_append sample_created(1) run fst_conv snd_conv)
  moreover have "creating (((created_ph 0)(1 := Finished (ResDone None))) w) \<noteq> Some 1" for w
    by (simp add: sample_requests_def)
  ultimately show ?thesis using s b by (auto simp: sample_pay_input_def)
qed

lemma plan_paid:
  "pd_grants (pay_run sample_pay_env plan_sched sample_requests sample_db) = [(1, 8, 3, 30)] \<and>
   (\<exists>s. get_order (pay_run sample_pay_env plan_sched sample_requests sample_db) 1 = Some s \<and>
      fixed_columns s = fixed_columns (first_row sample_plan) \<and> po_Status s = OrderStatusCompleted)"
proof -
  let ?n = "sample_notification\<lparr>pn_OrderID := ''T2''\<rparr>"
  have sub: "pi_groupActive sample_pay_input" "pi_note sample_pay_input = NoteAbsent" "\<not> pi_cacheFails sample_pay_input"
    "pe_subscriptions sample_pay_env" by (simp_all add: sample_defs)
  obtain db' where iter: "ful_iter sample_pay_env sample_pay_input 16 (AtLookup ?n ''alipay'', created_db sample_plan) = (Done None, db')"
    and s: "\<exists>s. get_order db' 1 = Some s \<and> fixed_columns s = fixed_columns (first_row sample_plan) \<and> po_Status s = OrderStatusCompleted"
    and g: "pd_grants db' = [(1, 8, 3, 30)]"
    using subscription_arrives [where n = ?n and r = "first_row sample_plan" and pk = "''alipay''" and g = 3 and d = 30,
        OF created_inv(2) sample_calm sub, of 10] sample_checks [of "first_row sample_plan" ?n]
    by (auto simp: created_facts(1-6) plan_columns notification_columns)
  have "created_ph 2 3 = AtNotified (AtLookup ?n ''alipay'')" by (simp add: sample_requests_def)
  note solo = solo_run [of "created_ph 2" 3, OF this iter]
  have "Suc 16 = (17 :: nat)" by simp
  from solo [unfolded this]
  have run: "interleave (order_step sample_pay_env) (replicate 17 (3, sample_pay_input)) (created_ph 2, created_db sample_plan) =
      ((created_ph 2)(3 := Finished (ResDone None)), db')" .
  have "pay_run sample_pay_env plan_sched sample_requests sample_db = db'"
    by (simp only: pay_run_def plan_sched_def interleave_append sample_created(2) run snd_conv)
  with s g show ?thesis by simp
qed

section \<open>Witnesses\<close>

lemma nobody_asks: "\<not> asks sample_requests u s"
  by (simp add: asks_def sample_requests_def)

theorem orders_credit_once_witness:
  "let db = pay_run sample_pay_env sample_sched sample_requests sample_db in
   gget (pd_balance db) 7 = Some 15 \<and> 5 + credits db 7 \<le> 15 \<and> distinct (map rdc_Code (pd_codes db)) \<and> accepted db 1 \<and>
   (\<exists>c \<in> set (pd_codes db). IsUsed c \<and> rdc_Type c = ''balance'' \<and> rdc_Value c = 10 \<and> rdc_UsedBy c = Some 7)"
proof -
  let ?db = "pay_run sample_pay_env sample_sched sample_requests sample_db"
  obtain s where s: "get_order ?db 1 = Some s" "fixed_columns s = fixed_columns (first_row sample_order)" "po_Status s = OrderStatusCompleted"
    using sample_paid by blast
  have cols: "po_OrderType s = ''balance''" "po_UserID s = 7" "po_Amount s = 10"
    using s(2) by (simp_all add: fixed_columns_def order_columns)
  note all = orders_credit_once [where ph = sample_requests and env = sample_pay_env and sched = sample_sched, OF sample_fresh sample_entry]
  have "balance_ok (gget (pd_balance sample_db) 7) (credits ?db 7 - credits sample_db 7) (no_debit ?db 7) (gget (pd_balance ?db) 7)"
    using all by blast
  then have "5 + credits ?db 7 \<le> 15"
    using sample_paid by (simp add: balance_ok_def credits_def sample_db_def gget_def)
  moreover have "\<exists>c \<in> set (pd_codes ?db). rdc_Code c = po_RechargeCode s \<and> IsUsed c"
    using all s(1,3) cols(1) by fastforce
  then obtain c where c: "c \<in> set (pd_codes ?db)" "rdc_Code c = po_RechargeCode s" "IsUsed c" by blast
  have "rdc_Type c = ''balance'' \<and> rdc_Value c = po_Amount s \<and> accepted ?db 1 \<and>
      (IsUsed c \<longrightarrow> (\<exists>u. rdc_UsedBy c = Some u \<and> (u = po_UserID s \<or> asks sample_requests u (rdc_Code c))))"
    using all s(1) c(1,2) by blast
  then have "rdc_Type c = ''balance'' \<and> rdc_Value c = 10 \<and> rdc_UsedBy c = Some 7 \<and> accepted ?db 1"
    using c(3) cols nobody_asks by auto
  ultimately show ?thesis using all c(1,3) sample_paid unfolding Let_def by blast
qed

theorem orders_grant_once_witness:
  "let db = pay_run sample_pay_env plan_sched sample_requests sample_db in
   pd_grants db = [(1, 8, 3, 30)] \<and> accepted db 1 \<and>
   (\<exists>r. get_order db 1 = Some r \<and> po_OrderType r = ''subscription'' \<and> po_UserID r = 8 \<and>
      po_SubscriptionGroupID r = Some 3 \<and> po_SubscriptionDays r = Some 30)"
  using orders_grant_once [where ph = sample_requests and env = sample_pay_env and sched = plan_sched, OF sample_fresh sample_entry]
    plan_paid unfolding Let_def by (metis list.set_intros(1))

theorem orders_rebate_once_witness:
  "let db = pay_run sample_pay_env sample_sched sample_requests sample_db in
   pd_rebates db = [(1, 7, 10)] \<and>
   (\<exists>r. get_order db 1 = Some r \<and> po_UserID r = 7 \<and> po_Amount r = 10 \<and>
      (\<exists>c \<in> set (pd_codes db). rdc_Code c = po_RechargeCode r \<and> IsUsed c))"
proof -
  let ?db = "pay_run sample_pay_env sample_sched sample_requests sample_db"
  have rb: "pd_rebates ?db = [(1, 7, 10)]" using sample_paid by blast
  then have "(1, 7, 10) \<in> set (pd_rebates ?db)" by simp
  then obtain r where r: "get_order ?db 1 = Some r" "7 = po_UserID r" "10 = po_Amount r"
      "if po_OrderType r = ''subscription'' then has_audit ?db 1 ''SUBSCRIPTION_ASSIGNED''
       else \<exists>c \<in> set (pd_codes ?db). rdc_Code c = po_RechargeCode r \<and> IsUsed c"
    using orders_rebate_once [where ph = sample_requests and env = sample_pay_env and sched = sample_sched, OF sample_fresh sample_entry]
    by blast
  moreover have "po_OrderType r = ''balance''"
    using sample_paid r(1) by (auto simp: fixed_columns_def order_columns)
  ultimately show ?thesis using rb by (simp add: Let_def)
qed

theorem orders_paid_once_witness:
  "\<exists>s. get_order (pay_run sample_pay_env (sample_sched @ replicate 9 (2, sample_pay_input)) sample_requests sample_db) 1 = Some s \<and>
     po_PaidAt s = Some 12345 \<and> po_PayAmount s = 10 \<and> po_Status s = OrderStatusCompleted"
proof -
  obtain r where r: "get_order (pay_run sample_pay_env sample_sched sample_requests sample_db) 1 = Some r"
    "po_Status r = OrderStatusCompleted" "po_PayAmount r = 10" "po_PaidAt r = Some 12345"
    using sample_paid by blast
  from orders_paid_once [where ph = sample_requests and env = sample_pay_env and sched = sample_sched
      and later = "replicate 9 (2, sample_pay_input)", OF sample_fresh sample_entry r(1)] r(2-4) sample_paid
  show ?thesis by auto
qed


theorem payment_credits_balance_witness:
  "\<exists>db'. interleave (order_step sample_pay_env) (replicate 20 (1, sample_pay_input)) (created_ph 0, created_db sample_order) =
       ((created_ph 0)(1 := Finished (ResDone None)), db') \<and> gget (pd_balance db') 7 = Some 15 \<and> gget (pd_balance db') 8 = Some 3 \<and>
     pd_rebates db' = [(1, 7, 10)]"
  using payment_credits_balance [where ph = "created_ph 0" and w = 1 and n = sample_notification and pk = "''alipay''"
      and r = "first_row sample_order" and b = 5 and amt = 10 and env = sample_pay_env, OF created_inv(1) sample_calm]
    sample_checks [of "first_row sample_order" sample_notification] sample_rebate [of sample_order]
  by (auto simp: created_facts(1-6) order_columns notification_columns sample_requests_def simp del: interleave.simps)

theorem payment_assigns_subscription_witness:
  "\<exists>db'. interleave (order_step sample_pay_env) (replicate 17 (3, sample_pay_input)) (created_ph 2, created_db sample_plan) =
       ((created_ph 2)(3 := Finished (ResDone None)), db') \<and> pd_grants db' = [(1, 8, 3, 30)] \<and>
     gget (pd_balance db') 8 = Some 3"
proof -
  let ?n = "sample_notification\<lparr>pn_OrderID := ''T2''\<rparr>"
  have sub: "pi_groupActive sample_pay_input" "pi_note sample_pay_input = NoteAbsent" "\<not> pi_cacheFails sample_pay_input"
    "pe_subscriptions sample_pay_env" by (simp_all add: sample_defs)
  have "created_ph 2 3 = AtNotified (AtLookup ?n ''alipay'')" by (simp add: sample_requests_def)
  from payment_assigns_subscription [where ph = "created_ph 2" and w = 3 and n = ?n and pk = "''alipay''"
      and r = "first_row sample_plan" and g = 3 and d = 30 and amt = 10, OF created_inv(2) sample_calm this sub] sample_checks [of "first_row sample_plan" ?n]
  show ?thesis by (auto simp: created_facts(1-6) plan_columns notification_columns simp del: interleave.simps)
qed

end
