(* ===== verification/Decimal.thy ===== *)
theory Decimal
  imports Complex_Main Prelude Strconv
begin

text \<open>
  Decimal amounts. A float64 amount is the rational number it stands for. \<open>NUMERIC(p, n)\<close>
  columns of PostgreSQL and \<open>Round\<close> of shopspring/decimal keep n digits and round halves away
  from zero; \<open>fmt\<close> prints n digits and rounds halves to even. Columns do not overflow: 20 digits
  are far beyond any balance.
\<close>

section \<open>Rounding\<close>

definition round_away :: "nat \<Rightarrow> rat \<Rightarrow> rat" where
  "round_away n x =
     (if 0 \<le> x then of_int \<lfloor>x * 10 ^ n + 1 / 2\<rfloor> else - of_int \<lfloor>- x * 10 ^ n + 1 / 2\<rfloor>) / 10 ^ n"

text \<open>Amounts with n digits.\<close>

definition has_digits :: "nat \<Rightarrow> rat \<Rightarrow> bool" where
  "has_digits n x \<longleftrightarrow> of_int \<lfloor>x * 10 ^ n\<rfloor> = x * 10 ^ n"

abbreviation num8 :: "rat \<Rightarrow> rat" where
  "num8 \<equiv> round_away 8"

abbreviation num10 :: "rat \<Rightarrow> rat" where
  "num10 \<equiv> round_away 10"

lemma has_digits_iff: "has_digits n x \<longleftrightarrow> (\<exists>k. x = of_int k / 10 ^ n)"
proof
  assume "has_digits n x"
  then have "x = of_int \<lfloor>x * 10 ^ n\<rfloor> / 10 ^ n"
    unfolding has_digits_def by (metis nonzero_mult_div_cancel_right power_not_zero zero_neq_numeral)
  then show "\<exists>k. x = of_int k / 10 ^ n" ..
next
  assume "\<exists>k. x = of_int k / 10 ^ n"
  then obtain k where "x = of_int k / 10 ^ n" ..
  then show "has_digits n x" by (simp add: has_digits_def)
qed

lemma has_digitsE: "has_digits n x \<Longrightarrow> (\<And>k. x = of_int k / 10 ^ n \<Longrightarrow> P) \<Longrightarrow> P"
  by (auto simp: has_digits_iff)

lemma has_digits_0 [simp]: "has_digits n 0"
  by (simp add: has_digits_def)

lemma has_digits_of_int: "has_digits n (of_int k)"
  unfolding has_digits_iff by (rule exI [of _ "k * 10 ^ n"]) simp

lemma has_digits_numeral [simp]: "has_digits n (numeral k)" "has_digits n 1"
  using has_digits_of_int [of n "numeral k"] has_digits_of_int [of n 1] by simp_all

lemma has_digits_round [simp]: "has_digits n (round_away n x)"
  unfolding has_digits_iff round_away_def
  by (cases "0 \<le> x") (auto intro: exI [of _ "\<lfloor>x * 10 ^ n + 1 / 2\<rfloor>"] exI [of _ "- \<lfloor>- x * 10 ^ n + 1 / 2\<rfloor>"])

lemma has_digits_add: "has_digits n x \<Longrightarrow> has_digits n y \<Longrightarrow> has_digits n (x + y)"
  unfolding has_digits_iff by (metis add_divide_distrib of_int_add)

lemma has_digits_minus: "has_digits n x \<Longrightarrow> has_digits n (- x)"
  unfolding has_digits_iff by (metis minus_divide_left of_int_minus)

lemma has_digits_diff: "has_digits n x \<Longrightarrow> has_digits n y \<Longrightarrow> has_digits n (x - y)"
  using has_digits_add [of n x "- y"] has_digits_minus by simp

lemma has_digits_more: "has_digits n x \<Longrightarrow> n \<le> m \<Longrightarrow> has_digits m x"
proof -
  assume "has_digits n x" and nm: "n \<le> m"
  then obtain k where k: "x = of_int k / 10 ^ n" by (auto simp: has_digits_iff)
  have "(10 :: rat) ^ m = 10 ^ n * 10 ^ (m - n)" using nm by (simp flip: power_add)
  then have "x = of_int (k * 10 ^ (m - n)) / 10 ^ m" by (simp add: k)
  then show ?thesis unfolding has_digits_iff ..
qed

lemma floor_int_half: "\<lfloor>of_int k + 1 / 2 :: rat\<rfloor> = k"
  by (rule floor_unique) simp_all

lemma round_has_digits [simp]: "has_digits n x \<Longrightarrow> round_away n x = x"
proof -
  assume "has_digits n x"
  then obtain k where k: "x = of_int k / 10 ^ n" by (auto simp: has_digits_iff)
  then have "x * 10 ^ n = of_int k" and "- x * 10 ^ n = of_int (- k)" by simp_all
  then show ?thesis unfolding round_away_def using k floor_int_half [of k] floor_int_half [of "- k"] by auto
qed

lemma round_zero [simp]: "round_away n 0 = 0"
  by (rule round_has_digits) simp

lemma round_nonneg: "0 \<le> x \<Longrightarrow> 0 \<le> round_away n x"
  by (simp add: round_away_def)

lemma round_mono: "x \<le> y \<Longrightarrow> round_away n x \<le> round_away n y"
proof -
  assume xy: "x \<le> y"
  let ?p = "10 ^ n :: rat"
  have p: "0 < ?p" by simp
  consider "0 \<le> x" | "x < 0" "0 \<le> y" | "y < 0" by linarith
  then show ?thesis
  proof cases
    case 1
    with xy have "x * ?p + 1 / 2 \<le> y * ?p + 1 / 2" by simp
    from floor_mono [OF this] 1 xy show ?thesis by (simp add: round_away_def divide_right_mono)
  next
    case 2
    have "0 \<le> \<lfloor>- x * ?p + 1 / 2\<rfloor>" using 2 mult_nonneg_nonneg [of "- x" ?p] by simp
    then have "- of_int \<lfloor>- x * ?p + 1 / 2\<rfloor> / ?p \<le> 0" by (simp add: divide_nonpos_pos)
    moreover have "round_away n x = - of_int \<lfloor>- x * ?p + 1 / 2\<rfloor> / ?p" using 2 by (simp add: round_away_def)
    ultimately show ?thesis using round_nonneg [OF 2(2), of n] by linarith
  next
    case 3
    with xy have "- y * ?p + 1 / 2 \<le> - x * ?p + 1 / 2" by simp
    from floor_mono [OF this] 3 xy show ?thesis by (simp add: round_away_def divide_right_mono)
  qed
qed

text \<open>Rounding moves an amount by at most half a unit of the last digit.\<close>

lemma round_close: "\<bar>round_away n x - x\<bar> \<le> 1 / (2 * 10 ^ n)"
proof -
  have near: "\<bar>of_int \<lfloor>y + 1 / 2\<rfloor> - y\<bar> \<le> 1 / 2" for y :: rat by linarith
  let ?p = "10 ^ n :: rat"
  have "\<bar>round_away n x * ?p - x * ?p\<bar> \<le> 1 / 2"
  proof (cases "0 \<le> x")
    case True
    then show ?thesis using near [of "x * ?p"] by (simp add: round_away_def)
  next
    case False
    then have "round_away n x * ?p - x * ?p = - (of_int \<lfloor>- x * ?p + 1 / 2\<rfloor> - (- x * ?p))" by (simp add: round_away_def)
    then show ?thesis using near [of "- x * ?p"] by linarith
  qed
  then have "\<bar>round_away n x - x\<bar> * ?p \<le> 1 / 2" by (simp add: abs_mult flip: left_diff_distrib)
  then show ?thesis by (simp add: field_simps)
qed

section \<open>Printing\<close>

definition round_even :: "rat \<Rightarrow> int" where
  "round_even x =
     (let k = \<lfloor>x\<rfloor>; r = x - of_int k in
      if r < 1 / 2 \<or> r = 1 / 2 \<and> even k then k else k + 1)"

function show_digits :: "int \<Rightarrow> string" where
  "show_digits n = (if n < 10 then [char_of (48 + n)] else show_digits (n div 10) @ [char_of (48 + n mod 10)])"
  by pat_completeness auto
termination by (relation "measure nat") auto

declare show_digits.simps [simp del]

text \<open>The verb \<open>%0.nf\<close> for n > 0.\<close>

definition fixed_point :: "nat \<Rightarrow> rat \<Rightarrow> string" where
  "fixed_point n x =
     (let k = round_even (\<bar>x\<bar> * 10 ^ n); digits = show_digits (k mod 10 ^ n) in
      (if x < 0 then ''-'' else []) @ show_digits (k div 10 ^ n) @ ''.'' @
        replicate (n - length digits) CHR ''0'' @ digits)"

end
