(* ===== verification/Payment_Refund.thy ===== *)
theory Payment_Refund
  imports Payment_Orders Decimal
begin

text \<open>
  Refunds: backend/internal/service/payment_refund.go, with \<open>calculateGatewayRefundAmount\<close> of
  payment_amounts.go, \<open>DeductAvailableBalance\<close> of repository/user_repo.go and
  \<open>ExtendSubscription\<close> and \<open>RevokeSubscription\<close> of subscription_service.go. As for payments, a
  request is a phase that names its next statement, and a step executes it with the fault and the
  outside world in \<open>refund_input\<close>. A call of the subscription service is one step. Audit rows
  that no code reads, reason columns that no code reads and log lines are left out. A day of
  \<open>AddDate\<close> has 24 hours, and balances are kept exactly: amounts have at most the digits of their column.
\<close>

section \<open>Rows\<close>

record refund_order = payment_order +
  ro_ProviderInstanceID :: string
  ro_RefundAmount :: rat
  ro_RefundReason :: string
  ro_RefundRequestReason :: string
  ro_ForceRefund :: bool

abbreviation "OrderStatusRefundRequested \<equiv> ''REFUND_REQUESTED''"
abbreviation "OrderStatusRefunding \<equiv> ''REFUNDING''"
abbreviation "OrderStatusRefundPending \<equiv> ''REFUND_PENDING''"
abbreviation "OrderStatusPartiallyRefunded \<equiv> ''PARTIALLY_REFUNDED''"
abbreviation "OrderStatusRefundFailed \<equiv> ''REFUND_FAILED''"

record provider_instance =
  pvi_ID :: int
  pvi_ProviderKey :: string
  pvi_SupportedTypes :: string
  pvi_RefundEnabled :: bool
  pvi_AllowUserRefund :: bool

record user_subscription =
  us_ExpiresAt :: time
  us_Status :: string

record refundPendingAuditDetail =
  rpd_RefundID :: string
  rpd_DeductionRollbackOK :: bool

text \<open>
  \<open>rd_audit\<close> has the details of pending refunds and a default for other actions. \<open>rd_moves\<close> lists
  what balance statements took from users and gave back, and \<open>rd_calls\<close> the calls of gateways:
  order, amount and whether the answer was a success.
\<close>

record refund_db =
  rd_orders :: "(int, refund_order) gomap"
  rd_instances :: "(int, provider_instance) gomap"
  rd_balance :: "(int, rat) gomap"
  rd_subs :: "(int, user_subscription) gomap"
  rd_audit :: "(int \<times> string, refundPendingAuditDetail) gomap"
  rd_moves :: "(int \<times> rat) list"
  rd_calls :: "(int \<times> rat \<times> bool) list"

definition update_refund_order ::
  "int \<Rightarrow> (refund_order \<Rightarrow> bool) \<Rightarrow> (refund_order \<Rightarrow> refund_order) \<Rightarrow> refund_db \<Rightarrow> refund_db \<times> nat" where
  "update_refund_order i cond f db =
     (case gget (rd_orders db) i of
        Some r \<Rightarrow> if cond r then (db\<lparr>rd_orders := gput (rd_orders db) i (f r)\<rparr>, 1) else (db, 0)
      | None \<Rightarrow> (db, 0))"

definition has_refund_audit :: "refund_db \<Rightarrow> int \<Rightarrow> string \<Rightarrow> bool" where
  "has_refund_audit db i action \<longleftrightarrow> gget (rd_audit db) (i, action) \<noteq> None"

text \<open>The index on order and action is unique.\<close>

definition insert_refund_audit :: "int \<Rightarrow> string \<Rightarrow> refundPendingAuditDetail \<Rightarrow> refund_db \<Rightarrow> refund_db" where
  "insert_refund_audit i action detail db =
     (if has_refund_audit db i action then db else db\<lparr>rd_audit := gput (rd_audit db) (i, action) detail\<rparr>)"

definition no_detail :: refundPendingAuditDetail where
  "no_detail = \<lparr>rpd_RefundID = [], rpd_DeductionRollbackOK = True\<rparr>"

section \<open>The provider instance of an order\<close>

fun split_commas :: "string \<Rightarrow> string list" where
  "split_commas [] = [[]]"
| "split_commas (c # s) =
     (if c = CHR '','' then [] # split_commas s
      else case split_commas s of [] \<Rightarrow> [[c]] | w # ws \<Rightarrow> (c # w) # ws)"

definition normalizeVisibleMethodSupportType :: "string \<Rightarrow> string" where
  "normalizeVisibleMethodSupportType paymentType =
     (let t = trim_space paymentType in
      if t = ''alipay'' \<or> t = ''alipay_direct'' then ''alipay''
      else if t = ''wxpay'' \<or> t = ''wxpay_direct'' then ''wxpay''
      else t)"

definition InstanceSupportsType :: "string \<Rightarrow> string \<Rightarrow> bool" where
  "InstanceSupportsType supportedTypes target \<longleftrightarrow>
     supportedTypes = [] \<or>
     list_ex (\<lambda>t. trim_space t = target \<or>
       normalizeVisibleMethodSupportType (trim_space t) = normalizeVisibleMethodSupportType target) (split_commas supportedTypes)"

definition psLegacyOrderMatchesInstance :: "string \<Rightarrow> provider_instance \<Rightarrow> bool" where
  "psLegacyOrderMatchesInstance orderPaymentType inst =
     (let baseType = GetBasePaymentType (trim_space orderPaymentType);
          instanceProviderKey = trim_space (pvi_ProviderKey inst) in
      if baseType = [] then False
      else if baseType = ''stripe'' then instanceProviderKey = ''stripe''
      else if instanceProviderKey = ''stripe'' then False
      else if instanceProviderKey = baseType then True
      else InstanceSupportsType (pvi_SupportedTypes inst) baseType)"

definition psFilterLegacyOrderProviderInstances :: "string \<Rightarrow> provider_instance list \<Rightarrow> provider_instance list" where
  "psFilterLegacyOrderProviderInstances orderPaymentType instances =
     (if trim_space orderPaymentType = [] then instances
      else filter (psLegacyOrderMatchesInstance orderPaymentType) instances)"

definition resolveUniqueLegacyOrderProviderInstance :: "refund_db \<Rightarrow> refund_order \<Rightarrow> provider_instance option" where
  "resolveUniqueLegacyOrderProviderInstance db r =
     (let paymentType = GetBasePaymentType (trim_space (po_PaymentType r));
          providerKey = trim_space (po_ProviderKey r);
          all = map snd (rd_instances db);
          instances = (if providerKey \<noteq> [] then filter (\<lambda>p. pvi_ProviderKey p = providerKey) all else all) in
      if providerKey = [] \<and> paymentType = [] then None
      else case psFilterLegacyOrderProviderInstances paymentType instances of [p] \<Rightarrow> Some p | _ \<Rightarrow> None)"

datatype lookup_error =
    SnapshotWithoutInstance | SnapshotInstanceMismatch | InstanceIDInvalid | InstanceMissing | SnapshotKeyMismatch

definition resolveSnapshotOrderProviderInstance ::
  "refund_db \<Rightarrow> refund_order \<Rightarrow> paymentOrderProviderSnapshot \<Rightarrow> lookup_error + provider_instance option" where
  "resolveSnapshotOrderProviderInstance db r snapshot =
     (let columnInstanceID = trim_space (ro_ProviderInstanceID r);
          snapshotInstanceID = (if trim_space (pps_ProviderInstanceID snapshot) = [] then columnInstanceID
            else trim_space (pps_ProviderInstanceID snapshot)) in
      if snapshotInstanceID = [] then Inl SnapshotWithoutInstance
      else if columnInstanceID \<noteq> [] \<and> pps_ProviderInstanceID snapshot \<noteq> [] \<and>
              \<not> equal_fold columnInstanceID (pps_ProviderInstanceID snapshot) then Inl SnapshotInstanceMismatch
      else case parse_int snapshotInstanceID of
        None \<Rightarrow> Inl InstanceIDInvalid
      | Some instID \<Rightarrow>
          (case gget (rd_instances db) instID of
             None \<Rightarrow> Inl InstanceMissing
           | Some inst \<Rightarrow>
               if pps_ProviderKey snapshot \<noteq> [] \<and> \<not> equal_fold (trim_space (pvi_ProviderKey inst)) (pps_ProviderKey snapshot)
               then Inl SnapshotKeyMismatch else Inr (Some inst)))"

definition getOrderProviderInstance :: "refund_db \<Rightarrow> refund_order \<Rightarrow> lookup_error + provider_instance option" where
  "getOrderProviderInstance db r =
     (case psOrderProviderSnapshot (po_ProviderSnapshot r) of
        Some snapshot \<Rightarrow> resolveSnapshotOrderProviderInstance db r snapshot
      | None \<Rightarrow>
          if trim_space (ro_ProviderInstanceID r) = [] then Inr (resolveUniqueLegacyOrderProviderInstance db r)
          else case parse_int (trim_space (ro_ProviderInstanceID r)) of
            None \<Rightarrow> Inr None
          | Some instID \<Rightarrow> (case gget (rd_instances db) instID of None \<Rightarrow> Inl InstanceMissing | Some inst \<Rightarrow> Inr (Some inst)))"

definition getRefundOrderProviderInstance :: "refund_db \<Rightarrow> refund_order \<Rightarrow> lookup_error + provider_instance option" where
  "getRefundOrderProviderInstance db r =
     (case psOrderProviderSnapshot (po_ProviderSnapshot r) of
        Some snapshot \<Rightarrow> resolveSnapshotOrderProviderInstance db r snapshot
      | None \<Rightarrow>
          if trim_space (ro_ProviderInstanceID r) = [] then Inr None
          else case parse_int (trim_space (ro_ProviderInstanceID r)) of
            None \<Rightarrow> Inl InstanceIDInvalid
          | Some instID \<Rightarrow> (case gget (rd_instances db) instID of None \<Rightarrow> Inl InstanceMissing | Some inst \<Rightarrow> Inr (Some inst)))"

section \<open>Plans\<close>

record RefundPlan =
  rp_OrderID :: int
  rp_Order :: refund_order
  rp_RefundAmount :: rat
  rp_GatewayAmount :: rat
  rp_Reason :: string
  rp_Force :: bool
  rp_DeductBalance :: bool
  rp_DeductionType :: string
  rp_BalanceToDeduct :: rat
  rp_SubDaysToDeduct :: int
  rp_SubscriptionID :: int

text \<open>\<open>Div\<close> keeps 16 digits.\<close>

definition calculateGatewayRefundAmount :: "rat \<Rightarrow> rat \<Rightarrow> rat \<Rightarrow> string \<Rightarrow> rat" where
  "calculateGatewayRefundAmount orderAmount payAmount refundAmount currency =
     (if orderAmount \<le> 0 \<or> payAmount \<le> 0 \<or> refundAmount \<le> 0 then 0
      else if \<bar>refundAmount - orderAmount\<bar> \<le> paymentAmountToleranceForCurrency currency
      then round_away (CurrencyMaxFractionDigits currency) payAmount
      else round_away (CurrencyMaxFractionDigits currency) (round_away 16 (payAmount * refundAmount / orderAmount)))"

definition refund_reason :: "refund_order \<Rightarrow> string \<Rightarrow> string" where
  "refund_reason r reason = (if reason = [] then ''refund order:'' @ show_int (po_ID r) else reason)"

datatype refund_warning =
    NoWarning
  | NoActiveSubscription
  | NoUserBalance
  | BalanceInsufficient
  | PendingConfirmation bool
  | StillPending
  | GatewayRolledBack
  | GatewayRefundFailed

record RefundResult =
  rr_Success :: bool
  rr_Warning :: refund_warning
  rr_RequireForce :: bool
  rr_BalanceDeducted :: rat
  rr_SubDaysDeducted :: int

definition warn :: "refund_warning \<Rightarrow> bool \<Rightarrow> RefundResult" where
  "warn w force = \<lparr>rr_Success = False, rr_Warning = w, rr_RequireForce = force, rr_BalanceDeducted = 0, rr_SubDaysDeducted = 0\<rparr>"

text \<open>The balance and the active subscription are \<open>None\<close> when they could not be read.\<close>

definition prepDeduct :: "refund_order \<Rightarrow> bool \<Rightarrow> rat option \<Rightarrow> int option \<Rightarrow> RefundPlan \<Rightarrow> RefundResult + RefundPlan" where
  "prepDeduct r force balance sub p =
     (if po_OrderType r = ''subscription'' then
        let p = p\<lparr>rp_DeductionType := ''subscription''\<rparr> in
        case (po_SubscriptionGroupID r, po_SubscriptionDays r) of
          (Some g, Some days) \<Rightarrow>
            (case sub of
               Some i \<Rightarrow> Inr (p\<lparr>rp_SubDaysToDeduct := days, rp_SubscriptionID := i\<rparr>)
             | None \<Rightarrow> if \<not> force then Inl (warn NoActiveSubscription True) else Inr (p\<lparr>rp_SubDaysToDeduct := days\<rparr>))
        | _ \<Rightarrow> Inr p
      else case balance of
        None \<Rightarrow> if \<not> force then Inl (warn NoUserBalance True) else Inr p
      | Some b \<Rightarrow>
          if b < rp_RefundAmount p \<and> \<not> force then Inl (warn BalanceInsufficient True)
          else Inr (p\<lparr>rp_DeductionType := ''balance'', rp_BalanceToDeduct := max 0 (min (rp_RefundAmount p) b)\<rparr>))"

definition refundFinalizePlan :: "refund_order \<Rightarrow> RefundPlan" where
  "refundFinalizePlan r =
     \<lparr>rp_OrderID = po_ID r, rp_Order = r, rp_RefundAmount = ro_RefundAmount r,
      rp_GatewayAmount = calculateGatewayRefundAmount (po_Amount r) (po_PayAmount r) (ro_RefundAmount r)
        (PaymentOrderCurrency (po_ProviderSnapshot r)),
      rp_Reason = refund_reason r (trim_space (ro_RefundReason r)), rp_Force = ro_ForceRefund r, rp_DeductBalance = True,
      rp_DeductionType = ''balance'',
      rp_BalanceToDeduct = (if po_OrderType r = ''balance'' then ro_RefundAmount r else 0),
      rp_SubDaysToDeduct = 0, rp_SubscriptionID = 0\<rparr>"

section \<open>Balances and subscriptions\<close>

text \<open>What a deduction takes; the move is listed under the order.\<close>

definition DeductAvailableBalance :: "int \<Rightarrow> int \<Rightarrow> rat \<Rightarrow> refund_db \<Rightarrow> (rat \<times> refund_db) option" where
  "DeductAvailableBalance i user amount db =
     (if amount < 0 then None
      else case gget (rd_balance db) user of
        None \<Rightarrow> None
      | Some b \<Rightarrow>
          let deducted = min amount (max b 0) in
          Some (deducted, db\<lparr>rd_balance := gput (rd_balance db) user (b - deducted), rd_moves := rd_moves db @ [(i, deducted)]\<rparr>))"

definition give_back :: "int \<Rightarrow> int \<Rightarrow> rat \<Rightarrow> refund_db \<Rightarrow> refund_db option" where
  "give_back i user amount db =
     (case gget (rd_balance db) user of
        None \<Rightarrow> None
      | Some b \<Rightarrow> Some (db\<lparr>rd_balance := gput (rd_balance db) user (b + amount), rd_moves := rd_moves db @ [(i, - amount)]\<rparr>))"

definition MaxValidityDays :: int where
  "MaxValidityDays = 36500"

definition MaxExpiresAt :: time where
  "MaxExpiresAt = time_unix_nano (4102444799 * second)"

datatype extend_error = ExtendSubscriptionNotFound | CannotShortenExpired | AdjustWouldExpire

definition ExtendSubscription :: "time \<Rightarrow> int \<Rightarrow> int \<Rightarrow> refund_db \<Rightarrow> extend_error + refund_db" where
  "ExtendSubscription now i days db =
     (case gget (rd_subs db) i of
        None \<Rightarrow> Inl ExtendSubscriptionNotFound
      | Some sub \<Rightarrow>
          let days = max (- MaxValidityDays) (min MaxValidityDays days);
              isExpired = (\<not> time_after (us_ExpiresAt sub) now) in
          if isExpired \<and> days < 0 then Inl CannotShortenExpired
          else
            let t = time_add (if isExpired then now else us_ExpiresAt sub) (days * 24 * hour);
                newExpiresAt = (if time_after t MaxExpiresAt then MaxExpiresAt else t) in
            if \<not> time_after newExpiresAt now then Inl AdjustWouldExpire
            else Inr (db\<lparr>rd_subs := gput (rd_subs db) i
              \<lparr>us_ExpiresAt = newExpiresAt, us_Status = (if us_Status sub = ''expired'' then ''active'' else us_Status sub)\<rparr>\<rparr>))"

definition RevokeSubscription :: "int \<Rightarrow> refund_db \<Rightarrow> refund_db option" where
  "RevokeSubscription i db =
     (if gget (rd_subs db) i = None then None else Some (db\<lparr>rd_subs := gdel (rd_subs db) i\<rparr>))"

section \<open>Requests\<close>

record refund_response =
  rfr_Status :: string
  rfr_RefundID :: string

text \<open>What a provider returns: a response, if any, and whether there is an error beside it.\<close>

type_synonym refund_reply = "refund_response option \<times> bool"

datatype gateway_error = ProviderUnavailable | MetadataFails metadata_error | ProviderError | ResponseMissing | StatusFailed | StatusUnknown

text \<open>
  Around a step: the fault of its statement, the clock, the active subscription that the cache or
  the database answers with, the key and merchant metadata of the created provider (\<open>None\<close>: it
  could not be created), its answer, and whether it can be asked for refunds.
\<close>

record refund_input =
  rf_fault :: fault
  rf_now :: time
  rf_activeSub :: "int option"
  rf_provider :: "(string \<times> (string, string) gomap) option"
  rf_reply :: refund_reply
  rf_canQuery :: bool

datatype refund_error =
    RefundNotFound | RefundForbidden | RefundInvalidType | RefundInvalidStatus | UserRefundDisabled | ProviderLookupFailed
  | RefundDisabled | RefundInvalidAmount | RefundAmountExceeded | BalanceNotEnough | RefundConflict | RefundStatementFailed
  | DeductionFailed | RevokeFailed | SubscriptionDeductionFailed | RefundFailed gateway_error | MarkFailed
  | QueryUnsupported | QueryError

datatype refund_outcome = RefundRequestedOk | RefundAnswer RefundResult | RefundError refund_error

text \<open>Why a deduction is given back: the gateway failed, or it has not decided yet.\<close>

datatype rollback_cause = GatewayFails gateway_error | GatewayPending refund_response

datatype refund_phase =
    AtRequest int int string
  | AtRequestInstance refund_order int string
  | AtRequestBalance refund_order int string
  | AtRequestUpdate refund_order int string
  | AtPrepare int go_float string bool bool
  | AtPrepareInstance refund_order go_float string bool bool
  | AtPrepDeduct RefundPlan
  | AtLock RefundPlan
  | AtDeductCheck RefundPlan
  | AtDeduct RefundPlan
  | AtSubCheck RefundPlan
  | AtSubDeduct RefundPlan
  | AtRevoke RefundPlan
  | AtRestore RefundPlan refund_error
  | AtGateway RefundPlan
  | AtRollback RefundPlan rollback_cause
  | AtRollbackAudit RefundPlan rollback_cause
  | AtGatewayFailed RefundPlan gateway_error bool
  | AtMarkOk RefundPlan
  | AtOkAudit RefundPlan
  | AtMarkPending RefundPlan refund_response bool
  | AtPendingAudit RefundPlan refund_response bool
  | AtQuery int
  | AtQueryProvider refund_order
  | AtQueryDetail refund_order
  | AtQueryCall refund_order refundPendingAuditDetail
  | AtFinalizePrep RefundPlan bool
  | AtFinalize RefundPlan
  | AtFinalizeFailed refund_order gateway_error
  | RefundDone refund_outcome

abbreviation refund_fails :: "refund_error \<Rightarrow> refund_phase" where
  "refund_fails e \<equiv> RefundDone (RefundError e)"

section \<open>The answer of a gateway\<close>

definition validateRefundProviderResponse :: "refund_response option \<Rightarrow> gateway_error option" where
  "validateRefundProviderResponse resp =
     (case resp of
        None \<Rightarrow> Some ResponseMissing
      | Some r \<Rightarrow>
          let status = trim_space (rfr_Status r) in
          if status \<in> set [''success'', ''refunded'', ''pending''] then None
          else if status = ''failed'' then Some StatusFailed
          else Some StatusUnknown)"

text \<open>\<open>gwRefund\<close> after the call, then \<open>finishRefund\<close>: the answer that counts.\<close>

definition gateway_answer :: "refund_reply \<Rightarrow> gateway_error + refund_response" where
  "gateway_answer reply =
     (case reply of (resp, err) \<Rightarrow>
        if err then
          (case resp of
             Some r \<Rightarrow> if trim_space (rfr_Status r) = ''pending'' then Inr r else Inl ProviderError
           | None \<Rightarrow> Inl ProviderError)
        else case validateRefundProviderResponse resp of
          Some e \<Rightarrow> Inl e
        | None \<Rightarrow> (case resp of Some r \<Rightarrow> Inr r | None \<Rightarrow> Inl ResponseMissing))"

definition gateway_success :: "refund_response \<Rightarrow> bool" where
  "gateway_success r \<longleftrightarrow> trim_space (rfr_Status r) \<in> set [''success'', ''refunded'']"

definition finishRefund :: "RefundPlan \<Rightarrow> refund_response \<Rightarrow> refund_phase" where
  "finishRefund p r = (if gateway_success r then AtMarkOk p else AtRollback p (GatewayPending r))"

section \<open>Transitions without a statement\<close>

definition after_plan :: "RefundPlan \<Rightarrow> refund_phase" where
  "after_plan p = (if rp_DeductBalance p then AtPrepDeduct p else AtLock p)"

definition to_gateway :: "RefundPlan \<Rightarrow> refund_phase" where
  "to_gateway p =
     (if rp_DeductionType p = ''subscription'' \<and> 0 < rp_SubDaysToDeduct p \<and> 0 < rp_SubscriptionID p then AtSubCheck p
      else AtGateway p)"

definition after_lock :: "RefundPlan \<Rightarrow> refund_phase" where
  "after_lock p =
     (if rp_DeductionType p = ''balance'' \<and> 0 < rp_BalanceToDeduct p then AtDeductCheck p else to_gateway p)"

fun settle :: "RefundPlan \<Rightarrow> rollback_cause \<Rightarrow> bool \<Rightarrow> refund_phase" where
  "settle p (GatewayFails e) ok = AtGatewayFailed p e ok"
| "settle p (GatewayPending r) ok =
     AtMarkPending (if ok then p\<lparr>rp_BalanceToDeduct := 0, rp_SubDaysToDeduct := 0\<rparr> else p) r ok"

definition restored_status :: "RefundPlan \<Rightarrow> string" where
  "restored_status p =
     (if po_Status (rp_Order p) = OrderStatusRefundRequested then OrderStatusRefundRequested else OrderStatusCompleted)"

definition refundable :: "refund_order \<Rightarrow> bool" where
  "refundable r \<longleftrightarrow> po_Status r \<in> set [OrderStatusCompleted, OrderStatusRefundRequested, OrderStatusRefundPending, OrderStatusRefundFailed]"

definition refunded_row :: "time \<Rightarrow> RefundPlan \<Rightarrow> refund_order \<Rightarrow> refund_order" where
  "refunded_row now p r = r
     \<lparr>po_Status := (if rp_RefundAmount p < po_Amount (rp_Order p) then OrderStatusPartiallyRefunded else OrderStatusRefunded),
      po_UpdatedAt := now, ro_RefundAmount := rp_RefundAmount p, ro_RefundReason := rp_Reason p, ro_ForceRefund := rp_Force p\<rparr>"

definition refund_ok :: "RefundPlan \<Rightarrow> refund_phase" where
  "refund_ok p = RefundDone (RefundAnswer \<lparr>rr_Success = True, rr_Warning = NoWarning, rr_RequireForce = False,
     rr_BalanceDeducted = rp_BalanceToDeduct p, rr_SubDaysDeducted = rp_SubDaysToDeduct p\<rparr>)"

text \<open>An update by id whose error is ignored.\<close>

definition set_status :: "fault \<Rightarrow> time \<Rightarrow> int \<Rightarrow> string \<Rightarrow> time option \<Rightarrow> refund_db \<Rightarrow> refund_db" where
  "set_status f now i status failed db =
     took_effect f db (fst (update_refund_order i (\<lambda>r. True)
       (\<lambda>r. r\<lparr>po_Status := status, po_UpdatedAt := now, po_FailedAt := (if failed = None then po_FailedAt r else failed)\<rparr>) db))"

section \<open>Steps\<close>

text \<open>\<open>validateRefundRequest\<close> before the instance is looked up.\<close>

definition validateRefundRequest :: "refund_order \<Rightarrow> int \<Rightarrow> refund_error option" where
  "validateRefundRequest r uid =
     (if po_UserID r \<noteq> uid then Some RefundForbidden
      else if po_OrderType r \<noteq> ''balance'' then Some RefundInvalidType
      else if po_Status r \<noteq> OrderStatusCompleted then Some RefundInvalidStatus
      else None)"

fun request_step :: "refund_input \<Rightarrow> refund_phase \<Rightarrow> refund_db \<Rightarrow> refund_phase \<times> refund_db" where
  "request_step inp (AtRequest i uid reason) db =
     (case (if rf_fault inp = Works then gget (rd_orders db) i else None) of
        None \<Rightarrow> (refund_fails RefundNotFound, db)
      | Some r \<Rightarrow>
          (case validateRefundRequest r uid of
             Some e \<Rightarrow> (refund_fails e, db)
           | None \<Rightarrow> (AtRequestInstance r uid reason, db)))"
| "request_step inp (AtRequestInstance r uid reason) db =
     (case (if rf_fault inp = Works then getRefundOrderProviderInstance db r else Inl InstanceMissing) of
        Inr (Some inst) \<Rightarrow>
          (if pvi_AllowUserRefund inst then (AtRequestBalance r uid reason, db) else (refund_fails UserRefundDisabled, db))
      | _ \<Rightarrow> (refund_fails UserRefundDisabled, db))"
| "request_step inp (AtRequestBalance r uid reason) db =
     (case (if rf_fault inp = Works then gget (rd_balance db) (po_UserID r) else None) of
        None \<Rightarrow> (refund_fails RefundStatementFailed, db)
      | Some b \<Rightarrow> if b < po_Amount r then (refund_fails BalanceNotEnough, db) else (AtRequestUpdate r uid reason, db))"
| "request_step inp (AtRequestUpdate r uid reason) db =
     (case update_refund_order (po_ID r)
         (\<lambda>x. po_UserID x = uid \<and> po_Status x = OrderStatusCompleted \<and> po_OrderType x = ''balance'')
         (\<lambda>x. x\<lparr>po_Status := OrderStatusRefundRequested, po_UpdatedAt := rf_now inp,
                ro_RefundRequestReason := trim_space reason, ro_RefundAmount := po_Amount r\<rparr>) db of
        (db', n) \<Rightarrow>
          if rf_fault inp \<noteq> Works then (refund_fails RefundStatementFailed, took_effect (rf_fault inp) db db')
          else if n = 0 then (refund_fails RefundConflict, db') else (RefundDone RefundRequestedOk, db'))"
| "request_step inp p db = (p, db)"

fun prepare_step :: "refund_input \<Rightarrow> refund_phase \<Rightarrow> refund_db \<Rightarrow> refund_phase \<times> refund_db" where
  "prepare_step inp (AtPrepare i amt reason force deduct) db =
     (case (if rf_fault inp = Works then gget (rd_orders db) i else None) of
        None \<Rightarrow> (refund_fails RefundNotFound, db)
      | Some r \<Rightarrow> if \<not> refundable r then (refund_fails RefundInvalidStatus, db)
          else (AtPrepareInstance r amt reason force deduct, db))"
| "prepare_step inp (AtPrepareInstance r amt reason force deduct) db =
     (case (if rf_fault inp = Works then getRefundOrderProviderInstance db r else Inl InstanceMissing) of
        Inl e \<Rightarrow> (refund_fails ProviderLookupFailed, db)
      | Inr None \<Rightarrow> (refund_fails RefundDisabled, db)
      | Inr (Some inst) \<Rightarrow>
          if \<not> pvi_RefundEnabled inst then (refund_fails RefundDisabled, db)
          else (case amt of
            Finite q \<Rightarrow>
              let q = (if q \<le> 0 then po_Amount r else q);
                  orderCurrency = PaymentOrderCurrency (po_ProviderSnapshot r);
                  rr = trim_space reason;
                  rr = (if rr = [] then ro_RefundRequestReason r else rr) in
              if paymentAmountToleranceForCurrency orderCurrency < q - po_Amount r then (refund_fails RefundAmountExceeded, db)
              else (after_plan
                \<lparr>rp_OrderID = po_ID r, rp_Order = r, rp_RefundAmount = q,
                 rp_GatewayAmount = calculateGatewayRefundAmount (po_Amount r) (po_PayAmount r) q orderCurrency,
                 rp_Reason = refund_reason r rr, rp_Force = force, rp_DeductBalance = deduct, rp_DeductionType = ''none'',
                 rp_BalanceToDeduct = 0, rp_SubDaysToDeduct = 0, rp_SubscriptionID = 0\<rparr>, db)
          | _ \<Rightarrow> (refund_fails RefundInvalidAmount, db)))"
| "prepare_step inp (AtPrepDeduct p) db =
     (case prepDeduct (rp_Order p) (rp_Force p)
         (if rf_fault inp = Works then gget (rd_balance db) (po_UserID (rp_Order p)) else None)
         (if rf_fault inp = Works then rf_activeSub inp else None) p of
        Inl early \<Rightarrow> (RefundDone (RefundAnswer early), db)
      | Inr p \<Rightarrow> (AtLock p, db))"
| "prepare_step inp p db = (p, db)"

text \<open>\<open>hasAuditLog\<close> answers no when it cannot read.\<close>

definition rollback_failed_before :: "refund_input \<Rightarrow> RefundPlan \<Rightarrow> refund_db \<Rightarrow> bool" where
  "rollback_failed_before inp p db \<longleftrightarrow>
     rf_fault inp = Works \<and> has_refund_audit db (rp_OrderID p) ''REFUND_ROLLBACK_FAILED''"

fun execute_step :: "refund_input \<Rightarrow> refund_phase \<Rightarrow> refund_db \<Rightarrow> refund_phase \<times> refund_db" where
  "execute_step inp (AtLock p) db =
     (case update_refund_order (rp_OrderID p) refundable
         (\<lambda>r. r\<lparr>po_Status := OrderStatusRefunding, po_UpdatedAt := rf_now inp\<rparr>) db of
        (db', n) \<Rightarrow>
          if rf_fault inp \<noteq> Works then (refund_fails RefundStatementFailed, took_effect (rf_fault inp) db db')
          else if n = 0 then (refund_fails RefundConflict, db') else (after_lock p, db'))"
| "execute_step inp (AtDeductCheck p) db =
     ((if rollback_failed_before inp p db then to_gateway (p\<lparr>rp_BalanceToDeduct := 0\<rparr>) else AtDeduct p), db)"
| "execute_step inp (AtDeduct p) db =
     (case DeductAvailableBalance (rp_OrderID p) (po_UserID (rp_Order p)) (rp_BalanceToDeduct p) db of
        None \<Rightarrow> (AtRestore p DeductionFailed, db)
      | Some (deducted, db') \<Rightarrow>
          if rf_fault inp \<noteq> Works then (AtRestore p DeductionFailed, took_effect (rf_fault inp) db db')
          else (to_gateway (p\<lparr>rp_BalanceToDeduct := deducted\<rparr>), db'))"
| "execute_step inp (AtSubCheck p) db =
     ((if rollback_failed_before inp p db then AtGateway (p\<lparr>rp_SubDaysToDeduct := 0\<rparr>) else AtSubDeduct p), db)"
| "execute_step inp (AtSubDeduct p) db =
     (case ExtendSubscription (rf_now inp) (rp_SubscriptionID p) (- rp_SubDaysToDeduct p) db of
        Inl e \<Rightarrow> ((if rf_fault inp = Works \<and> e = AdjustWouldExpire then AtRevoke p else AtRestore p SubscriptionDeductionFailed), db)
      | Inr db' \<Rightarrow>
          if rf_fault inp \<noteq> Works then (AtRestore p SubscriptionDeductionFailed, took_effect (rf_fault inp) db db')
          else (AtGateway p, db'))"
| "execute_step inp (AtRevoke p) db =
     (case RevokeSubscription (rp_SubscriptionID p) db of
        None \<Rightarrow> (AtRestore p RevokeFailed, db)
      | Some db' \<Rightarrow>
          if rf_fault inp \<noteq> Works then (AtRestore p RevokeFailed, took_effect (rf_fault inp) db db') else (AtGateway p, db'))"
| "execute_step inp (AtRestore p e) db =
     (refund_fails e, set_status (rf_fault inp) (rf_now inp) (rp_OrderID p) (restored_status p) None db)"
| "execute_step inp (AtGateway p) db =
     (if po_PaymentTradeNo (rp_Order p) = [] then (AtMarkOk p, db)
      else case (if rf_fault inp = Works then getRefundOrderProviderInstance db (rp_Order p) else Inl InstanceMissing) of
        Inr (Some inst) \<Rightarrow>
          (case rf_provider inp of
             None \<Rightarrow> (AtRollback p (GatewayFails ProviderUnavailable), db)
           | Some (key, metadata) \<Rightarrow>
               (case validateProviderSnapshotMetadata (po_ProviderSnapshot (rp_Order p)) key metadata of
                  Some e \<Rightarrow> (AtRollback p (GatewayFails (MetadataFails e)), db)
                | None \<Rightarrow>
                    (case gateway_answer (rf_reply inp) of
                       Inl e \<Rightarrow> (AtRollback p (GatewayFails e), db\<lparr>rd_calls := rd_calls db @ [(rp_OrderID p, rp_GatewayAmount p, False)]\<rparr>)
                     | Inr r \<Rightarrow> (finishRefund p r,
                         db\<lparr>rd_calls := rd_calls db @ [(rp_OrderID p, rp_GatewayAmount p, gateway_success r)]\<rparr>))))
      | _ \<Rightarrow> (AtRollback p (GatewayFails ProviderUnavailable), db))"
| "execute_step inp p db = (p, db)"

text \<open>\<open>RollbackRefund\<close>, then the rest of \<open>handleGwFail\<close>, \<open>markRefundOk\<close> and \<open>markRefundPending\<close>.\<close>

fun settle_step :: "refund_input \<Rightarrow> refund_phase \<Rightarrow> refund_db \<Rightarrow> refund_phase \<times> refund_db" where
  "settle_step inp (AtRollback p cause) db =
     (if rp_DeductionType p = ''balance'' \<and> 0 < rp_BalanceToDeduct p then
        (case give_back (rp_OrderID p) (po_UserID (rp_Order p)) (rp_BalanceToDeduct p) db of
           None \<Rightarrow> (AtRollbackAudit p cause, db)
         | Some db' \<Rightarrow>
             if rf_fault inp \<noteq> Works then (AtRollbackAudit p cause, took_effect (rf_fault inp) db db') else (settle p cause True, db'))
      else if rp_DeductionType p = ''subscription'' \<and> 0 < rp_SubDaysToDeduct p \<and> 0 < rp_SubscriptionID p then
        (case ExtendSubscription (rf_now inp) (rp_SubscriptionID p) (rp_SubDaysToDeduct p) db of
           Inl e \<Rightarrow> (AtRollbackAudit p cause, db)
         | Inr db' \<Rightarrow>
             if rf_fault inp \<noteq> Works then (AtRollbackAudit p cause, took_effect (rf_fault inp) db db') else (settle p cause True, db'))
      else (settle p cause True, db))"
| "settle_step inp (AtRollbackAudit p cause) db =
     (settle p cause False, took_effect (rf_fault inp) db (insert_refund_audit (rp_OrderID p) ''REFUND_ROLLBACK_FAILED'' no_detail db))"
| "settle_step inp (AtGatewayFailed p e ok) db =
     (if ok then (RefundDone (RefundAnswer (warn GatewayRolledBack False)),
        set_status (rf_fault inp) (rf_now inp) (rp_OrderID p) (restored_status p) None db)
      else (refund_fails (RefundFailed e),
        set_status (rf_fault inp) (rf_now inp) (rp_OrderID p) OrderStatusRefundFailed (Some (rf_now inp)) db))"
| "settle_step inp (AtMarkOk p) db =
     (case update_refund_order (rp_OrderID p) (\<lambda>r. True) (refunded_row (rf_now inp) p) db of
        (db', n) \<Rightarrow>
          if rf_fault inp \<noteq> Works then (refund_fails MarkFailed, took_effect (rf_fault inp) db db')
          else if n = 0 then (refund_fails MarkFailed, db') else (AtOkAudit p, db'))"
| "settle_step inp (AtOkAudit p) db =
     (refund_ok p, took_effect (rf_fault inp) db (insert_refund_audit (rp_OrderID p) ''REFUND_SUCCESS'' no_detail db))"
| "settle_step inp (AtMarkPending p r ok) db =
     (case update_refund_order (rp_OrderID p) (\<lambda>x. True)
         (\<lambda>x. x\<lparr>po_Status := OrderStatusRefundPending, po_UpdatedAt := rf_now inp, po_FailedAt := None,
                ro_RefundAmount := rp_RefundAmount p, ro_RefundReason := rp_Reason p, ro_ForceRefund := rp_Force p\<rparr>) db of
        (db', n) \<Rightarrow>
          if rf_fault inp \<noteq> Works then (refund_fails MarkFailed, took_effect (rf_fault inp) db db')
          else if n = 0 then (refund_fails MarkFailed, db') else (AtPendingAudit p r ok, db'))"
| "settle_step inp (AtPendingAudit p r ok) db =
     (RefundDone (RefundAnswer (warn (PendingConfirmation ok) False)),
      took_effect (rf_fault inp) db (insert_refund_audit (rp_OrderID p) ''REFUND_PENDING''
        \<lparr>rpd_RefundID = trim_space (rfr_RefundID r), rpd_DeductionRollbackOK = ok\<rparr> db))"
| "settle_step inp p db = (p, db)"

text \<open>\<open>applyRefundFinalDeduction\<close>, \<open>markRefundOkTx\<close> and the transaction around them; an error undoes all.\<close>

definition applyRefundFinalDeduction :: "time \<Rightarrow> RefundPlan \<Rightarrow> refund_db \<Rightarrow> refund_error + RefundPlan \<times> refund_db" where
  "applyRefundFinalDeduction now p db =
     (if rp_DeductionType p = ''balance'' \<and> 0 < rp_BalanceToDeduct p then
        (case DeductAvailableBalance (rp_OrderID p) (po_UserID (rp_Order p)) (rp_BalanceToDeduct p) db of
           None \<Rightarrow> Inl DeductionFailed
         | Some (deducted, db') \<Rightarrow> Inr (p\<lparr>rp_BalanceToDeduct := deducted\<rparr>, db'))
      else if rp_DeductionType p = ''subscription'' \<and> 0 < rp_SubDaysToDeduct p \<and> 0 < rp_SubscriptionID p then
        (case ExtendSubscription now (rp_SubscriptionID p) (- rp_SubDaysToDeduct p) db of
           Inr db' \<Rightarrow> Inr (p, db')
         | Inl e \<Rightarrow>
             if e = AdjustWouldExpire then
               (case RevokeSubscription (rp_SubscriptionID p) db of None \<Rightarrow> Inl RevokeFailed | Some db' \<Rightarrow> Inr (p, db'))
             else Inl SubscriptionDeductionFailed)
      else Inr (p, db))"

definition markRefundOkTx :: "time \<Rightarrow> RefundPlan \<Rightarrow> refund_db \<Rightarrow> refund_error + refund_db" where
  "markRefundOkTx now p db =
     (case update_refund_order (rp_OrderID p) (\<lambda>r. True) (refunded_row now p) db of
        (db', n) \<Rightarrow>
          if n = 0 \<or> has_refund_audit db' (rp_OrderID p) ''REFUND_SUCCESS'' then Inl MarkFailed
          else Inr (insert_refund_audit (rp_OrderID p) ''REFUND_SUCCESS'' no_detail db'))"

definition finalizePendingRefundSuccess :: "time \<Rightarrow> RefundPlan \<Rightarrow> refund_db \<Rightarrow> refund_error + RefundPlan \<times> refund_db" where
  "finalizePendingRefundSuccess now p db =
     (case update_refund_order (rp_OrderID p) (\<lambda>r. po_Status r = OrderStatusRefundPending)
         (\<lambda>r. r\<lparr>po_Status := OrderStatusRefunding, po_UpdatedAt := now\<rparr>) db of
        (db', n) \<Rightarrow>
          if n = 0 then Inl RefundConflict
          else case applyRefundFinalDeduction now p db' of
            Inl e \<Rightarrow> Inl e
          | Inr (p, db') \<Rightarrow> (case markRefundOkTx now p db' of Inl e \<Rightarrow> Inl e | Inr db' \<Rightarrow> Inr (p, db')))"

definition latestRefundPendingDetail :: "refund_db \<Rightarrow> int \<Rightarrow> refundPendingAuditDetail" where
  "latestRefundPendingDetail db i =
     (case gget (rd_audit db) (i, ''REFUND_PENDING'') of None \<Rightarrow> no_detail | Some detail \<Rightarrow> detail)"

definition query_done :: "RefundPlan \<Rightarrow> bool \<Rightarrow> refund_phase" where
  "query_done p success = (if success then AtFinalize p else RefundDone (RefundAnswer (warn StillPending False)))"

fun query_step :: "refund_input \<Rightarrow> refund_phase \<Rightarrow> refund_db \<Rightarrow> refund_phase \<times> refund_db" where
  "query_step inp (AtQuery i) db =
     (case (if rf_fault inp = Works then gget (rd_orders db) i else None) of
        None \<Rightarrow> (refund_fails RefundNotFound, db)
      | Some r \<Rightarrow> if po_Status r \<noteq> OrderStatusRefundPending then (refund_fails RefundInvalidStatus, db) else (AtQueryProvider r, db))"
| "query_step inp (AtQueryProvider r) db =
     (case (if rf_fault inp = Works then getRefundOrderProviderInstance db r else Inl InstanceMissing) of
        Inr (Some inst) \<Rightarrow>
          if rf_provider inp = None then (refund_fails ProviderLookupFailed, db)
          else if \<not> rf_canQuery inp then (refund_fails QueryUnsupported, db)
          else (AtQueryDetail r, db)
      | _ \<Rightarrow> (refund_fails ProviderLookupFailed, db))"
| "query_step inp (AtQueryDetail r) db =
     (AtQueryCall r (if rf_fault inp = Works then latestRefundPendingDetail db (po_ID r) else no_detail), db)"
| "query_step inp (AtQueryCall r detail) db =
     (case rf_reply inp of (resp, err) \<Rightarrow>
        if err then (refund_fails QueryError, db)
        else case validateRefundProviderResponse resp of
          Some e \<Rightarrow> (AtFinalizeFailed r e, db)
        | None \<Rightarrow>
            let success = (case resp of None \<Rightarrow> False | Some x \<Rightarrow> gateway_success x);
                plan = refundFinalizePlan r in
            if \<not> rpd_DeductionRollbackOK detail
            then (query_done (plan\<lparr>rp_BalanceToDeduct := 0, rp_SubDaysToDeduct := 0\<rparr>) success, db)
            else if po_OrderType r = ''subscription'' then (AtFinalizePrep plan success, db)
            else (query_done plan success, db))"
| "query_step inp (AtFinalizePrep p success) db =
     (case prepDeduct (rp_Order p) True None (if rf_fault inp = Works then rf_activeSub inp else None) p of
        Inl early \<Rightarrow> (RefundDone (RefundAnswer early), db)
      | Inr p \<Rightarrow> (query_done p success, db))"
| "query_step inp (AtFinalize p) db =
     (if rf_fault inp = FailsBefore then (refund_fails RefundStatementFailed, db)
      else case finalizePendingRefundSuccess (rf_now inp) p db of
        Inl e \<Rightarrow> (refund_fails e, db)
      | Inr (p, db') \<Rightarrow> if rf_fault inp \<noteq> Works then (refund_fails RefundStatementFailed, db') else (refund_ok p, db'))"
| "query_step inp (AtFinalizeFailed r e) db =
     (RefundDone (RefundAnswer (warn GatewayRefundFailed False)),
      set_status (rf_fault inp) (rf_now inp) (po_ID r) OrderStatusRefundFailed (Some (rf_now inp)) db)"
| "query_step inp p db = (p, db)"

text \<open>A request is in one of the four groups of phases; the others leave it as it is.\<close>

definition refund_step :: "refund_input \<Rightarrow> refund_phase \<Rightarrow> refund_db \<Rightarrow> refund_phase \<times> refund_db" where
  "refund_step inp p db =
     (case p of
        AtRequest i u s \<Rightarrow> request_step inp p db
      | AtRequestInstance r u s \<Rightarrow> request_step inp p db
      | AtRequestBalance r u s \<Rightarrow> request_step inp p db
      | AtRequestUpdate r u s \<Rightarrow> request_step inp p db
      | AtPrepare i a s f d \<Rightarrow> prepare_step inp p db
      | AtPrepareInstance r a s f d \<Rightarrow> prepare_step inp p db
      | AtPrepDeduct q \<Rightarrow> prepare_step inp p db
      | AtRollback q c \<Rightarrow> settle_step inp p db
      | AtRollbackAudit q c \<Rightarrow> settle_step inp p db
      | AtGatewayFailed q e ok \<Rightarrow> settle_step inp p db
      | AtMarkOk q \<Rightarrow> settle_step inp p db
      | AtOkAudit q \<Rightarrow> settle_step inp p db
      | AtMarkPending q r ok \<Rightarrow> settle_step inp p db
      | AtPendingAudit q r ok \<Rightarrow> settle_step inp p db
      | AtQuery i \<Rightarrow> query_step inp p db
      | AtQueryProvider r \<Rightarrow> query_step inp p db
      | AtQueryDetail r \<Rightarrow> query_step inp p db
      | AtQueryCall r d \<Rightarrow> query_step inp p db
      | AtFinalizePrep q b \<Rightarrow> query_step inp p db
      | AtFinalize q \<Rightarrow> query_step inp p db
      | AtFinalizeFailed r e \<Rightarrow> query_step inp p db
      | RefundDone z \<Rightarrow> (p, db)
      | _ \<Rightarrow> execute_step inp p db)"

definition refund_run ::
  "(nat \<times> refund_input) list \<Rightarrow> (nat \<Rightarrow> refund_phase) \<Rightarrow> refund_db \<Rightarrow> (nat \<Rightarrow> refund_phase) \<times> refund_db" where
  "refund_run sched ph db = interleave refund_step sched (ph, db)"

end
