(* ===== verification/Payment_Refund_Correct.thy ===== *)
theory Payment_Refund_Correct
  imports Payment_Refund
begin

text \<open>
  Refunds of any number of administrators, users and queries at once. An order being refunded has
  one holder; a gateway says at most once that it paid; what was taken from the user is given back
  unless the refund succeeds.
\<close>

section \<open>The holder of an order\<close>

fun holder :: "refund_phase \<Rightarrow> int option" where
  "holder (AtDeductCheck p) = Some (rp_OrderID p)"
| "holder (AtDeduct p) = Some (rp_OrderID p)"
| "holder (AtSubCheck p) = Some (rp_OrderID p)"
| "holder (AtSubDeduct p) = Some (rp_OrderID p)"
| "holder (AtRevoke p) = Some (rp_OrderID p)"
| "holder (AtRestore p e) = Some (rp_OrderID p)"
| "holder (AtGateway p) = Some (rp_OrderID p)"
| "holder (AtRollback p c) = Some (rp_OrderID p)"
| "holder (AtRollbackAudit p c) = Some (rp_OrderID p)"
| "holder (AtGatewayFailed p e ok) = Some (rp_OrderID p)"
| "holder (AtMarkOk p) = Some (rp_OrderID p)"
| "holder (AtMarkPending p r ok) = Some (rp_OrderID p)"
| "holder _ = None"

fun paying :: "refund_phase \<Rightarrow> bool" where
  "paying (AtMarkOk p) = True"
| "paying _ = False"

definition status :: "refund_db \<Rightarrow> int \<Rightarrow> string option" where
  "status db i = map_option po_Status (gget (rd_orders db) i)"

definition refundable_status :: "string option \<Rightarrow> bool" where
  "refundable_status s \<longleftrightarrow> s \<in> set [Some OrderStatusCompleted, Some OrderStatusRefundRequested, Some OrderStatusRefundPending, Some OrderStatusRefundFailed]"

definition refunded_status :: "string option \<Rightarrow> bool" where
  "refunded_status s \<longleftrightarrow> s \<in> set [Some OrderStatusRefunded, Some OrderStatusPartiallyRefunded]"

definition successes :: "refund_db \<Rightarrow> int \<Rightarrow> nat" where
  "successes db i = length (filter (\<lambda>(j, a, ok). j = i \<and> ok) (rd_calls db))"

lemma holder_next [simp]:
  "holder (to_gateway p) = Some (rp_OrderID p)" "holder (after_lock p) = Some (rp_OrderID p)"
  "holder (settle p c ok) = Some (rp_OrderID p)" "holder (finishRefund p r) = Some (rp_OrderID p)"
  "holder (after_plan p) = None" "holder (query_done p b) = None" "holder (refund_ok p) = None"
  by (simp_all add: to_gateway_def after_lock_def finishRefund_def after_plan_def query_done_def refund_ok_def)
    (cases c, simp_all)

lemma paying_next [simp]:
  "\<not> paying (to_gateway p)" "\<not> paying (after_lock p)" "\<not> paying (settle p c ok)" "paying (finishRefund p r) = gateway_success r"
  by (simp_all add: to_gateway_def after_lock_def finishRefund_def) (cases c, simp_all)

lemma update_cases:
  assumes "update_refund_order i c f db = (db', n)"
  obtains (none) "n = 0" "db' = db" | (one) r where "n = 1" "gget (rd_orders db) i = Some r" "c r"
    "db' = db\<lparr>rd_orders := gput (rd_orders db) i (f r)\<rparr>"
  using assms by (auto simp: update_refund_order_def split: option.splits if_splits)

lemma refundable_iff: "refundable r \<longleftrightarrow> refundable_status (Some (po_Status r))"
  by (simp add: refundable_def refundable_status_def)

section \<open>What a step does to the orders and the gateway\<close>

text \<open>The answer to a query that a refund failed is not out of date when it is written down.\<close>

definition timely :: "refund_phase \<Rightarrow> refund_db \<Rightarrow> bool" where
  "timely p db \<longleftrightarrow> (case p of AtFinalizeFailed r e \<Rightarrow> refundable_status (status db (po_ID r)) | _ \<Rightarrow> True)"

text \<open>
  Who does not hold an order changes its status only from a refundable one; who takes an order takes
  it from a refundable status; who holds it keeps its status until the last step.
\<close>

definition moves_orders :: "refund_phase \<Rightarrow> refund_phase \<Rightarrow> refund_db \<Rightarrow> refund_db \<Rightarrow> bool" where
  "moves_orders p p' db db' \<longleftrightarrow>
     (\<forall>j. status db' j = status db j \<or> holder p = Some j \<or> refundable_status (status db j)) \<and>
     (\<forall>j. holder p' = Some j \<longrightarrow>
        (if holder p = None then refundable_status (status db j) \<and> status db' j = Some OrderStatusRefunding
         else holder p = Some j \<and> status db' j = status db j \<and> \<not> paying p)) \<and>
     (\<forall>j. holder p = Some j \<longrightarrow> paying p \<longrightarrow> status db' j = status db j \<or> refunded_status (status db' j)) \<and>
     (rd_calls db' = rd_calls db \<or>
      (\<exists>j a ok. holder p = Some j \<and> holder p' = Some j \<and> \<not> paying p \<and> rd_calls db' = rd_calls db @ [(j, a, ok)] \<and> (ok \<longrightarrow> paying p')))"

lemma status_put: "status (db\<lparr>rd_orders := gput (rd_orders db) i r\<rparr>) j = (if j = i then Some (po_Status r) else status db j)"
  by (simp add: status_def gget_gput)

lemma status_same: "rd_orders db' = rd_orders db \<Longrightarrow> status db' = status db"
  by (simp add: status_def fun_eq_iff)

lemma keeps_orders:
  assumes "rd_orders db' = rd_orders db" and "rd_calls db' = rd_calls db"
    and "holder p' = None \<or> holder p' = holder p" and "paying p \<Longrightarrow> holder p' = None"
  shows "moves_orders p p' db db'"
  using assms status_same [OF assms(1)] by (auto simp: moves_orders_def)

lemma outside_moves:
  assumes "holder p = None" "holder p' = None" "rd_calls db' = rd_calls db"
    and "\<And>j. status db' j = status db j \<or> refundable_status (status db j)"
  shows "moves_orders p p' db db'"
proof -
  have "\<not> paying p" using assms(1) by (cases p) simp_all
  with assms show ?thesis by (simp add: moves_orders_def)
qed

lemma set_status_orders:
  "status (set_status f now i s t db) j = status db j \<or> j = i" "rd_calls (set_status f now i s t db) = rd_calls db"
  by (auto simp: set_status_def took_effect_def update_refund_order_def status_def gget_gput split: option.splits)

lemma deduct_orders: "DeductAvailableBalance i u a db = Some (d, db') \<Longrightarrow> rd_orders db' = rd_orders db \<and> rd_calls db' = rd_calls db"
  by (auto simp: DeductAvailableBalance_def Let_def split: if_splits option.splits)

lemma give_back_orders: "give_back i u a db = Some db' \<Longrightarrow> rd_orders db' = rd_orders db \<and> rd_calls db' = rd_calls db"
  by (auto simp: give_back_def split: option.splits)

lemma extend_orders: "ExtendSubscription now i d db = Inr db' \<Longrightarrow> rd_orders db' = rd_orders db \<and> rd_calls db' = rd_calls db"
  by (auto simp: ExtendSubscription_def Let_def split: if_splits option.splits)

lemma revoke_orders: "RevokeSubscription i db = Some db' \<Longrightarrow> rd_orders db' = rd_orders db \<and> rd_calls db' = rd_calls db"
  by (auto simp: RevokeSubscription_def split: if_splits)

lemma audit_orders: "rd_orders (insert_refund_audit i a d db) = rd_orders db" "rd_calls (insert_refund_audit i a d db) = rd_calls db"
  by (simp_all add: insert_refund_audit_def)

lemma took_effect_orders:
  "rd_orders db' = rd_orders db \<Longrightarrow> rd_orders (took_effect f db db') = rd_orders db"
  "rd_calls db' = rd_calls db \<Longrightarrow> rd_calls (took_effect f db db') = rd_calls db"
  by (simp_all add: took_effect_def)

lemma update_calls: "update_refund_order i c f db = (db', n) \<Longrightarrow> rd_calls db' = rd_calls db"
  by (auto simp: update_refund_order_def split: option.splits if_splits)

lemma update_moves:
  assumes u: "update_refund_order i c f db = (db', n)" and c: "\<And>r. c r \<Longrightarrow> refundable_status (Some (po_Status r))"
    and p: "holder p = None" "holder p' = None"
  shows "moves_orders p p' db db'" "moves_orders p p' db (took_effect g db db')"
proof -
  have p': "\<not> paying p" using p(1) by (cases p) simp_all
  show a: "moves_orders p p' db db'"
    using u
  proof (cases rule: update_cases)
    case none
    with p show ?thesis by (simp add: moves_orders_def)
  next
    case (one r)
    with c [OF one(3)] p p' show ?thesis by (simp add: moves_orders_def status_put status_def gget_gput)
  qed
  show "moves_orders p p' db (took_effect g db db')"
    using a p by (cases g) (simp_all add: keeps_orders p')
qed

lemma request_moves:
  assumes s: "request_step inp p db = (p', db')" and p: "holder p = None"
  shows "moves_orders p p' db db'"
proof (cases "\<exists>r u s. p = AtRequestUpdate r u s")
  case False
  with s have "db' = db \<and> holder p' = None \<or> p' = p \<and> db' = db"
    by (cases p) (auto split: option.splits sum.splits if_splits)
  moreover have "\<not> paying p" using p by (cases p) simp_all
  ultimately show ?thesis using p by (metis keeps_orders)
next
  case True
  then obtain r u t where q: "p = AtRequestUpdate r u t" by blast
  obtain d n where d: "update_refund_order (po_ID r)
      (\<lambda>x. po_UserID x = u \<and> po_Status x = OrderStatusCompleted \<and> po_OrderType x = ''balance'')
      (\<lambda>x. x\<lparr>po_Status := OrderStatusRefundRequested, po_UpdatedAt := rf_now inp,
         ro_RefundRequestReason := trim_space t, ro_RefundAmount := po_Amount r\<rparr>) db = (d, n)" by force
  have "holder p' = None" and db': "db' = d \<or> db' = took_effect (rf_fault inp) db d"
    using s d by (auto simp: q split: if_splits)
  from update_moves [OF d _ p this(1)] db' show ?thesis by (auto simp: refundable_status_def)
qed

lemma prepare_moves:
  assumes s: "prepare_step inp p db = (p', db')" and p: "holder p = None"
  shows "moves_orders p p' db db'"
proof -
  from s p have "db' = db \<and> holder p' = None"
    by (cases p) (auto simp: Let_def split: option.splits sum.splits if_splits go_float.splits)
  with p show ?thesis by (intro keeps_orders) auto
qed

lemma query_moves:
  assumes s: "query_step inp p db = (p', db')" and p: "holder p = None" and t: "timely p db"
  shows "moves_orders p p' db db'"
proof -
  have p': "\<not> paying p" using p by (cases p) simp_all
  have "db' = db \<and> holder p' = None \<or> p' = p \<and> db' = db" if "\<nexists>q. p = AtFinalize q" "\<nexists>r e. p = AtFinalizeFailed r e"
    using s p that by (cases p) (auto simp: Let_def split: option.splits sum.splits if_splits prod.splits)
  moreover have ?thesis if "p = AtFinalizeFailed r e" for r e
  proof -
    from s that have d: "db' = set_status (rf_fault inp) (rf_now inp) (po_ID r) OrderStatusRefundFailed (Some (rf_now inp)) db"
      "holder p' = None" by auto
    with t that p p' show ?thesis
      using set_status_orders [of "rf_fault inp" "rf_now inp" "po_ID r" OrderStatusRefundFailed "Some (rf_now inp)" db]
      by (auto simp: moves_orders_def timely_def)
  qed
  moreover have ?thesis if q: "p = AtFinalize q" for q
  proof (cases "db' = db")
    case True
    with s p q show ?thesis by (intro keeps_orders) (auto split: if_splits sum.splits prod.splits)
  next
    case False
    with s q obtain q' where f: "finalizePendingRefundSuccess (rf_now inp) q db = Inr (q', db')" and h: "holder p' = None"
      by (auto split: if_splits sum.splits prod.splits)
    obtain d n where d: "update_refund_order (rp_OrderID q) (\<lambda>r. po_Status r = OrderStatusRefundPending)
         (\<lambda>r. r\<lparr>po_Status := OrderStatusRefunding, po_UpdatedAt := rf_now inp\<rparr>) db = (d, n)" by force
    from f d obtain d1 where d1: "n \<noteq> 0" "applyRefundFinalDeduction (rf_now inp) q d = Inr (q', d1)"
      "markRefundOkTx (rf_now inp) q' d1 = Inr db'"
      by (auto simp: finalizePendingRefundSuccess_def split: if_splits sum.splits)
    from d d1(1) obtain r where r: "gget (rd_orders db) (rp_OrderID q) = Some r" "po_Status r = OrderStatusRefundPending"
      and ds: "\<And>j. j \<noteq> rp_OrderID q \<Longrightarrow> status d j = status db j" and dc: "rd_calls d = rd_calls db"
      by (auto elim!: update_cases simp: status_put)
    have o1: "rd_orders d1 = rd_orders d \<and> rd_calls d1 = rd_calls d \<and> rp_OrderID q' = rp_OrderID q"
      using d1(2) by (auto simp: applyRefundFinalDeduction_def deduct_orders extend_orders revoke_orders split: if_splits option.splits sum.splits)
    obtain d2 m where d2: "update_refund_order (rp_OrderID q') (\<lambda>r. True) (refunded_row (rf_now inp) q') d1 = (d2, m)" by force
    with d1(3) have "db' = insert_refund_audit (rp_OrderID q') ''REFUND_SUCCESS'' no_detail d2"
      by (auto simp: markRefundOkTx_def split: if_splits)
    with d2 o1 ds dc have "\<And>j. j \<noteq> rp_OrderID q \<Longrightarrow> status db' j = status db j" "rd_calls db' = rd_calls db"
      using status_same [of d1 d] by (auto elim!: update_cases simp: status_put status_def audit_orders gget_gput)
    moreover have "refundable_status (status db (rp_OrderID q))" using r by (simp add: refundable_status_def status_def)
    ultimately have "status db' j = status db j \<or> refundable_status (status db j)" for j by (cases "j = rp_OrderID q") auto
    then show ?thesis by (rule outside_moves [OF p h \<open>rd_calls db' = rd_calls db\<close>])
  qed
  ultimately show ?thesis using p p' by (metis keeps_orders)
qed

text \<open>What the holder does: nothing to the orders, or a last statement.\<close>

lemma hold_moves_on:
  assumes "holder p = Some i" "holder p' = Some i" "\<not> paying p" "rd_orders db' = rd_orders db"
    and "rd_calls db' = rd_calls db \<or> (\<exists>a ok. rd_calls db' = rd_calls db @ [(i, a, ok)] \<and> (ok \<longrightarrow> paying p'))"
  shows "moves_orders p p' db db'"
  using assms status_same [OF assms(4)] by (auto simp: moves_orders_def)

lemma hold_ends:
  assumes "holder p = Some i" "holder p' = None" "\<And>j. j \<noteq> i \<Longrightarrow> status db' j = status db j" "rd_calls db' = rd_calls db"
    and "paying p \<Longrightarrow> status db' i = status db i \<or> refunded_status (status db' i)"
  shows "moves_orders p p' db db'"
proof -
  have "status db' j = status db j \<or> holder p = Some j" for j using assms(1,3) by (cases "j = i") auto
  with assms show ?thesis by (auto simp: moves_orders_def)
qed

lemma execute_moves:
  assumes s: "execute_step inp p db = (p', db')" and p: "holder p \<noteq> None \<or> (\<exists>q. p = AtLock q)" and n: "\<not> paying p"
  shows "moves_orders p p' db db' \<or> p' = p \<and> db' = db"
proof (cases p)
  case (AtLock q)
  obtain d k where d: "update_refund_order (rp_OrderID q) refundable
      (\<lambda>r. r\<lparr>po_Status := OrderStatusRefunding, po_UpdatedAt := rf_now inp\<rparr>) db = (d, k)" by force
  show ?thesis
  proof (cases "rf_fault inp = Works \<and> k \<noteq> 0")
    case True
    with s d have p': "p' = after_lock q" "db' = d" by (auto simp: AtLock)
    from d True obtain r where "gget (rd_orders db) (rp_OrderID q) = Some r" "refundable r"
      "d = db\<lparr>rd_orders := gput (rd_orders db) (rp_OrderID q) (r\<lparr>po_Status := OrderStatusRefunding, po_UpdatedAt := rf_now inp\<rparr>)\<rparr>"
      by (auto elim!: update_cases)
    then show ?thesis by (simp add: AtLock p' moves_orders_def status_put status_def refundable_iff gget_gput)
  next
    case False
    with s d have p': "holder p' = None" "db' = took_effect (rf_fault inp) db d \<or> db' = d" by (auto simp: AtLock split: if_splits)
    have "holder p = None" by (simp add: AtLock)
    from update_moves [OF d _ this p'(1)] p'(2) show ?thesis by (auto simp: refundable_iff)
  qed
next
  case (AtRestore q e)
  from s have "db' = set_status (rf_fault inp) (rf_now inp) (rp_OrderID q) (restored_status q) None db" "holder p' = None" by (auto simp: AtRestore)
  then show ?thesis using set_status_orders [of "rf_fault inp" "rf_now inp" "rp_OrderID q" "restored_status q" None db]
    by (intro disjI1, intro hold_ends [where i = "rp_OrderID q"]) (auto simp: AtRestore)
next
  case (AtDeduct q)
  from s show ?thesis by (intro disjI1, intro hold_moves_on [where i = "rp_OrderID q"])
    (auto simp: AtDeduct took_effect_orders dest: deduct_orders split: option.splits prod.splits if_splits)
next
  case (AtSubDeduct q)
  from s show ?thesis by (intro disjI1, intro hold_moves_on [where i = "rp_OrderID q"])
    (auto simp: AtSubDeduct took_effect_orders dest: extend_orders split: sum.splits if_splits)
next
  case (AtRevoke q)
  from s show ?thesis by (intro disjI1, intro hold_moves_on [where i = "rp_OrderID q"])
    (auto simp: AtRevoke took_effect_orders dest: revoke_orders split: option.splits if_splits)
next
  case (AtGateway q)
  from s show ?thesis by (intro disjI1, intro hold_moves_on [where i = "rp_OrderID q"])
    (auto simp: AtGateway split: option.splits if_splits sum.splits prod.splits)
next
  case (AtDeductCheck q)
  from s show ?thesis by (intro disjI1, intro hold_moves_on [where i = "rp_OrderID q"]) (auto simp: AtDeductCheck split: if_splits)
next
  case (AtSubCheck q)
  from s show ?thesis by (intro disjI1, intro hold_moves_on [where i = "rp_OrderID q"]) (auto simp: AtSubCheck split: if_splits)
qed (use s p n in auto)

lemma settle_moves:
  assumes s: "settle_step inp p db = (p', db')"
  shows "moves_orders p p' db db' \<or> p' = p \<and> db' = db"
proof (cases p)
  case (AtRollback q c)
  from s show ?thesis by (intro disjI1, intro hold_moves_on [where i = "rp_OrderID q"])
    (auto simp: AtRollback took_effect_orders dest: extend_orders give_back_orders split: option.splits sum.splits if_splits)
next
  case (AtRollbackAudit q c)
  from s show ?thesis by (intro disjI1, intro hold_moves_on [where i = "rp_OrderID q"])
    (auto simp: AtRollbackAudit took_effect_orders audit_orders)
next
  case (AtGatewayFailed q e ok)
  from s obtain st f where "db' = set_status (rf_fault inp) (rf_now inp) (rp_OrderID q) st f db" "holder p' = None"
    by (auto simp: AtGatewayFailed split: if_splits)
  then show ?thesis using set_status_orders [of "rf_fault inp" "rf_now inp" "rp_OrderID q" st f db]
    by (intro disjI1, intro hold_ends [where i = "rp_OrderID q"]) (auto simp: AtGatewayFailed)
next
  case (AtMarkOk q)
  obtain d k where d: "update_refund_order (rp_OrderID q) (\<lambda>r. True) (refunded_row (rf_now inp) q) db = (d, k)" by force
  with s have p': "holder p' = None" "db' = took_effect (rf_fault inp) db d" by (auto simp: AtMarkOk split: if_splits)
  have "status d j = status db j \<or> j = rp_OrderID q \<and> refunded_status (status d j)" for j
    using d by (auto elim!: update_cases simp: status_put refunded_row_def refunded_status_def split: if_splits)
  then have "status db' j = status db j \<or> j = rp_OrderID q \<and> refunded_status (status db' j)" for j
    unfolding p'(2) by (cases "rf_fault inp") simp_all
  moreover have "rd_calls db' = rd_calls db" using update_calls [OF d] by (simp add: p'(2) took_effect_orders)
  ultimately show ?thesis using p'(1) by (intro disjI1, intro hold_ends [where i = "rp_OrderID q"]) (auto simp: AtMarkOk)
next
  case (AtMarkPending q r ok)
  obtain d k where d: "update_refund_order (rp_OrderID q) (\<lambda>x. True)
         (\<lambda>x. x\<lparr>po_Status := OrderStatusRefundPending, po_UpdatedAt := rf_now inp, po_FailedAt := None,
                ro_RefundAmount := rp_RefundAmount q, ro_RefundReason := rp_Reason q, ro_ForceRefund := rp_Force q\<rparr>) db = (d, k)" by force
  with s have p': "holder p' = None" "db' = took_effect (rf_fault inp) db d" by (auto simp: AtMarkPending split: if_splits)
  have "status d j = status db j \<or> j = rp_OrderID q" for j using d by (auto elim!: update_cases simp: status_put split: if_splits)
  then have "status db' j = status db j \<or> j = rp_OrderID q" for j unfolding p'(2) by (cases "rf_fault inp") simp_all
  moreover have "rd_calls db' = rd_calls db" using update_calls [OF d] by (simp add: p'(2) took_effect_orders)
  ultimately show ?thesis using p'(1) by (intro disjI1, intro hold_ends [where i = "rp_OrderID q"]) (auto simp: AtMarkPending)
next
  case (AtOkAudit q)
  from s show ?thesis by (intro disjI1, intro keeps_orders) (auto simp: AtOkAudit took_effect_orders audit_orders)
next
  case (AtPendingAudit q r ok)
  from s show ?thesis by (intro disjI1, intro keeps_orders) (auto simp: AtPendingAudit took_effect_orders audit_orders)
qed (use s in auto)

lemma stays_moves: "\<not> paying p \<or> holder p = None \<Longrightarrow> moves_orders p p db db"
  by (auto simp: moves_orders_def)

lemma mark_ok_moves: "settle_step inp (AtMarkOk q) db = (p', db') \<Longrightarrow> p' \<noteq> AtMarkOk q"
  by (auto split: prod.splits if_splits)

lemma step_moves:
  assumes s: "refund_step inp p db = (p', db')" and t: "timely p db"
  shows "moves_orders p p' db db'"
  using s request_moves [of inp p db p' db'] prepare_moves [of inp p db p' db'] query_moves [of inp p db p' db'] t
    execute_moves [of inp p db p' db'] settle_moves [of inp p db p' db'] stays_moves [of p db]
    mark_ok_moves [of inp _ db p' db']
  by (cases p) (auto simp: refund_step_def simp del: execute_step.simps settle_step.simps)

section \<open>One holder, one payment\<close>

definition paid_out :: "refund_db \<Rightarrow> int \<Rightarrow> bool" where
  "paid_out db i \<longleftrightarrow> (\<exists>a. (i, a, True) \<in> set (rd_calls db))"

text \<open>No call for an order follows one that succeeded.\<close>

definition success_last :: "(int \<times> rat \<times> bool) list \<Rightarrow> int \<Rightarrow> bool" where
  "success_last cs i \<longleftrightarrow> (\<forall>xs a ys. cs = xs @ (i, a, True) # ys \<longrightarrow> i \<notin> fst ` set ys)"

definition one_holder :: "(nat \<Rightarrow> refund_phase) \<Rightarrow> refund_db \<Rightarrow> bool" where
  "one_holder ph db \<longleftrightarrow>
     (\<forall>w v i. holder (ph w) = Some i \<longrightarrow> holder (ph v) = Some i \<longrightarrow> w = v) \<and>
     (\<forall>w i. holder (ph w) = Some i \<longrightarrow> status db i = Some OrderStatusRefunding) \<and>
     (\<forall>i. success_last (rd_calls db) i \<and>
        (paid_out db i \<longrightarrow> (status db i = Some OrderStatusRefunding \<or> refunded_status (status db i)) \<and>
           (\<forall>w. holder (ph w) = Some i \<longrightarrow> paying (ph w))))"

lemma success_last_snoc:
  assumes l: "success_last cs i" and n: "j = i \<longrightarrow> (\<forall>a. (i, a, True) \<notin> set cs)"
  shows "success_last (cs @ [(j, b, ok)]) i"
  unfolding success_last_def
proof (intro allI impI)
  fix xs a ys
  assume e: "cs @ [(j, b, ok)] = xs @ (i, a, True) # ys"
  show "i \<notin> fst ` set ys"
  proof (cases ys rule: rev_cases)
    case (snoc zs z)
    with e have "cs = xs @ (i, a, True) # zs" "z = (j, b, ok)" by simp_all
    with l n snoc show ?thesis by (auto simp: success_last_def)
  qed simp
qed

lemma status_disjoint:
  "refundable_status s \<Longrightarrow> s \<noteq> Some OrderStatusRefunding" "refundable_status s \<Longrightarrow> \<not> refunded_status s"
  by (auto simp: refundable_status_def refunded_status_def)

lemma step_one_holder:
  assumes h: "one_holder ph db" and t: "timely (ph w) db" and s: "refund_step inp (ph w) db = (p', db')"
  shows "one_holder (ph(w := p')) db'"
proof -
  note m = step_moves [OF s t]
  have unique: "\<And>w v i. holder (ph w) = Some i \<Longrightarrow> holder (ph v) = Some i \<Longrightarrow> w = v"
    and locked: "\<And>w i. holder (ph w) = Some i \<Longrightarrow> status db i = Some OrderStatusRefunding"
    and last: "\<And>i. success_last (rd_calls db) i"
    and paid_status: "\<And>i. paid_out db i \<Longrightarrow> status db i = Some OrderStatusRefunding \<or> refunded_status (status db i)"
    and paid_holder: "\<And>w i. paid_out db i \<Longrightarrow> holder (ph w) = Some i \<Longrightarrow> paying (ph w)"
    using h unfolding one_holder_def by blast+
  have kept: "status db' i = status db i \<or> holder (ph w) = Some i \<or> refundable_status (status db i)" for i
    using m by (simp add: moves_orders_def)
  have taken: "if holder (ph w) = None then refundable_status (status db i) \<and> status db' i = Some OrderStatusRefunding
      else holder (ph w) = Some i \<and> status db' i = status db i \<and> \<not> paying (ph w)" if "holder p' = Some i" for i
    using m that by (simp add: moves_orders_def)
  have ends: "status db' i = status db i \<or> refunded_status (status db' i)" if "holder (ph w) = Some i" "paying (ph w)" for i
    using m that by (simp add: moves_orders_def)
  have other: "holder (ph v) \<noteq> Some i" if "holder p' = Some i" "v \<noteq> w" for v i
  proof
    assume v: "holder (ph v) = Some i"
    show False
    proof (cases "holder (ph w) = None")
      case True
      with taken [OF that(1)] have "refundable_status (status db i)" by simp
      with status_disjoint(1) locked [OF v] show False by blast
    next
      case False
      with taken [OF that(1)] have "holder (ph w) = Some i" by simp
      from unique [OF this v] that(2) show False by simp
    qed
  qed
  have 1: "v = x" if "holder ((ph(w := p')) v) = Some i" "holder ((ph(w := p')) x) = Some i" for v x i
    by (cases "v = w"; cases "x = w") (use that other [of i x] other [of i v] unique [of v i x] in auto)
  have 2: "status db' i = Some OrderStatusRefunding" if "holder ((ph(w := p')) v) = Some i" for v i
  proof (cases "v = w")
    case True
    with that taken [of i] locked [of w i] show ?thesis by (auto split: if_splits)
  next
    case False
    with that have v: "holder (ph v) = Some i" by simp
    with locked [OF v] kept [of i] unique [OF v, of w] False status_disjoint(1) [of "status db i"] show ?thesis by auto
  qed
  have calls: "rd_calls db' = rd_calls db \<or>
      (\<exists>j a ok. holder (ph w) = Some j \<and> holder p' = Some j \<and> \<not> paying (ph w) \<and> rd_calls db' = rd_calls db @ [(j, a, ok)] \<and> (ok \<longrightarrow> paying p'))"
    using m by (simp add: moves_orders_def)
  have 3: "success_last (rd_calls db') i" for i
    using calls
  proof (elim disjE exE conjE)
    fix j a ok
    assume c: "holder (ph w) = Some j" "\<not> paying (ph w)" "rd_calls db' = rd_calls db @ [(j, a, ok)]"
    then have "j = i \<longrightarrow> (\<forall>a. (i, a, True) \<notin> set (rd_calls db))" using paid_holder [of i w] by (auto simp: paid_out_def)
    from success_last_snoc [OF last this] c(3) show ?thesis by simp
  qed (simp add: last)
  have new: "paid_out db i \<or> holder (ph w) = Some i \<and> holder p' = Some i \<and> paying p'" if "paid_out db' i" for i
    using calls that by (auto simp: paid_out_def)
  have 4: "status db' i = Some OrderStatusRefunding \<or> refunded_status (status db' i)" if p: "paid_out db' i" for i
    using new [OF p]
  proof
    assume "paid_out db i"
    with paid_status [of i] paid_holder [of i w] kept [of i] ends [of i] status_disjoint [of "status db i"] show ?thesis by metis
  next
    assume "holder (ph w) = Some i \<and> holder p' = Some i \<and> paying p'"
    with 2 [of w i] show ?thesis by simp
  qed
  have 5: "paying ((ph(w := p')) v)" if p: "paid_out db' i" and v: "holder ((ph(w := p')) v) = Some i" for v i
  proof (cases "v = w")
    case True
    with v have h': "holder p' = Some i" by simp
    from new [OF p] show ?thesis
    proof
      assume q: "paid_out db i"
      have "\<not> refundable_status (status db i)" using paid_status [OF q] status_disjoint [of "status db i"] by auto
      with taken [OF h'] have "holder (ph w) = Some i" "\<not> paying (ph w)" by (auto split: if_splits)
      with paid_holder [OF q] show ?thesis by blast
    qed (simp add: True)
  next
    case False
    with v have hv: "holder (ph v) = Some i" by simp
    from new [OF p] unique [OF hv, of w] False have "paid_out db i" by auto
    from paid_holder [OF this hv] False show ?thesis by simp
  qed
  from 1 2 3 4 5 show ?thesis unfolding one_holder_def by blast
qed

text \<open>A condition on every step of a run.\<close>

fun along :: "(refund_input \<Rightarrow> refund_phase \<Rightarrow> refund_db \<Rightarrow> bool) \<Rightarrow> (nat \<times> refund_input) list \<Rightarrow> (nat \<Rightarrow> refund_phase) \<times> refund_db \<Rightarrow> bool" where
  "along P [] c = True"
| "along P ((w, inp) # sched) (ph, db) =
     (P inp (ph w) db \<and> (case refund_step inp (ph w) db of (p', db') \<Rightarrow> along P sched (ph(w := p'), db')))"

abbreviation "on_time \<equiv> along (\<lambda>inp. timely)"

lemma run_one_holder:
  "one_holder ph db \<Longrightarrow> on_time sched (ph, db) \<Longrightarrow> refund_run sched ph db = (ph', db') \<Longrightarrow> one_holder ph' db'"
proof (induction sched arbitrary: ph db)
  case (Cons x sched)
  obtain w inp where x: "x = (w, inp)" by (cases x)
  obtain p1 d1 where s: "refund_step inp (ph w) db = (p1, d1)" by (cases "refund_step inp (ph w) db")
  from Cons.prems(2) s have t: "timely (ph w) db" "on_time sched (ph(w := p1), d1)" by (simp_all add: x)
  from Cons.prems(3) s have "refund_run sched (ph(w := p1)) d1 = (ph', db')" by (simp add: refund_run_def x)
  from Cons.IH [OF step_one_holder [OF Cons.prems(1) t(1) s] t(2) this] show ?case .
qed (simp add: refund_run_def)

text \<open>
  C5. Any number of refund requests, attempts and queries run at once, with failing and unseen
  statements. If an answer that a pending refund failed is only ever written down while the order is
  not being refunded again (\<open>on_time\<close>), then at every moment at most one request works on an order, and
  once a gateway has answered that an order's refund succeeded, no gateway is called for this order again
  and the order is refunded or waits in REFUNDING.
  Without the condition a gateway is called again after a success, see \<open>stale_failure_pays_twice\<close>.
\<close>

theorem refund_paid_once:
  assumes "\<And>w. holder (ph w) = None" and "rd_calls db = []" and "on_time sched (ph, db)"
    and "refund_run sched ph db = (ph', db')"
  shows "(\<forall>w v. holder (ph' w) = Some i \<longrightarrow> holder (ph' v) = Some i \<longrightarrow> w = v) \<and>
     (\<forall>xs a ys. rd_calls db' = xs @ (i, a, True) # ys \<longrightarrow> i \<notin> fst ` set ys \<and>
        (status db' i = Some OrderStatusRefunding \<or> status db' i = Some OrderStatusRefunded \<or> status db' i = Some OrderStatusPartiallyRefunded))"
proof -
  have "one_holder ph db" using assms(1,2) by (simp add: one_holder_def success_last_def paid_out_def)
  from run_one_holder [OF this assms(3,4)] have h: "one_holder ph' db'" .
  have "paid_out db' i" if "rd_calls db' = xs @ (i, a, True) # ys" for xs a ys using that by (auto simp: paid_out_def)
  moreover have "success_last (rd_calls db') i" "\<And>w v. holder (ph' w) = Some i \<Longrightarrow> holder (ph' v) = Some i \<Longrightarrow> w = v"
    "paid_out db' i \<Longrightarrow> status db' i = Some OrderStatusRefunding \<or> refunded_status (status db' i)"
    using h unfolding one_holder_def by blast+
  ultimately show ?thesis unfolding success_last_def refunded_status_def by auto
qed

end
