(* ===== verification/Payment_Refund_Balance.thy ===== *)
theory Payment_Refund_Balance
  imports Payment_Refund_Correct
begin

text \<open>
  What refunds take from users: while a refund is tried its deduction is held, and unless it succeeds
  the deduction is given back.
\<close>

section \<open>Amounts\<close>

definition net :: "refund_db \<Rightarrow> int \<Rightarrow> rat" where
  "net db i = sum_list (map snd (filter (\<lambda>(j, a). j = i) (rd_moves db)))"

text \<open>The row that says that a deduction could not be given back.\<close>

abbreviation rollback_failed :: "refund_db \<Rightarrow> int \<Rightarrow> bool" where
  "rollback_failed db i \<equiv> has_refund_audit db i ''REFUND_ROLLBACK_FAILED''"

definition tolerance :: "refund_order \<Rightarrow> rat" where
  "tolerance r = paymentAmountToleranceForCurrency (PaymentOrderCurrency (po_ProviderSnapshot r))"

lemma tolerance_nonneg: "0 \<le> tolerance r"
  by (simp add: tolerance_def paymentAmountToleranceForCurrency_def Let_def)

text \<open>\<open>own i\<close> is the user of order i, \<open>cap i\<close> the most that a refund of it may be.\<close>

definition row_ok :: "(int \<Rightarrow> int) \<Rightarrow> (int \<Rightarrow> rat) \<Rightarrow> int \<Rightarrow> refund_order \<Rightarrow> bool" where
  "row_ok own cap i r \<longleftrightarrow> po_ID r = i \<and> po_UserID r = own i \<and> po_Amount r + tolerance r = cap i \<and> 0 \<le> po_Amount r \<and>
     0 \<le> ro_RefundAmount r \<and> ro_RefundAmount r \<le> cap i"

definition rows_ok :: "(int \<Rightarrow> int) \<Rightarrow> (int \<Rightarrow> rat) \<Rightarrow> refund_db \<Rightarrow> bool" where
  "rows_ok own cap db \<longleftrightarrow> (\<forall>i r. gget (rd_orders db) i = Some r \<longrightarrow> row_ok own cap i r)"

definition plan_ok :: "(int \<Rightarrow> int) \<Rightarrow> (int \<Rightarrow> rat) \<Rightarrow> RefundPlan \<Rightarrow> bool" where
  "plan_ok own cap p \<longleftrightarrow> row_ok own cap (rp_OrderID p) (rp_Order p) \<and> 0 \<le> rp_RefundAmount p \<and> rp_RefundAmount p \<le> cap (rp_OrderID p) \<and>
     0 \<le> rp_BalanceToDeduct p \<and> rp_BalanceToDeduct p \<le> cap (rp_OrderID p) \<and>
     (rp_DeductionType p \<noteq> ''balance'' \<longrightarrow> rp_BalanceToDeduct p = 0)"

fun phase_ok :: "(int \<Rightarrow> int) \<Rightarrow> (int \<Rightarrow> rat) \<Rightarrow> refund_phase \<Rightarrow> bool" where
  "phase_ok own cap (AtRequestInstance r u s) \<longleftrightarrow> row_ok own cap (po_ID r) r"
| "phase_ok own cap (AtRequestBalance r u s) \<longleftrightarrow> row_ok own cap (po_ID r) r"
| "phase_ok own cap (AtRequestUpdate r u s) \<longleftrightarrow> row_ok own cap (po_ID r) r"
| "phase_ok own cap (AtPrepareInstance r a s f d) \<longleftrightarrow> row_ok own cap (po_ID r) r"
| "phase_ok own cap (AtPrepDeduct p) \<longleftrightarrow> plan_ok own cap p \<and> rp_BalanceToDeduct p = 0"
| "phase_ok own cap (AtLock p) \<longleftrightarrow> plan_ok own cap p"
| "phase_ok own cap (AtDeductCheck p) \<longleftrightarrow> plan_ok own cap p"
| "phase_ok own cap (AtDeduct p) \<longleftrightarrow> plan_ok own cap p"
| "phase_ok own cap (AtSubCheck p) \<longleftrightarrow> plan_ok own cap p \<and> rp_BalanceToDeduct p = 0"
| "phase_ok own cap (AtSubDeduct p) \<longleftrightarrow> plan_ok own cap p \<and> rp_BalanceToDeduct p = 0"
| "phase_ok own cap (AtRevoke p) \<longleftrightarrow> plan_ok own cap p \<and> rp_BalanceToDeduct p = 0"
| "phase_ok own cap (AtRestore p e) \<longleftrightarrow> plan_ok own cap p"
| "phase_ok own cap (AtGateway p) \<longleftrightarrow> plan_ok own cap p"
| "phase_ok own cap (AtRollback p c) \<longleftrightarrow> plan_ok own cap p"
| "phase_ok own cap (AtRollbackAudit p c) \<longleftrightarrow> plan_ok own cap p"
| "phase_ok own cap (AtGatewayFailed p e ok) \<longleftrightarrow> plan_ok own cap p"
| "phase_ok own cap (AtMarkOk p) \<longleftrightarrow> plan_ok own cap p"
| "phase_ok own cap (AtMarkPending p r ok) \<longleftrightarrow> plan_ok own cap p"
| "phase_ok own cap (AtQueryProvider r) \<longleftrightarrow> row_ok own cap (po_ID r) r"
| "phase_ok own cap (AtQueryDetail r) \<longleftrightarrow> row_ok own cap (po_ID r) r"
| "phase_ok own cap (AtQueryCall r d) \<longleftrightarrow> row_ok own cap (po_ID r) r"
| "phase_ok own cap (AtFinalizePrep p b) \<longleftrightarrow> plan_ok own cap p \<and> rp_BalanceToDeduct p = 0"
| "phase_ok own cap (AtFinalize p) \<longleftrightarrow> plan_ok own cap p"
| "phase_ok own cap _ \<longleftrightarrow> True"

text \<open>What is held between the lock and the last step; \<open>None\<close> when only the audit log knows.\<close>

fun held :: "refund_phase \<Rightarrow> rat option" where
  "held (AtDeductCheck p) = Some 0"
| "held (AtDeduct p) = Some 0"
| "held (AtRestore p e) = Some 0"
| "held (AtSubCheck p) = Some (rp_BalanceToDeduct p)"
| "held (AtSubDeduct p) = Some (rp_BalanceToDeduct p)"
| "held (AtRevoke p) = Some (rp_BalanceToDeduct p)"
| "held (AtGateway p) = Some (rp_BalanceToDeduct p)"
| "held (AtRollback p c) = Some (rp_BalanceToDeduct p)"
| "held (AtMarkOk p) = Some (rp_BalanceToDeduct p)"
| "held (AtGatewayFailed p e ok) = (if ok then Some 0 else None)"
| "held (AtMarkPending p r ok) = (if ok then Some 0 else None)"
| "held _ = None"

section \<open>Phases stay well-formed\<close>

lemma row_at: "rows_ok own cap db \<Longrightarrow> gget (rd_orders db) i = Some r \<Longrightarrow> row_ok own cap i r \<and> row_ok own cap (po_ID r) r"
  by (auto simp: rows_ok_def row_ok_def)

lemma plan_next [simp]:
  "plan_ok own cap p \<Longrightarrow> phase_ok own cap (settle p c ok)" "phase_ok own cap (finishRefund p r) \<longleftrightarrow> plan_ok own cap p"
  "phase_ok own cap (refund_ok p)"
  by (cases c; auto simp: plan_ok_def row_ok_def) (auto simp: finishRefund_def refund_ok_def)

lemma to_gateway_ok: "plan_ok own cap p \<Longrightarrow> phase_ok own cap (to_gateway p)"
  by (auto simp: to_gateway_def plan_ok_def)

lemma after_lock_ok: "plan_ok own cap p \<Longrightarrow> phase_ok own cap (after_lock p)"
  using to_gateway_ok by (simp add: after_lock_def)

lemma update_rows:
  assumes "rows_ok own cap db" "update_refund_order i c f db = (db', n)" "\<And>r. row_ok own cap i r \<Longrightarrow> row_ok own cap i (f r)"
  shows "rows_ok own cap db'" "rows_ok own cap (took_effect g db db')"
proof -
  show a: "rows_ok own cap db'" using assms(2)
    by (cases rule: update_cases) (use assms(1,3) in \<open>auto simp: rows_ok_def gget_gput\<close>)
  show "rows_ok own cap (took_effect g db db')" using a assms(1) by (simp add: took_effect_def)
qed

lemma rows_same: "rows_ok own cap db \<Longrightarrow> rd_orders db' = rd_orders db \<Longrightarrow> rows_ok own cap db'"
  by (simp add: rows_ok_def)

lemma set_status_rows: "rows_ok own cap db \<Longrightarrow> rows_ok own cap (set_status f now i s t db)"
  unfolding set_status_def took_effect_def
  by (cases "update_refund_order i (\<lambda>r. True) (\<lambda>r. r\<lparr>po_Status := s, po_UpdatedAt := now, po_FailedAt := (if t = None then po_FailedAt r else t)\<rparr>) db")
    (auto simp: row_ok_def tolerance_def dest: update_rows)

lemma request_ok:
  assumes "rows_ok own cap db" "phase_ok own cap p" "request_step inp p db = (p', db')"
  shows "phase_ok own cap p' \<and> rows_ok own cap db'"
proof (cases p)
  case (AtRequestUpdate r u t)
  obtain d n where d: "update_refund_order (po_ID r)
      (\<lambda>x. po_UserID x = u \<and> po_Status x = OrderStatusCompleted \<and> po_OrderType x = ''balance'')
      (\<lambda>x. x\<lparr>po_Status := OrderStatusRefundRequested, po_UpdatedAt := rf_now inp,
         ro_RefundRequestReason := trim_space t, ro_RefundAmount := po_Amount r\<rparr>) db = (d, n)" by force
  have "row_ok own cap (po_ID r) x \<Longrightarrow> row_ok own cap (po_ID r) (x\<lparr>po_Status := OrderStatusRefundRequested, po_UpdatedAt := rf_now inp,
         ro_RefundRequestReason := trim_space t, ro_RefundAmount := po_Amount r\<rparr>)" for x
    using assms(2) tolerance_nonneg [of r] by (auto simp: AtRequestUpdate row_ok_def tolerance_def)
  from update_rows [OF assms(1) d this] assms(3) d show ?thesis by (auto simp: AtRequestUpdate split: if_splits)
next
  case (AtRequest i u t)
  with assms row_at [OF assms(1), of i] show ?thesis by (auto split: option.splits if_splits)
qed (use assms in \<open>auto split: option.splits sum.splits if_splits\<close>)

lemma prep_ok:
  assumes "prepDeduct r f b s p = Inr p'" "plan_ok own cap p" "rp_BalanceToDeduct p = 0"
  shows "plan_ok own cap p' \<and> (po_OrderType r = ''subscription'' \<longrightarrow> rp_BalanceToDeduct p' = 0)"
  using assms by (auto simp: prepDeduct_def plan_ok_def Let_def split: if_splits option.splits)

lemma prepare_ok:
  assumes "rows_ok own cap db" "phase_ok own cap p" "prepare_step inp p db = (p', db')"
  shows "phase_ok own cap p' \<and> rows_ok own cap db'"
proof (cases p)
  case (AtPrepare i a t f d)
  with assms row_at [OF assms(1), of i] show ?thesis by (auto split: option.splits if_splits)
next
  case (AtPrepareInstance r a t f d)
  have same: "db' = db" using assms(3) by (auto simp: AtPrepareInstance Let_def split: option.splits sum.splits if_splits go_float.splits)
  have "row_ok own cap (po_ID r) r" using assms(2) by (simp add: AtPrepareInstance)
  with assms(3) have "phase_ok own cap p'" using tolerance_nonneg [of r]
    by (auto simp: AtPrepareInstance Let_def after_plan_def plan_ok_def row_ok_def tolerance_def
        split: option.splits sum.splits if_splits go_float.splits)
  with same assms(1) show ?thesis by simp
next
  case (AtPrepDeduct q)
  with assms prep_ok [of "rp_Order q" "rp_Force q" _ _ q _ own cap] show ?thesis by (auto split: sum.splits)
qed (use assms in auto)

lemma finalize_plan_ok: "row_ok own cap (po_ID r) r \<Longrightarrow> plan_ok own cap (refundFinalizePlan r)"
  by (auto simp: refundFinalizePlan_def plan_ok_def row_ok_def)

lemma plan_zero: "plan_ok own cap p \<Longrightarrow> plan_ok own cap (p\<lparr>rp_BalanceToDeduct := 0, rp_SubDaysToDeduct := 0\<rparr>)"
  "plan_ok own cap p \<Longrightarrow> plan_ok own cap (p\<lparr>rp_BalanceToDeduct := 0\<rparr>)" "plan_ok own cap p \<Longrightarrow> plan_ok own cap (p\<lparr>rp_SubDaysToDeduct := 0\<rparr>)"
  by (auto simp: plan_ok_def row_ok_def)

lemma refunded_row_ok: "plan_ok own cap p \<Longrightarrow> row_ok own cap (rp_OrderID p) r \<Longrightarrow> row_ok own cap (rp_OrderID p) (refunded_row now p r)"
  by (auto simp: refunded_row_def plan_ok_def row_ok_def tolerance_def)

text \<open>The transaction that finalizes a pending refund: what it takes is within the cap.\<close>

lemma deduct_within:
  assumes "DeductAvailableBalance i u a db = Some (d, db')" "0 \<le> a"
  shows "0 \<le> d \<and> d \<le> a \<and> rd_orders db' = rd_orders db \<and> rd_audit db' = rd_audit db \<and> rd_moves db' = rd_moves db @ [(i, d)]"
  using assms by (auto simp: DeductAvailableBalance_def Let_def split: if_splits option.splits)

lemma extend_keeps:
  "ExtendSubscription now i d db = Inr db' \<Longrightarrow> rd_orders db' = rd_orders db \<and> rd_audit db' = rd_audit db \<and> rd_moves db' = rd_moves db"
  by (auto simp: ExtendSubscription_def Let_def split: if_splits option.splits)

lemma revoke_keeps:
  "RevokeSubscription i db = Some db' \<Longrightarrow> rd_orders db' = rd_orders db \<and> rd_audit db' = rd_audit db \<and> rd_moves db' = rd_moves db"
  by (auto simp: RevokeSubscription_def split: if_splits)

lemma update_keeps: "update_refund_order i c f db = (db', n) \<Longrightarrow> rd_audit db' = rd_audit db \<and> rd_moves db' = rd_moves db"
  by (auto elim!: update_cases)

lemma audit_keeps:
  "rd_moves (insert_refund_audit i a d db) = rd_moves db" "rd_orders (insert_refund_audit i a d db) = rd_orders db"
  "has_refund_audit db j b \<Longrightarrow> has_refund_audit (insert_refund_audit i a d db) j b"
  "has_refund_audit (insert_refund_audit i a d db) i a"
  by (auto simp: insert_refund_audit_def has_refund_audit_def gget_gput)

lemma final_deduction:
  assumes "applyRefundFinalDeduction now p db = Inr (p', db')" "plan_ok own cap p"
  shows "plan_ok own cap p' \<and> rp_OrderID p' = rp_OrderID p \<and> rd_orders db' = rd_orders db \<and> rd_audit db' = rd_audit db \<and>
     (\<exists>d. 0 \<le> d \<and> d \<le> cap (rp_OrderID p) \<and> (rd_moves db' = rd_moves db @ [(rp_OrderID p, d)] \<or> d = 0 \<and> rd_moves db' = rd_moves db))"
proof (cases "rp_DeductionType p = ''balance'' \<and> 0 < rp_BalanceToDeduct p")
  case True
  with assms(1) obtain d where d: "DeductAvailableBalance (rp_OrderID p) (po_UserID (rp_Order p)) (rp_BalanceToDeduct p) db = Some (d, db')"
    "p' = p\<lparr>rp_BalanceToDeduct := d\<rparr>" by (auto simp: applyRefundFinalDeduction_def split: option.splits)
  from deduct_within [OF d(1)] True have w: "0 \<le> d" "d \<le> rp_BalanceToDeduct p" "rd_orders db' = rd_orders db"
    "rd_audit db' = rd_audit db" "rd_moves db' = rd_moves db @ [(rp_OrderID p, d)]" by simp_all
  moreover have "d \<le> cap (rp_OrderID p)" using w(2) assms(2) by (simp add: plan_ok_def)
  ultimately show ?thesis using assms(2) True d(2) by (auto simp: plan_ok_def row_ok_def)
next
  case False
  with assms(1) have "p' = p \<and> rd_orders db' = rd_orders db \<and> rd_audit db' = rd_audit db \<and> rd_moves db' = rd_moves db"
    by (auto simp: applyRefundFinalDeduction_def dest: extend_keeps revoke_keeps split: if_splits option.splits sum.splits)
  moreover have "0 \<le> cap (rp_OrderID p)" using assms(2) by (auto simp: plan_ok_def)
  ultimately show ?thesis using assms(2) by auto
qed

lemma finalize_does:
  assumes f: "finalizePendingRefundSuccess now p db = Inr (p', db')" and p: "plan_ok own cap p" and rows: "rows_ok own cap db"
  shows "rows_ok own cap db' \<and> status db (rp_OrderID p) = Some OrderStatusRefundPending \<and> refunded_status (status db' (rp_OrderID p)) \<and>
     (\<forall>j. has_refund_audit db j a \<longrightarrow> has_refund_audit db' j a) \<and>
     (\<exists>d. 0 \<le> d \<and> d \<le> cap (rp_OrderID p) \<and> (rd_moves db' = rd_moves db @ [(rp_OrderID p, d)] \<or> d = 0 \<and> rd_moves db' = rd_moves db))"
proof -
  obtain d n where d: "update_refund_order (rp_OrderID p) (\<lambda>r. po_Status r = OrderStatusRefundPending)
       (\<lambda>r. r\<lparr>po_Status := OrderStatusRefunding, po_UpdatedAt := now\<rparr>) db = (d, n)" by force
  from f d obtain d1 where d1: "n \<noteq> 0" "applyRefundFinalDeduction now p d = Inr (p', d1)" "markRefundOkTx now p' d1 = Inr db'"
    by (auto simp: finalizePendingRefundSuccess_def split: if_splits sum.splits)
  note fd = final_deduction [OF d1(2) p]
  obtain d2 m where d2: "update_refund_order (rp_OrderID p') (\<lambda>r. True) (refunded_row now p') d1 = (d2, m)" by force
  with d1(3) have db': "m \<noteq> 0" "db' = insert_refund_audit (rp_OrderID p') ''REFUND_SUCCESS'' no_detail d2"
    by (auto simp: markRefundOkTx_def split: if_splits)
  have "rows_ok own cap d" by (rule update_rows [OF rows d]) (simp add: row_ok_def tolerance_def)
  then have "rows_ok own cap d1" using fd by (simp add: rows_same)
  then have r2: "rows_ok own cap d2" by (rule update_rows [OF _ d2]) (use fd refunded_row_ok [of own cap p'] in auto)
  then have "rows_ok own cap db'" by (simp add: db'(2) rows_same audit_keeps)
  moreover have "status db (rp_OrderID p) = Some OrderStatusRefundPending" using d d1(1) by (auto elim!: update_cases simp: status_def)
  moreover have "refunded_status (status d2 (rp_OrderID p'))" using d2 db'(1)
    by (auto elim!: update_cases simp: status_put refunded_row_def refunded_status_def)
  then have "refunded_status (status db' (rp_OrderID p))" using fd by (simp add: db'(2) status_def audit_keeps)
  moreover have "has_refund_audit db' j a" if "has_refund_audit db j a" for j
    using that fd update_keeps [OF d] update_keeps [OF d2] audit_keeps(3) by (auto simp: db'(2) has_refund_audit_def insert_refund_audit_def gget_gput)
  moreover have "rd_moves db' = rd_moves d1" "rd_moves d = rd_moves db" using update_keeps [OF d] update_keeps [OF d2] by (simp_all add: db'(2) audit_keeps)
  ultimately show ?thesis using fd by simp
qed

lemma query_ok:
  assumes "rows_ok own cap db" "phase_ok own cap p" "query_step inp p db = (p', db')"
  shows "phase_ok own cap p' \<and> rows_ok own cap db'"
proof (cases p)
  case (AtQuery i)
  with assms row_at [OF assms(1), of i] show ?thesis by (auto split: option.splits if_splits)
next
  case (AtQueryCall r d)
  with assms(2) have p: "plan_ok own cap (refundFinalizePlan r)" by (simp add: finalize_plan_ok)
  have "rp_BalanceToDeduct (refundFinalizePlan r) = 0" if "po_OrderType r = ''subscription''" using that by (simp add: refundFinalizePlan_def)
  with p assms show ?thesis
    by (auto simp: AtQueryCall Let_def query_done_def plan_zero split: prod.splits option.splits if_splits)
next
  case (AtFinalizePrep q b)
  with assms prep_ok [of "rp_Order q" True None _ q _ own cap] show ?thesis by (auto simp: query_done_def split: sum.splits)
next
  case (AtFinalize q)
  with assms finalize_does [of "rf_now inp" q db _ _ own cap] show ?thesis by (auto split: if_splits sum.splits)
next
  case (AtFinalizeFailed r e)
  with assms set_status_rows [OF assms(1)] show ?thesis by auto
qed (use assms in \<open>auto split: option.splits sum.splits if_splits\<close>)

lemma execute_ok:
  assumes "rows_ok own cap db" "phase_ok own cap p" "execute_step inp p db = (p', db')"
  shows "phase_ok own cap p' \<and> rows_ok own cap db'"
proof (cases p)
  case (AtLock q)
  obtain d k where d: "update_refund_order (rp_OrderID q) refundable
      (\<lambda>r. r\<lparr>po_Status := OrderStatusRefunding, po_UpdatedAt := rf_now inp\<rparr>) db = (d, k)" by force
  have "row_ok own cap (rp_OrderID q) r \<Longrightarrow> row_ok own cap (rp_OrderID q) (r\<lparr>po_Status := OrderStatusRefunding, po_UpdatedAt := rf_now inp\<rparr>)" for r
    by (simp add: row_ok_def tolerance_def)
  from update_rows [OF assms(1) d this] assms(2,3) d after_lock_ok [of own cap q] show ?thesis by (auto simp: AtLock split: if_splits)
next
  case (AtRestore q e)
  with assms set_status_rows [OF assms(1)] show ?thesis by auto
next
  case (AtDeduct q)
  show ?thesis
  proof (cases "DeductAvailableBalance (rp_OrderID q) (po_UserID (rp_Order q)) (rp_BalanceToDeduct q) db")
    case None
    with assms show ?thesis by (auto simp: AtDeduct)
  next
    case (Some y)
    obtain a d where y: "y = (a, d)" by (cases y)
    from deduct_within [of "rp_OrderID q" "po_UserID (rp_Order q)" "rp_BalanceToDeduct q" db a d] Some y assms(2)
    have w: "0 \<le> a" "a \<le> rp_BalanceToDeduct q" "rd_orders d = rd_orders db" by (auto simp: AtDeduct plan_ok_def)
    with assms(2) have "plan_ok own cap (q\<lparr>rp_BalanceToDeduct := a\<rparr>)" by (auto simp: AtDeduct plan_ok_def row_ok_def)
    with w(3) Some y assms to_gateway_ok show ?thesis by (auto simp: AtDeduct took_effect_orders rows_same split: if_splits)
  qed
next
  case (AtDeductCheck q)
  with assms plan_zero(2) to_gateway_ok show ?thesis by (auto split: if_splits)
next
  case (AtSubCheck q)
  with assms plan_zero(3) show ?thesis by (auto split: if_splits)
next
  case (AtSubDeduct q)
  with assms show ?thesis by (auto simp: took_effect_orders rows_same dest!: extend_keeps split: if_splits sum.splits)
next
  case (AtRevoke q)
  with assms show ?thesis by (auto simp: took_effect_orders rows_same dest!: revoke_keeps split: if_splits option.splits)
next
  case (AtGateway q)
  with assms show ?thesis by (auto simp: rows_same split: if_splits option.splits sum.splits prod.splits)
qed (use assms in auto)

lemma settle_ok:
  assumes "rows_ok own cap db" "phase_ok own cap p" "settle_step inp p db = (p', db')"
  shows "phase_ok own cap p' \<and> rows_ok own cap db'"
proof (cases p)
  case (AtMarkOk q)
  obtain d k where d: "update_refund_order (rp_OrderID q) (\<lambda>r. True) (refunded_row (rf_now inp) q) db = (d, k)" by force
  have "row_ok own cap (rp_OrderID q) r \<Longrightarrow> row_ok own cap (rp_OrderID q) (refunded_row (rf_now inp) q r)" for r
    by (rule refunded_row_ok) (use assms(2) in \<open>simp add: AtMarkOk\<close>)
  from update_rows [OF assms(1) d this] assms(2,3) d show ?thesis by (auto simp: AtMarkOk split: if_splits)
next
  case (AtMarkPending q r ok)
  obtain d k where d: "update_refund_order (rp_OrderID q) (\<lambda>x. True)
         (\<lambda>x. x\<lparr>po_Status := OrderStatusRefundPending, po_UpdatedAt := rf_now inp, po_FailedAt := None,
                ro_RefundAmount := rp_RefundAmount q, ro_RefundReason := rp_Reason q, ro_ForceRefund := rp_Force q\<rparr>) db = (d, k)" by force
  have "row_ok own cap (rp_OrderID q) x \<Longrightarrow> row_ok own cap (rp_OrderID q) (x\<lparr>po_Status := OrderStatusRefundPending, po_UpdatedAt := rf_now inp, po_FailedAt := None,
                ro_RefundAmount := rp_RefundAmount q, ro_RefundReason := rp_Reason q, ro_ForceRefund := rp_Force q\<rparr>)" for x
    using assms(2) by (auto simp: AtMarkPending row_ok_def plan_ok_def tolerance_def)
  from update_rows [OF assms(1) d this] assms(2,3) d show ?thesis by (auto simp: AtMarkPending split: if_splits)
next
  case (AtGatewayFailed q e ok)
  with assms set_status_rows [OF assms(1)] show ?thesis by (auto split: if_splits)
next
  case (AtRollback q c)
  with assms show ?thesis
    by (auto simp: took_effect_orders rows_same dest!: extend_keeps give_back_orders split: if_splits option.splits sum.splits)
next
  case (AtRollbackAudit q c)
  with assms show ?thesis by (auto simp: rows_same took_effect_orders audit_orders)
next
  case (AtOkAudit q)
  with assms show ?thesis by (auto simp: rows_same took_effect_orders audit_orders)
next
  case (AtPendingAudit q r ok)
  with assms show ?thesis by (auto simp: rows_same took_effect_orders audit_orders)
qed (use assms in auto)

lemma step_ok:
  assumes "rows_ok own cap db" "phase_ok own cap p" "refund_step inp p db = (p', db')"
  shows "phase_ok own cap p' \<and> rows_ok own cap db'"
  using assms(3) request_ok [OF assms(1,2), of inp p' db'] prepare_ok [OF assms(1,2), of inp p' db'] query_ok [OF assms(1,2), of inp p' db']
    execute_ok [OF assms(1,2), of inp p' db'] settle_ok [OF assms(1,2), of inp p' db'] assms(1,2)
  unfolding refund_step_def by (cases p; simp only: refund_phase.case; blast?; simp)

section \<open>Deductions\<close>

text \<open>
  A deduction that the caller takes for failed has not happened, and the audit row about a failed
  rollback is written.
\<close>

definition money_ok :: "refund_input \<Rightarrow> refund_phase \<Rightarrow> bool" where
  "money_ok inp p \<longleftrightarrow>
     (case p of AtDeduct q \<Rightarrow> rf_fault inp \<noteq> FailsAfter | AtRollbackAudit q c \<Rightarrow> rf_fault inp = Works | _ \<Rightarrow> True)"

lemma net_snoc: "rd_moves db' = rd_moves db @ [(i, d)] \<Longrightarrow> net db' j = net db j + (if j = i then d else 0)"
  by (simp add: net_def)

lemma net_same: "rd_moves db' = rd_moves db \<Longrightarrow> net db' = net db"
  by (simp add: net_def fun_eq_iff)

lemma failed_same: "rd_audit db' = rd_audit db \<Longrightarrow> has_refund_audit db' i a = has_refund_audit db i a"
  by (simp add: has_refund_audit_def)

lemma give_back_keeps:
  "give_back i u a db = Some db' \<Longrightarrow> rd_audit db' = rd_audit db \<and> rd_moves db' = rd_moves db @ [(i, - a)]"
  by (auto simp: give_back_def split: option.splits)

lemma set_status_keeps: "rd_audit (set_status f now i s t db) = rd_audit db \<and> rd_moves (set_status f now i s t db) = rd_moves db"
  by (auto simp: set_status_def took_effect_def update_refund_order_def split: option.splits)

lemma took_keeps:
  "rd_audit db' = rd_audit db \<Longrightarrow> rd_audit (took_effect f db db') = rd_audit db"
  "rd_moves db' = rd_moves db \<Longrightarrow> rd_moves (took_effect f db db') = rd_moves db"
  by (simp_all add: took_effect_def)

lemma held_next [simp]:
  "held (to_gateway p) = Some (rp_BalanceToDeduct p)" "held (finishRefund p r) = Some (rp_BalanceToDeduct p)"
  "held (settle p c True) = Some 0"
  by (simp_all add: to_gateway_def finishRefund_def) (cases c, simp_all)

lemma held_after_lock: "plan_ok own cap p \<Longrightarrow> held (after_lock p) = Some 0"
  by (auto simp: after_lock_def plan_ok_def)

text \<open>A holder's step.\<close>

definition keeps_others :: "int \<Rightarrow> refund_db \<Rightarrow> refund_db \<Rightarrow> bool" where
  "keeps_others i db db' \<longleftrightarrow> (\<forall>j. j \<noteq> i \<longrightarrow> net db' j = net db j) \<and> (\<forall>j. rollback_failed db j \<longrightarrow> rollback_failed db' j)"

lemma keeps_same: "rd_moves db' = rd_moves db \<Longrightarrow> rd_audit db' = rd_audit db \<Longrightarrow> keeps_others i db db'"
  using net_same [of db' db] by (simp add: keeps_others_def failed_same [of db' db])

lemma execute_others:
  assumes s: "execute_step inp p db = (p', db')" and ok: "phase_ok own cap p" and h: "holder p = Some i"
  shows "keeps_others i db db'"
proof (cases p)
  case (AtDeduct q)
  with s h ok show ?thesis
    by (auto simp: keeps_others_def plan_ok_def has_refund_audit_def net_def took_effect_def dest!: deduct_within split: option.splits if_splits)
next
  case (AtSubDeduct q)
  with s show ?thesis by (auto intro!: keeps_same simp: took_keeps dest!: extend_keeps split: if_splits sum.splits)
next
  case (AtRevoke q)
  with s show ?thesis by (auto intro!: keeps_same simp: took_keeps dest!: revoke_keeps split: if_splits option.splits)
next
  case (AtGateway q)
  with s show ?thesis by (auto intro!: keeps_same split: if_splits option.splits sum.splits prod.splits)
qed (use s h in \<open>auto intro!: keeps_same simp: set_status_keeps split: if_splits\<close>)

lemma execute_money:
  assumes s: "execute_step inp p db = (p', db')" and ok: "phase_ok own cap p" and h: "holder p = Some i" and m: "money_ok inp p"
    and n: "\<not> rollback_failed db' i" and x: "held p = Some (net db i)"
    and p: "\<not> (\<exists>q c. p = AtRollback q c \<or> p = AtRollbackAudit q c \<or> p = AtMarkOk q)" "\<forall>q e b r. p \<noteq> AtGatewayFailed q e b \<and> p \<noteq> AtMarkPending q r b"
  shows "0 \<le> net db' i \<and> net db' i \<le> cap i \<and> (holder p' = None \<longrightarrow> net db' i = 0) \<and> (holder p' = Some i \<longrightarrow> held p' = Some (net db' i))"
proof (cases p)
  case (AtDeductCheck q)
  then have p': "p' = AtDeduct q" "db' = db" using s n h by (auto simp: rollback_failed_before_def split: if_splits)
  then show ?thesis using x ok h by (auto simp: AtDeductCheck plan_ok_def)
next
  case (AtDeduct q)
  then have z: "net db i = 0" "i = rp_OrderID q" "plan_ok own cap q" using x h ok by simp_all
  have c: "0 \<le> cap i" using z by (auto simp: plan_ok_def)
  show ?thesis
  proof (cases "DeductAvailableBalance (rp_OrderID q) (po_UserID (rp_Order q)) (rp_BalanceToDeduct q) db")
    case None
    with s z c show ?thesis by (auto simp: AtDeduct)
  next
    case (Some y)
    obtain a d where y: "y = (a, d)" by (cases y)
    have w: "0 \<le> a \<and> a \<le> rp_BalanceToDeduct q \<and> rd_moves d = rd_moves db @ [(rp_OrderID q, a)]"
      using deduct_within [of "rp_OrderID q" "po_UserID (rp_Order q)" "rp_BalanceToDeduct q" db a d] Some y z(3) by (auto simp: plan_ok_def)
    have "rp_BalanceToDeduct q \<le> cap i" using z by (simp add: plan_ok_def)
    moreover have "net d i = a" using w z net_snoc [of d db "rp_OrderID q" a i] by simp
    ultimately show ?thesis using s Some y w z c m by (cases "rf_fault inp") (auto simp: AtDeduct money_ok_def)
  qed
next
  case (AtSubDeduct q)
  then have z: "net db i = 0" "0 \<le> cap i" using x h ok by (auto simp: plan_ok_def)
  have "rd_moves db' = rd_moves db" "p' = AtRevoke q \<or> p' = AtGateway q \<or> (\<exists>e. p' = AtRestore q e)"
    using s by (auto simp: AtSubDeduct took_keeps dest!: extend_keeps split: if_splits sum.splits)
  with z ok show ?thesis by (auto simp: AtSubDeduct net_same [of db' db])
next
  case (AtRevoke q)
  then have z: "net db i = 0" "0 \<le> cap i" using x h ok by (auto simp: plan_ok_def)
  have "rd_moves db' = rd_moves db" "p' = AtGateway q \<or> (\<exists>e. p' = AtRestore q e)"
    using s by (auto simp: AtRevoke took_keeps dest!: revoke_keeps split: if_splits option.splits)
  with z ok show ?thesis by (auto simp: AtRevoke net_same [of db' db])
next
  case (AtGateway q)
  then have z: "net db i = rp_BalanceToDeduct q" "0 \<le> net db i" "net db i \<le> cap i" using x h ok by (auto simp: plan_ok_def)
  have "rd_moves db' = rd_moves db" "held p' = Some (rp_BalanceToDeduct q)" "holder p' = Some i"
    using s h by (auto simp: AtGateway split: if_splits option.splits sum.splits prod.splits)
  with z show ?thesis by (auto simp: net_same [of db' db])
next
  case (AtSubCheck q)
  then show ?thesis using x h ok s by (auto simp: plan_ok_def split: if_splits)
next
  case (AtRestore q e)
  then show ?thesis using x h ok s by (auto simp: plan_ok_def net_def set_status_keeps)
qed (use h p in auto)

lemma settle_others:
  assumes s: "settle_step inp p db = (p', db')" and h: "holder p = Some i"
  shows "keeps_others i db db'"
proof (cases p)
  case (AtRollback q c)
  with s h show ?thesis
    by (auto simp: keeps_others_def has_refund_audit_def net_def took_effect_def dest!: give_back_keeps extend_keeps
        split: option.splits sum.splits if_splits)
next
  case (AtRollbackAudit q c)
  with s show ?thesis by (auto simp: keeps_others_def net_def took_effect_def audit_keeps)
next
  case (AtMarkOk q)
  obtain d k where d: "update_refund_order (rp_OrderID q) (\<lambda>r. True) (refunded_row (rf_now inp) q) db = (d, k)" by force
  with s update_keeps [OF d] show ?thesis by (auto intro!: keeps_same simp: AtMarkOk took_keeps split: if_splits)
next
  case (AtMarkPending q r ok)
  obtain d k where d: "update_refund_order (rp_OrderID q) (\<lambda>x. True)
         (\<lambda>x. x\<lparr>po_Status := OrderStatusRefundPending, po_UpdatedAt := rf_now inp, po_FailedAt := None,
                ro_RefundAmount := rp_RefundAmount q, ro_RefundReason := rp_Reason q, ro_ForceRefund := rp_Force q\<rparr>) db = (d, k)" by force
  with s update_keeps [OF d] show ?thesis by (auto intro!: keeps_same simp: AtMarkPending took_keeps split: if_splits)
next
  case (AtGatewayFailed q e ok)
  with s show ?thesis by (auto intro!: keeps_same simp: set_status_keeps split: if_splits)
qed (use s h in \<open>auto intro!: keeps_same\<close>)

text \<open>A last step, or giving back.\<close>

lemma settle_money:
  assumes s: "settle_step inp p db = (p', db')" and ok: "phase_ok own cap p" and h: "holder p = Some i" and m: "money_ok inp p"
    and n: "\<not> rollback_failed db' i" and x: "\<forall>y. held p = Some y \<longrightarrow> net db i = y" and b: "0 \<le> net db i" "net db i \<le> cap i"
    and known: "held p = None \<Longrightarrow> \<exists>q c. p = AtRollbackAudit q c"
    and p: "(\<exists>q c. p = AtRollback q c \<or> p = AtRollbackAudit q c \<or> p = AtMarkOk q) \<or> (\<exists>q e b r. p = AtGatewayFailed q e b \<or> p = AtMarkPending q r b)"
  shows "0 \<le> net db' i \<and> net db' i \<le> cap i \<and> (holder p' = None \<longrightarrow> \<not> paying p \<longrightarrow> net db' i = 0) \<and>
     (\<forall>y. holder p' = Some i \<longrightarrow> held p' = Some y \<longrightarrow> net db' i = y) \<and>
     (holder p' = Some i \<longrightarrow> held p' = None \<longrightarrow> (\<exists>q c. p' = AtRollbackAudit q c))"
proof (cases p)
  case (AtRollback q c)
  then have z: "net db i = rp_BalanceToDeduct q" "i = rp_OrderID q" "plan_ok own cap q" using x h ok by auto
  show ?thesis
  proof (cases "rp_DeductionType q = ''balance'' \<and> 0 < rp_BalanceToDeduct q")
    case True
    show ?thesis
    proof (cases "give_back (rp_OrderID q) (po_UserID (rp_Order q)) (rp_BalanceToDeduct q) db")
      case None
      with s True b z show ?thesis by (auto simp: AtRollback)
    next
      case (Some d)
      have "net d i = 0" using give_back_keeps [OF Some] net_snoc [of d db "rp_OrderID q" "- rp_BalanceToDeduct q" i] z by simp
      with s True b z Some show ?thesis by (cases "rf_fault inp") (auto simp: AtRollback)
    qed
  next
    case False
    then have "rp_BalanceToDeduct q = 0" using z(3) by (auto simp: plan_ok_def)
    moreover have "net db' i = net db i" using s False
      by (auto simp: AtRollback net_def took_effect_def dest!: extend_keeps split: if_splits sum.splits)
    moreover have "p' = settle q c True \<or> p' = AtRollbackAudit q c" using s False by (auto simp: AtRollback split: if_splits sum.splits)
    ultimately show ?thesis using b z by auto
  qed
next
  case (AtRollbackAudit q c)
  with s m n h audit_keeps(4) show ?thesis by (auto simp: money_ok_def)
next
  case (AtMarkOk q)
  obtain d k where d: "update_refund_order (rp_OrderID q) (\<lambda>r. True) (refunded_row (rf_now inp) q) db = (d, k)" by force
  with s update_keeps [OF d] have "net db' i = net db i" "holder p' = None" by (auto simp: AtMarkOk net_def took_effect_def split: if_splits)
  with b show ?thesis by (simp add: AtMarkOk)
next
  case (AtMarkPending q r b')
  obtain d k where d: "update_refund_order (rp_OrderID q) (\<lambda>x. True)
         (\<lambda>x. x\<lparr>po_Status := OrderStatusRefundPending, po_UpdatedAt := rf_now inp, po_FailedAt := None,
                ro_RefundAmount := rp_RefundAmount q, ro_RefundReason := rp_Reason q, ro_ForceRefund := rp_Force q\<rparr>) db = (d, k)" by force
  with s update_keeps [OF d] have "net db' i = net db i" "holder p' = None" by (auto simp: AtMarkPending net_def took_effect_def split: if_splits)
  with b x known show ?thesis by (auto simp: AtMarkPending split: if_splits)
next
  case (AtGatewayFailed q e b')
  with s have "net db' i = net db i" "holder p' = None" by (auto simp: net_def set_status_keeps split: if_splits)
  with b x known show ?thesis by (auto simp: AtGatewayFailed split: if_splits)
qed (use p in auto)

text \<open>A step of a request that holds nothing.\<close>

lemma outsider_money:
  assumes s: "refund_step inp p db = (p', db')" and ok: "phase_ok own cap p" and rows: "rows_ok own cap db" and h: "holder p = None"
  shows "(\<forall>j. rollback_failed db j \<longrightarrow> rollback_failed db' j) \<and>
     (\<forall>j. net db' j = net db j \<or> status db j = Some OrderStatusRefundPending \<and> refunded_status (status db' j) \<and>
        (\<exists>d. 0 \<le> d \<and> d \<le> cap j \<and> net db' j = net db j + d)) \<and>
     (holder p' \<noteq> None \<longrightarrow> held p' = Some 0)"
proof -
  consider (fin) q where "p = AtFinalize q" | (lock) q where "p = AtLock q" | (req) r u t where "p = AtRequestUpdate r u t"
    | (other) "\<And>q. p \<noteq> AtFinalize q" "\<And>q. p \<noteq> AtLock q" "\<And>r u t. p \<noteq> AtRequestUpdate r u t" by metis
  then show ?thesis
  proof cases
    case fin
    have h': "holder p' = None" using s by (auto simp: fin refund_step_def split: if_splits sum.splits)
    show ?thesis
    proof (cases "db' = db")
      case True
      with h' show ?thesis by simp
    next
      case False
      with s obtain q' where f: "finalizePendingRefundSuccess (rf_now inp) q db = Inr (q', db')"
        by (auto simp: fin refund_step_def split: if_splits sum.splits prod.splits)
      have q: "plan_ok own cap q" using ok by (simp add: fin)
      note fd = finalize_does [OF f q rows, of "''REFUND_ROLLBACK_FAILED''"]
      then obtain d where d: "0 \<le> d" "d \<le> cap (rp_OrderID q)"
        "rd_moves db' = rd_moves db @ [(rp_OrderID q, d)] \<or> d = 0 \<and> rd_moves db' = rd_moves db" by blast
      then have "net db' j = net db j + (if j = rp_OrderID q then d else 0)" for j
        using net_snoc [of db' db "rp_OrderID q" d j] net_same [of db' db] by auto
      with fd d(1,2) h' show ?thesis by auto
    qed
  next
    case lock
    obtain d k where d: "update_refund_order (rp_OrderID q) refundable
      (\<lambda>r. r\<lparr>po_Status := OrderStatusRefunding, po_UpdatedAt := rf_now inp\<rparr>) db = (d, k)" by force
    from s d have "db' = d \<or> db' = took_effect (rf_fault inp) db d" "holder p' \<noteq> None \<longrightarrow> p' = after_lock q"
      by (auto simp: lock refund_step_def split: if_splits)
    moreover from this(1) update_keeps [OF d] have "rd_moves db' = rd_moves db" "rd_audit db' = rd_audit db" by (auto simp: took_keeps)
    ultimately show ?thesis using ok held_after_lock [of own cap q] net_same [of db' db] by (auto simp: lock failed_same [of db' db])
  next
    case req
    obtain d k where d: "update_refund_order (po_ID r)
      (\<lambda>x. po_UserID x = u \<and> po_Status x = OrderStatusCompleted \<and> po_OrderType x = ''balance'')
      (\<lambda>x. x\<lparr>po_Status := OrderStatusRefundRequested, po_UpdatedAt := rf_now inp,
         ro_RefundRequestReason := trim_space t, ro_RefundAmount := po_Amount r\<rparr>) db = (d, k)" by force
    from s d have "db' = d \<or> db' = took_effect (rf_fault inp) db d" "holder p' = None"
      by (auto simp: req refund_step_def split: if_splits)
    moreover from this(1) update_keeps [OF d] have "rd_moves db' = rd_moves db" "rd_audit db' = rd_audit db" by (auto simp: took_keeps)
    ultimately show ?thesis using net_same [of db' db] by (simp add: failed_same [of db' db])
  next
    case other
    have "holder p' = None \<and> rd_moves db' = rd_moves db \<and> (\<forall>j. rollback_failed db j \<longrightarrow> rollback_failed db' j)"
      using s h other by (cases p) (auto simp: refund_step_def Let_def set_status_keeps has_refund_audit_def took_effect_def insert_refund_audit_def gget_gput
          split: option.splits sum.splits if_splits prod.splits go_float.splits)
    then show ?thesis using net_same [of db' db] by simp
  qed
qed

lemma holder_money:
  assumes s: "refund_step inp p db = (p', db')" and ok: "phase_ok own cap p" and h: "holder p = Some i" and m: "money_ok inp p"
  shows "keeps_others i db db'"
    and "\<lbrakk>\<not> rollback_failed db' i; \<forall>y. held p = Some y \<longrightarrow> net db i = y; 0 \<le> net db i; net db i \<le> cap i;
      held p = None \<longrightarrow> (\<exists>q c. p = AtRollbackAudit q c)\<rbrakk> \<Longrightarrow>
      0 \<le> net db' i \<and> net db' i \<le> cap i \<and> (holder p' = None \<longrightarrow> \<not> paying p \<longrightarrow> net db' i = 0) \<and>
      (\<forall>y. holder p' = Some i \<longrightarrow> held p' = Some y \<longrightarrow> net db' i = y) \<and>
      (holder p' = Some i \<longrightarrow> held p' = None \<longrightarrow> (\<exists>q c. p' = AtRollbackAudit q c))"
proof -
  have g: "execute_step inp p db = (p', db') \<and> held p \<noteq> None \<and>
      \<not> (\<exists>q c. p = AtRollback q c \<or> p = AtRollbackAudit q c \<or> p = AtMarkOk q) \<and> (\<forall>q e b r. p \<noteq> AtGatewayFailed q e b \<and> p \<noteq> AtMarkPending q r b)
    \<or> settle_step inp p db = (p', db') \<and>
      ((\<exists>q c. p = AtRollback q c \<or> p = AtRollbackAudit q c \<or> p = AtMarkOk q) \<or> (\<exists>q e b r. p = AtGatewayFailed q e b \<or> p = AtMarkPending q r b))"
    using s h by (cases p) (auto simp: refund_step_def simp del: execute_step.simps settle_step.simps)
  then show "keeps_others i db db'" using execute_others [OF _ ok h] settle_others [OF _ h] by blast
  assume a: "\<not> rollback_failed db' i" "\<forall>y. held p = Some y \<longrightarrow> net db i = y" "0 \<le> net db i" "net db i \<le> cap i"
    "held p = None \<longrightarrow> (\<exists>q c. p = AtRollbackAudit q c)"
  from g show "0 \<le> net db' i \<and> net db' i \<le> cap i \<and> (holder p' = None \<longrightarrow> \<not> paying p \<longrightarrow> net db' i = 0) \<and>
      (\<forall>y. holder p' = Some i \<longrightarrow> held p' = Some y \<longrightarrow> net db' i = y) \<and>
      (holder p' = Some i \<longrightarrow> held p' = None \<longrightarrow> (\<exists>q c. p' = AtRollbackAudit q c))"
  proof
    assume "execute_step inp p db = (p', db') \<and> held p \<noteq> None \<and>
      \<not> (\<exists>q c. p = AtRollback q c \<or> p = AtRollbackAudit q c \<or> p = AtMarkOk q) \<and> (\<forall>q e b r. p \<noteq> AtGatewayFailed q e b \<and> p \<noteq> AtMarkPending q r b)"
    then have e: "execute_step inp p db = (p', db')" "held p \<noteq> None"
      "\<not> (\<exists>q c. p = AtRollback q c \<or> p = AtRollbackAudit q c \<or> p = AtMarkOk q)" "\<forall>q e b r. p \<noteq> AtGatewayFailed q e b \<and> p \<noteq> AtMarkPending q r b"
      by blast+
    from e(2) a(2) have "held p = Some (net db i)" by (cases "held p") auto
    from execute_money [OF e(1) ok h m a(1) this e(3,4)] show ?thesis by auto
  next
    assume e: "settle_step inp p db = (p', db') \<and>
      ((\<exists>q c. p = AtRollback q c \<or> p = AtRollbackAudit q c \<or> p = AtMarkOk q) \<or> (\<exists>q e b r. p = AtGatewayFailed q e b \<or> p = AtMarkPending q r b))"
    show ?thesis by (rule settle_money [OF conjunct1 [OF e] ok h m a(1,2,3,4) mp [OF a(5)] conjunct2 [OF e]])
  qed
qed

definition balanced :: "(int \<Rightarrow> rat) \<Rightarrow> (nat \<Rightarrow> refund_phase) \<Rightarrow> refund_db \<Rightarrow> bool" where
  "balanced cap ph db \<longleftrightarrow> (\<forall>i. \<not> rollback_failed db i \<longrightarrow> 0 \<le> net db i \<and> net db i \<le> cap i \<and>
     (status db i \<noteq> Some OrderStatusRefunding \<longrightarrow> \<not> refunded_status (status db i) \<longrightarrow> net db i = 0) \<and>
     (\<forall>w. holder (ph w) = Some i \<longrightarrow> (\<forall>y. held (ph w) = Some y \<longrightarrow> net db i = y) \<and>
        (held (ph w) = None \<longrightarrow> (\<exists>q c. ph w = AtRollbackAudit q c))))"

lemma step_balanced:
  assumes o1: "one_holder ph db" and rows: "rows_ok own cap db" and ok: "phase_ok own cap (ph w)" and b: "balanced cap ph db"
    and t: "timely (ph w) db" and m: "money_ok inp (ph w)" and s: "refund_step inp (ph w) db = (p', db')"
  shows "balanced cap (ph(w := p')) db'"
  unfolding balanced_def
proof (intro allI impI)
  fix i
  assume n: "\<not> rollback_failed db' i"
  note mv = step_moves [OF s t]
  note o2 = step_one_holder [OF o1 t s]
  have unique: "w = v" if "holder (ph w) = Some i" "holder (ph v) = Some i" for v using o1 that unfolding one_holder_def by blast
  have locked: "status db i = Some OrderStatusRefunding" if "holder (ph v) = Some i" for v using o1 that unfolding one_holder_def by blast
  have locked': "status db' i = Some OrderStatusRefunding" if "holder ((ph(w := p')) v) = Some i" for v using o2 that unfolding one_holder_def by blast
  have kept: "status db' i = status db i \<or> holder (ph w) = Some i \<or> refundable_status (status db i)"
    using mv by (simp add: moves_orders_def)
  show "0 \<le> net db' i \<and> net db' i \<le> cap i \<and>
     (status db' i \<noteq> Some OrderStatusRefunding \<longrightarrow> \<not> refunded_status (status db' i) \<longrightarrow> net db' i = 0) \<and>
     (\<forall>v. holder ((ph(w := p')) v) = Some i \<longrightarrow> (\<forall>y. held ((ph(w := p')) v) = Some y \<longrightarrow> net db' i = y) \<and>
        (held ((ph(w := p')) v) = None \<longrightarrow> (\<exists>q c. (ph(w := p')) v = AtRollbackAudit q c)))"
  proof (cases "holder (ph w) = Some i")
    case True
    note hm = holder_money [OF s ok True m]
    from hm(1) n have n0: "\<not> rollback_failed db i" by (auto simp: keeps_others_def)
    with b True have pre: "0 \<le> net db i" "net db i \<le> cap i" "\<forall>y. held (ph w) = Some y \<longrightarrow> net db i = y"
      "held (ph w) = None \<longrightarrow> (\<exists>q c. ph w = AtRollbackAudit q c)" unfolding balanced_def by blast+
    from hm(2) [OF n pre(3,1,2,4)] have post: "0 \<le> net db' i" "net db' i \<le> cap i" "holder p' = None \<longrightarrow> \<not> paying (ph w) \<longrightarrow> net db' i = 0"
      "holder p' = Some i \<longrightarrow> (\<forall>y. held p' = Some y \<longrightarrow> net db' i = y) \<and> (held p' = None \<longrightarrow> (\<exists>q c. p' = AtRollbackAudit q c))" by blast+
    have "net db' i = 0" if st: "status db' i \<noteq> Some OrderStatusRefunding" "\<not> refunded_status (status db' i)"
    proof (cases "holder p'")
      case None
      have "\<not> paying (ph w)" using mv True st locked [OF True] by (auto simp: moves_orders_def)
      with None post(3) show ?thesis by blast
    next
      case (Some j)
      with mv True have "j = i" by (auto simp: moves_orders_def)
      with Some locked' [of w] st(1) show ?thesis by simp
    qed
    moreover have "v = w" if "holder ((ph(w := p')) v) = Some i" for v using that unique [OF True, of v] by (cases "v = w") auto
    ultimately show ?thesis using post by (metis fun_upd_same)
  next
    case False
    note h = this
    have old: "\<not> rollback_failed db i \<and> (net db' i = net db i \<or> status db i = Some OrderStatusRefundPending \<and> refunded_status (status db' i) \<and>
        (\<exists>d. 0 \<le> d \<and> d \<le> cap i \<and> net db' i = net db i + d)) \<and> (holder p' = Some i \<longrightarrow> held p' = Some 0 \<and> holder (ph w) = None)"
    proof (cases "holder (ph w)")
      case None
      from outsider_money [OF s ok rows this] n None show ?thesis by auto
    next
      case (Some k)
      from holder_money(1) [OF s ok Some m] h n Some have "\<not> rollback_failed db i" "net db' i = net db i" by (auto simp: keeps_others_def)
      moreover have "holder p' \<noteq> Some i" using mv Some h by (auto simp: moves_orders_def)
      ultimately show ?thesis by simp
    qed
    then have n0: "\<not> rollback_failed db i" by simp
    from b n0 have pre: "0 \<le> net db i" "net db i \<le> cap i"
      "status db i \<noteq> Some OrderStatusRefunding \<longrightarrow> \<not> refunded_status (status db i) \<longrightarrow> net db i = 0"
      "\<And>v. holder (ph v) = Some i \<Longrightarrow> (\<forall>y. held (ph v) = Some y \<longrightarrow> net db i = y) \<and> (held (ph v) = None \<longrightarrow> (\<exists>q c. ph v = AtRollbackAudit q c))"
      unfolding balanced_def by blast+
    have zero: "net db i = 0" if "refundable_status (status db i)" using pre(3) status_disjoint [OF that] by blast
    show ?thesis
    proof (cases "net db' i = net db i")
      case True
      have "net db i = 0" if "status db' i \<noteq> Some OrderStatusRefunding" "\<not> refunded_status (status db' i)"
        using kept h zero pre(3) that by auto
      moreover have "(\<forall>y. held ((ph(w := p')) v) = Some y \<longrightarrow> net db i = y) \<and>
          (held ((ph(w := p')) v) = None \<longrightarrow> (\<exists>q c. (ph(w := p')) v = AtRollbackAudit q c))" if v: "holder ((ph(w := p')) v) = Some i" for v
      proof (cases "v = w")
        case True
        with v old have "held p' = Some 0" "holder (ph w) = None" by auto
        moreover have "refundable_status (status db i)" using mv v True \<open>holder (ph w) = None\<close> by (auto simp: moves_orders_def)
        ultimately show ?thesis using zero True by simp
      qed (use v pre(4) in auto)
      ultimately show ?thesis using pre(1,2) True by auto
    next
      case False
      with old obtain d where d: "status db i = Some OrderStatusRefundPending" "refunded_status (status db' i)" "0 \<le> d" "d \<le> cap i"
        "net db' i = net db i + d" by auto
      have z: "net db i = 0" using d(1) by (intro zero) (simp add: refundable_status_def)
      have "holder ((ph(w := p')) v) \<noteq> Some i" for v using locked' [of v] d(2) by (auto simp: refunded_status_def)
      with d z show ?thesis by auto
    qed
  qed
qed

lemma run_balanced:
  "one_holder ph db \<Longrightarrow> rows_ok own cap db \<Longrightarrow> (\<And>w. phase_ok own cap (ph w)) \<Longrightarrow> balanced cap ph db \<Longrightarrow>
     along (\<lambda>inp p db. timely p db \<and> money_ok inp p) sched (ph, db) \<Longrightarrow> refund_run sched ph db = (ph', db') \<Longrightarrow> balanced cap ph' db'"
proof (induction sched arbitrary: ph db)
  case (Cons x sched)
  obtain w inp where x: "x = (w, inp)" by (cases x)
  obtain p1 d1 where s: "refund_step inp (ph w) db = (p1, d1)" by (cases "refund_step inp (ph w) db")
  from Cons.prems(5) s have t: "timely (ph w) db" "money_ok inp (ph w)"
    "along (\<lambda>inp p db. timely p db \<and> money_ok inp p) sched (ph(w := p1), d1)" by (simp_all add: x)
  from Cons.prems(6) s have r: "refund_run sched (ph(w := p1)) d1 = (ph', db')" by (simp add: refund_run_def x)
  note ok = step_ok [OF Cons.prems(2) Cons.prems(3) s]
  have "phase_ok own cap ((ph(w := p1)) v)" for v using ok Cons.prems(3) [of v] by simp
  from Cons.IH [OF step_one_holder [OF Cons.prems(1) t(1) s] _ this
      step_balanced [OF Cons.prems(1,2) Cons.prems(3) Cons.prems(4) t(1,2) s] t(3) r] ok show ?case by blast
qed (simp add: refund_run_def)

section \<open>Moves and balances\<close>

text \<open>A user's balance and what was taken from the user for orders together stay as they are.\<close>

definition taken :: "(int \<Rightarrow> int) \<Rightarrow> refund_db \<Rightarrow> int \<Rightarrow> rat" where
  "taken own db u = sum_list (map snd (filter (\<lambda>(j, a). own j = u) (rd_moves db)))"

definition total :: "(int \<Rightarrow> int) \<Rightarrow> refund_db \<Rightarrow> int \<Rightarrow> rat option" where
  "total own db u = map_option (\<lambda>b. b + taken own db u) (gget (rd_balance db) u)"

definition same_money :: "refund_db \<Rightarrow> refund_db \<Rightarrow> bool" where
  "same_money db db' \<longleftrightarrow> rd_balance db' = rd_balance db \<and> rd_moves db' = rd_moves db"

lemma total_same: "same_money db db' \<Longrightarrow> total own db' = total own db"
  by (simp add: same_money_def total_def taken_def fun_eq_iff)

lemma same_money_took: "same_money db db' \<Longrightarrow> same_money db (took_effect f db db')"
  by (simp add: same_money_def took_effect_def)

lemma same_money_refl [simp]: "same_money db db"
  by (simp add: same_money_def)

lemma update_money: "update_refund_order i c f db = (db', n) \<Longrightarrow> same_money db db'"
  by (auto elim!: update_cases simp: same_money_def)

lemma extend_money: "ExtendSubscription now i d db = Inr db' \<Longrightarrow> same_money db db'"
  by (auto simp: ExtendSubscription_def same_money_def Let_def split: if_splits option.splits)

lemma revoke_money: "RevokeSubscription i db = Some db' \<Longrightarrow> same_money db db'"
  by (auto simp: RevokeSubscription_def same_money_def split: if_splits)

lemma audit_money: "same_money db (insert_refund_audit i a d db)"
  by (simp add: insert_refund_audit_def same_money_def)

lemma set_status_money: "same_money db (set_status f now i s t db)"
  by (auto simp: set_status_def took_effect_def update_refund_order_def same_money_def split: option.splits)

lemma deduct_total:
  assumes "DeductAvailableBalance i u a db = Some (d, db')" "own i = u"
  shows "total own db' = total own db"
  using assms by (auto simp: DeductAvailableBalance_def total_def taken_def fun_eq_iff gget_gput Let_def split: if_splits option.splits)

lemma give_back_total:
  assumes "give_back i u a db = Some db'" "own i = u"
  shows "total own db' = total own db"
  using assms by (auto simp: give_back_def total_def taken_def fun_eq_iff gget_gput split: option.splits)

lemma took_total: "total own db' = total own db \<Longrightarrow> total own (took_effect f db db') = total own db"
  by (simp add: took_effect_def)

lemma plan_owner: "plan_ok own cap p \<Longrightarrow> own (rp_OrderID p) = po_UserID (rp_Order p)"
  by (simp add: plan_ok_def row_ok_def)

lemma finalize_total:
  assumes f: "finalizePendingRefundSuccess now p db = Inr (p', db')" and p: "plan_ok own cap p"
  shows "total own db' = total own db"
proof -
  obtain d n where d: "update_refund_order (rp_OrderID p) (\<lambda>r. po_Status r = OrderStatusRefundPending)
       (\<lambda>r. r\<lparr>po_Status := OrderStatusRefunding, po_UpdatedAt := now\<rparr>) db = (d, n)" by force
  from f d obtain d1 where d1: "applyRefundFinalDeduction now p d = Inr (p', d1)" "markRefundOkTx now p' d1 = Inr db'"
    by (auto simp: finalizePendingRefundSuccess_def split: if_splits sum.splits)
  obtain d2 m where d2: "update_refund_order (rp_OrderID p') (\<lambda>r. True) (refunded_row now p') d1 = (d2, m)" by force
  with d1(2) have "db' = insert_refund_audit (rp_OrderID p') ''REFUND_SUCCESS'' no_detail d2" by (auto simp: markRefundOkTx_def split: if_splits)
  moreover have "total own d1 = total own d" using d1(1) plan_owner [OF p]
    by (auto simp: applyRefundFinalDeduction_def dest: deduct_total extend_money revoke_money total_same split: if_splits option.splits sum.splits)
  ultimately show ?thesis using total_same [OF update_money [OF d]] total_same [OF update_money [OF d2]] total_same [OF audit_money] by simp
qed

lemma lock_money: "execute_step inp (AtLock q) db = (p', db') \<Longrightarrow> same_money db db'"
  using update_money [of "rp_OrderID q" refundable "\<lambda>r. r\<lparr>po_Status := OrderStatusRefunding, po_UpdatedAt := rf_now inp\<rparr>" db] same_money_took
  by (auto split: prod.splits if_splits)

lemma mark_ok_money: "settle_step inp (AtMarkOk q) db = (p', db') \<Longrightarrow> same_money db db'"
  using update_money [of "rp_OrderID q" "\<lambda>r. True" "refunded_row (rf_now inp) q" db] same_money_took by (auto split: prod.splits if_splits)

lemma mark_pending_money: "settle_step inp (AtMarkPending q r ok) db = (p', db') \<Longrightarrow> same_money db db'"
  using update_money [of "rp_OrderID q" "\<lambda>x. True" "\<lambda>x. x\<lparr>po_Status := OrderStatusRefundPending, po_UpdatedAt := rf_now inp, po_FailedAt := None,
      ro_RefundAmount := rp_RefundAmount q, ro_RefundReason := rp_Reason q, ro_ForceRefund := rp_Force q\<rparr>" db] same_money_took
  by (auto split: prod.splits if_splits)

lemma request_money: "request_step inp p db = (p', db') \<Longrightarrow> same_money db db'"
proof (cases p)
  case (AtRequestUpdate r u t)
  moreover assume "request_step inp p db = (p', db')"
  ultimately show ?thesis using same_money_took
      update_money [of "po_ID r" "\<lambda>x. po_UserID x = u \<and> po_Status x = OrderStatusCompleted \<and> po_OrderType x = ''balance''"
        "\<lambda>x. x\<lparr>po_Status := OrderStatusRefundRequested, po_UpdatedAt := rf_now inp,
           ro_RefundRequestReason := trim_space t, ro_RefundAmount := po_Amount r\<rparr>" db]
    by (auto split: prod.splits if_splits)
qed (auto split: option.splits sum.splits if_splits)

lemma step_total:
  assumes s: "refund_step inp p db = (p', db')" and ok: "phase_ok own cap p"
  shows "total own db' = total own db"
proof (cases p)
  case (AtDeduct q)
  with s ok plan_owner [of own cap q] show ?thesis
    by (auto simp: refund_step_def intro!: took_total dest: deduct_total [of _ _ _ _ _ _ own] split: option.splits if_splits)
next
  case (AtRollback q c)
  with s ok plan_owner [of own cap q] show ?thesis
    by (auto simp: refund_step_def intro!: took_total dest: give_back_total [of _ _ _ _ _ own] extend_money total_same
        split: option.splits sum.splits if_splits)
next
  case (AtFinalize q)
  with s ok show ?thesis by (auto simp: refund_step_def dest: finalize_total split: if_splits sum.splits prod.splits)
next
  case (AtRequestUpdate r u t)
  with s request_money [of inp p db p' db'] total_same show ?thesis by (auto simp: refund_step_def simp del: request_step.simps)
next
  case (AtLock q)
  with s lock_money [of inp q db p' db'] total_same show ?thesis by (auto simp: refund_step_def simp del: execute_step.simps)
next
  case (AtMarkOk q)
  with s mark_ok_money [of inp q db p' db'] total_same show ?thesis by (auto simp: refund_step_def simp del: settle_step.simps)
next
  case (AtMarkPending q r b)
  with s mark_pending_money [of inp q r b db p' db'] total_same show ?thesis by (auto simp: refund_step_def simp del: settle_step.simps)
next
  case (AtSubDeduct q)
  with s show ?thesis by (auto simp: refund_step_def intro!: total_same same_money_took dest: extend_money split: sum.splits if_splits)
next
  case (AtRevoke q)
  with s show ?thesis by (auto simp: refund_step_def intro!: total_same same_money_took dest: revoke_money split: option.splits if_splits)
next
  case (AtGateway q)
  with s show ?thesis by (auto simp: refund_step_def same_money_def intro!: total_same split: option.splits sum.splits if_splits prod.splits)
qed (use s in \<open>auto simp: refund_step_def Let_def intro!: total_same same_money_took set_status_money audit_money
  split: option.splits sum.splits if_splits prod.splits go_float.splits\<close>)

end
