(* ===== verification/Payment_Refund_Claims.thy ===== *)
theory Payment_Refund_Claims
  imports Payment_Refund_Balance
begin

text \<open>
  What holds of any number of refunds at once, with a run of two administrators as an example, and
  runs that show what goes wrong where the conditions of the theorems fail.
\<close>

section \<open>A refund takes at most once\<close>

fun fresh :: "refund_phase \<Rightarrow> bool" where
  "fresh (AtRequest i u s) = True"
| "fresh (AtPrepare i a s f d) = True"
| "fresh (AtQuery i) = True"
| "fresh (RefundDone z) = True"
| "fresh _ = False"

lemma fresh_phase: "fresh p \<Longrightarrow> holder p = None \<and> phase_ok own cap p"
  by (cases p) simp_all

lemma run_total:
  "rows_ok own cap db \<Longrightarrow> (\<And>w. phase_ok own cap (ph w)) \<Longrightarrow> refund_run sched ph db = (ph', db') \<Longrightarrow> total own db' = total own db"
proof (induction sched arbitrary: ph db)
  case (Cons x sched)
  obtain w inp where x: "x = (w, inp)" by (cases x)
  obtain p1 d1 where s: "refund_step inp (ph w) db = (p1, d1)" by (cases "refund_step inp (ph w) db")
  from Cons.prems(3) s have r: "refund_run sched (ph(w := p1)) d1 = (ph', db')" by (simp add: refund_run_def x)
  note ok = step_ok [OF Cons.prems(1) Cons.prems(2) s]
  have "phase_ok own cap ((ph(w := p1)) v)" for v using ok Cons.prems(2) [of v] by simp
  from Cons.IH [OF conjunct2 [OF ok] this r] step_total [OF s Cons.prems(2)] show ?case by simp
qed (simp add: refund_run_def)

text \<open>
  C4. Any number of refund requests, attempts and queries run at once. For an order without a rollback
  on record that failed, what its refund took from its user is not negative, is at most the order's
  amount with the tolerance of its currency, and is nothing unless the order is being refunded or
  refunded. Users' balances change by exactly this. The conditions on the run: whenever an answer that a
  pending refund failed is written down the order is not being refunded again (\<open>timely\<close>), no deduction
  takes effect unseen, and a failed rollback is written down (\<open>money_ok\<close>); at the start nothing has been
  refunded, every request is new, no amount is negative, and no order asks for more than its amount with
  the tolerance. Without the first condition a user is charged twice, see
  \<open>second_pending_charges_twice\<close>.
\<close>

theorem refund_takes_once:
  assumes "\<And>w. fresh (ph w)" and "rd_calls db = []" and "rd_moves db = []" and rows: "rows_ok own cap db" and "\<And>i. 0 \<le> cap i"
    and sched: "along (\<lambda>inp p db. timely p db \<and> money_ok inp p) sched (ph, db)"
    and r: "refund_run sched ph db = (ph', db')"
    and i: "gget (rd_orders db) i = Some x" "\<not> rollback_failed db' i"
  shows "0 \<le> net db' i \<and> net db' i \<le> po_Amount x + tolerance x \<and>
     (status db' i \<notin> {Some ''REFUNDING'', Some ''REFUNDED'', Some ''PARTIALLY_REFUNDED''} \<longrightarrow> net db' i = 0) \<and>
     (\<forall>u. gget (rd_balance db') u = map_option (\<lambda>b. b - taken own db' u) (gget (rd_balance db) u))"
proof -
  have f: "holder (ph w) = None" "phase_ok own cap (ph w)" for w using fresh_phase [OF assms(1)] by blast+
  have o1: "one_holder ph db" using f(1) assms(2) by (simp add: one_holder_def success_last_def paid_out_def)
  have b: "balanced cap ph db" using f(1) assms(3,5) by (simp add: balanced_def net_def)
  from run_balanced [OF o1 rows f(2) b sched r] i(2) have n: "0 \<le> net db' i" "net db' i \<le> cap i"
    "status db' i \<noteq> Some OrderStatusRefunding \<longrightarrow> \<not> refunded_status (status db' i) \<longrightarrow> net db' i = 0"
    unfolding balanced_def by blast+
  have c: "cap i = po_Amount x + tolerance x" using rows i(1) by (simp add: rows_ok_def row_ok_def)
  have "gget (rd_balance db') u = map_option (\<lambda>b. b - taken own db' u) (gget (rd_balance db) u)" for u
  proof -
    have "total own db' u = total own db u" using run_total [OF rows f(2) r] by simp
    then show ?thesis using assms(3)
      by (cases "gget (rd_balance db') u"; cases "gget (rd_balance db) u") (auto simp: total_def taken_def)
  qed
  with n c show ?thesis by (auto simp: refunded_status_def)
qed

section \<open>Two administrators at once\<close>

definition rf_order :: refund_order where
  "rf_order = \<lparr>po_ID = 1, po_UserID = 7, po_Amount = 10, po_PayAmount = 10, po_RechargeCode = [], po_OutTradeNo = ''o'',
     po_PaymentType = ''alipay'', po_PaymentTradeNo = ''t'', po_OrderType = ''balance'', po_SubscriptionGroupID = None,
     po_SubscriptionDays = None, po_ProviderKey = [], po_ProviderSnapshot = [], po_Status = ''COMPLETED'', po_ExpiresAt = 0,
     po_PaidAt = None, po_CompletedAt = None, po_FailedAt = None, po_UpdatedAt = 0, ro_ProviderInstanceID = ''3'',
     ro_RefundAmount = 0, ro_RefundReason = [], ro_RefundRequestReason = [], ro_ForceRefund = False\<rparr>"

definition rf_db :: refund_db where
  "rf_db = \<lparr>rd_orders = [(1, rf_order)],
     rd_instances = [(3, \<lparr>pvi_ID = 3, pvi_ProviderKey = ''alipay'', pvi_SupportedTypes = [], pvi_RefundEnabled = True, pvi_AllowUserRefund = True\<rparr>)],
     rd_balance = [(7, 25)], rd_subs = [], rd_audit = [], rd_moves = [], rd_calls = []\<rparr>"

definition rf_answer :: "string \<Rightarrow> refund_input" where
  "rf_answer s = \<lparr>rf_fault = Works, rf_now = 5, rf_activeSub = None, rf_provider = Some (''alipay'', []),
     rf_reply = (Some \<lparr>rfr_Status = s, rfr_RefundID = ''r''\<rparr>, False), rf_canQuery = True\<rparr>"

definition rf_fails :: "fault \<Rightarrow> refund_input" where
  "rf_fails f = (rf_answer ''success'')\<lparr>rf_fault := f\<rparr>"

text \<open>The first two requests refund with a deduction, the third without, the fourth asks the gateway.\<close>

definition rf_phases :: "nat \<Rightarrow> refund_phase" where
  "rf_phases w = (if w = 3 then AtQuery 1 else AtPrepare 1 (Finite 10) [] False (w \<noteq> 2))"

definition steps_of :: "nat \<Rightarrow> nat \<Rightarrow> string \<Rightarrow> (nat \<times> refund_input) list" where
  "steps_of w n s = replicate n (w, rf_answer s)"

definition rf_sched :: "(nat \<times> refund_input) list" where
  "rf_sched = steps_of 0 3 ''success'' @ steps_of 1 3 ''success'' @ steps_of 0 2 ''success'' @ steps_of 1 1 ''success'' @
     steps_of 0 6 ''success''"

abbreviation "rf_end sched \<equiv> snd (refund_run sched rf_phases rf_db)"

theorem refund_takes_once_witness:
  "status (rf_end rf_sched) 1 = Some ''REFUNDED'' \<and> rd_calls (rf_end rf_sched) = [(1, 10, True)] \<and>
     0 \<le> net (rf_end rf_sched) 1 \<and> net (rf_end rf_sched) 1 \<le> 10 + tolerance rf_order \<and>
     gget (rd_balance (rf_end rf_sched)) 7 = map_option (\<lambda>b. b - taken (\<lambda>i. 7) (rf_end rf_sched) 7) (Some 25)"
proof -
  obtain ph' db' where r: "refund_run rf_sched rf_phases rf_db = (ph', db')" by (cases "refund_run rf_sched rf_phases rf_db")
  have rows: "rows_ok (\<lambda>i. 7) (\<lambda>i. 10 + tolerance rf_order) rf_db"
    using tolerance_nonneg [of rf_order]
    by (auto simp: rows_ok_def rf_db_def gget_def rf_order_def row_ok_def tolerance_def split: if_splits)
  have a: "along (\<lambda>inp p db. timely p db \<and> money_ok inp p) rf_sched (rf_phases, rf_db)" by code_simp
  have e: "status (rf_end rf_sched) 1 = Some ''REFUNDED''" "rd_calls (rf_end rf_sched) = [(1, 10, True)]"
    "\<not> rollback_failed (rf_end rf_sched) 1" by code_simp+
  have "gget (rd_orders rf_db) 1 = Some rf_order" "gget (rd_balance rf_db) 7 = Some 25" "po_Amount rf_order = 10" by code_simp+
  with refund_takes_once [OF _ _ _ rows _ a r, of 1 rf_order] e tolerance_nonneg [of rf_order] r show ?thesis
    by (auto simp: rf_phases_def rf_db_def)
qed

text \<open>The same run, for the theorem about the gateway.\<close>

theorem refund_paid_once_witness:
  "rd_calls (rf_end rf_sched) = [(1, 10, True)] \<and>
     status (rf_end rf_sched) 1 \<in> {Some ''REFUNDING'', Some ''REFUNDED'', Some ''PARTIALLY_REFUNDED''}"
proof -
  obtain ph' db' where r: "refund_run rf_sched rf_phases rf_db = (ph', db')" by (cases "refund_run rf_sched rf_phases rf_db")
  have o: "on_time rf_sched (rf_phases, rf_db)" by code_simp
  have c: "rd_calls (rf_end rf_sched) = [(1, 10, True)]" by code_simp
  have h: "holder (rf_phases w) = None" for w by (simp add: rf_phases_def)
  have d: "rd_calls rf_db = []" by (simp add: rf_db_def)
  from refund_paid_once [OF h d o r, of 1] have "\<forall>xs a ys. rd_calls db' = xs @ (1, a, True) # ys \<longrightarrow>
      status db' 1 \<in> {Some ''REFUNDING'', Some ''REFUNDED'', Some ''PARTIALLY_REFUNDED''}" by blast
  moreover have "rd_calls db' = [] @ (1, 10, True) # []" using c r by simp
  ultimately show ?thesis using c r by force
qed

section \<open>What goes wrong otherwise\<close>

text \<open>
  A refund without deduction whose answer is pending: the query that finalizes it deducts the amount all
  the same.
\<close>

lemma pending_deducts_anyway:
  "let sched = steps_of 2 5 ''pending'' @ [(2, rf_answer ''pending''), (2, rf_answer ''pending'')] @ steps_of 3 5 ''success'' in
   status (rf_end sched) 1 = Some ''REFUNDED'' \<and> gget (rd_balance (rf_end sched)) 7 = Some 15"
  by code_simp

text \<open>
  An answer that a pending refund failed, written down after another attempt has succeeded, makes the
  order refundable again: the gateway pays twice, and the user is charged twice.
\<close>

lemma stale_failure_pays_twice:
  "let sched = steps_of 2 7 ''pending'' @ steps_of 3 4 ''failed'' @ steps_of 0 9 ''success'' @ steps_of 3 1 ''failed'' @
       steps_of 1 9 ''success'' in
   rd_calls (rf_end sched) = [(1, 10, False), (1, 10, True), (1, 10, True)] \<and> gget (rd_balance (rf_end sched)) 7 = Some 5"
  by code_simp

text \<open>
  Only the first pending answer of an order is on record (the index of the audit log is unique), so a
  second attempt whose deduction could not be given back is finalized as if it had been: the user is
  charged twice for one refund.
\<close>

lemma second_pending_charges_twice:
  "let sched = steps_of 2 7 ''pending'' @ steps_of 0 7 ''pending'' @ [(0, rf_fails FailsBefore)] @ steps_of 0 3 ''pending'' @
       steps_of 3 5 ''success'' in
   status (rf_end sched) 1 = Some ''REFUNDED'' \<and> gget (rd_balance (rf_end sched)) 7 = Some 5"
  by code_simp

text \<open>
  A failed attempt on an order whose refund is pending restores it to COMPLETED: the pending refund can
  no longer be finalized.
\<close>

lemma retry_forgets_pending:
  "let sched = steps_of 2 7 ''pending'' @ steps_of 0 9 ''failed'' @ steps_of 3 1 ''success'' in
   status (rf_end sched) 1 = Some ''COMPLETED'' \<and> fst (refund_run sched rf_phases rf_db) 3 = refund_fails RefundInvalidStatus"
  by code_simp

text \<open>A lock that its request did not see leaves the order in REFUNDING, which no request accepts.\<close>

lemma unseen_lock_stuck:
  "let sched = steps_of 0 3 ''success'' @ [(0, rf_fails FailsAfter)] @ steps_of 1 1 ''success'' in
   status (rf_end sched) 1 = Some ''REFUNDING'' \<and> fst (refund_run sched rf_phases rf_db) 1 = refund_fails RefundInvalidStatus"
  by code_simp

section \<open>What the gateway is asked to pay\<close>

text \<open>
  C33. The amount a gateway is asked to refund: nothing if an amount is not positive; never more than
  what was paid, rounded to the currency; all of it for a full refund within the tolerance; otherwise
  the refunded share of the payment, up to half a unit of the currency and of the sixteenth digit.
\<close>

theorem gateway_refund_amount:
  assumes "refundAmount - orderAmount \<le> paymentAmountToleranceForCurrency c" and digits: "has_digits 16 payAmount"
  shows "(let g = calculateGatewayRefundAmount orderAmount payAmount refundAmount c; paid = round_away (CurrencyMaxFractionDigits c) payAmount in
     0 \<le> g \<and>
     (if orderAmount \<le> 0 \<or> payAmount \<le> 0 \<or> refundAmount \<le> 0 then g = 0
      else g \<le> paid \<and>
        (if orderAmount - refundAmount \<le> paymentAmountToleranceForCurrency c then g = paid
         else \<bar>g - payAmount * (refundAmount / orderAmount)\<bar> \<le> 1 / (2 * 10 ^ CurrencyMaxFractionDigits c) + 1 / (2 * 10 ^ 16))))"
proof (cases "orderAmount \<le> 0 \<or> payAmount \<le> 0 \<or> refundAmount \<le> 0")
  case True
  then show ?thesis by (auto simp: calculateGatewayRefundAmount_def Let_def)
next
  case False
  let ?n = "CurrencyMaxFractionDigits c" and ?share = "payAmount * refundAmount / orderAmount"
  show ?thesis
  proof (cases "orderAmount - refundAmount \<le> paymentAmountToleranceForCurrency c")
    case True
    with assms(1) have "\<bar>refundAmount - orderAmount\<bar> \<le> paymentAmountToleranceForCurrency c" by linarith
    with False True round_nonneg [of payAmount ?n] show ?thesis by (simp add: calculateGatewayRefundAmount_def Let_def)
  next
    case le: False
    have tol: "0 \<le> paymentAmountToleranceForCurrency c" by (simp add: paymentAmountToleranceForCurrency_def Let_def)
    with le have lt: "refundAmount \<le> orderAmount" by linarith
    have "\<not> \<bar>refundAmount - orderAmount\<bar> \<le> paymentAmountToleranceForCurrency c" using le by linarith
    with False have g: "calculateGatewayRefundAmount orderAmount payAmount refundAmount c = round_away ?n (round_away 16 ?share)"
      by (simp add: calculateGatewayRefundAmount_def)
    have "refundAmount / orderAmount \<le> 1" using False lt by simp
    with False have "payAmount * (refundAmount / orderAmount) \<le> payAmount * 1" by (intro mult_left_mono) simp_all
    then have "?share \<le> payAmount" by simp
    from round_mono [OF this, of 16] digits have "round_away 16 ?share \<le> payAmount" by simp
    from round_mono [OF this, of ?n] have "round_away ?n (round_away 16 ?share) \<le> round_away ?n payAmount" .
    moreover have "0 \<le> round_away ?n (round_away 16 ?share)" using False by (intro round_nonneg) simp
    moreover have "\<bar>round_away ?n (round_away 16 ?share) - ?share\<bar> \<le> 1 / (2 * 10 ^ ?n) + 1 / (2 * 10 ^ 16)"
      using round_close [of ?n "round_away 16 ?share"] round_close [of 16 ?share] by linarith
    ultimately show ?thesis using False le by (simp add: g Let_def)
  qed
qed

theorem gateway_refund_amount_witness:
  "calculateGatewayRefundAmount 3 10 1 ''CNY'' = 333 / 100 \<and> calculateGatewayRefundAmount 3 10 1 ''CNY'' \<le> 10"
proof -
  have "1 - 3 \<le> paymentAmountToleranceForCurrency ''CNY''" by code_simp
  from gateway_refund_amount [OF this, of 10] have "calculateGatewayRefundAmount 3 10 1 ''CNY'' \<le> round_away (CurrencyMaxFractionDigits ''CNY'') 10"
    by (simp add: Let_def)
  moreover have "calculateGatewayRefundAmount 3 10 1 ''CNY'' = 333 / 100" by code_simp
  ultimately show ?thesis by simp
qed

section \<open>Requests end\<close>

fun refund_rank :: "refund_phase \<Rightarrow> nat" where
  "refund_rank (AtRequest i u s) = 4"
| "refund_rank (AtRequestInstance r u s) = 3"
| "refund_rank (AtRequestBalance r u s) = 2"
| "refund_rank (AtRequestUpdate r u s) = 1"
| "refund_rank (AtPrepare i a s f d) = 14"
| "refund_rank (AtPrepareInstance r a s f d) = 13"
| "refund_rank (AtPrepDeduct p) = 12"
| "refund_rank (AtLock p) = 11"
| "refund_rank (AtDeductCheck p) = 10"
| "refund_rank (AtDeduct p) = 9"
| "refund_rank (AtSubCheck p) = 8"
| "refund_rank (AtSubDeduct p) = 7"
| "refund_rank (AtRevoke p) = 6"
| "refund_rank (AtRestore p e) = 1"
| "refund_rank (AtGateway p) = 5"
| "refund_rank (AtRollback p c) = 4"
| "refund_rank (AtRollbackAudit p c) = 3"
| "refund_rank (AtGatewayFailed p e ok) = 1"
| "refund_rank (AtMarkOk p) = 2"
| "refund_rank (AtOkAudit p) = 1"
| "refund_rank (AtMarkPending p r ok) = 2"
| "refund_rank (AtPendingAudit p r ok) = 1"
| "refund_rank (AtQuery i) = 6"
| "refund_rank (AtQueryProvider r) = 5"
| "refund_rank (AtQueryDetail r) = 4"
| "refund_rank (AtQueryCall r d) = 3"
| "refund_rank (AtFinalizePrep p b) = 2"
| "refund_rank (AtFinalize p) = 1"
| "refund_rank (AtFinalizeFailed r e) = 1"
| "refund_rank (RefundDone z) = 0"

lemma rank_next:
  "8 \<le> n \<Longrightarrow> refund_rank (to_gateway p) \<le> n" "10 \<le> n \<Longrightarrow> refund_rank (after_lock p) \<le> n" "2 \<le> n \<Longrightarrow> refund_rank (settle p c ok) \<le> n"
  "4 \<le> n \<Longrightarrow> refund_rank (finishRefund p r) \<le> n" "12 \<le> n \<Longrightarrow> refund_rank (after_plan p) \<le> n"
  "1 \<le> n \<Longrightarrow> refund_rank (query_done p b) \<le> n" "refund_rank (refund_ok p) = 0"
  by (simp_all add: to_gateway_def after_lock_def finishRefund_def after_plan_def query_done_def refund_ok_def) (cases c, simp_all)

lemma refund_step_rank: "refund_rank (fst (refund_step inp p db)) \<le> refund_rank p - 1"
  by (cases p) (auto simp: refund_step_def Let_def rank_next
      split: option.splits sum.splits prod.splits if_splits go_float.splits)

interpretation refund_ends: ranked_steps refund_step "\<lambda>p. True" refund_rank
  by (unfold_locales; use refund_step_rank in simp)

text \<open>
  Every refund request, attempt or query that is scheduled fourteen times has an answer, whatever
  the others do and whichever statements fail.
\<close>

lemma refund_requests_end:
  assumes "14 \<le> length (filter (\<lambda>x. fst x = w) sched)"
  shows "\<exists>z. fst (refund_run sched ph db) w = RefundDone z"
proof -
  have "refund_rank (ph w) \<le> 14" by (cases "ph w") simp_all
  with assms have "refund_rank (fst (ph, db) w) \<le> length (filter (\<lambda>x. fst x = w) sched)" by simp
  from refund_ends.ends [OF _ this] have "refund_rank (fst (refund_run sched ph db) w) = 0" by (simp add: refund_run_def)
  then show ?thesis by (cases "fst (refund_run sched ph db) w") simp_all
qed


end
