(* ===== verification/Usage_Billing.thy ===== *)
theory Usage_Billing
  imports Decimal Interleaving
begin

text \<open>
  What a request costs its user: backend/internal/service/usage_billing.go,
  repository/usage_billing_repo.go, service/batch_image_billing_hold.go and
  \<open>CleanupUsageBillingDedup\<close> of repository/dashboard_aggregation_repo.go. A transaction is one
  step: it claims the request in a table with a unique index, so that a second transaction for the
  same request waits for the first, and its other statements are increments of single rows. It
  works, fails without effect, or commits although its caller sees an error. Soft-deleted rows are
  absent. SHA-256, the beginning of a day in the time zone of the database session and the next
  reset of a quota with fixed hours are arguments. Amounts are finite.
\<close>

section \<open>Sequences that stop at an error\<close>

fun and_then :: "'e + 'a \<Rightarrow> ('a \<Rightarrow> 'e + 'b) \<Rightarrow> 'e + 'b" where
  "and_then (Inl e) f = Inl e"
| "and_then (Inr x) f = f x"

lemma and_then_Inr: "and_then r f = Inr y \<longleftrightarrow> (\<exists>x. r = Inr x \<and> f x = Inr y)"
  by (cases r) simp_all

lemma Inr_and_then: "Inr y = and_then r f \<longleftrightarrow> (\<exists>x. r = Inr x \<and> f x = Inr y)"
  by (cases r) auto

section \<open>Commands\<close>

datatype billing_error =
    UsageBillingRequestIDRequired
  | UsageBillingRequestConflict
  | SubscriptionNotFound
  | UserNotFound
  | APIKeyNotFound
  | AccountNotFound
  | BatchImageInsufficientBalance
  | BatchImageSettlementCostExceedsHold
  | FrozenBalanceInsufficient
  | DatabaseError

record UsageBillingCommand =
  uc_RequestID :: string
  uc_APIKeyID :: int
  uc_RequestFingerprint :: string
  uc_RequestPayloadHash :: string
  uc_UserID :: int
  uc_AccountID :: int
  uc_SubscriptionID :: "int option"
  uc_AccountType :: string
  uc_Model :: string
  uc_ServiceTier :: string
  uc_ReasoningEffort :: string
  uc_BillingType :: int
  uc_InputTokens :: int
  uc_OutputTokens :: int
  uc_CacheCreationTokens :: int
  uc_CacheReadTokens :: int
  uc_ImageCount :: int
  uc_MediaType :: string
  uc_BalanceCost :: rat
  uc_SubscriptionCost :: rat
  uc_APIKeyQuotaCost :: rat
  uc_APIKeyRateLimitCost :: rat
  uc_AccountQuotaCost :: rat

text \<open>The columns of an account's JSON that hold its quotas.\<close>

record account_quota =
  aq_quota_used :: "rat option"
  aq_quota_limit :: "rat option"
  aq_daily_used :: "rat option"
  aq_daily_limit :: "rat option"
  aq_daily_start :: "time option"
  aq_daily_reset_mode :: "string option"
  aq_daily_reset_at :: "time option"
  aq_weekly_used :: "rat option"
  aq_weekly_limit :: "rat option"
  aq_weekly_start :: "time option"
  aq_weekly_reset_mode :: "string option"
  aq_weekly_reset_at :: "time option"

record billing_env =
  be_sha256 :: "string \<Rightarrow> string"
  be_dayStart :: "time \<Rightarrow> time"
  be_nextDaily :: "account_quota \<Rightarrow> time \<Rightarrow> time"
  be_nextWeekly :: "account_quota \<Rightarrow> time \<Rightarrow> time"

definition UsageBillingMonetaryScale :: nat where
  "UsageBillingMonetaryScale = 8"

definition QuantizeUsageBillingAmount :: "rat \<Rightarrow> rat" where
  "QuantizeUsageBillingAmount v = (if v = 0 then v else round_away UsageBillingMonetaryScale v)"

definition quantizeMonetaryFields :: "UsageBillingCommand \<Rightarrow> UsageBillingCommand" where
  "quantizeMonetaryFields c = c
     \<lparr>uc_BalanceCost := QuantizeUsageBillingAmount (uc_BalanceCost c),
      uc_SubscriptionCost := QuantizeUsageBillingAmount (uc_SubscriptionCost c),
      uc_APIKeyQuotaCost := QuantizeUsageBillingAmount (uc_APIKeyQuotaCost c),
      uc_APIKeyRateLimitCost := QuantizeUsageBillingAmount (uc_APIKeyRateLimitCost c),
      uc_AccountQuotaCost := QuantizeUsageBillingAmount (uc_AccountQuotaCost c)\<rparr>"

definition valueOrZero :: "int option \<Rightarrow> int" where
  "valueOrZero v = (case v of None \<Rightarrow> 0 | Some n \<Rightarrow> n)"

text \<open>Fields separated by vertical bars.\<close>

fun bars :: "string list \<Rightarrow> string" where
  "bars [] = []"
| "bars [s] = s"
| "bars (s # ss) = s @ ''|'' @ bars ss"

definition buildUsageBillingFingerprint :: "billing_env \<Rightarrow> UsageBillingCommand \<Rightarrow> string" where
  "buildUsageBillingFingerprint env c =
     (let raw = bars [show_int (uc_UserID c), show_int (uc_AccountID c), show_int (uc_APIKeyID c),
            trim_space (uc_AccountType c), trim_space (uc_Model c), trim_space (uc_ServiceTier c),
            trim_space (uc_ReasoningEffort c), show_int (uc_BillingType c), show_int (uc_InputTokens c),
            show_int (uc_OutputTokens c), show_int (uc_CacheCreationTokens c), show_int (uc_CacheReadTokens c),
            show_int (uc_ImageCount c), trim_space (uc_MediaType c), show_int (valueOrZero (uc_SubscriptionID c)),
            fixed_point 10 (uc_BalanceCost c), fixed_point 10 (uc_SubscriptionCost c),
            fixed_point 10 (uc_APIKeyQuotaCost c), fixed_point 10 (uc_APIKeyRateLimitCost c),
            fixed_point 10 (uc_AccountQuotaCost c)];
          payloadHash = trim_space (uc_RequestPayloadHash c);
          raw = (if payloadHash \<noteq> [] then raw @ ''|'' @ payloadHash else raw)
      in hex_encode (be_sha256 env raw))"

definition Normalize :: "billing_env \<Rightarrow> UsageBillingCommand \<Rightarrow> UsageBillingCommand" where
  "Normalize env c =
     (let c = c\<lparr>uc_RequestID := trim_space (uc_RequestID c)\<rparr>;
          c = (if trim_space (uc_RequestFingerprint c) = []
               then c\<lparr>uc_RequestFingerprint := buildUsageBillingFingerprint env c\<rparr> else c)
      in quantizeMonetaryFields c)"

record BatchImageBalanceHoldCommand =
  bh_RequestID :: string
  bh_APIKeyID :: int
  bh_RequestFingerprint :: string
  bh_RequestPayloadHash :: string
  bh_UserID :: int
  bh_BatchID :: string
  bh_HoldAmount :: rat
  bh_ActualAmount :: rat

definition buildBatchImageBalanceHoldFingerprint :: "billing_env \<Rightarrow> BatchImageBalanceHoldCommand \<Rightarrow> string" where
  "buildBatchImageBalanceHoldFingerprint env c =
     (let raw = bars [show_int (bh_UserID c), show_int (bh_APIKeyID c), trim_space (bh_BatchID c),
            fixed_point 10 (bh_HoldAmount c), fixed_point 10 (bh_ActualAmount c)];
          payloadHash = trim_space (bh_RequestPayloadHash c);
          raw = (if payloadHash \<noteq> [] then raw @ ''|'' @ payloadHash else raw)
      in hex_encode (be_sha256 env raw))"

definition NormalizeHold :: "billing_env \<Rightarrow> BatchImageBalanceHoldCommand \<Rightarrow> BatchImageBalanceHoldCommand" where
  "NormalizeHold env c =
     (let c = c\<lparr>bh_RequestID := trim_space (bh_RequestID c), bh_BatchID := trim_space (bh_BatchID c)\<rparr>
      in if trim_space (bh_RequestFingerprint c) = []
         then c\<lparr>bh_RequestFingerprint := buildBatchImageBalanceHoldFingerprint env c\<rparr> else c)"

section \<open>Tables\<close>

record billing_user =
  bu_balance :: rat
  bu_frozen :: rat

record billing_api_key =
  bk_quota :: rat
  bk_quota_used :: rat
  bk_status :: string
  bk_usage_5h :: rat
  bk_usage_1d :: rat
  bk_usage_7d :: rat
  bk_window_5h_start :: "time option"
  bk_window_1d_start :: "time option"
  bk_window_7d_start :: "time option"

record billing_subscription =
  bs_daily_usage :: rat
  bs_weekly_usage :: rat
  bs_monthly_usage :: rat

text \<open>
  A subscription whose group is deleted counts as absent. The keys of the two dedup tables are
  request id and API key; a row of the first also holds its creation time. \<open>bd_outbox\<close> has the
  accounts with an event that waits for the scheduler.
\<close>

record billing_db =
  bd_users :: "(int, billing_user) gomap"
  bd_apiKeys :: "(int, billing_api_key) gomap"
  bd_subscriptions :: "(int, billing_subscription) gomap"
  bd_accounts :: "(int, account_quota) gomap"
  bd_dedup :: "(string \<times> int, string \<times> time) gomap"
  bd_archive :: "(string \<times> int, string) gomap"
  bd_outbox :: "int list"

section \<open>The claim\<close>

text \<open>\<open>Inr None\<close>: the request has been applied before.\<close>

definition claimUsageBillingRequest ::
  "time \<Rightarrow> string \<Rightarrow> int \<Rightarrow> string \<Rightarrow> billing_db \<Rightarrow> billing_error + billing_db option" where
  "claimUsageBillingRequest now requestID apiKeyID requestFingerprint db =
     (case gget (bd_dedup db) (requestID, apiKeyID) of
        Some (existingFingerprint, created) \<Rightarrow>
          if trim_space existingFingerprint \<noteq> trim_space requestFingerprint
          then Inl UsageBillingRequestConflict else Inr None
      | None \<Rightarrow>
          let db = db\<lparr>bd_dedup := gput (bd_dedup db) (requestID, apiKeyID) (requestFingerprint, now)\<rparr> in
          case gget (bd_archive db) (requestID, apiKeyID) of
            Some archivedFingerprint \<Rightarrow>
              if trim_space archivedFingerprint \<noteq> trim_space requestFingerprint
              then Inl UsageBillingRequestConflict else Inr None
          | None \<Rightarrow> Inr (Some db))"

section \<open>Effects\<close>

definition incrementUsageBillingSubscription ::
  "int \<Rightarrow> rat \<Rightarrow> billing_db \<Rightarrow> billing_error + billing_db" where
  "incrementUsageBillingSubscription subscriptionID costUSD db =
     (case gget (bd_subscriptions db) subscriptionID of
        None \<Rightarrow> Inl SubscriptionNotFound
      | Some us \<Rightarrow> Inr (db\<lparr>bd_subscriptions := gput (bd_subscriptions db) subscriptionID
          \<lparr>bs_daily_usage = num10 (bs_daily_usage us + costUSD), bs_weekly_usage = num10 (bs_weekly_usage us + costUSD),
           bs_monthly_usage = num10 (bs_monthly_usage us + costUSD)\<rparr>\<rparr>))"

definition deductUsageBillingBalance ::
  "int \<Rightarrow> rat \<Rightarrow> billing_db \<Rightarrow> billing_error + billing_db \<times> rat \<times> bool" where
  "deductUsageBillingBalance userID amount db =
     (case gget (bd_users db) userID of
        None \<Rightarrow> Inl UserNotFound
      | Some u \<Rightarrow>
          let newBalance = num8 (bu_balance u - amount) in
          Inr (db\<lparr>bd_users := gput (bd_users db) userID (u\<lparr>bu_balance := newBalance\<rparr>)\<rparr>, newBalance,
            amount \<le> bu_balance u))"

abbreviation "StatusAPIKeyActive \<equiv> ''active''"
abbreviation "StatusAPIKeyQuotaExhausted \<equiv> ''quota_exhausted''"

definition incrementUsageBillingAPIKeyQuota ::
  "int \<Rightarrow> rat \<Rightarrow> billing_db \<Rightarrow> billing_error + billing_db \<times> bool" where
  "incrementUsageBillingAPIKeyQuota apiKeyID amount db =
     (case gget (bd_apiKeys db) apiKeyID of
        None \<Rightarrow> Inl APIKeyNotFound
      | Some k \<Rightarrow>
          let used = num8 (bk_quota_used k + amount);
              status = (if 0 < bk_quota k \<and> bk_status k = StatusAPIKeyActive \<and> bk_quota_used k < bk_quota k \<and>
                          bk_quota k \<le> bk_quota_used k + amount
                        then StatusAPIKeyQuotaExhausted else bk_status k)
          in Inr (db\<lparr>bd_apiKeys := gput (bd_apiKeys db) apiKeyID (k\<lparr>bk_quota_used := used, bk_status := status\<rparr>)\<rparr>,
                  0 < bk_quota k \<and> bk_quota k \<le> used \<and> used - amount < bk_quota k))"

text \<open>A window that began is over after its length.\<close>

definition window_over :: "time option \<Rightarrow> duration \<Rightarrow> time \<Rightarrow> bool" where
  "window_over start len now \<longleftrightarrow> (case start of None \<Rightarrow> False | Some t \<Rightarrow> t + len \<le> now)"

definition incrementUsageBillingAPIKeyRateLimit ::
  "billing_env \<Rightarrow> time \<Rightarrow> int \<Rightarrow> rat \<Rightarrow> billing_db \<Rightarrow> billing_error + billing_db" where
  "incrementUsageBillingAPIKeyRateLimit env now apiKeyID cost db =
     (case gget (bd_apiKeys db) apiKeyID of
        None \<Rightarrow> Inl APIKeyNotFound
      | Some k \<Rightarrow>
          let over5h = window_over (bk_window_5h_start k) (5 * hour) now;
              over1d = window_over (bk_window_1d_start k) (24 * hour) now;
              over7d = window_over (bk_window_7d_start k) (7 * 24 * hour) now
          in Inr (db\<lparr>bd_apiKeys := gput (bd_apiKeys db) apiKeyID (k
               \<lparr>bk_usage_5h := num8 (if over5h then cost else bk_usage_5h k + cost),
                bk_usage_1d := num8 (if over1d then cost else bk_usage_1d k + cost),
                bk_usage_7d := num8 (if over7d then cost else bk_usage_7d k + cost),
                bk_window_5h_start := (if bk_window_5h_start k = None \<or> over5h then Some now else bk_window_5h_start k),
                bk_window_1d_start := (if bk_window_1d_start k = None \<or> over1d
                  then Some (be_dayStart env now) else bk_window_1d_start k),
                bk_window_7d_start := (if bk_window_7d_start k = None \<or> over7d
                  then Some (be_dayStart env now) else bk_window_7d_start k)\<rparr>)\<rparr>))"

record AccountQuotaState =
  aqs_TotalUsed :: rat
  aqs_TotalLimit :: rat
  aqs_DailyUsed :: rat
  aqs_DailyLimit :: rat
  aqs_WeeklyUsed :: rat
  aqs_WeeklyLimit :: rat

definition coalesce :: "'a option \<Rightarrow> 'a \<Rightarrow> 'a" where
  "coalesce x d = (case x of None \<Rightarrow> d | Some v \<Rightarrow> v)"

definition unix_epoch :: time where
  "unix_epoch = 62135596800 * second"

text \<open>\<open>dailyExpiredExpr\<close>, \<open>weeklyExpiredExpr\<close>, \<open>nextDailyResetAtExpr\<close> and \<open>nextWeeklyResetAtExpr\<close> of
  repository/account_repo.go.\<close>

definition dailyExpiredExpr :: "account_quota \<Rightarrow> time \<Rightarrow> bool" where
  "dailyExpiredExpr a now \<longleftrightarrow>
     (if coalesce (aq_daily_reset_mode a) ''rolling'' = ''fixed'' then coalesce (aq_daily_reset_at a) unix_epoch \<le> now
      else coalesce (aq_daily_start a) unix_epoch + 24 * hour \<le> now)"

definition weeklyExpiredExpr :: "account_quota \<Rightarrow> time \<Rightarrow> bool" where
  "weeklyExpiredExpr a now \<longleftrightarrow>
     (if coalesce (aq_weekly_reset_mode a) ''rolling'' = ''fixed'' then coalesce (aq_weekly_reset_at a) unix_epoch \<le> now
      else coalesce (aq_weekly_start a) unix_epoch + 168 * hour \<le> now)"

definition nextDailyResetAtExpr :: "billing_env \<Rightarrow> account_quota \<Rightarrow> time \<Rightarrow> time option" where
  "nextDailyResetAtExpr env a now =
     (if coalesce (aq_daily_reset_mode a) ''rolling'' = ''fixed'' then Some (be_nextDaily env a now) else None)"

definition nextWeeklyResetAtExpr :: "billing_env \<Rightarrow> account_quota \<Rightarrow> time \<Rightarrow> time option" where
  "nextWeeklyResetAtExpr env a now =
     (if coalesce (aq_weekly_reset_mode a) ''rolling'' = ''fixed'' then Some (be_nextWeekly env a now) else None)"

definition count_daily :: "billing_env \<Rightarrow> time \<Rightarrow> rat \<Rightarrow> account_quota \<Rightarrow> account_quota" where
  "count_daily env now amount a =
     (if 0 < coalesce (aq_daily_limit a) 0 then
        let expired = dailyExpiredExpr a now in
        a\<lparr>aq_daily_used := Some (if expired then amount else coalesce (aq_daily_used a) 0 + amount),
          aq_daily_start := Some (if expired then now else coalesce (aq_daily_start a) now),
          aq_daily_reset_at := (if expired \<and> nextDailyResetAtExpr env a now \<noteq> None
            then nextDailyResetAtExpr env a now else aq_daily_reset_at a)\<rparr>
      else a)"

definition count_weekly :: "billing_env \<Rightarrow> time \<Rightarrow> rat \<Rightarrow> account_quota \<Rightarrow> account_quota" where
  "count_weekly env now amount a =
     (if 0 < coalesce (aq_weekly_limit a) 0 then
        let expired = weeklyExpiredExpr a now in
        a\<lparr>aq_weekly_used := Some (if expired then amount else coalesce (aq_weekly_used a) 0 + amount),
          aq_weekly_start := Some (if expired then now else coalesce (aq_weekly_start a) now),
          aq_weekly_reset_at := (if expired \<and> nextWeeklyResetAtExpr env a now \<noteq> None
            then nextWeeklyResetAtExpr env a now else aq_weekly_reset_at a)\<rparr>
      else a)"

definition crossed :: "rat \<Rightarrow> rat \<Rightarrow> rat \<Rightarrow> bool" where
  "crossed limit used amount \<longleftrightarrow> 0 < limit \<and> limit \<le> used \<and> used - amount < limit"

text \<open>\<open>enqueueSchedulerOutbox\<close>: one event for each account that waits.\<close>

definition enqueueSchedulerOutbox :: "int \<Rightarrow> billing_db \<Rightarrow> billing_db" where
  "enqueueSchedulerOutbox accountID db =
     (if accountID \<in> set (bd_outbox db) then db else db\<lparr>bd_outbox := bd_outbox db @ [accountID]\<rparr>)"

definition incrementUsageBillingAccountQuota ::
  "billing_env \<Rightarrow> time \<Rightarrow> int \<Rightarrow> rat \<Rightarrow> billing_db \<Rightarrow> billing_error + billing_db \<times> AccountQuotaState" where
  "incrementUsageBillingAccountQuota env now accountID amount db =
     (case gget (bd_accounts db) accountID of
        None \<Rightarrow> Inl AccountNotFound
      | Some a \<Rightarrow>
          let a' = count_weekly env now amount (count_daily env now amount
                     (a\<lparr>aq_quota_used := Some (coalesce (aq_quota_used a) 0 + amount)\<rparr>));
              db = db\<lparr>bd_accounts := gput (bd_accounts db) accountID a'\<rparr>;
              state = \<lparr>aqs_TotalUsed = coalesce (aq_quota_used a') 0, aqs_TotalLimit = coalesce (aq_quota_limit a') 0,
                       aqs_DailyUsed = coalesce (aq_daily_used a') 0, aqs_DailyLimit = coalesce (aq_daily_limit a') 0,
                       aqs_WeeklyUsed = coalesce (aq_weekly_used a') 0, aqs_WeeklyLimit = coalesce (aq_weekly_limit a') 0\<rparr>
          in if crossed (aqs_TotalLimit state) (aqs_TotalUsed state) amount \<or>
                crossed (aqs_DailyLimit state) (aqs_DailyUsed state) amount \<or>
                crossed (aqs_WeeklyLimit state) (aqs_WeeklyUsed state) amount
             then Inr (enqueueSchedulerOutbox accountID db, state) else Inr (db, state))"

record UsageBillingApplyResult =
  uar_Applied :: bool
  uar_APIKeyQuotaExhausted :: bool
  uar_NewBalance :: "rat option"
  uar_BalanceOverdrafted :: bool
  uar_QuotaState :: "AccountQuotaState option"

definition not_applied :: UsageBillingApplyResult where
  "not_applied = \<lparr>uar_Applied = False, uar_APIKeyQuotaExhausted = False, uar_NewBalance = None,
     uar_BalanceOverdrafted = False, uar_QuotaState = None\<rparr>"

text \<open>The five guarded effects, in the order of the code.\<close>

definition bill_subscription ::
  "UsageBillingCommand \<Rightarrow> billing_db \<times> UsageBillingApplyResult \<Rightarrow> billing_error + billing_db \<times> UsageBillingApplyResult" where
  "bill_subscription cmd x =
     (case x of (db, result) \<Rightarrow>
        case uc_SubscriptionID cmd of
          None \<Rightarrow> Inr (db, result)
        | Some i \<Rightarrow>
            if 0 < uc_SubscriptionCost cmd
            then and_then (incrementUsageBillingSubscription i (uc_SubscriptionCost cmd) db) (\<lambda>db. Inr (db, result))
            else Inr (db, result))"

definition bill_balance ::
  "UsageBillingCommand \<Rightarrow> billing_db \<times> UsageBillingApplyResult \<Rightarrow> billing_error + billing_db \<times> UsageBillingApplyResult" where
  "bill_balance cmd x =
     (case x of (db, result) \<Rightarrow>
        if 0 < uc_BalanceCost cmd
        then and_then (deductUsageBillingBalance (uc_UserID cmd) (uc_BalanceCost cmd) db)
               (\<lambda>(db, newBalance, sufficient).
                  Inr (db, result\<lparr>uar_NewBalance := Some newBalance, uar_BalanceOverdrafted := \<not> sufficient\<rparr>))
        else Inr (db, result))"

definition bill_quota ::
  "UsageBillingCommand \<Rightarrow> billing_db \<times> UsageBillingApplyResult \<Rightarrow> billing_error + billing_db \<times> UsageBillingApplyResult" where
  "bill_quota cmd x =
     (case x of (db, result) \<Rightarrow>
        if 0 < uc_APIKeyQuotaCost cmd
        then and_then (incrementUsageBillingAPIKeyQuota (uc_APIKeyID cmd) (uc_APIKeyQuotaCost cmd) db)
               (\<lambda>(db, exhausted). Inr (db, result\<lparr>uar_APIKeyQuotaExhausted := exhausted\<rparr>))
        else Inr (db, result))"

definition bill_rate_limit ::
  "billing_env \<Rightarrow> time \<Rightarrow> UsageBillingCommand \<Rightarrow> billing_db \<times> UsageBillingApplyResult \<Rightarrow>
   billing_error + billing_db \<times> UsageBillingApplyResult" where
  "bill_rate_limit env now cmd x =
     (case x of (db, result) \<Rightarrow>
        if 0 < uc_APIKeyRateLimitCost cmd
        then and_then (incrementUsageBillingAPIKeyRateLimit env now (uc_APIKeyID cmd) (uc_APIKeyRateLimitCost cmd) db)
               (\<lambda>db. Inr (db, result))
        else Inr (db, result))"

definition bill_account ::
  "billing_env \<Rightarrow> time \<Rightarrow> UsageBillingCommand \<Rightarrow> billing_db \<times> UsageBillingApplyResult \<Rightarrow>
   billing_error + billing_db \<times> UsageBillingApplyResult" where
  "bill_account env now cmd x =
     (case x of (db, result) \<Rightarrow>
        if 0 < uc_AccountQuotaCost cmd \<and>
           (equal_fold (uc_AccountType cmd) ''apikey'' \<or> equal_fold (uc_AccountType cmd) ''bedrock'')
        then and_then (incrementUsageBillingAccountQuota env now (uc_AccountID cmd) (uc_AccountQuotaCost cmd) db)
               (\<lambda>(db, quotaState). Inr (db, result\<lparr>uar_QuotaState := Some quotaState\<rparr>))
        else Inr (db, result))"

definition applyUsageBillingEffects ::
  "billing_env \<Rightarrow> time \<Rightarrow> UsageBillingCommand \<Rightarrow> billing_db \<times> UsageBillingApplyResult \<Rightarrow>
   billing_error + billing_db \<times> UsageBillingApplyResult" where
  "applyUsageBillingEffects env now cmd x =
     and_then (bill_subscription cmd x) (\<lambda>x. and_then (bill_balance cmd x) (\<lambda>x. and_then (bill_quota cmd x)
       (\<lambda>x. and_then (bill_rate_limit env now cmd x) (bill_account env now cmd))))"

text \<open>
  A transaction: \<open>None\<close> as its result rolls back with this answer. The commit may fail although
  it took effect.
\<close>

definition commit ::
  "fault \<Rightarrow> billing_error + 'r \<times> billing_db option \<Rightarrow> billing_db \<Rightarrow> (billing_error + 'r) \<times> billing_db" where
  "commit f r db =
     (if f = FailsBefore then (Inl DatabaseError, db)
      else case r of
        Inl e \<Rightarrow> (Inl e, db)
      | Inr (answer, None) \<Rightarrow> (Inr answer, db)
      | Inr (answer, Some db') \<Rightarrow> (if f = Works then Inr answer else Inl DatabaseError, db'))"

definition Apply ::
  "billing_env \<Rightarrow> fault \<Rightarrow> time \<Rightarrow> UsageBillingCommand \<Rightarrow> billing_db \<Rightarrow>
   (billing_error + UsageBillingApplyResult) \<times> billing_db" where
  "Apply env f now cmd db =
     (let cmd = Normalize env cmd in
      if uc_RequestID cmd = [] then (Inl UsageBillingRequestIDRequired, db)
      else commit f
        (and_then (claimUsageBillingRequest now (uc_RequestID cmd) (uc_APIKeyID cmd) (uc_RequestFingerprint cmd) db)
          (\<lambda>claim. case claim of
             None \<Rightarrow> Inr (not_applied, None)
           | Some db \<Rightarrow> and_then (applyUsageBillingEffects env now cmd (db, not_applied\<lparr>uar_Applied := True\<rparr>))
               (\<lambda>(db, result). Inr (result, Some db)))) db)"

section \<open>Holds of batch jobs\<close>

definition BatchImageHoldRequestID :: "string \<Rightarrow> string" where
  "BatchImageHoldRequestID batchID = ''batch_image_hold:'' @ trim_space batchID"

definition BatchImageCaptureRequestID :: "string \<Rightarrow> string" where
  "BatchImageCaptureRequestID batchID = ''batch_image_capture:'' @ trim_space batchID"

definition BatchImageReleaseRequestID :: "string \<Rightarrow> string" where
  "BatchImageReleaseRequestID batchID = ''batch_image_release:'' @ trim_space batchID"

record BatchImageBalanceHoldResult =
  bhr_Applied :: bool
  bhr_NewBalance :: "rat option"
  bhr_FrozenBalance :: "rat option"

definition nothing_held :: BatchImageBalanceHoldResult where
  "nothing_held = \<lparr>bhr_Applied = False, bhr_NewBalance = None, bhr_FrozenBalance = None\<rparr>"

text \<open>The update of a user's row under a condition, with the error when it does not hold.\<close>

definition update_hold ::
  "int \<Rightarrow> (billing_user \<Rightarrow> bool) \<Rightarrow> (billing_user \<Rightarrow> billing_user) \<Rightarrow> billing_error \<Rightarrow> billing_db \<Rightarrow>
   billing_error + billing_db \<times> BatchImageBalanceHoldResult" where
  "update_hold userID cond f e db =
     (case gget (bd_users db) userID of
        None \<Rightarrow> Inl UserNotFound
      | Some u \<Rightarrow>
          if cond u then Inr (db\<lparr>bd_users := gput (bd_users db) userID (f u)\<rparr>,
            \<lparr>bhr_Applied = False, bhr_NewBalance = Some (bu_balance (f u)), bhr_FrozenBalance = Some (bu_frozen (f u))\<rparr>)
          else Inl e)"

definition reserveUsageBillingBatchImageBalance ::
  "BatchImageBalanceHoldCommand \<Rightarrow> billing_db \<Rightarrow> billing_error + billing_db \<times> BatchImageBalanceHoldResult" where
  "reserveUsageBillingBatchImageBalance cmd db =
     (if bh_HoldAmount cmd \<le> 0 then Inr (db, nothing_held)
      else update_hold (bh_UserID cmd) (\<lambda>u. bh_HoldAmount cmd \<le> bu_balance u)
        (\<lambda>u. \<lparr>bu_balance = num8 (bu_balance u - bh_HoldAmount cmd), bu_frozen = num8 (bu_frozen u + bh_HoldAmount cmd)\<rparr>)
        BatchImageInsufficientBalance db)"

definition captureUsageBillingBatchImageBalance ::
  "BatchImageBalanceHoldCommand \<Rightarrow> billing_db \<Rightarrow> billing_error + billing_db \<times> BatchImageBalanceHoldResult" where
  "captureUsageBillingBatchImageBalance cmd db =
     (let hold = bh_HoldAmount cmd; actual = bh_ActualAmount cmd in
      if hold \<le> 0 \<and> actual \<le> 0 then Inr (db, nothing_held)
      else if 1 / 10 ^ 8 < actual - hold then Inl BatchImageSettlementCostExceedsHold
      else update_hold (bh_UserID cmd) (\<lambda>u. hold \<le> bu_frozen u)
        (\<lambda>u. \<lparr>bu_balance = num8 (bu_balance u + (if actual < hold then hold - actual else 0) - (if hold < actual then actual - hold else 0)),
              bu_frozen = num8 (bu_frozen u - hold)\<rparr>)
        FrozenBalanceInsufficient db)"

definition batchImageHoldClaimExists :: "string \<Rightarrow> int \<Rightarrow> billing_db \<Rightarrow> bool" where
  "batchImageHoldClaimExists holdRequestID apiKeyID db \<longleftrightarrow>
     gget (bd_dedup db) (holdRequestID, apiKeyID) \<noteq> None \<or> gget (bd_archive db) (holdRequestID, apiKeyID) \<noteq> None"

definition releaseUsageBillingBatchImageBalance ::
  "BatchImageBalanceHoldCommand \<Rightarrow> billing_db \<Rightarrow> billing_error + billing_db \<times> BatchImageBalanceHoldResult" where
  "releaseUsageBillingBatchImageBalance cmd db =
     (if bh_HoldAmount cmd \<le> 0 then Inr (db, nothing_held)
      else if \<not> batchImageHoldClaimExists (BatchImageHoldRequestID (bh_BatchID cmd)) (bh_APIKeyID cmd) db
      then Inr (db, nothing_held)
      else update_hold (bh_UserID cmd) (\<lambda>u. bh_HoldAmount cmd \<le> bu_frozen u)
        (\<lambda>u. \<lparr>bu_balance = num8 (bu_balance u + bh_HoldAmount cmd), bu_frozen = num8 (bu_frozen u - bh_HoldAmount cmd)\<rparr>)
        FrozenBalanceInsufficient db)"

datatype hold_op = Reserve | Capture | Release

fun hold_effect ::
  "hold_op \<Rightarrow> BatchImageBalanceHoldCommand \<Rightarrow> billing_db \<Rightarrow> billing_error + billing_db \<times> BatchImageBalanceHoldResult" where
  "hold_effect Reserve = reserveUsageBillingBatchImageBalance"
| "hold_effect Capture = captureUsageBillingBatchImageBalance"
| "hold_effect Release = releaseUsageBillingBatchImageBalance"

definition applyBatchImageBalanceHold ::
  "billing_env \<Rightarrow> fault \<Rightarrow> time \<Rightarrow> hold_op \<Rightarrow> BatchImageBalanceHoldCommand \<Rightarrow> billing_db \<Rightarrow>
   (billing_error + BatchImageBalanceHoldResult) \<times> billing_db" where
  "applyBatchImageBalanceHold env f now op cmd db =
     (let cmd = NormalizeHold env cmd in
      if bh_RequestID cmd = [] then (Inl UsageBillingRequestIDRequired, db)
      else commit f
        (and_then (claimUsageBillingRequest now (bh_RequestID cmd) (bh_APIKeyID cmd) (bh_RequestFingerprint cmd) db)
          (\<lambda>claim. case claim of
             None \<Rightarrow> Inr (nothing_held, None)
           | Some db \<Rightarrow> and_then (hold_effect op cmd db)
               (\<lambda>(db, result). Inr (result\<lparr>bhr_Applied := True\<rparr>, Some db)))) db)"

definition ReserveBatchImageBalance where
  "ReserveBatchImageBalance env f now = applyBatchImageBalanceHold env f now Reserve"

definition CaptureBatchImageBalance where
  "CaptureBatchImageBalance env f now = applyBatchImageBalanceHold env f now Capture"

definition ReleaseBatchImageBalance where
  "ReleaseBatchImageBalance env f now = applyBatchImageBalanceHold env f now Release"

text \<open>The job, and the commands its callers build.\<close>

record BatchImageJob =
  bij_BatchID :: string
  bij_UserID :: int
  bij_APIKeyID :: "int option"
  bij_EstimatedCost :: rat
  bij_HoldAmount :: "rat option"

datatype hold_error =
    SettlementMissingAPIKeyID
  | InsufficientBalanceForHold
  | BillingHoldFailed billing_error
  | SettlementBillingFailed billing_error

definition buildBatchImageHoldCommand ::
  "BatchImageJob \<Rightarrow> string \<Rightarrow> rat \<Rightarrow> string \<Rightarrow> hold_error + BatchImageBalanceHoldCommand" where
  "buildBatchImageHoldCommand job requestID actualAmount payloadHash =
     (case bij_APIKeyID job of
        None \<Rightarrow> Inl SettlementMissingAPIKeyID
      | Some k \<Rightarrow>
          if k \<le> 0 then Inl SettlementMissingAPIKeyID
          else Inr \<lparr>bh_RequestID = requestID, bh_APIKeyID = k, bh_RequestFingerprint = [],
            bh_RequestPayloadHash = trim_space payloadHash, bh_UserID = bij_UserID job, bh_BatchID = bij_BatchID job,
            bh_HoldAmount = max 0 (coalesce (bij_HoldAmount job) (bij_EstimatedCost job)),
            bh_ActualAmount = max 0 actualAmount\<rparr>)"

definition reserveBatchImageBalanceHold ::
  "billing_env \<Rightarrow> fault \<Rightarrow> time \<Rightarrow> BatchImageJob \<Rightarrow> string \<Rightarrow> billing_db \<Rightarrow> hold_error option \<times> billing_db" where
  "reserveBatchImageBalanceHold env f now job payloadHash db =
     (case buildBatchImageHoldCommand job (BatchImageHoldRequestID (bij_BatchID job)) 0 payloadHash of
        Inl e \<Rightarrow> (Some e, db)
      | Inr cmd \<Rightarrow>
          if bh_HoldAmount cmd \<le> 0 then (None, db)
          else case ReserveBatchImageBalance env f now cmd db of
            (Inl e, db) \<Rightarrow> (Some (if e = BatchImageInsufficientBalance then InsufficientBalanceForHold else BillingHoldFailed e), db)
          | (Inr _, db) \<Rightarrow> (None, db))"

definition captureBatchImageBalanceHold ::
  "billing_env \<Rightarrow> fault \<Rightarrow> time \<Rightarrow> BatchImageJob \<Rightarrow> rat \<Rightarrow> string \<Rightarrow> billing_db \<Rightarrow> hold_error option \<times> billing_db" where
  "captureBatchImageBalanceHold env f now job actualAmount payloadHash db =
     (case buildBatchImageHoldCommand job (BatchImageCaptureRequestID (bij_BatchID job)) actualAmount payloadHash of
        Inl e \<Rightarrow> (Some e, db)
      | Inr cmd \<Rightarrow>
          (case CaptureBatchImageBalance env f now cmd db of
             (Inl e, db) \<Rightarrow> (Some (SettlementBillingFailed e), db)
           | (Inr _, db) \<Rightarrow> (None, db)))"

definition releaseBatchImageBalanceHold ::
  "billing_env \<Rightarrow> fault \<Rightarrow> time \<Rightarrow> BatchImageJob \<Rightarrow> string \<Rightarrow> billing_db \<Rightarrow> hold_error option \<times> billing_db" where
  "releaseBatchImageBalanceHold env f now job payloadHash db =
     (case buildBatchImageHoldCommand job (BatchImageReleaseRequestID (bij_BatchID job)) 0 payloadHash of
        Inl e \<Rightarrow> (Some e, db)
      | Inr cmd \<Rightarrow>
          if bh_HoldAmount cmd \<le> 0 then (None, db)
          else case ReleaseBatchImageBalance env f now cmd db of
            (Inl e, db) \<Rightarrow> (if e = UsageBillingRequestConflict then None else Some (BillingHoldFailed e), db)
          | (Inr _, db) \<Rightarrow> (None, db))"

section \<open>The archive of claims\<close>

definition usageBillingDedupCleanupBatchSize :: nat where
  "usageBillingDedupCleanupBatchSize = 10000"

text \<open>One statement: rows older than the cutoff move to the archive, at most a batch of them.\<close>

definition dedup_victims :: "time \<Rightarrow> billing_db \<Rightarrow> ((string \<times> int) \<times> string \<times> time) list" where
  "dedup_victims cutoff db = take usageBillingDedupCleanupBatchSize (filter (\<lambda>(k, fp, created). created < cutoff) (bd_dedup db))"

definition archive_row :: "(string \<times> int, string) gomap \<Rightarrow> (string \<times> int) \<times> string \<times> time \<Rightarrow> (string \<times> int, string) gomap" where
  "archive_row m row = (case row of (k, fp, created) \<Rightarrow> if gget m k = None then gput m k fp else m)"

definition archive_dedup :: "time \<Rightarrow> billing_db \<Rightarrow> billing_db" where
  "archive_dedup cutoff db =
     (let victims = dedup_victims cutoff db in
      db\<lparr>bd_dedup := foldl (\<lambda>m row. gdel m (fst row)) (bd_dedup db) victims,
         bd_archive := foldl archive_row (bd_archive db) victims\<rparr>)"

text \<open>The loop; the list says how each statement goes, \<open>True\<close> for an error that ends it.\<close>

fun CleanupUsageBillingDedup :: "fault list \<Rightarrow> time \<Rightarrow> billing_db \<Rightarrow> bool \<times> billing_db" where
  "CleanupUsageBillingDedup [] cutoff db = (False, db)"
| "CleanupUsageBillingDedup (f # fs) cutoff db =
     (if f \<noteq> Works then (True, took_effect f db (archive_dedup cutoff db))
      else if length (dedup_victims cutoff db) < usageBillingDedupCleanupBatchSize then (False, archive_dedup cutoff db)
      else CleanupUsageBillingDedup fs cutoff (archive_dedup cutoff db))"

end
