(* ===== verification/Usage_Billing_Correct.thy ===== *)
theory Usage_Billing_Correct
  imports Usage_Billing "HOL-Library.Sublist"
begin

text \<open>
  Transactions that charge, hold, capture and release in any order, with retries and faults.
  First what a single statement moves (\<open>moves\<close>), then whole runs: which commands took effect,
  and what every user and API key paid.
\<close>

section \<open>Runs\<close>

datatype billing_step =
    Bill fault time UsageBillingCommand
  | Hold hold_op fault time BatchImageBalanceHoldCommand
  | Archive time

text \<open>Whether the caller saw success, and the tables after the step.\<close>

fun bill_step :: "billing_env \<Rightarrow> billing_step \<Rightarrow> billing_db \<Rightarrow> bool \<times> billing_db" where
  "bill_step env (Bill f now cmd) db = (case Apply env f now cmd db of (r, db) \<Rightarrow> (\<not> isl r, db))"
| "bill_step env (Hold op f now cmd) db = (case applyBatchImageBalanceHold env f now op cmd db of (r, db) \<Rightarrow> (\<not> isl r, db))"
| "bill_step env (Archive cutoff) db = (True, archive_dedup cutoff db)"

fun bill_run :: "billing_env \<Rightarrow> billing_step list \<Rightarrow> billing_db \<Rightarrow> bool list \<times> billing_db" where
  "bill_run env [] db = ([], db)"
| "bill_run env (x # xs) db =
     (case bill_step env x db of (ok, db) \<Rightarrow> case bill_run env xs db of (oks, db) \<Rightarrow> (ok # oks, db))"

text \<open>The key a step claims, and what it costs a user and counts for an API key.\<close>

fun step_key :: "billing_step \<Rightarrow> (string \<times> int) option" where
  "step_key (Bill f now cmd) = Some (trim_space (uc_RequestID cmd), uc_APIKeyID cmd)"
| "step_key (Hold op f now cmd) = Some (trim_space (bh_RequestID cmd), bh_APIKeyID cmd)"
| "step_key (Archive cutoff) = None"

fun spent :: "int \<Rightarrow> billing_step \<Rightarrow> rat" where
  "spent u (Bill f now cmd) = (if uc_UserID cmd = u then max 0 (num8 (uc_BalanceCost cmd)) else 0)"
| "spent u (Hold Capture f now cmd) =
     (if bh_UserID cmd = u \<and> (0 < bh_HoldAmount cmd \<or> 0 < bh_ActualAmount cmd) then bh_ActualAmount cmd else 0)"
| "spent u _ = 0"

fun counted :: "int \<Rightarrow> billing_step \<Rightarrow> rat" where
  "counted k (Bill f now cmd) = (if uc_APIKeyID cmd = k then max 0 (num8 (uc_APIKeyQuotaCost cmd)) else 0)"
| "counted k _ = 0"

fun step_digits :: "billing_step \<Rightarrow> bool" where
  "step_digits (Hold op f now cmd) \<longleftrightarrow> has_digits 8 (bh_HoldAmount cmd) \<and> has_digits 8 (bh_ActualAmount cmd)"
| "step_digits _ \<longleftrightarrow> True"

definition claimed :: "billing_db \<Rightarrow> (string \<times> int) set" where
  "claimed db = gkeys (bd_dedup db) \<union> gkeys (bd_archive db)"

definition wealth :: "billing_db \<Rightarrow> int \<Rightarrow> rat option" where
  "wealth db u = map_option (\<lambda>r. bu_balance r + bu_frozen r) (gget (bd_users db) u)"

definition quota_used :: "billing_db \<Rightarrow> int \<Rightarrow> rat option" where
  "quota_used db k = map_option bk_quota_used (gget (bd_apiKeys db) k)"

text \<open>Tables with unique keys, amounts with the digits of their columns, nothing frozen below zero.\<close>

definition user_ok :: "billing_user \<Rightarrow> bool" where
  "user_ok r \<longleftrightarrow> has_digits 8 (bu_balance r) \<and> has_digits 8 (bu_frozen r) \<and> 0 \<le> bu_frozen r"

definition ledger_ok :: "billing_db \<Rightarrow> bool" where
  "ledger_ok db \<longleftrightarrow> gmap_ok (bd_users db) \<and> gmap_ok (bd_apiKeys db) \<and> gmap_ok (bd_dedup db) \<and> gmap_ok (bd_archive db) \<and>
     list_all (\<lambda>(u, r). user_ok r) (bd_users db) \<and> list_all (\<lambda>(k, r). has_digits 8 (bk_quota_used r)) (bd_apiKeys db)"

section \<open>What a statement moves\<close>

lemma gput_all: "list_all (\<lambda>(k, r). P r) m \<Longrightarrow> P x \<Longrightarrow> list_all (\<lambda>(k, r). P r) (gput m k x)"
  unfolding gput_def by (induction m) auto

lemma gget_all: "list_all (\<lambda>(k, r). P r) m \<Longrightarrow> gget m k = Some x \<Longrightarrow> P x"
  by (auto simp: gget_def list_all_iff dest: map_of_SomeD)

lemma ledger_user: "ledger_ok db \<Longrightarrow> gget (bd_users db) u = Some r \<Longrightarrow> user_ok r"
  by (rule gget_all [of user_ok "bd_users db" u]) (simp_all add: ledger_ok_def)

lemma ledger_key: "ledger_ok db \<Longrightarrow> gget (bd_apiKeys db) k = Some r \<Longrightarrow> has_digits 8 (bk_quota_used r)"
  by (rule gget_all [of "\<lambda>r. has_digits 8 (bk_quota_used r)" "bd_apiKeys db" k]) (simp_all add: ledger_ok_def)

lemma ledger_put_user:
  "ledger_ok db \<Longrightarrow> user_ok r \<Longrightarrow> ledger_ok (db\<lparr>bd_users := gput (bd_users db) u r\<rparr>)"
  by (simp add: ledger_ok_def gm.ok_put gput_all)

lemma ledger_put_key:
  "ledger_ok db \<Longrightarrow> has_digits 8 (bk_quota_used r) \<Longrightarrow> ledger_ok (db\<lparr>bd_apiKeys := gput (bd_apiKeys db) k r\<rparr>)"
  by (simp add: ledger_ok_def gm.ok_put gput_all [of "\<lambda>r. has_digits 8 (bk_quota_used r)"])

definition moves :: "(int \<Rightarrow> rat) \<Rightarrow> (int \<Rightarrow> rat) \<Rightarrow> billing_db \<Rightarrow> billing_db \<Rightarrow> bool" where
  "moves s q db db' \<longleftrightarrow> ledger_ok db' \<and> bd_dedup db' = bd_dedup db \<and> bd_archive db' = bd_archive db \<and>
     (\<forall>u. wealth db' u = map_option (\<lambda>b. b - s u) (wealth db u)) \<and>
     (\<forall>k. quota_used db' k = map_option (\<lambda>b. b + q k) (quota_used db k))"

lemma moves_nothing: "ledger_ok db \<Longrightarrow> moves (\<lambda>u. 0) (\<lambda>k. 0) db db"
  by (simp add: moves_def option.map_ident)

lemma moves_trans:
  "moves s q a b \<Longrightarrow> moves s' q' b c \<Longrightarrow> moves (\<lambda>u. s u + s' u) (\<lambda>k. q k + q' k) a c"
  by (simp add: moves_def option.map_comp comp_def algebra_simps)

lemma moves_other:
  "ledger_ok db \<Longrightarrow> bd_users db' = bd_users db \<Longrightarrow> bd_apiKeys db' = bd_apiKeys db \<Longrightarrow> bd_dedup db' = bd_dedup db \<Longrightarrow>
     bd_archive db' = bd_archive db \<Longrightarrow> moves (\<lambda>u. 0) (\<lambda>k. 0) db db'"
  by (simp add: moves_def ledger_ok_def wealth_def quota_used_def option.map_ident)

lemma moves_user:
  assumes db: "ledger_ok db" and u: "gget (bd_users db) u = Some r" and r': "user_ok r'"
    and sum: "bu_balance r' + bu_frozen r' = bu_balance r + bu_frozen r - x"
  shows "moves (\<lambda>v. if v = u then x else 0) (\<lambda>k. 0) db (db\<lparr>bd_users := gput (bd_users db) u r'\<rparr>)"
  using ledger_put_user [OF db r', of u] u sum
  by (auto simp: moves_def wealth_def quota_used_def gget_gput option.map_ident option.map_comp comp_def)

lemma moves_key:
  assumes db: "ledger_ok db" and k: "gget (bd_apiKeys db) k = Some r" and r': "has_digits 8 (bk_quota_used r')"
    and sum: "bk_quota_used r' = bk_quota_used r + x"
  shows "moves (\<lambda>u. 0) (\<lambda>v. if v = k then x else 0) db (db\<lparr>bd_apiKeys := gput (bd_apiKeys db) k r'\<rparr>)"
  using ledger_put_key [OF db r', of k] k sum
  by (auto simp: moves_def wealth_def quota_used_def gget_gput option.map_ident option.map_comp comp_def)

section \<open>The effects of a charge\<close>

lemma subscription_moves:
  "ledger_ok db \<Longrightarrow> bill_subscription cmd (db, r) = Inr (db', r') \<Longrightarrow> moves (\<lambda>u. 0) (\<lambda>k. 0) db db'"
  by (rule moves_other) (auto simp: bill_subscription_def incrementUsageBillingSubscription_def and_then_Inr
      split: option.splits if_splits)

lemma balance_moves:
  assumes db: "ledger_ok db" and digits: "has_digits 8 (uc_BalanceCost cmd)"
    and b: "bill_balance cmd (db, r) = Inr (db', r')"
  shows "moves (\<lambda>u. if u = uc_UserID cmd then max 0 (uc_BalanceCost cmd) else 0) (\<lambda>k. 0) db db'"
proof (cases "0 < uc_BalanceCost cmd")
  case True
  from b True obtain u where u: "gget (bd_users db) (uc_UserID cmd) = Some u"
    "db' = db\<lparr>bd_users := gput (bd_users db) (uc_UserID cmd) (u\<lparr>bu_balance := num8 (bu_balance u - uc_BalanceCost cmd)\<rparr>)\<rparr>"
    by (auto simp: bill_balance_def deductUsageBillingBalance_def and_then_Inr Let_def split: option.splits)
  have ok: "user_ok u" by (rule ledger_user [OF db u(1)])
  then have n: "num8 (bu_balance u - uc_BalanceCost cmd) = bu_balance u - uc_BalanceCost cmd"
    using digits by (simp add: user_ok_def has_digits_diff)
  from True have m: "max 0 (uc_BalanceCost cmd) = uc_BalanceCost cmd" by simp
  show ?thesis unfolding u(2) m
    by (rule moves_user [OF db u(1)]) (use ok digits in \<open>simp_all add: n user_ok_def has_digits_diff\<close>)
next
  case False
  then have m: "max 0 (uc_BalanceCost cmd) = 0" by simp
  from False b moves_nothing [OF db] show ?thesis unfolding m by (simp add: bill_balance_def)
qed

lemma quota_moves:
  assumes db: "ledger_ok db" and digits: "has_digits 8 (uc_APIKeyQuotaCost cmd)"
    and b: "bill_quota cmd (db, r) = Inr (db', r')"
  shows "moves (\<lambda>u. 0) (\<lambda>k. if k = uc_APIKeyID cmd then max 0 (uc_APIKeyQuotaCost cmd) else 0) db db'"
proof (cases "0 < uc_APIKeyQuotaCost cmd")
  case True
  from b True obtain k st where k: "gget (bd_apiKeys db) (uc_APIKeyID cmd) = Some k"
    "db' = db\<lparr>bd_apiKeys := gput (bd_apiKeys db) (uc_APIKeyID cmd)
       (k\<lparr>bk_quota_used := num8 (bk_quota_used k + uc_APIKeyQuotaCost cmd), bk_status := st\<rparr>)\<rparr>"
    by (auto simp: bill_quota_def incrementUsageBillingAPIKeyQuota_def and_then_Inr Let_def split: option.splits)
  have n: "num8 (bk_quota_used k + uc_APIKeyQuotaCost cmd) = bk_quota_used k + uc_APIKeyQuotaCost cmd"
    using ledger_key [OF db k(1)] digits by (simp add: has_digits_add)
  from True have m: "max 0 (uc_APIKeyQuotaCost cmd) = uc_APIKeyQuotaCost cmd" by simp
  show ?thesis unfolding k(2) m
    by (rule moves_key [OF db k(1)]) (use ledger_key [OF db k(1)] digits in \<open>simp_all add: n has_digits_add\<close>)
next
  case False
  then have m: "max 0 (uc_APIKeyQuotaCost cmd) = 0" by simp
  from False b moves_nothing [OF db] show ?thesis unfolding m by (simp add: bill_quota_def)
qed

lemma rate_limit_moves:
  assumes db: "ledger_ok db" and b: "bill_rate_limit env now cmd (db, r) = Inr (db', r')"
  shows "moves (\<lambda>u. 0) (\<lambda>k. 0) db db'"
proof (cases "db' = db")
  case True
  with moves_nothing [OF db] show ?thesis by simp
next
  case False
  with b obtain k k' where k: "gget (bd_apiKeys db) (uc_APIKeyID cmd) = Some k"
    "db' = db\<lparr>bd_apiKeys := gput (bd_apiKeys db) (uc_APIKeyID cmd) k'\<rparr>" "bk_quota_used k' = bk_quota_used k"
    by (auto simp: bill_rate_limit_def incrementUsageBillingAPIKeyRateLimit_def and_then_Inr Let_def
        split: option.splits if_splits)
  from moves_key [OF db k(1), of k' 0] ledger_key [OF db k(1)] k(2,3) show ?thesis
    by (simp add: if_distrib cong: if_cong)
qed

lemma account_moves:
  "ledger_ok db \<Longrightarrow> bill_account env now cmd (db, r) = Inr (db', r') \<Longrightarrow> moves (\<lambda>u. 0) (\<lambda>k. 0) db db'"
  by (rule moves_other) (auto simp: bill_account_def incrementUsageBillingAccountQuota_def enqueueSchedulerOutbox_def
      and_then_Inr Let_def split: option.splits if_splits)

lemma effects_move:
  assumes db: "ledger_ok db" and digits: "has_digits 8 (uc_BalanceCost cmd)" "has_digits 8 (uc_APIKeyQuotaCost cmd)"
    and e: "applyUsageBillingEffects env now cmd (db, r) = Inr (db', r')"
  shows "moves (\<lambda>u. if u = uc_UserID cmd then max 0 (uc_BalanceCost cmd) else 0)
     (\<lambda>k. if k = uc_APIKeyID cmd then max 0 (uc_APIKeyQuotaCost cmd) else 0) db db'"
proof -
  from e obtain d1 r1 d2 r2 d3 r3 d4 r4 where
    s: "bill_subscription cmd (db, r) = Inr (d1, r1)" "bill_balance cmd (d1, r1) = Inr (d2, r2)"
      "bill_quota cmd (d2, r2) = Inr (d3, r3)" "bill_rate_limit env now cmd (d3, r3) = Inr (d4, r4)"
      "bill_account env now cmd (d4, r4) = Inr (db', r')"
    by (auto simp: applyUsageBillingEffects_def and_then_Inr)
  note m1 = subscription_moves [OF db s(1)]
  then have o1: "ledger_ok d1" by (simp add: moves_def)
  note m2 = balance_moves [OF o1 digits(1) s(2)]
  then have o2: "ledger_ok d2" by (simp add: moves_def)
  note m3 = quota_moves [OF o2 digits(2) s(3)]
  then have o3: "ledger_ok d3" by (simp add: moves_def)
  note m4 = rate_limit_moves [OF o3 s(4)]
  then have o4: "ledger_ok d4" by (simp add: moves_def)
  note m5 = account_moves [OF o4 s(5)]
  from moves_trans [OF moves_trans [OF moves_trans [OF moves_trans [OF m1 m2] m3] m4] m5] show ?thesis by simp
qed

section \<open>The effects of a hold\<close>

lemma update_hold_moves:
  assumes db: "ledger_ok db" and e: "update_hold u cond f err db = Inr (db', r)"
    and f: "\<And>x. user_ok x \<Longrightarrow> cond x \<Longrightarrow> user_ok (f x) \<and> bu_balance (f x) + bu_frozen (f x) = bu_balance x + bu_frozen x - a"
  shows "moves (\<lambda>v. if v = u then a else 0) (\<lambda>k. 0) db db'"
proof -
  from e obtain x where x: "gget (bd_users db) u = Some x" "cond x" "db' = db\<lparr>bd_users := gput (bd_users db) u (f x)\<rparr>"
    by (auto simp: update_hold_def split: option.splits if_splits)
  from f [OF ledger_user [OF db x(1)] x(2)] show ?thesis unfolding x(3) using moves_user [OF db x(1)] by blast
qed

lemma hold_moves:
  assumes db: "ledger_ok db" and digits: "has_digits 8 (bh_HoldAmount cmd)" "has_digits 8 (bh_ActualAmount cmd)"
    and e: "hold_effect op cmd db = Inr (db', r)"
  shows "moves (\<lambda>u. spent u (Hold op f now cmd)) (\<lambda>k. 0) db db'"
proof (cases op)
  case Reserve
  show ?thesis
  proof (cases "bh_HoldAmount cmd \<le> 0")
    case True
    with e moves_nothing [OF db] show ?thesis by (simp add: Reserve reserveUsageBillingBatchImageBalance_def)
  next
    case False
    with e have "update_hold (bh_UserID cmd) (\<lambda>u. bh_HoldAmount cmd \<le> bu_balance u)
        (\<lambda>u. \<lparr>bu_balance = num8 (bu_balance u - bh_HoldAmount cmd), bu_frozen = num8 (bu_frozen u + bh_HoldAmount cmd)\<rparr>)
        BatchImageInsufficientBalance db = Inr (db', r)" by (simp add: Reserve reserveUsageBillingBatchImageBalance_def)
    from update_hold_moves [OF db this, of 0] False digits show ?thesis
      by (simp add: Reserve user_ok_def has_digits_add has_digits_diff)
  qed
next
  case Capture
  let ?h = "bh_HoldAmount cmd" and ?a = "bh_ActualAmount cmd"
  show ?thesis
  proof (cases "?h \<le> 0 \<and> ?a \<le> 0")
    case True
    with e moves_nothing [OF db] show ?thesis by (simp add: Capture captureUsageBillingBatchImageBalance_def)
  next
    case False
    with e have u: "update_hold (bh_UserID cmd) (\<lambda>u. ?h \<le> bu_frozen u)
        (\<lambda>u. \<lparr>bu_balance = num8 (bu_balance u + (if ?a < ?h then ?h - ?a else 0) - (if ?h < ?a then ?a - ?h else 0)),
              bu_frozen = num8 (bu_frozen u - ?h)\<rparr>) FrozenBalanceInsufficient db = Inr (db', r)"
      by (auto simp: Capture captureUsageBillingBatchImageBalance_def Let_def split: if_splits)
    have "moves (\<lambda>v. if v = bh_UserID cmd then ?a else 0) (\<lambda>k. 0) db db'"
      by (rule update_hold_moves [OF db u]) (use digits in \<open>auto simp: user_ok_def has_digits_add has_digits_diff\<close>)
    moreover have "spent v (Hold op f now cmd) = (if v = bh_UserID cmd then ?a else 0)" for v
      using False by (auto simp: Capture)
    ultimately show ?thesis by simp
  qed
next
  case Release
  show ?thesis
  proof (cases "bh_HoldAmount cmd \<le> 0 \<or> \<not> batchImageHoldClaimExists (BatchImageHoldRequestID (bh_BatchID cmd)) (bh_APIKeyID cmd) db")
    case True
    with e moves_nothing [OF db] show ?thesis by (auto simp: Release releaseUsageBillingBatchImageBalance_def split: if_splits)
  next
    case False
    with e have "update_hold (bh_UserID cmd) (\<lambda>u. bh_HoldAmount cmd \<le> bu_frozen u)
        (\<lambda>u. \<lparr>bu_balance = num8 (bu_balance u + bh_HoldAmount cmd), bu_frozen = num8 (bu_frozen u - bh_HoldAmount cmd)\<rparr>)
        FrozenBalanceInsufficient db = Inr (db', r)" by (simp add: Release releaseUsageBillingBatchImageBalance_def)
    from update_hold_moves [OF db this, of 0] digits show ?thesis
      by (simp add: Release user_ok_def has_digits_add has_digits_diff)
  qed
qed

section \<open>The claim\<close>

lemma claim_again:
  "claimUsageBillingRequest now i k fp db = Inr None \<Longrightarrow> (i, k) \<in> claimed db"
  by (auto simp: claimUsageBillingRequest_def claimed_def gkeys_iff Let_def split: option.splits if_splits)

lemma claim_first:
  "claimUsageBillingRequest now i k fp db = Inr (Some db') \<Longrightarrow>
     (i, k) \<notin> claimed db \<and> db' = db\<lparr>bd_dedup := gput (bd_dedup db) (i, k) (fp, now)\<rparr>"
  by (auto simp: claimUsageBillingRequest_def claimed_def gkeys_iff Let_def split: option.splits if_splits)

lemma ledger_claim: "ledger_ok db \<Longrightarrow> ledger_ok (db\<lparr>bd_dedup := gput (bd_dedup db) i x\<rparr>)"
  by (simp add: ledger_ok_def gm.ok_put)

text \<open>What one step may do: nothing, or claim its key and move what it costs.\<close>

definition step_does :: "billing_step \<Rightarrow> bool \<Rightarrow> billing_db \<Rightarrow> billing_db \<Rightarrow> bool" where
  "step_does x ok db db' \<longleftrightarrow> ledger_ok db' \<and>
     (\<forall>k. ok \<longrightarrow> step_key x = Some k \<longrightarrow> k \<in> claimed db') \<and>
     (claimed db' = claimed db \<and> wealth db' = wealth db \<and> quota_used db' = quota_used db \<or>
      (\<exists>k. step_key x = Some k \<and> k \<notin> claimed db \<and> claimed db' = insert k (claimed db) \<and>
        (\<forall>u. wealth db' u = map_option (\<lambda>b. b - spent u x) (wealth db u)) \<and>
        (\<forall>k. quota_used db' k = map_option (\<lambda>b. b + counted k x) (quota_used db k))))"

lemma does_nothing: "ledger_ok db \<Longrightarrow> step_does x False db db"
  by (simp add: step_does_def)

lemma does_moves:
  assumes k: "step_key x = Some k" "k \<notin> claimed db" and m: "moves s q (db\<lparr>bd_dedup := gput (bd_dedup db) k v\<rparr>) db'"
    and s: "\<And>u. s u = spent u x" "\<And>j. q j = counted j x"
  shows "step_does x ok db db'"
proof -
  have "claimed db' = insert k (claimed db)" using m by (auto simp: moves_def claimed_def)
  with k m s show ?thesis by (simp add: step_does_def moves_def wealth_def quota_used_def)
qed

text \<open>A transaction that claims a key and then applies an effect.\<close>

lemma commit_does:
  assumes db: "ledger_ok db" and key: "step_key x = Some (i, k)"
    and r: "r = and_then (claimUsageBillingRequest now i k fp db)
      (\<lambda>claim. case claim of None \<Rightarrow> Inr (a, None) | Some db \<Rightarrow> and_then (e db) (\<lambda>(db, b). Inr (g b, Some db)))"
    and moves: "\<And>d d' b. ledger_ok d \<Longrightarrow> e d = Inr (d', b) \<Longrightarrow> moves (\<lambda>u. spent u x) (\<lambda>j. counted j x) d d'"
    and c: "commit f r db = (answer, db')"
  shows "step_does x (\<not> isl answer) db db'"
proof (cases r)
  case (Inl err)
  with c db does_nothing show ?thesis by (auto simp: commit_def split: if_splits)
next
  case (Inr y)
  obtain b d where y: "y = (b, d)" by (cases y)
  show ?thesis
  proof (cases d)
    case None
    with r Inr y have "claimUsageBillingRequest now i k fp db = Inr None"
      by (auto simp: and_then_Inr Inr_and_then split: option.splits)
    from claim_again [OF this] have "step_does x ok db db" for ok using db key by (simp add: step_does_def)
    with c Inr y None show ?thesis by (auto simp: commit_def split: if_splits)
  next
    case (Some d')
    with r Inr y obtain d0 b' where cl: "claimUsageBillingRequest now i k fp db = Inr (Some d0)"
      and e: "e d0 = Inr (d', b')" by (auto simp: and_then_Inr Inr_and_then split: option.splits)
    from claim_first [OF cl] have k: "(i, k) \<notin> claimed db"
      and d0: "d0 = db\<lparr>bd_dedup := gput (bd_dedup db) (i, k) (fp, now)\<rparr>" by simp_all
    from moves [OF _ e] ledger_claim [OF db] have "moves (\<lambda>u. spent u x) (\<lambda>j. counted j x) d0 d'" by (simp add: d0)
    with key k have "step_does x ok db d'" for ok unfolding d0 by (rule does_moves) simp_all
    with c Inr y Some does_nothing [OF db] show ?thesis by (auto simp: commit_def split: if_splits)
  qed
qed

section \<open>Steps\<close>

lemma quantize: "QuantizeUsageBillingAmount v = num8 v"
  by (simp add: QuantizeUsageBillingAmount_def UsageBillingMonetaryScale_def)

lemma normalize_fields:
  "uc_RequestID (Normalize env c) = trim_space (uc_RequestID c)" "uc_APIKeyID (Normalize env c) = uc_APIKeyID c"
  "uc_UserID (Normalize env c) = uc_UserID c" "uc_BalanceCost (Normalize env c) = num8 (uc_BalanceCost c)"
  "uc_APIKeyQuotaCost (Normalize env c) = num8 (uc_APIKeyQuotaCost c)"
  by (simp_all add: Normalize_def quantizeMonetaryFields_def quantize Let_def)

lemma normalize_hold_fields:
  "bh_RequestID (NormalizeHold env c) = trim_space (bh_RequestID c)" "bh_APIKeyID (NormalizeHold env c) = bh_APIKeyID c"
  "bh_UserID (NormalizeHold env c) = bh_UserID c" "bh_HoldAmount (NormalizeHold env c) = bh_HoldAmount c"
  "bh_ActualAmount (NormalizeHold env c) = bh_ActualAmount c" "bh_BatchID (NormalizeHold env c) = trim_space (bh_BatchID c)"
  by (simp_all add: NormalizeHold_def Let_def)

lemma bill_does:
  assumes db: "ledger_ok db" and a: "Apply env f now cmd db = (answer, db')"
  shows "step_does (Bill f now cmd) (\<not> isl answer) db db'"
proof (cases "trim_space (uc_RequestID cmd) = []")
  case True
  with a db does_nothing show ?thesis by (auto simp: Apply_def normalize_fields Let_def)
next
  case False
  let ?c = "Normalize env cmd"
  show ?thesis
  proof (rule commit_does [OF db _ refl, where f = f and db' = db' and answer = answer])
    show "step_key (Bill f now cmd) = Some (trim_space (uc_RequestID cmd), uc_APIKeyID cmd)" by simp
    from False a show "commit f (and_then (claimUsageBillingRequest now (trim_space (uc_RequestID cmd)) (uc_APIKeyID cmd) (uc_RequestFingerprint ?c) db)
      (\<lambda>claim. case claim of None \<Rightarrow> Inr (not_applied, None)
         | Some db \<Rightarrow> and_then (applyUsageBillingEffects env now ?c (db, not_applied\<lparr>uar_Applied := True\<rparr>)) (\<lambda>(db, b). Inr (b, Some db)))) db
      = (answer, db')" by (simp add: Apply_def normalize_fields Let_def)
  next
    fix d d' b
    assume d: "ledger_ok d" and e: "applyUsageBillingEffects env now ?c (d, not_applied\<lparr>uar_Applied := True\<rparr>) = Inr (d', b)"
    from effects_move [OF d _ _ e] show "moves (\<lambda>u. spent u (Bill f now cmd)) (\<lambda>j. counted j (Bill f now cmd)) d d'"
      by (simp add: normalize_fields eq_commute cong: if_cong)
  qed
qed
lemma hold_does:
  assumes db: "ledger_ok db" and digits: "step_digits (Hold op f now cmd)"
    and a: "applyBatchImageBalanceHold env f now op cmd db = (answer, db')"
  shows "step_does (Hold op f now cmd) (\<not> isl answer) db db'"
proof (cases "trim_space (bh_RequestID cmd) = []")
  case True
  with a db does_nothing show ?thesis by (auto simp: applyBatchImageBalanceHold_def normalize_hold_fields Let_def)
next
  case False
  let ?c = "NormalizeHold env cmd"
  have same: "spent u (Hold op f now ?c) = spent u (Hold op f now cmd)" for u
    by (cases op) (auto simp: normalize_hold_fields)
  show ?thesis
  proof (rule commit_does [OF db _ refl, where f = f and db' = db' and answer = answer])
    show "step_key (Hold op f now cmd) = Some (trim_space (bh_RequestID cmd), bh_APIKeyID cmd)" by simp
    from False a show "commit f (and_then (claimUsageBillingRequest now (trim_space (bh_RequestID cmd)) (bh_APIKeyID cmd) (bh_RequestFingerprint ?c) db)
      (\<lambda>claim. case claim of None \<Rightarrow> Inr (nothing_held, None)
         | Some db \<Rightarrow> and_then (hold_effect op ?c db) (\<lambda>(db, b). Inr (b\<lparr>bhr_Applied := True\<rparr>, Some db)))) db
      = (answer, db')" by (simp add: applyBatchImageBalanceHold_def normalize_hold_fields Let_def)
  next
    fix d d' b
    assume d: "ledger_ok d" and e: "hold_effect op ?c d = Inr (d', b)"
    from hold_moves [OF d _ _ e, of f now] digits
    show "moves (\<lambda>u. spent u (Hold op f now cmd)) (\<lambda>j. counted j (Hold op f now cmd)) d d'"
      by (simp only: same) (simp add: normalize_hold_fields)
  qed
qed

text \<open>A transaction leaves the tables alone or claims its key and has its effects.\<close>

lemma apply_cases:
  assumes "Apply env f now cmd db = (answer, db')"
  obtains (unchanged) "db' = db" "\<forall>r. answer = Inr r \<longrightarrow> r = not_applied"
  | (effects) v r where "f \<noteq> FailsBefore" "answer = (if f = Works then Inr r else Inl DatabaseError)"
      "applyUsageBillingEffects env now (Normalize env cmd)
         (db\<lparr>bd_dedup := gput (bd_dedup db) (trim_space (uc_RequestID cmd), uc_APIKeyID cmd) v\<rparr>,
          not_applied\<lparr>uar_Applied := True\<rparr>) = Inr (db', r)"
      "(trim_space (uc_RequestID cmd), uc_APIKeyID cmd) \<notin> claimed db"
  using assms
  by (fastforce simp: Apply_def commit_def normalize_fields Let_def and_then_Inr Inr_and_then dest: claim_first
      split: if_splits sum.splits option.splits prod.splits)

lemma hold_cases:
  assumes "applyBatchImageBalanceHold env f now op cmd db = (answer, db')"
  obtains (unchanged) "db' = db"
  | (effect) v r where "f \<noteq> FailsBefore" "(trim_space (bh_RequestID cmd), bh_APIKeyID cmd) \<notin> claimed db"
      "hold_effect op (NormalizeHold env cmd)
         (db\<lparr>bd_dedup := gput (bd_dedup db) (trim_space (bh_RequestID cmd), bh_APIKeyID cmd) v\<rparr>) = Inr (db', r)"
  using assms
  by (fastforce simp: applyBatchImageBalanceHold_def commit_def normalize_hold_fields Let_def and_then_Inr Inr_and_then
      dest: claim_first split: if_splits sum.splits option.splits prod.splits)

text \<open>The archive keeps every claim.\<close>

lemma keys_del: "gmap_ok m \<Longrightarrow> gmap_ok (foldl (\<lambda>m row. gdel m (fst row)) m vs) \<and> gkeys (foldl (\<lambda>m row. gdel m (fst row)) m vs) = gkeys m - fst ` set vs"
  by (induction vs arbitrary: m) (auto simp: gm.ok_del gkeys_gdel)

lemma keys_archive: "gmap_ok m \<Longrightarrow> gmap_ok (foldl archive_row m vs) \<and> gkeys (foldl archive_row m vs) = gkeys m \<union> fst ` set vs"
proof (induction vs arbitrary: m)
  case (Cons v vs)
  obtain k fp t where v: "v = (k, fp, t)" by (cases v)
  have "gmap_ok (archive_row m v) \<and> gkeys (archive_row m v) = insert k (gkeys m)"
    using Cons.prems by (auto simp: v archive_row_def gm.ok_put gkeys_iff)
  with Cons.IH [of "archive_row m v"] show ?case by (simp add: v)
qed simp

lemma archive_keeps:
  "ledger_ok db \<Longrightarrow> ledger_ok (archive_dedup cutoff db) \<and> claimed (archive_dedup cutoff db) = claimed db"
proof -
  assume db: "ledger_ok db"
  have "set (dedup_victims cutoff db) \<subseteq> set (bd_dedup db)" unfolding dedup_victims_def
    by (meson filter_is_subset order_trans set_take_subset)
  then have "fst ` set (dedup_victims cutoff db) \<subseteq> gkeys (bd_dedup db)" unfolding gkeys_def by blast
  then show ?thesis using db keys_del [of "bd_dedup db" "dedup_victims cutoff db"]
      keys_archive [of "bd_archive db" "dedup_victims cutoff db"]
    by (auto simp: ledger_ok_def claimed_def archive_dedup_def Let_def)
qed

lemma step_does:
  assumes "ledger_ok db" "step_digits x" "bill_step env x db = (ok, db')"
  shows "step_does x ok db db'"
proof (cases x)
  case (Archive cutoff)
  with assms archive_keeps [of db cutoff] show ?thesis
    by (auto simp: step_does_def wealth_def quota_used_def archive_dedup_def Let_def)
qed (use assms bill_does hold_does in \<open>fastforce split: prod.splits\<close>)+

text \<open>A run claims each key once and moves what its claiming steps cost.\<close>

definition run_does :: "billing_step list \<Rightarrow> billing_step list \<Rightarrow> bool list \<Rightarrow> billing_db \<Rightarrow> billing_db \<Rightarrow> bool" where
  "run_does xs cs oks db db' \<longleftrightarrow>
     ledger_ok db' \<and> subseq cs xs \<and> distinct (map step_key cs) \<and> None \<notin> set (map step_key cs) \<and>
     claimed db' = claimed db \<union> {k. Some k \<in> set (map step_key cs)} \<and>
     (\<forall>k \<in> claimed db. Some k \<notin> set (map step_key cs)) \<and>
     (\<forall>u. wealth db' u = map_option (\<lambda>b. b - sum_list (map (spent u) cs)) (wealth db u)) \<and>
     (\<forall>k. quota_used db' k = map_option (\<lambda>b. b + sum_list (map (counted k) cs)) (quota_used db k)) \<and>
     (\<forall>(x, ok) \<in> set (zip xs oks). \<forall>k. ok \<longrightarrow> step_key x = Some k \<longrightarrow> k \<in> claimed db')"

lemma run_claims:
  assumes "ledger_ok db" "list_all step_digits xs" "bill_run env xs db = (oks, db')"
  shows "\<exists>cs. run_does xs cs oks db db'"
  using assms
proof (induction xs arbitrary: db oks)
  case Nil
  then have "run_does [] [] oks db db'" by (simp add: run_does_def option.map_ident)
  then show ?case ..
next
  case (Cons x xs)
  obtain ok d where s: "bill_step env x db = (ok, d)" by (cases "bill_step env x db")
  obtain oks' where oks: "oks = ok # oks'" and r: "bill_run env xs d = (oks', db')"
    using Cons.prems(3) s by (auto split: prod.splits)
  have sd: "step_does x ok db d" using step_does [OF Cons.prems(1) _ s] Cons.prems(2) by simp
  then have d: "ledger_ok d" by (simp add: step_does_def)
  from Cons.IH [OF d _ r] Cons.prems(2) obtain cs where cs: "run_does xs cs oks' d db'" by auto
  show ?case
  proof (cases "claimed d = claimed db \<and> wealth d = wealth db \<and> quota_used d = quota_used db")
    case True
    with sd cs have "run_does (x # xs) cs oks db db'" by (auto simp: run_does_def step_does_def oks)
    then show ?thesis ..
  next
    case False
    with sd obtain k where k: "step_key x = Some k" "k \<notin> claimed db" "claimed d = insert k (claimed db)"
      "\<And>u. wealth d u = map_option (\<lambda>b. b - spent u x) (wealth db u)"
      "\<And>k. quota_used d k = map_option (\<lambda>b. b + counted k x) (quota_used db k)"
      by (auto simp: step_does_def)
    from cs k have "run_does (x # xs) (x # cs) oks db db'"
      by (auto simp: run_does_def oks option.map_comp comp_def algebra_simps)
    then show ?thesis ..
  qed
qed
section \<open>Every charge once\<close>

text \<open>
  C2. In any run of charges, holds, captures, releases and archivings, with repeated and failing
  requests, some of the commands took effect, in order: their request ids are different and were not
  claimed before, and exactly they are claimed afterwards. Every user's balance with what is frozen
  went down by exactly what these commands cost, and every API key's used quota went up by exactly what
  they count; whatever answered with success is claimed. Nothing frozen is negative. Two conditions: in
  the tables at the start no key occurs twice, nothing frozen is negative and amounts have at most eight
  decimals, as the columns have; and the amounts of every hold, capture and release have at most eight
  decimals too (charges are rounded to them by the code). A hold with more decimals is refuted by
  \<open>long_hold_makes_money\<close> in \<open>Batch_Holds_Correct\<close>.
\<close>

theorem billing_ledger:
  assumes "ledger_ok db" "list_all step_digits xs" "bill_run env xs db = (oks, db')"
  shows "\<exists>cs. subseq cs xs \<and> distinct (map step_key cs) \<and> None \<notin> set (map step_key cs) \<and>
     claimed db' = claimed db \<union> {k. Some k \<in> set (map step_key cs)} \<and>
     (\<forall>k \<in> claimed db. Some k \<notin> set (map step_key cs)) \<and>
     (\<forall>u. wealth db' u = map_option (\<lambda>b. b - sum_list (map (spent u) cs)) (wealth db u)) \<and>
     (\<forall>k. quota_used db' k = map_option (\<lambda>b. b + sum_list (map (counted k) cs)) (quota_used db k)) \<and>
     (\<forall>(x, ok) \<in> set (zip xs oks). \<forall>k. ok \<longrightarrow> step_key x = Some k \<longrightarrow> k \<in> claimed db') \<and> ledger_ok db'"
  using run_claims [OF assms] unfolding run_does_def by blast

definition bl_env :: billing_env where
  "bl_env = \<lparr>be_sha256 = id, be_dayStart = id, be_nextDaily = (\<lambda>a t. t), be_nextWeekly = (\<lambda>a t. t)\<rparr>"

definition bl_db :: billing_db where
  "bl_db = \<lparr>bd_users = [(1, \<lparr>bu_balance = 10, bu_frozen = 0\<rparr>)],
     bd_apiKeys = [(5, \<lparr>bk_quota = 3, bk_quota_used = 0, bk_status = ''active'', bk_usage_5h = 0, bk_usage_1d = 0, bk_usage_7d = 0,
       bk_window_5h_start = None, bk_window_1d_start = None, bk_window_7d_start = None\<rparr>)],
     bd_subscriptions = [], bd_accounts = [], bd_dedup = [], bd_archive = [], bd_outbox = []\<rparr>"

definition bl_cmd :: "string \<Rightarrow> string \<Rightarrow> rat \<Rightarrow> UsageBillingCommand" where
  "bl_cmd i fp cost = \<lparr>uc_RequestID = i, uc_APIKeyID = 5, uc_RequestFingerprint = fp, uc_RequestPayloadHash = [], uc_UserID = 1,
     uc_AccountID = 7, uc_SubscriptionID = None, uc_AccountType = [], uc_Model = [], uc_ServiceTier = [], uc_ReasoningEffort = [],
     uc_BillingType = 0, uc_InputTokens = 0, uc_OutputTokens = 0, uc_CacheCreationTokens = 0, uc_CacheReadTokens = 0,
     uc_ImageCount = 0, uc_MediaType = [], uc_BalanceCost = cost, uc_SubscriptionCost = 0, uc_APIKeyQuotaCost = cost,
     uc_APIKeyRateLimitCost = 0, uc_AccountQuotaCost = 0\<rparr>"

definition bl_hold :: "string \<Rightarrow> rat \<Rightarrow> BatchImageBalanceHoldCommand" where
  "bl_hold i actual = \<lparr>bh_RequestID = i, bh_APIKeyID = 5, bh_RequestFingerprint = i, bh_RequestPayloadHash = [], bh_UserID = 1,
     bh_BatchID = ''b'', bh_HoldAmount = 4, bh_ActualAmount = actual\<rparr>"

text \<open>
  A charge commits unseen and is repeated; the same id with another fingerprint is refused, also
  after its row is in the archive; a hold of 4 is reserved and captured with 1.
\<close>

definition bl_steps :: "billing_step list" where
  "bl_steps = [Bill FailsAfter 100 (bl_cmd ''r'' ''x'' 2), Bill Works 101 (bl_cmd '' r'' ''x'' 2),
     Bill Works 102 (bl_cmd ''r'' ''y'' 3), Archive 200, Bill Works 103 (bl_cmd ''r'' ''x'' 2),
     Hold Reserve Works 104 (bl_hold ''h'' 0), Hold Capture Works 105 (bl_hold ''c'' 1)]"

theorem billing_ledger_witness:
  "case bill_run bl_env bl_steps bl_db of (oks, db) \<Rightarrow>
     oks = [False, True, False, True, True, True, True] \<and> wealth db 1 = Some 7 \<and> quota_used db 5 = Some 2 \<and>
     (\<exists>cs. subseq cs bl_steps \<and> distinct (map step_key cs) \<and> sum_list (map (spent 1) cs) = 3)"
proof -
  obtain oks db where r: "bill_run bl_env bl_steps bl_db = (oks, db)" by (cases "bill_run bl_env bl_steps bl_db")
  have "case bill_run bl_env bl_steps bl_db of (oks, db) \<Rightarrow>
     oks = [False, True, False, True, True, True, True] \<and> wealth db 1 = Some 7 \<and> quota_used db 5 = Some 2"
    by code_simp
  then have a: "oks = [False, True, False, True, True, True, True]" "wealth db 1 = Some 7" "quota_used db 5 = Some 2"
    by (simp_all add: r)
  have "ledger_ok bl_db" "list_all step_digits bl_steps" by code_simp+
  from billing_ledger [OF this r] obtain cs where cs: "subseq cs bl_steps" "distinct (map step_key cs)"
    "wealth db 1 = map_option (\<lambda>b. b - sum_list (map (spent 1) cs)) (wealth bl_db 1)" by blast
  have "wealth bl_db 1 = Some 10" by code_simp
  with cs a have "sum_list (map (spent 1) cs) = 3" by simp
  with cs a r show ?thesis by auto
qed

end
