(* ===== verification/Usage_Quota_Correct.thy ===== *)
theory Usage_Quota_Correct
  imports Usage_Billing_Correct
begin

text \<open>
  The quota of an API key over a run of charges: it is disabled when the used amount reaches the
  quota, and one charge reports it.
\<close>

section \<open>Runs of charges\<close>

fun charge_run ::
  "billing_env \<Rightarrow> (fault \<times> time \<times> UsageBillingCommand) list \<Rightarrow> billing_db \<Rightarrow>
   (billing_error + UsageBillingApplyResult) list \<times> billing_db" where
  "charge_run env [] db = ([], db)"
| "charge_run env ((f, now, cmd) # cs) db =
     (case Apply env f now cmd db of (answer, db) \<Rightarrow> case charge_run env cs db of (answers, db) \<Rightarrow> (answer # answers, db))"

definition reports :: "int \<Rightarrow> UsageBillingCommand \<Rightarrow> billing_error + UsageBillingApplyResult \<Rightarrow> bool" where
  "reports k cmd answer \<longleftrightarrow> uc_APIKeyID cmd = k \<and>
     (case answer of Inl e \<Rightarrow> False | Inr result \<Rightarrow> uar_APIKeyQuotaExhausted result)"

fun reported :: "int \<Rightarrow> (fault \<times> time \<times> UsageBillingCommand) list \<Rightarrow> (billing_error + UsageBillingApplyResult) list \<Rightarrow> nat" where
  "reported k ((f, now, cmd) # cs) (answer # answers) = (if reports k cmd answer then 1 else 0) + reported k cs answers"
| "reported k cs answers = 0"

section \<open>One charge\<close>

text \<open>The used amount grows; crossing the quota disables an active key.\<close>

definition crosses :: "billing_api_key \<Rightarrow> billing_api_key \<Rightarrow> bool" where
  "crosses r r' \<longleftrightarrow> 0 < bk_quota r \<and> bk_quota_used r < bk_quota r \<and> bk_quota r \<le> bk_quota_used r'"

definition key_step :: "billing_api_key \<Rightarrow> billing_api_key \<Rightarrow> bool" where
  "key_step r r' \<longleftrightarrow> bk_quota r' = bk_quota r \<and> bk_quota_used r \<le> bk_quota_used r' \<and>
     bk_status r' = (if crosses r r' \<and> bk_status r = StatusAPIKeyActive then StatusAPIKeyQuotaExhausted else bk_status r)"

lemma key_step_same: "bk_quota r' = bk_quota r \<Longrightarrow> bk_quota_used r' = bk_quota_used r \<Longrightarrow> bk_status r' = bk_status r \<Longrightarrow> key_step r r'"
  by (simp add: key_step_def crosses_def)

lemma subscription_keys:
  "bill_subscription cmd (db, r) = Inr (db', r') \<Longrightarrow> bd_apiKeys db' = bd_apiKeys db \<and> r' = r"
  by (auto simp: bill_subscription_def incrementUsageBillingSubscription_def and_then_Inr split: option.splits if_splits)

lemma balance_keys:
  "bill_balance cmd (db, r) = Inr (db', r') \<Longrightarrow>
     bd_apiKeys db' = bd_apiKeys db \<and> uar_APIKeyQuotaExhausted r' = uar_APIKeyQuotaExhausted r"
  by (auto simp: bill_balance_def deductUsageBillingBalance_def and_then_Inr Let_def split: option.splits if_splits)

lemma account_keys:
  "bill_account env now cmd (db, r) = Inr (db', r') \<Longrightarrow>
     bd_apiKeys db' = bd_apiKeys db \<and> uar_APIKeyQuotaExhausted r' = uar_APIKeyQuotaExhausted r"
  by (auto simp: bill_account_def incrementUsageBillingAccountQuota_def enqueueSchedulerOutbox_def and_then_Inr Let_def
      split: option.splits if_splits)

lemma rate_limit_keys:
  assumes "bill_rate_limit env now cmd (db, r) = Inr (db', r')" "gget (bd_apiKeys db) k = Some x"
  shows "\<exists>y. gget (bd_apiKeys db') k = Some y \<and> bk_quota y = bk_quota x \<and> bk_quota_used y = bk_quota_used x \<and>
     bk_status y = bk_status x \<and> r' = r"
  using assms by (auto simp: bill_rate_limit_def incrementUsageBillingAPIKeyRateLimit_def and_then_Inr Let_def gget_gput
      split: option.splits if_splits)

lemma quota_keys:
  assumes b: "bill_quota cmd (db, r) = Inr (db', r')" and x: "gget (bd_apiKeys db) k = Some x"
    and digits: "has_digits 8 (uc_APIKeyQuotaCost cmd)" "has_digits 8 (bk_quota_used x)"
    and r: "\<not> uar_APIKeyQuotaExhausted r"
  shows "\<exists>y. gget (bd_apiKeys db') k = Some y \<and> key_step x y \<and>
     (uc_APIKeyID cmd = k \<longrightarrow> uar_APIKeyQuotaExhausted r' = crosses x y) \<and> (uc_APIKeyID cmd \<noteq> k \<longrightarrow> y = x)"
proof (cases "0 < uc_APIKeyQuotaCost cmd \<and> uc_APIKeyID cmd = k")
  case True
  let ?u = "bk_quota_used x + uc_APIKeyQuotaCost cmd"
  have n: "num8 ?u = ?u" using digits by (simp add: has_digits_add)
  let ?y = "x\<lparr>bk_quota_used := ?u, bk_status := if 0 < bk_quota x \<and> bk_status x = StatusAPIKeyActive \<and>
      bk_quota_used x < bk_quota x \<and> bk_quota x \<le> ?u then StatusAPIKeyQuotaExhausted else bk_status x\<rparr>"
  from True have "key_step x ?y" by (auto simp: key_step_def crosses_def)
  moreover from b x True have "gget (bd_apiKeys db') k = Some ?y" "uar_APIKeyQuotaExhausted r' = crosses x ?y"
    by (auto simp: bill_quota_def incrementUsageBillingAPIKeyQuota_def and_then_Inr Let_def gget_gput n crosses_def)
  ultimately show ?thesis using True by blast
next
  case False
  with b x r show ?thesis
    by (auto simp: bill_quota_def incrementUsageBillingAPIKeyQuota_def and_then_Inr Let_def gget_gput key_step_same crosses_def
        split: option.splits if_splits)
qed

lemma effects_keys:
  assumes e: "applyUsageBillingEffects env now cmd (db, r) = Inr (db', r')" and x: "gget (bd_apiKeys db) k = Some x"
    and digits: "has_digits 8 (uc_APIKeyQuotaCost cmd)" "has_digits 8 (bk_quota_used x)"
    and r: "\<not> uar_APIKeyQuotaExhausted r"
  shows "\<exists>y. gget (bd_apiKeys db') k = Some y \<and> key_step x y \<and>
     (uc_APIKeyID cmd = k \<longrightarrow> uar_APIKeyQuotaExhausted r' = crosses x y) \<and> (uc_APIKeyID cmd \<noteq> k \<longrightarrow> \<not> crosses x y)"
proof -
  from e obtain d1 r1 d2 r2 d3 r3 d4 r4 where
    s: "bill_subscription cmd (db, r) = Inr (d1, r1)" "bill_balance cmd (d1, r1) = Inr (d2, r2)"
      "bill_quota cmd (d2, r2) = Inr (d3, r3)" "bill_rate_limit env now cmd (d3, r3) = Inr (d4, r4)"
      "bill_account env now cmd (d4, r4) = Inr (db', r')"
    by (auto simp: applyUsageBillingEffects_def and_then_Inr)
  from subscription_keys [OF s(1)] balance_keys [OF s(2)] x r
  have x2: "gget (bd_apiKeys d2) k = Some x" and r2: "\<not> uar_APIKeyQuotaExhausted r2" by simp_all
  from quota_keys [OF s(3) x2 digits r2] obtain y where y: "gget (bd_apiKeys d3) k = Some y" "key_step x y"
    "uc_APIKeyID cmd = k \<longrightarrow> uar_APIKeyQuotaExhausted r3 = crosses x y" "uc_APIKeyID cmd \<noteq> k \<longrightarrow> y = x" by blast
  from rate_limit_keys [OF s(4) y(1)] obtain z where z: "gget (bd_apiKeys d4) k = Some z" "bk_quota z = bk_quota y"
    "bk_quota_used z = bk_quota_used y" "bk_status z = bk_status y" "r4 = r3" by blast
  have "key_step x z" "crosses x z = crosses x y" using y(2) z by (simp_all add: key_step_def crosses_def)
  with account_keys [OF s(5)] y z show ?thesis by (auto simp: crosses_def)
qed

lemma apply_key:
  assumes db: "ledger_ok db" and x: "gget (bd_apiKeys db) k = Some x" and a: "Apply env f now cmd db = (answer, db')"
  shows "\<exists>y. gget (bd_apiKeys db') k = Some y \<and> key_step x y \<and> (reports k cmd answer \<longrightarrow> crosses x y) \<and>
     (f = Works \<longrightarrow> crosses x y \<longrightarrow> reports k cmd answer)"
  using a
proof (cases rule: apply_cases)
  case unchanged
  have "key_step x x" by (rule key_step_same) simp_all
  moreover from unchanged(2) have "\<not> reports k cmd answer" by (auto simp: reports_def not_applied_def split: sum.splits)
  ultimately show ?thesis using unchanged(1) x by (auto simp: crosses_def)
next
  case (effects v r)
  from effects_keys [OF effects(3), of k x] x ledger_key [OF db x]
  obtain y where y: "gget (bd_apiKeys db') k = Some y" "key_step x y"
    "uc_APIKeyID cmd = k \<longrightarrow> uar_APIKeyQuotaExhausted r = crosses x y" "uc_APIKeyID cmd \<noteq> k \<longrightarrow> \<not> crosses x y"
    by (auto simp: normalize_fields not_applied_def)
  then show ?thesis using effects(2) by (auto simp: reports_def)
qed

lemma key_step_trans:
  "key_step x y \<Longrightarrow> key_step y z \<Longrightarrow> key_step x z \<and> (crosses x z \<longleftrightarrow> crosses x y \<or> crosses y z) \<and> \<not> (crosses x y \<and> crosses y z)"
  by (auto simp: key_step_def crosses_def)

lemma run_key:
  assumes "ledger_ok db" "gget (bd_apiKeys db) k = Some x" "charge_run env cs db = (answers, db')"
  shows "\<exists>y. gget (bd_apiKeys db') k = Some y \<and> key_step x y \<and> reported k cs answers \<le> (if crosses x y then 1 else 0) \<and>
     (list_all (\<lambda>c. fst c = Works) cs \<longrightarrow> reported k cs answers = (if crosses x y then 1 else 0))"
  using assms
proof (induction cs arbitrary: db x answers)
  case Nil
  have "key_step x x" by (rule key_step_same) simp_all
  with Nil show ?case by (auto simp: crosses_def)
next
  case (Cons c cs)
  obtain f now cmd where c: "c = (f, now, cmd)" by (cases c)
  obtain answer d where s: "Apply env f now cmd db = (answer, d)" by (cases "Apply env f now cmd db")
  with Cons.prems(3) obtain as where r: "charge_run env cs d = (as, db')" and answers: "answers = answer # as"
    by (auto simp: c split: prod.splits)
  from bill_does [OF Cons.prems(1) s] have d: "ledger_ok d" by (simp add: step_does_def)
  from apply_key [OF Cons.prems(1,2) s] obtain y where y: "gget (bd_apiKeys d) k = Some y" "key_step x y"
    "reports k cmd answer \<longrightarrow> crosses x y" "f = Works \<longrightarrow> crosses x y \<longrightarrow> reports k cmd answer" by blast
  from Cons.IH [OF d y(1) r] obtain z where z: "gget (bd_apiKeys db') k = Some z" "key_step y z"
    "reported k cs as \<le> (if crosses y z then 1 else 0)"
    "list_all (\<lambda>c. fst c = Works) cs \<longrightarrow> reported k cs as = (if crosses y z then 1 else 0)" by blast
  from key_step_trans [OF y(2) z(2)] y z(3,4) z(1) show ?case
    by (intro exI [of _ z]) (auto simp: c answers split: if_splits)
qed

text \<open>
  C18. Over any run of charges with repeated and failing requests, an active API key with a quota it
  has not used up is disabled exactly when its used amount reaches the quota, whether or not a caller
  sees the charge that does so; at most one answer reports it, and exactly one when no transaction
  fails.
\<close>

theorem quota_exhausted_once:
  assumes "ledger_ok db" "gget (bd_apiKeys db) k = Some x" "0 < bk_quota x" "bk_quota_used x < bk_quota x"
    "bk_status x = ''active''" "charge_run env cs db = (answers, db')"
  shows "\<exists>y. gget (bd_apiKeys db') k = Some y \<and>
     bk_status y = (if bk_quota x \<le> bk_quota_used y then ''quota_exhausted'' else ''active'') \<and>
     reported k cs answers \<le> (if bk_quota x \<le> bk_quota_used y then 1 else 0) \<and>
     (list_all (\<lambda>c. fst c = Works) cs \<longrightarrow> bk_quota x \<le> bk_quota_used y \<longrightarrow> reported k cs answers = 1)"
proof -
  from run_key [OF assms(1,2,6)] obtain y where y: "gget (bd_apiKeys db') k = Some y" "key_step x y"
    "reported k cs answers \<le> (if crosses x y then 1 else 0)"
    "list_all (\<lambda>c. fst c = Works) cs \<longrightarrow> reported k cs answers = (if crosses x y then 1 else 0)" by blast
  from assms(3,4) have "crosses x y \<longleftrightarrow> bk_quota x \<le> bk_quota_used y" by (simp add: crosses_def)
  with y assms(5) show ?thesis by (auto simp: key_step_def)
qed

text \<open>The second of three charges reaches the quota of 3.\<close>

definition qx_run :: "(fault \<times> time \<times> UsageBillingCommand) list" where
  "qx_run = [(Works, 1, bl_cmd ''a'' ''x'' 2), (Works, 2, bl_cmd ''b'' ''x'' 2), (Works, 3, bl_cmd ''c'' ''x'' 2)]"

theorem quota_exhausted_once_witness:
  "case charge_run bl_env qx_run bl_db of (answers, db) \<Rightarrow>
     map_option bk_status (gget (bd_apiKeys db) 5) = Some ''quota_exhausted'' \<and> reported 5 qx_run answers = 1"
proof -
  obtain answers db where r: "charge_run bl_env qx_run bl_db = (answers, db)" by (cases "charge_run bl_env qx_run bl_db")
  obtain x where x: "gget (bd_apiKeys bl_db) 5 = Some x" "0 < bk_quota x" "bk_quota_used x < bk_quota x"
    "bk_status x = ''active''" "bk_quota x = 3" by (simp add: bl_db_def gget_def)
  have ok: "ledger_ok bl_db" by code_simp
  have "map_option bk_quota_used (gget (bd_apiKeys (snd (charge_run bl_env qx_run bl_db))) 5) = Some 6" by code_simp
  moreover have "list_all (\<lambda>c. fst c = Works) qx_run" by (simp add: qx_run_def)
  ultimately show ?thesis using quota_exhausted_once [OF ok x(1-4) r] x(5) r by auto
qed

end
