(* ===== verification/Batch_Holds_Correct.thy ===== *)
theory Batch_Holds_Correct
  imports Usage_Billing_Correct
begin

text \<open>
  The holds of batch jobs. While a job's hold is open, its user's frozen amount covers it, so the
  job can be settled: what a run of charges, archivings and other jobs' holds cannot take away.
\<close>

section \<open>Jobs\<close>

definition job_hold :: "BatchImageJob \<Rightarrow> rat" where
  "job_hold j = max 0 (coalesce (bij_HoldAmount j) (bij_EstimatedCost j))"

definition job_key :: "(string \<Rightarrow> string) \<Rightarrow> BatchImageJob \<Rightarrow> string \<times> int" where
  "job_key request j = (request (bij_BatchID j), the (bij_APIKeyID j))"

abbreviation "hold_key \<equiv> job_key BatchImageHoldRequestID"
abbreviation "capture_key \<equiv> job_key BatchImageCaptureRequestID"
abbreviation "release_key \<equiv> job_key BatchImageReleaseRequestID"

text \<open>Different jobs have different names or keys; amounts have the digits of a balance.\<close>

definition jobs_ok :: "BatchImageJob list \<Rightarrow> bool" where
  "jobs_ok js \<longleftrightarrow> distinct (map (\<lambda>j. (trim_space (bij_BatchID j), bij_APIKeyID j)) js) \<and>
     list_all (\<lambda>j. has_digits 8 (job_hold j) \<and> (case bij_APIKeyID j of None \<Rightarrow> False | Some k \<Rightarrow> 0 < k)) js"

definition hold_open :: "billing_db \<Rightarrow> BatchImageJob \<Rightarrow> bool" where
  "hold_open db j \<longleftrightarrow> hold_key j \<in> claimed db \<and> capture_key j \<notin> claimed db \<and> release_key j \<notin> claimed db"

definition frozen :: "billing_db \<Rightarrow> int \<Rightarrow> rat" where
  "frozen db u = (case gget (bd_users db) u of None \<Rightarrow> 0 | Some r \<Rightarrow> bu_frozen r)"

definition open_amount :: "BatchImageJob list \<Rightarrow> billing_db \<Rightarrow> int \<Rightarrow> rat" where
  "open_amount js db u = sum_list (map job_hold (filter (\<lambda>j. bij_UserID j = u \<and> hold_open db j) js))"

text \<open>
  What the workers do with these jobs: any charge of another request and any archiving, any
  reservation, a capture only after the reservation and not after a release, a release not after a
  capture. Every transaction may fail or go unseen.
\<close>

inductive hold_reach :: "billing_env \<Rightarrow> BatchImageJob list \<Rightarrow> billing_db \<Rightarrow> billing_db \<Rightarrow> bool"
  for env js db0 where
  start: "hold_reach env js db0 db0"
| charge: "hold_reach env js db0 db \<Longrightarrow> \<forall>j \<in> set js. (trim_space (uc_RequestID cmd), uc_APIKeyID cmd) \<notin> {hold_key j, capture_key j, release_key j} \<Longrightarrow>
    hold_reach env js db0 (snd (Apply env f now cmd db))"
| archive: "hold_reach env js db0 db \<Longrightarrow> hold_reach env js db0 (archive_dedup cutoff db)"
| reserve: "hold_reach env js db0 db \<Longrightarrow> j \<in> set js \<Longrightarrow>
    hold_reach env js db0 (snd (reserveBatchImageBalanceHold env f now j hash db))"
| capture: "hold_reach env js db0 db \<Longrightarrow> j \<in> set js \<Longrightarrow> hold_key j \<in> claimed db \<Longrightarrow> release_key j \<notin> claimed db \<Longrightarrow>
    has_digits 8 actual \<Longrightarrow> hold_reach env js db0 (snd (captureBatchImageBalanceHold env f now j actual hash db))"
| release: "hold_reach env js db0 db \<Longrightarrow> j \<in> set js \<Longrightarrow> capture_key j \<notin> claimed db \<Longrightarrow>
    hold_reach env js db0 (snd (releaseBatchImageBalanceHold env f now j hash db))"

section \<open>Keys of jobs\<close>

lemma key_differ [simp]: "hold_key i \<noteq> capture_key j" "hold_key i \<noteq> release_key j" "capture_key i \<noteq> release_key j"
  "capture_key j \<noteq> hold_key i" "release_key j \<noteq> hold_key i" "release_key j \<noteq> capture_key i"
  by (simp_all add: job_key_def BatchImageHoldRequestID_def BatchImageCaptureRequestID_def BatchImageReleaseRequestID_def)

lemma key_same:
  assumes js: "jobs_ok js" and i: "i \<in> set js" and j: "j \<in> set js"
  shows "hold_key i = hold_key j \<longleftrightarrow> i = j" "capture_key i = capture_key j \<longleftrightarrow> i = j" "release_key i = release_key j \<longleftrightarrow> i = j"
proof -
  have inj: "inj_on (\<lambda>j. (trim_space (bij_BatchID j), bij_APIKeyID j)) (set js)" using js by (simp add: jobs_ok_def distinct_map)
  have "bij_APIKeyID x \<noteq> None" if "x \<in> set js" for x
    using js that by (auto simp: jobs_ok_def list_all_iff split: option.splits)
  from this [OF i] this [OF j] obtain a b where "bij_APIKeyID i = Some a" "bij_APIKeyID j = Some b" by blast
  then show "hold_key i = hold_key j \<longleftrightarrow> i = j" "capture_key i = capture_key j \<longleftrightarrow> i = j" "release_key i = release_key j \<longleftrightarrow> i = j"
    using inj_onD [OF inj _ i j]
    by (auto simp: job_key_def BatchImageHoldRequestID_def BatchImageCaptureRequestID_def BatchImageReleaseRequestID_def)
qed

section \<open>What changes\<close>

lemma open_amount_change:
  assumes js: "jobs_ok js" and j: "j \<in> set js" and same: "\<And>i. i \<in> set js \<Longrightarrow> i \<noteq> j \<Longrightarrow> hold_open db' i = hold_open db i"
  shows "open_amount js db' u = open_amount js db u +
     (if bij_UserID j = u then (if hold_open db' j then job_hold j else 0) - (if hold_open db j then job_hold j else 0) else 0)"
proof -
  have "distinct js" using js by (simp add: jobs_ok_def distinct_map)
  then have "open_amount js d u = (\<Sum>i\<in>set js. if bij_UserID i = u \<and> hold_open d i then job_hold i else 0)" for d
    by (simp add: open_amount_def sum_list_distinct_conv_sum_set sum.inter_filter [symmetric] Collect_conj_eq)
  moreover have "(\<Sum>i\<in>set js - {j}. if bij_UserID i = u \<and> hold_open db' i then job_hold i else 0) =
      (\<Sum>i\<in>set js - {j}. if bij_UserID i = u \<and> hold_open db i then job_hold i else 0)"
    by (rule sum.cong) (use same in auto)
  ultimately show ?thesis using j by (simp add: sum.remove [of "set js" j])
qed

lemma open_amount_same:
  "(\<And>i. i \<in> set js \<Longrightarrow> hold_open db' i = hold_open db i) \<Longrightarrow> open_amount js db' u = open_amount js db u"
  by (simp add: open_amount_def cong: filter_cong)

lemma effects_frozen:
  assumes "applyUsageBillingEffects env now cmd (db, r) = Inr (db', r')"
  shows "frozen db' u = frozen db u"
proof -
  from assms obtain d1 r1 d2 r2 d3 r3 d4 r4 where
    s: "bill_subscription cmd (db, r) = Inr (d1, r1)" "bill_balance cmd (d1, r1) = Inr (d2, r2)"
      "bill_quota cmd (d2, r2) = Inr (d3, r3)" "bill_rate_limit env now cmd (d3, r3) = Inr (d4, r4)"
      "bill_account env now cmd (d4, r4) = Inr (db', r')"
    by (auto simp: applyUsageBillingEffects_def and_then_Inr)
  from s(1) have 1: "frozen d1 u = frozen db u"
    by (auto simp: bill_subscription_def incrementUsageBillingSubscription_def and_then_Inr frozen_def split: option.splits if_splits)
  from s(2) have 2: "frozen d2 u = frozen d1 u"
    by (auto simp: bill_balance_def deductUsageBillingBalance_def and_then_Inr Let_def frozen_def gget_gput split: option.splits if_splits)
  from s(3) have 3: "frozen d3 u = frozen d2 u"
    by (auto simp: bill_quota_def incrementUsageBillingAPIKeyQuota_def and_then_Inr Let_def frozen_def split: option.splits if_splits)
  from s(4) have 4: "frozen d4 u = frozen d3 u"
    by (auto simp: bill_rate_limit_def incrementUsageBillingAPIKeyRateLimit_def and_then_Inr Let_def frozen_def split: option.splits if_splits)
  from s(5) have 5: "frozen db' u = frozen d4 u"
    by (auto simp: bill_account_def incrementUsageBillingAccountQuota_def enqueueSchedulerOutbox_def and_then_Inr Let_def frozen_def
        split: option.splits if_splits)
  from 1 2 3 4 5 show ?thesis by simp
qed

section \<open>Every open hold is covered\<close>

text \<open>What the reachable tables satisfy.\<close>

definition covered :: "BatchImageJob list \<Rightarrow> billing_db \<Rightarrow> bool" where
  "covered js db \<longleftrightarrow> ledger_ok db \<and> (\<forall>u. open_amount js db u \<le> frozen db u)"

lemma claim_key:
  "ledger_ok db \<Longrightarrow> ledger_ok (db\<lparr>bd_dedup := gput (bd_dedup db) k v\<rparr>) \<and>
     claimed (db\<lparr>bd_dedup := gput (bd_dedup db) k v\<rparr>) = insert k (claimed db) \<and>
     frozen (db\<lparr>bd_dedup := gput (bd_dedup db) k v\<rparr>) = frozen db"
  by (auto simp: ledger_claim claimed_def frozen_def)

lemma effect_claims:
  "hold_effect op cmd db = Inr (db', r) \<Longrightarrow> claimed db' = claimed db"
  by (cases op) (auto simp: reserveUsageBillingBatchImageBalance_def captureUsageBillingBatchImageBalance_def
      releaseUsageBillingBatchImageBalance_def update_hold_def claimed_def Let_def split: if_splits option.splits)

lemmas hold_effects = reserveUsageBillingBatchImageBalance_def captureUsageBillingBatchImageBalance_def
  releaseUsageBillingBatchImageBalance_def

text \<open>What an effect does to the frozen amount of the command's user.\<close>

definition freezes :: "hold_op \<Rightarrow> BatchImageBalanceHoldCommand \<Rightarrow> billing_db \<Rightarrow> rat" where
  "freezes op cmd db = (case op of
     Reserve \<Rightarrow> bh_HoldAmount cmd
   | Capture \<Rightarrow> - bh_HoldAmount cmd
   | Release \<Rightarrow> if batchImageHoldClaimExists (BatchImageHoldRequestID (bh_BatchID cmd)) (bh_APIKeyID cmd) db
       then - bh_HoldAmount cmd else 0)"

lemma hold_freezes:
  assumes db: "ledger_ok db" and hold: "0 \<le> bh_HoldAmount cmd" "has_digits 8 (bh_HoldAmount cmd)"
    and e: "hold_effect op cmd db = Inr (db', r)"
  shows "frozen db' v = frozen db v + (if v = bh_UserID cmd then freezes op cmd db else 0)"
proof (cases "v = bh_UserID cmd")
  case False
  with e show ?thesis by (cases op) (auto simp: hold_effects update_hold_def frozen_def gget_gput Let_def split: if_splits option.splits)
next
  case True
  show ?thesis
  proof (cases "gget (bd_users db) v")
    case None
    with e True hold(1) show ?thesis
      by (cases op) (auto simp: hold_effects update_hold_def frozen_def freezes_def Let_def split: if_splits)
  next
    case (Some x)
    with ledger_user [OF db Some] e True hold show ?thesis
      by (cases op) (auto simp: hold_effects update_hold_def frozen_def freezes_def gget_gput user_ok_def has_digits_add has_digits_diff
          Let_def split: if_splits)
  qed
qed

fun op_key :: "hold_op \<Rightarrow> BatchImageJob \<Rightarrow> string \<times> int" where
  "op_key Reserve j = hold_key j"
| "op_key Capture j = capture_key j"
| "op_key Release j = release_key j"

fun permitted :: "hold_op \<Rightarrow> BatchImageJob \<Rightarrow> billing_db \<Rightarrow> bool" where
  "permitted Reserve j db \<longleftrightarrow> True"
| "permitted Capture j db \<longleftrightarrow> hold_key j \<in> claimed db \<and> release_key j \<notin> claimed db"
| "permitted Release j db \<longleftrightarrow> capture_key j \<notin> claimed db"

definition for_job :: "BatchImageJob \<Rightarrow> hold_op \<Rightarrow> BatchImageBalanceHoldCommand \<Rightarrow> bool" where
  "for_job j op cmd \<longleftrightarrow> (trim_space (bh_RequestID cmd), bh_APIKeyID cmd) = op_key op j \<and> bh_UserID cmd = bij_UserID j \<and>
     bh_HoldAmount cmd = job_hold j \<and> trim_space (bh_BatchID cmd) = trim_space (bij_BatchID j) \<and>
     bij_APIKeyID j = Some (bh_APIKeyID cmd)"

lemma claim_exists_iff: "batchImageHoldClaimExists i k db \<longleftrightarrow> (i, k) \<in> claimed db"
  by (auto simp: batchImageHoldClaimExists_def claimed_def gkeys_iff)

lemma job_hold_nonneg: "0 \<le> job_hold j"
  by (simp add: job_hold_def)

lemma open_other:
  assumes js: "jobs_ok js" and i: "i \<in> set js" and j: "j \<in> set js" and ij: "i \<noteq> j" and c: "claimed db' = insert (op_key op j) (claimed db)"
  shows "hold_open db' i = hold_open db i"
  using key_same [OF js i j] ij c by (cases op) (auto simp: hold_open_def)

lemma hold_covers:
  assumes cov: "covered js db" and js: "jobs_ok js" and j: "j \<in> set js" and cmd: "for_job j op cmd"
    and digits: "has_digits 8 (bh_ActualAmount cmd)" and p: "permitted op j db"
    and a: "applyBatchImageBalanceHold env f now op cmd db = (answer, db')"
  shows "covered js db'"
  using a
proof (cases rule: hold_cases)
  case unchanged
  with cov show ?thesis by simp
next
  case (effect v r)
  from cov have db: "ledger_ok db" by (simp add: covered_def)
  have hold: "has_digits 8 (job_hold j)" using js j by (auto simp: jobs_ok_def list_all_iff)
  let ?k = "op_key op j" and ?c = "NormalizeHold env cmd"
  define d where "d = db\<lparr>bd_dedup := gput (bd_dedup db) ?k v\<rparr>"
  from claim_key [OF db, of ?k v] have d: "ledger_ok d" "claimed d = insert ?k (claimed db)" "frozen d = frozen db"
    by (simp_all add: d_def)
  from effect(3) cmd have e: "hold_effect op ?c d = Inr (db', r)" by (simp add: d_def for_job_def)
  have k: "?k \<notin> claimed db" using effect(2) cmd by (simp add: for_job_def)
  have c: "claimed db' = insert ?k (claimed db)" using effect_claims [OF e] d(2) by simp
  have l: "ledger_ok db'" using hold_does [OF db _ a] digits hold cmd by (simp add: for_job_def step_does_def)
  have fr: "frozen db' u = frozen db u + (if u = bij_UserID j then freezes op ?c d else 0)" for u
    using hold_freezes [OF d(1) _ _ e, of u] cmd hold job_hold_nonneg [of j] d(3) by (simp add: normalize_hold_fields for_job_def)
  have ex: "batchImageHoldClaimExists (BatchImageHoldRequestID (bh_BatchID ?c)) (bh_APIKeyID ?c) d \<longleftrightarrow> hold_key j \<in> claimed d"
    using cmd by (auto simp: claim_exists_iff normalize_hold_fields for_job_def job_key_def BatchImageHoldRequestID_def split: option.splits)
  have amount: "open_amount js db' u = open_amount js db u +
      (if bij_UserID j = u then (if hold_open db' j then job_hold j else 0) - (if hold_open db j then job_hold j else 0) else 0)" for u
    by (rule open_amount_change [OF js j]) (use open_other [OF js _ j _ c] in blast)
  have le: "(if hold_open db' j then job_hold j else 0) - (if hold_open db j then job_hold j else 0) \<le> freezes op ?c d"
    using k p c ex d(2) cmd job_hold_nonneg [of j]
    by (cases op) (auto simp: hold_open_def freezes_def normalize_hold_fields for_job_def)
  have "open_amount js db' u \<le> frozen db' u" for u
  proof -
    have "open_amount js db u \<le> frozen db u" using cov by (simp add: covered_def)
    with amount [of u] le fr [of u] show ?thesis by (cases "bij_UserID j = u") (simp_all split del: if_split)
  qed
  with l show ?thesis by (simp add: covered_def)
qed

lemma hold_id_trimmed [simp]:
  "trim_space (BatchImageHoldRequestID b) = BatchImageHoldRequestID b"
  "trim_space (BatchImageCaptureRequestID b) = BatchImageCaptureRequestID b"
  "trim_space (BatchImageReleaseRequestID b) = BatchImageReleaseRequestID b"
  unfolding BatchImageHoldRequestID_def BatchImageCaptureRequestID_def BatchImageReleaseRequestID_def
  using trim_space_behind [of "CHR ''b''" "CHR '':''" "trim_space b" "''atch_image_hold''"]
    trim_space_behind [of "CHR ''b''" "CHR '':''" "trim_space b" "''atch_image_capture''"]
    trim_space_behind [of "CHR ''b''" "CHR '':''" "trim_space b" "''atch_image_release''"]
  by (simp_all add: space_runes_def)

fun request_id :: "hold_op \<Rightarrow> string \<Rightarrow> string" where
  "request_id Reserve = BatchImageHoldRequestID"
| "request_id Capture = BatchImageCaptureRequestID"
| "request_id Release = BatchImageReleaseRequestID"

lemma build_for_job:
  assumes js: "jobs_ok js" and j: "j \<in> set js"
  obtains cmd where "buildBatchImageHoldCommand j (request_id op (bij_BatchID j)) a hash = Inr cmd" "for_job j op cmd"
    "bh_ActualAmount cmd = max 0 a"
proof -
  obtain k where "bij_APIKeyID j = Some k" "0 < k"
    using js j by (auto simp: jobs_ok_def list_all_iff split: option.splits)
  then obtain cmd where c: "buildBatchImageHoldCommand j (request_id op (bij_BatchID j)) a hash = Inr cmd"
    "bh_RequestID cmd = request_id op (bij_BatchID j)" "bh_APIKeyID cmd = k" "bh_UserID cmd = bij_UserID j"
    "bh_BatchID cmd = bij_BatchID j" "bh_HoldAmount cmd = job_hold j" "bh_ActualAmount cmd = max 0 a"
    by (simp add: buildBatchImageHoldCommand_def job_hold_def)
  have "for_job j op cmd" using c(2-6) \<open>bij_APIKeyID j = Some k\<close> by (cases op) (simp_all add: for_job_def job_key_def)
  with c(1,7) show ?thesis by (intro that)
qed

lemma digits_max: "has_digits 8 a \<Longrightarrow> has_digits 8 (max 0 a)"
  by (simp add: max_def)

lemma reach_covered:
  assumes js: "jobs_ok js" and db0: "ledger_ok db0" "\<forall>j \<in> set js. hold_key j \<notin> claimed db0" and r: "hold_reach env js db0 db"
  shows "covered js db"
  using r
proof induction
  case start
  have "0 \<le> frozen db0 u" for u
    using ledger_user [OF db0(1), of u] by (simp add: frozen_def user_ok_def split: option.splits)
  moreover have "filter (\<lambda>j. bij_UserID j = u \<and> hold_open db0 j) js = []" for u
    using db0(2) by (auto simp: filter_empty_conv hold_open_def)
  ultimately show ?case using db0(1) by (simp add: covered_def open_amount_def)
next
  case (charge db cmd f now)
  obtain answer db' where a: "Apply env f now cmd db = (answer, db')" by (cases "Apply env f now cmd db")
  from charge have db: "ledger_ok db" by (simp add: covered_def)
  from bill_does [OF db a] have s: "step_does (Bill f now cmd) (\<not> isl answer) db db'" .
  have "hold_open db' j = hold_open db j" if "j \<in> set js" for j
    using s charge.hyps(2) that by (auto simp: step_does_def hold_open_def)
  then have o: "open_amount js db' u = open_amount js db u" for u by (rule open_amount_same)
  have "frozen db' u = frozen db u" for u
    using a
  proof (cases rule: apply_cases)
    case (effects v r)
    from effects_frozen [OF effects(3)] claim_key [OF db] show ?thesis by simp
  qed simp
  with o s charge.IH show ?case by (simp add: covered_def step_does_def a)
next
  case (archive db cutoff)
  then have db: "ledger_ok db" by (simp add: covered_def)
  note k = archive_keeps [OF db, of cutoff]
  have "open_amount js (archive_dedup cutoff db) u = open_amount js db u" for u
    by (rule open_amount_same) (simp add: hold_open_def k)
  moreover have "frozen (archive_dedup cutoff db) u = frozen db u" for u by (simp add: frozen_def archive_dedup_def Let_def)
  ultimately show ?case using archive.IH k by (simp add: covered_def)
next
  case (reserve db j f now hash)
  obtain cmd where cmd: "buildBatchImageHoldCommand j (request_id Reserve (bij_BatchID j)) 0 hash = Inr cmd"
    "for_job j Reserve cmd" "bh_ActualAmount cmd = max 0 0" by (rule build_for_job [OF js reserve.hyps(2)])
  from hold_covers [OF reserve.IH js reserve.hyps(2) cmd(2)] cmd reserve.IH show ?case
    by (auto simp: reserveBatchImageBalanceHold_def ReserveBatchImageBalance_def split: prod.splits sum.splits)
next
  case (capture db j actual f now hash)
  obtain cmd where cmd: "buildBatchImageHoldCommand j (request_id Capture (bij_BatchID j)) actual hash = Inr cmd"
    "for_job j Capture cmd" "bh_ActualAmount cmd = max 0 actual" by (rule build_for_job [OF js capture.hyps(2)])
  from hold_covers [OF capture.IH js capture.hyps(2) cmd(2)] cmd capture.hyps digits_max show ?case
    by (auto simp: captureBatchImageBalanceHold_def CaptureBatchImageBalance_def split: prod.splits sum.splits)
next
  case (release db j f now hash)
  obtain cmd where cmd: "buildBatchImageHoldCommand j (request_id Release (bij_BatchID j)) 0 hash = Inr cmd"
    "for_job j Release cmd" "bh_ActualAmount cmd = max 0 0" by (rule build_for_job [OF js release.hyps(2)])
  from hold_covers [OF release.IH js release.hyps(2) cmd(2)] cmd release.hyps release.IH show ?case
    by (auto simp: releaseBatchImageBalanceHold_def ReleaseBatchImageBalance_def split: prod.splits sum.splits)
qed

text \<open>A hold that is open can be settled.\<close>

lemma for_job_hold_key:
  assumes "for_job j op cmd"
  shows "(BatchImageHoldRequestID (bh_BatchID (NormalizeHold env cmd)), bh_APIKeyID cmd) = hold_key j"
proof -
  from assms have "trim_space (bh_BatchID cmd) = trim_space (bij_BatchID j)" "the (bij_APIKeyID j) = bh_APIKeyID cmd"
    by (simp_all add: for_job_def)
  then show ?thesis by (simp add: job_key_def BatchImageHoldRequestID_def normalize_hold_fields)
qed

lemma claim_new: "k \<notin> claimed db \<Longrightarrow> claimUsageBillingRequest now (fst k) (snd k) fp db =
    Inr (Some (db\<lparr>bd_dedup := gput (bd_dedup db) k (fp, now)\<rparr>))"
  by (cases "gget (bd_dedup db) k"; cases "gget (bd_archive db) k")
    (simp_all add: claimUsageBillingRequest_def claimed_def gkeys_iff Let_def)

lemma hold_works:
  assumes cmd: "for_job j op cmd" and k: "op_key op j \<notin> claimed db"
    and e: "\<And>v. hold_effect op (NormalizeHold env cmd) (db\<lparr>bd_dedup := gput (bd_dedup db) (op_key op j) v\<rparr>) = Inr (db' v, r)"
  shows "\<exists>v r'. applyBatchImageBalanceHold env Works now op cmd db = (Inr r', db' v)"
proof -
  have "(trim_space (bh_RequestID cmd), bh_APIKeyID cmd) = op_key op j" using cmd by (simp add: for_job_def)
  then have i: "trim_space (bh_RequestID cmd) = fst (op_key op j)" "bh_APIKeyID cmd = snd (op_key op j)" by (metis fst_conv, metis snd_conv)
  have "fst (op_key op j) \<noteq> []" by (cases op) (simp_all add: job_key_def BatchImageHoldRequestID_def
      BatchImageCaptureRequestID_def BatchImageReleaseRequestID_def)
  then show ?thesis
    by (simp add: applyBatchImageBalanceHold_def normalize_hold_fields i Let_def claim_new [OF k] e commit_def) blast
qed

lemma part_le_sum: "x \<in> set xs \<Longrightarrow> (\<And>y. 0 \<le> f y) \<Longrightarrow> (f x :: rat) \<le> sum_list (map f xs)"
proof (induction xs)
  case (Cons y xs)
  have "0 \<le> sum_list (map f xs)" by (rule sum_list_nonneg) (use Cons.prems(2) in auto)
  moreover have "0 \<le> f y" by (rule Cons.prems(2))
  ultimately show ?case using Cons by (auto intro: order_trans add_increasing)
qed simp

lemma open_hold_covered:
  assumes cov: "covered js db" and j: "j \<in> set js" "hold_open db j" and pos: "0 < job_hold j"
  obtains u where "gget (bd_users db) (bij_UserID j) = Some u" "job_hold j \<le> bu_frozen u" "user_ok u"
proof -
  have "job_hold j \<le> open_amount js db (bij_UserID j)" unfolding open_amount_def
    by (rule part_le_sum) (use j job_hold_nonneg in auto)
  also have "\<dots> \<le> frozen db (bij_UserID j)" using cov by (simp add: covered_def)
  finally have le: "job_hold j \<le> frozen db (bij_UserID j)" .
  with pos obtain u where u: "gget (bd_users db) (bij_UserID j) = Some u" by (auto simp: frozen_def split: option.splits)
  with le ledger_user [OF _ u] cov show ?thesis by (intro that [of u]) (simp_all add: frozen_def covered_def)
qed

text \<open>
  C6. A job whose hold is open can be settled: its user's frozen amount covers the hold, releasing it
  gives exactly the hold back, and capturing an amount within the hold takes exactly this amount. This
  holds after any charges, archivings and settlements of the jobs \<open>js\<close>, with repeated, failing and unseen
  transactions, under these conditions: estimated and captured amounts have at most eight decimals; a job
  is captured only when its hold is claimed and it has not been released, and released only when it has
  not been captured; and no charge uses the request id of a job. Longer amounts and a release
  after a capture are refuted by \<open>long_hold_stuck\<close> and \<open>release_after_capture\<close>.
\<close>

theorem open_hold_settles:
  assumes js: "jobs_ok js" and db0: "ledger_ok db0" "\<forall>j \<in> set js. hold_key j \<notin> claimed db0" and r: "hold_reach env js db0 db"
    and j: "j \<in> set js" "hold_open db j" and pos: "0 < job_hold j"
    and actual: "0 \<le> actual" "actual \<le> job_hold j" "has_digits 8 actual"
  shows "\<exists>u. gget (bd_users db) (bij_UserID j) = Some u \<and> job_hold j \<le> bu_frozen u \<and>
     (case releaseBatchImageBalanceHold env Works now j hash db of (e, db') \<Rightarrow> e = None \<and>
        gget (bd_users db') (bij_UserID j) = Some \<lparr>bu_balance = bu_balance u + job_hold j, bu_frozen = bu_frozen u - job_hold j\<rparr>) \<and>
     (case captureBatchImageBalanceHold env Works now j actual hash db of (e, db') \<Rightarrow> e = None \<and>
        gget (bd_users db') (bij_UserID j) =
          Some \<lparr>bu_balance = bu_balance u + job_hold j - actual, bu_frozen = bu_frozen u - job_hold j\<rparr>)"
proof -
  note cov = reach_covered [OF js db0 r]
  obtain u where u: "gget (bd_users db) (bij_UserID j) = Some u" "job_hold j \<le> bu_frozen u" "user_ok u"
    by (rule open_hold_covered [OF cov j pos])
  have digits: "has_digits 8 (job_hold j)" using js j by (auto simp: jobs_ok_def list_all_iff)
  with u(3) actual(3) have n: "num8 (bu_balance u + job_hold j) = bu_balance u + job_hold j"
    "num8 (bu_frozen u - job_hold j) = bu_frozen u - job_hold j"
    "num8 (bu_balance u + (job_hold j - actual)) = bu_balance u + job_hold j - actual"
    by (simp_all add: user_ok_def has_digits_add has_digits_diff add_diff_eq)
  from j(2) have k: "hold_key j \<in> claimed db" "capture_key j \<notin> claimed db" "release_key j \<notin> claimed db" by (auto simp: hold_open_def)
  obtain c where c: "buildBatchImageHoldCommand j (request_id Release (bij_BatchID j)) 0 hash = Inr c" "for_job j Release c"
    by (rule build_for_job [OF js j(1)])
  have ex: "batchImageHoldClaimExists (BatchImageHoldRequestID (bh_BatchID (NormalizeHold env c))) (bh_APIKeyID c)
      (db\<lparr>bd_dedup := gput (bd_dedup db) x v\<rparr>)" for x v
    using k(1) for_job_hold_key [OF c(2), of env] by (auto simp: claim_exists_iff claimed_def)
  have rel: "\<exists>v r'. applyBatchImageBalanceHold env Works now Release c db = (Inr r', db\<lparr>bd_dedup := gput (bd_dedup db) (release_key j) v,
      bd_users := gput (bd_users db) (bij_UserID j) \<lparr>bu_balance = bu_balance u + job_hold j, bu_frozen = bu_frozen u - job_hold j\<rparr>\<rparr>)"
    by (rule hold_works [OF c(2)]) (use k c(2) ex u pos n in
        \<open>simp_all add: releaseUsageBillingBatchImageBalance_def update_hold_def normalize_hold_fields for_job_def\<close>)
  obtain d where d: "buildBatchImageHoldCommand j (request_id Capture (bij_BatchID j)) actual hash = Inr d" "for_job j Capture d"
    "bh_ActualAmount d = max 0 actual" by (rule build_for_job [OF js j(1)])
  have cap: "\<exists>v r'. applyBatchImageBalanceHold env Works now Capture d db = (Inr r', db\<lparr>bd_dedup := gput (bd_dedup db) (capture_key j) v,
      bd_users := gput (bd_users db) (bij_UserID j) \<lparr>bu_balance = bu_balance u + job_hold j - actual, bu_frozen = bu_frozen u - job_hold j\<rparr>\<rparr>)"
    by (rule hold_works [OF d(2)]) (use k d(2,3) u pos n actual in
        \<open>auto simp: captureUsageBillingBatchImageBalance_def update_hold_def normalize_hold_fields for_job_def Let_def\<close>)
  show ?thesis
    using u c d rel cap pos
    by (auto simp: releaseBatchImageBalanceHold_def captureBatchImageBalanceHold_def ReleaseBatchImageBalance_def
        CaptureBatchImageBalance_def for_job_def gget_gput)
qed

text \<open>Two jobs of a user: one is reserved, the other reserved unseen and released, with a charge in between.\<close>

definition bh_job :: "string \<Rightarrow> rat \<Rightarrow> BatchImageJob" where
  "bh_job i hold = \<lparr>bij_BatchID = i, bij_UserID = 1, bij_APIKeyID = Some 5, bij_EstimatedCost = 0, bij_HoldAmount = Some hold\<rparr>"

definition bh_run :: billing_db where
  "bh_run =
     (let db = snd (reserveBatchImageBalanceHold bl_env Works 1 (bh_job ''a'' 4) ''x'' bl_db);
          db = snd (reserveBatchImageBalanceHold bl_env FailsAfter 2 (bh_job ''b'' 3) ''x'' db);
          db = snd (Apply bl_env Works 3 (bl_cmd ''r'' ''x'' 2) db)
      in snd (releaseBatchImageBalanceHold bl_env Works 4 (bh_job ''b'' 3) ''x'' db))"

theorem open_hold_settles_witness:
  "\<exists>u. gget (bd_users bh_run) 1 = Some u \<and> job_hold (bh_job ''a'' 4) \<le> bu_frozen u \<and>
     (case releaseBatchImageBalanceHold bl_env Works 9 (bh_job ''a'' 4) ''x'' bh_run of (e, db') \<Rightarrow> e = None \<and>
        gget (bd_users db') 1 = Some \<lparr>bu_balance = bu_balance u + 4, bu_frozen = bu_frozen u - 4\<rparr>) \<and>
     (case captureBatchImageBalanceHold bl_env Works 9 (bh_job ''a'' 4) 1 ''x'' bh_run of (e, db') \<Rightarrow> e = None \<and>
        gget (bd_users db') 1 = Some \<lparr>bu_balance = bu_balance u + 4 - 1, bu_frozen = bu_frozen u - 4\<rparr>)"
proof -
  let ?js = "[bh_job ''a'' 4, bh_job ''b'' 3]"
  define d1 where "d1 = snd (reserveBatchImageBalanceHold bl_env Works 1 (bh_job ''a'' 4) ''x'' bl_db)"
  define d2 where "d2 = snd (reserveBatchImageBalanceHold bl_env FailsAfter 2 (bh_job ''b'' 3) ''x'' d1)"
  define d3 where "d3 = snd (Apply bl_env Works 3 (bl_cmd ''r'' ''x'' 2) d2)"
  have run: "bh_run = snd (releaseBatchImageBalanceHold bl_env Works 4 (bh_job ''b'' 3) ''x'' d3)"
    by (simp add: bh_run_def d1_def d2_def d3_def Let_def)
  have js: "jobs_ok ?js" by code_simp
  have ok: "ledger_ok bl_db" by code_simp
  have new: "\<forall>j \<in> set ?js. hold_key j \<notin> claimed bl_db" by code_simp
  have charge: "\<forall>j \<in> set ?js. (trim_space (uc_RequestID (bl_cmd ''r'' ''x'' 2)), uc_APIKeyID (bl_cmd ''r'' ''x'' 2)) \<notin>
      {hold_key j, capture_key j, release_key j}" by code_simp
  have "capture_key (bh_job ''b'' 3) \<notin> claimed d3" unfolding d3_def d2_def d1_def by code_simp
  then have "hold_reach bl_env ?js bl_db bh_run" unfolding run
    by (intro hold_reach.release) (auto simp: d3_def d2_def d1_def intro!: hold_reach.intros(1,4) hold_reach.charge [OF _ charge])
  moreover have "hold_open bh_run (bh_job ''a'' 4)" by code_simp
  moreover have "job_hold (bh_job ''a'' 4) = 4" by code_simp
  ultimately show ?thesis
    using open_hold_settles [OF js ok new, of bl_env bh_run "bh_job ''a'' 4" 1 9 "''x''"] by (simp add: bh_job_def)
qed

section \<open>Holds that are not covered\<close>

text \<open>
  An amount with more digits than the column: the reservation rounds what it freezes, so capturing and
  releasing the hold fail, and the money stays frozen.
\<close>

lemma long_hold_stuck:
  "case reserveBatchImageBalanceHold bl_env Works 1 (bh_job ''a'' (4 + 4 / 10 ^ 9)) ''x'' bl_db of (e, db) \<Rightarrow>
     e = None \<and> wealth db 1 = Some 10 \<and> frozen db 1 = 4 \<and>
     fst (captureBatchImageBalanceHold bl_env Works 2 (bh_job ''a'' (4 + 4 / 10 ^ 9)) 1 ''x'' db) =
       Some (SettlementBillingFailed FrozenBalanceInsufficient) \<and>
     fst (releaseBatchImageBalanceHold bl_env Works 2 (bh_job ''a'' (4 + 4 / 10 ^ 9)) ''x'' db) =
       Some (BillingHoldFailed FrozenBalanceInsufficient)"
  by code_simp

text \<open>Half a unit of the last digit is rounded up twice: balance and frozen amount together grow.\<close>

lemma long_hold_makes_money:
  "wealth (snd (reserveBatchImageBalanceHold bl_env Works 1 (bh_job ''a'' (4 + 5 / 10 ^ 9)) ''x'' bl_db)) 1 = Some (10 + 1 / 10 ^ 8)"
  by code_simp

text \<open>A release that comes before its reservation uses up its request id: the later reservation is never released.\<close>

lemma early_release_leaks:
  "case releaseBatchImageBalanceHold bl_env Works 1 (bh_job ''a'' 4) ''x'' bl_db of (e1, db) \<Rightarrow>
     case reserveBatchImageBalanceHold bl_env Works 2 (bh_job ''a'' 4) ''x'' db of (e2, db) \<Rightarrow>
       case releaseBatchImageBalanceHold bl_env Works 3 (bh_job ''a'' 4) ''x'' db of (e3, db) \<Rightarrow>
         e1 = None \<and> e2 = None \<and> e3 = None \<and> frozen db 1 = 4"
  by code_simp

text \<open>A release after a capture that its caller did not see takes what another job has frozen.\<close>

lemma release_after_capture:
  "case reserveBatchImageBalanceHold bl_env Works 1 (bh_job ''a'' 4) ''x'' bl_db of (e1, db) \<Rightarrow>
     case reserveBatchImageBalanceHold bl_env Works 2 (bh_job ''b'' 5) ''x'' db of (e2, db) \<Rightarrow>
       case captureBatchImageBalanceHold bl_env FailsAfter 3 (bh_job ''a'' 4) 4 ''x'' db of (e3, db) \<Rightarrow>
         case releaseBatchImageBalanceHold bl_env Works 4 (bh_job ''a'' 4) ''x'' db of (e4, db) \<Rightarrow>
           e3 = Some (SettlementBillingFailed DatabaseError) \<and> e4 = None \<and> frozen db 1 = 1 \<and>
           fst (captureBatchImageBalanceHold bl_env Works 5 (bh_job ''b'' 5) 5 ''x'' db) =
             Some (SettlementBillingFailed FrozenBalanceInsufficient)"
  by code_simp

end
