(* ===== verification/Keyword_Matcher_Correct.thy ===== *)
theory Keyword_Matcher_Correct
  imports Keyword_Matcher
begin

text \<open>
  The matcher finds the first keyword of the list that occurs in the text. First the theory of
  longest suffixes in a prefix-closed set of words; then each stage of the construction: the
  trie, the failure links, the packed edges; then the run over a text.
\<close>

section \<open>Longest suffixes\<close>

fun lsuf :: "string set \<Rightarrow> string \<Rightarrow> string" where
  "lsuf W [] = []"
| "lsuf W (x # xs) = (if x # xs \<in> W then x # xs else lsuf W xs)"

lemma lsuf_in: "[] \<in> W \<Longrightarrow> lsuf W p \<in> W"
  by (induction p) simp_all

lemma lsuf_self [simp]: "p \<in> W \<Longrightarrow> lsuf W p = p"
  by (cases p) simp_all

lemma lsuf_suffix: "suffix (lsuf W p) p"
  by (induction p) (auto simp: suffix_Cons)

lemma suffix_lsuf: "suffix v p \<Longrightarrow> v \<in> W \<Longrightarrow> suffix v (lsuf W p)"
  by (induction p) (auto simp: suffix_Cons)

lemma lsuf_length: "length (lsuf W p) \<le> length p"
  using lsuf_suffix suffix_length_le by blast

lemma lsuf_tl_shorter: "u \<noteq> [] \<Longrightarrow> length (lsuf W (tl u)) < length u"
  using lsuf_length [of W "tl u"] by (cases u) (auto simp: le_imp_less_Suc)

definition closed_words :: "string set \<Rightarrow> bool" where
  "closed_words W \<longleftrightarrow> [] \<in> W \<and> (\<forall>u c. u @ [c] \<in> W \<longrightarrow> u \<in> W)"

lemma lsuf_append: "closed_words W \<Longrightarrow> lsuf W (lsuf W p @ [c]) = lsuf W (p @ [c])"
proof (induction p)
  case Nil
  then show ?case by simp
next
  case (Cons x p)
  show ?case
  proof (cases "x # p \<in> W")
    case True
    then show ?thesis by simp
  next
    case False
    with Cons.prems have "(x # p) @ [c] \<notin> W" unfolding closed_words_def by blast
    with False Cons.IH [OF Cons.prems] show ?thesis by simp
  qed
qed

text \<open>The step of the loops that follow failure links.\<close>

lemma lsuf_retry:
  assumes "closed_words W" and "u \<noteq> []" and "u @ [c] \<notin> W"
  shows "lsuf W (u @ [c]) = lsuf W (lsuf W (tl u) @ [c])"
  using assms(2,3) lsuf_append [OF assms(1), of "tl u" c] by (cases u) auto

section \<open>First indices\<close>

definition first_index :: "nat \<Rightarrow> (nat \<Rightarrow> bool) \<Rightarrow> nat option" where
  "first_index n P = find P [0..<n]"

lemma find_append: "find P (xs @ ys) = (case find P xs of None \<Rightarrow> find P ys | Some x \<Rightarrow> Some x)"
  by (induction xs) simp_all

lemma first_index_0 [simp]: "first_index 0 P = None"
  by (simp add: first_index_def)

lemma first_index_Suc:
  "first_index (Suc n) P = (case first_index n P of None \<Rightarrow> if P n then Some n else None | Some i \<Rightarrow> Some i)"
  by (simp add: first_index_def find_append split: option.split)

lemma first_index_lt: "first_index n P = Some i \<Longrightarrow> i < n \<and> P i"
  by (auto simp: first_index_def find_Some_iff)

lemma first_index_none: "first_index n P = None \<longleftrightarrow> (\<forall>i<n. \<not> P i)"
  by (auto simp: first_index_def find_None_iff)

lemma first_index_min:
  "minKeywordIndex (first_index n P) (first_index n Q) = first_index n (\<lambda>i. P i \<or> Q i)"
proof (induction n)
  case 0
  then show ?case by simp
next
  case (Suc n)
  show ?case
    using Suc first_index_lt [of n P] first_index_lt [of n Q]
    by (auto simp: first_index_Suc split: option.splits)
qed

lemma first_index_cong: "(\<And>i. i < n \<Longrightarrow> P i = Q i) \<Longrightarrow> first_index n P = first_index n Q"
  by (induction n) (simp_all add: first_index_Suc)

section \<open>The trie\<close>

text \<open>
  Ghosts: the word of every node and the parent of every node but the root. Edge j leads to
  node j + 1.
\<close>

fun sib_ok :: "contentModerationKeywordBuildEdge list \<Rightarrow> nat option \<Rightarrow> nat list \<Rightarrow> bool" where
  "sib_ok es None js = (js = [])"
| "sib_ok es (Some i) [] = False"
| "sib_ok es (Some i) (j # js) = (j = i \<and> i < length es \<and> sib_ok es (kb_nextSibling (es ! i)) js)"

lemma sib_edges: "sib_ok es st js \<Longrightarrow> length js \<le> fuel \<Longrightarrow> sibling_edges fuel es st = map ((!) es) js"
proof (induction es st js arbitrary: fuel rule: sib_ok.induct)
  case (1 es js)
  then show ?case by simp
next
  case (2 es i)
  then show ?case by simp
next
  case (3 es i j js)
  then show ?case by (cases fuel) auto
qed

lemma sib_append: "sib_ok es st js \<Longrightarrow> sib_ok (es @ [e]) st js"
  by (induction es st js rule: sib_ok.induct) (auto simp: nth_append)

definition children :: "nat list \<Rightarrow> nat \<Rightarrow> nat list" where
  "children P s = rev (filter (\<lambda>j. P ! j = s) [0..<length P])"

definition trie_ok ::
  "contentModerationKeywordNode list \<Rightarrow> contentModerationKeywordBuildEdge list \<Rightarrow> string list \<Rightarrow> nat list \<Rightarrow> bool" where
  "trie_ok nodes es W P \<longleftrightarrow>
     length nodes = length W \<and> length es = length P \<and> length W = Suc (length P) \<and> W ! 0 = [] \<and> distinct W \<and>
     (\<forall>j < length P. P ! j \<le> j \<and> kb_target (es ! j) = Suc j \<and> W ! Suc j = W ! (P ! j) @ [kb_label (es ! j)]) \<and>
     (\<forall>s < length W. sib_ok es (contentModerationKeywordBuildFirstEdge (nodes ! s)) (children P s))"

lemma trie_okD:
  assumes "trie_ok nodes es W P"
  shows "length nodes = length W" and "length es = length P" and "length W = Suc (length P)" and "W ! 0 = []"
    and "distinct W" and "j < length P \<Longrightarrow> P ! j \<le> j" and "j < length P \<Longrightarrow> kb_target (es ! j) = Suc j"
    and "j < length P \<Longrightarrow> W ! Suc j = W ! (P ! j) @ [kb_label (es ! j)]"
    and "s < length W \<Longrightarrow> sib_ok es (contentModerationKeywordBuildFirstEdge (nodes ! s)) (children P s)"
  using assms unfolding trie_ok_def by blast+

lemma children_mem [simp]: "set (children P s) = {j. j < length P \<and> P ! j = s}"
  by (auto simp: children_def)

lemma children_distinct [simp]: "distinct (children P s)"
  by (simp add: children_def)

lemma build_edges_children:
  assumes t: "trie_ok nodes es W P" and "s < length W"
  shows "build_edges nodes es s = map ((!) es) (children P s)"
proof -
  have "length (children P s) \<le> length es"
    using length_filter_le [of "\<lambda>j. P ! j = s" "[0..<length P]"] trie_okD(2) [OF t] by (simp add: children_def)
  with sib_edges [OF trie_okD(9) [OF assms]] show ?thesis by (simp add: build_edges_def)
qed

lemma word_eq: "trie_ok nodes es W P \<Longrightarrow> i < length W \<Longrightarrow> j < length W \<Longrightarrow> W ! i = W ! j \<longleftrightarrow> i = j"
  using trie_okD(5) nth_eq_iff_index_eq by metis

lemma trie_closed:
  assumes t: "trie_ok nodes es W P"
  shows "closed_words (set W)"
  unfolding closed_words_def
proof (intro conjI allI impI)
  show "[] \<in> set W" using trie_okD(3,4) [OF t] by (metis nth_mem zero_less_Suc)
  fix u c assume "u @ [c] \<in> set W"
  then obtain i where i: "i < length W" "W ! i = u @ [c]" by (auto simp: in_set_conv_nth)
  then obtain j where j: "i = Suc j" using trie_okD(4) [OF t] by (cases i) auto
  then have "j < length P" using i(1) trie_okD(3) [OF t] by simp
  with trie_okD(6,8) [OF t this] i j trie_okD(3) [OF t] show "u \<in> set W"
    by (metis append1_eq_conv le_imp_less_Suc less_SucI nth_mem order_le_less_trans)
qed

lemma transition_word:
  assumes t: "trie_ok nodes es W P" and s: "s < length W"
  shows "contentModerationKeywordBuildTransition nodes es s c = Some x \<longleftrightarrow> x < length W \<and> W ! x = W ! s @ [c]"
    (is "?tr = Some x \<longleftrightarrow> ?r")
proof -
  let ?find = "find (\<lambda>e. kb_label e = c) (map ((!) es) (children P s))"
  have tr: "?tr = map_option kb_target ?find"
    using s trie_okD(1) [OF t] by (simp add: contentModerationKeywordBuildTransition_def build_edges_children [OF t s])
  have found: "\<exists>j. j < length P \<and> P ! j = s \<and> e = es ! j \<and> kb_label e = c" if "?find = Some e" for e
  proof -
    from that obtain i where i: "i < length (children P s)" "e = es ! (children P s ! i)" "kb_label e = c"
      by (auto simp: find_Some_iff)
    from nth_mem [OF i(1)] i(2,3) show ?thesis by auto
  qed
  have "?r" if "?tr = Some x"
  proof -
    from that tr obtain e where "?find = Some e" "x = kb_target e" by auto
    with found obtain j where "j < length P" "P ! j = s" "x = kb_target (es ! j)" "kb_label (es ! j) = c" by blast
    with trie_okD(3) [OF t] trie_okD(7,8) [OF t, of j] show ?thesis by simp
  qed
  moreover have "?tr = Some x" if x: "?r"
  proof -
    obtain j where j: "x = Suc j" using x trie_okD(4) [OF t] by (cases x) auto
    then have jl: "j < length P" using x trie_okD(3) [OF t] by simp
    have w: "W ! (P ! j) = W ! s" "kb_label (es ! j) = c" using trie_okD(8) [OF t jl] x j by auto
    have "P ! j < length W" using trie_okD(3) [OF t] trie_okD(6) [OF t jl] jl by simp
    with w(1) s have pj: "P ! j = s" using word_eq [OF t] by blast
    have "?find \<noteq> None" using jl pj w(2) by (auto simp: find_None_iff)
    then obtain e where e: "?find = Some e" by blast
    from found [OF this] obtain k where k: "k < length P" "P ! k = s" "e = es ! k" "kb_label e = c" by blast
    then have "W ! Suc k = W ! x" using trie_okD(8) [OF t k(1)] x by simp
    then have "Suc k = x" using word_eq [OF t, of "Suc k" x] k(1) x trie_okD(3) [OF t] by simp
    with e k trie_okD(7) [OF t k(1)] show ?thesis using tr by simp
  qed
  ultimately show ?thesis by blast
qed

lemma transition_none:
  assumes t: "trie_ok nodes es W P" and s: "s < length W"
  shows "contentModerationKeywordBuildTransition nodes es s c = None \<longleftrightarrow> W ! s @ [c] \<notin> set W"
  using transition_word [OF t s, of c] by (metis in_set_conv_nth not_None_eq option.distinct(1))

text \<open>Only the first edges of the nodes matter.\<close>

lemma trie_cong:
  "trie_ok nodes es W P \<Longrightarrow> map kn_edgeStart nodes' = map kn_edgeStart nodes \<Longrightarrow> trie_ok nodes' es W P"
proof -
  assume t: "trie_ok nodes es W P" and e: "map kn_edgeStart nodes' = map kn_edgeStart nodes"
  then have "length nodes' = length nodes" by (metis length_map)
  moreover from this have "contentModerationKeywordBuildFirstEdge (nodes' ! s) = contentModerationKeywordBuildFirstEdge (nodes ! s)"
    if "s < length nodes" for s
    using e that unfolding contentModerationKeywordBuildFirstEdge_def by (metis nth_map)
  ultimately show ?thesis using t by (simp add: trie_ok_def)
qed

lemma new_trie: "trie_ok [newContentModerationKeywordNode] [] [[]] []"
  by (simp add: trie_ok_def newContentModerationKeywordNode_def contentModerationKeywordBuildFirstEdge_def children_def)

text \<open>What a byte leaves alone.\<close>

definition grown ::
  "contentModerationKeywordNode list \<Rightarrow> contentModerationKeywordNode list \<Rightarrow> bool" where
  "grown nodes nodes' \<longleftrightarrow> length nodes \<le> length nodes' \<and>
     (\<forall>i < length nodes'. kn_failure (nodes' ! i) = (if i < length nodes then kn_failure (nodes ! i) else 0) \<and>
        kn_bestKeyword (nodes' ! i) = (if i < length nodes then kn_bestKeyword (nodes ! i) else None))"

lemma grown_refl: "grown nodes nodes"
  by (simp add: grown_def)

lemma grown_trans: "grown a b \<Longrightarrow> grown b c \<Longrightarrow> grown a c"
  by (fastforce simp: grown_def)

lemma children_snoc:
  "children (P @ [s]) x = (if x = s then length P # children P s else children P x)"
proof -
  have "filter (\<lambda>j. (P @ [s]) ! j = x) [0..<length P] = filter (\<lambda>j. P ! j = x) [0..<length P]"
    by (rule filter_cong) (auto simp: nth_append)
  then show ?thesis by (auto simp: children_def)
qed

lemma add_byte_trie:
  assumes t: "trie_ok nodes es W P" and s: "s < length W"
  shows "\<exists>nodes' es' s' W' P'. add_byte (nodes, es, s) c = (nodes', es', s') \<and> trie_ok nodes' es' W' P' \<and>
     prefix W W' \<and> s' < length W' \<and> W' ! s' = W ! s @ [c] \<and> grown nodes nodes'"
proof (cases "contentModerationKeywordBuildTransition nodes es s c")
  case (Some x)
  then have "x < length W \<and> W ! x = W ! s @ [c]" using transition_word [OF t s] by blast
  with Some t show ?thesis by (intro exI [of _ nodes] exI [of _ es] exI [of _ x] exI [of _ W] exI [of _ P])
    (simp add: add_byte_def grown_refl)
next
  case None
  let ?W = "W @ [W ! s @ [c]]" and ?P = "P @ [s]" and ?n = "length nodes"
  let ?nodes1 = "nodes @ [newContentModerationKeywordNode]"
  let ?e = "\<lparr>kb_target = ?n, kb_nextSibling = contentModerationKeywordBuildFirstEdge (nodes ! s), kb_label = c\<rparr>"
  let ?nodes = "?nodes1[s := (nodes ! s)\<lparr>kn_edgeStart := Suc (length es)\<rparr>]"
  have sn: "s < ?n" using s trie_okD(1) [OF t] by simp
  have step: "add_byte (nodes, es, s) c = (?nodes, es @ [?e], ?n)"
    using sn by (simp add: add_byte_def None Let_def nth_append)
  have first: "contentModerationKeywordBuildFirstEdge (?nodes ! x) =
      (if x = s then Some (length es) else if x = ?n then None else contentModerationKeywordBuildFirstEdge (nodes ! x))"
    if "x < Suc ?n" for x
    using that sn by (auto simp: nth_list_update nth_append contentModerationKeywordBuildFirstEdge_def
        newContentModerationKeywordNode_def less_Suc_eq)
  have sib: "sib_ok (es @ [?e]) (contentModerationKeywordBuildFirstEdge (?nodes ! x)) (children ?P x)" if x: "x < length ?W" for x
  proof -
    have xn: "x < Suc ?n" using x trie_okD(1) [OF t] by simp
    show ?thesis
    proof (cases "x = s")
      case True
      then show ?thesis using sib_append [OF trie_okD(9) [OF t s]] first [OF xn]
        by (simp add: children_snoc trie_okD(2) [OF t, symmetric])
    next
      case False
      show ?thesis
      proof (cases "x = ?n")
        case True
        have "P ! j \<noteq> x" if "j < length P" for j
          using trie_okD(6) [OF t that] that True trie_okD(1,3) [OF t] by simp
        then have "children P x = []" by (simp add: children_def filter_empty_conv)
        with True False first [OF xn] show ?thesis by (simp add: children_snoc)
      next
        case xnn: False
        with xn have "x < length W" using trie_okD(1) [OF t] by simp
        from sib_append [OF trie_okD(9) [OF t this]] False xnn first [OF xn] show ?thesis by (simp add: children_snoc)
      qed
    qed
  qed
  have new: "W ! s @ [c] \<notin> set W" using None transition_none [OF t s] by blast
  have edge: "?P ! j \<le> j \<and> kb_target ((es @ [?e]) ! j) = Suc j \<and> ?W ! Suc j = ?W ! (?P ! j) @ [kb_label ((es @ [?e]) ! j)]"
    if j: "j < length ?P" for j
  proof (cases "j = length P")
    case True
    then show ?thesis using s trie_okD(1,2,3) [OF t] by (simp add: nth_append)
  next
    case False
    with j have jl: "j < length P" by simp
    with trie_okD(2,3) [OF t] trie_okD(6,7,8) [OF t jl] show ?thesis by (simp add: nth_append)
  qed
  have "trie_ok ?nodes (es @ [?e]) ?W ?P"
    unfolding trie_ok_def using sib edge new trie_okD(1-5) [OF t] by (simp add: nth_append)
  moreover have "grown nodes ?nodes"
    using sn by (auto simp: grown_def nth_list_update nth_append newContentModerationKeywordNode_def)
  ultimately show ?thesis using step trie_okD(1) [OF t]
    by (intro exI [of _ ?nodes] exI [of _ "es @ [?e]"] exI [of _ ?n] exI [of _ ?W] exI [of _ ?P]) simp
qed

lemma add_bytes_trie:
  assumes "trie_ok nodes es W P" and "s < length W"
  shows "\<exists>nodes' es' s' W' P'. foldl add_byte (nodes, es, s) cs = (nodes', es', s') \<and> trie_ok nodes' es' W' P' \<and>
     prefix W W' \<and> s' < length W' \<and> W' ! s' = W ! s @ cs \<and> grown nodes nodes'"
  using assms
proof (induction cs arbitrary: nodes es s W P)
  case Nil
  then show ?case by (auto intro: grown_refl)
next
  case (Cons c cs)
  from add_byte_trie [OF Cons.prems, of c] obtain nodes1 es1 s1 W1 P1 where
    1: "add_byte (nodes, es, s) c = (nodes1, es1, s1)" "trie_ok nodes1 es1 W1 P1" "prefix W W1" "s1 < length W1"
      "W1 ! s1 = W ! s @ [c]" "grown nodes nodes1" by blast
  from Cons.IH [OF 1(2,4)] obtain nodes2 es2 s2 W2 P2 where
    2: "foldl add_byte (nodes1, es1, s1) cs = (nodes2, es2, s2)" "trie_ok nodes2 es2 W2 P2" "prefix W1 W2" "s2 < length W2"
      "W2 ! s2 = W1 ! s1 @ cs" "grown nodes1 nodes2" by blast
  have "prefix W W2" "grown nodes nodes2" using 1 2 by (auto intro: prefix_order.trans grown_trans)
  with 1 2 show ?case
    by (intro exI [of _ nodes2] exI [of _ es2] exI [of _ s2] exI [of _ W2] exI [of _ P2]) simp
qed

text \<open>A keyword that is the word of a node, among the first n.\<close>

definition own :: "(string \<Rightarrow> string) \<Rightarrow> string list \<Rightarrow> nat \<Rightarrow> string \<Rightarrow> nat option" where
  "own lower kws n u = first_index n (\<lambda>k. kws ! k \<noteq> [] \<and> lower (kws ! k) = u)"

definition trie_for ::
  "(string \<Rightarrow> string) \<Rightarrow> string list \<Rightarrow> nat \<Rightarrow> contentModerationKeywordNode list \<Rightarrow> contentModerationKeywordBuildEdge list \<Rightarrow>
   string list \<Rightarrow> nat list \<Rightarrow> bool" where
  "trie_for lower kws n nodes es W P \<longleftrightarrow> trie_ok nodes es W P \<and>
     (\<forall>i < length W. kn_failure (nodes ! i) = 0 \<and> kn_bestKeyword (nodes ! i) = own lower kws n (W ! i)) \<and>
     (\<forall>k < n. kws ! k \<noteq> [] \<longrightarrow> lower (kws ! k) \<in> set W)"

lemma own_Suc:
  "own lower kws (Suc n) u = (case own lower kws n u of Some i \<Rightarrow> Some i
     | None \<Rightarrow> if kws ! n \<noteq> [] \<and> lower (kws ! n) = u then Some n else None)"
  by (simp add: own_def first_index_Suc split: option.split)

lemma own_lt: "own lower kws n u = Some i \<Longrightarrow> i < n"
  using first_index_lt by (simp add: own_def)

lemma prefix_nth: "prefix xs ys \<Longrightarrow> i < length xs \<Longrightarrow> ys ! i = xs ! i"
  by (auto simp: prefix_def nth_append)

lemma add_keyword_trie:
  assumes tf: "trie_for lower kws n nodes es W P"
  shows "\<exists>nodes' es' W' P'. add_keyword lower (nodes, es) (n, kws ! n) = (nodes', es') \<and>
     trie_for lower kws (Suc n) nodes' es' W' P'"
proof (cases "kws ! n = []")
  case True
  with tf show ?thesis
    by (intro exI [of _ nodes] exI [of _ es] exI [of _ W] exI [of _ P])
      (auto simp: add_keyword_def trie_for_def own_Suc less_Suc_eq split: option.split)
next
  case False
  let ?u = "lower (kws ! n)"
  have t: "trie_ok nodes es W P" using tf by (simp add: trie_for_def)
  then have "0 < length W" using trie_okD(3) by simp
  from add_bytes_trie [OF t this, of ?u] obtain nodes1 es1 s W1 P1 where
    1: "foldl add_byte (nodes, es, 0) ?u = (nodes1, es1, s)" "trie_ok nodes1 es1 W1 P1" "prefix W W1" "s < length W1"
      "W1 ! s = ?u" "grown nodes nodes1" using trie_okD(4) [OF t] by auto
  have len: "length nodes = length W" "length nodes1 = length W1" using trie_okD(1) t 1(2) by simp_all
  have in_old: "lower (kws ! k) \<in> set W" if "k < n" "kws ! k \<noteq> []" for k using tf that by (simp add: trie_for_def)
  have sub: "set W \<subseteq> set W1" using 1(3) by (auto simp: prefix_def)
  have best1: "kn_failure (nodes1 ! i) = 0 \<and> kn_bestKeyword (nodes1 ! i) = own lower kws n (W1 ! i)" if i: "i < length W1" for i
  proof (cases "i < length W")
    case True
    with i len 1(6) tf show ?thesis using prefix_nth [OF 1(3) True] by (simp add: grown_def trie_for_def)
  next
    case False
    have "W1 ! i \<notin> set W"
    proof
      assume "W1 ! i \<in> set W"
      then obtain j where j: "j < length W" "W ! j = W1 ! i" by (auto simp: in_set_conv_nth)
      then have "W1 ! j = W1 ! i" using prefix_nth [OF 1(3)] by simp
      with j(1) False i show False using word_eq [OF 1(2), of j i] by simp
    qed
    with in_old have "own lower kws n (W1 ! i) = None" unfolding own_def first_index_none by metis
    with i False len 1(6) show ?thesis by (simp add: grown_def)
  qed
  let ?nodes = "if kn_bestKeyword (nodes1 ! s) = None then nodes1[s := (nodes1 ! s)\<lparr>kn_bestKeyword := Some n\<rparr>] else nodes1"
  have not_less: "\<not> n < m" if "kn_bestKeyword (nodes1 ! s) = Some m" for m
    using best1 [OF 1(4)] that own_lt by fastforce
  have step: "add_keyword lower (nodes, es) (n, kws ! n) = (?nodes, es1)"
    using False 1(1) not_less by (auto simp: add_keyword_def split: option.split)
  have t1: "trie_ok ?nodes es1 W1 P1"
    by (rule trie_cong [OF 1(2)]) (use 1(4) len(2) in \<open>simp add: map_update list_update_same_conv\<close>)
  have "kn_failure (?nodes ! i) = 0 \<and> kn_bestKeyword (?nodes ! i) = own lower kws (Suc n) (W1 ! i)" if i: "i < length W1" for i
  proof (cases "i = s")
    case True
    then show ?thesis using best1 [OF i] 1(4,5) len False by (auto simp: own_Suc split: option.split)
  next
    case ne: False
    then have "W1 ! i \<noteq> ?u" using word_eq [OF 1(2) i 1(4)] 1(5) by simp
    with ne best1 [OF i] show ?thesis by (auto simp: own_Suc split: option.split)
  qed
  moreover have "lower (kws ! k) \<in> set W1" if "k < Suc n" "kws ! k \<noteq> []" for k
    using that in_old [of k] sub nth_mem [OF 1(4)] 1(5) by (cases "k = n") (auto simp: less_Suc_eq)
  ultimately have "trie_for lower kws (Suc n) ?nodes es1 W1 P1" using t1 by (simp add: trie_for_def)
  with step show ?thesis by blast
qed

lemma build_trie_correct:
  "\<exists>nodes es W P. build_trie lower kws = (nodes, es) \<and> trie_for lower kws (length kws) nodes es W P"
proof -
  have "\<exists>nodes es W P. foldl (add_keyword lower) ([newContentModerationKeywordNode], []) (enumerate 0 (take n kws)) =
      (nodes, es) \<and> trie_for lower kws n nodes es W P" if "n \<le> length kws" for n
    using that
  proof (induction n)
    case 0
    have "trie_for lower kws 0 [newContentModerationKeywordNode] [] [[]] []"
      using new_trie by (simp add: trie_for_def own_def newContentModerationKeywordNode_def)
    then show ?case by auto
  next
    case (Suc n)
    then obtain nodes es W P where
      1: "foldl (add_keyword lower) ([newContentModerationKeywordNode], []) (enumerate 0 (take n kws)) = (nodes, es)"
      "trie_for lower kws n nodes es W P" by auto
    have "enumerate 0 (take (Suc n) kws) = enumerate 0 (take n kws) @ [(n, kws ! n)]"
      using Suc.prems by (simp add: take_Suc_conv_app_nth enumerate_append_eq)
    with 1 add_keyword_trie [OF 1(2)] show ?case by auto
  qed
  from this [of "length kws"] show ?thesis by (simp add: build_trie_def)
qed

section \<open>Failure links\<close>

definition hit :: "(string \<Rightarrow> string) \<Rightarrow> string list \<Rightarrow> string \<Rightarrow> nat option" where
  "hit lower kws u = first_index (length kws) (\<lambda>k. kws ! k \<noteq> [] \<and> suffix (lower (kws ! k)) u)"

definition keeps_keywords :: "(string \<Rightarrow> string) \<Rightarrow> string list \<Rightarrow> bool" where
  "keeps_keywords lower kws \<longleftrightarrow> (\<forall>k \<in> set kws. k \<noteq> [] \<longrightarrow> lower k \<noteq> [])"

definition linked ::
  "(string \<Rightarrow> string) \<Rightarrow> string list \<Rightarrow> string list \<Rightarrow> contentModerationKeywordNode list \<Rightarrow> nat \<Rightarrow> bool" where
  "linked lower kws W nodes i \<longleftrightarrow> kn_failure (nodes ! i) < length W \<and>
     W ! kn_failure (nodes ! i) = lsuf (set W) (tl (W ! i)) \<and> kn_bestKeyword (nodes ! i) = hit lower kws (W ! i)"

definition raw ::
  "(string \<Rightarrow> string) \<Rightarrow> string list \<Rightarrow> string list \<Rightarrow> contentModerationKeywordNode list \<Rightarrow> nat \<Rightarrow> bool" where
  "raw lower kws W nodes i \<longleftrightarrow> kn_failure (nodes ! i) = 0 \<and>
     kn_bestKeyword (nodes ! i) = own lower kws (length kws) (W ! i)"

definition has_keywords :: "(string \<Rightarrow> string) \<Rightarrow> string list \<Rightarrow> string list \<Rightarrow> bool" where
  "has_keywords lower kws W \<longleftrightarrow> (\<forall>k < length kws. kws ! k \<noteq> [] \<longrightarrow> lower (kws ! k) \<in> set W)"

lemma hit_nil: "keeps_keywords lower kws \<Longrightarrow> hit lower kws [] = None"
  by (auto simp: hit_def first_index_none keeps_keywords_def)

lemma hit_min:
  assumes "has_keywords lower kws W" and "u \<noteq> []"
  shows "minKeywordIndex (own lower kws (length kws) u) (hit lower kws (lsuf (set W) (tl u))) = hit lower kws u"
proof -
  have "suffix v u \<longleftrightarrow> v = u \<or> suffix v (lsuf (set W) (tl u))" if "v \<in> set W" for v
    using assms(2) suffix_lsuf [of v "tl u", OF _ that] lsuf_suffix [of "set W" "tl u"]
    by (cases u) (auto simp: suffix_Cons dest: suffix_order.trans)
  then show ?thesis using assms(1)
    by (auto simp: own_def hit_def first_index_min has_keywords_def intro!: first_index_cong)
qed

lemma word_length:
  assumes t: "trie_ok nodes es W P"
  shows "i < length W \<Longrightarrow> length (W ! i) \<le> i"
proof (induction i rule: less_induct)
  case (less i)
  show ?case
  proof (cases i)
    case 0
    then show ?thesis using trie_okD(4) [OF t] by simp
  next
    case (Suc j)
    then have j: "j < length P" using less.prems trie_okD(3) [OF t] by simp
    then have "length (W ! (P ! j)) \<le> P ! j"
      using less.IH [of "P ! j"] trie_okD(6) [OF t j] Suc less.prems by simp
    with trie_okD(6,8) [OF t j] Suc show ?thesis by simp
  qed
qed

lemma root_word: "trie_ok nodes es W P \<Longrightarrow> i < length W \<Longrightarrow> W ! i = [] \<longleftrightarrow> i = 0"
  using word_eq [of nodes es W P i 0] trie_okD(3,4) [of nodes es W P] by (metis zero_less_Suc)

lemma fallback_word:
  assumes t: "trie_ok nodes es W P"
    and ok: "\<And>i. i < length W \<Longrightarrow> length (W ! i) \<le> d \<Longrightarrow> linked lower kws W nodes i"
  shows "f < length W \<Longrightarrow> length (W ! f) \<le> d \<Longrightarrow> length (W ! f) \<le> fuel \<Longrightarrow>
     (case fallback fuel nodes es f c of
        Some x \<Rightarrow> x < length W \<and> W ! x = lsuf (set W) (W ! f @ [c]) \<and> W ! x \<noteq> []
      | None \<Rightarrow> lsuf (set W) (W ! f @ [c]) = [])"
proof (induction fuel arbitrary: f)
  case 0
  then have f: "f = 0" "W ! f = []" using root_word [OF t] by auto
  show ?case
  proof (cases "contentModerationKeywordBuildTransition nodes es f c")
    case None
    then show ?thesis using transition_none [OF t 0(1), of c] f by (simp add: fallback.simps)
  next
    case (Some x)
    then show ?thesis using transition_word [OF t 0(1), of c x] lsuf_self nth_mem [of x W] by (auto simp: fallback.simps [of 0])
  qed
next
  case (Suc fuel)
  show ?case
  proof (cases "contentModerationKeywordBuildTransition nodes es f c")
    case None
    then have no: "W ! f @ [c] \<notin> set W" using transition_none [OF t Suc.prems(1)] by simp
    show ?thesis
    proof (cases "f = 0")
      case True
      then have "W ! f = []" using trie_okD(4) [OF t] by simp
      with no None True show ?thesis by (simp add: fallback.simps)
    next
      case False
      then have u: "W ! f \<noteq> []" using root_word [OF t Suc.prems(1)] by simp
      let ?g = "kn_failure (nodes ! f)"
      have g: "?g < length W" "W ! ?g = lsuf (set W) (tl (W ! f))"
        using ok [OF Suc.prems(1,2)] by (simp_all add: linked_def)
      then have shorter: "length (W ! ?g) < length (W ! f)" using lsuf_tl_shorter [OF u] by simp
      have "lsuf (set W) (W ! f @ [c]) = lsuf (set W) (W ! ?g @ [c])"
        using lsuf_retry [OF trie_closed [OF t] u no] g(2) by simp
      with Suc.IH [OF g(1)] shorter Suc.prems False None show ?thesis
        by (auto simp: fallback.simps [of "Suc fuel"] split: option.splits)
    qed
  next
    case (Some x)
    then show ?thesis
      using transition_word [OF t Suc.prems(1), of c x] lsuf_self nth_mem [of x W] by (auto simp: fallback.simps [of "Suc fuel"])
  qed
qed

lemma link_child_works:
  assumes t: "trie_ok nodes es W P" and kw: "has_keywords lower kws W" and keep: "keeps_keywords lower kws"
    and ok: "\<And>i. i < length W \<Longrightarrow> length (W ! i) \<le> length (W ! s) \<Longrightarrow> linked lower kws W nodes i"
    and s: "s < length W" "s \<noteq> 0" and j: "j < length P" "P ! j = s" and r: "raw lower kws W nodes (Suc j)"
  shows "linked lower kws W (link_child es s nodes (es ! j)) (Suc j)"
    and "i \<noteq> Suc j \<Longrightarrow> link_child es s nodes (es ! j) ! i = nodes ! i"
    and "map kn_edgeStart (link_child es s nodes (es ! j)) = map kn_edgeStart nodes"
proof -
  let ?t = "Suc j" and ?c = "kb_label (es ! j)" and ?f = "kn_failure (nodes ! s)"
  have tl: "?t < length nodes" "?t < length W" "length nodes = length W" using j(1) trie_okD(1,3) [OF t] by simp_all
  have target: "kb_target (es ! j) = ?t" by (rule trie_okD(7) [OF t j(1)])
  have u: "W ! ?t = W ! s @ [?c]" using trie_okD(8) [OF t j(1)] j(2) by simp
  have ws: "W ! s \<noteq> []" using root_word [OF t s(1)] s(2) by simp
  have f: "?f < length W" "W ! ?f = lsuf (set W) (tl (W ! s))" using ok [OF s(1)] by (simp_all add: linked_def)
  have fl: "length (W ! ?f) \<le> length (W ! s)" using less_imp_le [OF lsuf_tl_shorter [OF ws]] f(2) by metis
  have word: "lsuf (set W) (W ! ?f @ [?c]) = lsuf (set W) (tl (W ! ?t))"
    using lsuf_append [OF trie_closed [OF t], of "tl (W ! s)" ?c] f(2) u ws by simp
  note fb = fallback_word [OF t ok f(1) fl, of "length nodes" ?c]
  have fuel: "length (W ! ?f) \<le> length nodes" using word_length [OF t f(1)] f(1) tl(3) by simp
  define g where "g = (case fallback (length nodes) nodes es ?f ?c of None \<Rightarrow> 0 | Some x \<Rightarrow> x)"
  have g: "g < length W" "W ! g = lsuf (set W) (tl (W ! ?t))"
    using fb fuel word trie_okD(3,4) [OF t] by (auto simp: g_def split: option.splits)
  have gl: "length (W ! g) \<le> length (W ! s)"
    using lsuf_length [of "set W" "tl (W ! ?t)"] g(2) u ws by (cases "W ! s") simp_all
  have gt: "g \<noteq> ?t" using gl u by auto
  have step: "link_child es s nodes (es ! j) =
      nodes[?t := (nodes ! ?t)\<lparr>kn_failure := g, kn_bestKeyword :=
        minKeywordIndex (kn_bestKeyword (nodes ! ?t)) (kn_bestKeyword (nodes ! g))\<rparr>]"
    using tl r gt by (auto simp: link_child_def target g_def raw_def Let_def split: option.split
        intro!: arg_cong2 [where f = "list_update nodes"])
  have "kn_bestKeyword (nodes ! g) = hit lower kws (W ! g)" using ok [OF g(1) gl] by (simp add: linked_def)
  then have "minKeywordIndex (kn_bestKeyword (nodes ! ?t)) (kn_bestKeyword (nodes ! g)) = hit lower kws (W ! ?t)"
    using hit_min [OF kw, of "W ! ?t"] r u g(2) by (simp add: raw_def)
  then show "linked lower kws W (link_child es s nodes (es ! j)) ?t" using g tl by (simp add: linked_def step)
  show "i \<noteq> ?t \<Longrightarrow> link_child es s nodes (es ! j) ! i = nodes ! i" by (simp add: step)
  show "map kn_edgeStart (link_child es s nodes (es ! j)) = map kn_edgeStart nodes"
    using tl(1) by (simp add: step map_update list_update_same_conv)
qed

lemma link_children_works:
  assumes "trie_ok nodes es W P" and kw: "has_keywords lower kws W" and keep: "keeps_keywords lower kws"
    and "\<And>i. i < length W \<Longrightarrow> length (W ! i) \<le> length (W ! s) \<Longrightarrow> linked lower kws W nodes i"
    and s: "s < length W" "s \<noteq> 0" and "distinct js" and "\<And>j. j \<in> set js \<Longrightarrow> j < length P \<and> P ! j = s \<and> raw lower kws W nodes (Suc j)"
  shows "let nodes' = foldl (link_child es s) nodes (map ((!) es) js) in
     trie_ok nodes' es W P \<and> (\<forall>j \<in> set js. linked lower kws W nodes' (Suc j)) \<and>
     (\<forall>i. i \<notin> Suc ` set js \<longrightarrow> nodes' ! i = nodes ! i)"
  using assms(1,4,7,8)
proof (induction js arbitrary: nodes)
  case Nil
  then show ?case by simp
next
  case (Cons j js)
  let ?n = "link_child es s nodes (es ! j)"
  have j: "j < length P" "P ! j = s" "raw lower kws W nodes (Suc j)" using Cons.prems(4) [of j] by simp_all
  note w = link_child_works [OF Cons.prems(1) kw keep Cons.prems(2) s j]
  have t: "trie_ok ?n es W P" by (rule trie_cong [OF Cons.prems(1) w(3)])
  have long: "length (W ! s) < length (W ! Suc j)" using trie_okD(8) [OF Cons.prems(1) j(1)] j(2) by simp
  have lk: "linked lower kws W ?n i" if "i < length W" "length (W ! i) \<le> length (W ! s)" for i
  proof -
    have "i \<noteq> Suc j" using that(2) long by auto
    with Cons.prems(2) [OF that] w(2) show ?thesis by (simp add: linked_def)
  qed
  have rw: "i < length P \<and> P ! i = s \<and> raw lower kws W ?n (Suc i)" if "i \<in> set js" for i
  proof -
    have "Suc i \<noteq> Suc j" using Cons.prems(3) that by auto
    with Cons.prems(4) [of i] that w(2) show ?thesis by (simp add: raw_def)
  qed
  have "distinct js" using Cons.prems(3) by simp
  note ih = Cons.IH [OF t lk this rw, unfolded Let_def]
  have "linked lower kws W (foldl (link_child es s) ?n (map ((!) es) js)) (Suc j)"
    using ih w(1) Cons.prems(3) by (auto simp: linked_def)
  with ih w(2) show ?case by (auto simp: Let_def)
qed

text \<open>The queue: d are the nodes already taken from it, q those still in it.\<close>

definition queue_ok ::
  "(string \<Rightarrow> string) \<Rightarrow> string list \<Rightarrow> contentModerationKeywordBuildEdge list \<Rightarrow> string list \<Rightarrow> nat list \<Rightarrow>
   nat list \<Rightarrow> nat list \<Rightarrow> contentModerationKeywordNode list \<Rightarrow> bool" where
  "queue_ok lower kws es W P d q nodes \<longleftrightarrow> trie_ok nodes es W P \<and> distinct (d @ q) \<and>
     (\<forall>x. x \<in> set (d @ q) \<longleftrightarrow> (\<exists>j < length P. x = Suc j \<and> (P ! j = 0 \<or> P ! j \<in> set d))) \<and>
     sorted (map (\<lambda>i. length (W ! i)) (d @ q)) \<and>
     (\<forall>x \<in> set q. length (W ! x) \<le> Suc (length (W ! hd q))) \<and>
     (\<forall>i < length W. if i = 0 \<or> i \<in> set (d @ q) then linked lower kws W nodes i else raw lower kws W nodes i)"

lemma queue_okD:
  assumes "queue_ok lower kws es W P d q nodes"
  shows "trie_ok nodes es W P" and "distinct (d @ q)"
    and "x \<in> set (d @ q) \<longleftrightarrow> (\<exists>j < length P. x = Suc j \<and> (P ! j = 0 \<or> P ! j \<in> set d))"
    and "sorted (map (\<lambda>i. length (W ! i)) (d @ q))"
    and "x \<in> set q \<Longrightarrow> length (W ! x) \<le> Suc (length (W ! hd q))"
    and "i < length W \<Longrightarrow> i = 0 \<or> i \<in> set (d @ q) \<Longrightarrow> linked lower kws W nodes i"
    and "i < length W \<Longrightarrow> i \<noteq> 0 \<Longrightarrow> i \<notin> set (d @ q) \<Longrightarrow> raw lower kws W nodes i"
  using assms unfolding queue_ok_def by (blast, blast, blast, blast, blast, metis, metis)

text \<open>Whatever is not longer than the node at the front has been seen.\<close>

lemma queue_settled:
  assumes q: "queue_ok lower kws es W P d (s # q) nodes"
  shows "i < length W \<Longrightarrow> length (W ! i) \<le> length (W ! s) \<Longrightarrow> i = 0 \<or> i \<in> set (d @ s # q)"
proof (induction i rule: less_induct)
  case (less i)
  note t = queue_okD(1) [OF q]
  show ?case
  proof (cases i)
    case 0
    then show ?thesis by simp
  next
    case (Suc j)
    then have j: "j < length P" using less.prems(1) trie_okD(3) [OF t] by simp
    have p: "P ! j < i" "P ! j < length W" using trie_okD(6) [OF t j] Suc less.prems(1) by simp_all
    have len: "length (W ! (P ! j)) < length (W ! s)" using trie_okD(8) [OF t j] Suc less.prems(2) by simp
    have "\<forall>x \<in> set (s # q). length (W ! s) \<le> length (W ! x)"
      using queue_okD(4) [OF q] by (auto simp: sorted_append)
    with len have "P ! j \<notin> set (s # q)" by (metis leD)
    with less.IH [OF p] len have "P ! j = 0 \<or> P ! j \<in> set d" by auto
    with j Suc show ?thesis using queue_okD(3) [OF q, of i] by blast
  qed
qed

lemma queue_step:
  assumes q: "queue_ok lower kws es W P d (s # q) nodes" and kw: "has_keywords lower kws W" and keep: "keeps_keywords lower kws"
  shows "queue_ok lower kws es W P (d @ [s]) (q @ map kb_target (build_edges nodes es s))
     (foldl (link_child es s) nodes (build_edges nodes es s))"
proof -
  note t = queue_okD(1) [OF q] and dist = queue_okD(2) [OF q] and mem = queue_okD(3) [OF q]
  from mem [of s] obtain k where k: "k < length P" "s = Suc k" by auto
  then have s: "s < length W" "s \<noteq> 0" using trie_okD(3) [OF t] by simp_all
  have sd: "s \<notin> set d" using dist by auto
  let ?js = "children P s"
  have be: "build_edges nodes es s = map ((!) es) ?js" by (rule build_edges_children [OF t s(1)])
  have tg: "map kb_target (build_edges nodes es s) = map Suc ?js" using trie_okD(7) [OF t] by (simp add: be)
  have new: "Suc j \<notin> set (d @ s # q)" if "j \<in> set ?js" for j
    using that mem [of "Suc j"] s(2) sd by auto
  have settled: "linked lower kws W nodes i" if "i < length W" "length (W ! i) \<le> length (W ! s)" for i
    using queue_okD(6) [OF q that(1) queue_settled [OF q that]] .
  have rw: "j < length P \<and> P ! j = s \<and> raw lower kws W nodes (Suc j)" if "j \<in> set ?js" for j
    using queue_okD(7) [OF q, of "Suc j"] new [OF that] that trie_okD(3) [OF t] by simp
  note l = link_children_works [OF t kw keep settled s children_distinct rw, unfolded Let_def]
  let ?n = "foldl (link_child es s) nodes (map ((!) es) ?js)"
  have len: "length (W ! Suc j) = Suc (length (W ! s))" if "j \<in> set ?js" for j
    using trie_okD(8) [OF t] that by simp
  have up: "length (W ! x) \<le> Suc (length (W ! s))" if "x \<in> set (s # q)" for x
    using queue_okD(5) [OF q that] by simp
  have down: "length (W ! s) \<le> length (W ! x)" if "x \<in> set q" for x
    using queue_okD(4) [OF q] that by (auto simp: sorted_append)
  have below: "length (W ! x) \<le> length (W ! s)" if "x \<in> set d" for x
    using queue_okD(4) [OF q] that by (auto simp: sorted_append)
  have d2: "distinct ((d @ [s]) @ q @ map Suc ?js)"
    using dist new by (auto simp: distinct_map)
  have m2: "x \<in> set ((d @ [s]) @ q @ map Suc ?js) \<longleftrightarrow> (\<exists>j < length P. x = Suc j \<and> (P ! j = 0 \<or> P ! j \<in> set (d @ [s])))" for x
    using mem [of x] by auto
  have s2: "sorted (map (\<lambda>i. length (W ! i)) ((d @ [s]) @ q @ map Suc ?js))"
  proof -
    have "sorted (map (\<lambda>i. length (W ! i)) (map Suc ?js))"
      using len by (intro sorted_iff_nth_mono [THEN iffD2]) (simp add: len [OF nth_mem])
    moreover have "length (W ! x) \<le> Suc (length (W ! s))" if "x \<in> set (d @ s # q)" for x
      using that up [of x] below [of x] by (auto intro: le_SucI)
    moreover have "sorted (map (\<lambda>i. length (W ! i)) (d @ s # q))" by (rule queue_okD(4) [OF q])
    ultimately have "sorted (map (\<lambda>i. length (W ! i)) ((d @ s # q) @ map Suc ?js))"
      unfolding map_append sorted_append using len by auto
    then show ?thesis by simp
  qed
  have h2: "length (W ! x) \<le> Suc (length (W ! hd (q @ map Suc ?js)))" if x: "x \<in> set (q @ map Suc ?js)" for x
  proof (cases q)
    case Nil
    then obtain j where "x = Suc j" "j \<in> set ?js" using x by auto
    moreover obtain i where "hd (map Suc ?js) = Suc i" "i \<in> set ?js"
      using x Nil by (metis hd_map list.map_disc_iff list.set_sel(1) append_Nil empty_iff list.set(1))
    ultimately show ?thesis using Nil len by simp
  next
    case (Cons y ys)
    then have "length (W ! s) \<le> length (W ! hd (q @ map Suc ?js))" using down by simp
    moreover have "length (W ! x) \<le> Suc (length (W ! s))" using x up len by auto
    ultimately show ?thesis by simp
  qed
  have n2: "if i = 0 \<or> i \<in> set ((d @ [s]) @ q @ map Suc ?js) then linked lower kws W ?n i else raw lower kws W ?n i"
    if i: "i < length W" for i
  proof (cases "i \<in> Suc ` set ?js")
    case True
    with l show ?thesis by auto
  next
    case False
    then have "?n ! i = nodes ! i" using l by blast
    with False queue_okD(6,7) [OF q i] show ?thesis by (auto simp: linked_def raw_def)
  qed
  show ?thesis
    unfolding be tg queue_ok_def using l d2 m2 s2 h2 n2 by (simp only: tg [unfolded be]) blast
qed

lemma queue_all:
  assumes q: "queue_ok lower kws es W P d [] nodes"
  shows "i < length W \<Longrightarrow> i = 0 \<or> i \<in> set d"
proof (induction i rule: less_induct)
  case (less i)
  note t = queue_okD(1) [OF q]
  show ?case
  proof (cases i)
    case 0
    then show ?thesis by simp
  next
    case (Suc j)
    then have j: "j < length P" using less.prems(1) trie_okD(3) [OF t] by simp
    have "P ! j < i" "P ! j < length W" using trie_okD(6) [OF t j] Suc less.prems(1) by simp_all
    from less.IH [OF this] j Suc queue_okD(3) [OF q, of i] show ?thesis by auto
  qed
qed

lemma link_queue_works:
  assumes kw: "has_keywords lower kws W" and keep: "keeps_keywords lower kws"
  shows "queue_ok lower kws es W P d q nodes \<Longrightarrow> length W \<le> fuel + length d \<Longrightarrow>
     (\<forall>i < length W. linked lower kws W (link_queue fuel es nodes q) i) \<and> trie_ok (link_queue fuel es nodes q) es W P"
proof (induction fuel arbitrary: d q nodes)
  case 0
  note t = queue_okD(1) [OF 0(1)]
  have "set d \<subseteq> {1..<length W}"
  proof
    fix x assume "x \<in> set d"
    then show "x \<in> {1..<length W}" using queue_okD(3) [OF 0(1), of x] trie_okD(3) [OF t] by auto
  qed
  then have "length d \<le> length W - 1"
    using queue_okD(2) [OF 0(1)] card_mono [of "{1..<length W}" "set d"] by (simp add: distinct_card)
  then show ?case using 0(2) trie_okD(3) [OF t] by simp
next
  case (Suc fuel)
  show ?case
  proof (cases q)
    case Nil
    with queue_all queue_okD(1,6) Suc.prems(1) show ?thesis by (metis append_Nil2 link_queue.simps(3))
  next
    case (Cons s rest)
    from Suc.IH [OF queue_step [OF Suc.prems(1) [unfolded Cons] kw keep]] Suc.prems(2)
    show ?thesis by (simp add: Cons)
  qed
qed

lemma queue_start:
  assumes tf: "trie_for lower kws (length kws) nodes es W P" and keep: "keeps_keywords lower kws"
  shows "queue_ok lower kws es W P [] (map kb_target (build_edges nodes es 0)) nodes"
proof -
  have t: "trie_ok nodes es W P" and kw: "has_keywords lower kws W" using tf by (auto simp: trie_for_def has_keywords_def)
  have n0: "0 < length W" using trie_okD(3) [OF t] by simp
  have tg: "map kb_target (build_edges nodes es 0) = map Suc (children P 0)"
    using trie_okD(7) [OF t] by (simp add: build_edges_children [OF t n0])
  have r: "raw lower kws W nodes i" if "i < length W" for i using tf that by (simp add: trie_for_def raw_def)
  have one: "\<exists>c. W ! Suc j = [c]" if "j \<in> set (children P 0)" for j
    using that trie_okD(4,8) [OF t] by auto
  have lk: "linked lower kws W nodes i" if i: "i < length W" "i = 0 \<or> i \<in> set (map Suc (children P 0))" for i
  proof (cases "i = 0")
    case True
    have "own lower kws (length kws) [] = None"
      using keep by (auto simp: own_def first_index_none keeps_keywords_def)
    with r [OF i(1)] True n0 trie_okD(4) [OF t] hit_nil [OF keep] show ?thesis by (simp add: raw_def linked_def)
  next
    case False
    with i(2) one obtain c where c: "W ! i = [c]" by auto
    have "hit lower kws [c] = minKeywordIndex (own lower kws (length kws) [c]) None"
      using hit_min [OF kw, of "[c]"] hit_nil [OF keep] by simp
    also have "\<dots> = own lower kws (length kws) [c]" by (cases "own lower kws (length kws) [c]") simp_all
    finally show ?thesis using r [OF i(1)] c n0 trie_okD(4) [OF t] by (simp add: raw_def linked_def)
  qed
  have hd1: "length (W ! x) \<le> Suc (length (W ! hd (map Suc (children P 0))))" if "x \<in> set (map Suc (children P 0))" for x
    using that one by fastforce
  have "length (W ! Suc j) = 1" if "j \<in> set (children P 0)" for j using one [OF that] by auto
  then have "sorted (map (\<lambda>i. length (W ! i)) (map Suc (children P 0)))"
    by (simp add: sorted_iff_nth_mono del: children_mem)
  then show ?thesis
    unfolding tg queue_ok_def using t lk r hd1 by (auto simp: distinct_map)
qed

section \<open>The packed edges\<close>

lemma shift_in_set: "set (shift_in e xs) = insert e (set xs)"
  by (induction e xs rule: shift_in.induct) auto

lemma shift_in_sorted:
  "sorted_wrt (\<lambda>a b. ke_label b < ke_label a) xs \<Longrightarrow> ke_label e \<notin> ke_label ` set xs \<Longrightarrow>
     sorted_wrt (\<lambda>a b. ke_label b < ke_label a) (shift_in e xs)"
proof (induction e xs rule: shift_in.induct)
  case (1 e)
  then show ?case by simp
next
  case (2 e x xs)
  then show ?case by (auto simp: shift_in_set not_less le_less)
qed

lemma sort_edges:
  assumes "distinct (map kb_label bs)"
  shows "set (foldl (\<lambda>sorted e. shift_in \<lparr>ke_target = kb_target e, ke_label = kb_label e\<rparr> sorted) [] bs) =
      (\<lambda>e. \<lparr>ke_target = kb_target e, ke_label = kb_label e\<rparr>) ` set bs \<and>
    sorted_wrt (\<lambda>a b. ke_label b < ke_label a)
      (foldl (\<lambda>sorted e. shift_in \<lparr>ke_target = kb_target e, ke_label = kb_label e\<rparr> sorted) [] bs)"
  using assms
proof (induction bs rule: rev_induct)
  case Nil
  then show ?case by simp
next
  case (snoc e bs)
  then show ?case by (auto simp: shift_in_set intro!: shift_in_sorted)
qed

lemma sorted_rev_labels:
  "sorted_wrt (\<lambda>a b. ke_label b < ke_label a) xs \<Longrightarrow> sorted_wrt (\<lambda>a b. ke_label a < ke_label b) (rev xs)"
  by (simp add: sorted_wrt_rev)

lemma outgoing_facts:
  assumes t: "trie_ok nodes es W P" and s: "s < length W"
  shows "sorted_wrt (\<lambda>a b. ke_label a < ke_label b) (outgoing_edges nodes es s)"
    and "set (outgoing_edges nodes es s) = {\<lparr>ke_target = x, ke_label = c\<rparr> | x c. x < length W \<and> W ! x = W ! s @ [c]}"
proof -
  have be: "build_edges nodes es s = map ((!) es) (children P s)" by (rule build_edges_children [OF t s])
  have "inj_on (\<lambda>j. kb_label (es ! j)) (set (children P s))"
  proof (rule inj_onI)
    fix j k assume j: "j \<in> set (children P s)" and k: "k \<in> set (children P s)" and "kb_label (es ! j) = kb_label (es ! k)"
    then have "W ! Suc j = W ! Suc k" using trie_okD(8) [OF t] by simp
    with j k show "j = k" using word_eq [OF t, of "Suc j" "Suc k"] trie_okD(3) [OF t] by simp
  qed
  then have d: "distinct (map kb_label (build_edges nodes es s))" by (simp add: be distinct_map comp_def)
  note f = sort_edges [OF d]
  show "sorted_wrt (\<lambda>a b. ke_label a < ke_label b) (outgoing_edges nodes es s)"
    unfolding outgoing_edges_def using f by (intro sorted_rev_labels) simp
  have "(\<lambda>e. \<lparr>ke_target = kb_target e, ke_label = kb_label e\<rparr>) ` set (build_edges nodes es s) =
      {\<lparr>ke_target = x, ke_label = c\<rparr> | x c. x < length W \<and> W ! x = W ! s @ [c]}" (is "?l = ?r")
  proof
    show "?l \<subseteq> ?r" using trie_okD(3,7,8) [OF t] by (auto simp: be)
    show "?r \<subseteq> ?l"
    proof
      fix e assume "e \<in> ?r"
      then obtain x c where e: "e = \<lparr>ke_target = x, ke_label = c\<rparr>" "x < length W" "W ! x = W ! s @ [c]" by blast
      then obtain j where j: "x = Suc j" using trie_okD(4) [OF t] by (cases x) auto
      then have jl: "j < length P" using e(2) trie_okD(3) [OF t] by simp
      have w: "W ! (P ! j) = W ! s" "kb_label (es ! j) = c" using trie_okD(8) [OF t jl] e(3) j by auto
      have "P ! j < length W" using trie_okD(3) [OF t] trie_okD(6) [OF t jl] jl by simp
      with w(1) s have "P ! j = s" using word_eq [OF t] by blast
      with jl w(2) j e(1) trie_okD(7) [OF t jl] show "e \<in> ?l"
        by (intro image_eqI [where x = "es ! j"]) (simp_all add: be)
    qed
  qed
  then show "set (outgoing_edges nodes es s) = ?r" using f by (simp add: outgoing_edges_def)
qed

text \<open>The slice of the packed edges that belongs to a node.\<close>

definition slice_ok ::
  "contentModerationKeywordNode list \<Rightarrow> contentModerationKeywordEdge list \<Rightarrow> nat \<Rightarrow> contentModerationKeywordEdge list \<Rightarrow> bool" where
  "slice_ok nodes edges i outgoing \<longleftrightarrow> kn_edgeCount (nodes ! i) = length outgoing \<and>
     kn_edgeStart (nodes ! i) + length outgoing \<le> length edges \<and>
     (\<forall>x < length outgoing. edges ! (kn_edgeStart (nodes ! i) + x) = outgoing ! x)"

lemma pack_nodes:
  "m \<le> length nodes \<Longrightarrow> \<exists>nodes' edges. foldl (pack_node es) (nodes, []) [0..<m] = (nodes', edges) \<and>
     length nodes' = length nodes \<and>
     (\<forall>i < length nodes. kn_failure (nodes' ! i) = kn_failure (nodes ! i) \<and>
        kn_bestKeyword (nodes' ! i) = kn_bestKeyword (nodes ! i)) \<and>
     (\<forall>i < m. slice_ok nodes' edges i (outgoing_edges nodes es i)) \<and>
     (\<forall>i < length nodes. m \<le> i \<longrightarrow> nodes' ! i = nodes ! i)"
proof (induction m)
  case 0
  then show ?case by simp
next
  case (Suc m)
  then obtain nodes1 edges where 1: "foldl (pack_node es) (nodes, []) [0..<m] = (nodes1, edges)"
    "length nodes1 = length nodes"
    "\<forall>i < length nodes. kn_failure (nodes1 ! i) = kn_failure (nodes ! i) \<and> kn_bestKeyword (nodes1 ! i) = kn_bestKeyword (nodes ! i)"
    "\<forall>i < m. slice_ok nodes1 edges i (outgoing_edges nodes es i)"
    "\<forall>i < length nodes. m \<le> i \<longrightarrow> nodes1 ! i = nodes ! i" by auto
  have m: "m < length nodes" using Suc.prems by simp
  let ?out = "outgoing_edges nodes es m"
  have out: "outgoing_edges nodes1 es m = ?out" using 1(5) m by (simp add: outgoing_edges_def build_edges_def)
  let ?nodes = "nodes1[m := (nodes1 ! m)\<lparr>kn_edgeStart := length edges, kn_edgeCount := length ?out\<rparr>]"
  have step: "foldl (pack_node es) (nodes, []) [0..<Suc m] = (?nodes, edges @ ?out)"
    by (simp add: 1(1) pack_node_def out Let_def)
  have "slice_ok ?nodes (edges @ ?out) i (outgoing_edges nodes es i)" if "i < Suc m" for i
  proof (cases "i = m")
    case True
    then show ?thesis using m 1(2) by (simp add: slice_ok_def)
  next
    case False
    with that have "i < m" by simp
    with 1(4) m show ?thesis by (auto simp: slice_ok_def nth_append)
  qed
  with step 1(2,3,5) m show ?case
    by (intro exI [of _ ?nodes] exI [of _ "edges @ ?out"]) (auto simp: nth_list_update)
qed

lemma lower_bound_correct:
  "\<lbrakk>\<And>x y. a \<le> x \<Longrightarrow> x < y \<Longrightarrow> y < b \<Longrightarrow> ke_label (edges ! x) < ke_label (edges ! y); a \<le> l; l \<le> r; r \<le> b;
    \<And>x. a \<le> x \<Longrightarrow> x < l \<Longrightarrow> ke_label (edges ! x) < c; \<And>x. r \<le> x \<Longrightarrow> x < b \<Longrightarrow> c \<le> ke_label (edges ! x)\<rbrakk> \<Longrightarrow>
   l \<le> lower_bound edges c l r \<and> lower_bound edges c l r \<le> r \<and>
     (\<forall>x. a \<le> x \<and> x < lower_bound edges c l r \<longrightarrow> ke_label (edges ! x) < c) \<and>
     (\<forall>x. lower_bound edges c l r \<le> x \<and> x < b \<longrightarrow> c \<le> ke_label (edges ! x))"
proof (induction edges c l r rule: lower_bound.induct)
  case (1 edges c l r)
  let ?m = "l + (r - l) div 2"
  show ?case
  proof (cases "l < r")
    case False
    with 1(5) have "l = r" by simp
    with 1(7,8) show ?thesis by (auto simp: lower_bound.simps)
  next
    case lr: True
    then have m: "l \<le> ?m" "?m < r" by auto
    show ?thesis
    proof (cases "ke_label (edges ! ?m) < c")
      case True
      have "ke_label (edges ! x) < c" if "a \<le> x" "x < ?m + 1" for x
      proof (cases "x = ?m")
        case False
        with that have "ke_label (edges ! x) < ke_label (edges ! ?m)" using 1(3) [of x ?m] m 1(6) by simp
        with True show ?thesis by (rule less_trans [rotated])
      qed (use True in simp)
      with 1(1) [OF lr refl True 1(3)] m 1(4,6,8)
      have "?m + 1 \<le> lower_bound edges c (?m + 1) r \<and> lower_bound edges c (?m + 1) r \<le> r \<and>
          (\<forall>x. a \<le> x \<and> x < lower_bound edges c (?m + 1) r \<longrightarrow> ke_label (edges ! x) < c) \<and>
          (\<forall>x. lower_bound edges c (?m + 1) r \<le> x \<and> x < b \<longrightarrow> c \<le> ke_label (edges ! x))" by simp
      moreover have "lower_bound edges c l r = lower_bound edges c (?m + 1) r"
        using lr True by (simp add: lower_bound.simps [of edges c l r] Let_def)
      ultimately show ?thesis using m by simp
    next
      case False
      have "c \<le> ke_label (edges ! x)" if "?m \<le> x" "x < b" for x
      proof (cases "x = ?m")
        case ne: False
        with that have "ke_label (edges ! ?m) < ke_label (edges ! x)" using 1(3) [of ?m x] m 1(4) by simp
        with False show ?thesis by simp
      qed (use False in simp)
      with 1(2) [OF lr refl False 1(3)] m 1(4,6,7)
      have "l \<le> lower_bound edges c l ?m \<and> lower_bound edges c l ?m \<le> ?m \<and>
          (\<forall>x. a \<le> x \<and> x < lower_bound edges c l ?m \<longrightarrow> ke_label (edges ! x) < c) \<and>
          (\<forall>x. lower_bound edges c l ?m \<le> x \<and> x < b \<longrightarrow> c \<le> ke_label (edges ! x))" by simp
      moreover have "lower_bound edges c l r = lower_bound edges c l ?m"
        using lr False by (simp add: lower_bound.simps [of edges c l r] Let_def)
      ultimately show ?thesis using m by simp
    qed
  qed
qed

lemma search_slice:
  assumes s: "slice_ok nodes edges i outgoing" and srt: "sorted_wrt (\<lambda>a b. ke_label a < ke_label b) outgoing"
    and l: "l = lower_bound edges c (kn_edgeStart (nodes ! i)) (kn_edgeStart (nodes ! i) + kn_edgeCount (nodes ! i))"
  shows "if l < kn_edgeStart (nodes ! i) + kn_edgeCount (nodes ! i) \<and> ke_label (edges ! l) = c
     then edges ! l \<in> set outgoing else c \<notin> ke_label ` set outgoing"
proof -
  let ?a = "kn_edgeStart (nodes ! i)" and ?n = "length outgoing"
  have cnt: "kn_edgeCount (nodes ! i) = ?n" using s by (simp add: slice_ok_def)
  have at: "edges ! x = outgoing ! (x - ?a)" if "?a \<le> x" "x < ?a + ?n" for x
  proof -
    have "edges ! (?a + (x - ?a)) = outgoing ! (x - ?a)" using s that unfolding slice_ok_def by (metis less_diff_conv2 add.commute)
    with that show ?thesis by simp
  qed
  have mono: "ke_label (edges ! x) < ke_label (edges ! y)" if "?a \<le> x" "x < y" "y < ?a + ?n" for x y
    using that at [of x] at [of y] sorted_wrt_nth_less [OF srt, of "x - ?a" "y - ?a"] by simp
  have lb: "?a \<le> l \<and> l \<le> ?a + ?n \<and> (\<forall>x. ?a \<le> x \<and> x < l \<longrightarrow> ke_label (edges ! x) < c) \<and>
      (\<forall>x. l \<le> x \<and> x < ?a + ?n \<longrightarrow> c \<le> ke_label (edges ! x))"
    using lower_bound_correct [of ?a "?a + ?n" edges ?a "?a + ?n" c] mono by (simp add: l cnt)
  show ?thesis
  proof (cases "l < ?a + ?n \<and> ke_label (edges ! l) = c")
    case True
    moreover from True lb have "l - ?a < ?n" unfolding cnt by linarith
    ultimately show ?thesis using at [of l] lb nth_mem [of "l - ?a" outgoing] by (simp add: cnt)
  next
    case False
    have "ke_label (outgoing ! x) \<noteq> c" if x: "x < ?n" for x
    proof (cases "?a + x < l")
      case True
      with lb have "ke_label (edges ! (?a + x)) < c" by simp
      with at [of "?a + x"] x show ?thesis by auto
    next
      case ge: False
      then have ll: "l < ?a + ?n" using x by simp
      then have "c < ke_label (edges ! l)" using False lb by auto
      moreover have "ke_label (edges ! l) \<le> ke_label (edges ! (?a + x))"
        using mono [of l "?a + x"] ge lb x by (cases "l = ?a + x") (auto simp: less_imp_le)
      ultimately show ?thesis using at [of "?a + x"] x by auto
    qed
    then have "c \<notin> ke_label ` set outgoing" by (metis imageE in_set_conv_nth)
    with False show ?thesis by (auto simp: cnt)
  qed
qed

section \<open>The finished matcher\<close>

definition matcher_ok :: "(string \<Rightarrow> string) \<Rightarrow> string list \<Rightarrow> string list \<Rightarrow> contentModerationKeywordMatcher \<Rightarrow> bool" where
  "matcher_ok lower kws W m \<longleftrightarrow> km_keywords m = kws \<and> length (km_nodes m) = length W \<and> 0 < length W \<and> W ! 0 = [] \<and>
     distinct W \<and> closed_words (set W) \<and> has_keywords lower kws W \<and>
     (\<forall>i < length W. linked lower kws W (km_nodes m) i \<and> length (W ! i) \<le> i) \<and>
     (\<forall>s < length W. \<forall>c. if W ! s @ [c] \<in> set W then matcher_next m s c < length W \<and> W ! matcher_next m s c = W ! s @ [c]
        else matcher_next m s c = 0)"

lemma root_transitions:
  "foldl (\<lambda>f e. f(kb_label e := kb_target e)) f es c =
     (case find (\<lambda>e. kb_label e = c) (rev es) of Some e \<Rightarrow> kb_target e | None \<Rightarrow> f c)"
  by (induction es arbitrary: f rule: rev_induct) auto

lemma root_next:
  assumes t: "trie_ok nodes es W P"
  shows "let x = foldl (\<lambda>f e. f(kb_label e := kb_target e)) (\<lambda>_. 0) (build_edges nodes es 0) c in
    if [c] \<in> set W then x < length W \<and> W ! x = [c] else x = 0"
proof -
  have n0: "0 < length W" using trie_okD(3) [OF t] by simp
  have be: "build_edges nodes es 0 = map ((!) es) (children P 0)" by (rule build_edges_children [OF t n0])
  have edge: "kb_target (es ! j) < length W \<and> W ! kb_target (es ! j) = [kb_label (es ! j)]" if "j \<in> set (children P 0)" for j
    using that trie_okD(3,4,7,8) [OF t] by simp
  show ?thesis
  proof (cases "find (\<lambda>e. kb_label e = c) (rev (build_edges nodes es 0))")
    case None
    have "[c] \<notin> set W"
    proof
      assume "[c] \<in> set W"
      then obtain x where "x < length W" "W ! x = W ! 0 @ [c]" using trie_okD(4) [OF t] by (auto simp: in_set_conv_nth)
      then have "contentModerationKeywordBuildTransition nodes es 0 c = Some x" using transition_word [OF t n0] by blast
      then have "find (\<lambda>e. kb_label e = c) (build_edges nodes es 0) \<noteq> None"
        using n0 trie_okD(1) [OF t] by (auto simp: contentModerationKeywordBuildTransition_def)
      with None show False by (auto simp: find_None_iff)
    qed
    with None show ?thesis by (simp add: root_transitions)
  next
    case (Some e)
    then have "e \<in> set (build_edges nodes es 0)" "kb_label e = c" by (auto simp: find_Some_iff) (metis nth_mem set_rev length_rev)
    then have "kb_target e < length W \<and> W ! kb_target e = [c]" using edge by (auto simp: be simp del: children_mem)
    with Some show ?thesis using nth_mem [of "kb_target e" W] by (auto simp: root_transitions)
  qed
qed

lemma new_matcher_ok:
  assumes keep: "keeps_keywords lower kws" and new: "newContentModerationKeywordMatcher lower kws = Some m"
  shows "\<exists>W. matcher_ok lower kws W m"
proof -
  from build_trie_correct obtain nodes es W P where
    b: "build_trie lower kws = (nodes, es)" "trie_for lower kws (length kws) nodes es W P" by blast
  have t: "trie_ok nodes es W P" and kw: "has_keywords lower kws W" using b(2) by (auto simp: trie_for_def has_keywords_def)
  define nodes1 where "nodes1 = link_queue (length nodes) es nodes (map kb_target (build_edges nodes es 0))"
  have l: "\<forall>i < length W. linked lower kws W nodes1 i" "trie_ok nodes1 es W P"
    using link_queue_works [OF kw keep queue_start [OF b(2) keep], of "length nodes"] trie_okD(1) [OF t]
    by (simp_all add: nodes1_def)
  have len: "length nodes1 = length W" using trie_okD(1) [OF l(2)] .
  from pack_nodes [of "length nodes1" nodes1 es] obtain nodes2 edges where
    p: "foldl (pack_node es) (nodes1, []) [0..<length nodes1] = (nodes2, edges)" "length nodes2 = length nodes1"
      "\<forall>i < length nodes1. kn_failure (nodes2 ! i) = kn_failure (nodes1 ! i) \<and> kn_bestKeyword (nodes2 ! i) = kn_bestKeyword (nodes1 ! i)"
      "\<forall>i < length nodes1. slice_ok nodes2 edges i (outgoing_edges nodes1 es i)" by auto
  have m: "m = \<lparr>km_nodes = nodes2, km_edges = edges,
      km_rootTransitions = foldl (\<lambda>f e. f(kb_label e := kb_target e)) (\<lambda>_. 0) (build_edges nodes es 0), km_keywords = kws\<rparr>"
    using new p(1) by (auto simp: newContentModerationKeywordMatcher_def b(1) Let_def nodes1_def split: if_splits)
  have nxt: "if W ! s @ [c] \<in> set W then matcher_next m s c < length W \<and> W ! matcher_next m s c = W ! s @ [c]
      else matcher_next m s c = 0" if s: "s < length W" for s c
  proof (cases "s = 0")
    case True
    then show ?thesis using root_next [OF t, of c] trie_okD(4) [OF t] by (simp add: m matcher_next_def Let_def)
  next
    case False
    let ?out = "outgoing_edges nodes1 es s"
    let ?a = "kn_edgeStart (nodes2 ! s)" and ?b = "kn_edgeStart (nodes2 ! s) + kn_edgeCount (nodes2 ! s)"
    define k where "k = lower_bound edges c ?a ?b"
    have sl: "slice_ok nodes2 edges s ?out" using p(4) s len by simp
    note found = search_slice [OF sl outgoing_facts(1) [OF l(2) s] k_def]
    note out = outgoing_facts(2) [OF l(2) s]
    have nx: "matcher_next m s c = (if k < ?b \<and> ke_label (edges ! k) = c then ke_target (edges ! k) else 0)"
      using False s len p(2) by (simp add: matcher_next_def m Let_def k_def)
    show ?thesis
    proof (cases "k < ?b \<and> ke_label (edges ! k) = c")
      case True
      with found have "edges ! k \<in> set ?out" by (metis (full_types))
      then obtain x d where x: "edges ! k = \<lparr>ke_target = x, ke_label = d\<rparr>" "x < length W" "W ! x = W ! s @ [d]"
        unfolding out by blast
      with True nx nth_mem [of x W] show ?thesis by auto
    next
      case no: False
      with found have "c \<notin> ke_label ` set ?out" by (metis (full_types))
      then have "W ! s @ [c] \<notin> set W" unfolding out by (force simp: in_set_conv_nth)
      moreover have "matcher_next m s c = 0" unfolding nx using no by (rule if_not_P)
      ultimately show ?thesis by simp
    qed
  qed
  have "\<forall>i < length W. linked lower kws W nodes2 i" using l(1) p(3) len by (simp add: linked_def)
  moreover have "0 < length W" using trie_okD(3) [OF t] by simp
  moreover have "km_nodes m = nodes2" "km_keywords m = kws" by (simp_all add: m)
  ultimately have "matcher_ok lower kws W m"
    unfolding matcher_ok_def using nxt kw p(2) len word_length [OF t] trie_okD(4,5) [OF t] trie_closed [OF t]
    by (intro conjI allI impI) simp_all
  then show ?thesis ..
qed

section \<open>Reading a text\<close>

lemma matcher_okD:
  assumes "matcher_ok lower kws W m"
  shows "km_keywords m = kws" and "length (km_nodes m) = length W" and "0 < length W" and "W ! 0 = []" and "distinct W"
    and "closed_words (set W)" and "has_keywords lower kws W" and "i < length W \<Longrightarrow> linked lower kws W (km_nodes m) i"
    and "i < length W \<Longrightarrow> length (W ! i) \<le> i"
    and "i < length W \<Longrightarrow> W ! i @ [c] \<in> set W \<Longrightarrow> matcher_next m i c < length W \<and> W ! matcher_next m i c = W ! i @ [c]"
    and "i < length W \<Longrightarrow> W ! i @ [c] \<notin> set W \<Longrightarrow> matcher_next m i c = 0"
  using assms unfolding matcher_ok_def by (blast, blast, blast, blast, blast, blast, blast, blast, blast, metis, metis)

lemma advance_word:
  assumes ok: "matcher_ok lower kws W m"
  shows "s < length W \<Longrightarrow> length (W ! s) \<le> fuel \<Longrightarrow>
     advance fuel m s c < length W \<and> W ! advance fuel m s c = lsuf (set W) (W ! s @ [c])"
proof (induction fuel arbitrary: s)
  case 0
  then have s: "s = 0" "W ! s = []"
    using matcher_okD(3,4,5) [OF ok] nth_eq_iff_index_eq [of W s 0] by auto
  show ?case
  proof (cases "[c] \<in> set W")
    case True
    then have "matcher_next m s c < length W \<and> W ! matcher_next m s c = [c]" using matcher_okD(10) [OF ok 0(1), of c] s by simp
    moreover from this have "matcher_next m s c \<noteq> 0" using matcher_okD(4) [OF ok] by (metis list.distinct(1))
    ultimately show ?thesis using True s by (simp add: advance.simps)
  next
    case False
    then show ?thesis using matcher_okD(3,4) [OF ok] matcher_okD(11) [OF ok 0(1), of c] s by (simp add: advance.simps)
  qed
next
  case (Suc fuel)
  show ?case
  proof (cases "W ! s @ [c] \<in> set W")
    case True
    then have n: "matcher_next m s c < length W \<and> W ! matcher_next m s c = W ! s @ [c]" by (rule matcher_okD(10) [OF ok Suc.prems(1)])
    moreover from this have "matcher_next m s c \<noteq> 0" using matcher_okD(4) [OF ok] by (metis append_is_Nil_conv list.distinct(1))
    ultimately show ?thesis using True by (simp add: advance.simps)
  next
    case no: False
    then have n: "matcher_next m s c = 0" by (rule matcher_okD(11) [OF ok Suc.prems(1)])
    show ?thesis
    proof (cases "s = 0")
      case True
      with no n show ?thesis using matcher_okD(3,4) [OF ok] by (simp add: advance.simps)
    next
      case False
      then have u: "W ! s \<noteq> []"
        using matcher_okD(3,4,5) [OF ok] Suc.prems(1) by (metis nth_eq_iff_index_eq)
      let ?g = "kn_failure (km_nodes m ! s)"
      have g: "?g < length W" "W ! ?g = lsuf (set W) (tl (W ! s))"
        using matcher_okD(8) [OF ok Suc.prems(1)] by (simp_all add: linked_def)
      then have "length (W ! ?g) \<le> fuel" using lsuf_tl_shorter [OF u, of "set W"] Suc.prems(2) by simp
      from Suc.IH [OF g(1) this] lsuf_retry [OF matcher_okD(6) [OF ok] u no] n False g(2)
      show ?thesis by (simp add: advance.simps [of "Suc fuel"])
    qed
  qed
qed

definition occurs :: "(string \<Rightarrow> string) \<Rightarrow> string list \<Rightarrow> string \<Rightarrow> nat option" where
  "occurs lower kws p = first_index (length kws) (\<lambda>k. kws ! k \<noteq> [] \<and> sublist (lower (kws ! k)) p)"

lemma occurs_snoc:
  assumes "has_keywords lower kws W"
  shows "occurs lower kws (p @ [c]) = minKeywordIndex (occurs lower kws p) (hit lower kws (lsuf (set W) (p @ [c])))"
proof -
  have "sublist v (p @ [c]) \<longleftrightarrow> sublist v p \<or> suffix v (lsuf (set W) (p @ [c]))" if "v \<in> set W" for v
    using suffix_lsuf [of v "p @ [c]", OF _ that] lsuf_suffix [of "set W" "p @ [c]"]
    unfolding sublist_snoc by (meson suffix_order.trans)
  then show ?thesis using assms
    by (auto simp: occurs_def hit_def first_index_min has_keywords_def intro!: first_index_cong)
qed

lemma occurs_first: "occurs lower kws p = Some 0 \<Longrightarrow> occurs lower kws (p @ q) = Some 0"
proof -
  assume "occurs lower kws p = Some 0"
  then have "0 < length kws" "kws ! 0 \<noteq> []" "sublist (lower (kws ! 0)) (p @ q)"
    using first_index_lt [of "length kws" _ 0] sublist_order.order.trans [OF _ sublist_append_rightI]
    unfolding occurs_def by blast+
  then show ?thesis by (cases "length kws") (simp_all add: occurs_def first_index_def upt_conv_Cons del: upt_Suc)
qed

lemma match_from_correct:
  assumes ok: "matcher_ok lower kws W m"
  shows "s < length W \<Longrightarrow> W ! s = lsuf (set W) p \<Longrightarrow> match_from m s (occurs lower kws p) rest = occurs lower kws (p @ rest)"
proof (induction rest arbitrary: s p)
  case Nil
  then show ?case by simp
next
  case (Cons c rest)
  let ?s = "advance (length (km_nodes m)) m s c"
  have "length (W ! s) \<le> length (km_nodes m)" using matcher_okD(2) [OF ok] matcher_okD(9) [OF ok Cons.prems(1)] Cons.prems(1) by simp
  from advance_word [OF ok Cons.prems(1) this, of c]
  have a: "?s < length W" "W ! ?s = lsuf (set W) (p @ [c])"
    using Cons.prems(2) lsuf_append [OF matcher_okD(6) [OF ok]] by simp_all
  have best: "minKeywordIndex (occurs lower kws p) (kn_bestKeyword (km_nodes m ! ?s)) = occurs lower kws (p @ [c])"
    using matcher_okD(8) [OF ok a(1)] a(2) occurs_snoc [OF matcher_okD(7) [OF ok]] by (simp add: linked_def)
  show ?case
    using Cons.IH [OF a] occurs_first [of lower kws "p @ [c]" rest] by (simp add: Let_def best)
qed

lemma find_map_index: "find P (map f ys) = map_option f (find (\<lambda>i. P (f i)) ys)"
  by (induction ys) simp_all

lemma occurs_find:
  "map_option ((!) kws) (occurs lower kws p) = find (\<lambda>k. k \<noteq> [] \<and> sublist (lower k) p) kws"
  using find_map_index [of "\<lambda>k. k \<noteq> [] \<and> sublist (lower k) p" "(!) kws" "[0..<length kws]"]
  by (simp add: occurs_def first_index_def map_nth)

lemma occurs_nil: "keeps_keywords lower kws \<Longrightarrow> occurs lower kws [] = None"
  by (auto simp: occurs_def first_index_none keeps_keywords_def)

text \<open>
  C10. The matcher finds what a search keyword by keyword finds: the first keyword of the list
  that is not empty and whose lower case occurs in the lower case of the text, and nothing
  when none does.
\<close>

theorem keyword_match_first:
  assumes "keeps_keywords lower kws" and "lower [] = []"
  shows "Match lower (newContentModerationKeywordMatcher lower kws) text =
     (case find (\<lambda>k. k \<noteq> [] \<and> sublist (lower k) (lower text)) kws of
        Some k \<Rightarrow> (k, True)
      | None \<Rightarrow> ([], False))"
proof (cases "newContentModerationKeywordMatcher lower kws")
  case None
  from build_trie_correct obtain nodes es W P where
    b: "build_trie lower kws = (nodes, es)" "trie_for lower kws (length kws) nodes es W P" by blast
  then have t: "trie_ok nodes es W P" by (simp add: trie_for_def)
  have "k = []" if "k \<in> set kws" for k
  proof (rule ccontr)
    assume "k \<noteq> []"
    with that None b(1) have "length nodes = 1"
      by (auto simp: newContentModerationKeywordMatcher_def Let_def split: if_splits prod.splits)
    then have "set W = {[]}" using trie_okD(1,4) [OF t] by (cases W) auto
    moreover have "lower k \<in> set W" using that \<open>k \<noteq> []\<close> b(2) by (auto simp: trie_for_def in_set_conv_nth)
    ultimately show False using assms(1) that \<open>k \<noteq> []\<close> by (auto simp: keeps_keywords_def)
  qed
  then have "find (\<lambda>k. k \<noteq> [] \<and> sublist (lower k) (lower text)) kws = None" by (auto simp: find_None_iff)
  with None show ?thesis by (simp add: Match_def)
next
  case (Some m)
  from new_matcher_ok [OF assms(1) this] obtain W where ok: "matcher_ok lower kws W m" by blast
  have "match_from m 0 (occurs lower kws []) (lower text) = occurs lower kws ([] @ lower text)"
    using matcher_okD(3,4) [OF ok] by (intro match_from_correct [OF ok]) simp_all
  then have run: "match_from m 0 None (lower text) = occurs lower kws (lower text)" by (simp add: occurs_nil [OF assms(1)])
  have lt: "i < length kws" if "occurs lower kws (lower text) = Some i" for i
    using first_index_lt that by (simp add: occurs_def)
  have some: "kws \<noteq> []" "km_nodes m \<noteq> []"
    using Some matcher_okD(2,3) [OF ok] by (auto simp: newContentModerationKeywordMatcher_def)
  show ?thesis
  proof (cases "text = []")
    case True
    with occurs_nil [OF assms(1)] occurs_find [of kws lower "[]"] assms(2) show ?thesis by (simp add: Some Match_def)
  next
    case False
    with some lt show ?thesis
      by (auto simp: Some Match_def run matcher_okD(1) [OF ok] occurs_find [symmetric] not_le split: option.split)
  qed
qed

text \<open>
  The text leaves the path of one keyword for the end of the next one through a failure link, and
  the reported keyword comes before another that ends later.
\<close>

theorem keyword_match_first_witness:
  "Match id (newContentModerationKeywordMatcher id [[], ''abcd'', ''bc'', ''cx'']) ''zabcx'' = (''bc'', True)"
proof -
  have "keeps_keywords id [[], ''abcd'', ''bc'', ''cx'']" by (simp add: keeps_keywords_def)
  from keyword_match_first [OF this, of "''zabcx''"] show ?thesis by (simp add: sublist_code)
qed

end
