(* ===== verification/Ws_State_Store.thy ===== *)
theory Ws_State_Store
  imports Prelude Strconv
begin

text \<open>
  backend/internal/service/openai_ws_state_store.go: where the WebSocket gateway remembers which
  account and connection served a response or a session. Four Go maps, each behind its own
  mutex, hold bindings with an expiry; each is bounded, and expired bindings are swept now and
  then. What runs under a lock is one section. The choices of a run are arguments: the order in
  which a sweep ranges over a map, and the place of the key that a range yields first. Redis
  (\<open>GatewayCache\<close>) is the argument \<open>cache\<close>, with its answers to the call at hand; SHA-256 is the
  argument \<open>sha256\<close>. The store is never nil.
\<close>

section \<open>State\<close>

definition openAIWSResponseAccountCachePrefix :: string where
  "openAIWSResponseAccountCachePrefix = ''openai:response:''"

definition openAIWSStateStoreCleanupInterval :: duration where
  "openAIWSStateStoreCleanupInterval = minute"

definition openAIWSStateStoreCleanupMaxPerMap :: int where
  "openAIWSStateStoreCleanupMaxPerMap = 512"

definition openAIWSStateStoreMaxEntriesPerMap :: int where
  "openAIWSStateStoreMaxEntriesPerMap = 65536"

record openAIWSAccountBinding =
  oab_accountID :: int
  oab_expiresAt :: time

record openAIWSConnBinding =
  ocb_connID :: string
  ocb_expiresAt :: time

record openAIWSTurnStateBinding =
  otb_turnState :: string
  otb_expiresAt :: time

record openAIWSSessionConnBinding =
  osb_connID :: string
  osb_expiresAt :: time

record defaultOpenAIWSStateStore =
  wss_responseToAccount :: "(string, openAIWSAccountBinding) gomap"
  wss_responseToConn :: "(string, openAIWSConnBinding) gomap"
  wss_sessionToTurnState :: "(string, openAIWSTurnStateBinding) gomap"
  wss_sessionToConn :: "(string, openAIWSSessionConnBinding) gomap"
  wss_lastCleanupUnixNano :: int

text \<open>What Redis answers: an error, or success.\<close>

record gateway_cache =
  gc_SetSessionAccountID :: "int \<Rightarrow> string \<Rightarrow> int \<Rightarrow> duration \<Rightarrow> string option"
  gc_GetSessionAccountID :: "int \<Rightarrow> string \<Rightarrow> string + int"
  gc_DeleteSessionAccountID :: "int \<Rightarrow> string \<Rightarrow> string option"

definition NewOpenAIWSStateStore :: "time \<Rightarrow> defaultOpenAIWSStateStore" where
  "NewOpenAIWSStateStore now =
     \<lparr>wss_responseToAccount = [], wss_responseToConn = [], wss_sessionToTurnState = [],
      wss_sessionToConn = [], wss_lastCleanupUnixNano = unix_nano now\<rparr>"

section \<open>Keys\<close>

definition normalizeOpenAIWSResponseID :: "string \<Rightarrow> string" where
  "normalizeOpenAIWSResponseID responseID = trim_space responseID"

definition openAIWSResponseAccountCacheKey :: "(string \<Rightarrow> string) \<Rightarrow> string \<Rightarrow> string" where
  "openAIWSResponseAccountCacheKey sha256 responseID =
     openAIWSResponseAccountCachePrefix @ hex_encode (sha256 responseID)"

definition openAIWSResponseAccountMapKey :: "int \<Rightarrow> string \<Rightarrow> string" where
  "openAIWSResponseAccountMapKey groupID responseID = show_int groupID @ '':'' @ responseID"

definition normalizeOpenAIWSTTL :: "duration \<Rightarrow> duration" where
  "normalizeOpenAIWSTTL ttl = (if ttl \<le> 0 then hour else ttl)"

definition openAIWSSessionTurnStateKey :: "int \<Rightarrow> string \<Rightarrow> string" where
  "openAIWSSessionTurnStateKey groupID sessionHash =
     (let hash = trim_space sessionHash in
      if hash = [] then [] else show_int groupID @ '':'' @ hash)"

section \<open>Room and clean-up\<close>

text \<open>The key that a range over a non-empty map yields first is any of its keys: the n-th.\<close>

definition first_key :: "nat \<Rightarrow> ('k, 'v) gomap \<Rightarrow> 'k" where
  "first_key n m = fst (m ! (n mod length m))"

definition ensureBindingCapacity :: "nat \<Rightarrow> (string, 'b) gomap \<Rightarrow> string \<Rightarrow> int \<Rightarrow> (string, 'b) gomap" where
  "ensureBindingCapacity n bindings incomingKey maxEntries =
     (if int (glen bindings) < maxEntries \<or> maxEntries \<le> 0 then bindings
      else if gget bindings incomingKey \<noteq> None then bindings
      else gdel bindings (first_key n bindings))"

definition cleanupExpiredAccountBindings ::
  "string list \<Rightarrow> (string, openAIWSAccountBinding) gomap \<Rightarrow> time \<Rightarrow> int \<Rightarrow> (string, openAIWSAccountBinding) gomap" where
  "cleanupExpiredAccountBindings ord bindings now maxScan =
     (if glen bindings = 0 \<or> maxScan \<le> 0 then bindings
      else gsweep (\<lambda>key binding. time_after now (oab_expiresAt binding)) (take (nat maxScan) ord) bindings)"

definition cleanupExpiredConnBindings ::
  "string list \<Rightarrow> (string, openAIWSConnBinding) gomap \<Rightarrow> time \<Rightarrow> int \<Rightarrow> (string, openAIWSConnBinding) gomap" where
  "cleanupExpiredConnBindings ord bindings now maxScan =
     (if glen bindings = 0 \<or> maxScan \<le> 0 then bindings
      else gsweep (\<lambda>key binding. time_after now (ocb_expiresAt binding)) (take (nat maxScan) ord) bindings)"

definition cleanupExpiredTurnStateBindings ::
  "string list \<Rightarrow> (string, openAIWSTurnStateBinding) gomap \<Rightarrow> time \<Rightarrow> int \<Rightarrow> (string, openAIWSTurnStateBinding) gomap" where
  "cleanupExpiredTurnStateBindings ord bindings now maxScan =
     (if glen bindings = 0 \<or> maxScan \<le> 0 then bindings
      else gsweep (\<lambda>key binding. time_after now (otb_expiresAt binding)) (take (nat maxScan) ord) bindings)"

definition cleanupExpiredSessionConnBindings ::
  "string list \<Rightarrow> (string, openAIWSSessionConnBinding) gomap \<Rightarrow> time \<Rightarrow> int \<Rightarrow> (string, openAIWSSessionConnBinding) gomap" where
  "cleanupExpiredSessionConnBindings ord bindings now maxScan =
     (if glen bindings = 0 \<or> maxScan \<le> 0 then bindings
      else gsweep (\<lambda>key binding. time_after now (osb_expiresAt binding)) (take (nat maxScan) ord) bindings)"

text \<open>
  The gate of \<open>maybeCleanup\<close>; \<open>swapped\<close> is false when another call stored its time first. Then
  the four sections, with an order for each map.
\<close>

definition cleanup_due :: "bool \<Rightarrow> time \<Rightarrow> defaultOpenAIWSStateStore \<Rightarrow> bool" where
  "cleanup_due swapped now s \<longleftrightarrow>
     \<not> time_sub now (time_unix_nano (wss_lastCleanupUnixNano s)) < openAIWSStateStoreCleanupInterval \<and> swapped"

definition clean_accounts :: "string list \<Rightarrow> time \<Rightarrow> defaultOpenAIWSStateStore \<Rightarrow> defaultOpenAIWSStateStore" where
  "clean_accounts ord now s = s\<lparr>wss_responseToAccount :=
     cleanupExpiredAccountBindings ord (wss_responseToAccount s) now openAIWSStateStoreCleanupMaxPerMap\<rparr>"

definition clean_conns :: "string list \<Rightarrow> time \<Rightarrow> defaultOpenAIWSStateStore \<Rightarrow> defaultOpenAIWSStateStore" where
  "clean_conns ord now s = s\<lparr>wss_responseToConn :=
     cleanupExpiredConnBindings ord (wss_responseToConn s) now openAIWSStateStoreCleanupMaxPerMap\<rparr>"

definition clean_turn_states :: "string list \<Rightarrow> time \<Rightarrow> defaultOpenAIWSStateStore \<Rightarrow> defaultOpenAIWSStateStore" where
  "clean_turn_states ord now s = s\<lparr>wss_sessionToTurnState :=
     cleanupExpiredTurnStateBindings ord (wss_sessionToTurnState s) now openAIWSStateStoreCleanupMaxPerMap\<rparr>"

definition clean_session_conns :: "string list \<Rightarrow> time \<Rightarrow> defaultOpenAIWSStateStore \<Rightarrow> defaultOpenAIWSStateStore" where
  "clean_session_conns ord now s = s\<lparr>wss_sessionToConn :=
     cleanupExpiredSessionConnBindings ord (wss_sessionToConn s) now openAIWSStateStoreCleanupMaxPerMap\<rparr>"

text \<open>The choices of one call of \<open>maybeCleanup\<close>.\<close>

record cleanup_run =
  cr_now :: time
  cr_swapped :: bool
  cr_accounts :: "string list"
  cr_conns :: "string list"
  cr_turnStates :: "string list"
  cr_sessionConns :: "string list"

definition maybeCleanup :: "cleanup_run \<Rightarrow> defaultOpenAIWSStateStore \<Rightarrow> defaultOpenAIWSStateStore" where
  "maybeCleanup r s =
     (if cleanup_due (cr_swapped r) (cr_now r) s then
        clean_session_conns (cr_sessionConns r) (cr_now r)
          (clean_turn_states (cr_turnStates r) (cr_now r)
            (clean_conns (cr_conns r) (cr_now r)
              (clean_accounts (cr_accounts r) (cr_now r)
                (s\<lparr>wss_lastCleanupUnixNano := unix_nano (cr_now r)\<rparr>))))
      else s)"

section \<open>Accounts of responses\<close>

text \<open>The section under the mutex; \<open>id\<close> is normalised.\<close>

definition put_account ::
  "nat \<Rightarrow> int \<Rightarrow> string \<Rightarrow> int \<Rightarrow> time \<Rightarrow> defaultOpenAIWSStateStore \<Rightarrow> defaultOpenAIWSStateStore" where
  "put_account n groupID rid accountID expiresAt s =
     (let mapKey = openAIWSResponseAccountMapKey groupID rid;
          bindings = ensureBindingCapacity n (wss_responseToAccount s) mapKey openAIWSStateStoreMaxEntriesPerMap
      in s\<lparr>wss_responseToAccount := gput bindings mapKey \<lparr>oab_accountID = accountID, oab_expiresAt = expiresAt\<rparr>\<rparr>)"

definition BindResponseAccount ::
  "(string \<Rightarrow> string) \<Rightarrow> gateway_cache option \<Rightarrow> cleanup_run \<Rightarrow> nat \<Rightarrow> time \<Rightarrow> defaultOpenAIWSStateStore \<Rightarrow>
   int \<Rightarrow> string \<Rightarrow> int \<Rightarrow> duration \<Rightarrow> defaultOpenAIWSStateStore \<times> string option" where
  "BindResponseAccount sha256 cache r n now s groupID responseID accountID ttl =
     (let rid = normalizeOpenAIWSResponseID responseID in
      if rid = [] \<or> accountID \<le> 0 then (s, None)
      else
        let ttl = normalizeOpenAIWSTTL ttl;
            s = maybeCleanup r s;
            expiresAt = time_add now ttl;
            s = put_account n groupID rid accountID expiresAt s
        in case cache of
             None \<Rightarrow> (s, None)
           | Some c \<Rightarrow> (s, gc_SetSessionAccountID c groupID (openAIWSResponseAccountCacheKey sha256 rid) accountID ttl))"

definition GetResponseAccount ::
  "(string \<Rightarrow> string) \<Rightarrow> gateway_cache option \<Rightarrow> cleanup_run \<Rightarrow> time \<Rightarrow> defaultOpenAIWSStateStore \<Rightarrow>
   int \<Rightarrow> string \<Rightarrow> defaultOpenAIWSStateStore \<times> int" where
  "GetResponseAccount sha256 cache r now s groupID responseID =
     (let rid = normalizeOpenAIWSResponseID responseID in
      if rid = [] then (s, 0)
      else
        let s = maybeCleanup r s;
            miss = (case cache of
                None \<Rightarrow> 0
              | Some c \<Rightarrow>
                  (case gc_GetSessionAccountID c groupID (openAIWSResponseAccountCacheKey sha256 rid) of
                     Inl err \<Rightarrow> 0
                   | Inr accountID \<Rightarrow> if accountID \<le> 0 then 0 else accountID))
        in case gget (wss_responseToAccount s) (openAIWSResponseAccountMapKey groupID rid) of
             Some binding \<Rightarrow> if time_before now (oab_expiresAt binding) then (s, oab_accountID binding) else (s, miss)
           | None \<Rightarrow> (s, miss))"

definition drop_account :: "int \<Rightarrow> string \<Rightarrow> defaultOpenAIWSStateStore \<Rightarrow> defaultOpenAIWSStateStore" where
  "drop_account groupID rid s =
     s\<lparr>wss_responseToAccount := gdel (wss_responseToAccount s) (openAIWSResponseAccountMapKey groupID rid)\<rparr>"

definition DeleteResponseAccount ::
  "(string \<Rightarrow> string) \<Rightarrow> gateway_cache option \<Rightarrow> defaultOpenAIWSStateStore \<Rightarrow> int \<Rightarrow> string \<Rightarrow>
   defaultOpenAIWSStateStore \<times> string option" where
  "DeleteResponseAccount sha256 cache s groupID responseID =
     (let rid = normalizeOpenAIWSResponseID responseID in
      if rid = [] then (s, None)
      else
        let s = drop_account groupID rid s in
        case cache of
          None \<Rightarrow> (s, None)
        | Some c \<Rightarrow> (s, gc_DeleteSessionAccountID c groupID (openAIWSResponseAccountCacheKey sha256 rid)))"

section \<open>Connections of responses\<close>

definition put_conn ::
  "nat \<Rightarrow> string \<Rightarrow> string \<Rightarrow> time \<Rightarrow> defaultOpenAIWSStateStore \<Rightarrow> defaultOpenAIWSStateStore" where
  "put_conn n rid conn expiresAt s =
     (let bindings = ensureBindingCapacity n (wss_responseToConn s) rid openAIWSStateStoreMaxEntriesPerMap
      in s\<lparr>wss_responseToConn := gput bindings rid \<lparr>ocb_connID = conn, ocb_expiresAt = expiresAt\<rparr>\<rparr>)"

definition BindResponseConn ::
  "cleanup_run \<Rightarrow> nat \<Rightarrow> time \<Rightarrow> defaultOpenAIWSStateStore \<Rightarrow> string \<Rightarrow> string \<Rightarrow> duration \<Rightarrow> defaultOpenAIWSStateStore" where
  "BindResponseConn r n now s responseID connID ttl =
     (let rid = normalizeOpenAIWSResponseID responseID; conn = trim_space connID in
      if rid = [] \<or> conn = [] then s
      else put_conn n rid conn (time_add now (normalizeOpenAIWSTTL ttl)) (maybeCleanup r s))"

definition GetResponseConn ::
  "cleanup_run \<Rightarrow> time \<Rightarrow> defaultOpenAIWSStateStore \<Rightarrow> string \<Rightarrow> defaultOpenAIWSStateStore \<times> string \<times> bool" where
  "GetResponseConn r now s responseID =
     (let rid = normalizeOpenAIWSResponseID responseID in
      if rid = [] then (s, [], False)
      else
        let s = maybeCleanup r s in
        case gget (wss_responseToConn s) rid of
          None \<Rightarrow> (s, [], False)
        | Some binding \<Rightarrow>
            if time_after now (ocb_expiresAt binding) \<or> trim_space (ocb_connID binding) = [] then (s, [], False)
            else (s, ocb_connID binding, True))"

definition drop_conn :: "string \<Rightarrow> defaultOpenAIWSStateStore \<Rightarrow> defaultOpenAIWSStateStore" where
  "drop_conn rid s = s\<lparr>wss_responseToConn := gdel (wss_responseToConn s) rid\<rparr>"

definition DeleteResponseConn :: "defaultOpenAIWSStateStore \<Rightarrow> string \<Rightarrow> defaultOpenAIWSStateStore" where
  "DeleteResponseConn s responseID =
     (let rid = normalizeOpenAIWSResponseID responseID in if rid = [] then s else drop_conn rid s)"

section \<open>Turn states of sessions\<close>

definition put_turn_state ::
  "nat \<Rightarrow> string \<Rightarrow> string \<Rightarrow> time \<Rightarrow> defaultOpenAIWSStateStore \<Rightarrow> defaultOpenAIWSStateStore" where
  "put_turn_state n key state expiresAt s =
     (let bindings = ensureBindingCapacity n (wss_sessionToTurnState s) key openAIWSStateStoreMaxEntriesPerMap
      in s\<lparr>wss_sessionToTurnState := gput bindings key \<lparr>otb_turnState = state, otb_expiresAt = expiresAt\<rparr>\<rparr>)"

definition BindSessionTurnState ::
  "cleanup_run \<Rightarrow> nat \<Rightarrow> time \<Rightarrow> defaultOpenAIWSStateStore \<Rightarrow> int \<Rightarrow> string \<Rightarrow> string \<Rightarrow> duration \<Rightarrow> defaultOpenAIWSStateStore" where
  "BindSessionTurnState r n now s groupID sessionHash turnState ttl =
     (let key = openAIWSSessionTurnStateKey groupID sessionHash; state = trim_space turnState in
      if key = [] \<or> state = [] then s
      else put_turn_state n key state (time_add now (normalizeOpenAIWSTTL ttl)) (maybeCleanup r s))"

definition GetSessionTurnState ::
  "cleanup_run \<Rightarrow> time \<Rightarrow> defaultOpenAIWSStateStore \<Rightarrow> int \<Rightarrow> string \<Rightarrow> defaultOpenAIWSStateStore \<times> string \<times> bool" where
  "GetSessionTurnState r now s groupID sessionHash =
     (let key = openAIWSSessionTurnStateKey groupID sessionHash in
      if key = [] then (s, [], False)
      else
        let s = maybeCleanup r s in
        case gget (wss_sessionToTurnState s) key of
          None \<Rightarrow> (s, [], False)
        | Some binding \<Rightarrow>
            if time_after now (otb_expiresAt binding) \<or> trim_space (otb_turnState binding) = [] then (s, [], False)
            else (s, otb_turnState binding, True))"

definition drop_turn_state :: "string \<Rightarrow> defaultOpenAIWSStateStore \<Rightarrow> defaultOpenAIWSStateStore" where
  "drop_turn_state key s = s\<lparr>wss_sessionToTurnState := gdel (wss_sessionToTurnState s) key\<rparr>"

definition DeleteSessionTurnState :: "defaultOpenAIWSStateStore \<Rightarrow> int \<Rightarrow> string \<Rightarrow> defaultOpenAIWSStateStore" where
  "DeleteSessionTurnState s groupID sessionHash =
     (let key = openAIWSSessionTurnStateKey groupID sessionHash in if key = [] then s else drop_turn_state key s)"

section \<open>Connections of sessions\<close>

definition put_session_conn ::
  "nat \<Rightarrow> string \<Rightarrow> string \<Rightarrow> time \<Rightarrow> defaultOpenAIWSStateStore \<Rightarrow> defaultOpenAIWSStateStore" where
  "put_session_conn n key conn expiresAt s =
     (let bindings = ensureBindingCapacity n (wss_sessionToConn s) key openAIWSStateStoreMaxEntriesPerMap
      in s\<lparr>wss_sessionToConn := gput bindings key \<lparr>osb_connID = conn, osb_expiresAt = expiresAt\<rparr>\<rparr>)"

definition BindSessionConn ::
  "cleanup_run \<Rightarrow> nat \<Rightarrow> time \<Rightarrow> defaultOpenAIWSStateStore \<Rightarrow> int \<Rightarrow> string \<Rightarrow> string \<Rightarrow> duration \<Rightarrow> defaultOpenAIWSStateStore" where
  "BindSessionConn r n now s groupID sessionHash connID ttl =
     (let key = openAIWSSessionTurnStateKey groupID sessionHash; conn = trim_space connID in
      if key = [] \<or> conn = [] then s
      else put_session_conn n key conn (time_add now (normalizeOpenAIWSTTL ttl)) (maybeCleanup r s))"

definition GetSessionConn ::
  "cleanup_run \<Rightarrow> time \<Rightarrow> defaultOpenAIWSStateStore \<Rightarrow> int \<Rightarrow> string \<Rightarrow> defaultOpenAIWSStateStore \<times> string \<times> bool" where
  "GetSessionConn r now s groupID sessionHash =
     (let key = openAIWSSessionTurnStateKey groupID sessionHash in
      if key = [] then (s, [], False)
      else
        let s = maybeCleanup r s in
        case gget (wss_sessionToConn s) key of
          None \<Rightarrow> (s, [], False)
        | Some binding \<Rightarrow>
            if time_after now (osb_expiresAt binding) \<or> trim_space (osb_connID binding) = [] then (s, [], False)
            else (s, osb_connID binding, True))"

definition drop_session_conn :: "string \<Rightarrow> defaultOpenAIWSStateStore \<Rightarrow> defaultOpenAIWSStateStore" where
  "drop_session_conn key s = s\<lparr>wss_sessionToConn := gdel (wss_sessionToConn s) key\<rparr>"

definition DeleteSessionConn :: "defaultOpenAIWSStateStore \<Rightarrow> int \<Rightarrow> string \<Rightarrow> defaultOpenAIWSStateStore" where
  "DeleteSessionConn s groupID sessionHash =
     (let key = openAIWSSessionTurnStateKey groupID sessionHash in if key = [] then s else drop_session_conn key s)"

end
