(* ===== verification/Ws_State_Store_Correct.thy ===== *)
theory Ws_State_Store_Correct
  imports Ws_State_Store
begin

text \<open>
  Calls of the state store that interleave at their locked sections. The interface
  \<open>binding_map\<close> has what the four maps share: each section does one of four things to a map. It
  follows once for all four that a map stays within its bound, that a binding found is the last
  one stored under its key, and that a binding is found as long as it lives, if the bound is not
  reached. The theorems say the same of the calls.
\<close>

section \<open>What a section does to one map\<close>

datatype 'b map_op =
    Leave
  | Sweep "string list" time
  | Store nat string 'b
  | Drop string

fun apply_op :: "('b \<Rightarrow> time) \<Rightarrow> 'b map_op \<Rightarrow> (string, 'b) gomap \<Rightarrow> (string, 'b) gomap" where
  "apply_op expires Leave m = m"
| "apply_op expires (Sweep ord now) m =
     gsweep (\<lambda>k b. time_after now (expires b)) (take (nat openAIWSStateStoreCleanupMaxPerMap) ord) m"
| "apply_op expires (Store n k b) m = gput (ensureBindingCapacity n m k openAIWSStateStoreMaxEntriesPerMap) k b"
| "apply_op expires (Drop k) m = gdel m k"

fun op_on :: "string \<Rightarrow> 'b map_op \<Rightarrow> bool" where
  "op_on k (Store n k' b) = (k' = k)"
| "op_on k (Drop k') = (k' = k)"
| "op_on k _ = False"

fun stored_key :: "'b map_op \<Rightarrow> string set" where
  "stored_key (Store n k b) = {k}"
| "stored_key _ = {}"

lemma finite_stored_key [simp]: "finite (stored_key x)"
  by (cases x) simp_all

abbreviation max_entries :: nat where
  "max_entries \<equiv> nat openAIWSStateStoreMaxEntriesPerMap"

lemma max_entries: "max_entries = 65536" "openAIWSStateStoreMaxEntriesPerMap = int 65536"
  by (simp_all add: openAIWSStateStoreMaxEntriesPerMap_def)

lemma ensure_cases:
  "ensureBindingCapacity n m k openAIWSStateStoreMaxEntriesPerMap =
     (if glen m < 65536 \<or> gget m k \<noteq> None then m else gdel m (first_key n m))"
  by (simp add: ensureBindingCapacity_def max_entries(2))

lemma first_key_in: "m \<noteq> [] \<Longrightarrow> gget m (first_key n m) \<noteq> None"
proof -
  assume "m \<noteq> []"
  then have "m ! (n mod length m) \<in> set m" by (intro nth_mem) simp
  then show ?thesis by (simp add: gget_in_keys gkeys_def first_key_def)
qed

lemma apply_op_ok: "gmap_ok m \<Longrightarrow> gmap_ok (apply_op expires x m)"
  by (cases x) (auto simp: ensure_cases gsweep_ok gm.ok_put gm.ok_del)

lemma apply_op_room:
  assumes m: "gmap_ok m" and room: "glen m \<le> 65536"
  shows "glen (apply_op expires x m) \<le> 65536"
proof (cases x)
  case (Store n k b)
  have "glen m \<ge> 65536 \<Longrightarrow> gget m (first_key n m) \<noteq> None" by (rule first_key_in) auto
  with gm.evict_put_bound [OF m room, of k "first_key n m" b] show ?thesis by (simp add: Store ensure_cases)
qed (use m room gsweep_len_le gm.len_del_le in \<open>fastforce intro: order.trans\<close>)+

lemma apply_op_stored: "gmap_ok m \<Longrightarrow> gget (apply_op expires (Store n k b) m) k = Some b"
  by (simp add: gget_gput)

lemma apply_op_dropped: "gmap_ok m \<Longrightarrow> gget (apply_op expires (Drop k) m) k = None"
  by (simp add: gm.get_del)

lemma apply_op_other:
  "gmap_ok m \<Longrightarrow> \<not> op_on k x \<Longrightarrow> gget (apply_op expires x m) k = Some b \<Longrightarrow> gget m k = Some b"
  by (cases x) (auto simp: ensure_cases gget_gput gm.get_del gsweep_get split: option.splits if_splits)

lemma apply_op_kept:
  "gmap_ok m \<Longrightarrow> \<not> op_on k x \<Longrightarrow> gget m k = Some b \<Longrightarrow>
     (\<And>ord now. x = Sweep ord now \<Longrightarrow> now \<le> expires b) \<Longrightarrow>
     (\<And>n k' b'. x = Store n k' b' \<Longrightarrow> k' \<notin> gkeys m \<Longrightarrow> glen m < 65536) \<Longrightarrow>
     gget (apply_op expires x m) k = Some b"
  by (cases x) (auto simp: ensure_cases gget_gput gm.get_del gsweep_get time_after_def gkeys_iff)

lemma apply_op_keys: "gmap_ok m \<Longrightarrow> gkeys (apply_op expires x m) \<subseteq> gkeys m \<union> stored_key x"
  by (cases x) (use gkeys_gsweep in \<open>auto simp: ensure_cases gkeys_gdel\<close>)

section \<open>The interface of a bounded map of bindings\<close>

locale binding_map =
  fixes step :: "'s \<Rightarrow> 'c \<Rightarrow> 's"
    and bindings :: "'s \<Rightarrow> (string, 'b) gomap"
    and op_of :: "'c \<Rightarrow> 'b map_op"
    and expires :: "'b \<Rightarrow> time"
  assumes step_op: "bindings (step s x) = apply_op expires (op_of x) (bindings s)"
begin

definition stored_keys :: "'c list \<Rightarrow> string set" where
  "stored_keys xs = (\<Union>x \<in> set xs. stored_key (op_of x))"

lemma run_ok: "gmap_ok (bindings s) \<Longrightarrow> gmap_ok (bindings (foldl step s xs))"
  by (induction xs rule: rev_induct) (simp_all add: step_op apply_op_ok)

lemma run_room:
  "gmap_ok (bindings s) \<Longrightarrow> glen (bindings s) \<le> 65536 \<Longrightarrow> glen (bindings (foldl step s xs)) \<le> 65536"
  by (induction xs rule: rev_induct) (simp_all add: step_op apply_op_room run_ok)

lemma run_keys: "bindings s = [] \<Longrightarrow> gkeys (bindings (foldl step s xs)) \<subseteq> stored_keys xs"
proof (induction xs rule: rev_induct)
  case Nil
  then show ?case by simp
next
  case (snoc x xs)
  have "gmap_ok (bindings (foldl step s xs))" by (rule run_ok) (simp add: snoc.prems gm.ok_empty)
  from apply_op_keys [OF this, of expires "op_of x"] snoc.IH [OF snoc.prems] show ?case
    by (auto simp: step_op stored_keys_def)
qed

lemma found_was_stored:
  assumes "bindings s = []" and "gget (bindings (foldl step s xs)) k = Some b"
  shows "\<exists>x n. find (\<lambda>x. op_on k (op_of x)) (rev xs) = Some x \<and> op_of x = Store n k b"
  using assms(2)
proof (induction xs rule: rev_induct)
  case Nil
  with assms(1) show ?case by (simp add: gm.get_empty)
next
  case (snoc x xs)
  have m: "gmap_ok (bindings (foldl step s xs))" by (rule run_ok) (simp add: assms(1) gm.ok_empty)
  show ?case
  proof (cases "op_on k (op_of x)")
    case True
    with snoc.prems m show ?thesis
      by (cases "op_of x") (auto simp: step_op apply_op_dropped gget_gput simp del: apply_op.simps(4))
  next
    case False
    from apply_op_other [OF m False] snoc.prems have "gget (bindings (foldl step s xs)) k = Some b"
      by (simp add: step_op)
    from snoc.IH [OF this] False show ?thesis by simp
  qed
qed

lemma stored_keys_card:
  assumes "\<And>x. stored_key (op_of x) \<subseteq> f ` set (names x)"
  shows "card (stored_keys xs) \<le> card (set (concat (map names xs)))"
proof -
  have "stored_keys xs \<subseteq> f ` set (concat (map names xs))"
    using assms by (fastforce simp: stored_keys_def)
  then show ?thesis using card_mono [of "f ` set (concat (map names xs))"] card_image_le order.trans by blast
qed

lemma stored_is_found:
  assumes "bindings s = []" and "find (\<lambda>x. op_on k (op_of x)) (rev xs) = Some x" and "op_of x = Store n k b"
    and "\<And>y ord now. y \<in> set xs \<Longrightarrow> op_of y = Sweep ord now \<Longrightarrow> now \<le> expires b"
    and "card (stored_keys xs) \<le> 65536"
  shows "gget (bindings (foldl step s xs)) k = Some b"
  using assms(2,4,5)
proof (induction xs rule: rev_induct)
  case Nil
  then show ?case by simp
next
  case (snoc y xs)
  let ?m = "bindings (foldl step s xs)"
  have m: "gmap_ok ?m" by (rule run_ok) (simp add: assms(1) gm.ok_empty)
  show ?case
  proof (cases "op_on k (op_of y)")
    case True
    with snoc.prems(1) assms(3) m show ?thesis by (simp add: step_op apply_op_stored del: apply_op.simps)
  next
    case False
    have fin: "finite (stored_keys zs)" for zs
      by (simp add: stored_keys_def)
    have sub: "stored_keys xs \<subseteq> stored_keys (xs @ [y])" by (auto simp: stored_keys_def)
    have "gget ?m k = Some b"
      using snoc.IH snoc.prems False card_mono [OF fin sub] by auto
    moreover have "glen ?m < 65536" if y: "op_of y = Store n' k' b'" "k' \<notin> gkeys ?m" for n' k' b'
    proof -
      have "insert k' (gkeys ?m) \<subseteq> stored_keys (xs @ [y])"
        using run_keys [OF assms(1), of xs] y(1) by (auto simp: stored_keys_def)
      then have "card (insert k' (gkeys ?m)) \<le> 65536" using snoc.prems(3) card_mono [OF fin] order.trans by blast
      moreover have "finite (gkeys ?m)" by (simp add: gkeys_def)
      ultimately show ?thesis using y(2) by (simp add: glen_keys [OF m])
    qed
    ultimately show ?thesis
      unfolding foldl_append foldl.simps step_op using snoc.prems(2) by (intro apply_op_kept [OF m False]) auto
  qed
qed

end

section \<open>Calls\<close>

text \<open>
  A call is what it does between its clean-up and its return; a clean-up is its gate and its
  four sections, so that every interleaving of calls is a list of these.
\<close>

datatype ws_call =
    CleanupGate time bool
  | CleanAccounts "string list" time
  | CleanConns "string list" time
  | CleanTurnStates "string list" time
  | CleanSessionConns "string list" time
  | BindAccount nat time int string int duration
  | DeleteAccount int string
  | BindConn nat time string string duration
  | DeleteConn string
  | BindTurnState nat time int string string duration
  | DeleteTurnState int string
  | BindSession nat time int string string duration
  | DeleteSession int string

definition no_cleanup :: cleanup_run where
  "no_cleanup = \<lparr>cr_now = 0, cr_swapped = False, cr_accounts = [], cr_conns = [], cr_turnStates = [], cr_sessionConns = []\<rparr>"

fun ws_step :: "defaultOpenAIWSStateStore \<Rightarrow> ws_call \<Rightarrow> defaultOpenAIWSStateStore" where
  "ws_step s (CleanupGate now swapped) =
     (if cleanup_due swapped now s then s\<lparr>wss_lastCleanupUnixNano := unix_nano now\<rparr> else s)"
| "ws_step s (CleanAccounts ord now) = clean_accounts ord now s"
| "ws_step s (CleanConns ord now) = clean_conns ord now s"
| "ws_step s (CleanTurnStates ord now) = clean_turn_states ord now s"
| "ws_step s (CleanSessionConns ord now) = clean_session_conns ord now s"
| "ws_step s (BindAccount n now g rid a ttl) = fst (BindResponseAccount id None no_cleanup n now s g rid a ttl)"
| "ws_step s (DeleteAccount g rid) = fst (DeleteResponseAccount id None s g rid)"
| "ws_step s (BindConn n now rid c ttl) = BindResponseConn no_cleanup n now s rid c ttl"
| "ws_step s (DeleteConn rid) = DeleteResponseConn s rid"
| "ws_step s (BindTurnState n now g h ts ttl) = BindSessionTurnState no_cleanup n now s g h ts ttl"
| "ws_step s (DeleteTurnState g h) = DeleteSessionTurnState s g h"
| "ws_step s (BindSession n now g h c ttl) = BindSessionConn no_cleanup n now s g h c ttl"
| "ws_step s (DeleteSession g h) = DeleteSessionConn s g h"

definition ws_run :: "time \<Rightarrow> ws_call list \<Rightarrow> defaultOpenAIWSStateStore" where
  "ws_run t0 history = foldl ws_step (NewOpenAIWSStateStore t0) history"

text \<open>A clean-up that passes the gate.\<close>

definition cleanup_calls :: "cleanup_run \<Rightarrow> ws_call list" where
  "cleanup_calls r = [CleanupGate (cr_now r) True, CleanAccounts (cr_accounts r) (cr_now r),
     CleanConns (cr_conns r) (cr_now r), CleanTurnStates (cr_turnStates r) (cr_now r),
     CleanSessionConns (cr_sessionConns r) (cr_now r)]"

lemma no_cleanup [simp]: "maybeCleanup no_cleanup s = s"
  by (simp add: maybeCleanup_def no_cleanup_def cleanup_due_def)

lemma cleanup_is_calls:
  "maybeCleanup r s = foldl ws_step s (if cleanup_due (cr_swapped r) (cr_now r) s then cleanup_calls r else [])"
  by (simp add: maybeCleanup_def cleanup_calls_def cleanup_due_def)

text \<open>A call with its clean-up is its clean-up and then the call.\<close>

lemma bind_is_calls:
  "fst (BindResponseAccount sha256 cache r n now s g rid a ttl) =
     (if trim_space rid = [] \<or> a \<le> 0 then s else ws_step (maybeCleanup r s) (BindAccount n now g rid a ttl))"
  "BindResponseConn r n now s rid c ttl =
     (if trim_space rid = [] \<or> trim_space c = [] then s else ws_step (maybeCleanup r s) (BindConn n now rid c ttl))"
  "BindSessionTurnState r n now s g h ts ttl =
     (if trim_space h = [] \<or> trim_space ts = [] then s else ws_step (maybeCleanup r s) (BindTurnState n now g h ts ttl))"
  "BindSessionConn r n now s g h c ttl =
     (if trim_space h = [] \<or> trim_space c = [] then s else ws_step (maybeCleanup r s) (BindSession n now g h c ttl))"
  by (simp_all add: BindResponseAccount_def BindResponseConn_def BindSessionTurnState_def BindSessionConn_def
      normalizeOpenAIWSResponseID_def openAIWSSessionTurnStateKey_def Let_def split: option.split)

section \<open>The four maps\<close>

fun account_op :: "ws_call \<Rightarrow> openAIWSAccountBinding map_op" where
  "account_op (CleanAccounts ord now) = Sweep ord now"
| "account_op (BindAccount n now g rid a ttl) =
     (if trim_space rid = [] \<or> a \<le> 0 then Leave
      else Store n (openAIWSResponseAccountMapKey g (trim_space rid))
        \<lparr>oab_accountID = a, oab_expiresAt = now + normalizeOpenAIWSTTL ttl\<rparr>)"
| "account_op (DeleteAccount g rid) =
     (if trim_space rid = [] then Leave else Drop (openAIWSResponseAccountMapKey g (trim_space rid)))"
| "account_op _ = Leave"

fun conn_op :: "ws_call \<Rightarrow> openAIWSConnBinding map_op" where
  "conn_op (CleanConns ord now) = Sweep ord now"
| "conn_op (BindConn n now rid c ttl) =
     (if trim_space rid = [] \<or> trim_space c = [] then Leave
      else Store n (trim_space rid) \<lparr>ocb_connID = trim_space c, ocb_expiresAt = now + normalizeOpenAIWSTTL ttl\<rparr>)"
| "conn_op (DeleteConn rid) = (if trim_space rid = [] then Leave else Drop (trim_space rid))"
| "conn_op _ = Leave"

fun turn_state_op :: "ws_call \<Rightarrow> openAIWSTurnStateBinding map_op" where
  "turn_state_op (CleanTurnStates ord now) = Sweep ord now"
| "turn_state_op (BindTurnState n now g h ts ttl) =
     (if trim_space h = [] \<or> trim_space ts = [] then Leave
      else Store n (openAIWSSessionTurnStateKey g h)
        \<lparr>otb_turnState = trim_space ts, otb_expiresAt = now + normalizeOpenAIWSTTL ttl\<rparr>)"
| "turn_state_op (DeleteTurnState g h) =
     (if trim_space h = [] then Leave else Drop (openAIWSSessionTurnStateKey g h))"
| "turn_state_op _ = Leave"

fun session_op :: "ws_call \<Rightarrow> openAIWSSessionConnBinding map_op" where
  "session_op (CleanSessionConns ord now) = Sweep ord now"
| "session_op (BindSession n now g h c ttl) =
     (if trim_space h = [] \<or> trim_space c = [] then Leave
      else Store n (openAIWSSessionTurnStateKey g h)
        \<lparr>osb_connID = trim_space c, osb_expiresAt = now + normalizeOpenAIWSTTL ttl\<rparr>)"
| "session_op (DeleteSession g h) = (if trim_space h = [] then Leave else Drop (openAIWSSessionTurnStateKey g h))"
| "session_op _ = Leave"

lemma gsweep_nil: "gsweep p ks [] = []"
  by (induction ks) (simp_all add: gget_def)

lemma session_key_empty: "openAIWSSessionTurnStateKey g h = [] \<longleftrightarrow> trim_space h = []"
  by (simp add: openAIWSSessionTurnStateKey_def Let_def)

lemmas clean_defs =
  clean_accounts_def cleanupExpiredAccountBindings_def clean_conns_def cleanupExpiredConnBindings_def
  clean_turn_states_def cleanupExpiredTurnStateBindings_def clean_session_conns_def
  cleanupExpiredSessionConnBindings_def openAIWSStateStoreCleanupMaxPerMap_def

lemmas call_defs =
  BindResponseAccount_def DeleteResponseAccount_def put_account_def drop_account_def
  BindResponseConn_def DeleteResponseConn_def put_conn_def drop_conn_def
  BindSessionTurnState_def DeleteSessionTurnState_def put_turn_state_def drop_turn_state_def
  BindSessionConn_def DeleteSessionConn_def put_session_conn_def drop_session_conn_def
  normalizeOpenAIWSResponseID_def time_add_def

interpretation accounts: binding_map ws_step wss_responseToAccount account_op oab_expiresAt
proof
  show "wss_responseToAccount (ws_step s x) = apply_op oab_expiresAt (account_op x) (wss_responseToAccount s)" for s x
    by (cases x) (auto simp: clean_defs call_defs Let_def session_key_empty glen_zero gsweep_nil)
qed

interpretation conns: binding_map ws_step wss_responseToConn conn_op ocb_expiresAt
proof
  show "wss_responseToConn (ws_step s x) = apply_op ocb_expiresAt (conn_op x) (wss_responseToConn s)" for s x
    by (cases x) (auto simp: clean_defs call_defs Let_def session_key_empty glen_zero gsweep_nil)
qed

interpretation turn_states: binding_map ws_step wss_sessionToTurnState turn_state_op otb_expiresAt
proof
  show "wss_sessionToTurnState (ws_step s x) = apply_op otb_expiresAt (turn_state_op x) (wss_sessionToTurnState s)" for s x
    by (cases x) (auto simp: clean_defs call_defs Let_def session_key_empty glen_zero gsweep_nil)
qed

interpretation sessions: binding_map ws_step wss_sessionToConn session_op osb_expiresAt
proof
  show "wss_sessionToConn (ws_step s x) = apply_op osb_expiresAt (session_op x) (wss_sessionToConn s)" for s x
    by (cases x) (auto simp: clean_defs call_defs Let_def session_key_empty glen_zero gsweep_nil)
qed

section \<open>What a lookup finds\<close>

text \<open>The calls that store or delete under the key of a lookup, and the last of them.\<close>

fun about_account :: "int \<Rightarrow> string \<Rightarrow> ws_call \<Rightarrow> bool" where
  "about_account g rid (BindAccount n now g' rid' a ttl) = (g' = g \<and> trim_space rid' = trim_space rid \<and> 0 < a)"
| "about_account g rid (DeleteAccount g' rid') = (g' = g \<and> trim_space rid' = trim_space rid)"
| "about_account g rid _ = False"

fun about_conn :: "string \<Rightarrow> ws_call \<Rightarrow> bool" where
  "about_conn rid (BindConn n now rid' c ttl) = (trim_space rid' = trim_space rid \<and> trim_space c \<noteq> [])"
| "about_conn rid (DeleteConn rid') = (trim_space rid' = trim_space rid)"
| "about_conn rid _ = False"

fun about_turn_state :: "int \<Rightarrow> string \<Rightarrow> ws_call \<Rightarrow> bool" where
  "about_turn_state g h (BindTurnState n now g' h' ts ttl) =
     (g' = g \<and> trim_space h' = trim_space h \<and> trim_space ts \<noteq> [])"
| "about_turn_state g h (DeleteTurnState g' h') = (g' = g \<and> trim_space h' = trim_space h)"
| "about_turn_state g h _ = False"

fun about_session :: "int \<Rightarrow> string \<Rightarrow> ws_call \<Rightarrow> bool" where
  "about_session g h (BindSession n now g' h' c ttl) =
     (g' = g \<and> trim_space h' = trim_space h \<and> trim_space c \<noteq> [])"
| "about_session g h (DeleteSession g' h') = (g' = g \<and> trim_space h' = trim_space h)"
| "about_session g h _ = False"

definition last_call :: "(ws_call \<Rightarrow> bool) \<Rightarrow> ws_call list \<Rightarrow> ws_call option" where
  "last_call P history = find P (rev history)"

lemma last_callD: "last_call P history = Some x \<Longrightarrow> P x"
  unfolding last_call_def by (metis find_Some_iff)

lemma colon_key_inject:
  assumes "show_int g @ CHR '':'' # h = show_int g' @ CHR '':'' # h'"
  shows "g = g' \<and> h = h'"
proof -
  have w: "takeWhile (\<lambda>c. c \<noteq> CHR '':'') (show_int k @ CHR '':'' # r) = show_int k" for k r
    using show_int_no_colon [of k] by (auto simp: takeWhile_append)
  from arg_cong [OF assms, of "takeWhile (\<lambda>c. c \<noteq> CHR '':'')"] have "show_int g = show_int g'" by (simp only: w)
  with assms show ?thesis by (auto dest: show_int_inject)
qed

lemma account_key_eq:
  "openAIWSResponseAccountMapKey g rid = openAIWSResponseAccountMapKey g' rid' \<longleftrightarrow> g = g' \<and> rid = rid'"
  using colon_key_inject [of g rid g' rid'] unfolding openAIWSResponseAccountMapKey_def append_Cons append_Nil by blast

lemma session_key:
  "openAIWSSessionTurnStateKey g h = (if trim_space h = [] then [] else openAIWSResponseAccountMapKey g (trim_space h))"
  by (simp add: openAIWSSessionTurnStateKey_def openAIWSResponseAccountMapKey_def Let_def)

lemma session_key_eq:
  "trim_space h' \<noteq> [] \<Longrightarrow> openAIWSSessionTurnStateKey g h = openAIWSSessionTurnStateKey g' h' \<longleftrightarrow>
     g = g' \<and> trim_space h = trim_space h'"
  by (auto simp: session_key account_key_eq) (simp_all add: openAIWSResponseAccountMapKey_def)

lemma op_on_about:
  "trim_space rid \<noteq> [] \<Longrightarrow> op_on (openAIWSResponseAccountMapKey g (trim_space rid)) (account_op x) = about_account g rid x"
  "trim_space rid \<noteq> [] \<Longrightarrow> op_on (trim_space rid) (conn_op x) = about_conn rid x"
  "trim_space h \<noteq> [] \<Longrightarrow> op_on (openAIWSSessionTurnStateKey g h) (turn_state_op x) = about_turn_state g h x"
  "trim_space h \<noteq> [] \<Longrightarrow> op_on (openAIWSSessionTurnStateKey g h) (session_op x) = about_session g h x"
  subgoal by (cases x) (auto simp: account_key_eq)
  subgoal by (cases x) auto
  subgoal by (cases x) (auto simp: session_key_eq)
  subgoal by (cases x) (auto simp: session_key_eq)
  done

text \<open>The clean-up of the lookup itself is one more stretch of the history.\<close>

lemma run_cleanup:
  "\<exists>cs. maybeCleanup r (ws_run t0 history) = ws_run t0 (history @ cs) \<and> (cs = [] \<or> cs = cleanup_calls r)"
  by (rule exI [of _ "if cleanup_due (cr_swapped r) (cr_now r) (ws_run t0 history) then cleanup_calls r else []"])
    (simp add: ws_run_def cleanup_is_calls)

lemma last_call_cleanup:
  assumes "cs = [] \<or> cs = cleanup_calls r"
  shows "last_call (about_account g rid) (history @ cs) = last_call (about_account g rid) history"
    and "last_call (about_conn rid) (history @ cs) = last_call (about_conn rid) history"
    and "last_call (about_turn_state g h) (history @ cs) = last_call (about_turn_state g h) history"
    and "last_call (about_session g h) (history @ cs) = last_call (about_session g h) history"
  using assms by (auto simp: last_call_def cleanup_calls_def)

lemma new_store_empty:
  "wss_responseToAccount (NewOpenAIWSStateStore t0) = []" "wss_responseToConn (NewOpenAIWSStateStore t0) = []"
  "wss_sessionToTurnState (NewOpenAIWSStateStore t0) = []" "wss_sessionToConn (NewOpenAIWSStateStore t0) = []"
  by (simp_all add: NewOpenAIWSStateStore_def)

lemma account_found:
  assumes k: "trim_space rid \<noteq> []"
    and f: "gget (wss_responseToAccount (ws_run t0 history)) (openAIWSResponseAccountMapKey g (trim_space rid)) = Some b"
  shows "\<exists>n t rid' ttl. last_call (about_account g rid) history = Some (BindAccount n t g rid' (oab_accountID b) ttl) \<and>
     oab_expiresAt b = t + normalizeOpenAIWSTTL ttl"
proof -
  from accounts.found_was_stored [OF new_store_empty(1) f [unfolded ws_run_def]] obtain x n where
    x: "last_call (about_account g rid) history = Some x"
      "account_op x = Store n (openAIWSResponseAccountMapKey g (trim_space rid)) b"
    by (auto simp: op_on_about(1) [OF k] last_call_def)
  then show ?thesis by (cases x) (auto simp: account_key_eq split: if_splits)
qed

lemma conn_found:
  assumes k: "trim_space rid \<noteq> []"
    and f: "gget (wss_responseToConn (ws_run t0 history)) (trim_space rid) = Some b"
  shows "\<exists>n t rid' c ttl. last_call (about_conn rid) history = Some (BindConn n t rid' c ttl) \<and>
     ocb_connID b = trim_space c \<and> ocb_expiresAt b = t + normalizeOpenAIWSTTL ttl"
proof -
  from conns.found_was_stored [OF new_store_empty(2) f [unfolded ws_run_def]] obtain x n where
    x: "last_call (about_conn rid) history = Some x" "conn_op x = Store n (trim_space rid) b"
    by (auto simp: op_on_about(2) [OF k] last_call_def)
  then show ?thesis by (cases x) (auto split: if_splits)
qed

lemma turn_state_found:
  assumes k: "trim_space h \<noteq> []"
    and f: "gget (wss_sessionToTurnState (ws_run t0 history)) (openAIWSSessionTurnStateKey g h) = Some b"
  shows "\<exists>n t h' ts ttl. last_call (about_turn_state g h) history = Some (BindTurnState n t g h' ts ttl) \<and>
     otb_turnState b = trim_space ts \<and> otb_expiresAt b = t + normalizeOpenAIWSTTL ttl"
proof -
  from turn_states.found_was_stored [OF new_store_empty(3) f [unfolded ws_run_def]] obtain x n where
    x: "last_call (about_turn_state g h) history = Some x"
      "turn_state_op x = Store n (openAIWSSessionTurnStateKey g h) b"
    by (auto simp: op_on_about(3) [OF k] last_call_def)
  then show ?thesis by (cases x) (auto simp: session_key_eq [OF k] split: if_splits)
qed

lemma session_found:
  assumes k: "trim_space h \<noteq> []"
    and f: "gget (wss_sessionToConn (ws_run t0 history)) (openAIWSSessionTurnStateKey g h) = Some b"
  shows "\<exists>n t h' c ttl. last_call (about_session g h) history = Some (BindSession n t g h' c ttl) \<and>
     osb_connID b = trim_space c \<and> osb_expiresAt b = t + normalizeOpenAIWSTTL ttl"
proof -
  from sessions.found_was_stored [OF new_store_empty(4) f [unfolded ws_run_def]] obtain x n where
    x: "last_call (about_session g h) history = Some x" "session_op x = Store n (openAIWSSessionTurnStateKey g h) b"
    by (auto simp: op_on_about(4) [OF k] last_call_def)
  then show ?thesis by (cases x) (auto simp: session_key_eq [OF k] split: if_splits)
qed

lemma lookup_account:
  assumes "snd (GetResponseAccount sha256 cache r now (ws_run t0 history) g rid) = a" and "a \<noteq> 0"
  shows "(\<exists>n t rid' ttl. last_call (about_account g rid) history = Some (BindAccount n t g rid' a ttl) \<and>
      now < t + normalizeOpenAIWSTTL ttl) \<or>
    (\<exists>c. cache = Some c \<and> 0 < a \<and>
      gc_GetSessionAccountID c g (openAIWSResponseAccountCacheKey sha256 (trim_space rid)) = Inr a)"
proof -
  obtain cs where cs: "maybeCleanup r (ws_run t0 history) = ws_run t0 (history @ cs)" "cs = [] \<or> cs = cleanup_calls r"
    using run_cleanup by blast
  have k: "trim_space rid \<noteq> []" using assms by (auto simp: GetResponseAccount_def normalizeOpenAIWSResponseID_def)
  note found = account_found [OF k, of t0 "history @ cs" g, unfolded last_call_cleanup(1) [OF cs(2)]]
  from assms k show ?thesis
    by (auto simp: GetResponseAccount_def normalizeOpenAIWSResponseID_def cs(1) Let_def time_before_def
        split: option.splits sum.splits if_splits dest: found)
qed

lemma lookup_conn:
  assumes "snd (GetResponseConn r now (ws_run t0 history) rid) = (x, True)"
  shows "\<exists>n t rid' c ttl. last_call (about_conn rid) history = Some (BindConn n t rid' c ttl) \<and>
    x = trim_space c \<and> now \<le> t + normalizeOpenAIWSTTL ttl"
proof -
  obtain cs where cs: "maybeCleanup r (ws_run t0 history) = ws_run t0 (history @ cs)" "cs = [] \<or> cs = cleanup_calls r"
    using run_cleanup by blast
  have k: "trim_space rid \<noteq> []" using assms by (auto simp: GetResponseConn_def normalizeOpenAIWSResponseID_def)
  note found = conn_found [OF k, of t0 "history @ cs", unfolded last_call_cleanup(2) [OF cs(2)]]
  from assms k show ?thesis
    by (auto simp: GetResponseConn_def normalizeOpenAIWSResponseID_def cs(1) Let_def time_after_def
        split: option.splits if_splits dest!: found)
qed

lemma lookup_turn_state:
  assumes "snd (GetSessionTurnState r now (ws_run t0 history) g h) = (x, True)"
  shows "\<exists>n t h' ts ttl. last_call (about_turn_state g h) history = Some (BindTurnState n t g h' ts ttl) \<and>
    x = trim_space ts \<and> now \<le> t + normalizeOpenAIWSTTL ttl"
proof -
  obtain cs where cs: "maybeCleanup r (ws_run t0 history) = ws_run t0 (history @ cs)" "cs = [] \<or> cs = cleanup_calls r"
    using run_cleanup by blast
  have k: "trim_space h \<noteq> []" using assms by (auto simp: GetSessionTurnState_def session_key_empty)
  note found = turn_state_found [OF k, of t0 "history @ cs" g, unfolded last_call_cleanup(3) [OF cs(2)]]
  from assms k show ?thesis
    by (auto simp: GetSessionTurnState_def session_key_empty cs(1) Let_def time_after_def
        split: option.splits if_splits dest!: found)
qed

lemma lookup_session:
  assumes "snd (GetSessionConn r now (ws_run t0 history) g h) = (x, True)"
  shows "\<exists>n t h' c ttl. last_call (about_session g h) history = Some (BindSession n t g h' c ttl) \<and>
    x = trim_space c \<and> now \<le> t + normalizeOpenAIWSTTL ttl"
proof -
  obtain cs where cs: "maybeCleanup r (ws_run t0 history) = ws_run t0 (history @ cs)" "cs = [] \<or> cs = cleanup_calls r"
    using run_cleanup by blast
  have k: "trim_space h \<noteq> []" using assms by (auto simp: GetSessionConn_def session_key_empty)
  note found = session_found [OF k, of t0 "history @ cs" g, unfolded last_call_cleanup(4) [OF cs(2)]]
  from assms k show ?thesis
    by (auto simp: GetSessionConn_def session_key_empty cs(1) Let_def time_after_def
        split: option.splits if_splits dest!: found)
qed

section \<open>What a lookup cannot miss\<close>

text \<open>The time of a clean-up, and the names under which a call stores.\<close>

fun cleanup_time :: "ws_call \<Rightarrow> time option" where
  "cleanup_time (CleanAccounts ord now) = Some now"
| "cleanup_time (CleanConns ord now) = Some now"
| "cleanup_time (CleanTurnStates ord now) = Some now"
| "cleanup_time (CleanSessionConns ord now) = Some now"
| "cleanup_time _ = None"

fun account_names :: "ws_call \<Rightarrow> (int \<times> string) list" where
  "account_names (BindAccount n now g rid a ttl) = [(g, trim_space rid)]"
| "account_names _ = []"

fun conn_names :: "ws_call \<Rightarrow> string list" where
  "conn_names (BindConn n now rid c ttl) = [trim_space rid]"
| "conn_names _ = []"

fun turn_state_names :: "ws_call \<Rightarrow> (int \<times> string) list" where
  "turn_state_names (BindTurnState n now g h ts ttl) = [(g, trim_space h)]"
| "turn_state_names _ = []"

fun session_names :: "ws_call \<Rightarrow> (int \<times> string) list" where
  "session_names (BindSession n now g h c ttl) = [(g, trim_space h)]"
| "session_names _ = []"

definition few :: "(ws_call \<Rightarrow> 'a list) \<Rightarrow> ws_call list \<Rightarrow> bool" where
  "few names history \<longleftrightarrow> card (set (concat (map names history))) \<le> 65536"

text \<open>No clean-up has read a later clock.\<close>

definition cleaned_by :: "time \<Rightarrow> ws_call list \<Rightarrow> bool" where
  "cleaned_by now history \<longleftrightarrow> list_all (\<lambda>x. case cleanup_time x of None \<Rightarrow> True | Some t \<Rightarrow> t \<le> now) history"

lemma cleaned_by_cleanup:
  "cleaned_by now history \<Longrightarrow> cr_now r \<le> now \<Longrightarrow> cs = [] \<or> cs = cleanup_calls r \<Longrightarrow> cleaned_by now (history @ cs)"
  by (auto simp: cleaned_by_def cleanup_calls_def)

lemma few_cleanup:
  assumes "cs = [] \<or> cs = cleanup_calls r"
  shows "few account_names (history @ cs) = few account_names history"
    and "few conn_names (history @ cs) = few conn_names history"
    and "few turn_state_names (history @ cs) = few turn_state_names history"
    and "few session_names (history @ cs) = few session_names history"
  using assms by (auto simp: few_def cleanup_calls_def)

lemma sweep_times:
  "cleaned_by now history \<Longrightarrow> y \<in> set history \<Longrightarrow> account_op y = Sweep ord t \<Longrightarrow> t \<le> now"
  "cleaned_by now history \<Longrightarrow> y \<in> set history \<Longrightarrow> conn_op y = Sweep ord t \<Longrightarrow> t \<le> now"
  "cleaned_by now history \<Longrightarrow> y \<in> set history \<Longrightarrow> turn_state_op y = Sweep ord t \<Longrightarrow> t \<le> now"
  "cleaned_by now history \<Longrightarrow> y \<in> set history \<Longrightarrow> session_op y = Sweep ord t \<Longrightarrow> t \<le> now"
  proof -
  assume c: "cleaned_by now history" "y \<in> set history"
  have "cleanup_time y = Some t \<Longrightarrow> t \<le> now" using c by (auto simp: cleaned_by_def list_all_iff split: option.splits)
  then show "account_op y = Sweep ord t \<Longrightarrow> t \<le> now" "conn_op y = Sweep ord t \<Longrightarrow> t \<le> now"
    "turn_state_op y = Sweep ord t \<Longrightarrow> t \<le> now" "session_op y = Sweep ord t \<Longrightarrow> t \<le> now"
    by (cases y; simp split: if_splits)+
qed

lemma few_keys:
  "few account_names history \<Longrightarrow> card (accounts.stored_keys history) \<le> 65536"
  "few conn_names history \<Longrightarrow> card (conns.stored_keys history) \<le> 65536"
  "few turn_state_names history \<Longrightarrow> card (turn_states.stored_keys history) \<le> 65536"
  "few session_names history \<Longrightarrow> card (sessions.stored_keys history) \<le> 65536"
proof -
  have "stored_key (account_op x) \<subseteq> (\<lambda>(g, r). openAIWSResponseAccountMapKey g r) ` set (account_names x)" for x
    by (cases x) auto
  then show "few account_names history \<Longrightarrow> card (accounts.stored_keys history) \<le> 65536"
    using accounts.stored_keys_card order.trans unfolding few_def by blast
  have "stored_key (conn_op x) \<subseteq> (\<lambda>r. r) ` set (conn_names x)" for x by (cases x) auto
  then show "few conn_names history \<Longrightarrow> card (conns.stored_keys history) \<le> 65536"
    using conns.stored_keys_card order.trans unfolding few_def by blast
  have "stored_key (turn_state_op x) \<subseteq> (\<lambda>(g, r). openAIWSResponseAccountMapKey g r) ` set (turn_state_names x)" for x
    by (cases x) (auto simp: session_key)
  then show "few turn_state_names history \<Longrightarrow> card (turn_states.stored_keys history) \<le> 65536"
    using turn_states.stored_keys_card order.trans unfolding few_def by blast
  have "stored_key (session_op x) \<subseteq> (\<lambda>(g, r). openAIWSResponseAccountMapKey g r) ` set (session_names x)" for x
    by (cases x) (auto simp: session_key)
  then show "few session_names history \<Longrightarrow> card (sessions.stored_keys history) \<le> 65536"
    using sessions.stored_keys_card order.trans unfolding few_def by blast
qed

lemma account_kept:
  assumes k: "trim_space rid \<noteq> []" and l: "last_call (about_account g rid) history = Some (BindAccount n t g rid' a ttl)"
    and t: "cleaned_by now history" "now < t + normalizeOpenAIWSTTL ttl" and f: "few account_names history"
  shows "gget (wss_responseToAccount (ws_run t0 history)) (openAIWSResponseAccountMapKey g (trim_space rid)) =
     Some \<lparr>oab_accountID = a, oab_expiresAt = t + normalizeOpenAIWSTTL ttl\<rparr> \<and> 0 < a"
proof -
  have p: "about_account g rid (BindAccount n t g rid' a ttl)" by (rule last_callD [OF l])
  then have "account_op (BindAccount n t g rid' a ttl) = Store n (openAIWSResponseAccountMapKey g (trim_space rid))
      \<lparr>oab_accountID = a, oab_expiresAt = t + normalizeOpenAIWSTTL ttl\<rparr>" using k by simp
  from accounts.stored_is_found [OF new_store_empty(1) _ this _ few_keys(1) [OF f]] l p sweep_times(1) [OF t(1)] t(2)
  show ?thesis by (fastforce simp: ws_run_def last_call_def op_on_about(1) [OF k])
qed

lemma conn_kept:
  assumes k: "trim_space rid \<noteq> []" and l: "last_call (about_conn rid) history = Some (BindConn n t rid' c ttl)"
    and t: "cleaned_by now history" "now \<le> t + normalizeOpenAIWSTTL ttl" and f: "few conn_names history"
  shows "gget (wss_responseToConn (ws_run t0 history)) (trim_space rid) =
     Some \<lparr>ocb_connID = trim_space c, ocb_expiresAt = t + normalizeOpenAIWSTTL ttl\<rparr> \<and> trim_space c \<noteq> []"
proof -
  have p: "about_conn rid (BindConn n t rid' c ttl)" by (rule last_callD [OF l])
  then have "conn_op (BindConn n t rid' c ttl) = Store n (trim_space rid)
      \<lparr>ocb_connID = trim_space c, ocb_expiresAt = t + normalizeOpenAIWSTTL ttl\<rparr>" using k by simp
  from conns.stored_is_found [OF new_store_empty(2) _ this _ few_keys(2) [OF f]] l p sweep_times(2) [OF t(1)] t(2)
  show ?thesis by (fastforce simp: ws_run_def last_call_def op_on_about(2) [OF k])
qed

lemma turn_state_kept:
  assumes k: "trim_space h \<noteq> []" and l: "last_call (about_turn_state g h) history = Some (BindTurnState n t g h' ts ttl)"
    and t: "cleaned_by now history" "now \<le> t + normalizeOpenAIWSTTL ttl" and f: "few turn_state_names history"
  shows "gget (wss_sessionToTurnState (ws_run t0 history)) (openAIWSSessionTurnStateKey g h) =
     Some \<lparr>otb_turnState = trim_space ts, otb_expiresAt = t + normalizeOpenAIWSTTL ttl\<rparr> \<and> trim_space ts \<noteq> []"
proof -
  have p: "about_turn_state g h (BindTurnState n t g h' ts ttl)" by (rule last_callD [OF l])
  then have "turn_state_op (BindTurnState n t g h' ts ttl) = Store n (openAIWSSessionTurnStateKey g h)
      \<lparr>otb_turnState = trim_space ts, otb_expiresAt = t + normalizeOpenAIWSTTL ttl\<rparr>" using k by (simp add: session_key)
  from turn_states.stored_is_found [OF new_store_empty(3) _ this _ few_keys(3) [OF f]] l p sweep_times(3) [OF t(1)] t(2)
  show ?thesis by (fastforce simp: ws_run_def last_call_def op_on_about(3) [OF k])
qed

lemma session_kept:
  assumes k: "trim_space h \<noteq> []" and l: "last_call (about_session g h) history = Some (BindSession n t g h' c ttl)"
    and t: "cleaned_by now history" "now \<le> t + normalizeOpenAIWSTTL ttl" and f: "few session_names history"
  shows "gget (wss_sessionToConn (ws_run t0 history)) (openAIWSSessionTurnStateKey g h) =
     Some \<lparr>osb_connID = trim_space c, osb_expiresAt = t + normalizeOpenAIWSTTL ttl\<rparr> \<and> trim_space c \<noteq> []"
proof -
  have p: "about_session g h (BindSession n t g h' c ttl)" by (rule last_callD [OF l])
  then have "session_op (BindSession n t g h' c ttl) = Store n (openAIWSSessionTurnStateKey g h)
      \<lparr>osb_connID = trim_space c, osb_expiresAt = t + normalizeOpenAIWSTTL ttl\<rparr>" using k by (simp add: session_key)
  from sessions.stored_is_found [OF new_store_empty(4) _ this _ few_keys(4) [OF f]] l p sweep_times(4) [OF t(1)] t(2)
  show ?thesis by (fastforce simp: ws_run_def last_call_def op_on_about(4) [OF k])
qed

section \<open>The theorems\<close>

text \<open>
  C22. In every interleaving of calls and clean-ups each map holds at most 65536 bindings, and
  a lookup answers with what the last call for the same group and name stored, if it has not
  expired, or with nothing: never with a binding of another group, one that was replaced,
  deleted, or has expired. For the account of a response, Redis may answer instead, under the
  group and the hash of the same name.
\<close>

theorem ws_lookup_is_last_bind:
  "glen (wss_responseToAccount (ws_run t0 history)) \<le> 65536 \<and> glen (wss_responseToConn (ws_run t0 history)) \<le> 65536 \<and>
   glen (wss_sessionToTurnState (ws_run t0 history)) \<le> 65536 \<and> glen (wss_sessionToConn (ws_run t0 history)) \<le> 65536 \<and>
   (snd (GetResponseAccount sha256 cache r now (ws_run t0 history) g rid) = a \<and> a \<noteq> 0 \<longrightarrow>
      (\<exists>n t rid' ttl. last_call (about_account g rid) history = Some (BindAccount n t g rid' a ttl) \<and>
         now < t + normalizeOpenAIWSTTL ttl) \<or>
      (\<exists>c. cache = Some c \<and> 0 < a \<and>
         gc_GetSessionAccountID c g (openAIWSResponseAccountCacheKey sha256 (trim_space rid)) = Inr a)) \<and>
   (snd (GetResponseConn r now (ws_run t0 history) rid) = (x, True) \<longrightarrow>
      (\<exists>n t rid' c ttl. last_call (about_conn rid) history = Some (BindConn n t rid' c ttl) \<and>
         x = trim_space c \<and> now \<le> t + normalizeOpenAIWSTTL ttl)) \<and>
   (snd (GetSessionTurnState r now (ws_run t0 history) g h) = (x, True) \<longrightarrow>
      (\<exists>n t h' ts ttl. last_call (about_turn_state g h) history = Some (BindTurnState n t g h' ts ttl) \<and>
         x = trim_space ts \<and> now \<le> t + normalizeOpenAIWSTTL ttl)) \<and>
   (snd (GetSessionConn r now (ws_run t0 history) g h) = (x, True) \<longrightarrow>
      (\<exists>n t h' c ttl. last_call (about_session g h) history = Some (BindSession n t g h' c ttl) \<and>
         x = trim_space c \<and> now \<le> t + normalizeOpenAIWSTTL ttl))"
proof -
  have "glen (wss_responseToAccount (ws_run t0 history)) \<le> 65536" "glen (wss_responseToConn (ws_run t0 history)) \<le> 65536"
    "glen (wss_sessionToTurnState (ws_run t0 history)) \<le> 65536" "glen (wss_sessionToConn (ws_run t0 history)) \<le> 65536"
    unfolding ws_run_def
    by (rule accounts.run_room conns.run_room turn_states.run_room sessions.run_room; simp add: new_store_empty gm.ok_empty)+
  then show ?thesis
    using lookup_account [of sha256 cache r now t0 history g rid a] lookup_conn [of r now t0 history rid x]
      lookup_turn_state [of r now t0 history g h x] lookup_session [of r now t0 history g h x] by blast
qed

text \<open>
  C23. A binding is not lost early: while at most 65536 names have been bound, the last call for
  a name stored a binding, and its time is not over, a lookup finds it, with any clean-ups and
  calls for other names in between.
\<close>

theorem ws_binding_kept:
  assumes "cleaned_by now history" and "cr_now r \<le> now"
  shows "(trim_space rid \<noteq> [] \<and> few account_names history \<and>
      last_call (about_account g rid) history = Some (BindAccount n t g rid' a ttl) \<and> now < t + normalizeOpenAIWSTTL ttl \<longrightarrow>
      snd (GetResponseAccount sha256 cache r now (ws_run t0 history) g rid) = a) \<and>
    (trim_space rid \<noteq> [] \<and> few conn_names history \<and>
      last_call (about_conn rid) history = Some (BindConn n t rid' c ttl) \<and> now \<le> t + normalizeOpenAIWSTTL ttl \<longrightarrow>
      snd (GetResponseConn r now (ws_run t0 history) rid) = (trim_space c, True)) \<and>
    (trim_space h \<noteq> [] \<and> few turn_state_names history \<and>
      last_call (about_turn_state g h) history = Some (BindTurnState n t g h' ts ttl) \<and> now \<le> t + normalizeOpenAIWSTTL ttl \<longrightarrow>
      snd (GetSessionTurnState r now (ws_run t0 history) g h) = (trim_space ts, True)) \<and>
    (trim_space h \<noteq> [] \<and> few session_names history \<and>
      last_call (about_session g h) history = Some (BindSession n t g h' c ttl) \<and> now \<le> t + normalizeOpenAIWSTTL ttl \<longrightarrow>
      snd (GetSessionConn r now (ws_run t0 history) g h) = (trim_space c, True))"
proof -
  obtain cs where cs: "maybeCleanup r (ws_run t0 history) = ws_run t0 (history @ cs)" "cs = [] \<or> cs = cleanup_calls r"
    using run_cleanup by blast
  note by_now = cleaned_by_cleanup [OF assms cs(2)]
  show ?thesis
    using account_kept [of rid g "history @ cs" n t rid' a ttl now t0] conn_kept [of rid "history @ cs" n t rid' c ttl now t0]
      turn_state_kept [of h g "history @ cs" n t h' ts ttl now t0] session_kept [of h g "history @ cs" n t h' c ttl now t0]
      by_now
    by (auto simp: few_cleanup [OF cs(2)] last_call_cleanup [OF cs(2)] cs(1) GetResponseAccount_def GetResponseConn_def
        GetSessionTurnState_def GetSessionConn_def normalizeOpenAIWSResponseID_def session_key_empty time_after_def
        time_before_def Let_def)
qed

text \<open>Two groups use the same session name; the clean-up comes a minute later.\<close>

definition example_calls :: "ws_call list" where
  "example_calls = [BindSession 0 0 1 ''s'' '' c1'' (10 * minute), BindSession 0 0 2 ''s '' ''c2'' 0,
     CleanupGate minute True, CleanSessionConns [''2:s'', ''1:s''] minute, DeleteSession 3 ''s'']"

theorem ws_lookup_is_last_bind_witness:
  "snd (GetSessionConn no_cleanup (2 * minute) (ws_run 0 example_calls) 1 ''s'') = (''c1'', True) \<and>
   (\<exists>n t h' c ttl. last_call (about_session 1 ''s'') example_calls = Some (BindSession n t 1 h' c ttl) \<and>
      ''c1'' = trim_space c \<and> 2 * minute \<le> t + normalizeOpenAIWSTTL ttl)"
proof -
  have "snd (GetSessionConn no_cleanup (2 * minute) (ws_run 0 example_calls) 1 ''s'') = (''c1'', True)" by code_simp
  with ws_lookup_is_last_bind [of 0 example_calls id None no_cleanup "2 * minute" 1 "''s''" 0 "''c1''" "''s''"]
  show ?thesis by blast
qed

theorem ws_binding_kept_witness:
  "snd (GetSessionConn no_cleanup (2 * minute) (ws_run 0 example_calls) 2 ''s'') = (''c2'', True)"
proof -
  have "cleaned_by (2 * minute) example_calls" "cr_now no_cleanup \<le> 2 * minute" "trim_space ''s'' \<noteq> []"
    "2 * minute \<le> 0 + normalizeOpenAIWSTTL 0" "trim_space ''c2'' = ''c2''"
    "last_call (about_session 2 ''s'') example_calls = Some (BindSession 0 0 2 ''s '' ''c2'' 0)"
    by code_simp+
  moreover have "few session_names example_calls"
    by (simp add: few_def example_calls_def card_insert_if)
  ultimately show ?thesis
    using ws_binding_kept [of "2 * minute" example_calls no_cleanup "[]" 2 0 0 "[]" 0 0 id None 0 "''c2''" "''s''" "''s ''"]
    by auto
qed

end
