(* ===== verification/Redis_Store.thy ===== *)
theory Redis_Store
  imports Strconv Interleaving
begin

text \<open>
  Sorted sets and counters with deadlines, as the Redis commands of repository/concurrency_cache.go
  use them, the Lua scripts of that file, which run atomically, and programs that call commands one
  after the other, so that the calls of several programs interleave.
\<close>

section \<open>Keys with deadlines\<close>

text \<open>
  A sorted set maps members to scores; a missing key is an empty set. A deadline is in milliseconds
  of the server's clock, and a key is gone when it has passed. The cache uses no key for both a set
  and a counter (theorem \<open>cache_keys_typed\<close> of \<open>Concurrency_Claims\<close>), so the two are apart here.
\<close>

type_synonym zset = "(string, int) gomap"

record redis =
  rk_zsets :: "string \<Rightarrow> zset \<times> int option"
  rk_strings :: "string \<Rightarrow> (int \<times> int option) option"

definition empty_redis :: redis where
  "empty_redis = \<lparr>rk_zsets = (\<lambda>k. ([], None)), rk_strings = (\<lambda>k. None)\<rparr>"

definition expired :: "int \<Rightarrow> int option \<Rightarrow> bool" where
  "expired clk dl = (case dl of None \<Rightarrow> False | Some d \<Rightarrow> d \<le> clk)"

definition zset :: "int \<Rightarrow> redis \<Rightarrow> string \<Rightarrow> zset" where
  "zset clk db key = (if expired clk (snd (rk_zsets db key)) then [] else fst (rk_zsets db key))"

definition set_zset :: "int \<Rightarrow> string \<Rightarrow> zset \<Rightarrow> redis \<Rightarrow> redis" where
  "set_zset clk key m db =
     db\<lparr>rk_zsets := (rk_zsets db)(key := (m,
       if m = [] \<or> expired clk (snd (rk_zsets db key)) then None else snd (rk_zsets db key)))\<rparr>"

definition zadd :: "int \<Rightarrow> string \<Rightarrow> (string \<times> int) list \<Rightarrow> redis \<Rightarrow> redis" where
  "zadd clk key ps db = set_zset clk key (foldl (\<lambda>m p. gput m (fst p) (snd p)) (zset clk db key) ps) db"

definition zrem :: "int \<Rightarrow> string \<Rightarrow> string list \<Rightarrow> redis \<Rightarrow> redis" where
  "zrem clk key ms db = set_zset clk key (filter (\<lambda>p. fst p \<notin> set ms) (zset clk db key)) db"

definition zremrangebyscore :: "int \<Rightarrow> string \<Rightarrow> int \<Rightarrow> redis \<Rightarrow> redis" where
  "zremrangebyscore clk key bound db = set_zset clk key (filter (\<lambda>p. bound < snd p) (zset clk db key)) db"

definition zcard :: "int \<Rightarrow> string \<Rightarrow> redis \<Rightarrow> int" where
  "zcard clk key db = int (glen (zset clk db key))"

definition zscore :: "int \<Rightarrow> string \<Rightarrow> string \<Rightarrow> redis \<Rightarrow> int option" where
  "zscore clk key member db = gget (zset clk db key) member"

definition get_count :: "int \<Rightarrow> string \<Rightarrow> redis \<Rightarrow> int option" where
  "get_count clk key db =
     (case rk_strings db key of Some (v, dl) \<Rightarrow> if expired clk dl then None else Some v | None \<Rightarrow> None)"

text \<open>\<open>INCRBY\<close> keeps the deadline of a key that is there.\<close>

definition incr_by :: "int \<Rightarrow> string \<Rightarrow> int \<Rightarrow> redis \<Rightarrow> redis" where
  "incr_by clk key d db =
     db\<lparr>rk_strings := (rk_strings db)(key :=
       (case get_count clk key db of None \<Rightarrow> Some (d, None)
        | Some v \<Rightarrow> Some (v + d, case rk_strings db key of Some (w, dl) \<Rightarrow> dl | None \<Rightarrow> None)))\<rparr>"

definition expire :: "int \<Rightarrow> string \<Rightarrow> int \<Rightarrow> redis \<Rightarrow> redis" where
  "expire clk key secs db =
     db\<lparr>rk_zsets := (if zset clk db key = [] then rk_zsets db
          else (rk_zsets db)(key := (zset clk db key, Some (clk + secs * 1000)))),
        rk_strings := (case get_count clk key db of None \<Rightarrow> rk_strings db
          | Some v \<Rightarrow> (rk_strings db)(key := Some (v, Some (clk + secs * 1000))))\<rparr>"

definition del :: "string list \<Rightarrow> redis \<Rightarrow> redis" where
  "del keys db =
     db\<lparr>rk_zsets := (\<lambda>k. if k \<in> set keys then ([], None) else rk_zsets db k),
        rk_strings := (\<lambda>k. if k \<in> set keys then None else rk_strings db k)\<rparr>"

definition clock_seconds :: "int \<Rightarrow> int" where
  "clock_seconds clk = clk div 1000"

section \<open>Scripts\<close>

definition acquireScript :: "string \<Rightarrow> string \<Rightarrow> int \<Rightarrow> int \<Rightarrow> string \<Rightarrow> int \<Rightarrow> redis \<Rightarrow> (bool \<times> int) \<times> redis" where
  "acquireScript key liveKey maxConcurrency ttl requestID clk db =
     (let now = clock_seconds clk;
          db = zremrangebyscore clk key (now - ttl) db;
          db = zremrangebyscore clk liveKey (now - 60) db
      in if zscore clk key requestID db \<noteq> None \<or> zcard clk key db + zcard clk liveKey db < maxConcurrency
         then ((True, now), expire clk key ttl (zadd clk key [(requestID, now)] db))
         else ((False, now), db))"

definition getCountScript :: "string \<Rightarrow> string \<Rightarrow> int \<Rightarrow> int \<Rightarrow> redis \<Rightarrow> int \<times> redis" where
  "getCountScript key liveKey ttl clk db =
     (let now = clock_seconds clk;
          db = zremrangebyscore clk key (now - ttl) db;
          db = zremrangebyscore clk liveKey (now - 60) db
      in (zcard clk key db + zcard clk liveKey db, db))"

text \<open>\<open>replacing\<close> is 1 when the caller holds regular slots that the lease replaces.\<close>

definition acquireLiveLeaseScript ::
  "string \<Rightarrow> string \<Rightarrow> string \<Rightarrow> string \<Rightarrow> string \<Rightarrow> int \<Rightarrow> int \<Rightarrow> int \<Rightarrow> string \<Rightarrow> int \<Rightarrow> int \<Rightarrow> redis \<Rightarrow> bool \<times> redis" where
  "acquireLiveLeaseScript accountRegular accountLive userRegular userLive apiLive accountMax userMax ttl leaseID replacing clk db =
     (let now = clock_seconds clk;
          liveExpireBefore = now - ttl;
          db = zremrangebyscore clk accountLive liveExpireBefore db;
          db = zremrangebyscore clk userLive liveExpireBefore db;
          db = zremrangebyscore clk apiLive liveExpireBefore db
      in if zscore clk accountLive leaseID db \<noteq> None then (True, db)
         else
           let accountCount = zcard clk accountRegular db + zcard clk accountLive db;
               userCount = zcard clk userRegular db + zcard clk userLive db;
               allowance = (if replacing = 1 then 1 else 0)
           in if 0 < accountMax \<and> accountMax + allowance \<le> accountCount then (False, db)
              else if 0 < userMax \<and> userMax + allowance \<le> userCount then (False, db)
              else
                let db = zadd clk accountLive [(leaseID, now)] db;
                    db = zadd clk userLive [(leaseID, now)] db;
                    db = zadd clk apiLive [(leaseID, now)] db
                in (True, expire clk apiLive ttl (expire clk userLive ttl (expire clk accountLive ttl db))))"

text \<open>The first loop of the script trims key by key and stops at one without the lease.\<close>

fun confirm_lease :: "string list \<Rightarrow> int \<Rightarrow> string \<Rightarrow> int \<Rightarrow> redis \<Rightarrow> bool \<times> redis" where
  "confirm_lease [] expireBefore leaseID clk db = (True, db)"
| "confirm_lease (key # keys) expireBefore leaseID clk db =
     (let db = zremrangebyscore clk key expireBefore db
      in if zscore clk key leaseID db = None then (False, db) else confirm_lease keys expireBefore leaseID clk db)"

definition refreshLiveLeaseScript :: "string list \<Rightarrow> int \<Rightarrow> string \<Rightarrow> int \<Rightarrow> redis \<Rightarrow> bool \<times> redis" where
  "refreshLiveLeaseScript keys ttl leaseID clk db =
     (let now = clock_seconds clk in
      case confirm_lease keys (now - ttl) leaseID clk db of
        (False, db) \<Rightarrow> (False, db)
      | (True, db) \<Rightarrow> (True, fold (\<lambda>key db. expire clk key ttl (zadd clk key [(leaseID, now)] db)) keys db))"

definition trackSlotScript :: "string \<Rightarrow> int \<Rightarrow> string \<Rightarrow> int \<Rightarrow> redis \<Rightarrow> redis" where
  "trackSlotScript key ttl requestID clk db =
     (let now = clock_seconds clk
      in expire clk key ttl (zadd clk key [(requestID, now)] (zremrangebyscore clk key (now - ttl) db)))"

definition acquireOpenAIWSIngressLeaseScript :: "string \<Rightarrow> int \<Rightarrow> int \<Rightarrow> string \<Rightarrow> int \<Rightarrow> redis \<Rightarrow> bool \<times> redis" where
  "acquireOpenAIWSIngressLeaseScript key maxConnections ttl leaseID clk db =
     (let now = clock_seconds clk;
          db = zremrangebyscore clk key (now - ttl) db
      in if zscore clk key leaseID db \<noteq> None \<or> zcard clk key db < maxConnections
         then (True, expire clk key ttl (zadd clk key [(leaseID, now)] db))
         else (False, db))"

definition refreshOpenAIWSIngressLeaseScript :: "string \<Rightarrow> int \<Rightarrow> string \<Rightarrow> int \<Rightarrow> redis \<Rightarrow> bool \<times> redis" where
  "refreshOpenAIWSIngressLeaseScript key ttl leaseID clk db =
     (let now = clock_seconds clk;
          db = zremrangebyscore clk key (now - ttl) db
      in if zscore clk key leaseID db = None then (False, db)
         else (True, expire clk key ttl (zadd clk key [(leaseID, now)] db)))"

definition incrementWaitScript :: "string \<Rightarrow> int \<Rightarrow> int \<Rightarrow> int \<Rightarrow> redis \<Rightarrow> (bool \<times> int) \<times> redis" where
  "incrementWaitScript key maxWait ttl clk db =
     (let current = (case get_count clk key db of None \<Rightarrow> 0 | Some v \<Rightarrow> v);
          now = clock_seconds clk
      in if maxWait \<le> current then ((False, now), db)
         else ((True, now), expire clk key ttl (incr_by clk key 1 db)))"

text \<open>The script of the account queue has the same body.\<close>

definition incrementAccountWaitScript :: "string \<Rightarrow> int \<Rightarrow> int \<Rightarrow> int \<Rightarrow> redis \<Rightarrow> (bool \<times> int) \<times> redis" where
  "incrementAccountWaitScript key maxWait ttl clk db =
     (let current = (case get_count clk key db of None \<Rightarrow> 0 | Some v \<Rightarrow> v);
          now = clock_seconds clk
      in if maxWait \<le> current then ((False, now), db)
         else ((True, now), expire clk key ttl (incr_by clk key 1 db)))"

definition decrementWaitScript :: "string \<Rightarrow> int \<Rightarrow> redis \<Rightarrow> redis" where
  "decrementWaitScript key clk db =
     (case get_count clk key db of None \<Rightarrow> db | Some v \<Rightarrow> if 0 < v then incr_by clk key (-1) db else db)"

definition cleanupExpiredSlotsScript :: "string \<Rightarrow> int \<Rightarrow> int \<Rightarrow> redis \<Rightarrow> redis" where
  "cleanupExpiredSlotsScript key ttl clk db =
     (let now = clock_seconds clk;
          db = zremrangebyscore clk key (now - ttl) db
      in if zcard clk key db = 0 then del [key] db else expire clk key ttl db)"

text \<open>The answer: how many members went and how many are left.\<close>

definition startupCleanupSlotScript :: "string \<Rightarrow> string \<Rightarrow> int \<Rightarrow> int \<Rightarrow> redis \<Rightarrow> (int \<times> int) \<times> redis" where
  "startupCleanupSlotScript key activePrefix slotTTL clk db =
     (let stale = filter (\<lambda>m. \<not> starts_with m activePrefix) (map fst (zset clk db key));
          db' = (if stale = [] then db else zrem clk key stale db)
      in ((int (length stale), zcard clk key db'),
          if zcard clk key db' = 0 then del [key] db' else expire clk key slotTTL db'))"

section \<open>Commands\<close>

datatype redis_cmd =
    TimeCmd
  | ZRemRangeByScore string int
  | ZCard string
  | ZAdd string "(string \<times> int) list"
  | ZRem string "string list"
  | ZRange string
  | ZRangeByScore string int nat
  | GetCmd string
  | DelCmd "string list"
  | ExistsCmd string
  | SetCmd string int
  | ScanCmd string
  | TxZRem "(string \<times> string) list"
  | Acquire string string int int string
  | GetCount string string int
  | AcquireLive string string string string string int int int string int
  | RefreshLive "string list" int string
  | Track string int string
  | AcquireIngress string int int string
  | RefreshIngress string int string
  | IncrementWait string int int
  | IncrementAccountWait string int int
  | DecrementWait string
  | CleanupExpired string int
  | StartupCleanup string string int

text \<open>\<open>RErr\<close> is an error of the connection; \<open>RTook\<close> is the answer of a script with the server's time.\<close>

datatype reply =
    RErr
  | ROk
  | RBool bool
  | RInt int
  | RNil
  | RTime int
  | RTook bool int
  | RCleaned int int
  | RMembers "string list"
  | RKeys "string list" bool

text \<open>
  What surrounds a command: the server's clock in milliseconds, a fault, and the page of keys that
  \<open>SCAN\<close> visits, with whether its cursor has come round to 0. Equal scores are ranged over in the
  order of insertion.
\<close>

record cmd_input =
  ci_clk :: int
  ci_fault :: fault
  ci_page :: "string list \<times> bool"

fun exec_cmd :: "int \<Rightarrow> string list \<times> bool \<Rightarrow> redis_cmd \<Rightarrow> redis \<Rightarrow> reply \<times> redis" where
  "exec_cmd clk page TimeCmd db = (RTime (clock_seconds clk), db)"
| "exec_cmd clk page (ZRemRangeByScore key bound) db = (ROk, zremrangebyscore clk key bound db)"
| "exec_cmd clk page (ZCard key) db = (RInt (zcard clk key db), db)"
| "exec_cmd clk page (ZAdd key ps) db = (ROk, zadd clk key ps db)"
| "exec_cmd clk page (ZRem key ms) db = (ROk, zrem clk key ms db)"
| "exec_cmd clk page (ZRange key) db = (RMembers (map fst (sort_key snd (zset clk db key))), db)"
| "exec_cmd clk page (ZRangeByScore key bound count) db =
     (RMembers (take count (map fst (sort_key snd (filter (\<lambda>p. snd p \<le> bound) (zset clk db key))))), db)"
| "exec_cmd clk page (GetCmd key) db = ((case get_count clk key db of None \<Rightarrow> RNil | Some v \<Rightarrow> RInt v), db)"
| "exec_cmd clk page (DelCmd keys) db = (ROk, del keys db)"
| "exec_cmd clk page (ExistsCmd key) db = (RBool (zset clk db key \<noteq> [] \<or> get_count clk key db \<noteq> None), db)"
| "exec_cmd clk page (SetCmd key v) db = (ROk, (del [key] db)\<lparr>rk_strings := (rk_strings db)(key \<mapsto> (v, None))\<rparr>)"
| "exec_cmd clk page (ScanCmd pre) db =
     (RKeys (filter (\<lambda>k. starts_with k pre \<and> (zset clk db k \<noteq> [] \<or> get_count clk k db \<noteq> None)) (fst page)) (snd page), db)"
| "exec_cmd clk page (TxZRem ps) db = (ROk, fold (\<lambda>p. zrem clk (fst p) [snd p]) ps db)"
| "exec_cmd clk page (Acquire key liveKey n ttl rid) db =
     (let (r, db') = acquireScript key liveKey n ttl rid clk db in (RTook (fst r) (snd r), db'))"
| "exec_cmd clk page (GetCount key liveKey ttl) db = apfst RInt (getCountScript key liveKey ttl clk db)"
| "exec_cmd clk page (AcquireLive ar al ur ul l an un ttl lid replacing) db =
     apfst RBool (acquireLiveLeaseScript ar al ur ul l an un ttl lid replacing clk db)"
| "exec_cmd clk page (RefreshLive keys ttl lid) db = apfst RBool (refreshLiveLeaseScript keys ttl lid clk db)"
| "exec_cmd clk page (Track key ttl rid) db = (ROk, trackSlotScript key ttl rid clk db)"
| "exec_cmd clk page (AcquireIngress key n ttl lid) db = apfst RBool (acquireOpenAIWSIngressLeaseScript key n ttl lid clk db)"
| "exec_cmd clk page (RefreshIngress key ttl lid) db = apfst RBool (refreshOpenAIWSIngressLeaseScript key ttl lid clk db)"
| "exec_cmd clk page (IncrementWait key n ttl) db =
     (let (r, db') = incrementWaitScript key n ttl clk db in (RTook (fst r) (snd r), db'))"
| "exec_cmd clk page (IncrementAccountWait key n ttl) db =
     (let (r, db') = incrementAccountWaitScript key n ttl clk db in (RTook (fst r) (snd r), db'))"
| "exec_cmd clk page (DecrementWait key) db = (ROk, decrementWaitScript key clk db)"
| "exec_cmd clk page (CleanupExpired key ttl) db = (ROk, cleanupExpiredSlotsScript key ttl clk db)"
| "exec_cmd clk page (StartupCleanup key pre ttl) db =
     (let (r, db') = startupCleanupSlotScript key pre ttl clk db in (RCleaned (fst r) (snd r), db'))"

section \<open>Programs\<close>

datatype 'a prog = Ret 'a | Call redis_cmd "reply \<Rightarrow> 'a prog"

primrec pbind :: "'a prog \<Rightarrow> ('a \<Rightarrow> 'b prog) \<Rightarrow> 'b prog" where
  "pbind (Ret x) g = g x"
| "pbind (Call c f) g = Call c (\<lambda>r. pbind (f r) g)"

definition pseq :: "'a prog \<Rightarrow> 'b prog \<Rightarrow> 'b prog" where
  "pseq p q = pbind p (\<lambda>x. q)"

text \<open>
  A step of a program is its next command. The log, newest first, has each command with the clock of
  the server and the answer that the program saw.
\<close>

type_synonym cmd_log = "(redis_cmd \<times> reply \<times> int) list"

fun prog_step :: "cmd_input \<Rightarrow> 'a prog \<Rightarrow> redis \<times> cmd_log \<Rightarrow> 'a prog \<times> redis \<times> cmd_log" where
  "prog_step inp (Ret x) s = (Ret x, s)"
| "prog_step inp (Call c f) (db, log) =
     (let (r, db') = exec_cmd (ci_clk inp) (ci_page inp) c db;
          seen = (if ci_fault inp = Works then r else RErr)
      in (f seen, took_effect (ci_fault inp) db db', (c, seen, ci_clk inp) # log))"

end
