(* ===== verification/Concurrency_Cache.thy ===== *)
theory Concurrency_Cache
  imports Redis_Store
begin

text \<open>
  Slots of accounts and users, leases of live sessions and of client WebSockets, queues of waiting
  requests, and the index of active accounts and users: repository/concurrency_cache.go, the part of
  service/concurrency_service.go that calls it, and the loop of handler/gateway_helper.go that waits
  for a slot. A function that calls Redis is a program of commands; \<open>None\<close> is an error.
\<close>

section \<open>Keys\<close>

abbreviation "accountSlotKeyPrefix \<equiv> ''concurrency:account:''"
abbreviation "userSlotKeyPrefix \<equiv> ''concurrency:user:''"
abbreviation "apiKeySlotKeyPrefix \<equiv> ''concurrency:api_key:''"
abbreviation "liveAccountSlotKeyPrefix \<equiv> ''concurrency:live:account:''"
abbreviation "liveUserSlotKeyPrefix \<equiv> ''concurrency:live:user:''"
abbreviation "liveAPIKeySlotKeyPrefix \<equiv> ''concurrency:live:api_key:''"
abbreviation "openAIWSIngressLeaseKeyPrefix \<equiv> ''concurrency:openai_ws_ingress:api_key:''"
abbreviation "waitQueueKeyPrefix \<equiv> ''concurrency:wait:''"
abbreviation "accountWaitKeyPrefix \<equiv> ''wait:account:''"
abbreviation "accountActiveIndexKey \<equiv> ''concurrency:account:active_index''"
abbreviation "userActiveIndexKey \<equiv> ''concurrency:user:active_index''"
abbreviation "legacyWaitSweepMarkerKey \<equiv> ''concurrency:startup:legacy_wait_sweep:v1''"

definition accountSlotKey :: "int \<Rightarrow> string" where "accountSlotKey i = accountSlotKeyPrefix @ show_int i"
definition userSlotKey :: "int \<Rightarrow> string" where "userSlotKey i = userSlotKeyPrefix @ show_int i"
definition apiKeySlotKey :: "int \<Rightarrow> string" where "apiKeySlotKey i = apiKeySlotKeyPrefix @ show_int i"
definition liveAccountSlotKey :: "int \<Rightarrow> string" where "liveAccountSlotKey i = liveAccountSlotKeyPrefix @ show_int i"
definition liveUserSlotKey :: "int \<Rightarrow> string" where "liveUserSlotKey i = liveUserSlotKeyPrefix @ show_int i"
definition liveAPIKeySlotKey :: "int \<Rightarrow> string" where "liveAPIKeySlotKey i = liveAPIKeySlotKeyPrefix @ show_int i"
definition openAIWSIngressLeaseKey :: "int \<Rightarrow> string" where "openAIWSIngressLeaseKey i = openAIWSIngressLeaseKeyPrefix @ show_int i"
definition waitQueueKey :: "int \<Rightarrow> string" where "waitQueueKey i = waitQueueKeyPrefix @ show_int i"
definition accountWaitKey :: "int \<Rightarrow> string" where "accountWaitKey i = accountWaitKeyPrefix @ show_int i"

record concurrencyCache =
  cc_slotTTLSeconds :: int
  cc_waitQueueTTLSeconds :: int

definition NewConcurrencyCache :: "int \<Rightarrow> int \<Rightarrow> concurrencyCache" where
  "NewConcurrencyCache slotTTLMinutes waitQueueTTLSeconds =
     (let slotTTLMinutes = (if slotTTLMinutes \<le> 0 then 15 else slotTTLMinutes) in
      \<lparr>cc_slotTTLSeconds = slotTTLMinutes * 60,
       cc_waitQueueTTLSeconds = (if waitQueueTTLSeconds \<le> 0 then slotTTLMinutes * 60 else waitQueueTTLSeconds)\<rparr>)"

record slotIndexSpec =
  sis_indexKey :: string
  sis_slotKey :: "int \<Rightarrow> string"
  sis_waitKey :: "int \<Rightarrow> string"

definition accountSlotIndex :: slotIndexSpec where
  "accountSlotIndex = \<lparr>sis_indexKey = accountActiveIndexKey, sis_slotKey = accountSlotKey, sis_waitKey = accountWaitKey\<rparr>"

definition userSlotIndex :: slotIndexSpec where
  "userSlotIndex = \<lparr>sis_indexKey = userActiveIndexKey, sis_slotKey = userSlotKey, sis_waitKey = waitQueueKey\<rparr>"

section \<open>Pipelines\<close>

text \<open>The commands of a pipeline are sent together and run one by one, other clients between them.\<close>

primrec pipeline :: "redis_cmd list \<Rightarrow> reply list prog" where
  "pipeline [] = Ret []"
| "pipeline (c # cs) = Call c (\<lambda>r. pbind (pipeline cs) (\<lambda>rs. Ret (r # rs)))"

definition card_of :: "reply \<Rightarrow> int" where
  "card_of r = (case r of RInt n \<Rightarrow> n | _ \<Rightarrow> 0)"

text \<open>
  \<open>Exec\<close> answers with the error of the first command that has one. A missing key is an error too, which
  the callers accept; errors of later commands are then not seen, and read as 0.
\<close>

definition pipe_failed :: "reply list \<Rightarrow> bool" where
  "pipe_failed rs \<longleftrightarrow> find (\<lambda>r. r = RErr \<or> r = RNil) rs = Some RErr"

text \<open>A waiting count that could be read and is positive.\<close>

definition positive_count :: "reply \<Rightarrow> int" where
  "positive_count r = max 0 (card_of r)"

section \<open>The index of active accounts and users\<close>

definition touchActiveIndexAt :: "string \<Rightarrow> int \<Rightarrow> int \<Rightarrow> unit prog" where
  "touchActiveIndexAt indexKey i expireAt =
     (if i \<le> 0 \<or> expireAt \<le> 0 then Ret () else Call (ZAdd indexKey [(show_int i, expireAt)]) (\<lambda>r. Ret ()))"

record activeIndexLoad =
  ail_id :: int
  ail_member :: string
  ail_slotCount :: int
  ail_waitCount :: int

definition activeIndexTTL :: "concurrencyCache \<Rightarrow> int \<Rightarrow> int \<Rightarrow> int" where
  "activeIndexTTL c slotCount waitCount =
     (let ttlSeconds = (if 0 < slotCount then cc_slotTTLSeconds c else 0)
      in if 0 < waitCount \<and> ttlSeconds < cc_waitQueueTTLSeconds c then cc_waitQueueTTLSeconds c else ttlSeconds)"

definition readActiveLoadForKey :: "concurrencyCache \<Rightarrow> int \<Rightarrow> string \<Rightarrow> string \<Rightarrow> int \<Rightarrow> activeIndexLoad option prog" where
  "readActiveLoadForKey c i slotKey waitKey now =
     pbind (pipeline [ZRemRangeByScore slotKey (now - cc_slotTTLSeconds c), ZCard slotKey, GetCmd waitKey])
       (\<lambda>rs. Ret (if pipe_failed rs then None
          else Some \<lparr>ail_id = i, ail_member = show_int i, ail_slotCount = card_of (rs ! 1), ail_waitCount = positive_count (rs ! 2)\<rparr>))"

definition refreshActiveIndex :: "concurrencyCache \<Rightarrow> string \<Rightarrow> int \<Rightarrow> string \<Rightarrow> string \<Rightarrow> unit prog" where
  "refreshActiveIndex c indexKey i slotKey waitKey =
     (if i \<le> 0 then Ret ()
      else Call TimeCmd (\<lambda>r. case r of
        RTime now \<Rightarrow>
          pbind (readActiveLoadForKey c i slotKey waitKey now) (\<lambda>l. case l of
            None \<Rightarrow> Ret ()
          | Some load \<Rightarrow>
              if ail_slotCount load = 0 \<and> ail_waitCount load \<le> 0 then Call (ZRem indexKey [show_int i]) (\<lambda>r. Ret ())
              else let ttlSeconds = activeIndexTTL c (ail_slotCount load) (ail_waitCount load) in
                if ttlSeconds \<le> 0 then Ret () else touchActiveIndexAt indexKey i (now + ttlSeconds))
      | _ \<Rightarrow> Ret ()))"

definition refreshAccountActiveIndex :: "concurrencyCache \<Rightarrow> int \<Rightarrow> unit prog" where
  "refreshAccountActiveIndex c i = refreshActiveIndex c accountActiveIndexKey i (accountSlotKey i) (accountWaitKey i)"

definition refreshUserActiveIndex :: "concurrencyCache \<Rightarrow> int \<Rightarrow> unit prog" where
  "refreshUserActiveIndex c i = refreshActiveIndex c userActiveIndexKey i (userSlotKey i) (waitQueueKey i)"

section \<open>Slots of accounts, users and API keys\<close>

definition touched :: "string \<Rightarrow> int \<Rightarrow> int \<Rightarrow> reply \<Rightarrow> bool option prog" where
  "touched indexKey i ttl r =
     (case r of
        RTook ok now \<Rightarrow> if ok then pseq (touchActiveIndexAt indexKey i (now + ttl)) (Ret (Some True)) else Ret (Some False)
      | _ \<Rightarrow> Ret None)"

definition AcquireAccountSlot :: "concurrencyCache \<Rightarrow> int \<Rightarrow> int \<Rightarrow> string \<Rightarrow> bool option prog" where
  "AcquireAccountSlot c accountID maxConcurrency requestID =
     Call (Acquire (accountSlotKey accountID) (liveAccountSlotKey accountID) maxConcurrency (cc_slotTTLSeconds c) requestID)
       (touched accountActiveIndexKey accountID (cc_slotTTLSeconds c))"

definition ReleaseAccountSlot :: "concurrencyCache \<Rightarrow> int \<Rightarrow> string \<Rightarrow> bool prog" where
  "ReleaseAccountSlot c accountID requestID =
     Call (ZRem (accountSlotKey accountID) [requestID])
       (\<lambda>r. if r = RErr then Ret False else pseq (refreshAccountActiveIndex c accountID) (Ret True))"

definition AcquireUserSlot :: "concurrencyCache \<Rightarrow> int \<Rightarrow> int \<Rightarrow> string \<Rightarrow> bool option prog" where
  "AcquireUserSlot c userID maxConcurrency requestID =
     Call (Acquire (userSlotKey userID) (liveUserSlotKey userID) maxConcurrency (cc_slotTTLSeconds c) requestID)
       (touched userActiveIndexKey userID (cc_slotTTLSeconds c))"

definition ReleaseUserSlot :: "concurrencyCache \<Rightarrow> int \<Rightarrow> string \<Rightarrow> bool prog" where
  "ReleaseUserSlot c userID requestID =
     Call (ZRem (userSlotKey userID) [requestID])
       (\<lambda>r. if r = RErr then Ret False else pseq (refreshUserActiveIndex c userID) (Ret True))"

definition int_reply :: "reply \<Rightarrow> int option" where
  "int_reply r = (case r of RInt n \<Rightarrow> Some n | _ \<Rightarrow> None)"

definition GetAccountConcurrency :: "concurrencyCache \<Rightarrow> int \<Rightarrow> int option prog" where
  "GetAccountConcurrency c i = Call (GetCount (accountSlotKey i) (liveAccountSlotKey i) (cc_slotTTLSeconds c)) (\<lambda>r. Ret (int_reply r))"

definition GetUserConcurrency :: "concurrencyCache \<Rightarrow> int \<Rightarrow> int option prog" where
  "GetUserConcurrency c i = Call (GetCount (userSlotKey i) (liveUserSlotKey i) (cc_slotTTLSeconds c)) (\<lambda>r. Ret (int_reply r))"

definition TrackAPIKeySlot :: "concurrencyCache \<Rightarrow> int \<Rightarrow> string \<Rightarrow> bool prog" where
  "TrackAPIKeySlot c apiKeyID requestID =
     Call (Track (apiKeySlotKey apiKeyID) (cc_slotTTLSeconds c) requestID) (\<lambda>r. Ret (r \<noteq> RErr))"

definition ReleaseAPIKeySlot :: "int \<Rightarrow> string \<Rightarrow> bool prog" where
  "ReleaseAPIKeySlot apiKeyID requestID = Call (ZRem (apiKeySlotKey apiKeyID) [requestID]) (\<lambda>r. Ret (r \<noteq> RErr))"

section \<open>Counts of many accounts\<close>

definition count_cmds :: "concurrencyCache \<Rightarrow> int \<Rightarrow> string \<Rightarrow> string \<Rightarrow> redis_cmd list" where
  "count_cmds c now slotKey liveKey =
     [ZRemRangeByScore slotKey (now - cc_slotTTLSeconds c), ZRemRangeByScore liveKey (now - 60), ZCard slotKey, ZCard liveKey]"

fun batch_counts :: "(int, int) gomap \<Rightarrow> int list \<Rightarrow> reply list \<Rightarrow> (int, int) gomap" where
  "batch_counts m (i # ids) (r1 # r2 # r3 # r4 # rs) = batch_counts (gput m i (card_of r3 + card_of r4)) ids rs"
| "batch_counts m _ _ = m"

definition GetAccountConcurrencyBatch :: "concurrencyCache \<Rightarrow> int list \<Rightarrow> (int, int) gomap option prog" where
  "GetAccountConcurrencyBatch c ids =
     (if ids = [] then Ret (Some [])
      else Call TimeCmd (\<lambda>r. case r of
        RTime now \<Rightarrow>
          pbind (pipeline (concat (map (\<lambda>i. count_cmds c now (accountSlotKey i) (liveAccountSlotKey i)) ids)))
            (\<lambda>rs. Ret (if pipe_failed rs then None else Some (batch_counts [] ids rs)))
      | _ \<Rightarrow> Ret None))"

definition GetAPIKeyConcurrencyBatch :: "concurrencyCache \<Rightarrow> int list \<Rightarrow> (int, int) gomap option prog" where
  "GetAPIKeyConcurrencyBatch c ids =
     (if ids = [] then Ret (Some [])
      else Call TimeCmd (\<lambda>r. case r of
        RTime now \<Rightarrow>
          pbind (pipeline (concat (map (\<lambda>i. count_cmds c now (apiKeySlotKey i) (liveAPIKeySlotKey i)) ids)))
            (\<lambda>rs. Ret (if pipe_failed rs then None else Some (batch_counts [] ids rs)))
      | _ \<Rightarrow> Ret None))"

record load_info =
  li_CurrentConcurrency :: int
  li_WaitingCount :: int
  li_LoadRate :: int

definition load_info_of :: "int \<Rightarrow> int \<Rightarrow> int \<Rightarrow> load_info" where
  "load_info_of maxConcurrency currentConcurrency waitingCount =
     \<lparr>li_CurrentConcurrency = currentConcurrency, li_WaitingCount = waitingCount,
      li_LoadRate = (if 0 < maxConcurrency then (currentConcurrency + waitingCount) * 100 div maxConcurrency else 0)\<rparr>"

fun batch_loads :: "(int, load_info) gomap \<Rightarrow> (int \<times> int) list \<Rightarrow> reply list \<Rightarrow> (int, load_info) gomap" where
  "batch_loads m ((i, maxConcurrency) # xs) (r1 # r2 # r3 # r4 # r5 # rs) =
     batch_loads (gput m i (load_info_of maxConcurrency (card_of r3 + card_of r4) (card_of r5))) xs rs"
| "batch_loads m _ _ = m"

text \<open>The accounts, or users, with their limits.\<close>

definition GetAccountsLoadBatch :: "concurrencyCache \<Rightarrow> (int \<times> int) list \<Rightarrow> (int, load_info) gomap option prog" where
  "GetAccountsLoadBatch c accounts =
     (if accounts = [] then Ret (Some [])
      else Call TimeCmd (\<lambda>r. case r of
        RTime now \<Rightarrow>
          pbind (pipeline (concat (map (\<lambda>(i, n). count_cmds c now (accountSlotKey i) (liveAccountSlotKey i) @ [GetCmd (accountWaitKey i)]) accounts)))
            (\<lambda>rs. Ret (if pipe_failed rs then None else Some (batch_loads [] accounts rs)))
      | _ \<Rightarrow> Ret None))"

definition GetUsersLoadBatch :: "concurrencyCache \<Rightarrow> (int \<times> int) list \<Rightarrow> (int, load_info) gomap option prog" where
  "GetUsersLoadBatch c users =
     (if users = [] then Ret (Some [])
      else Call TimeCmd (\<lambda>r. case r of
        RTime now \<Rightarrow>
          pbind (pipeline (concat (map (\<lambda>(i, n). count_cmds c now (userSlotKey i) (liveUserSlotKey i) @ [GetCmd (waitQueueKey i)]) users)))
            (\<lambda>rs. Ret (if pipe_failed rs then None else Some (batch_loads [] users rs)))
      | _ \<Rightarrow> Ret None))"

section \<open>Leases\<close>

definition bool_reply :: "reply \<Rightarrow> bool option" where
  "bool_reply r = (case r of RBool b \<Rightarrow> Some b | _ \<Rightarrow> None)"

definition AcquireOpenAIWSIngressLease :: "int \<Rightarrow> int \<Rightarrow> string \<Rightarrow> bool option prog" where
  "AcquireOpenAIWSIngressLease apiKeyID maxConnections leaseID =
     (if apiKeyID \<le> 0 \<or> maxConnections \<le> 0 \<or> leaseID = [] then Ret (Some False)
      else Call (AcquireIngress (openAIWSIngressLeaseKey apiKeyID) maxConnections 60 leaseID) (\<lambda>r. Ret (bool_reply r)))"

definition RefreshOpenAIWSIngressLease :: "int \<Rightarrow> string \<Rightarrow> bool option prog" where
  "RefreshOpenAIWSIngressLease apiKeyID leaseID =
     (if apiKeyID \<le> 0 \<or> leaseID = [] then Ret (Some False)
      else Call (RefreshIngress (openAIWSIngressLeaseKey apiKeyID) 60 leaseID) (\<lambda>r. Ret (bool_reply r)))"

definition ReleaseOpenAIWSIngressLease :: "int \<Rightarrow> string \<Rightarrow> bool prog" where
  "ReleaseOpenAIWSIngressLease apiKeyID leaseID =
     (if apiKeyID \<le> 0 \<or> leaseID = [] then Ret True
      else Call (ZRem (openAIWSIngressLeaseKey apiKeyID) [leaseID]) (\<lambda>r. Ret (r \<noteq> RErr)))"

definition AcquireLiveLease :: "int \<Rightarrow> int \<Rightarrow> int \<Rightarrow> int \<Rightarrow> int \<Rightarrow> string \<Rightarrow> bool \<Rightarrow> bool option prog" where
  "AcquireLiveLease accountID accountMax userID userMax apiKeyID leaseID replacingRegularSlots =
     (if accountID \<le> 0 \<or> userID \<le> 0 \<or> apiKeyID \<le> 0 \<or> leaseID = [] then Ret (Some False)
      else Call (AcquireLive (accountSlotKey accountID) (liveAccountSlotKey accountID) (userSlotKey userID) (liveUserSlotKey userID)
          (liveAPIKeySlotKey apiKeyID) accountMax userMax 60 leaseID (if replacingRegularSlots then 1 else 0))
        (\<lambda>r. Ret (bool_reply r)))"

definition RefreshLiveLease :: "int \<Rightarrow> int \<Rightarrow> int \<Rightarrow> string \<Rightarrow> bool option prog" where
  "RefreshLiveLease accountID userID apiKeyID leaseID =
     (if leaseID = [] then Ret (Some False)
      else Call (RefreshLive [liveAccountSlotKey accountID, liveUserSlotKey userID, liveAPIKeySlotKey apiKeyID] 60 leaseID)
        (\<lambda>r. Ret (bool_reply r)))"

definition ReleaseLiveLease :: "int \<Rightarrow> int \<Rightarrow> int \<Rightarrow> string \<Rightarrow> bool prog" where
  "ReleaseLiveLease accountID userID apiKeyID leaseID =
     (if leaseID = [] then Ret True
      else Call (TxZRem [(liveAccountSlotKey accountID, leaseID), (liveUserSlotKey userID, leaseID), (liveAPIKeySlotKey apiKeyID, leaseID)])
        (\<lambda>r. Ret (r \<noteq> RErr)))"

section \<open>Queues of waiting requests\<close>

definition IncrementWaitCount :: "concurrencyCache \<Rightarrow> int \<Rightarrow> int \<Rightarrow> bool option prog" where
  "IncrementWaitCount c userID maxWait =
     Call (IncrementWait (waitQueueKey userID) maxWait (cc_waitQueueTTLSeconds c))
       (touched userActiveIndexKey userID (cc_waitQueueTTLSeconds c))"

definition DecrementWaitCount :: "concurrencyCache \<Rightarrow> int \<Rightarrow> bool prog" where
  "DecrementWaitCount c userID =
     Call (DecrementWait (waitQueueKey userID))
       (\<lambda>r. if r = RErr then Ret False else pseq (refreshUserActiveIndex c userID) (Ret True))"

definition IncrementAccountWaitCount :: "concurrencyCache \<Rightarrow> int \<Rightarrow> int \<Rightarrow> bool option prog" where
  "IncrementAccountWaitCount c accountID maxWait =
     Call (IncrementAccountWait (accountWaitKey accountID) maxWait (cc_waitQueueTTLSeconds c))
       (touched accountActiveIndexKey accountID (cc_waitQueueTTLSeconds c))"

definition DecrementAccountWaitCount :: "concurrencyCache \<Rightarrow> int \<Rightarrow> bool prog" where
  "DecrementAccountWaitCount c accountID =
     Call (DecrementWait (accountWaitKey accountID))
       (\<lambda>r. if r = RErr then Ret False else pseq (refreshAccountActiveIndex c accountID) (Ret True))"

definition GetAccountWaitingCount :: "int \<Rightarrow> int option prog" where
  "GetAccountWaitingCount accountID =
     Call (GetCmd (accountWaitKey accountID)) (\<lambda>r. Ret (case r of RInt n \<Rightarrow> Some n | RNil \<Rightarrow> Some 0 | _ \<Rightarrow> None))"

section \<open>Cleaning\<close>

definition CleanupExpiredAccountSlots :: "concurrencyCache \<Rightarrow> int \<Rightarrow> bool prog" where
  "CleanupExpiredAccountSlots c accountID =
     Call (CleanupExpired (accountSlotKey accountID) (cc_slotTTLSeconds c))
       (\<lambda>r. if r = RErr then Ret False else pseq (refreshAccountActiveIndex c accountID) (Ret True))"

text \<open>The members of an index that are numbers of accounts or users, and the others.\<close>

definition index_id :: "string \<Rightarrow> int option" where
  "index_id member = (case parse_int member of Some i \<Rightarrow> if i \<le> 0 then None else Some i | None \<Rightarrow> None)"

definition load_cmds :: "concurrencyCache \<Rightarrow> slotIndexSpec \<Rightarrow> int \<Rightarrow> int \<Rightarrow> redis_cmd list" where
  "load_cmds c spec now i =
     [ZRemRangeByScore (sis_slotKey spec i) (now - cc_slotTTLSeconds c), ZCard (sis_slotKey spec i), GetCmd (sis_waitKey spec i)]"

fun chunk_loads :: "(int \<times> string) list \<Rightarrow> reply list \<Rightarrow> activeIndexLoad list" where
  "chunk_loads ((i, member) # xs) (r1 # r2 # r3 # rs) =
     \<lparr>ail_id = i, ail_member = member, ail_slotCount = card_of r2, ail_waitCount = positive_count r3\<rparr> # chunk_loads xs rs"
| "chunk_loads _ _ = []"

text \<open>Chunks of 500 candidates, a pipeline for each.\<close>

function read_chunks :: "concurrencyCache \<Rightarrow> slotIndexSpec \<Rightarrow> int \<Rightarrow> (int \<times> string) list \<Rightarrow> activeIndexLoad list option prog" where
  "read_chunks c spec now candidates =
     (if candidates = [] then Ret (Some [])
      else let chunk = take 500 candidates in
        pbind (pipeline (concat (map (\<lambda>(i, member). load_cmds c spec now i) chunk))) (\<lambda>rs.
          if pipe_failed rs then Ret None
          else pbind (read_chunks c spec now (drop 500 candidates)) (\<lambda>more. Ret (map_option (\<lambda>ls. chunk_loads chunk rs @ ls) more))))"
  by pat_completeness auto
termination
  by (relation "measure (\<lambda>(c, spec, now, candidates). length candidates)") auto

declare read_chunks.simps [simp del]

definition readIndexLoads ::
  "concurrencyCache \<Rightarrow> slotIndexSpec \<Rightarrow> string list \<Rightarrow> int \<Rightarrow> (activeIndexLoad list \<times> string list) option prog" where
  "readIndexLoads c spec members now =
     (let candidates = List.map_filter (\<lambda>m. map_option (\<lambda>i. (i, m)) (index_id m)) members;
          staleMembers = filter (\<lambda>m. index_id m = None) members
      in pbind (read_chunks c spec now candidates) (\<lambda>loads. Ret (map_option (\<lambda>ls. (ls, staleMembers)) loads)))"

definition removeActiveIndexMembers :: "string \<Rightarrow> string list \<Rightarrow> unit prog" where
  "removeActiveIndexMembers indexKey members =
     (if members = [] then Ret () else Call (ZRem indexKey members) (\<lambda>r. Ret ()))"

definition write_index :: "string \<Rightarrow> (string \<times> int) list \<Rightarrow> string list \<Rightarrow> unit prog" where
  "write_index indexKey refreshed staleMembers =
     pseq (if refreshed = [] then Ret () else Call (ZAdd indexKey refreshed) (\<lambda>r. Ret ()))
       (removeActiveIndexMembers indexKey staleMembers)"

definition reconcileExpiredIndexCandidates :: "concurrencyCache \<Rightarrow> slotIndexSpec \<Rightarrow> bool prog" where
  "reconcileExpiredIndexCandidates c spec =
     Call TimeCmd (\<lambda>r. case r of
       RTime now \<Rightarrow>
         Call (ZRangeByScore (sis_indexKey spec) now 1000) (\<lambda>r. case r of
           RMembers members \<Rightarrow>
             pbind (readIndexLoads c spec members now) (\<lambda>l. case l of
               None \<Rightarrow> Ret False
             | Some (loads, staleMembers) \<Rightarrow>
                 let idle = (\<lambda>load. ail_slotCount load = 0 \<and> ail_waitCount load \<le> 0);
                     refreshed = map (\<lambda>load. (ail_member load, now + activeIndexTTL c (ail_slotCount load) (ail_waitCount load)))
                       (filter (\<lambda>load. \<not> idle load) loads)
                 in pseq (write_index (sis_indexKey spec) refreshed (staleMembers @ map ail_member (filter idle loads))) (Ret True))
         | _ \<Rightarrow> Ret False)
     | _ \<Rightarrow> Ret False)"

definition CleanupExpiredAccountSlotKeys :: "concurrencyCache \<Rightarrow> bool prog" where
  "CleanupExpiredAccountSlotKeys c =
     pbind (reconcileExpiredIndexCandidates c accountSlotIndex)
       (\<lambda>ok. if ok then reconcileExpiredIndexCandidates c userSlotIndex else Ret False)"

text \<open>\<open>pages\<close> bounds the pages of a \<open>SCAN\<close>; a scan that has not come round by then counts as failed.\<close>

fun scan_delete :: "nat \<Rightarrow> string \<Rightarrow> bool prog" where
  "scan_delete 0 pre = Ret False"
| "scan_delete (Suc pages) pre =
     Call (ScanCmd pre) (\<lambda>r. case r of
       RKeys keys atEnd \<Rightarrow>
         (let rest = (if atEnd then Ret True else scan_delete pages pre) in
          if keys = [] then rest else Call (DelCmd keys) (\<lambda>r. if r = RErr then Ret False else rest))
     | _ \<Rightarrow> Ret False)"

definition sweepLegacyWaitKeysOnce :: "nat \<Rightarrow> bool prog" where
  "sweepLegacyWaitKeysOnce pages =
     Call (ExistsCmd legacyWaitSweepMarkerKey) (\<lambda>r. case r of
       RBool present \<Rightarrow>
         if present then Ret True
         else pbind (scan_delete pages accountWaitKeyPrefix) (\<lambda>ok.
           if \<not> ok then Ret False
           else pbind (scan_delete pages waitQueueKeyPrefix) (\<lambda>ok.
             if \<not> ok then Ret False
             else Call (SetCmd legacyWaitSweepMarkerKey 1) (\<lambda>r. Ret (r \<noteq> RErr))))
     | _ \<Rightarrow> Ret False)"

definition allIndexMembers :: "string \<Rightarrow> string list option prog" where
  "allIndexMembers indexKey = Call (ZRange indexKey) (\<lambda>r. Ret (case r of RMembers ms \<Rightarrow> Some ms | _ \<Rightarrow> None))"

fun cleanup_members ::
  "concurrencyCache \<Rightarrow> slotIndexSpec \<Rightarrow> string \<Rightarrow> int \<Rightarrow> string list \<Rightarrow> (string \<times> int) list \<Rightarrow> string list \<Rightarrow> bool prog" where
  "cleanup_members c spec pre now [] refreshed staleMembers =
     pseq (write_index (sis_indexKey spec) refreshed staleMembers) (Ret True)"
| "cleanup_members c spec pre now (member # members) refreshed staleMembers =
     (case index_id member of
        None \<Rightarrow> cleanup_members c spec pre now members refreshed (staleMembers @ [member])
      | Some i \<Rightarrow>
          Call (StartupCleanup (sis_slotKey spec i) pre (cc_slotTTLSeconds c)) (\<lambda>r. case r of
            RCleaned removed remaining \<Rightarrow>
              Call (DelCmd [sis_waitKey spec i]) (\<lambda>r.
                if r = RErr then Ret False
                else if 0 < remaining
                then cleanup_members c spec pre now members (refreshed @ [(member, now + cc_slotTTLSeconds c)]) staleMembers
                else cleanup_members c spec pre now members refreshed (staleMembers @ [member]))
          | _ \<Rightarrow> Ret False))"

definition cleanupStaleProcessSlotsForIndex ::
  "concurrencyCache \<Rightarrow> slotIndexSpec \<Rightarrow> string list \<Rightarrow> string \<Rightarrow> int \<Rightarrow> bool prog" where
  "cleanupStaleProcessSlotsForIndex c spec members activeRequestPrefix now =
     cleanup_members c spec activeRequestPrefix now members [] []"

definition CleanupStaleProcessSlots :: "nat \<Rightarrow> concurrencyCache \<Rightarrow> string \<Rightarrow> bool prog" where
  "CleanupStaleProcessSlots pages c activeRequestPrefix =
     (if activeRequestPrefix = [] then Ret True
      else pbind (sweepLegacyWaitKeysOnce pages) (\<lambda>ok.
        if \<not> ok then Ret False
        else Call TimeCmd (\<lambda>r. case r of
          RTime now \<Rightarrow>
            pbind (allIndexMembers accountActiveIndexKey) (\<lambda>ms. case ms of
              None \<Rightarrow> Ret False
            | Some accountMembers \<Rightarrow>
                pbind (cleanupStaleProcessSlotsForIndex c accountSlotIndex accountMembers activeRequestPrefix now) (\<lambda>ok.
                  if \<not> ok then Ret False
                  else pbind (allIndexMembers userActiveIndexKey) (\<lambda>ms. case ms of
                    None \<Rightarrow> Ret False
                  | Some userMembers \<Rightarrow> cleanupStaleProcessSlotsForIndex c userSlotIndex userMembers activeRequestPrefix now)))
        | _ \<Rightarrow> Ret False)))"

end
