(* ===== verification/Concurrency_Service.thy ===== *)
theory Concurrency_Service
  imports Complex_Main Concurrency_Cache
begin

text \<open>
  What calls the cache: service/concurrency_service.go with its release functions, the loop of
  handler/gateway_helper.go that waits for a slot, and whole requests, from the first command to the
  last release. A request that is never scheduled again has crashed.
\<close>

section \<open>Identifiers of requests\<close>

definition base36_digit :: "nat \<Rightarrow> char" where
  "base36_digit n = (if n < 10 then char_of (48 + n) else char_of (87 + n))"

fun format_base36 :: "nat \<Rightarrow> string" where
  "format_base36 n = (if n < 36 then [base36_digit n] else format_base36 (n div 36) @ [base36_digit (n mod 36)])"

declare format_base36.simps [simp del]

definition generateRequestID :: "string \<Rightarrow> nat \<Rightarrow> string" where
  "generateRequestID requestIDPrefix seq = requestIDPrefix @ ''-'' @ format_base36 seq"

section \<open>Slots\<close>

text \<open>The answer of the service: an error, no slot, or a slot with its release function.\<close>

datatype acquire_result = SlotError | SlotBusy | SlotTaken "unit prog"

definition slot_result :: "unit prog \<Rightarrow> bool option \<Rightarrow> acquire_result" where
  "slot_result release r = (case r of None \<Rightarrow> SlotError | Some acquired \<Rightarrow> if acquired then SlotTaken release else SlotBusy)"

definition service_AcquireAccountSlot :: "concurrencyCache \<Rightarrow> int \<Rightarrow> int \<Rightarrow> string \<Rightarrow> acquire_result prog" where
  "service_AcquireAccountSlot c accountID maxConcurrency requestID =
     (if maxConcurrency \<le> 0 then Ret (SlotTaken (Ret ()))
      else pbind (AcquireAccountSlot c accountID maxConcurrency requestID)
        (\<lambda>r. Ret (slot_result (pseq (ReleaseAccountSlot c accountID requestID) (Ret ())) r)))"

definition service_AcquireUserSlot :: "concurrencyCache \<Rightarrow> int \<Rightarrow> int \<Rightarrow> string \<Rightarrow> acquire_result prog" where
  "service_AcquireUserSlot c userID maxConcurrency requestID =
     (if maxConcurrency \<le> 0 then Ret (SlotTaken (Ret ()))
      else pbind (AcquireUserSlot c userID maxConcurrency requestID)
        (\<lambda>r. Ret (slot_result (pseq (ReleaseUserSlot c userID requestID) (Ret ())) r)))"

definition service_TrackAPIKeySlot :: "concurrencyCache \<Rightarrow> int \<Rightarrow> string \<Rightarrow> unit prog prog" where
  "service_TrackAPIKeySlot c apiKeyID requestID =
     (if apiKeyID \<le> 0 then Ret (Ret ())
      else pbind (TrackAPIKeySlot c apiKeyID requestID)
        (\<lambda>ok. Ret (if ok then pseq (ReleaseAPIKeySlot apiKeyID requestID) (Ret ()) else Ret ())))"

text \<open>An error of the waiting count lets the request pass.\<close>

definition service_IncrementWaitCount :: "concurrencyCache \<Rightarrow> int \<Rightarrow> int \<Rightarrow> bool prog" where
  "service_IncrementWaitCount c userID maxWait =
     pbind (IncrementWaitCount c userID maxWait) (\<lambda>r. Ret (case r of None \<Rightarrow> True | Some ok \<Rightarrow> ok))"

definition service_IncrementAccountWaitCount :: "concurrencyCache \<Rightarrow> int \<Rightarrow> int \<Rightarrow> bool prog" where
  "service_IncrementAccountWaitCount c accountID maxWait =
     pbind (IncrementAccountWaitCount c accountID maxWait) (\<lambda>r. Ret (case r of None \<Rightarrow> True | Some ok \<Rightarrow> ok))"

definition CalculateMaxWait :: "int \<Rightarrow> int" where
  "CalculateMaxWait userConcurrency = (if userConcurrency \<le> 0 then 1 else userConcurrency) + 20"

text \<open>
  A refresh of a WebSocket lease: when its ownership was last confirmed, and whether it is lost.
  \<open>owned\<close> is the answer of the cache, \<open>None\<close> for an error; \<open>later\<close> is the clock after it.
\<close>

definition lease_refresh :: "time \<Rightarrow> bool option \<Rightarrow> time \<Rightarrow> time \<times> bool" where
  "lease_refresh lastConfirmedAt owned later =
     (if owned = Some True then (later, False)
      else (lastConfirmedAt, owned = Some False \<or> 60 * second \<le> time_sub later lastConfirmedAt))"

section \<open>Waiting for a slot\<close>

abbreviation "initialBackoff \<equiv> 100000000 :: int"
abbreviation "maxBackoff \<equiv> 2000000000 :: int"

text \<open>The jitter is a number between 0.8 and 1.2.\<close>

definition nextBackoff :: "rat \<Rightarrow> int \<Rightarrow> int" where
  "nextBackoff jitter current =
     (let n = \<lfloor>rat_of_int current * (3 / 2)\<rfloor>;
          n = (if maxBackoff < n then maxBackoff else n);
          jittered = \<lfloor>rat_of_int n * jitter\<rfloor>
      in if jittered < initialBackoff then initialBackoff else if maxBackoff < jittered then maxBackoff else jittered)"

text \<open>
  What a waiting request sees: its timer, with the identifier of the next attempt; a ping that was
  written or not; the end of its context, by the client or by the timeout.
\<close>

datatype wait_event = TimerFires string | PingDue bool | ContextDone bool

datatype wait_outcome = WaitGot "unit prog" | WaitTimeout | WaitCancelled | WaitFailed | QueueFull | StillWaiting

fun wait_loop :: "(string \<Rightarrow> acquire_result prog) \<Rightarrow> wait_event list \<Rightarrow> wait_outcome prog" where
  "wait_loop acquireSlot [] = Ret StillWaiting"
| "wait_loop acquireSlot (ContextDone byClient # es) = Ret (if byClient then WaitCancelled else WaitTimeout)"
| "wait_loop acquireSlot (PingDue written # es) = (if written then wait_loop acquireSlot es else Ret WaitFailed)"
| "wait_loop acquireSlot (TimerFires requestID # es) =
     pbind (acquireSlot requestID) (\<lambda>r. case r of
       SlotError \<Rightarrow> Ret WaitFailed
     | SlotTaken release \<Rightarrow> Ret (WaitGot release)
     | SlotBusy \<Rightarrow> wait_loop acquireSlot es)"

text \<open>\<open>tryImmediate\<close> has the identifier of an attempt before the loop, if there is one.\<close>

definition waitForSlotWithPingTimeout :: "(string \<Rightarrow> acquire_result prog) \<Rightarrow> string option \<Rightarrow> wait_event list \<Rightarrow> wait_outcome prog" where
  "waitForSlotWithPingTimeout acquireSlot tryImmediate events =
     (case tryImmediate of
        None \<Rightarrow> wait_loop acquireSlot events
      | Some requestID \<Rightarrow>
          pbind (acquireSlot requestID) (\<lambda>r. case r of
            SlotError \<Rightarrow> Ret WaitFailed
          | SlotTaken release \<Rightarrow> Ret (WaitGot release)
          | SlotBusy \<Rightarrow> wait_loop acquireSlot events))"

definition withAPIKeySlot :: "concurrencyCache \<Rightarrow> int \<Rightarrow> string \<Rightarrow> unit prog \<Rightarrow> unit prog prog" where
  "withAPIKeySlot c apiKeyID requestID release =
     (if apiKeyID \<le> 0 then Ret release
      else pbind (service_TrackAPIKeySlot c apiKeyID requestID) (\<lambda>apiKeyRelease. Ret (pseq release apiKeyRelease)))"

definition with_key :: "concurrencyCache \<Rightarrow> int \<Rightarrow> string \<Rightarrow> wait_outcome \<Rightarrow> wait_outcome prog" where
  "with_key c apiKeyID keyRequestID z =
     (case z of
        WaitGot release \<Rightarrow> pbind (withAPIKeySlot c apiKeyID keyRequestID release) (\<lambda>release. Ret (WaitGot release))
      | _ \<Rightarrow> Ret z)"

definition acquireUserSlotWithWaitTimeout ::
  "concurrencyCache \<Rightarrow> int \<Rightarrow> int \<Rightarrow> int \<Rightarrow> string \<Rightarrow> string \<Rightarrow> wait_event list \<Rightarrow> wait_outcome prog" where
  "acquireUserSlotWithWaitTimeout c userID maxConcurrency apiKeyID requestID keyRequestID events =
     pbind (service_AcquireUserSlot c userID maxConcurrency requestID) (\<lambda>r. case r of
       SlotError \<Rightarrow> Ret WaitFailed
     | SlotTaken release \<Rightarrow> with_key c apiKeyID keyRequestID (WaitGot release)
     | SlotBusy \<Rightarrow>
         (let queueLimit = max 1 (CalculateMaxWait maxConcurrency - maxConcurrency) in
          pbind (service_IncrementWaitCount c userID queueLimit) (\<lambda>canWait.
            if \<not> canWait then Ret QueueFull
            else pbind (waitForSlotWithPingTimeout (service_AcquireUserSlot c userID maxConcurrency) None events) (\<lambda>z.
              pbind (with_key c apiKeyID keyRequestID z) (\<lambda>z. pseq (DecrementWaitCount c userID) (Ret z))))))"

text \<open>The part of a gateway handler that waits for an account (handler/gateway_handler.go).\<close>

definition wait_for_account ::
  "concurrencyCache \<Rightarrow> int \<Rightarrow> int \<Rightarrow> int \<Rightarrow> string \<Rightarrow> wait_event list \<Rightarrow> wait_outcome prog" where
  "wait_for_account c accountID maxConcurrency maxWaiting requestID events =
     pbind (service_IncrementAccountWaitCount c accountID maxWaiting) (\<lambda>canWait.
       if \<not> canWait then Ret QueueFull
       else pbind (waitForSlotWithPingTimeout (service_AcquireAccountSlot c accountID maxConcurrency) (Some requestID) events)
         (\<lambda>z. pseq (DecrementAccountWaitCount c accountID) (Ret z)))"

section \<open>Requests\<close>

text \<open>
  A request of a client acquires a slot, works, and releases it; between its acquisition and its
  release others may do anything. A lease is refreshed some times before it is released. The other
  requests are the queries, the workers, and the start of a process.
\<close>

datatype request =
    UserRequest int int int string string "wait_event list"
  | AccountRequest int int string
  | AccountWait int int int string "wait_event list"
  | LiveSession int int int int int string bool nat
  | IngressSession int int string nat
  | QueryAccount int
  | QueryUser int
  | QueryAccounts "int list"
  | QueryAPIKeys "int list"
  | QueryAccountLoads "(int \<times> int) list"
  | QueryUserLoads "(int \<times> int) list"
  | QueryWaiting int
  | CleanAccount int
  | CleanAll
  | ProcessStart nat string

definition release_slot :: "acquire_result \<Rightarrow> unit prog" where
  "release_slot r = (case r of SlotTaken release \<Rightarrow> release | _ \<Rightarrow> Ret ())"

definition release_wait :: "wait_outcome \<Rightarrow> unit prog" where
  "release_wait z = (case z of WaitGot release \<Rightarrow> release | _ \<Rightarrow> Ret ())"

primrec repeat_refresh :: "nat \<Rightarrow> bool option prog \<Rightarrow> unit prog" where
  "repeat_refresh 0 refresh = Ret ()"
| "repeat_refresh (Suc n) refresh = pbind refresh (\<lambda>owned. if owned = Some False then Ret () else repeat_refresh n refresh)"

definition lease_session :: "bool option prog \<Rightarrow> nat \<Rightarrow> bool option prog \<Rightarrow> bool prog \<Rightarrow> unit prog" where
  "lease_session acquire n refresh release =
     pbind acquire (\<lambda>r. if r = Some True then pseq (repeat_refresh n refresh) (pseq release (Ret ())) else Ret ())"

definition ignoring :: "'a prog \<Rightarrow> unit prog" where
  "ignoring p = pseq p (Ret ())"

fun request_prog :: "concurrencyCache \<Rightarrow> request \<Rightarrow> unit prog" where
  "request_prog c (UserRequest userID maxConcurrency apiKeyID rid keyRid events) =
     pbind (acquireUserSlotWithWaitTimeout c userID maxConcurrency apiKeyID rid keyRid events) release_wait"
| "request_prog c (AccountRequest accountID maxConcurrency rid) =
     pbind (service_AcquireAccountSlot c accountID maxConcurrency rid) release_slot"
| "request_prog c (AccountWait accountID maxConcurrency maxWaiting rid events) =
     pbind (wait_for_account c accountID maxConcurrency maxWaiting rid events) release_wait"
| "request_prog c (LiveSession accountID accountMax userID userMax apiKeyID leaseID replacing n) =
     lease_session (AcquireLiveLease accountID accountMax userID userMax apiKeyID leaseID replacing) n
       (RefreshLiveLease accountID userID apiKeyID leaseID) (ReleaseLiveLease accountID userID apiKeyID leaseID)"
| "request_prog c (IngressSession apiKeyID maxConnections leaseID n) =
     lease_session (AcquireOpenAIWSIngressLease apiKeyID maxConnections leaseID) n
       (RefreshOpenAIWSIngressLease apiKeyID leaseID) (ReleaseOpenAIWSIngressLease apiKeyID leaseID)"
| "request_prog c (QueryAccount i) = ignoring (GetAccountConcurrency c i)"
| "request_prog c (QueryUser i) = ignoring (GetUserConcurrency c i)"
| "request_prog c (QueryAccounts ids) = ignoring (GetAccountConcurrencyBatch c ids)"
| "request_prog c (QueryAPIKeys ids) = ignoring (GetAPIKeyConcurrencyBatch c ids)"
| "request_prog c (QueryAccountLoads xs) = ignoring (GetAccountsLoadBatch c xs)"
| "request_prog c (QueryUserLoads xs) = ignoring (GetUsersLoadBatch c xs)"
| "request_prog c (QueryWaiting i) = ignoring (GetAccountWaitingCount i)"
| "request_prog c (CleanAccount i) = ignoring (CleanupExpiredAccountSlots c i)"
| "request_prog c CleanAll = ignoring (CleanupExpiredAccountSlotKeys c)"
| "request_prog c (ProcessStart pages pre) = ignoring (CleanupStaleProcessSlots pages c pre)"

definition slots_run ::
  "(nat \<times> cmd_input) list \<Rightarrow> (nat \<Rightarrow> unit prog) \<Rightarrow> redis \<times> cmd_log \<Rightarrow> (nat \<Rightarrow> unit prog) \<times> redis \<times> cmd_log" where
  "slots_run sched progs s = interleave prog_step sched (progs, s)"

end
