(* ===== verification/Concurrency_Correct.thy ===== *)
theory Concurrency_Correct
  imports Concurrency_Service
begin

text \<open>
  What the commands of the cache do to one sorted set, what every program of the cache may send, and
  the interface \<open>leased_set\<close> of a set whose members are granted, given back and time out.
\<close>

named_theorems keeps_intros \<open>operations that keep the members of a set\<close>
named_theorems shrinks_intros \<open>operations that add no member to a set\<close>

section \<open>Sorted sets under the operations\<close>

lemma expired_mono: "expired clk dl \<Longrightarrow> clk \<le> clk' \<Longrightarrow> expired clk' dl"
  by (auto simp: expired_def split: option.splits)

lemma zset_later: "clk \<le> clk' \<Longrightarrow> zset clk' db key = zset clk db key \<or> zset clk' db key = []"
  by (auto simp: zset_def dest: expired_mono)

lemma zset_set_zset: "zset clk (set_zset clk key m db) k = (if k = key then m else zset clk db k)"
  by (auto simp: zset_def set_zset_def expired_def)

lemma zset_trim: "zset clk (zremrangebyscore clk key b db) k =
    (if k = key then filter (\<lambda>p. b < snd p) (zset clk db key) else zset clk db k)"
  by (simp add: zremrangebyscore_def zset_set_zset)

lemma zset_zadd1: "zset clk (zadd clk key [(m, s)] db) k = (if k = key then gput (zset clk db key) m s else zset clk db k)"
  by (simp add: zadd_def zset_set_zset)

lemma zset_zadd_other: "k \<noteq> key \<Longrightarrow> zset clk (zadd clk key ps db) k = zset clk db k"
  by (simp add: zadd_def zset_set_zset)

lemma zset_zrem: "zset clk (zrem clk key ms db) k =
    (if k = key then filter (\<lambda>p. fst p \<notin> set ms) (zset clk db key) else zset clk db k)"
  by (simp add: zrem_def zset_set_zset)

lemma zset_expire: "0 < secs \<Longrightarrow> zset clk (expire clk key secs db) k = zset clk db k"
  by (auto simp: zset_def expire_def expired_def)

lemma zset_del: "zset clk (del keys db) k = (if k \<in> set keys then [] else zset clk db k)"
  by (simp add: zset_def del_def expired_def)

lemma zset_incr_by [simp]: "zset clk (incr_by clk key d db) k = zset clk db k"
  by (simp add: zset_def incr_by_def)

lemmas zset_ops = zset_trim zset_zadd1 zset_zrem zset_del zset_incr_by

lemma deadline_set_zset:
  "snd (rk_zsets (set_zset clk key m db) k) = Some d \<Longrightarrow> snd (rk_zsets db k) = Some d"
  by (auto simp: set_zset_def split: if_splits)

lemma deadline_expire:
  "snd (rk_zsets (expire clk key secs db) k) = Some d \<Longrightarrow> snd (rk_zsets db k) = Some d \<or> k = key \<and> d = clk + secs * 1000"
  by (auto simp: expire_def split: if_splits)

lemma deadline_del: "snd (rk_zsets (del keys db) k) = Some d \<Longrightarrow> snd (rk_zsets db k) = Some d"
  by (auto simp: del_def split: if_splits)

section \<open>Distinct members\<close>

definition ok_redis :: "redis \<Rightarrow> bool" where
  "ok_redis db \<longleftrightarrow> (\<forall>k. gmap_ok (fst (rk_zsets db k)))"

lemma gmap_ok_filter: "gmap_ok m \<Longrightarrow> gmap_ok (filter p m)"
  by (induction m) (auto simp: gmap_ok_def)

lemma gmap_ok_puts: "gmap_ok m \<Longrightarrow> gmap_ok (foldl (\<lambda>m p. gput m (fst p) (snd p)) m ps)"
  by (induction ps arbitrary: m) (simp_all add: gm.ok_put)

lemma ok_zset: "ok_redis db \<Longrightarrow> gmap_ok (zset clk db k)"
  by (simp add: ok_redis_def zset_def gm.ok_empty)

lemma ok_set_zset: "ok_redis db \<Longrightarrow> gmap_ok m \<Longrightarrow> ok_redis (set_zset clk key m db)"
  by (auto simp: ok_redis_def set_zset_def gmap_ok_def)

lemma ok_ops [simp, intro]:
  assumes "ok_redis db"
  shows "ok_redis (zremrangebyscore clk key b db)" "ok_redis (zadd clk key ps db)" "ok_redis (zrem clk key ms db)"
    "ok_redis (expire clk key secs db)" "ok_redis (del keys db)" "ok_redis (incr_by clk key d db)"
    "ok_redis (db\<lparr>rk_strings := ss\<rparr>)"
proof -
  note z = ok_zset [OF assms]
  show "ok_redis (zremrangebyscore clk key b db)" "ok_redis (zadd clk key ps db)" "ok_redis (zrem clk key ms db)"
    by (simp_all add: zremrangebyscore_def zadd_def zrem_def ok_set_zset [OF assms] gmap_ok_filter gmap_ok_puts z)
  show "ok_redis (expire clk key secs db)" "ok_redis (del keys db)" "ok_redis (incr_by clk key d db)" "ok_redis (db\<lparr>rk_strings := ss\<rparr>)"
    using assms z by (auto simp: expire_def del_def incr_by_def ok_redis_def gm.ok_empty)
qed

lemma ok_fold: "(\<And>x db. ok_redis db \<Longrightarrow> ok_redis (f x db)) \<Longrightarrow> ok_redis db \<Longrightarrow> ok_redis (fold f xs db)"
  by (induction xs arbitrary: db) auto

lemma ok_confirm: "ok_redis db \<Longrightarrow> ok_redis (snd (confirm_lease keys b lid clk db))"
  by (induction keys arbitrary: db) (auto simp: Let_def)

lemmas script_defs = acquireScript_def getCountScript_def acquireLiveLeaseScript_def trackSlotScript_def
  acquireOpenAIWSIngressLeaseScript_def refreshOpenAIWSIngressLeaseScript_def incrementWaitScript_def
  incrementAccountWaitScript_def decrementWaitScript_def cleanupExpiredSlotsScript_def startupCleanupSlotScript_def

lemma exec_ok: "ok_redis db \<Longrightarrow> ok_redis (snd (exec_cmd clk page c db))"
proof (cases c)
  fix keys ttl lid assume "ok_redis db" "c = RefreshLive keys ttl lid"
  then show ?thesis
    using ok_confirm [of db keys "clock_seconds clk - ttl" lid clk]
    by (auto simp: refreshLiveLeaseScript_def Let_def intro!: ok_fold split: prod.splits bool.splits)
qed (auto simp: script_defs Let_def intro!: ok_fold split: option.splits)

section \<open>Keeping members\<close>

text \<open>
  What an operation at a moment keeps of a set: members outside \<open>S\<close> that have not timed out stay, and a
  deadline is an old one or far enough away.
\<close>

definition keeps :: "string \<Rightarrow> int \<Rightarrow> string set \<Rightarrow> int \<Rightarrow> redis \<Rightarrow> redis \<Rightarrow> bool" where
  "keeps key ttl S clk db db' \<longleftrightarrow>
     (\<forall>m b. b \<le> clock_seconds clk \<longrightarrow> clock_seconds clk < b + ttl \<longrightarrow> m \<notin> S \<longrightarrow>
        (\<exists>s\<ge>b. (m, s) \<in> set (zset clk db key)) \<longrightarrow> (\<exists>s\<ge>b. (m, s) \<in> set (zset clk db' key))) \<and>
     (\<forall>d. snd (rk_zsets db' key) = Some d \<longrightarrow> snd (rk_zsets db key) = Some d \<or> clk + ttl * 1000 \<le> d)"

lemma keeps_refl [keeps_intros]: "keeps key ttl S clk db db"
  by (simp add: keeps_def)

lemma keeps_trans: "keeps key ttl S clk db db1 \<Longrightarrow> keeps key ttl S clk db1 db2 \<Longrightarrow> keeps key ttl S clk db db2"
  unfolding keeps_def by blast

text \<open>A step after others: what it does to one member, and to the deadline.\<close>

lemma keeps_then:
  assumes "keeps key ttl S clk db db1"
    and "\<And>m b s. b \<le> clock_seconds clk \<Longrightarrow> clock_seconds clk < b + ttl \<Longrightarrow> m \<notin> S \<Longrightarrow> b \<le> s \<Longrightarrow>
      (m, s) \<in> set (zset clk db1 key) \<Longrightarrow> \<exists>s'\<ge>b. (m, s') \<in> set (zset clk db2 key)"
    and "\<And>d. snd (rk_zsets db2 key) = Some d \<Longrightarrow> snd (rk_zsets db1 key) = Some d \<or> clk + ttl * 1000 \<le> d"
  shows "keeps key ttl S clk db db2"
  by (rule keeps_trans [OF assms(1)]) (use assms(2,3) in \<open>unfold keeps_def, blast\<close>)

lemma deadline_ops:
  "snd (rk_zsets (zremrangebyscore clk k b db) key) = Some d \<Longrightarrow> snd (rk_zsets db key) = Some d"
  "snd (rk_zsets (zadd clk k ps db) key) = Some d \<Longrightarrow> snd (rk_zsets db key) = Some d"
  "snd (rk_zsets (zrem clk k ms db) key) = Some d \<Longrightarrow> snd (rk_zsets db key) = Some d"
  by (auto simp: zremrangebyscore_def zadd_def zrem_def dest: deadline_set_zset)

lemma keeps_trim [keeps_intros]:
  assumes "keeps key ttl S clk db db1" and "k = key \<Longrightarrow> b + ttl \<le> clock_seconds clk"
  shows "keeps key ttl S clk db (zremrangebyscore clk k b db1)"
proof (rule keeps_then [OF assms(1)])
  fix m b' s
  assume "clock_seconds clk < b' + ttl" "b' \<le> s" "(m, s) \<in> set (zset clk db1 key)"
  with assms(2) have "(m, s) \<in> set (zset clk (zremrangebyscore clk k b db1) key)" by (auto simp: zset_trim)
  with \<open>b' \<le> s\<close> show "\<exists>s'\<ge>b'. (m, s') \<in> set (zset clk (zremrangebyscore clk k b db1) key)" by blast
qed (auto dest: deadline_ops)

lemma keeps_zadd_other [keeps_intros]:
  assumes "keeps key ttl S clk db db1" and "k \<noteq> key"
  shows "keeps key ttl S clk db (zadd clk k ps db1)"
  by (rule keeps_then [OF assms(1)]) (use assms(2) in \<open>auto simp: zset_zadd_other dest: deadline_ops\<close>)

lemma gput_in: "(m', s') \<in> set m \<Longrightarrow> m' \<noteq> k \<Longrightarrow> (m', s') \<in> set (gput m k v)"
  by (induction m) (auto simp: gput_def)

lemma gput_at: "(k, v) \<in> set (gput m k v)"
  by (induction m) (auto simp: gput_def)

lemma keeps_zadd_now [keeps_intros]:
  assumes "keeps key ttl S clk db db1" and "s = clock_seconds clk"
  shows "keeps key ttl S clk db (zadd clk k [(m, s)] db1)"
proof (rule keeps_then [OF assms(1)])
  fix m' b s1
  assume a: "b \<le> clock_seconds clk" "b \<le> s1" "(m', s1) \<in> set (zset clk db1 key)"
  show "\<exists>s'\<ge>b. (m', s') \<in> set (zset clk (zadd clk k [(m, s)] db1) key)"
  proof (cases "k = key")
    case True
    with a assms(2) gput_in [OF a(3), of m s] gput_at [of m s "zset clk db1 key"] show ?thesis
      by (cases "m' = m") (auto simp: zset_zadd1)
  next
    case False
    with a show ?thesis by (auto simp: zset_zadd1)
  qed
qed (auto dest: deadline_ops)

lemma keeps_expire [keeps_intros]:
  assumes "keeps key ttl S clk db db1" and "0 < secs" and "k = key \<Longrightarrow> secs = ttl"
  shows "keeps key ttl S clk db (expire clk k secs db1)"
  by (rule keeps_then [OF assms(1)]) (use assms(2,3) in \<open>auto simp: zset_expire dest!: deadline_expire\<close>)

lemma keeps_zrem [keeps_intros]:
  assumes "keeps key ttl S clk db db1" and "k = key \<Longrightarrow> set ms \<subseteq> S"
  shows "keeps key ttl S clk db (zrem clk k ms db1)"
proof (rule keeps_then [OF assms(1)])
  fix m b s
  assume "m \<notin> S" "b \<le> s" "(m, s) \<in> set (zset clk db1 key)"
  with assms(2) have "(m, s) \<in> set (zset clk (zrem clk k ms db1) key)" by (auto simp: zset_zrem)
  with \<open>b \<le> s\<close> show "\<exists>s'\<ge>b. (m, s') \<in> set (zset clk (zrem clk k ms db1) key)" by blast
qed (auto dest: deadline_ops)

lemma keeps_del [keeps_intros]:
  assumes "keeps key ttl S clk db db1" and "key \<in> set ks \<Longrightarrow> zset clk db1 key = []"
  shows "keeps key ttl S clk db (del ks db1)"
  by (rule keeps_then [OF assms(1)]) (use assms(2) in \<open>auto simp: zset_del dest: deadline_del\<close>)

lemma zset_strings [simp]: "zset clk (db\<lparr>rk_strings := ss\<rparr>) k = zset clk db k"
  by (simp add: zset_def)

lemma keeps_strings [keeps_intros]:
  "keeps key ttl S clk db db1 \<Longrightarrow> keeps key ttl S clk db (incr_by clk k d db1)"
  "keeps key ttl S clk db db1 \<Longrightarrow> keeps key ttl S clk db (db1\<lparr>rk_strings := ss\<rparr>)"
  by (simp_all add: keeps_def) (simp_all add: incr_by_def)

section \<open>Sizes\<close>

definition size_on :: "string list \<Rightarrow> int \<Rightarrow> redis \<Rightarrow> nat" where
  "size_on ks clk db = sum_list (map (\<lambda>k. glen (zset clk db k)) ks)"

text \<open>Every set shrinks: no member is new.\<close>

definition shrinks :: "string list \<Rightarrow> int \<Rightarrow> redis \<Rightarrow> redis \<Rightarrow> bool" where
  "shrinks ks clk db db' \<longleftrightarrow> (\<forall>k\<in>set ks. glen (zset clk db' k) \<le> glen (zset clk db k))"

lemma shrinks_size: "shrinks ks clk db db' \<Longrightarrow> size_on ks clk db' \<le> size_on ks clk db"
  by (simp add: shrinks_def size_on_def sum_list_mono)

lemma shrinks_refl [shrinks_intros]: "shrinks ks clk db db"
  by (simp add: shrinks_def)

lemma shrinks_trans: "shrinks ks clk db db1 \<Longrightarrow> shrinks ks clk db1 db2 \<Longrightarrow> shrinks ks clk db db2"
  unfolding shrinks_def by fastforce

lemma glen_filter: "glen (filter p m) \<le> glen m"
  by (simp add: glen_def)

lemma shrinks_ops [shrinks_intros]:
  assumes "shrinks ks clk db db1"
  shows "shrinks ks clk db (zremrangebyscore clk k b db1)" "shrinks ks clk db (zrem clk k ms db1)" "shrinks ks clk db (del dels db1)"
    "shrinks ks clk db (incr_by clk k d db1)" "shrinks ks clk db (db1\<lparr>rk_strings := ss\<rparr>)"
    "0 < secs \<Longrightarrow> shrinks ks clk db (expire clk k secs db1)" "k \<notin> set ks \<Longrightarrow> shrinks ks clk db (zadd clk k ps db1)"
proof -
  note t = shrinks_trans [OF assms]
  show "shrinks ks clk db (zremrangebyscore clk k b db1)" by (rule t) (simp add: shrinks_def zset_trim glen_filter)
  show "shrinks ks clk db (zrem clk k ms db1)" by (rule t) (simp add: shrinks_def zset_zrem glen_filter)
  show "shrinks ks clk db (del dels db1)" by (rule t) (simp add: shrinks_def zset_del)
  show "shrinks ks clk db (incr_by clk k d db1)" by (rule t) (simp add: shrinks_def)
  show "shrinks ks clk db (db1\<lparr>rk_strings := ss\<rparr>)" by (rule t) (simp add: shrinks_def)
  show "0 < secs \<Longrightarrow> shrinks ks clk db (expire clk k secs db1)" by (rule t) (simp add: shrinks_def zset_expire)
  show "k \<notin> set ks \<Longrightarrow> shrinks ks clk db (zadd clk k ps db1)"
    by (rule t) (metis shrinks_def zset_zadd_other order_refl)
qed

section \<open>Programs\<close>

text \<open>What holds of every command that a program may still send, at the clock of its turn or later.\<close>

definition reply_at :: "int \<Rightarrow> redis_cmd \<Rightarrow> reply \<Rightarrow> bool" where
  "reply_at clk c r =
     (case r of
        RTime n \<Rightarrow> n \<le> clock_seconds clk
      | RTook b n \<Rightarrow> n \<le> clock_seconds clk
      | RKeys keys atEnd \<Rightarrow> (case c of ScanCmd pre \<Rightarrow> \<forall>k\<in>set keys. starts_with k pre | _ \<Rightarrow> False)
      | _ \<Rightarrow> True)"

primrec all_calls :: "(int \<Rightarrow> redis_cmd \<Rightarrow> bool) \<Rightarrow> 'a prog \<Rightarrow> int \<Rightarrow> bool" where
  "all_calls P (Ret x) clk = True"
| "all_calls P (Call c f) clk = (\<forall>clk'\<ge>clk. P clk' c \<and> (\<forall>r. reply_at clk' c r \<longrightarrow> all_calls P (f r) clk'))"

lemma all_calls_later: "all_calls P p clk \<Longrightarrow> clk \<le> clk' \<Longrightarrow> all_calls P p clk'"
  by (cases p) auto

lemma all_calls_bind:
  "all_calls P p clk \<Longrightarrow> (\<And>x clk'. clk \<le> clk' \<Longrightarrow> all_calls P (g x) clk') \<Longrightarrow> all_calls P (pbind p g) clk"
proof (induction p arbitrary: clk)
  case (Call c f)
  show ?case
  proof (simp, intro allI impI conjI)
    fix clk' assume "clk \<le> clk'"
    with Call.prems(1) show "P clk' c" by simp
    fix r assume "reply_at clk' c r"
    with Call.prems \<open>clk \<le> clk'\<close> show "all_calls P (pbind (f r) g) clk'" by (intro Call.IH) auto
  qed
qed simp

lemma clock_seconds_mono: "clk \<le> clk' \<Longrightarrow> clock_seconds clk \<le> clock_seconds clk'"
  by (simp add: clock_seconds_def zdiv_mono1)

lemma exec_reply_at: "reply_at clk c (fst (exec_cmd clk page c db))"
  by (cases c) (auto simp: reply_at_def script_defs Let_def split: option.splits)

section \<open>Sets whose members are granted, given back and time out\<close>

text \<open>
  When a member was last granted and not given back since, in a log; and the members that hold a grant
  that has not timed out.
\<close>

fun since :: "(redis_cmd \<Rightarrow> reply \<Rightarrow> string option) \<Rightarrow> (redis_cmd \<Rightarrow> string \<Rightarrow> bool) \<Rightarrow> string \<Rightarrow> cmd_log \<Rightarrow> int option" where
  "since grants drops m [] = None"
| "since grants drops m ((c, r, clk) # evs) =
     (if grants c r = Some m then Some clk else if drops c m then None else since grants drops m evs)"

definition in_flight ::
  "(redis_cmd \<Rightarrow> reply \<Rightarrow> string option) \<Rightarrow> (redis_cmd \<Rightarrow> string \<Rightarrow> bool) \<Rightarrow> int \<Rightarrow> int \<Rightarrow> cmd_log \<Rightarrow> string list" where
  "in_flight grants drops ttl clk evs =
     filter (\<lambda>m. case since grants drops m evs of None \<Rightarrow> False | Some t \<Rightarrow> clock_seconds clk < clock_seconds t + ttl)
       (remdups (List.map_filter (\<lambda>(c, r, t). grants c r) evs))"

text \<open>
  A run of steps at clocks that do not go back.
\<close>

fun clocks_from :: "int \<Rightarrow> (nat \<times> cmd_input) list \<Rightarrow> bool" where
  "clocks_from clk [] = True"
| "clocks_from clk ((w, inp) # sched) = (clk \<le> ci_clk inp \<and> clocks_from (ci_clk inp) sched)"

fun end_clock :: "int \<Rightarrow> (nat \<times> cmd_input) list \<Rightarrow> int" where
  "end_clock clk [] = clk"
| "end_clock clk ((w, inp) # sched) = end_clock (ci_clk inp) sched"

text \<open>
  An invariant of the store and the log: what is kept by time and by every command that is allowed, with
  any fault, is kept by every run of programs that send only such commands.
\<close>

locale clocked_invariant =
  fixes cmd_ok :: "int \<Rightarrow> redis_cmd \<Rightarrow> bool" and inv :: "int \<Rightarrow> redis \<times> cmd_log \<Rightarrow> bool"
  assumes later: "inv clk s \<Longrightarrow> clk \<le> clk' \<Longrightarrow> inv clk' s"
    and cmd_kept: "inv (ci_clk (inp :: cmd_input)) (db, evs) \<Longrightarrow> cmd_ok (ci_clk inp) c \<Longrightarrow> exec_cmd (ci_clk inp) (ci_page inp) c db = (r, db1) \<Longrightarrow>
      seen = (if ci_fault inp = Works then r else RErr) \<Longrightarrow>
      inv (ci_clk inp) (took_effect (ci_fault inp) db db1, (c, seen, ci_clk inp) # evs)"
begin

lemma step_kept:
  assumes "inv (ci_clk inp) s" and "all_calls cmd_ok p (ci_clk inp)" and step: "prog_step inp p s = (p', s')"
  shows "inv (ci_clk inp) s' \<and> all_calls cmd_ok p' (ci_clk inp)"
proof (cases p)
  case (Ret x)
  with assms show ?thesis by auto
next
  case (Call c f)
  obtain db evs where s: "s = (db, evs)" by (cases s)
  obtain r db1 where e: "exec_cmd (ci_clk inp) (ci_page inp) c db = (r, db1)" by fastforce
  define seen where "seen = (if ci_fault inp = Works then r else RErr)"
  have p': "p' = f seen" "s' = (took_effect (ci_fault inp) db db1, (c, seen, ci_clk inp) # evs)"
    using step by (auto simp: Call s e seen_def)
  have "reply_at (ci_clk inp) c seen"
    using exec_reply_at [of "ci_clk inp" c "ci_page inp" db] by (simp add: e seen_def reply_at_def)
  with assms(2) have "all_calls cmd_ok p' (ci_clk inp)" "cmd_ok (ci_clk inp) c" by (simp_all add: Call p')
  with cmd_kept [of inp db evs c r db1 seen] assms(1) show ?thesis by (simp add: p' s e seen_def)
qed

lemma run_kept:
  assumes "inv clk s" and "\<And>w. all_calls cmd_ok (ps w) clk" and "clocks_from clk sched"
  shows "inv (end_clock clk sched) (snd (slots_run sched ps s))"
  using assms
proof (induction sched arbitrary: clk ps s)
  case Nil
  then show ?case by (simp add: slots_run_def)
next
  case (Cons x sched)
  obtain w inp where x: "x = (w, inp)" by (cases x)
  obtain p' s' where st: "prog_step inp (ps w) s = (p', s')" by (cases "prog_step inp (ps w) s")
  have le: "clk \<le> ci_clk inp" using Cons.prems(3) by (simp add: x)
  note here = later [OF Cons.prems(1) le] all_calls_later [OF Cons.prems(2) le]
  from step_kept [OF here st] have now: "inv (ci_clk inp) s'" "all_calls cmd_ok p' (ci_clk inp)" by simp_all
  have "all_calls cmd_ok ((ps(w := p')) v) (ci_clk inp)" for v using now(2) here(2) by simp
  note after = this
  have "inv (end_clock (ci_clk inp) sched) (snd (slots_run sched (ps(w := p')) s'))"
    by (rule Cons.IH [OF now(1) after]) (use Cons.prems(3) in \<open>simp add: x\<close>)
  then show ?case by (simp add: slots_run_def x st)
qed

end

text \<open>A set of which some members hold grants: what is promised of every command.\<close>

locale leased_set =
  fixes key :: string and keys :: "string list" and ttl :: int and cap :: nat
    and cmd_ok :: "int \<Rightarrow> redis_cmd \<Rightarrow> bool"
    and grants :: "redis_cmd \<Rightarrow> reply \<Rightarrow> string option"
    and drops :: "redis_cmd \<Rightarrow> string \<Rightarrow> bool"
  assumes cmd_keeps: "cmd_ok clk c \<Longrightarrow> keeps key ttl {m. drops c m} clk db (snd (exec_cmd clk page c db))"
    and cmd_grants: "cmd_ok clk c \<Longrightarrow> grants c (fst (exec_cmd clk page c db)) = Some m \<Longrightarrow>
      (m, clock_seconds clk) \<in> set (zset clk (snd (exec_cmd clk page c db)) key) \<and>
      snd (rk_zsets (snd (exec_cmd clk page c db)) key) = Some (clk + ttl * 1000)"
    and error_grants: "grants c RErr = None"
    and cmd_size: "cmd_ok clk c \<Longrightarrow> ok_redis db \<Longrightarrow> size_on keys clk (snd (exec_cmd clk page c db)) \<le> max (size_on keys clk db) cap"
begin

definition holds_since :: "int \<Rightarrow> redis \<Rightarrow> string \<Rightarrow> int \<Rightarrow> bool" where
  "holds_since clk db m t \<longleftrightarrow> t \<le> clk \<and> (clock_seconds clk < clock_seconds t + ttl \<longrightarrow>
     (\<exists>s\<ge>clock_seconds t. (m, s) \<in> set (zset clk db key)) \<and>
     (\<forall>d. snd (rk_zsets db key) = Some d \<longrightarrow> (clock_seconds t + ttl) * 1000 \<le> d))"

definition inv :: "int \<Rightarrow> redis \<times> cmd_log \<Rightarrow> bool" where
  "inv clk s \<longleftrightarrow> ok_redis (fst s) \<and> size_on keys clk (fst s) \<le> cap \<and>
     (\<forall>m t. since grants drops m (snd s) = Some t \<longrightarrow> holds_since clk (fst s) m t)"

lemma seconds_below: "clock_seconds clk < n \<Longrightarrow> clk < n * 1000"
  by (simp add: clock_seconds_def)

lemma holds_since_later:
  assumes "holds_since clk db m t" and "clk \<le> clk'"
  shows "holds_since clk' db m t"
proof -
  have "clock_seconds clk \<le> clock_seconds clk'" using assms(2) by (rule clock_seconds_mono)
  moreover have "\<not> expired clk' (snd (rk_zsets db key))"
    if "clock_seconds clk' < clock_seconds t + ttl" "\<forall>d. snd (rk_zsets db key) = Some d \<longrightarrow> (clock_seconds t + ttl) * 1000 \<le> d"
    using seconds_below [OF that(1)] that(2) by (auto simp: expired_def split: option.splits)
  moreover have "\<not> expired clk' (snd (rk_zsets db key)) \<Longrightarrow> zset clk' db key = fst (rk_zsets db key)" by (simp add: zset_def)
  moreover have "(x, s) \<in> set (zset clk db key) \<Longrightarrow> (x, s) \<in> set (fst (rk_zsets db key))" for x s
    by (simp add: zset_def split: if_splits)
  ultimately show ?thesis using assms unfolding holds_since_def by (smt (verit, best))
qed

lemma size_later: "clk \<le> clk' \<Longrightarrow> size_on ks clk' db \<le> size_on ks clk db"
proof -
  assume "clk \<le> clk'"
  have "glen (zset clk' db k) \<le> glen (zset clk db k)" for k using zset_later [OF \<open>clk \<le> clk'\<close>, of db k] by auto
  then show ?thesis unfolding size_on_def by (intro sum_list_mono)
qed

lemma inv_later: "inv clk s \<Longrightarrow> clk \<le> clk' \<Longrightarrow> inv clk' s"
  unfolding inv_def using holds_since_later size_later [of clk clk' keys "fst s"] by (meson order_trans)

lemma keeps_holds:
  assumes "holds_since clk db m t" and "keeps key ttl S clk db db'" and "m \<notin> S"
  shows "holds_since clk db' m t"
proof -
  have "clock_seconds t \<le> clock_seconds clk" if "t \<le> clk" using that by (rule clock_seconds_mono)
  moreover have "(clock_seconds t + ttl) * 1000 \<le> clk + ttl * 1000" if "t \<le> clk"
    using that by (simp add: clock_seconds_def)
  ultimately show ?thesis using assms unfolding holds_since_def keeps_def by (smt (verit, best))
qed

lemma granted_holds:
  "(m, clock_seconds clk) \<in> set (zset clk db key) \<Longrightarrow> snd (rk_zsets db key) = Some (clk + ttl * 1000) \<Longrightarrow> holds_since clk db m clk"
  by (auto simp: holds_since_def clock_seconds_def intro!: exI [of _ "clk div 1000"])

lemma cmd_inv:
  fixes inp :: cmd_input
  assumes "inv (ci_clk inp) (db, evs)" and ok: "cmd_ok (ci_clk inp) c" and e: "exec_cmd (ci_clk inp) (ci_page inp) c db = (r, db1)"
    and seen: "seen = (if ci_fault inp = Works then r else RErr)"
  shows "inv (ci_clk inp) (took_effect (ci_fault inp) db db1, (c, seen, ci_clk inp) # evs)"
proof -
  let ?clk = "ci_clk inp"
  define db2 where "db2 = took_effect (ci_fault inp) db db1"
  have i: "ok_redis db" "size_on keys ?clk db \<le> cap" "\<And>m t. since grants drops m evs = Some t \<Longrightarrow> holds_since ?clk db m t"
    using assms(1) by (simp_all add: inv_def)
  have "ok_redis db2" "size_on keys ?clk db2 \<le> cap"
    using exec_ok [OF i(1), of ?clk "ci_page inp" c] cmd_size [OF ok i(1), of "ci_page inp"] i(1,2)
    by (auto simp: db2_def took_effect_def e)
  moreover have "holds_since ?clk db2 m t" if "since grants drops m ((c, seen, ?clk) # evs) = Some t" for m t
  proof (cases "grants c seen = Some m")
    case True
    with that error_grants [of c] have "t = ?clk" "ci_fault inp = Works" by (auto simp: seen split: if_splits)
    with True cmd_grants [OF ok, of "ci_page inp" db m] show ?thesis by (auto simp: e seen db2_def intro: granted_holds)
  next
    case False
    with that have "\<not> drops c m" "since grants drops m evs = Some t" by (auto split: if_splits)
    with keeps_holds [OF i(3) cmd_keeps [OF ok, of db "ci_page inp"]] i(3) show ?thesis
      by (auto simp: db2_def took_effect_def e)
  qed
  ultimately show ?thesis by (simp add: inv_def db2_def)
qed

lemma in_flight_bounded:
  assumes "inv clk (db, evs)" and k: "key \<in> set keys"
  shows "set (in_flight grants drops ttl clk evs) \<subseteq> gkeys (zset clk db key)"
    and "length (in_flight grants drops ttl clk evs) + size_on (remove1 key keys) clk db \<le> cap"
proof -
  have i: "ok_redis db" "size_on keys clk db \<le> cap" using assms(1) by (simp_all add: inv_def)
  show sub: "set (in_flight grants drops ttl clk evs) \<subseteq> gkeys (zset clk db key)"
    using assms(1) by (force simp: in_flight_def inv_def holds_since_def gkeys_def split: option.splits)
  have "length (in_flight grants drops ttl clk evs) = card (set (in_flight grants drops ttl clk evs))"
    by (rule distinct_card [symmetric]) (simp add: in_flight_def)
  also have "\<dots> \<le> card (gkeys (zset clk db key))" using sub by (intro card_mono) (simp add: gkeys_def)
  also have "\<dots> = glen (zset clk db key)" using glen_keys [OF ok_zset [OF i(1)]] by simp
  finally have "length (in_flight grants drops ttl clk evs) \<le> glen (zset clk db key)" .
  moreover have "size_on keys clk db = glen (zset clk db key) + size_on (remove1 key keys) clk db"
    unfolding size_on_def using k by (rule sum_list_map_remove1)
  ultimately show "length (in_flight grants drops ttl clk evs) + size_on (remove1 key keys) clk db \<le> cap" using i(2) by simp
qed

lemma empty_inv: "inv clk (empty_redis, [])"
  by (simp add: inv_def empty_redis_def ok_redis_def gmap_ok_def size_on_def zset_def expired_def)

end

sublocale leased_set \<subseteq> clocked_invariant cmd_ok inv
  by unfold_locales (rule inv_later, assumption+, rule cmd_inv)

end
