(* ===== verification/Concurrency_Slots.thy ===== *)
theory Concurrency_Slots
  imports Concurrency_Correct
begin

text \<open>
  The slots of an account or a user, with the leases of its live sessions, and the leases of client
  WebSockets as instances of \<open>leased_set\<close>: what any number of requests, queries, workers and starting
  processes do to them.
\<close>

section \<open>The slots of an account or a user\<close>

datatype slot_owner = OfAccount int | OfUser int

fun slot_key :: "slot_owner \<Rightarrow> string" where
  "slot_key (OfAccount i) = accountSlotKey i"
| "slot_key (OfUser i) = userSlotKey i"

fun live_key :: "slot_owner \<Rightarrow> string" where
  "live_key (OfAccount i) = liveAccountSlotKey i"
| "live_key (OfUser i) = liveUserSlotKey i"

lemmas key_defs = accountSlotKey_def userSlotKey_def apiKeySlotKey_def liveAccountSlotKey_def liveUserSlotKey_def
  liveAPIKeySlotKey_def openAIWSIngressLeaseKey_def waitQueueKey_def accountWaitKey_def

lemma show_int_eq [simp]: "show_int i = show_int j \<longleftrightarrow> i = j"
  by (auto dest: show_int_inject)

lemma show_int_not_index [simp]: "show_int i \<noteq> ''active_index''" "''active_index'' \<noteq> show_int i"
proof -
  have "CHR ''_'' \<notin> set (show_int i)"
    using show_nat_facts [of "nat i"] show_nat_facts [of "nat (- i)"]
    by (auto simp: show_int_def list_all_iff is_digit_def less_eq_char_def)
  moreover have "CHR ''_'' \<in> set ''active_index''" by simp
  ultimately show "show_int i \<noteq> ''active_index''" "''active_index'' \<noteq> show_int i" by metis+
qed

text \<open>What a command may do to the slots of \<open>x\<close>, for a time-out \<open>ttl\<close>, a limit \<open>n\<close> and an allowance \<open>a\<close>.\<close>

definition slot_cmd_ok :: "int \<Rightarrow> int \<Rightarrow> int \<Rightarrow> slot_owner \<Rightarrow> int \<Rightarrow> redis_cmd \<Rightarrow> bool" where
  "slot_cmd_ok ttl n a x clk c \<longleftrightarrow> 0 < ttl \<and> 0 \<le> a \<and>
     (case c of
        ZRemRangeByScore k b \<Rightarrow> k = slot_key x \<longrightarrow> b + ttl \<le> clock_seconds clk
      | ZAdd k ps \<Rightarrow> k \<noteq> slot_key x \<and> k \<noteq> live_key x
      | DelCmd ks \<Rightarrow> slot_key x \<notin> set ks
      | SetCmd k v \<Rightarrow> k \<noteq> slot_key x
      | Acquire k l m t r \<Rightarrow> 0 < t \<and> l \<noteq> slot_key x \<and> k \<noteq> live_key x \<and> (k = slot_key x \<longrightarrow> l = live_key x \<and> m \<le> n \<and> t = ttl)
      | GetCount k l t \<Rightarrow> l \<noteq> slot_key x \<and> (k = slot_key x \<longrightarrow> t = ttl)
      | AcquireLive ar al ur ul l an un t lid rep \<Rightarrow>
          t = 60 \<and> slot_key x \<notin> {al, ul, l} \<and> al \<noteq> ul \<and> l \<noteq> live_key x \<and>
          (al = live_key x \<or> ul = live_key x \<longrightarrow> rep = 1 \<longrightarrow> 1 \<le> a) \<and> (al = live_key x \<longrightarrow> ar = slot_key x \<and> 0 < an \<and> an \<le> n) \<and> (ul = live_key x \<longrightarrow> ur = slot_key x \<and> 0 < un \<and> un \<le> n)
      | RefreshLive ks t lid \<Rightarrow> t = 60 \<and> distinct ks \<and> slot_key x \<notin> set ks
      | Track k t r \<Rightarrow> 0 < t \<and> k \<noteq> slot_key x \<and> k \<noteq> live_key x
      | AcquireIngress k m t lid \<Rightarrow> 0 < t \<and> k \<noteq> slot_key x \<and> k \<noteq> live_key x
      | RefreshIngress k t lid \<Rightarrow> 0 < t \<and> k \<noteq> slot_key x \<and> k \<noteq> live_key x
      | IncrementWait k m t \<Rightarrow> 0 < t \<and> k \<noteq> slot_key x
      | IncrementAccountWait k m t \<Rightarrow> 0 < t \<and> k \<noteq> slot_key x
      | CleanupExpired k t \<Rightarrow> 0 < t \<and> (k = slot_key x \<longrightarrow> t = ttl)
      | StartupCleanup k pre t \<Rightarrow> 0 < t \<and> (k = slot_key x \<longrightarrow> t = ttl)
      | _ \<Rightarrow> True)"

text \<open>
  An answered acquisition grants. A slot is removed by a release, and by the start of a process with another
  prefix, whether its holder has ended or not.
\<close>

definition slot_grants :: "slot_owner \<Rightarrow> redis_cmd \<Rightarrow> reply \<Rightarrow> string option" where
  "slot_grants x c r =
     (case (c, r) of (Acquire k l m t rid, RTook ok now) \<Rightarrow> if k = slot_key x \<and> ok then Some rid else None | _ \<Rightarrow> None)"

definition slot_released :: "slot_owner \<Rightarrow> redis_cmd \<Rightarrow> string \<Rightarrow> bool" where
  "slot_released x c rid =
     (case c of
        ZRem k ms \<Rightarrow> k = slot_key x \<and> rid \<in> set ms
      | TxZRem ps \<Rightarrow> (slot_key x, rid) \<in> set ps
      | _ \<Rightarrow> False)"

definition slot_removed :: "slot_owner \<Rightarrow> redis_cmd \<Rightarrow> string \<Rightarrow> bool" where
  "slot_removed x c rid \<longleftrightarrow>
     slot_released x c rid \<or> (case c of StartupCleanup k pre t \<Rightarrow> k = slot_key x \<and> \<not> starts_with rid pre | _ \<Rightarrow> False)"

lemma slot_live_keys [simp]: "slot_key x \<noteq> live_key y" "live_key y \<noteq> slot_key x"
  by (cases x; cases y; simp add: key_defs)+

lemma keeps_confirm:
  "key \<notin> set ks \<Longrightarrow> keeps key ttl S clk db db1 \<Longrightarrow> keeps key ttl S clk db (snd (confirm_lease ks b lid clk db1))"
proof (induction ks arbitrary: db1)
  case (Cons k ks)
  then have "keeps key ttl S clk db (zremrangebyscore clk k b db1)" by (intro keeps_trim) auto
  with Cons show ?case by (simp add: Let_def)
qed simp

lemma keeps_fold:
  "(\<And>y db1. y \<in> set ys \<Longrightarrow> keeps key ttl S clk db db1 \<Longrightarrow> keeps key ttl S clk db (f y db1)) \<Longrightarrow>
     keeps key ttl S clk db db1 \<Longrightarrow> keeps key ttl S clk db (fold f ys db1)"
  by (induction ys arbitrary: db1) auto

lemma keeps_cleanup [keeps_intros]: "zcard clk key db = 0 \<Longrightarrow> zset clk db key = []"
  by (simp add: zcard_def glen_zero)

text \<open>The two ways in which a live lease leaves the store.\<close>

definition live_trimmed :: "string \<Rightarrow> string \<Rightarrow> string \<Rightarrow> int \<Rightarrow> int \<Rightarrow> redis \<Rightarrow> redis" where
  "live_trimmed al ul l t clk db = zremrangebyscore clk l (clock_seconds clk - t)
     (zremrangebyscore clk ul (clock_seconds clk - t) (zremrangebyscore clk al (clock_seconds clk - t) db))"

definition live_added :: "string \<Rightarrow> string \<Rightarrow> string \<Rightarrow> int \<Rightarrow> string \<Rightarrow> int \<Rightarrow> redis \<Rightarrow> redis" where
  "live_added al ul l t lid clk db1 =
     zadd clk l [(lid, clock_seconds clk)] (zadd clk ul [(lid, clock_seconds clk)] (zadd clk al [(lid, clock_seconds clk)] db1))"

lemma live_cases:
  assumes "db1 = live_trimmed al ul l t clk db" and "db2 = live_added al ul l t lid clk db1"
  obtains "snd (acquireLiveLeaseScript ar al ur ul l an un t lid rep clk db) = db1"
  | "snd (acquireLiveLeaseScript ar al ur ul l an un t lid rep clk db) = expire clk l t (expire clk ul t (expire clk al t db2))"
    "\<not> (0 < an \<and> an + (if rep = 1 then 1 else 0) \<le> zcard clk ar db1 + zcard clk al db1)"
    "\<not> (0 < un \<and> un + (if rep = 1 then 1 else 0) \<le> zcard clk ur db1 + zcard clk ul db1)"
proof -
  have "snd (acquireLiveLeaseScript ar al ur ul l an un t lid rep clk db) = db1 \<or>
      snd (acquireLiveLeaseScript ar al ur ul l an un t lid rep clk db) = expire clk l t (expire clk ul t (expire clk al t db2)) \<and>
      \<not> (0 < an \<and> an + (if rep = 1 then 1 else 0) \<le> zcard clk ar db1 + zcard clk al db1) \<and>
      \<not> (0 < un \<and> un + (if rep = 1 then 1 else 0) \<le> zcard clk ur db1 + zcard clk ul db1)"
    by (auto simp: acquireLiveLeaseScript_def Let_def assms live_trimmed_def live_added_def)
  then show ?thesis using that by blast
qed

text \<open>The scripts of live leases on other sets.\<close>

lemma keeps_refresh:
  assumes "key \<notin> set ks" and "0 < t"
  shows "keeps key ttl S clk db (snd (refreshLiveLeaseScript ks t lid clk db))"
proof -
  obtain ok db1 where c1: "confirm_lease ks (clock_seconds clk - t) lid clk db = (ok, db1)" by fastforce
  have 1: "keeps key ttl S clk db db1"
    using keeps_confirm [OF assms(1) keeps_refl, of ttl S clk db "clock_seconds clk - t" lid] by (simp add: c1)
  then have "keeps key ttl S clk db (fold (\<lambda>key db. expire clk key t (zadd clk key [(lid, clock_seconds clk)] db)) ks db1)"
    by (rule keeps_fold [rotated]) (use assms in \<open>auto intro!: keeps_intros\<close>)
  with 1 show ?thesis by (cases ok) (simp_all add: refreshLiveLeaseScript_def Let_def c1)
qed

lemma keeps_live:
  assumes "key \<notin> {al, ul, l}" and "0 < t"
  shows "keeps key ttl S clk db (snd (acquireLiveLeaseScript ar al ur ul l an un t lid rep clk db))"
proof -
  have trimmed: "keeps key ttl S clk db (live_trimmed al ul l t clk db)"
    unfolding live_trimmed_def by (intro keeps_intros) (use assms in auto)
  have added: "keeps key ttl S clk db
      (expire clk l t (expire clk ul t (expire clk al t (live_added al ul l t lid clk (live_trimmed al ul l t clk db)))))"
    unfolding live_added_def by (intro keeps_intros trimmed) (use assms in auto)
  show ?thesis
    using trimmed added by (cases rule: live_cases [OF refl refl, of ar al ur ul l an un t lid rep clk db]) simp_all
qed

lemma keeps_tx:
  "(\<And>m. (key, m) \<in> set ps \<Longrightarrow> m \<in> S) \<Longrightarrow> keeps key ttl S clk db (fold (\<lambda>p. zrem clk (fst p) [snd p]) ps db)"
  by (rule keeps_fold [OF _ keeps_refl]) (auto intro!: keeps_intros)

lemma slot_keeps:
  assumes "slot_cmd_ok ttl n a x clk c"
  shows "keeps (slot_key x) ttl {m. slot_removed x c m} clk db (snd (exec_cmd clk page c db))"
proof (cases c)
  case (RefreshLive ks t lid)
  with assms show ?thesis by (simp add: slot_cmd_ok_def keeps_refresh)
next
  case (TxZRem ps)
  show ?thesis unfolding TxZRem exec_cmd.simps snd_conv by (rule keeps_tx) (simp add: slot_removed_def slot_released_def)
next
  case (AcquireLive ar al ur ul l an un t lid rep)
  with assms show ?thesis by (simp add: slot_cmd_ok_def keeps_live)
qed (use assms in \<open>auto simp: slot_cmd_ok_def slot_removed_def slot_released_def script_defs Let_def keeps_cleanup split: option.splits if_splits
    intro!: keeps_intros\<close>)

lemma deadline_expired_key:
  "zset clk db k \<noteq> [] \<Longrightarrow> snd (rk_zsets (expire clk k secs db) k) = Some (clk + secs * 1000)"
  by (simp add: expire_def)

lemma slot_granted:
  assumes "slot_cmd_ok ttl n a x clk c" and "slot_grants x c (fst (exec_cmd clk page c db)) = Some m"
  shows "(m, clock_seconds clk) \<in> set (zset clk (snd (exec_cmd clk page c db)) (slot_key x)) \<and>
     snd (rk_zsets (snd (exec_cmd clk page c db)) (slot_key x)) = Some (clk + ttl * 1000)"
proof -
  obtain k l p t rid where c: "c = Acquire k l p t rid" using assms(2) by (cases c) (auto simp: slot_grants_def split: prod.splits)
  have t: "0 < t" "t = ttl" "k = slot_key x" "rid = m" using assms by (auto simp: c slot_cmd_ok_def slot_grants_def split: if_splits reply.splits)
  define db1 where "db1 = zremrangebyscore clk l (clock_seconds clk - 60) (zremrangebyscore clk k (clock_seconds clk - t) db)"
  define db2 where "db2 = zadd clk k [(rid, clock_seconds clk)] db1"
  have "snd (exec_cmd clk page c db) = expire clk k t db2"
    using assms(2) by (auto simp: c slot_grants_def acquireScript_def Let_def db1_def db2_def split: if_splits)
  moreover have "(m, clock_seconds clk) \<in> set (zset clk db2 k)" by (simp add: db2_def zset_zadd1 gput_at t)
  moreover from this have "zset clk db2 k \<noteq> []" by auto
  ultimately show ?thesis using t deadline_expired_key [of clk db2 k t] by (auto simp: zset_expire)
qed

section \<open>How many slots there are\<close>

lemma shrinks_confirm: "shrinks ks clk db db1 \<Longrightarrow> shrinks ks clk db (snd (confirm_lease keys b lid clk db1))"
proof (induction keys arbitrary: db1)
  case (Cons k keys)
  from Cons.prems have "shrinks ks clk db (zremrangebyscore clk k b db1)" by (rule shrinks_intros)
  with Cons.IH show ?case by (simp add: Let_def)
qed simp

lemma shrinks_fold:
  "(\<And>y db1. y \<in> set ys \<Longrightarrow> shrinks ks clk db db1 \<Longrightarrow> shrinks ks clk db (f y db1)) \<Longrightarrow>
     shrinks ks clk db db1 \<Longrightarrow> shrinks ks clk db (fold f ys db1)"
  by (induction ys arbitrary: db1) auto

text \<open>A confirmed lease is in every set, so that adding it again adds no member.\<close>

lemma confirmed_everywhere:
  "confirm_lease keys b lid clk db = (True, db') \<Longrightarrow> distinct keys \<Longrightarrow> k \<in> set keys \<Longrightarrow> gget (zset clk db' k) lid \<noteq> None"
proof (induction keys arbitrary: db)
  case (Cons k1 keys)
  let ?db = "zremrangebyscore clk k1 b db"
  have other: "confirm_lease ks b lid clk db1 = (r, db2) \<Longrightarrow> k1 \<notin> set ks \<Longrightarrow> zset clk db2 k1 = zset clk db1 k1" for ks db1 db2 r
    by (induction ks arbitrary: db1) (auto simp: Let_def zset_trim split: if_splits)
  have c: "zscore clk k1 lid ?db \<noteq> None" "confirm_lease keys b lid clk ?db = (True, db')"
    using Cons.prems(1) by (auto simp: Let_def split: if_splits)
  show ?case
  proof (cases "k = k1")
    case True
    with c(1) other [OF c(2)] Cons.prems(2) show ?thesis by (simp add: zscore_def)
  next
    case False
    with Cons.IH [OF c(2)] Cons.prems(2,3) show ?thesis by simp
  qed
qed simp

lemma readd_sizes:
  assumes "0 < t" and "ok_redis db" and "\<And>k. k \<in> set keys \<Longrightarrow> gget (zset clk db k) lid \<noteq> None"
  shows "glen (zset clk (fold (\<lambda>key db. expire clk key t (zadd clk key [(lid, now)] db)) keys db) k) = glen (zset clk db k)"
  using assms(2,3)
proof (induction keys arbitrary: db)
  case (Cons k1 keys)
  let ?db = "expire clk k1 t (zadd clk k1 [(lid, now)] db)"
  have z: "zset clk ?db k' = (if k' = k1 then gput (zset clk db k1) lid now else zset clk db k')" for k'
    using assms(1) by (simp add: zset_expire zset_zadd1)
  have "gget (zset clk ?db k') lid \<noteq> None" if "k' \<in> set keys" for k' using Cons.prems(2) [of k'] that by (simp add: z gget_gput)
  moreover have "ok_redis ?db" using Cons.prems(1) by simp
  ultimately have "glen (zset clk (fold (\<lambda>key db. expire clk key t (zadd clk key [(lid, now)] db)) keys ?db) k) = glen (zset clk ?db k)"
    by (intro Cons.IH)
  also have "\<dots> = glen (zset clk db k)"
    using gm.len_put_present [OF ok_zset [OF Cons.prems(1)], of clk k1 lid now] Cons.prems(2) [of k1] by (simp add: z)
  finally show ?case by simp
qed simp

lemma refresh_shrinks:
  assumes "0 < t" and "ok_redis db" and "distinct keys"
  shows "shrinks ks clk db (snd (refreshLiveLeaseScript keys t lid clk db))"
proof -
  obtain ok db1 where c: "confirm_lease keys (clock_seconds clk - t) lid clk db = (ok, db1)" by fastforce
  have s: "shrinks ks clk db db1" using shrinks_confirm [OF shrinks_refl, of ks clk db keys "clock_seconds clk - t" lid] by (simp add: c)
  have "ok_redis db1" using ok_confirm [OF assms(2), of keys "clock_seconds clk - t" lid clk] by (simp add: c)
  with readd_sizes [OF assms(1), of db1 keys clk lid] confirmed_everywhere [of keys _ lid clk db db1] assms(3) s c show ?thesis
    by (cases ok) (auto simp: refreshLiveLeaseScript_def Let_def shrinks_def)
qed

lemma size_pair: "size_on [k, l] clk db = glen (zset clk db k) + glen (zset clk db l)"
  by (simp add: size_on_def)

lemma glen_gput: "gmap_ok m \<Longrightarrow> glen (gput m k v) = (if gget m k = None then Suc (glen m) else glen m)"
  by (rule gm.len_put)

lemma acquire_size:
  assumes ok: "ok_redis db" and t: "0 < t" and kl: "k \<noteq> l" and n: "p \<le> n"
  shows "size_on [k, l] clk (snd (acquireScript k l p t rid clk db)) \<le> max (size_on [k, l] clk db) (nat n)"
proof -
  define db1 where "db1 = zremrangebyscore clk l (clock_seconds clk - 60) (zremrangebyscore clk k (clock_seconds clk - t) db)"
  have s: "shrinks [k, l] clk db db1" unfolding db1_def by (intro shrinks_intros)
  have "gmap_ok (zset clk db1 k)" using ok by (auto simp: db1_def intro!: ok_zset)
  then have "size_on [k, l] clk (zadd clk k [(rid, clock_seconds clk)] db1) = (if gget (zset clk db1 k) rid = None then 1 else 0) + size_on [k, l] clk db1"
    using kl by (simp add: size_pair zset_zadd1 glen_gput)
  moreover have "size_on [k, l] clk (expire clk k t db') = size_on [k, l] clk db'" for db' using t by (simp add: size_pair zset_expire)
  ultimately show ?thesis
    using shrinks_size [OF s] n by (auto simp: acquireScript_def Let_def db1_def [symmetric] zscore_def zcard_def size_pair split: if_splits)
qed

lemma live_size:
  assumes ok: "ok_redis db" and t: "t = 60" and al: "al \<noteq> k" "ul \<noteq> k" "l \<noteq> k" "al \<noteq> ul" "l \<noteq> live"
    and kl: "k \<noteq> live" and rep: "al = live \<or> ul = live \<longrightarrow> rep = 1 \<longrightarrow> 1 \<le> a" "0 \<le> a"
    and an: "al = live \<longrightarrow> ar = k \<and> 0 < an \<and> an \<le> n" and un: "ul = live \<longrightarrow> ur = k \<and> 0 < un \<and> un \<le> n"
  shows "size_on [k, live] clk (snd (acquireLiveLeaseScript ar al ur ul l an un t lid rep clk db)) \<le> max (size_on [k, live] clk db) (nat (n + a))"
proof -
  define db1 where "db1 = live_trimmed al ul l t clk db"
  define db2 where "db2 = live_added al ul l t lid clk db1"
  have s: "shrinks [k, live] clk db db1" unfolding db1_def live_trimmed_def by (intro shrinks_intros)
  have z: "zset clk (expire clk l t (expire clk ul t (expire clk al t db2))) = zset clk db2" using t by (auto simp: zset_expire)
  have ok1: "gmap_ok (zset clk db1 q)" for q using ok by (auto simp: db1_def live_trimmed_def intro!: ok_zset)
  have added: "size_on [k, live] clk db2 \<le> max (size_on [k, live] clk db1) (nat (n + a))"
    if c: "\<not> (0 < an \<and> an + (if rep = 1 then 1 else 0) \<le> zcard clk ar db1 + zcard clk al db1)"
      "\<not> (0 < un \<and> un + (if rep = 1 then 1 else 0) \<le> zcard clk ur db1 + zcard clk ul db1)"
  proof (cases "al = live \<or> ul = live")
    case True
    then have "size_on [k, live] clk db2 \<le> Suc (size_on [k, live] clk db1)"
      using al kl ok1 [of live] by (auto simp: size_pair db2_def live_added_def zset_zadd1 glen_gput)
    moreover have "int (size_on [k, live] clk db1) < n + a"
      using True c an un rep al(4) by (auto simp: zcard_def size_pair split: if_splits)
    ultimately show ?thesis by simp
  next
    case False
    with al show ?thesis by (auto simp: size_pair db2_def live_added_def zset_zadd1)
  qed
  show ?thesis
  proof (rule live_cases [OF db1_def db2_def])
    assume "snd (acquireLiveLeaseScript ar al ur ul l an un t lid rep clk db) = db1"
    then show ?thesis using shrinks_size [OF s] by simp
  next
    assume e: "snd (acquireLiveLeaseScript ar al ur ul l an un t lid rep clk db) = expire clk l t (expire clk ul t (expire clk al t db2))"
      and c: "\<not> (0 < an \<and> an + (if rep = 1 then 1 else 0) \<le> zcard clk ar db1 + zcard clk al db1)"
        "\<not> (0 < un \<and> un + (if rep = 1 then 1 else 0) \<le> zcard clk ur db1 + zcard clk ul db1)"
    have "size_on [k, live] clk (expire clk l t (expire clk ul t (expire clk al t db2))) = size_on [k, live] clk db2" by (simp add: size_pair z)
    with added [OF c] shrinks_size [OF s] show ?thesis by (simp add: e)
  qed
qed

lemma slot_size:
  assumes "slot_cmd_ok ttl n a x clk c" and "ok_redis db"
  shows "size_on [slot_key x, live_key x] clk (snd (exec_cmd clk page c db)) \<le> max (size_on [slot_key x, live_key x] clk db) (nat (n + a))"
proof (cases "\<exists>k l p t rid. c = Acquire k l p t rid \<and> k = slot_key x")
  case True
  then obtain l p t rid where c: "c = Acquire (slot_key x) l p t rid" by blast
  have k: "l = live_key x" "p \<le> n" "0 < t" "0 \<le> a" using assms(1) by (simp_all add: c slot_cmd_ok_def)
  have "size_on [slot_key x, live_key x] clk (snd (exec_cmd clk page c db)) \<le> max (size_on [slot_key x, live_key x] clk db) (nat n)"
    using acquire_size [OF assms(2) k(3), of "slot_key x" "live_key x" p n clk rid] k(1,2) by (simp add: c case_prod_beta Let_def)
  also have "\<dots> \<le> max (size_on [slot_key x, live_key x] clk db) (nat (n + a))" using k(4) by (intro max.mono order_refl nat_mono) simp
  finally show ?thesis .
next
  case acquire: False
  show ?thesis
  proof (cases "\<exists>ar al ur ul l an un t lid rep. c = AcquireLive ar al ur ul l an un t lid rep")
    case True
    then obtain ar al ur ul l an un t lid rep where c: "c = AcquireLive ar al ur ul l an un t lid rep" by blast
    show ?thesis unfolding c exec_cmd.simps snd_apfst
      by (rule live_size [OF assms(2)]) (use assms(1) in \<open>auto simp: c slot_cmd_ok_def\<close>)
  next
    case False
    have "shrinks [slot_key x, live_key x] clk db (snd (exec_cmd clk page c db))"
    proof (cases c)
      case (RefreshLive ks t lid)
      with assms refresh_shrinks [of t db ks] show ?thesis by (auto simp: slot_cmd_ok_def)
    next
      case (TxZRem ps)
      show ?thesis unfolding TxZRem exec_cmd.simps snd_conv by (rule shrinks_fold [OF _ shrinks_refl]) (auto intro: shrinks_intros)
    next
      case (Acquire k l p t rid)
      with assms(1) acquire have "0 < t" "k \<notin> set [slot_key x, live_key x]" by (auto simp: slot_cmd_ok_def)
      with Acquire show ?thesis by (auto simp: acquireScript_def Let_def intro!: shrinks_intros)
    qed (use assms(1) False in \<open>auto simp: slot_cmd_ok_def script_defs Let_def split: option.splits intro!: shrinks_intros\<close>)
    then show ?thesis using shrinks_size by fastforce
  qed
qed

interpretation slots: leased_set "slot_key x" "[slot_key x, live_key x]" ttl "nat (n + a)" "slot_cmd_ok ttl n a x" "slot_grants x" "slot_removed x"
  for x ttl n a
proof unfold_locales
  show "slot_grants x c RErr = None" for c by (simp add: slot_grants_def split: redis_cmd.split)
qed (simp_all add: slot_keeps slot_granted slot_size)

end
