(* ===== verification/Concurrency_Programs.thy ===== *)
theory Concurrency_Programs
  imports Concurrency_Slots
begin

text \<open>
  The commands that the programs of the cache send: which keys they name, in which role, with which
  times. Everything about runs follows from this one description.
\<close>

named_theorems calls_intros \<open>programs that only send commands of the cache\<close>

section \<open>The commands of the cache\<close>

definition index_key :: "string \<Rightarrow> bool" where
  "index_key k \<longleftrightarrow> k = accountActiveIndexKey \<or> k = userActiveIndexKey"

definition stats_key :: "string \<Rightarrow> bool" where
  "stats_key k \<longleftrightarrow> (\<exists>i. k = apiKeySlotKey i \<or> k = liveAPIKeySlotKey i)"

definition wait_key :: "string \<Rightarrow> bool" where
  "wait_key k \<longleftrightarrow> starts_with k accountWaitKeyPrefix \<or> starts_with k waitQueueKeyPrefix"

text \<open>
  The limits that requests ask for: of slots, of live sessions that replace slots or not, of WebSockets, of
  waiting; and the prefixes of the requests of the processes that start.
\<close>

record asked_limits =
  lm_slot :: "slot_owner \<Rightarrow> int \<Rightarrow> bool"
  lm_live :: "slot_owner \<Rightarrow> int \<Rightarrow> bool \<Rightarrow> bool"
  lm_ingress :: "int \<Rightarrow> int \<Rightarrow> bool"
  lm_wait :: "string \<Rightarrow> int \<Rightarrow> bool"
  lm_start :: "string \<Rightarrow> bool"

definition cache_cmd :: "concurrencyCache \<Rightarrow> asked_limits \<Rightarrow> int \<Rightarrow> redis_cmd \<Rightarrow> bool" where
  "cache_cmd C L clk c \<longleftrightarrow>
     (case c of
        TimeCmd \<Rightarrow> True
      | ZRemRangeByScore k b \<Rightarrow>
          (\<exists>y. k = slot_key y \<and> b + cc_slotTTLSeconds C \<le> clock_seconds clk) \<or> (\<exists>y. k = live_key y) \<or> stats_key k
      | ZCard k \<Rightarrow> (\<exists>y. k = slot_key y \<or> k = live_key y) \<or> stats_key k
      | ZAdd k ps \<Rightarrow> index_key k
      | ZRem k ms \<Rightarrow> index_key k \<or> (\<exists>y. k = slot_key y) \<or> stats_key k \<or> (\<exists>i. k = openAIWSIngressLeaseKey i)
      | ZRange k \<Rightarrow> index_key k
      | ZRangeByScore k b count \<Rightarrow> index_key k
      | GetCmd k \<Rightarrow> wait_key k
      | DelCmd ks \<Rightarrow> (\<forall>k\<in>set ks. wait_key k)
      | ExistsCmd k \<Rightarrow> k = legacyWaitSweepMarkerKey
      | SetCmd k v \<Rightarrow> k = legacyWaitSweepMarkerKey
      | ScanCmd pre \<Rightarrow> pre = accountWaitKeyPrefix \<or> pre = waitQueueKeyPrefix
      | TxZRem ps \<Rightarrow> (\<forall>p\<in>set ps. (\<exists>y. fst p = live_key y) \<or> stats_key (fst p))
      | Acquire k l m t r \<Rightarrow> \<exists>y. k = slot_key y \<and> l = live_key y \<and> t = cc_slotTTLSeconds C \<and> lm_slot L y m
      | GetCount k l t \<Rightarrow> \<exists>y. k = slot_key y \<and> l = live_key y \<and> t = cc_slotTTLSeconds C
      | AcquireLive ar al ur ul l an un t lid rep \<Rightarrow>
          \<exists>i j g. ar = accountSlotKey i \<and> al = liveAccountSlotKey i \<and> ur = userSlotKey j \<and> ul = liveUserSlotKey j \<and>
            l = liveAPIKeySlotKey g \<and> t = 60 \<and> lm_live L (OfAccount i) an (rep = 1) \<and> lm_live L (OfUser j) un (rep = 1)
      | RefreshLive ks t lid \<Rightarrow>
          \<exists>i j g. ks = [liveAccountSlotKey i, liveUserSlotKey j, liveAPIKeySlotKey g] \<and> t = 60
      | Track k t r \<Rightarrow> stats_key k \<and> t = cc_slotTTLSeconds C
      | AcquireIngress k m t lid \<Rightarrow> \<exists>i. k = openAIWSIngressLeaseKey i \<and> t = 60 \<and> lm_ingress L i m
      | RefreshIngress k t lid \<Rightarrow> \<exists>i. k = openAIWSIngressLeaseKey i \<and> t = 60
      | IncrementWait k m t \<Rightarrow> wait_key k \<and> t = cc_waitQueueTTLSeconds C \<and> lm_wait L k m
      | IncrementAccountWait k m t \<Rightarrow> wait_key k \<and> t = cc_waitQueueTTLSeconds C \<and> lm_wait L k m
      | DecrementWait k \<Rightarrow> wait_key k
      | CleanupExpired k t \<Rightarrow> (\<exists>y. k = slot_key y) \<and> t = cc_slotTTLSeconds C
      | StartupCleanup k pre t \<Rightarrow> (\<exists>y. k = slot_key y) \<and> t = cc_slotTTLSeconds C \<and> lm_start L pre)"

abbreviation cache_calls :: "concurrencyCache \<Rightarrow> asked_limits \<Rightarrow> 'a prog \<Rightarrow> int \<Rightarrow> bool" where
  "cache_calls C L \<equiv> all_calls (cache_cmd C L)"

lemma cache_keys [simp]:
  "index_key accountActiveIndexKey" "index_key userActiveIndexKey" "stats_key (apiKeySlotKey i)" "stats_key (liveAPIKeySlotKey i)"
  "wait_key (waitQueueKey i)" "wait_key (accountWaitKey i)"
proof -
  show "wait_key (waitQueueKey i)" "wait_key (accountWaitKey i)"
    unfolding wait_key_def waitQueueKey_def accountWaitKey_def using starts_with_append by blast+
qed (auto simp: index_key_def stats_key_def)

lemma owner_keys [simp]:
  "\<exists>y. accountSlotKey i = slot_key y" "\<exists>y. userSlotKey i = slot_key y"
  "\<exists>y. liveAccountSlotKey i = live_key y" "\<exists>y. liveUserSlotKey i = live_key y"
  by (metis slot_key.simps live_key.simps)+

section \<open>Pieces of programs\<close>

lemma calls_ret [calls_intros]: "all_calls P (Ret x) clk"
  by simp

lemma calls_bind [calls_intros]:
  "all_calls P p clk \<Longrightarrow> (\<And>x clk'. clk \<le> clk' \<Longrightarrow> all_calls P (g x) clk') \<Longrightarrow> all_calls P (pbind p g) clk"
  by (rule all_calls_bind)

lemma calls_seq [calls_intros]:
  "all_calls P p clk \<Longrightarrow> (\<And>clk'. clk \<le> clk' \<Longrightarrow> all_calls P q clk') \<Longrightarrow> all_calls P (pseq p q) clk"
  unfolding pseq_def by (rule all_calls_bind)

lemma calls_call [calls_intros]:
  "(\<And>clk'. clk \<le> clk' \<Longrightarrow> P clk' c) \<Longrightarrow> (\<And>clk' r. clk \<le> clk' \<Longrightarrow> reply_at clk' c r \<Longrightarrow> all_calls P (f r) clk') \<Longrightarrow>
     all_calls P (Call c f) clk"
  by simp

lemma calls_pipeline [calls_intros]: "(\<And>c clk'. c \<in> set cs \<Longrightarrow> clk \<le> clk' \<Longrightarrow> P clk' c) \<Longrightarrow> all_calls P (pipeline cs) clk"
proof (induction cs arbitrary: clk)
  case (Cons c cs)
  have "all_calls P (pbind (pipeline cs) (\<lambda>rs. Ret (r # rs))) clk'" if "clk \<le> clk'" for clk' r
    using Cons that by (intro calls_intros Cons.IH) auto
  then show ?case using Cons.prems [of c] by auto
qed simp

lemma calls_if [calls_intros]: "(b \<Longrightarrow> all_calls P p clk) \<Longrightarrow> (\<not> b \<Longrightarrow> all_calls P q clk) \<Longrightarrow> all_calls P (if b then p else q) clk"
  by simp

lemma calls_option [calls_intros]:
  "(z = None \<Longrightarrow> all_calls P p clk) \<Longrightarrow> (\<And>y. z = Some y \<Longrightarrow> all_calls P (f y) clk) \<Longrightarrow>
     all_calls P (case z of None \<Rightarrow> p | Some y \<Rightarrow> f y) clk"
  by (cases z) auto

lemma time_le: "reply_at clk c (RTime now) \<Longrightarrow> clk \<le> clk' \<Longrightarrow> now - ttl + ttl \<le> clock_seconds clk'"
  using clock_seconds_mono [of clk clk'] by (simp add: reply_at_def)

lemma touch_calls [calls_intros]: "index_key k \<Longrightarrow> cache_calls C L (touchActiveIndexAt k i t) clk"
  by (simp add: touchActiveIndexAt_def cache_cmd_def)

lemma touched_calls [calls_intros]: "index_key k \<Longrightarrow> cache_calls C L (touched k i ttl r) clk"
  by (auto simp: touched_def split: reply.split intro!: calls_intros)

lemma refresh_calls:
  assumes "index_key k" and "slot = slot_key y" and "wait_key w"
  shows "cache_calls C L (refreshActiveIndex C k i slot w) clk"
proof -
  have load: "cache_calls C L (readActiveLoadForKey C i slot w now) clk1" if "now \<le> clock_seconds clk1" for now clk1
    unfolding readActiveLoadForKey_def
    using that assms clock_seconds_mono by (intro calls_intros) (fastforce simp: cache_cmd_def)+
  show ?thesis
    unfolding refreshActiveIndex_def
    using assms(1) load
    by (auto simp: cache_cmd_def Let_def reply_at_def split: reply.split option.split
        intro!: calls_bind calls_if touch_calls)
qed

lemma refresh_account_calls [calls_intros]: "cache_calls C L (refreshAccountActiveIndex C i) clk"
  unfolding refreshAccountActiveIndex_def by (rule refresh_calls [of _ _ "OfAccount i"]) simp_all

lemma refresh_user_calls [calls_intros]: "cache_calls C L (refreshUserActiveIndex C i) clk"
  unfolding refreshUserActiveIndex_def by (rule refresh_calls [of _ _ "OfUser i"]) simp_all

section \<open>The operations of the cache\<close>

lemma slot_calls [calls_intros]:
  "lm_slot L (OfAccount i) m \<Longrightarrow> cache_calls C L (AcquireAccountSlot C i m rid) clk"
  "lm_slot L (OfUser i) m \<Longrightarrow> cache_calls C L (AcquireUserSlot C i m rid) clk"
  "cache_calls C L (ReleaseAccountSlot C i rid) clk" "cache_calls C L (ReleaseUserSlot C i rid) clk"
  "cache_calls C L (GetAccountConcurrency C i) clk" "cache_calls C L (GetUserConcurrency C i) clk"
  "cache_calls C L (TrackAPIKeySlot C i rid) clk" "cache_calls C L (ReleaseAPIKeySlot i rid) clk"
proof -
  have pair: "\<exists>y. accountSlotKey i = slot_key y \<and> liveAccountSlotKey i = live_key y"
    "\<exists>y. userSlotKey i = slot_key y \<and> liveUserSlotKey i = live_key y"
    "lm_slot L (OfAccount i) m \<Longrightarrow> \<exists>y. accountSlotKey i = slot_key y \<and> liveAccountSlotKey i = live_key y \<and> lm_slot L y m"
    "lm_slot L (OfUser i) m \<Longrightarrow> \<exists>y. userSlotKey i = slot_key y \<and> liveUserSlotKey i = live_key y \<and> lm_slot L y m"
    by (metis slot_key.simps live_key.simps)+
  show "lm_slot L (OfAccount i) m \<Longrightarrow> cache_calls C L (AcquireAccountSlot C i m rid) clk"
    "lm_slot L (OfUser i) m \<Longrightarrow> cache_calls C L (AcquireUserSlot C i m rid) clk"
    "cache_calls C L (GetAccountConcurrency C i) clk" "cache_calls C L (GetUserConcurrency C i) clk"
    unfolding AcquireAccountSlot_def AcquireUserSlot_def GetAccountConcurrency_def GetUserConcurrency_def
    by (intro calls_intros; simp add: cache_cmd_def pair)+
  show "cache_calls C L (ReleaseAccountSlot C i rid) clk" "cache_calls C L (ReleaseUserSlot C i rid) clk"
    "cache_calls C L (TrackAPIKeySlot C i rid) clk" "cache_calls C L (ReleaseAPIKeySlot i rid) clk"
    unfolding ReleaseAccountSlot_def ReleaseUserSlot_def TrackAPIKeySlot_def ReleaseAPIKeySlot_def
    by (intro calls_intros; simp add: cache_cmd_def)+
qed

text \<open>The commands of pipelines, at a clock that has passed the time they were made with.\<close>

lemma count_cmds_ok:
  "x \<in> set (count_cmds C now k l) \<Longrightarrow> now \<le> clock_seconds clk \<Longrightarrow> (\<exists>y. k = slot_key y \<and> l = live_key y) \<or> stats_key k \<and> stats_key l \<Longrightarrow>
     cache_cmd C L clk x"
  by (auto simp: count_cmds_def cache_cmd_def)

lemma now_later: "reply_at clk c (RTime now) \<Longrightarrow> clk \<le> clk' \<Longrightarrow> now \<le> clock_seconds clk'"
  using clock_seconds_mono [of clk clk'] by (simp add: reply_at_def)

lemma time_calls:
  assumes "\<And>now clk'. clk \<le> clk' \<Longrightarrow> now \<le> clock_seconds clk' \<Longrightarrow> cache_calls C L (f now) clk'"
  shows "cache_calls C L (Call TimeCmd (\<lambda>r. case r of RTime now \<Rightarrow> f now | _ \<Rightarrow> Ret z)) clk"
  using assms by (auto simp: cache_cmd_def reply_at_def split: reply.split)

lemma owner_pair:
  "\<exists>y. accountSlotKey i = slot_key y \<and> liveAccountSlotKey i = live_key y" "\<exists>y. userSlotKey i = slot_key y \<and> liveUserSlotKey i = live_key y"
  by (metis slot_key.simps live_key.simps)+

lemma batch_calls [calls_intros]:
  "cache_calls C L (GetAccountConcurrencyBatch C ids) clk" "cache_calls C L (GetAPIKeyConcurrencyBatch C ids) clk"
  "cache_calls C L (GetAccountsLoadBatch C xs) clk" "cache_calls C L (GetUsersLoadBatch C xs) clk"
proof -
  have later: "now \<le> clock_seconds clk'" if "now \<le> clock_seconds clk1" "clk1 \<le> clk'" for now clk1 clk'
    using that clock_seconds_mono by (meson order_trans)
  have wait: "cache_cmd C L clk1 (GetCmd (accountWaitKey i))" "cache_cmd C L clk1 (GetCmd (waitQueueKey i))" for clk1 i
    by (simp_all add: cache_cmd_def)
  show "cache_calls C L (GetAccountConcurrencyBatch C ids) clk" "cache_calls C L (GetAPIKeyConcurrencyBatch C ids) clk"
    "cache_calls C L (GetAccountsLoadBatch C xs) clk" "cache_calls C L (GetUsersLoadBatch C xs) clk"
    unfolding GetAccountConcurrencyBatch_def GetAPIKeyConcurrencyBatch_def GetAccountsLoadBatch_def GetUsersLoadBatch_def
    by (intro calls_if calls_ret time_calls calls_bind calls_pipeline;
        (use later wait owner_pair in \<open>auto intro: count_cmds_ok\<close>))+
qed

lemma lease_calls [calls_intros]:
  "lm_ingress L i m \<Longrightarrow> cache_calls C L (AcquireOpenAIWSIngressLease i m lid) clk"
  "cache_calls C L (RefreshOpenAIWSIngressLease i lid) clk" "cache_calls C L (ReleaseOpenAIWSIngressLease i lid) clk"
  "lm_live L (OfAccount i) an rep \<Longrightarrow> lm_live L (OfUser j) un rep \<Longrightarrow> cache_calls C L (AcquireLiveLease i an j un g lid rep) clk"
  "cache_calls C L (RefreshLiveLease i j g lid) clk" "cache_calls C L (ReleaseLiveLease i j g lid) clk"
proof -
  show "cache_calls C L (AcquireLiveLease i an j un g lid rep) clk" if "lm_live L (OfAccount i) an rep" "lm_live L (OfUser j) un rep"
    unfolding AcquireLiveLease_def
    by (intro calls_intros, unfold cache_cmd_def redis_cmd.case, rule exI [of _ i], rule exI [of _ j], rule exI [of _ g])
      (use that in \<open>cases rep; simp\<close>)
qed (auto simp: AcquireOpenAIWSIngressLease_def RefreshOpenAIWSIngressLease_def ReleaseOpenAIWSIngressLease_def
      RefreshLiveLease_def ReleaseLiveLease_def cache_cmd_def)

lemma wait_calls [calls_intros]:
  "lm_wait L (waitQueueKey i) m \<Longrightarrow> cache_calls C L (IncrementWaitCount C i m) clk" "cache_calls C L (DecrementWaitCount C i) clk"
  "lm_wait L (accountWaitKey i) m \<Longrightarrow> cache_calls C L (IncrementAccountWaitCount C i m) clk"
  "cache_calls C L (DecrementAccountWaitCount C i) clk" "cache_calls C L (GetAccountWaitingCount i) clk"
  unfolding IncrementWaitCount_def DecrementWaitCount_def IncrementAccountWaitCount_def DecrementAccountWaitCount_def GetAccountWaitingCount_def
  by (intro calls_intros; simp add: cache_cmd_def)+

section \<open>Cleaning\<close>

lemma clean_one_calls [calls_intros]: "cache_calls C L (CleanupExpiredAccountSlots C i) clk"
  unfolding CleanupExpiredAccountSlots_def by (intro calls_intros; simp add: cache_cmd_def)

text \<open>The two indices of active accounts and users.\<close>

definition slot_index :: "slotIndexSpec \<Rightarrow> bool" where
  "slot_index spec \<longleftrightarrow> spec = accountSlotIndex \<or> spec = userSlotIndex"

lemma slot_index_keys:
  assumes "slot_index spec"
  shows "index_key (sis_indexKey spec)" "\<exists>y. sis_slotKey spec i = slot_key y" "wait_key (sis_waitKey spec i)"
  using assms by (auto simp: slot_index_def accountSlotIndex_def userSlotIndex_def)

lemma index_calls [calls_intros]:
  "index_key k \<Longrightarrow> cache_calls C L (removeActiveIndexMembers k ms) clk"
  "index_key k \<Longrightarrow> cache_calls C L (write_index k ps ms) clk"
  "index_key k \<Longrightarrow> cache_calls C L (allIndexMembers k) clk"
proof -
  show r: "cache_calls C L (removeActiveIndexMembers k ms) clk" if "index_key k" for clk
    using that by (simp add: removeActiveIndexMembers_def cache_cmd_def)
  show "cache_calls C L (write_index k ps ms) clk" if "index_key k"
    unfolding write_index_def using that r by (intro calls_intros) (simp_all add: cache_cmd_def)
  show "cache_calls C L (allIndexMembers k) clk" if "index_key k" using that by (simp add: allIndexMembers_def cache_cmd_def)
qed

lemma chunk_calls:
  "slot_index spec \<Longrightarrow> now \<le> clock_seconds clk \<Longrightarrow> cache_calls C L (read_chunks C spec now xs) clk"
proof (induction C spec now xs arbitrary: clk rule: read_chunks.induct)
  case (1 C spec now xs)
  have cmds: "cache_cmd C L clk' c" if "c \<in> set (load_cmds C spec now i)" "clk \<le> clk'" for c i clk'
    using that slot_index_keys(2,3) [OF "1.prems"(1), of i] "1.prems"(2) clock_seconds_mono [of clk clk']
    by (fastforce simp: load_cmds_def cache_cmd_def)
  have rest: "cache_calls C L (read_chunks C spec now (drop 500 xs)) clk'" if "xs \<noteq> []" "clk \<le> clk'" "\<not> pipe_failed rs" for clk' rs
    using "1.IH" [OF that(1) refl that(3) "1.prems"(1)] "1.prems"(2) clock_seconds_mono [OF that(2)] by simp
  show ?case
    unfolding read_chunks.simps [of C spec now xs] Let_def
    by (intro calls_if calls_ret calls_bind calls_pipeline) (use cmds rest in auto)
qed

lemma reconcile_calls:
  assumes "slot_index spec"
  shows "cache_calls C L (reconcileExpiredIndexCandidates C spec) clk"
proof -
  note k = slot_index_keys(1) [OF assms]
  have "cache_calls C L (readIndexLoads C spec ms now) clk'" if "now \<le> clock_seconds clk'" for ms now clk'
    unfolding readIndexLoads_def Let_def by (intro calls_bind chunk_calls assms that calls_ret)
  moreover have "now \<le> clock_seconds clk2" if "now \<le> clock_seconds clk1" "clk1 \<le> clk2" for now clk1 clk2
    using that clock_seconds_mono by (meson order_trans)
  ultimately show ?thesis
    unfolding reconcileExpiredIndexCandidates_def
    by (intro time_calls) (auto simp: cache_cmd_def k Let_def split: reply.split prod.split option.split intro!: calls_bind calls_seq index_calls)
qed

lemma clean_all_calls [calls_intros]: "cache_calls C L (CleanupExpiredAccountSlotKeys C) clk"
  unfolding CleanupExpiredAccountSlotKeys_def
  by (intro calls_bind calls_if reconcile_calls calls_ret) (simp_all add: slot_index_def)

lemma scan_calls [calls_intros]:
  "pre = accountWaitKeyPrefix \<or> pre = waitQueueKeyPrefix \<Longrightarrow> cache_calls C L (scan_delete pages pre) clk"
proof (induction pages arbitrary: clk)
  case (Suc pages)
  have del: "cache_cmd C L clk1 (DelCmd keys)" if "reply_at clk' (ScanCmd pre) (RKeys keys b)" for keys b clk1 clk'
    using that Suc.prems by (auto simp: reply_at_def cache_cmd_def wait_key_def)
  show ?case
    using Suc.prems Suc.IH del
    by (auto simp: Let_def cache_cmd_def [of C L _ "ScanCmd pre"] split: reply.split)
qed simp

lemma sweep_calls [calls_intros]: "cache_calls C L (sweepLegacyWaitKeysOnce pages) clk"
  unfolding sweepLegacyWaitKeysOnce_def
  by (auto simp: cache_cmd_def split: reply.split intro!: calls_bind calls_if scan_calls)

lemma cleanup_calls:
  assumes spec: "slot_index spec" and start: "lm_start L pre"
  shows "cache_calls C L (cleanup_members C spec pre now ms ps qs) clk"
proof (induction ms arbitrary: ps qs clk)
  case Nil
  show ?case unfolding cleanup_members.simps by (intro calls_seq index_calls calls_ret) (rule slot_index_keys(1) [OF spec])
next
  case (Cons m ms)
  have "cache_cmd C L clk1 (StartupCleanup (sis_slotKey spec i) pre (cc_slotTTLSeconds C))" "cache_cmd C L clk1 (DelCmd [sis_waitKey spec i])"
    for i clk1 using slot_index_keys(2,3) [OF spec, of i] start by (simp_all add: cache_cmd_def)
  with Cons.IH show ?case by (auto split: reply.split option.split)
qed

lemma process_start_calls [calls_intros]: "lm_start L pre \<Longrightarrow> cache_calls C L (CleanupStaleProcessSlots pages C pre) clk"
proof -
  assume "lm_start L pre"
  moreover have "slot_index accountSlotIndex" "slot_index userSlotIndex" by (simp_all add: slot_index_def)
  ultimately show ?thesis
    unfolding CleanupStaleProcessSlots_def cleanupStaleProcessSlotsForIndex_def
    by (intro calls_bind calls_if calls_ret sweep_calls time_calls calls_option index_calls cleanup_calls) simp_all
qed

section \<open>Requests\<close>

text \<open>What a request asks for is within the limits.\<close>

fun asks_within :: "asked_limits \<Rightarrow> request \<Rightarrow> bool" where
  "asks_within L (UserRequest u m k r kr es) \<longleftrightarrow>
     (0 < m \<longrightarrow> lm_slot L (OfUser u) m) \<and> lm_wait L (waitQueueKey u) (max 1 (CalculateMaxWait m - m))"
| "asks_within L (AccountRequest i m r) \<longleftrightarrow> (0 < m \<longrightarrow> lm_slot L (OfAccount i) m)"
| "asks_within L (AccountWait i m w r es) \<longleftrightarrow> (0 < m \<longrightarrow> lm_slot L (OfAccount i) m) \<and> lm_wait L (accountWaitKey i) w"
| "asks_within L (LiveSession i an j un g lid rep n) \<longleftrightarrow> lm_live L (OfAccount i) an rep \<and> lm_live L (OfUser j) un rep"
| "asks_within L (IngressSession i m lid n) \<longleftrightarrow> lm_ingress L i m"
| "asks_within L (ProcessStart pages pre) \<longleftrightarrow> lm_start L pre"
| "asks_within L _ \<longleftrightarrow> True"

definition slot_answer :: "(unit prog \<Rightarrow> bool) \<Rightarrow> acquire_result \<Rightarrow> bool" where
  "slot_answer P r = (case r of SlotTaken release \<Rightarrow> P release | _ \<Rightarrow> True)"

definition wait_answer :: "(unit prog \<Rightarrow> bool) \<Rightarrow> wait_outcome \<Rightarrow> bool" where
  "wait_answer P z = (case z of WaitGot release \<Rightarrow> P release | _ \<Rightarrow> True)"

text \<open>A program all of whose commands satisfy \<open>P\<close>, at any later clock, and whose results satisfy \<open>Q\<close>.\<close>

primrec results :: "('a \<Rightarrow> bool) \<Rightarrow> 'a prog \<Rightarrow> bool" where
  "results Q (Ret x) = Q x"
| "results Q (Call c f) = (\<forall>r. results Q (f r))"

lemma calls_bind_results:
  "all_calls P p clk \<Longrightarrow> results Q p \<Longrightarrow> (\<And>x clk'. Q x \<Longrightarrow> clk \<le> clk' \<Longrightarrow> all_calls P (g x) clk') \<Longrightarrow> all_calls P (pbind p g) clk"
proof (induction p arbitrary: clk)
  case (Call c f)
  show ?case
  proof (simp, intro allI impI conjI)
    fix clk' assume "clk \<le> clk'"
    with Call.prems(1) show "P clk' c" by simp
    fix r assume "reply_at clk' c r"
    with Call.prems \<open>clk \<le> clk'\<close> show "all_calls P (pbind (f r) g) clk'" by (intro Call.IH) auto
  qed
qed simp

lemma results_bind: "results Q p \<Longrightarrow> (\<And>x. Q x \<Longrightarrow> results R (g x)) \<Longrightarrow> results R (pbind p g)"
  by (induction p) auto

lemma results_any: "results (\<lambda>x. True) p"
  by (induction p) auto

lemma results_bind_any: "(\<And>x. results R (g x)) \<Longrightarrow> results R (pbind p g)"
  by (rule results_bind [OF results_any])

text \<open>Release functions are programs of the cache themselves.\<close>

abbreviation release_ok :: "concurrencyCache \<Rightarrow> asked_limits \<Rightarrow> unit prog \<Rightarrow> bool" where
  "release_ok C L p \<equiv> (\<forall>clk. cache_calls C L p clk)"

lemma results_ret [simp]: "results Q (Ret x) \<longleftrightarrow> Q x"
  by simp

lemma service_slot_calls:
  assumes "0 < m \<longrightarrow> lm_slot L (OfAccount i) m"
  shows "cache_calls C L (service_AcquireAccountSlot C i m rid) clk" "results (slot_answer (release_ok C L)) (service_AcquireAccountSlot C i m rid)"
proof -
  show "cache_calls C L (service_AcquireAccountSlot C i m rid) clk"
    unfolding service_AcquireAccountSlot_def using assms by (intro calls_intros) auto
  have "release_ok C L (pseq (ReleaseAccountSlot C i rid) (Ret ()))" by (intro allI calls_intros)
  then show "results (slot_answer (release_ok C L)) (service_AcquireAccountSlot C i m rid)"
    by (auto simp: service_AcquireAccountSlot_def slot_result_def slot_answer_def split: option.split intro!: results_bind_any)
qed

lemma service_user_slot_calls:
  assumes "0 < m \<longrightarrow> lm_slot L (OfUser i) m"
  shows "cache_calls C L (service_AcquireUserSlot C i m rid) clk" "results (slot_answer (release_ok C L)) (service_AcquireUserSlot C i m rid)"
proof -
  show "cache_calls C L (service_AcquireUserSlot C i m rid) clk"
    unfolding service_AcquireUserSlot_def using assms by (intro calls_intros) auto
  have "release_ok C L (pseq (ReleaseUserSlot C i rid) (Ret ()))" by (intro allI calls_intros)
  then show "results (slot_answer (release_ok C L)) (service_AcquireUserSlot C i m rid)"
    by (auto simp: service_AcquireUserSlot_def slot_result_def slot_answer_def split: option.split intro!: results_bind_any)
qed

lemma with_key_calls:
  assumes "wait_answer (release_ok C L) z"
  shows "cache_calls C L (with_key C g kr z) clk" "results (wait_answer (release_ok C L)) (with_key C g kr z)"
proof -
  have rel: "release_ok C L (pseq (ReleaseAPIKeySlot g kr) (Ret ()))" by (intro allI calls_intros)
  have t: "cache_calls C L (service_TrackAPIKeySlot C g kr) clk'" "results (release_ok C L) (service_TrackAPIKeySlot C g kr)" for clk'
    using rel by (auto simp: service_TrackAPIKeySlot_def intro!: calls_intros results_bind_any)
  have k: "cache_calls C L (withAPIKeySlot C g kr r) clk" "results (release_ok C L) (withAPIKeySlot C g kr r)" if "release_ok C L r" for r
    using that t by (auto simp: withAPIKeySlot_def intro!: calls_intros results_bind [OF t(2)])
  show "cache_calls C L (with_key C g kr z) clk" "results (wait_answer (release_ok C L)) (with_key C g kr z)"
    using assms k by (auto simp: with_key_def wait_answer_def split: wait_outcome.split intro!: calls_intros results_bind [OF k(2)])
qed

lemma wait_loop_calls:
  assumes "\<And>rid clk. cache_calls C L (acquire rid) clk" and "\<And>rid. results (slot_answer (release_ok C L)) (acquire rid)"
  shows "cache_calls C L (wait_loop acquire es) clk" "results (wait_answer (release_ok C L)) (wait_loop acquire es)"
proof -
  show "cache_calls C L (wait_loop acquire es) clk"
    using assms(1) by (induction acquire es arbitrary: clk rule: wait_loop.induct)
      (auto intro!: calls_bind split: acquire_result.split)
  show "results (wait_answer (release_ok C L)) (wait_loop acquire es)"
    using assms(2)
  proof (induction acquire es rule: wait_loop.induct)
    case (4 acquire rid es)
    then show ?case
      by (auto simp: wait_answer_def slot_answer_def intro!: results_bind [OF 4(2) [of rid]] split: acquire_result.split)
  qed (simp_all add: wait_answer_def)
qed

lemma wait_for_slot_calls:
  assumes "\<And>rid clk. cache_calls C L (acquire rid) clk" and "\<And>rid. results (slot_answer (release_ok C L)) (acquire rid)"
  shows "cache_calls C L (waitForSlotWithPingTimeout acquire t es) clk" "results (wait_answer (release_ok C L)) (waitForSlotWithPingTimeout acquire t es)"
proof -
  note w = wait_loop_calls [of C L acquire, OF assms]
  show "cache_calls C L (waitForSlotWithPingTimeout acquire t es) clk"
    unfolding waitForSlotWithPingTimeout_def by (auto intro!: calls_bind assms w split: option.split acquire_result.split)
  show "results (wait_answer (release_ok C L)) (waitForSlotWithPingTimeout acquire t es)"
    unfolding waitForSlotWithPingTimeout_def
    by (auto simp: w(2) wait_answer_def slot_answer_def intro!: results_bind [OF assms(2)] split: option.split acquire_result.split)
qed

lemma release_calls: "wait_answer (release_ok C L) z \<Longrightarrow> cache_calls C L (release_wait z) clk" "slot_answer (release_ok C L) r \<Longrightarrow> cache_calls C L (release_slot r) clk"
  by (auto simp: release_wait_def release_slot_def wait_answer_def slot_answer_def split: wait_outcome.splits acquire_result.splits)

lemma session_calls:
  assumes "\<And>clk. cache_calls C L acquire clk" and "\<And>clk. cache_calls C L refresh clk" and "\<And>clk. cache_calls C L release clk"
  shows "cache_calls C L (lease_session acquire n refresh release) clk"
proof -
  have "cache_calls C L (repeat_refresh n refresh) clk" for clk
    by (induction n arbitrary: clk) (auto intro!: calls_bind assms)
  then show ?thesis unfolding lease_session_def by (intro calls_intros assms)
qed

lemma user_request_calls:
  assumes "asks_within L (UserRequest u m k r kr es)"
  shows "cache_calls C L (acquireUserSlotWithWaitTimeout C u m k r kr es) clk"
    and "results (wait_answer (release_ok C L)) (acquireUserSlotWithWaitTimeout C u m k r kr es)"
proof -
  have m: "0 < m \<longrightarrow> lm_slot L (OfUser u) m" and w: "lm_wait L (waitQueueKey u) (max 1 (CalculateMaxWait m - m))" using assms by simp_all
  note s = service_user_slot_calls [OF m]
  note loop = wait_for_slot_calls [of C L "service_AcquireUserSlot C u m", OF s]
  have inc: "cache_calls C L (service_IncrementWaitCount C u (max 1 (CalculateMaxWait m - m))) clk" for clk
    unfolding service_IncrementWaitCount_def by (intro calls_intros w)
  have after: "cache_calls C L (pbind (with_key C k kr z) (\<lambda>z. pseq (DecrementWaitCount C u) (Ret z))) clk'"
    "results (wait_answer (release_ok C L)) (pbind (with_key C k kr z) (\<lambda>z. pseq (DecrementWaitCount C u) (Ret z)))"
    if "wait_answer (release_ok C L) z" for z clk'
    using with_key_calls [OF that]
    by (auto intro!: calls_intros results_bind [OF with_key_calls(2) [OF that]] simp: pseq_def intro: results_bind_any)
  have taken: "wait_answer (release_ok C L) (WaitGot release)" if "slot_answer (release_ok C L) (SlotTaken release)" for release
    using that by (simp add: wait_answer_def slot_answer_def)
  have other: "wait_answer (release_ok C L) WaitFailed" "wait_answer (release_ok C L) QueueFull" by (simp_all add: wait_answer_def)
  have queue: "cache_calls C L (pbind (service_IncrementWaitCount C u (max 1 (CalculateMaxWait m - m))) (\<lambda>canWait.
      if \<not> canWait then Ret QueueFull
      else pbind (waitForSlotWithPingTimeout (service_AcquireUserSlot C u m) None es) (\<lambda>z.
        pbind (with_key C k kr z) (\<lambda>z. pseq (DecrementWaitCount C u) (Ret z))))) clk'"
    "results (wait_answer (release_ok C L)) (pbind (service_IncrementWaitCount C u (max 1 (CalculateMaxWait m - m))) (\<lambda>canWait.
      if \<not> canWait then Ret QueueFull
      else pbind (waitForSlotWithPingTimeout (service_AcquireUserSlot C u m) None es) (\<lambda>z.
        pbind (with_key C k kr z) (\<lambda>z. pseq (DecrementWaitCount C u) (Ret z)))))" for clk'
    using other by (auto intro!: calls_bind inc calls_bind_results [OF loop] results_bind_any results_bind [OF loop(2)] after)
  show "cache_calls C L (acquireUserSlotWithWaitTimeout C u m k r kr es) clk"
    unfolding acquireUserSlotWithWaitTimeout_def Let_def
    by (rule calls_bind_results [OF s]) (auto intro: with_key_calls taken queue split: acquire_result.split)
  show "results (wait_answer (release_ok C L)) (acquireUserSlotWithWaitTimeout C u m k r kr es)"
    unfolding acquireUserSlotWithWaitTimeout_def Let_def
    by (rule results_bind [OF s(2)]) (auto intro: with_key_calls taken queue other split: acquire_result.split)
qed

lemma if_results: "results Q p \<Longrightarrow> results Q q \<Longrightarrow> results Q (if b then p else q)"
  by simp

lemma account_wait_calls:
  assumes "asks_within L (AccountWait i m w r es)"
  shows "cache_calls C L (wait_for_account C i m w r es) clk" and "results (wait_answer (release_ok C L)) (wait_for_account C i m w r es)"
proof -
  have m: "0 < m \<longrightarrow> lm_slot L (OfAccount i) m" and w: "lm_wait L (accountWaitKey i) w" using assms by simp_all
  note loop = wait_for_slot_calls [of C L "service_AcquireAccountSlot C i m", OF service_slot_calls [OF m]]
  have inc: "cache_calls C L (service_IncrementAccountWaitCount C i w) clk" for clk
    unfolding service_IncrementAccountWaitCount_def by (intro calls_intros w)
  show "cache_calls C L (wait_for_account C i m w r es) clk"
    unfolding wait_for_account_def by (intro calls_intros inc loop)
  have tail: "results (wait_answer (release_ok C L)) (pbind (waitForSlotWithPingTimeout (service_AcquireAccountSlot C i m) (Some r) es)
      (\<lambda>z. pseq (DecrementAccountWaitCount C i) (Ret z)))"
    unfolding pseq_def by (rule results_bind [OF loop(2)], rule results_bind_any) simp
  have full: "results (wait_answer (release_ok C L)) (Ret QueueFull)" by (simp add: wait_answer_def)
  show "results (wait_answer (release_ok C L)) (wait_for_account C i m w r es)"
    unfolding wait_for_account_def by (rule results_bind_any, rule if_results) (rule full, rule tail)
qed

lemma request_calls:
  assumes "asks_within L req"
  shows "cache_calls C L (request_prog C req) clk"
proof (cases req)
  case (UserRequest u m k r kr es)
  show ?thesis unfolding UserRequest request_prog.simps
    by (rule calls_bind_results [OF user_request_calls]) (use assms in \<open>auto simp: UserRequest intro: release_calls\<close>)
next
  case (AccountWait i m w r es)
  show ?thesis unfolding AccountWait request_prog.simps
    by (rule calls_bind_results [OF account_wait_calls]) (use assms in \<open>auto simp: AccountWait intro: release_calls\<close>)
next
  case (AccountRequest i m r)
  show ?thesis unfolding AccountRequest request_prog.simps
    by (rule calls_bind_results [OF service_slot_calls]) (use assms in \<open>auto simp: AccountRequest intro: release_calls\<close>)
qed (use assms in \<open>auto simp: ignoring_def intro!: session_calls calls_seq calls_ret
    slot_calls batch_calls lease_calls wait_calls clean_one_calls clean_all_calls process_start_calls\<close>)

end
