(* ===== verification/Concurrency_Claims.thy ===== *)
theory Concurrency_Claims
  imports Concurrency_Programs
begin

text \<open>
  The properties of the concurrency control of accounts, users and API keys: how many slots and leases
  are held at once, that nothing is refused for long, what the counters of waiting requests can be,
  and that every key is used as one type.
\<close>

section \<open>Keys apart\<close>

lemma owner_inject [simp]: "slot_key x = slot_key y \<longleftrightarrow> x = y" "live_key x = live_key y \<longleftrightarrow> x = y"
  by (cases x; cases y; simp add: key_defs)+

lemma owner_roles [simp]:
  "\<not> index_key (slot_key x)" "\<not> index_key (live_key x)" "\<not> stats_key (slot_key x)" "\<not> stats_key (live_key x)"
  "\<not> wait_key (slot_key x)" "\<not> wait_key (live_key x)"
  "openAIWSIngressLeaseKey i \<noteq> slot_key x" "openAIWSIngressLeaseKey i \<noteq> live_key x"
  "slot_key x \<noteq> openAIWSIngressLeaseKey i" "live_key x \<noteq> openAIWSIngressLeaseKey i"
  "slot_key x \<noteq> legacyWaitSweepMarkerKey" "live_key x \<noteq> legacyWaitSweepMarkerKey"
  "legacyWaitSweepMarkerKey \<noteq> slot_key x" "legacyWaitSweepMarkerKey \<noteq> live_key x"
  by (cases x; simp add: key_defs index_key_def stats_key_def wait_key_def starts_with_def)+

lemma ingress_roles [simp]:
  "\<not> index_key (openAIWSIngressLeaseKey i)" "\<not> stats_key (openAIWSIngressLeaseKey i)" "\<not> wait_key (openAIWSIngressLeaseKey i)"
  "openAIWSIngressLeaseKey i \<noteq> legacyWaitSweepMarkerKey" "legacyWaitSweepMarkerKey \<noteq> openAIWSIngressLeaseKey i"
  "openAIWSIngressLeaseKey i = openAIWSIngressLeaseKey j \<longleftrightarrow> i = j"
  "openAIWSIngressLeaseKey i \<noteq> liveAPIKeySlotKey g" "liveAPIKeySlotKey g \<noteq> openAIWSIngressLeaseKey i"
  "openAIWSIngressLeaseKey i \<noteq> liveAccountSlotKey g" "openAIWSIngressLeaseKey i \<noteq> liveUserSlotKey g"
  by (simp_all add: key_defs index_key_def stats_key_def wait_key_def starts_with_def)

lemma counter_roles:
  "wait_key k \<Longrightarrow> \<not> index_key k" "wait_key k \<Longrightarrow> \<not> stats_key k" "wait_key k \<Longrightarrow> k \<noteq> legacyWaitSweepMarkerKey"
  "\<not> index_key legacyWaitSweepMarkerKey" "\<not> stats_key legacyWaitSweepMarkerKey"
  by (auto simp: key_defs index_key_def stats_key_def wait_key_def starts_with_def)

lemma timeouts [simp]: "0 < cc_slotTTLSeconds (NewConcurrencyCache p q)" "0 < cc_waitQueueTTLSeconds (NewConcurrencyCache p q)"
  by (simp_all add: NewConcurrencyCache_def Let_def)

lemma live_owner [simp]:
  "liveAccountSlotKey i = live_key x \<longleftrightarrow> x = OfAccount i" "live_key x = liveAccountSlotKey i \<longleftrightarrow> x = OfAccount i"
  "liveUserSlotKey i = live_key x \<longleftrightarrow> x = OfUser i" "live_key x = liveUserSlotKey i \<longleftrightarrow> x = OfUser i"
  "accountSlotKey i = slot_key x \<longleftrightarrow> x = OfAccount i" "userSlotKey i = slot_key x \<longleftrightarrow> x = OfUser i"
  by (cases x; auto simp: key_defs)+

lemma live_names [simp]:
  "liveAccountSlotKey i \<noteq> slot_key x" "slot_key x \<noteq> liveAccountSlotKey i" "liveUserSlotKey i \<noteq> slot_key x" "slot_key x \<noteq> liveUserSlotKey i"
  "liveAPIKeySlotKey i \<noteq> slot_key x" "slot_key x \<noteq> liveAPIKeySlotKey i" "liveAPIKeySlotKey i \<noteq> live_key x" "live_key x \<noteq> liveAPIKeySlotKey i"
  "liveAccountSlotKey i \<noteq> liveUserSlotKey j" "liveUserSlotKey j \<noteq> liveAccountSlotKey i"
  "liveAccountSlotKey i \<noteq> liveAPIKeySlotKey j" "liveUserSlotKey i \<noteq> liveAPIKeySlotKey j"
  by (cases x; simp add: key_defs)+

text \<open>Which limits keep the slots of \<open>x\<close> within \<open>n\<close>, and within one more with live sessions that replace slots.\<close>

definition limits_of :: "asked_limits \<Rightarrow> slot_owner \<Rightarrow> nat \<Rightarrow> nat \<Rightarrow> bool" where
  "limits_of L x n a \<longleftrightarrow>
     (\<forall>m. lm_slot L x m \<longrightarrow> m \<le> int n) \<and> (\<forall>m rep. lm_live L x m rep \<longrightarrow> 0 < m \<and> m \<le> int n \<and> (rep \<longrightarrow> 1 \<le> a))"

lemma cache_cmd_slot:
  assumes c: "cache_cmd C L clk c" and l: "limits_of L x n a"
    and t: "0 < cc_slotTTLSeconds C" "0 < cc_waitQueueTTLSeconds C"
  shows "slot_cmd_ok (cc_slotTTLSeconds C) (int n) (int a) x clk c"
  using c t l by (cases c) (auto simp: cache_cmd_def slot_cmd_ok_def limits_of_def)


text \<open>The same for every program of a request.\<close>

lemma calls_mono: "all_calls P p clk \<Longrightarrow> (\<And>clk c. P clk c \<Longrightarrow> Q clk c) \<Longrightarrow> all_calls Q p clk"
  by (induction p arbitrary: clk) auto

abbreviation requests_run ::
  "concurrencyCache \<Rightarrow> (nat \<Rightarrow> request) \<Rightarrow> (nat \<times> cmd_input) list \<Rightarrow> redis \<times> cmd_log" where
  "requests_run C reqs sched \<equiv> snd (slots_run sched (\<lambda>w. request_prog C (reqs w)) (empty_redis, []))"

lemma slot_run_inv:
  assumes "\<forall>w. asks_within L (reqs w)" and "limits_of L x n a" and "clocks_from clk sched"
  shows "slots.inv x (cc_slotTTLSeconds (NewConcurrencyCache p q)) (int n) (int a) (end_clock clk sched)
    (requests_run (NewConcurrencyCache p q) reqs sched)"
proof (rule slots.run_kept [OF slots.empty_inv _ assms(3)])
  fix w
  have "cache_calls (NewConcurrencyCache p q) L (request_prog (NewConcurrencyCache p q) (reqs w)) clk"
    using assms(1) by (intro request_calls) simp
  then show "all_calls (slot_cmd_ok (cc_slotTTLSeconds (NewConcurrencyCache p q)) (int n) (int a) x) (request_prog (NewConcurrencyCache p q) (reqs w)) clk"
    by (rule calls_mono) (rule cache_cmd_slot [OF _ assms(2)], simp_all)
qed

section \<open>Limits\<close>

text \<open>
  The slots of an account or user that are held at the end of a run: granted, not released since, and not
  timed out. The start of a process does not count as a release.
\<close>

definition slots_held :: "concurrencyCache \<Rightarrow> slot_owner \<Rightarrow> int \<Rightarrow> cmd_log \<Rightarrow> string list" where
  "slots_held C x clk evs = in_flight (slot_grants x) (slot_released x) (cc_slotTTLSeconds C) clk evs"

text \<open>Which processes start in a run.\<close>

definition starts_only :: "string \<Rightarrow> redis_cmd \<Rightarrow> bool" where
  "starts_only pre c \<longleftrightarrow> (case c of StartupCleanup k own t \<Rightarrow> own = pre | _ \<Rightarrow> True)"

interpretation starts: clocked_invariant "\<lambda>clk. starts_only pre" "\<lambda>clk s. list_all (\<lambda>(c, r, t). starts_only pre c) (snd s)"
  by unfold_locales auto

lemma run_starts_only:
  assumes "\<forall>w. asks_within L (reqs w)" and "\<forall>own. lm_start L own \<longrightarrow> own = pre" and "clocks_from clk sched"
  shows "list_all (\<lambda>(c, r, t). starts_only pre c) (snd (requests_run C reqs sched))"
proof (rule starts.run_kept [OF _ _ assms(3)])
  fix w
  have "cache_calls C L (request_prog C (reqs w)) clk" using assms(1) by (intro request_calls) simp
  then show "all_calls (\<lambda>clk. starts_only pre) (request_prog C (reqs w)) clk"
    by (rule calls_mono) (use assms(2) in \<open>auto simp: cache_cmd_def starts_only_def split: redis_cmd.splits\<close>)
qed simp

text \<open>The slots of the one process that starts are removed by releases only.\<close>

lemma own_slots_released:
  "list_all (\<lambda>(c, r, t). starts_only pre c) evs \<Longrightarrow> starts_with m pre \<Longrightarrow>
     since grants (slot_released x) m evs = since grants (slot_removed x) m evs"
proof (induction evs)
  case (Cons e evs)
  obtain c r t where e: "e = (c, r, t)" by (cases e)
  have "slot_released x c m = slot_removed x c m"
    using Cons.prems by (cases c) (auto simp: e starts_only_def slot_removed_def slot_released_def)
  with Cons show ?case by (simp add: e)
qed simp

lemma own_slots_held:
  assumes "list_all (\<lambda>(c, r, t). starts_only pre c) evs"
  shows "length (filter (\<lambda>m. starts_with m pre) (slots_held C x clk evs)) \<le>
    length (in_flight (slot_grants x) (slot_removed x) (cc_slotTTLSeconds C) clk evs)"
proof -
  let ?at = "\<lambda>drops m. case since (slot_grants x) drops m evs of None \<Rightarrow> False | Some t \<Rightarrow> clock_seconds clk < clock_seconds t + cc_slotTTLSeconds C"
  have "filter (\<lambda>m. ?at (slot_released x) m \<and> starts_with m pre) ms = filter (\<lambda>m. ?at (slot_removed x) m \<and> starts_with m pre) ms" for ms
    by (rule filter_cong [OF refl]) (auto simp: own_slots_released [OF assms])
  then have "length (filter (\<lambda>m. starts_with m pre) (slots_held C x clk evs)) =
      length (filter (\<lambda>m. starts_with m pre) (in_flight (slot_grants x) (slot_removed x) (cc_slotTTLSeconds C) clk evs))"
    by (simp add: slots_held_def in_flight_def conj_commute)
  then show ?thesis by simp
qed

text \<open>
  C3. Limits are kept. Requests, queries and workers run in any order, with any number of clean-ups at the start
  of one process, whose requests have the prefix \<open>pre\<close>; each crashes or loses an answer anywhere, while the
  clock of Redis does not go back. If all of them ask for at most \<open>n\<close> slots of an account or user then the
  requests with that prefix that have been granted a slot, have not released it and have not held it longer
  than its time-out, together with the leases of live sessions, are at most \<open>n\<close>, and at most one more where
  live sessions replace the slot that they hold. Where no process starts, \<open>pre\<close> may be empty, and all requests
  are counted. The start of another process removes the slots of requests that still run, see
  \<open>process_start_frees_held_slots\<close>.
\<close>

theorem slots_bounded:
  assumes "\<forall>w. asks_within L (reqs w)" and "limits_of L x n a" and "\<forall>own. lm_start L own \<longrightarrow> own = pre"
    and "clocks_from clk sched" and "C = NewConcurrencyCache p q" and "requests_run C reqs sched = (db, evs)"
  shows "length (filter (\<lambda>m. starts_with m pre) (slots_held C x (end_clock clk sched) evs)) +
    glen (zset (end_clock clk sched) db (live_key x)) \<le> n + a"
proof -
  have "slots.inv x (cc_slotTTLSeconds C) (int n) (int a) (end_clock clk sched) (db, evs)"
    using slot_run_inv [OF assms(1,2,4), of p q] assms(5,6) by simp
  note bound = slots.in_flight_bounded(2) [OF this]
  have "list_all (\<lambda>(c, r, t). starts_only pre c) evs" using run_starts_only [OF assms(1,3,4), of C] assms(6) by simp
  from own_slots_held [OF this, of C x "end_clock clk sched"] bound show ?thesis by (simp add: size_on_def nat_int_add)
qed


text \<open>The limit is reached: two requests for two slots of an account hold one each, and a third one is refused.\<close>

definition demo_limits :: asked_limits where
  "demo_limits = \<lparr>lm_slot = (\<lambda>x m. m \<le> 2), lm_live = (\<lambda>x m rep. False), lm_ingress = (\<lambda>i m. False), lm_wait = (\<lambda>k m. False), lm_start = (\<lambda>own. own = ''p'')\<rparr>"

definition demo_input :: "int \<Rightarrow> cmd_input" where
  "demo_input clk = \<lparr>ci_clk = clk, ci_fault = Works, ci_page = ([], True)\<rparr>"

definition demo_requests :: "nat \<Rightarrow> request" where
  "demo_requests w = AccountRequest 7 2 (''p-'' @ show_nat w)"

definition demo_schedule :: "(nat \<times> cmd_input) list" where
  "demo_schedule = [(1, demo_input 1000), (2, demo_input 2000), (3, demo_input 3000)]"

lemmas demo_defs = demo_limits_def demo_input_def demo_requests_def demo_schedule_def

text \<open>
  A request with a slot from before the process of the prefix \<open>p\<close> started does not count; of three requests of
  the process two hold a slot.
\<close>

definition started_requests :: "nat \<Rightarrow> request" where
  "started_requests w = (if w = 0 then AccountRequest 7 2 ''o-0'' else if w = 4 then ProcessStart 1 ''p'' else demo_requests w)"

definition started_schedule :: "(nat \<times> cmd_input) list" where
  "started_schedule = replicate 2 (0, demo_input 500) @ replicate 10 (4, demo_input 600) @ demo_schedule"

lemma demo_run:
  "slots_held (NewConcurrencyCache 0 0) (OfAccount 7) 3000
     (snd (requests_run (NewConcurrencyCache 0 0) started_requests started_schedule)) = [''p-2'', ''p-1'', ''o-0'']"
  by code_simp

theorem slots_bounded_witness:
  "length (filter (\<lambda>m. starts_with m ''p'') (slots_held (NewConcurrencyCache 0 0) (OfAccount 7) 3000
     (snd (requests_run (NewConcurrencyCache 0 0) started_requests started_schedule)))) \<le> 2"
proof -
  have "length (filter (\<lambda>m. starts_with m ''p'') (slots_held (NewConcurrencyCache 0 0) (OfAccount 7) (end_clock 0 started_schedule)
       (snd (requests_run (NewConcurrencyCache 0 0) started_requests started_schedule))))
     + glen (zset (end_clock 0 started_schedule) (fst (requests_run (NewConcurrencyCache 0 0) started_requests started_schedule))
         (live_key (OfAccount 7))) \<le> 2 + 0"
    by (rule slots_bounded [where L = demo_limits and p = 0 and q = 0 and reqs = started_requests])
      (simp_all add: demo_defs limits_of_def started_requests_def started_schedule_def numeral_eq_Suc)
  moreover have "end_clock 0 started_schedule = 3000"
    by (simp add: demo_defs started_schedule_def numeral_eq_Suc)
  ultimately show ?thesis by simp
qed


section \<open>Refusals\<close>

text \<open>The member that a command may add to a set, when it is not an index.\<close>

definition adds_to :: "redis_cmd \<Rightarrow> string \<Rightarrow> string option" where
  "adds_to c k =
     (case c of
        Acquire key live n t rid \<Rightarrow> if k = key then Some rid else None
      | AcquireLive ar al ur ul l an un t lid rep \<Rightarrow> if k \<in> {al, ul, l} then Some lid else None
      | RefreshLive keys t lid \<Rightarrow> if k \<in> set keys then Some lid else None
      | Track key t rid \<Rightarrow> if k = key then Some rid else None
      | AcquireIngress key n t lid \<Rightarrow> if k = key then Some lid else None
      | RefreshIngress key t lid \<Rightarrow> if k = key then Some lid else None
      | _ \<Rightarrow> None)"

text \<open>Every member is an old one, or the one that the command adds, with the time of the server.\<close>

definition adds_only :: "string \<Rightarrow> int \<Rightarrow> string option \<Rightarrow> redis \<Rightarrow> redis \<Rightarrow> bool" where
  "adds_only k clk new db db' \<longleftrightarrow>
     set (zset clk db' k) \<subseteq> set (zset clk db k) \<union> (case new of None \<Rightarrow> {} | Some m \<Rightarrow> {(m, clock_seconds clk)})"

lemma adds_refl: "adds_only k clk new db db"
  by (simp add: adds_only_def)

lemma adds_trans: "adds_only k clk new db db1 \<Longrightarrow> adds_only k clk new db1 db2 \<Longrightarrow> adds_only k clk new db db2"
  unfolding adds_only_def by blast

lemma gput_from: "p \<in> set (gput m x v) \<Longrightarrow> p \<in> set m \<or> p = (x, v)"
  by (induction m) (auto simp: gput_def split: if_splits)

lemma adds_ops:
  assumes "adds_only k clk new db db1"
  shows "adds_only k clk new db (zremrangebyscore clk k' b db1)" "adds_only k clk new db (zrem clk k' ms db1)"
    "adds_only k clk new db (del dels db1)" "adds_only k clk new db (incr_by clk k' d db1)"
    "adds_only k clk new db (db1\<lparr>rk_strings := ss\<rparr>)" "0 < secs \<Longrightarrow> adds_only k clk new db (expire clk k' secs db1)"
    "k' \<noteq> k \<Longrightarrow> adds_only k clk new db (zadd clk k' ps db1)"
    "new = Some m \<Longrightarrow> adds_only k clk new db (zadd clk k' [(m, clock_seconds clk)] db1)"
proof -
  note t = adds_trans [OF assms]
  show "adds_only k clk new db (zremrangebyscore clk k' b db1)" by (rule t) (auto simp: adds_only_def zset_trim)
  show "adds_only k clk new db (zrem clk k' ms db1)" by (rule t) (auto simp: adds_only_def zset_zrem)
  show "adds_only k clk new db (del dels db1)" by (rule t) (auto simp: adds_only_def zset_del)
  show "adds_only k clk new db (incr_by clk k' d db1)" by (rule t) (auto simp: adds_only_def)
  show "adds_only k clk new db (db1\<lparr>rk_strings := ss\<rparr>)" by (rule t) (auto simp: adds_only_def)
  show "adds_only k clk new db (expire clk k' secs db1)" if "0 < secs" by (rule t) (simp add: adds_only_def zset_expire [OF that])
  show "adds_only k clk new db (zadd clk k' ps db1)" if "k' \<noteq> k" by (rule t) (simp add: adds_only_def zset_zadd_other that [symmetric])
  show "adds_only k clk new db (zadd clk k' [(m, clock_seconds clk)] db1)" if "new = Some m"
    by (rule t) (use that in \<open>auto simp: adds_only_def zset_zadd1 dest!: gput_from\<close>)
qed


lemma adds_confirm:
  "adds_only k clk new db db1 \<Longrightarrow> adds_only k clk new db (snd (confirm_lease keys b lid clk db1))"
proof (induction keys arbitrary: db1)
  case (Cons k1 keys)
  from Cons.prems have "adds_only k clk new db (zremrangebyscore clk k1 b db1)" by (rule adds_ops)
  with Cons.IH show ?case by (simp add: Let_def)
qed simp

lemma adds_fold:
  "(\<And>y db1. y \<in> set ys \<Longrightarrow> adds_only k clk new db db1 \<Longrightarrow> adds_only k clk new db (f y db1)) \<Longrightarrow>
     adds_only k clk new db db1 \<Longrightarrow> adds_only k clk new db (fold f ys db1)"
  by (induction ys arbitrary: db1) auto

lemma adds_one:
  "adds_only k clk new db db1 \<Longrightarrow> (k' = k \<Longrightarrow> new = Some m) \<Longrightarrow> adds_only k clk new db (zadd clk k' [(m, clock_seconds clk)] db1)"
  by (cases "k' = k") (auto intro: adds_ops)

lemmas adds_intros = adds_refl adds_ops(1-6) adds_one

lemma cmd_adds:
  assumes "cache_cmd (NewConcurrencyCache p q) L clk c" and "\<not> index_key k"
  shows "adds_only k clk (adds_to c k) db (snd (exec_cmd clk page c db))"
proof (cases c)
  case (RefreshLive ks t lid)
  obtain ok db1 where c1: "confirm_lease ks (clock_seconds clk - t) lid clk db = (ok, db1)" by fastforce
  have 1: "adds_only k clk (adds_to c k) db db1"
    using adds_confirm [OF adds_refl, of k clk "adds_to c k" db ks "clock_seconds clk - t" lid] by (simp add: c1)
  then have "adds_only k clk (adds_to c k) db (fold (\<lambda>key db. expire clk key t (zadd clk key [(lid, clock_seconds clk)] db)) ks db1)"
    by (rule adds_fold [rotated])
      (rule adds_ops, rule adds_one, use assms in \<open>auto simp: RefreshLive adds_to_def cache_cmd_def\<close>)
  with 1 show ?thesis by (cases ok) (simp_all add: RefreshLive refreshLiveLeaseScript_def Let_def c1)
next
  case (TxZRem ps)
  show ?thesis unfolding TxZRem exec_cmd.simps snd_conv by (rule adds_fold [OF _ adds_refl]) (rule adds_ops)
next
  case (AcquireLive ar al ur ul l an un t lid rep)
  have trimmed: "adds_only k clk (adds_to c k) db (live_trimmed al ul l t clk db)" unfolding live_trimmed_def by (intro adds_ops adds_refl)
  have "t = 60" using assms(1) by (auto simp: AcquireLive cache_cmd_def)
  then have "adds_only k clk (adds_to c k) db
      (expire clk l t (expire clk ul t (expire clk al t (live_added al ul l t lid clk (live_trimmed al ul l t clk db)))))"
    unfolding live_added_def by (intro adds_ops adds_one trimmed) (simp_all add: AcquireLive adds_to_def)
  then show ?thesis unfolding AcquireLive exec_cmd.simps snd_apfst
    using trimmed by (cases rule: live_cases [OF refl refl, of ar al ur ul l an un t lid rep clk db]) (simp_all add: AcquireLive)
next
  case (ZAdd k' ps)
  with assms show ?thesis by (auto simp: cache_cmd_def intro: adds_ops adds_refl)
qed (use assms in \<open>auto simp: cache_cmd_def adds_to_def script_defs Let_def split: option.splits intro!: adds_intros\<close>)


text \<open>Every member of a set that is not an index is in the log, with the time at which it was added last.\<close>

definition recorded :: "int \<Rightarrow> redis \<times> cmd_log \<Rightarrow> bool" where
  "recorded clk s \<longleftrightarrow> ok_redis (fst s) \<and> (\<forall>k m v. \<not> index_key k \<longrightarrow> (m, v) \<in> set (zset clk (fst s) k) \<longrightarrow>
     (\<exists>(c, r, t)\<in>set (snd s). adds_to c k = Some m \<and> v = clock_seconds t))"

interpretation recorded_run: clocked_invariant "cache_cmd (NewConcurrencyCache p q) L" recorded for p q L
proof unfold_locales
  show "recorded clk s \<Longrightarrow> clk \<le> clk' \<Longrightarrow> recorded clk' s" for clk clk' s
    unfolding recorded_def using zset_later [of clk clk' "fst s"] by (metis empty_iff list.set(1))
  fix inp :: cmd_input and db db1 and evs :: cmd_log and c and r seen :: reply
  assume i: "recorded (ci_clk inp) (db, evs)" and c: "cache_cmd (NewConcurrencyCache p q) L (ci_clk inp) c"
    and e: "exec_cmd (ci_clk inp) (ci_page inp) c db = (r, db1)"
  let ?new = "(c, seen, ci_clk inp)" and ?db = "took_effect (ci_fault inp) db db1"
  have "ok_redis ?db" using i exec_ok [of db "ci_clk inp" "ci_page inp" c] by (auto simp: recorded_def took_effect_def e)
  moreover have "\<exists>(c, r, t)\<in>set (?new # evs). adds_to c k = Some m \<and> v = clock_seconds t"
    if k: "\<not> index_key k" and m: "(m, v) \<in> set (zset (ci_clk inp) ?db k)" for k m v
  proof (cases "(m, v) \<in> set (zset (ci_clk inp) db k)")
    case True
    with i k show ?thesis by (fastforce simp: recorded_def)
  next
    case False
    with m have "(m, v) \<in> set (zset (ci_clk inp) db1 k)" by (simp add: took_effect_def split: if_splits)
    with False cmd_adds [OF c k, of db "ci_page inp"] have "adds_to c k = Some m" "v = clock_seconds (ci_clk inp)"
      by (auto simp: adds_only_def e split: option.splits)
    then show ?thesis by auto
  qed
  ultimately show "recorded (ci_clk inp) (?db, ?new # evs)" by (simp add: recorded_def)
qed

definition any_limits :: asked_limits where
  "any_limits = \<lparr>lm_slot = (\<lambda>x m. True), lm_live = (\<lambda>x m rep. True), lm_ingress = (\<lambda>i m. True), lm_wait = (\<lambda>k m. True), lm_start = (\<lambda>own. True)\<rparr>"

lemma asks_any: "asks_within any_limits req"
  by (cases req) (simp_all add: any_limits_def)

lemma run_recorded:
  assumes "clocks_from clk sched"
  shows "recorded (end_clock clk sched) (requests_run (NewConcurrencyCache p q) reqs sched)"
proof (rule recorded_run.run_kept [OF _ request_calls [OF asks_any] assms])
  show "recorded clk (empty_redis, [])" by (simp add: recorded_def empty_redis_def ok_redis_def gmap_ok_def zset_def)
qed


text \<open>Who was added to a set within a time, in a log.\<close>

definition recent_members :: "string \<Rightarrow> int \<Rightarrow> int \<Rightarrow> cmd_log \<Rightarrow> string list" where
  "recent_members k ttl clk evs =
     remdups (List.map_filter (\<lambda>(c, r, t). if clock_seconds clk < clock_seconds t + ttl then adds_to c k else None) evs)"

lemma in_map_filter: "y \<in> set (List.map_filter f xs) \<longleftrightarrow> (\<exists>x\<in>set xs. f x = Some y)"
  by (induction xs) (auto split: option.split)

lemma recorded_size:
  assumes "recorded clk (db, evs)" and "\<not> index_key k"
  shows "glen (filter (\<lambda>p. clock_seconds clk - ttl < snd p) (zset clk db k)) \<le> length (recent_members k ttl clk evs)"
proof -
  let ?m = "filter (\<lambda>p. clock_seconds clk - ttl < snd p) (zset clk db k)"
  have "gmap_ok ?m" using assms(1) by (intro gmap_ok_filter ok_zset) (simp add: recorded_def)
  then have "glen ?m = card (gkeys ?m)" by (rule glen_keys)
  also have "gkeys ?m \<subseteq> set (recent_members k ttl clk evs)"
  proof
    fix m assume "m \<in> gkeys ?m"
    then obtain v where v: "(m, v) \<in> set (zset clk db k)" "clock_seconds clk - ttl < v" by (auto simp: gkeys_def)
    with assms obtain c r t where "(c, r, t) \<in> set evs" "adds_to c k = Some m" "v = clock_seconds t"
      unfolding recorded_def by fastforce
    with v(2) show "m \<in> set (recent_members k ttl clk evs)"
      by (auto simp: recent_members_def in_map_filter intro!: bexI [of _ "(c, r, t)"])
  qed
  then have "card (gkeys ?m) \<le> card (set (recent_members k ttl clk evs))" by (intro card_mono) simp_all
  also have "\<dots> = length (recent_members k ttl clk evs)" by (rule distinct_card) (simp add: recent_members_def)
  finally show ?thesis .
qed

text \<open>
  C14. No slot is lost. Whatever requests, workers and processes have done, crashed or lost an answer
  of, an acquisition for \<open>m\<close> slots is refused only if \<open>m\<close> different requests asked for a slot within
  the time-out, or asked for the lease of a live session or renewed it within 60 seconds. So every slot
  that nobody asks for again is free after its time-out.
\<close>

theorem slot_refused_when_full:
  assumes "clocks_from clk sched" and "C = NewConcurrencyCache p q" and "requests_run C reqs sched = (db, evs)"
    and "end_clock clk sched \<le> now"
    and "\<not> fst (fst (acquireScript (slot_key x) (live_key x) m (cc_slotTTLSeconds C) rid now db))"
  shows "m \<le> int (length (recent_members (slot_key x) (cc_slotTTLSeconds C) now evs) + length (recent_members (live_key x) 60 now evs))"
proof -
  have r: "recorded now (db, evs)" using run_recorded [OF assms(1), of p q reqs] recorded_run.later assms(2-4) by fastforce
  let ?db = "zremrangebyscore now (live_key x) (clock_seconds now - 60) (zremrangebyscore now (slot_key x) (clock_seconds now - cc_slotTTLSeconds C) db)"
  have "m \<le> zcard now (slot_key x) ?db + zcard now (live_key x) ?db"
    using assms(5) by (simp add: acquireScript_def Let_def split: if_splits)
  also have "\<dots> \<le> int (length (recent_members (slot_key x) (cc_slotTTLSeconds C) now evs)) + int (length (recent_members (live_key x) 60 now evs))"
    unfolding zcard_def using recorded_size [OF r, of "slot_key x" "cc_slotTTLSeconds C"] recorded_size [OF r, of "live_key x" 60]
    by (intro add_mono) (simp_all add: zset_trim)
  finally show ?thesis by simp
qed

theorem slot_refused_when_full_witness:
  "2 \<le> int (length (recent_members (slot_key (OfAccount 7)) 900 4000 (snd (requests_run (NewConcurrencyCache 0 0) demo_requests demo_schedule))) +
     length (recent_members (live_key (OfAccount 7)) 60 4000 (snd (requests_run (NewConcurrencyCache 0 0) demo_requests demo_schedule))))"
proof -
  have "\<not> fst (fst (acquireScript (slot_key (OfAccount 7)) (live_key (OfAccount 7)) 2 (cc_slotTTLSeconds (NewConcurrencyCache 0 0)) ''p-4'' 4000
      (fst (requests_run (NewConcurrencyCache 0 0) demo_requests demo_schedule))))"
    by code_simp
  moreover have "cc_slotTTLSeconds (NewConcurrencyCache 0 0) = 900" by (simp add: NewConcurrencyCache_def)
  ultimately show ?thesis
    using slot_refused_when_full [of 0 demo_schedule "NewConcurrencyCache 0 0" 0 0 demo_requests _ _ 4000 "OfAccount 7" 2 "''p-4''"]
    by (simp add: demo_input_def demo_schedule_def prod_eq_iff)
qed


section \<open>Client WebSockets\<close>

text \<open>What a command may do to the leases of the WebSockets of the API key \<open>i\<close>.\<close>

definition ingress_cmd_ok :: "nat \<Rightarrow> int \<Rightarrow> int \<Rightarrow> redis_cmd \<Rightarrow> bool" where
  "ingress_cmd_ok n i clk c \<longleftrightarrow>
     (let key = openAIWSIngressLeaseKey i in
      case c of
        ZRemRangeByScore k b \<Rightarrow> k \<noteq> key
      | ZAdd k ps \<Rightarrow> k \<noteq> key
      | DelCmd ks \<Rightarrow> key \<notin> set ks
      | SetCmd k v \<Rightarrow> k \<noteq> key
      | Acquire k l m t r \<Rightarrow> 0 < t \<and> key \<notin> {k, l}
      | GetCount k l t \<Rightarrow> key \<notin> {k, l}
      | AcquireLive ar al ur ul l an un t lid rep \<Rightarrow> t = 60 \<and> key \<notin> {al, ul, l}
      | RefreshLive ks t lid \<Rightarrow> t = 60 \<and> distinct ks \<and> key \<notin> set ks
      | Track k t r \<Rightarrow> 0 < t \<and> k \<noteq> key
      | AcquireIngress k m t lid \<Rightarrow> t = 60 \<and> (k = key \<longrightarrow> m \<le> int n)
      | RefreshIngress k t lid \<Rightarrow> t = 60
      | IncrementWait k m t \<Rightarrow> 0 < t \<and> k \<noteq> key
      | IncrementAccountWait k m t \<Rightarrow> 0 < t \<and> k \<noteq> key
      | CleanupExpired k t \<Rightarrow> 0 < t \<and> k \<noteq> key
      | StartupCleanup k pre t \<Rightarrow> 0 < t \<and> k \<noteq> key
      | _ \<Rightarrow> True)"

text \<open>A lease is granted by an answered acquisition and renewed by an answered refresh.\<close>

definition ingress_grants :: "int \<Rightarrow> redis_cmd \<Rightarrow> reply \<Rightarrow> string option" where
  "ingress_grants i c r =
     (case c of
        AcquireIngress k m t lid \<Rightarrow> if k = openAIWSIngressLeaseKey i \<and> r = RBool True then Some lid else None
      | RefreshIngress k t lid \<Rightarrow> if k = openAIWSIngressLeaseKey i \<and> r = RBool True then Some lid else None
      | _ \<Rightarrow> None)"

definition ingress_drops :: "int \<Rightarrow> redis_cmd \<Rightarrow> string \<Rightarrow> bool" where
  "ingress_drops i c lid = (case c of ZRem k ms \<Rightarrow> k = openAIWSIngressLeaseKey i \<and> lid \<in> set ms | TxZRem ps \<Rightarrow> (openAIWSIngressLeaseKey i, lid) \<in> set ps | _ \<Rightarrow> False)"

lemma cache_cmd_ingress:
  assumes "cache_cmd C L clk c" and "\<forall>m. lm_ingress L i m \<longrightarrow> m \<le> int n"
    and "0 < cc_slotTTLSeconds C" "0 < cc_waitQueueTTLSeconds C"
  shows "ingress_cmd_ok n i clk c"
  using assms by (cases c) (auto simp: cache_cmd_def ingress_cmd_ok_def Let_def)

lemma ingress_keeps:
  assumes "ingress_cmd_ok n i clk c"
  shows "keeps (openAIWSIngressLeaseKey i) 60 {m. ingress_drops i c m} clk db (snd (exec_cmd clk page c db))"
proof (cases c)
  case (RefreshLive ks t lid)
  with assms show ?thesis by (simp add: ingress_cmd_ok_def Let_def keeps_refresh)
next
  case (TxZRem ps)
  show ?thesis unfolding TxZRem exec_cmd.simps snd_conv by (rule keeps_tx) (simp add: ingress_drops_def)
next
  case (AcquireLive ar al ur ul l an un t lid rep)
  with assms show ?thesis by (simp add: ingress_cmd_ok_def Let_def keeps_live)
qed (use assms in \<open>auto simp: ingress_cmd_ok_def ingress_drops_def script_defs Let_def keeps_cleanup split: option.splits if_splits
    intro!: keeps_intros\<close>)


lemma ingress_granted:
  assumes "ingress_cmd_ok n i clk c" and "ingress_grants i c (fst (exec_cmd clk page c db)) = Some m"
  shows "(m, clock_seconds clk) \<in> set (zset clk (snd (exec_cmd clk page c db)) (openAIWSIngressLeaseKey i)) \<and>
     snd (rk_zsets (snd (exec_cmd clk page c db)) (openAIWSIngressLeaseKey i)) = Some (clk + 60 * 1000)"
proof -
  let ?k = "openAIWSIngressLeaseKey i"
  define db2 where "db2 = zadd clk ?k [(m, clock_seconds clk)] (zremrangebyscore clk ?k (clock_seconds clk - 60) db)"
  have "snd (exec_cmd clk page c db) = expire clk ?k 60 db2"
    using assms by (cases c) (auto simp: ingress_grants_def ingress_cmd_ok_def acquireOpenAIWSIngressLeaseScript_def
        refreshOpenAIWSIngressLeaseScript_def Let_def db2_def split: if_splits)
  moreover have "(m, clock_seconds clk) \<in> set (zset clk db2 ?k)" by (simp add: db2_def zset_zadd1 gput_at)
  moreover from this have "zset clk db2 ?k \<noteq> []" by auto
  ultimately show ?thesis using deadline_expired_key [of clk db2 ?k 60] by (auto simp: zset_expire)
qed

lemma ingress_size:
  assumes "ingress_cmd_ok n i clk c" and "ok_redis db"
  shows "size_on [openAIWSIngressLeaseKey i] clk (snd (exec_cmd clk page c db)) \<le> max (size_on [openAIWSIngressLeaseKey i] clk db) n"
proof -
  let ?k = "openAIWSIngressLeaseKey i"
  let ?add = "\<lambda>lid. expire clk ?k 60 (zadd clk ?k [(lid, clock_seconds clk)] (zremrangebyscore clk ?k (clock_seconds clk - 60) db))"
  let ?old = "filter (\<lambda>p. clock_seconds clk - 60 < snd p) (zset clk db ?k)"
  have add: "size_on [?k] clk (?add lid) = (if gget ?old lid = None then Suc (glen ?old) else glen ?old)" for lid
    using glen_gput [OF gmap_ok_filter [OF ok_zset [OF assms(2)]]] by (simp add: size_on_def zset_expire zset_zadd1 zset_trim)
  have old: "glen ?old \<le> size_on [?k] clk db" by (simp add: size_on_def glen_filter)
  have fewer: "size_on [?k] clk db' \<le> max (size_on [?k] clk db) n" if "shrinks [?k] clk db db'" for db'
    using shrinks_size [OF that] by simp
  show ?thesis
  proof (cases c)
    case (AcquireIngress k m t lid)
    show ?thesis
    proof (cases "k = ?k")
      case True
      with assms(1) have "t = 60" "m \<le> int n" by (simp_all add: AcquireIngress ingress_cmd_ok_def)
      with True add [of lid] old show ?thesis
        by (auto simp: AcquireIngress acquireOpenAIWSIngressLeaseScript_def Let_def zscore_def zcard_def zset_trim
            intro!: fewer shrinks_intros)
    next
      case False
      with assms(1) show ?thesis
        by (auto simp: AcquireIngress ingress_cmd_ok_def acquireOpenAIWSIngressLeaseScript_def Let_def intro!: fewer shrinks_intros)
    qed
  next
    case (RefreshIngress k t lid)
    show ?thesis
    proof (cases "k = ?k")
      case True
      with assms(1) have "t = 60" by (simp add: RefreshIngress ingress_cmd_ok_def)
      with True add [of lid] old show ?thesis
        by (auto simp: RefreshIngress refreshOpenAIWSIngressLeaseScript_def Let_def zscore_def zset_trim intro!: fewer shrinks_intros)
    next
      case False
      with assms(1) show ?thesis
        by (auto simp: RefreshIngress ingress_cmd_ok_def refreshOpenAIWSIngressLeaseScript_def Let_def intro!: fewer shrinks_intros)
    qed
  next
    case (RefreshLive ks t lid)
    with assms show ?thesis by (simp add: ingress_cmd_ok_def Let_def fewer refresh_shrinks)
  qed (use assms(1) in \<open>auto simp: ingress_cmd_ok_def script_defs Let_def split: option.splits intro!: fewer shrinks_intros shrinks_fold [OF _ shrinks_refl]\<close>)
qed


interpretation sockets: leased_set "openAIWSIngressLeaseKey i" "[openAIWSIngressLeaseKey i]" 60 n "ingress_cmd_ok n i" "ingress_grants i" "ingress_drops i"
  for i n
proof unfold_locales
  show "ingress_grants i c RErr = None" for c by (simp add: ingress_grants_def split: redis_cmd.split)
qed (simp_all add: ingress_keeps ingress_granted ingress_size)

definition sockets_held :: "int \<Rightarrow> int \<Rightarrow> cmd_log \<Rightarrow> string list" where
  "sockets_held i clk evs = in_flight (ingress_grants i) (ingress_drops i) 60 clk evs"

text \<open>
  C27. The WebSockets that clients of an API key hold open at once, each granted or renewed within the
  last 60 seconds and not closed, are at most \<open>n\<close> if all sessions ask for at most \<open>n\<close>, in every
  interleaving with every other request and with any faults; the start of a process frees none of them.
\<close>

theorem sockets_bounded:
  assumes "\<forall>w. asks_within L (reqs w)" and "\<forall>m. lm_ingress L i m \<longrightarrow> m \<le> int n" and "clocks_from clk sched"
  shows "length (sockets_held i (end_clock clk sched) (snd (requests_run (NewConcurrencyCache p q) reqs sched))) \<le> n"
proof -
  have "sockets.inv i n (end_clock clk sched) (requests_run (NewConcurrencyCache p q) reqs sched)"
  proof (rule sockets.run_kept [OF sockets.empty_inv _ assms(3)])
    fix w
    have "cache_calls (NewConcurrencyCache p q) L (request_prog (NewConcurrencyCache p q) (reqs w)) clk"
      using assms(1) by (intro request_calls) simp
    then show "all_calls (ingress_cmd_ok n i) (request_prog (NewConcurrencyCache p q) (reqs w)) clk"
      by (rule calls_mono) (rule cache_cmd_ingress [OF _ assms(2)], assumption, rule timeouts, rule timeouts)
  qed
  from sockets.in_flight_bounded(2) [of i n _ "fst (requests_run (NewConcurrencyCache p q) reqs sched)"] this show ?thesis
    by (simp add: sockets_held_def size_on_def)
qed

text \<open>A second WebSocket is refused while the first one is renewed, and granted after it is closed.\<close>

definition socket_limits :: asked_limits where
  "socket_limits = demo_limits\<lparr>lm_ingress := (\<lambda>i m. m \<le> 1)\<rparr>"

definition socket_requests :: "nat \<Rightarrow> request" where
  "socket_requests w = IngressSession 3 1 (''ws-'' @ show_nat w) 1"

definition socket_schedule :: "(nat \<times> cmd_input) list" where
  "socket_schedule = [(1, demo_input 1000), (1, demo_input 50000), (2, demo_input 70000), (1, demo_input 80000), (3, demo_input 90000)]"

lemma socket_run: "sockets_held 3 90000 (snd (requests_run (NewConcurrencyCache 0 0) socket_requests socket_schedule)) = [''ws-3'']"
  by code_simp

theorem sockets_bounded_witness:
  "sockets_held 3 90000 (snd (requests_run (NewConcurrencyCache 0 0) socket_requests socket_schedule)) = [''ws-3''] \<and>
   length (sockets_held 3 90000 (snd (requests_run (NewConcurrencyCache 0 0) socket_requests socket_schedule))) \<le> 1"
proof -
  have "length (sockets_held 3 (end_clock 0 socket_schedule) (snd (requests_run (NewConcurrencyCache 0 0) socket_requests socket_schedule))) \<le> 1"
    by (rule sockets_bounded [where L = socket_limits])
      (simp_all add: socket_limits_def socket_requests_def socket_schedule_def demo_defs)
  moreover have "end_clock 0 socket_schedule = 90000" by (simp add: socket_schedule_def demo_defs)
  ultimately show ?thesis unfolding socket_run by (intro conjI refl) (simp only: socket_run)
qed

section \<open>Keys and their types\<close>

text \<open>The keys that a command uses as sorted sets and those that it uses, or deletes, as counters.\<close>

definition set_keys :: "redis_cmd \<Rightarrow> string list" where
  "set_keys c =
     (case c of
        ZRemRangeByScore k b \<Rightarrow> [k] | ZCard k \<Rightarrow> [k] | ZAdd k ps \<Rightarrow> [k] | ZRem k ms \<Rightarrow> [k] | ZRange k \<Rightarrow> [k]
      | ZRangeByScore k b n \<Rightarrow> [k] | TxZRem ps \<Rightarrow> map fst ps | Acquire k l n t r \<Rightarrow> [k, l] | GetCount k l t \<Rightarrow> [k, l]
      | AcquireLive ar al ur ul l an un t lid rep \<Rightarrow> [ar, al, ur, ul, l] | RefreshLive ks t lid \<Rightarrow> ks
      | Track k t r \<Rightarrow> [k] | AcquireIngress k n t lid \<Rightarrow> [k] | RefreshIngress k t lid \<Rightarrow> [k]
      | CleanupExpired k t \<Rightarrow> [k] | StartupCleanup k pre t \<Rightarrow> [k] | _ \<Rightarrow> [])"

definition counter_keys :: "redis_cmd \<Rightarrow> string list" where
  "counter_keys c =
     (case c of
        GetCmd k \<Rightarrow> [k] | DelCmd ks \<Rightarrow> ks | SetCmd k v \<Rightarrow> [k] | IncrementWait k n t \<Rightarrow> [k] | IncrementAccountWait k n t \<Rightarrow> [k]
      | DecrementWait k \<Rightarrow> [k] | _ \<Rightarrow> [])"

definition counter_key :: "string \<Rightarrow> bool" where
  "counter_key k \<longleftrightarrow> wait_key k \<or> k = legacyWaitSweepMarkerKey"

lemma not_counters [simp]:
  "\<not> counter_key (slot_key x)" "\<not> counter_key (live_key x)" "\<not> counter_key (accountSlotKey i)" "\<not> counter_key (userSlotKey i)"
  "\<not> counter_key (liveAccountSlotKey i)" "\<not> counter_key (liveUserSlotKey i)" "\<not> counter_key (liveAPIKeySlotKey i)"
  "\<not> counter_key (openAIWSIngressLeaseKey i)"
  by (simp_all add: counter_key_def) (simp_all add: key_defs wait_key_def starts_with_def)

lemma other_sets: "stats_key k \<or> index_key k \<Longrightarrow> \<not> counter_key k"
  using counter_roles(1-3) [of k] counter_roles(4,5) by (auto simp: counter_key_def)

lemma set_keys_typed: "cache_cmd C L clk c \<Longrightarrow> k \<in> set (set_keys c) \<Longrightarrow> \<not> counter_key k"
  using other_sets [of k] by (cases c) (auto simp: cache_cmd_def set_keys_def)

lemma counter_keys_typed: "cache_cmd C L clk c \<Longrightarrow> k \<in> set (counter_keys c) \<Longrightarrow> counter_key k"
  by (cases c) (auto simp: cache_cmd_def counter_keys_def counter_key_def)


text \<open>Every command that has been sent is one of the cache.\<close>

definition logged :: "concurrencyCache \<Rightarrow> asked_limits \<Rightarrow> int \<Rightarrow> redis \<times> cmd_log \<Rightarrow> bool" where
  "logged C L clk s \<longleftrightarrow> (\<forall>(c, r, t)\<in>set (snd s). cache_cmd C L t c)"

interpretation logged_run: clocked_invariant "cache_cmd C L" "logged C L" for C L
  by unfold_locales (auto simp: logged_def)

definition typed_log :: "cmd_log \<Rightarrow> bool" where
  "typed_log evs \<longleftrightarrow> list_all (\<lambda>(c, r, t). list_all (\<lambda>(c', r', t'). set (set_keys c) \<inter> set (counter_keys c') = {}) evs) evs"

text \<open>
  C40. The keys of the cache have types. In every run, no key that one command uses as a sorted set is
  used or deleted as a counter by another, whatever the numbers of accounts, users and API keys and
  whatever keys a scan answers: no command fails for the type of its key, and the sweep of old counters
  deletes no slot and no lease.
\<close>

theorem cache_keys_typed:
  assumes "clocks_from clk sched"
  shows "typed_log (snd (requests_run C reqs sched))"
proof -
  have l: "logged C any_limits (end_clock clk sched) (requests_run C reqs sched)"
    by (rule logged_run.run_kept [OF _ request_calls [OF asks_any] assms]) (simp add: logged_def)
  have "set (set_keys c) \<inter> set (counter_keys c') = {}"
    if "(c, r, t) \<in> set (snd (requests_run C reqs sched))" "(c', r', t') \<in> set (snd (requests_run C reqs sched))" for c r t c' r' t'
  proof -
    have "cache_cmd C any_limits t c" "cache_cmd C any_limits t' c'" using l that by (auto simp: logged_def)
    then show ?thesis using set_keys_typed counter_keys_typed by blast
  qed
  then show ?thesis by (fastforce simp: typed_log_def list_all_iff)
qed

text \<open>A user with one slot: the second request counts itself as waiting, tries once and gives up.\<close>

definition queue_requests :: "nat \<Rightarrow> request" where
  "queue_requests w = UserRequest 5 1 0 (''q-'' @ show_nat w) [] [TimerFires (''r-'' @ show_nat w), ContextDone True]"

definition queue_schedule :: "(nat \<times> cmd_input) list" where
  "queue_schedule = map (\<lambda>w. (w, demo_input 1000)) [1, 2, 2, 2]"

lemma queue_run:
  "get_count 1000 (waitQueueKey 5) (fst (requests_run (NewConcurrencyCache 0 0) queue_requests queue_schedule)) = Some 1"
  by code_simp

theorem cache_keys_typed_witness: "typed_log (snd (requests_run (NewConcurrencyCache 0 0) queue_requests queue_schedule))"
  by (rule cache_keys_typed [of 0]) (simp add: queue_schedule_def demo_defs)

section \<open>Counters of waiting requests\<close>

definition counts_within :: "nat \<Rightarrow> string \<Rightarrow> redis \<Rightarrow> bool" where
  "counts_within n k db \<longleftrightarrow> (\<forall>v dl. rk_strings db k = Some (v, dl) \<longrightarrow> 0 \<le> v \<and> v \<le> int n)"

lemma counts_read: "counts_within n k db \<Longrightarrow> get_count clk k db = Some v \<Longrightarrow> 0 \<le> v \<and> v \<le> int n"
  by (auto simp: get_count_def counts_within_def split: option.splits if_splits)

lemma counts_ops:
  assumes "counts_within n k db"
  shows "counts_within n k (zremrangebyscore clk k' b db)" "counts_within n k (zrem clk k' ms db)" "counts_within n k (zadd clk k' ps db)"
    "counts_within n k (del dels db)" "counts_within n k (expire clk k' secs db)"
    "k' \<noteq> k \<Longrightarrow> counts_within n k (incr_by clk k' d db)"
    "k' \<noteq> k \<Longrightarrow> counts_within n k (db\<lparr>rk_strings := ss(k' := y)\<rparr>) = counts_within n k (db\<lparr>rk_strings := ss\<rparr>)"
proof -
  show "counts_within n k (expire clk k' secs db)"
    using assms counts_read [OF assms, of clk] by (auto simp: counts_within_def expire_def split: option.splits)
qed (use assms in \<open>auto simp: counts_within_def zremrangebyscore_def zrem_def zadd_def set_zset_def del_def incr_by_def\<close>)

lemma counts_incr:
  assumes "counts_within n k db" and "\<And>v. get_count clk k db = Some v \<Longrightarrow> v < int n" and "0 < n"
  shows "counts_within n k (incr_by clk k 1 db)"
  using assms counts_read [OF assms(1), of clk] by (auto simp: counts_within_def incr_by_def split: option.splits)


lemma counts_decr:
  assumes "counts_within n k db" and "get_count clk k' db = Some v" and "0 < v"
  shows "counts_within n k (incr_by clk k' (-1) db)"
proof (cases "k' = k")
  case True
  with counts_read [OF assms(1), of clk v] assms show ?thesis by (auto simp: counts_within_def incr_by_def)
qed (simp add: counts_ops assms(1))

lemma counts_fold: "(\<And>y db. counts_within n k db \<Longrightarrow> counts_within n k (f y db)) \<Longrightarrow> counts_within n k db \<Longrightarrow> counts_within n k (fold f ys db)"
  by (induction ys arbitrary: db) auto

lemma counts_confirm: "counts_within n k db \<Longrightarrow> counts_within n k (snd (confirm_lease keys b lid clk db))"
  by (induction keys arbitrary: db) (auto simp: Let_def counts_ops)

lemma counts_wait:
  assumes "counts_within n k db" and "k' = k \<longrightarrow> m \<le> int n"
    and "\<not> m \<le> (case get_count clk k' db of None \<Rightarrow> 0 | Some v \<Rightarrow> v)"
  shows "counts_within n k (incr_by clk k' 1 db)"
proof (cases "k' = k")
  case True
  have "0 < n" using assms(2,3) True counts_read [OF assms(1), of clk] by (auto split: option.splits)
  with True show ?thesis using assms by (auto intro: counts_incr split: option.splits)
qed (simp add: counts_ops assms(1))

lemma cmd_counts:
  assumes "cache_cmd C L clk c" and "wait_key k" and "\<forall>m. lm_wait L k m \<longrightarrow> m \<le> int n" and "counts_within n k db"
  shows "counts_within n k (snd (exec_cmd clk page c db))"
proof (cases c)
  case (RefreshLive ks t lid)
  have "counts_within n k (snd (confirm_lease ks (clock_seconds clk - t) lid clk db))" using assms(4) by (rule counts_confirm)
  then show ?thesis
    by (auto simp: RefreshLive refreshLiveLeaseScript_def Let_def intro!: counts_fold counts_ops split: prod.splits bool.splits)
next
  case (SetCmd k' v)
  with assms(1) counter_roles(3) [OF assms(2)] have "k' \<noteq> k" by (auto simp: cache_cmd_def)
  with assms(4) show ?thesis by (simp add: SetCmd counts_within_def)
next
  case (IncrementWait k' m t)
  then have "k' = k \<longrightarrow> m \<le> int n" using assms(1,3) by (auto simp: cache_cmd_def)
  then show ?thesis
    using counts_wait [OF assms(4), of k' m clk] assms(4) by (simp add: IncrementWait incrementWaitScript_def Let_def counts_ops(5))
next
  case (IncrementAccountWait k' m t)
  then have "k' = k \<longrightarrow> m \<le> int n" using assms(1,3) by (auto simp: cache_cmd_def)
  then show ?thesis
    using counts_wait [OF assms(4), of k' m clk] assms(4) by (simp add: IncrementAccountWait incrementAccountWaitScript_def Let_def counts_ops(5))
next
  case (DecrementWait k')
  with assms(4) show ?thesis by (auto simp: decrementWaitScript_def intro: counts_decr split: option.splits)
qed (use assms(4) in \<open>auto simp: script_defs Let_def intro!: counts_ops(1-5) counts_fold split: option.splits\<close>)

definition counting :: "nat \<Rightarrow> string \<Rightarrow> int \<Rightarrow> redis \<times> cmd_log \<Rightarrow> bool" where
  "counting n k clk s \<longleftrightarrow> counts_within n k (fst s)"

definition waits_within :: "asked_limits \<Rightarrow> string \<Rightarrow> nat \<Rightarrow> bool" where
  "waits_within L k n \<longleftrightarrow> wait_key k \<and> (\<forall>m. lm_wait L k m \<longrightarrow> m \<le> int n)"

interpretation counting_run: clocked_invariant "\<lambda>clk c. cache_cmd C L clk c \<and> waits_within L k n" "counting n k" for C L k n
proof unfold_locales
  fix inp :: cmd_input and db db1 and evs :: cmd_log and c and r seen :: reply
  assume "counting n k (ci_clk inp) (db, evs)" "cache_cmd C L (ci_clk inp) c \<and> waits_within L k n"
    "exec_cmd (ci_clk inp) (ci_page inp) c db = (r, db1)"
  then show "counting n k (ci_clk inp) (took_effect (ci_fault inp) db db1, (c, seen, ci_clk inp) # evs)"
    using cmd_counts [of C L "ci_clk inp" c k n db "ci_page inp"] by (simp add: counting_def waits_within_def took_effect_def)
qed (simp add: counting_def)

text \<open>
  The counter of a waiting queue stays between 0 and the limit of those who wait, in every run,
  with faults, expiry, sweeps and starting processes anywhere.
\<close>

theorem wait_counts_bounded:
  assumes "\<forall>w. asks_within L (reqs w)" and "waits_within L k n" and "clocks_from clk sched"
  shows "(case get_count now k (fst (requests_run C reqs sched)) of None \<Rightarrow> True | Some v \<Rightarrow> 0 \<le> v \<and> v \<le> int n)"
proof -
  have "all_calls (\<lambda>clk c. cache_cmd C L clk c \<and> waits_within L k n) (request_prog C (reqs w)) clk" for w
    by (rule calls_mono [OF request_calls [of L "reqs w" C clk]]) (use assms(1,2) in auto)
  then have "counting n k (end_clock clk sched) (requests_run C reqs sched)"
    by (intro counting_run.run_kept [where ps = "\<lambda>w. request_prog C (reqs w)"] assms(3)) (simp_all add: counting_def counts_within_def empty_redis_def)
  then show ?thesis by (auto simp: counting_def dest: counts_read split: option.split)
qed

definition queue_limits :: asked_limits where
  "queue_limits = demo_limits\<lparr>lm_wait := (\<lambda>k m. m \<le> 20)\<rparr>"

theorem wait_counts_bounded_witness:
  "(case get_count 1000 (waitQueueKey 5) (fst (requests_run (NewConcurrencyCache 0 0) queue_requests queue_schedule)) of
      None \<Rightarrow> True | Some v \<Rightarrow> 0 \<le> v \<and> v \<le> int 20)"
  by (rule wait_counts_bounded [where L = queue_limits and clk = 0])
    (simp_all add: queue_limits_def queue_requests_def queue_schedule_def demo_defs waits_within_def CalculateMaxWait_def)


section \<open>What the limits do not cover\<close>

text \<open>
  Runs that show where the guarantees end. A request that has been granted a slot and has sent no release
  still works; a step of \<open>turns w clk n\<close> is a command of request \<open>w\<close>.
\<close>

definition turns :: "nat \<Rightarrow> int \<Rightarrow> nat \<Rightarrow> (nat \<times> cmd_input) list" where
  "turns w clk n = replicate n (w, demo_input clk)"

definition granted_slots :: "slot_owner \<Rightarrow> cmd_log \<Rightarrow> string list" where
  "granted_slots x evs = List.map_filter (\<lambda>(c, r, t). slot_grants x c r) evs"

definition released_slots :: "slot_owner \<Rightarrow> cmd_log \<Rightarrow> string list" where
  "released_slots x evs = concat (map (\<lambda>(c, r, t). case c of ZRem k ms \<Rightarrow> if k = slot_key x then ms else [] | _ \<Rightarrow> []) evs)"

text \<open>
  The start of a second instance removes the slots of the first one, so that two requests work on an account
  with one slot.
\<close>

definition start_requests :: "nat \<Rightarrow> request" where
  "start_requests w = (if w = 1 then AccountRequest 7 1 ''ra-1'' else if w = 2 then ProcessStart 1 ''rb'' else AccountRequest 7 1 ''rb-1'')"

lemma process_start_frees_held_slots:
  "let evs = snd (requests_run (NewConcurrencyCache 0 0) start_requests (turns 1 1000 2 @ turns 2 2000 10 @ turns 3 3000 2)) in
     granted_slots (OfAccount 7) evs = [''rb-1'', ''ra-1''] \<and> released_slots (OfAccount 7) evs = []"
  by code_simp

text \<open>
  A request whose count of itself failed is not counted but takes itself off: a queue in which the second
  request waits counts as empty after the third has gone.
\<close>

definition fail_before :: "nat \<times> cmd_input \<Rightarrow> nat \<times> cmd_input" where
  "fail_before = apsnd (\<lambda>i. i\<lparr>ci_fault := FailsBefore\<rparr>)"

definition count_schedule :: "(nat \<times> cmd_input) list" where
  "count_schedule = turns 1 1000 2 @ turns 2 1000 3 @ turns 3 1000 1 @ map fail_before (turns 3 1000 1) @ turns 3 1000 2"

lemma failed_count_is_taken_off:
  "let s = requests_run (NewConcurrencyCache 0 0) queue_requests count_schedule in
     get_count 1000 (waitQueueKey 5) (fst s) = Some 0 \<and>
     length (filter (\<lambda>(c, r, t). c = DecrementWait (waitQueueKey 5)) (snd s)) = 1 \<and>
     length (filter (\<lambda>(c, r, t). case c of IncrementWait k m t \<Rightarrow> k = waitQueueKey 5 | _ \<Rightarrow> False) (snd s)) = 2"
  by code_simp

text \<open>
  A live session counts slots that have timed out: of two slots one is held and one timed out, and the
  session is refused although a request is granted the other slot at the same moment.
\<close>

definition expired_requests :: "nat \<Rightarrow> request" where
  "expired_requests w = AccountRequest 7 2 (''p-'' @ show_nat w)"

lemma live_lease_counts_expired_slots:
  "let db = fst (requests_run (NewConcurrencyCache 0 0) expired_requests (turns 1 0 2 @ turns 2 500000 2)) in
     \<not> fst (acquireLiveLeaseScript (accountSlotKey 7) (liveAccountSlotKey 7) (userSlotKey 5) (liveUserSlotKey 5) (liveAPIKeySlotKey 3)
         2 2 60 ''live'' 0 950000 db) \<and>
     fst (fst (acquireScript (accountSlotKey 7) (liveAccountSlotKey 7) 2 900 ''p-3'' 950000 db))"
  by code_simp

text \<open>
  A release that finds no slot takes the account off the index after another request has put it there: an
  account in use is in no index, and no cleaning at the start of a process finds its slots.
\<close>

lemma release_forgets_active_account:
  "let db = fst (requests_run (NewConcurrencyCache 0 0) expired_requests (turns 1 1000 7 @ turns 2 1000 2 @ turns 1 1000 1)) in
     zset 1000 db (accountSlotKey 7) = [(''p-2'', 1)] \<and> zset 1000 db accountActiveIndexKey = []"
  by code_simp


text \<open>
  The loads of two accounts, the first with nobody waiting: when the connection breaks after its answers, the
  second account, which is full, is answered to be idle.
\<close>

definition load_inputs :: "cmd_input list" where
  "load_inputs = replicate 6 (demo_input 4000) @ replicate 5 ((demo_input 4000)\<lparr>ci_fault := FailsBefore\<rparr>)"

lemma broken_pipeline_reads_idle:
  "let s = requests_run (NewConcurrencyCache 0 0) demo_requests demo_schedule;
       (answers, t) = interleave prog_step (map (Pair 0) load_inputs) (\<lambda>w. GetAccountsLoadBatch (NewConcurrencyCache 0 0) [(8, 2), (7, 2)], s)
   in (case answers 0 of
         Ret (Some loads) \<Rightarrow> gget loads 7 = Some \<lparr>li_CurrentConcurrency = 0, li_WaitingCount = 0, li_LoadRate = 0\<rparr>
       | _ \<Rightarrow> False) \<and>
      zcard 4000 (accountSlotKey 7) (fst t) = 2"
  by code_simp

end
