(* ===== verification/Concurrency_Release.thy ===== *)
theory Concurrency_Release
  imports Concurrency_Claims "HOL-Library.Multiset"
begin

text \<open>
  A request gives back what it takes: what a program holds after the answers it has seen, and that a
  request that ends without an error holds nothing.
\<close>

section \<open>What a request holds\<close>

text \<open>The members it has put into sets, and the queues in which it is counted.\<close>

type_synonym holdings = "(string \<times> string) set \<times> string multiset"

definition took :: "reply \<Rightarrow> bool" where
  "took r = (case r of RTook ok now \<Rightarrow> ok | _ \<Rightarrow> False)"

fun books :: "redis_cmd \<Rightarrow> reply \<Rightarrow> holdings \<Rightarrow> holdings" where
  "books c r (H, W) =
     (case c of
        Acquire k l n t rid \<Rightarrow> (if took r then insert (k, rid) H else H, W)
      | AcquireLive ar al ur ul l an un t lid rep \<Rightarrow> (if r = RBool True then H \<union> {(al, lid), (ul, lid), (l, lid)} else H, W)
      | AcquireIngress k n t lid \<Rightarrow> (if r = RBool True then insert (k, lid) H else H, W)
      | Track k t rid \<Rightarrow> (if r = RErr then H else insert (k, rid) H, W)
      | ZRem k ms \<Rightarrow> (H - {k} \<times> set ms, W)
      | TxZRem ps \<Rightarrow> (H - set ps, W)
      | IncrementWait k n t \<Rightarrow> (H, if took r then add_mset k W else W)
      | IncrementAccountWait k n t \<Rightarrow> (H, if took r then add_mset k W else W)
      | DecrementWait k \<Rightarrow> (H, W - {#k#})
      | _ \<Rightarrow> (H, W))"

fun answered :: "'a prog \<Rightarrow> reply list \<Rightarrow> holdings \<Rightarrow> ('a \<times> holdings) option" where
  "answered (Ret x) rs h = Some (x, h)"
| "answered (Call c f) [] h = None"
| "answered (Call c f) (r # rs) h = answered (f r) rs (books c r h)"

text \<open>The same for all answers that are not errors.\<close>

primrec leaves :: "'a prog \<Rightarrow> holdings \<Rightarrow> ('a \<Rightarrow> holdings \<Rightarrow> bool) \<Rightarrow> bool" where
  "leaves (Ret x) h Q = Q x h"
| "leaves (Call c f) h Q = (\<forall>r. r \<noteq> RErr \<longrightarrow> leaves (f r) (books c r h) Q)"

lemma leaves_answered: "leaves p h Q \<Longrightarrow> RErr \<notin> set rs \<Longrightarrow> answered p rs h = Some (x, h') \<Longrightarrow> Q x h'"
  by (induction p rs h rule: answered.induct) auto

lemma leaves_bind: "leaves p h (\<lambda>x h. leaves (g x) h Q) \<Longrightarrow> leaves (pbind p g) h Q"
  by (induction p arbitrary: h) auto

lemma leaves_mono: "leaves p h Q \<Longrightarrow> (\<And>x h. Q x h \<Longrightarrow> R x h) \<Longrightarrow> leaves p h R"
  by (induction p arbitrary: h) auto

text \<open>Commands and programs that change no holdings.\<close>

definition quiet_cmd :: "redis_cmd \<Rightarrow> bool" where
  "quiet_cmd c =
     (case c of
        Acquire k l n t rid \<Rightarrow> False | AcquireLive ar al ur ul l an un t lid rep \<Rightarrow> False | AcquireIngress k n t lid \<Rightarrow> False
      | Track k t rid \<Rightarrow> False | ZRem k ms \<Rightarrow> index_key k | TxZRem ps \<Rightarrow> False | IncrementWait k n t \<Rightarrow> False
      | IncrementAccountWait k n t \<Rightarrow> False | DecrementWait k \<Rightarrow> False | _ \<Rightarrow> True)"

primrec quiet :: "'a prog \<Rightarrow> bool" where
  "quiet (Ret x) = True"
| "quiet (Call c f) = (quiet_cmd c \<and> (\<forall>r. quiet (f r)))"

definition no_index :: "holdings \<Rightarrow> bool" where
  "no_index h \<longleftrightarrow> (\<forall>(k, m)\<in>fst h. \<not> index_key k)"

lemma quiet_books: "quiet_cmd c \<Longrightarrow> no_index h \<Longrightarrow> books c r h = h"
  by (cases h; cases c) (auto simp: quiet_cmd_def no_index_def)

lemma quiet_leaves: "quiet p \<Longrightarrow> no_index h \<Longrightarrow> leaves p h (\<lambda>x h'. h' = h)"
  by (induction p) (auto simp: quiet_books)

lemma quiet_post: "quiet p \<Longrightarrow> no_index h \<Longrightarrow> (\<And>x. Q x h) \<Longrightarrow> leaves p h Q"
  by (rule leaves_mono, rule quiet_leaves) auto

lemma quiet_then: "quiet p \<Longrightarrow> no_index h \<Longrightarrow> (\<And>x. leaves (g x) h Q) \<Longrightarrow> leaves (pbind p g) h Q"
  by (rule leaves_bind, rule quiet_post)

lemma quiet_seq: "quiet p \<Longrightarrow> no_index h \<Longrightarrow> leaves q h Q \<Longrightarrow> leaves (pseq p q) h Q"
  unfolding pseq_def by (rule quiet_then)

named_theorems quiet_intros \<open>programs that change no holdings\<close>

lemma quiet_bind [quiet_intros]: "quiet p \<Longrightarrow> (\<And>x. quiet (g x)) \<Longrightarrow> quiet (pbind p g)"
  by (induction p) auto

lemma quiet_basic [quiet_intros]:
  "quiet (Ret x)" "quiet_cmd c \<Longrightarrow> (\<And>r. quiet (f r)) \<Longrightarrow> quiet (Call c f)" "quiet p \<Longrightarrow> quiet q \<Longrightarrow> quiet (pseq p q)"
  by (simp_all add: pseq_def quiet_bind)

lemma quiet_if [quiet_intros]: "(b \<Longrightarrow> quiet p) \<Longrightarrow> (\<not> b \<Longrightarrow> quiet q) \<Longrightarrow> quiet (if b then p else q)"
  by simp

lemma quiet_pipeline [quiet_intros]: "list_all quiet_cmd cs \<Longrightarrow> quiet (pipeline cs)"
  by (induction cs) (auto intro: quiet_intros)


section \<open>Quiet operations\<close>

lemma quiet_commands [simp]:
  "quiet_cmd TimeCmd" "quiet_cmd (ZRemRangeByScore k b)" "quiet_cmd (ZCard k)" "quiet_cmd (ZAdd k ps)" "quiet_cmd (ZRange k)"
  "quiet_cmd (ZRangeByScore k b n)" "quiet_cmd (GetCmd k)" "quiet_cmd (DelCmd ks)" "quiet_cmd (ExistsCmd k)" "quiet_cmd (SetCmd k v)"
  "quiet_cmd (ScanCmd pre)" "quiet_cmd (GetCount k l t)" "quiet_cmd (RefreshLive ks t lid)" "quiet_cmd (RefreshIngress k t lid)"
  "quiet_cmd (CleanupExpired k t)" "quiet_cmd (StartupCleanup k pre t)" "quiet_cmd (ZRem k ms) = index_key k"
  by (simp_all add: quiet_cmd_def)

lemma quiet_touch [quiet_intros]: "quiet (touchActiveIndexAt k i t)" "quiet (touched k i t r)"
  by (auto simp: touchActiveIndexAt_def touched_def split: reply.split intro!: quiet_intros)

lemma quiet_refresh [quiet_intros]: "quiet (refreshAccountActiveIndex C i)" "quiet (refreshUserActiveIndex C i)"
proof -
  have "quiet (refreshActiveIndex C k i s w)" if "index_key k" for k s w
    using that by (auto simp: refreshActiveIndex_def readActiveLoadForKey_def Let_def split: reply.split option.split intro!: quiet_intros)
  then show "quiet (refreshAccountActiveIndex C i)" "quiet (refreshUserActiveIndex C i)"
    by (simp_all add: refreshAccountActiveIndex_def refreshUserActiveIndex_def)
qed

lemma quiet_counts [simp]: "list_all quiet_cmd (count_cmds C now k l)" "list_all quiet_cmd (load_cmds C spec now i)"
  by (simp_all add: count_cmds_def load_cmds_def)

lemma quiet_concat: "(\<And>x. x \<in> set xs \<Longrightarrow> list_all quiet_cmd (f x)) \<Longrightarrow> list_all quiet_cmd (concat (map f xs))"
  by (induction xs) simp_all

lemma quiet_queries [quiet_intros]:
  "quiet (GetAccountConcurrency C i)" "quiet (GetUserConcurrency C i)" "quiet (GetAccountWaitingCount i)"
  "quiet (GetAccountConcurrencyBatch C ids)" "quiet (GetAPIKeyConcurrencyBatch C ids)"
  "quiet (GetAccountsLoadBatch C xs)" "quiet (GetUsersLoadBatch C xs)"
  by (auto simp: GetAccountConcurrency_def GetUserConcurrency_def GetAccountWaitingCount_def GetAccountConcurrencyBatch_def
      GetAPIKeyConcurrencyBatch_def GetAccountsLoadBatch_def GetUsersLoadBatch_def split: reply.split
      intro!: quiet_intros quiet_concat)

lemma quiet_index [quiet_intros]:
  "index_key k \<Longrightarrow> quiet (removeActiveIndexMembers k ms)" "index_key k \<Longrightarrow> quiet (write_index k ps ms)" "quiet (allIndexMembers k)"
  by (auto simp: removeActiveIndexMembers_def write_index_def allIndexMembers_def intro!: quiet_intros)

lemma quiet_chunks [quiet_intros]: "quiet (read_chunks C spec now xs)"
  by (induction C spec now xs rule: read_chunks.induct)
    (subst read_chunks.simps, auto simp: Let_def intro!: quiet_intros quiet_concat)

lemma quiet_cleaning [quiet_intros]:
  "quiet (CleanupExpiredAccountSlots C i)" "quiet (CleanupExpiredAccountSlotKeys C)"
proof -
  have "quiet (reconcileExpiredIndexCandidates C spec)" if "index_key (sis_indexKey spec)" for spec
    using that by (auto simp: reconcileExpiredIndexCandidates_def readIndexLoads_def Let_def split: reply.split option.split
        intro!: quiet_intros)
  then have "quiet (reconcileExpiredIndexCandidates C accountSlotIndex)" "quiet (reconcileExpiredIndexCandidates C userSlotIndex)"
    by (simp_all add: accountSlotIndex_def userSlotIndex_def)
  then show "quiet (CleanupExpiredAccountSlotKeys C)" by (auto simp: CleanupExpiredAccountSlotKeys_def intro!: quiet_intros)
qed (auto simp: CleanupExpiredAccountSlots_def intro!: quiet_intros)

lemma quiet_sweep [quiet_intros]: "quiet (scan_delete n pre)" "quiet (sweepLegacyWaitKeysOnce n)"
proof -
  show s: "quiet (scan_delete n pre)" for n pre
    by (induction n pre rule: scan_delete.induct) (auto simp: Let_def split: reply.split intro!: quiet_intros)
  show "quiet (sweepLegacyWaitKeysOnce n)"
    by (auto simp: sweepLegacyWaitKeysOnce_def split: reply.split intro!: quiet_intros s)
qed

lemma quiet_members [quiet_intros]:
  "index_key (sis_indexKey spec) \<Longrightarrow> quiet (cleanup_members C spec pre now ms refreshed stale)"
  by (induction C spec pre now ms refreshed stale rule: cleanup_members.induct)
    (auto split: reply.split option.split intro!: quiet_intros)

lemma quiet_start [quiet_intros]: "quiet (CleanupStaleProcessSlots n C pre)"
proof -
  have "index_key (sis_indexKey accountSlotIndex)" "index_key (sis_indexKey userSlotIndex)"
    by (simp_all add: accountSlotIndex_def userSlotIndex_def)
  then show ?thesis
    by (auto simp: CleanupStaleProcessSlots_def cleanupStaleProcessSlotsForIndex_def split: reply.split option.split intro!: quiet_intros)
qed


section \<open>Requests\<close>

text \<open>
  A release gives back \<open>H\<close> and nothing of \<open>F\<close>. A slot is given back whatever slots of API keys, which are
  only counted, are held beside it.
\<close>

definition gives_back :: "(string \<times> string) set \<Rightarrow> unit prog \<Rightarrow> (string \<times> string) set \<Rightarrow> bool" where
  "gives_back F release H \<longleftrightarrow> (\<forall>W. leaves release (H \<union> F, W) (\<lambda>x h. h = (F, W)))"

definition slot_release :: "unit prog \<Rightarrow> (string \<times> string) set \<Rightarrow> bool" where
  "slot_release release H \<longleftrightarrow> (\<forall>(k, m)\<in>H. \<not> index_key k) \<and> (\<forall>F. (\<forall>(k, m)\<in>F. stats_key k) \<longrightarrow> gives_back F release H)"

definition slot_post :: "string multiset \<Rightarrow> acquire_result \<Rightarrow> holdings \<Rightarrow> bool" where
  "slot_post W r h \<longleftrightarrow> snd h = W \<and> (case r of SlotTaken release \<Rightarrow> slot_release release (fst h) | _ \<Rightarrow> fst h = {})"

definition wait_post :: "(unit prog \<Rightarrow> (string \<times> string) set \<Rightarrow> bool) \<Rightarrow> string multiset \<Rightarrow> wait_outcome \<Rightarrow> holdings \<Rightarrow> bool" where
  "wait_post P W z h \<longleftrightarrow> snd h = W \<and> (\<forall>(k, m)\<in>fst h. \<not> index_key k) \<and> (case z of WaitGot release \<Rightarrow> P release (fst h) | _ \<Rightarrow> fst h = {})"

lemma stats_not_index: "stats_key k \<Longrightarrow> \<not> index_key k"
  by (auto simp: stats_key_def index_key_def key_defs)

lemma account_release: "slot_release (pseq (ReleaseAccountSlot C i rid) (Ret ())) {(accountSlotKey i, rid)}"
  "slot_release (pseq (ReleaseUserSlot C i rid) (Ret ())) {(userSlotKey i, rid)}"
proof -
  have keys: "\<not> index_key (accountSlotKey i)" "\<not> index_key (userSlotKey i)" "\<not> stats_key (accountSlotKey i)" "\<not> stats_key (userSlotKey i)"
    by (simp_all add: index_key_def stats_key_def key_defs)
  have F: "no_index (F, W)" "insert (accountSlotKey i, rid) F - {(accountSlotKey i, rid)} = F"
    "insert (userSlotKey i, rid) F - {(userSlotKey i, rid)} = F" if "\<forall>(k, m)\<in>F. stats_key k" for F W
    using that keys by (auto simp: no_index_def dest: stats_not_index)
  show "slot_release (pseq (ReleaseAccountSlot C i rid) (Ret ())) {(accountSlotKey i, rid)}"
    "slot_release (pseq (ReleaseUserSlot C i rid) (Ret ())) {(userSlotKey i, rid)}"
    unfolding slot_release_def gives_back_def ReleaseAccountSlot_def ReleaseUserSlot_def pseq_def
    using keys F by (auto intro!: quiet_then quiet_intros)
qed

lemma acquire_leaves:
  "leaves (service_AcquireAccountSlot C i m rid) ({}, W) (slot_post W)" "leaves (service_AcquireUserSlot C i m rid) ({}, W) (slot_post W)"
proof -
  have none: "slot_release (Ret ()) {}" by (simp add: slot_release_def gives_back_def)
  have key: "\<not> index_key (accountSlotKey i)" "\<not> index_key (userSlotKey i)" by (simp_all add: index_key_def key_defs)
  show "leaves (service_AcquireAccountSlot C i m rid) ({}, W) (slot_post W)" "leaves (service_AcquireUserSlot C i m rid) ({}, W) (slot_post W)"
    unfolding service_AcquireAccountSlot_def service_AcquireUserSlot_def AcquireAccountSlot_def AcquireUserSlot_def touched_def
    using none key account_release [of C i rid]
    by (auto simp: slot_post_def slot_result_def took_def no_index_def split: reply.split intro!: leaves_bind quiet_seq quiet_intros)
qed

lemma wait_loop_leaves:
  assumes "\<And>rid. leaves (acquire rid) ({}, W) (slot_post W)"
  shows "leaves (waitForSlotWithPingTimeout acquire t es) ({}, W) (wait_post slot_release W)"
proof -
  have go_on: "leaves (case r of SlotError \<Rightarrow> Ret WaitFailed | SlotTaken release \<Rightarrow> Ret (WaitGot release) | SlotBusy \<Rightarrow> p) h (wait_post slot_release W)"
    if "slot_post W r h" "leaves p ({}, W) (wait_post slot_release W)" for r p h
    using that by (cases r; cases h) (auto simp: slot_post_def wait_post_def slot_release_def)
  have loop: "leaves (wait_loop acquire es) ({}, W) (wait_post slot_release W)"
    using assms
  proof (induction acquire es rule: wait_loop.induct)
    case (4 acquire rid es)
    show ?case unfolding wait_loop.simps
      by (rule leaves_bind, rule leaves_mono [OF 4(2)], rule go_on) (use 4 in auto)
  qed (simp_all add: wait_post_def)
  show ?thesis
  proof (cases t)
    case None
    with loop show ?thesis by (simp add: waitForSlotWithPingTimeout_def)
  next
    case (Some rid)
    show ?thesis unfolding waitForSlotWithPingTimeout_def Some option.case
      by (rule leaves_bind, rule leaves_mono [OF assms], rule go_on) (use loop in auto)
  qed
qed


lemma with_key_leaves:
  assumes "wait_post slot_release W z h"
  shows "leaves (with_key C g kr z) h (wait_post (gives_back {}) W)"
proof (cases z)
  case (WaitGot release)
  obtain H where h: "h = (H, W)" using assms by (cases h) (simp add: wait_post_def)
  have k: "stats_key (apiKeySlotKey g)" "\<not> index_key (apiKeySlotKey g)" using stats_not_index by simp_all
  have r: "slot_release release H" "\<forall>(k, m)\<in>H. \<not> index_key k" using assms by (auto simp: wait_post_def WaitGot h)
  then have alone: "gives_back {} release H" by (simp add: slot_release_def)
  have "gives_back {(apiKeySlotKey g, kr)} release H" using r(1) k(1) by (simp add: slot_release_def)
  then have first: "leaves release (insert (apiKeySlotKey g, kr) H, W) (\<lambda>x h. h = ({(apiKeySlotKey g, kr)}, W))" for W
    by (simp add: gives_back_def)
  have both: "gives_back {} (pseq release (pseq (ReleaseAPIKeySlot g kr) (Ret ()))) (insert (apiKeySlotKey g, kr) H)"
    unfolding gives_back_def pseq_def Un_empty_right
    by (intro allI, rule leaves_bind, rule leaves_mono [OF first]) (simp add: ReleaseAPIKeySlot_def)
  show ?thesis
    unfolding WaitGot with_key_def withAPIKeySlot_def service_TrackAPIKeySlot_def TrackAPIKeySlot_def
    using alone both r(2) k(2) by (simp add: h wait_post_def)
qed (use assms in \<open>simp_all add: with_key_def wait_post_def\<close>)

lemma decrement_leaves:
  "\<forall>(k, m)\<in>fst h. \<not> index_key k \<Longrightarrow> leaves (DecrementWaitCount C i) h (\<lambda>x h'. h' = (fst h, snd h - {#waitQueueKey i#}))"
  "\<forall>(k, m)\<in>fst h. \<not> index_key k \<Longrightarrow> leaves (DecrementAccountWaitCount C i) h (\<lambda>x h'. h' = (fst h, snd h - {#accountWaitKey i#}))"
  unfolding DecrementWaitCount_def DecrementAccountWaitCount_def
  by (cases h; auto simp: no_index_def intro!: quiet_seq quiet_intros)+

lemma increment_leaves:
  "leaves (service_IncrementWaitCount C i m) ({}, {#}) (\<lambda>ok h. h = ({}, {#}) \<or> ok \<and> h = ({}, {#waitQueueKey i#}))"
  "leaves (service_IncrementAccountWaitCount C i m) ({}, {#}) (\<lambda>ok h. h = ({}, {#}) \<or> ok \<and> h = ({}, {#accountWaitKey i#}))"
  unfolding service_IncrementWaitCount_def service_IncrementAccountWaitCount_def IncrementWaitCount_def IncrementAccountWaitCount_def touched_def
  by (auto simp: took_def no_index_def split: reply.split intro!: leaves_bind quiet_seq quiet_intros)

lemma user_leaves: "leaves (acquireUserSlotWithWaitTimeout C u m k r kr es) ({}, {#}) (wait_post (gives_back {}) {#})"
proof -
  let ?tail = "pbind (waitForSlotWithPingTimeout (service_AcquireUserSlot C u m) None es) (\<lambda>z.
    pbind (with_key C k kr z) (\<lambda>z. pseq (DecrementWaitCount C u) (Ret z)))"
  have last: "leaves (pseq (DecrementWaitCount C u) (Ret z)) h (wait_post (gives_back {}) {#})"
    if "wait_post (gives_back {}) W z h" "W = {#} \<or> W = {#waitQueueKey u#}" for W z h
    unfolding pseq_def
    by (rule leaves_bind, rule leaves_mono [OF decrement_leaves(1)])
      (use that in \<open>auto simp: wait_post_def split: wait_outcome.splits\<close>)
  have tail: "leaves ?tail ({}, W) (wait_post (gives_back {}) {#})" if "W = {#} \<or> W = {#waitQueueKey u#}" for W
    by (rule leaves_bind, rule leaves_mono [OF wait_loop_leaves], rule acquire_leaves, rule leaves_bind,
        rule leaves_mono [OF with_key_leaves], assumption) (use last that in blast)
  have full: "wait_post (gives_back {}) {#} QueueFull ({}, {#})" by (simp add: wait_post_def)
  have after: "leaves (case z of SlotError \<Rightarrow> Ret WaitFailed | SlotTaken release \<Rightarrow> with_key C k kr (WaitGot release)
      | SlotBusy \<Rightarrow> pbind (service_IncrementWaitCount C u n) (\<lambda>canWait. if \<not> canWait then Ret QueueFull else ?tail)) h (wait_post (gives_back {}) {#})"
    if "slot_post {#} z h" for z h n
  proof (cases z)
    case (SlotTaken release)
    with that have "wait_post slot_release {#} (WaitGot release) h" by (auto simp: slot_post_def wait_post_def slot_release_def)
    then show ?thesis by (simp add: SlotTaken with_key_leaves)
  next
    case SlotBusy
    with that have "h = ({}, {#})" by (cases h) (simp add: slot_post_def)
    then show ?thesis unfolding SlotBusy acquire_result.case
      by (simp only:) (rule leaves_bind, rule leaves_mono [OF increment_leaves(1)], use tail full in auto)
  qed (use that in \<open>cases h; simp add: slot_post_def wait_post_def\<close>)
  show ?thesis unfolding acquireUserSlotWithWaitTimeout_def Let_def
    by (rule leaves_bind, rule leaves_mono [OF acquire_leaves(2)], rule after)
qed

lemma account_wait_leaves: "leaves (wait_for_account C i m w r es) ({}, {#}) (wait_post (gives_back {}) {#})"
proof -
  let ?tail = "pbind (waitForSlotWithPingTimeout (service_AcquireAccountSlot C i m) (Some r) es)
    (\<lambda>z. pseq (DecrementAccountWaitCount C i) (Ret z))"
  have last: "leaves (pseq (DecrementAccountWaitCount C i) (Ret z)) h (wait_post (gives_back {}) {#})"
    if "wait_post slot_release W z h" "W = {#} \<or> W = {#accountWaitKey i#}" for W z h
    unfolding pseq_def
    by (rule leaves_bind, rule leaves_mono [OF decrement_leaves(2)])
      (use that in \<open>auto simp: wait_post_def slot_release_def split: wait_outcome.splits\<close>)
  have tail: "leaves ?tail ({}, W) (wait_post (gives_back {}) {#})" if "W = {#} \<or> W = {#accountWaitKey i#}" for W
    by (rule leaves_bind, rule leaves_mono [OF wait_loop_leaves], rule acquire_leaves) (use last that in blast)
  show ?thesis unfolding wait_for_account_def
    by (rule leaves_bind, rule leaves_mono [OF increment_leaves(2)]) (use tail in \<open>auto simp: wait_post_def\<close>)
qed


lemma session_leaves:
  assumes "leaves acquire ({}, {#}) (\<lambda>r h. if r = Some True then h = (H, {#}) else h = ({}, {#}))"
    and "\<forall>(k, m)\<in>H. \<not> index_key k" and "quiet refresh" and "leaves release (H, {#}) (\<lambda>x h. h = ({}, {#}))"
  shows "leaves (lease_session acquire n refresh release) ({}, {#}) (\<lambda>x h. h = ({}, {#}))"
proof -
  have "quiet (repeat_refresh n refresh)" by (induction n) (auto intro!: quiet_intros assms(3))
  then have "leaves (pseq (repeat_refresh n refresh) (pseq release (Ret ()))) (H, {#}) (\<lambda>x h. h = ({}, {#}))"
    by (rule quiet_seq) (use assms(2,4) in \<open>auto simp: no_index_def pseq_def intro!: leaves_bind\<close>)
  then show ?thesis unfolding lease_session_def
    by (intro leaves_bind leaves_mono [OF assms(1)]) (auto split: if_splits)
qed

lemma live_session_leaves:
  "leaves (request_prog C (LiveSession i an j un g lid rep n)) ({}, {#}) (\<lambda>x h. h = ({}, {#}))"
proof (cases "i \<le> 0 \<or> j \<le> 0 \<or> g \<le> 0 \<or> lid = []")
  case True
  then show ?thesis by (simp add: lease_session_def AcquireLiveLease_def)
next
  case False
  have names: "\<not> index_key (liveAccountSlotKey i)" "\<not> index_key (liveUserSlotKey j)" "\<not> index_key (liveAPIKeySlotKey g)"
    by (simp_all add: index_key_def key_defs)
  show ?thesis unfolding request_prog.simps
    by (rule session_leaves [where H = "{(liveAccountSlotKey i, lid), (liveUserSlotKey j, lid), (liveAPIKeySlotKey g, lid)}"])
      (use False names in \<open>auto simp: AcquireLiveLease_def RefreshLiveLease_def ReleaseLiveLease_def bool_reply_def
         split: reply.split intro!: quiet_intros\<close>)
qed

lemma socket_session_leaves:
  "leaves (request_prog C (IngressSession i m lid n)) ({}, {#}) (\<lambda>x h. h = ({}, {#}))"
proof (cases "i \<le> 0 \<or> m \<le> 0 \<or> lid = []")
  case True
  then show ?thesis by (auto simp: lease_session_def AcquireOpenAIWSIngressLease_def)
next
  case False
  show ?thesis unfolding request_prog.simps
    by (rule session_leaves [where H = "{(openAIWSIngressLeaseKey i, lid)}"])
      (use False in \<open>auto simp: AcquireOpenAIWSIngressLease_def RefreshOpenAIWSIngressLease_def ReleaseOpenAIWSIngressLease_def
         bool_reply_def split: reply.split intro!: quiet_intros\<close>)
qed

lemma request_leaves: "leaves (request_prog C req) ({}, {#}) (\<lambda>x h. h = ({}, {#}))"
proof (cases req)
  case (UserRequest u m k r kr es)
  show ?thesis unfolding UserRequest request_prog.simps
    by (rule leaves_bind, rule leaves_mono [OF user_leaves])
      (auto simp: release_wait_def wait_post_def gives_back_def split: wait_outcome.splits)
next
  case (AccountWait i m w r es)
  show ?thesis unfolding AccountWait request_prog.simps
    by (rule leaves_bind, rule leaves_mono [OF account_wait_leaves])
      (auto simp: release_wait_def wait_post_def gives_back_def split: wait_outcome.splits)
next
  case (AccountRequest i m r)
  have release: "leaves (release_slot z) h (\<lambda>x h. h = ({}, {#}))" if "slot_post {#} z h" for z h
  proof (cases z)
    case (SlotTaken release)
    with that have "gives_back {} release (fst h)" by (simp add: slot_post_def slot_release_def)
    with that show ?thesis by (cases h) (simp add: SlotTaken release_slot_def slot_post_def gives_back_def)
  qed (use that in \<open>cases h; simp add: release_slot_def slot_post_def\<close>)+
  show ?thesis unfolding AccountRequest request_prog.simps
    by (rule leaves_bind, rule leaves_mono [OF acquire_leaves(1)], rule release)
qed (auto simp: live_session_leaves socket_session_leaves ignoring_def no_index_def
    simp del: request_prog.simps(4,5) intro!: quiet_seq quiet_intros)

text \<open>
  C15. Requests give back what they take. A request, a session of leases, a query, a worker or the start
  of a process that has come to its end, whatever was answered to it and whatever others did between its
  commands, holds no slot and no lease and is counted in no queue, unless one of the answers was an error.
\<close>

theorem finished_request_holds_nothing:
  assumes "RErr \<notin> set rs" and "answered (request_prog C req) rs ({}, {#}) = Some (x, h)"
  shows "h = ({}, {#})"
  using leaves_answered [OF request_leaves assms] .

text \<open>A user waits for the only slot, gets it with the second attempt, and releases it.\<close>

definition demo_answers :: "reply list" where
  "demo_answers = [RTook False 1, RTook True 1, ROk, RTook True 2, ROk, ROk, ROk, RTime 2, ROk, RInt 1, RNil, ROk,
     ROk, RTime 3, ROk, RInt 0, RNil, ROk, ROk]"

definition demo_waiting :: "unit prog" where
  "demo_waiting = request_prog (NewConcurrencyCache 0 0) (UserRequest 5 1 4 ''q-1'' ''q-2'' [TimerFires ''q-3''])"

lemma demo_ends: "answered demo_waiting demo_answers ({}, {#}) \<noteq> None"
  by code_simp

lemma demo_holds:
  "map_option snd (answered (acquireUserSlotWithWaitTimeout (NewConcurrencyCache 0 0) 5 1 4 ''q-1'' ''q-2'' [TimerFires ''q-3''])
     (take 12 demo_answers) ({}, {#})) = Some ({(userSlotKey 5, ''q-3''), (apiKeySlotKey 4, ''q-2'')}, {#})"
  by code_simp

theorem finished_request_holds_nothing_witness:
  "snd (the (answered demo_waiting demo_answers ({}, {#}))) = ({}, {#})"
proof -
  obtain x h where a: "answered demo_waiting demo_answers ({}, {#}) = Some (x, h)" using demo_ends by auto
  have "h = ({}, {#})"
    by (rule finished_request_holds_nothing [OF _ a [unfolded demo_waiting_def]]) (simp add: demo_answers_def)
  with a show ?thesis by simp
qed

end
