(* ===== verification/Model_Names.thy ===== *)
theory Model_Names
  imports Strconv
begin

text \<open>
  How the names of models, resolutions and image sizes are read where prices are looked up:
  service/openai_model_alias.go, the alias map of openai_codex_transform.go, pkg/xai/models.go,
  service/video_billing.go, video_billing_resolution.go and image_billing_size.go. \<open>lower\<close> is
  \<open>strings.ToLower\<close>.
\<close>

section \<open>Strings\<close>

fun contains :: "string \<Rightarrow> string \<Rightarrow> bool" where
  "contains [] sub \<longleftrightarrow> sub = []"
| "contains (c # s) sub \<longleftrightarrow> starts_with (c # s) sub \<or> contains s sub"

definition ends_with :: "string \<Rightarrow> string \<Rightarrow> bool" where
  "ends_with s ending \<longleftrightarrow> starts_with (rev s) (rev ending)"

definition trim_suffix :: "string \<Rightarrow> string \<Rightarrow> string" where
  "trim_suffix s ending = (if ends_with s ending then take (length s - length ending) s else s)"

text \<open>\<open>strings.ReplaceAll\<close> of a string that is not empty.\<close>

function replace_all :: "string \<Rightarrow> string \<Rightarrow> string \<Rightarrow> string" where
  "replace_all old new [] = []"
| "replace_all old new (c # s) =
     (if old \<noteq> [] \<and> starts_with (c # s) old then new @ replace_all old new (drop (length old - 1) s)
      else c # replace_all old new s)"
  by pat_completeness auto
termination by (relation "measure (\<lambda>(old, new, s). length s)") auto

lemma replace_all_length: "length new \<le> length old \<Longrightarrow> length (replace_all old new s) \<le> length s"
proof (induction old new s rule: replace_all.induct)
  case (2 old new c s)
  show ?case
  proof (cases "old \<noteq> [] \<and> starts_with (c # s) old")
    case True
    then have "length old \<le> length (c # s)" by (metis starts_with_def length_take min.cobounded1)
    then show ?thesis using 2 True by (cases old) auto
  next
    case False then show ?thesis using 2 by auto
  qed
qed simp

lemma replace_all_shorter:
  "length new < length old \<Longrightarrow> contains s old \<Longrightarrow> length (replace_all old new s) < length s"
proof (induction old new s rule: replace_all.induct)
  case (2 old new c s)
  show ?case
  proof (cases "old \<noteq> [] \<and> starts_with (c # s) old")
    case True
    then have "length old \<le> length (c # s)" by (metis starts_with_def length_take min.cobounded1)
    moreover have "length (replace_all old new (drop (length old - 1) s)) \<le> length (drop (length old - 1) s)"
      by (rule replace_all_length) (use 2(3) in simp)
    ultimately show ?thesis using 2(3) True by (cases old) auto
  next
    case False then show ?thesis using 2 by auto
  qed
qed auto

declare replace_all.simps [simp del]

fun split_on :: "char \<Rightarrow> string \<Rightarrow> string list" where
  "split_on sep [] = [[]]"
| "split_on sep (c # s) =
     (if c = sep then [] # split_on sep s
      else case split_on sep s of [] \<Rightarrow> [[c]] | part # parts \<Rightarrow> (c # part) # parts)"

text \<open>\<open>strings.Fields\<close>: the pieces between white space.\<close>

function space_fields_from :: "string \<Rightarrow> string \<Rightarrow> string list" where
  "space_fields_from piece [] = (if piece = [] then [] else [piece])"
| "space_fields_from piece (c # s) =
     (case find (\<lambda>w. w \<noteq> [] \<and> starts_with (c # s) w) space_runes of
        None \<Rightarrow> space_fields_from (piece @ [c]) s
      | Some w \<Rightarrow> (if piece = [] then [] else [piece]) @ space_fields_from [] (drop (length w - 1) s))"
  by pat_completeness auto
termination by (relation "measure (\<lambda>(piece, s). length s)") auto

declare space_fields_from.simps [simp del]

definition space_fields :: "string \<Rightarrow> string list" where
  "space_fields s = space_fields_from [] s"

fun join :: "string \<Rightarrow> string list \<Rightarrow> string" where
  "join sep [] = []"
| "join sep [s] = s"
| "join sep (s # t # ss) = s @ sep @ join sep (t # ss)"

section \<open>OpenAI models\<close>

definition lastOpenAIModelSegment :: "string \<Rightarrow> string" where
  "lastOpenAIModelSegment model =
     (let model = trim_space model in
      if model = [] then []
      else let model = (if contains model ''/'' then last (split_on CHR ''/'' model) else model) in trim_space model)"

function single_hyphens :: "string \<Rightarrow> string" where
  "single_hyphens s = (if contains s ''--'' then single_hyphens (replace_all ''--'' ''-'' s) else s)"
  by pat_completeness auto
termination by (relation "measure length") (auto simp: replace_all_shorter)

declare single_hyphens.simps [simp del]

definition alias_replacements :: "(string \<times> string) list" where
  "alias_replacements =
     [(''gpt-5.4mini'', ''gpt-5.4-mini''),
      (''gpt-5.4nano'', ''gpt-5.4-nano''),
      (''gpt-5.3-codexspark'', ''gpt-5.3-codex-spark''),
      (''gpt-5.3codexspark'', ''gpt-5.3-codex-spark''),
      (''gpt-5.3codex'', ''gpt-5.3-codex'')]"

definition canonicalizeOpenAIModelAliasSpelling :: "(string \<Rightarrow> string) \<Rightarrow> string \<Rightarrow> string" where
  "canonicalizeOpenAIModelAliasSpelling lower model =
     (let model = lower (lastOpenAIModelSegment model) in
      if model = [] then []
      else
        let normalized = replace_all ''_'' ''-'' model;
            normalized = join ''-'' (space_fields normalized);
            normalized = single_hyphens normalized;
            normalized = (case cut_prefix normalized ''gpt5'' of None \<Rightarrow> normalized | Some rest \<Rightarrow> ''gpt-5'' @ rest)
        in if \<not> starts_with normalized ''gpt-'' \<and> \<not> contains normalized ''codex'' then []
           else foldl (\<lambda>s (from, to). replace_all from to s) normalized alias_replacements)"

definition codexModelMap :: "(string \<times> string) list" where
  "codexModelMap =
     [(''gpt-5.6-sol'', ''gpt-5.6-sol''),
      (''gpt-5.6-terra'', ''gpt-5.6-terra''),
      (''gpt-5.6-luna'', ''gpt-5.6-luna''),
      (''gpt-5.5'', ''gpt-5.5''),
      (''gpt-5.5-pro'', ''gpt-5.5-pro''),
      (''codex-auto-review'', ''codex-auto-review''),
      (''gpt-5.4'', ''gpt-5.4''),
      (''gpt-5.4-mini'', ''gpt-5.4-mini''),
      (''gpt-5.4-none'', ''gpt-5.4''),
      (''gpt-5.4-low'', ''gpt-5.4''),
      (''gpt-5.4-medium'', ''gpt-5.4''),
      (''gpt-5.4-high'', ''gpt-5.4''),
      (''gpt-5.4-xhigh'', ''gpt-5.4''),
      (''gpt-5.4-chat-latest'', ''gpt-5.4''),
      (''gpt-5.3'', ''gpt-5.3-codex''),
      (''gpt-5.3-none'', ''gpt-5.3-codex''),
      (''gpt-5.3-low'', ''gpt-5.3-codex''),
      (''gpt-5.3-medium'', ''gpt-5.3-codex''),
      (''gpt-5.3-high'', ''gpt-5.3-codex''),
      (''gpt-5.3-xhigh'', ''gpt-5.3-codex''),
      (''gpt-5.3-codex'', ''gpt-5.3-codex''),
      (''gpt-5.3-codex-spark'', ''gpt-5.3-codex-spark''),
      (''gpt-5.3-codex-low'', ''gpt-5.3-codex''),
      (''gpt-5.3-codex-medium'', ''gpt-5.3-codex''),
      (''gpt-5.3-codex-high'', ''gpt-5.3-codex''),
      (''gpt-5.3-codex-xhigh'', ''gpt-5.3-codex''),
      (''gpt-5.2'', ''gpt-5.2''),
      (''gpt-5.2-none'', ''gpt-5.2''),
      (''gpt-5.2-low'', ''gpt-5.2''),
      (''gpt-5.2-medium'', ''gpt-5.2''),
      (''gpt-5.2-high'', ''gpt-5.2''),
      (''gpt-5.2-xhigh'', ''gpt-5.2''),
      (''gpt-5'', ''gpt-5.4''),
      (''gpt-5-mini'', ''gpt-5.4''),
      (''gpt-5-nano'', ''gpt-5.4''),
      (''gpt-5.1'', ''gpt-5.4''),
      (''gpt-5.1-codex'', ''gpt-5.3-codex''),
      (''gpt-5.1-codex-max'', ''gpt-5.3-codex''),
      (''gpt-5.1-codex-mini'', ''gpt-5.3-codex''),
      (''gpt-5.2-codex'', ''gpt-5.2''),
      (''codex-mini-latest'', ''gpt-5.3-codex''),
      (''gpt-5-codex'', ''gpt-5.3-codex'')]"

definition codexModelLookupKey :: "(string \<Rightarrow> string) \<Rightarrow> string \<Rightarrow> string" where
  "codexModelLookupKey lower modelID =
     (let modelID = trim_space modelID in
      if modelID = [] then []
      else let modelID = (if contains modelID ''/'' then last (split_on CHR ''/'' modelID) else modelID)
        in lower (join ''-'' (space_fields modelID)))"

text \<open>A map that misses a key answers the empty string, as here.\<close>

definition getNormalizedCodexModel :: "(string \<Rightarrow> string) \<Rightarrow> string \<Rightarrow> string" where
  "getNormalizedCodexModel lower modelID =
     (let key = codexModelLookupKey lower modelID in
      if key = [] then [] else case map_of codexModelMap key of Some mapped \<Rightarrow> mapped | None \<Rightarrow> [])"

definition isCodexDateSuffix :: "string \<Rightarrow> bool" where
  "isCodexDateSuffix ending \<longleftrightarrow>
     (let parts = split_on CHR ''-'' ending in map length parts = [4, 2, 2] \<and> list_all (list_all is_digit) parts)"

definition isKnownCodexModelSuffix :: "string \<Rightarrow> bool" where
  "isKnownCodexModelSuffix ending \<longleftrightarrow>
     ending \<in> set [''none'', ''minimal'', ''low'', ''medium'', ''high'', ''xhigh''] \<or> isCodexDateSuffix ending"

text \<open>The cases of the \<open>switch\<close>, in order.\<close>

definition known_model_rules :: "(string \<times> string) list" where
  "known_model_rules =
     [(''gpt-5.5-pro'', ''gpt-5.5-pro''), (''gpt-5.5'', ''gpt-5.5''), (''gpt-5.4-mini'', ''gpt-5.4-mini''),
      (''gpt-5.4-nano'', ''gpt-5.4-nano''), (''gpt-5.4'', ''gpt-5.4''), (''gpt-5.2'', ''gpt-5.2''),
      (''gpt-5.3-codex-spark'', ''gpt-5.3-codex-spark''), (''gpt-5.3-codex'', ''gpt-5.3-codex''), (''gpt-5.3'', ''gpt-5.3-codex''),
      (''codex'', ''gpt-5.3-codex''), (''gpt-5'', ''gpt-5.4'')]"

definition switch_known_model :: "string \<Rightarrow> string" where
  "switch_known_model normalized =
     (if contains normalized ''gpt-5.6-sol'' then ''gpt-5.6-sol''
      else if contains normalized ''gpt-5.6-terra'' then ''gpt-5.6-terra''
      else if contains normalized ''gpt-5.6-luna'' then ''gpt-5.6-luna''
      else if normalized = ''gpt-5.6'' then ''gpt-5.6-sol''
      else case cut_prefix normalized ''gpt-5.6-'' of
        Some ending \<Rightarrow> if ending = ''max'' \<or> isKnownCodexModelSuffix ending then ''gpt-5.6-sol'' else []
      | None \<Rightarrow> (case find (\<lambda>(marker, target). contains normalized marker) known_model_rules of
          Some (marker, target) \<Rightarrow> target
        | None \<Rightarrow> []))"

definition normalizeKnownOpenAICodexModel :: "(string \<Rightarrow> string) \<Rightarrow> string \<Rightarrow> string" where
  "normalizeKnownOpenAICodexModel lower model =
     (let normalized = canonicalizeOpenAIModelAliasSpelling lower model in
      if normalized = [] then []
      else
        let mapped = getNormalizedCodexModel lower normalized;
            compact = (if ends_with normalized ''-openai-compact''
              then getNormalizedCodexModel lower (trim_suffix normalized ''-openai-compact'') else [])
        in if mapped \<noteq> [] then mapped else if compact \<noteq> [] then compact else switch_known_model normalized)"

definition isOpenAIGPT56Model :: "(string \<Rightarrow> string) \<Rightarrow> string \<Rightarrow> bool" where
  "isOpenAIGPT56Model lower model \<longleftrightarrow>
     (let normalized = canonicalizeOpenAIModelAliasSpelling lower model in
      normalized = ''gpt-5.6'' \<or>
      (case cut_prefix normalized ''gpt-5.6-'' of
         None \<Rightarrow> False
       | Some ending \<Rightarrow> ending = ''max'' \<or> isKnownCodexModelSuffix ending) \<or>
      list_ex (\<lambda>start. normalized = start \<or> starts_with normalized (start @ ''-''))
        [''gpt-5.6-sol'', ''gpt-5.6-terra'', ''gpt-5.6-luna''])"

section \<open>Grok models\<close>

definition strip_provider :: "string \<Rightarrow> string list \<Rightarrow> string \<Rightarrow> string option" where
  "strip_provider text starts probe = map_option (\<lambda>p. drop (length p) text) (find (starts_with probe) starts)"

definition grok_providers :: "string list" where
  "grok_providers = [''xai/'', ''x-ai/'', ''grok/'']"

definition StripGrokProviderPrefix :: "(string \<Rightarrow> string) \<Rightarrow> string \<Rightarrow> string" where
  "StripGrokProviderPrefix lower model =
     (let trimmed = trim_space model in
      case strip_provider trimmed grok_providers (lower trimmed) of None \<Rightarrow> trimmed | Some rest \<Rightarrow> trim_space rest)"

definition isGrokMediaFamilyModel :: "string \<Rightarrow> bool" where
  "isGrokMediaFamilyModel native \<longleftrightarrow>
     list_ex (contains native) [''imagine'', ''image'', ''video'', ''audio'', ''speech'', ''tts'', ''transcribe'', ''realtime'']"

definition isGrokUnknownTextFamilyModel :: "(string \<Rightarrow> string) \<Rightarrow> string \<Rightarrow> bool" where
  "isGrokUnknownTextFamilyModel lower model \<longleftrightarrow>
     (let native = lower (trim_space (StripGrokProviderPrefix lower model)) in
      if isGrokMediaFamilyModel native then False
      else if native = ''grok'' \<or> native = ''grok-latest'' then True
      else if starts_with native ''grok-build'' \<or> starts_with native ''grok-composer'' \<or> starts_with native ''composer-'' then True
      else if 5 < length native \<and> starts_with native ''grok-'' then is_digit (native ! 5)
      else False)"

abbreviation "DefaultImagineVideoModel \<equiv> ''grok-imagine-video''"
abbreviation "DefaultImagineVideo15Model \<equiv> ''grok-imagine-video-1.5-preview''"
abbreviation "VideoPriceFamilyGrokImagineVideo \<equiv> ''grok-imagine-video''"
abbreviation "VideoPriceFamilyGrokImagineVideo15 \<equiv> ''grok-imagine-video-1.5''"

definition CanonicalImagineVideoModel :: "(string \<Rightarrow> string) \<Rightarrow> string \<Rightarrow> string" where
  "CanonicalImagineVideoModel lower model =
     (let m = lower (StripGrokProviderPrefix lower model) in
      if m = [] \<or> m = DefaultImagineVideoModel \<or> m = ''grok-imagine-video-preview'' then DefaultImagineVideoModel
      else if starts_with m ''grok-imagine-video-1.5'' \<or> m = ''grok-video-1.5'' then DefaultImagineVideo15Model
      else m)"

definition CanonicalGrokImagineVideoPriceFamily :: "(string \<Rightarrow> string) \<Rightarrow> string \<Rightarrow> string" where
  "CanonicalGrokImagineVideoPriceFamily lower model =
     (if model = [] then []
      else
        let c = CanonicalImagineVideoModel lower model in
        if c = DefaultImagineVideo15Model then VideoPriceFamilyGrokImagineVideo15
        else if c = DefaultImagineVideoModel then VideoPriceFamilyGrokImagineVideo
        else if c \<noteq> [] \<and> starts_with c ''grok-imagine-video-'' then c
        else
          let m = lower (trim_space model);
              m = (case strip_provider m grok_providers m of None \<Rightarrow> m | Some rest \<Rightarrow> rest)
          in if m = ''grok-imagine-video-1.5'' \<or> m = ''grok-imagine-video-1.5-preview'' \<or> m = ''grok-video-1.5'' \<or> contains m ''video-1.5''
             then VideoPriceFamilyGrokImagineVideo15
             else if m = ''grok-imagine-video'' \<or> m = ''grok-imagine-video-preview'' \<or> m = ''grok-video'' \<or> m = ''grok-video-latest''
             then VideoPriceFamilyGrokImagineVideo
             else [])"

section \<open>Resolutions and sizes\<close>

abbreviation "VideoBillingResolution480P \<equiv> ''480p''"
abbreviation "VideoBillingResolution720P \<equiv> ''720p''"
abbreviation "VideoBillingResolution1080P \<equiv> ''1080p''"

definition NormalizeVideoBillingDurationSecondsOrDefault :: "int \<Rightarrow> int" where
  "NormalizeVideoBillingDurationSecondsOrDefault durationSeconds =
     (if durationSeconds \<le> 0 then 8 else if durationSeconds < 1 then 1 else if 15 < durationSeconds then 15 else durationSeconds)"

definition LookupVideoBillingResolution :: "(string \<Rightarrow> string) \<Rightarrow> string \<Rightarrow> string option" where
  "LookupVideoBillingResolution lower resolution =
     (let r = lower (trim_space resolution) in
      if r \<in> set [''480'', ''480p'', ''sd''] then Some VideoBillingResolution480P
      else if r \<in> set [''720'', ''720p'', ''hd''] then Some VideoBillingResolution720P
      else if r \<in> set [''1080'', ''1080p'', ''full_hd'', ''full-hd'', ''fhd''] then Some VideoBillingResolution1080P
      else None)"

definition NormalizeVideoBillingResolutionOrDefault :: "(string \<Rightarrow> string) \<Rightarrow> string \<Rightarrow> string" where
  "NormalizeVideoBillingResolutionOrDefault lower resolution =
     (case LookupVideoBillingResolution lower resolution of Some normalized \<Rightarrow> normalized | None \<Rightarrow> VideoBillingResolution480P)"

abbreviation "ImageBillingSize1K \<equiv> ''1K''"
abbreviation "ImageBillingSize2K \<equiv> ''2K''"
abbreviation "ImageBillingSize4K \<equiv> ''4K''"

definition parseImageBillingDimensions :: "(string \<Rightarrow> string) \<Rightarrow> string \<Rightarrow> (int \<times> int) option" where
  "parseImageBillingDimensions lower imageSize =
     (case split_on CHR ''x'' (lower (trim_space imageSize)) of
        [w, h] \<Rightarrow>
          (case parse_int (trim_space w) of
             None \<Rightarrow> None
           | Some width \<Rightarrow>
               (case parse_int (trim_space h) of
                  None \<Rightarrow> None
                | Some height \<Rightarrow> if width \<le> 0 \<or> height \<le> 0 then None else Some (width, height)))
      | _ \<Rightarrow> None)"

definition ClassifyImageBillingTier :: "(string \<Rightarrow> string) \<Rightarrow> string \<Rightarrow> string option" where
  "ClassifyImageBillingTier lower imageSize =
     (let trimmed = trim_space imageSize; normalized = lower trimmed in
      if normalized = [] \<or> normalized = ''auto'' then None
      else if normalized = ''1k'' then Some ImageBillingSize1K
      else if normalized = ''2k'' then Some ImageBillingSize2K
      else if normalized = ''4k'' then Some ImageBillingSize4K
      else if normalized = ''2048x2048'' \<or> normalized = ''2048x1152'' then Some ImageBillingSize2K
      else if normalized = ''3840x2160'' \<or> normalized = ''2160x3840'' then Some ImageBillingSize4K
      else case parseImageBillingDimensions lower trimmed of
        None \<Rightarrow> None
      | Some (width, height) \<Rightarrow>
          let maxEdge = max width height in
          Some (if maxEdge \<le> 1024 then ImageBillingSize1K else if maxEdge \<le> 2048 then ImageBillingSize2K else ImageBillingSize4K))"

definition NormalizeImageBillingTierOrDefault :: "(string \<Rightarrow> string) \<Rightarrow> string \<Rightarrow> string" where
  "NormalizeImageBillingTierOrDefault lower imageSize =
     (case ClassifyImageBillingTier lower imageSize of Some tier \<Rightarrow> tier | None \<Rightarrow> ImageBillingSize2K)"

definition imageTierRank :: "string \<Rightarrow> nat" where
  "imageTierRank tier =
     (let t = to_upper (trim_space tier) in
      if t = ImageBillingSize1K then 1 else if t = ImageBillingSize2K then 2 else if t = ImageBillingSize4K then 3 else 0)"

end
