(* ===== verification/Price_Table.thy ===== *)
theory Price_Table
  imports Complex_Main Model_Names
begin

text \<open>
  The prices that are written in the code, for models that the catalog does not know:
  \<open>initFallbackPricing\<close>, \<open>getFallbackPricing\<close> and their helpers of service/billing_service.go. A
  price is a rational number (a float64 in the code).
\<close>

section \<open>Prices\<close>

record ModelPricing =
  mp_InputPricePerToken :: rat
  mp_InputPricePerTokenPriority :: rat
  mp_ImageInputPricePerToken :: rat
  mp_OutputPricePerToken :: rat
  mp_OutputPricePerTokenPriority :: rat
  mp_CacheCreationPricePerToken :: rat
  mp_CacheCreationPricePerTokenPriority :: rat
  mp_CacheCreationPriceExplicit :: bool
  mp_CacheReadPricePerToken :: rat
  mp_CacheReadPricePerTokenPriority :: rat
  mp_CacheCreation5mPrice :: rat
  mp_CacheCreation1hPrice :: rat
  mp_SupportsCacheBreakdown :: bool
  mp_LongContextInputThreshold :: int
  mp_LongContextThresholdInclusive :: bool
  mp_LongContextInputMultiplier :: rat
  mp_LongContextOutputMultiplier :: rat
  mp_ImageOutputPricePerToken :: rat
  mp_ImageOutputPriceExplicit :: bool

definition no_prices :: ModelPricing where
  "no_prices =
     \<lparr>mp_InputPricePerToken = 0, mp_InputPricePerTokenPriority = 0, mp_ImageInputPricePerToken = 0,
      mp_OutputPricePerToken = 0, mp_OutputPricePerTokenPriority = 0,
      mp_CacheCreationPricePerToken = 0, mp_CacheCreationPricePerTokenPriority = 0, mp_CacheCreationPriceExplicit = False,
      mp_CacheReadPricePerToken = 0, mp_CacheReadPricePerTokenPriority = 0, mp_CacheCreation5mPrice = 0,
      mp_CacheCreation1hPrice = 0, mp_SupportsCacheBreakdown = False, mp_LongContextInputThreshold = 0,
      mp_LongContextThresholdInclusive = False, mp_LongContextInputMultiplier = 0, mp_LongContextOutputMultiplier = 0,
      mp_ImageOutputPricePerToken = 0, mp_ImageOutputPriceExplicit = False\<rparr>"

text \<open>Prices of a token are written as dollars per million tokens.\<close>

definition per_million :: "rat \<Rightarrow> rat" where
  "per_million x = x / 1000000"

section \<open>The cards\<close>

definition opus_card :: ModelPricing where
  "opus_card = no_prices\<lparr>mp_InputPricePerToken := per_million 5, mp_OutputPricePerToken := per_million 25,
        mp_CacheCreationPricePerToken := per_million 6.25, mp_CacheReadPricePerToken := per_million 0.5,
        mp_SupportsCacheBreakdown := False\<rparr>"

definition gpt54_card :: ModelPricing where
  "gpt54_card = no_prices\<lparr>mp_InputPricePerToken := per_million 2.5, mp_InputPricePerTokenPriority := per_million 5,
        mp_OutputPricePerToken := per_million 15, mp_OutputPricePerTokenPriority := per_million 30,
        mp_CacheCreationPricePerToken := per_million 2.5, mp_CacheReadPricePerToken := per_million 0.25,
        mp_CacheReadPricePerTokenPriority := per_million 0.5, mp_SupportsCacheBreakdown := False,
        mp_LongContextInputThreshold := 272000, mp_LongContextInputMultiplier := 2, mp_LongContextOutputMultiplier := 3 / 2\<rparr>"

definition claude_cards :: "(string \<times> ModelPricing) list" where
  "claude_cards =
     [(''claude-opus-4.5'', opus_card),
      (''claude-sonnet-4'', no_prices\<lparr>mp_InputPricePerToken := per_million 3, mp_OutputPricePerToken := per_million 15,
        mp_CacheCreationPricePerToken := per_million 3.75, mp_CacheReadPricePerToken := per_million 0.3,
        mp_SupportsCacheBreakdown := False\<rparr>),
      (''claude-3-5-sonnet'', no_prices\<lparr>mp_InputPricePerToken := per_million 3, mp_OutputPricePerToken := per_million 15,
        mp_CacheCreationPricePerToken := per_million 3.75, mp_CacheReadPricePerToken := per_million 0.3,
        mp_SupportsCacheBreakdown := False\<rparr>),
      (''claude-3-5-haiku'', no_prices\<lparr>mp_InputPricePerToken := per_million 1, mp_OutputPricePerToken := per_million 5,
        mp_CacheCreationPricePerToken := per_million 1.25, mp_CacheReadPricePerToken := per_million 0.1,
        mp_SupportsCacheBreakdown := False\<rparr>),
      (''claude-3-opus'', no_prices\<lparr>mp_InputPricePerToken := per_million 15, mp_OutputPricePerToken := per_million 75,
        mp_CacheCreationPricePerToken := per_million 18.75, mp_CacheReadPricePerToken := per_million 1.5,
        mp_SupportsCacheBreakdown := False\<rparr>),
      (''claude-3-haiku'', no_prices\<lparr>mp_InputPricePerToken := per_million 0.25, mp_OutputPricePerToken := per_million 1.25,
        mp_CacheCreationPricePerToken := per_million 0.3, mp_CacheReadPricePerToken := per_million 0.03,
        mp_SupportsCacheBreakdown := False\<rparr>),
      (''claude-opus-4.6'', opus_card),
      (''claude-opus-4.7'', opus_card),
      (''claude-opus-4.8'', opus_card),
      (''claude-opus-5'', opus_card)]"

definition gemini_cards :: "(string \<times> ModelPricing) list" where
  "gemini_cards =
     [(''gemini-3.1-pro'', no_prices\<lparr>mp_InputPricePerToken := per_million 2, mp_OutputPricePerToken := per_million 12,
        mp_CacheCreationPricePerToken := per_million 2, mp_CacheReadPricePerToken := per_million 0.2,
        mp_SupportsCacheBreakdown := False\<rparr>),
      (''gemini-3.6-flash'', no_prices\<lparr>mp_InputPricePerToken := per_million 1.5, mp_OutputPricePerToken := per_million 7.5,
        mp_CacheReadPricePerToken := per_million 0.15, mp_SupportsCacheBreakdown := False\<rparr>)]"

definition gpt_cards :: "(string \<times> ModelPricing) list" where
  "gpt_cards =
     [(''gpt-5.4'', gpt54_card),
      (''gpt-5.5'', gpt54_card),
      (''gpt-5.5-pro'', gpt54_card),
      (''gpt-5.6-sol'', no_prices\<lparr>mp_InputPricePerToken := per_million 5, mp_InputPricePerTokenPriority := per_million 10,
        mp_OutputPricePerToken := per_million 30, mp_OutputPricePerTokenPriority := per_million 60,
        mp_CacheCreationPricePerToken := per_million 6.25, mp_CacheCreationPricePerTokenPriority := per_million 12.5,
        mp_CacheReadPricePerToken := per_million 0.5, mp_CacheReadPricePerTokenPriority := per_million 1,
        mp_LongContextInputThreshold := 272000, mp_LongContextInputMultiplier := 2, mp_LongContextOutputMultiplier := 3 / 2\<rparr>),
      (''gpt-5.6-terra'', no_prices\<lparr>mp_InputPricePerToken := per_million 2, mp_InputPricePerTokenPriority := per_million 4,
        mp_OutputPricePerToken := per_million 12, mp_OutputPricePerTokenPriority := per_million 24,
        mp_CacheCreationPricePerToken := per_million 2.5, mp_CacheCreationPricePerTokenPriority := per_million 5,
        mp_CacheReadPricePerToken := per_million 0.2, mp_CacheReadPricePerTokenPriority := per_million 0.4,
        mp_LongContextInputThreshold := 272000, mp_LongContextInputMultiplier := 2, mp_LongContextOutputMultiplier := 3 / 2\<rparr>),
      (''gpt-5.6-luna'', no_prices\<lparr>mp_InputPricePerToken := per_million 0.2, mp_InputPricePerTokenPriority := per_million 0.4,
        mp_OutputPricePerToken := per_million 1.2, mp_OutputPricePerTokenPriority := per_million 2.4,
        mp_CacheCreationPricePerToken := per_million 0.25, mp_CacheCreationPricePerTokenPriority := per_million 0.5,
        mp_CacheReadPricePerToken := per_million 0.02, mp_CacheReadPricePerTokenPriority := per_million 0.04,
        mp_LongContextInputThreshold := 272000, mp_LongContextInputMultiplier := 2, mp_LongContextOutputMultiplier := 3 / 2\<rparr>),
      (''gpt-5.4-mini'', no_prices\<lparr>mp_InputPricePerToken := per_million 0.75, mp_OutputPricePerToken := per_million 4.5,
        mp_CacheReadPricePerToken := per_million 0.075, mp_SupportsCacheBreakdown := False\<rparr>),
      (''gpt-5.4-nano'', no_prices\<lparr>mp_InputPricePerToken := per_million 0.2, mp_OutputPricePerToken := per_million 1.25,
        mp_CacheReadPricePerToken := per_million 0.02, mp_SupportsCacheBreakdown := False\<rparr>),
      (''gpt-5.2'', no_prices\<lparr>mp_InputPricePerToken := per_million 1.75, mp_InputPricePerTokenPriority := per_million 3.5,
        mp_OutputPricePerToken := per_million 14, mp_OutputPricePerTokenPriority := per_million 28,
        mp_CacheCreationPricePerToken := per_million 1.75, mp_CacheReadPricePerToken := per_million 0.175,
        mp_CacheReadPricePerTokenPriority := per_million 0.35, mp_SupportsCacheBreakdown := False\<rparr>),
      (''gpt-5.3-codex'', no_prices\<lparr>mp_InputPricePerToken := per_million 1.5, mp_InputPricePerTokenPriority := per_million 3,
        mp_OutputPricePerToken := per_million 12, mp_OutputPricePerTokenPriority := per_million 24,
        mp_CacheCreationPricePerToken := per_million 1.5, mp_CacheReadPricePerToken := per_million 0.15,
        mp_CacheReadPricePerTokenPriority := per_million 0.3, mp_SupportsCacheBreakdown := False\<rparr>)]"

definition deepseek_cards :: "(string \<times> ModelPricing) list" where
  "deepseek_cards =
     [(''deepseek-v4-pro'', no_prices\<lparr>mp_InputPricePerToken := per_million 0.435, mp_OutputPricePerToken := per_million 0.87,
        mp_CacheReadPricePerToken := per_million 0.003625, mp_SupportsCacheBreakdown := False\<rparr>),
      (''deepseek-v4-flash'', no_prices\<lparr>mp_InputPricePerToken := per_million 0.14, mp_OutputPricePerToken := per_million 0.28,
        mp_CacheReadPricePerToken := per_million 0.0028, mp_SupportsCacheBreakdown := False\<rparr>)]"

definition glm_cards :: "(string \<times> ModelPricing) list" where
  "glm_cards =
     [(''glm-5.2'', no_prices\<lparr>mp_InputPricePerToken := per_million 1.4, mp_OutputPricePerToken := per_million 4.4,
        mp_CacheReadPricePerToken := per_million 0.26, mp_SupportsCacheBreakdown := False\<rparr>),
      (''glm-5.1'', no_prices\<lparr>mp_InputPricePerToken := per_million 1.4, mp_OutputPricePerToken := per_million 4.4,
        mp_CacheReadPricePerToken := per_million 0.26, mp_SupportsCacheBreakdown := False\<rparr>),
      (''glm-5'', no_prices\<lparr>mp_InputPricePerToken := per_million 1, mp_OutputPricePerToken := per_million 3.2,
        mp_CacheReadPricePerToken := per_million 0.2, mp_SupportsCacheBreakdown := False\<rparr>),
      (''glm-5-turbo'', no_prices\<lparr>mp_InputPricePerToken := per_million 1.2, mp_OutputPricePerToken := per_million 4,
        mp_CacheReadPricePerToken := per_million 0.24, mp_SupportsCacheBreakdown := False\<rparr>),
      (''glm-4.7'', no_prices\<lparr>mp_InputPricePerToken := per_million 0.6, mp_OutputPricePerToken := per_million 2.2,
        mp_CacheReadPricePerToken := per_million 0.11, mp_SupportsCacheBreakdown := False\<rparr>),
      (''glm-4.7-flashx'', no_prices\<lparr>mp_InputPricePerToken := per_million 0.07, mp_OutputPricePerToken := per_million 0.4,
        mp_CacheReadPricePerToken := per_million 0.01, mp_SupportsCacheBreakdown := False\<rparr>),
      (''glm-4.6'', no_prices\<lparr>mp_InputPricePerToken := per_million 0.6, mp_OutputPricePerToken := per_million 2.2,
        mp_CacheReadPricePerToken := per_million 0.11, mp_SupportsCacheBreakdown := False\<rparr>),
      (''glm-4.5'', no_prices\<lparr>mp_InputPricePerToken := per_million 0.6, mp_OutputPricePerToken := per_million 2.2,
        mp_CacheReadPricePerToken := per_million 0.11, mp_SupportsCacheBreakdown := False\<rparr>),
      (''glm-4.5-x'', no_prices\<lparr>mp_InputPricePerToken := per_million 2.2, mp_OutputPricePerToken := per_million 8.9,
        mp_CacheReadPricePerToken := per_million 0.45, mp_SupportsCacheBreakdown := False\<rparr>),
      (''glm-4.5-air'', no_prices\<lparr>mp_InputPricePerToken := per_million 0.2, mp_OutputPricePerToken := per_million 1.1,
        mp_CacheReadPricePerToken := per_million 0.03, mp_SupportsCacheBreakdown := False\<rparr>),
      (''glm-4.5-airx'', no_prices\<lparr>mp_InputPricePerToken := per_million 1.1, mp_OutputPricePerToken := per_million 4.5,
        mp_CacheReadPricePerToken := per_million 0.22, mp_SupportsCacheBreakdown := False\<rparr>),
      (''glm-4-32b-0414-128k'', no_prices\<lparr>mp_InputPricePerToken := per_million 0.1, mp_OutputPricePerToken := per_million 0.1,
        mp_SupportsCacheBreakdown := False\<rparr>),
      (''glm-4.5-flash'', no_prices\<lparr>mp_InputPricePerToken := 0, mp_OutputPricePerToken := 0, mp_SupportsCacheBreakdown := False\<rparr>),
      (''glm-4.7-flash'', no_prices\<lparr>mp_InputPricePerToken := 0, mp_OutputPricePerToken := 0, mp_SupportsCacheBreakdown := False\<rparr>)]"

definition kimi_cards :: "(string \<times> ModelPricing) list" where
  "kimi_cards =
     [(''kimi-k3'', no_prices\<lparr>mp_InputPricePerToken := per_million 3, mp_OutputPricePerToken := per_million 15,
        mp_CacheReadPricePerToken := per_million 0.3, mp_SupportsCacheBreakdown := False\<rparr>),
      (''kimi-k2.6'', no_prices\<lparr>mp_InputPricePerToken := per_million 0.95, mp_OutputPricePerToken := per_million 4,
        mp_CacheReadPricePerToken := per_million 0.15, mp_SupportsCacheBreakdown := False\<rparr>),
      (''kimi-for-coding'', no_prices\<lparr>mp_InputPricePerToken := per_million 0.95, mp_OutputPricePerToken := per_million 4,
        mp_CacheReadPricePerToken := per_million 0.15, mp_SupportsCacheBreakdown := False\<rparr>),
      (''kimi-k2.5'', no_prices\<lparr>mp_InputPricePerToken := per_million 0.6, mp_OutputPricePerToken := per_million 3,
        mp_CacheReadPricePerToken := per_million 0.098, mp_SupportsCacheBreakdown := False\<rparr>),
      (''kimi-k2-thinking'', no_prices\<lparr>mp_InputPricePerToken := per_million 0.56, mp_OutputPricePerToken := per_million 2.24,
        mp_CacheReadPricePerToken := per_million 0.14, mp_SupportsCacheBreakdown := False\<rparr>),
      (''kimi-k2'', no_prices\<lparr>mp_InputPricePerToken := per_million 0.56, mp_OutputPricePerToken := per_million 2.24,
        mp_CacheReadPricePerToken := per_million 0.14, mp_SupportsCacheBreakdown := False\<rparr>)]"

definition minimax_cards :: "(string \<times> ModelPricing) list" where
  "minimax_cards =
     [(''minimax-m3'', no_prices\<lparr>mp_InputPricePerToken := per_million 0.6, mp_OutputPricePerToken := per_million 2.4,
        mp_CacheReadPricePerToken := per_million 0.12, mp_SupportsCacheBreakdown := False\<rparr>),
      (''minimax-m2.7'', no_prices\<lparr>mp_InputPricePerToken := per_million 0.3, mp_OutputPricePerToken := per_million 1.2,
        mp_CacheReadPricePerToken := per_million 0.06, mp_SupportsCacheBreakdown := False\<rparr>),
      (''minimax-m2.7-highspeed'', no_prices\<lparr>mp_InputPricePerToken := per_million 0.6, mp_OutputPricePerToken := per_million 2.4,
        mp_CacheReadPricePerToken := per_million 0.06, mp_SupportsCacheBreakdown := False\<rparr>),
      (''minimax-m2.5'', no_prices\<lparr>mp_InputPricePerToken := per_million 0.3, mp_OutputPricePerToken := per_million 1.2,
        mp_CacheReadPricePerToken := per_million 0.03, mp_SupportsCacheBreakdown := False\<rparr>),
      (''minimax-m2.1'', no_prices\<lparr>mp_InputPricePerToken := per_million 0.3, mp_OutputPricePerToken := per_million 1.2,
        mp_CacheReadPricePerToken := per_million 0.03, mp_SupportsCacheBreakdown := False\<rparr>),
      (''minimax-m2'', no_prices\<lparr>mp_InputPricePerToken := per_million 0.3, mp_OutputPricePerToken := per_million 1.2,
        mp_CacheReadPricePerToken := per_million 0.03, mp_SupportsCacheBreakdown := False\<rparr>)]"

definition doubao_cards :: "(string \<times> ModelPricing) list" where
  "doubao_cards =
     [(''doubao-embedding-vision'', no_prices\<lparr>mp_InputPricePerToken := per_million 0.098, mp_ImageInputPricePerToken := per_million 0.252,
        mp_OutputPricePerToken := 0, mp_SupportsCacheBreakdown := False\<rparr>)]"

definition grok_prices :: "(string \<times> ModelPricing) list" where
  "grok_prices =
     [(''grok-4.5'', no_prices\<lparr>mp_InputPricePerToken := per_million 2, mp_OutputPricePerToken := per_million 6,
        mp_CacheReadPricePerToken := per_million 0.3, mp_SupportsCacheBreakdown := False,
        mp_LongContextInputThreshold := 200000, mp_LongContextThresholdInclusive := True, mp_LongContextInputMultiplier := 2,
        mp_LongContextOutputMultiplier := 2\<rparr>),
      (''grok-4.6'', no_prices\<lparr>mp_InputPricePerToken := per_million 2, mp_OutputPricePerToken := per_million 6,
        mp_CacheReadPricePerToken := per_million 0.5, mp_SupportsCacheBreakdown := False,
        mp_LongContextInputThreshold := 200000, mp_LongContextThresholdInclusive := True, mp_LongContextInputMultiplier := 2,
        mp_LongContextOutputMultiplier := 2\<rparr>),
      (''grok-4.3'', no_prices\<lparr>mp_InputPricePerToken := per_million 1.25, mp_OutputPricePerToken := per_million 2.5,
        mp_CacheReadPricePerToken := per_million 0.2, mp_SupportsCacheBreakdown := False,
        mp_LongContextInputThreshold := 200000, mp_LongContextThresholdInclusive := True, mp_LongContextInputMultiplier := 2,
        mp_LongContextOutputMultiplier := 2\<rparr>),
      (''grok-build-0.1'', no_prices\<lparr>mp_InputPricePerToken := per_million 1, mp_OutputPricePerToken := per_million 2,
        mp_CacheReadPricePerToken := per_million 0.2, mp_SupportsCacheBreakdown := False,
        mp_LongContextInputThreshold := 200000, mp_LongContextThresholdInclusive := True, mp_LongContextInputMultiplier := 2,
        mp_LongContextOutputMultiplier := 2\<rparr>)]"

definition initFallbackPricing :: "(string \<times> ModelPricing) list" where
  "initFallbackPricing =
     claude_cards @ gemini_cards @ gpt_cards @ deepseek_cards @ glm_cards @ kimi_cards @ minimax_cards @ doubao_cards @ grok_prices"

section \<open>Which card a model has\<close>

definition contains_any :: "string \<Rightarrow> string list \<Rightarrow> bool" where
  "contains_any m markers \<longleftrightarrow> list_ex (contains m) markers"

definition claude_key :: "string \<Rightarrow> string option" where
  "claude_key m =
     (if contains m ''opus''
      then Some (if contains_any m [''opus-5'', ''opus5''] then ''claude-opus-5''
        else if contains_any m [''4.8'', ''4-8''] then ''claude-opus-4.8''
        else if contains_any m [''4.7'', ''4-7''] then ''claude-opus-4.7''
        else if contains_any m [''4.6'', ''4-6''] then ''claude-opus-4.6''
        else if contains_any m [''4.5'', ''4-5''] then ''claude-opus-4.5''
        else ''claude-3-opus'')
      else if contains m ''sonnet''
      then Some (if contains m ''4'' \<and> \<not> contains m ''3'' then ''claude-sonnet-4'' else ''claude-3-5-sonnet'')
      else if contains m ''haiku''
      then Some (if contains_any m [''3-5'', ''3.5''] then ''claude-3-5-haiku'' else ''claude-3-haiku'')
      else if contains m ''claude'' then Some ''claude-sonnet-4''
      else None)"

text \<open>The chain of tests after Claude's, in order, each with its card.\<close>

definition family_rules :: "string \<Rightarrow> (bool \<times> string) list" where
  "family_rules m =
     [(contains_any m [''gemini-3.1-pro'', ''gemini-3-1-pro''], ''gemini-3.1-pro''),
      (contains_any m [''gemini-3.6-flash'', ''gemini-3-6-flash''], ''gemini-3.6-flash''),
      (contains m ''deepseek-v4-flash'', ''deepseek-v4-flash''),
      (contains m ''deepseek-v4-pro'', ''deepseek-v4-pro''),
      (contains_any m [''deepseek-chat'', ''deepseek-reasoner''], ''deepseek-v4-flash''),
      (contains m ''glm-5.2'', ''glm-5.2''),
      (contains m ''glm-5.1'', ''glm-5.1''),
      (contains_any m [''glm-5-turbo'', ''glm-5turbo''], ''glm-5-turbo''),
      (contains m ''glm-5'', ''glm-5''),
      (contains m ''glm-4.7-flashx'', ''glm-4.7-flashx''),
      (contains m ''glm-4.7-flash'', ''glm-4.7-flash''),
      (contains m ''glm-4.7'', ''glm-4.7''),
      (contains m ''glm-4.6'', ''glm-4.6''),
      (contains m ''glm-4.5-flash'', ''glm-4.5-flash''),
      (contains_any m [''glm-4.5-x'', ''glm-4.5x''], ''glm-4.5-x''),
      (contains_any m [''glm-4.5-airx'', ''glm-4.5airx''], ''glm-4.5-airx''),
      (contains_any m [''glm-4.5-air'', ''glm-4.5air''], ''glm-4.5-air''),
      (contains m ''glm-4.5'', ''glm-4.5''),
      (contains m ''glm-4-32b'', ''glm-4-32b-0414-128k''),
      (contains m ''kimi-for-coding'', ''kimi-for-coding''),
      (m = ''kimi-k3'' \<or> ends_with m ''/kimi-k3'' \<or> m = ''k3'' \<or> m = ''k3-256k'' \<or> ends_with m ''/k3'' \<or> ends_with m ''/k3-256k'', ''kimi-k3''),
      (contains_any m [''kimi-k2.6'', ''kimi-k2-6''], ''kimi-k2.6''),
      (contains_any m [''kimi-k2.5'', ''kimi-k2-5''], ''kimi-k2.5''),
      (contains_any m [''kimi-k2-thinking'', ''kimi-k2-thinking-''], ''kimi-k2-thinking''),
      (contains_any m [''kimi-k2'', ''kimi/k2''], ''kimi-k2''),
      (contains m ''minimax-m3'', ''minimax-m3''),
      (contains_any m [''minimax-m2.7-highspeed'', ''minimax-m2-7-highspeed''], ''minimax-m2.7-highspeed''),
      (contains_any m [''minimax-m2.7'', ''minimax-m2-7''], ''minimax-m2.7''),
      (contains_any m [''minimax-m2.5'', ''minimax-m2-5''], ''minimax-m2.5''),
      (contains_any m [''minimax-m2.1'', ''minimax-m2-1''], ''minimax-m2.1''),
      (contains_any m [''minimax-m2'', ''minimax-m-2''], ''minimax-m2''),
      (contains m ''doubao-embedding-vision'', ''doubao-embedding-vision'')]"

definition openai_keys :: "(string \<times> string) list" where
  "openai_keys =
     [(''gpt-5.6-sol'', ''gpt-5.6-sol''), (''gpt-5.6-terra'', ''gpt-5.6-terra''), (''gpt-5.6-luna'', ''gpt-5.6-luna''),
      (''gpt-5.5-pro'', ''gpt-5.5-pro''), (''gpt-5.5'', ''gpt-5.5''), (''gpt-5.4-mini'', ''gpt-5.4-mini''),
      (''gpt-5.4-nano'', ''gpt-5.4-nano''), (''gpt-5.4'', ''gpt-5.4''), (''gpt-5.2'', ''gpt-5.2''),
      (''gpt-5.3-codex'', ''gpt-5.3-codex''), (''gpt-5.3-codex-spark'', ''gpt-5.3-codex'')]"

definition grok_keys :: "(string \<times> string) list" where
  "grok_keys =
     [(''grok'', ''grok-4.5''), (''grok-latest'', ''grok-4.5''), (''grok-4.5'', ''grok-4.5''), (''grok-4.5-latest'', ''grok-4.5''),
      (''grok-4.6'', ''grok-4.6''), (''grok-4.6-latest'', ''grok-4.6''),
      (''grok-4.3'', ''grok-4.3''), (''grok-4.20-0309-reasoning'', ''grok-4.3''), (''grok-4.20-0309-non-reasoning'', ''grok-4.3''),
      (''grok-4.20-multi-agent-0309'', ''grok-4.3''), (''grok-4.20-reasoning'', ''grok-4.3''), (''grok-4.20-non-reasoning'', ''grok-4.3''),
      (''grok-build'', ''grok-build-0.1''), (''grok-build-latest'', ''grok-build-0.1''), (''grok-build-0.1'', ''grok-build-0.1''),
      (''grok-composer'', ''grok-build-0.1''), (''grok-composer-2.5-fast'', ''grok-build-0.1''), (''composer-2.5'', ''grok-build-0.1'')]"

definition grokUnknownTextFamilyFallback :: "(string \<Rightarrow> string) \<Rightarrow> string \<Rightarrow> string option" where
  "grokUnknownTextFamilyFallback lower model = (if isGrokUnknownTextFamilyModel lower model then Some ''grok-4.5'' else None)"

definition fallback_key :: "(string \<Rightarrow> string) \<Rightarrow> string \<Rightarrow> string option" where
  "fallback_key lower model =
     (let m = lower model in
      case claude_key m of
        Some key \<Rightarrow> Some key
      | None \<Rightarrow>
          (case find fst (family_rules m) of
             Some (_, key) \<Rightarrow> Some key
           | None \<Rightarrow>
               (case map_of openai_keys (normalizeKnownOpenAICodexModel lower m) of
                  Some key \<Rightarrow> Some key
                | None \<Rightarrow>
                    (case map_of grok_keys m of
                       Some key \<Rightarrow> Some key
                     | None \<Rightarrow> grokUnknownTextFamilyFallback lower m))))"

text \<open>A key that the map misses answers nil, which is no price.\<close>

definition getFallbackPricing :: "(string \<Rightarrow> string) \<Rightarrow> string \<Rightarrow> ModelPricing option" where
  "getFallbackPricing lower model = Option.bind (fallback_key lower model) (map_of initFallbackPricing)"

end
