(* ===== verification/Price_Catalog.thy ===== *)
theory Price_Catalog
  imports Price_Table
begin

text \<open>
  The catalog of prices (service/pricing_service.go): how an entry of the file is read, and how the
  entry of a model is found. encoding/json is not modelled: the data is given entry by entry,
  \<open>None\<close> for one that does not decode.
\<close>

section \<open>Entries\<close>

text \<open>The fields that prices are made of; the others are passed to the web interface.\<close>

record LiteLLMModelPricing =
  ll_InputCostPerToken :: rat
  ll_InputCostPerTokenPriority :: rat
  ll_OutputCostPerToken :: rat
  ll_OutputCostPerTokenPriority :: rat
  ll_CacheCreationInputTokenCost :: rat
  ll_CacheCreationInputTokenCostPriority :: rat
  ll_CacheCreationInputTokenCostAbove1hr :: rat
  ll_CacheReadInputTokenCost :: rat
  ll_CacheReadInputTokenCostPriority :: rat
  ll_LongContextInputTokenThreshold :: int
  ll_LongContextInputCostMultiplier :: rat
  ll_LongContextOutputCostMultiplier :: rat
  ll_OutputCostPerImageToken :: rat
  ll_InputCostPerImageToken :: rat
  ll_OutputCostPerImage :: rat
  ll_TokenPricingAbsent :: bool

definition no_catalog_prices :: LiteLLMModelPricing where
  "no_catalog_prices =
     \<lparr>ll_InputCostPerToken = 0, ll_InputCostPerTokenPriority = 0, ll_OutputCostPerToken = 0,
      ll_OutputCostPerTokenPriority = 0, ll_CacheCreationInputTokenCost = 0, ll_CacheCreationInputTokenCostPriority = 0,
      ll_CacheCreationInputTokenCostAbove1hr = 0, ll_CacheReadInputTokenCost = 0, ll_CacheReadInputTokenCostPriority = 0,
      ll_LongContextInputTokenThreshold = 0, ll_LongContextInputCostMultiplier = 0, ll_LongContextOutputCostMultiplier =
      0, ll_OutputCostPerImageToken = 0, ll_InputCostPerImageToken = 0, ll_OutputCostPerImage = 0, ll_TokenPricingAbsent
      = False\<rparr>"

record LiteLLMRawEntry =
  le_InputCostPerToken :: "rat option"
  le_InputCostPerTokenPriority :: "rat option"
  le_OutputCostPerToken :: "rat option"
  le_OutputCostPerTokenPriority :: "rat option"
  le_CacheCreationInputTokenCost :: "rat option"
  le_CacheCreationInputTokenCostPriority :: "rat option"
  le_CacheCreationInputTokenCostAbove1hr :: "rat option"
  le_CacheReadInputTokenCost :: "rat option"
  le_CacheReadInputTokenCostPriority :: "rat option"
  le_LongContextInputTokenThreshold :: "int option"
  le_LongContextInputCostMultiplier :: "rat option"
  le_LongContextOutputCostMultiplier :: "rat option"
  le_OutputCostPerImageToken :: "rat option"
  le_InputCostPerImageToken :: "rat option"
  le_OutputCostPerImage :: "rat option"

definition or_zero :: "'a::zero option \<Rightarrow> 'a" where
  "or_zero v = (case v of None \<Rightarrow> 0 | Some x \<Rightarrow> x)"

text \<open>An entry without a price is dropped.\<close>

definition catalog_entry :: "LiteLLMRawEntry \<Rightarrow> LiteLLMModelPricing option" where
  "catalog_entry entry =
     (if le_InputCostPerToken entry = None \<and> le_OutputCostPerToken entry = None \<and> le_OutputCostPerImage entry = None \<and>
         le_OutputCostPerImageToken entry = None \<and> le_InputCostPerImageToken entry = None then None
      else Some
        \<lparr>ll_InputCostPerToken = or_zero (le_InputCostPerToken entry), ll_InputCostPerTokenPriority = or_zero
         (le_InputCostPerTokenPriority entry), ll_OutputCostPerToken = or_zero (le_OutputCostPerToken entry),
         ll_OutputCostPerTokenPriority = or_zero (le_OutputCostPerTokenPriority entry), ll_CacheCreationInputTokenCost =
         or_zero (le_CacheCreationInputTokenCost entry), ll_CacheCreationInputTokenCostPriority = or_zero
         (le_CacheCreationInputTokenCostPriority entry), ll_CacheCreationInputTokenCostAbove1hr = or_zero
         (le_CacheCreationInputTokenCostAbove1hr entry), ll_CacheReadInputTokenCost = or_zero (le_CacheReadInputTokenCost
         entry), ll_CacheReadInputTokenCostPriority = or_zero (le_CacheReadInputTokenCostPriority entry),
         ll_LongContextInputTokenThreshold = or_zero (le_LongContextInputTokenThreshold entry),
         ll_LongContextInputCostMultiplier = or_zero (le_LongContextInputCostMultiplier entry),
         ll_LongContextOutputCostMultiplier = or_zero (le_LongContextOutputCostMultiplier entry), ll_OutputCostPerImageToken
         = or_zero (le_OutputCostPerImageToken entry), ll_InputCostPerImageToken = or_zero (le_InputCostPerImageToken
         entry), ll_OutputCostPerImage = or_zero (le_OutputCostPerImage entry), ll_TokenPricingAbsent = le_InputCostPerToken
         entry = None \<and> le_OutputCostPerToken entry = None\<rparr>)"

text \<open>\<open>rawData\<close> is a map, so the order of its entries has no effect. \<open>None\<close> is the error of an empty catalog.\<close>

definition parsePricingData :: "(string \<times> LiteLLMRawEntry option) list \<Rightarrow> (string, LiteLLMModelPricing) gomap option" where
  "parsePricingData rawData =
     (let result = foldl (\<lambda>m (modelName, rawEntry).
            if modelName = ''sample_spec'' then m
            else case Option.bind rawEntry catalog_entry of None \<Rightarrow> m | Some pricing \<Rightarrow> gput m modelName pricing) [] rawData
      in if result = [] then None else Some result)"

section \<open>Names\<close>

text \<open>What follows the last occurrence of a string that is not empty.\<close>

fun after_last :: "string \<Rightarrow> string \<Rightarrow> string option" where
  "after_last sub [] = None"
| "after_last sub (c # s) = (case after_last sub s of Some r \<Rightarrow> Some r | None \<Rightarrow> cut_prefix (c # s) sub)"

definition trim_prefix :: "string \<Rightarrow> string \<Rightarrow> string" where
  "trim_prefix s p = (case cut_prefix s p of None \<Rightarrow> s | Some r \<Rightarrow> r)"

definition lastSegment :: "string \<Rightarrow> string" where
  "lastSegment model = (case after_last ''/'' model of None \<Rightarrow> model | Some r \<Rightarrow> r)"

definition normalizeGeminiThinkingTierAlias :: "string \<Rightarrow> string" where
  "normalizeGeminiThinkingTierAlias model =
     (if model \<in> set (map (\<lambda>tier. ''gemini-3.6-flash'' @ tier) [''-high'', ''-low'', ''-medium'', ''-tiered'']) then ''gemini-3.6-flash''
      else model)"

definition normalizeModelNameForPricing :: "(string \<Rightarrow> string) \<Rightarrow> string \<Rightarrow> string" where
  "normalizeModelNameForPricing lower model =
     (let model = dropWhile ((=) CHR ''/'') (trim_space model);
          model = trim_prefix (trim_prefix model ''models/'') ''publishers/google/models/'';
          model = (case after_last ''/publishers/google/models/'' model of None \<Rightarrow> model | Some r \<Rightarrow> r);
          model = (case after_last ''/models/'' model of None \<Rightarrow> model | Some r \<Rightarrow> r);
          model = dropWhile ((=) CHR ''/'') model;
          canonical = canonicalizeOpenAIModelAliasSpelling lower model
      in if canonical = [] then normalizeGeminiThinkingTierAlias model
         else if canonical = ''gpt-5.6'' then ''gpt-5.6-sol''
         else case cut_prefix canonical ''gpt-5.6-'' of
           Some ending \<Rightarrow> if ending = ''max'' \<or> isKnownCodexModelSuffix ending then ''gpt-5.6-sol'' else canonical
         | None \<Rightarrow> canonical)"

definition buildModelLookupCandidates :: "(string \<Rightarrow> string) \<Rightarrow> string \<Rightarrow> string list" where
  "buildModelLookupCandidates lower modelLower =
     (let raw = [modelLower, trim_prefix modelLower ''models/'', lastSegment modelLower, lastSegment (trim_prefix modelLower ''models/'')];
          normalized = normalizeModelNameForPricing lower modelLower;
          candidates = (if normalizeGeminiThinkingTierAlias (lastSegment modelLower) \<noteq> lastSegment modelLower
            then raw @ [normalized] else normalized # raw);
          out = foldl (\<lambda>out c. let c = trim_space c in if c = [] \<or> c \<in> set out then out else out @ [c]) [] candidates
      in if out = [] then [modelLower] else out)"

definition isNumeric :: "string \<Rightarrow> bool" where
  "isNumeric s = list_all is_digit s"

definition extractBaseName :: "string \<Rightarrow> string" where
  "extractBaseName model =
     join ''-'' (filter (\<lambda>part. \<not> (length part = 8 \<and> isNumeric part) \<and> \<not> contains part '':'') (split_on CHR ''-'' model))"

section \<open>The search\<close>

text \<open>
  \<open>orders k\<close> is the order in which the k-th loop over the map of a call meets its keys: first the one that
  compares base names, then one for each pattern of a family.
\<close>

type_synonym catalog = "(string, LiteLLMModelPricing) gomap"

definition lookupIdentifiedModelPricingLocked ::
  "(string \<Rightarrow> string) \<Rightarrow> (nat \<Rightarrow> string list) \<Rightarrow> catalog \<Rightarrow> string list \<Rightarrow> LiteLLMModelPricing option" where
  "lookupIdentifiedModelPricingLocked lower orders data candidates =
     (if candidates = [] then None
      else case find (\<lambda>c. c \<noteq> [] \<and> gget data c \<noteq> None) candidates of
        Some c \<Rightarrow> gget data c
      | None \<Rightarrow>
          (case find (\<lambda>c. gget data (replace_all ''-4-5-'' ''-4.5-'' c) \<noteq> None) candidates of
             Some c \<Rightarrow> gget data (replace_all ''-4-5-'' ''-4.5-'' c)
           | None \<Rightarrow>
               (case find (\<lambda>key. extractBaseName (lower key) = extractBaseName (hd candidates)) (orders 0) of
                  Some key \<Rightarrow> gget data key
                | None \<Rightarrow> None)))"

text \<open>A family: its name, how a model is recognised, and where its price is looked up if not there.\<close>

definition families :: "(string \<times> string list \<times> string list option) list" where
  "families =
     [(''opus-5'', [''claude-opus-5''], Some [''claude-opus-5'', ''claude-opus-4-8'']),
      (''opus-4.8'', [''claude-opus-4-8'', ''claude-opus-4.8''], Some [''claude-opus-4-8'', ''claude-opus-4.8'', ''claude-opus-4-7'']),
      (''opus-4.7'', [''claude-opus-4-7'', ''claude-opus-4.7''], Some [''claude-opus-4-7'', ''claude-opus-4.7'', ''claude-opus-4-6'']),
      (''opus-4.6'', [''claude-opus-4-6'', ''claude-opus-4.6''], None),
      (''opus-4.5'', [''claude-opus-4-5'', ''claude-opus-4.5''], None),
      (''opus-4'', [''claude-opus-4'', ''claude-3-opus''], None),
      (''sonnet-4.5'', [''claude-sonnet-4-5'', ''claude-sonnet-4.5''], None),
      (''sonnet-4'', [''claude-sonnet-4'', ''claude-3-5-sonnet''], None),
      (''sonnet-3.5'', [''claude-3-5-sonnet'', ''claude-3.5-sonnet''], None),
      (''sonnet-3'', [''claude-3-sonnet''], None),
      (''haiku-3.5'', [''claude-3-5-haiku'', ''claude-3.5-haiku''], None),
      (''haiku-3'', [''claude-3-haiku''], None)]"

definition family_of_keywords :: "string \<Rightarrow> string" where
  "family_of_keywords model =
     (if contains model ''opus''
      then (if contains_any model [''opus-5'', ''opus5''] then ''opus-5''
        else if contains_any model [''4.8'', ''4-8''] then ''opus-4.8''
        else if contains_any model [''4.7'', ''4-7''] then ''opus-4.7''
        else if contains_any model [''4.6'', ''4-6''] then ''opus-4.6''
        else if contains_any model [''4.5'', ''4-5''] then ''opus-4.5''
        else ''opus-4'')
      else if contains model ''sonnet''
      then (if contains_any model [''4.5'', ''4-5''] then ''sonnet-4.5''
        else if contains_any model [''3-5'', ''3.5''] then ''sonnet-3.5'' else ''sonnet-4'')
      else if contains model ''haiku'' then (if contains_any model [''3-5'', ''3.5''] then ''haiku-3.5'' else ''haiku-3'')
      else [])"

definition family_of :: "string \<Rightarrow> (string \<times> string list \<times> string list option) option" where
  "family_of model =
     (case find (\<lambda>(name, match, pricing). list_ex (\<lambda>p. contains model p \<or> contains model (replace_all ''-'' [] p)) match) families of
        Some f \<Rightarrow> Some f
      | None \<Rightarrow>
          let name = family_of_keywords model in if name = [] then None else find (\<lambda>f. fst f = name) families)"

fun family_lookup :: "(string \<Rightarrow> string) \<Rightarrow> (nat \<Rightarrow> string list) \<Rightarrow> catalog \<Rightarrow> nat \<Rightarrow> string list \<Rightarrow> LiteLLMModelPricing option" where
  "family_lookup lower orders data k [] = None"
| "family_lookup lower orders data k (pattern # patterns) =
     (case find (\<lambda>key. contains (lower key) pattern) (orders k) of
        Some key \<Rightarrow> gget data key
      | None \<Rightarrow> family_lookup lower orders data (k + 1) patterns)"

definition matchByModelFamily :: "(string \<Rightarrow> string) \<Rightarrow> (nat \<Rightarrow> string list) \<Rightarrow> catalog \<Rightarrow> string \<Rightarrow> LiteLLMModelPricing option" where
  "matchByModelFamily lower orders data model =
     (case family_of model of
        None \<Rightarrow> None
      | Some (name, match, pricing) \<Rightarrow>
          family_lookup lower orders data 1 (case pricing of None \<Rightarrow> match | Some lookups \<Rightarrow> lookups))"

section \<open>OpenAI models\<close>

definition openAIGPT54FallbackPricing :: LiteLLMModelPricing where
  "openAIGPT54FallbackPricing = no_catalog_prices
     \<lparr>ll_InputCostPerToken := per_million 2.5, ll_OutputCostPerToken := per_million 15,
      ll_CacheReadInputTokenCost := per_million 0.25, ll_LongContextInputTokenThreshold := 272000,
      ll_LongContextInputCostMultiplier := 2, ll_LongContextOutputCostMultiplier := 3 / 2\<rparr>"

definition openAIGPT56SolFallbackPricing :: LiteLLMModelPricing where
  "openAIGPT56SolFallbackPricing = no_catalog_prices
     \<lparr>ll_InputCostPerToken := per_million 5, ll_InputCostPerTokenPriority := per_million 10,
      ll_OutputCostPerToken := per_million 30, ll_OutputCostPerTokenPriority := per_million 60,
      ll_CacheCreationInputTokenCost := per_million 6.25, ll_CacheCreationInputTokenCostPriority := per_million 12.5,
      ll_CacheReadInputTokenCost := per_million 0.5, ll_CacheReadInputTokenCostPriority := per_million 1,
      ll_LongContextInputTokenThreshold := 272000, ll_LongContextInputCostMultiplier := 2,
      ll_LongContextOutputCostMultiplier := 3 / 2\<rparr>"

definition openAIGPT56TerraFallbackPricing :: LiteLLMModelPricing where
  "openAIGPT56TerraFallbackPricing = no_catalog_prices
     \<lparr>ll_InputCostPerToken := per_million 2, ll_InputCostPerTokenPriority := per_million 4,
      ll_OutputCostPerToken := per_million 12, ll_OutputCostPerTokenPriority := per_million 24,
      ll_CacheCreationInputTokenCost := per_million 2.5, ll_CacheCreationInputTokenCostPriority := per_million 5,
      ll_CacheReadInputTokenCost := per_million 0.2, ll_CacheReadInputTokenCostPriority := per_million 0.4,
      ll_LongContextInputTokenThreshold := 272000, ll_LongContextInputCostMultiplier := 2,
      ll_LongContextOutputCostMultiplier := 3 / 2\<rparr>"

definition openAIGPT56LunaFallbackPricing :: LiteLLMModelPricing where
  "openAIGPT56LunaFallbackPricing = no_catalog_prices
     \<lparr>ll_InputCostPerToken := per_million 0.2, ll_InputCostPerTokenPriority := per_million 0.4,
      ll_OutputCostPerToken := per_million 1.2, ll_OutputCostPerTokenPriority := per_million 2.4,
      ll_CacheCreationInputTokenCost := per_million 0.25, ll_CacheCreationInputTokenCostPriority := per_million 0.5,
      ll_CacheReadInputTokenCost := per_million 0.02, ll_CacheReadInputTokenCostPriority := per_million 0.04,
      ll_LongContextInputTokenThreshold := 272000, ll_LongContextInputCostMultiplier := 2,
      ll_LongContextOutputCostMultiplier := 3 / 2\<rparr>"

definition openAIGPT54MiniFallbackPricing :: LiteLLMModelPricing where
  "openAIGPT54MiniFallbackPricing = no_catalog_prices
     \<lparr>ll_InputCostPerToken := per_million 0.75, ll_OutputCostPerToken := per_million 4.5,
      ll_CacheReadInputTokenCost := per_million 0.075\<rparr>"

definition openAIGPT54NanoFallbackPricing :: LiteLLMModelPricing where
  "openAIGPT54NanoFallbackPricing = no_catalog_prices
     \<lparr>ll_InputCostPerToken := per_million 0.2, ll_OutputCostPerToken := per_million 1.25,
      ll_CacheReadInputTokenCost := per_million 0.02\<rparr>"

text \<open>The regular expressions \<open>-\d{8}$\<close>, whose match is cut off, and \<open>^(gpt-\d+(?:\.\d+)?)(?:-|$)\<close>, whose group is taken.\<close>

definition without_date :: "string \<Rightarrow> string" where
  "without_date model =
     (let n = length model in
      if 9 \<le> n \<and> model ! (n - 9) = CHR ''-'' \<and> list_all is_digit (drop (n - 8) model) then take (n - 9) model else model)"

definition base_version :: "string \<Rightarrow> string option" where
  "base_version model =
     (case cut_prefix model ''gpt-'' of
        None \<Rightarrow> None
      | Some r \<Rightarrow>
          let major = takeWhile is_digit r;
              rest = dropWhile is_digit r;
              minor = (case rest of c # t \<Rightarrow> if c = CHR ''.'' then takeWhile is_digit t else [] | [] \<Rightarrow> []);
              matched = (if minor = [] then major else major @ ''.'' @ minor);
              after = drop (length matched) r
          in if major = [] then None
             else if after = [] \<or> hd after = CHR ''-'' then Some (''gpt-'' @ matched) else None)"

definition add_variant :: "string \<Rightarrow> string list \<Rightarrow> string \<Rightarrow> string list" where
  "add_variant model variants v = (if v \<noteq> model \<and> v \<notin> set variants then variants @ [v] else variants)"

definition generateOpenAIModelVariants :: "string \<Rightarrow> string list" where
  "generateOpenAIModelVariants model =
     (let withoutDate = without_date model;
          variants = (if withoutDate \<noteq> model then add_variant model [] withoutDate else []);
          variants = (case base_version model of None \<Rightarrow> variants | Some b \<Rightarrow> add_variant model variants b)
      in if withoutDate \<noteq> model
         then (case base_version withoutDate of None \<Rightarrow> variants | Some b \<Rightarrow> add_variant model variants b)
         else variants)"

definition isOpenAIImageGenerationModel :: "(string \<Rightarrow> string) \<Rightarrow> string \<Rightarrow> bool" where
  "isOpenAIImageGenerationModel lower model \<longleftrightarrow>
     (let m = lower (trim_space model) in starts_with m ''gpt-image-'' \<or> m = ''grok-imagine'' \<or> m = ''grok-imagine-edit'' \<or> starts_with m ''grok-imagine-image'')"

text \<open>The prices that are written in the code come after all that the catalog has.\<close>

definition static_cards :: "(string \<times> LiteLLMModelPricing) list" where
  "static_cards =
     [(''gpt-5.6-sol'', openAIGPT56SolFallbackPricing), (''gpt-5.6-terra'', openAIGPT56TerraFallbackPricing),
      (''gpt-5.6-luna'', openAIGPT56LunaFallbackPricing), (''gpt-5.5'', openAIGPT54FallbackPricing),
      (''gpt-5.4-mini'', openAIGPT54MiniFallbackPricing), (''gpt-5.4-nano'', openAIGPT54NanoFallbackPricing),
      (''gpt-5.4'', openAIGPT54FallbackPricing)]"

abbreviation "DefaultTestModel \<equiv> ''gpt-5.4''"

definition first_entry :: "catalog \<Rightarrow> string list \<Rightarrow> LiteLLMModelPricing option" where
  "first_entry data names = Option.bind (find (\<lambda>v. gget data v \<noteq> None) names) (gget data)"

definition matchOpenAIModel :: "(string \<Rightarrow> string) \<Rightarrow> catalog \<Rightarrow> string \<Rightarrow> LiteLLMModelPricing option" where
  "matchOpenAIModel lower data model =
     (if starts_with model ''gpt-5.3-codex-spark'' \<and> gget data ''gpt-5.1-codex'' \<noteq> None then gget data ''gpt-5.1-codex''
      else case first_entry data (generateOpenAIModelVariants model) of
        Some pricing \<Rightarrow> Some pricing
      | None \<Rightarrow>
          if starts_with model ''gpt-5.3-codex'' \<and> gget data ''gpt-5.2-codex'' \<noteq> None then gget data ''gpt-5.2-codex''
          else case find (\<lambda>(start, pricing). starts_with model start) static_cards of
            Some (start, pricing) \<Rightarrow> Some pricing
          | None \<Rightarrow>
              if isOpenAIImageGenerationModel lower model then first_entry data [''gpt-image-2'', ''gpt-image-1.5'', ''gpt-image-1'']
              else gget data (lower DefaultTestModel))"

definition catalog_GetModelPricing :: "(string \<Rightarrow> string) \<Rightarrow> (nat \<Rightarrow> string list) \<Rightarrow> catalog \<Rightarrow> string \<Rightarrow> LiteLLMModelPricing option" where
  "catalog_GetModelPricing lower orders data modelName =
     (if modelName = [] then None
      else
        let candidates = buildModelLookupCandidates lower (lower (trim_space modelName)) in
        case lookupIdentifiedModelPricingLocked lower orders data candidates of
          Some pricing \<Rightarrow> Some pricing
        | None \<Rightarrow>
            (case matchByModelFamily lower orders data (hd candidates) of
               Some pricing \<Rightarrow> Some pricing
             | None \<Rightarrow> if starts_with (hd candidates) ''gpt-'' then matchOpenAIModel lower data (hd candidates) else None))"

definition GetIdentifiedModelPricing :: "(string \<Rightarrow> string) \<Rightarrow> (nat \<Rightarrow> string list) \<Rightarrow> catalog \<Rightarrow> string \<Rightarrow> LiteLLMModelPricing option" where
  "GetIdentifiedModelPricing lower orders data modelName =
     (let modelLower = lower (trim_space modelName) in
      if modelLower = [] then None
      else lookupIdentifiedModelPricingLocked lower orders data (buildModelLookupCandidates lower modelLower))"

text \<open>The catalog is missing (\<open>None\<close>) where there is no pricing service.\<close>

definition HasIdentifiedTokenPricing :: "(string \<Rightarrow> string) \<Rightarrow> (nat \<Rightarrow> string list) \<Rightarrow> catalog option \<Rightarrow> string \<Rightarrow> bool" where
  "HasIdentifiedTokenPricing lower orders data model \<longleftrightarrow>
     (let model = lower (trim_space model) in
      if model = [] then False
      else if (case Option.bind data (\<lambda>d. GetIdentifiedModelPricing lower orders d model) of
                 None \<Rightarrow> False | Some pricing \<Rightarrow> \<not> ll_TokenPricingAbsent pricing) then True
      else map_of initFallbackPricing model \<noteq> None)"

end
