(* ===== verification/Token_Pricing.thy ===== *)
theory Token_Pricing
  imports Price_Catalog
begin

text \<open>
  The price of a request: service/model_pricing_resolver.go, which finds the prices of a model for a group
  or a channel, the intervals of service/channel.go, and the costs of service/billing_service.go, of tokens,
  of single uses, of searches, sound, images and videos. A price is a rational number (a float64 in the
  code), a pointer that may be nil an option.
\<close>

section \<open>Prices\<close>

abbreviation "BillingModeToken \<equiv> ''token''"
abbreviation "BillingModePerRequest \<equiv> ''per_request''"
abbreviation "BillingModeImage \<equiv> ''image''"
abbreviation "BillingModeVideo \<equiv> ''video''"

definition per_use_mode :: "string \<Rightarrow> bool" where
  "per_use_mode mode \<longleftrightarrow> mode = BillingModePerRequest \<or> mode = BillingModeImage \<or> mode = BillingModeVideo"

record PricingInterval =
  pi_MinTokens :: int
  pi_MaxTokens :: "int option"
  pi_TierLabel :: string
  pi_InputPrice :: "rat option"
  pi_OutputPrice :: "rat option"
  pi_CacheWritePrice :: "rat option"
  pi_CacheReadPrice :: "rat option"
  pi_PerRequestPrice :: "rat option"

record ChannelModelPricing =
  ch_Models :: "string list"
  ch_BillingMode :: string
  ch_InputPrice :: "rat option"
  ch_OutputPrice :: "rat option"
  ch_CacheWritePrice :: "rat option"
  ch_CacheReadPrice :: "rat option"
  ch_ImageInputPrice :: "rat option"
  ch_ImageOutputPrice :: "rat option"
  ch_PerRequestPrice :: "rat option"
  ch_Intervals :: "PricingInterval list"

text \<open>
  What the resolver asks others for: \<open>strings.ToLower\<close>, the catalog of prices (nil without a pricing
  service) by the name of the model in lower case, with its price per image; the prices of a channel, by
  the number of the question, since they may change in between.
\<close>

record pricing_env =
  pe_lower :: "string \<Rightarrow> string"
  pe_catalog :: "string \<Rightarrow> LiteLLMModelPricing option"
  pe_channel :: "(nat \<Rightarrow> int \<Rightarrow> string \<Rightarrow> ChannelModelPricing option) option"

section \<open>Intervals\<close>

definition interval_matches :: "int \<Rightarrow> PricingInterval \<Rightarrow> bool" where
  "interval_matches totalTokens iv \<longleftrightarrow>
     pi_MinTokens iv < totalTokens \<and> (case pi_MaxTokens iv of None \<Rightarrow> True | Some m \<Rightarrow> totalTokens \<le> m)"

definition FindMatchingInterval :: "PricingInterval list \<Rightarrow> int \<Rightarrow> PricingInterval option" where
  "FindMatchingInterval intervals totalTokens = find (interval_matches totalTokens) intervals"

definition filterValidIntervals :: "PricingInterval list \<Rightarrow> PricingInterval list" where
  "filterValidIntervals intervals =
     filter (\<lambda>iv. pi_InputPrice iv \<noteq> None \<or> pi_OutputPrice iv \<noteq> None \<or> pi_CacheWritePrice iv \<noteq> None \<or>
       pi_CacheReadPrice iv \<noteq> None \<or> pi_PerRequestPrice iv \<noteq> None) intervals"

text \<open>An error names the interval, counted from 1 in the order of the minima.\<close>

datatype interval_error =
    NegativeMin nat
  | MaxNotPositive nat
  | MaxNotAboveMin nat
  | NegativePrice nat string
  | UnboundedNotLast nat
  | Overlapping nat

definition negative :: "rat option \<Rightarrow> bool" where
  "negative p = (case p of None \<Rightarrow> False | Some v \<Rightarrow> v < 0)"

definition validateIntervalPrices :: "PricingInterval \<Rightarrow> nat \<Rightarrow> interval_error option" where
  "validateIntervalPrices iv idx =
     (case find (negative \<circ> snd)
        [(''input_price'', pi_InputPrice iv), (''output_price'', pi_OutputPrice iv), (''cache_write_price'', pi_CacheWritePrice iv),
         (''cache_read_price'', pi_CacheReadPrice iv), (''per_request_price'', pi_PerRequestPrice iv)] of
        None \<Rightarrow> None
      | Some (name, v) \<Rightarrow> Some (NegativePrice (idx + 1) name))"

definition validateSingleInterval :: "PricingInterval \<Rightarrow> nat \<Rightarrow> interval_error option" where
  "validateSingleInterval iv idx =
     (if pi_MinTokens iv < 0 then Some (NegativeMin (idx + 1))
      else case pi_MaxTokens iv of
        None \<Rightarrow> validateIntervalPrices iv idx
      | Some m \<Rightarrow>
          if m \<le> 0 then Some (MaxNotPositive (idx + 1))
          else if m \<le> pi_MinTokens iv then Some (MaxNotAboveMin (idx + 1))
          else validateIntervalPrices iv idx)"

fun validate_each :: "nat \<Rightarrow> PricingInterval list \<Rightarrow> interval_error option" where
  "validate_each idx [] = None"
| "validate_each idx (iv # ivs) =
     (case validateSingleInterval iv idx of None \<Rightarrow> validate_each (idx + 1) ivs | Some e \<Rightarrow> Some e)"

text \<open>The loop over the sorted list, with the interval before the current one.\<close>

fun overlap_loop :: "nat \<Rightarrow> PricingInterval option \<Rightarrow> PricingInterval list \<Rightarrow> interval_error option" where
  "overlap_loop i prev [] = None"
| "overlap_loop i prev (iv # ivs) =
     (if pi_MaxTokens iv = None \<and> ivs \<noteq> [] then Some (UnboundedNotLast (i + 1))
      else case prev of
        None \<Rightarrow> overlap_loop (i + 1) (Some iv) ivs
      | Some p \<Rightarrow>
          (case pi_MaxTokens p of
             None \<Rightarrow> Some (Overlapping i)
           | Some m \<Rightarrow> if pi_MinTokens iv < m then Some (Overlapping i) else overlap_loop (i + 1) (Some iv) ivs))"

definition validateIntervalOverlap :: "PricingInterval list \<Rightarrow> interval_error option" where
  "validateIntervalOverlap ivs = overlap_loop 0 None ivs"

text \<open>
  \<open>sort.Slice\<close> does not fix the order of equal minima; a stable order is taken here. Which one is taken
  can only change the error, since two intervals with the same minimum overlap.
\<close>

definition ValidateIntervals :: "PricingInterval list \<Rightarrow> string \<Rightarrow> interval_error option" where
  "ValidateIntervals intervals mode =
     (let ivs = sort_key pi_MinTokens intervals in
      case validate_each 0 ivs of
        Some e \<Rightarrow> Some e
      | None \<Rightarrow> if per_use_mode mode then None else validateIntervalOverlap ivs)"


section \<open>Prices of models and channels\<close>

definition usesOpenAILegacyLongContextPricing :: "string \<Rightarrow> bool" where
  "usesOpenAILegacyLongContextPricing normalized \<longleftrightarrow>
     normalized = ''gpt-5.4'' \<or> normalized = ''gpt-5.5'' \<or> normalized = ''gpt-5.5-pro''"

text \<open>The two blocks that fill in what a price leaves out.\<close>

definition default_cache_write :: "ModelPricing \<Rightarrow> ModelPricing" where
  "default_cache_write c =
     (let c = (if mp_CacheCreationPricePerToken c \<le> 0
               then c\<lparr>mp_CacheCreationPricePerToken := mp_InputPricePerToken c * (5 / 4)\<rparr> else c)
      in if mp_CacheCreationPricePerTokenPriority c \<le> 0
         then c\<lparr>mp_CacheCreationPricePerTokenPriority := mp_InputPricePerTokenPriority c * (5 / 4)\<rparr> else c)"

definition default_long_context :: "ModelPricing \<Rightarrow> ModelPricing" where
  "default_long_context c =
     (let c = (if mp_LongContextInputThreshold c \<le> 0 then c\<lparr>mp_LongContextInputThreshold := 272000\<rparr> else c);
          c = (if mp_LongContextInputMultiplier c \<le> 0 then c\<lparr>mp_LongContextInputMultiplier := 2\<rparr> else c)
      in if mp_LongContextOutputMultiplier c \<le> 0 then c\<lparr>mp_LongContextOutputMultiplier := 3 / 2\<rparr> else c)"

definition applyModelSpecificPricingPolicy :: "pricing_env \<Rightarrow> string \<Rightarrow> ModelPricing \<Rightarrow> ModelPricing" where
  "applyModelSpecificPricingPolicy E model pricing =
     (let normalized = normalizeKnownOpenAICodexModel (pe_lower E) model;
          isGPT56 = isOpenAIGPT56Model (pe_lower E) normalized;
          legacy = usesOpenAILegacyLongContextPricing normalized
      in if \<not> isGPT56 \<and> \<not> legacy then pricing
         else
           let needsLongContextPolicy = (isGPT56 \<or> legacy) \<and>
                 (mp_LongContextInputThreshold pricing \<le> 0 \<or> mp_LongContextInputMultiplier pricing \<le> 0 \<or> mp_LongContextOutputMultiplier pricing \<le> 0);
               needsCacheCreationPolicy = isGPT56 \<and> \<not> mp_CacheCreationPriceExplicit pricing \<and>
                 (mp_CacheCreationPricePerToken pricing \<le> 0 \<or>
                  (0 < mp_InputPricePerTokenPriority pricing \<and> mp_CacheCreationPricePerTokenPriority pricing \<le> 0))
           in if \<not> needsLongContextPolicy \<and> \<not> needsCacheCreationPolicy then pricing
              else
                let cloned = (if isGPT56 \<and> \<not> mp_CacheCreationPriceExplicit pricing then default_cache_write pricing else pricing)
                in default_long_context cloned)"

definition catalog_pricing :: "LiteLLMModelPricing \<Rightarrow> ModelPricing" where
  "catalog_pricing l =
     (let price5m = ll_CacheCreationInputTokenCost l;
          price1h = ll_CacheCreationInputTokenCostAbove1hr l
      in no_prices
        \<lparr>mp_InputPricePerToken := ll_InputCostPerToken l,
         mp_InputPricePerTokenPriority := ll_InputCostPerTokenPriority l,
         mp_OutputPricePerToken := ll_OutputCostPerToken l,
         mp_OutputPricePerTokenPriority := ll_OutputCostPerTokenPriority l,
         mp_CacheCreationPricePerToken := ll_CacheCreationInputTokenCost l,
         mp_CacheCreationPricePerTokenPriority := ll_CacheCreationInputTokenCostPriority l,
         mp_CacheReadPricePerToken := ll_CacheReadInputTokenCost l,
         mp_CacheReadPricePerTokenPriority := ll_CacheReadInputTokenCostPriority l,
         mp_CacheCreation5mPrice := price5m,
         mp_CacheCreation1hPrice := price1h,
         mp_SupportsCacheBreakdown := 0 < price1h \<and> price5m < price1h,
         mp_LongContextInputThreshold := ll_LongContextInputTokenThreshold l,
         mp_LongContextInputMultiplier := ll_LongContextInputCostMultiplier l,
         mp_LongContextOutputMultiplier := ll_LongContextOutputCostMultiplier l,
         mp_ImageInputPricePerToken := ll_InputCostPerImageToken l,
         mp_ImageOutputPricePerToken := ll_OutputCostPerImageToken l\<rparr>)"

text \<open>\<open>None\<close> is the error that no source has a price for the model.\<close>

definition GetModelPricing :: "pricing_env \<Rightarrow> string \<Rightarrow> ModelPricing option" where
  "GetModelPricing E model =
     (let model = pe_lower E model in
      case pe_catalog E model of
        Some l \<Rightarrow>
          if ll_TokenPricingAbsent l then map_option (applyModelSpecificPricingPolicy E model) (getFallbackPricing (pe_lower E) model)
          else Some (applyModelSpecificPricingPolicy E model (catalog_pricing l))
      | None \<Rightarrow> map_option (applyModelSpecificPricingPolicy E model) (getFallbackPricing (pe_lower E) model))"

definition applyChannelImageInputPrice :: "ChannelModelPricing \<Rightarrow> ModelPricing \<Rightarrow> ModelPricing" where
  "applyChannelImageInputPrice ch p =
     p\<lparr>mp_ImageInputPricePerToken := (case ch_ImageInputPrice ch of None \<Rightarrow> 0 | Some v \<Rightarrow> v)\<rparr>"

text \<open>The four token prices that a channel or an interval sets, one by one.\<close>

definition set_input :: "rat option \<Rightarrow> ModelPricing \<Rightarrow> ModelPricing" where
  "set_input v p = (case v of None \<Rightarrow> p | Some x \<Rightarrow> p\<lparr>mp_InputPricePerToken := x, mp_InputPricePerTokenPriority := x\<rparr>)"

definition set_output :: "rat option \<Rightarrow> ModelPricing \<Rightarrow> ModelPricing" where
  "set_output v p = (case v of None \<Rightarrow> p | Some x \<Rightarrow> p\<lparr>mp_OutputPricePerToken := x, mp_OutputPricePerTokenPriority := x\<rparr>)"

definition set_cache_write :: "rat option \<Rightarrow> ModelPricing \<Rightarrow> ModelPricing" where
  "set_cache_write v p =
     (case v of None \<Rightarrow> p
      | Some x \<Rightarrow> p\<lparr>mp_CacheCreationPricePerToken := x, mp_CacheCreationPricePerTokenPriority := x,
          mp_CacheCreationPriceExplicit := True, mp_CacheCreation5mPrice := x, mp_CacheCreation1hPrice := x\<rparr>)"

definition set_cache_read :: "rat option \<Rightarrow> ModelPricing \<Rightarrow> ModelPricing" where
  "set_cache_read v p = (case v of None \<Rightarrow> p | Some x \<Rightarrow> p\<lparr>mp_CacheReadPricePerToken := x, mp_CacheReadPricePerTokenPriority := x\<rparr>)"

definition set_image_output :: "rat option \<Rightarrow> ModelPricing \<Rightarrow> ModelPricing" where
  "set_image_output v p =
     p\<lparr>mp_ImageOutputPricePerToken := (case v of None \<Rightarrow> 0 | Some x \<Rightarrow> x), mp_ImageOutputPriceExplicit := True\<rparr>"

definition GetModelPricingWithChannel :: "pricing_env \<Rightarrow> string \<Rightarrow> ChannelModelPricing option \<Rightarrow> ModelPricing option" where
  "GetModelPricingWithChannel E model channelPricing =
     (case GetModelPricing E model of
        None \<Rightarrow> None
      | Some pricing \<Rightarrow>
          (case channelPricing of
             None \<Rightarrow> Some pricing
           | Some ch \<Rightarrow>
               Some (applyChannelImageInputPrice ch (set_image_output (ch_ImageOutputPrice ch) (set_cache_read (ch_CacheReadPrice ch)
                 (set_cache_write (ch_CacheWritePrice ch) (set_output (ch_OutputPrice ch) (set_input (ch_InputPrice ch) pricing))))))))"

section \<open>The resolver\<close>

record ResolvedPricing =
  rz_Mode :: string
  rz_BasePricing :: "ModelPricing option"
  rz_Intervals :: "PricingInterval list"
  rz_RequestTiers :: "PricingInterval list"
  rz_DefaultPerRequestPrice :: rat
  rz_Source :: string
  rz_SupportsCacheBreakdown :: bool
  rz_channelPricing :: "ChannelModelPricing option"
  rz_longContextPricingEnabled :: bool

abbreviation "PricingSourceGroup \<equiv> ''group''"
abbreviation "PricingSourceChannel \<equiv> ''channel''"
abbreviation "PricingSourceLiteLLM \<equiv> ''litellm''"
abbreviation "PricingSourceFallback \<equiv> ''fallback''"

record pricing_group =
  pg_LongContextPricingEnabled :: bool
  pg_ModelPricing :: "ChannelModelPricing list"

text \<open>\<open>strings.ReplaceAll(model, ".", "-")\<close>\<close>

definition dots_to_hyphens :: "string \<Rightarrow> string" where
  "dots_to_hyphens s = map (\<lambda>c. if c = CHR ''.'' then CHR ''-'' else c) s"

definition normalizeChannelPricingModelName :: "pricing_env \<Rightarrow> string \<Rightarrow> string" where
  "normalizeChannelPricingModelName E model =
     (let model = pe_lower E (trim_space model) in if starts_with model ''claude-'' then dots_to_hyphens model else model)"

text \<open>The entries with their patterns, in order: an exact name ends the search, the first wildcard is remembered.\<close>

fun match_patterns :: "pricing_env \<Rightarrow> string \<Rightarrow> (string \<times> ChannelModelPricing) list \<Rightarrow> ChannelModelPricing option \<Rightarrow> ChannelModelPricing option" where
  "match_patterns E model [] wildcard = wildcard"
| "match_patterns E model ((pattern, entry) # rest) wildcard =
     (let normalized = normalizeChannelPricingModelName E pattern in
      if normalized = model then Some entry
      else if normalized \<noteq> [] \<and> last normalized = CHR ''*'' \<and> starts_with model (butlast normalized) \<and> wildcard = None
      then match_patterns E model rest (Some entry)
      else match_patterns E model rest wildcard)"

definition matchGroupModelPricing :: "pricing_env \<Rightarrow> pricing_group option \<Rightarrow> string \<Rightarrow> ChannelModelPricing option" where
  "matchGroupModelPricing E grp model =
     (case grp of
        None \<Rightarrow> None
      | Some g \<Rightarrow> match_patterns E (normalizeChannelPricingModelName E model)
          (concat (map (\<lambda>entry. map (\<lambda>pattern. (pattern, entry)) (ch_Models entry)) (pg_ModelPricing g))) None)"

definition intervalToModelPricing :: "PricingInterval \<Rightarrow> bool \<Rightarrow> ChannelModelPricing option \<Rightarrow> ModelPricing" where
  "intervalToModelPricing iv supportsCacheBreakdown chPricing =
     (let p = set_cache_read (pi_CacheReadPrice iv) (set_cache_write (pi_CacheWritePrice iv) (set_output (pi_OutputPrice iv)
            (set_input (pi_InputPrice iv) (no_prices\<lparr>mp_SupportsCacheBreakdown := supportsCacheBreakdown\<rparr>))))
      in case chPricing of
           None \<Rightarrow> p
         | Some ch \<Rightarrow>
             applyChannelImageInputPrice ch
               (case ch_ImageOutputPrice ch of
                  None \<Rightarrow> p\<lparr>mp_ImageOutputPriceExplicit := True\<rparr>
                | Some v \<Rightarrow> p\<lparr>mp_ImageOutputPriceExplicit := True, mp_ImageOutputPricePerToken := v\<rparr>))"

definition resolveBasePricing :: "pricing_env \<Rightarrow> string \<Rightarrow> ModelPricing option \<times> string" where
  "resolveBasePricing E model =
     (case GetModelPricing E model of None \<Rightarrow> (None, PricingSourceFallback) | Some p \<Rightarrow> (Some p, PricingSourceLiteLLM))"

definition applyTokenOverrides :: "ChannelModelPricing \<Rightarrow> ResolvedPricing \<Rightarrow> ResolvedPricing" where
  "applyTokenOverrides ch resolved =
     (let validIntervals = filterValidIntervals (ch_Intervals ch);
          base = (case rz_BasePricing resolved of None \<Rightarrow> no_prices | Some p \<Rightarrow> p)
      in if validIntervals \<noteq> []
         then resolved\<lparr>rz_Intervals := validIntervals,
                rz_BasePricing := Some (applyChannelImageInputPrice ch (set_image_output (ch_ImageOutputPrice ch) base))\<rparr>
         else resolved\<lparr>rz_BasePricing := Some (applyChannelImageInputPrice ch (set_image_output (ch_ImageOutputPrice ch)
                (set_cache_read (ch_CacheReadPrice ch) (set_cache_write (ch_CacheWritePrice ch) (set_output (ch_OutputPrice ch)
                  (set_input (ch_InputPrice ch) base))))))\<rparr>)"

definition applyRequestTierOverrides :: "ChannelModelPricing \<Rightarrow> ResolvedPricing \<Rightarrow> ResolvedPricing" where
  "applyRequestTierOverrides ch resolved =
     (let resolved = resolved\<lparr>rz_RequestTiers := filterValidIntervals (ch_Intervals ch)\<rparr> in
      case ch_PerRequestPrice ch of None \<Rightarrow> resolved | Some v \<Rightarrow> resolved\<lparr>rz_DefaultPerRequestPrice := v\<rparr>)"


definition first_tier :: "PricingInterval list \<Rightarrow> PricingInterval" where
  "first_tier ivs = foldl (\<lambda>first iv. if pi_MinTokens iv < pi_MinTokens first then iv else first) (hd ivs) (tl ivs)"

definition applyFirstTokenTier :: "ChannelModelPricing option \<Rightarrow> ResolvedPricing \<Rightarrow> ResolvedPricing" where
  "applyFirstTokenTier config resolved =
     (if rz_Intervals resolved = [] then resolved
      else resolved\<lparr>rz_BasePricing := Some (intervalToModelPricing (first_tier (rz_Intervals resolved)) (rz_SupportsCacheBreakdown resolved) config),
             rz_Intervals := []\<rparr>)"

definition mode_or_token :: "string \<Rightarrow> string" where
  "mode_or_token mode = (if mode = [] then BillingModeToken else mode)"

definition resolved_zero :: ResolvedPricing where
  "resolved_zero =
     \<lparr>rz_Mode = [], rz_BasePricing = None, rz_Intervals = [], rz_RequestTiers = [], rz_DefaultPerRequestPrice = 0, rz_Source = [],
      rz_SupportsCacheBreakdown = False, rz_channelPricing = None, rz_longContextPricingEnabled = False\<rparr>"

definition supports_breakdown :: "ModelPricing option \<Rightarrow> bool" where
  "supports_breakdown base = (case base of None \<Rightarrow> False | Some p \<Rightarrow> mp_SupportsCacheBreakdown p)"

definition resolveConfiguredPricing :: "pricing_env \<Rightarrow> ChannelModelPricing \<Rightarrow> string \<Rightarrow> string \<Rightarrow> ResolvedPricing" where
  "resolveConfiguredPricing E config model source =
     (let mode = mode_or_token (ch_BillingMode config);
          resolved = resolved_zero\<lparr>rz_Mode := mode, rz_Source := source, rz_channelPricing := Some config\<rparr>
      in if per_use_mode mode then applyRequestTierOverrides config resolved
         else
           let base = fst (resolveBasePricing E model)
           in applyTokenOverrides config (resolved\<lparr>rz_BasePricing := base, rz_SupportsCacheBreakdown := supports_breakdown base\<rparr>))"

definition applyChannelOverrides :: "pricing_env \<Rightarrow> int \<Rightarrow> string \<Rightarrow> ResolvedPricing \<Rightarrow> ResolvedPricing" where
  "applyChannelOverrides E groupID model resolved =
     (case pe_channel E of
        None \<Rightarrow> resolved
      | Some channels \<Rightarrow>
          (case channels 1 groupID model of
             None \<Rightarrow> resolved
           | Some ch \<Rightarrow>
               let mode = mode_or_token (ch_BillingMode ch);
                   resolved = resolved\<lparr>rz_Source := PricingSourceChannel, rz_channelPricing := Some ch, rz_Mode := mode\<rparr>
               in if mode = BillingModeToken then applyTokenOverrides ch resolved
                  else if per_use_mode mode then applyRequestTierOverrides ch resolved
                  else resolved))"

definition Resolve :: "pricing_env \<Rightarrow> string \<Rightarrow> int option \<Rightarrow> pricing_group option \<Rightarrow> ResolvedPricing" where
  "Resolve E model groupID grp =
     (let longContext = (case grp of None \<Rightarrow> True | Some g \<Rightarrow> pg_LongContextPricingEnabled g) in
      case matchGroupModelPricing E grp model of
        Some groupPricing \<Rightarrow>
          let groupPricing = (if ch_BillingMode groupPricing = [] \<or> ch_BillingMode groupPricing = BillingModeToken
                then groupPricing\<lparr>ch_Intervals := []\<rparr> else groupPricing)
          in (resolveConfiguredPricing E groupPricing model PricingSourceGroup)\<lparr>rz_longContextPricingEnabled := longContext\<rparr>
      | None \<Rightarrow>
          let chPricing = (case (groupID, pe_channel E) of (Some gid, Some channels) \<Rightarrow> channels 0 gid model | _ \<Rightarrow> None);
              per_use = (case chPricing of None \<Rightarrow> None | Some ch \<Rightarrow> if per_use_mode (mode_or_token (ch_BillingMode ch)) then Some ch else None)
          in case per_use of
               Some ch \<Rightarrow>
                 applyRequestTierOverrides ch
                   (resolved_zero\<lparr>rz_Mode := mode_or_token (ch_BillingMode ch), rz_Source := PricingSourceChannel,
                      rz_channelPricing := Some ch, rz_longContextPricingEnabled := longContext\<rparr>)
             | None \<Rightarrow>
                 let (base, source) = resolveBasePricing E model;
                     resolved = resolved_zero\<lparr>rz_Mode := BillingModeToken, rz_BasePricing := base, rz_Source := source,
                       rz_SupportsCacheBreakdown := supports_breakdown base, rz_longContextPricingEnabled := longContext\<rparr>
                 in case (chPricing, groupID) of
                      (Some ch, _) \<Rightarrow>
                        let resolved = applyTokenOverrides ch (resolved\<lparr>rz_Source := PricingSourceChannel, rz_channelPricing := Some ch\<rparr>)
                        in if longContext then resolved else applyFirstTokenTier (Some ch) resolved
                    | (None, Some gid) \<Rightarrow>
                        let resolved = applyChannelOverrides E gid model resolved
                        in if rz_Source resolved = PricingSourceChannel \<and> \<not> longContext
                           then applyFirstTokenTier (rz_channelPricing resolved) resolved else resolved
                    | (None, None) \<Rightarrow> resolved)"

definition GetIntervalPricing :: "ResolvedPricing \<Rightarrow> int \<Rightarrow> ModelPricing option" where
  "GetIntervalPricing resolved totalContextTokens =
     (if rz_Intervals resolved = [] then rz_BasePricing resolved
      else case FindMatchingInterval (rz_Intervals resolved) totalContextTokens of
        None \<Rightarrow> rz_BasePricing resolved
      | Some iv \<Rightarrow> Some (intervalToModelPricing iv (rz_SupportsCacheBreakdown resolved) (rz_channelPricing resolved)))"

definition GetRequestTierPrice :: "ResolvedPricing \<Rightarrow> string \<Rightarrow> rat" where
  "GetRequestTierPrice resolved tierLabel =
     (case find (\<lambda>t. pi_TierLabel t = tierLabel \<and> pi_PerRequestPrice t \<noteq> None) (rz_RequestTiers resolved) of
        None \<Rightarrow> 0
      | Some t \<Rightarrow> the (pi_PerRequestPrice t))"

definition GetRequestTierPriceByContext :: "ResolvedPricing \<Rightarrow> int \<Rightarrow> rat" where
  "GetRequestTierPriceByContext resolved totalContextTokens =
     (case FindMatchingInterval (rz_RequestTiers resolved) totalContextTokens of
        None \<Rightarrow> 0
      | Some iv \<Rightarrow> (case pi_PerRequestPrice iv of None \<Rightarrow> 0 | Some v \<Rightarrow> v))"

section \<open>Costs\<close>

record UsageTokens =
  ut_InputTokens :: int
  ut_ImageInputTokens :: int
  ut_OutputTokens :: int
  ut_CacheCreationTokens :: int
  ut_CacheReadTokens :: int
  ut_CacheCreation5mTokens :: int
  ut_CacheCreation1hTokens :: int
  ut_ImageOutputTokens :: int

record CostBreakdown =
  cb_InputCost :: rat
  cb_ImageInputCost :: rat
  cb_OutputCost :: rat
  cb_ImageOutputCost :: rat
  cb_CacheCreationCost :: rat
  cb_CacheReadCost :: rat
  cb_TotalCost :: rat
  cb_ActualCost :: rat
  cb_BillingMode :: string
  cb_LongContextBillingApplied :: bool

definition no_cost :: CostBreakdown where
  "no_cost = \<lparr>cb_InputCost = 0, cb_ImageInputCost = 0, cb_OutputCost = 0, cb_ImageOutputCost = 0, cb_CacheCreationCost = 0,
     cb_CacheReadCost = 0, cb_TotalCost = 0, cb_ActualCost = 0, cb_BillingMode = [], cb_LongContextBillingApplied = False\<rparr>"

definition normalizeBillingServiceTier :: "pricing_env \<Rightarrow> string \<Rightarrow> string" where
  "normalizeBillingServiceTier E serviceTier = pe_lower E (trim_space serviceTier)"

definition usePriorityServiceTierPricing :: "pricing_env \<Rightarrow> string \<Rightarrow> ModelPricing \<Rightarrow> bool" where
  "usePriorityServiceTierPricing E serviceTier p \<longleftrightarrow>
     normalizeBillingServiceTier E serviceTier = ''priority'' \<and>
     (0 < mp_InputPricePerTokenPriority p \<or> 0 < mp_OutputPricePerTokenPriority p \<or>
      0 < mp_CacheCreationPricePerTokenPriority p \<or> 0 < mp_CacheReadPricePerTokenPriority p)"

definition serviceTierCostMultiplier :: "pricing_env \<Rightarrow> string \<Rightarrow> rat" where
  "serviceTierCostMultiplier E serviceTier =
     (if normalizeBillingServiceTier E serviceTier = ''priority'' then 2
      else if normalizeBillingServiceTier E serviceTier = ''flex'' then 1 / 2 else 1)"

definition total_context :: "UsageTokens \<Rightarrow> int" where
  "total_context t = i64 (i64 (ut_InputTokens t + ut_CacheCreationTokens t) + ut_CacheReadTokens t)"

definition shouldApplySessionLongContextPricing :: "UsageTokens \<Rightarrow> ModelPricing \<Rightarrow> bool" where
  "shouldApplySessionLongContextPricing tokens p =
     (if mp_LongContextInputThreshold p \<le> 0 then False
      else if mp_LongContextInputMultiplier p \<le> 1 \<and> mp_LongContextOutputMultiplier p \<le> 1 then False
      else if mp_LongContextThresholdInclusive p then mp_LongContextInputThreshold p \<le> total_context tokens
      else mp_LongContextInputThreshold p < total_context tokens)"

definition computeCacheCreationCost :: "ModelPricing \<Rightarrow> UsageTokens \<Rightarrow> rat \<Rightarrow> rat \<Rightarrow> rat" where
  "computeCacheCreationCost p tokens price multiplier =
     (if mp_SupportsCacheBreakdown p \<and> (0 < mp_CacheCreation5mPrice p \<or> 0 < mp_CacheCreation1hPrice p)
      then if ut_CacheCreation5mTokens tokens = 0 \<and> ut_CacheCreation1hTokens tokens = 0 \<and> 0 < ut_CacheCreationTokens tokens
        then of_int (ut_CacheCreationTokens tokens) * mp_CacheCreation5mPrice p * multiplier
        else of_int (ut_CacheCreation5mTokens tokens) * mp_CacheCreation5mPrice p * multiplier +
             of_int (ut_CacheCreation1hTokens tokens) * mp_CacheCreation1hPrice p * multiplier
      else of_int (ut_CacheCreationTokens tokens) * price * multiplier)"

definition or_else :: "rat \<Rightarrow> rat \<Rightarrow> rat" where
  "or_else priority standard = (if 0 < priority then priority else standard)"

text \<open>Prices of input, output, cache reads and cache creation in a service tier, and the factor of the tier.\<close>

definition tier_prices :: "pricing_env \<Rightarrow> string \<Rightarrow> ModelPricing \<Rightarrow> rat \<times> rat \<times> rat \<times> rat \<times> rat" where
  "tier_prices E serviceTier p =
     (if usePriorityServiceTierPricing E serviceTier p
      then (or_else (mp_InputPricePerTokenPriority p) (mp_InputPricePerToken p),
            or_else (mp_OutputPricePerTokenPriority p) (mp_OutputPricePerToken p),
            or_else (mp_CacheReadPricePerTokenPriority p) (mp_CacheReadPricePerToken p),
            or_else (mp_CacheCreationPricePerTokenPriority p) (mp_CacheCreationPricePerToken p), 1)
      else (mp_InputPricePerToken p, mp_OutputPricePerToken p, mp_CacheReadPricePerToken p, mp_CacheCreationPricePerToken p,
            serviceTierCostMultiplier E serviceTier))"

text \<open>The costs by kind, with the multipliers of a long context where they apply, and their sum.\<close>

definition token_costs :: "pricing_env \<Rightarrow> ModelPricing \<Rightarrow> UsageTokens \<Rightarrow> string \<Rightarrow> bool \<Rightarrow> CostBreakdown" where
  "token_costs E p tokens serviceTier eligible =
     (let (inputPrice, outputPrice, cacheReadPrice, cacheCreationPrice, tierMultiplier) = tier_prices E serviceTier p;
          inputPrice = (if eligible then inputPrice * mp_LongContextInputMultiplier p else inputPrice);
          outputPrice = (if eligible then outputPrice * mp_LongContextOutputMultiplier p else outputPrice);
          cacheReadPrice = (if eligible then cacheReadPrice * mp_LongContextInputMultiplier p else cacheReadPrice);
          cacheCreationMultiplier = (if eligible then mp_LongContextInputMultiplier p else 1);
          (inputCost, imageInputCost) =
            (if 0 < ut_ImageInputTokens tokens
             then let imageInputTokens = ut_ImageInputTokens tokens;
                      textInputTokens = i64 (ut_InputTokens tokens - imageInputTokens);
                      (textInputTokens, imageInputTokens) =
                        (if textInputTokens < 0 then (0, ut_InputTokens tokens) else (textInputTokens, imageInputTokens));
                      imageInputPrice = (if mp_ImageInputPricePerToken p = 0 then inputPrice else mp_ImageInputPricePerToken p)
                  in (of_int textInputTokens * inputPrice, of_int imageInputTokens * imageInputPrice)
             else (of_int (ut_InputTokens tokens) * inputPrice, 0));
          textOutputTokens = i64 (ut_OutputTokens tokens - ut_ImageOutputTokens tokens);
          textOutputTokens = (if textOutputTokens < 0 then 0 else textOutputTokens);
          outputCost = of_int textOutputTokens * outputPrice;
          imageOutputCost =
            (if 0 < ut_ImageOutputTokens tokens
             then of_int (ut_ImageOutputTokens tokens) *
               (if mp_ImageOutputPricePerToken p = 0 \<and> \<not> mp_ImageOutputPriceExplicit p then outputPrice else mp_ImageOutputPricePerToken p)
             else 0);
          cacheCreationCost = computeCacheCreationCost p tokens cacheCreationPrice cacheCreationMultiplier;
          cacheReadCost = of_int (ut_CacheReadTokens tokens) * cacheReadPrice;
          inputCost = inputCost * tierMultiplier;
          imageInputCost = imageInputCost * tierMultiplier;
          outputCost = outputCost * tierMultiplier;
          imageOutputCost = imageOutputCost * tierMultiplier;
          cacheCreationCost = cacheCreationCost * tierMultiplier;
          cacheReadCost = cacheReadCost * tierMultiplier
      in no_cost\<lparr>cb_InputCost := inputCost, cb_ImageInputCost := imageInputCost, cb_OutputCost := outputCost,
          cb_ImageOutputCost := imageOutputCost, cb_CacheCreationCost := cacheCreationCost, cb_CacheReadCost := cacheReadCost,
          cb_TotalCost := inputCost + imageInputCost + outputCost + imageOutputCost + cacheCreationCost + cacheReadCost\<rparr>)"

function computeTokenBreakdown :: "pricing_env \<Rightarrow> ModelPricing \<Rightarrow> UsageTokens \<Rightarrow> rat \<Rightarrow> string \<Rightarrow> bool \<Rightarrow> CostBreakdown" where
  "computeTokenBreakdown E p tokens rateMultiplier serviceTier applyLongCtx =
     (let rateMultiplier = (if rateMultiplier < 0 then 0 else rateMultiplier);
          eligible = (applyLongCtx \<and> shouldApplySessionLongContextPricing tokens p);
          baselineCost = (if eligible then Some (computeTokenBreakdown E p tokens rateMultiplier serviceTier False) else None);
          bd = token_costs E p tokens serviceTier eligible;
          actualCost = cb_TotalCost bd * rateMultiplier
      in bd\<lparr>cb_ActualCost := actualCost,
            cb_LongContextBillingApplied := (case baselineCost of None \<Rightarrow> False | Some b \<Rightarrow> cb_ActualCost b < actualCost)\<rparr>)"
  by pat_completeness auto
termination
  by (relation "measure (\<lambda>(E, p, tokens, rate, tier, applyLongCtx). if applyLongCtx then 1 else 0)") simp_all

declare computeTokenBreakdown.simps [simp del]


section \<open>The cost of a request\<close>

text \<open>\<open>co_Resolver\<close> tells whether there is a resolver. \<open>None\<close> as a cost is the error that there is no price.\<close>

record CostInput =
  co_Model :: string
  co_GroupID :: "int option"
  co_Group :: "pricing_group option"
  co_Tokens :: UsageTokens
  co_RequestCount :: int
  co_UsageUnits :: rat
  co_SizeTier :: string
  co_RateMultiplier :: rat
  co_ServiceTier :: string
  co_Resolver :: bool
  co_Resolved :: "ResolvedPricing option"
  co_LongContextBillingEnabled :: "bool option"

definition calculateTokenCost :: "pricing_env \<Rightarrow> ResolvedPricing \<Rightarrow> CostInput \<Rightarrow> CostBreakdown option" where
  "calculateTokenCost E resolved input =
     (case GetIntervalPricing resolved (total_context (co_Tokens input)) of
        None \<Rightarrow> None
      | Some pricing \<Rightarrow>
          let pricing = applyModelSpecificPricingPolicy E (co_Model input) pricing;
              applyLongCtx = (rz_Intervals resolved = [] \<and> rz_longContextPricingEnabled resolved);
              applyLongCtx = (case co_LongContextBillingEnabled input of None \<Rightarrow> applyLongCtx | Some b \<Rightarrow> applyLongCtx \<and> b)
          in Some (computeTokenBreakdown E pricing (co_Tokens input) (co_RateMultiplier input) (co_ServiceTier input) applyLongCtx))"

definition calculatePerRequestCost :: "ResolvedPricing \<Rightarrow> CostInput \<Rightarrow> CostBreakdown" where
  "calculatePerRequestCost resolved input =
     (let units = (if co_UsageUnits input \<le> 0
            then of_int (if co_RequestCount input \<le> 0 then 1 else co_RequestCount input) else co_UsageUnits input);
          unitPrice = (if co_SizeTier input \<noteq> [] then GetRequestTierPrice resolved (co_SizeTier input) else 0);
          unitPrice = (if unitPrice = 0 then GetRequestTierPriceByContext resolved (total_context (co_Tokens input)) else unitPrice);
          unitPrice = (if unitPrice = 0 then rz_DefaultPerRequestPrice resolved else unitPrice);
          totalCost = unitPrice * units
      in no_cost\<lparr>cb_TotalCost := totalCost, cb_ActualCost := totalCost * co_RateMultiplier input\<rparr>)"

definition calculateCostInternalWithPolicy ::
  "pricing_env \<Rightarrow> string \<Rightarrow> UsageTokens \<Rightarrow> rat \<Rightarrow> string \<Rightarrow> ChannelModelPricing option \<Rightarrow> bool \<Rightarrow> CostBreakdown option" where
  "calculateCostInternalWithPolicy E model tokens rateMultiplier serviceTier channelPricing longContextBillingEnabled =
     map_option (\<lambda>pricing. computeTokenBreakdown E pricing tokens rateMultiplier serviceTier longContextBillingEnabled)
       (case channelPricing of None \<Rightarrow> GetModelPricing E model | Some ch \<Rightarrow> GetModelPricingWithChannel E model (Some ch))"

definition CalculateCostUnified :: "pricing_env \<Rightarrow> CostInput \<Rightarrow> CostBreakdown option" where
  "CalculateCostUnified E input =
     (if \<not> co_Resolver input
      then calculateCostInternalWithPolicy E (co_Model input) (co_Tokens input) (co_RateMultiplier input) (co_ServiceTier input) None
        (case co_LongContextBillingEnabled input of None \<Rightarrow> True | Some b \<Rightarrow> b)
      else
        let resolved = (case co_Resolved input of None \<Rightarrow> Resolve E (co_Model input) (co_GroupID input) (co_Group input) | Some r \<Rightarrow> r);
            input = (if co_RateMultiplier input < 0 then input\<lparr>co_RateMultiplier := 0\<rparr> else input);
            breakdown = (if per_use_mode (rz_Mode resolved) then Some (calculatePerRequestCost resolved input)
              else calculateTokenCost E resolved input)
        in map_option (\<lambda>bd. bd\<lparr>cb_BillingMode := mode_or_token (rz_Mode resolved)\<rparr>) breakdown)"

definition CalculateCostWithServiceTier :: "pricing_env \<Rightarrow> string \<Rightarrow> UsageTokens \<Rightarrow> rat \<Rightarrow> string \<Rightarrow> CostBreakdown option" where
  "CalculateCostWithServiceTier E model tokens rateMultiplier serviceTier =
     calculateCostInternalWithPolicy E model tokens rateMultiplier serviceTier None True"

definition CalculateCost :: "pricing_env \<Rightarrow> string \<Rightarrow> UsageTokens \<Rightarrow> rat \<Rightarrow> CostBreakdown option" where
  "CalculateCost E model tokens rateMultiplier = calculateCostInternalWithPolicy E model tokens rateMultiplier [] None True"

text \<open>How the tokens of a long context are split at a threshold: first those below it, then those beyond.\<close>

definition split_tokens :: "UsageTokens \<Rightarrow> int \<Rightarrow> UsageTokens \<times> UsageTokens" where
  "split_tokens tokens threshold =
     (let (inRangeCache, inRangeInput, outRangeCache, outRangeInput) =
            (if threshold \<le> ut_CacheReadTokens tokens
             then (threshold, 0, i64 (ut_CacheReadTokens tokens - threshold), ut_InputTokens tokens)
             else let inRangeInput = i64 (threshold - ut_CacheReadTokens tokens)
                  in (ut_CacheReadTokens tokens, inRangeInput, 0, i64 (ut_InputTokens tokens - inRangeInput)));
          none = \<lparr>ut_InputTokens = 0, ut_ImageInputTokens = 0, ut_OutputTokens = 0, ut_CacheCreationTokens = 0, ut_CacheReadTokens = 0,
            ut_CacheCreation5mTokens = 0, ut_CacheCreation1hTokens = 0, ut_ImageOutputTokens = 0\<rparr>
      in (none\<lparr>ut_InputTokens := inRangeInput, ut_OutputTokens := ut_OutputTokens tokens,
            ut_CacheCreationTokens := ut_CacheCreationTokens tokens, ut_CacheReadTokens := inRangeCache,
            ut_CacheCreation5mTokens := ut_CacheCreation5mTokens tokens, ut_CacheCreation1hTokens := ut_CacheCreation1hTokens tokens,
            ut_ImageOutputTokens := ut_ImageOutputTokens tokens\<rparr>,
          none\<lparr>ut_InputTokens := outRangeInput, ut_CacheReadTokens := outRangeCache\<rparr>))"

text \<open>
  Where the second part fails the code returns the cost of the first with the error; its caller tests the error
  and drops the cost, here it is \<open>None\<close>.
\<close>

definition CalculateCostWithLongContext :: "pricing_env \<Rightarrow> string \<Rightarrow> UsageTokens \<Rightarrow> rat \<Rightarrow> int \<Rightarrow> rat \<Rightarrow> CostBreakdown option" where
  "CalculateCostWithLongContext E model tokens rateMultiplier threshold extraMultiplier =
     (if threshold \<le> 0 \<or> extraMultiplier \<le> 1 then CalculateCost E model tokens rateMultiplier
      else if i64 (ut_CacheReadTokens tokens + ut_InputTokens tokens) \<le> threshold then CalculateCost E model tokens rateMultiplier
      else let (inRangeTokens, outRangeTokens) = split_tokens tokens threshold in
        case CalculateCost E model inRangeTokens rateMultiplier of
          None \<Rightarrow> None
        | Some inRange \<Rightarrow>
            (case CalculateCost E model outRangeTokens (rateMultiplier * extraMultiplier) of
               None \<Rightarrow> None
             | Some outRange \<Rightarrow> Some
                 \<lparr>cb_InputCost = cb_InputCost inRange + cb_InputCost outRange,
                  cb_ImageInputCost = cb_ImageInputCost inRange + cb_ImageInputCost outRange,
                  cb_OutputCost = cb_OutputCost inRange,
                  cb_ImageOutputCost = cb_ImageOutputCost inRange,
                  cb_CacheCreationCost = cb_CacheCreationCost inRange,
                  cb_CacheReadCost = cb_CacheReadCost inRange + cb_CacheReadCost outRange,
                  cb_TotalCost = cb_TotalCost inRange + cb_TotalCost outRange,
                  cb_ActualCost = cb_ActualCost inRange + cb_ActualCost outRange,
                  cb_BillingMode = [],
                  cb_LongContextBillingApplied = 0 < cb_ActualCost outRange\<rparr>))"

section \<open>Searches and sound\<close>

definition use_cost :: "rat \<Rightarrow> rat \<Rightarrow> CostBreakdown" where
  "use_cost totalCost rateMultiplier =
     no_cost\<lparr>cb_TotalCost := totalCost, cb_ActualCost := totalCost * (if rateMultiplier < 0 then 0 else rateMultiplier),
       cb_BillingMode := BillingModePerRequest\<rparr>"

definition CalculateWebSearchCost :: "int \<Rightarrow> rat option \<Rightarrow> rat \<Rightarrow> CostBreakdown" where
  "CalculateWebSearchCost callCount groupPrice rateMultiplier =
     (if callCount \<le> 0 then no_cost
      else let unitPrice = (case groupPrice of Some v \<Rightarrow> if 0 \<le> v then v else 1 / 100 | None \<Rightarrow> 1 / 100)
        in use_cost (unitPrice * of_int callCount) rateMultiplier)"

definition CalculateSearchCost :: "int \<Rightarrow> rat option \<Rightarrow> rat \<Rightarrow> CostBreakdown" where
  "CalculateSearchCost numCalls groupPricePer1k rateMultiplier =
     (if numCalls \<le> 0 then no_cost
      else case groupPricePer1k of
        None \<Rightarrow> use_cost (5 / 1000 * of_int numCalls) rateMultiplier
      | Some v \<Rightarrow> if v < 0 \<or> v = 0 then no_cost else use_cost (v / 1000 * of_int numCalls) rateMultiplier)"

record audioPriceConfig =
  au_RealtimePerMin :: "rat option"
  au_TTSPerMChars :: "rat option"
  au_STTPerHour :: "rat option"

definition CalculateAudioCost :: "pricing_env \<Rightarrow> string \<Rightarrow> rat \<Rightarrow> audioPriceConfig option \<Rightarrow> rat \<Rightarrow> CostBreakdown" where
  "CalculateAudioCost E mode durationOrUnits groupConfig rateMultiplier =
     (if durationOrUnits \<le> 0 then no_cost
      else
        let set = (\<lambda>default field. case groupConfig of None \<Rightarrow> default | Some g \<Rightarrow> (case field g of None \<Rightarrow> default | Some v \<Rightarrow> v));
            mode = pe_lower E mode;
            unitPrice = (if mode = ''realtime'' then Some (set (5 / 100) au_RealtimePerMin)
              else if mode = ''tts'' then Some (set 15 au_TTSPerMChars)
              else if mode = ''stt'' then Some (set (1 / 10) au_STTPerHour) else None)
        in case unitPrice of
             None \<Rightarrow> no_cost
           | Some unitPrice \<Rightarrow> if unitPrice \<le> 0 then no_cost else use_cost (unitPrice * durationOrUnits) rateMultiplier)"

section \<open>Images and videos\<close>

record ImagePriceConfig =
  im_Price1K :: "rat option"
  im_Price2K :: "rat option"
  im_Price4K :: "rat option"

text \<open>The prices by model family and resolution, a nested map.\<close>

record VideoPriceConfig =
  vi_Price480P :: "rat option"
  vi_Price720P :: "rat option"
  vi_Price1080P :: "rat option"
  vi_ModelPrices :: "(string, (string, rat) gomap) gomap"

definition getGrokImagineImageTierPrice :: "(string \<Rightarrow> string) \<Rightarrow> string \<Rightarrow> rat \<Rightarrow> rat \<Rightarrow> rat" where
  "getGrokImagineImageTierPrice lower imageSize price1K price2K =
     (if NormalizeImageBillingTierOrDefault lower imageSize = ImageBillingSize1K then price1K else price2K)"

definition getDefaultGrokImagineImagePrice :: "(string \<Rightarrow> string) \<Rightarrow> string \<Rightarrow> string \<Rightarrow> rat option" where
  "getDefaultGrokImagineImagePrice lower model imageSize =
     (let model = lower (trim_space model) in
      if model = ''grok-imagine-image-2.0'' then Some (getGrokImagineImageTierPrice lower imageSize 0.06 0.08)
      else if model = ''grok-imagine-image-quality'' then Some (getGrokImagineImageTierPrice lower imageSize 0.05 0.07)
      else if model \<in> set [''grok-imagine'', ''grok-imagine-image'', ''grok-imagine-edit'']
      then Some (getGrokImagineImageTierPrice lower imageSize 0.02 0.02)
      else None)"

definition getDefaultGrokImagineVideoPrice :: "(string \<Rightarrow> string) \<Rightarrow> string \<Rightarrow> string \<Rightarrow> rat option" where
  "getDefaultGrokImagineVideoPrice lower model resolution =
     (let model = lower (trim_space model); r = NormalizeVideoBillingResolutionOrDefault lower resolution in
      if starts_with model ''grok-imagine-video-1.5''
      then Some (if r = VideoBillingResolution720P then 0.14 else if r = VideoBillingResolution1080P then 0.25 else 0.08)
      else if starts_with model ''grok-imagine-video''
      then Some (if r = VideoBillingResolution720P \<or> r = VideoBillingResolution1080P then 0.07 else 0.05)
      else None)"

definition getDefaultImagePrice :: "pricing_env \<Rightarrow> string \<Rightarrow> string \<Rightarrow> rat" where
  "getDefaultImagePrice E model imageSize =
     (case getDefaultGrokImagineImagePrice (pe_lower E) model imageSize of
        Some price \<Rightarrow> price
      | None \<Rightarrow>
          let basePrice = (case pe_catalog E model of Some l \<Rightarrow> if 0 < ll_OutputCostPerImage l then ll_OutputCostPerImage l else 0 | None \<Rightarrow> 0);
              basePrice = (if basePrice \<le> 0 then 0.134 else basePrice)
          in if imageSize = ImageBillingSize2K then basePrice * (3 / 2)
             else if imageSize = ImageBillingSize4K then basePrice * 2 else basePrice)"

definition getDefaultVideoPrice :: "pricing_env \<Rightarrow> string \<Rightarrow> string \<Rightarrow> rat" where
  "getDefaultVideoPrice E model resolution =
     (case getDefaultGrokImagineVideoPrice (pe_lower E) model resolution of
        Some price \<Rightarrow> price
      | None \<Rightarrow> getDefaultImagePrice E model ImageBillingSize2K)"

definition getImageUnitPrice :: "pricing_env \<Rightarrow> string \<Rightarrow> string \<Rightarrow> ImagePriceConfig option \<Rightarrow> rat" where
  "getImageUnitPrice E model imageSize groupConfig =
     (case Option.bind groupConfig (\<lambda>g.
        if imageSize = ImageBillingSize1K then im_Price1K g
        else if imageSize = ImageBillingSize2K then im_Price2K g
        else if imageSize = ImageBillingSize4K then im_Price4K g else None) of
        Some price \<Rightarrow> price
      | None \<Rightarrow> getDefaultImagePrice E model imageSize)"

definition LookupVideoModelPrice :: "(string \<Rightarrow> string) \<Rightarrow> (string, (string, rat) gomap) gomap \<Rightarrow> string \<Rightarrow> string \<Rightarrow> rat option" where
  "LookupVideoModelPrice lower prices model resolution =
     (if prices = [] then None
      else
        let family = CanonicalGrokImagineVideoPriceFamily lower model;
            family = (if family = [] then lower (trim_space model) else family)
        in if family = [] then None
           else case gget prices family of
             None \<Rightarrow> None
           | Some tierPrices \<Rightarrow> gget tierPrices (NormalizeVideoBillingResolutionOrDefault lower resolution))"

definition getVideoUnitPrice :: "pricing_env \<Rightarrow> string \<Rightarrow> string \<Rightarrow> VideoPriceConfig option \<Rightarrow> rat" where
  "getVideoUnitPrice E model resolution groupConfig =
     (let r = NormalizeVideoBillingResolutionOrDefault (pe_lower E) resolution in
      case Option.bind groupConfig (\<lambda>g.
        case LookupVideoModelPrice (pe_lower E) (vi_ModelPrices g) model resolution of
          Some price \<Rightarrow> Some price
        | None \<Rightarrow>
            if r = VideoBillingResolution480P then vi_Price480P g
            else if r = VideoBillingResolution720P then vi_Price720P g
            else if r = VideoBillingResolution1080P then vi_Price1080P g else None) of
        Some price \<Rightarrow> price
      | None \<Rightarrow> getDefaultVideoPrice E model resolution)"

definition CalculateImageCost :: "pricing_env \<Rightarrow> string \<Rightarrow> string \<Rightarrow> int \<Rightarrow> ImagePriceConfig option \<Rightarrow> rat \<Rightarrow> CostBreakdown" where
  "CalculateImageCost E model imageSize imageCount groupConfig rateMultiplier =
     (if imageCount \<le> 0 then no_cost
      else
        let imageSize = NormalizeImageBillingTierOrDefault (pe_lower E) imageSize;
            totalCost = getImageUnitPrice E model imageSize groupConfig * of_int imageCount
        in no_cost\<lparr>cb_TotalCost := totalCost, cb_ActualCost := totalCost * (if rateMultiplier < 0 then 0 else rateMultiplier),
             cb_BillingMode := BillingModeImage\<rparr>)"

definition CalculateVideoCost :: "pricing_env \<Rightarrow> string \<Rightarrow> string \<Rightarrow> int \<Rightarrow> int \<Rightarrow> VideoPriceConfig option \<Rightarrow> rat \<Rightarrow> CostBreakdown" where
  "CalculateVideoCost E model resolution videoCount durationSeconds groupConfig rateMultiplier =
     (if videoCount \<le> 0 then no_cost
      else
        let resolution = NormalizeVideoBillingResolutionOrDefault (pe_lower E) resolution;
            durationSeconds = NormalizeVideoBillingDurationSecondsOrDefault durationSeconds;
            totalCost = getVideoUnitPrice E model resolution groupConfig * of_int durationSeconds * of_int videoCount
        in no_cost\<lparr>cb_TotalCost := totalCost, cb_ActualCost := totalCost * (if rateMultiplier < 0 then 0 else rateMultiplier),
             cb_BillingMode := BillingModeVideo\<rparr>)"

section \<open>Sizes of images\<close>

abbreviation "ImageSizeSourceOutput \<equiv> ''output''"
abbreviation "ImageSizeSourceInput \<equiv> ''input''"
abbreviation "ImageSizeSourceDefault \<equiv> ''default''"

record ImageBillingSizeResolution =
  iz_BillingSize :: string
  iz_InputSize :: string
  iz_OutputSize :: string
  iz_Source :: string
  iz_Breakdown :: "(string, int) gomap"

definition compactTrimmedStrings :: "string list \<Rightarrow> string list" where
  "compactTrimmedStrings values = filter (\<lambda>s. s \<noteq> []) (map trim_space values)"

definition firstDisplayImageOutputSize :: "string list \<Rightarrow> string" where
  "firstDisplayImageOutputSize outputSizes =
     (case find (\<lambda>s. s \<noteq> []) (map trim_space outputSizes) of None \<Rightarrow> [] | Some s \<Rightarrow> s)"

definition normalizeImageSizeBreakdown :: "(string, int) gomap \<Rightarrow> (string, int) gomap" where
  "normalizeImageSizeBreakdown m =
     concat (map (\<lambda>tier. case gget m tier of Some n \<Rightarrow> if 0 < n then [(tier, n)] else [] | None \<Rightarrow> [])
       [ImageBillingSize1K, ImageBillingSize2K, ImageBillingSize4K])"

text \<open>The loop over the outputs: how many there are of each tier, and the highest tier.\<close>

definition count_tier :: "(string \<Rightarrow> string) \<Rightarrow> (string, int) gomap \<times> string \<Rightarrow> string \<Rightarrow> (string, int) gomap \<times> string" where
  "count_tier lower acc output =
     (case acc of (breakdown, outputTier) \<Rightarrow>
        case ClassifyImageBillingTier lower output of
          None \<Rightarrow> (breakdown, outputTier)
        | Some tier \<Rightarrow>
            (gput breakdown tier ((case gget breakdown tier of None \<Rightarrow> 0 | Some n \<Rightarrow> n) + 1),
             if imageTierRank outputTier < imageTierRank tier then tier else outputTier))"

definition ResolveImageBillingSize :: "(string \<Rightarrow> string) \<Rightarrow> string \<Rightarrow> string list \<Rightarrow> ImageBillingSizeResolution" where
  "ResolveImageBillingSize lower inputSize outputSizes =
     (let inputSize = trim_space inputSize;
          outputSizes = compactTrimmedStrings outputSizes;
          outputSize = firstDisplayImageOutputSize outputSizes;
          (breakdown, outputTier) = foldl (count_tier lower) ([], []) outputSizes;
          resolution = \<lparr>iz_BillingSize = ImageBillingSize2K, iz_InputSize = inputSize, iz_OutputSize = outputSize,
            iz_Source = ImageSizeSourceDefault, iz_Breakdown = []\<rparr>
      in if outputTier \<noteq> []
         then resolution\<lparr>iz_BillingSize := outputTier, iz_Source := ImageSizeSourceOutput, iz_Breakdown := normalizeImageSizeBreakdown breakdown\<rparr>
         else case ClassifyImageBillingTier lower inputSize of
           Some tier \<Rightarrow> resolution\<lparr>iz_BillingSize := tier, iz_Source := ImageSizeSourceInput\<rparr>
         | None \<Rightarrow> resolution)"

end
