(* ===== verification/Token_Pricing_Correct.thy ===== *)
theory Token_Pricing_Correct
  imports Token_Pricing "HOL-Library.Multiset"
begin

text \<open>
  The bill of a request: every token is charged once, at the price of its kind; using more never costs
  less; validated intervals give one price; and what the price of a request is not.
\<close>

section \<open>Kinds of tokens\<close>

datatype token_kind = TextIn | ImageIn | TextOut | ImageOut | CacheWrite | CacheWrite5m | CacheWrite1h | CacheRead

definition kinds :: "token_kind list" where
  "kinds = [TextIn, ImageIn, TextOut, ImageOut, CacheWrite, CacheWrite5m, CacheWrite1h, CacheRead]"

definition by_duration :: "ModelPricing \<Rightarrow> bool" where
  "by_duration p \<longleftrightarrow> mp_SupportsCacheBreakdown p \<and> (0 < mp_CacheCreation5mPrice p \<or> 0 < mp_CacheCreation1hPrice p)"

definition durations_unknown :: "UsageTokens \<Rightarrow> bool" where
  "durations_unknown t \<longleftrightarrow> ut_CacheCreation5mTokens t = 0 \<and> ut_CacheCreation1hTokens t = 0 \<and> 0 < ut_CacheCreationTokens t"

text \<open>How many tokens of a kind are charged, and the price of one.\<close>

fun kind_count :: "ModelPricing \<Rightarrow> UsageTokens \<Rightarrow> token_kind \<Rightarrow> int" where
  "kind_count p t TextIn = max 0 (ut_InputTokens t - ut_ImageInputTokens t)"
| "kind_count p t ImageIn = min (ut_InputTokens t) (ut_ImageInputTokens t)"
| "kind_count p t TextOut = max 0 (ut_OutputTokens t - ut_ImageOutputTokens t)"
| "kind_count p t ImageOut = ut_ImageOutputTokens t"
| "kind_count p t CacheWrite = (if by_duration p then 0 else ut_CacheCreationTokens t)"
| "kind_count p t CacheWrite5m =
     (if by_duration p then if durations_unknown t then ut_CacheCreationTokens t else ut_CacheCreation5mTokens t else 0)"
| "kind_count p t CacheWrite1h =
     (if by_duration p then if durations_unknown t then 0 else ut_CacheCreation1hTokens t else 0)"
| "kind_count p t CacheRead = ut_CacheReadTokens t"

fun kind_price :: "ModelPricing \<Rightarrow> rat \<times> rat \<times> rat \<times> rat \<times> rat \<Rightarrow> bool \<Rightarrow> token_kind \<Rightarrow> rat" where
  "kind_price p (i, out, r, c, m) long kind =
     (let fi = (if long then mp_LongContextInputMultiplier p else 1);
          fo = (if long then mp_LongContextOutputMultiplier p else 1)
      in m * (case kind of
         TextIn \<Rightarrow> i * fi
       | ImageIn \<Rightarrow> if mp_ImageInputPricePerToken p = 0 then i * fi else mp_ImageInputPricePerToken p
       | TextOut \<Rightarrow> out * fo
       | ImageOut \<Rightarrow> if mp_ImageOutputPricePerToken p = 0 \<and> \<not> mp_ImageOutputPriceExplicit p then out * fo else mp_ImageOutputPricePerToken p
       | CacheWrite \<Rightarrow> c * fi
       | CacheWrite5m \<Rightarrow> mp_CacheCreation5mPrice p * fi
       | CacheWrite1h \<Rightarrow> mp_CacheCreation1hPrice p * fi
       | CacheRead \<Rightarrow> r * fi))"

definition line_cost :: "pricing_env \<Rightarrow> ModelPricing \<Rightarrow> UsageTokens \<Rightarrow> string \<Rightarrow> bool \<Rightarrow> token_kind \<Rightarrow> rat" where
  "line_cost E p t tier long k = of_int (kind_count p t k) * kind_price p (tier_prices E tier p) long k"

definition bill :: "pricing_env \<Rightarrow> ModelPricing \<Rightarrow> UsageTokens \<Rightarrow> string \<Rightarrow> bool \<Rightarrow> rat" where
  "bill E p t tier long = (\<Sum>k\<leftarrow>kinds. line_cost E p t tier long k)"

text \<open>Counts that fit: no sum of them leaves 64 bits.\<close>

definition token_fields :: "UsageTokens \<Rightarrow> int list" where
  "token_fields t = [ut_InputTokens t, ut_ImageInputTokens t, ut_OutputTokens t, ut_CacheCreationTokens t, ut_CacheReadTokens t,
     ut_CacheCreation5mTokens t, ut_CacheCreation1hTokens t, ut_ImageOutputTokens t]"

definition sane_tokens :: "UsageTokens \<Rightarrow> bool" where
  "sane_tokens t \<longleftrightarrow> list_all (\<lambda>n. 0 \<le> n \<and> n \<le> 2 ^ 60) (token_fields t)"

lemma i64_small: "- (2 ^ 62) \<le> n \<Longrightarrow> n \<le> 2 ^ 62 \<Longrightarrow> i64 n = n"
  unfolding i64_def by (rule signed_take_bit_int_eq_self) simp_all

lemma sane_differences:
  assumes "sane_tokens t"
  shows "i64 (ut_InputTokens t - ut_ImageInputTokens t) = ut_InputTokens t - ut_ImageInputTokens t"
    "i64 (ut_OutputTokens t - ut_ImageOutputTokens t) = ut_OutputTokens t - ut_ImageOutputTokens t"
    "total_context t = ut_InputTokens t + ut_CacheCreationTokens t + ut_CacheReadTokens t"
  using assms by (simp_all add: sane_tokens_def token_fields_def total_context_def i64_small)

lemma sane_fields:
  assumes "sane_tokens t"
  shows "0 \<le> ut_InputTokens t" "0 \<le> ut_ImageInputTokens t" "0 \<le> ut_OutputTokens t" "0 \<le> ut_CacheCreationTokens t"
    "0 \<le> ut_CacheReadTokens t" "0 \<le> ut_CacheCreation5mTokens t" "0 \<le> ut_CacheCreation1hTokens t" "0 \<le> ut_ImageOutputTokens t"
  using assms by (simp_all add: sane_tokens_def token_fields_def)

lemma kind_count_nonneg: "sane_tokens t \<Longrightarrow> 0 \<le> kind_count p t k"
  by (cases k) (simp_all add: sane_fields)

lemma cache_creation_by_kind:
  "computeCacheCreationCost p t price f =
     (if \<not> by_duration p then of_int (ut_CacheCreationTokens t) * price * f
      else if durations_unknown t then of_int (ut_CacheCreationTokens t) * mp_CacheCreation5mPrice p * f
      else of_int (ut_CacheCreation5mTokens t) * mp_CacheCreation5mPrice p * f +
        of_int (ut_CacheCreation1hTokens t) * mp_CacheCreation1hPrice p * f)"
  unfolding computeCacheCreationCost_def by_duration_def [symmetric] durations_unknown_def [symmetric] by simp

text \<open>Each item of the cost is one of the lines, or two.\<close>

lemma cost_items:
  assumes t: "sane_tokens t"
  shows "cb_InputCost (token_costs E p t tier long) = line_cost E p t tier long TextIn"
    "cb_ImageInputCost (token_costs E p t tier long) = line_cost E p t tier long ImageIn"
    "cb_OutputCost (token_costs E p t tier long) = line_cost E p t tier long TextOut"
    "cb_ImageOutputCost (token_costs E p t tier long) = line_cost E p t tier long ImageOut"
    "cb_CacheCreationCost (token_costs E p t tier long) =
       line_cost E p t tier long CacheWrite + line_cost E p t tier long CacheWrite5m + line_cost E p t tier long CacheWrite1h"
    "cb_CacheReadCost (token_costs E p t tier long) = line_cost E p t tier long CacheRead"
proof -
  obtain i out r c m where pr: "tier_prices E tier p = (i, out, r, c, m)" by (cases "tier_prices E tier p") auto
  note s = sane_differences [OF t] sane_fields [OF t]
  note d = token_costs_def line_cost_def pr no_cost_def Let_def
  show "cb_InputCost (token_costs E p t tier long) = line_cost E p t tier long TextIn"
    using s by (auto simp: d max_def)
  show "cb_ImageInputCost (token_costs E p t tier long) = line_cost E p t tier long ImageIn"
    using s by (auto simp: d min_def)
  show "cb_OutputCost (token_costs E p t tier long) = line_cost E p t tier long TextOut"
    using s by (auto simp: d max_def)
  show "cb_ImageOutputCost (token_costs E p t tier long) = line_cost E p t tier long ImageOut"
    using s by (auto simp: d)
  show "cb_CacheCreationCost (token_costs E p t tier long) =
      line_cost E p t tier long CacheWrite + line_cost E p t tier long CacheWrite5m + line_cost E p t tier long CacheWrite1h"
    by (cases "by_duration p"; cases "durations_unknown t")
      (simp_all add: d cache_creation_by_kind case_prod_beta algebra_simps)
  show "cb_CacheReadCost (token_costs E p t tier long) = line_cost E p t tier long CacheRead"
    by (simp add: d case_prod_beta)
qed

lemma total_is_bill: "sane_tokens t \<Longrightarrow> cb_TotalCost (token_costs E p t tier long) = bill E p t tier long"
proof -
  assume t: "sane_tokens t"
  have "cb_TotalCost (token_costs E p t tier long) =
      cb_InputCost (token_costs E p t tier long) + cb_ImageInputCost (token_costs E p t tier long) +
      cb_OutputCost (token_costs E p t tier long) + cb_ImageOutputCost (token_costs E p t tier long) +
      cb_CacheCreationCost (token_costs E p t tier long) + cb_CacheReadCost (token_costs E p t tier long)"
    by (simp add: token_costs_def no_cost_def Let_def case_prod_beta)
  then show ?thesis using t by (simp add: cost_items bill_def kinds_def)
qed

abbreviation "long_context applyLong t p \<equiv> applyLong \<and> shouldApplySessionLongContextPricing t p"

lemma breakdown_costs:
  "cb_TotalCost (computeTokenBreakdown E p t rate tier applyLong) = cb_TotalCost (token_costs E p t tier (long_context applyLong t p))"
  "cb_ActualCost (computeTokenBreakdown E p t rate tier applyLong) =
     cb_TotalCost (token_costs E p t tier (long_context applyLong t p)) * max 0 rate"
  by (simp_all add: computeTokenBreakdown.simps [of E p t rate tier applyLong] Let_def max_def)

text \<open>The counts of a usage whose parts fit together: every token is in one kind.\<close>

definition parts_fit :: "ModelPricing \<Rightarrow> UsageTokens \<Rightarrow> bool" where
  "parts_fit p t \<longleftrightarrow> sane_tokens t \<and> ut_ImageOutputTokens t \<le> ut_OutputTokens t \<and>
     (by_duration p \<longrightarrow> durations_unknown t \<or> ut_CacheCreation5mTokens t + ut_CacheCreation1hTokens t = ut_CacheCreationTokens t)"

lemma every_token_once:
  "parts_fit p t \<Longrightarrow> (\<Sum>k\<leftarrow>kinds. kind_count p t k) =
     ut_InputTokens t + ut_OutputTokens t + ut_CacheCreationTokens t + ut_CacheReadTokens t"
  by (auto simp: parts_fit_def kinds_def max_def min_def)

section \<open>More is never cheaper\<close>

text \<open>Prices that are no gift: none is negative, and a long context does not lower them.\<close>

definition fair :: "ModelPricing \<Rightarrow> bool" where
  "fair p \<longleftrightarrow>
     list_all (\<lambda>x. 0 \<le> x)
       [mp_InputPricePerToken p, mp_ImageInputPricePerToken p, mp_OutputPricePerToken p, mp_CacheCreationPricePerToken p,
        mp_CacheReadPricePerToken p, mp_CacheCreation5mPrice p, mp_CacheCreation1hPrice p, mp_ImageOutputPricePerToken p] \<and>
     (0 < mp_LongContextInputThreshold p \<longrightarrow> 1 \<le> mp_LongContextInputMultiplier p \<and> 1 \<le> mp_LongContextOutputMultiplier p)"

lemma tier_prices_nonneg:
  assumes "fair p" "tier_prices E tier p = (i, out, r, c, m)"
  shows "0 \<le> i" "0 \<le> out" "0 \<le> r" "0 \<le> c" "0 < m"
  using assms by (auto simp: tier_prices_def fair_def or_else_def serviceTierCostMultiplier_def split: if_splits)

lemma kind_price_mono:
  assumes p: "fair p" and long: "long \<longrightarrow> 0 < mp_LongContextInputThreshold p" and le: "short \<longrightarrow> long"
  shows "0 \<le> kind_price p (tier_prices E tier p) short k"
    and "kind_price p (tier_prices E tier p) short k \<le> kind_price p (tier_prices E tier p) long k"
proof -
  obtain i out r c m where pr: "tier_prices E tier p = (i, out, r, c, m)" by (cases "tier_prices E tier p") auto
  note nn = tier_prices_nonneg [OF p pr]
  have f: "long \<Longrightarrow> 1 \<le> mp_LongContextInputMultiplier p" "long \<Longrightarrow> 1 \<le> mp_LongContextOutputMultiplier p"
    using p long by (simp_all add: fair_def)
  have grow: "x \<le> x * f" if "0 \<le> x" "1 \<le> f" for x f :: rat using mult_left_mono [OF that(2) that(1)] by simp
  have keep: "0 \<le> x * f" if "0 \<le> x" "1 \<le> f" for x f :: rat using that by simp
  note pos = p [unfolded fair_def, THEN conjunct1, simplified]
  show "0 \<le> kind_price p (tier_prices E tier p) short k"
    using nn pos f le by (cases k) (auto simp: pr Let_def keep)
  show "kind_price p (tier_prices E tier p) short k \<le> kind_price p (tier_prices E tier p) long k"
    using nn pos f le by (cases k) (auto simp: pr Let_def grow intro!: mult_left_mono)
qed

lemma bill_mono:
  assumes p: "fair p" and long: "long \<longrightarrow> 0 < mp_LongContextInputThreshold p" and le: "short \<longrightarrow> long"
    and s: "sane_tokens s" and more: "\<And>k. kind_count p s k \<le> kind_count p t k"
  shows "bill E p s tier short \<le> bill E p t tier long"
  unfolding bill_def
proof (rule sum_list_mono)
  fix k
  show "line_cost E p s tier short k \<le> line_cost E p t tier long k"
    unfolding line_cost_def
  proof (rule mult_mono)
    show "(of_int (kind_count p s k) :: rat) \<le> of_int (kind_count p t k)" using more by simp
    show "kind_price p (tier_prices E tier p) short k \<le> kind_price p (tier_prices E tier p) long k"
      by (rule kind_price_mono(2) [OF p long le])
    have "0 \<le> kind_count p t k" using kind_count_nonneg [OF s, of p k] more [of k] by simp
    then show "(0 :: rat) \<le> of_int (kind_count p t k)" by simp
    show "0 \<le> kind_price p (tier_prices E tier p) short k" by (rule kind_price_mono(1) [OF p long le])
  qed
qed

lemma bill_nonneg:
  assumes "fair p" "sane_tokens s" "long \<longrightarrow> 0 < mp_LongContextInputThreshold p"
  shows "0 \<le> bill E p s tier long"
proof -
  have "0 \<le> line_cost E p s tier long k" for k
    using kind_count_nonneg [OF assms(2), of p k] kind_price_mono(1) [OF assms(1,3), of long E tier k] by (simp add: line_cost_def)
  then show ?thesis unfolding bill_def by (intro sum_list_nonneg) auto
qed

lemma longer_stays_long:
  "shouldApplySessionLongContextPricing s p \<Longrightarrow> total_context s \<le> total_context t \<Longrightarrow> shouldApplySessionLongContextPricing t p"
  by (auto simp: shouldApplySessionLongContextPricing_def split: if_splits)

lemma long_has_threshold: "shouldApplySessionLongContextPricing t p \<Longrightarrow> 0 < mp_LongContextInputThreshold p"
  by (simp add: shouldApplySessionLongContextPricing_def split: if_splits)

text \<open>
  A request that uses at least as much of every kind of token costs at least as much, also where only
  the larger one crosses the threshold of a long context.
\<close>

lemma costs_grow:
  assumes "fair p" "sane_tokens s" "sane_tokens t"
    and "\<And>k. kind_count p s k \<le> kind_count p t k" "total_context s \<le> total_context t" "rate \<le> rate'"
  shows "0 \<le> cb_ActualCost (computeTokenBreakdown E p s rate tier applyLong) \<and>
    cb_ActualCost (computeTokenBreakdown E p s rate tier applyLong) \<le> cb_ActualCost (computeTokenBreakdown E p t rate' tier applyLong)"
proof -
  let ?long = "\<lambda>t. long_context applyLong t p"
  have th: "?long t \<longrightarrow> 0 < mp_LongContextInputThreshold p" for t using long_has_threshold by blast
  have le: "?long s \<longrightarrow> ?long t" using longer_stays_long assms(5) by blast
  have pos: "0 \<le> bill E p s tier (?long s)" by (rule bill_nonneg [OF assms(1,2) th])
  have mono: "bill E p s tier (?long s) \<le> bill E p t tier (?long t)" by (rule bill_mono [OF assms(1) th le assms(2,4)])
  have "bill E p s tier (?long s) * max 0 rate \<le> bill E p t tier (?long t) * max 0 rate'"
    using mono pos assms(6) by (intro mult_mono) (auto simp: max_def)
  then show ?thesis using pos by (simp add: breakdown_costs total_is_bill assms(2,3))
qed

section \<open>Intervals that were validated\<close>

lemma validated_each: "validate_each idx ivs = None \<Longrightarrow> iv \<in> set ivs \<Longrightarrow> \<exists>i. validateSingleInterval iv i = None"
  by (induction ivs arbitrary: idx) (auto split: option.splits)

lemma validated_prices:
  assumes "validateSingleInterval iv i = None"
  shows "\<not> negative (pi_InputPrice iv) \<and> \<not> negative (pi_OutputPrice iv) \<and> \<not> negative (pi_CacheWritePrice iv) \<and>
    \<not> negative (pi_CacheReadPrice iv) \<and> \<not> negative (pi_PerRequestPrice iv)"
proof -
  have "validateIntervalPrices iv i = None"
    using assms by (auto simp: validateSingleInterval_def split: if_splits option.splits)
  then show ?thesis by (auto simp: validateIntervalPrices_def split: option.splits if_splits)
qed

lemma overlap_loop_apart:
  assumes "overlap_loop i prev ivs = None" "sorted (map pi_MinTokens ivs)"
  shows "length (filter (interval_matches n) ivs) \<le> 1 \<and>
    (\<forall>p. prev = Some p \<and> ivs \<noteq> [] \<longrightarrow> (\<exists>m. pi_MaxTokens p = Some m \<and> (\<forall>iv \<in> set ivs. m \<le> pi_MinTokens iv)))"
  using assms
proof (induction ivs arbitrary: i prev)
  case (Cons iv ivs)
  have next_ok: "overlap_loop (i + 1) (Some iv) ivs = None"
    using Cons.prems(1) by (auto split: if_splits option.splits)
  note IH = Cons.IH [OF next_ok]
  have above: "interval_matches n iv \<Longrightarrow> x \<in> set ivs \<Longrightarrow> \<not> interval_matches n x" for x
    using IH Cons.prems(2) by (fastforce simp: interval_matches_def)
  have "length (filter (interval_matches n) (iv # ivs)) \<le> 1"
    using IH Cons.prems(2) above by (cases "interval_matches n iv") (simp_all add: filter_False)
  moreover have "\<exists>m. pi_MaxTokens p = Some m \<and> (\<forall>x \<in> set (iv # ivs). m \<le> pi_MinTokens x)" if "prev = Some p" for p
    using Cons.prems that by (auto split: if_splits option.splits)
  ultimately show ?case by blast
qed simp

lemma find_single: "length (filter P xs) \<le> 1 \<Longrightarrow> mset ys = mset xs \<Longrightarrow> find P ys = find P xs"
proof -
  assume one: "length (filter P xs) \<le> 1" and perm: "mset ys = mset xs"
  have m: "mset (filter P ys) = mset (filter P xs)" using perm by simp
  have "filter P ys = filter P xs"
  proof (cases "filter P xs")
    case Nil then show ?thesis using m by simp
  next
    case (Cons a as)
    then have "filter P xs = [a]" using one by simp
    moreover from this have "mset (filter P ys) = {#a#}" using m by (simp del: mset_filter)
    then have "filter P ys = [a]" by (simp only: mset_single_iff)
    ultimately show ?thesis by simp
  qed
  moreover have "find P zs = (case filter P zs of [] \<Rightarrow> None | z # _ \<Rightarrow> Some z)" for zs :: "'a list" by (induction zs) auto
  ultimately show ?thesis by simp
qed

lemma validated_one_match:
  assumes "ValidateIntervals ivs mode = None" "\<not> per_use_mode mode"
  shows "length (filter (interval_matches n) ivs) \<le> 1"
proof -
  have ok: "overlap_loop 0 None (sort_key pi_MinTokens ivs) = None"
    using assms by (simp add: ValidateIntervals_def validateIntervalOverlap_def Let_def split: option.splits)
  have "length (filter (interval_matches n) (sort_key pi_MinTokens ivs)) \<le> 1"
    using overlap_loop_apart [OF ok] by simp
  moreover have "size (filter_mset (interval_matches n) (mset (sort_key pi_MinTokens ivs))) = size (filter_mset (interval_matches n) (mset ivs))"
    by simp
  ultimately show ?thesis by (metis mset_filter size_mset)
qed

section \<open>Properties\<close>

text \<open>
  C26. Intervals that pass the validation for token prices leave no choice: at most one of them contains
  a number of context tokens, so the first match is the same in whatever order the rows are read, and no
  price of the one found is negative.
\<close>
theorem intervals_unambiguous:
  assumes "ValidateIntervals ivs mode = None" "\<not> per_use_mode mode" "mset ivs' = mset ivs"
  shows "FindMatchingInterval ivs' n = FindMatchingInterval ivs n \<and>
    length (filter (interval_matches n) ivs) \<le> 1 \<and>
    (case FindMatchingInterval ivs n of
       None \<Rightarrow> True
     | Some iv \<Rightarrow> pi_MinTokens iv < n \<and> (case pi_MaxTokens iv of None \<Rightarrow> True | Some m \<Rightarrow> n \<le> m) \<and>
         \<not> negative (pi_InputPrice iv) \<and> \<not> negative (pi_OutputPrice iv) \<and> \<not> negative (pi_CacheWritePrice iv) \<and>
         \<not> negative (pi_CacheReadPrice iv) \<and> \<not> negative (pi_PerRequestPrice iv))"
proof (intro conjI)
  note one = validated_one_match [OF assms(1,2), of n]
  show "FindMatchingInterval ivs' n = FindMatchingInterval ivs n"
    unfolding FindMatchingInterval_def by (rule find_single [OF one assms(3)])
  show "length (filter (interval_matches n) ivs) \<le> 1" by (rule one)
  have each: "validate_each 0 (sort_key pi_MinTokens ivs) = None"
    using assms(1) by (simp add: ValidateIntervals_def Let_def split: option.splits)
  show "case FindMatchingInterval ivs n of
       None \<Rightarrow> True
     | Some iv \<Rightarrow> pi_MinTokens iv < n \<and> (case pi_MaxTokens iv of None \<Rightarrow> True | Some m \<Rightarrow> n \<le> m) \<and>
         \<not> negative (pi_InputPrice iv) \<and> \<not> negative (pi_OutputPrice iv) \<and> \<not> negative (pi_CacheWritePrice iv) \<and>
         \<not> negative (pi_CacheReadPrice iv) \<and> \<not> negative (pi_PerRequestPrice iv)"
  proof (cases "FindMatchingInterval ivs n")
    case (Some iv)
    then have "iv \<in> set ivs" "interval_matches n iv" by (auto simp: FindMatchingInterval_def find_Some_iff)
    moreover from this(1) obtain i where "validateSingleInterval iv i = None" using validated_each [OF each] by auto
    ultimately show ?thesis using Some validated_prices by (simp add: interval_matches_def)
  qed simp
qed

definition interval_example :: "int \<Rightarrow> int option \<Rightarrow> rat \<Rightarrow> PricingInterval" where
  "interval_example low high price =
     \<lparr>pi_MinTokens = low, pi_MaxTokens = high, pi_TierLabel = [], pi_InputPrice = Some price, pi_OutputPrice = None,
      pi_CacheWritePrice = None, pi_CacheReadPrice = None, pi_PerRequestPrice = None\<rparr>"

lemma intervals_unambiguous_witness:
  "FindMatchingInterval [interval_example 10 None 2, interval_example 0 (Some 10) 1] 10 =
     FindMatchingInterval [interval_example 0 (Some 10) 1, interval_example 10 None 2] 10 \<and>
   FindMatchingInterval [interval_example 0 (Some 10) 1, interval_example 10 None 2] 10 = Some (interval_example 0 (Some 10) 1)"
proof -
  have ok: "ValidateIntervals [interval_example 0 (Some 10) 1, interval_example 10 None 2] BillingModeToken = None"
    by (simp add: ValidateIntervals_def validateIntervalOverlap_def validateSingleInterval_def validateIntervalPrices_def
        negative_def per_use_mode_def interval_example_def Let_def)
  have perm: "mset [interval_example 10 None 2, interval_example 0 (Some 10) 1] = mset [interval_example 0 (Some 10) 1, interval_example 10 None 2]"
    by simp
  have "\<not> per_use_mode BillingModeToken" by (simp add: per_use_mode_def)
  from intervals_unambiguous [OF ok this perm, of 10] show ?thesis
    by (simp add: FindMatchingInterval_def interval_matches_def interval_example_def)
qed

text \<open>
  C20. The cost of a request that is billed by tokens: every token belongs to one kind, and the total is the sum
  over the kinds of their number at their price, which a long context multiplies (cache reads and writes
  as input). What is charged is the total with a factor that is never negative, and a long context is
  reported where it made the request dearer.
\<close>
theorem bill_itemised:
  assumes "co_Resolver input" "co_Resolved input = Some r" "\<not> per_use_mode (rz_Mode r)"
    and "GetIntervalPricing r (total_context (co_Tokens input)) = Some found"
    and "parts_fit (applyModelSpecificPricingPolicy E (co_Model input) found) (co_Tokens input)"
  shows "\<exists>bd. CalculateCostUnified E input = Some bd \<and>
    (let p = applyModelSpecificPricingPolicy E (co_Model input) found;
         t = co_Tokens input;
         tier = co_ServiceTier input;
         rate = max 0 (co_RateMultiplier input);
         long = (rz_Intervals r = [] \<and> rz_longContextPricingEnabled r \<and> co_LongContextBillingEnabled input \<noteq> Some False \<and>
           shouldApplySessionLongContextPricing t p)
     in (\<Sum>k\<leftarrow>kinds. kind_count p t k) = ut_InputTokens t + ut_OutputTokens t + ut_CacheCreationTokens t + ut_CacheReadTokens t \<and>
        cb_TotalCost bd = bill E p t tier long \<and>
        cb_ActualCost bd = rate * bill E p t tier long \<and>
        cb_LongContextBillingApplied bd = (long \<and> rate * bill E p t tier False < rate * bill E p t tier True))"
proof -
  let ?t = "co_Tokens input" let ?p = "applyModelSpecificPricingPolicy E (co_Model input) found" let ?tier = "co_ServiceTier input"
  have t: "sane_tokens ?t" using assms(5) by (simp add: parts_fit_def)
  show ?thesis
    using assms(1-4) every_token_once [OF assms(5)] total_is_bill [OF t, of E ?p ?tier]
    by (auto simp: CalculateCostUnified_def calculateTokenCost_def Let_def breakdown_costs computeTokenBreakdown.simps [of E ?p ?t]
        mult.commute max_def split: option.splits)
qed

definition example_env :: pricing_env where
  "example_env = \<lparr>pe_lower = (\<lambda>s. s), pe_catalog = (\<lambda>m. None), pe_channel = None\<rparr>"

definition example_prices :: ModelPricing where
  "example_prices = no_prices\<lparr>mp_InputPricePerToken := 1, mp_OutputPricePerToken := 2, mp_CacheCreationPricePerToken := 5 / 4,
     mp_CacheReadPricePerToken := 1 / 10, mp_LongContextInputThreshold := 100, mp_LongContextInputMultiplier := 2,
     mp_LongContextOutputMultiplier := 3 / 2\<rparr>"

definition example_tokens :: "int \<Rightarrow> int \<Rightarrow> int \<Rightarrow> int \<Rightarrow> UsageTokens" where
  "example_tokens input output write read =
     \<lparr>ut_InputTokens = input, ut_ImageInputTokens = 0, ut_OutputTokens = output, ut_CacheCreationTokens = write,
      ut_CacheReadTokens = read, ut_CacheCreation5mTokens = 0, ut_CacheCreation1hTokens = 0, ut_ImageOutputTokens = 0\<rparr>"

definition example_resolved :: "ModelPricing \<Rightarrow> ResolvedPricing" where
  "example_resolved p = resolved_zero\<lparr>rz_BasePricing := Some p, rz_longContextPricingEnabled := True\<rparr>"

definition example_input :: "ModelPricing \<Rightarrow> UsageTokens \<Rightarrow> CostInput" where
  "example_input p t =
     \<lparr>co_Model = ''m'', co_GroupID = None, co_Group = None, co_Tokens = t, co_RequestCount = 1, co_UsageUnits = 0, co_SizeTier = [],
      co_RateMultiplier = 2, co_ServiceTier = [], co_Resolver = True, co_Resolved = Some (example_resolved p),
      co_LongContextBillingEnabled = None\<rparr>"

lemmas example_defs = example_env_def example_prices_def example_tokens_def example_resolved_def example_input_def
  no_prices_def resolved_zero_def

lemma example_name: "normalizeKnownOpenAICodexModel (\<lambda>s. s) ''m'' = []" "isOpenAIGPT56Model (\<lambda>s. s) [] = False"
  by code_simp+

lemma example_policy [simp]: "applyModelSpecificPricingPolicy example_env ''m'' p = p"
  by (simp add: applyModelSpecificPricingPolicy_def example_env_def usesOpenAILegacyLongContextPricing_def Let_def example_name)

lemma trim_nothing: "trim_space [] = []"
  by code_simp

lemma example_tier [simp]: "tier_prices example_env [] p =
  (mp_InputPricePerToken p, mp_OutputPricePerToken p, mp_CacheReadPricePerToken p, mp_CacheCreationPricePerToken p, 1)"
  by (simp add: tier_prices_def usePriorityServiceTierPricing_def serviceTierCostMultiplier_def normalizeBillingServiceTier_def
      example_env_def trim_nothing)

lemma example_bill: "bill example_env example_prices (example_tokens 60 10 20 30) [] True = 206"
  "bill example_env example_prices (example_tokens 60 10 20 30) [] False = 108"
  by (simp_all add: bill_def kinds_def line_cost_def example_prices_def example_tokens_def no_prices_def by_duration_def)

lemma example_long: "total_context (example_tokens 60 10 20 30) = 110"
  "shouldApplySessionLongContextPricing (example_tokens 60 10 20 30) example_prices"
  by (simp_all add: shouldApplySessionLongContextPricing_def total_context_def example_prices_def example_tokens_def no_prices_def i64_small)

lemma bill_itemised_witness:
  "\<exists>bd. CalculateCostUnified example_env (example_input example_prices (example_tokens 60 10 20 30)) = Some bd \<and>
     cb_TotalCost bd = 206 \<and> cb_ActualCost bd = 412 \<and> cb_LongContextBillingApplied bd"
proof -
  let ?i = "example_input example_prices (example_tokens 60 10 20 30)" and ?r = "example_resolved example_prices"
  have 1: "co_Resolver ?i" "co_Resolved ?i = Some ?r" "\<not> per_use_mode (rz_Mode ?r)"
    by (simp_all add: example_input_def example_resolved_def resolved_zero_def per_use_mode_def)
  have 2: "GetIntervalPricing ?r (total_context (co_Tokens ?i)) = Some example_prices"
    by (simp add: GetIntervalPricing_def example_resolved_def resolved_zero_def)
  have model: "co_Model ?i = ''m''" by (simp add: example_input_def)
  have 3: "parts_fit (applyModelSpecificPricingPolicy example_env (co_Model ?i) example_prices) (co_Tokens ?i)"
    unfolding model by (simp add: parts_fit_def sane_tokens_def token_fields_def example_input_def example_tokens_def by_duration_def example_prices_def no_prices_def)
  from bill_itemised [OF 1 2 3] example_bill example_long show ?thesis
    by (auto simp: Let_def example_input_def example_resolved_def resolved_zero_def)
qed

section \<open>What modelling showed\<close>

text \<open>
  A price with a multiplier for the input of a long context and none for its output, which reads as 0, gives the
  output of every long context away.
\<close>
lemma long_context_gives_output_away:
  assumes "1 < mp_LongContextInputMultiplier p" "mp_LongContextOutputMultiplier p = 0"
    and "0 < mp_LongContextInputThreshold p" "mp_LongContextInputThreshold p < total_context t"
  shows "cb_OutputCost (computeTokenBreakdown E p t rate tier True) = 0"
proof -
  have "shouldApplySessionLongContextPricing t p" using assms by (simp add: shouldApplySessionLongContextPricing_def)
  then show ?thesis
    using assms(2) by (simp add: computeTokenBreakdown.simps token_costs_def no_cost_def Let_def case_prod_beta)
qed

text \<open>A priority request pays the prices of the standard tier for cache writes that are priced by duration.\<close>
lemma priority_writes_at_standard_price:
  assumes "usePriorityServiceTierPricing E tier p" "by_duration p"
  shows "cb_CacheCreationCost (token_costs E p t tier long) =
    computeCacheCreationCost p t (mp_CacheCreationPricePerToken p) (if long then mp_LongContextInputMultiplier p else 1)"
  using assms by (simp add: token_costs_def tier_prices_def no_cost_def Let_def case_prod_beta cache_creation_by_kind)

text \<open>The split at a threshold loses the number of image tokens: they are charged as text.\<close>
lemma long_context_drops_image_input:
  assumes "0 < threshold" "1 < extra" "threshold < i64 (ut_CacheReadTokens t + ut_InputTokens t)"
    and "CalculateCostWithLongContext E model t rate threshold extra = Some bd"
  shows "cb_ImageInputCost bd = 0"
proof -
  have none: "ut_ImageInputTokens (fst (split_tokens t threshold)) = 0" "ut_ImageInputTokens (snd (split_tokens t threshold)) = 0"
    by (simp_all add: split_tokens_def Let_def case_prod_beta)
  have zero: "CalculateCost E model s r = Some c \<Longrightarrow> ut_ImageInputTokens s = 0 \<Longrightarrow> cb_ImageInputCost c = 0" for s r c
    by (auto simp: CalculateCost_def calculateCostInternalWithPolicy_def computeTokenBreakdown.simps token_costs_def no_cost_def
        Let_def case_prod_beta)
  show ?thesis
    using assms none by (auto simp: CalculateCostWithLongContext_def case_prod_beta dest!: zero split: option.splits)
qed

text \<open>A tier whose price is 0 is charged at the default price.\<close>
lemma free_tier_costs_default:
  "cb_TotalCost (calculatePerRequestCost
     (resolved_zero\<lparr>rz_RequestTiers := [interval_example 0 None 1\<lparr>pi_TierLabel := ''1K'', pi_PerRequestPrice := Some 0\<rparr>],
        rz_DefaultPerRequestPrice := 5\<rparr>)
     (example_input no_prices (example_tokens 10 0 0 0)\<lparr>co_SizeTier := ''1K''\<rparr>)) = 5"
  by (simp add: calculatePerRequestCost_def GetRequestTierPrice_def GetRequestTierPriceByContext_def FindMatchingInterval_def
      interval_matches_def interval_example_def example_input_def example_tokens_def resolved_zero_def no_cost_def
      total_context_def i64_small)

text \<open>A kind of token that an interval leaves out is free in it, whatever its price elsewhere.\<close>
lemma interval_without_output_price:
  "mp_OutputPricePerToken (intervalToModelPricing iv b None) = 0" if "pi_OutputPrice iv = None"
  using that by (simp add: intervalToModelPricing_def set_cache_read_def set_cache_write_def set_output_def set_input_def no_prices_def
      split: option.splits)

text \<open>Tiers of a price per request may overlap, and the order of the rows decides the price by context.\<close>
lemma overlapping_tiers_pass:
  "ValidateIntervals [interval_example 0 None 1\<lparr>pi_PerRequestPrice := Some 1\<rparr>, interval_example 5 None 1\<lparr>pi_PerRequestPrice := Some 2\<rparr>]
     BillingModePerRequest = None \<and>
   GetRequestTierPriceByContext (resolved_zero\<lparr>rz_RequestTiers :=
     [interval_example 0 None 1\<lparr>pi_PerRequestPrice := Some 1\<rparr>, interval_example 5 None 1\<lparr>pi_PerRequestPrice := Some 2\<rparr>]\<rparr>) 10 = 1 \<and>
   GetRequestTierPriceByContext (resolved_zero\<lparr>rz_RequestTiers :=
     [interval_example 5 None 1\<lparr>pi_PerRequestPrice := Some 2\<rparr>, interval_example 0 None 1\<lparr>pi_PerRequestPrice := Some 1\<rparr>]\<rparr>) 10 = 2"
  by (simp add: ValidateIntervals_def validateSingleInterval_def validateIntervalPrices_def negative_def per_use_mode_def Let_def
      GetRequestTierPriceByContext_def FindMatchingInterval_def interval_matches_def interval_example_def resolved_zero_def)

text \<open>The two ways to the flat prices of a channel: the resolver's and \<open>GetModelPricingWithChannel\<close>.\<close>
lemma channel_price_paths_agree:
  assumes "filterValidIntervals (ch_Intervals ch) = []" "GetModelPricing E model = Some base"
  shows "rz_BasePricing (applyTokenOverrides ch (resolved_zero\<lparr>rz_BasePricing := Some base\<rparr>)) = GetModelPricingWithChannel E model (Some ch)"
  using assms by (simp add: applyTokenOverrides_def GetModelPricingWithChannel_def resolved_zero_def)

section \<open>Where a price comes from\<close>

definition exact_name :: "pricing_env \<Rightarrow> string \<Rightarrow> string \<times> ChannelModelPricing \<Rightarrow> bool" where
  "exact_name E model pe \<longleftrightarrow> normalizeChannelPricingModelName E (fst pe) = model"

definition wildcard_name :: "pricing_env \<Rightarrow> string \<Rightarrow> string \<times> ChannelModelPricing \<Rightarrow> bool" where
  "wildcard_name E model pe \<longleftrightarrow>
     (let n = normalizeChannelPricingModelName E (fst pe) in n \<noteq> [] \<and> last n = CHR ''*'' \<and> starts_with model (butlast n))"

text \<open>The first entry that names the model, or else the first whose wildcard covers it.\<close>
lemma exact_name_before_wildcard:
  "match_patterns E model ps w =
     (case find (exact_name E model) ps of
        Some (_, entry) \<Rightarrow> Some entry
      | None \<Rightarrow> (case w of Some entry \<Rightarrow> Some entry | None \<Rightarrow> map_option snd (find (wildcard_name E model) ps)))"
  by (induction ps arbitrary: w) (auto simp: exact_name_def wildcard_name_def Let_def split: option.splits)

text \<open>A group's own prices come before those of its channel, and these before the catalog and the fallback table.\<close>

lemma override_source [simp]:
  "rz_Source (applyRequestTierOverrides ch r) = rz_Source r" "rz_Source (applyTokenOverrides ch r) = rz_Source r"
  "rz_Source (applyFirstTokenTier c r) = rz_Source r" "rz_Source (resolveConfiguredPricing E ch model source) = source"
  by (simp_all add: applyRequestTierOverrides_def applyTokenOverrides_def applyFirstTokenTier_def resolveConfiguredPricing_def
      resolved_zero_def Let_def split: option.splits)

lemma base_source: "snd (resolveBasePricing E model) = (if GetModelPricing E model \<noteq> None then PricingSourceLiteLLM else PricingSourceFallback)"
  by (simp add: resolveBasePricing_def split: option.splits)

lemma price_source:
  assumes chan: "pe_channel E = Some channels" "\<And>g m. channels 1 g m = channels 0 g m"
  shows "rz_Source (Resolve E model (Some gid) grp) =
    (if matchGroupModelPricing E grp model \<noteq> None then PricingSourceGroup
     else if channels 0 gid model \<noteq> None then PricingSourceChannel
     else if GetModelPricing E model \<noteq> None then PricingSourceLiteLLM else PricingSourceFallback)"
proof (cases "matchGroupModelPricing E grp model")
  case (Some g) then show ?thesis by (simp add: Resolve_def Let_def)
next
  case None
  note base_source [of E model, simp]
  show ?thesis
  proof (cases "channels 0 gid model")
    case (Some ch)
    with None chan show ?thesis
      by (cases "per_use_mode (mode_or_token (ch_BillingMode ch))") (simp_all add: Resolve_def Let_def case_prod_beta resolved_zero_def)
  next
    case none: None
    then have "channels 1 gid model = None" using chan(2) by simp
    with None none chan(1) show ?thesis
      by (simp add: Resolve_def Let_def case_prod_beta applyChannelOverrides_def resolved_zero_def)
  qed
qed

end
