(* ===== verification/Price_Correct.thy ===== *)
theory Price_Correct
  imports Token_Pricing_Correct
begin

text \<open>
  The prices in the code: every name that the search answers has a card, and no card is a gift; what the
  search in the catalog depends on; names that stay as they are; the prices of images and videos.
\<close>

section \<open>Cards\<close>

definition sound_multipliers :: "ModelPricing \<Rightarrow> bool" where
  "sound_multipliers p \<longleftrightarrow>
     (0 < mp_LongContextInputMultiplier p \<longrightarrow> 1 \<le> mp_LongContextInputMultiplier p) \<and>
     (0 < mp_LongContextOutputMultiplier p \<longrightarrow> 1 \<le> mp_LongContextOutputMultiplier p)"

definition good_card :: "ModelPricing \<Rightarrow> bool" where
  "good_card p \<longleftrightarrow> fair p \<and> sound_multipliers p \<and> \<not> mp_SupportsCacheBreakdown p"

lemmas card_defs = good_card_def sound_multipliers_def fair_def no_prices_def per_million_def opus_card_def gpt54_card_def

lemma good_cards: "list_all (\<lambda>(key, p). good_card p) initFallbackPricing"
proof -
  have 1: "list_all (\<lambda>(key, p). good_card p) claude_cards" "list_all (\<lambda>(key, p). good_card p) gemini_cards"
    by (simp_all add: claude_cards_def gemini_cards_def card_defs)
  have 2: "list_all (\<lambda>(key, p). good_card p) gpt_cards" by (simp add: gpt_cards_def card_defs)
  have 3: "list_all (\<lambda>(key, p). good_card p) deepseek_cards" "list_all (\<lambda>(key, p). good_card p) glm_cards"
    by (simp_all add: deepseek_cards_def glm_cards_def card_defs)
  have 4: "list_all (\<lambda>(key, p). good_card p) kimi_cards" "list_all (\<lambda>(key, p). good_card p) minimax_cards"
    by (simp_all add: kimi_cards_def minimax_cards_def card_defs)
  have 5: "list_all (\<lambda>(key, p). good_card p) doubao_cards" "list_all (\<lambda>(key, p). good_card p) grok_prices"
    by (simp_all add: doubao_cards_def grok_prices_def card_defs)
  from 1 2 3 4 5 show ?thesis by (simp add: initFallbackPricing_def)
qed

definition card_keys :: "string list" where
  "card_keys = map fst initFallbackPricing"

lemma rules_have_cards: "set (map snd (family_rules m)) \<subseteq> set card_keys"
  by (simp add: family_rules_def card_keys_def initFallbackPricing_def claude_cards_def gemini_cards_def gpt_cards_def
      deepseek_cards_def glm_cards_def kimi_cards_def minimax_cards_def doubao_cards_def grok_prices_def)

lemma claude_has_cards: "claude_key m = Some k \<Longrightarrow> k \<in> set card_keys"
  by (auto simp: claude_key_def card_keys_def initFallbackPricing_def claude_cards_def split: if_splits)

lemma names_have_cards:
  "set (map snd openai_keys) \<subseteq> set card_keys" "set (map snd grok_keys) \<subseteq> set card_keys" "''grok-4.5'' \<in> set card_keys"
  by (simp_all add: openai_keys_def grok_keys_def card_keys_def initFallbackPricing_def gpt_cards_def grok_prices_def)

lemma key_has_card:
  assumes "fallback_key lower model = Some k"
  shows "k \<in> set card_keys"
proof -
  have found: "find fst xs = Some (b, key) \<Longrightarrow> key \<in> set (map snd xs)" for xs :: "(bool \<times> string) list" and b key
    by (induction xs) (auto split: if_splits)
  have looked: "map_of xs n = Some key \<Longrightarrow> key \<in> set (map snd xs)" for xs :: "(string \<times> string) list" and n key
    by (force dest: map_of_SomeD)
  show ?thesis
    using assms claude_has_cards found [of "family_rules (lower model)"] rules_have_cards [of "lower model"] looked names_have_cards
    by (auto simp: fallback_key_def Let_def grokUnknownTextFamilyFallback_def simp del: set_map split: option.splits if_splits)
qed

lemma fallback_is_good:
  assumes "getFallbackPricing lower model = Some p"
  shows "good_card p"
  using assms good_cards by (auto simp: getFallbackPricing_def list_all_iff dest!: map_of_SomeD split: bind_splits)

lemma known_key_is_priced:
  assumes "fallback_key lower model = Some k"
  shows "getFallbackPricing lower model \<noteq> None"
  using key_has_card [OF assms] assms by (simp add: getFallbackPricing_def card_keys_def map_of_eq_None_iff)

text \<open>What the policy for OpenAI models does to a good card.\<close>

lemma cache_write_keeps_good: "good_card p \<Longrightarrow> good_card (default_cache_write p)"
  by (simp add: default_cache_write_def good_card_def fair_def sound_multipliers_def Let_def)

lemma long_context_keeps_good: "good_card p \<Longrightarrow> good_card (default_long_context p)"
  by (simp add: default_long_context_def good_card_def fair_def sound_multipliers_def Let_def)

lemma policy_keeps_good: "good_card p \<Longrightarrow> good_card (applyModelSpecificPricingPolicy E model p)"
  unfolding applyModelSpecificPricingPolicy_def Let_def
  by (intro if_split [where P = good_card, THEN iffD2] conjI impI long_context_keeps_good) (auto intro: cache_write_keeps_good)

definition no_token_price :: "pricing_env \<Rightarrow> string \<Rightarrow> bool" where
  "no_token_price E model \<longleftrightarrow> (case pe_catalog E (pe_lower E model) of None \<Rightarrow> True | Some l \<Rightarrow> ll_TokenPricingAbsent l)"

text \<open>A good card is kept by the policy, so a model that the catalog does not have is priced fairly.\<close>
lemma fallback_prices_good:
  assumes "GetModelPricing E model = Some p" "no_token_price E model"
  shows "good_card p"
  using assms fallback_is_good policy_keeps_good
  by (auto simp: GetModelPricing_def no_token_price_def Let_def split: option.splits if_splits)

section \<open>What the search in the catalog depends on\<close>

text \<open>A name that the catalog has, in one of its spellings, has one price.\<close>
lemma exact_price_fixed:
  assumes "c \<in> set (buildModelLookupCandidates lower (lower (trim_space m)))" "c \<noteq> []" "gget data c \<noteq> None"
  shows "catalog_GetModelPricing lower orders data m = catalog_GetModelPricing lower orders' data m"
proof -
  let ?cs = "buildModelLookupCandidates lower (lower (trim_space m))"
  have "find (\<lambda>c. c \<noteq> [] \<and> gget data c \<noteq> None) ?cs \<noteq> None" using assms by (auto simp: find_None_iff)
  then obtain d where d: "find (\<lambda>c. c \<noteq> [] \<and> gget data c \<noteq> None) ?cs = Some d" by blast
  then obtain p where p: "gget data d = Some p" by (auto simp: find_Some_iff)
  have "?cs \<noteq> []" using assms(1) by auto
  then have "lookupIdentifiedModelPricingLocked lower orders data ?cs = Some p" for orders
    unfolding lookupIdentifiedModelPricingLocked_def d by (simp add: p)
  then show ?thesis by (simp add: catalog_GetModelPricing_def Let_def)
qed

text \<open>A name that is only recognised by its family gets the price of whichever entry the loop over the map meets first.\<close>

definition two_opus :: catalog where
  "two_opus = [(''claude-opus-4-1'', no_catalog_prices\<lparr>ll_InputCostPerToken := per_million 15\<rparr>),
     (''claude-opus-4-5'', no_catalog_prices\<lparr>ll_InputCostPerToken := per_million 5\<rparr>)]"

lemma opus_name_1: "trim_space ''claude-opus-4-0'' = ''claude-opus-4-0''"
  by code_simp

lemma opus_name_2: "buildModelLookupCandidates (\<lambda>s. s) ''claude-opus-4-0'' = [''claude-opus-4-0'']"
  by code_simp

lemma opus_name_3: "replace_all ''-4-5-'' ''-4.5-'' ''claude-opus-4-0'' = ''claude-opus-4-0''"
  by code_simp

lemma opus_name_4: "extractBaseName ''claude-opus-4-0'' = ''claude-opus-4-0''"
  by code_simp

lemma opus_name_5: "extractBaseName ''claude-opus-4-1'' = ''claude-opus-4-1''"
  by code_simp

lemma opus_name_6: "extractBaseName ''claude-opus-4-5'' = ''claude-opus-4-5''"
  by code_simp

lemma opus_name_7: "family_of ''claude-opus-4-0'' = Some (''opus-4'', [''claude-opus-4'', ''claude-3-opus''], None)"
  by code_simp

lemma opus_name_8: "contains ''claude-opus-4-1'' ''claude-opus-4''"
  by code_simp

lemma opus_name_9: "contains ''claude-opus-4-5'' ''claude-opus-4''"
  by code_simp

lemmas opus_names = opus_name_1 opus_name_2 opus_name_3 opus_name_4 opus_name_5 opus_name_6 opus_name_7 opus_name_8 opus_name_9

lemma opus_search:
  "gget two_opus ''claude-opus-4-0'' = None"
  "map_option ll_InputCostPerToken (gget two_opus ''claude-opus-4-1'') = Some (per_million 15)"
  "map_option ll_InputCostPerToken (gget two_opus ''claude-opus-4-5'') = Some (per_million 5)"
  by (simp_all add: two_opus_def gget_def)

lemma opus_by_family:
  assumes "orders 0 = [a, b]" "extractBaseName a \<noteq> ''claude-opus-4-0''" "extractBaseName b \<noteq> ''claude-opus-4-0''"
    and "orders 1 = a # ks" "contains a ''claude-opus-4''" "gget two_opus a = Some p"
  shows "catalog_GetModelPricing (\<lambda>s. s) orders two_opus ''claude-opus-4-0'' = Some p"
proof -
  have "lookupIdentifiedModelPricingLocked (\<lambda>s. s) orders two_opus [''claude-opus-4-0''] = None"
    unfolding lookupIdentifiedModelPricingLocked_def assms(1) using assms(2,3) by (simp add: opus_search opus_name_3 opus_name_4)
  moreover have "matchByModelFamily (\<lambda>s. s) orders two_opus ''claude-opus-4-0'' = Some p"
    unfolding matchByModelFamily_def opus_name_7 using assms(4-6) by simp
  ultimately show ?thesis
    unfolding catalog_GetModelPricing_def Let_def opus_name_1 opus_name_2 by simp
qed

lemma price_depends_on_iteration:
  "map_option ll_InputCostPerToken (catalog_GetModelPricing (\<lambda>s. s) (\<lambda>k. [''claude-opus-4-1'', ''claude-opus-4-5'']) two_opus ''claude-opus-4-0'') =
     Some (per_million 15) \<and>
   map_option ll_InputCostPerToken (catalog_GetModelPricing (\<lambda>s. s) (\<lambda>k. [''claude-opus-4-5'', ''claude-opus-4-1'']) two_opus ''claude-opus-4-0'') =
     Some (per_million 5)"
proof
  obtain p q where p: "gget two_opus ''claude-opus-4-1'' = Some p" and q: "gget two_opus ''claude-opus-4-5'' = Some q"
    using opus_search by auto
  note ends = opus_name_5 opus_name_6
  have "catalog_GetModelPricing (\<lambda>s. s) (\<lambda>k. [''claude-opus-4-1'', ''claude-opus-4-5'']) two_opus ''claude-opus-4-0'' = Some p"
    by (rule opus_by_family [OF refl _ _ refl opus_name_8 p]) (simp_all add: ends)
  then show "map_option ll_InputCostPerToken
      (catalog_GetModelPricing (\<lambda>s. s) (\<lambda>k. [''claude-opus-4-1'', ''claude-opus-4-5'']) two_opus ''claude-opus-4-0'') = Some (per_million 15)"
    using opus_search(2) p by simp
  have "catalog_GetModelPricing (\<lambda>s. s) (\<lambda>k. [''claude-opus-4-5'', ''claude-opus-4-1'']) two_opus ''claude-opus-4-0'' = Some q"
    by (rule opus_by_family [OF refl _ _ refl opus_name_9 q]) (simp_all add: ends)
  then show "map_option ll_InputCostPerToken
      (catalog_GetModelPricing (\<lambda>s. s) (\<lambda>k. [''claude-opus-4-5'', ''claude-opus-4-1'']) two_opus ''claude-opus-4-0'') = Some (per_million 5)"
    using opus_search(3) q by simp
qed

text \<open>Where the catalog has no price, Claude Haiku 4.5 has the card of Claude 3 Haiku.\<close>
lemma haiku_45_priced_as_3: "fallback_key (\<lambda>s. s) ''claude-haiku-4-5-20251001'' = Some ''claude-3-haiku''"
  by code_simp

section \<open>Names of OpenAI models\<close>

definition known_names :: "string list" where
  "known_names = remdups (map snd codexModelMap @ map snd known_model_rules @ [''gpt-5.6-sol'', ''gpt-5.6-terra'', ''gpt-5.6-luna''])"

definition spelled :: "string \<Rightarrow> bool" where
  "spelled n \<longleftrightarrow> n \<noteq> [] \<and> lastOpenAIModelSegment n = n \<and> canonicalizeOpenAIModelAliasSpelling (\<lambda>s. s) n = n \<and>
     codexModelLookupKey (\<lambda>s. s) n = n"

lemma names_spelled: "list_all spelled known_names"
  by code_simp

lemma names_kept:
  "list_all (\<lambda>n. map_of codexModelMap n = Some n \<or> map_of codexModelMap n = None \<and> \<not> ends_with n ''-openai-compact'' \<and> switch_known_model n = n)
     known_names"
  by code_simp

lemma spelled_lower:
  assumes "spelled n" "lower n = n"
  shows "canonicalizeOpenAIModelAliasSpelling lower n = n" "codexModelLookupKey lower n = n"
proof -
  show "canonicalizeOpenAIModelAliasSpelling lower n = n"
    using assms unfolding spelled_def canonicalizeOpenAIModelAliasSpelling_def by (elim conjE) (simp only:)
  show "codexModelLookupKey lower n = n"
    using assms by (simp add: spelled_def codexModelLookupKey_def Let_def split: if_splits)
qed

lemma found_rule: "find (\<lambda>(marker, target). contains s marker) rs = Some (a, b) \<Longrightarrow> b \<in> set (map snd rs)"
  by (induction rs) (auto split: if_splits)

lemma in_known_names: "set (map snd codexModelMap) \<subseteq> set known_names" "set (map snd known_model_rules) \<subseteq> set known_names"
  "''gpt-5.6-sol'' \<in> set known_names" "''gpt-5.6-terra'' \<in> set known_names" "''gpt-5.6-luna'' \<in> set known_names"
  unfolding known_names_def set_remdups set_append by auto

lemma mapped_known: "getNormalizedCodexModel lower k \<noteq> [] \<Longrightarrow> getNormalizedCodexModel lower k \<in> set known_names"
proof -
  have "map_of codexModelMap key = Some n \<Longrightarrow> n \<in> set known_names" for key n
    using in_known_names(1) by (fastforce dest: map_of_SomeD)
  then show "getNormalizedCodexModel lower k \<noteq> [] \<Longrightarrow> getNormalizedCodexModel lower k \<in> set known_names"
    by (simp add: getNormalizedCodexModel_def Let_def split: option.splits if_splits)
qed

lemma if_in: "x \<in> S \<Longrightarrow> y \<in> S \<Longrightarrow> (if b then x else y) \<in> S"
  by simp

lemma switched_known: "switch_known_model s \<noteq> [] \<Longrightarrow> switch_known_model s \<in> set known_names"
proof -
  have rule: "find (\<lambda>(marker, target). contains s marker) known_model_rules = Some (a, b) \<Longrightarrow> b \<in> set known_names" for a b
    by (rule subsetD [OF in_known_names(2)], rule found_rule)
  let ?rules = "find (\<lambda>(marker, target). contains s marker) known_model_rules" and ?K = "insert [] (set known_names)"
  have "(case ?rules of Some (marker, target) \<Rightarrow> target | None \<Rightarrow> []) \<in> ?K"
    using rule by (cases ?rules) (auto simp del: find.simps)
  then have "switch_known_model s \<in> ?K"
    unfolding switch_known_model_def using in_known_names(3-5)
    by (cases "cut_prefix s ''gpt-5.6-''") (auto intro!: if_in simp del: find.simps contains.simps)
  then show "switch_known_model s \<noteq> [] \<Longrightarrow> switch_known_model s \<in> set known_names" by simp
qed

lemma normalized_known: "normalizeKnownOpenAICodexModel lower m \<noteq> [] \<Longrightarrow> normalizeKnownOpenAICodexModel lower m \<in> set known_names"
  unfolding normalizeKnownOpenAICodexModel_def Let_def using mapped_known switched_known by (simp split: if_splits)

text \<open>A normalized name is its own normal form, so asking about it again changes nothing.\<close>
lemma known_name_idem:
  assumes "lower [] = []" "\<And>n. n \<in> set known_names \<Longrightarrow> lower n = n"
  shows "normalizeKnownOpenAICodexModel lower (normalizeKnownOpenAICodexModel lower m) = normalizeKnownOpenAICodexModel lower m"
proof (cases "normalizeKnownOpenAICodexModel lower m = []")
  case True
  have "canonicalizeOpenAIModelAliasSpelling lower [] = []"
    by (simp add: canonicalizeOpenAIModelAliasSpelling_def lastOpenAIModelSegment_def trim_nothing Let_def assms(1))
  with True show ?thesis by (simp add: normalizeKnownOpenAICodexModel_def)
next
  case False
  let ?n = "normalizeKnownOpenAICodexModel lower m"
  have n: "?n \<in> set known_names" by (rule normalized_known [OF False])
  have sp: "spelled ?n" using names_spelled n by (simp add: list_all_iff)
  note l = spelled_lower [of ?n lower, OF sp assms(2) [OF n]]
  have "map_of codexModelMap ?n = Some ?n \<or>
      map_of codexModelMap ?n = None \<and> \<not> ends_with ?n ''-openai-compact'' \<and> switch_known_model ?n = ?n"
    using names_kept n by (simp add: list_all_iff)
  then show ?thesis
    using False l by (auto simp: normalizeKnownOpenAICodexModel_def [of lower ?n] getNormalizedCodexModel_def Let_def)
qed

section \<open>Sizes of images\<close>

lemma tier_ranks: "imageTierRank ImageBillingSize1K = 1" "imageTierRank ImageBillingSize2K = 2" "imageTierRank ImageBillingSize4K = 3"
  "imageTierRank [] = 0"
  by code_simp+

lemma classified_rank: "ClassifyImageBillingTier lower x = Some tier \<Longrightarrow> 0 < imageTierRank tier"
  using tier_ranks by (auto simp: ClassifyImageBillingTier_def Let_def split: if_splits option.splits)

definition classified :: "(string \<Rightarrow> string) \<Rightarrow> string list \<Rightarrow> string list" where
  "classified lower outputs = List.map_filter (ClassifyImageBillingTier lower) outputs"

lemma counted_tier:
  "snd (foldl (count_tier lower) (b, t) outputs) \<in> insert t (set (classified lower outputs)) \<and>
   (\<forall>u \<in> insert t (set (classified lower outputs)). imageTierRank u \<le> imageTierRank (snd (foldl (count_tier lower) (b, t) outputs)))"
proof (induction outputs arbitrary: b t)
  case (Cons x outputs)
  show ?case
  proof (cases "ClassifyImageBillingTier lower x")
    case None
    then have "foldl (count_tier lower) (b, t) (x # outputs) = foldl (count_tier lower) (b, t) outputs" by (simp add: count_tier_def)
    with Cons.IH [of b t] None show ?thesis by (simp add: classified_def List.map_filter_simps)
  next
    case (Some tier)
    then obtain b' where step: "count_tier lower (b, t) x = (b', if imageTierRank t < imageTierRank tier then tier else t)"
      by (simp add: count_tier_def)
    show ?thesis
      using Cons.IH [of b' "if imageTierRank t < imageTierRank tier then tier else t"] Some
      by (auto simp: step classified_def List.map_filter_simps split: if_splits)
  qed
qed (simp add: classified_def List.map_filter_simps)

text \<open>A request is billed at the largest tier of its outputs, wherever one of them has a known size.\<close>
lemma billed_tier_is_largest:
  assumes "u \<in> set (classified lower (compactTrimmedStrings outputs))"
  shows "iz_BillingSize (ResolveImageBillingSize lower input outputs) \<in> set (classified lower (compactTrimmedStrings outputs)) \<and>
    imageTierRank u \<le> imageTierRank (iz_BillingSize (ResolveImageBillingSize lower input outputs)) \<and>
    iz_Source (ResolveImageBillingSize lower input outputs) = ImageSizeSourceOutput"
proof -
  let ?f = "foldl (count_tier lower) ([], []) (compactTrimmedStrings outputs)"
  note c = counted_tier [of lower "[]" "[]" "compactTrimmedStrings outputs"]
  have "0 < imageTierRank u" using assms classified_rank by (auto simp: classified_def List.map_filter_def)
  then have "snd ?f \<noteq> []" using c assms tier_ranks(4) by auto
  then show ?thesis
    using c assms by (auto simp: ResolveImageBillingSize_def Let_def case_prod_beta)
qed

section \<open>Properties\<close>

text \<open>
  C21. A model without a token price in the catalog whose name is recognised is always billed: there is a card for
  the name, what it charges is never negative, and using more of any kind of token never costs less.
\<close>
theorem recognised_names_are_billed:
  assumes "no_token_price E model" "fallback_key (pe_lower E) (pe_lower E model) = Some key"
    and "sane_tokens s" "sane_tokens t" "\<And>k. kind_count no_prices s k \<le> kind_count no_prices t k"
  shows "\<exists>c d. CalculateCostWithServiceTier E model s rate tier = Some c \<and> CalculateCostWithServiceTier E model t rate tier = Some d \<and>
    0 \<le> cb_ActualCost c \<and> cb_ActualCost c \<le> cb_ActualCost d"
proof -
  obtain p where p: "GetModelPricing E model = Some p"
    using known_key_is_priced [OF assms(2)] assms(1)
    by (auto simp: GetModelPricing_def no_token_price_def Let_def split: option.splits)
  have good: "good_card p" by (rule fallback_prices_good [OF p assms(1)])
  have plain: "kind_count p = kind_count no_prices"
    using good by (intro ext, rename_tac u k, case_tac k) (simp_all add: good_card_def by_duration_def no_prices_def)
  have ctx: "total_context s \<le> total_context t"
    using assms(5) [of TextIn] assms(5) [of ImageIn] assms(5) [of CacheWrite] assms(5) [of CacheRead]
    by (auto simp: sane_differences assms(3,4) by_duration_def no_prices_def max_def min_def split: if_splits)
  have fair: "fair p" using good by (simp add: good_card_def)
  have "kind_count p s k \<le> kind_count p t k" for k using assms(5) plain by simp
  from costs_grow [OF fair assms(3,4) this ctx order_refl] p show ?thesis
    by (simp add: CalculateCostWithServiceTier_def calculateCostInternalWithPolicy_def)
qed

lemma recognised_names_are_billed_witness:
  "\<exists>c d. CalculateCostWithServiceTier example_env ''k3'' (example_tokens 10 5 0 0) 1 [] = Some c \<and>
     CalculateCostWithServiceTier example_env ''k3'' (example_tokens 20 5 0 0) 1 [] = Some d \<and>
     0 \<le> cb_ActualCost c \<and> cb_ActualCost c \<le> cb_ActualCost d"
proof (rule recognised_names_are_billed)
  show "no_token_price example_env ''k3''" by (simp add: no_token_price_def example_env_def)
  show "fallback_key (pe_lower example_env) (pe_lower example_env ''k3'') = Some ''kimi-k3''"
    unfolding example_env_def pricing_env.simps by code_simp
  show "sane_tokens (example_tokens 10 5 0 0)" "sane_tokens (example_tokens 20 5 0 0)"
    by (simp_all add: sane_tokens_def token_fields_def example_tokens_def)
  show "kind_count no_prices (example_tokens 10 5 0 0) k \<le> kind_count no_prices (example_tokens 20 5 0 0) k" for k
    by (cases k) (simp_all add: example_tokens_def by_duration_def no_prices_def)
qed

end
