(* ===== verification/Spec2Isabelle.thy ===== *)
theory Spec2Isabelle
  imports Anthropic_Round_Trip Responses_To_Chat_Client Idempotency_Exclusive Stream_Circuit Abuse_Limiter
    Payment_Correct Payment_Refund_Claims Usage_Quota_Correct Batch_Holds_Correct
    Keyword_Matcher_Correct Ws_State_Store_Correct Concurrency_Release Price_Correct
begin

text \<open>
  A verification library for sub2api (backend/, Go): a gateway that sells access to language
  models. Clients speak one of three protocols (Anthropic Messages, OpenAI Responses, OpenAI
  Chat Completions); the gateway picks an upstream account, translates the answer, meters it and
  charges the user's balance, which the user fills by paying orders or redeeming codes. Below,
  a path is relative to backend/internal/.

  \<^bold>\<open>Shared ground.\<close> \<open>Prelude\<close> has Go's integers (64 bits, wrapping), times, byte strings and maps,
  and the interface \<open>go_map\<close>, interpreted on association lists (\<open>gm\<close>). \<open>Strconv\<close> has numbers in
  strings, \<open>Decimal\<close> decimals and their rounding. \<open>Sse_Stream\<close> has the interfaces \<open>stream_protocol\<close> and \<open>stream_content\<close> of a
  stateful event converter, with the facts about whole streams that follow from facts about one
  event. \<open>Interleaving\<close> has requests that share a store and interleave statement by statement,
  the faults of a statement, and two interfaces: \<open>stable_steps\<close> (what a request relies on cannot
  be undone by others, so an invariant of one step holds in every run) and \<open>ranked_steps\<close> (each
  step counts down, so requests return).

  \<^bold>\<open>Protocol converters\<close> (pkg/apicompat/). \<open>Compat_Types\<close> has the wire structs of types.go, one record
  per struct; encoding/json is the parameter \<open>json_lib\<close>.
  \<^item> \<open>Responses_To_Anthropic\<close> and \<open>Responses_To_Anthropic_Content\<close> (responses_to_anthropic.go): the
    whole-response and the event-by-event conversion. The stream that comes out is accepted by
    an automaton of the Anthropic protocol, is closed by finalisation, carries the text of the
    input, and accounts for its input tokens (C11, C37, C38).
  \<^item> \<open>Anthropic_To_Responses\<close> and \<open>Anthropic_To_Responses_Client\<close> (anthropic_to_responses_response.go):
    the other direction, read by an accumulating client as the OpenAI SDK has one
    (C12, for streams in which only a tool use follows a text; streams on which the
    client fails stand beside it).
  \<^item> \<open>Anthropic_Round_Trip\<close>: the two directions against each other: counts of tokens (C35) and
    responses without what the Responses format cannot hold (C34).
  \<^item> \<open>Responses_To_Chat\<close> and \<open>Responses_To_Chat_Client\<close> (responses_to_chatcompletions.go): the stream
    converter against the buffered accumulator, for streams with one terminal event at the end
    (C13).

  \<^bold>\<open>Idempotency\<close> (service/idempotency.go, repository/idempotency_repo.go). \<open>Idempotency_Store\<close> has
  the table and its statements, with the laws \<open>claim_store\<close> the coordinator needs;
  \<open>Idempotency_Coordinator\<close> has \<open>Execute\<close> as a step per statement; \<open>Idempotency_Exclusive\<close> proves
  in every interleaving and with every fault that only one request runs a key at a time
  (C8), that a key succeeds once and then answers, as long as its record has not
  expired (C9), and what is stored of a response (C39).

  \<^bold>\<open>Guards in memory.\<close> \<open>Stream_Circuit\<close> (service/openai_proxy_stream_circuit.go) is the breaker that
  quarantines a proxy after repeated disconnects (C24, C25); \<open>Abuse_Limiter\<close>
  (service/invalid_auth_abuse_limiter.go) the limiter for clients with invalid keys, whose locked
  sections interleave: it counts its entries (C19), blocks a client with the failure that reaches
  the threshold (C31), and judges a client it tracks by that client's failures only
  (C32). The order in which Go ranges over a map is an argument.

  \<^bold>\<open>Payments\<close> (payment/currency.go and service/payment_*.go, redeem_service.go,
  repository/redeem_code_repo.go, user_repo.go).
  \<^item> \<open>Payment_Checks\<close>: amounts and currencies (within 64 bits, C36), and what a notification has
    to match.
  \<^item> \<open>Payment_Store\<close>: orders, codes, balances, the audit log, and the statements on them; how the
    tables may evolve (\<open>db_evolves\<close>).
  \<^item> \<open>Payment_Fulfillment\<close>: from \<open>HandlePaymentNotification\<close> to the credited balance or the assigned
    subscription; each Go function is a definition of its name, or one per statement where it
    has several, and \<open>ful_step\<close> composes them. \<open>Payment_Orders\<close>: cancelling, expiring, verifying,
    reconciling, retrying and creating orders (\<open>order_step\<close>). A creation starts with the insertion of
    the order, goes on with the call of the provider, and sets the order to FAILED when that call or
    the update after it errs.
  \<^item> \<open>Payment_Invariant\<close>: the invariant \<open>pay_inv\<close> of the tables and that every statement keeps it;
    \<open>Payment_Exactly_Once\<close>: what a request relies on between its statements (\<open>order_fact\<close>), that
    nobody undoes it, and that every step is sound. \<open>Payment_Runs\<close> interprets \<open>stable_steps\<close> and
    \<open>ranked_steps\<close> on \<open>order_step\<close>. \<open>Payment_Arrival\<close> follows one undisturbed notification from its
    lookup to the completed order, and has the runs in which the code does not do what it means to: a
    late failure of a creation, the fulfilment of a FAILED order, another user's redemption of an order's
    code. \<open>Payment_Correct\<close> concludes for runs from tables without orders, in which users may redeem any
    code: money is credited once (C1), subscriptions are granted once
    (C16), fulfilment accrues one rebate per order (C28), a payment is
    never undone, and a completed order stays fulfilled, and COMPLETED when its creation has returned
    (C7); a notification that does not fit pays nothing (C29),
    and one that fits completes the order (C17, C30).
    The column \<open>pd_accepted\<close> is a history of the accepted notifications; the program has no such column.

  \<^bold>\<open>Refunds\<close> (service/payment_refund.go, payment_amounts.go, and what they call of subscription_service.go,
  load_balancer.go, user_repo.go).
  \<^item> \<open>Payment_Refund\<close>: a user's request, an administrator's attempt and the query of a pending refund,
    each a phase per statement or call (\<open>refund_step\<close>). Its order row extends the one of the payments.
  \<^item> \<open>Payment_Refund_Correct\<close>: one request at a time works on an order, and a success of the gateway
    is its last call (C5). \<open>Payment_Refund_Balance\<close> adds the balances, and
    \<open>Payment_Refund_Claims\<close> concludes what a refund takes from its user (C4) and what the
    gateway is asked for (C33). The conditions of the first two name what the code
    relies on: no deduction happens unseen, a failed rollback is written down, and an answer that a
    pending refund failed is not written down while the order is being refunded again. Runs without them, and
    runs in which the code does not do what it means to, stand beside the theorems.

  \<^bold>\<open>Billing\<close> (service/usage_billing.go, batch_image_billing_hold.go, repository/usage_billing_repo.go).
  \<^item> \<open>Usage_Billing\<close>: normalising and fingerprinting a command, the transaction that claims its request
    and charges balance, subscription, API key, rate limits and account, the holds of batch jobs, and
    the job that archives old claims. A transaction is one step, which works, fails without effect,
    or takes effect unseen. SHA-256, the boundaries of days and the next reset of a quota are
    arguments; amounts are finite, and a column rounds to its digits (\<open>num8\<close>, \<open>num10\<close>).
  \<^item> \<open>Usage_Billing_Correct\<close>: each request takes effect at most once and the tables are the sum of the
    requests that did, when their amounts have the digits of the columns (C2). \<open>Usage_Quota_Correct\<close>: an API key is disabled exactly when its
    quota is used up, and one answer reports it (C18). \<open>Batch_Holds_Correct\<close>: an
    open hold can be settled, for exactly its amount (C6), and the runs that show what
    happens to amounts with too many digits and to releases that come too early or too late.

  \<^bold>\<open>Prices\<close> (service/billing_service.go, model_pricing_resolver.go, pricing_service.go, and the parts of channel.go,
  openai_model_alias.go, video_billing.go, image_billing_size.go and pkg/xai/models.go that they use).
  \<^item> \<open>Model_Names\<close>: how the names of models, resolutions and sizes are read. \<open>Price_Table\<close>: the prices that are
    written in the code, and which of them a name gets. \<open>Price_Catalog\<close>: the entries of the catalog file and the
    search in it; the order in which Go ranges over the map is an argument.
  \<^item> \<open>Token_Pricing\<close>: the resolver (group, channel, catalog, table), intervals and tiers, and the costs of tokens,
    uses, searches, sound, images and videos.
  \<^item> \<open>Token_Pricing_Correct\<close>: a request is billed item by item, each token once (C20); validated
    intervals leave no choice (C26); more is never cheaper where prices are fair; and which
    source a price comes from. \<open>Price_Correct\<close>: the prices in the code are fair, so every recognised name is
    billed (C21); normal forms of names are stable; an image request is billed at its
    largest tier; and what the price of a model can depend on.

  \<^bold>\<open>Keywords.\<close> \<open>Keyword_Matcher\<close> (service/content_moderation_keyword_matcher.go) is the automaton of
  content moderation, from the trie to the packed edges and the search;
  \<open>Keyword_Matcher_Correct\<close> follows it stage by stage, with the word of each node as a ghost, and
  shows that it finds the first keyword that occurs (C10). The loops along siblings have the
  number of edges as fuel, those along failure links and the queue the number of nodes: a failure
  link shortens the word and every node enters the queue once.

  \<^bold>\<open>Session state.\<close> \<open>Ws_State_Store\<close> (service/openai_ws_state_store.go) remembers which account and
  connection served a response or a session of the WebSocket gateway. In \<open>Ws_State_Store_Correct\<close>
  the locked sections of all calls interleave; the interface \<open>binding_map\<close>, interpreted on each of
  the four maps, gives that a lookup finds the last binding of its own group and name or nothing
  (C22), and finds it as long as it lives (C23).

  \<^bold>\<open>Concurrency slots\<close> (repository/concurrency_cache.go, service/concurrency_service.go,
  handler/gateway_helper.go and the part of gateway_handler.go that waits for an account).
  \<^item> \<open>Redis_Store\<close>: sorted sets and counters with deadlines, the commands that the cache sends, and its Lua
    scripts, one definition per script. A function that calls Redis is a program: a value, or a command with
    a continuation for its answer, so that between two commands of a request others may run.
  \<^item> \<open>Concurrency_Cache\<close>: the keys and each operation of the cache, with the index of active accounts, the
    clean-ups, and the sweep at the start of a process. \<open>Concurrency_Service\<close>: the release functions, the
    loop that waits, and \<open>request_prog\<close>, the whole program of a request, a session, a query or a worker.
    \<open>scan_delete\<close> has the number of pages of a scan as fuel, and a scan that is longer counts as failed: a
    bound on the answers of Redis, which repeats pages as it likes.
  \<^item> \<open>Concurrency_Correct\<close>: what a command does to one set, the interface \<open>clocked_invariant\<close> (what every
    allowed command and the passing of time keep, every run keeps), and \<open>leased_set\<close>, which extends it: a
    set whose members are granted, given back and time out, and never exceed its capacity.
    \<open>Concurrency_Slots\<close> interprets it on the slots of accounts and users; \<open>Concurrency_Programs\<close> describes
    the commands that any request can send.
  \<^item> \<open>Concurrency_Claims\<close>: limits are kept by the requests of one process and by WebSockets (C3, C27), refusals have a reason
    (C14), keys have types (C40), and runs that show where the guarantees
    end: a second instance that starts, a count that failed, a broken pipeline.
    \<open>Concurrency_Release\<close>: requests give back what they take (C15).

  Times of several machines are not related: every step reads its own clock from its input. A
  statement of the database is atomic, works, fails without effect, or takes effect although its
  caller sees an error. A request that stops being scheduled has crashed.

  \<^bold>\<open>Not modelled\<close>, and why: request conversion and the structs' custom JSON (they are mostly
  \<open>encoding/json\<close>, a parameter here); the HTTP handlers, middleware and gateway services, which
  move bytes between sockets and call these components; the choice of an account, which weighs
  floating-point statistics of running calls; the download of the price catalog and the caches of prices;
  which kind of cost the gateway asks for; subscriptions, affiliates and promotions beyond the
  statements that payments and refunds run; the administration API, settings and statistics (create, read,
  update, delete over single tables); backend/ent (generated); the web interface (another language);
  payment providers (other people's code: their answers are inputs). PostgreSQL and Redis appear through
  the statements, commands and scripts that the source sends them, with their documented meaning. float64
  amounts are rational numbers: the rounding of decimal libraries and columns is modelled, that of float64
  is not.
\<close>

end
